(* ===== verification/Js_Prelude.thy ===== *)
theory Js_Prelude
  imports Complex_Main
begin

section \<open>The JavaScript values the code computes with\<close>

text \<open>
  What every component of the model shares: the values of JavaScript the sources use, and the
  generic lemmas about them.

  \<^item> A string is Isabelle's \<open>string\<close>, one \<open>char\<close> for one UTF-16 code unit: the model
    covers the strings whose code units are below 256, and \<open>length\<close> is JavaScript's.
  \<^item> A number is a \<open>js_number\<close>: a finite value as an exact rational, or one of the three
    values that are not finite. A number the code only uses as a count or an index is a
    \<open>nat\<close> or an \<open>int\<close>.
  \<^item> A \<open>Date\<close> is the integer number of milliseconds since the epoch.
  \<^item> A value of type \<open>unknown\<close> that came from \<open>JSON.parse\<close> is a \<open>json\<close>; a property that
    is not there reads as \<open>JUndefined\<close>.
  \<^item> \<open>null\<close> in a typed position is \<open>None\<close>.
\<close>

named_theorems js_simps \<open>evaluation of the JavaScript primitives\<close>
named_theorems handler_defs \<open>the handlers of a component, one per case of its switch\<close>

type_synonym date = int

datatype js_number = Finite rat | PosInf | NegInf | NotANumber

datatype json =
    JNull
  | JUndefined
  | JBool bool
  | JNumber js_number
  | JString string
  | JArray "json list"
  | JObject "(string \<times> json) list"

abbreviation jint :: "int \<Rightarrow> json" where
  "jint n \<equiv> JNumber (Finite (of_int n))"

subsection \<open>Strings\<close>

definition js_space :: "char \<Rightarrow> bool" where
  "js_space c = (c \<in> set [CHR 0x09, CHR 0x0A, CHR 0x0B, CHR 0x0C, CHR 0x0D, CHR 0x20, CHR 0xA0])"

definition js_trim :: "string \<Rightarrow> string" where
  "js_trim s = rev (dropWhile js_space (rev (dropWhile js_space s)))"

text \<open>\<open>value.trim()\<close> used as a condition: the string has something that is not blank.\<close>

definition nonblank :: "string \<Rightarrow> bool" where
  "nonblank s = (js_trim s \<noteq> [])"

lemma nonblank_iff: "nonblank s \<longleftrightarrow> (\<exists>c \<in> set s. \<not> js_space c)"
proof -
  have "dropWhile js_space (rev (dropWhile js_space s)) = [] \<longleftrightarrow> (\<forall>c \<in> set (dropWhile js_space s). js_space c)"
    by simp
  also have "\<dots> \<longleftrightarrow> (\<forall>c \<in> set s. js_space c)"
  proof (induction s)
    case (Cons a s)
    then show ?case by auto
  qed simp
  finally show ?thesis by (auto simp: nonblank_def js_trim_def)
qed

lemma nonblank_Nil [simp]: "\<not> nonblank []"
  by (simp add: nonblank_iff)

lemma nonblank_not_Nil: "nonblank s \<Longrightarrow> s \<noteq> []"
  by auto

lemma js_trim_subset: "set (js_trim s) \<subseteq> set s"
  by (auto simp: js_trim_def dest!: set_dropWhileD)

text \<open>A string or \<open>null\<close> as a condition: an empty one is none.\<close>

definition truthy :: "string option \<Rightarrow> bool" where
  "truthy s = (s \<noteq> None \<and> s \<noteq> Some [])"

lemma truthy_Some: "truthy s \<longleftrightarrow> (\<exists>v. s = Some v \<and> v \<noteq> [])"
  by (cases s) (auto simp: truthy_def)

definition char_between :: "char \<Rightarrow> char \<Rightarrow> char \<Rightarrow> bool" where
  "char_between lo hi c = ((of_char lo :: nat) \<le> of_char c \<and> (of_char c :: nat) \<le> of_char hi)"

definition is_digit :: "char \<Rightarrow> bool" where
  "is_digit c = char_between (CHR ''0'') (CHR ''9'') c"

definition is_lower :: "char \<Rightarrow> bool" where
  "is_lower c = char_between (CHR ''a'') (CHR ''z'') c"

definition is_upper :: "char \<Rightarrow> bool" where
  "is_upper c = char_between (CHR ''A'') (CHR ''Z'') c"

text \<open>The class \<^verbatim>\<open>[A-Za-z0-9_-]\<close> of the identifiers the runner mints.\<close>

definition is_id_char :: "char \<Rightarrow> bool" where
  "is_id_char c = (is_upper c \<or> is_lower c \<or> is_digit c \<or> c = CHR ''_'' \<or> c = CHR ''-'')"

subsection \<open>Numbers\<close>

definition is_integer :: "js_number \<Rightarrow> bool" where
  "is_integer n = (case n of Finite q \<Rightarrow> of_int \<lfloor>q\<rfloor> = q | _ \<Rightarrow> False)"

definition int_of_number :: "js_number \<Rightarrow> int option" where
  "int_of_number n = (case n of Finite q \<Rightarrow> (if of_int \<lfloor>q\<rfloor> = q then Some \<lfloor>q\<rfloor> else None) | _ \<Rightarrow> None)"

definition max_safe_integer :: int where
  "max_safe_integer = 9007199254740991"

fun digits_of :: "nat \<Rightarrow> string" where
  "digits_of n =
     (if n < 10 then [char_of (48 + n)] else digits_of (n div 10) @ [char_of (48 + n mod 10)])"

declare digits_of.simps [simp del]

definition string_of_int :: "int \<Rightarrow> string" where
  "string_of_int i = (if i < 0 then ''-'' @ digits_of (nat (- i)) else digits_of (nat i))"

subsection \<open>Properties of an \<open>unknown\<close> value\<close>

text \<open>
  \<open>typeof value === 'object' && value !== null\<close>, which an array satisfies too, and the read
  of a named property of such a value. No property name the sources read is one an array has.
\<close>

fun is_object :: "json \<Rightarrow> bool" where
  "is_object (JObject _) = True"
| "is_object (JArray _) = True"
| "is_object _ = False"

fun property :: "json \<Rightarrow> string \<Rightarrow> json" where
  "property (JObject kvs) k = (case map_of kvs k of None \<Rightarrow> JUndefined | Some v \<Rightarrow> v)"
| "property _ k = JUndefined"

lemma property_not_object [simp]: "\<not> is_object j \<Longrightarrow> property j k = JUndefined"
  by (cases j) auto

subsection \<open>Lists\<close>

text \<open>\<open>xs.slice(-n)\<close>, for a positive \<open>n\<close>.\<close>

definition slice_last :: "nat \<Rightarrow> 'a list \<Rightarrow> 'a list" where
  "slice_last n xs = drop (length xs - n) xs"

lemma length_slice_last [simp]: "length (slice_last n xs) = min n (length xs)"
  by (simp add: slice_last_def)

lemma slice_last_eq_Nil [simp]: "slice_last n xs = [] \<longleftrightarrow> n = 0 \<or> xs = []"
  by (cases "n = 0"; cases xs) (auto simp: slice_last_def)

lemma set_slice_last: "set (slice_last n xs) \<subseteq> set xs"
  by (simp add: slice_last_def set_drop_subset)

lemma slice_last_id: "length xs \<le> n \<Longrightarrow> slice_last n xs = xs"
  by (simp add: slice_last_def)

lemma last_slice_last: "0 < n \<Longrightarrow> xs \<noteq> [] \<Longrightarrow> last (slice_last n xs) = last xs"
  by (cases xs) (simp_all add: slice_last_def)

lemma distinct_map_slice_last: "distinct (map f xs) \<Longrightarrow> distinct (map f (slice_last n xs))"
  by (simp add: slice_last_def flip: drop_map)

lemma find_SomeD: "find P xs = Some x \<Longrightarrow> x \<in> set xs \<and> P x"
  by (induction xs) (auto split: if_splits)

subsection \<open>Optional values\<close>

text \<open>\<open>a ?? b\<close> on a value that may be null.\<close>

definition or_else :: "'a option \<Rightarrow> 'a option \<Rightarrow> 'a option" where
  "or_else a b = (case a of None \<Rightarrow> b | Some _ \<Rightarrow> a)"

lemma or_else_simps [simp]:
  "or_else None b = b"
  "or_else (Some x) b = Some x"
  "or_else a None = a"
  by (simp_all add: or_else_def split: option.splits)

lemma or_else_eq_None [simp]: "or_else a b = None \<longleftrightarrow> a = None \<and> b = None"
  by (auto simp: or_else_def split: option.splits)

lemma or_else_assoc: "or_else (or_else a b) c = or_else a (or_else b c)"
  by (cases a) simp_all

lemma pred_option_or_else: "pred_option P a \<Longrightarrow> pred_option P b \<Longrightarrow> pred_option P (or_else a b)"
  by (cases a) simp_all

text \<open>\<open>values.flatMap (v => parsed ? [parsed] : [])\<close>.\<close>

definition map_filter_list :: "('a \<Rightarrow> 'b option) \<Rightarrow> 'a list \<Rightarrow> 'b list" where
  "map_filter_list f xs = concat (map (\<lambda>x. case f x of None \<Rightarrow> [] | Some y \<Rightarrow> [y]) xs)"

text \<open>Every element parses, or nothing does.\<close>

fun those_map :: "('a \<Rightarrow> 'b option) \<Rightarrow> 'a list \<Rightarrow> 'b list option" where
  "those_map f [] = Some []"
| "those_map f (x # xs) =
     (case f x of None \<Rightarrow> None
      | Some y \<Rightarrow> (case those_map f xs of None \<Rightarrow> None | Some ys \<Rightarrow> Some (y # ys)))"

lemma those_map_Some_length: "those_map f xs = Some ys \<Longrightarrow> length ys = length xs"
  by (induction xs arbitrary: ys) (auto split: option.splits)

lemma those_map_Some_set: "those_map f xs = Some ys \<Longrightarrow> y \<in> set ys \<Longrightarrow> \<exists>x \<in> set xs. f x = Some y"
  by (induction xs arbitrary: ys) (auto split: option.splits)

subsection \<open>\<open>Date.prototype.toISOString\<close>\<close>

text \<open>
  The calendar date of a day number counted from 1970-01-01 in the proleptic Gregorian
  calendar, computed era by era (an era is 400 years, 146097 days).
\<close>

definition era_year :: "int \<Rightarrow> int" where
  "era_year doe = (doe - doe div 1460 + doe div 36524 - doe div 146096) div 365"

definition era_day :: "int \<Rightarrow> int" where
  "era_day doe = doe - (365 * era_year doe + era_year doe div 4 - era_year doe div 100)"

definition civil_of_days :: "int \<Rightarrow> int \<times> int \<times> int" where
  "civil_of_days days =
     (let z = days + 719468;
          era = z div 146097;
          doe = z mod 146097;
          yoe = era_year doe;
          doy = era_day doe;
          mp = (5 * doy + 2) div 153;
          d = doy - (153 * mp + 2) div 5 + 1;
          m = (if mp < 10 then mp + 3 else mp - 9)
      in (yoe + era * 400 + (if m \<le> 2 then 1 else 0), m, d))"

definition pad_left :: "nat \<Rightarrow> string \<Rightarrow> string" where
  "pad_left n s = replicate (n - length s) (CHR ''0'') @ s"

definition padded :: "nat \<Rightarrow> int \<Rightarrow> string" where
  "padded n i = pad_left n (digits_of (nat i))"

definition to_iso_string :: "date \<Rightarrow> string" where
  "to_iso_string t =
     (let ms = t mod 1000; s = t div 1000 mod 60; mi = t div 60000 mod 60;
          h = t div 3600000 mod 24;
          (y, mo, d) = civil_of_days (t div 86400000);
          year = (if 0 \<le> y \<and> y \<le> 9999 then padded 4 y
                  else if y < 0 then ''-'' @ padded 6 (- y) else ''+'' @ padded 6 y)
      in year @ ''-'' @ padded 2 mo @ ''-'' @ padded 2 d @ ''T'' @ padded 2 h @ '':'' @
         padded 2 mi @ '':'' @ padded 2 s @ ''.'' @ padded 3 ms @ ''Z'')"

end
