(* ===== verification/Fold_Interfaces.thy ===== *)
theory Fold_Interfaces
  imports Js_Prelude
begin

section \<open>What a fold over a log promises\<close>

text \<open>
  Most of the control plane's state is a projection: a pure step \<open>(state, event) \<Rightarrow> state\<close>
  reduced over an append-only log, resumed from a stored row. The contracts the folds share are
  stated here once, as locales, and each component interprets the ones it keeps on its own step.

  \<^item> \<open>invariant_fold\<close>: every event keeps an invariant, so every log does.
  \<^item> \<open>terminal_fold\<close>: a final state is left by no event.
  \<^item> \<open>monotone_fold\<close>: a rank no event lowers.
  \<^item> \<open>counted_fold\<close>: a sequence number moves by one exactly when the observed part of the
    state moves, so equal numbers mean the observed part never moved in between.
  \<^item> \<open>keyed_window\<close>: a list kept as the last \<open>n\<close> entries with one entry per key.
\<close>

subsection \<open>Invariants and resumption\<close>

locale invariant_fold =
  fixes step :: "'s \<Rightarrow> 'e \<Rightarrow> 's"
    and inv :: "'s \<Rightarrow> bool"
  assumes step_inv: "inv s \<Longrightarrow> inv (step s e)"
begin

lemma run_inv: "inv s \<Longrightarrow> inv (foldl step s es)"
  by (induction es arbitrary: s) (auto simp: step_inv)

lemma run_resumes: "foldl step (foldl step s es) es' = foldl step s (es @ es')"
  by simp

end

locale terminal_fold = invariant_fold +
  fixes final :: "'s \<Rightarrow> bool"
  assumes step_final: "inv s \<Longrightarrow> final s \<Longrightarrow> final (step s e)"
begin

lemma run_final: "inv s \<Longrightarrow> final s \<Longrightarrow> final (foldl step s es)"
  by (induction es arbitrary: s) (auto simp: step_inv step_final)

text \<open>A log whose result is not final was never final on the way.\<close>

lemma run_not_final:
  assumes "inv s" "\<not> final (foldl step s (es @ es'))"
  shows "\<not> final (foldl step s es)"
  using assms run_inv run_final by fastforce

end

subsection \<open>A counter of changes\<close>

locale monotone_fold =
  fixes step :: "'s \<Rightarrow> 'e \<Rightarrow> 's"
    and rank :: "'s \<Rightarrow> nat"
  assumes rank_step: "rank s \<le> rank (step s e)"
begin

lemma rank_run: "rank s \<le> rank (foldl step s es)"
proof (induction es arbitrary: s)
  case (Cons e es)
  show ?case using Cons.IH [of "step s e"] rank_step [of s e] by simp
qed simp

lemma rank_run_between: "rank (foldl step s es) \<le> rank (foldl step s (es @ es'))"
  by (simp add: rank_run)

end

locale counted_fold =
  fixes step :: "'s \<Rightarrow> 'e \<Rightarrow> 's"
    and view :: "'s \<Rightarrow> 'v"
    and seq :: "'s \<Rightarrow> nat"
  assumes step_same: "view (step s e) = view s \<Longrightarrow> seq (step s e) = seq s"
    and step_moved: "view (step s e) \<noteq> view s \<Longrightarrow> seq (step s e) = Suc (seq s)"
begin

sublocale monotone_fold step seq
proof
  show "seq s \<le> seq (step s e)" for s e
    by (cases "view (step s e) = view s") (simp_all add: step_same step_moved)
qed

text \<open>A reader that sees the same number twice has seen the same view, and missed none.\<close>

lemma run_same_seq: "seq (foldl step s es) = seq s \<Longrightarrow> view (foldl step s es) = view s"
proof (induction es arbitrary: s)
  case (Cons e es)
  have "seq (step s e) \<le> seq s"
    using Cons.prems rank_run [of "step s e" es] by simp
  then have same: "view (step s e) = view s"
    using step_moved [of s e] by fastforce
  then have "seq (step s e) = seq s" by (rule step_same)
  with Cons.IH [of "step s e"] Cons.prems same show ?case by simp
qed simp

text \<open>Between two readings of one number every reading in between was the same.\<close>

lemma run_same_seq_between:
  assumes "seq (foldl step s (es @ es')) = seq s"
  shows "view (foldl step s es) = view s"
proof (rule run_same_seq)
  show "seq (foldl step s es) = seq s"
    using assms rank_run [of s es] rank_run_between [of s es es'] by simp
qed

lemma run_seq_bound: "seq (foldl step s es) \<le> seq s + length es"
proof (induction es arbitrary: s)
  case (Cons e es)
  have "seq (step s e) \<le> Suc (seq s)"
    by (cases "view (step s e) = view s") (simp_all add: step_same step_moved)
  with Cons.IH [of "step s e"] show ?case by simp
qed simp

end

subsection \<open>A bounded window with one entry per key\<close>

locale keyed_window =
  fixes key :: "'a \<Rightarrow> 'k"
    and limit :: nat
    and push :: "'a \<Rightarrow> 'a list \<Rightarrow> 'a list"
  assumes push_limit: "length (push x xs) \<le> limit"
    and push_last: "push x xs \<noteq> [] \<and> last (push x xs) = x"
    and push_distinct: "distinct (map key xs) \<Longrightarrow> distinct (map key (push x xs))"
    and push_subset: "set (push x xs) \<subseteq> insert x (set xs)"
begin

definition window :: "'a list \<Rightarrow> bool" where
  "window xs \<longleftrightarrow> length xs \<le> limit \<and> distinct (map key xs)"

lemma window_push: "window xs \<Longrightarrow> window (push x xs)"
  by (simp add: window_def push_limit push_distinct)

lemma window_filter: "window xs \<Longrightarrow> window (filter P xs)"
  unfolding window_def
  by (auto simp: distinct_map intro: order_trans [OF length_filter_le] inj_on_subset)

lemma window_Nil: "window []"
  by (simp add: window_def)

lemma newest_kept: "x \<in> set (push x xs)"
  using push_last [of x xs] last_in_set [of "push x xs"] by metis

end

text \<open>
  The shape the code gives such a window: drop the entry of the same key, append, keep the
  last \<open>n\<close>. It satisfies the contract for every key and positive bound.
\<close>

definition push_window :: "('a \<Rightarrow> 'k) \<Rightarrow> nat \<Rightarrow> 'a \<Rightarrow> 'a list \<Rightarrow> 'a list" where
  "push_window key n x xs = slice_last n (filter (\<lambda>y. key y \<noteq> key x) xs @ [x])"

lemma keyed_window_push: "0 < n \<Longrightarrow> keyed_window key n (push_window key n)"
proof unfold_locales
  fix x xs
  assume n: "0 < n"
  show "length (push_window key n x xs) \<le> n"
    by (simp add: push_window_def)
  have "length (push_window key n x xs) > 0"
    using n by (simp add: push_window_def)
  with n show "push_window key n x xs \<noteq> [] \<and> last (push_window key n x xs) = x"
    by (simp add: push_window_def last_slice_last)
  show "set (push_window key n x xs) \<subseteq> insert x (set xs)"
    using set_slice_last [of n "filter (\<lambda>y. key y \<noteq> key x) xs @ [x]"]
    by (auto simp: push_window_def)
next
  fix x xs
  assume "distinct (map key xs)"
  then have "distinct (map key (filter (\<lambda>y. key y \<noteq> key x) xs @ [x]))"
    by (auto simp: distinct_map intro: inj_on_subset)
  then show "distinct (map key (push_window key n x xs))"
    unfolding push_window_def by (rule distinct_map_slice_last)
qed

end
