(* ===== verification/Session_Schemas.thy ===== *)
theory Session_Schemas
  imports Fold_Interfaces "HOL-Library.Monad_Syntax"
begin

section \<open>What a session's log entries carry\<close>

text \<open>
  The schemas under \<^verbatim>\<open>packages/shared/src/schemas\<close> that narrow the \<open>unknown\<close> payload of a log entry,
  each a function \<open>json \<Rightarrow> 'a option\<close> with the outcome of \<open>safeParse\<close>. A schema is a
  declaration over the combinators of the library zod (version 3); the first subsection states
  the documented meaning of the combinators used: an object schema takes a plain object and
  drops the keys it does not name, \<open>min\<close>/\<open>max\<close> bound a string's or a list's length, \<open>int\<close>
  takes a finite integer, \<open>nullable().default(null)\<close> reads a missing value as null. Whether a
  string is a date and time (\<open>z.string().datetime()\<close>) is a parameter, \<open>is_datetime\<close>.
\<close>

subsection \<open>The combinators\<close>

definition z_field :: "json \<Rightarrow> string \<Rightarrow> json option" where
  "z_field j k = (case j of JObject _ \<Rightarrow> Some (property j k) | _ \<Rightarrow> None)"

definition z_string :: "nat \<Rightarrow> nat \<Rightarrow> json \<Rightarrow> string option" where
  "z_string lo hi j =
     (case j of JString s \<Rightarrow> (if lo \<le> length s \<and> length s \<le> hi then Some s else None) | _ \<Rightarrow> None)"

definition z_bool :: "json \<Rightarrow> bool option" where
  "z_bool j = (case j of JBool b \<Rightarrow> Some b | _ \<Rightarrow> None)"

definition z_int :: "json \<Rightarrow> int option" where
  "z_int j = (case j of JNumber n \<Rightarrow> int_of_number n | _ \<Rightarrow> None)"

definition z_int_from :: "int \<Rightarrow> json \<Rightarrow> int option" where
  "z_int_from lo j = do { n \<leftarrow> z_int j; if lo \<le> n then Some n else None }"

definition z_nat_to :: "nat \<Rightarrow> json \<Rightarrow> nat option" where
  "z_nat_to hi j = do { n \<leftarrow> z_int_from 0 j; if n \<le> int hi then Some (nat n) else None }"

definition z_default_null :: "(json \<Rightarrow> 'a option) \<Rightarrow> json \<Rightarrow> 'a option option" where
  "z_default_null p j =
     (if j = JNull \<or> j = JUndefined then Some None
      else do { x \<leftarrow> p j; Some (Some x) })"

definition z_nullable :: "(json \<Rightarrow> 'a option) \<Rightarrow> json \<Rightarrow> 'a option option" where
  "z_nullable p j = (if j = JNull then Some None else do { x \<leftarrow> p j; Some (Some x) })"

definition z_optional :: "(json \<Rightarrow> 'a option) \<Rightarrow> json \<Rightarrow> 'a option option" where
  "z_optional p j = (if j = JUndefined then Some None else do { x \<leftarrow> p j; Some (Some x) })"

definition z_array :: "nat \<Rightarrow> nat \<Rightarrow> (json \<Rightarrow> 'a option) \<Rightarrow> json \<Rightarrow> 'a list option" where
  "z_array lo hi p j =
     (case j of JArray xs \<Rightarrow> (if lo \<le> length xs \<and> length xs \<le> hi then those_map p xs else None)
      | _ \<Rightarrow> None)"

definition z_enum :: "(string \<times> 'a) list \<Rightarrow> json \<Rightarrow> 'a option" where
  "z_enum names j = (case j of JString s \<Rightarrow> map_of names s | _ \<Rightarrow> None)"

lemmas z_defs =
  z_field_def z_string_def z_bool_def z_int_def z_int_from_def z_nat_to_def z_default_null_def
  z_nullable_def z_optional_def z_array_def z_enum_def

lemma z_string_bounds: "z_string lo hi j = Some s \<Longrightarrow> lo \<le> length s \<and> length s \<le> hi"
  by (auto simp: z_string_def split: json.splits if_splits)

lemma z_array_bounds: "z_array lo hi p j = Some xs \<Longrightarrow> lo \<le> length xs \<and> length xs \<le> hi"
  by (auto simp: z_array_def dest: those_map_Some_length split: json.splits if_splits)

lemma z_array_elements: "z_array lo hi p j = Some xs \<Longrightarrow> x \<in> set xs \<Longrightarrow> \<exists>j. p j = Some x"
  by (fastforce simp: z_array_def dest: those_map_Some_set split: json.splits if_splits)

subsection \<open>Notices\<close>

definition session_notice_text_max :: nat where
  "session_notice_text_max = 500"

definition runner_id :: "json \<Rightarrow> string option" where
  "runner_id j = do { s \<leftarrow> z_string 1 64 j; if list_all is_id_char s then Some s else None }"

record agent_notified =
  notice_id :: string
  notice_text :: string

record session_notice = agent_notified +
  notice_at :: string

definition agent_notified_payload :: "json \<Rightarrow> agent_notified option" where
  "agent_notified_payload j = do {
     i \<leftarrow> z_field j ''id'' \<bind> runner_id;
     t \<leftarrow> z_field j ''text'' \<bind> z_string 1 session_notice_text_max;
     Some \<lparr>notice_id = i, notice_text = t\<rparr> }"

definition z_datetime :: "(string \<Rightarrow> bool) \<Rightarrow> json \<Rightarrow> string option" where
  "z_datetime is_datetime j =
     (case j of JString s \<Rightarrow> (if is_datetime s then Some s else None) | _ \<Rightarrow> None)"

definition session_notice_schema :: "(string \<Rightarrow> bool) \<Rightarrow> json \<Rightarrow> session_notice option" where
  "session_notice_schema is_datetime j = do {
     p \<leftarrow> agent_notified_payload j;
     a \<leftarrow> z_field j ''at'' \<bind> z_datetime is_datetime;
     Some (agent_notified.extend p \<lparr>notice_at = a\<rparr>) }"

subsection \<open>Shared files\<close>

definition session_shared_files_max :: nat where
  "session_shared_files_max = 20"

definition session_shared_file_caption_max :: nat where
  "session_shared_file_caption_max = 500"

record file_shared =
  file_id :: string
  file_name :: string
  file_media_type :: string
  file_size :: int
  file_caption :: "string option"
  file_has_preview :: bool

record session_shared_file = file_shared +
  file_at :: string

definition file_shared_payload :: "json \<Rightarrow> file_shared option" where
  "file_shared_payload j = do {
     i \<leftarrow> z_field j ''id'' \<bind> runner_id;
     n \<leftarrow> z_field j ''name'' \<bind> z_string 1 255;
     m \<leftarrow> z_field j ''mediaType'' \<bind> z_string 1 255;
     s \<leftarrow> z_field j ''size'' \<bind> z_int_from 0;
     c \<leftarrow> z_field j ''caption'' \<bind> z_optional (z_string 0 session_shared_file_caption_max);
     p \<leftarrow> z_field j ''hasPreview'' \<bind> z_bool;
     Some \<lparr>file_id = i, file_name = n, file_media_type = m, file_size = s, file_caption = c,
           file_has_preview = p\<rparr> }"

definition session_shared_file_schema :: "(string \<Rightarrow> bool) \<Rightarrow> json \<Rightarrow> session_shared_file option" where
  "session_shared_file_schema is_datetime j = do {
     p \<leftarrow> file_shared_payload j;
     a \<leftarrow> z_field j ''at'' \<bind> z_datetime is_datetime;
     Some (file_shared.extend p \<lparr>file_at = a\<rparr>) }"

subsection \<open>Watched pull requests and wakes\<close>

definition session_watched_pulls_max :: nat where
  "session_watched_pulls_max = 10"

record session_watched_pull =
  pull_repo :: string
  pull_number :: int

definition session_watched_pull_schema :: "json \<Rightarrow> session_watched_pull option" where
  "session_watched_pull_schema j = do {
     r \<leftarrow> z_field j ''githubRepoId'' \<bind> z_string 1 20;
     n \<leftarrow> z_field j ''number'' \<bind> z_int_from 1;
     if list_all is_digit r then Some \<lparr>pull_repo = r, pull_number = n\<rparr> else None }"

definition pull_watched_payload :: "json \<Rightarrow> (session_watched_pull \<times> bool) option" where
  "pull_watched_payload j = do {
     p \<leftarrow> session_watched_pull_schema j;
     w \<leftarrow> z_field j ''watch'' \<bind> z_bool;
     Some (p, w) }"

definition session_wake_max_delay_ms :: int where
  "session_wake_max_delay_ms = 7 * 24 * 60 * 60 * 1000"

definition session_wake_text_max :: nat where
  "session_wake_text_max = 1000"

record wake_requested =
  wake_id :: string
  wake_at :: string
  wake_text :: string

definition wake_requested_payload :: "(string \<Rightarrow> bool) \<Rightarrow> json \<Rightarrow> wake_requested option" where
  "wake_requested_payload is_datetime j = do {
     i \<leftarrow> z_field j ''id'' \<bind> runner_id;
     a \<leftarrow> z_field j ''at'' \<bind> z_datetime is_datetime;
     t \<leftarrow> z_field j ''text'' \<bind> z_string 1 session_wake_text_max;
     Some \<lparr>wake_id = i, wake_at = a, wake_text = t\<rparr> }"

subsection \<open>Decisions\<close>

text \<open>\<open>SESSION_DECISION_LIMITS\<close>, one constant per bound.\<close>

record session_decision_limits =
  limit_id :: nat
  limit_questions :: nat
  limit_question_options :: nat
  limit_header :: nat
  limit_question :: nat
  limit_label :: nat
  limit_description :: nat
  limit_permission_options :: nat
  limit_title :: nat
  limit_detail :: nat
  limit_other :: nat

definition decision_limits :: session_decision_limits where
  "decision_limits =
     \<lparr>limit_id = 128, limit_questions = 4, limit_question_options = 6, limit_header = 32,
      limit_question = 400, limit_label = 100, limit_description = 200,
      limit_permission_options = 9, limit_title = 300, limit_detail = 1000, limit_other = 1000\<rparr>"

record decision_option =
  option_label :: string
  option_description :: "string option"

record decision_question =
  question_header :: "string option"
  question_text :: string
  multi_select :: bool
  question_options :: "decision_option list"

datatype session_decision =
    QuestionDecision (decision_id: string) (decision_questions: "decision_question list")
  | PermissionDecision (decision_id: string) (decision_title: string)
      (decision_detail: "string option") (decision_options: "string list")

definition decision_option_schema :: "json \<Rightarrow> decision_option option" where
  "decision_option_schema j = do {
     l \<leftarrow> z_field j ''label'' \<bind> z_string 1 (limit_label decision_limits);
     d \<leftarrow> z_field j ''description'' \<bind> z_default_null (z_string 0 (limit_description decision_limits));
     Some \<lparr>option_label = l, option_description = d\<rparr> }"

definition decision_question_schema :: "json \<Rightarrow> decision_question option" where
  "decision_question_schema j = do {
     h \<leftarrow> z_field j ''header'' \<bind> z_default_null (z_string 0 (limit_header decision_limits));
     q \<leftarrow> z_field j ''question'' \<bind> z_string 1 (limit_question decision_limits);
     m \<leftarrow> z_field j ''multiSelect'' \<bind> z_bool;
     os \<leftarrow> z_field j ''options'' \<bind>
       z_array 1 (limit_question_options decision_limits) decision_option_schema;
     Some \<lparr>question_header = h, question_text = q, multi_select = m, question_options = os\<rparr> }"

definition question_decision_schema :: "json \<Rightarrow> session_decision option" where
  "question_decision_schema j = do {
     i \<leftarrow> z_field j ''id'' \<bind> z_string 1 (limit_id decision_limits);
     qs \<leftarrow> z_field j ''questions'' \<bind>
       z_array 1 (limit_questions decision_limits) decision_question_schema;
     Some (QuestionDecision i qs) }"

definition permission_option_schema :: "json \<Rightarrow> string option" where
  "permission_option_schema j =
     z_field j ''label'' \<bind> z_string 1 (limit_label decision_limits)"

definition permission_decision_schema :: "json \<Rightarrow> session_decision option" where
  "permission_decision_schema j = do {
     i \<leftarrow> z_field j ''id'' \<bind> z_string 1 (limit_id decision_limits);
     t \<leftarrow> z_field j ''title'' \<bind> z_string 1 (limit_title decision_limits);
     d \<leftarrow> z_field j ''detail'' \<bind> z_default_null (z_string 0 (limit_detail decision_limits));
     os \<leftarrow> z_field j ''options'' \<bind>
       z_array 2 (limit_permission_options decision_limits) permission_option_schema;
     Some (PermissionDecision i t d os) }"

definition session_decision_schema :: "json \<Rightarrow> session_decision option" where
  "session_decision_schema j = do {
     k \<leftarrow> z_field j ''kind'';
     if k = JString ''question'' then question_decision_schema j
     else if k = JString ''permission'' then permission_decision_schema j
     else None }"

definition agent_decision_payload :: "json \<Rightarrow> session_decision option option" where
  "agent_decision_payload j = z_field j ''decision'' \<bind> z_nullable session_decision_schema"

subsection \<open>The answer to a decision\<close>

record decision_answer_item =
  item_picks :: "nat list"
  item_other :: "string option"

record answer_session_decision =
  answer_id :: string
  answer_items :: "decision_answer_item list option"
  answer_option :: "nat option"

definition decision_answer_item_schema :: "json \<Rightarrow> decision_answer_item option" where
  "decision_answer_item_schema j = do {
     ps \<leftarrow> z_field j ''picks'' \<bind>
       z_array 0 (limit_question_options decision_limits)
         (z_nat_to (limit_question_options decision_limits - 1));
     w \<leftarrow> z_field j ''other'' \<bind> z_nullable (z_string 0 (limit_other decision_limits));
     Some \<lparr>item_picks = ps, item_other = w\<rparr> }"

definition answer_session_decision_schema :: "json \<Rightarrow> answer_session_decision option" where
  "answer_session_decision_schema j = do {
     i \<leftarrow> z_field j ''id'' \<bind> z_string 1 (limit_id decision_limits);
     as \<leftarrow> z_field j ''answers'' \<bind>
       z_optional (z_array 1 (limit_questions decision_limits) decision_answer_item_schema);
     p \<leftarrow> z_field j ''option'' \<bind>
       z_optional (z_nat_to (limit_permission_options decision_limits - 1));
     if (as = None) \<noteq> (p = None)
     then Some \<lparr>answer_id = i, answer_items = as, answer_option = p\<rparr> else None }"

subsection \<open>The agent's own report\<close>

datatype report_state = ReportIdle | ReportWorking | ReportDone | ReportBlocked | ReportError
datatype report_kind = KindPermission | KindQuestion | KindAuth

definition session_agent_report_states :: "(string \<times> report_state) list" where
  "session_agent_report_states =
     [(''idle'', ReportIdle), (''working'', ReportWorking), (''done'', ReportDone),
      (''blocked'', ReportBlocked), (''error'', ReportError)]"

definition session_agent_report_kinds :: "(string \<times> report_kind) list" where
  "session_agent_report_kinds =
     [(''permission'', KindPermission), (''question'', KindQuestion), (''auth'', KindAuth)]"

definition session_agent_report_text_max :: nat where
  "session_agent_report_text_max = 500"

record session_agent_report =
  report_state :: report_state
  report_kind :: "report_kind option"
  report_progress :: "nat option"
  report_message :: "string option"
  report_title :: "string option"

definition session_agent_report_schema :: "json \<Rightarrow> session_agent_report option" where
  "session_agent_report_schema j = do {
     s \<leftarrow> z_field j ''state'' \<bind> z_enum session_agent_report_states;
     k \<leftarrow> z_field j ''kind'' \<bind> z_default_null (z_enum session_agent_report_kinds);
     p \<leftarrow> z_field j ''progress'' \<bind> z_default_null (z_nat_to 100);
     m \<leftarrow> z_field j ''message'' \<bind> z_default_null (z_string 0 session_agent_report_text_max);
     t \<leftarrow> z_field j ''title'' \<bind> z_default_null (z_string 0 session_agent_report_text_max);
     Some \<lparr>report_state = s, report_kind = k, report_progress = p, report_message = m,
           report_title = t\<rparr> }"

subsection \<open>What a decision that parsed is bounded by\<close>

definition bounded_question :: "decision_question \<Rightarrow> bool" where
  "bounded_question q \<longleftrightarrow>
     question_options q \<noteq> [] \<and> length (question_options q) \<le> limit_question_options decision_limits"

definition bounded_decision :: "session_decision \<Rightarrow> bool" where
  "bounded_decision d \<longleftrightarrow>
     (case d of
        QuestionDecision i qs \<Rightarrow>
          i \<noteq> [] \<and> qs \<noteq> [] \<and> length qs \<le> limit_questions decision_limits \<and>
          list_all bounded_question qs
      | PermissionDecision i t dt os \<Rightarrow>
          i \<noteq> [] \<and> 2 \<le> length os \<and> length os \<le> limit_permission_options decision_limits)"

lemma decision_question_schema_bounded:
  "decision_question_schema j = Some q \<Longrightarrow> bounded_question q"
  by (auto simp: decision_question_schema_def bounded_question_def bind_eq_Some_conv
      dest: z_array_bounds)

lemma session_decision_schema_bounded:
  assumes "session_decision_schema j = Some d"
  shows "bounded_decision d"
proof -
  from assms consider "question_decision_schema j = Some d" | "permission_decision_schema j = Some d"
    by (auto simp: session_decision_schema_def bind_eq_Some_conv split: if_splits)
  then show ?thesis
  proof cases
    case 1
    then obtain i qs where d: "d = QuestionDecision i qs"
      and i: "i \<noteq> []" and qs: "\<exists>k. z_array 1 (limit_questions decision_limits) decision_question_schema k = Some qs"
      by (fastforce simp: question_decision_schema_def bind_eq_Some_conv dest: z_string_bounds)
    from qs obtain k where k: "z_array 1 (limit_questions decision_limits) decision_question_schema k = Some qs"
      by blast
    have "list_all bounded_question qs"
      using z_array_elements [OF k] decision_question_schema_bounded by (auto simp: list_all_iff)
    with z_array_bounds [OF k] i d show ?thesis by (auto simp: bounded_decision_def)
  next
    case 2
    then show ?thesis
      by (fastforce simp: permission_decision_schema_def bounded_decision_def bind_eq_Some_conv
          dest: z_string_bounds z_array_bounds)
  qed
qed

lemma agent_decision_payload_bounded:
  "agent_decision_payload j = Some (Some d) \<Longrightarrow> bounded_decision d"
  by (auto simp: agent_decision_payload_def z_nullable_def bind_eq_Some_conv
      dest: session_decision_schema_bounded split: if_splits)

end
