(* ===== verification/Agent_Catalog.thy ===== *)
theory Agent_Catalog
  imports Session_Schemas
begin

section \<open>The catalog of coding agents\<close>

text \<open>
  The closed catalog of \<^verbatim>\<open>packages/shared/src/agents/catalog.ts\<close>: which agents a host can start, how each is
  launched at a permission level, which models it offers and at which effort levels, and the
  lookups that decide what a launch records (\<open>effortFor\<close>, \<open>effortLevelFor\<close>). What only the
  Go runner reads of an entry (its installer scripts, login hosts and input timings) is left out.
\<close>

subsection \<open>Vocabulary\<close>

datatype session_permission = PermissionAsk | PermissionAuto | PermissionFull

definition session_permissions :: "(string \<times> session_permission) list" where
  "session_permissions = [(''ask'', PermissionAsk), (''auto'', PermissionAuto), (''full'', PermissionFull)]"

datatype session_effort =
    EffortNone | EffortMinimal | EffortLow | EffortMedium | EffortHigh | EffortXHigh | EffortMax
  | EffortUltra

definition session_efforts :: "(string \<times> session_effort) list" where
  "session_efforts =
     [(''none'', EffortNone), (''minimal'', EffortMinimal), (''low'', EffortLow),
      (''medium'', EffortMedium), (''high'', EffortHigh), (''xhigh'', EffortXHigh),
      (''max'', EffortMax), (''ultra'', EffortUltra)]"

record agent_effort =
  effort_levels :: "session_effort list"
  effort_default :: session_effort

record agent_model =
  model_id :: string
  model_label :: string
  model_default :: bool
  model_legacy :: bool
  model_effort :: "agent_effort option"

text \<open>One permission level as the host starts the agent with it: the arguments and the environment.\<close>

record launch_level =
  level_argv :: "string list"
  level_env :: "(string \<times> string) list"

record agent_conversation =
  conversation_create :: "string list option"
  conversation_resume :: "string list"
  conversation_resume_leads :: bool

record agent_teleport =
  teleport_start :: "string list"
  teleport_resume :: "string list"

record agent_launch =
  launch_always :: "string list"
  launch_model :: "string list option"
  launch_conversation :: "agent_conversation option"
  launch_teleport :: "agent_teleport option"
  launch_permission :: "(session_permission \<Rightarrow> launch_level) option"
  launch_effort :: "(launch_level \<times> session_effort option) option"
  launch_prompt :: "string list option"

record coding_agent =
  agent_id :: string
  agent_label :: string
  agent_command :: string
  agent_models :: "agent_model list"
  agent_launch :: agent_launch

subsection \<open>The effort levels\<close>

definition agent_levels :: "session_effort list \<Rightarrow> session_effort \<Rightarrow> agent_effort" where
  "agent_levels ids d = \<lparr>effort_levels = ids, effort_default = d\<rparr>"

definition claude_levels :: "session_effort list" where
  "claude_levels = [EffortLow, EffortMedium, EffortHigh, EffortXHigh, EffortMax]"

definition claude_4_6_levels :: "session_effort list" where
  "claude_4_6_levels = [EffortLow, EffortMedium, EffortHigh, EffortMax]"

definition codex_levels :: "session_effort list" where
  "codex_levels = [EffortLow, EffortMedium, EffortHigh, EffortXHigh, EffortMax]"

definition codex_ultra_levels :: "session_effort list" where
  "codex_ultra_levels = codex_levels @ [EffortUltra]"

definition grok_levels :: "session_effort list" where
  "grok_levels = [EffortLow, EffortMedium, EffortHigh, EffortXHigh]"

definition grok_4_5_levels :: "session_effort list" where
  "grok_4_5_levels = [EffortLow, EffortMedium, EffortHigh]"

definition opencode_google_levels :: "session_effort list" where
  "opencode_google_levels = [EffortLow, EffortMedium, EffortHigh]"

definition opencode_low_high_max_levels :: "session_effort list" where
  "opencode_low_high_max_levels = [EffortLow, EffortHigh, EffortMax]"

definition opencode_qwen_levels :: "session_effort list" where
  "opencode_qwen_levels = [EffortLow, EffortMedium, EffortXHigh]"

lemmas level_defs =
  agent_levels_def claude_levels_def claude_4_6_levels_def codex_levels_def codex_ultra_levels_def
  grok_levels_def grok_4_5_levels_def opencode_google_levels_def opencode_low_high_max_levels_def
  opencode_qwen_levels_def

subsection \<open>The models\<close>

definition agent_model :: "string \<Rightarrow> string \<Rightarrow> bool \<Rightarrow> bool \<Rightarrow> agent_effort option \<Rightarrow> agent_model" where
  "agent_model i l d g e =
     \<lparr>model_id = i, model_label = l, model_default = d, model_legacy = g, model_effort = e\<rparr>"

definition claude_models :: "agent_model list" where
  "claude_models =
     [
       agent_model ''claude-opus-5-5'' ''Opus 5.5'' True False (Some (agent_levels claude_levels EffortMedium)),
       agent_model ''claude-fable-5-1'' ''Fable 5.1'' False False (Some (agent_levels claude_levels EffortHigh)),
       agent_model ''claude-sonnet-5-5'' ''Sonnet 5.5'' False False (Some (agent_levels claude_levels EffortMedium)),
       agent_model ''claude-haiku-5-5'' ''Haiku 5.5'' False False (Some (agent_levels claude_levels EffortMedium)),
       agent_model ''claude-haiku-4-5'' ''Haiku 4.5'' False True None,
       agent_model ''claude-sonnet-5'' ''Sonnet 5'' False True (Some (agent_levels claude_levels EffortXHigh)),
       agent_model ''claude-opus-5'' ''Opus 5'' False True (Some (agent_levels claude_levels EffortHigh)),
       agent_model ''claude-fable-5'' ''Fable 5'' False True (Some (agent_levels claude_levels EffortXHigh)),
       agent_model ''claude-opus-4-8'' ''Opus 4.8'' False True (Some (agent_levels claude_levels EffortXHigh)),
       agent_model ''claude-opus-4-7'' ''Opus 4.7'' False True (Some (agent_levels claude_levels EffortXHigh)),
       agent_model ''claude-opus-4-6'' ''Opus 4.6'' False True (Some (agent_levels claude_4_6_levels EffortHigh)),
       agent_model ''claude-sonnet-4-6'' ''Sonnet 4.6'' False True (Some (agent_levels claude_4_6_levels EffortHigh))]"

definition codex_models :: "agent_model list" where
  "codex_models =
     [
       agent_model ''gpt-6.1-sol'' ''GPT-6.1 Sol'' True False (Some (agent_levels codex_ultra_levels EffortLow)),
       agent_model ''gpt-6.1-terra'' ''GPT-6.1 Terra'' False False (Some (agent_levels codex_ultra_levels EffortMedium)),
       agent_model ''gpt-6-astra'' ''GPT-6 Astra'' False False (Some (agent_levels codex_ultra_levels EffortLow)),
       agent_model ''gpt-6-sol'' ''GPT-6 Sol'' False False (Some (agent_levels codex_ultra_levels EffortMedium)),
       agent_model ''gpt-6-luna'' ''GPT-6 Luna'' False False (Some (agent_levels codex_levels EffortMedium)),
       agent_model ''gpt-5.6-sol'' ''GPT-5.6 Sol'' False False (Some (agent_levels codex_ultra_levels EffortLow)),
       agent_model ''gpt-5.6-terra'' ''GPT-5.6 Terra'' False False (Some (agent_levels codex_ultra_levels EffortMedium)),
       agent_model ''gpt-5.6-luna'' ''GPT-5.6 Luna'' False False (Some (agent_levels codex_levels EffortMedium))]"

definition opencode_models :: "agent_model list" where
  "opencode_models =
     [
       agent_model ''anthropic/claude-opus-5-5'' ''Opus 5.5'' True False (Some (agent_levels claude_levels EffortHigh)),
       agent_model ''anthropic/claude-fable-5-1'' ''Fable 5.1'' False False (Some (agent_levels claude_levels EffortHigh)),
       agent_model ''anthropic/claude-sonnet-5-5'' ''Sonnet 5.5'' False False (Some (agent_levels claude_levels EffortHigh)),
       agent_model ''anthropic/claude-haiku-5-5'' ''Haiku 5.5'' False False (Some (agent_levels (EffortNone # claude_levels) EffortNone)),
       agent_model ''openai/gpt-6.1-sol'' ''GPT-6.1 Sol'' False False (Some (agent_levels codex_levels EffortMedium)),
       agent_model ''openai/gpt-6.1-terra'' ''GPT-6.1 Terra'' False False (Some (agent_levels codex_levels EffortMedium)),
       agent_model ''openai/gpt-6-astra'' ''GPT-6 Astra'' False False (Some (agent_levels codex_levels EffortMedium)),
       agent_model ''openai/gpt-6-sol'' ''GPT-6 Sol'' False False (Some (agent_levels codex_levels EffortMedium)),
       agent_model ''openai/gpt-6-luna'' ''GPT-6 Luna'' False False (Some (agent_levels codex_levels EffortMedium)),
       agent_model ''openai/gpt-5.6-sol'' ''GPT-5.6 Sol'' False False (Some (agent_levels codex_levels EffortMedium)),
       agent_model ''openai/gpt-5.6-terra'' ''GPT-5.6 Terra'' False False (Some (agent_levels codex_levels EffortMedium)),
       agent_model ''openai/gpt-5.6-luna'' ''GPT-5.6 Luna'' False False (Some (agent_levels codex_levels EffortMedium)),
       agent_model ''xai/grok-4.7'' ''Grok 4.7'' False False (Some (agent_levels grok_levels EffortHigh)),
       agent_model ''xai/grok-4.6'' ''Grok 4.6'' False False (Some (agent_levels grok_levels EffortHigh)),
       agent_model ''google/gemini-4-argon'' ''Gemini 4 Argon'' False False (Some (agent_levels opencode_google_levels EffortHigh)),
       agent_model ''google/gemini-3.8-flash'' ''Gemini 3.8 Flash'' False False (Some (agent_levels opencode_google_levels EffortHigh)),
       agent_model ''zai-coding-plan/glm-5.3'' ''GLM-5.3'' False False (Some (agent_levels opencode_low_high_max_levels EffortHigh)),
       agent_model ''zai-coding-plan/glm-5.3-highspeed'' ''GLM-5.3 Highspeed'' False False (Some (agent_levels opencode_low_high_max_levels EffortHigh)),
       agent_model ''zai-coding-plan/glm-5.3-flash'' ''GLM-5.3 Flash'' False False (Some (agent_levels opencode_low_high_max_levels EffortHigh)),
       agent_model ''deepseek/deepseek-v4-pro'' ''DeepSeek V4 Pro'' False False (Some (agent_levels opencode_low_high_max_levels EffortHigh)),
       agent_model ''deepseek/deepseek-flash'' ''DeepSeek V4.1 Flash'' False False (Some (agent_levels opencode_low_high_max_levels EffortHigh)),
       agent_model ''moonshotai/kimi-k3.1-pro'' ''Kimi K3.1 Pro'' False False (Some (agent_levels opencode_low_high_max_levels EffortHigh)),
       agent_model ''moonshotai/kimi-k2.7-code'' ''Kimi K2.7 Code'' False False None,
       agent_model ''alibaba/qwen3.8-max'' ''Qwen3.8 Max'' False False (Some (agent_levels opencode_qwen_levels EffortMedium)),
       agent_model ''alibaba/qwen3.8-flash'' ''Qwen3.8 Flash'' False False (Some (agent_levels opencode_qwen_levels EffortMedium)),
       agent_model ''minimax/MiniMax-M3.1-Flash'' ''MiniMax M3.1 Flash'' False False (Some (agent_levels claude_levels EffortHigh))]"

definition grok_models :: "agent_model list" where
  "grok_models =
     [
       agent_model ''grok-4.7'' ''Grok 4.7'' False False (Some (agent_levels grok_levels EffortHigh)),
       agent_model ''grok-4.6'' ''Grok 4.6'' True False (Some (agent_levels grok_levels EffortHigh)),
       agent_model ''grok-4.5'' ''Grok 4.5'' False False (Some (agent_levels grok_4_5_levels EffortHigh))]"

subsection \<open>The agents\<close>

definition argv_level :: "string list \<Rightarrow> launch_level" where
  "argv_level argv = \<lparr>level_argv = argv, level_env = []\<rparr>"

definition no_launch :: agent_launch where
  "no_launch =
     \<lparr>launch_always = [], launch_model = None, launch_conversation = None, launch_teleport = None,
      launch_permission = None, launch_effort = None, launch_prompt = None\<rparr>"

fun claude_permission :: "session_permission \<Rightarrow> launch_level" where
  "claude_permission PermissionAsk = argv_level [''--permission-mode'', ''manual'']"
| "claude_permission PermissionAuto = argv_level [''--permission-mode'', ''auto'']"
| "claude_permission PermissionFull = argv_level [''--permission-mode'', ''bypassPermissions'']"

definition claude_launch :: agent_launch where
  "claude_launch = no_launch\<lparr>
     launch_model := Some [''--model'', ''<model>''],
     launch_conversation := Some
       \<lparr>conversation_create = Some [''--session-id'', ''<conversation>''],
        conversation_resume = [''--resume'', ''<conversation>''], conversation_resume_leads = False\<rparr>,
     launch_teleport := Some
       \<lparr>teleport_start = [''--teleport'', ''<teleport>''], teleport_resume = [''--continue'']\<rparr>,
     launch_permission := Some claude_permission,
     launch_effort := Some (argv_level [''--effort'', ''<effort>''], None),
     launch_prompt := Some [''<prompt>'']\<rparr>"

fun codex_permission :: "session_permission \<Rightarrow> launch_level" where
  "codex_permission PermissionAsk =
     argv_level [''--ask-for-approval'', ''on-request'', ''--sandbox'', ''workspace-write'']"
| "codex_permission PermissionAuto = argv_level [''--approve-for-me'']"
| "codex_permission PermissionFull = argv_level [''--dangerously-bypass-approvals-and-sandbox'']"

definition codex_launch :: agent_launch where
  "codex_launch = no_launch\<lparr>
     launch_always := [''--no-daemon''],
     launch_model := Some [''--model'', ''<model>''],
     launch_conversation := Some
       \<lparr>conversation_create = None, conversation_resume = [''resume'', ''--last''],
        conversation_resume_leads = True\<rparr>,
     launch_permission := Some codex_permission,
     launch_effort := Some (argv_level [''-c'', ''model_reasoning_effort=<effort>''], None),
     launch_prompt := Some [''<prompt>'']\<rparr>"

fun opencode_permission :: "session_permission \<Rightarrow> launch_level" where
  "opencode_permission PermissionAsk =
     \<lparr>level_argv = [], level_env = [(''OPENCODE_PERMISSION'',
       ''{\"edit\":\"ask\",\"bash\":\"ask\",\"webfetch\":\"ask\",\"websearch\":\"ask\",\"codesearch\":\"ask\"}'')]\<rparr>"
| "opencode_permission PermissionAuto =
     \<lparr>level_argv = [], level_env = [(''OPENCODE_PERMISSION'',
       ''{\"edit\":\"allow\",\"bash\":\"ask\",\"webfetch\":\"ask\",\"websearch\":\"ask\",\"codesearch\":\"ask\"}'')]\<rparr>"
| "opencode_permission PermissionFull = argv_level [''--auto'']"

definition opencode_launch :: agent_launch where
  "opencode_launch = no_launch\<lparr>
     launch_model := Some [''--model'', ''<model>''],
     launch_conversation := Some
       \<lparr>conversation_create = None, conversation_resume = [''--continue''],
        conversation_resume_leads = False\<rparr>,
     launch_permission := Some opencode_permission,
     launch_effort := Some
       (\<lparr>level_argv = [], level_env = [(''OPENCODE_CONFIG_CONTENT'',
          ''{\"agent\":{\"build\":{\"model\":\"<model>\",\"variant\":\"<effort>\"}}}'')]\<rparr>, Some EffortNone),
     launch_prompt := Some [''--prompt'', ''<prompt>'']\<rparr>"

fun grok_permission :: "session_permission \<Rightarrow> launch_level" where
  "grok_permission PermissionAsk = argv_level [''--permission-mode'', ''default'']"
| "grok_permission PermissionAuto = argv_level [''--permission-mode'', ''acceptEdits'']"
| "grok_permission PermissionFull = argv_level [''--permission-mode'', ''bypassPermissions'']"

definition grok_launch :: agent_launch where
  "grok_launch = no_launch\<lparr>
     launch_model := Some [''--model'', ''<model>''],
     launch_conversation := Some
       \<lparr>conversation_create = Some [''--session-id'', ''<conversation>''],
        conversation_resume = [''--resume'', ''<conversation>''], conversation_resume_leads = False\<rparr>,
     launch_permission := Some grok_permission,
     launch_effort := Some (argv_level [''--reasoning-effort'', ''<effort>''], None),
     launch_prompt := Some [''<prompt>'']\<rparr>"

definition coding_agents :: "(string \<times> coding_agent) list" where
  "coding_agents =
     [(''claude-code'', \<lparr>agent_id = ''claude-code'', agent_label = ''Claude Code'',
        agent_command = ''claude'', agent_models = claude_models, agent_launch = claude_launch\<rparr>),
      (''codex'', \<lparr>agent_id = ''codex'', agent_label = ''Codex'',
        agent_command = ''codex'', agent_models = codex_models, agent_launch = codex_launch\<rparr>),
      (''opencode'', \<lparr>agent_id = ''opencode'', agent_label = ''OpenCode'',
        agent_command = ''opencode'', agent_models = opencode_models, agent_launch = opencode_launch\<rparr>),
      (''grok'', \<lparr>agent_id = ''grok'', agent_label = ''Grok'',
        agent_command = ''grok'', agent_models = grok_models, agent_launch = grok_launch\<rparr>),
      (''shell'', \<lparr>agent_id = ''shell'', agent_label = ''Blank terminal'',
        agent_command = [], agent_models = [], agent_launch = no_launch\<rparr>)]"

subsection \<open>Lookups\<close>

text \<open>\<open>isCodingAgentId\<close> and the entry it guards: \<open>None\<close> for a name that is not in the catalog.\<close>

definition coding_agent_of :: "string \<Rightarrow> coding_agent option" where
  "coding_agent_of a = map_of coding_agents a"

definition is_coding_agent_id :: "string \<Rightarrow> bool" where
  "is_coding_agent_id a = (a \<in> set [''claude-code'', ''codex'', ''opencode'', ''grok'', ''shell''])"

definition is_host_cloud_agent :: "string \<Rightarrow> bool" where
  "is_host_cloud_agent a = (a \<in> set [''claude-code'', ''codex''])"

definition can_teleport :: "string \<Rightarrow> bool" where
  "can_teleport a =
     (case coding_agent_of a of None \<Rightarrow> False
      | Some d \<Rightarrow> launch_teleport (agent_launch d) \<noteq> None)"

definition effort_for :: "coding_agent \<Rightarrow> string option \<Rightarrow> agent_effort option" where
  "effort_for d model =
     (let row = (case model of
                   None \<Rightarrow> find model_default (agent_models d)
                 | Some m \<Rightarrow> find (\<lambda>r. model_id r = m) (agent_models d))
      in Option.bind row model_effort)"

definition effort_level_for ::
  "string option \<Rightarrow> string option \<Rightarrow> string option \<Rightarrow> session_effort option" where
  "effort_level_for agent model requested =
     (case Option.bind requested (map_of session_efforts) of
        None \<Rightarrow> None
      | Some level \<Rightarrow>
          (case Option.bind (if agent = Some [] then None else agent) coding_agent_of of
             None \<Rightarrow> Some level
           | Some d \<Rightarrow>
               (case effort_for d model of
                  None \<Rightarrow> None
                | Some e \<Rightarrow> if level \<in> set (effort_levels e) then Some level else None)))"

subsection \<open>What the catalog keeps\<close>

lemma is_coding_agent_id_iff: "is_coding_agent_id a \<longleftrightarrow> (\<exists>d. coding_agent_of a = Some d)"
  by (auto simp: is_coding_agent_id_def coding_agent_of_def coding_agents_def)

definition well_formed_model :: "agent_model \<Rightarrow> bool" where
  "well_formed_model m \<longleftrightarrow>
     (case model_effort m of None \<Rightarrow> True
      | Some e \<Rightarrow> effort_default e \<in> set (effort_levels e) \<and> distinct (effort_levels e))"

text \<open>
  A catalog entry: its key is its id, its models have distinct ids, at most the default ones are
  offered first and there is exactly one default when there are models at all, every default
  effort is one of its model's levels, and an agent with effort levels has an argv to state them.
\<close>

definition well_formed_agent :: "string \<times> coding_agent \<Rightarrow> bool" where
  "well_formed_agent kd \<longleftrightarrow>
     (let (k, d) = kd; ms = agent_models d in
      agent_id d = k \<and> distinct (map model_id ms) \<and>
      length (filter model_default ms) = (if ms = [] then 0 else 1) \<and>
      list_all well_formed_model ms \<and>
      list_all (\<lambda>m. model_effort m \<noteq> None \<longrightarrow> launch_effort (agent_launch d) \<noteq> None) ms \<and>
      (ms \<noteq> [] \<longrightarrow> launch_model (agent_launch d) \<noteq> None))"

lemmas model_list_defs = claude_models_def codex_models_def opencode_models_def grok_models_def

lemma catalog_well_formed: "list_all well_formed_agent coding_agents"
  by code_simp

lemma catalog_keys: "map fst coding_agents = [''claude-code'', ''codex'', ''opencode'', ''grok'', ''shell'']"
  by (simp add: coding_agents_def)

lemma coding_agent_of_well_formed: "coding_agent_of a = Some d \<Longrightarrow> well_formed_agent (a, d)"
  using catalog_well_formed by (auto simp: coding_agent_of_def list_all_iff dest: map_of_SomeD)

lemma effort_for_well_formed:
  assumes "coding_agent_of a = Some d" and "effort_for d m = Some e"
  shows "effort_default e \<in> set (effort_levels e) \<and> distinct (effort_levels e)"
proof -
  from assms(2) obtain r where "r \<in> set (agent_models d)" "model_effort r = Some e"
    by (auto simp: effort_for_def bind_eq_Some_conv dest: find_SomeD split: option.splits)
  with coding_agent_of_well_formed [OF assms(1)] show ?thesis
    by (auto simp: well_formed_agent_def well_formed_model_def list_all_iff Let_def)
qed

lemma effort_level_for_offered:
  assumes "effort_level_for (Some a) m q = Some l" and "coding_agent_of a = Some d"
  shows "\<exists>e. effort_for d m = Some e \<and> l \<in> set (effort_levels e)"
proof -
  have "a \<noteq> []" using assms(2) by (auto simp: coding_agent_of_def coding_agents_def)
  with assms show ?thesis
    by (auto simp: effort_level_for_def split: option.splits if_splits)
qed

end
