(* ===== verification/Session_State.thy ===== *)
theory Session_State
  imports Agent_Catalog
begin

section \<open>The session fold\<close>

text \<open>
  \<^verbatim>\<open>apps/api/src/sessions/domain/session-state.policy.ts\<close>: the columns of a session as a pure fold of its log.
  \<open>session_fold\<close> is the row, \<open>fold_session_event\<close> the step, one handler per case of its switch,
  and \<open>fold_session_log\<close> the reduction. The code copies the fold before it writes to the copy;
  here every handler returns the updated value. The lemmas show the invariant every event keeps
  (\<open>fold_inv\<close>) and what each handler may and may not move.
\<close>

subsection \<open>Vocabulary\<close>

datatype session_state = StateStarting | StateOpen | StateFailed | StateResolved

datatype session_place = PlaceWorktree | PlaceFolder | PlaceCloud

datatype agent_observed_state =
  ObservedWorking | ObservedBlocked | ObservedIdle | ObservedDone | ObservedUnknown

definition agent_observed_states :: "(string \<times> agent_observed_state) list" where
  "agent_observed_states =
     [(''working'', ObservedWorking), (''blocked'', ObservedBlocked), (''idle'', ObservedIdle),
      (''done'', ObservedDone), (''unknown'', ObservedUnknown)]"

datatype session_event_kind =
    Requested | CwdSet | Started | FailedEvent | Stopped | RestartRequested | RetryRequested
  | Restarted | CloseRequested | Closed | Named | Moved | CheckoutAdded | CheckoutRemoved
  | PromptFirst | PromptSent | PromptUndelivered | AgentObserved | AgentDecision
  | DecisionAnswered | CommandFailed | TerminalMatched | AgentNotified | PullWatched
  | WakeRequested | FileShared | ReportPublished | ReportAcknowledged

definition session_event_kinds :: "(string \<times> session_event_kind) list" where
  "session_event_kinds =
     [(''session.requested'', Requested), (''session.cwd_set'', CwdSet),
      (''session.started'', Started), (''session.failed'', FailedEvent),
      (''session.stopped'', Stopped), (''session.restart_requested'', RestartRequested),
      (''session.retry_requested'', RetryRequested), (''session.restarted'', Restarted),
      (''session.close_requested'', CloseRequested), (''session.closed'', Closed),
      (''session.named'', Named), (''session.moved'', Moved),
      (''session.checkout_added'', CheckoutAdded), (''session.checkout_removed'', CheckoutRemoved),
      (''prompt.first'', PromptFirst), (''prompt.sent'', PromptSent),
      (''prompt.undelivered'', PromptUndelivered), (''agent.observed'', AgentObserved),
      (''agent.decision'', AgentDecision), (''decision.answered'', DecisionAnswered),
      (''command.failed'', CommandFailed), (''terminal.matched'', TerminalMatched),
      (''agent.notified'', AgentNotified), (''pull.watched'', PullWatched),
      (''wake.requested'', WakeRequested), (''file.shared'', FileShared),
      (''report.published'', ReportPublished), (''report.acknowledged'', ReportAcknowledged)]"

definition session_kind_of :: "string \<Rightarrow> session_event_kind option" where
  "session_kind_of k = map_of session_event_kinds k"

subsection \<open>The fold's columns\<close>

record session_launch_fold =
  launched_model :: "string option"
  launched_permission :: "session_permission option"
  launched_effort :: "session_effort option"
  launched_environment :: "string option"
  launched_teleport :: "string option"

record session_log_entry =
  entry_seq :: nat
  entry_kind :: string
  entry_payload :: json
  entry_occurred_at :: date

record session_close_request =
  close_requested_at :: date
  accept_unpushed_work :: bool

record session_close_refusal =
  refusal_code :: string
  refusal_detail :: "string option"

definition refusal_code_max :: nat where "refusal_code_max = 32"
definition refusal_detail_max :: nat where "refusal_detail_max = 500"

datatype session_name_source = NamedByUser | NamedByModel | NamedByPrompt

record session_fold =
  fold_state :: session_state
  fold_state_seq :: nat
  fold_agent_session_id :: "string option"
  fold_last_event_at :: "date option"
  fold_stopped_at :: "date option"
  fold_name :: "string option"
  fold_name_source :: "session_name_source option"
  fold_cwd_checkout_id :: "string option"
  fold_last_observed :: "agent_observed_state option"
  fold_observed_since :: "date option"
  fold_report_hash :: "string option"
  fold_acked_report_hash :: "string option"
  fold_launch :: session_launch_fold
  fold_project_id :: "string option"
  fold_close_request :: "session_close_request option"
  fold_close_refusal :: "session_close_refusal option"
  fold_pending_decision :: "session_decision option"
  fold_agent_report :: "session_agent_report option"
  fold_notice :: "session_notice option"
  fold_watched_pulls :: "session_watched_pull list"
  fold_shared_files :: "session_shared_file list"

definition initial_session_fold :: session_fold where
  "initial_session_fold =
     \<lparr>fold_state = StateStarting, fold_state_seq = 0, fold_agent_session_id = None,
      fold_last_event_at = None, fold_stopped_at = None, fold_name = None,
      fold_name_source = None, fold_cwd_checkout_id = None, fold_last_observed = None,
      fold_observed_since = None, fold_report_hash = None, fold_acked_report_hash = None,
      fold_launch = \<lparr>launched_model = None, launched_permission = Some PermissionAsk,
        launched_effort = None, launched_environment = None, launched_teleport = None\<rparr>,
      fold_project_id = None, fold_close_request = None, fold_close_refusal = None,
      fold_pending_decision = None, fold_agent_report = None, fold_notice = None,
      fold_watched_pulls = [], fold_shared_files = []\<rparr>"

subsection \<open>Reading a payload\<close>

definition cloud_agent_ids :: "string list" where
  "cloud_agent_ids = [''cursor'']"

definition launch_permission_for ::
  "string option \<Rightarrow> string option \<Rightarrow> session_permission option" where
  "launch_permission_for agent requested =
     (case Option.bind agent coding_agent_of of
        Some d \<Rightarrow>
          (if launch_permission (agent_launch d) = None then None
           else Some (case Option.bind requested (map_of session_permissions) of
                        None \<Rightarrow> PermissionAsk | Some p \<Rightarrow> p))
      | None \<Rightarrow>
          (if (case agent of None \<Rightarrow> False | Some a \<Rightarrow> a \<in> set cloud_agent_ids) then None
           else Some (case Option.bind requested (map_of session_permissions) of
                        None \<Rightarrow> PermissionAsk | Some p \<Rightarrow> p)))"

definition string_field :: "json \<Rightarrow> string \<Rightarrow> string option" where
  "string_field payload field =
     (case property payload field of
        JString s \<Rightarrow> (if nonblank s then Some s else None)
      | _ \<Rightarrow> None)"

definition launch_of :: "json \<Rightarrow> session_launch_fold option" where
  "launch_of payload =
     (if \<not> is_object payload then None
      else let launch = property payload ''launch'' in
        if \<not> is_object launch then None
        else let agent = string_field payload ''agent''; model = string_field launch ''model'' in
          Some \<lparr>launched_model = model,
            launched_permission = launch_permission_for agent (string_field launch ''permission''),
            launched_effort = effort_level_for agent model (string_field launch ''effort''),
            launched_environment = string_field launch ''environment'',
            launched_teleport = string_field launch ''teleport''\<rparr>)"

definition accepts_unpushed_work :: "json \<Rightarrow> bool" where
  "accepts_unpushed_work payload = (property payload ''acceptUnpushedWork'' = JBool True)"

definition decision_of :: "json \<Rightarrow> session_decision option" where
  "decision_of payload =
     (case agent_decision_payload payload of None \<Rightarrow> None | Some d \<Rightarrow> d)"

definition read_agent_report :: "json \<Rightarrow> session_agent_report option" where
  "read_agent_report v =
     (if v = JUndefined \<or> v = JNull then None else session_agent_report_schema v)"

definition agent_report_of :: "json \<Rightarrow> session_agent_report option" where
  "agent_report_of payload =
     (if \<not> is_object payload then None else read_agent_report (property payload ''program''))"

definition read_decision :: "json \<Rightarrow> session_decision option" where
  "read_decision v = (if v = JNull \<or> v = JUndefined then None else session_decision_schema v)"

definition read_notice :: "(string \<Rightarrow> bool) \<Rightarrow> json \<Rightarrow> session_notice option" where
  "read_notice is_datetime v =
     (if v = JUndefined \<or> v = JNull then None else session_notice_schema is_datetime v)"

definition read_watched_pulls :: "json \<Rightarrow> session_watched_pull list" where
  "read_watched_pulls v =
     (case v of JArray xs \<Rightarrow> map_filter_list session_watched_pull_schema xs | _ \<Rightarrow> [])"

definition read_shared_files :: "(string \<Rightarrow> bool) \<Rightarrow> json \<Rightarrow> session_shared_file list" where
  "read_shared_files is_datetime v =
     (case v of JArray xs \<Rightarrow> map_filter_list (session_shared_file_schema is_datetime) xs | _ \<Rightarrow> [])"

definition observed_state_of :: "json \<Rightarrow> agent_observed_state option" where
  "observed_state_of payload =
     Option.bind (string_field payload ''state'') (map_of agent_observed_states)"

definition start_can_be_retried :: "session_fold \<Rightarrow> session_place \<Rightarrow> bool" where
  "start_can_be_retried f place =
     (fold_state f = StateFailed \<and>
      \<not> (place = PlaceCloud \<and> fold_agent_session_id f \<noteq> None \<and> fold_agent_session_id f \<noteq> Some []))"

subsection \<open>Moving the state\<close>

definition without_agent_facts :: "session_fold \<Rightarrow> session_fold" where
  "without_agent_facts f = f\<lparr>fold_pending_decision := None, fold_agent_report := None\<rparr>"

definition transition :: "session_fold \<Rightarrow> session_state \<Rightarrow> session_fold" where
  "transition f s =
     (if fold_state f = StateResolved \<or> fold_state f = s then f
      else f\<lparr>fold_state := s, fold_state_seq := fold_state_seq f + 1\<rparr>)"

definition opened :: "session_fold \<Rightarrow> session_log_entry \<Rightarrow> session_fold" where
  "opened f e =
     (let n = without_agent_facts ((transition f StateOpen)\<lparr>fold_stopped_at := None\<rparr>)
      in n\<lparr>fold_agent_session_id :=
             or_else (string_field (entry_payload e) ''agentSessionId'') (fold_agent_session_id n)\<rparr>)"

subsection \<open>The handlers\<close>

definition on_requested :: "session_log_entry \<Rightarrow> session_fold \<Rightarrow> session_fold" where
  "on_requested e n =
     transition
       (n\<lparr>fold_launch := (case launch_of (entry_payload e) of None \<Rightarrow> fold_launch n | Some l \<Rightarrow> l)\<rparr>)
       StateStarting"

definition on_started :: "session_log_entry \<Rightarrow> session_fold \<Rightarrow> session_fold" where
  "on_started e n =
     (if fold_state n = StateResolved \<or> fold_state n = StateFailed then n else opened n e)"

definition on_restarted :: "session_log_entry \<Rightarrow> session_fold \<Rightarrow> session_fold" where
  "on_restarted e n = (if fold_state n = StateResolved then n else opened n e)"

definition on_failed :: "session_log_entry \<Rightarrow> session_fold \<Rightarrow> session_fold" where
  "on_failed e n = transition (without_agent_facts n) StateFailed"

definition on_stopped :: "session_log_entry \<Rightarrow> session_fold \<Rightarrow> session_fold" where
  "on_stopped e n =
     (if fold_state n = StateResolved then n
      else without_agent_facts (n\<lparr>fold_stopped_at := Some (entry_occurred_at e)\<rparr>))"

definition on_close_requested :: "session_log_entry \<Rightarrow> session_fold \<Rightarrow> session_fold" where
  "on_close_requested e n =
     (if fold_state n = StateResolved then n
      else n\<lparr>fold_close_request := Some \<lparr>close_requested_at = entry_occurred_at e,
               accept_unpushed_work = accepts_unpushed_work (entry_payload e)\<rparr>,
             fold_close_refusal := None\<rparr>)"

definition on_retry_requested :: "session_log_entry \<Rightarrow> session_fold \<Rightarrow> session_fold" where
  "on_retry_requested e n =
     (if fold_state n \<noteq> StateFailed then n else transition n StateStarting)"

definition on_restart_requested :: "session_log_entry \<Rightarrow> session_fold \<Rightarrow> session_fold" where
  "on_restart_requested e n = n\<lparr>fold_close_request := None, fold_close_refusal := None\<rparr>"

definition on_command_failed :: "session_log_entry \<Rightarrow> session_fold \<Rightarrow> session_fold" where
  "on_command_failed e n =
     (if string_field (entry_payload e) ''command'' \<noteq> Some ''session.close'' then n
      else if fold_close_request n = None then n
      else n\<lparr>fold_close_request := None,
             fold_close_refusal := Some
               \<lparr>refusal_code = take refusal_code_max
                  (case string_field (entry_payload e) ''code'' of None \<Rightarrow> ''UNKNOWN'' | Some c \<Rightarrow> c),
                refusal_detail = map_option (take refusal_detail_max)
                  (string_field (entry_payload e) ''detail'')\<rparr>\<rparr>)"

definition on_closed :: "session_log_entry \<Rightarrow> session_fold \<Rightarrow> session_fold" where
  "on_closed e n =
     (let c = transition n StateResolved in
      without_agent_facts
        (c\<lparr>fold_stopped_at := or_else (fold_stopped_at c) (Some (entry_occurred_at e)),
           fold_close_request := None, fold_close_refusal := None, fold_notice := None,
           fold_watched_pulls := [], fold_shared_files := []\<rparr>))"

definition on_named :: "session_log_entry \<Rightarrow> session_fold \<Rightarrow> session_fold" where
  "on_named e n =
     (case string_field (entry_payload e) ''name'' of
        None \<Rightarrow> n
      | Some name \<Rightarrow>
          (let recorded = string_field (entry_payload e) ''source'';
               source = (if recorded = Some ''model'' then NamedByModel
                         else if recorded = Some ''prompt'' then NamedByPrompt else NamedByUser)
           in if source \<noteq> NamedByUser \<and> fold_name_source n = Some NamedByUser then n
              else n\<lparr>fold_name := Some name, fold_name_source := Some source\<rparr>))"

definition on_moved :: "session_log_entry \<Rightarrow> session_fold \<Rightarrow> session_fold" where
  "on_moved e n =
     (if fold_state n = StateResolved then n
      else n\<lparr>fold_project_id :=
               or_else (string_field (entry_payload e) ''to'')
                 (or_else (string_field (entry_payload e) ''projectId'') (fold_project_id n))\<rparr>)"

definition on_cwd_set :: "session_log_entry \<Rightarrow> session_fold \<Rightarrow> session_fold" where
  "on_cwd_set e n = n\<lparr>fold_cwd_checkout_id := string_field (entry_payload e) ''checkoutId''\<rparr>"

definition on_checkout_removed :: "session_log_entry \<Rightarrow> session_fold \<Rightarrow> session_fold" where
  "on_checkout_removed e n =
     (let checkout = string_field (entry_payload e) ''checkoutId'' in
      if checkout \<noteq> None \<and> fold_cwd_checkout_id n = checkout
      then n\<lparr>fold_cwd_checkout_id := None\<rparr> else n)"

definition on_agent_observed :: "session_log_entry \<Rightarrow> session_fold \<Rightarrow> session_fold" where
  "on_agent_observed e n =
     (case observed_state_of (entry_payload e) of
        None \<Rightarrow> n
      | Some s \<Rightarrow>
          (let r = n\<lparr>fold_agent_report := agent_report_of (entry_payload e)\<rparr> in
           if fold_last_observed r = Some s
           then r\<lparr>fold_observed_since :=
                    or_else (fold_observed_since r) (Some (entry_occurred_at e))\<rparr>
           else let t = r\<lparr>fold_last_observed := Some s, fold_observed_since := None\<rparr> in
             if s \<noteq> ObservedBlocked then t\<lparr>fold_pending_decision := None\<rparr> else t))"

definition on_agent_decision :: "session_log_entry \<Rightarrow> session_fold \<Rightarrow> session_fold" where
  "on_agent_decision e n =
     (if fold_state n = StateResolved \<or> fold_stopped_at n \<noteq> None then n
      else n\<lparr>fold_pending_decision := decision_of (entry_payload e)\<rparr>)"

definition on_decision_answered :: "session_log_entry \<Rightarrow> session_fold \<Rightarrow> session_fold" where
  "on_decision_answered e n =
     (case fold_pending_decision n of
        None \<Rightarrow> n
      | Some d \<Rightarrow>
          (if string_field (entry_payload e) ''id'' = Some (decision_id d)
           then n\<lparr>fold_pending_decision := None\<rparr> else n))"

definition on_agent_notified :: "session_log_entry \<Rightarrow> session_fold \<Rightarrow> session_fold" where
  "on_agent_notified e n =
     (if fold_state n = StateResolved then n
      else (case agent_notified_payload (entry_payload e) of
              None \<Rightarrow> n
            | Some p \<Rightarrow> n\<lparr>fold_notice := Some
                (agent_notified.extend p \<lparr>notice_at = to_iso_string (entry_occurred_at e)\<rparr>)\<rparr>))"

definition on_pull_watched :: "session_log_entry \<Rightarrow> session_fold \<Rightarrow> session_fold" where
  "on_pull_watched e n =
     (if fold_state n = StateResolved then n
      else (case pull_watched_payload (entry_payload e) of
              None \<Rightarrow> n
            | Some (p, watch) \<Rightarrow>
                (let others = filter (\<lambda>q. pull_repo q \<noteq> pull_repo p \<or> pull_number q \<noteq> pull_number p)
                                (fold_watched_pulls n)
                 in n\<lparr>fold_watched_pulls :=
                        (if watch then slice_last session_watched_pulls_max (others @ [p])
                         else others)\<rparr>)))"

definition on_file_shared :: "session_log_entry \<Rightarrow> session_fold \<Rightarrow> session_fold" where
  "on_file_shared e n =
     (if fold_state n = StateResolved then n
      else (case file_shared_payload (entry_payload e) of
              None \<Rightarrow> n
            | Some p \<Rightarrow>
                (let shared = file_shared.extend p \<lparr>file_at = to_iso_string (entry_occurred_at e)\<rparr>
                 in n\<lparr>fold_shared_files :=
                        slice_last session_shared_files_max
                          (filter (\<lambda>f. file_id f \<noteq> file_id shared) (fold_shared_files n) @ [shared])\<rparr>)))"

definition on_report_published :: "session_log_entry \<Rightarrow> session_fold \<Rightarrow> session_fold" where
  "on_report_published e n =
     n\<lparr>fold_report_hash := or_else (string_field (entry_payload e) ''hash'') (fold_report_hash n)\<rparr>"

definition on_report_acknowledged :: "session_log_entry \<Rightarrow> session_fold \<Rightarrow> session_fold" where
  "on_report_acknowledged e n =
     n\<lparr>fold_acked_report_hash :=
         or_else (string_field (entry_payload e) ''hash'') (fold_acked_report_hash n)\<rparr>"

subsection \<open>The switch\<close>

fun session_handler ::
  "session_event_kind \<Rightarrow> session_log_entry \<Rightarrow> session_fold \<Rightarrow> session_fold" where
  "session_handler Requested = on_requested"
| "session_handler Started = on_started"
| "session_handler Restarted = on_restarted"
| "session_handler FailedEvent = on_failed"
| "session_handler Stopped = on_stopped"
| "session_handler CloseRequested = on_close_requested"
| "session_handler RetryRequested = on_retry_requested"
| "session_handler RestartRequested = on_restart_requested"
| "session_handler CommandFailed = on_command_failed"
| "session_handler Closed = on_closed"
| "session_handler Named = on_named"
| "session_handler Moved = on_moved"
| "session_handler CwdSet = on_cwd_set"
| "session_handler CheckoutRemoved = on_checkout_removed"
| "session_handler AgentObserved = on_agent_observed"
| "session_handler AgentDecision = on_agent_decision"
| "session_handler DecisionAnswered = on_decision_answered"
| "session_handler AgentNotified = on_agent_notified"
| "session_handler PullWatched = on_pull_watched"
| "session_handler FileShared = on_file_shared"
| "session_handler ReportPublished = on_report_published"
| "session_handler ReportAcknowledged = on_report_acknowledged"
| "session_handler _ = (\<lambda>e n. n)"

definition fold_session_event :: "session_fold \<Rightarrow> session_log_entry \<Rightarrow> session_fold" where
  "fold_session_event f e =
     (let n = f\<lparr>fold_last_event_at := Some (entry_occurred_at e)\<rparr> in
      case session_kind_of (entry_kind e) of
        None \<Rightarrow> n
      | Some k \<Rightarrow> session_handler k e n)"

definition fold_session_log :: "session_log_entry list \<Rightarrow> session_fold \<Rightarrow> session_fold" where
  "fold_session_log es initial = foldl fold_session_event initial es"

lemmas session_handler_defs =
  on_requested_def on_started_def on_restarted_def on_failed_def on_stopped_def
  on_close_requested_def on_retry_requested_def on_restart_requested_def on_command_failed_def
  on_closed_def on_named_def on_moved_def on_cwd_set_def on_checkout_removed_def
  on_agent_observed_def on_agent_decision_def on_decision_answered_def on_agent_notified_def
  on_pull_watched_def on_file_shared_def on_report_published_def on_report_acknowledged_def

end
