(* ===== verification/Session_Turn.thy ===== *)
theory Session_Turn
  imports Session_State
begin

section \<open>The turn fold\<close>

text \<open>
  \<^verbatim>\<open>apps/api/src/sessions/domain/session-turn.policy.ts\<close>: a session's latest turn (one prompt given to the
  agent and what became of it) folded from the same log. The fold returns the turn as it now
  stands; a result with the next \<open>turn_seq\<close> is a turn the entry opened. The lemmas show the
  invariant of a stored turn, that a final turn is only ever overruled by its own exit code,
  and that the sequence number grows one at a time.
\<close>

subsection \<open>Vocabulary\<close>

datatype turn_state =
  TurnQueued | TurnInProgress | TurnRequiresAction | TurnCompleted | TurnFailed | TurnCancelled
  | TurnExpired

definition live_turn_states :: "turn_state list" where
  "live_turn_states = [TurnQueued, TurnInProgress, TurnRequiresAction]"

datatype turn_origin = TurnPerson | TurnAutomation | TurnFollowUp

datatype turn_drive = Interactive | Headless

datatype session_origin = FromPerson | FromAutomation | FromReview | FromBot

fun first_turn_origin :: "session_origin \<Rightarrow> turn_origin" where
  "first_turn_origin FromPerson = TurnPerson"
| "first_turn_origin FromAutomation = TurnAutomation"
| "first_turn_origin FromReview = TurnPerson"
| "first_turn_origin FromBot = TurnPerson"

datatype turn_event_kind = TurnRequestedEvent | TurnStartedEvent | TurnEndedEvent

definition turn_event_kinds :: "(string \<times> turn_event_kind) list" where
  "turn_event_kinds =
     [(''turn.requested'', TurnRequestedEvent), (''turn.started'', TurnStartedEvent),
      (''turn.ended'', TurnEndedEvent)]"

definition turn_model_max_length :: nat where
  "turn_model_max_length = 64"

record session_turn =
  turn_seq :: nat
  turn_origin :: turn_origin
  turn_drive :: turn_drive
  turn_state :: turn_state
  turn_prompt :: "string option"
  turn_observed_working :: bool
  turn_started_at :: "date option"
  turn_ended_at :: "date option"
  turn_exit_code :: "int option"
  turn_agent_session_id :: "string option"
  turn_result :: "string option"
  turn_failure_detail :: "string option"
  turn_cost_usd :: "rat option"
  turn_permission_denials :: int
  turn_output_ref :: "string option"
  turn_model :: "string option"
  turn_input_tokens :: "int option"
  turn_output_tokens :: "int option"
  turn_cache_read_tokens :: "int option"
  turn_cache_write_tokens :: "int option"

definition is_live_state :: "turn_state \<Rightarrow> bool" where
  "is_live_state s = (s \<in> set live_turn_states)"

definition is_live_turn :: "session_turn option \<Rightarrow> bool" where
  "is_live_turn t = (case t of None \<Rightarrow> False | Some u \<Rightarrow> is_live_state (turn_state u))"

definition new_turn :: "nat \<Rightarrow> turn_origin \<Rightarrow> string option \<Rightarrow> turn_drive \<Rightarrow> session_turn" where
  "new_turn seq origin prompt drive =
     \<lparr>turn_seq = seq, turn_origin = origin, turn_drive = drive, turn_state = TurnQueued,
      turn_prompt = prompt, turn_observed_working = False, turn_started_at = None,
      turn_ended_at = None, turn_exit_code = None, turn_agent_session_id = None,
      turn_result = None, turn_failure_detail = None, turn_cost_usd = None,
      turn_permission_denials = 0, turn_output_ref = None, turn_model = None,
      turn_input_tokens = None, turn_output_tokens = None, turn_cache_read_tokens = None,
      turn_cache_write_tokens = None\<rparr>"

subsection \<open>Reading a payload\<close>

definition turn_text :: "json \<Rightarrow> string \<Rightarrow> string option" where
  "turn_text payload name =
     (case property payload name of
        JString s \<Rightarrow> (if nonblank s then Some s else None)
      | _ \<Rightarrow> None)"

definition turn_integer :: "json \<Rightarrow> string \<Rightarrow> int option" where
  "turn_integer payload name =
     (case property payload name of JNumber n \<Rightarrow> int_of_number n | _ \<Rightarrow> None)"

definition token_count :: "json \<Rightarrow> string \<Rightarrow> int option" where
  "token_count payload name =
     (case turn_integer payload name of
        None \<Rightarrow> None
      | Some n \<Rightarrow> (if \<bar>n\<bar> \<le> max_safe_integer \<and> 0 \<le> n then Some n else None))"

definition turn_model_id :: "json \<Rightarrow> string option" where
  "turn_model_id payload =
     (case turn_text payload ''model'' of
        None \<Rightarrow> None
      | Some v \<Rightarrow> (if length v \<le> turn_model_max_length then Some v else None))"

definition finite_number :: "json \<Rightarrow> string \<Rightarrow> rat option" where
  "finite_number payload name =
     (case property payload name of
        JNumber (Finite q) \<Rightarrow> (if 0 \<le> q then Some q else None)
      | _ \<Rightarrow> None)"

definition end_turn :: "session_turn \<Rightarrow> turn_state \<Rightarrow> date \<Rightarrow> session_turn" where
  "end_turn t s now = t\<lparr>turn_state := s, turn_ended_at := or_else (turn_ended_at t) (Some now)\<rparr>"

definition start_turn :: "session_turn \<Rightarrow> date \<Rightarrow> session_turn" where
  "start_turn t now = t\<lparr>turn_started_at := or_else (turn_started_at t) (Some now)\<rparr>"

definition next_turn_seq :: "session_turn option \<Rightarrow> nat" where
  "next_turn_seq latest = (case latest of None \<Rightarrow> 0 | Some t \<Rightarrow> turn_seq t) + 1"

subsection \<open>The handlers\<close>

definition turn_prompt_first ::
  "session_origin \<Rightarrow> session_log_entry \<Rightarrow> session_turn option \<Rightarrow> session_turn option" where
  "turn_prompt_first origin e latest =
     (if latest \<noteq> None then latest
      else Some (new_turn 1 (first_turn_origin origin) (turn_text (entry_payload e) ''text'') Interactive))"

definition turn_requested :: "session_log_entry \<Rightarrow> session_turn option \<Rightarrow> session_turn option" where
  "turn_requested e latest =
     Some (new_turn (next_turn_seq latest)
       (if turn_text (entry_payload e) ''origin'' = Some ''automation'' then TurnAutomation
        else TurnFollowUp)
       (turn_text (entry_payload e) ''prompt'') Headless)"

definition turn_prompt_sent :: "session_log_entry \<Rightarrow> session_turn option \<Rightarrow> session_turn option" where
  "turn_prompt_sent e latest =
     (if is_live_turn latest then latest
      else Some (new_turn (next_turn_seq latest) TurnFollowUp
             (turn_text (entry_payload e) ''text'') Interactive))"

definition turn_prompt_undelivered :: "session_log_entry \<Rightarrow> session_turn option \<Rightarrow> session_turn option" where
  "turn_prompt_undelivered e latest =
     (case latest of None \<Rightarrow> None
      | Some t \<Rightarrow>
          (if turn_state t \<noteq> TurnQueued \<or> turn_origin t \<noteq> TurnFollowUp then latest
           else Some (end_turn t TurnCancelled (entry_occurred_at e))))"

definition turn_session_started :: "session_log_entry \<Rightarrow> session_turn option \<Rightarrow> session_turn option" where
  "turn_session_started e latest =
     (case latest of None \<Rightarrow> None
      | Some t \<Rightarrow>
          (if turn_state t \<noteq> TurnQueued then latest
           else Some ((start_turn t (entry_occurred_at e))\<lparr>turn_state := TurnInProgress\<rparr>)))"

definition turn_retry_requested :: "session_log_entry \<Rightarrow> session_turn option \<Rightarrow> session_turn option" where
  "turn_retry_requested e latest =
     (case latest of None \<Rightarrow> None
      | Some t \<Rightarrow>
          (if turn_state t \<noteq> TurnFailed then latest
           else Some (new_turn (turn_seq t + 1) (turn_origin t) (turn_prompt t) (turn_drive t))))"

definition turn_restarted :: "session_log_entry \<Rightarrow> session_turn option \<Rightarrow> session_turn option" where
  "turn_restarted e latest =
     (case latest of None \<Rightarrow> None
      | Some t \<Rightarrow>
          (if turn_state t = TurnQueued
           then Some ((start_turn t (entry_occurred_at e))\<lparr>turn_state := TurnInProgress\<rparr>)
           else if is_live_turn latest then latest
           else Some ((new_turn (turn_seq t + 1) TurnPerson (turn_prompt t) (turn_drive t))
                  \<lparr>turn_state := TurnInProgress, turn_started_at := Some (entry_occurred_at e)\<rparr>)))"

definition turn_agent_observed :: "session_log_entry \<Rightarrow> session_turn option \<Rightarrow> session_turn option" where
  "turn_agent_observed e latest =
     (case latest of None \<Rightarrow> None
      | Some t \<Rightarrow>
          (if \<not> is_live_turn latest \<or> turn_drive t = Headless then latest
           else
             (let observed = turn_text (entry_payload e) ''state''; now = entry_occurred_at e in
              if observed = Some ''working''
              then (if turn_state t = TurnInProgress \<and> turn_observed_working t then latest
                    else Some ((start_turn t now)
                           \<lparr>turn_state := TurnInProgress, turn_observed_working := True\<rparr>))
              else if observed = Some ''blocked''
              then (if turn_state t = TurnRequiresAction then latest
                    else Some ((start_turn t now)
                           \<lparr>turn_state := TurnRequiresAction, turn_observed_working := True\<rparr>))
              else if observed = Some ''done'' \<or> (observed = Some ''idle'' \<and> turn_observed_working t)
              then Some (end_turn (start_turn t now) TurnCompleted now)
              else latest)))"

definition turn_started :: "session_log_entry \<Rightarrow> session_turn option \<Rightarrow> session_turn option" where
  "turn_started e latest =
     (case latest of None \<Rightarrow> None
      | Some t \<Rightarrow>
          (if \<not> is_live_turn latest then latest
           else Some ((start_turn t (entry_occurred_at e))
             \<lparr>turn_drive := Headless, turn_state := TurnInProgress,
              turn_agent_session_id :=
                or_else (turn_text (entry_payload e) ''agentSessionId'') (turn_agent_session_id t)\<rparr>)))"

definition turn_ended :: "session_log_entry \<Rightarrow> session_turn option \<Rightarrow> session_turn option" where
  "turn_ended e latest =
     (case latest of None \<Rightarrow> None
      | Some t \<Rightarrow>
          (let p = entry_payload e; exit_code = turn_integer p ''exitCode'';
               ended = (start_turn t (entry_occurred_at e))
                 \<lparr>turn_drive := Headless, turn_exit_code := exit_code,
                  turn_agent_session_id :=
                    or_else (turn_text p ''agentSessionId'') (turn_agent_session_id t),
                  turn_result := or_else (turn_text p ''result'') (turn_result t),
                  turn_cost_usd := or_else (finite_number p ''costUsd'') (turn_cost_usd t),
                  turn_permission_denials :=
                    (case turn_integer p ''permissionDenials'' of
                       None \<Rightarrow> turn_permission_denials t | Some n \<Rightarrow> n),
                  turn_output_ref := or_else (turn_text p ''outputRef'') (turn_output_ref t),
                  turn_model := or_else (turn_model_id p) (turn_model t),
                  turn_input_tokens := or_else (token_count p ''inputTokens'') (turn_input_tokens t),
                  turn_output_tokens := or_else (token_count p ''outputTokens'') (turn_output_tokens t),
                  turn_cache_read_tokens :=
                    or_else (token_count p ''cacheReadTokens'') (turn_cache_read_tokens t),
                  turn_cache_write_tokens :=
                    or_else (token_count p ''cacheWriteTokens'') (turn_cache_write_tokens t)\<rparr>
           in Some (end_turn ended (if exit_code = Some 0 then TurnCompleted else TurnFailed)
                (entry_occurred_at e))))"

definition turn_session_failed :: "session_log_entry \<Rightarrow> session_turn option \<Rightarrow> session_turn option" where
  "turn_session_failed e latest =
     (case latest of None \<Rightarrow> None
      | Some t \<Rightarrow>
          (if \<not> is_live_turn latest then latest
           else Some (end_turn
             (t\<lparr>turn_failure_detail :=
                  or_else (turn_text (entry_payload e) ''detail'') (turn_failure_detail t)\<rparr>)
             TurnFailed (entry_occurred_at e))))"

definition turn_session_over :: "session_log_entry \<Rightarrow> session_turn option \<Rightarrow> session_turn option" where
  "turn_session_over e latest =
     (case latest of None \<Rightarrow> None
      | Some t \<Rightarrow>
          (if \<not> is_live_turn latest then latest
           else Some (end_turn t TurnCancelled (entry_occurred_at e))))"

subsection \<open>The switch\<close>

fun session_turn_handler ::
  "session_origin \<Rightarrow> session_event_kind \<Rightarrow> session_log_entry \<Rightarrow> session_turn option \<Rightarrow> session_turn option" where
  "session_turn_handler origin PromptFirst = turn_prompt_first origin"
| "session_turn_handler origin PromptSent = turn_prompt_sent"
| "session_turn_handler origin PromptUndelivered = turn_prompt_undelivered"
| "session_turn_handler origin Started = turn_session_started"
| "session_turn_handler origin RetryRequested = turn_retry_requested"
| "session_turn_handler origin Restarted = turn_restarted"
| "session_turn_handler origin AgentObserved = turn_agent_observed"
| "session_turn_handler origin FailedEvent = turn_session_failed"
| "session_turn_handler origin Stopped = turn_session_over"
| "session_turn_handler origin Closed = turn_session_over"
| "session_turn_handler origin _ = (\<lambda>e latest. latest)"

fun turn_handler :: "turn_event_kind \<Rightarrow> session_log_entry \<Rightarrow> session_turn option \<Rightarrow> session_turn option" where
  "turn_handler TurnRequestedEvent = turn_requested"
| "turn_handler TurnStartedEvent = turn_started"
| "turn_handler TurnEndedEvent = turn_ended"

definition fold_turn_event ::
  "session_origin \<Rightarrow> session_turn option \<Rightarrow> session_log_entry \<Rightarrow> session_turn option" where
  "fold_turn_event origin latest e =
     (case session_kind_of (entry_kind e) of
        Some k \<Rightarrow> session_turn_handler origin k e latest
      | None \<Rightarrow>
          (case map_of turn_event_kinds (entry_kind e) of
             Some k \<Rightarrow> turn_handler k e latest
           | None \<Rightarrow> latest))"

text \<open>
  \<open>sameTurn\<close> compares the stored columns but the origin, which never changes under one
  sequence number.
\<close>

definition same_turn :: "session_turn option \<Rightarrow> session_turn option \<Rightarrow> bool" where
  "same_turn a b =
     (case (a, b) of
        (None, None) \<Rightarrow> True
      | (Some s, Some t) \<Rightarrow>
          turn_seq s = turn_seq t \<and> turn_state s = turn_state t \<and> turn_drive s = turn_drive t \<and>
          turn_observed_working s = turn_observed_working t \<and>
          turn_started_at s = turn_started_at t \<and> turn_ended_at s = turn_ended_at t \<and>
          turn_exit_code s = turn_exit_code t \<and>
          turn_agent_session_id s = turn_agent_session_id t \<and> turn_result s = turn_result t \<and>
          turn_failure_detail s = turn_failure_detail t \<and> turn_cost_usd s = turn_cost_usd t \<and>
          turn_permission_denials s = turn_permission_denials t \<and>
          turn_output_ref s = turn_output_ref t \<and> turn_model s = turn_model t \<and>
          turn_input_tokens s = turn_input_tokens t \<and> turn_output_tokens s = turn_output_tokens t \<and>
          turn_cache_read_tokens s = turn_cache_read_tokens t \<and>
          turn_cache_write_tokens s = turn_cache_write_tokens t \<and> turn_prompt s = turn_prompt t
      | _ \<Rightarrow> False)"

lemmas turn_handler_defs =
  turn_prompt_first_def turn_requested_def turn_prompt_sent_def turn_prompt_undelivered_def
  turn_session_started_def turn_retry_requested_def turn_restarted_def turn_agent_observed_def
  turn_started_def turn_ended_def turn_session_failed_def turn_session_over_def

lemmas turn_step_defs =
  turn_handler_defs end_turn_def start_turn_def new_turn_def next_turn_seq_def is_live_turn_def
  is_live_state_def live_turn_states_def Let_def

subsection \<open>The invariant of a stored turn\<close>

definition turn_inv :: "session_turn \<Rightarrow> bool" where
  "turn_inv t \<longleftrightarrow>
     1 \<le> turn_seq t \<and>
     (is_live_state (turn_state t) \<longleftrightarrow> turn_ended_at t = None) \<and>
     (turn_state t = TurnQueued \<longrightarrow> turn_started_at t = None) \<and>
     (turn_state t \<in> {TurnInProgress, TurnRequiresAction, TurnCompleted} \<longrightarrow> turn_started_at t \<noteq> None) \<and>
     (turn_started_at t = None \<longrightarrow> \<not> turn_observed_working t) \<and>
     turn_state t \<noteq> TurnExpired"

text \<open>What the agent reported is what the columns can hold.\<close>

definition usage_fits :: "session_turn \<Rightarrow> bool" where
  "usage_fits t \<longleftrightarrow>
     pred_option (\<lambda>m. length m \<le> turn_model_max_length) (turn_model t) \<and>
     pred_option (\<lambda>c. 0 \<le> c) (turn_cost_usd t) \<and>
     pred_option (\<lambda>v. 0 \<le> v \<and> v \<le> max_safe_integer) (turn_input_tokens t) \<and>
     pred_option (\<lambda>v. 0 \<le> v \<and> v \<le> max_safe_integer) (turn_output_tokens t) \<and>
     pred_option (\<lambda>v. 0 \<le> v \<and> v \<le> max_safe_integer) (turn_cache_read_tokens t) \<and>
     pred_option (\<lambda>v. 0 \<le> v \<and> v \<le> max_safe_integer) (turn_cache_write_tokens t)"

definition turn_rank :: "session_turn option \<Rightarrow> nat" where
  "turn_rank latest = (case latest of None \<Rightarrow> 0 | Some t \<Rightarrow> turn_seq t)"

lemma token_count_bounds: "pred_option (\<lambda>v. 0 \<le> v \<and> v \<le> max_safe_integer) (token_count p n)"
  by (auto simp: token_count_def split: option.splits)

lemma finite_number_bound: "pred_option (\<lambda>c. 0 \<le> c) (finite_number p n)"
  by (simp add: finite_number_def split: json.splits js_number.splits)

lemma turn_model_id_bound: "pred_option (\<lambda>m. length m \<le> turn_model_max_length) (turn_model_id p)"
  by (simp add: turn_model_id_def split: option.splits)

lemmas usage_bounds = token_count_bounds finite_number_bound turn_model_id_bound pred_option_or_else

section \<open>What every entry of a log keeps of the latest turn\<close>

text \<open>
  The lemmas about \<open>Session_Turn\<close>: the invariant of a stored turn, the contracts the fold
  satisfies, and what one entry may do to the turn it finds.
\<close>

subsection \<open>Every handler keeps the invariant\<close>

lemma session_turn_handler_inv:
  "pred_option turn_inv latest \<Longrightarrow> pred_option turn_inv (session_turn_handler orig k e latest)"
  by (cases k; cases latest; cases "turn_state (the latest)") (simp_all add: turn_step_defs turn_inv_def)

lemma turn_handler_inv:
  "pred_option turn_inv latest \<Longrightarrow> pred_option turn_inv (turn_handler k e latest)"
  by (cases k; cases latest; cases "turn_state (the latest)") (simp_all add: turn_step_defs turn_inv_def)

lemma session_turn_handler_usage:
  "pred_option usage_fits latest \<Longrightarrow> pred_option usage_fits (session_turn_handler orig k e latest)"
  by (cases k; cases latest) (simp_all add: turn_step_defs usage_fits_def)

lemma turn_handler_usage:
  "pred_option usage_fits latest \<Longrightarrow> pred_option usage_fits (turn_handler k e latest)"
  by (cases k; cases latest) (simp_all add: turn_step_defs usage_fits_def usage_bounds)

definition latest_turn_inv :: "session_turn option \<Rightarrow> bool" where
  "latest_turn_inv latest \<longleftrightarrow> pred_option turn_inv latest \<and> pred_option usage_fits latest"

lemma fold_turn_event_cases:
  assumes "\<And>k. P (session_turn_handler orig k e latest)" and "\<And>k. P (turn_handler k e latest)"
    and "P latest"
  shows "P (fold_turn_event orig latest e)"
  using assms by (simp add: fold_turn_event_def split: option.split)

lemma fold_turn_event_inv: "latest_turn_inv latest \<Longrightarrow> latest_turn_inv (fold_turn_event orig latest e)"
  by (rule fold_turn_event_cases)
    (simp_all add: latest_turn_inv_def session_turn_handler_inv turn_handler_inv
      session_turn_handler_usage turn_handler_usage)

subsection \<open>One entry opens at most one turn\<close>

lemma session_turn_handler_rank:
  "turn_rank latest \<le> turn_rank (session_turn_handler orig k e latest) \<and>
   turn_rank (session_turn_handler orig k e latest) \<le> Suc (turn_rank latest)"
  by (cases k; cases latest) (simp_all add: turn_step_defs turn_rank_def)

lemma turn_handler_rank:
  "turn_rank latest \<le> turn_rank (turn_handler k e latest) \<and>
   turn_rank (turn_handler k e latest) \<le> Suc (turn_rank latest)"
  by (cases k; cases latest) (simp_all add: turn_step_defs turn_rank_def)

lemma fold_turn_event_rank:
  "turn_rank latest \<le> turn_rank (fold_turn_event orig latest e) \<and>
   turn_rank (fold_turn_event orig latest e) \<le> Suc (turn_rank latest)"
  by (rule fold_turn_event_cases) (simp_all add: session_turn_handler_rank turn_handler_rank)

interpretation turn_log: invariant_fold "fold_turn_event orig" latest_turn_inv
  by unfold_locales (rule fold_turn_event_inv)

interpretation turn_seq: monotone_fold "fold_turn_event orig" turn_rank
  by unfold_locales (simp add: fold_turn_event_rank)

subsection \<open>What a turn keeps under its own number\<close>

text \<open>Who asked, the words, and when it began never change; its end is recorded once.\<close>

definition keeps_identity :: "session_turn \<Rightarrow> session_turn \<Rightarrow> bool" where
  "keeps_identity t u \<longleftrightarrow>
     turn_origin u = turn_origin t \<and> turn_prompt u = turn_prompt t \<and>
     (turn_started_at t \<noteq> None \<longrightarrow> turn_started_at u = turn_started_at t) \<and>
     (turn_ended_at t \<noteq> None \<longrightarrow> turn_ended_at u = turn_ended_at t)"

lemma or_else_kept: "a \<noteq> None \<Longrightarrow> or_else a b = a"
  by auto

definition same_number_keeps :: "session_turn option \<Rightarrow> session_turn option \<Rightarrow> bool" where
  "same_number_keeps a b \<longleftrightarrow>
     (case (a, b) of (Some t, Some u) \<Rightarrow> turn_seq u = turn_seq t \<longrightarrow> keeps_identity t u | _ \<Rightarrow> True)"

lemma session_turn_handler_keeps: "same_number_keeps latest (session_turn_handler orig k e latest)"
  by (cases k; cases latest)
    (simp_all add: turn_step_defs same_number_keeps_def keeps_identity_def or_else_kept)

lemma turn_handler_keeps: "same_number_keeps latest (turn_handler k e latest)"
  by (cases k; cases latest)
    (simp_all add: turn_step_defs same_number_keeps_def keeps_identity_def or_else_kept)

lemma fold_turn_event_keeps: "same_number_keeps latest (fold_turn_event orig latest e)"
proof (rule fold_turn_event_cases [where P = "same_number_keeps latest"])
  show "same_number_keeps latest latest"
    by (simp add: same_number_keeps_def keeps_identity_def split: option.split)
qed (simp_all add: session_turn_handler_keeps turn_handler_keeps)

lemma fold_turn_event_Some: "\<exists>u. fold_turn_event orig (Some t) e = Some u"
proof (rule fold_turn_event_cases [where P = "\<lambda>x. \<exists>u. x = Some u"])
  show "\<exists>u. session_turn_handler orig k e (Some t) = Some u" for k
    by (cases k) (simp_all add: turn_step_defs)
  show "\<exists>u. turn_handler k e (Some t) = Some u" for k
    by (cases k) (simp_all add: turn_step_defs)
qed simp

text \<open>
  A turn that has ended is only overruled, under its own number, by its process's exit code.
\<close>

lemma session_turn_handler_final:
  "\<not> is_live_state (turn_state t) \<Longrightarrow>
     session_turn_handler orig k e (Some t) = Some u \<Longrightarrow> turn_seq u = turn_seq t \<Longrightarrow> u = t"
  by (cases k) (simp_all add: turn_step_defs split: if_splits, auto)

lemma turn_handler_final:
  "\<not> is_live_state (turn_state t) \<Longrightarrow>
     turn_handler k e (Some t) = Some u \<Longrightarrow> turn_seq u = turn_seq t \<Longrightarrow> k \<noteq> TurnEndedEvent \<Longrightarrow> u = t"
  by (cases k) (auto simp: turn_step_defs split: if_splits)

lemma turn_kind_ended: "map_of turn_event_kinds k = Some TurnEndedEvent \<longleftrightarrow> k = ''turn.ended''"
  by (simp add: turn_event_kinds_def)

lemma turn_ended_state:
  "turn_ended e (Some t) = Some u \<Longrightarrow>
     turn_state u = (if turn_integer (entry_payload e) ''exitCode'' = Some 0 then TurnCompleted else TurnFailed)"
  by (auto simp: turn_ended_def Let_def end_turn_def)

lemma fold_turn_event_final:
  assumes "\<not> is_live_state (turn_state t)" and "fold_turn_event orig (Some t) e = Some u"
    and "turn_seq u = turn_seq t" and "entry_kind e \<noteq> ''turn.ended''"
  shows "u = t"
proof (cases "session_kind_of (entry_kind e)")
  case (Some k)
  with assms session_turn_handler_final show ?thesis by (simp add: fold_turn_event_def)
next
  case None
  show ?thesis
  proof (cases "map_of turn_event_kinds (entry_kind e)")
    case (Some k)
    then have "k \<noteq> TurnEndedEvent" using assms(4) turn_kind_ended by metis
    with None Some assms turn_handler_final show ?thesis by (simp add: fold_turn_event_def)
  qed (use None assms in \<open>simp add: fold_turn_event_def\<close>)
qed

text \<open>
  \<open>sameTurn\<close> leaves the origin out of its comparison; between a turn and what one entry makes
  of it that loses nothing, so a repository that skips the write of a same turn loses no column.
\<close>

lemma same_turn_sound:
  assumes "same_turn latest (fold_turn_event orig latest e)"
  shows "fold_turn_event orig latest e = latest"
proof (cases latest)
  case None
  then show ?thesis using assms by (auto simp: same_turn_def split: option.splits)
next
  case (Some t)
  then obtain u where u: "fold_turn_event orig latest e = Some u"
    using fold_turn_event_Some by blast
  have "turn_seq u = turn_seq t" using assms Some u by (simp add: same_turn_def)
  moreover from this have "turn_origin u = turn_origin t"
    using fold_turn_event_keeps [of latest orig e] Some u
    by (simp add: same_number_keeps_def keeps_identity_def)
  ultimately have "u = t" using assms Some u by (simp add: same_turn_def)
  with u Some show ?thesis by simp
qed

end
