(* ===== verification/Session_Invariant.thy ===== *)
theory Session_Invariant
  imports Session_State
begin

section \<open>What every entry of a session's log keeps\<close>

text \<open>
  The invariant of the fold of \<open>Session_State\<close>, in six parts, each kept by every handler; the
  interpretations of the fold contracts on it; and the frame of each handler. Nothing here is
  new model: the definitions are predicates about it.
\<close>

subsection \<open>The two windows\<close>

definition pull_key :: "session_watched_pull \<Rightarrow> string \<times> int" where
  "pull_key p = (pull_repo p, pull_number p)"

abbreviation push_pull :: "session_watched_pull \<Rightarrow> session_watched_pull list \<Rightarrow> session_watched_pull list" where
  "push_pull \<equiv> push_window pull_key session_watched_pulls_max"

abbreviation push_file :: "session_shared_file \<Rightarrow> session_shared_file list \<Rightarrow> session_shared_file list" where
  "push_file \<equiv> push_window file_id session_shared_files_max"

interpretation pulls: keyed_window pull_key session_watched_pulls_max push_pull
  by (rule keyed_window_push) (simp add: session_watched_pulls_max_def)

interpretation files: keyed_window file_id session_shared_files_max push_file
  by (rule keyed_window_push) (simp add: session_shared_files_max_def)

lemma on_pull_watched_push:
  "on_pull_watched e n =
     (if fold_state n = StateResolved then n
      else (case pull_watched_payload (entry_payload e) of
              None \<Rightarrow> n
            | Some (p, watch) \<Rightarrow> n\<lparr>fold_watched_pulls :=
                (if watch then push_pull p (fold_watched_pulls n)
                 else filter (\<lambda>q. pull_key q \<noteq> pull_key p) (fold_watched_pulls n))\<rparr>))"
  by (auto simp: on_pull_watched_def push_window_def pull_key_def Let_def split: option.splits)

lemma on_file_shared_push:
  "on_file_shared e n =
     (if fold_state n = StateResolved then n
      else (case file_shared_payload (entry_payload e) of
              None \<Rightarrow> n
            | Some p \<Rightarrow> n\<lparr>fold_shared_files :=
                push_file (file_shared.extend p \<lparr>file_at = to_iso_string (entry_occurred_at e)\<rparr>)
                  (fold_shared_files n)\<rparr>))"
  by (auto simp: on_file_shared_def push_window_def Let_def split: option.splits)

lemmas handler_folds =
  on_requested_def on_started_def on_restarted_def on_failed_def on_stopped_def
  on_close_requested_def on_retry_requested_def on_restart_requested_def on_command_failed_def
  on_closed_def on_named_def on_moved_def on_cwd_set_def on_checkout_removed_def
  on_agent_observed_def on_agent_decision_def on_decision_answered_def on_agent_notified_def
  on_pull_watched_push on_file_shared_push on_report_published_def on_report_acknowledged_def
  opened_def transition_def without_agent_facts_def Let_def

subsection \<open>The invariant\<close>

text \<open>A closed session is a tombstone: nothing is owed to it and nothing waits on anybody.\<close>

definition tombstone :: "session_fold \<Rightarrow> bool" where
  "tombstone f \<longleftrightarrow>
     (fold_state f = StateResolved \<longrightarrow>
        fold_stopped_at f \<noteq> None \<and> fold_close_request f = None \<and> fold_close_refusal f = None \<and>
        fold_pending_decision f = None \<and> fold_notice f = None \<and> fold_watched_pulls f = [] \<and>
        fold_shared_files f = [])"

text \<open>A close is owed or was refused, never both.\<close>

definition close_exclusive :: "session_fold \<Rightarrow> bool" where
  "close_exclusive f \<longleftrightarrow> fold_close_request f = None \<or> fold_close_refusal f = None"

text \<open>A refusal fits its columns.\<close>

definition refusal_fits :: "session_fold \<Rightarrow> bool" where
  "refusal_fits f \<longleftrightarrow>
     (case fold_close_refusal f of None \<Rightarrow> True
      | Some r \<Rightarrow> length (refusal_code r) \<le> refusal_code_max \<and>
          (case refusal_detail r of None \<Rightarrow> True | Some d \<Rightarrow> length d \<le> refusal_detail_max))"

text \<open>A session that has stopped waits on no decision, and a decision is within the wire's bounds.\<close>

definition decision_live :: "session_fold \<Rightarrow> bool" where
  "decision_live f \<longleftrightarrow>
     (case fold_pending_decision f of None \<Rightarrow> True
      | Some d \<Rightarrow> fold_stopped_at f = None \<and> bounded_decision d)"

definition windows_hold :: "session_fold \<Rightarrow> bool" where
  "windows_hold f \<longleftrightarrow> pulls.window (fold_watched_pulls f) \<and> files.window (fold_shared_files f)"

text \<open>A duration is only ever measured of a state that was observed.\<close>

definition observation_dated :: "session_fold \<Rightarrow> bool" where
  "observation_dated f \<longleftrightarrow> (fold_observed_since f \<noteq> None \<longrightarrow> fold_last_observed f \<noteq> None)"

definition fold_inv :: "session_fold \<Rightarrow> bool" where
  "fold_inv f \<longleftrightarrow>
     tombstone f \<and> close_exclusive f \<and> refusal_fits f \<and> decision_live f \<and> windows_hold f \<and>
     observation_dated f"

lemma decision_of_bounded: "decision_of j = Some d \<Longrightarrow> bounded_decision d"
  by (auto simp: decision_of_def dest: agent_decision_payload_bounded split: option.splits)

lemma handler_tombstone: "tombstone n \<Longrightarrow> tombstone (session_handler k e n)"
  by (cases k) (auto simp: handler_folds tombstone_def split: option.splits prod.splits)

lemma handler_close_exclusive: "close_exclusive n \<Longrightarrow> close_exclusive (session_handler k e n)"
  by (cases k) (auto simp: handler_folds close_exclusive_def split: option.splits prod.splits)

lemma handler_refusal_fits: "refusal_fits n \<Longrightarrow> refusal_fits (session_handler k e n)"
  by (cases k) (auto simp: handler_folds refusal_fits_def split: option.splits prod.splits)

lemma handler_decision_live: "decision_live n \<Longrightarrow> decision_live (session_handler k e n)"
  by (cases k)
    (auto simp: handler_folds decision_live_def dest: decision_of_bounded split: option.splits prod.splits)

lemma handler_windows: "windows_hold n \<Longrightarrow> windows_hold (session_handler k e n)"
  by (cases k)
    (auto simp: handler_folds windows_hold_def pulls.window_push pulls.window_filter
      pulls.window_Nil files.window_push files.window_Nil split: option.splits prod.splits)

lemma handler_observation_dated: "observation_dated n \<Longrightarrow> observation_dated (session_handler k e n)"
  by (cases k) (auto simp: handler_folds observation_dated_def split: option.splits prod.splits)

lemma fold_inv_touch [simp]: "fold_inv (f\<lparr>fold_last_event_at := d\<rparr>) = fold_inv f"
  by (simp add: fold_inv_def tombstone_def close_exclusive_def refusal_fits_def decision_live_def
      windows_hold_def observation_dated_def split: option.split)

lemma handler_fold_inv: "fold_inv n \<Longrightarrow> fold_inv (session_handler k e n)"
  by (simp add: fold_inv_def handler_tombstone handler_close_exclusive handler_refusal_fits
      handler_decision_live handler_windows handler_observation_dated)

lemma fold_session_event_inv: "fold_inv f \<Longrightarrow> fold_inv (fold_session_event f e)"
  by (simp add: fold_session_event_def Let_def handler_fold_inv split: option.split)

lemma initial_session_fold_inv: "fold_inv initial_session_fold"
  by (simp add: fold_inv_def tombstone_def close_exclusive_def refusal_fits_def decision_live_def
      windows_hold_def observation_dated_def initial_session_fold_def pulls.window_Nil
      files.window_Nil)

subsection \<open>The state\<close>

lemma handler_resolved: "fold_state n = StateResolved \<Longrightarrow> fold_state (session_handler k e n) = StateResolved"
  by (cases k) (auto simp: handler_folds split: option.splits prod.splits)

lemma fold_session_event_resolved:
  "fold_state f = StateResolved \<Longrightarrow> fold_state (fold_session_event f e) = StateResolved"
  by (simp add: fold_session_event_def Let_def handler_resolved split: option.split)

lemma handler_seq_same:
  "fold_state (session_handler k e n) = fold_state n \<Longrightarrow>
   fold_state_seq (session_handler k e n) = fold_state_seq n"
  by (cases k) (auto simp: handler_folds split: option.splits prod.splits if_splits)

lemma handler_seq_moved:
  "fold_state (session_handler k e n) \<noteq> fold_state n \<Longrightarrow>
   fold_state_seq (session_handler k e n) = Suc (fold_state_seq n)"
  by (cases k) (auto simp: handler_folds split: option.splits prod.splits if_splits)

interpretation session_log: terminal_fold fold_session_event fold_inv "\<lambda>f. fold_state f = StateResolved"
  by unfold_locales (simp_all add: fold_session_event_inv fold_session_event_resolved)

interpretation session_seq: counted_fold fold_session_event fold_state fold_state_seq
proof unfold_locales
  fix f :: session_fold and e :: session_log_entry
  let ?n = "f\<lparr>fold_last_event_at := Some (entry_occurred_at e)\<rparr>"
  show "fold_state (fold_session_event f e) = fold_state f \<Longrightarrow>
      fold_state_seq (fold_session_event f e) = fold_state_seq f"
    using handler_seq_same [of _ e ?n]
    by (auto simp: fold_session_event_def Let_def split: option.splits)
  show "fold_state (fold_session_event f e) \<noteq> fold_state f \<Longrightarrow>
      fold_state_seq (fold_session_event f e) = Suc (fold_state_seq f)"
    using handler_seq_moved [of _ e ?n]
    by (auto simp: fold_session_event_def Let_def split: option.splits)
qed

lemma fold_session_log_append:
  "fold_session_log (es @ es') f = fold_session_log es' (fold_session_log es f)"
  by (simp add: fold_session_log_def)

lemma fold_session_log_Cons [simp]:
  "fold_session_log (e # es) f = fold_session_log es (fold_session_event f e)"
  by (simp add: fold_session_log_def)

lemma fold_session_log_Nil [simp]: "fold_session_log [] f = f"
  by (simp add: fold_session_log_def)

lemma fold_session_log_inv: "fold_inv f \<Longrightarrow> fold_inv (fold_session_log es f)"
  unfolding fold_session_log_def by (rule session_log.run_inv)

lemma fold_session_log_resolved:
  "fold_inv f \<Longrightarrow> fold_state f = StateResolved \<Longrightarrow> fold_state (fold_session_log es f) = StateResolved"
  unfolding fold_session_log_def by (rule session_log.run_final)

subsection \<open>The lifecycle\<close>

text \<open>
  What the state column promises, apart from every other column: four states, moved by six
  kinds of entry, with \<open>resolved\<close> final. A start never reopens a failed session; a restart does.
\<close>

fun lifecycle :: "session_state \<Rightarrow> session_event_kind \<Rightarrow> session_state" where
  "lifecycle StateResolved _ = StateResolved"
| "lifecycle _ Closed = StateResolved"
| "lifecycle _ Requested = StateStarting"
| "lifecycle _ FailedEvent = StateFailed"
| "lifecycle _ Restarted = StateOpen"
| "lifecycle StateFailed Started = StateFailed"
| "lifecycle _ Started = StateOpen"
| "lifecycle StateFailed RetryRequested = StateStarting"
| "lifecycle s _ = s"

definition lifecycle_entry :: "session_state \<Rightarrow> session_log_entry \<Rightarrow> session_state" where
  "lifecycle_entry s e =
     (case session_kind_of (entry_kind e) of None \<Rightarrow> s | Some k \<Rightarrow> lifecycle s k)"

lemma handler_lifecycle: "fold_state (session_handler k e n) = lifecycle (fold_state n) k"
  by (cases k; cases "fold_state n") (auto simp: handler_folds split: option.splits prod.splits)

lemma fold_session_event_lifecycle:
  "fold_state (fold_session_event f e) = lifecycle_entry (fold_state f) e"
  by (simp add: fold_session_event_def lifecycle_entry_def Let_def handler_lifecycle split: option.split)

subsection \<open>Frames\<close>

text \<open>The columns only some kinds move.\<close>

lemma handler_name_frame:
  "k \<noteq> Named \<Longrightarrow> fold_name (session_handler k e n) = fold_name n \<and>
     fold_name_source (session_handler k e n) = fold_name_source n"
  by (cases k) (auto simp: handler_folds split: option.splits prod.splits)

lemma handler_close_frame:
  "k \<notin> {CloseRequested, Closed, RestartRequested, CommandFailed} \<Longrightarrow>
     fold_close_request (session_handler k e n) = fold_close_request n \<and>
     fold_close_refusal (session_handler k e n) = fold_close_refusal n"
  by (cases k) (auto simp: handler_folds split: option.splits prod.splits)

lemma handler_decision_frame:
  "k \<notin> {Closed, Started, Restarted, FailedEvent, Stopped, AgentObserved, AgentDecision, DecisionAnswered} \<Longrightarrow>
     fold_pending_decision (session_handler k e n) = fold_pending_decision n"
  by (cases k) (auto simp: handler_folds split: option.splits prod.splits)

lemma fold_session_event_kind:
  "session_kind_of (entry_kind e) = Some k \<Longrightarrow>
     fold_session_event f e = session_handler k e (f\<lparr>fold_last_event_at := Some (entry_occurred_at e)\<rparr>)"
  by (simp add: fold_session_event_def Let_def)

lemma fold_session_event_unknown:
  "session_kind_of (entry_kind e) = None \<Longrightarrow>
     fold_session_event f e = f\<lparr>fold_last_event_at := Some (entry_occurred_at e)\<rparr>"
  by (simp add: fold_session_event_def Let_def)

subsection \<open>Names\<close>

lemma on_named_keeps_user:
  "fold_name_source n = Some NamedByUser \<Longrightarrow>
     fold_name_source (on_named e n) = Some NamedByUser \<and>
     (fold_name (on_named e n) \<noteq> fold_name n \<longrightarrow>
        string_field (entry_payload e) ''source'' \<notin> {Some ''model'', Some ''prompt''})"
  by (auto simp: on_named_def Let_def split: option.splits)

lemma fold_session_event_named_by_user:
  "fold_name_source f = Some NamedByUser \<Longrightarrow>
     fold_name_source (fold_session_event f e) = Some NamedByUser"
proof (cases "session_kind_of (entry_kind e)")
  case (Some k)
  assume "fold_name_source f = Some NamedByUser"
  with Some show ?thesis
    using on_named_keeps_user [of "f\<lparr>fold_last_event_at := Some (entry_occurred_at e)\<rparr>" e]
    by (cases "k = Named") (auto simp: fold_session_event_kind handler_name_frame)
qed (simp add: fold_session_event_unknown)

interpretation user_named: terminal_fold fold_session_event fold_inv
  "\<lambda>f. fold_name_source f = Some NamedByUser"
  by unfold_locales (simp_all add: fold_session_event_inv fold_session_event_named_by_user)

subsection \<open>What a session waits on\<close>

text \<open>
  Whether an entry leaves the decision \<open>d\<close> pending on the row \<open>f\<close> it is folded onto: not a start that
  opens, a restart, a failure, a stop, a close, another report of a decision or of none, the answer to \<open>d\<close>,
  nor an observation that the agent came to do anything but wait. A start is late on a failed session,
  and an observation that repeats the last one moves nothing.
\<close>

definition leaves_waiting :: "session_decision \<Rightarrow> session_fold \<Rightarrow> session_log_entry \<Rightarrow> bool" where
  "leaves_waiting d f e =
     (case session_kind_of (entry_kind e) of
        Some Started \<Rightarrow> fold_state f = StateFailed
      | Some Restarted \<Rightarrow> False
      | Some FailedEvent \<Rightarrow> False
      | Some Stopped \<Rightarrow> False
      | Some Closed \<Rightarrow> False
      | Some AgentDecision \<Rightarrow> False
      | Some DecisionAnswered \<Rightarrow> string_field (entry_payload e) ''id'' \<noteq> Some (decision_id d)
      | Some AgentObserved \<Rightarrow>
          observed_state_of (entry_payload e) \<in> {None, Some ObservedBlocked, fold_last_observed f}
      | _ \<Rightarrow> True)"

fun all_leave_waiting :: "session_decision \<Rightarrow> session_fold \<Rightarrow> session_log_entry list \<Rightarrow> bool" where
  "all_leave_waiting d f [] = True"
| "all_leave_waiting d f (e # es) = (leaves_waiting d f e \<and> all_leave_waiting d (fold_session_event f e) es)"

lemma all_leave_waiting_append:
  "all_leave_waiting d f (es @ es') \<longleftrightarrow> all_leave_waiting d f es \<and> all_leave_waiting d (fold_session_log es f) es'"
  by (induction es arbitrary: f) simp_all

definition reports_decision :: "session_decision \<Rightarrow> session_log_entry \<Rightarrow> bool" where
  "reports_decision d e \<longleftrightarrow>
     session_kind_of (entry_kind e) = Some AgentDecision \<and> decision_of (entry_payload e) = Some d"

lemma handler_pending:
  assumes "fold_inv n" "fold_pending_decision (session_handler k e n) = Some d" "session_kind_of (entry_kind e) = Some k"
  shows "fold_pending_decision n = Some d \<and> leaves_waiting d n e \<or>
    reports_decision d e \<and> fold_stopped_at n = None \<and> fold_state n \<noteq> StateResolved"
proof -
  have closed: "fold_state n = StateResolved \<Longrightarrow> fold_pending_decision n = None"
    and stopped: "fold_stopped_at n \<noteq> None \<Longrightarrow> fold_pending_decision n = None"
    using assms(1) by (auto simp: fold_inv_def tombstone_def decision_live_def split: option.splits)
  show ?thesis
    using assms(2,3) closed stopped
    by (cases k)
      (auto simp: handler_folds leaves_waiting_def reports_decision_def split: option.splits prod.splits if_splits)
qed

lemma event_pending:
  assumes "fold_inv f" "fold_pending_decision (fold_session_event f e) = Some d"
  shows "fold_pending_decision f = Some d \<and> leaves_waiting d f e \<or>
    reports_decision d e \<and> fold_stopped_at f = None \<and> fold_state f \<noteq> StateResolved"
proof (cases "session_kind_of (entry_kind e)")
  case None
  then show ?thesis using assms(2) by (simp add: fold_session_event_unknown leaves_waiting_def)
next
  case (Some k)
  let ?n = "f\<lparr>fold_last_event_at := Some (entry_occurred_at e)\<rparr>"
  have "leaves_waiting d ?n e = leaves_waiting d f e" using Some by (cases k) (simp_all add: leaves_waiting_def)
  then show ?thesis
    using handler_pending [of ?n k e d] assms Some by (simp add: fold_session_event_kind [OF Some])
qed

lemma log_pending:
  assumes "fold_pending_decision (fold_session_log es initial_session_fold) = Some d"
  shows "\<exists>before e after. es = before @ e # after \<and> reports_decision d e \<and>
    fold_stopped_at (fold_session_log before initial_session_fold) = None \<and>
    all_leave_waiting d (fold_session_log (before @ [e]) initial_session_fold) after"
  using assms
proof (induction es rule: rev_induct)
  case Nil
  then show ?case by (simp add: initial_session_fold_def)
next
  case (snoc e es)
  let ?f = "fold_session_log es initial_session_fold"
  have "fold_pending_decision (fold_session_event ?f e) = Some d"
    using snoc.prems by (simp add: fold_session_log_append)
  from event_pending [OF fold_session_log_inv [OF initial_session_fold_inv] this] show ?case
  proof
    assume kept: "fold_pending_decision ?f = Some d \<and> leaves_waiting d ?f e"
    then obtain before r after where es: "es = before @ r # after" "reports_decision d r"
      "fold_stopped_at (fold_session_log before initial_session_fold) = None"
      "all_leave_waiting d (fold_session_log (before @ [r]) initial_session_fold) after"
      using snoc.IH by blast
    then have "all_leave_waiting d (fold_session_log (before @ [r]) initial_session_fold) (after @ [e])"
      using kept by (simp add: all_leave_waiting_append fold_session_log_append)
    then show ?thesis using es by (intro exI [of _ before] exI [of _ r] exI [of _ "after @ [e]"]) simp
  next
    assume "reports_decision d e \<and> fold_stopped_at ?f = None \<and> fold_state ?f \<noteq> StateResolved"
    then show ?thesis by (intro exI [of _ es] exI [of _ e] exI [of _ "[]"]) simp
  qed
qed

end
