(* ===== verification/Session_Group.thy ===== *)
theory Session_Group
  imports Session_Invariant
begin

section \<open>The derived group\<close>

text \<open>
  \<^verbatim>\<open>apps/api/src/sessions/domain/session-group.policy.ts\<close>: what the sidebar's dot shows, a function of the
  row and the time. \<open>Date\<close> differences are exact: seconds are rational, so \<open>BLOCKED_SECONDS\<close>
  is compared in milliseconds divided by a thousand, as the code compares a float that is exact
  at this size.
\<close>

datatype session_group =
  GroupWorking | GroupWaitingOnYou | GroupReadyForReview | GroupLanding | GroupIdle | GroupResolved

definition blocked_seconds :: rat where "blocked_seconds = 30"
definition launch_seconds :: rat where "launch_seconds = 60"

definition is_ready :: "session_fold \<Rightarrow> bool" where
  "is_ready f = (fold_last_observed f = Some ObservedIdle \<or> fold_last_observed f = Some ObservedDone)"

definition seconds_since :: "date option \<Rightarrow> date \<Rightarrow> rat" where
  "seconds_since since now =
     (case since of None \<Rightarrow> 0 | Some t \<Rightarrow> max 0 (of_int (now - t) / 1000))"

definition session_group :: "session_fold \<Rightarrow> date \<Rightarrow> session_group" where
  "session_group f now =
     (if fold_state f = StateResolved then GroupResolved
      else if fold_state f = StateFailed then GroupWaitingOnYou
      else if fold_last_observed f = Some ObservedBlocked \<and>
              blocked_seconds \<le> seconds_since (fold_observed_since f) now then GroupWaitingOnYou
      else if fold_state f = StateStarting \<and> fold_stopped_at f = None \<and>
              launch_seconds \<le> seconds_since (fold_last_event_at f) now \<and> \<not> is_ready f
           then GroupWaitingOnYou
      else if fold_last_observed f = Some ObservedWorking then GroupWorking
      else if fold_report_hash f \<notin> {None, Some []} \<and>
              fold_report_hash f \<noteq> fold_acked_report_hash f then GroupReadyForReview
      else GroupIdle)"

lemma seconds_since_nonneg: "0 \<le> seconds_since t now"
  by (simp add: seconds_since_def split: option.split)

lemma seconds_since_ge:
  "0 < s \<Longrightarrow> s \<le> seconds_since since now \<longleftrightarrow> (\<exists>t. since = Some t \<and> 1000 * s \<le> of_int (now - t))"
  by (auto simp: seconds_since_def le_max_iff_disj field_simps split: option.split)

text \<open>Time alone only ever moves a session towards its person.\<close>

lemma seconds_since_mono: "now \<le> later \<Longrightarrow> seconds_since t now \<le> seconds_since t later"
proof (cases t)
  case (Some d)
  assume "now \<le> later"
  then have "of_int (now - d) / 1000 \<le> (of_int (later - d) :: rat) / 1000"
    by (simp add: divide_right_mono)
  then show ?thesis
    unfolding seconds_since_def Some option.case by (rule max.mono [OF order_refl])
qed (simp add: seconds_since_def)

lemma waiting_stays_waiting:
  "session_group f now = GroupWaitingOnYou \<Longrightarrow> now \<le> later \<Longrightarrow>
     session_group f later = GroupWaitingOnYou"
  using seconds_since_mono [of now later "fold_observed_since f"]
    seconds_since_mono [of now later "fold_last_event_at f"]
  by (auto simp: session_group_def split: if_splits)

end
