(* ===== verification/Domain_Base.thy ===== *)
theory Domain_Base
  imports Fold_Interfaces "HOL-Library.Char_ord" "HOL-Library.List_Lexorder"
begin

section \<open>Errors, and the string operations of the entities\<close>

text \<open>
  The exceptions an entity throws (\<^verbatim>\<open>packages/backend/ddd/src/exceptions\<close>) as values of a sum: an operation that may
  throw returns \<open>domain_error + 'a\<close>, \<open>Inl\<close> for the throw. The message is the code's. An object
  whose operation threw is not used again by its caller, so a throw carries no state.
\<close>

datatype domain_error =
    ArgumentNotProvided string
  | ArgumentInvalid string
  | ArgumentOutOfRange string
  | Conflict string

fun check_all :: "(bool \<times> domain_error) list \<Rightarrow> domain_error option" where
  "check_all [] = None"
| "check_all ((bad, err) # rest) = (if bad then Some err else check_all rest)"

lemma check_all_None: "check_all cs = None \<longleftrightarrow> (\<forall>(bad, err) \<in> set cs. \<not> bad)"
  by (induction cs rule: check_all.induct) auto

definition validated :: "domain_error option \<Rightarrow> 'a \<Rightarrow> domain_error + 'a" where
  "validated problem x = (case problem of None \<Rightarrow> Inr x | Some e \<Rightarrow> Inl e)"

lemma validated_Inr [simp]: "validated p x = Inr y \<longleftrightarrow> p = None \<and> y = x"
  by (auto simp: validated_def split: option.splits)

subsection \<open>Strings\<close>

definition lower_char :: "char \<Rightarrow> char" where
  "lower_char c =
     (let n = of_char c :: nat in
      if is_upper c \<or> (192 \<le> n \<and> n \<le> 222 \<and> n \<noteq> 215) then char_of (n + 32) else c)"

definition js_lower :: "string \<Rightarrow> string" where
  "js_lower s = map lower_char s"

text \<open>\<open>s.lastIndexOf(c)\<close>: the index of the last occurrence, or \<open>-1\<close>.\<close>

definition last_index_of :: "char \<Rightarrow> string \<Rightarrow> int" where
  "last_index_of c s =
     (if c \<in> set s then int (length s) - 1 - int (length (takeWhile (\<lambda>x. x \<noteq> c) (rev s))) else - 1)"

lemma last_index_of_split:
  assumes "c \<notin> set t"
  shows "last_index_of c (s @ c # t) = int (length s)"
proof -
  have "takeWhile (\<lambda>x. x \<noteq> c) (rev t @ c # rev s) = rev t"
    using assms by (subst takeWhile_append2) auto
  then show ?thesis using assms by (simp add: last_index_of_def)
qed

end
