(* ===== verification/Session_Cloud.thy ===== *)
theory Session_Cloud
  imports Session_Group Domain_Base
begin

section \<open>Cloud sessions\<close>

text \<open>
  A session in a vendor's cloud: \<^verbatim>\<open>session-cloud-run.entity.ts\<close> (what the vendor last said),
  \<^verbatim>\<open>cloud-session-sync.policy.ts\<close> (when it is asked again and what its answer writes to the log) and
  \<^verbatim>\<open>cloud-chat.policy.ts\<close>. The lemmas show what each status does to the fold, through
  \<open>fold_session_event\<close>.
\<close>

datatype cloud_status =
  CloudStarting | CloudRunning | CloudFinished | CloudFailed | CloudCancelled | CloudExpired

definition cloud_agent_is_active :: "cloud_status \<Rightarrow> bool" where
  "cloud_agent_is_active s = (s = CloudStarting \<or> s = CloudRunning)"

record cloud_run_report =
  reported_run_id :: string
  reported_status :: cloud_status
  reported_branch :: "string option"
  reported_pull_request :: "string option"
  reported_summary :: "string option"

record cloud_run =
  run_session_id :: string
  run_organization_id :: string
  run_provider :: string
  run_external_id :: string
  run_url :: "string option"
  run_repository_url :: string
  run_latest_run_id :: string
  run_status :: cloud_status
  run_branch :: "string option"
  run_pull_request :: "string option"
  run_summary :: "string option"
  run_synced_at :: date

record launched_cloud_run =
  launched_organization :: string
  launched_session :: string
  launched_provider :: string
  launched_external_id :: string
  launched_url :: "string option"
  launched_repository_url :: string
  launched_run :: cloud_run_report

definition cloud_run_launched :: "launched_cloud_run \<Rightarrow> date \<Rightarrow> cloud_run" where
  "cloud_run_launched l now =
     (let r = launched_run l in
      \<lparr>run_session_id = launched_session l, run_organization_id = launched_organization l,
       run_provider = launched_provider l, run_external_id = launched_external_id l,
       run_url = launched_url l, run_repository_url = launched_repository_url l,
       run_latest_run_id = reported_run_id r, run_status = reported_status r,
       run_branch = reported_branch r, run_pull_request = reported_pull_request r,
       run_summary = reported_summary r, run_synced_at = now\<rparr>)"

definition cloud_run_is_active :: "cloud_run \<Rightarrow> bool" where
  "cloud_run_is_active r = cloud_agent_is_active (run_status r)"

definition cloud_run_synced :: "cloud_run_report \<Rightarrow> date \<Rightarrow> cloud_run \<Rightarrow> cloud_run" where
  "cloud_run_synced report now r =
     (if reported_run_id report \<noteq> run_latest_run_id r then r
      else r\<lparr>run_status := reported_status report,
             run_branch := or_else (reported_branch report) (run_branch r),
             run_pull_request := or_else (reported_pull_request report) (run_pull_request r),
             run_summary := reported_summary report, run_synced_at := now\<rparr>)"

definition cloud_run_followed_up :: "cloud_run_report \<Rightarrow> date \<Rightarrow> cloud_run \<Rightarrow> cloud_run" where
  "cloud_run_followed_up report now r =
     r\<lparr>run_latest_run_id := reported_run_id report, run_status := reported_status report,
       run_branch := or_else (reported_branch report) (run_branch r),
       run_pull_request := or_else (reported_pull_request report) (run_pull_request r),
       run_summary := reported_summary report, run_synced_at := now\<rparr>"

subsection \<open>When a vendor is asked\<close>

definition detail_sync_after_ms :: int where "detail_sync_after_ms = 10000"
definition list_sync_after_ms :: int where "list_sync_after_ms = 30000"
definition list_sync_max :: nat where "list_sync_max = 3"

definition needs_sync :: "cloud_run \<Rightarrow> date \<Rightarrow> int \<Rightarrow> bool" where
  "needs_sync r now after_ms = (cloud_run_is_active r \<and> after_ms \<le> now - run_synced_at r)"

definition runs_to_sync :: "cloud_run list \<Rightarrow> date \<Rightarrow> cloud_run list" where
  "runs_to_sync rs now =
     take list_sync_max (sort_key run_synced_at (filter (\<lambda>r. needs_sync r now list_sync_after_ms) rs))"

subsection \<open>What a status writes to the log\<close>

record cloud_run_log_entry =
  cloud_entry_key :: string
  cloud_entry_kind :: string
  cloud_entry_payload :: json

definition cloud_entry :: "string \<Rightarrow> string \<Rightarrow> string \<Rightarrow> json \<Rightarrow> cloud_run_log_entry" where
  "cloud_entry run_id what kind payload =
     \<lparr>cloud_entry_key = ''cloud:'' @ run_id @ '':'' @ what, cloud_entry_kind = kind,
      cloud_entry_payload = payload\<rparr>"

definition cloud_started :: "string \<Rightarrow> cloud_run_log_entry" where
  "cloud_started run_id = cloud_entry run_id ''started'' ''session.started'' JUndefined"

definition cloud_observed :: "string \<Rightarrow> string \<Rightarrow> cloud_run_log_entry" where
  "cloud_observed run_id s =
     cloud_entry run_id (''observed:'' @ s) ''agent.observed'' (JObject [(''state'', JString s)])"

fun cloud_run_log_entries :: "string \<Rightarrow> cloud_status \<Rightarrow> cloud_run_log_entry list" where
  "cloud_run_log_entries run_id CloudStarting = []"
| "cloud_run_log_entries run_id CloudRunning =
     [cloud_started run_id, cloud_observed run_id ''working'']"
| "cloud_run_log_entries run_id CloudFinished =
     [cloud_started run_id, cloud_observed run_id ''done'']"
| "cloud_run_log_entries run_id CloudFailed =
     [cloud_entry run_id ''failed'' ''session.failed'' JUndefined]"
| "cloud_run_log_entries run_id CloudExpired =
     [cloud_entry run_id ''failed'' ''session.failed'' JUndefined]"
| "cloud_run_log_entries run_id CloudCancelled =
     [cloud_entry run_id ''stopped'' ''session.stopped'' JUndefined,
      cloud_observed run_id ''idle'']"

definition has_cloud_chat :: "session_place \<Rightarrow> string \<Rightarrow> string option \<Rightarrow> bool" where
  "has_cloud_chat place agent cloud_session_id =
     (place = PlaceCloud \<and> agent = ''claude-code'' \<and> cloud_session_id \<noteq> None)"

subsection \<open>Asking\<close>

lemma runs_to_sync_bound: "length (runs_to_sync rs now) \<le> 3"
  by (simp add: runs_to_sync_def list_sync_max_def)

lemma runs_to_sync_due: "r \<in> set (runs_to_sync rs now) \<Longrightarrow> r \<in> set rs \<and> needs_sync r now list_sync_after_ms"
  by (auto simp: runs_to_sync_def dest: in_set_takeD)

lemma runs_to_sync_stalest:
  assumes "r \<in> set (runs_to_sync rs now)" "s \<in> set rs" "needs_sync s now list_sync_after_ms"
    and "s \<notin> set (runs_to_sync rs now)"
  shows "run_synced_at r \<le> run_synced_at s"
proof -
  let ?ys = "sort_key run_synced_at (filter (\<lambda>r. needs_sync r now list_sync_after_ms) rs)"
  have "sorted (map run_synced_at (take list_sync_max ?ys @ drop list_sync_max ?ys))"
    by simp
  moreover have "s \<in> set (drop list_sync_max ?ys)"
  proof -
    have "s \<in> set (take list_sync_max ?ys @ drop list_sync_max ?ys)" using assms(2,3) by simp
    with assms(4) show ?thesis by (auto simp: runs_to_sync_def simp del: append_take_drop_id)
  qed
  ultimately show ?thesis
    using assms(1) unfolding runs_to_sync_def map_append sorted_append by auto
qed

subsection \<open>What a status folds to\<close>

definition log_entry_of :: "nat \<Rightarrow> date \<Rightarrow> cloud_run_log_entry \<Rightarrow> session_log_entry" where
  "log_entry_of seq now c =
     \<lparr>entry_seq = seq, entry_kind = cloud_entry_kind c, entry_payload = cloud_entry_payload c,
      entry_occurred_at = now\<rparr>"

definition fold_cloud_status :: "string \<Rightarrow> cloud_status \<Rightarrow> date \<Rightarrow> session_fold \<Rightarrow> session_fold" where
  "fold_cloud_status run_id status now f =
     fold_session_log (map (log_entry_of 0 now) (cloud_run_log_entries run_id status)) f"

lemma cloud_kinds:
  "session_kind_of ''session.started'' = Some Started"
  "session_kind_of ''agent.observed'' = Some AgentObserved"
  "session_kind_of ''session.failed'' = Some FailedEvent"
  "session_kind_of ''session.stopped'' = Some Stopped"
  by (simp_all add: session_kind_of_def session_event_kinds_def)

lemma cloud_observed_state:
  "observed_state_of (JObject [(''state'', JString ''working'')]) = Some ObservedWorking"
  "observed_state_of (JObject [(''state'', JString ''done'')]) = Some ObservedDone"
  "observed_state_of (JObject [(''state'', JString ''idle'')]) = Some ObservedIdle"
  by (simp_all add: observed_state_of_def string_field_def agent_observed_states_def nonblank_iff
      js_space_def)

lemmas cloud_step_defs =
  fold_cloud_status_def log_entry_of_def cloud_entry_def cloud_started_def cloud_observed_def
  fold_session_event_kind cloud_kinds cloud_observed_state

end
