(* ===== verification/Session_Checkout.thy ===== *)
theory Session_Checkout
  imports Domain_Base
begin

section \<open>Names on disk: slugs, branches and checkout directories\<close>

text \<open>
  \<^verbatim>\<open>session-slug.policy.ts\<close>, \<^verbatim>\<open>session-layout.policy.ts\<close> and \<^verbatim>\<open>session-checkout.entity.ts\<close> of
  \<^verbatim>\<open>apps/api/src/sessions/domain\<close>. A random draw (\<open>randomInt\<close>, \<open>randomUUID\<close>) and the clock are
  arguments. The lemmas show that a minted slug has the shape every host relies on and names its
  draw, and that a session never gives out a directory name it has used.
\<close>

subsection \<open>Slugs\<close>

definition slug_adjectives :: "string list" where
  "slug_adjectives =
     [''amber'', ''bold'', ''brave'', ''bright'', ''calm'', ''clever'', ''crisp'', ''eager'',
      ''fair'', ''gentle'', ''glad'', ''keen'', ''lively'', ''lucid'', ''merry'', ''mild'',
      ''noble'', ''quiet'', ''rapid'', ''ready'', ''sharp'', ''solid'', ''spry'', ''steady'',
      ''stout'', ''sunny'', ''swift'', ''tidy'', ''vivid'', ''warm'', ''wise'', ''witty'']"

definition slug_nouns :: "string list" where
  "slug_nouns =
     [''alder'', ''badger'', ''beacon'', ''cedar'', ''comet'', ''coral'', ''delta'', ''ember'',
      ''falcon'', ''fjord'', ''harbor'', ''heron'', ''ibis'', ''juniper'', ''lantern'', ''lark'',
      ''maple'', ''marlin'', ''meadow'', ''orchid'', ''otter'', ''pebble'', ''quartz'', ''raven'',
      ''ridge'', ''river'', ''sable'', ''sparrow'', ''summit'', ''thistle'', ''willow'', ''wren'']"

definition slug_suffix_length :: nat where
  "slug_suffix_length = 6"

definition slug_suffix_alphabet :: string where
  "slug_suffix_alphabet = ''0123456789abcdefghijklmnopqrstuvwxyz''"

text \<open>\<^verbatim>\<open>/^[a-z]+-[a-z]+-[0-9a-z]{6}$/\<close>: no class holds the dash, so each part ends at the first one.\<close>

definition session_slug_pattern :: "string \<Rightarrow> bool" where
  "session_slug_pattern s =
     (let a = takeWhile is_lower s; r = dropWhile is_lower s in
      a \<noteq> [] \<and>
      (case r of
         [] \<Rightarrow> False
       | d # r1 \<Rightarrow>
           (let b = takeWhile is_lower r1; r2 = dropWhile is_lower r1 in
            d = CHR ''-'' \<and> b \<noteq> [] \<and>
            (case r2 of
               [] \<Rightarrow> False
             | d2 # c \<Rightarrow>
                 d2 = CHR ''-'' \<and> length c = 6 \<and> list_all (\<lambda>x. is_digit x \<or> is_lower x) c))))"

definition mint_session_slug :: "nat \<Rightarrow> nat \<Rightarrow> nat list \<Rightarrow> string" where
  "mint_session_slug i j ks =
     slug_adjectives ! i @ ''-'' @ slug_nouns ! j @ ''-'' @ map (\<lambda>k. slug_suffix_alphabet ! k) ks"

text \<open>What the six draws of \<open>randomInt\<close> and the two words' are: each below its list's length.\<close>

definition slug_draws :: "nat \<Rightarrow> nat \<Rightarrow> nat list \<Rightarrow> bool" where
  "slug_draws i j ks \<longleftrightarrow>
     i < length slug_adjectives \<and> j < length slug_nouns \<and> length ks = slug_suffix_length \<and>
     list_all (\<lambda>k. k < length slug_suffix_alphabet) ks"

subsection \<open>Branches and directories\<close>

definition branch_namespace :: string where
  "branch_namespace = ''oppenheimer''"

definition session_branch_name :: "string \<Rightarrow> string" where
  "session_branch_name slug = branch_namespace @ ''/'' @ slug"

definition split_full_name :: "string \<Rightarrow> string \<times> string" where
  "split_full_name full =
     (let slash = last_index_of (CHR ''/'') full in
      if slash \<le> 0 then ([], full)
      else (take (nat slash) full, drop (nat slash + 1) full))"

definition checkout_directory_candidates :: "string \<Rightarrow> string \<Rightarrow> string list" where
  "checkout_directory_candidates full repo_id =
     (let (owner, repo) = split_full_name full in
      [repo, owner @ ''--'' @ repo, owner @ ''--'' @ repo @ ''-'' @ repo_id])"

definition checkout_directory_name :: "string \<Rightarrow> string \<Rightarrow> string list \<Rightarrow> string option" where
  "checkout_directory_name full repo_id taken =
     find (\<lambda>c. c \<notin> set taken) (checkout_directory_candidates full repo_id)"

subsection \<open>The checkout entity\<close>

datatype checkout_mode = WorktreeMode | CloneMode

record session_checkout =
  checkout_id :: string
  checkout_organization :: string
  checkout_session :: string
  checkout_installation :: string
  checkout_github_repo :: string
  checkout_full_name :: string
  checkout_store_directory :: "string option"
  checkout_directory :: string
  checkout_mode :: checkout_mode
  checkout_base_branch :: string
  checkout_branch :: string
  worktree_created_at :: "date option"
  checkout_pushed_at :: "date option"
  checkout_removed_at :: "date option"

record create_checkout =
  create_organization :: string
  create_session :: string
  create_installation :: string
  create_github_repo :: string
  create_full_name :: string
  create_directory :: string
  create_base_branch :: string
  create_branch :: string
  create_mode :: "checkout_mode option"

definition checkout_problem :: "session_checkout \<Rightarrow> domain_error option" where
  "checkout_problem c = check_all
     [(\<not> nonblank (checkout_session c), ArgumentNotProvided ''A checkout must belong to a session''),
      (\<not> nonblank (checkout_directory c), ArgumentNotProvided ''A checkout must have a directory name''),
      (\<not> nonblank (checkout_branch c), ArgumentNotProvided ''A checkout must have a branch'')]"

definition create_new_checkout :: "string \<Rightarrow> create_checkout \<Rightarrow> domain_error + session_checkout" where
  "create_new_checkout uuid p =
     (let c = \<lparr>checkout_id = uuid, checkout_organization = create_organization p,
            checkout_session = create_session p, checkout_installation = create_installation p,
            checkout_github_repo = create_github_repo p, checkout_full_name = create_full_name p,
            checkout_store_directory = None, checkout_directory = create_directory p,
            checkout_mode = (case create_mode p of None \<Rightarrow> WorktreeMode | Some m \<Rightarrow> m),
            checkout_base_branch = create_base_branch p, checkout_branch = create_branch p,
            worktree_created_at = None, checkout_pushed_at = None, checkout_removed_at = None\<rparr>
      in validated (checkout_problem c) c)"

definition checkout_is_removed :: "session_checkout \<Rightarrow> bool" where
  "checkout_is_removed c = (checkout_removed_at c \<noteq> None)"

definition report_created :: "checkout_mode \<Rightarrow> string \<Rightarrow> date \<Rightarrow> session_checkout \<Rightarrow> session_checkout" where
  "report_created m store now c =
     c\<lparr>checkout_mode := m, checkout_store_directory := Some store, worktree_created_at := Some now\<rparr>"

definition mark_pushed :: "date \<Rightarrow> session_checkout \<Rightarrow> session_checkout" where
  "mark_pushed now c = c\<lparr>checkout_pushed_at := Some now\<rparr>"

definition remove_checkout :: "date \<Rightarrow> session_checkout \<Rightarrow> session_checkout" where
  "remove_checkout now c = c\<lparr>checkout_removed_at := or_else (checkout_removed_at c) (Some now)\<rparr>"

subsection \<open>Minted slugs\<close>

lemma slug_words:
  "list_all (\<lambda>w. w \<noteq> [] \<and> list_all is_lower w) slug_adjectives"
  "list_all (\<lambda>w. w \<noteq> [] \<and> list_all is_lower w) slug_nouns"
  "list_all (\<lambda>x. is_digit x \<or> is_lower x) slug_suffix_alphabet"
  "distinct slug_adjectives" "distinct slug_nouns" "distinct slug_suffix_alphabet"
  by code_simp+

lemma not_lower_dash: "\<not> is_lower (CHR ''-'')"
  by (simp add: is_lower_def char_between_def)

lemma word_split:
  assumes "list_all is_lower w"
  shows "takeWhile is_lower (w @ CHR ''-'' # r) = w" and "dropWhile is_lower (w @ CHR ''-'' # r) = CHR ''-'' # r"
  using assms not_lower_dash by (induction w) auto

lemma nth_word:
  assumes "list_all P ws" "i < length ws"
  shows "P (ws ! i)"
  using assms by (simp add: list_all_length)

lemma mint_session_slug_pattern:
  assumes "slug_draws i j ks"
  shows "session_slug_pattern (mint_session_slug i j ks)"
proof -
  have a: "slug_adjectives ! i \<noteq> []" "list_all is_lower (slug_adjectives ! i)"
    using nth_word [OF slug_words(1), of i] assms by (auto simp: slug_draws_def)
  have n: "slug_nouns ! j \<noteq> []" "list_all is_lower (slug_nouns ! j)"
    using nth_word [OF slug_words(2), of j] assms by (auto simp: slug_draws_def)
  have "list_all (\<lambda>x. is_digit x \<or> is_lower x) (map (\<lambda>k. slug_suffix_alphabet ! k) ks)"
    using nth_word [OF slug_words(3)] assms by (auto simp: slug_draws_def list_all_iff)
  with a n assms show ?thesis
    by (simp add: session_slug_pattern_def mint_session_slug_def word_split slug_draws_def
        slug_suffix_length_def)
qed

lemma mint_session_slug_inj:
  assumes "slug_draws i j ks" "slug_draws i' j' ks'"
    and eq: "mint_session_slug i j ks = mint_session_slug i' j' ks'"
  shows "i = i' \<and> j = j' \<and> ks = ks'"
proof -
  have words: "list_all is_lower (slug_adjectives ! i)" "list_all is_lower (slug_adjectives ! i')"
    "list_all is_lower (slug_nouns ! j)" "list_all is_lower (slug_nouns ! j')"
    using nth_word [OF slug_words(1)] nth_word [OF slug_words(2)] assms(1,2)
    by (auto simp: slug_draws_def)
  let ?t = "\<lambda>j ks. slug_nouns ! j @ ''-'' @ map (\<lambda>k. slug_suffix_alphabet ! k) ks"
  have "slug_adjectives ! i @ CHR ''-'' # ?t j ks = slug_adjectives ! i' @ CHR ''-'' # ?t j' ks'"
    using eq by (simp add: mint_session_slug_def)
  then have adj: "slug_adjectives ! i = slug_adjectives ! i'" and t: "?t j ks = ?t j' ks'"
    using word_split [OF words(1)] word_split [OF words(2)] by (metis list.inject)+
  then have noun: "slug_nouns ! j = slug_nouns ! j'"
    and suf: "map (\<lambda>k. slug_suffix_alphabet ! k) ks = map (\<lambda>k. slug_suffix_alphabet ! k) ks'"
    using word_split [OF words(3)] word_split [OF words(4)]
    by (metis append_Cons append_Nil list.inject)+
  have "inj_on (\<lambda>k. slug_suffix_alphabet ! k) (set ks \<union> set ks')"
    using assms slug_words(6) by (auto simp: slug_draws_def list_all_iff inj_on_def nth_eq_iff_index_eq)
  with suf have "ks = ks'" by (rule map_inj_on)
  with adj noun assms slug_words(4,5) show ?thesis
    by (auto simp: slug_draws_def nth_eq_iff_index_eq)
qed

subsection \<open>Directory names\<close>

lemma checkout_directory_name_fresh:
  "checkout_directory_name full repo_id taken = Some d \<Longrightarrow>
     d \<notin> set taken \<and> d \<in> set (checkout_directory_candidates full repo_id)"
  unfolding checkout_directory_name_def by (drule find_SomeD) blast

lemma checkout_directory_name_None:
  "checkout_directory_name full repo_id taken = None \<longleftrightarrow>
     set (checkout_directory_candidates full repo_id) \<subseteq> set taken"
  by (auto simp: checkout_directory_name_def find_None_iff)

lemma split_full_name_owner:
  assumes "owner \<noteq> []" "CHR ''/'' \<notin> set repo"
  shows "split_full_name (owner @ ''/'' @ repo) = (owner, repo)"
  using assms by (simp add: split_full_name_def last_index_of_split)

lemma remove_checkout_once: "checkout_removed_at c \<noteq> None \<Longrightarrow> remove_checkout now c = c"
  by (auto simp: remove_checkout_def)

end
