(* ===== verification/Work_Session.thy ===== *)
theory Work_Session
  imports Session_Turn Session_Cloud Session_Checkout "HOL-Library.AList"
begin

section \<open>The work-session aggregate\<close>

text \<open>
  \<^verbatim>\<open>apps/api/src/sessions/domain/work-session.entity.ts\<close>: the aggregate that owns a session's row, its checkouts,
  its cloud run and its latest turn, whose only mutator of the row is \<open>recordEvent\<close>. The id
  (\<open>randomUUID\<close>) and the clock are arguments; a domain event is a value of \<open>session_domain_event\<close>,
  and \<open>ws_events\<close> is the list the base class collects. \<open>props\<close> spreads the fold's columns; the
  row's own \<open>projectId\<close> is \<open>ws_project_id\<close>, and \<open>ws_fold\<close> is the getter \<open>fold\<close>.
\<close>

subsection \<open>State\<close>

datatype session_refusal = VendorSession | AlreadyResolved | CloudTakesNoInput | NotRunning

datatype session_domain_event =
    SessionCreated string string string string string
  | SessionUpdated
  | SessionTerminalMatched string int
  | SessionAgentNotified string
  | SessionWakeRequested string string string
  | SessionStateChanged session_state session_state nat
  | SessionTurnChanged nat turn_origin "turn_state option" turn_state

record work_session =
  ws_id :: string
  ws_columns :: session_fold
  ws_organization_id :: string
  ws_project_id :: string
  ws_created_by :: string
  ws_host_id :: "string option"
  ws_slug :: string
  ws_agent :: string
  ws_folder_path :: "string option"
  ws_place :: session_place
  ws_idempotency_key :: "string option"
  ws_checkouts :: "session_checkout list"
  ws_cloud_run :: "cloud_run option"
  ws_origin :: session_origin
  ws_latest_turn :: "session_turn option"
  ws_changed_turns :: "(nat \<times> session_turn) list"
  ws_updated_at :: date
  ws_events :: "session_domain_event list"

record create_work_session =
  new_organization_id :: string
  new_project_id :: string
  new_created_by :: string
  new_host_id :: string
  new_slug :: string
  new_agent :: string
  new_folder :: "string option"
  new_place :: "session_place option"
  new_name :: "string option"
  new_idempotency_key :: "string option"
  new_origin :: "session_origin option"

record create_cloud_session =
  cloud_id :: string
  cloud_run_of :: cloud_run
  cloud_organization_id :: string
  cloud_project_id :: string
  cloud_created_by :: string
  cloud_slug :: string
  cloud_agent :: string
  cloud_name :: "string option"
  cloud_idempotency_key :: "string option"
  cloud_origin :: "session_origin option"

definition session_problem :: "work_session \<Rightarrow> domain_error option" where
  "session_problem w = check_all
     [(\<not> nonblank (ws_organization_id w), ArgumentNotProvided ''A session must belong to an organization''),
      (\<not> nonblank (ws_project_id w), ArgumentNotProvided ''A session must belong to a project''),
      (pred_option (\<lambda>h. \<not> nonblank h) (ws_host_id w) \<and> ws_host_id w \<noteq> None,
       ArgumentNotProvided ''A session on a host must name it''),
      (ws_host_id w = None \<and> ws_place w \<noteq> PlaceCloud,
       ArgumentInvalid ''Only a cloud session runs without a host''),
      (\<not> session_slug_pattern (ws_slug w),
       ArgumentInvalid ''A session slug is <adjective>-<noun>-<6 base36 characters>'')]"

subsection \<open>Creation\<close>

definition request_session :: "string \<Rightarrow> date \<Rightarrow> create_work_session \<Rightarrow> domain_error + work_session" where
  "request_session uuid now p =
     (let place = (case new_place p of None \<Rightarrow> PlaceWorktree | Some x \<Rightarrow> x) in
      if (place = PlaceFolder) \<noteq> truthy (new_folder p)
      then Inl (ArgumentInvalid ''A folder session names its folder, and only it does'')
      else
        (let w = \<lparr>ws_id = uuid,
               ws_columns = initial_session_fold\<lparr>
                 fold_launch := (fold_launch initial_session_fold)
                   \<lparr>launched_permission := launch_permission_for (Some (new_agent p)) None\<rparr>,
                 fold_name := Some (case new_name p of None \<Rightarrow> new_slug p | Some n \<Rightarrow> n),
                 fold_name_source := (if truthy (new_name p) then Some NamedByUser else None),
                 fold_project_id := Some (new_project_id p)\<rparr>,
               ws_organization_id = new_organization_id p, ws_project_id = new_project_id p,
               ws_created_by = new_created_by p, ws_host_id = Some (new_host_id p),
               ws_slug = new_slug p, ws_agent = new_agent p,
               ws_folder_path = (if place = PlaceFolder then new_folder p else None),
               ws_place = place, ws_idempotency_key = new_idempotency_key p, ws_checkouts = [],
               ws_cloud_run = None,
               ws_origin = (case new_origin p of None \<Rightarrow> FromPerson | Some x \<Rightarrow> x),
               ws_latest_turn = None, ws_changed_turns = [], ws_updated_at = now, ws_events = []\<rparr>
         in case session_problem w of
              Some e \<Rightarrow> Inl e
            | None \<Rightarrow> Inr (w\<lparr>ws_events := [SessionCreated (ws_organization_id w) (ws_project_id w)
                (new_host_id p) (ws_slug w) (ws_agent w)]\<rparr>)))"

definition request_cloud_session :: "date \<Rightarrow> create_cloud_session \<Rightarrow> domain_error + work_session" where
  "request_cloud_session now p =
     (let w = \<lparr>ws_id = cloud_id p,
            ws_columns = initial_session_fold\<lparr>
              fold_launch := (fold_launch initial_session_fold)\<lparr>launched_permission := None\<rparr>,
              fold_name := Some (case cloud_name p of None \<Rightarrow> cloud_slug p | Some n \<Rightarrow> n),
              fold_name_source := (if truthy (cloud_name p) then Some NamedByUser else None),
              fold_project_id := Some (cloud_project_id p)\<rparr>,
            ws_organization_id = cloud_organization_id p, ws_project_id = cloud_project_id p,
            ws_created_by = cloud_created_by p, ws_host_id = None, ws_slug = cloud_slug p,
            ws_agent = cloud_agent p, ws_folder_path = None, ws_place = PlaceCloud,
            ws_idempotency_key = cloud_idempotency_key p, ws_checkouts = [],
            ws_cloud_run = Some (cloud_run_of p),
            ws_origin = (case cloud_origin p of None \<Rightarrow> FromPerson | Some x \<Rightarrow> x),
            ws_latest_turn = None, ws_changed_turns = [], ws_updated_at = now, ws_events = []\<rparr>
      in validated (session_problem w) w)"

subsection \<open>Reading the aggregate\<close>

definition ws_fold :: "work_session \<Rightarrow> session_fold" where
  "ws_fold w = (ws_columns w)\<lparr>fold_project_id := Some (ws_project_id w)\<rparr>"

definition ws_branch :: "work_session \<Rightarrow> string option" where
  "ws_branch w = (case ws_checkouts w of [] \<Rightarrow> None | c # _ \<Rightarrow> Some (checkout_branch c))"

definition host_refusal :: "work_session \<Rightarrow> session_refusal option" where
  "host_refusal w = (if ws_host_id w = None then Some VendorSession else None)"

definition ws_name :: "work_session \<Rightarrow> string" where
  "ws_name w = (case fold_name (ws_columns w) of None \<Rightarrow> ws_slug w | Some n \<Rightarrow> n)"

definition cloud_session_id :: "work_session \<Rightarrow> string option" where
  "cloud_session_id w =
     (if ws_place w = PlaceCloud then fold_agent_session_id (ws_columns w) else None)"

text \<open>\<open>encodeURIComponent\<close>: the UTF-8 bytes of every code unit outside its unreserved set, in hex.\<close>

definition uri_unreserved :: "char \<Rightarrow> bool" where
  "uri_unreserved c =
     (is_upper c \<or> is_lower c \<or> is_digit c \<or> c \<in> set [CHR ''-'', CHR ''_'', CHR ''.'', CHR ''!'',
        CHR ''~'', CHR ''*'', CHR 0x27, CHR ''('', CHR '')''])"

definition percent_byte :: "nat \<Rightarrow> string" where
  "percent_byte n =
     (let hex = ''0123456789ABCDEF'' in CHR ''%'' # [hex ! (n div 16 mod 16), hex ! (n mod 16)])"

definition encode_uri_component :: "string \<Rightarrow> string" where
  "encode_uri_component s =
     concat (map (\<lambda>c. let n = of_char c :: nat in
       if uri_unreserved c then [c]
       else if n < 128 then percent_byte n
       else percent_byte (192 + n div 64) @ percent_byte (128 + n mod 64)) s)"

definition vendor_url :: "work_session \<Rightarrow> string option" where
  "vendor_url w =
     (if truthy (cloud_session_id w)
      then map_option
        (\<lambda>i. (if ws_agent w = ''codex'' then ''https://chatgpt.com/codex/tasks/''
              else ''https://claude.ai/code/'') @ encode_uri_component i)
        (cloud_session_id w)
      else if ws_place w = PlaceCloud then Option.bind (ws_cloud_run w) run_url else None)"

definition ws_is_resolved :: "work_session \<Rightarrow> bool" where
  "ws_is_resolved w = (fold_state (ws_columns w) = StateResolved)"

definition closes_without_its_host :: "work_session \<Rightarrow> bool" where
  "closes_without_its_host w = (ws_place w = PlaceCloud)"

definition input_refusal :: "work_session \<Rightarrow> session_refusal option" where
  "input_refusal w =
     (if ws_is_resolved w then Some AlreadyResolved
      else if host_refusal w \<noteq> None then host_refusal w
      else if ws_place w = PlaceCloud then Some CloudTakesNoInput
      else if fold_stopped_at (ws_columns w) \<noteq> None then Some NotRunning
      else None)"

definition live_checkouts :: "work_session \<Rightarrow> session_checkout list" where
  "live_checkouts w = filter (\<lambda>c. \<not> checkout_is_removed c) (ws_checkouts w)"

definition used_directory_names :: "work_session \<Rightarrow> string list" where
  "used_directory_names w = map checkout_directory (ws_checkouts w)"

definition ws_group :: "work_session \<Rightarrow> date \<Rightarrow> session_group" where
  "ws_group w now = session_group (ws_fold w) now"

subsection \<open>The mutator\<close>

definition reseat_fold :: "session_fold \<Rightarrow> work_session \<Rightarrow> work_session" where
  "reseat_fold f w =
     w\<lparr>ws_columns := f,
       ws_project_id := (case fold_project_id f of None \<Rightarrow> ws_project_id w | Some p \<Rightarrow> p)\<rparr>"

definition reseat_latest_turn :: "session_turn option \<Rightarrow> work_session \<Rightarrow> work_session" where
  "reseat_latest_turn t w = w\<lparr>ws_latest_turn := t, ws_changed_turns := []\<rparr>"

definition take_changed_turns :: "work_session \<Rightarrow> session_turn list \<times> work_session" where
  "take_changed_turns w =
     (sort_key turn_seq (map snd (ws_changed_turns w)), w\<lparr>ws_changed_turns := []\<rparr>)"

definition add_event :: "session_domain_event \<Rightarrow> work_session \<Rightarrow> work_session" where
  "add_event ev w = w\<lparr>ws_events := ws_events w @ [ev]\<rparr>"

definition checkout_id_of :: "json \<Rightarrow> string option" where
  "checkout_id_of payload =
     (case property payload ''checkoutId'' of JString s \<Rightarrow> Some s | _ \<Rightarrow> None)"

text \<open>\<open>checkouts.find(c => c.id === id)?.remove(at)\<close>: the first checkout of that id, if any.\<close>

fun remove_first_checkout :: "string \<Rightarrow> date \<Rightarrow> session_checkout list \<Rightarrow> session_checkout list" where
  "remove_first_checkout i now [] = []"
| "remove_first_checkout i now (c # cs) =
     (if checkout_id c = i then remove_checkout now c # cs else c # remove_first_checkout i now cs)"

definition retire_checkout :: "session_log_entry \<Rightarrow> work_session \<Rightarrow> work_session" where
  "retire_checkout e w =
     (if entry_kind e = ''session.checkout_removed''
      then (case checkout_id_of (entry_payload e) of
              None \<Rightarrow> w
            | Some i \<Rightarrow> w\<lparr>ws_checkouts := remove_first_checkout i (entry_occurred_at e) (ws_checkouts w)\<rparr>)
      else w)"

definition terminal_match_of :: "json \<Rightarrow> (string \<times> int) option" where
  "terminal_match_of payload =
     (if \<not> is_object payload then None
      else (case (property payload ''watchId'', property payload ''count'') of
              (JString i, JNumber n) \<Rightarrow>
                (case int_of_number n of
                   Some c \<Rightarrow> (if 0 < c then Some (i, c) else None)
                 | None \<Rightarrow> None)
            | _ \<Rightarrow> None))"

definition fold_turn :: "session_log_entry \<Rightarrow> work_session \<Rightarrow> work_session" where
  "fold_turn e w =
     (let before = ws_latest_turn w; after = fold_turn_event (ws_origin w) before e in
      case after of
        None \<Rightarrow> w
      | Some t \<Rightarrow>
          (if same_turn before after then w
           else
             (let w1 = w\<lparr>ws_latest_turn := Some t,
                         ws_changed_turns := AList.update (turn_seq t) t (ws_changed_turns w)\<rparr>;
                  from_state = (case before of
                            None \<Rightarrow> None
                          | Some b \<Rightarrow> if turn_seq b = turn_seq t then Some (turn_state b) else None)
              in if from_state = Some (turn_state t) then w1
                 else add_event (SessionTurnChanged (turn_seq t) (turn_origin t) from_state (turn_state t)) w1)))"

definition raise_updated :: "work_session \<Rightarrow> work_session" where
  "raise_updated w = (if SessionUpdated \<in> set (ws_events w) then w else add_event SessionUpdated w)"

definition raise_terminal_matched :: "session_log_entry \<Rightarrow> work_session \<Rightarrow> work_session" where
  "raise_terminal_matched e w =
     (if entry_kind e = ''terminal.matched''
      then (case terminal_match_of (entry_payload e) of
              None \<Rightarrow> w
            | Some (i, c) \<Rightarrow> add_event (SessionTerminalMatched i c) w)
      else w)"

definition raise_agent_notified ::
  "session_fold \<Rightarrow> session_log_entry \<Rightarrow> work_session \<Rightarrow> work_session" where
  "raise_agent_notified folded e w =
     (if entry_kind e = ''agent.notified''
      then (case (fold_notice folded, agent_notified_payload (entry_payload e)) of
              (Some n, Some p) \<Rightarrow>
                (if notice_id n = notice_id p then add_event (SessionAgentNotified (notice_id n)) w else w)
            | _ \<Rightarrow> w)
      else w)"

definition raise_wake_requested ::
  "(string \<Rightarrow> bool) \<Rightarrow> session_log_entry \<Rightarrow> work_session \<Rightarrow> work_session" where
  "raise_wake_requested is_datetime e w =
     (if entry_kind e = ''wake.requested''
      then (case wake_requested_payload is_datetime (entry_payload e) of
              None \<Rightarrow> w
            | Some p \<Rightarrow> add_event (SessionWakeRequested (wake_id p) (wake_at p) (wake_text p)) w)
      else w)"

definition raise_state_changed :: "session_state \<Rightarrow> session_fold \<Rightarrow> work_session \<Rightarrow> work_session" where
  "raise_state_changed before folded w =
     (if fold_state folded \<noteq> before
      then add_event (SessionStateChanged before (fold_state folded) (fold_state_seq folded)) w
      else w)"

definition record_event ::
  "(string \<Rightarrow> bool) \<Rightarrow> date \<Rightarrow> session_log_entry \<Rightarrow> work_session \<Rightarrow> domain_error + work_session" where
  "record_event is_datetime now e w =
     (let before = fold_state (ws_columns w);
          w1 = retire_checkout e (reseat_fold (fold_session_event (ws_fold w) e) w);
          folded = ws_fold w1;
          w2 = (fold_turn e w1)\<lparr>ws_updated_at := now\<rparr>
      in case session_problem w2 of
           Some err \<Rightarrow> Inl err
         | None \<Rightarrow>
             Inr (raise_state_changed before folded
               (raise_wake_requested is_datetime e
                 (raise_agent_notified folded e
                   (raise_terminal_matched e (raise_updated w2))))))"

fun record_events ::
  "(string \<Rightarrow> bool) \<Rightarrow> date \<Rightarrow> session_log_entry list \<Rightarrow> work_session \<Rightarrow> domain_error + work_session" where
  "record_events is_datetime now [] w = Inr w"
| "record_events is_datetime now (e # es) w =
     (case record_event is_datetime now e w of
        Inl err \<Rightarrow> Inl err
      | Inr w' \<Rightarrow> record_events is_datetime now es w')"

definition attach_checkout :: "date \<Rightarrow> session_checkout \<Rightarrow> work_session \<Rightarrow> domain_error + work_session" where
  "attach_checkout now c w =
     (if ws_place w = PlaceFolder
      then Inl (ArgumentInvalid ''A session in a folder on the host has no checkouts'')
      else if checkout_id c \<in> set (map checkout_id (ws_checkouts w)) then Inr w
      else Inr (w\<lparr>ws_checkouts := ws_checkouts w @ [c], ws_updated_at := now\<rparr>))"

definition checkout_by_id :: "string \<Rightarrow> work_session \<Rightarrow> session_checkout option" where
  "checkout_by_id i w = find (\<lambda>c. checkout_id c = i) (ws_checkouts w)"

definition api_idempotency_key :: "string \<Rightarrow> string \<Rightarrow> string" where
  "api_idempotency_key command_id kind = kind @ '':'' @ command_id"

end
