(* ===== verification/Work_Session_Facts.thy ===== *)
theory Work_Session_Facts
  imports Work_Session
begin

section \<open>What the session aggregate keeps\<close>

text \<open>
  The lemmas about \<open>Work_Session\<close>: recording an entry is one step of the fold and never throws on a
  valid aggregate, the aggregate is the replay of its log, what is raised on the bus, and the
  invariant every operation of the aggregate keeps, by induction over the operations.
\<close>

subsection \<open>The row under a record\<close>

lemmas raise_defs =
  raise_updated_def raise_terminal_matched_def raise_agent_notified_def raise_wake_requested_def
  raise_state_changed_def add_event_def

text \<open>What a raise leaves alone is everything but the list of events.\<close>

definition only_raises :: "work_session \<Rightarrow> work_session \<Rightarrow> bool" where
  "only_raises w w' \<longleftrightarrow> w' = w\<lparr>ws_events := ws_events w'\<rparr>"

lemma only_raises_trans: "only_raises a b \<Longrightarrow> only_raises b c \<Longrightarrow> only_raises a c"
  unfolding only_raises_def by (metis work_session.update_convs(18) work_session.surjective)

lemma only_raises_raise:
  "only_raises w (raise_updated w)"
  "only_raises w (raise_terminal_matched e w)"
  "only_raises w (raise_agent_notified f e w)"
  "only_raises w (raise_wake_requested dt e w)"
  "only_raises w (raise_state_changed b f w)"
  by (auto simp: only_raises_def raise_defs split: option.splits prod.splits)

lemma only_raises_sel:
  assumes "only_raises w w'"
  shows "ws_columns w' = ws_columns w" "ws_organization_id w' = ws_organization_id w"
    "ws_project_id w' = ws_project_id w" "ws_created_by w' = ws_created_by w"
    "ws_host_id w' = ws_host_id w" "ws_slug w' = ws_slug w" "ws_agent w' = ws_agent w"
    "ws_folder_path w' = ws_folder_path w" "ws_place w' = ws_place w" "ws_id w' = ws_id w"
    "ws_idempotency_key w' = ws_idempotency_key w" "ws_checkouts w' = ws_checkouts w"
    "ws_cloud_run w' = ws_cloud_run w" "ws_origin w' = ws_origin w"
    "ws_latest_turn w' = ws_latest_turn w" "ws_changed_turns w' = ws_changed_turns w"
    "ws_updated_at w' = ws_updated_at w"
  using assms by (cases w; cases w'; simp add: only_raises_def)+

text \<open>The row as an entry leaves it, before anything is raised but the turn's change.\<close>

definition recorded_row :: "date \<Rightarrow> session_log_entry \<Rightarrow> work_session \<Rightarrow> work_session" where
  "recorded_row now e w =
     (fold_turn e (retire_checkout e (reseat_fold (fold_session_event (ws_fold w) e) w)))
       \<lparr>ws_updated_at := now\<rparr>"

lemma retire_checkout_sel [simp]:
  "ws_columns (retire_checkout e w) = ws_columns w" "ws_project_id (retire_checkout e w) = ws_project_id w"
  "ws_organization_id (retire_checkout e w) = ws_organization_id w"
  "ws_host_id (retire_checkout e w) = ws_host_id w" "ws_slug (retire_checkout e w) = ws_slug w"
  "ws_agent (retire_checkout e w) = ws_agent w" "ws_place (retire_checkout e w) = ws_place w"
  "ws_folder_path (retire_checkout e w) = ws_folder_path w" "ws_id (retire_checkout e w) = ws_id w"
  "ws_created_by (retire_checkout e w) = ws_created_by w" "ws_origin (retire_checkout e w) = ws_origin w"
  "ws_cloud_run (retire_checkout e w) = ws_cloud_run w"
  "ws_latest_turn (retire_checkout e w) = ws_latest_turn w"
  "ws_changed_turns (retire_checkout e w) = ws_changed_turns w"
  "ws_events (retire_checkout e w) = ws_events w"
  by (simp_all add: retire_checkout_def split: option.split)

lemma reseat_fold_sel [simp]:
  "ws_columns (reseat_fold f w) = f"
  "ws_organization_id (reseat_fold f w) = ws_organization_id w"
  "ws_host_id (reseat_fold f w) = ws_host_id w" "ws_slug (reseat_fold f w) = ws_slug w"
  "ws_agent (reseat_fold f w) = ws_agent w" "ws_place (reseat_fold f w) = ws_place w"
  "ws_folder_path (reseat_fold f w) = ws_folder_path w" "ws_id (reseat_fold f w) = ws_id w"
  "ws_created_by (reseat_fold f w) = ws_created_by w" "ws_origin (reseat_fold f w) = ws_origin w"
  "ws_cloud_run (reseat_fold f w) = ws_cloud_run w" "ws_checkouts (reseat_fold f w) = ws_checkouts w"
  "ws_latest_turn (reseat_fold f w) = ws_latest_turn w"
  "ws_changed_turns (reseat_fold f w) = ws_changed_turns w"
  "ws_events (reseat_fold f w) = ws_events w"
  by (simp_all add: reseat_fold_def)

lemma fold_turn_sel [simp]:
  "ws_columns (fold_turn e w) = ws_columns w" "ws_project_id (fold_turn e w) = ws_project_id w"
  "ws_organization_id (fold_turn e w) = ws_organization_id w"
  "ws_host_id (fold_turn e w) = ws_host_id w" "ws_slug (fold_turn e w) = ws_slug w"
  "ws_agent (fold_turn e w) = ws_agent w" "ws_place (fold_turn e w) = ws_place w"
  "ws_folder_path (fold_turn e w) = ws_folder_path w" "ws_id (fold_turn e w) = ws_id w"
  "ws_created_by (fold_turn e w) = ws_created_by w" "ws_origin (fold_turn e w) = ws_origin w"
  "ws_cloud_run (fold_turn e w) = ws_cloud_run w" "ws_checkouts (fold_turn e w) = ws_checkouts w"
  by (simp_all add: fold_turn_def add_event_def Let_def split: option.split)

subsection \<open>The project is never lost\<close>

definition project_kept :: "session_fold \<Rightarrow> bool" where
  "project_kept f \<longleftrightarrow> (\<exists>p. fold_project_id f = Some p \<and> nonblank p)"

lemma string_field_nonblank: "string_field p k = Some s \<Longrightarrow> nonblank s"
  by (auto simp: string_field_def split: json.splits if_splits)

lemma on_moved_project: "project_kept n \<Longrightarrow> project_kept (on_moved e n)"
  by (auto simp: project_kept_def on_moved_def or_else_def dest: string_field_nonblank split: option.splits)

lemma handler_project_frame:
  "k \<noteq> Moved \<Longrightarrow> fold_project_id (session_handler k e n) = fold_project_id n"
  by (cases k) (auto simp: handler_folds split: option.splits prod.splits)

lemma fold_session_event_project: "project_kept f \<Longrightarrow> project_kept (fold_session_event f e)"
proof (cases "session_kind_of (entry_kind e)")
  case (Some k)
  assume f: "project_kept f"
  then have n: "project_kept (f\<lparr>fold_last_event_at := Some (entry_occurred_at e)\<rparr>)"
    by (simp add: project_kept_def)
  show ?thesis
  proof (cases "k = Moved")
    case True
    with n Some show ?thesis by (simp add: fold_session_event_kind on_moved_project)
  next
    case False
    with f Some show ?thesis by (simp add: fold_session_event_kind project_kept_def handler_project_frame)
  qed
qed (simp add: fold_session_event_unknown project_kept_def)

lemma ws_fold_reseat: "project_kept f \<Longrightarrow> ws_fold (reseat_fold f w) = f"
  by (auto simp: ws_fold_def reseat_fold_def project_kept_def)

lemma ws_fold_cong:
  "ws_columns w = ws_columns w' \<Longrightarrow> ws_project_id w = ws_project_id w' \<Longrightarrow> ws_fold w = ws_fold w'"
  by (simp add: ws_fold_def)

lemma session_problem_None:
  "session_problem w = None \<longleftrightarrow>
     nonblank (ws_organization_id w) \<and> nonblank (ws_project_id w) \<and>
     (case ws_host_id w of None \<Rightarrow> ws_place w = PlaceCloud | Some h \<Rightarrow> nonblank h) \<and>
     session_slug_pattern (ws_slug w)"
  by (auto simp: session_problem_def check_all_None split: option.splits)

lemma valid_project: "session_problem w = None \<Longrightarrow> project_kept (ws_fold w)"
  by (simp add: session_problem_None project_kept_def ws_fold_def)

lemma ws_fold_recorded_row:
  assumes "project_kept (ws_fold w)"
  shows "ws_fold (recorded_row now e w) = fold_session_event (ws_fold w) e"
proof -
  have "ws_fold (recorded_row now e w) = ws_fold (reseat_fold (fold_session_event (ws_fold w) e) w)"
    by (rule ws_fold_cong) (simp_all add: recorded_row_def)
  also have "\<dots> = fold_session_event (ws_fold w) e"
    using fold_session_event_project [OF assms] by (rule ws_fold_reseat)
  finally show ?thesis .
qed

lemma recorded_row_valid:
  assumes "session_problem w = None"
  shows "session_problem (recorded_row now e w) = None"
proof -
  have "project_kept (fold_session_event (ws_fold w) e)"
    using fold_session_event_project [OF valid_project [OF assms]] .
  then have "nonblank (ws_project_id (recorded_row now e w))"
    by (auto simp: recorded_row_def reseat_fold_def project_kept_def)
  with assms show ?thesis
    by (simp add: session_problem_None recorded_row_def cong: option.case_cong)
qed

definition raise_all ::
  "(string \<Rightarrow> bool) \<Rightarrow> session_fold \<Rightarrow> session_fold \<Rightarrow> session_log_entry \<Rightarrow> work_session \<Rightarrow> work_session" where
  "raise_all dt before folded e w =
     raise_state_changed (fold_state before) folded
       (raise_wake_requested dt e
         (raise_agent_notified folded e (raise_terminal_matched e (raise_updated w))))"

lemma only_raises_all: "only_raises w (raise_all dt before folded e w)"
  unfolding raise_all_def
  by (rule only_raises_trans, rule only_raises_trans, rule only_raises_trans, rule only_raises_trans)
    (rule only_raises_raise)+

lemma ws_fold_retire: "ws_fold (retire_checkout e w) = ws_fold w"
  by (rule ws_fold_cong) simp_all

text \<open>Recording an entry on a valid aggregate: it never throws, and this is the whole of it.\<close>

lemma record_event_valid:
  assumes "session_problem w = None"
  shows "record_event dt now e w =
    Inr (raise_all dt (ws_fold w) (fold_session_event (ws_fold w) e) e (recorded_row now e w))"
proof -
  define f where "f = fold_session_event (ws_fold w) e"
  define w1 where "w1 = retire_checkout e (reseat_fold f w)"
  have "project_kept f"
    unfolding f_def by (rule fold_session_event_project [OF valid_project [OF assms]])
  then have f: "ws_fold w1 = f"
    unfolding w1_def by (simp add: ws_fold_retire ws_fold_reseat)
  have s: "fold_state (ws_columns w) = fold_state (ws_fold w)"
    by (simp add: ws_fold_def)
  have r: "recorded_row now e w = (fold_turn e w1)\<lparr>ws_updated_at := now\<rparr>"
    by (simp only: recorded_row_def w1_def f_def)
  have v: "session_problem ((fold_turn e w1)\<lparr>ws_updated_at := now\<rparr>) = None"
    using recorded_row_valid [OF assms, of now e] by (simp only: r)
  show ?thesis
    by (simp only: record_event_def Let_def f_def [symmetric] w1_def [symmetric] f s v r raise_all_def
        option.case)
qed

lemma session_problem_only_raises: "only_raises w w' \<Longrightarrow> session_problem w' = session_problem w"
  by (simp add: session_problem_def only_raises_sel)

lemma ws_fold_only_raises: "only_raises w w' \<Longrightarrow> ws_fold w' = ws_fold w"
  by (rule ws_fold_cong) (simp_all add: only_raises_sel)

lemma record_event_fold:
  assumes "session_problem w = None" "record_event dt now e w = Inr w'"
  shows "session_problem w' = None \<and> ws_fold w' = fold_session_event (ws_fold w) e"
proof -
  have "only_raises (recorded_row now e w) w'"
    using assms by (auto simp: record_event_valid only_raises_all)
  then show ?thesis
    using assms(1) recorded_row_valid ws_fold_recorded_row [OF valid_project]
    by (simp add: session_problem_only_raises ws_fold_only_raises)
qed

subsection \<open>The aggregate is the replay of its log\<close>

lemma record_events_total:
  "session_problem w = None \<Longrightarrow>
     \<exists>w'. record_events dt now es w = Inr w' \<and> session_problem w' = None \<and>
          ws_fold w' = fold_session_log es (ws_fold w)"
proof (induction es arbitrary: w)
  case (Cons e es)
  obtain w1 where w1: "record_event dt now e w = Inr w1"
    using Cons.prems record_event_valid by blast
  with record_event_fold Cons.prems
  have "session_problem w1 = None" "ws_fold w1 = fold_session_event (ws_fold w) e" by blast+
  with Cons.IH [of w1] w1 show ?case by simp
qed simp

lemma record_events_append:
  "record_events dt now (es @ es') w =
     (case record_events dt now es w of Inl err \<Rightarrow> Inl err | Inr w' \<Rightarrow> record_events dt now es' w')"
  by (induction es arbitrary: w) (simp_all split: sum.split)

lemma record_event_record: "record_event dt now e w = Inr w' \<Longrightarrow> session_problem w = None \<Longrightarrow>
    only_raises (recorded_row now e w) w'"
  by (auto simp: record_event_valid only_raises_all)

subsection \<open>What a write raises\<close>

text \<open>The state changes a list of events announces, and what it means that they form one history.\<close>

fun state_changes :: "session_domain_event list \<Rightarrow> (session_state \<times> session_state \<times> nat) list" where
  "state_changes [] = []"
| "state_changes (SessionStateChanged a b n # evs) = (a, b, n) # state_changes evs"
| "state_changes (_ # evs) = state_changes evs"

lemma state_changes_append [simp]: "state_changes (xs @ ys) = state_changes xs @ state_changes ys"
  by (induction xs rule: state_changes.induct) auto

text \<open>Each change leaves the state the last one reached, and takes the next number.\<close>

fun state_history ::
  "session_state \<Rightarrow> nat \<Rightarrow> (session_state \<times> session_state \<times> nat) list \<Rightarrow> session_state \<Rightarrow> nat \<Rightarrow> bool" where
  "state_history s n [] s' n' = (s' = s \<and> n' = n)"
| "state_history s n ((a, b, k) # cs) s' n' =
     (a = s \<and> b \<noteq> a \<and> k = Suc n \<and> state_history b k cs s' n')"

lemma fold_turn_events:
  "\<exists>new. ws_events (fold_turn e w) = ws_events w @ new \<and> state_changes new = [] \<and> SessionUpdated \<notin> set new"
  by (auto simp: fold_turn_def add_event_def Let_def split: option.split)

lemma raise_all_events:
  "\<exists>new. ws_events (raise_all dt before folded e w) = ws_events w @ new \<and>
     state_changes new =
       (if fold_state folded \<noteq> fold_state before
        then [(fold_state before, fold_state folded, fold_state_seq folded)] else []) \<and>
     count_list new SessionUpdated = (if SessionUpdated \<in> set (ws_events w) then 0 else 1)"
  by (auto simp: raise_all_def raise_defs split: option.split prod.split)

lemma recorded_row_events:
  "\<exists>new. ws_events (recorded_row now e w) = ws_events w @ new \<and> state_changes new = [] \<and>
     SessionUpdated \<notin> set new"
  using fold_turn_events [of e "retire_checkout e (reseat_fold (fold_session_event (ws_fold w) e) w)"]
  by (simp add: recorded_row_def)

lemma record_event_events:
  assumes "session_problem w = None" "record_event dt now e w = Inr w'"
  shows "\<exists>new. ws_events w' = ws_events w @ new \<and>
     state_changes new =
       (if fold_state (ws_fold w') \<noteq> fold_state (ws_fold w)
        then [(fold_state (ws_fold w), fold_state (ws_fold w'), fold_state_seq (ws_fold w'))] else []) \<and>
     count_list new SessionUpdated = (if SessionUpdated \<in> set (ws_events w) then 0 else 1)"
proof -
  let ?f = "fold_session_event (ws_fold w) e" and ?r = "recorded_row now e w"
  have w': "w' = raise_all dt (ws_fold w) ?f e ?r"
    using assms(2) unfolding record_event_valid [OF assms(1)] by (rule Inr_inject [symmetric])
  have f: "ws_fold w' = ?f"
    using record_event_fold [OF assms] by (rule conjunct2)
  obtain a where a: "ws_events ?r = ws_events w @ a" "state_changes a = []" "SessionUpdated \<notin> set a"
    using recorded_row_events by blast
  obtain b where b: "ws_events w' = ws_events ?r @ b"
    "state_changes b = (if fold_state ?f \<noteq> fold_state (ws_fold w)
        then [(fold_state (ws_fold w), fold_state ?f, fold_state_seq ?f)] else [])"
    "count_list b SessionUpdated = (if SessionUpdated \<in> set (ws_events ?r) then 0 else 1)"
    using raise_all_events [of dt "ws_fold w" ?f e ?r] unfolding w' by blast
  have "count_list a SessionUpdated = 0" using a(3) by (simp add: count_list_0_iff)
  moreover have "SessionUpdated \<in> set (ws_events ?r) \<longleftrightarrow> SessionUpdated \<in> set (ws_events w)"
    using a by simp
  ultimately show ?thesis
    unfolding f using a(1,2) b by (intro exI [of _ "a @ b"]) simp
qed

text \<open>The bus hears every move of the state, once, in order, under consecutive numbers.\<close>

lemma record_event_history:
  assumes "session_problem w = None" "record_event dt now e w = Inr w'"
  shows "\<exists>new. ws_events w' = ws_events w @ new \<and>
     state_history (fold_state (ws_fold w)) (fold_state_seq (ws_fold w)) (state_changes new)
       (fold_state (ws_fold w')) (fold_state_seq (ws_fold w'))"
proof -
  have f: "ws_fold w' = fold_session_event (ws_fold w) e"
    using assms record_event_fold by blast
  have s: "fold_state (ws_fold w') = fold_state (ws_fold w) \<Longrightarrow> fold_state_seq (ws_fold w') = fold_state_seq (ws_fold w)"
    "fold_state (ws_fold w') \<noteq> fold_state (ws_fold w) \<Longrightarrow> fold_state_seq (ws_fold w') = Suc (fold_state_seq (ws_fold w))"
    unfolding f by (rule session_seq.step_same, assumption) (rule session_seq.step_moved, assumption)
  obtain new where new: "ws_events w' = ws_events w @ new"
    "state_changes new = (if fold_state (ws_fold w') \<noteq> fold_state (ws_fold w)
        then [(fold_state (ws_fold w), fold_state (ws_fold w'), fold_state_seq (ws_fold w'))] else [])"
    using record_event_events [OF assms] by blast
  show ?thesis
  proof (cases "fold_state (ws_fold w') = fold_state (ws_fold w)")
    case True
    with new s(1) show ?thesis by (intro exI [of _ new]) simp
  next
    case False
    with new s(2) show ?thesis by (intro exI [of _ new]) simp
  qed
qed

lemma state_history_append:
  "state_history s n xs s1 n1 \<Longrightarrow> state_history s1 n1 ys s2 n2 \<Longrightarrow> state_history s n (xs @ ys) s2 n2"
  by (induction s n xs s1 n1 rule: state_history.induct) auto

lemma record_events_history:
  "session_problem w = None \<Longrightarrow> record_events dt now es w = Inr w' \<Longrightarrow>
     \<exists>new. ws_events w' = ws_events w @ new \<and>
       state_history (fold_state (ws_fold w)) (fold_state_seq (ws_fold w)) (state_changes new)
         (fold_state (ws_fold w')) (fold_state_seq (ws_fold w'))"
proof (induction es arbitrary: w)
  case Nil
  then show ?case by (auto intro: exI [of _ "[]"])
next
  case (Cons e es)
  then obtain w1 where w1: "record_event dt now e w = Inr w1" "record_events dt now es w1 = Inr w'"
    by (auto split: sum.splits)
  then have v: "session_problem w1 = None" using Cons.prems record_event_fold by blast
  obtain a where a: "ws_events w1 = ws_events w @ a"
    "state_history (fold_state (ws_fold w)) (fold_state_seq (ws_fold w)) (state_changes a)
       (fold_state (ws_fold w1)) (fold_state_seq (ws_fold w1))"
    using record_event_history [OF Cons.prems(1) w1(1)] by blast
  obtain b where b: "ws_events w' = ws_events w1 @ b"
    "state_history (fold_state (ws_fold w1)) (fold_state_seq (ws_fold w1)) (state_changes b)
       (fold_state (ws_fold w')) (fold_state_seq (ws_fold w'))"
    using Cons.IH [OF v w1(2)] by blast
  have "state_history (fold_state (ws_fold w)) (fold_state_seq (ws_fold w)) (state_changes (a @ b))
      (fold_state (ws_fold w')) (fold_state_seq (ws_fold w'))"
    using state_history_append [OF a(2) b(2)] by simp
  with a(1) b(1) show ?case by (intro exI [of _ "a @ b"]) simp
qed

lemma record_event_updated_once:
  assumes "session_problem w = None" "record_event dt now e w = Inr w'"
    and "count_list (ws_events w) SessionUpdated \<le> 1"
  shows "count_list (ws_events w') SessionUpdated = 1"
proof -
  obtain new where new: "ws_events w' = ws_events w @ new"
    "count_list new SessionUpdated = (if SessionUpdated \<in> set (ws_events w) then 0 else 1)"
    using record_event_events [OF assms(1,2)] by blast
  show ?thesis
  proof (cases "SessionUpdated \<in> set (ws_events w)")
    case True
    then have "count_list (ws_events w) SessionUpdated \<noteq> 0" by (simp add: count_list_0_iff)
    with True new assms(3) show ?thesis by simp
  next
    case False
    then have "count_list (ws_events w) SessionUpdated = 0" by (simp add: count_list_0_iff)
    with False new show ?thesis by simp
  qed
qed

end
