(* ===== verification/Work_Session_Steps.thy ===== *)
theory Work_Session_Steps
  imports Work_Session_Facts
begin

section \<open>The operations of the session aggregate, and what they keep\<close>

text \<open>
  The operations its callers have on a \<open>work_session\<close>, as an inductive step relation; what every
  reachable aggregate satisfies; and what no operation ever changes. The repository re-seats the
  fold and the latest turn on the row it locked, takes the changed turns to write them, and the
  base class clears the events it published: those are steps too.
\<close>

subsection \<open>The invariant of an aggregate\<close>

text \<open>The turns to write back: one per number, each under its own, none past the latest.\<close>

definition changed_hold :: "work_session \<Rightarrow> bool" where
  "changed_hold w \<longleftrightarrow>
     distinct (map fst (ws_changed_turns w)) \<and>
     (\<forall>(n, t) \<in> set (ws_changed_turns w).
        turn_seq t = n \<and> latest_turn_inv (Some t) \<and> n \<le> turn_rank (ws_latest_turn w))"

definition checkouts_hold :: "work_session \<Rightarrow> bool" where
  "checkouts_hold w \<longleftrightarrow>
     distinct (map checkout_id (ws_checkouts w)) \<and> (ws_place w = PlaceFolder \<longrightarrow> ws_checkouts w = [])"

definition place_holds :: "work_session \<Rightarrow> bool" where
  "place_holds w \<longleftrightarrow>
     (ws_folder_path w \<noteq> None \<longleftrightarrow> ws_place w = PlaceFolder) \<and>
     (ws_host_id w = None \<longrightarrow> ws_place w = PlaceCloud)"

definition ws_inv :: "work_session \<Rightarrow> bool" where
  "ws_inv w \<longleftrightarrow>
     session_problem w = None \<and> fold_inv (ws_fold w) \<and> latest_turn_inv (ws_latest_turn w) \<and>
     changed_hold w \<and> checkouts_hold w \<and> place_holds w"

lemma fold_inv_project [simp]: "fold_inv (f\<lparr>fold_project_id := p\<rparr>) = fold_inv f"
  by (simp add: fold_inv_def tombstone_def close_exclusive_def refusal_fits_def decision_live_def
      windows_hold_def observation_dated_def cong: option.case_cong)

lemma fold_inv_birth [simp]:
  "fold_inv (f\<lparr>fold_launch := l\<rparr>) = fold_inv f" "fold_inv (f\<lparr>fold_name := n\<rparr>) = fold_inv f"
  "fold_inv (f\<lparr>fold_name_source := src\<rparr>) = fold_inv f"
  by (simp_all add: fold_inv_def tombstone_def close_exclusive_def refusal_fits_def decision_live_def
      windows_hold_def observation_dated_def cong: option.case_cong)

lemma fold_inv_ws_fold: "fold_inv (ws_fold w) = fold_inv (ws_columns w)"
  by (simp add: ws_fold_def)

subsection \<open>Checkouts\<close>

lemma remove_first_checkout_ids [simp]:
  "map checkout_id (remove_first_checkout i now cs) = map checkout_id cs"
  "map checkout_directory (remove_first_checkout i now cs) = map checkout_directory cs"
  by (induction i now cs rule: remove_first_checkout.induct) (simp_all add: remove_checkout_def)

lemma remove_first_checkout_Nil [simp]: "remove_first_checkout i now cs = [] \<longleftrightarrow> cs = []"
  by (cases cs) simp_all

lemma retire_checkout_ids:
  "map checkout_id (ws_checkouts (retire_checkout e w)) = map checkout_id (ws_checkouts w)"
  "map checkout_directory (ws_checkouts (retire_checkout e w)) = map checkout_directory (ws_checkouts w)"
  "ws_checkouts (retire_checkout e w) = [] \<longleftrightarrow> ws_checkouts w = []"
  by (simp_all add: retire_checkout_def split: option.split)

lemma recorded_row_checkouts:
  "map checkout_id (ws_checkouts (recorded_row now e w)) = map checkout_id (ws_checkouts w)"
  "map checkout_directory (ws_checkouts (recorded_row now e w)) = map checkout_directory (ws_checkouts w)"
  "ws_checkouts (recorded_row now e w) = [] \<longleftrightarrow> ws_checkouts w = []"
  by (simp_all add: recorded_row_def retire_checkout_ids)

subsection \<open>Turns\<close>

lemma fold_turn_latest: "ws_latest_turn (fold_turn e w) = fold_turn_event (ws_origin w) (ws_latest_turn w) e"
proof (cases "fold_turn_event (ws_origin w) (ws_latest_turn w) e")
  case None
  then have "ws_latest_turn w = None"
    using fold_turn_event_Some [of "ws_origin w" _ e] by (metis option.distinct(1) option.exhaust)
  with None show ?thesis by (simp add: fold_turn_def)
next
  case (Some t)
  then show ?thesis
    using same_turn_sound [of "ws_latest_turn w" "ws_origin w" e]
    by (auto simp: fold_turn_def add_event_def Let_def)
qed

lemma changed_update:
  assumes "distinct (map fst ch)" "\<forall>(n, t) \<in> set ch. turn_seq t = n \<and> P t" "P t"
  shows "distinct (map fst (AList.update (turn_seq t) t ch)) \<and>
    (\<forall>(n, u) \<in> set (AList.update (turn_seq t) t ch). turn_seq u = n \<and> P u)"
proof -
  have "(n, u) \<in> set (AList.update k t ch) \<Longrightarrow> (n, u) \<in> set ch \<or> (n = k \<and> u = t)" for n u k
    by (induction ch) (auto split: if_splits)
  with assms show ?thesis by (auto simp: distinct_update)
qed

lemma fold_turn_changed:
  assumes "changed_hold w" "latest_turn_inv (ws_latest_turn w)"
  shows "changed_hold (fold_turn e w)"
proof (cases "ws_changed_turns (fold_turn e w) = ws_changed_turns w")
  case True
  have "turn_rank (ws_latest_turn w) \<le> turn_rank (ws_latest_turn (fold_turn e w))"
    unfolding fold_turn_latest using fold_turn_event_rank by blast
  with assms True show ?thesis by (fastforce simp: changed_hold_def)
next
  case False
  then obtain t where t: "fold_turn_event (ws_origin w) (ws_latest_turn w) e = Some t"
    "ws_changed_turns (fold_turn e w) = AList.update (turn_seq t) t (ws_changed_turns w)"
    by (auto simp: fold_turn_def add_event_def Let_def split: option.splits if_splits)
  let ?P = "\<lambda>u. latest_turn_inv (Some u) \<and> turn_seq u \<le> turn_seq t"
  have "latest_turn_inv (Some t)"
    using fold_turn_event_inv [OF assms(2), of "ws_origin w" e] t(1) by simp
  moreover have "turn_rank (ws_latest_turn w) \<le> turn_seq t"
    using fold_turn_event_rank [of "ws_latest_turn w" "ws_origin w" e] t(1) by (simp add: turn_rank_def)
  ultimately have "distinct (map fst (AList.update (turn_seq t) t (ws_changed_turns w))) \<and>
    (\<forall>(n, u) \<in> set (AList.update (turn_seq t) t (ws_changed_turns w)). turn_seq u = n \<and> ?P u)"
    using assms(1) by (intro changed_update) (fastforce simp: changed_hold_def)+
  then show ?thesis
    unfolding changed_hold_def t(2) fold_turn_latest t(1) by (fastforce simp: turn_rank_def)
qed

subsection \<open>Recording keeps the invariant\<close>

lemma recorded_row_inv:
  assumes "ws_inv w"
  shows "ws_inv (recorded_row now e w)"
proof -
  let ?w1 = "retire_checkout e (reseat_fold (fold_session_event (ws_fold w) e) w)"
  have c: "changed_hold ?w1" "latest_turn_inv (ws_latest_turn ?w1)"
    using assms by (simp_all add: ws_inv_def changed_hold_def)
  have v: "session_problem w = None" using assms by (simp add: ws_inv_def)
  have f: "fold_inv (ws_fold (recorded_row now e w))"
    using assms by (simp add: ws_fold_recorded_row [OF valid_project [OF v]] ws_inv_def fold_session_event_inv)
  have l: "latest_turn_inv (ws_latest_turn (recorded_row now e w))"
    using c(2) by (simp add: recorded_row_def fold_turn_latest fold_turn_event_inv)
  have ch: "changed_hold (recorded_row now e w)"
    using fold_turn_changed [OF c, of e] by (simp add: recorded_row_def changed_hold_def)
  have k: "checkouts_hold (recorded_row now e w)"
    using assms recorded_row_checkouts [of now e w]
    by (simp add: ws_inv_def checkouts_hold_def) (simp add: recorded_row_def)
  have p: "place_holds (recorded_row now e w)"
    using assms by (simp add: ws_inv_def place_holds_def recorded_row_def)
  show ?thesis
    using f l ch k p recorded_row_valid [OF v] by (simp add: ws_inv_def)
qed

lemma ws_inv_only_raises:
  assumes "only_raises w w'" "ws_inv w"
  shows "ws_inv w'"
  using assms(2) session_problem_only_raises [OF assms(1)] ws_fold_only_raises [OF assms(1)]
    only_raises_sel [OF assms(1)]
  by (simp add: ws_inv_def changed_hold_def checkouts_hold_def place_holds_def)

lemma record_event_inv: "ws_inv w \<Longrightarrow> record_event dt now e w = Inr w' \<Longrightarrow> ws_inv w'"
  using record_event_record ws_inv_only_raises recorded_row_inv ws_inv_def by blast

subsection \<open>The operations\<close>

inductive session_op :: "work_session \<Rightarrow> work_session \<Rightarrow> bool" where
  record_entry: "record_event dt now e w = Inr w' \<Longrightarrow> session_op w w'"
| attach: "attach_checkout now c w = Inr w' \<Longrightarrow> session_op w w'"
| take_turns: "take_changed_turns w = (ts, w') \<Longrightarrow> session_op w w'"
| reload_fold: "fold_inv f \<Longrightarrow> project_kept f \<Longrightarrow> session_op w (reseat_fold f w)"
| reload_turn: "latest_turn_inv t \<Longrightarrow> session_op w (reseat_latest_turn t w)"
| publish: "session_op w (w\<lparr>ws_events := []\<rparr>)"

inductive session_reachable :: "work_session \<Rightarrow> bool" where
  requested: "request_session uuid now p = Inr w \<Longrightarrow> session_reachable w"
| requested_cloud: "request_cloud_session now p = Inr w \<Longrightarrow> session_reachable w"
| step: "session_reachable w \<Longrightarrow> session_op w w' \<Longrightarrow> session_reachable w'"

inductive_cases session_opE: "session_op w w'"

text \<open>The row's own columns, which only a record, a reload and a request write.\<close>

definition row_of :: "work_session \<Rightarrow> session_fold \<times> string \<times> string \<times> string option \<times> string \<times> string option \<times> session_place" where
  "row_of w = (ws_columns w, ws_project_id w, ws_organization_id w, ws_host_id w, ws_slug w, ws_folder_path w,
     ws_place w)"

lemma ws_inv_frame:
  assumes "row_of w' = row_of w" "ws_inv w"
    and "latest_turn_inv (ws_latest_turn w')" "changed_hold w'" "checkouts_hold w'"
  shows "ws_inv w'"
proof -
  have "session_problem w' = session_problem w" "ws_fold w' = ws_fold w" "place_holds w' = place_holds w"
    using assms(1) by (simp_all add: row_of_def session_problem_def ws_fold_def place_holds_def)
  with assms(2-5) show ?thesis by (simp add: ws_inv_def)
qed

lemma newborn_inv:
  assumes "session_problem w = None" "fold_inv (ws_columns w)" "place_holds w"
    and "ws_latest_turn w = None" "ws_changed_turns w = []" "ws_checkouts w = []"
  shows "ws_inv w"
  using assms by (simp add: ws_inv_def fold_inv_ws_fold changed_hold_def checkouts_hold_def latest_turn_inv_def)

lemma case_problem_Inr: "(case x of None \<Rightarrow> Inr a | Some e \<Rightarrow> Inl e) = Inr w \<longleftrightarrow> x = None \<and> w = a"
  by (auto split: option.split)

lemma request_session_newborn:
  assumes "request_session uuid now p = Inr w"
  shows "fold_inv (ws_columns w)" "place_holds w" "ws_latest_turn w = None" "ws_changed_turns w = []"
    "ws_checkouts w = []" "session_problem w = None"
proof -
  define place where "place = (case new_place p of None \<Rightarrow> PlaceWorktree | Some x \<Rightarrow> x)"
  have place: "(place = PlaceFolder) = truthy (new_folder p)"
    using assms by (auto simp: request_session_def place_def [symmetric] Let_def split: if_splits)
  note row = assms [unfolded request_session_def place_def [symmetric] Let_def, simplified place if_False
      simp_thms case_problem_Inr]
  from row show "fold_inv (ws_columns w)" by (simp add: initial_session_fold_inv)
  from row show "place_holds w" using place by (simp add: place_holds_def truthy_def)
  from row show "ws_latest_turn w = None" "ws_changed_turns w = []" "ws_checkouts w = []" by simp_all
  from row show "session_problem w = None" by (simp add: session_problem_def)
qed

lemma request_session_inv: "request_session uuid now p = Inr w \<Longrightarrow> ws_inv w"
  by (rule newborn_inv) (simp_all add: request_session_newborn)

lemma request_cloud_session_inv: "request_cloud_session now p = Inr w \<Longrightarrow> ws_inv w"
proof -
  assume "request_cloud_session now p = Inr w"
  then show ?thesis
    by (intro newborn_inv)
      (auto simp: request_cloud_session_def Let_def place_holds_def initial_session_fold_inv)
qed

lemma attach_checkout_inv:
  assumes "ws_inv w" "attach_checkout now c w = Inr w'"
  shows "ws_inv w'"
proof (rule ws_inv_frame [OF _ assms(1)])
  show "row_of w' = row_of w" "latest_turn_inv (ws_latest_turn w')" "changed_hold w'" "checkouts_hold w'"
    using assms by (auto simp: attach_checkout_def row_of_def ws_inv_def changed_hold_def checkouts_hold_def
        split: if_splits)
qed

lemma take_changed_turns_inv:
  assumes "ws_inv w" "take_changed_turns w = (ts, w')"
  shows "ws_inv w'"
proof (rule ws_inv_frame [OF _ assms(1)])
  show "row_of w' = row_of w" "latest_turn_inv (ws_latest_turn w')" "changed_hold w'" "checkouts_hold w'"
    using assms by (auto simp: take_changed_turns_def row_of_def ws_inv_def changed_hold_def checkouts_hold_def)
qed

lemma reseat_fold_inv:
  assumes "ws_inv w" "fold_inv f" "project_kept f"
  shows "ws_inv (reseat_fold f w)"
proof -
  obtain p where p: "fold_project_id f = Some p" "nonblank p"
    using assms(3) by (auto simp: project_kept_def)
  then have "ws_project_id (reseat_fold f w) = p" by (simp add: reseat_fold_def)
  with p have "session_problem (reseat_fold f w) = None"
    using assms(1) by (simp add: ws_inv_def session_problem_None cong: option.case_cong)
  with assms show ?thesis
    by (simp add: ws_inv_def ws_fold_reseat changed_hold_def checkouts_hold_def place_holds_def)
qed

lemma reseat_latest_turn_inv:
  assumes "ws_inv w" "latest_turn_inv t"
  shows "ws_inv (reseat_latest_turn t w)"
proof (rule ws_inv_frame [OF _ assms(1)])
  show "row_of (reseat_latest_turn t w) = row_of w"
    "latest_turn_inv (ws_latest_turn (reseat_latest_turn t w))" "changed_hold (reseat_latest_turn t w)"
    "checkouts_hold (reseat_latest_turn t w)"
    using assms by (auto simp: reseat_latest_turn_def row_of_def ws_inv_def changed_hold_def checkouts_hold_def)
qed

lemma publish_inv: "ws_inv w \<Longrightarrow> ws_inv (w\<lparr>ws_events := []\<rparr>)"
  by (rule ws_inv_only_raises) (simp_all add: only_raises_def)

lemma session_op_inv: "session_op w w' \<Longrightarrow> ws_inv w \<Longrightarrow> ws_inv w'"
  by (induction rule: session_op.induct)
    (auto intro: record_event_inv attach_checkout_inv take_changed_turns_inv reseat_fold_inv
      reseat_latest_turn_inv publish_inv)

lemma session_reachable_inv: "session_reachable w \<Longrightarrow> ws_inv w"
  by (induction rule: session_reachable.induct)
    (auto intro: request_session_inv request_cloud_session_inv session_op_inv)

subsection \<open>What no operation changes\<close>

definition identity_of :: "work_session \<Rightarrow>
    string \<times> string \<times> string \<times> string option \<times> string \<times> string \<times> string option \<times> session_place \<times> session_origin" where
  "identity_of w = (ws_id w, ws_organization_id w, ws_created_by w, ws_host_id w, ws_slug w, ws_agent w,
     ws_folder_path w, ws_place w, ws_origin w)"

lemma record_event_identity:
  assumes "session_problem w = None" "record_event dt now e w = Inr w'"
  shows "identity_of w' = identity_of w"
proof -
  have "only_raises (recorded_row now e w) w'" using assms record_event_record by blast
  from only_raises_sel [OF this] show ?thesis by (simp add: identity_of_def) (simp add: recorded_row_def)
qed

lemma session_op_identity: "session_op w w' \<Longrightarrow> ws_inv w \<Longrightarrow> identity_of w' = identity_of w"
proof (erule session_opE)
  fix dt now e
  assume "record_event dt now e w = Inr w'" "ws_inv w"
  then show ?thesis using record_event_identity by (blast dest: ws_inv_def [THEN iffD1])
qed (auto simp: identity_of_def attach_checkout_def take_changed_turns_def reseat_latest_turn_def split: if_splits)

text \<open>Every directory name a session has used stays its own.\<close>

lemma session_op_directories:
  assumes "session_op w w'" "ws_inv w"
  shows "set (used_directory_names w) \<subseteq> set (used_directory_names w')"
  using assms(1)
proof (rule session_opE)
  fix dt now e
  assume "record_event dt now e w = Inr w'"
  moreover have "session_problem w = None" using assms(2) by (simp add: ws_inv_def)
  ultimately have "only_raises (recorded_row now e w) w'" using record_event_record by blast
  from only_raises_sel(12) [OF this] show ?thesis
    by (simp add: used_directory_names_def recorded_row_checkouts)
qed (auto simp: used_directory_names_def attach_checkout_def take_changed_turns_def reseat_latest_turn_def
    split: if_splits)

subsection \<open>Writing the turns back\<close>

lemma take_changed_turns_sorted:
  assumes "ws_inv w"
  shows "sorted_wrt (<) (map turn_seq (fst (take_changed_turns w)))"
proof -
  have d: "distinct (map fst (ws_changed_turns w))" "\<forall>(n, t) \<in> set (ws_changed_turns w). turn_seq t = n"
    using assms by (auto simp: ws_inv_def changed_hold_def)
  then have "map turn_seq (map snd (ws_changed_turns w)) = map fst (ws_changed_turns w)"
    by (auto intro: map_cong)
  with d(1) have "distinct (map turn_seq (sort_key turn_seq (map snd (ws_changed_turns w))))"
    by (metis distinct_map distinct_sort set_sort)
  then show ?thesis by (simp add: take_changed_turns_def strict_sorted_iff)
qed

end
