(* ===== verification/Session_Examples.thy ===== *)
theory Session_Examples
  imports Work_Session_Steps
begin

section \<open>Concrete logs and sessions\<close>

text \<open>
  The inputs the witnesses evaluate: entries of a session's log, the rules that fold them, and a
  session as \<open>WorkSession.request\<close> makes it.
\<close>

definition entry :: "string \<Rightarrow> json \<Rightarrow> date \<Rightarrow> session_log_entry" where
  "entry kind payload at_ms = \<lparr>entry_seq = 0, entry_kind = kind, entry_payload = payload, entry_occurred_at = at_ms\<rparr>"

lemmas log_eval = entry_def fold_session_event_def session_kind_of_def session_event_kinds_def
  handler_folds initial_session_fold_def string_field_def nonblank_iff js_space_def

definition a_request :: create_work_session where
  "a_request = \<lparr>new_organization_id = ''org'', new_project_id = ''project'', new_created_by = ''person'',
     new_host_id = ''host'', new_slug = ''calm-otter-k3x9q2'', new_agent = ''claude-code'',
     new_folder = None, new_place = None, new_name = Some ''Fix the build'', new_idempotency_key = None,
     new_origin = None\<rparr>"

definition a_session :: work_session where
  "a_session = (case request_session ''id'' 0 a_request of Inr w \<Rightarrow> w)"

lemma a_slug_pattern: "session_slug_pattern ''calm-otter-k3x9q2''"
  by code_simp

lemma a_session_requested: "request_session ''id'' 0 a_request = Inr a_session"
  using a_slug_pattern
  by (simp add: a_session_def a_request_def request_session_def session_problem_def truthy_def
      nonblank_iff js_space_def)

lemma a_session_reachable: "session_reachable a_session"
  by (rule session_reachable.requested [OF a_session_requested])

lemma a_session_row [simp]:
  "ws_checkouts a_session = []" "ws_slug a_session = ''calm-otter-k3x9q2''" "ws_id a_session = ''id''"
  "ws_place a_session = PlaceWorktree" "ws_organization_id a_session = ''org''"
  using a_slug_pattern
  by (simp_all add: a_session_def a_request_def request_session_def session_problem_def truthy_def
      nonblank_iff js_space_def)

end
