(* ===== verification/Session_Properties.thy ===== *)
theory Session_Properties
  imports Session_Examples
begin

section \<open>The properties of a session and its log\<close>

text \<open>
  What the fold, the turn and the aggregate promise, each stated of the code's own operations and
  proved from the lemmas of their theories, with a witness at a concrete log where a statement has
  hypotheses.
\<close>

subsection \<open>Helpers\<close>

lemma fold_session_log_resolved_seq:
  "fold_state f = StateResolved \<Longrightarrow> fold_state_seq (fold_session_log es f) = fold_state_seq f"
proof (induction es arbitrary: f)
  case (Cons e es)
  have s: "fold_state (fold_session_event f e) = StateResolved"
    by (rule fold_session_event_resolved [OF Cons.prems])
  then have "fold_state_seq (fold_session_event f e) = fold_state_seq f"
    using Cons.prems by (intro session_seq.step_same) simp
  with Cons.IH [OF s] show ?case by simp
qed simp

subsection \<open>The row\<close>

text \<open>C1: every log folds to a row that keeps the row's invariant: a closed session owes nothing and
  waits on nobody, a close is owed or was refused but never both, a refusal fits its columns, a session
  that has stopped waits on no decision and a decision is within the wire's bounds, both windows are
  bounded with one entry per key, and an observation is dated only once there is one. And a decision the
  row waits on is the last one the log reported, to a session that had not stopped, and nothing since
  has ended it: no failure, stop or close, no restart and no start that opened the session, no answer to
  it, and no observation that the agent came to do anything but wait. (A failed session may be told of a
  decision later, and an observation that repeats the last one ends none.)\<close>

theorem every_log_folds_to_a_valid_row:
  "fold_inv (fold_session_log es initial_session_fold) \<and>
   (\<forall>d \<in> set_option (fold_pending_decision (fold_session_log es initial_session_fold)).
      \<exists>before e after. es = before @ e # after \<and> reports_decision d e \<and>
        fold_stopped_at (fold_session_log before initial_session_fold) = None \<and>
        all_leave_waiting d (fold_session_log (before @ [e]) initial_session_fold) after)"
  using fold_session_log_inv [OF initial_session_fold_inv] log_pending by (auto simp: elem_set)

definition a_dialog :: json where
  "a_dialog = JObject [(''decision'', JObject [(''id'', JString ''d1''), (''kind'', JString ''permission''),
     (''title'', JString ''Run it?''), (''options'', JArray [JObject [(''label'', JString ''Yes'')], JObject [(''label'', JString ''No'')]])])]"

text \<open>The failure ends what the first report said; the session waits on what the second did.\<close>

definition waiting_log :: "session_log_entry list" where
  "waiting_log = [entry ''agent.decision'' a_dialog 1, entry ''session.failed'' (JObject []) 2,
     entry ''agent.decision'' a_dialog 3, entry ''session.started'' (JObject []) 4]"

theorem every_log_folds_to_a_valid_row_witness:
  "fold_pending_decision (fold_session_log (take 2 waiting_log) initial_session_fold) = None \<and>
   (\<exists>d before e after. fold_pending_decision (fold_session_log waiting_log initial_session_fold) = Some d \<and>
      waiting_log = before @ e # after \<and> reports_decision d e)"
proof -
  have none: "fold_pending_decision (fold_session_log (take 2 waiting_log) initial_session_fold) = None" by code_simp
  have "fold_pending_decision (fold_session_log waiting_log initial_session_fold) =
      Some (PermissionDecision ''d1'' ''Run it?'' None [''Yes'', ''No''])" by code_simp
  with none every_log_folds_to_a_valid_row [of waiting_log] show ?thesis by auto
qed

text \<open>C38: closing is final. Whatever is appended to the log of a closed session, it stays closed
  under the same state number, with a stop time, no close owed or refused, no decision, notice,
  watched pull request or shared file.\<close>

theorem closed_session_stays_closed:
  assumes "fold_state (fold_session_log es initial_session_fold) = StateResolved"
  shows "let f = fold_session_log (es @ later) initial_session_fold in
    fold_state f = StateResolved \<and>
    fold_state_seq f = fold_state_seq (fold_session_log es initial_session_fold) \<and>
    fold_stopped_at f \<noteq> None \<and> fold_close_request f = None \<and> fold_close_refusal f = None \<and>
    fold_pending_decision f = None \<and> fold_notice f = None \<and> fold_watched_pulls f = [] \<and>
    fold_shared_files f = []"
proof -
  let ?f = "fold_session_log (es @ later) initial_session_fold"
  have "fold_state ?f = StateResolved"
    unfolding fold_session_log_append
    by (rule fold_session_log_resolved [OF fold_session_log_inv [OF initial_session_fold_inv] assms])
  moreover have "tombstone ?f"
    using fold_session_log_inv [OF initial_session_fold_inv, of "es @ later"] by (simp add: fold_inv_def)
  ultimately show ?thesis
    using fold_session_log_resolved_seq [OF assms, of later]
    by (simp add: tombstone_def Let_def fold_session_log_append)
qed

theorem closed_session_stays_closed_witness:
  "fold_state (fold_session_log [entry ''session.closed'' JUndefined 5, entry ''session.restarted'' JUndefined 9]
     initial_session_fold) = StateResolved"
  using closed_session_stays_closed [of "[entry ''session.closed'' JUndefined 5]"
      "[entry ''session.restarted'' JUndefined 9]"]
  by (simp add: log_eval)

text \<open>C2: the state column, over any log, is the four-state machine of the lifecycle and reads nothing
  else: no payload, time or other column moves it.\<close>

theorem state_follows_the_lifecycle:
  "fold_state (fold_session_log es f) = foldl lifecycle_entry (fold_state f) es"
  by (induction es arbitrary: f) (simp_all add: fold_session_event_lifecycle)

text \<open>the state number tells a reader whether it missed anything: when it is the same after a log as
  before, the state never moved in between; and it grows by at most one an entry.\<close>

theorem same_state_number_means_no_transition:
  assumes "fold_state_seq (fold_session_log (es @ es') f) = fold_state_seq f"
  shows "fold_state (fold_session_log es f) = fold_state f \<and>
    fold_state_seq (fold_session_log es f) \<le> fold_state_seq f + length es"
  using session_seq.run_same_seq_between [of f es es'] session_seq.run_seq_bound [of f es] assms
  by (simp add: fold_session_log_def)

theorem same_state_number_means_no_transition_witness:
  "fold_state (fold_session_log [entry ''prompt.sent'' JUndefined 1] initial_session_fold) = StateStarting"
  using same_state_number_means_no_transition [of "[entry ''prompt.sent'' JUndefined 1]"
      "[entry ''session.named'' JUndefined 2]" initial_session_fold]
  by (simp add: log_eval)

subsection \<open>Closing\<close>

lemma close_frame_log:
  assumes "\<forall>e \<in> set es. session_kind_of (entry_kind e) \<notin>
    {Some CloseRequested, Some Closed, Some RestartRequested, Some CommandFailed}"
  shows "fold_close_request (fold_session_log es f) = fold_close_request f \<and>
    fold_close_refusal (fold_session_log es f) = fold_close_refusal f"
  using assms
proof (induction es arbitrary: f)
  case (Cons e es)
  have "fold_close_request (fold_session_event f e) = fold_close_request f \<and>
      fold_close_refusal (fold_session_event f e) = fold_close_refusal f"
  proof (cases "session_kind_of (entry_kind e)")
    case (Some k)
    then have "k \<notin> {CloseRequested, Closed, RestartRequested, CommandFailed}" using Cons.prems by simp
    from handler_close_frame [OF this] show ?thesis by (simp add: fold_session_event_kind [OF Some])
  qed (simp add: fold_session_event_unknown)
  moreover have "\<forall>e \<in> set es. session_kind_of (entry_kind e) \<notin>
      {Some CloseRequested, Some Closed, Some RestartRequested, Some CommandFailed}"
    using Cons.prems by simp
  ultimately show ?case using Cons.IH [of "fold_session_event f e"] by (simp only: fold_session_log_Cons)
qed simp

text \<open>a requested close is owed until it is answered. After the request, through any entries that are
  not about the close, the row still owes exactly it; then a failed close command leaves the refusal
  the host gave, cut to its columns, and owes nothing, and a close leaves neither.\<close>

theorem close_is_owed_until_answered:
  assumes "fold_state f \<noteq> StateResolved" "session_kind_of (entry_kind req) = Some CloseRequested"
    and "\<forall>e \<in> set es. session_kind_of (entry_kind e) \<notin>
      {Some CloseRequested, Some Closed, Some RestartRequested, Some CommandFailed}"
    and "session_kind_of (entry_kind failed) = Some CommandFailed"
    and "string_field (entry_payload failed) ''command'' = Some ''session.close''"
    and "session_kind_of (entry_kind gone) = Some Closed"
  shows "let owed = fold_session_log (req # es) f;
             refused = fold_session_event owed failed; done = fold_session_event owed gone in
    fold_close_request owed = Some \<lparr>close_requested_at = entry_occurred_at req,
      accept_unpushed_work = accepts_unpushed_work (entry_payload req)\<rparr> \<and>
    fold_close_refusal owed = None \<and>
    fold_close_request refused = None \<and>
    fold_close_refusal refused = Some
      \<lparr>refusal_code = take 32 (case string_field (entry_payload failed) ''code'' of None \<Rightarrow> ''UNKNOWN'' | Some c \<Rightarrow> c),
       refusal_detail = map_option (take 500) (string_field (entry_payload failed) ''detail'')\<rparr> \<and>
    fold_close_request done = None \<and> fold_close_refusal done = None \<and> fold_state done = StateResolved"
proof -
  define owed where "owed = fold_session_log es (fold_session_event f req)"
  have "fold_close_request owed = Some \<lparr>close_requested_at = entry_occurred_at req,
      accept_unpushed_work = accepts_unpushed_work (entry_payload req)\<rparr> \<and> fold_close_refusal owed = None"
    using close_frame_log [OF assms(3), of "fold_session_event f req"] assms(1)
    by (simp add: owed_def fold_session_event_kind [OF assms(2)] on_close_requested_def)
  then show ?thesis
    using assms(5)
    by (simp add: Let_def owed_def [symmetric] fold_session_event_kind [OF assms(4)]
        fold_session_event_kind [OF assms(6)] on_command_failed_def on_closed_def transition_def
        without_agent_facts_def refusal_code_max_def refusal_detail_max_def)
qed

theorem close_is_owed_until_answered_witness:
  "fold_close_refusal (fold_session_log
     [entry ''session.close_requested'' JUndefined 7,
      entry ''command.failed'' (JObject [(''command'', JString ''session.close''), (''code'', JString ''UNPUSHED'')]) 8]
     initial_session_fold) = Some \<lparr>refusal_code = ''UNPUSHED'', refusal_detail = None\<rparr>"
  using close_is_owed_until_answered [of initial_session_fold "entry ''session.close_requested'' JUndefined 7"
      "[]" "entry ''command.failed'' (JObject [(''command'', JString ''session.close''), (''code'', JString ''UNPUSHED'')]) 8"
      "entry ''session.closed'' JUndefined 9"]
  by (simp add: entry_def session_kind_of_def session_event_kinds_def initial_session_fold_def
      string_field_def nonblank_iff js_space_def Let_def)

subsection \<open>Names\<close>

text \<open>a name a person gave is never replaced by one a model or a first prompt suggested: whatever the
  log, as long as every naming entry in it says it is derived, the name and its source stay.\<close>

theorem a_persons_name_is_kept:
  assumes "fold_name_source f = Some NamedByUser"
    and "\<forall>e \<in> set es. session_kind_of (entry_kind e) = Some Named \<longrightarrow>
      string_field (entry_payload e) ''source'' \<in> {Some ''model'', Some ''prompt''}"
  shows "fold_name (fold_session_log es f) = fold_name f \<and>
    fold_name_source (fold_session_log es f) = Some NamedByUser"
  using assms
proof (induction es arbitrary: f)
  case (Cons e es)
  have n: "fold_name (fold_session_event f e) = fold_name f"
  proof (cases "session_kind_of (entry_kind e)")
    case (Some k)
    let ?n = "f\<lparr>fold_last_event_at := Some (entry_occurred_at e)\<rparr>"
    have "fold_name (session_handler k e ?n) = fold_name ?n"
    proof (cases "k = Named")
      case True
      with Some Cons.prems show ?thesis
        using on_named_keeps_user [of ?n e] by auto
    qed (simp add: handler_name_frame)
    then show ?thesis by (simp add: fold_session_event_kind [OF Some])
  qed (simp add: fold_session_event_unknown)
  have s: "fold_name_source (fold_session_event f e) = Some NamedByUser"
    by (rule fold_session_event_named_by_user [OF Cons.prems(1)])
  from Cons.IH [OF s] Cons.prems(2) n show ?case by simp
qed simp

theorem a_persons_name_is_kept_witness:
  "fold_name (fold_session_log [entry ''session.named'' (JObject [(''name'', JString ''Guess''), (''source'', JString ''model'')]) 3]
     (initial_session_fold\<lparr>fold_name := Some ''Mine'', fold_name_source := Some NamedByUser\<rparr>)) = Some ''Mine''"
  using a_persons_name_is_kept [of "initial_session_fold\<lparr>fold_name := Some ''Mine'', fold_name_source := Some NamedByUser\<rparr>"
      "[entry ''session.named'' (JObject [(''name'', JString ''Guess''), (''source'', JString ''model'')]) 3]"]
  by (simp add: entry_def string_field_def nonblank_iff js_space_def)

end
