(* ===== verification/Session_Prompt.thy ===== *)
theory Session_Prompt
  imports Session_Turn Session_Group
begin

section \<open>Prompts typed for somebody else\<close>

text \<open>
  \<^verbatim>\<open>apps/api/src/sessions/domain/session-prompt.policy.ts\<close>: whether a running session's agent can take a
  follow-up prompt now, and the keys that give it the words. A refusal is its message; \<open>None\<close>
  is that it can. The two optional inputs a caller passes as \<open>Pick\<close>s are the fold and the
  latest turn themselves.
\<close>

definition paste_start :: string where "paste_start = CHR 0x1B # ''[200~''"
definition paste_end :: string where "paste_end = CHR 0x1B # ''[201~''"
definition enter_key :: string where "enter_key = [CHR 0x0D]"

definition prompt_settle_seconds :: rat where "prompt_settle_seconds = 60"
definition cloud_unconfirmed_hold_seconds :: rat where "cloud_unconfirmed_hold_seconds = 15 * 60"

fun state_name :: "session_state \<Rightarrow> string" where
  "state_name StateStarting = ''starting''"
| "state_name StateOpen = ''open''"
| "state_name StateFailed = ''failed''"
| "state_name StateResolved = ''resolved''"

text \<open>How long the log has been quiet, in seconds; negative when the clock is behind the log.\<close>

definition quiet_for :: "session_fold \<Rightarrow> date \<Rightarrow> rat" where
  "quiet_for f now =
     (case fold_last_event_at f of None \<Rightarrow> 0 | Some t \<Rightarrow> of_int (now - t) / 1000)"

definition follow_up_waits :: "session_turn option \<Rightarrow> bool" where
  "follow_up_waits latest =
     (case latest of None \<Rightarrow> False
      | Some t \<Rightarrow> turn_origin t = TurnFollowUp \<and> turn_state t = TurnQueued)"

definition prompt_refusal ::
  "session_fold \<Rightarrow> session_turn option \<Rightarrow> date \<Rightarrow> string option" where
  "prompt_refusal f latest now =
     (if fold_state f \<noteq> StateOpen
      then Some (''The session is '' @ state_name (fold_state f) @ '', not running.'')
      else if fold_last_observed f = Some ObservedWorking
      then Some ''The agent is working on a task; wait for it to finish.''
      else if fold_last_observed f = Some ObservedBlocked
      then Some ''The agent is waiting on a question or a permission dialog; answer that first.''
      else if follow_up_waits latest \<and> quiet_for f now < prompt_settle_seconds
      then Some ''Another prompt was just sent and the agent has not taken it yet; wait for it.''
      else None)"

definition cloud_prompt_refusal ::
  "bool \<Rightarrow> session_fold \<Rightarrow> session_turn option \<Rightarrow> date \<Rightarrow> string option" where
  "cloud_prompt_refusal run_is_active f latest now =
     (if run_is_active
      then Some ''The cloud agent is still on its last run; wait for it to finish.''
      else if follow_up_waits latest \<and> quiet_for f now < cloud_unconfirmed_hold_seconds
      then Some (''An earlier follow-up was not confirmed by the vendor and may be running there; '' @
                 ''check the session at its vendor before sending another.'')
      else prompt_refusal f latest now)"

definition prompt_keys :: "string \<Rightarrow> string list" where
  "prompt_keys text =
     [if CHR 0x0A \<in> set text then paste_start @ text @ paste_end else text, enter_key]"

subsection \<open>What a prompt that was taken claims\<close>

lemma prompt_refusal_None:
  "prompt_refusal f latest now = None \<longleftrightarrow>
     fold_state f = StateOpen \<and>
     fold_last_observed f \<notin> {Some ObservedWorking, Some ObservedBlocked} \<and>
     (follow_up_waits latest \<longrightarrow> prompt_settle_seconds \<le> quiet_for f now)"
  by (auto simp: prompt_refusal_def)

lemma cloud_refusal_stronger:
  "cloud_prompt_refusal active f latest now = None \<Longrightarrow> prompt_refusal f latest now = None"
  by (auto simp: cloud_prompt_refusal_def split: if_splits)

lemma prompt_sent_waits:
  assumes "session_kind_of (entry_kind e) = Some PromptSent" "\<not> is_live_turn latest"
  shows "follow_up_waits (fold_turn_event orig latest e)"
  using assms by (simp add: fold_turn_event_def turn_prompt_sent_def follow_up_waits_def new_turn_def)

lemma prompt_sent_frame:
  assumes "session_kind_of (entry_kind e) = Some PromptSent"
  shows "fold_session_event f e = f\<lparr>fold_last_event_at := Some (entry_occurred_at e)\<rparr>"
  using assms by (simp add: fold_session_event_kind)

end
