(* ===== verification/Work_Session_Properties.thy ===== *)
theory Work_Session_Properties
  imports Session_Examples Session_Group Session_Prompt
begin

section \<open>The properties of a session's turns, and of what a client may send it\<close>

text \<open>
  What the fold of the latest turn promises over any log, when a turn's row is written again, and
  what the rules that read a turn and a row promise: which prompt waits, and which group a
  session is listed in.
\<close>

subsection \<open>Turns\<close>

text \<open>the turn a log ends in is a valid row whatever was in the log. A live turn has not ended and an
  ended one has, one at work or completed has a start, tokens and cost are counts the columns
  hold; and the turns are numbered by at most one an entry.\<close>

theorem every_log_folds_to_a_valid_turn:
  "latest_turn_inv (foldl (fold_turn_event origin) None es) \<and>
   turn_rank (foldl (fold_turn_event origin) None es) \<le> length es"
proof
  show "latest_turn_inv (foldl (fold_turn_event origin) None es)"
    by (rule turn_log.run_inv) (simp add: latest_turn_inv_def)
  have "turn_rank (foldl (fold_turn_event origin) t es) \<le> turn_rank t + length es" for t
  proof (induction es arbitrary: t)
    case (Cons e es)
    show ?case
      using Cons.IH [of "fold_turn_event origin t e"] fold_turn_event_rank [of t origin e] by simp
  qed simp
  from this [of None] show "turn_rank (foldl (fold_turn_event origin) None es) \<le> length es"
    by (simp add: turn_rank_def)
qed

text \<open>a turn that has ended stays as it ended. Until the log opens another turn, nothing in it but the
  exit code of the turn's own process changes the row.\<close>

theorem an_ended_turn_stays_ended:
  assumes "\<not> is_live_state (turn_state t)"
    and "\<forall>e \<in> set es. entry_kind e \<noteq> ''turn.ended''"
    and "foldl (fold_turn_event origin) (Some t) es = Some u" "turn_seq u = turn_seq t"
  shows "u = t"
  using assms(2-)
proof (induction es)
  case (Cons e es)
  let ?v = "fold_turn_event origin (Some t) e"
  obtain v where v: "?v = Some v" using fold_turn_event_Some by blast
  have "turn_seq t \<le> turn_seq v" "turn_seq v \<le> turn_seq u"
    using fold_turn_event_rank [of "Some t" origin e] turn_seq.rank_run [of ?v origin es] Cons.prems(2)
    by (simp_all add: v turn_rank_def)
  then have "turn_seq v = turn_seq t" using Cons.prems(3) by simp
  with fold_turn_event_final [OF assms(1) v] Cons.prems(1) have "v = t" by simp
  with Cons v show ?case by simp
qed simp

theorem an_ended_turn_stays_ended_witness:
  "foldl (fold_turn_event FromPerson)
     (Some ((new_turn 1 TurnFollowUp None Headless)\<lparr>turn_state := TurnCancelled\<rparr>))
     [entry ''session.closed'' JUndefined 5]
   = Some ((new_turn 1 TurnFollowUp None Headless)\<lparr>turn_state := TurnCancelled\<rparr>)"
proof -
  let ?t = "(new_turn 1 TurnFollowUp None Headless)\<lparr>turn_state := TurnCancelled\<rparr>"
  obtain u where "fold_turn_event FromPerson (Some ?t) (entry ''session.closed'' JUndefined 5) = Some u"
    using fold_turn_event_Some by blast
  then have u: "foldl (fold_turn_event FromPerson) (Some ?t) [entry ''session.closed'' JUndefined 5] = Some u"
    by simp
  then have "turn_seq u = turn_seq ?t"
    by (auto simp: entry_def fold_turn_event_def session_kind_of_def session_event_kinds_def
        turn_session_over_def is_live_turn_def is_live_state_def live_turn_states_def)
  with an_ended_turn_stays_ended [OF _ _ u] u show ?thesis
    by (simp add: is_live_state_def live_turn_states_def entry_def)
qed

text \<open>the turn row is written again exactly when an entry changed it. The comparison the aggregate
  skips the write by leaves out the turn's origin, and loses nothing by it.\<close>

theorem a_skipped_turn_write_loses_nothing:
  "same_turn latest (fold_turn_event origin latest e) \<longleftrightarrow> fold_turn_event origin latest e = latest"
proof
  assume "fold_turn_event origin latest e = latest"
  then show "same_turn latest (fold_turn_event origin latest e)"
    by (auto simp: same_turn_def split: option.split)
qed (rule same_turn_sound)

subsection \<open>Prompts and the inbox\<close>

lemma quiet_for_at:
  "0 < s \<Longrightarrow> fold_last_event_at f = Some d \<Longrightarrow> of_int s \<le> quiet_for f now \<longleftrightarrow> d + s * 1000 \<le> now"
proof -
  assume "fold_last_event_at f = Some d"
  moreover have "(of_int s :: rat) \<le> of_int (now - d) / 1000 \<longleftrightarrow> of_int (s * 1000) \<le> (of_int (now - d) :: rat)"
    by (simp add: field_simps)
  ultimately show ?thesis by (simp only: quiet_for_def option.case of_int_le_iff) (simp add: algebra_simps)
qed

text \<open>no second prompt is typed over one that was just sent. Right after a prompt to an agent with no
  live turn, another is taken exactly when the session is open, the agent was last seen neither
  working nor blocked, and the log has been quiet for the sixty seconds a prompt has to settle.\<close>

theorem a_second_prompt_waits:
  assumes "session_kind_of (entry_kind e) = Some PromptSent" "\<not> is_live_turn latest"
  shows "prompt_refusal (fold_session_event f e) (fold_turn_event origin latest e) now = None \<longleftrightarrow>
    fold_state f = StateOpen \<and> fold_last_observed f \<notin> {Some ObservedWorking, Some ObservedBlocked} \<and>
    entry_occurred_at e + 60000 \<le> now"
  using quiet_for_at [of 60 "fold_session_event f e" "entry_occurred_at e" now]
  by (simp add: prompt_refusal_None prompt_sent_waits [OF assms] prompt_sent_frame [OF assms(1)]
      prompt_settle_seconds_def)

theorem a_second_prompt_waits_witness:
  "prompt_refusal (fold_session_event (initial_session_fold\<lparr>fold_state := StateOpen\<rparr>) (entry ''prompt.sent'' JUndefined 1000))
     (fold_turn_event FromPerson None (entry ''prompt.sent'' JUndefined 1000)) 60999 \<noteq> None"
  using a_second_prompt_waits [of "entry ''prompt.sent'' JUndefined 1000" None
      "initial_session_fold\<lparr>fold_state := StateOpen\<rparr>" FromPerson 60999]
  by (simp add: entry_def session_kind_of_def session_event_kinds_def is_live_turn_def)

text \<open>time alone never takes a session out of its person's inbox: one listed as waiting on them is
  still listed so at every later moment, until its log says otherwise.\<close>

theorem waiting_lasts_until_the_log_moves:
  "session_group f now = GroupWaitingOnYou \<Longrightarrow> now \<le> later \<Longrightarrow> session_group f later = GroupWaitingOnYou"
  by (rule waiting_stays_waiting)

theorem waiting_lasts_until_the_log_moves_witness:
  "session_group (initial_session_fold\<lparr>fold_state := StateFailed\<rparr>) 900 = GroupWaitingOnYou"
  using waiting_lasts_until_the_log_moves [of "initial_session_fold\<lparr>fold_state := StateFailed\<rparr>" 0 900]
  by (simp add: session_group_def)

section \<open>The properties of the session aggregate\<close>

text \<open>
  What \<open>recordEvent\<close> and the other operations of the aggregate promise its callers: a recorded
  log is replayed and never throws, the bus hears the state's whole history, every reachable
  aggregate is valid, and what a session is never changes.
\<close>

subsection \<open>Helpers\<close>

lemma session_problem_reachable: "session_reachable w \<Longrightarrow> session_problem w = None"
  using session_reachable_inv [of w] by (simp add: ws_inv_def)

lemma record_event_latest:
  assumes "session_problem w = None" "record_event dt now e w = Inr w'"
  shows "ws_latest_turn w' = fold_turn_event (ws_origin w) (ws_latest_turn w) e"
    and "ws_origin w' = ws_origin w"
proof -
  have r: "only_raises (recorded_row now e w) w'" using record_event_record [OF assms(2,1)] .
  show "ws_latest_turn w' = fold_turn_event (ws_origin w) (ws_latest_turn w) e"
    unfolding only_raises_sel(15) [OF r] by (simp add: recorded_row_def fold_turn_latest)
  show "ws_origin w' = ws_origin w"
    unfolding only_raises_sel(14) [OF r] by (simp add: recorded_row_def)
qed

lemma record_events_latest:
  "session_problem w = None \<Longrightarrow> record_events dt now es w = Inr w' \<Longrightarrow>
     ws_latest_turn w' = foldl (fold_turn_event (ws_origin w)) (ws_latest_turn w) es"
proof (induction es arbitrary: w)
  case (Cons e es)
  then obtain w1 where w1: "record_event dt now e w = Inr w1" "record_events dt now es w1 = Inr w'"
    by (auto split: sum.splits)
  have "session_problem w1 = None" using record_event_fold [OF Cons.prems(1) w1(1)] by (rule conjunct1)
  from Cons.IH [OF this w1(2)] show ?case by (simp add: record_event_latest [OF Cons.prems(1) w1(1)])
qed simp

lemma record_events_updated_once:
  "session_problem w = None \<Longrightarrow> record_events dt now es w = Inr w' \<Longrightarrow>
     count_list (ws_events w) SessionUpdated \<le> 1 \<Longrightarrow> count_list (ws_events w') SessionUpdated \<le> 1"
proof (induction es arbitrary: w)
  case (Cons e es)
  then obtain w1 where w1: "record_event dt now e w = Inr w1" "record_events dt now es w1 = Inr w'"
    by (auto split: sum.splits)
  have "session_problem w1 = None" using record_event_fold [OF Cons.prems(1) w1(1)] by (rule conjunct1)
  moreover have "count_list (ws_events w1) SessionUpdated \<le> 1"
    using record_event_updated_once [OF Cons.prems(1) w1(1) Cons.prems(3)] by simp
  ultimately show ?case by (rule Cons.IH [OF _ w1(2)])
qed simp

subsection \<open>Recording\<close>

text \<open>C3: the aggregate is the replay of its log. Whatever is appended to a session that can exist,
  recording it never throws; the row then is the fold of those entries over the row before, its
  latest turn the fold of them over the turn before; and the session is still a valid one.\<close>

theorem recording_replays_the_log:
  assumes "session_reachable w"
  shows "\<exists>w'. record_events dt now es w = Inr w' \<and>
    ws_fold w' = fold_session_log es (ws_fold w) \<and>
    ws_latest_turn w' = foldl (fold_turn_event (ws_origin w)) (ws_latest_turn w) es \<and>
    session_problem w' = None"
  using record_events_total [OF session_problem_reachable [OF assms]]
    record_events_latest [OF session_problem_reachable [OF assms]]
  by blast

theorem recording_replays_the_log_witness:
  "\<exists>w'. record_events (\<lambda>_. True) 5 [entry ''session.started'' JUndefined 1, entry ''session.closed'' JUndefined 2]
     a_session = Inr w' \<and> fold_state (ws_fold w') = StateResolved"
  using recording_replays_the_log [OF a_session_reachable, of "\<lambda>_. True" 5
      "[entry ''session.started'' JUndefined 1, entry ''session.closed'' JUndefined 2]"]
  by (auto simp: log_eval)

text \<open>the bus hears the state's whole history. The state changes that recording a log raises are, in
  order and under consecutive numbers, exactly the moves from the state before it to the state
  after, with none missing and none announced twice; and one \<open>session.updated\<close> is raised however
  many entries there were.\<close>

theorem the_bus_hears_every_transition:
  assumes "session_reachable w" "record_events dt now es w = Inr w'"
    and "count_list (ws_events w) SessionUpdated \<le> 1"
  shows "count_list (ws_events w') SessionUpdated \<le> 1 \<and>
    (\<exists>new. ws_events w' = ws_events w @ new \<and>
      state_history (fold_state (ws_fold w)) (fold_state_seq (ws_fold w)) (state_changes new)
        (fold_state (ws_fold w')) (fold_state_seq (ws_fold w')))"
  by (intro conjI record_events_updated_once [OF _ assms(2,3)] record_events_history [OF _ assms(2)]
      session_problem_reachable [OF assms(1)])

theorem the_bus_hears_every_transition_witness:
  "case record_events (\<lambda>_. True) 5 [entry ''session.started'' JUndefined 1, entry ''session.closed'' JUndefined 2]
     a_session of Inl err \<Rightarrow> False | Inr w' \<Rightarrow> count_list (ws_events w') SessionUpdated \<le> 1"
proof -
  let ?es = "[entry ''session.started'' JUndefined 1, entry ''session.closed'' JUndefined 2]"
  obtain w' where w': "record_events (\<lambda>_. True) 5 ?es a_session = Inr w'"
    using record_events_total [OF session_problem_reachable [OF a_session_reachable]] by blast
  have "count_list (ws_events a_session) SessionUpdated \<le> 1"
    using a_slug_pattern by (simp add: a_session_def a_request_def request_session_def session_problem_def
        truthy_def nonblank_iff js_space_def)
  from the_bus_hears_every_transition [OF a_session_reachable w' this] show ?thesis by (simp only: w' sum.case)
qed

subsection \<open>Every operation\<close>

text \<open>C4: every session that the aggregate's operations can reach is valid: it has an organization, a
  project, a well-formed slug and a host unless it runs in the cloud; its row keeps the row's
  invariant; its turns to write back are one per number and none past the latest; its checkouts
  have ids of their own, and a folder session has none.\<close>

theorem every_reachable_session_is_valid: "session_reachable w \<Longrightarrow> ws_inv w"
  by (rule session_reachable_inv)

theorem every_reachable_session_is_valid_witness: "ws_inv a_session"
  by (rule every_reachable_session_is_valid [OF a_session_reachable])

text \<open>what a session is never changes. Through any operations its id, organization, owner, host,
  slug, agent, folder, place and origin stay, and a directory name it has used is never free
  again.\<close>

theorem a_session_keeps_its_identity:
  assumes "session_op\<^sup>*\<^sup>* w w'" "session_reachable w"
  shows "identity_of w' = identity_of w \<and>
    set (used_directory_names w) \<subseteq> set (used_directory_names w')"
  using assms
proof (induction rule: rtranclp_induct)
  case (step v v')
  have "session_reachable v" using step.hyps(1) step.prems
    by (induction rule: rtranclp_induct) (auto intro: session_reachable.step)
  then have "ws_inv v" by (rule session_reachable_inv)
  with step session_op_identity [OF step.hyps(2)] session_op_directories [OF step.hyps(2)]
  show ?case by auto
qed simp

theorem a_session_keeps_its_identity_witness:
  "identity_of (snd (take_changed_turns a_session)) = identity_of a_session"
proof -
  have "session_op a_session (snd (take_changed_turns a_session))"
    by (rule session_op.take_turns [where ts = "fst (take_changed_turns a_session)"]) simp
  from a_session_keeps_its_identity [OF r_into_rtranclp [of session_op, OF this] a_session_reachable]
  show ?thesis by simp
qed

end
