(* ===== verification/Session_Plan.thy ===== *)
theory Session_Plan
  imports Work_Session_Steps
begin

section \<open>Planning a session's checkouts\<close>

text \<open>
  \<^verbatim>\<open>apps/api/src/sessions/application/session-plan.factory.ts\<close>: the row of each checkout, its directory and its branch.
  What GitHub answers for a repository (\<open>repositoryOf\<close>) is an argument, as is the id of the new
  checkout; the project ports are not modelled. \<open>plan_checkouts\<close> is the loop of the handler that
  creates a session, over \<open>input.checkouts\<close>.
\<close>

record github_repository =
  repository_full_name :: string
  repository_id :: int
  repository_default_branch :: string

record checkout_input =
  input_installation :: string
  input_base_branch :: "string option"

datatype plan_error =
    PlanInvalid domain_error
  | CheckoutNamesExhausted string
  | CheckoutNotFound int

definition attach_planned_checkout ::
  "string \<Rightarrow> date \<Rightarrow> github_repository \<Rightarrow> checkout_input \<Rightarrow> work_session \<Rightarrow>
     plan_error + (session_checkout \<times> work_session)" where
  "attach_planned_checkout uuid now repository input w =
     (case checkout_directory_name (repository_full_name repository)
             (string_of_int (repository_id repository)) (used_directory_names w) of
        None \<Rightarrow> Inl (CheckoutNamesExhausted (repository_full_name repository))
      | Some directory \<Rightarrow>
          (if directory = [] then Inl (CheckoutNamesExhausted (repository_full_name repository))
           else
             (case create_new_checkout uuid
                     \<lparr>create_organization = ws_organization_id w, create_session = ws_id w,
                      create_installation = input_installation input,
                      create_github_repo = string_of_int (repository_id repository),
                      create_full_name = repository_full_name repository,
                      create_directory = directory,
                      create_base_branch =
                        (case input_base_branch input of
                           None \<Rightarrow> repository_default_branch repository | Some b \<Rightarrow> b),
                      create_branch =
                        (case ws_branch w of None \<Rightarrow> session_branch_name (ws_slug w) | Some b \<Rightarrow> b),
                      create_mode = None\<rparr> of
                Inl e \<Rightarrow> Inl (PlanInvalid e)
              | Inr c \<Rightarrow>
                  (case attach_checkout now c w of
                     Inl e \<Rightarrow> Inl (PlanInvalid e)
                   | Inr w' \<Rightarrow> Inr (c, w')))))"

fun plan_checkouts ::
  "date \<Rightarrow> (string \<times> github_repository \<times> checkout_input) list \<Rightarrow> work_session \<Rightarrow>
     plan_error + work_session" where
  "plan_checkouts now [] w = Inr w"
| "plan_checkouts now ((uuid, repository, input) # rest) w =
     (case attach_planned_checkout uuid now repository input w of
        Inl e \<Rightarrow> Inl e
      | Inr (c, w') \<Rightarrow> plan_checkouts now rest w')"

text \<open>The agent's first directory: the checkout of the repository named, or the first live one.\<close>

definition cwd_checkout_id_for :: "work_session \<Rightarrow> int option \<Rightarrow> plan_error + string option" where
  "cwd_checkout_id_for w named =
     (let checkouts = live_checkouts w in
      case named of
        None \<Rightarrow> Inr (case checkouts of [] \<Rightarrow> None | c # _ \<Rightarrow> Some (checkout_id c))
      | Some i \<Rightarrow>
          (case find (\<lambda>c. checkout_github_repo c = string_of_int i) checkouts of
             None \<Rightarrow> Inl (CheckoutNotFound i)
           | Some c \<Rightarrow> Inr (Some (checkout_id c))))"

definition cloud_source_of :: "github_repository \<Rightarrow> checkout_input \<Rightarrow> string \<times> string" where
  "cloud_source_of repository input =
     (''https://github.com/'' @ repository_full_name repository,
      case input_base_branch input of None \<Rightarrow> repository_default_branch repository | Some b \<Rightarrow> b)"

subsection \<open>What a planned session keeps\<close>

text \<open>Its directories are its own and its checkouts are on one branch, the session's.\<close>

definition planned :: "work_session \<Rightarrow> bool" where
  "planned w \<longleftrightarrow>
     distinct (used_directory_names w) \<and>
     (\<forall>c \<in> set (ws_checkouts w). checkout_branch c = session_branch_name (ws_slug w) \<and> checkout_directory c \<noteq> [])"

lemma attach_planned_checkout_row:
  assumes "attach_planned_checkout uuid now repository input w = Inr (c, w')"
  shows "checkout_id c = uuid \<and> checkout_directory c \<noteq> [] \<and>
    checkout_directory c \<notin> set (used_directory_names w) \<and>
    checkout_branch c = (case ws_branch w of None \<Rightarrow> session_branch_name (ws_slug w) | Some b \<Rightarrow> b) \<and>
    attach_checkout now c w = Inr w'"
  using assms checkout_directory_name_fresh
  by (fastforce simp: attach_planned_checkout_def create_new_checkout_def Let_def
      split: option.splits if_splits sum.splits)

lemma planned_branch: "planned w \<Longrightarrow> ws_branch w = Some b \<Longrightarrow> b = session_branch_name (ws_slug w)"
  by (auto simp: planned_def ws_branch_def split: list.splits)

lemma attach_planned_checkout_planned:
  assumes "planned w" "attach_planned_checkout uuid now repository input w = Inr (c, w')"
  shows "planned w' \<and> ws_slug w' = ws_slug w"
proof -
  note row = attach_planned_checkout_row [OF assms(2)]
  have "checkout_branch c = session_branch_name (ws_slug w)"
    using row planned_branch [OF assms(1)] by (auto split: option.splits)
  with row assms(1) show ?thesis
    by (auto simp: attach_checkout_def planned_def used_directory_names_def split: if_splits)
qed

lemma plan_checkouts_planned:
  "planned w \<Longrightarrow> plan_checkouts now inputs w = Inr w' \<Longrightarrow> planned w' \<and> ws_slug w' = ws_slug w"
proof (induction now inputs w rule: plan_checkouts.induct)
  case (2 now uuid repository input rest w)
  then obtain c w1 where w1: "attach_planned_checkout uuid now repository input w = Inr (c, w1)"
    "plan_checkouts now rest w1 = Inr w'"
    by (auto split: sum.splits)
  with 2 attach_planned_checkout_planned [OF 2(2) w1(1)] show ?case by auto
qed simp

lemma plan_checkouts_op:
  "plan_checkouts now inputs w = Inr w' \<Longrightarrow> session_op\<^sup>*\<^sup>* w w'"
proof (induction now inputs w rule: plan_checkouts.induct)
  case (2 now uuid repository input rest w)
  then obtain c w1 where w1: "attach_planned_checkout uuid now repository input w = Inr (c, w1)"
    "plan_checkouts now rest w1 = Inr w'"
    by (auto split: sum.splits)
  have "session_op w w1"
    using attach_planned_checkout_row [OF w1(1)] session_op.attach by blast
  moreover have "session_op\<^sup>*\<^sup>* w1 w'" using 2 w1 by simp
  ultimately show ?case by (rule converse_rtranclp_into_rtranclp)
qed simp

lemma live_checkouts_set: "set (live_checkouts w) = {c \<in> set (ws_checkouts w). \<not> checkout_is_removed c}"
  by (auto simp: live_checkouts_def)

lemma cwd_checkout_live:
  assumes "cwd_checkout_id_for w named = Inr (Some i)"
  shows "\<exists>c \<in> set (ws_checkouts w). checkout_id c = i \<and> \<not> checkout_is_removed c"
proof -
  obtain c where "c \<in> set (live_checkouts w)" "checkout_id c = i"
    using assms find_SomeD
    by (fastforce simp: cwd_checkout_id_for_def Let_def split: option.splits list.splits)
  then show ?thesis by (auto simp: live_checkouts_set)
qed

end
