(* ===== verification/Runner_Refusal.thy ===== *)
theory Runner_Refusal
  imports Session_State
begin

section \<open>Whether a host's runner can take a launch\<close>

text \<open>
  \<^verbatim>\<open>apps/api/src/sessions/domain/runner-refusal.policy.ts\<close>. A runner capability is its name on the wire; an entry of
  the error catalog (\<^verbatim>\<open>sessions.errors.ts\<close>) is a constructor of \<open>runner_error\<close>.
\<close>

datatype runner_error =
    AgentUnsupportedByRunner
  | FolderUnsupportedByRunner
  | CloudUnsupportedByRunner
  | TeleportUnsupportedByRunner

record runner_launch =
  launch_of_agent :: string
  launch_of_place :: session_place
  launch_of_teleport :: "string option"

record runner_knowledge =
  probed_tools :: "string list option"
  runner_capabilities :: "string list option"

definition host_cloud_capability :: "string \<Rightarrow> string option" where
  "host_cloud_capability agent =
     map_of [(''claude-code'', ''session.cloud''), (''codex'', ''session.cloud.codex'')] agent"

definition runner_can_start :: "string \<Rightarrow> string list option \<Rightarrow> bool" where
  "runner_can_start agent probed =
     (case (probed, coding_agent_of agent) of
        (Some tools, Some d) \<Rightarrow> agent_command d = [] \<or> agent_command d \<in> set tools
      | _ \<Rightarrow> True)"

record runner_need =
  need_capability :: "string option"
  need_refusal :: runner_error

definition launch_needs :: "runner_launch \<Rightarrow> runner_need list" where
  "launch_needs l =
     (if launch_of_place l = PlaceFolder
      then [\<lparr>need_capability = Some ''session.folder'', need_refusal = FolderUnsupportedByRunner\<rparr>]
      else []) @
     (if launch_of_place l = PlaceCloud
      then [\<lparr>need_capability =
               (if is_host_cloud_agent (launch_of_agent l)
                then host_cloud_capability (launch_of_agent l) else None),
             need_refusal = CloudUnsupportedByRunner\<rparr>]
      else []) @
     (if launch_of_teleport l \<notin> {None, Some []}
      then [\<lparr>need_capability = Some ''session.teleport'', need_refusal = TeleportUnsupportedByRunner\<rparr>]
      else [])"

definition unmet_need :: "runner_launch \<Rightarrow> string list \<Rightarrow> runner_need option" where
  "unmet_need l capabilities =
     find (\<lambda>n. case need_capability n of None \<Rightarrow> True | Some c \<Rightarrow> c \<notin> set capabilities)
       (launch_needs l)"

definition runner_takes_place :: "runner_launch \<Rightarrow> string list \<Rightarrow> bool" where
  "runner_takes_place l capabilities = (unmet_need l capabilities = None)"

definition runner_refusal :: "runner_launch \<Rightarrow> runner_knowledge \<Rightarrow> runner_error option" where
  "runner_refusal l k =
     (if \<not> runner_can_start (launch_of_agent l) (probed_tools k) then Some AgentUnsupportedByRunner
      else (case runner_capabilities k of
              None \<Rightarrow> None
            | Some cs \<Rightarrow> map_option need_refusal (unmet_need l cs)))"

lemma runner_refusal_linked:
  "runner_refusal l \<lparr>probed_tools = p, runner_capabilities = Some cs\<rparr> = None \<longleftrightarrow>
     runner_can_start (launch_of_agent l) p \<and> runner_takes_place l cs"
  by (simp add: runner_refusal_def runner_takes_place_def)

lemma runner_takes_place_mono:
  "set cs \<subseteq> set cs' \<Longrightarrow> runner_takes_place l cs \<Longrightarrow> runner_takes_place l cs'"
  by (auto simp: runner_takes_place_def unmet_need_def find_None_iff split: option.splits)

text \<open>Everything a launch demands, spelled out.\<close>

lemma runner_takes_place_iff:
  "runner_takes_place l cs \<longleftrightarrow>
     (launch_of_place l = PlaceFolder \<longrightarrow> ''session.folder'' \<in> set cs) \<and>
     (launch_of_place l = PlaceCloud \<longrightarrow>
        (\<exists>c. host_cloud_capability (launch_of_agent l) = Some c \<and> c \<in> set cs)) \<and>
     (launch_of_teleport l \<notin> {None, Some []} \<longrightarrow> ''session.teleport'' \<in> set cs)"
proof -
  have cap: "is_host_cloud_agent a \<longleftrightarrow> host_cloud_capability a \<noteq> None" for a
    by (simp add: host_cloud_capability_def is_host_cloud_agent_def)
  show ?thesis
    by (cases "launch_of_place l"; cases "launch_of_teleport l \<notin> {None, Some []}";
        cases "host_cloud_capability (launch_of_agent l)")
      (simp_all add: runner_takes_place_def unmet_need_def launch_needs_def cap)
qed

end
