(* ===== verification/Session_Decision.thy ===== *)
theory Session_Decision
  imports Session_Schemas Domain_Base
begin

section \<open>Answering a decision\<close>

text \<open>
  \<^verbatim>\<open>apps/api/src/sessions/domain/session-decision.policy.ts\<close> and \<^verbatim>\<open>packages/shared/src/sessions/question-keys.ts\<close>: whether an answer fits
  the decision a session waits on, and the keys that give it to the agent. The lemmas show that
  keys come out exactly for a fitting answer, and that those keys, read by the picker they are typed
  into, are that answer.
\<close>

subsection \<open>Keys\<close>

definition key_down :: string where "key_down = [CHR 0x1B, CHR ''['', CHR ''B'']"
definition key_enter :: string where "key_enter = [CHR 0x0D]"

text \<open>
  \<^verbatim>\<open>text.replace(/\s*\n\s*/g, ' ')\<close>: a maximal run of blanks that holds a newline becomes one space.
\<close>

function newlines_to_space :: "string \<Rightarrow> string" where
  "newlines_to_space [] = []"
| "newlines_to_space (c # cs) =
     (if js_space c
      then (if CHR 0x0A \<in> set (takeWhile js_space (c # cs)) then '' '' else takeWhile js_space (c # cs)) @
           newlines_to_space (dropWhile js_space cs)
      else c # newlines_to_space cs)"
  by pat_completeness auto
termination
  by (relation "measure length") (auto simp: le_imp_less_Suc length_dropWhile_le)

definition own_words :: "decision_answer_item \<Rightarrow> string option" where
  "own_words a =
     (case item_other a of None \<Rightarrow> None
      | Some w \<Rightarrow> (let t = js_trim (newlines_to_space w) in if t = [] then None else Some t))"

definition single_choice_keys :: "nat \<Rightarrow> decision_answer_item \<Rightarrow> string list" where
  "single_choice_keys count a =
     (case own_words a of
        Some w \<Rightarrow> [string_of_int (int (count + 1)), w, key_enter]
      | None \<Rightarrow>
          [string_of_int (int ((case item_picks a of [] \<Rightarrow> 0 | p # _ \<Rightarrow> p) + 1))])"

definition multi_choice_keys :: "nat \<Rightarrow> decision_answer_item \<Rightarrow> string list" where
  "multi_choice_keys count a =
     map (\<lambda>p. string_of_int (int (p + 1))) (item_picks a) @
     (case own_words a of
        Some w \<Rightarrow> replicate count key_down @ [w, key_down]
      | None \<Rightarrow> replicate (count + 1) key_down) @ [key_enter]"

definition no_answer :: decision_answer_item where
  "no_answer = \<lparr>item_picks = [], item_other = None\<rparr>"

fun each_question_keys :: "decision_question list \<Rightarrow> decision_answer_item list \<Rightarrow> string list" where
  "each_question_keys [] as = []"
| "each_question_keys (q # qs) as =
     (let a = (case as of [] \<Rightarrow> no_answer | x # _ \<Rightarrow> x); count = length (question_options q) in
      (if multi_select q then multi_choice_keys count a else single_choice_keys count a) @
      each_question_keys qs (tl as))"

definition question_keys :: "decision_question list \<Rightarrow> decision_answer_item list \<Rightarrow> string list" where
  "question_keys qs as =
     each_question_keys qs as @
     (if 1 < length qs \<or> (case qs of [] \<Rightarrow> False | q # _ \<Rightarrow> multi_select q) then [''1''] else [])"

definition permission_keys :: "nat \<Rightarrow> string list" where
  "permission_keys opt = [string_of_int (int (opt + 1))]"

subsection \<open>Whether the answer fits\<close>

datatype decision_outcome = Keys "string list" | Stale string | Invalid string

definition question_problem :: "nat \<Rightarrow> decision_question \<Rightarrow> decision_answer_item \<Rightarrow> string option" where
  "question_problem index q item =
     (let own = (case item_other item of None \<Rightarrow> 0 | Some w \<Rightarrow> if nonblank w then 1 else 0) :: nat;
          n = string_of_int (int (index + 1)); count = length (question_options q)
      in if list_ex (\<lambda>p. count \<le> p) (item_picks item)
         then Some (''Question '' @ n @ '' has '' @ string_of_int (int count) @ '' options.'')
         else if \<not> distinct (item_picks item)
         then Some (''Question '' @ n @ '' names an option twice.'')
         else if \<not> multi_select q \<and> length (item_picks item) + own \<noteq> 1
         then Some (''Question '' @ n @ '' takes one option or an answer of your own.'')
         else if multi_select q \<and> length (item_picks item) + own = 0
         then Some (''Question '' @ n @ '' has no answer.'')
         else None)"

fun first_problem :: "nat \<Rightarrow> decision_question list \<Rightarrow> decision_answer_item list \<Rightarrow> string option" where
  "first_problem index [] items = None"
| "first_problem index (q # qs) [] =
     Some (''Question '' @ string_of_int (int (index + 1)) @ '' has no answer.'')"
| "first_problem index (q # qs) (item # items) =
     (case question_problem index q item of
        Some p \<Rightarrow> Some p
      | None \<Rightarrow> first_problem (index + 1) qs items)"

definition decision_answer_keys ::
  "session_decision option \<Rightarrow> answer_session_decision \<Rightarrow> decision_outcome" where
  "decision_answer_keys pending answer =
     (case pending of
        None \<Rightarrow> Stale ''The session waits on no decision now.''
      | Some d \<Rightarrow>
          (if decision_id d \<noteq> answer_id answer
           then Stale ''The session now waits on another decision.''
           else (case d of
             PermissionDecision i t dt os \<Rightarrow>
               (case answer_option answer of
                  None \<Rightarrow> Invalid ''A permission dialog is answered with an option.''
                | Some opt \<Rightarrow>
                    (if length os \<le> opt
                     then Invalid (''The dialog has '' @ string_of_int (int (length os)) @ '' options.'')
                     else Keys (permission_keys opt)))
           | QuestionDecision i qs \<Rightarrow>
               (case answer_items answer of
                  None \<Rightarrow> Invalid ''A question is answered with one answer each.''
                | Some items \<Rightarrow>
                    (if length items \<noteq> length qs
                     then Invalid (''It asks '' @ string_of_int (int (length qs)) @ '' questions.'')
                     else (case first_problem 0 qs items of
                             Some p \<Rightarrow> Invalid p
                           | None \<Rightarrow> Keys (question_keys qs items)))))))"

subsection \<open>What a fitting answer is\<close>

text \<open>The rule the code checks question by question, stated of the whole answer.\<close>

definition item_fits :: "decision_question \<Rightarrow> decision_answer_item \<Rightarrow> bool" where
  "item_fits q item \<longleftrightarrow>
     (\<forall>p \<in> set (item_picks item). p < length (question_options q)) \<and>
     distinct (item_picks item) \<and>
     (let own = (\<exists>w. item_other item = Some w \<and> nonblank w) in
      if multi_select q then item_picks item \<noteq> [] \<or> own
      else (length (item_picks item) = 1 \<and> \<not> own) \<or> (item_picks item = [] \<and> own))"

definition answer_fits :: "session_decision \<Rightarrow> answer_session_decision \<Rightarrow> bool" where
  "answer_fits d answer \<longleftrightarrow>
     decision_id d = answer_id answer \<and>
     (case d of
        PermissionDecision i t dt os \<Rightarrow> (\<exists>opt. answer_option answer = Some opt \<and> opt < length os)
      | QuestionDecision i qs \<Rightarrow>
          (\<exists>items. answer_items answer = Some items \<and> list_all2 item_fits qs items))"

lemma question_problem_None: "question_problem index q item = None \<longleftrightarrow> item_fits q item"
  by (auto simp: question_problem_def item_fits_def Let_def list_ex_iff not_le not_less le_Suc_eq
      split: option.splits)

lemma first_problem_None:
  "first_problem index qs items = None \<longleftrightarrow> (\<exists>used rest. items = used @ rest \<and> list_all2 item_fits qs used)"
proof (induction index qs items rule: first_problem.induct)
  case (3 index q qs item items)
  then show ?case
    by (auto simp: question_problem_None list_all2_Cons1 Cons_eq_append_conv split: option.split)
      (metis question_problem_None option.distinct(1))+
qed (auto simp: list_all2_Cons1)

lemma first_problem_None_length:
  assumes "length items = length qs"
  shows "first_problem index qs items = None \<longleftrightarrow> list_all2 item_fits qs items"
proof
  assume "first_problem index qs items = None"
  then obtain used rest where "items = used @ rest" "list_all2 item_fits qs used"
    by (auto simp: first_problem_None)
  moreover from this have "rest = []"
    using assms by (auto dest: list_all2_lengthD)
  ultimately show "list_all2 item_fits qs items" by simp
next
  assume "list_all2 item_fits qs items"
  then show "first_problem index qs items = None"
    unfolding first_problem_None by (metis append_Nil2)
qed

lemma decision_answer_keys_fits:
  "(\<exists>ks. decision_answer_keys (Some d) answer = Keys ks) \<longleftrightarrow> answer_fits d answer"
proof (cases d)
  case (QuestionDecision i qs)
  show ?thesis
  proof (cases "answer_items answer")
    case (Some items)
    show ?thesis
    proof (cases "length items = length qs")
      case True
      then show ?thesis
        using QuestionDecision Some first_problem_None_length [OF True, of 0]
        by (auto simp: decision_answer_keys_def answer_fits_def split: option.splits)
    next
      case False
      then show ?thesis
        using QuestionDecision Some
        by (auto simp: decision_answer_keys_def answer_fits_def dest: list_all2_lengthD)
    qed
  qed (simp add: QuestionDecision decision_answer_keys_def answer_fits_def)
qed (auto simp: decision_answer_keys_def answer_fits_def split: option.splits)

subsection \<open>Words of one's own\<close>

lemma newlines_to_space_nonblank: "nonblank (newlines_to_space s) \<longleftrightarrow> nonblank s"
proof (induction s rule: newlines_to_space.induct)
  case (2 c cs)
  have split: "set cs = set (takeWhile js_space cs) \<union> set (dropWhile js_space cs)"
    by (metis set_append takeWhile_dropWhile_id)
  have blank: "\<And>x. x \<in> set (takeWhile js_space cs) \<Longrightarrow> js_space x" "js_space (CHR '' '')"
    by (auto dest: set_takeWhileD simp: js_space_def)
  show ?case
  proof (cases "js_space c")
    case True
    with 2 have "nonblank (newlines_to_space (dropWhile js_space cs)) \<longleftrightarrow> nonblank (dropWhile js_space cs)"
      by simp
    with True blank show ?thesis by (auto simp: nonblank_iff split)
  qed (use 2 in \<open>auto simp: nonblank_iff\<close>)
qed simp

lemma own_words_None: "own_words a = None \<longleftrightarrow> \<not> (\<exists>w. item_other a = Some w \<and> nonblank w)"
  using newlines_to_space_nonblank
  by (auto simp: own_words_def Let_def nonblank_def split: option.splits)

lemma newlines_to_space_no_newline: "CHR 0x0A \<notin> set (newlines_to_space s)"
proof (induction s rule: newlines_to_space.induct)
  case (2 c cs)
  show ?case
  proof (cases "js_space c")
    case True
    with 2 show ?thesis by (simp split: if_splits)
  next
    case False
    then have "c \<noteq> CHR 0x0A" by (auto simp: js_space_def)
    with False 2 show ?thesis by simp
  qed
qed simp

lemma own_words_no_newline: "own_words a = Some w \<Longrightarrow> CHR 0x0A \<notin> set w"
  using newlines_to_space_no_newline js_trim_subset
  by (fastforce simp: own_words_def Let_def split: option.splits if_splits)

subsection \<open>What the keys mean\<close>

text \<open>
  The picker that reads the keys, as the comment of \<^verbatim>\<open>questionKeys\<close> describes it: every question opens with
  the cursor on its first option. Of a single choice an option's number picks it and moves on, and the
  number after the last option is the row of the person's own words, ended by Enter. Of several choices a
  number ticks its option and leaves the cursor; Down leads to the row of the own words and from there to
  Submit, where Enter moves on. Then the review, unless the only question was a single choice. A key the
  description gives no meaning to, or to an option that is ticked already, is read as \<open>None\<close>. This is a
  specification of what is typed, not code of the repository.
\<close>

record picker =
  pick_left :: "decision_question list"
  pick_review :: bool
  pick_ticks :: "nat list"
  pick_words :: "string option"
  pick_cursor :: nat
  pick_read :: "(nat list \<times> string option) list"
  pick_sent :: bool

definition digit_of :: "string \<Rightarrow> nat option" where
  "digit_of key = (case key of [c] \<Rightarrow> if is_digit c then Some (of_char c - 48) else None | _ \<Rightarrow> None)"

text \<open>Words that are typed as words: a newline or a carriage return in them is Enter, and Escape begins a key.\<close>

definition typed_as_words :: "string \<Rightarrow> bool" where
  "typed_as_words w \<longleftrightarrow> w \<noteq> [] \<and> CHR 0x0A \<notin> set w \<and> CHR 0x0D \<notin> set w \<and> CHR 0x1B \<notin> set w"

definition moved_on :: "nat list \<times> string option \<Rightarrow> picker \<Rightarrow> picker" where
  "moved_on answer p =
     p\<lparr>pick_left := tl (pick_left p), pick_ticks := [], pick_words := None, pick_cursor := 0,
       pick_read := pick_read p @ [answer], pick_sent := tl (pick_left p) = [] \<and> \<not> pick_review p\<rparr>"

definition press_option :: "decision_question \<Rightarrow> nat \<Rightarrow> picker \<Rightarrow> picker option" where
  "press_option q d p =
     (let rows = length (question_options q) in
      if d = 0 \<or> rows + 1 < d then None
      else if d \<le> rows
      then (if \<not> multi_select q then Some (moved_on ([d - 1], None) p)
            else if d - 1 \<in> set (pick_ticks p) then None
            else Some (p\<lparr>pick_ticks := pick_ticks p @ [d - 1]\<rparr>))
      else if multi_select q then None else Some (p\<lparr>pick_cursor := rows\<rparr>))"

definition press :: "string \<Rightarrow> picker \<Rightarrow> picker option" where
  "press key p =
     (if pick_sent p then None
      else case pick_left p of
        [] \<Rightarrow> if digit_of key = Some 1 then Some (p\<lparr>pick_sent := True\<rparr>) else None
      | q # _ \<Rightarrow>
          (let rows = length (question_options q) in
           if key = key_down
           then (if multi_select q \<and> pick_cursor p \<le> rows then Some (p\<lparr>pick_cursor := pick_cursor p + 1\<rparr>) else None)
           else if key = key_enter
           then (if multi_select q
                 then (if pick_cursor p = rows + 1 then Some (moved_on (pick_ticks p, pick_words p) p) else None)
                 else if pick_words p \<noteq> None then Some (moved_on ([], pick_words p) p) else None)
           else if pick_cursor p < rows
           then (case digit_of key of None \<Rightarrow> None | Some d \<Rightarrow> press_option q d p)
           else if pick_cursor p = rows \<and> pick_words p = None \<and> typed_as_words key
           then Some (p\<lparr>pick_words := Some key\<rparr>)
           else None))"

fun press_all :: "string list \<Rightarrow> picker \<Rightarrow> picker option" where
  "press_all [] p = Some p"
| "press_all (key # keys) p = Option.bind (press key p) (press_all keys)"

definition open_picker :: "decision_question list \<Rightarrow> picker" where
  "open_picker qs =
     \<lparr>pick_left = qs, pick_review = (length qs \<noteq> 1 \<or> multi_select (hd qs)), pick_ticks = [], pick_words = None,
      pick_cursor = 0, pick_read = [], pick_sent = False\<rparr>"

datatype dialog_reading = Read_option nat | Read_answers "(nat list \<times> string option) list"

definition read_keys :: "session_decision \<Rightarrow> string list \<Rightarrow> dialog_reading option" where
  "read_keys d keys =
     (case d of
        PermissionDecision i t dt os \<Rightarrow>
          (case keys of
             [key] \<Rightarrow> (case digit_of key of
                         Some n \<Rightarrow> if n = 0 \<or> length os < n then None else Some (Read_option (n - 1))
                       | None \<Rightarrow> None)
           | _ \<Rightarrow> None)
      | QuestionDecision i qs \<Rightarrow>
          (case press_all keys (open_picker qs) of
             Some p \<Rightarrow> if pick_sent p then Some (Read_answers (pick_read p)) else None
           | None \<Rightarrow> None))"

text \<open>What the person answered: the option, or for each question the options picked and the own words.\<close>

definition reading_meant :: "session_decision \<Rightarrow> answer_session_decision \<Rightarrow> dialog_reading option" where
  "reading_meant d answer =
     (case d of
        PermissionDecision i t dt os \<Rightarrow> map_option Read_option (answer_option answer)
      | QuestionDecision i qs \<Rightarrow>
          map_option (\<lambda>items. Read_answers (map (\<lambda>a. (item_picks a, own_words a)) items)) (answer_items answer))"

subsection \<open>What is typed is read as it was meant\<close>

lemma digit_string: "n < 10 \<Longrightarrow> string_of_int (int n) = [char_of (48 + n)]"
  by (simp add: string_of_int_def digits_of.simps)

lemma digit_of_string: "n < 10 \<Longrightarrow> digit_of (string_of_int (int n)) = Some n"
  by (simp add: digit_string digit_of_def is_digit_def char_between_def)

lemma digit_keys: "digit_of key_down = None" "digit_of key_enter = None" "digit_of ''1'' = Some 1"
  "key_enter \<noteq> key_down"
  by (simp_all add: digit_of_def key_down_def key_enter_def is_digit_def char_between_def)

lemma digit_neq: "n < 10 \<Longrightarrow> string_of_int (int n) \<noteq> key_down \<and> string_of_int (int n) \<noteq> key_enter"
  using digit_of_string digit_keys(1,2) by fastforce

lemma press_all_append: "press_all (ks @ ls) p = Option.bind (press_all ks p) (press_all ls)"
  by (induction ks arbitrary: p) (simp_all split: Option.bind_split)

text \<open>The question the picker shows, and where it stands.\<close>

definition shows_question :: "decision_question \<Rightarrow> picker \<Rightarrow> bool" where
  "shows_question q p \<longleftrightarrow> \<not> pick_sent p \<and> (\<exists>qs. pick_left p = q # qs)"

lemma press_digit:
  assumes "shows_question q p" "pick_cursor p < length (question_options q)" "n < 10"
  shows "press (string_of_int (int n)) p = press_option q n p"
proof -
  obtain qs where "pick_left p = q # qs" "\<not> pick_sent p" using assms(1) by (auto simp: shows_question_def)
  then show ?thesis
    using assms(2) digit_neq [OF assms(3)] digit_of_string [OF assms(3)] unfolding press_def by (simp del: One_nat_def)
qed

lemma press_ticks:
  assumes "shows_question q p" "multi_select q" "pick_cursor p < length (question_options q)"
    and "length (question_options q) < 9" "\<forall>i \<in> set ps. i < length (question_options q)"
    and "distinct (pick_ticks p @ ps)"
  shows "press_all (map (\<lambda>i. string_of_int (int (i + 1))) ps) p = Some (p\<lparr>pick_ticks := pick_ticks p @ ps\<rparr>)"
  using assms
proof (induction ps arbitrary: p)
  case (Cons i ps)
  have "press (string_of_int (int (i + 1))) p = press_option q (i + 1) p"
    using Cons.prems by (intro press_digit) auto
  also have "\<dots> = Some (p\<lparr>pick_ticks := pick_ticks p @ [i]\<rparr>)"
    using Cons.prems by (simp add: press_option_def)
  finally show ?case
    using Cons.IH [of "p\<lparr>pick_ticks := pick_ticks p @ [i]\<rparr>"] Cons.prems by (simp add: shows_question_def)
qed simp

lemma press_downs:
  assumes "shows_question q p" "multi_select q" "pick_cursor p + n \<le> length (question_options q) + 1"
  shows "press_all (replicate n key_down) p = Some (p\<lparr>pick_cursor := pick_cursor p + n\<rparr>)"
  using assms
proof (induction n arbitrary: p)
  case (Suc n)
  have "press key_down p = Some (p\<lparr>pick_cursor := pick_cursor p + 1\<rparr>)"
    using Suc.prems by (auto simp: press_def shows_question_def)
  then show ?case
    using Suc.IH [of "p\<lparr>pick_cursor := pick_cursor p + 1\<rparr>"] Suc.prems by (simp add: shows_question_def)
qed simp

lemma press_words:
  assumes "shows_question q p" "pick_cursor p = length (question_options q)" "pick_words p = None" "typed_as_words w"
  shows "press w p = Some (p\<lparr>pick_words := Some w\<rparr>)"
proof -
  have "w \<noteq> key_down" "w \<noteq> key_enter" using assms(4) by (auto simp: typed_as_words_def key_down_def key_enter_def)
  then show ?thesis using assms by (auto simp: shows_question_def press_def)
qed

text \<open>The words a person may type, and what is left of them.\<close>

definition types_plainly :: "decision_answer_item \<Rightarrow> bool" where
  "types_plainly a \<longleftrightarrow> (\<forall>w \<in> set_option (item_other a). CHR 0x0D \<notin> set w \<and> CHR 0x1B \<notin> set w)"

lemma newlines_to_space_subset: "set (newlines_to_space s) \<subseteq> set s \<union> {CHR '' ''}"
proof (induction s rule: newlines_to_space.induct)
  case (2 c cs)
  have "set (takeWhile js_space cs) \<subseteq> set cs" "set (dropWhile js_space cs) \<subseteq> set cs"
    by (auto dest: set_takeWhileD set_dropWhileD)
  with 2 show ?case by (cases "js_space c") auto
qed simp

lemma own_words_typed:
  assumes "types_plainly a" "own_words a = Some w"
  shows "typed_as_words w"
proof -
  obtain o' where o': "item_other a = Some o'" "w = js_trim (newlines_to_space o')" "w \<noteq> []"
    using assms(2) by (auto simp: own_words_def Let_def split: option.splits if_splits)
  have "set w \<subseteq> set o' \<union> {CHR '' ''}" using o'(2) js_trim_subset newlines_to_space_subset by blast
  moreover have "CHR 0x0D \<notin> set o' \<union> {CHR '' ''}" "CHR 0x1B \<notin> set o' \<union> {CHR '' ''}"
    using assms(1) o'(1) by (auto simp: types_plainly_def)
  ultimately show ?thesis
    using o'(3) own_words_no_newline [OF assms(2)] unfolding typed_as_words_def by blast
qed

definition fresh_picker :: "picker \<Rightarrow> bool" where
  "fresh_picker p \<longleftrightarrow> pick_ticks p = [] \<and> pick_words p = None \<and> pick_cursor p = 0"

lemma press_multi:
  assumes "shows_question q p" "fresh_picker p" "multi_select q" "bounded_question q" "item_fits q a" "types_plainly a"
  shows "press_all (multi_choice_keys (length (question_options q)) a) p = Some (moved_on (item_picks a, own_words a) p)"
proof -
  let ?n = "length (question_options q)" and ?t = "p\<lparr>pick_ticks := item_picks a\<rparr>"
  have n: "0 < ?n" "?n < 9" using assms(4) by (auto simp: bounded_question_def decision_limits_def)
  have p: "pick_ticks p = []" "pick_words p = None" "pick_cursor p = 0" using assms(2) by (simp_all add: fresh_picker_def)
  have "press_all (map (\<lambda>i. string_of_int (int (i + 1))) (item_picks a)) p = Some ?t"
    using press_ticks [OF assms(1,3), of "item_picks a"] n p assms(5) by (simp add: item_fits_def)
  moreover have t: "shows_question q ?t" using assms(1) by (simp add: shows_question_def)
  moreover have enter: "press key_enter x = Some (moved_on (pick_ticks x, pick_words x) x)"
    if "shows_question q x" "pick_cursor x = ?n + 1" for x
    using that assms(3) digit_keys(4) by (auto simp: press_def shows_question_def Let_def)
  have "press_all ((case own_words a of Some w \<Rightarrow> replicate ?n key_down @ [w, key_down]
      | None \<Rightarrow> replicate (?n + 1) key_down) @ [key_enter]) ?t = Some (moved_on (item_picks a, own_words a) p)"
  proof (cases "own_words a")
    case None
    have "press_all (replicate (?n + 1) key_down) ?t = Some (?t\<lparr>pick_cursor := ?n + 1\<rparr>)"
      using press_downs [OF t assms(3), of "?n + 1"] p by simp
    then show ?thesis using None enter [of "?t\<lparr>pick_cursor := ?n + 1\<rparr>"] t p
      by (simp add: press_all_append shows_question_def moved_on_def del: replicate.simps replicate_Suc)
  next
    case (Some w)
    let ?r = "?t\<lparr>pick_cursor := ?n\<rparr>" and ?w = "?t\<lparr>pick_cursor := ?n, pick_words := Some w\<rparr>"
    have "press_all (replicate ?n key_down) ?t = Some ?r" using press_downs [OF t assms(3), of ?n] p by simp
    moreover have "press w ?r = Some ?w"
      using press_words [of q ?r w] t p own_words_typed [OF assms(6) Some] by (simp add: shows_question_def)
    moreover have "press key_down ?w = Some (?w\<lparr>pick_cursor := ?n + 1\<rparr>)"
      using t assms(3) by (auto simp: press_def shows_question_def)
    ultimately show ?thesis using Some enter [of "?w\<lparr>pick_cursor := ?n + 1\<rparr>"] t
      by (simp add: press_all_append shows_question_def moved_on_def)
  qed
  ultimately show ?thesis by (simp add: multi_choice_keys_def press_all_append)
qed

lemma press_single:
  assumes "shows_question q p" "fresh_picker p" "\<not> multi_select q" "bounded_question q" "item_fits q a" "types_plainly a"
  shows "press_all (single_choice_keys (length (question_options q)) a) p = Some (moved_on (item_picks a, own_words a) p)"
proof -
  let ?n = "length (question_options q)"
  have n: "0 < ?n" "?n < 9" using assms(4) by (auto simp: bounded_question_def decision_limits_def)
  have p: "pick_words p = None" "pick_cursor p = 0" using assms(2) by (simp_all add: fresh_picker_def)
  show ?thesis
  proof (cases "own_words a")
    case None
    then obtain i where i: "item_picks a = [i]" "i < ?n"
      using assms(3,5) by (auto simp: item_fits_def own_words_None length_Suc_conv Let_def split: if_splits)
    have "press (string_of_int (int (i + 1))) p = press_option q (i + 1) p"
      using i n p by (intro press_digit [OF assms(1)]) auto
    then show ?thesis using None i assms(3) by (simp add: single_choice_keys_def press_option_def)
  next
    case (Some w)
    then have none: "item_picks a = []"
      using assms(3,5) own_words_None [of a] by (auto simp: item_fits_def Let_def split: if_splits)
    let ?r = "p\<lparr>pick_cursor := ?n\<rparr>" and ?w = "p\<lparr>pick_cursor := ?n, pick_words := Some w\<rparr>"
    have "press (string_of_int (int (?n + 1))) p = press_option q (?n + 1) p"
      using n p by (intro press_digit [OF assms(1)]) auto
    then have "press (string_of_int (int (?n + 1))) p = Some ?r" using assms(3) by (simp add: press_option_def)
    moreover have "press w ?r = Some ?w"
      using press_words [of q ?r w] assms(1) p own_words_typed [OF assms(6) Some] by (simp add: shows_question_def)
    moreover have "press key_enter ?w = Some (moved_on ([], Some w) ?w)"
      using assms(1,3) digit_keys(4) by (auto simp: press_def shows_question_def)
    ultimately show ?thesis using Some none by (simp add: single_choice_keys_def moved_on_def)
  qed
qed

lemma press_questions:
  assumes "list_all2 item_fits qs as" "list_all bounded_question qs" "list_all types_plainly as"
    and "pick_left p = qs" "qs \<noteq> []" "fresh_picker p" "\<not> pick_sent p"
  shows "press_all (each_question_keys qs as) p = Some (p\<lparr>pick_left := [],
    pick_read := pick_read p @ map (\<lambda>a. (item_picks a, own_words a)) as, pick_sent := \<not> pick_review p\<rparr>)"
  using assms
proof (induction qs as arbitrary: p rule: list_all2_induct)
  case (Cons q qs a as)
  let ?m = "moved_on (item_picks a, own_words a) p"
  have shown: "shows_question q p" using Cons.prems by (simp add: shows_question_def)
  have one: "press_all (if multi_select q then multi_choice_keys (length (question_options q)) a
      else single_choice_keys (length (question_options q)) a) p = Some ?m"
    using press_multi [OF shown] press_single [OF shown] Cons by simp
  have m: "pick_left ?m = qs" "fresh_picker ?m" "pick_sent ?m \<longleftrightarrow> qs = [] \<and> \<not> pick_review p"
    "pick_review ?m = pick_review p" "pick_read ?m = pick_read p @ [(item_picks a, own_words a)]"
    using Cons.prems by (simp_all add: moved_on_def fresh_picker_def)
  show ?case
  proof (cases "qs = []")
    case True
    then have "as = []" using Cons.hyps(2) by simp
    then show ?thesis using True one Cons.prems(3,5)
      by (simp add: Let_def press_all_append moved_on_def fresh_picker_def)
  next
    case False
    have "press_all (each_question_keys qs as) ?m = Some (?m\<lparr>pick_left := [],
        pick_read := pick_read ?m @ map (\<lambda>a. (item_picks a, own_words a)) as, pick_sent := \<not> pick_review ?m\<rparr>)"
      using Cons.IH [of ?m] Cons.prems m False by simp
    then show ?thesis using one Cons.prems(5) m
      by (simp add: Let_def press_all_append) (simp add: moved_on_def fresh_picker_def)
  qed
qed simp

lemma question_keys_read:
  assumes "list_all2 item_fits qs as" "list_all bounded_question qs" "list_all types_plainly as" "qs \<noteq> []"
  shows "\<exists>p. press_all (question_keys qs as) (open_picker qs) = Some p \<and> pick_sent p \<and>
    pick_read p = map (\<lambda>a. (item_picks a, own_words a)) as"
proof -
  have all: "press_all (each_question_keys qs as) (open_picker qs) = Some ((open_picker qs)\<lparr>pick_left := [],
      pick_read := pick_read (open_picker qs) @ map (\<lambda>a. (item_picks a, own_words a)) as,
      pick_sent := \<not> pick_review (open_picker qs)\<rparr>)"
    by (rule press_questions [OF assms(1-3)]) (use assms(4) in \<open>simp_all add: open_picker_def fresh_picker_def\<close>)
  have review: "pick_review (open_picker qs) \<longleftrightarrow> 1 < length qs \<or> (case qs of [] \<Rightarrow> False | q # _ \<Rightarrow> multi_select q)"
    using assms(4) by (cases qs) (auto simp: open_picker_def)
  show ?thesis
    using all review by (auto simp: question_keys_def press_all_append press_def digit_keys(3) open_picker_def)
qed

text \<open>The keys of an answer, read by the dialog they are typed into, are the answer.\<close>

lemma decision_keys_read:
  assumes "bounded_decision d" "decision_answer_keys (Some d) answer = Keys keys"
    and "\<forall>items \<in> set_option (answer_items answer). list_all types_plainly items"
  shows "read_keys d keys = reading_meant d answer \<and> reading_meant d answer \<noteq> None \<and> decision_id d = answer_id answer"
proof -
  have fits: "answer_fits d answer" using assms(2) decision_answer_keys_fits by blast
  have known: "decision_id d = answer_id answer" using fits by (simp add: answer_fits_def)
  show ?thesis
  proof (cases d)
    case (PermissionDecision i t dt os)
    then obtain opt where opt: "answer_option answer = Some opt" "opt < length os" "length os \<le> 9"
      using fits assms(1) by (auto simp: answer_fits_def bounded_decision_def decision_limits_def)
    have "keys = [string_of_int (int (opt + 1))]"
      using PermissionDecision opt assms(2) known by (simp add: decision_answer_keys_def permission_keys_def split: if_splits)
    moreover have "digit_of (string_of_int (int (opt + 1))) = Some (opt + 1)" using opt by (intro digit_of_string) simp
    ultimately show ?thesis using PermissionDecision opt known by (simp add: read_keys_def reading_meant_def)
  next
    case (QuestionDecision i qs)
    then obtain items where items: "answer_items answer = Some items" "list_all2 item_fits qs items"
      using fits by (auto simp: answer_fits_def)
    have qs: "list_all bounded_question qs" "qs \<noteq> []" using assms(1) QuestionDecision by (simp_all add: bounded_decision_def)
    have "keys = question_keys qs items"
      using QuestionDecision items assms(2) by (auto simp: decision_answer_keys_def split: if_splits option.splits)
    with question_keys_read [OF items(2) qs(1) _ qs(2)] items(1) assms(3) QuestionDecision known
    show ?thesis by (auto simp: read_keys_def reading_meant_def)
  qed
qed

end
