(* ===== verification/Session_Wake.thy ===== *)
theory Session_Wake
  imports Session_Schemas "HOL-Library.Sublist"
begin

section \<open>Waking a session\<close>

text \<open>
  \<^verbatim>\<open>apps/api/src/sessions/domain/session-wake.policy.ts\<close>, less the words of a GitHub event: the frame a line is
  typed in, the ids of wakes and when one is due. What \<open>Date.parse\<close> reads of the time asked for is
  an argument. The lemmas show when a wake is due, and what the frame does with its own closing
  tag inside the body: it takes out each occurrence it finds in one pass.
\<close>

text \<open>\<open>s.replaceAll(pattern, '')\<close>, for a pattern that is not empty.\<close>

function remove_all :: "string \<Rightarrow> string \<Rightarrow> string" where
  "remove_all pat [] = []"
| "remove_all pat (c # cs) =
     (if pat \<noteq> [] \<and> prefix pat (c # cs) then remove_all pat (drop (length pat) (c # cs))
      else c # remove_all pat cs)"
  by pat_completeness auto
termination
  by (relation "measure (\<lambda>(pat, s). length s)") auto

definition frame_end :: string where
  "frame_end = ''</oppenheimer>''"

definition host_frame :: "(string \<times> string) list \<Rightarrow> string \<Rightarrow> string" where
  "host_frame attributes body =
     ''<oppenheimer'' @
     concat (map (\<lambda>(name, value). '' '' @ name @ ''='' @ [CHR 0x22] @ value @ [CHR 0x22]) attributes) @
     ''>'' @ js_trim (remove_all frame_end body) @ frame_end"

definition github_wake_id :: "string \<Rightarrow> string" where
  "github_wake_id inbound_event_id = ''gh-'' @ inbound_event_id"

definition schedule_wake_id :: "string \<Rightarrow> string" where
  "schedule_wake_id runner_wake_id = ''at-'' @ runner_wake_id"

definition wake_at_time :: "date option \<Rightarrow> date \<Rightarrow> date option" where
  "wake_at_time asked now =
     (case asked of None \<Rightarrow> None
      | Some t \<Rightarrow> Some (min (max t now) (now + session_wake_max_delay_ms)))"

definition scheduled_wake_text :: "string \<Rightarrow> string \<Rightarrow> string" where
  "scheduled_wake_text wake text = host_frame [(''from'', ''schedule''), (''wake'', wake)] text"

subsection \<open>When and under which name\<close>

lemma wake_ids_apart:
  "github_wake_id a \<noteq> schedule_wake_id b"
  "github_wake_id a = github_wake_id b \<longleftrightarrow> a = b"
  "schedule_wake_id a = schedule_wake_id b \<longleftrightarrow> a = b"
  by (simp_all add: github_wake_id_def schedule_wake_id_def)

lemma wake_at_bounds:
  "wake_at_time asked now = Some t \<Longrightarrow> now \<le> t \<and> t \<le> now + session_wake_max_delay_ms"
  by (auto simp: wake_at_time_def session_wake_max_delay_ms_def split: option.splits)

subsection \<open>The frame's end inside the words\<close>

lemma remove_all_subset: "set (remove_all pat s) \<subseteq> set s"
proof (induction pat s rule: remove_all.induct)
  case (2 pat c cs)
  show ?case
  proof (cases "pat \<noteq> [] \<and> prefix pat (c # cs)")
    case True
    then have "set (remove_all pat (c # cs)) \<subseteq> set (drop (length pat) (c # cs))" using 2(1) by simp
    then show ?thesis by (meson order_trans set_drop_subset)
  next
    case False
    then show ?thesis using 2(2) by auto
  qed
qed simp

text \<open>Words with no \<^verbatim>\<open><\<close> in them cannot close the frame.\<close>

lemma frame_end_starts: "frame_end = CHR ''<'' # tl frame_end"
  by (simp add: frame_end_def)

lemma plain_words_cannot_close:
  assumes "CHR ''<'' \<notin> set body"
  shows "\<not> sublist frame_end (js_trim (remove_all frame_end body))"
proof
  assume "sublist frame_end (js_trim (remove_all frame_end body))"
  then have "set frame_end \<subseteq> set (js_trim (remove_all frame_end body))" by (rule set_mono_sublist)
  then have "set frame_end \<subseteq> set body" using js_trim_subset remove_all_subset by blast
  with assms show False by (simp add: frame_end_def)
qed

text \<open>A tag split by another is whole again once the other is taken out.\<close>

lemma split_frame_end_closes:
  "remove_all frame_end (''</oppen'' @ frame_end @ ''heimer>'') = frame_end"
  by (simp add: frame_end_def)

end
