(* ===== verification/Session_Share.thy ===== *)
theory Session_Share
  imports Domain_Base
begin

section \<open>Sharing a session\<close>

text \<open>
  \<^verbatim>\<open>apps/api/src/sessions/domain/session-share.entity.ts\<close> and the lifetimes of
  \<^verbatim>\<open>packages/shared/src/schemas/session-share.schema.ts\<close>. The address (\<open>randomBytes\<close>), the id and the clock
  are arguments. The lemmas show who a share opens for, that write access is never a link's and
  never outlives a day, and that every operation keeps it so.
\<close>

datatype share_access = ShareRead | ShareWrite
datatype share_audience = AudiencePeople | AudienceLink
datatype share_lifetime = OneHour | EightHours | OneDay | SevenDays

fun share_lifetime_ms :: "share_lifetime \<Rightarrow> int" where
  "share_lifetime_ms OneHour = 60 * 60 * 1000"
| "share_lifetime_ms EightHours = 8 * 60 * 60 * 1000"
| "share_lifetime_ms OneDay = 24 * 60 * 60 * 1000"
| "share_lifetime_ms SevenDays = 7 * 24 * 60 * 60 * 1000"

definition write_share_lifetimes :: "share_lifetime list" where
  "write_share_lifetimes = [OneHour, EightHours, OneDay]"

definition write_share_max_ms :: int where
  "write_share_max_ms = share_lifetime_ms OneDay"

definition share_lifetime_allowed :: "share_access \<Rightarrow> share_lifetime option \<Rightarrow> bool" where
  "share_lifetime_allowed access lifetime =
     (if access = ShareRead then True
      else (case lifetime of None \<Rightarrow> False | Some l \<Rightarrow> l \<in> set write_share_lifetimes))"

record share_settings =
  set_audience :: share_audience
  set_access :: share_access
  set_people_list :: "string list option"
  set_lifetime :: "share_lifetime option"

record session_share =
  share_id :: string
  share_organization :: string
  share_session :: string
  shared_by :: string
  share_slug :: string
  share_audience :: share_audience
  share_access :: share_access
  share_people :: "string list"
  share_expires_at :: "date option"

record share_viewer =
  viewer_user_id :: string
  viewer_email :: string
  viewer_email_verified :: bool

datatype share_refusal = ShareGone | ShareNotInvited

text \<open>A \<open>Set\<close> of the normalised addresses, sorted by code unit.\<close>

definition normalised_email :: "string \<Rightarrow> string" where
  "normalised_email e = js_lower (js_trim e)"

definition normalised_people :: "string list option \<Rightarrow> string list" where
  "normalised_people people =
     sort (remdups (map normalised_email (case people of None \<Rightarrow> [] | Some ps \<Rightarrow> ps)))"

definition share_problem :: "session_share \<Rightarrow> domain_error option" where
  "share_problem s = check_all
     [(share_audience s = AudiencePeople \<and> share_people s = [],
       ArgumentNotProvided ''A share for specific people must name one'')]"

text \<open>\<open>settingsProps\<close> and the assignment of what it returns onto a share.\<close>

definition settings_props ::
  "string \<Rightarrow> share_settings \<Rightarrow> date \<Rightarrow> session_share \<Rightarrow> domain_error + session_share" where
  "settings_props by_user settings now s =
     (if \<not> share_lifetime_allowed (set_access settings) (set_lifetime settings)
      then Inl (ArgumentOutOfRange ''Write access ends within 24 hours'')
      else if set_audience settings = AudienceLink \<and> set_access settings \<noteq> ShareRead
      then Inl (ArgumentInvalid ''A link only watches; write access names people'')
      else Inr (s\<lparr>shared_by := by_user, share_audience := set_audience settings,
                  share_access := set_access settings,
                  share_people :=
                    (if set_audience settings = AudiencePeople
                     then normalised_people (set_people_list settings) else []),
                  share_expires_at :=
                    map_option (\<lambda>l. now + share_lifetime_ms l) (set_lifetime settings)\<rparr>))"

definition share_session_terminal ::
  "string \<Rightarrow> string \<Rightarrow> string \<Rightarrow> string \<Rightarrow> string \<Rightarrow> share_settings \<Rightarrow> date \<Rightarrow> domain_error + session_share" where
  "share_session_terminal uuid slug organization session by_user settings now =
     (let blank = \<lparr>share_id = uuid, share_organization = organization, share_session = session,
            shared_by = by_user, share_slug = slug, share_audience = AudiencePeople,
            share_access = ShareRead, share_people = [], share_expires_at = None\<rparr>
      in case settings_props by_user settings now blank of
           Inl e \<Rightarrow> Inl e
         | Inr s \<Rightarrow> validated (share_problem s) s)"

definition reshare ::
  "string \<Rightarrow> share_settings \<Rightarrow> date \<Rightarrow> session_share \<Rightarrow> domain_error + session_share" where
  "reshare by_user settings now s =
     (case settings_props by_user settings now s of
        Inl e \<Rightarrow> Inl e
      | Inr t \<Rightarrow> validated (share_problem t) t)"

definition set_people :: "string list \<Rightarrow> session_share \<Rightarrow> domain_error + session_share" where
  "set_people people s =
     (if share_audience s \<noteq> AudiencePeople
      then Inl (ArgumentInvalid ''Only a share for specific people names people'')
      else let t = s\<lparr>share_people := normalised_people (Some people)\<rparr>
           in validated (share_problem t) t)"

definition share_read_only :: "session_share \<Rightarrow> bool" where
  "share_read_only s = (share_access s = ShareRead)"

definition share_is_live :: "session_share \<Rightarrow> date \<Rightarrow> bool" where
  "share_is_live s now = (case share_expires_at s of None \<Rightarrow> True | Some t \<Rightarrow> now < t)"

definition share_refusal_for :: "session_share \<Rightarrow> share_viewer \<Rightarrow> date \<Rightarrow> share_refusal option" where
  "share_refusal_for s viewer now =
     (if \<not> share_is_live s now then Some ShareGone
      else if share_audience s = AudienceLink then None
      else if viewer_email_verified viewer \<and>
              normalised_email (viewer_email viewer) \<in> set (share_people s) then None
      else Some ShareNotInvited)"

subsection \<open>What a share keeps\<close>

text \<open>
  Whoever may write was named, and their access ends: \<open>share_inv t s\<close> is of a share whose
  settings were last written at \<open>t\<close>.
\<close>

definition share_inv :: "date \<Rightarrow> session_share \<Rightarrow> bool" where
  "share_inv t s \<longleftrightarrow>
     (share_audience s = AudiencePeople \<longleftrightarrow> share_people s \<noteq> []) \<and>
     distinct (share_people s) \<and> sorted (share_people s) \<and>
     (share_access s = ShareWrite \<longrightarrow>
        share_audience s = AudiencePeople \<and>
        (\<exists>d. share_expires_at s = Some d \<and> d \<le> t + write_share_max_ms))"

lemma share_lifetime_allowed_write:
  "share_lifetime_allowed ShareWrite l \<longleftrightarrow>
     (\<exists>k. l = Some k \<and> share_lifetime_ms k \<le> write_share_max_ms)"
proof (cases l)
  case (Some k)
  then show ?thesis
    by (cases k) (simp_all add: share_lifetime_allowed_def write_share_lifetimes_def write_share_max_ms_def)
qed (simp add: share_lifetime_allowed_def)

lemma normalised_people_set: "distinct (normalised_people ps) \<and> sorted (normalised_people ps)"
  by (simp add: normalised_people_def)

lemma share_problem_None:
  "share_problem s = None \<longleftrightarrow> (share_audience s = AudiencePeople \<longrightarrow> share_people s \<noteq> [])"
  by (simp add: share_problem_def)

lemma settings_props_inv:
  assumes "settings_props by_user settings now s = Inr t" "share_problem t = None"
  shows "share_inv now t"
proof -
  have allowed: "share_lifetime_allowed (set_access settings) (set_lifetime settings)"
    and link: "set_audience settings = AudienceLink \<Longrightarrow> set_access settings = ShareRead"
    and t: "t = s\<lparr>shared_by := by_user, share_audience := set_audience settings,
      share_access := set_access settings,
      share_people := (if set_audience settings = AudiencePeople
        then normalised_people (set_people_list settings) else []),
      share_expires_at := map_option (\<lambda>l. now + share_lifetime_ms l) (set_lifetime settings)\<rparr>"
    using assms(1) by (auto simp: settings_props_def split: if_splits)
  show ?thesis
  proof (cases "set_access settings")
    case ShareRead
    with assms(2) t show ?thesis
      by (cases "set_audience settings")
        (simp_all add: share_inv_def share_problem_None normalised_people_set)
  next
    case ShareWrite
    with link have people: "set_audience settings = AudiencePeople"
      by (cases "set_audience settings") simp_all
    obtain k where "set_lifetime settings = Some k" "share_lifetime_ms k \<le> write_share_max_ms"
      using allowed ShareWrite share_lifetime_allowed_write by auto
    with assms(2) t people ShareWrite show ?thesis
      by (simp add: share_inv_def share_problem_None normalised_people_set)
  qed
qed

lemma reshare_inv: "reshare by_user settings now s = Inr t \<Longrightarrow> share_inv now t"
  by (auto simp: reshare_def dest: settings_props_inv split: sum.splits)

lemma share_session_terminal_inv:
  "share_session_terminal uuid slug organization session by_user settings now = Inr s \<Longrightarrow> share_inv now s"
  by (auto simp: share_session_terminal_def Let_def dest: settings_props_inv split: sum.splits)

lemma set_people_inv:
  assumes "share_inv t s" "set_people people s = Inr s'"
  shows "share_inv t s'"
  using assms
  by (auto simp: set_people_def share_inv_def share_problem_None Let_def
      normalised_people_set split: if_splits)

lemma share_opens_iff:
  "share_refusal_for s viewer now = None \<longleftrightarrow>
     share_is_live s now \<and>
     (share_audience s = AudienceLink \<or>
      (viewer_email_verified viewer \<and> normalised_email (viewer_email viewer) \<in> set (share_people s)))"
  by (auto simp: share_refusal_for_def)

end
