(* ===== verification/Session_Input_Properties.thy ===== *)
theory Session_Input_Properties
  imports Session_Examples Session_Plan Runner_Refusal Session_Decision Session_Wake Session_Share
begin

section \<open>The properties of starting a session\<close>

text \<open>
  The slug, the checkouts with their directories and branch, whether the host's runner takes the
  launch, and what the status of a cloud run writes into the log.
\<close>

subsection \<open>Slugs\<close>

text \<open>every minted slug is accepted by the pattern a session validates, and a slug, with it the branch
  named after it, tells every draw of words and suffix apart.\<close>

theorem minted_slugs_are_valid_and_tell_draws_apart:
  assumes "slug_draws i j ks" "slug_draws i' j' ks'"
  shows "session_slug_pattern (mint_session_slug i j ks) \<and>
    (session_branch_name (mint_session_slug i j ks) = session_branch_name (mint_session_slug i' j' ks') \<longleftrightarrow>
       (i, j, ks) = (i', j', ks'))"
  using mint_session_slug_pattern [OF assms(1)] mint_session_slug_inj [OF assms]
  by (auto simp: session_branch_name_def)

theorem minted_slugs_are_valid_and_tell_draws_apart_witness:
  "session_branch_name (mint_session_slug 0 1 [0, 1, 2, 3, 4, 5]) \<noteq>
   session_branch_name (mint_session_slug 1 0 [0, 1, 2, 3, 4, 5])"
proof -
  have "slug_draws 0 1 [0, 1, 2, 3, 4, 5]" "slug_draws 1 0 [0, 1, 2, 3, 4, 5]" by code_simp+
  from minted_slugs_are_valid_and_tell_draws_apart [OF this] show ?thesis by simp
qed

subsection \<open>Checkouts\<close>

lemma newborn_planned: "request_session uuid now p = Inr w \<Longrightarrow> planned w"
  by (simp add: planned_def used_directory_names_def request_session_newborn)

text \<open>a session created on several repositories has a directory of its own for each, whatever the
  repositories are called, and every checkout is on the one branch named after the session's slug;
  what is left is still a valid session.\<close>

theorem planned_checkouts_are_apart_on_one_branch:
  assumes "request_session uuid now p = Inr w" "plan_checkouts at_ms inputs w = Inr w'"
  shows "distinct (map checkout_directory (ws_checkouts w')) \<and>
    (\<forall>c \<in> set (ws_checkouts w'). checkout_branch c = session_branch_name (new_slug p)) \<and> ws_inv w'"
proof -
  have slug: "ws_slug w = new_slug p"
    using assms(1) by (auto simp: request_session_def Let_def split: if_splits option.splits)
  have "session_reachable w'" using plan_checkouts_op [OF assms(2)]
    by (induction rule: rtranclp_induct) (auto intro: session_reachable.step session_reachable.requested [OF assms(1)])
  then have "ws_inv w'" by (rule session_reachable_inv)
  with plan_checkouts_planned [OF newborn_planned [OF assms(1)] assms(2)] slug show ?thesis
    by (simp add: planned_def used_directory_names_def)
qed

definition two_repositories :: "(string \<times> github_repository \<times> checkout_input) list" where
  "two_repositories =
     [(''c1'', \<lparr>repository_full_name = ''acme/web'', repository_id = 7, repository_default_branch = ''main''\<rparr>,
       \<lparr>input_installation = ''i'', input_base_branch = None\<rparr>),
      (''c2'', \<lparr>repository_full_name = ''beta/web'', repository_id = 8, repository_default_branch = ''main''\<rparr>,
       \<lparr>input_installation = ''i'', input_base_branch = None\<rparr>)]"

theorem planned_checkouts_are_apart_on_one_branch_witness:
  "case plan_checkouts 1 two_repositories a_session of
     Inl e \<Rightarrow> False | Inr w \<Rightarrow> distinct (map checkout_directory (ws_checkouts w))"
proof -
  have "checkout_directory_name ''acme/web'' ''7'' [] = Some ''web''"
    "checkout_directory_name ''beta/web'' ''8'' [''web''] = Some ''beta--web''" "string_of_int 7 = ''7''"
    "string_of_int 8 = ''8''"
    by code_simp+
  then have "\<not> isl (plan_checkouts 1 two_repositories a_session)"
    by (simp add: two_repositories_def attach_planned_checkout_def used_directory_names_def ws_branch_def
        create_new_checkout_def checkout_problem_def attach_checkout_def validated_def session_branch_name_def
        branch_namespace_def nonblank_iff js_space_def)
  then obtain w where w: "plan_checkouts 1 two_repositories a_session = Inr w"
    by (cases "plan_checkouts 1 two_repositories a_session") simp_all
  from planned_checkouts_are_apart_on_one_branch [OF a_session_requested w] show ?thesis by (simp add: w)
qed

subsection \<open>The host\<close>

text \<open>a linked runner takes a launch exactly when it has the agent's tool, or did not say which it
  has, and it announced each capability the launch needs: folders for a folder, the agent's own
  cloud capability for a cloud session, teleporting for a session brought from the cloud.\<close>

theorem a_runner_takes_what_it_announced:
  "runner_refusal l \<lparr>probed_tools = tools, runner_capabilities = Some cs\<rparr> = None \<longleftrightarrow>
     runner_can_start (launch_of_agent l) tools \<and>
     (launch_of_place l = PlaceFolder \<longrightarrow> ''session.folder'' \<in> set cs) \<and>
     (launch_of_place l = PlaceCloud \<longrightarrow>
        (\<exists>c. host_cloud_capability (launch_of_agent l) = Some c \<and> c \<in> set cs)) \<and>
     (launch_of_teleport l \<notin> {None, Some []} \<longrightarrow> ''session.teleport'' \<in> set cs)"
  by (simp only: runner_refusal_linked runner_takes_place_iff)

theorem a_runner_takes_what_it_announced_witness:
  "runner_refusal \<lparr>launch_of_agent = ''claude-code'', launch_of_place = PlaceCloud, launch_of_teleport = Some ''t''\<rparr>
     \<lparr>probed_tools = None, runner_capabilities = Some [''session.teleport'', ''session.cloud'']\<rparr> = None"
  unfolding a_runner_takes_what_it_announced by (simp add: runner_can_start_def host_cloud_capability_def)

subsection \<open>Cloud runs\<close>

text \<open>What a status makes of a session that is not closed: its state, whether it stopped, and what its
  agent was last seen doing.\<close>

fun cloud_outcome ::
  "cloud_status \<Rightarrow> date \<Rightarrow> session_fold \<Rightarrow> session_state \<times> date option \<times> agent_observed_state option" where
  "cloud_outcome CloudStarting now f = (fold_state f, fold_stopped_at f, fold_last_observed f)"
| "cloud_outcome CloudRunning now f =
     (if fold_state f = StateFailed then (StateFailed, fold_stopped_at f, Some ObservedWorking)
      else (StateOpen, None, Some ObservedWorking))"
| "cloud_outcome CloudFinished now f =
     (if fold_state f = StateFailed then (StateFailed, fold_stopped_at f, Some ObservedDone)
      else (StateOpen, None, Some ObservedDone))"
| "cloud_outcome CloudFailed now f = (StateFailed, fold_stopped_at f, fold_last_observed f)"
| "cloud_outcome CloudExpired now f = (StateFailed, fold_stopped_at f, fold_last_observed f)"
| "cloud_outcome CloudCancelled now f = (fold_state f, Some now, Some ObservedIdle)"

definition outcome_of :: "session_fold \<Rightarrow> session_state \<times> date option \<times> agent_observed_state option" where
  "outcome_of f = (fold_state f, fold_stopped_at f, fold_last_observed f)"

lemma observed_outcome:
  assumes "session_kind_of (entry_kind e) = Some AgentObserved" "observed_state_of (entry_payload e) = Some s"
  shows "outcome_of (fold_session_event f e) = (fold_state f, fold_stopped_at f, Some s)"
  by (simp add: outcome_of_def fold_session_event_kind [OF assms(1)] on_agent_observed_def assms(2) Let_def)

lemma started_outcome:
  assumes "session_kind_of (entry_kind e) = Some Started" "fold_state f \<noteq> StateResolved"
  shows "fold_state (fold_session_event f e) = (if fold_state f = StateFailed then StateFailed else StateOpen) \<and>
    fold_stopped_at (fold_session_event f e) = (if fold_state f = StateFailed then fold_stopped_at f else None)"
  using assms(2)
  by (simp add: fold_session_event_kind [OF assms(1)] on_started_def opened_def transition_def
      without_agent_facts_def Let_def)

lemma failed_outcome:
  assumes "session_kind_of (entry_kind e) = Some FailedEvent" "fold_state f \<noteq> StateResolved"
  shows "fold_state (fold_session_event f e) = StateFailed"
    "fold_stopped_at (fold_session_event f e) = fold_stopped_at f"
    "fold_last_observed (fold_session_event f e) = fold_last_observed f"
  using assms(2)
  by (simp_all add: fold_session_event_kind [OF assms(1)] on_failed_def transition_def without_agent_facts_def)

lemma started_then_observed:
  assumes "session_kind_of (entry_kind e) = Some Started" "session_kind_of (entry_kind e') = Some AgentObserved"
    and "observed_state_of (entry_payload e') = Some s" "fold_state f \<noteq> StateResolved"
  shows "outcome_of (fold_session_event (fold_session_event f e) e') =
    (if fold_state f = StateFailed then (StateFailed, fold_stopped_at f, Some s) else (StateOpen, None, Some s))"
  using started_outcome [OF assms(1,4)] by (simp add: observed_outcome [OF assms(2,3)])

lemma stopped_then_observed:
  assumes "session_kind_of (entry_kind e) = Some Stopped" "session_kind_of (entry_kind e') = Some AgentObserved"
    and "observed_state_of (entry_payload e') = Some s" "fold_state f \<noteq> StateResolved"
  shows "outcome_of (fold_session_event (fold_session_event f e) e') =
    (fold_state f, Some (entry_occurred_at e), Some s)"
  using assms(4)
  by (simp add: observed_outcome [OF assms(2,3)] fold_session_event_kind [OF assms(1)] on_stopped_def
      without_agent_facts_def)

text \<open>the status of a cloud run moves its session as the status says. Of a session that is not closed: a
  running or finished run opens it, clears its stop and shows its agent at work or done, unless it
  had failed; a failed or expired run fails it; a cancelled one stops it with its agent idle; and a
  starting one changes nothing.\<close>

theorem a_cloud_status_moves_its_session:
  assumes "fold_state f \<noteq> StateResolved"
  shows "outcome_of (fold_cloud_status run_id status now f) = cloud_outcome status now f"
proof -
  note log = fold_cloud_status_def log_entry_of_def cloud_entry_def cloud_started_def cloud_observed_def
  note kinds = cloud_kinds cloud_observed_state
  show ?thesis
  proof (cases status)
    case CloudRunning
    then show ?thesis using started_then_observed [OF _ _ _ assms] by (simp add: log kinds)
  next
    case CloudFinished
    then show ?thesis using started_then_observed [OF _ _ _ assms] by (simp add: log kinds)
  next
    case CloudCancelled
    then show ?thesis using stopped_then_observed [OF _ _ _ assms] by (simp add: log kinds)
  qed (use assms in \<open>simp_all add: log kinds outcome_of_def failed_outcome\<close>)
qed

theorem a_cloud_status_moves_its_session_witness:
  "fold_state (fold_cloud_status ''r'' CloudFinished 9 initial_session_fold) = StateOpen"
  using a_cloud_status_moves_its_session [of initial_session_fold "''r''" CloudFinished 9]
  by (simp add: initial_session_fold_def outcome_of_def)

section \<open>The properties of what a person sends a session, and of who may watch it\<close>

text \<open>
  Answering what a session waits on, waking it with words typed into its terminal, and sharing
  its terminal.
\<close>

subsection \<open>Answers\<close>

definition answered_items :: "answer_session_decision \<Rightarrow> decision_answer_item list" where
  "answered_items answer = (case answer_items answer of None \<Rightarrow> [] | Some items \<Rightarrow> items)"

text \<open>an answer is typed exactly when it answers the decision the session waits on and fits it: an
  option of the dialog, or for every question its own answer, of options the question has, none
  twice, one of them for a single choice, in words or in options but for a single choice not both.\<close>

theorem an_answer_is_typed_iff_it_fits:
  "(\<exists>keys. decision_answer_keys pending answer = Keys keys) \<longleftrightarrow>
   (\<exists>d. pending = Some d \<and> answer_fits d answer)"
  by (cases pending) (simp_all add: decision_answer_keys_fits, simp add: decision_answer_keys_def)

text \<open>C36: an answer is never mistyped. Whatever a session's log led it to wait on, the keys that are typed for
  an answer, read one by one by the dialog they are typed into as the code describes it, are that answer:
  the very option of a permission, or for each question the very options picked and the person's own
  words, trimmed and with each run of blanks that holds a newline as one space; every question is
  answered, nothing else is pressed, and the review is sent. The bounds of the wire keep every option
  within one digit. The words must hold no carriage return and no Escape: a lone carriage return is not
  replaced, and is Enter.\<close>

theorem an_answer_is_read_as_it_was_meant:
  assumes "decision_answer_keys (fold_pending_decision (fold_session_log es initial_session_fold)) answer = Keys keys"
    and "\<forall>items \<in> set_option (answer_items answer). list_all types_plainly items"
  shows "\<exists>d. fold_pending_decision (fold_session_log es initial_session_fold) = Some d \<and>
    decision_id d = answer_id answer \<and> reading_meant d answer \<noteq> None \<and> read_keys d keys = reading_meant d answer"
proof -
  obtain d where d: "fold_pending_decision (fold_session_log es initial_session_fold) = Some d"
    using assms by (cases "fold_pending_decision (fold_session_log es initial_session_fold)")
      (simp_all add: decision_answer_keys_def)
  have "fold_inv (fold_session_log es initial_session_fold)"
    by (rule fold_session_log_inv [OF initial_session_fold_inv])
  then have "bounded_decision d" by (simp add: fold_inv_def decision_live_def d)
  then show ?thesis using decision_keys_read [of d answer keys] assms d by simp
qed

definition asked_option :: "string \<Rightarrow> json" where
  "asked_option label = JObject [(''label'', JString label)]"

definition two_questions :: json where
  "two_questions = JObject [(''decision'', JObject [(''id'', JString ''d1''), (''kind'', JString ''question''), (''questions'', JArray [
     JObject [(''question'', JString ''Which?''), (''multiSelect'', JBool False), (''options'', JArray [asked_option ''A'', asked_option ''B''])],
     JObject [(''question'', JString ''And?''), (''multiSelect'', JBool True), (''options'', JArray [asked_option ''C'', asked_option ''D''])]])])]"

abbreviation "asked_questions \<equiv> fold_pending_decision (fold_session_log [entry ''agent.decision'' two_questions 3] initial_session_fold)"

definition two_answers :: "string \<Rightarrow> answer_session_decision" where
  "two_answers words =
     \<lparr>answer_id = ''d1'',
      answer_items = Some [\<lparr>item_picks = [1], item_other = None\<rparr>, \<lparr>item_picks = [1, 0], item_other = Some words\<rparr>],
      answer_option = None\<rparr>"

theorem an_answer_is_read_as_it_was_meant_witness:
  "\<exists>d. asked_questions = Some d \<and>
     read_keys d [''2'', ''2'', ''1'', key_down, key_down, ''my way'', key_down, key_enter, ''1''] =
       Some (Read_answers [([1], None), ([1, 0], Some ''my way'')])"
proof -
  let ?a = "two_answers (''my '' @ [CHR 0x0A] @ ''way'')"
  have keys: "decision_answer_keys asked_questions ?a =
      Keys [''2'', ''2'', ''1'', key_down, key_down, ''my way'', key_down, key_enter, ''1'']" by code_simp
  have plain: "\<forall>items \<in> set_option (answer_items ?a). list_all types_plainly items"
    by (simp add: two_answers_def types_plainly_def)
  obtain d where d: "asked_questions = Some d" "reading_meant d ?a \<noteq> None"
    "read_keys d [''2'', ''2'', ''1'', key_down, key_down, ''my way'', key_down, key_enter, ''1''] = reading_meant d ?a"
    using an_answer_is_read_as_it_was_meant [OF keys plain] by blast
  have "own_words \<lparr>item_picks = [1], item_other = None\<rparr> = None"
    "own_words \<lparr>item_picks = [1, 0], item_other = Some (''my '' @ [CHR 0x0A] @ ''way'')\<rparr> = Some ''my way''" by code_simp+
  then have "reading_meant d ?a = None \<or> reading_meant d ?a = Some (Read_answers [([1], None), ([1, 0], Some ''my way'')])"
    by (cases d) (simp_all add: reading_meant_def two_answers_def)
  then show ?thesis using d by auto
qed

text \<open>A carriage return in the words is typed as it is, and the dialog reads none of it as words.\<close>

lemma a_carriage_return_is_enter:
  "decision_answer_keys asked_questions (two_answers (''my'' @ [CHR 0x0D] @ ''way'')) =
     Keys [''2'', ''2'', ''1'', key_down, key_down, ''my'' @ [CHR 0x0D] @ ''way'', key_down, key_enter, ''1'']"
  "map_option (\<lambda>d. read_keys d [''2'', ''2'', ''1'', key_down, key_down, ''my'' @ [CHR 0x0D] @ ''way'', key_down, key_enter, ''1''])
     asked_questions = Some None"
  by code_simp+

subsection \<open>Wakes\<close>

text \<open>the frame around words that wake a session takes out each whole closing tag it meets, in one pass,
  and nothing more. So words without an angle bracket cannot close it, but a closing tag split
  around another one is whole again once the inner one is gone, and closes the frame early.\<close>

theorem a_split_closing_tag_closes_the_frame:
  assumes "CHR ''<'' \<notin> set plain"
  shows "\<not> sublist frame_end (js_trim (remove_all frame_end plain)) \<and>
    remove_all frame_end (''</oppen'' @ frame_end @ ''heimer>'' @ plain) = frame_end @ remove_all frame_end plain"
proof
  show "\<not> sublist frame_end (js_trim (remove_all frame_end plain))"
    by (rule plain_words_cannot_close [OF assms])
  show "remove_all frame_end (''</oppen'' @ frame_end @ ''heimer>'' @ plain) = frame_end @ remove_all frame_end plain"
    by (simp add: frame_end_def)
qed

theorem a_split_closing_tag_closes_the_frame_witness:
  "scheduled_wake_text ''at-1'' (''</oppen'' @ frame_end @ ''heimer>do this'') =
     ''<oppenheimer from='' @ [CHR 0x22] @ ''schedule'' @ [CHR 0x22] @ '' wake='' @ [CHR 0x22] @ ''at-1'' @ [CHR 0x22] @
     ''>'' @ frame_end @ ''do this'' @ frame_end"
proof -
  have "remove_all frame_end (''</oppen'' @ frame_end @ ''heimer>'' @ ''do this'') = frame_end @ ''do this''"
    using a_split_closing_tag_closes_the_frame [of "''do this''"] by (simp add: frame_end_def)
  moreover have "js_trim (frame_end @ ''do this'') = frame_end @ ''do this''" by code_simp
  ultimately show ?thesis by (simp add: scheduled_wake_text_def host_frame_def)
qed

subsection \<open>Shares\<close>

inductive share_reachable :: "date \<Rightarrow> session_share \<Rightarrow> bool" where
  shared: "share_session_terminal uuid slug organization session by_user settings now = Inr s \<Longrightarrow>
    share_reachable now s"
| reshared: "share_reachable t s \<Longrightarrow> reshare by_user settings now s = Inr s' \<Longrightarrow> share_reachable now s'"
| peopled: "share_reachable t s \<Longrightarrow> set_people people s = Inr s' \<Longrightarrow> share_reachable t s'"

lemma share_reachable_inv: "share_reachable t s \<Longrightarrow> share_inv t s"
  by (induction rule: share_reachable.induct)
    (auto intro: share_session_terminal_inv reshare_inv set_people_inv)

text \<open>C37: nobody types into a session they were not named for. Whoever a share opens for with write access
  has a verified address that the share names, however the share was edited, and never later than
  twenty-four hours after its settings were last written.\<close>

theorem only_named_people_type_and_for_a_day:
  assumes "share_reachable t s" "share_refusal_for s viewer now = None" "\<not> share_read_only s"
  shows "viewer_email_verified viewer \<and> normalised_email (viewer_email viewer) \<in> set (share_people s) \<and>
    now < t + 24 * 60 * 60 * 1000"
proof -
  have "share_access s = ShareWrite" using assms(3) by (cases "share_access s") (simp_all add: share_read_only_def)
  then have "share_audience s = AudiencePeople"
    "\<exists>d. share_expires_at s = Some d \<and> d \<le> t + write_share_max_ms"
    using share_reachable_inv [OF assms(1)] by (simp_all add: share_inv_def)
  with assms(2) show ?thesis by (auto simp: share_opens_iff share_is_live_def write_share_max_ms_def)
qed

theorem only_named_people_type_and_for_a_day_witness:
  "viewer_email_verified \<lparr>viewer_user_id = ''u'', viewer_email = ''Ana@x.io'', viewer_email_verified = True\<rparr>"
proof -
  let ?set = "\<lparr>set_audience = AudiencePeople, set_access = ShareWrite,
    set_people_list = Some ['' ana@X.io''], set_lifetime = Some OneHour\<rparr>"
  let ?s = "\<lparr>share_id = ''i'', share_organization = ''o'', share_session = ''s'', shared_by = ''p'',
    share_slug = ''slug'', share_audience = AudiencePeople, share_access = ShareWrite,
    share_people = [''ana@x.io''], share_expires_at = Some 3600100\<rparr>"
  have s: "share_session_terminal ''i'' ''slug'' ''o'' ''s'' ''p'' ?set 100 = Inr ?s" by code_simp
  have o: "share_refusal_for ?s \<lparr>viewer_user_id = ''u'', viewer_email = ''Ana@x.io'', viewer_email_verified = True\<rparr> 200 = None"
    by code_simp
  show ?thesis
    using only_named_people_type_and_for_a_day [OF share_reachable.shared [OF s] o]
    by (simp add: share_read_only_def)
qed

end
