(* ===== verification/Automation_Run.thy ===== *)
theory Automation_Run
  imports Domain_Base
begin

section \<open>Automation runs\<close>

text \<open>
  The run vocabulary of \<^verbatim>\<open>packages/shared/src/automations/catalog.ts\<close> and
  \<^verbatim>\<open>apps/api/src/automations/domain/automation-run.entity.ts\<close>: one firing of an automation and what became of it
  before a session existed. The id and the clock are arguments; a throw is \<open>Inl\<close>. The lemmas show
  that a run is settled at most once, that its columns say exactly how, and that a write announces
  itself once.
\<close>

subsection \<open>Vocabulary\<close>

datatype run_outcome = RunPending | RunSkipped | RunExpired | RunDispatched

datatype skip_reason =
    SkipPaused | SkipDeleted | SkipOwnEvent | SkipAutomationRateLimited | SkipWorkspaceRateLimited
  | SkipOverlapping | SkipMissed | SkipNotLaunchable | SkipAgentUnavailable | SkipUnattended

datatype run_cause = CauseSchedule | CauseEvent | CauseManual

datatype paused_reason =
    PausedByUser | PausedProjectArchived | PausedHostUnpaired | PausedOwnerLostAccess
  | PausedBotProviderMissing | PausedCloudKeyMissing | PausedUnattended

datatype overlap_policy = OverlapSkip | OverlapQueue

text \<open>\<open>RunDispatchRef\<close>: what a launched run became.\<close>

datatype run_dispatch_ref = BecameSession string | BecameBotTurn string

record run_cause_summary =
  cause_label :: string
  cause_text :: string
  cause_ref :: "string option"
  cause_actor :: "string option"
  cause_url :: "string option"
  cause_event_type :: string

datatype run_event = RunChanged run_outcome "skip_reason option"

record new_run =
  run_organization :: string
  run_automation :: string
  run_revision :: string
  run_trigger :: "string option"
  run_cause :: run_cause
  run_cause_key :: string
  run_cause_summary :: run_cause_summary
  run_inbound_event :: "string option"
  run_scheduled_for :: "date option"
  run_requested_by :: "string option"

record automation_run = new_run +
  run_id :: string
  run_created_at :: date
  run_outcome :: run_outcome
  run_skip_reason :: "skip_reason option"
  run_available_at :: date
  run_attempts :: nat
  run_session :: "string option"
  run_bot_turn :: "string option"
  run_dispatched_at :: "date option"
  run_updated_at :: date
  run_events :: "run_event list"

definition run_problem :: "automation_run \<Rightarrow> domain_error option" where
  "run_problem r = check_all [(run_cause_key r = [], ArgumentInvalid ''A run needs a cause key'')]"

subsection \<open>Operations\<close>

text \<open>\<open>changed\<close>: one event per write, whatever the steps of it.\<close>

definition run_changed :: "automation_run \<Rightarrow> automation_run" where
  "run_changed r =
     (if run_events r \<noteq> [] then r
      else r\<lparr>run_events := [RunChanged (run_outcome r) (run_skip_reason r)]\<rparr>)"

definition pending_run :: "string \<Rightarrow> new_run \<Rightarrow> date \<Rightarrow> domain_error + automation_run" where
  "pending_run uuid p now =
     (let r = new_run.extend p
            \<lparr>run_id = uuid, run_created_at = now, run_outcome = RunPending, run_skip_reason = None,
             run_available_at = now, run_attempts = 0, run_session = None, run_bot_turn = None,
             run_dispatched_at = None, run_updated_at = now, run_events = []\<rparr>
      in validated (run_problem r) r)"

definition assert_pending :: "automation_run \<Rightarrow> (domain_error + automation_run) \<Rightarrow> domain_error + automation_run" where
  "assert_pending r k =
     (if run_outcome r \<noteq> RunPending then Inl (ArgumentInvalid ''The run is already settled'') else k)"

definition skip_run :: "skip_reason \<Rightarrow> date \<Rightarrow> automation_run \<Rightarrow> domain_error + automation_run" where
  "skip_run reason now r =
     assert_pending r (Inr (run_changed
       (r\<lparr>run_outcome := RunSkipped, run_skip_reason := Some reason, run_updated_at := now\<rparr>)))"

definition expire_run :: "date \<Rightarrow> automation_run \<Rightarrow> domain_error + automation_run" where
  "expire_run now r =
     assert_pending r (Inr (run_changed (r\<lparr>run_outcome := RunExpired, run_updated_at := now\<rparr>)))"

definition defer_run :: "date \<Rightarrow> date \<Rightarrow> automation_run \<Rightarrow> domain_error + automation_run" where
  "defer_run until now r =
     assert_pending r (Inr (run_changed
       (r\<lparr>run_available_at := until, run_attempts := run_attempts r + 1, run_updated_at := now\<rparr>)))"

definition dispatched_run ::
  "run_dispatch_ref \<Rightarrow> string \<Rightarrow> date \<Rightarrow> date \<Rightarrow> automation_run \<Rightarrow> domain_error + automation_run" where
  "dispatched_run ref revision_id dispatched_at now r =
     assert_pending r (Inr (run_changed
       ((case ref of
           BecameSession s \<Rightarrow> r\<lparr>run_session := Some s\<rparr>
         | BecameBotTurn t \<Rightarrow> r\<lparr>run_bot_turn := Some t\<rparr>)
        \<lparr>run_revision := revision_id, run_outcome := RunDispatched,
         run_dispatched_at := Some dispatched_at, run_updated_at := now\<rparr>)))"

definition fire_run :: "string \<Rightarrow> new_run \<Rightarrow> date \<Rightarrow> domain_error + automation_run" where
  "fire_run uuid p now =
     (case pending_run uuid p now of Inl e \<Rightarrow> Inl e | Inr r \<Rightarrow> Inr (run_changed r))"

definition skipped_run :: "string \<Rightarrow> new_run \<Rightarrow> skip_reason \<Rightarrow> date \<Rightarrow> domain_error + automation_run" where
  "skipped_run uuid p reason now =
     (case pending_run uuid p now of Inl e \<Rightarrow> Inl e | Inr r \<Rightarrow> skip_run reason now r)"

definition is_pending :: "automation_run \<Rightarrow> bool" where
  "is_pending r = (run_outcome r = RunPending)"

definition run_publish :: "automation_run \<Rightarrow> automation_run" where
  "run_publish r = r\<lparr>run_events := []\<rparr>"

subsection \<open>The state machine\<close>

text \<open>
  The columns agree with the outcome: a skip has its reason, a dispatch its time and exactly one
  of a session and a bot's turn, and nothing else has either; a write announced itself at most once.
\<close>

definition run_inv :: "automation_run \<Rightarrow> bool" where
  "run_inv r \<longleftrightarrow>
     run_cause_key r \<noteq> [] \<and>
     (run_skip_reason r \<noteq> None \<longleftrightarrow> run_outcome r = RunSkipped) \<and>
     (run_dispatched_at r \<noteq> None \<longleftrightarrow> run_outcome r = RunDispatched) \<and>
     (run_session r \<noteq> None \<longrightarrow> run_bot_turn r = None) \<and>
     (run_session r \<noteq> None \<or> run_bot_turn r \<noteq> None \<longleftrightarrow> run_outcome r = RunDispatched) \<and>
     length (run_events r) \<le> 1"

inductive run_step :: "automation_run \<Rightarrow> automation_run \<Rightarrow> bool" where
  run_skip: "skip_run reason now r = Inr r' \<Longrightarrow> run_step r r'"
| run_expire: "expire_run now r = Inr r' \<Longrightarrow> run_step r r'"
| run_defer: "defer_run until now r = Inr r' \<Longrightarrow> run_step r r'"
| run_dispatch: "dispatched_run ref rid dispatched_at now r = Inr r' \<Longrightarrow> run_step r r'"
| run_publishing: "run_step r (run_publish r)"

inductive run_reachable :: "automation_run \<Rightarrow> bool" where
  run_fired: "fire_run uuid p now = Inr r \<Longrightarrow> run_reachable r"
| run_born_skipped: "skipped_run uuid p reason now = Inr r \<Longrightarrow> run_reachable r"
| run_stepped: "run_reachable r \<Longrightarrow> run_step r r' \<Longrightarrow> run_reachable r'"

inductive_cases run_stepE: "run_step r r'"
inductive_simps run_step_simps: "run_step r r'"

lemmas run_op_defs =
  skip_run_def expire_run_def defer_run_def dispatched_run_def assert_pending_def run_changed_def

lemma pending_run_inv: "pending_run uuid p now = Inr r \<Longrightarrow> run_inv r \<and> run_outcome r = RunPending \<and> run_events r = []"
  by (auto simp: pending_run_def run_inv_def run_problem_def Let_def new_run.defs)

lemma run_changed_inv:
  assumes "run_inv (r\<lparr>run_events := []\<rparr>)" "length (run_events r) \<le> 1"
  shows "run_inv (run_changed r)"
  using assms by (simp add: run_inv_def run_changed_def)

lemma run_step_inv: "run_step r r' \<Longrightarrow> run_inv r \<Longrightarrow> run_inv r'"
proof (erule run_stepE)
  show "skip_run reason now r = Inr r' \<Longrightarrow> run_inv r \<Longrightarrow> run_inv r'" for reason now
    by (auto simp: skip_run_def assert_pending_def run_inv_def run_changed_def split: if_splits)
  show "expire_run now r = Inr r' \<Longrightarrow> run_inv r \<Longrightarrow> run_inv r'" for now
    by (auto simp: expire_run_def assert_pending_def run_inv_def run_changed_def split: if_splits)
  show "defer_run until now r = Inr r' \<Longrightarrow> run_inv r \<Longrightarrow> run_inv r'" for until now
    by (auto simp: defer_run_def assert_pending_def run_inv_def run_changed_def split: if_splits)
  show "dispatched_run ref rid d now r = Inr r' \<Longrightarrow> run_inv r \<Longrightarrow> run_inv r'" for ref rid d now
    by (cases ref; cases "run_outcome r";
        cases "run_session r"; cases "run_bot_turn r")
      (simp_all add: dispatched_run_def assert_pending_def run_inv_def run_changed_def split: if_splits, auto)
  show "r' = run_publish r \<Longrightarrow> run_inv r \<Longrightarrow> run_inv r'"
    by (simp add: run_publish_def run_inv_def)
qed

lemma fire_run_inv: "fire_run uuid p now = Inr r \<Longrightarrow> run_inv r"
  using pending_run_inv [of uuid p now] by (auto simp: fire_run_def run_changed_def run_inv_def split: sum.splits)

lemma skipped_run_inv: "skipped_run uuid p reason now = Inr r \<Longrightarrow> run_inv r"
  using pending_run_inv [of uuid p now] run_step_inv [OF run_skip]
  by (auto simp: skipped_run_def split: sum.splits)

lemma run_reachable_inv: "run_reachable r \<Longrightarrow> run_inv r"
  by (induction rule: run_reachable.induct) (auto intro: fire_run_inv skipped_run_inv run_step_inv)

text \<open>Once settled, nothing but its own publication changes a run.\<close>

lemma settled_run_step: "run_step r r' \<Longrightarrow> run_outcome r \<noteq> RunPending \<Longrightarrow> r' = run_publish r"
  by (auto simp: run_step_simps run_op_defs)

end
