(* ===== verification/Automation_Guards.thy ===== *)
theory Automation_Guards
  imports Automation_Run
begin

section \<open>Limits, guards and what a dispatch decides\<close>

text \<open>
  \<^verbatim>\<open>automation-limits.policy.ts\<close>, \<^verbatim>\<open>fire-guard.policy.ts\<close> and \<^verbatim>\<open>run-refusal.policy.ts\<close> of
  \<^verbatim>\<open>apps/api/src/automations/domain\<close>, and the decisions composed of them: the scheduler's
  (\<^verbatim>\<open>fire-due-schedules.command-handler.ts\<close>), the event trigger's, the dispatcher's
  (\<^verbatim>\<open>run-dispatch.resolver.ts\<close>) and a session's own (\<^verbatim>\<open>session-run-target.adapter.ts\<close>). What a
  handler reads from a repository or a port is an argument. The lemmas show that no limit passes
  the platform's ceiling, which guard decides, and that a pending run is decided in the end.
\<close>

subsection \<open>Limits\<close>

record capped_limits =
  max_runs_per_automation_hour :: int
  max_runs_per_workspace_hour :: int
  live_runs_per_host :: int
  stale_ttl_seconds :: int
  max_run_seconds :: int

record automation_limits = capped_limits +
  limit_overlap :: overlap_policy
  missed_grace_seconds :: int
  disk_floor_bytes :: int
  unattended_reports :: int
  unattended_away_seconds :: int

record platform_limits =
  limit_defaults :: automation_limits
  limit_ceilings :: capped_limits

record workspace_limits =
  workspace_runs_per_automation_hour :: "int option"
  workspace_runs_per_workspace_hour :: "int option"
  workspace_live_runs_per_host :: "int option"
  workspace_overlap :: "overlap_policy option"
  workspace_stale_ttl_seconds :: "int option"
  workspace_missed_grace_seconds :: "int option"
  workspace_max_run_seconds :: "int option"
  workspace_unattended_reports :: "int option"
  workspace_unattended_away_seconds :: "int option"

record automation_overrides =
  override_runs_per_hour :: "int option"
  override_overlap :: "overlap_policy option"

definition default_platform_limits :: platform_limits where
  "default_platform_limits =
     \<lparr>limit_defaults =
        \<lparr>max_runs_per_automation_hour = 10, max_runs_per_workspace_hour = 100, live_runs_per_host = 2,
         stale_ttl_seconds = 60 * 60, max_run_seconds = 60 * 60, limit_overlap = OverlapSkip,
         missed_grace_seconds = 15 * 60, disk_floor_bytes = 5 * 1024 ^ 3, unattended_reports = 3,
         unattended_away_seconds = 72 * 60 * 60\<rparr>,
      limit_ceilings =
        \<lparr>max_runs_per_automation_hour = 60, max_runs_per_workspace_hour = 500, live_runs_per_host = 20,
         stale_ttl_seconds = 24 * 60 * 60, max_run_seconds = 6 * 60 * 60\<rparr>\<rparr>"

fun tightest :: "int \<Rightarrow> int option list \<Rightarrow> int" where
  "tightest v [] = v"
| "tightest v (None # cs) = tightest v cs"
| "tightest v (Some c # cs) = tightest (if 0 < c then min v c else v) cs"

definition setting :: "'a option \<Rightarrow> 'a \<Rightarrow> 'a" where
  "setting saved fallback = (case saved of None \<Rightarrow> fallback | Some x \<Rightarrow> x)"

definition resolve_automation_limits ::
  "platform_limits \<Rightarrow> workspace_limits \<Rightarrow> automation_overrides \<Rightarrow> automation_limits" where
  "resolve_automation_limits p w a =
     (let d = limit_defaults p; c = limit_ceilings p in
      \<lparr>max_runs_per_automation_hour = tightest (max_runs_per_automation_hour c)
         [Some (setting (workspace_runs_per_automation_hour w) (max_runs_per_automation_hour d)),
          override_runs_per_hour a],
       max_runs_per_workspace_hour = tightest (max_runs_per_workspace_hour c)
         [Some (setting (workspace_runs_per_workspace_hour w) (max_runs_per_workspace_hour d))],
       live_runs_per_host = tightest (live_runs_per_host c)
         [Some (setting (workspace_live_runs_per_host w) (live_runs_per_host d))],
       stale_ttl_seconds = tightest (stale_ttl_seconds c)
         [Some (setting (workspace_stale_ttl_seconds w) (stale_ttl_seconds d))],
       max_run_seconds = tightest (max_run_seconds c)
         [Some (setting (workspace_max_run_seconds w) (max_run_seconds d))],
       limit_overlap = setting (override_overlap a) (setting (workspace_overlap w) (limit_overlap d)),
       missed_grace_seconds = setting (workspace_missed_grace_seconds w) (missed_grace_seconds d),
       disk_floor_bytes = disk_floor_bytes d,
       unattended_reports = setting (workspace_unattended_reports w) (unattended_reports d),
       unattended_away_seconds =
         setting (workspace_unattended_away_seconds w) (unattended_away_seconds d)\<rparr>)"

lemma tightest_le: "tightest v cs \<le> v"
proof (induction v cs rule: tightest.induct)
  case (3 v c cs)
  then show ?case by (auto intro: order_trans split: if_splits)
qed simp_all

lemma tightest_le_candidate: "Some c \<in> set cs \<Longrightarrow> 0 < c \<Longrightarrow> tightest v cs \<le> c"
proof (induction v cs rule: tightest.induct)
  case (3 v d cs)
  then show ?case using tightest_le [of "min v c" cs] by auto
qed simp_all

lemma tightest_attained: "tightest v cs = v \<or> (\<exists>c. Some c \<in> set cs \<and> 0 < c \<and> tightest v cs = c)"
proof (induction v cs rule: tightest.induct)
  case (3 v c cs)
  then show ?case by (cases "0 < c"; cases "v \<le> c") (auto simp: min_def split: if_splits)
qed simp_all

subsection \<open>Guards\<close>

datatype guard_verdict = Allow | Skip skip_reason | Defer int | Expire

fun first_refusal :: "guard_verdict list \<Rightarrow> guard_verdict" where
  "first_refusal [] = Allow"
| "first_refusal (v # vs) = (if v \<noteq> Allow then v else first_refusal vs)"

definition paused_guard :: "bool \<Rightarrow> bool \<Rightarrow> guard_verdict" where
  "paused_guard paused manual = (if paused \<and> \<not> manual then Skip SkipPaused else Allow)"

definition loop_guard :: "bool \<Rightarrow> guard_verdict" where
  "loop_guard actor_is_own_app = (if actor_is_own_app then Skip SkipOwnEvent else Allow)"

record recent_runs =
  recent_of_automation :: int
  recent_of_workspace :: int

definition rate_guard :: "automation_limits \<Rightarrow> recent_runs \<Rightarrow> bool \<Rightarrow> guard_verdict" where
  "rate_guard limits recent manual =
     (if manual then Allow
      else if max_runs_per_automation_hour limits \<le> recent_of_automation recent
      then Skip SkipAutomationRateLimited
      else if max_runs_per_workspace_hour limits \<le> recent_of_workspace recent
      then Skip SkipWorkspaceRateLimited
      else Allow)"

definition missed_slot_guard :: "date \<Rightarrow> date \<Rightarrow> automation_limits \<Rightarrow> guard_verdict" where
  "missed_slot_guard scheduled_for now limits =
     (if missed_grace_seconds limits * 1000 < now - scheduled_for then Skip SkipMissed else Allow)"

definition defer_delay_ms :: int where
  "defer_delay_ms = 60000"

definition stale_guard :: "date \<Rightarrow> date \<Rightarrow> automation_limits \<Rightarrow> guard_verdict" where
  "stale_guard created_at now limits =
     (if stale_ttl_seconds limits * 1000 < now - created_at then Expire else Allow)"

definition overlap_guard :: "int \<Rightarrow> automation_limits \<Rightarrow> guard_verdict" where
  "overlap_guard other_live_runs limits =
     (if other_live_runs = 0 then Allow
      else if limit_overlap limits = OverlapQueue then Defer defer_delay_ms
      else Skip SkipOverlapping)"

definition capacity_guard :: "int \<Rightarrow> automation_limits \<Rightarrow> guard_verdict" where
  "capacity_guard live_on_host limits =
     (if live_runs_per_host limits \<le> live_on_host then Defer defer_delay_ms else Allow)"

definition disk_guard :: "int option \<Rightarrow> automation_limits \<Rightarrow> guard_verdict" where
  "disk_guard free_bytes limits =
     (case free_bytes of None \<Rightarrow> Allow
      | Some b \<Rightarrow> if b < disk_floor_bytes limits then Defer defer_delay_ms else Allow)"

lemmas guard_defs =
  paused_guard_def loop_guard_def rate_guard_def missed_slot_guard_def stale_guard_def
  overlap_guard_def capacity_guard_def disk_guard_def

lemma first_refusal_Allow: "first_refusal vs = Allow \<longleftrightarrow> (\<forall>v \<in> set vs. v = Allow)"
  by (induction vs) auto

lemma first_refusal_decides:
  "first_refusal vs \<noteq> Allow \<Longrightarrow>
     \<exists>before after. vs = before @ first_refusal vs # after \<and> (\<forall>v \<in> set before. v = Allow)"
proof (induction vs)
  case (Cons v vs)
  show ?case
  proof (cases "v = Allow")
    case True
    with Cons obtain before after where "vs = before @ first_refusal vs # after" "\<forall>v \<in> set before. v = Allow"
      by auto
    with True show ?thesis by (intro exI [of _ "v # before"] exI [of _ after]) auto
  qed (auto intro: exI [of _ "[]"])
qed simp

subsection \<open>Refusals of a launch\<close>

record run_refusal =
  refusal_reason :: skip_reason
  refusal_pause :: "paused_reason option"

definition run_refusals :: "(string \<times> run_refusal) list" where
  "run_refusals =
     [(''HOSTS_001'', \<lparr>refusal_reason = SkipNotLaunchable, refusal_pause = Some PausedHostUnpaired\<rparr>),
      (''SESSIONS_011'', \<lparr>refusal_reason = SkipAgentUnavailable, refusal_pause = None\<rparr>),
      (''SESSIONS_037'', \<lparr>refusal_reason = SkipAgentUnavailable, refusal_pause = None\<rparr>),
      (''AUTOMATIONS_005'', \<lparr>refusal_reason = SkipAgentUnavailable, refusal_pause = None\<rparr>),
      (''SESSIONS_006'', \<lparr>refusal_reason = SkipNotLaunchable, refusal_pause = Some PausedProjectArchived\<rparr>),
      (''PROJECTS_001'', \<lparr>refusal_reason = SkipNotLaunchable, refusal_pause = Some PausedProjectArchived\<rparr>),
      (''PROJECTS_004'', \<lparr>refusal_reason = SkipNotLaunchable, refusal_pause = Some PausedProjectArchived\<rparr>),
      (''GITHUB_001'', \<lparr>refusal_reason = SkipNotLaunchable, refusal_pause = None\<rparr>),
      (''GITHUB_010'', \<lparr>refusal_reason = SkipNotLaunchable, refusal_pause = None\<rparr>),
      (''CLOUD_AGENTS_004'', \<lparr>refusal_reason = SkipNotLaunchable, refusal_pause = Some PausedCloudKeyMissing\<rparr>),
      (''CLOUD_AGENTS_005'', \<lparr>refusal_reason = SkipNotLaunchable, refusal_pause = Some PausedCloudKeyMissing\<rparr>),
      (''CLOUD_AGENTS_003'', \<lparr>refusal_reason = SkipNotLaunchable, refusal_pause = None\<rparr>),
      (''CLOUD_AGENTS_010'', \<lparr>refusal_reason = SkipNotLaunchable, refusal_pause = None\<rparr>)]"

definition run_refusal_of :: "string option \<Rightarrow> run_refusal option" where
  "run_refusal_of code = Option.bind code (map_of run_refusals)"

subsection \<open>At firing\<close>

text \<open>The run an event or a due slot makes: skipped by the first guard that refuses, else pending.\<close>

definition event_verdict :: "bool \<Rightarrow> automation_limits \<Rightarrow> recent_runs \<Rightarrow> guard_verdict" where
  "event_verdict actor_is_own_app limits recent =
     first_refusal [loop_guard actor_is_own_app, rate_guard limits recent False]"

definition schedule_verdict :: "date \<Rightarrow> date \<Rightarrow> automation_limits \<Rightarrow> recent_runs \<Rightarrow> guard_verdict" where
  "schedule_verdict scheduled_for now limits recent =
     first_refusal [missed_slot_guard scheduled_for now limits, rate_guard limits recent False]"

definition run_of_verdict :: "guard_verdict \<Rightarrow> string \<Rightarrow> new_run \<Rightarrow> date \<Rightarrow> domain_error + automation_run" where
  "run_of_verdict v uuid p now =
     (case v of Skip reason \<Rightarrow> skipped_run uuid p reason now | _ \<Rightarrow> fire_run uuid p now)"

subsection \<open>At dispatch\<close>

text \<open>What the dispatcher decides; \<open>'l\<close> is what the target would launch.\<close>

datatype 'l dispatch_decision =
    DecideSkip skip_reason "paused_reason option"
  | DecideDefer date
  | DecideExpire
  | DecideLaunch 'l

definition claim_lost_delay_ms :: int where
  "claim_lost_delay_ms = 5000"

text \<open>
  \<open>SessionRunTarget.decide\<close>: the counts, the host's free disk and whether the slot was claimed are
  read from the runs' repository; \<open>session_of\<close> is what the session the run would start came to.
\<close>

definition session_target_decide ::
  "automation_limits \<Rightarrow> date \<Rightarrow> int \<Rightarrow> int \<Rightarrow> int option \<Rightarrow> bool \<Rightarrow> 'l dispatch_decision \<Rightarrow> 'l dispatch_decision" where
  "session_target_decide limits now other_live live_on_host free_disk claimed session_of =
     (case first_refusal [overlap_guard other_live limits, capacity_guard live_on_host limits,
              disk_guard free_disk limits] of
        Skip reason \<Rightarrow> DecideSkip reason None
      | Defer delay \<Rightarrow> DecideDefer (now + delay)
      | _ \<Rightarrow> (if \<not> claimed then DecideDefer (now + claim_lost_delay_ms) else session_of))"

definition dispatch_decide ::
  "bool \<Rightarrow> bool \<Rightarrow> automation_run \<Rightarrow> automation_limits \<Rightarrow> bool \<Rightarrow> bool \<Rightarrow> date \<Rightarrow> 'l dispatch_decision \<Rightarrow>
     'l dispatch_decision" where
  "dispatch_decide deleted paused r limits owner_in_scope event_found now target =
     (if deleted then DecideSkip SkipDeleted None
      else (case first_refusal [paused_guard paused (run_cause r = CauseManual),
                stale_guard (run_created_at r) now limits] of
              Expire \<Rightarrow> DecideExpire
            | Skip reason \<Rightarrow> DecideSkip reason None
            | _ \<Rightarrow>
                (if \<not> owner_in_scope then DecideSkip SkipNotLaunchable (Some PausedOwnerLostAccess)
                 else if run_cause r = CauseEvent \<and> \<not> event_found then DecideSkip SkipNotLaunchable None
                 else target)))"

text \<open>
  What the handler writes of a decision: the run as it is saved, and the reason its automation is
  paused for. \<open>launched\<close> is what the launch came to: what it became, or the code of the error it
  threw; a code with no refusal is a fault, which leaves the run for the queue to try again.
\<close>

definition settle_run ::
  "'l dispatch_decision \<Rightarrow> (string option + run_dispatch_ref) \<Rightarrow> string \<Rightarrow> date \<Rightarrow> automation_run \<Rightarrow>
     domain_error + (automation_run \<times> paused_reason option)" where
  "settle_run decision launched revision_id now r =
     (case decision of
        DecideSkip reason pause \<Rightarrow> map_sum id (\<lambda>r'. (r', pause)) (skip_run reason now r)
      | DecideExpire \<Rightarrow> map_sum id (\<lambda>r'. (r', None)) (expire_run now r)
      | DecideDefer until \<Rightarrow> map_sum id (\<lambda>r'. (r', None)) (defer_run until now r)
      | DecideLaunch l \<Rightarrow>
          (case launched of
             Inr ref \<Rightarrow> map_sum id (\<lambda>r'. (r', None)) (dispatched_run ref revision_id now now r)
           | Inl code \<Rightarrow>
               (case run_refusal_of code of
                  None \<Rightarrow> Inr (r, None)
                | Some refusal \<Rightarrow>
                    map_sum id (\<lambda>r'. (r', refusal_pause refusal)) (skip_run (refusal_reason refusal) now r))))"

text \<open>A run past its time to live is settled by the next look at it, whatever else is true.\<close>

lemma stale_run_decided:
  assumes "stale_ttl_seconds limits * 1000 < now - run_created_at r"
  shows "dispatch_decide deleted paused r limits owner event now target \<in>
    {DecideSkip SkipDeleted None, DecideSkip SkipPaused None, DecideExpire}"
  using assms by (auto simp: dispatch_decide_def paused_guard_def stale_guard_def)

lemma settle_run_settles:
  assumes "run_outcome r = RunPending" and "\<And>until. d \<noteq> DecideDefer until" and "\<And>l. d \<noteq> DecideLaunch l"
  shows "\<exists>r' pause. settle_run d launched rid now r = Inr (r', pause) \<and> run_outcome r' \<noteq> RunPending"
  using assms by (cases d) (auto simp: settle_run_def run_op_defs)

lemma settle_run_step:
  "settle_run d launched rid now r = Inr (r', pause) \<Longrightarrow> r' = r \<or> run_step r r'"
  by (auto simp: settle_run_def map_sum_def split: dispatch_decision.splits sum.splits option.splits
      intro: run_step.intros)

end
