(* ===== verification/Js_Date.thy ===== *)
theory Js_Date
  imports Js_Prelude
begin

section \<open>The calendar of \<open>Date\<close>\<close>

text \<open>
  \<open>Date.UTC\<close> and the UTC readings of a \<open>Date\<close>: the day number of a calendar date in the proleptic
  Gregorian calendar, and the date of a day number (\<open>civil_of_days\<close>). The lemmas show the two are
  inverse, and that a day's fields are in their ranges.
\<close>

definition days_of_civil :: "int \<Rightarrow> int \<Rightarrow> int \<Rightarrow> int" where
  "days_of_civil y m d =
     (let y' = (if m \<le> 2 then y - 1 else y);
          era = y' div 400;
          yoe = y' mod 400;
          mp = (if 2 < m then m - 3 else m + 9);
          doy = (153 * mp + 2) div 5 + d - 1;
          doe = yoe * 365 + yoe div 4 - yoe div 100 + doy
      in era * 146097 + doe - 719468)"

definition ms_per_minute :: int where "ms_per_minute = 60000"
definition ms_per_hour :: int where "ms_per_hour = 3600000"
definition ms_per_day :: int where "ms_per_day = 86400000"

text \<open>
  \<open>Date.UTC(year, month, day, hour, minute)\<close>, its month counted from 0: a year of one or two
  digits is in the twentieth century, and a month or a day out of its range carries over.
\<close>

definition date_utc :: "int \<Rightarrow> int \<Rightarrow> int \<Rightarrow> int \<Rightarrow> int \<Rightarrow> date" where
  "date_utc y m d h mi =
     (let year = (if 0 \<le> y \<and> y \<le> 99 then 1900 + y else y)
      in (days_of_civil (year + m div 12) (m mod 12 + 1) 1 + d - 1) * ms_per_day +
         h * ms_per_hour + mi * ms_per_minute)"

definition utc_day_number :: "date \<Rightarrow> int" where
  "utc_day_number t = t div ms_per_day"

definition utc_year :: "date \<Rightarrow> int" where "utc_year t = fst (civil_of_days (utc_day_number t))"
definition utc_month :: "date \<Rightarrow> int" where "utc_month t = fst (snd (civil_of_days (utc_day_number t))) - 1"
definition utc_date :: "date \<Rightarrow> int" where "utc_date t = snd (snd (civil_of_days (utc_day_number t)))"
definition utc_hours :: "date \<Rightarrow> int" where "utc_hours t = t div ms_per_hour mod 24"

text \<open>\<open>getUTCDay\<close>: 0 is Sunday, and 1970-01-01 was a Thursday.\<close>

definition utc_weekday :: "date \<Rightarrow> int" where "utc_weekday t = (utc_day_number t + 4) mod 7"

lemmas ms_defs = ms_per_minute_def ms_per_hour_def ms_per_day_def

subsection \<open>Day numbers and calendar dates\<close>

text \<open>
  A day of an era is day \<open>e\<close> of its century \<open>b\<close>, and the year of the century is found from the
  leap days before it. The last day of the era is a century of its own.
\<close>

lemma era_century:
  fixes b e :: int
  assumes "0 \<le> b" "b \<le> 3" "0 \<le> e" "e < 36524"
  defines "g \<equiv> (24 * b + e) div 1460"
  defines "t \<equiv> (e - g) div 365"
  shows "era_year (36524 * b + e) = 100 * b + t" "0 \<le> t" "t \<le> 99"
    "era_day (36524 * b + e) = e - 365 * t - t div 4"
    "0 \<le> e - 365 * t - t div 4" "e - 365 * t - t div 4 \<le> 366"
proof -
  have g: "1460 * g \<le> 24 * b + e" "24 * b + e < 1460 * g + 1460" "0 \<le> g"
    using assms(1,3) unfolding g_def by (auto simp: pos_imp_zdiv_nonneg_iff)
  have a: "(36524 * b + e) div 1460 = 25 * b + g"
  proof -
    have "36524 * b + e = (24 * b + e) + (25 * b) * 1460" by simp
    then show ?thesis unfolding g_def by (metis add.commute div_mult_self1 zero_neq_numeral)
  qed
  have b': "(36524 * b + e) div 36524 = b" using assms(3,4) by simp
  have c': "(36524 * b + e) div 146096 = 0" using assms(1-4) by (intro div_pos_pos_trivial) linarith+
  have "36524 * b + e - (25 * b + g) + b = (e - g) + (100 * b) * 365" by simp
  then have y: "era_year (36524 * b + e) = 100 * b + t"
    unfolding era_year_def a b' c' t_def by (metis diff_zero div_mult_self1 zero_neq_numeral)
  then show "era_year (36524 * b + e) = 100 * b + t" .
  have t: "365 * t \<le> e - g" "e - g < 365 * t + 365"
    unfolding t_def by linarith+
  have "g \<le> e" using g(1) assms(2,3) g(3) by (cases "g = 0") linarith+
  with t show t0: "0 \<le> t" by linarith
  show t99: "t \<le> 99"
  proof (rule ccontr)
    assume "\<not> t \<le> 99"
    then have "36500 + g \<le> e" using t by linarith
    then have "25 \<le> g" using g assms(1) by linarith
    with \<open>36500 + g \<le> e\<close> assms(4) show False by linarith
  qed
  have "(100 * b + t) div 4 = 25 * b + t div 4" by (simp add: div_add1_eq)
  moreover have "(100 * b + t) div 100 = b" using t0 t99 by simp
  ultimately show "era_day (36524 * b + e) = e - 365 * t - t div 4"
    unfolding era_day_def y by simp
  have p: "4 * (t div 4) \<le> t" "t < 4 * (t div 4) + 4" "0 \<le> t div 4" "t div 4 \<le> 24"
    using t0 t99 by linarith+
  show "0 \<le> e - 365 * t - t div 4"
  proof (rule ccontr)
    assume "\<not> 0 \<le> e - 365 * t - t div 4"
    then have "g < t div 4" using t by linarith
    with g t p assms(1) show False by linarith
  qed
  show "e - 365 * t - t div 4 \<le> 366"
  proof (rule ccontr)
    assume "\<not> e - 365 * t - t div 4 \<le> 366"
    then have "t div 4 + 2 < g" using t by linarith
    with g t p assms(2) show False by linarith
  qed
qed

lemma era_bounds:
  assumes "0 \<le> doe" "doe \<le> 146096"
  shows "0 \<le> era_year doe \<and> era_year doe \<le> 399 \<and> 0 \<le> era_day doe \<and> era_day doe \<le> 366"
proof (cases "doe = 146096")
  case True
  then show ?thesis by (simp add: era_year_def era_day_def)
next
  case False
  obtain b e where be: "doe = 36524 * b + e" "0 \<le> e" "e < 36524"
    by (rule that [of "doe div 36524" "doe mod 36524"]) simp_all
  have "doe < 146096" using assms(2) False by simp
  then have b: "0 \<le> b" "b \<le> 3" using be assms(1) by linarith+
  show ?thesis
    using era_century [OF b be(2,3)] b unfolding be(1) by (intro conjI) linarith+
qed

text \<open>The month and the day of the month, of the day of a year that begins in March.\<close>

lemma month_of_day:
  fixes doy :: int
  assumes "0 \<le> doy" "doy \<le> 366"
  defines "mp \<equiv> (5 * doy + 2) div 153"
  shows "0 \<le> mp" "mp \<le> 11" "1 \<le> doy - (153 * mp + 2) div 5 + 1" "doy - (153 * mp + 2) div 5 + 1 \<le> 31"
proof -
  have mp: "153 * mp \<le> 5 * doy + 2" "5 * doy + 2 < 153 * mp + 153"
    unfolding mp_def by linarith+
  show "0 \<le> mp" "mp \<le> 11" using mp assms(1,2) by linarith+
  have "5 * ((153 * mp + 2) div 5) \<le> 153 * mp + 2" "153 * mp + 2 < 5 * ((153 * mp + 2) div 5) + 5"
    by linarith+
  with mp show "1 \<le> doy - (153 * mp + 2) div 5 + 1" "doy - (153 * mp + 2) div 5 + 1 \<le> 31"
    by linarith+
qed

text \<open>What \<open>civil_of_days\<close> computes of a day: the era, the year and the day of it, and the month.\<close>

lemma civil_parts:
  obtains era yoe doy mp where
    "n = era * 146097 + (yoe * 365 + yoe div 4 - yoe div 100 + doy) - 719468"
    "0 \<le> yoe" "yoe \<le> 399" "0 \<le> mp" "mp \<le> 11"
    "1 \<le> doy - (153 * mp + 2) div 5 + 1" "doy - (153 * mp + 2) div 5 + 1 \<le> 31"
    "civil_of_days n =
      (yoe + era * 400 + (if (if mp < 10 then mp + 3 else mp - 9) \<le> 2 then 1 else 0),
       if mp < 10 then mp + 3 else mp - 9, doy - (153 * mp + 2) div 5 + 1)"
proof -
  define era doe where "era = (n + 719468) div 146097" and "doe = (n + 719468) mod 146097"
  define yoe doy where "yoe = era_year doe" and "doy = era_day doe"
  define mp where "mp = (5 * doy + 2) div 153"
  have doe: "0 \<le> doe" "doe \<le> 146096"
    unfolding doe_def using pos_mod_bound [of 146097 "n + 719468"] by simp_all
  have b: "0 \<le> yoe" "yoe \<le> 399" "0 \<le> doy" "doy \<le> 366"
    using era_bounds [OF doe] by (simp_all add: yoe_def doy_def)
  have "n + 719468 = era * 146097 + doe"
    unfolding era_def doe_def by (rule div_mult_mod_eq [symmetric])
  moreover have "doe = yoe * 365 + yoe div 4 - yoe div 100 + doy"
    unfolding doy_def yoe_def era_day_def by (simp only: algebra_simps)
  ultimately have n: "n = era * 146097 + (yoe * 365 + yoe div 4 - yoe div 100 + doy) - 719468"
    by linarith
  have c: "civil_of_days n =
      (yoe + era * 400 + (if (if mp < 10 then mp + 3 else mp - 9) \<le> 2 then 1 else 0),
       if mp < 10 then mp + 3 else mp - 9, doy - (153 * mp + 2) div 5 + 1)"
    unfolding civil_of_days_def Let_def era_def doe_def yoe_def doy_def mp_def by (rule refl)
  show ?thesis
    by (rule that [OF n b(1,2) _ _ _ _ c]) (use month_of_day [OF b(3,4)] in \<open>simp_all only: mp_def\<close>)
qed

lemma days_of_civil_of_days:
  "civil_of_days n = (y, m, d) \<Longrightarrow> days_of_civil y m d = n"
proof -
  assume c: "civil_of_days n = (y, m, d)"
  obtain era yoe doy mp where p: "n = era * 146097 + (yoe * 365 + yoe div 4 - yoe div 100 + doy) - 719468"
    "0 \<le> yoe" "yoe \<le> 399" "0 \<le> mp" "mp \<le> 11"
    "civil_of_days n =
      (yoe + era * 400 + (if (if mp < 10 then mp + 3 else mp - 9) \<le> 2 then 1 else 0),
       if mp < 10 then mp + 3 else mp - 9, doy - (153 * mp + 2) div 5 + 1)"
    by (rule civil_parts)
  have e: "(yoe + era * 400) div 400 = era" "(yoe + era * 400) mod 400 = yoe"
    using p(2,3) by simp_all
  have d: "d = doy - (153 * mp + 2) div 5 + 1" using c p(6) by simp
  have m: "(if 2 < m then m - 3 else m + 9) = mp" and y: "(if m \<le> 2 then y - 1 else y) = yoe + era * 400"
    using c p(4-6) by (auto split: if_splits)
  show ?thesis
    unfolding days_of_civil_def Let_def m y e d p(1) by linarith
qed

lemma civil_ranges:
  "civil_of_days n = (y, m, d) \<Longrightarrow> 1 \<le> m \<and> m \<le> 12 \<and> 1 \<le> d \<and> d \<le> 31"
proof -
  assume c: "civil_of_days n = (y, m, d)"
  obtain yr mp dd where "0 \<le> mp" "mp \<le> 11" "1 \<le> dd" "dd \<le> 31"
    "civil_of_days n = (yr, if mp < 10 then mp + 3 else mp - 9, dd)"
    by (rule civil_parts)
  with c show ?thesis by auto
qed

subsection \<open>The other way, for a day every month has\<close>

lemma era_year_of_start:
  fixes yoe j :: int
  assumes "0 \<le> yoe" "yoe \<le> 399" "0 \<le> j" "j \<le> 364"
  shows "era_year (yoe * 365 + yoe div 4 - yoe div 100 + j) = yoe"
    "era_day (yoe * 365 + yoe div 4 - yoe div 100 + j) = j"
proof -
  obtain b t where bt: "yoe = 100 * b + t" "0 \<le> t" "t \<le> 99"
    by (rule that [of "yoe div 100" "yoe mod 100"]) simp_all
  then have b: "0 \<le> b" "b \<le> 3" using assms(1,2) by linarith+
  define e where "e = 365 * t + t div 4 + j"
  have p: "4 * (t div 4) \<le> t" "t < 4 * (t div 4) + 4" "0 \<le> t div 4" "t div 4 \<le> 24"
    using bt(2,3) by linarith+
  have e: "0 \<le> e" "e < 36524" unfolding e_def using bt assms p by linarith+
  have q4: "yoe div 4 = 25 * b + t div 4"
  proof -
    have "yoe = t + (25 * b) * 4" unfolding bt(1) by simp
    then show ?thesis by (metis div_mult_self1 zero_neq_numeral)
  qed
  have q: "yoe div 100 = b" unfolding bt(1) using bt(2,3) by simp
  have doe: "yoe * 365 + yoe div 4 - yoe div 100 + j = 36524 * b + e"
    unfolding q q4 e_def by (simp add: bt(1))
  define g where "g = (24 * b + e) div 1460"
  have g: "1460 * g \<le> 24 * b + e" "24 * b + e < 1460 * g + 1460" unfolding g_def by linarith+
  have lower: "t div 4 \<le> g" using g p b bt(2) assms(3) unfolding e_def by linarith
  have upper: "g \<le> t div 4 + j" using g p b bt assms(3) unfolding e_def by linarith
  have dv: "(e - g) div 365 = t"
  proof -
    have "e - g = (t div 4 + j - g) + t * 365" unfolding e_def by simp
    then have "(e - g) div 365 = ((t div 4 + j - g) + t * 365) div 365" by (rule arg_cong)
    also have "\<dots> = t + (t div 4 + j - g) div 365" by (rule div_mult_self1) simp
    also have "(t div 4 + j - g) div 365 = 0"
      using lower upper assms(3,4) by (intro div_pos_pos_trivial) linarith+
    finally show ?thesis by (rule trans) (rule add_0_right)
  qed
  note century = era_century [OF b e, folded g_def, unfolded dv]
  show "era_year (yoe * 365 + yoe div 4 - yoe div 100 + j) = yoe"
    unfolding doe century(1) by (rule bt(1) [symmetric])
  have "e - 365 * t - t div 4 = j" unfolding e_def by linarith
  then show "era_day (yoe * 365 + yoe div 4 - yoe div 100 + j) = j"
    unfolding doe century(4) .
qed

lemma civil_of_days_of_civil:
  assumes "1 \<le> m" "m \<le> 12" "1 \<le> d" "d \<le> 28"
  shows "civil_of_days (days_of_civil y m d) = (y, m, d)"
proof -
  define mp where "mp = (if 2 < m then m - 3 else m + 9)"
  define y' where "y' = (if m \<le> 2 then y - 1 else y)"
  define yoe where "yoe = y' mod 400"
  define doy where "doy = (153 * mp + 2) div 5 + d - 1"
  define doe where "doe = yoe * 365 + yoe div 4 - yoe div 100 + doy"
  have mp: "0 \<le> mp" "mp \<le> 11" using assms(1,2) unfolding mp_def by auto
  have c: "5 * ((153 * mp + 2) div 5) \<le> 153 * mp + 2" "153 * mp + 2 < 5 * ((153 * mp + 2) div 5) + 5"
    by linarith+
  have doy: "0 \<le> doy" "doy \<le> 364" using mp c assms(3,4) unfolding doy_def by linarith+
  have yoe: "0 \<le> yoe" "yoe \<le> 399" unfolding yoe_def using pos_mod_bound [of 400 y'] by simp_all
  have era: "era_year doe = yoe" "era_day doe = doy"
    unfolding doe_def using era_year_of_start [OF yoe doy] by simp_all
  have m: "(5 * doy + 2) div 153 = mp"
  proof -
    have "doy = (153 * mp + 2) div 5 + (d - 1)" unfolding doy_def by simp
    then have "153 * mp \<le> 5 * doy + 2" "5 * doy + 2 < 153 * mp + 153"
      using c assms(3,4) by (auto simp: algebra_simps)
    then show ?thesis by (intro int_div_pos_eq [where r = "5 * doy + 2 - 153 * mp"]) auto
  qed
  have "yoe div 4 - yoe div 100 \<le> 100" "0 \<le> yoe div 4 - yoe div 100" using yoe by linarith+
  then have doe: "0 \<le> doe" "doe < 146097" using yoe doy unfolding doe_def by linarith+
  have n: "days_of_civil y m d + 719468 = doe + (y' div 400) * 146097"
    by (simp add: days_of_civil_def Let_def doe_def yoe_def doy_def mp_def y'_def)
  have z: "(days_of_civil y m d + 719468) div 146097 = y' div 400"
    "(days_of_civil y m d + 719468) mod 146097 = doe"
    unfolding n using doe by simp_all
  have "yoe + y' div 400 * 400 = y'" unfolding yoe_def by simp
  then show ?thesis
    unfolding civil_of_days_def Let_def z era m using assms(1,2)
    by (auto simp: mp_def y'_def doy_def)
qed

subsection \<open>\<open>Date.UTC\<close> and the UTC readings\<close>

lemma days_of_civil_day: "days_of_civil y m 1 + d - 1 = days_of_civil y m d"
  by (simp add: days_of_civil_def Let_def)

text \<open>Dates after the years \<open>Date.UTC\<close> reads as the twentieth century's.\<close>

lemma utc_year_modern:
  assumes "- 30 \<le> n" "civil_of_days n = (y, m, d)"
  shows "100 \<le> y"
proof -
  obtain era yoe doy mp where p: "n = era * 146097 + (yoe * 365 + yoe div 4 - yoe div 100 + doy) - 719468"
    "0 \<le> yoe" "yoe \<le> 399" "0 \<le> mp" "mp \<le> 11"
    "doy - (153 * mp + 2) div 5 + 1 \<le> 31"
    "civil_of_days n =
      (yoe + era * 400 + (if (if mp < 10 then mp + 3 else mp - 9) \<le> 2 then 1 else 0),
       if mp < 10 then mp + 3 else mp - 9, doy - (153 * mp + 2) div 5 + 1)"
    by (rule civil_parts)
  have "(153 * mp + 2) div 5 \<le> 337" "yoe div 4 \<le> 99" "0 \<le> yoe div 100" using p(2-5) by linarith+
  then have "4 \<le> era" using assms(1) p by linarith
  moreover have "yoe + era * 400 \<le> y" using assms(2) p(7) by (auto split: if_splits)
  ultimately show ?thesis using p(2) by linarith
qed

lemma date_utc_fields:
  assumes "civil_of_days n = (y, m, d)" "- 30 \<le> n"
  shows "date_utc y (m - 1) d h mi = n * ms_per_day + h * ms_per_hour + mi * ms_per_minute"
proof -
  have "100 \<le> y" using utc_year_modern [OF assms(2,1)] .
  moreover have "1 \<le> m" "m \<le> 12" using civil_ranges [OF assms(1)] by auto
  moreover have "days_of_civil y m 1 + d - 1 = n"
    using days_of_civil_of_days [OF assms(1)] by (simp add: days_of_civil_day)
  ultimately show ?thesis by (simp add: date_utc_def Let_def)
qed

lemma utc_day_number_day [simp]: "utc_day_number (n * ms_per_day) = n"
  by (simp add: utc_day_number_def ms_defs)

lemma civil_of_utc: "civil_of_days (utc_day_number t) = (utc_year t, utc_month t + 1, utc_date t)"
  by (simp add: utc_year_def utc_month_def utc_date_def)

end
