(* ===== verification/Schedule.thy ===== *)
theory Schedule
  imports Js_Date
begin

section \<open>Schedule rules\<close>

text \<open>
  \<^verbatim>\<open>packages/shared/src/automations/schedule.ts\<close>: a wall-clock rule plus a zone, and the instant it next fires.
  What \<open>Intl\<close> knows of a zone is a parameter, the zone's offset from UTC at an instant in
  milliseconds; an instant's wall time is the UTC reading of the instant moved by it. The lemmas
  show that a slot is strictly later than the instant asked about, that it is the first day that
  qualifies, that it shows the rule's wall time whenever that time exists, and that a rule with
  something to fire on always has a next slot.
\<close>

type_synonym zone = "date \<Rightarrow> int"

datatype schedule_frequency = Once | Hourly | Daily | Weekdays | Weekly | Monthly

record schedule_rule =
  rule_frequency :: schedule_frequency
  rule_hour :: int
  rule_minute :: int
  rule_days :: "int list option"
  rule_day_of_month :: "int option"
  rule_date :: "string option"
  rule_timezone :: string

record wall_time =
  wall_year :: int
  wall_month :: int
  wall_day :: int
  wall_hour :: int
  wall_minute :: int

text \<open>The wall time an instant shows in a zone, to the minute.\<close>

definition wall_time_at :: "zone \<Rightarrow> date \<Rightarrow> wall_time" where
  "wall_time_at zone instant =
     (let l = instant + zone instant in
      \<lparr>wall_year = utc_year l, wall_month = utc_month l + 1, wall_day = utc_date l,
       wall_hour = utc_hours l, wall_minute = l div ms_per_minute mod 60\<rparr>)"

definition wall_as_utc :: "wall_time \<Rightarrow> date" where
  "wall_as_utc w = date_utc (wall_year w) (wall_month w - 1) (wall_day w) (wall_hour w) (wall_minute w)"

definition floor_minute :: "date \<Rightarrow> date" where
  "floor_minute t = t div ms_per_minute * ms_per_minute"

definition offset_at :: "zone \<Rightarrow> date \<Rightarrow> int" where
  "offset_at zone instant =
     wall_as_utc (wall_time_at zone (floor_minute instant)) - floor_minute instant"

text \<open>The two instants a wall time could be: by the offset half a day before, and half a day after.\<close>

definition zone_candidates :: "zone \<Rightarrow> wall_time \<Rightarrow> date list" where
  "zone_candidates zone w =
     (let local = wall_as_utc w;
          before = offset_at zone (local - 12 * ms_per_hour);
          after = offset_at zone (local + 12 * ms_per_hour)
      in remdups [local - before, local - after])"

definition zoned_wall_time_to_instant :: "zone \<Rightarrow> wall_time \<Rightarrow> date" where
  "zoned_wall_time_to_instant zone w =
     (let local = wall_as_utc w;
          valid = filter (\<lambda>instant. wall_as_utc (wall_time_at zone instant) = local) (zone_candidates zone w)
      in if valid \<noteq> [] then Min (set valid)
         else local - offset_at zone (local - 12 * ms_per_hour))"

definition add_days :: "wall_time \<Rightarrow> int \<Rightarrow> wall_time" where
  "add_days w offset =
     (let shifted = date_utc (wall_year w) (wall_month w - 1) (wall_day w) 0 0 + offset * ms_per_day
      in w\<lparr>wall_year := utc_year shifted, wall_month := utc_month shifted + 1,
           wall_day := utc_date shifted\<rparr>)"

definition weekday_of :: "wall_time \<Rightarrow> int" where
  "weekday_of w = utc_weekday (date_utc (wall_year w) (wall_month w - 1) (wall_day w) 0 0)"

definition day_qualifies :: "schedule_rule \<Rightarrow> wall_time \<Rightarrow> bool" where
  "day_qualifies rule w =
     (case rule_frequency rule of
        Daily \<Rightarrow> True
      | Weekdays \<Rightarrow> 1 \<le> weekday_of w \<and> weekday_of w \<le> 5
      | Weekly \<Rightarrow> weekday_of w \<in> set (case rule_days rule of None \<Rightarrow> [] | Some ds \<Rightarrow> ds)
      | Monthly \<Rightarrow> rule_day_of_month rule = Some (wall_day w)
      | _ \<Rightarrow> False)"

definition digits_value :: "string \<Rightarrow> int" where
  "digits_value s = foldl (\<lambda>v c. 10 * v + (of_char c - 48)) 0 s"

text \<open>\<^verbatim>\<open>/^(\d{4})-(\d{2})-(\d{2})$/\<close>\<close>

definition parse_date :: "string option \<Rightarrow> (int \<times> int \<times> int) option" where
  "parse_date value =
     (let s = (case value of None \<Rightarrow> [] | Some v \<Rightarrow> v);
          y = take 4 s; m = take 2 (drop 5 s); d = drop 8 s
      in if length s = 10 \<and> list_all is_digit y \<and> s ! 4 = CHR ''-'' \<and> list_all is_digit m \<and>
            s ! 7 = CHR ''-'' \<and> list_all is_digit d
         then Some (digits_value y, digits_value m, digits_value d) else None)"

fun first_some :: "('a \<Rightarrow> 'b option) \<Rightarrow> 'a list \<Rightarrow> 'b option" where
  "first_some f [] = None"
| "first_some f (x # xs) = (case f x of None \<Rightarrow> first_some f xs | Some y \<Rightarrow> Some y)"

text \<open>The bodies of the two loops: the instant a step lands on, when it is late enough.\<close>

definition hourly_slot :: "zone \<Rightarrow> schedule_rule \<Rightarrow> wall_time \<Rightarrow> date \<Rightarrow> nat \<Rightarrow> date option" where
  "hourly_slot zone rule start after step =
     (let hour_start = date_utc (wall_year start) (wall_month start - 1) (wall_day start) (wall_hour start) 0 +
                       int step * ms_per_hour;
          instant = zoned_wall_time_to_instant zone
            \<lparr>wall_year = utc_year hour_start, wall_month = utc_month hour_start + 1,
             wall_day = utc_date hour_start, wall_hour = utc_hours hour_start,
             wall_minute = rule_minute rule\<rparr>
      in if after < instant then Some instant else None)"

definition daily_slot :: "zone \<Rightarrow> schedule_rule \<Rightarrow> wall_time \<Rightarrow> date \<Rightarrow> nat \<Rightarrow> date option" where
  "daily_slot zone rule start after offset =
     (let day = add_days start (int offset) in
      if \<not> day_qualifies rule day then None
      else let instant = zoned_wall_time_to_instant zone
                 (day\<lparr>wall_hour := rule_hour rule, wall_minute := rule_minute rule\<rparr>)
           in if after < instant then Some instant else None)"

definition hourly_steps :: "nat list" where "hourly_steps = [0..<49]"
definition daily_steps :: "nat list" where "daily_steps = [0..<63]"

definition next_schedule_occurrence :: "(string \<Rightarrow> zone) \<Rightarrow> schedule_rule \<Rightarrow> date \<Rightarrow> date option" where
  "next_schedule_occurrence zones rule after =
     (let zone = zones (rule_timezone rule) in
      case rule_frequency rule of
        Once \<Rightarrow>
          (case parse_date (rule_date rule) of
             None \<Rightarrow> None
           | Some (y, m, d) \<Rightarrow>
               (let instant = zoned_wall_time_to_instant zone
                      \<lparr>wall_year = y, wall_month = m, wall_day = d, wall_hour = rule_hour rule,
                       wall_minute = rule_minute rule\<rparr>
                in if after < instant then Some instant else None))
      | Hourly \<Rightarrow> first_some (hourly_slot zone rule (wall_time_at zone after) after) hourly_steps
      | _ \<Rightarrow> first_some (daily_slot zone rule (wall_time_at zone after) after) daily_steps)"

subsection \<open>A slot is after\<close>

lemma first_some_Some:
  "first_some f xs = Some y \<Longrightarrow>
     \<exists>before x rest. xs = before @ x # rest \<and> f x = Some y \<and> (\<forall>z \<in> set before. f z = None)"
proof (induction xs)
  case (Cons x xs)
  show ?case
  proof (cases "f x")
    case None
    with Cons obtain before z rest where
      "xs = before @ z # rest" "f z = Some y" "\<forall>z \<in> set before. f z = None" by auto
    with None show ?thesis by (intro exI [of _ "x # before"] exI [of _ z] exI [of _ rest]) auto
  next
    case (Some y')
    with Cons.prems show ?thesis by (intro exI [of _ "[]"] exI [of _ x] exI [of _ xs]) simp
  qed
qed simp

lemma slot_after:
  "hourly_slot zone rule start after k = Some t \<Longrightarrow> after < t"
  "daily_slot zone rule start after k = Some t \<Longrightarrow> after < t"
  by (auto simp: hourly_slot_def daily_slot_def Let_def split: if_splits)

lemma first_some_attained: "first_some f xs = Some y \<Longrightarrow> \<exists>x. f x = Some y"
  by (induction xs) (auto split: option.splits)

lemma next_after: "next_schedule_occurrence zones rule after = Some t \<Longrightarrow> after < t"
  by (auto simp: next_schedule_occurrence_def Let_def dest!: first_some_attained dest: slot_after
      split: schedule_frequency.splits option.splits prod.splits if_splits)

lemma first_some_exists: "x \<in> set xs \<Longrightarrow> f x \<noteq> None \<Longrightarrow> \<exists>y. first_some f xs = Some y"
  by (induction xs) (auto split: option.split)

lemma upt_split: "[0..<n] = before @ k # rest \<Longrightarrow> before = [0..<k] \<and> k < (n :: nat)"
proof -
  assume e: "[0..<n] = before @ k # rest"
  then have l: "length before < n" by (metis diff_zero length_append length_upt less_add_same_cancel1 list.size(4) zero_less_Suc add_Suc_right)
  have "k = [0..<n] ! length before" unfolding e by simp
  with l have k: "k = length before" by simp
  have "before = take (length before) [0..<n]" unfolding e by simp
  with l k show ?thesis by simp
qed

text \<open>The first day, counted from the day asked about, that qualifies and is late enough.\<close>

lemma next_daily:
  "rule_frequency rule \<notin> {Once, Hourly} \<Longrightarrow> next_schedule_occurrence zones rule after =
     first_some (daily_slot (zones (rule_timezone rule)) rule
       (wall_time_at (zones (rule_timezone rule)) after) after) daily_steps"
  by (cases "rule_frequency rule") (simp_all add: next_schedule_occurrence_def Let_def)

lemma next_first_day:
  assumes "rule_frequency rule \<notin> {Once, Hourly}" "next_schedule_occurrence zones rule after = Some t"
  shows "\<exists>k < 63.
    daily_slot (zones (rule_timezone rule)) rule (wall_time_at (zones (rule_timezone rule)) after) after k = Some t \<and>
    (\<forall>j < k. daily_slot (zones (rule_timezone rule)) rule
       (wall_time_at (zones (rule_timezone rule)) after) after j = None)"
proof -
  let ?f = "daily_slot (zones (rule_timezone rule)) rule (wall_time_at (zones (rule_timezone rule)) after) after"
  have "first_some ?f daily_steps = Some t"
    using assms(2) unfolding next_daily [OF assms(1)] .
  from first_some_Some [OF this] obtain before k rest where
    k: "daily_steps = before @ k # rest" "?f k = Some t" "\<forall>j \<in> set before. ?f j = None"
    by (elim exE conjE)
  from k(1) have "before = [0..<k] \<and> k < 63" unfolding daily_steps_def by (rule upt_split)
  with k(2,3) show ?thesis by (intro exI [of _ k]) simp
qed

subsection \<open>Wall times\<close>

text \<open>A wall time as the UTC reading of a shifted instant, and back, after the year 1969.\<close>

definition wall_of_utc :: "date \<Rightarrow> wall_time" where
  "wall_of_utc l =
     \<lparr>wall_year = utc_year l, wall_month = utc_month l + 1, wall_day = utc_date l,
      wall_hour = utc_hours l, wall_minute = l div ms_per_minute mod 60\<rparr>"

definition modern :: "date \<Rightarrow> bool" where
  "modern l \<longleftrightarrow> - 30 * ms_per_day \<le> l"

lemma wall_time_at_utc: "wall_time_at zone t = wall_of_utc (t + zone t)"
  by (simp add: wall_time_at_def wall_of_utc_def Let_def)

lemma modern_day: "modern l \<Longrightarrow> - 30 \<le> utc_day_number l"
  unfolding modern_def utc_day_number_def ms_defs by linarith

lemma minutes_of_day:
  "d * 24 + h = hours \<Longrightarrow> hours * 60 + mi = minutes \<Longrightarrow>
     d * ms_per_day + h * ms_per_hour + mi * ms_per_minute = minutes * ms_per_minute"
  unfolding ms_defs by linarith

lemma day_parts: "utc_day_number l * ms_per_day + utc_hours l * ms_per_hour + l div ms_per_minute mod 60 * ms_per_minute
    = floor_minute l"
proof -
  have h: "l div ms_per_hour = l div ms_per_minute div 60" "l div ms_per_day = l div ms_per_minute div 60 div 24"
    by (simp_all add: ms_defs flip: zdiv_zmult2_eq)
  show ?thesis
    unfolding utc_day_number_def utc_hours_def floor_minute_def h
    by (rule minutes_of_day [OF div_mult_mod_eq div_mult_mod_eq])
qed

lemma wall_as_utc_of_utc: "modern l \<Longrightarrow> wall_as_utc (wall_of_utc l) = floor_minute l"
  using date_utc_fields [OF civil_of_utc [of l] modern_day]
  by (simp add: wall_as_utc_def wall_of_utc_def day_parts)

lemma wall_of_utc_floor: "wall_of_utc (floor_minute l) = wall_of_utc l"
proof -
  have "floor_minute l div ms_per_minute = l div ms_per_minute"
    by (simp add: floor_minute_def ms_defs)
  moreover from this have "floor_minute l div ms_per_hour = l div ms_per_hour"
    "utc_day_number (floor_minute l) = utc_day_number l"
  proof -
    have "x div ms_per_hour = x div ms_per_minute div 60" "utc_day_number x = x div ms_per_minute div 1440" for x
      by (simp_all add: utc_day_number_def ms_defs flip: zdiv_zmult2_eq)
    with \<open>floor_minute l div ms_per_minute = l div ms_per_minute\<close>
    show "floor_minute l div ms_per_hour = l div ms_per_hour"
      "utc_day_number (floor_minute l) = utc_day_number l" by simp_all
  qed
  ultimately show ?thesis
    by (simp add: wall_of_utc_def utc_year_def utc_month_def utc_date_def utc_hours_def)
qed

text \<open>Counting days from a wall time.\<close>

lemma add_days_of_utc:
  assumes "modern l"
  shows "add_days (wall_of_utc l) k =
    (wall_of_utc l)
      \<lparr>wall_year := utc_year ((utc_day_number l + k) * ms_per_day),
       wall_month := utc_month ((utc_day_number l + k) * ms_per_day) + 1,
       wall_day := utc_date ((utc_day_number l + k) * ms_per_day)\<rparr>"
  using date_utc_fields [OF civil_of_utc [of l] modern_day [OF assms], of 0 0]
  by (simp add: add_days_def wall_of_utc_def Let_def distrib_right)

lemma day_instant:
  assumes "modern l" "0 \<le> k"
  shows "date_utc (wall_year (add_days (wall_of_utc l) k)) (wall_month (add_days (wall_of_utc l) k) - 1)
    (wall_day (add_days (wall_of_utc l) k)) h mi =
    (utc_day_number l + k) * ms_per_day + h * ms_per_hour + mi * ms_per_minute"
proof -
  have "- 30 \<le> utc_day_number l + k" using modern_day [OF assms(1)] assms(2) by simp
  then show ?thesis
    using date_utc_fields [OF civil_of_utc [of "(utc_day_number l + k) * ms_per_day"], of h mi]
    by (simp add: add_days_of_utc [OF assms(1)])
qed

lemma weekday_of_day:
  "modern l \<Longrightarrow> 0 \<le> k \<Longrightarrow> weekday_of (add_days (wall_of_utc l) k) = (utc_day_number l + k + 4) mod 7"
  by (simp add: weekday_of_def day_instant utc_weekday_def)

subsection \<open>Zones\<close>

text \<open>
  What holds of every IANA zone from 1973 on: its offset is whole minutes, and less than fifteen
  hours. \<open>since\<close> is the instant it holds from.
\<close>

definition regular_zone :: "date \<Rightarrow> zone \<Rightarrow> bool" where
  "regular_zone since zone \<longleftrightarrow>
     0 \<le> since \<and>
     (\<forall>t \<ge> since. ms_per_minute dvd zone t \<and> - 15 * ms_per_hour \<le> zone t \<and> zone t \<le> 15 * ms_per_hour)"

lemma regular_modern: "regular_zone since zone \<Longrightarrow> since \<le> t \<Longrightarrow> modern (t + zone t)"
  by (auto simp: regular_zone_def modern_def ms_defs)

lemma floor_minute_le: "floor_minute t \<le> t" "t < floor_minute t + ms_per_minute"
  unfolding floor_minute_def ms_defs by linarith+

lemma floor_minute_dvd: "ms_per_minute dvd t \<Longrightarrow> floor_minute t = t"
  by (simp add: floor_minute_def)

lemma dvd_floor_minute [simp]: "ms_per_minute dvd floor_minute t"
  by (simp add: floor_minute_def)

lemma offset_at_zone:
  assumes "regular_zone since zone" "since \<le> floor_minute t"
  shows "offset_at zone t = zone (floor_minute t)"
proof -
  have "ms_per_minute dvd zone (floor_minute t)" using assms by (simp add: regular_zone_def)
  then have "floor_minute (floor_minute t + zone (floor_minute t)) = floor_minute t + zone (floor_minute t)"
    by (intro floor_minute_dvd) simp
  then show ?thesis
    using wall_as_utc_of_utc [OF regular_modern [OF assms]] by (simp add: offset_at_def wall_time_at_utc)
qed

lemma offset_at_bounds:
  assumes "regular_zone since zone" "since + ms_per_minute \<le> t"
  shows "- 15 * ms_per_hour \<le> offset_at zone t" "offset_at zone t \<le> 15 * ms_per_hour"
proof -
  have "since \<le> floor_minute t" using assms(2) floor_minute_le(2) [of t] by linarith
  with assms(1) show "- 15 * ms_per_hour \<le> offset_at zone t" "offset_at zone t \<le> 15 * ms_per_hour"
    by (auto simp: offset_at_zone regular_zone_def)
qed

text \<open>The instant chosen for a wall time: one of two, and the earliest that shows it if one does.\<close>

lemma set_zone_candidates: "set (zone_candidates zone w) =
    {wall_as_utc w - offset_at zone (wall_as_utc w - 12 * ms_per_hour),
     wall_as_utc w - offset_at zone (wall_as_utc w + 12 * ms_per_hour)}"
  by (simp add: zone_candidates_def Let_def insert_commute)

lemma Min_filter:
  fixes xs :: "'a :: linorder list"
  assumes "s \<in> set xs" "P s"
  shows "Min (set (filter P xs)) \<le> s" "P (Min (set (filter P xs)))" "Min (set (filter P xs)) \<in> set xs"
proof -
  have "Min (set (filter P xs)) \<in> set (filter P xs)" using assms by (intro Min_in) auto
  then show "P (Min (set (filter P xs)))" "Min (set (filter P xs)) \<in> set xs" by auto
  show "Min (set (filter P xs)) \<le> s" using assms by (intro Min_le) auto
qed

lemma zoned_candidates: "zoned_wall_time_to_instant zone w \<in> set (zone_candidates zone w)"
proof (cases "filter (\<lambda>i. wall_as_utc (wall_time_at zone i) = wall_as_utc w) (zone_candidates zone w) = []")
  case True
  then have "zoned_wall_time_to_instant zone w = wall_as_utc w - offset_at zone (wall_as_utc w - 12 * ms_per_hour)"
    unfolding zoned_wall_time_to_instant_def Let_def by (simp only: not_True_eq_False if_False refl)
  then show ?thesis unfolding set_zone_candidates by (simp only: insert_iff simp_thms)
next
  case False
  then obtain s where "s \<in> set (zone_candidates zone w)" "wall_as_utc (wall_time_at zone s) = wall_as_utc w"
    by (auto simp: filter_empty_conv)
  with False show ?thesis
    unfolding zoned_wall_time_to_instant_def Let_def by (simp only: if_True Min_filter(3) not_False_eq_True)
qed

lemma zoned_earliest:
  assumes "wall_as_utc (wall_time_at zone s) = wall_as_utc w" "s \<in> set (zone_candidates zone w)"
  shows "zoned_wall_time_to_instant zone w \<le> s"
    "wall_as_utc (wall_time_at zone (zoned_wall_time_to_instant zone w)) = wall_as_utc w"
proof -
  have "filter (\<lambda>i. wall_as_utc (wall_time_at zone i) = wall_as_utc w) (zone_candidates zone w) \<noteq> []"
    using assms by (auto simp: filter_empty_conv)
  then have z: "zoned_wall_time_to_instant zone w =
      Min (set (filter (\<lambda>i. wall_as_utc (wall_time_at zone i) = wall_as_utc w) (zone_candidates zone w)))"
    unfolding zoned_wall_time_to_instant_def Let_def by (simp only: if_True not_False_eq_True)
  show "zoned_wall_time_to_instant zone w \<le> s"
    unfolding z
    by (rule Min_filter(1) [OF assms(2), where P = "\<lambda>i. wall_as_utc (wall_time_at zone i) = wall_as_utc w", OF assms(1)])
  show "wall_as_utc (wall_time_at zone (zoned_wall_time_to_instant zone w)) = wall_as_utc w"
    unfolding z
    by (rule Min_filter(2) [OF assms(2), where P = "\<lambda>i. wall_as_utc (wall_time_at zone i) = wall_as_utc w", OF assms(1)])
qed

subsection \<open>There is a next slot\<close>

lemma day_floor: "utc_day_number l * ms_per_day \<le> l" "l < utc_day_number l * ms_per_day + ms_per_day"
  unfolding utc_day_number_def ms_defs by linarith+

lemma daily_slot_late:
  assumes "regular_zone since zone" "since + 2 * ms_per_day \<le> after" "0 \<le> rule_hour rule" "0 \<le> rule_minute rule"
    and "3 \<le> k" "day_qualifies rule (add_days (wall_time_at zone after) (int k))"
  shows "daily_slot zone rule (wall_time_at zone after) after k \<noteq> None"
proof -
  define l where "l = after + zone after"
  define w where "w = (add_days (wall_of_utc l) (int k))\<lparr>wall_hour := rule_hour rule, wall_minute := rule_minute rule\<rparr>"
  have after: "since \<le> after" using assms(2) unfolding ms_defs by linarith
  have l: "modern l" unfolding l_def using assms(1) after by (rule regular_modern)
  have z: "- 15 * ms_per_hour \<le> zone after" using assms(1) after by (auto simp: regular_zone_def)
  have "wall_as_utc w = (utc_day_number l + int k) * ms_per_day + rule_hour rule * ms_per_hour +
      rule_minute rule * ms_per_minute"
    using day_instant [OF l, of "int k"] by (simp add: wall_as_utc_def w_def)
  moreover have "0 \<le> rule_hour rule * ms_per_hour" "0 \<le> rule_minute rule * ms_per_minute"
    "3 * ms_per_day \<le> int k * ms_per_day"
    using assms(3-5) by (simp_all add: ms_defs)
  ultimately have local: "l + 2 * ms_per_day \<le> wall_as_utc w"
    using day_floor(2) [of l] unfolding distrib_right by linarith
  have "after - 15 * ms_per_hour + 2 * ms_per_day \<le> wall_as_utc w"
    using local z unfolding l_def by linarith
  then have "since + ms_per_minute \<le> wall_as_utc w - 12 * ms_per_hour"
    "since + ms_per_minute \<le> wall_as_utc w + 12 * ms_per_hour"
    using assms(2) unfolding ms_defs by linarith+
  then have "offset_at zone (wall_as_utc w - 12 * ms_per_hour) \<le> 15 * ms_per_hour"
    "offset_at zone (wall_as_utc w + 12 * ms_per_hour) \<le> 15 * ms_per_hour"
    by (simp_all add: offset_at_bounds(2) [OF assms(1)])
  then have "wall_as_utc w - 15 * ms_per_hour \<le> zoned_wall_time_to_instant zone w"
    using zoned_candidates [of zone w] unfolding set_zone_candidates by auto
  then have "after < zoned_wall_time_to_instant zone w"
    using \<open>after - 15 * ms_per_hour + 2 * ms_per_day \<le> wall_as_utc w\<close> unfolding ms_defs by linarith
  then show ?thesis
    using assms(6) by (simp add: daily_slot_def Let_def w_def l_def wall_time_at_utc)
qed

lemma next_slot_exists:
  assumes "regular_zone since (zones (rule_timezone rule))" "since + 2 * ms_per_day \<le> after"
    and "0 \<le> rule_hour rule" "0 \<le> rule_minute rule" "rule_frequency rule \<notin> {Once, Hourly}"
    and "3 \<le> k" "k \<le> 62"
    and "day_qualifies rule (add_days (wall_time_at (zones (rule_timezone rule)) after) (int k))"
  shows "\<exists>t. next_schedule_occurrence zones rule after = Some t"
proof -
  have "k \<in> set daily_steps" using assms(7) by (simp add: daily_steps_def del: upt_rec_numeral)
  then show ?thesis
    unfolding next_daily [OF assms(5)] by (rule first_some_exists) (rule daily_slot_late [OF assms(1-4,6,8)])
qed

lemma time_of_day:
  fixes n h mi :: int
  assumes "0 \<le> h" "h \<le> 23" "0 \<le> mi" "mi \<le> 59"
  defines "l \<equiv> n * ms_per_day + h * ms_per_hour + mi * ms_per_minute"
  shows "utc_day_number l = n" "utc_hours l = h" "l div ms_per_minute mod 60 = mi"
proof -
  have m: "l div ms_per_minute = (n * 24 + h) * 60 + mi"
    unfolding l_def ms_defs by (simp add: algebra_simps)
  have hh: "l div ms_per_hour = l div ms_per_minute div 60" "l div ms_per_day = l div ms_per_minute div 60 div 24"
    by (simp_all add: ms_defs flip: zdiv_zmult2_eq)
  have "mi mod 60 = mi" using assms(3,4) by simp
  then have d: "((n * 24 + h) * 60 + mi) div 60 = n * 24 + h" "((n * 24 + h) * 60 + mi) mod 60 = mi"
    "(n * 24 + h) div 24 = n" "(n * 24 + h) mod 24 = h"
    using assms(1-4) by (simp_all only: mod_mult_self3) simp_all
  show "utc_day_number l = n" "utc_hours l = h" "l div ms_per_minute mod 60 = mi"
    unfolding utc_day_number_def utc_hours_def hh m d by (rule refl)+
qed

lemma wall_of_time_of_day:
  assumes "0 \<le> h" "h \<le> 23" "0 \<le> mi" "mi \<le> 59"
  shows "wall_of_utc (n * ms_per_day + h * ms_per_hour + mi * ms_per_minute) =
    \<lparr>wall_year = utc_year (n * ms_per_day), wall_month = utc_month (n * ms_per_day) + 1,
     wall_day = utc_date (n * ms_per_day), wall_hour = h, wall_minute = mi\<rparr>"
  using time_of_day [OF assms, of n] by (simp add: wall_of_utc_def utc_year_def utc_month_def utc_date_def)

text \<open>The hour a step of the hourly loop is at, and the slot it makes.\<close>

lemma hour_instant:
  assumes "modern l"
  shows "wall_as_utc \<lparr>wall_year = utc_year l, wall_month = utc_month l + 1, wall_day = utc_date l,
      wall_hour = utc_hours l, wall_minute = mi\<rparr> =
    l div ms_per_hour * ms_per_hour + mi * ms_per_minute"
proof -
  have "l div ms_per_hour div 24 = utc_day_number l"
    by (simp add: utc_day_number_def ms_defs flip: zdiv_zmult2_eq)
  then have "utc_day_number l * ms_per_day + utc_hours l * ms_per_hour = l div ms_per_hour * ms_per_hour"
    using div_mult_mod_eq [of "l div ms_per_hour" 24]
    by (simp add: utc_hours_def ms_defs)
  then show ?thesis
    using date_utc_fields [OF civil_of_utc [of l] modern_day [OF assms]] by (simp add: wall_as_utc_def)
qed

lemma hourly_slot_late:
  assumes "regular_zone since zone" "since + 2 * ms_per_day \<le> after" "0 \<le> rule_minute rule"
  shows "hourly_slot zone rule (wall_time_at zone after) after 48 \<noteq> None"
proof -
  define l where "l = after + zone after"
  define hs where "hs = l div ms_per_hour * ms_per_hour + 48 * ms_per_hour"
  define w where "w = \<lparr>wall_year = utc_year hs, wall_month = utc_month hs + 1, wall_day = utc_date hs,
      wall_hour = utc_hours hs, wall_minute = rule_minute rule\<rparr>"
  have after: "since \<le> after" using assms(2) unfolding ms_defs by linarith
  have l: "modern l" unfolding l_def using assms(1) after by (rule regular_modern)
  have z: "- 15 * ms_per_hour \<le> zone after" using assms(1) after by (auto simp: regular_zone_def)
  have start: "date_utc (wall_year (wall_time_at zone after)) (wall_month (wall_time_at zone after) - 1)
      (wall_day (wall_time_at zone after)) (wall_hour (wall_time_at zone after)) 0 = l div ms_per_hour * ms_per_hour"
    using hour_instant [OF l, of 0] by (simp add: wall_as_utc_def wall_time_at_utc wall_of_utc_def l_def)
  have lower: "l - ms_per_hour < l div ms_per_hour * ms_per_hour" unfolding ms_defs by linarith
  have hs: "modern hs" using l lower unfolding modern_def hs_def ms_defs by linarith
  have "hs div ms_per_hour * ms_per_hour = hs" unfolding hs_def by (simp add: ms_defs)
  then have "wall_as_utc w = hs + rule_minute rule * ms_per_minute"
    unfolding w_def hour_instant [OF hs] by simp
  moreover have "0 \<le> rule_minute rule * ms_per_minute" using assms(3) by (simp add: ms_defs)
  ultimately have local: "after - 16 * ms_per_hour + 48 * ms_per_hour < wall_as_utc w"
    using lower z unfolding hs_def l_def by linarith
  then have "since + ms_per_minute \<le> wall_as_utc w - 12 * ms_per_hour"
    "since + ms_per_minute \<le> wall_as_utc w + 12 * ms_per_hour"
    using assms(2) unfolding ms_defs by linarith+
  then have "offset_at zone (wall_as_utc w - 12 * ms_per_hour) \<le> 15 * ms_per_hour"
    "offset_at zone (wall_as_utc w + 12 * ms_per_hour) \<le> 15 * ms_per_hour"
    by (simp_all add: offset_at_bounds(2) [OF assms(1)])
  then have "wall_as_utc w - 15 * ms_per_hour \<le> zoned_wall_time_to_instant zone w"
    using zoned_candidates [of zone w] unfolding set_zone_candidates by auto
  then have "after < zoned_wall_time_to_instant zone w"
    using local unfolding ms_defs by linarith
  then show ?thesis
    unfolding hourly_slot_def Let_def start by (simp add: w_def hs_def)
qed

text \<open>A rule that can fire: its frequency has a day to fire on.\<close>

definition fires_on_some_day :: "schedule_rule \<Rightarrow> bool" where
  "fires_on_some_day rule \<longleftrightarrow>
     (case rule_frequency rule of
        Once \<Rightarrow> False
      | Weekly \<Rightarrow> (\<exists>ds d. rule_days rule = Some ds \<and> d \<in> set ds \<and> 0 \<le> d \<and> d \<le> 6)
      | Monthly \<Rightarrow> (\<exists>d. rule_day_of_month rule = Some d \<and> 1 \<le> d \<and> d \<le> 28)
      | _ \<Rightarrow> True)"

lemma weekday_reached:
  fixes c v :: int
  assumes "0 \<le> v" "v \<le> 6"
  obtains k :: nat where "3 \<le> k" "k \<le> 9" "(c + int k + 4) mod 7 = v"
proof -
  define j where "j = (v - c - 7) mod 7"
  have j: "0 \<le> j" "j < 7" unfolding j_def by simp_all
  have "(c + (j + 3) + 4) mod 7 = (c + 7 + j) mod 7" by (simp add: add.commute add.left_commute)
  also have "\<dots> = (c + 7 + (v - c - 7)) mod 7" unfolding j_def by (simp add: mod_add_right_eq)
  finally have "(c + (j + 3) + 4) mod 7 = v" using assms by simp
  with j show thesis by (intro that [of "nat (j + 3)"]) simp_all
qed

text \<open>Every day of the month up to the 28th comes within a month.\<close>

lemma month_day_reached:
  assumes "1 \<le> d" "d \<le> 28"
  obtains k :: nat where "3 \<le> k" "k \<le> 62" "snd (snd (civil_of_days (n + int k))) = d"
proof -
  obtain y m d0 where c: "civil_of_days (n + 34) = (y, m, d0)" by (metis prod.exhaust)
  have r: "1 \<le> m" "m \<le> 12" "1 \<le> d0" "d0 \<le> 31" using civil_ranges [OF c] by auto
  have "days_of_civil y m d = n + 34 + (d - d0)"
    using days_of_civil_of_days [OF c] days_of_civil_day [of y m d] days_of_civil_day [of y m d0] by linarith
  then have "civil_of_days (n + 34 + (d - d0)) = (y, m, d)"
    using civil_of_days_of_civil [OF r(1,2) assms, of y] by simp
  then show thesis
    using assms r(3,4) by (intro that [of "nat (34 + (d - d0))"]) (auto simp: add.assoc)
qed

lemma fires_within:
  assumes "fires_on_some_day rule" "rule_frequency rule \<noteq> Hourly" "modern l"
  obtains k :: nat where "3 \<le> k" "k \<le> 62" "day_qualifies rule (add_days (wall_of_utc l) (int k))"
proof (cases "rule_frequency rule")
  case Daily
  then show ?thesis by (intro that [of 3]) (simp_all add: day_qualifies_def)
next
  case Weekdays
  obtain k where "3 \<le> k" "k \<le> 9" "(utc_day_number l + int k + 4) mod 7 = 1"
    by (rule weekday_reached [of 1 "utc_day_number l"]) auto
  with Weekdays show ?thesis
    by (intro that [of k]) (simp_all add: day_qualifies_def weekday_of_day [OF assms(3)])
next
  case Weekly
  then obtain ds d where d: "rule_days rule = Some ds" "d \<in> set ds" "0 \<le> d" "d \<le> 6"
    using assms(1) by (auto simp: fires_on_some_day_def)
  obtain k where "3 \<le> k" "k \<le> 9" "(utc_day_number l + int k + 4) mod 7 = d"
    using weekday_reached [OF d(3,4)] .
  with Weekly d show ?thesis
    by (intro that [of k]) (simp_all add: day_qualifies_def weekday_of_day [OF assms(3)])
next
  case Monthly
  then obtain d where d: "rule_day_of_month rule = Some d" "1 \<le> d" "d \<le> 28"
    using assms(1) by (auto simp: fires_on_some_day_def)
  obtain k where "3 \<le> k" "k \<le> 62" "snd (snd (civil_of_days (utc_day_number l + int k))) = d"
    using month_day_reached [OF d(2,3)] .
  with Monthly d show ?thesis
    by (intro that [of k]) (simp_all add: day_qualifies_def add_days_of_utc [OF assms(3)] utc_date_def)
qed (use assms in \<open>simp_all add: fires_on_some_day_def\<close>)

lemma next_exists:
  assumes "regular_zone since (zones (rule_timezone rule))" "since + 2 * ms_per_day \<le> after"
    and "0 \<le> rule_hour rule" "0 \<le> rule_minute rule" "fires_on_some_day rule"
  shows "\<exists>t. next_schedule_occurrence zones rule after = Some t"
proof (cases "rule_frequency rule = Hourly")
  case True
  have "48 \<in> set hourly_steps" by (simp add: hourly_steps_def del: upt_rec_numeral)
  then have "\<exists>t. first_some (hourly_slot (zones (rule_timezone rule)) rule
      (wall_time_at (zones (rule_timezone rule)) after) after) hourly_steps = Some t"
    by (rule first_some_exists) (rule hourly_slot_late [OF assms(1,2,4)])
  then show ?thesis by (simp only: next_schedule_occurrence_def Let_def True schedule_frequency.case)
next
  case False
  have "since \<le> after" using assms(2) unfolding ms_defs by linarith
  then have "modern (after + zones (rule_timezone rule) after)" by (rule regular_modern [OF assms(1)])
  then obtain k where k: "3 \<le> k" "k \<le> 62"
    "day_qualifies rule (add_days (wall_time_at (zones (rule_timezone rule)) after) (int k))"
    unfolding wall_time_at_utc by (rule fires_within [OF assms(5) False])
  have d: "rule_frequency rule \<notin> {Once, Hourly}" using False assms(5) by (auto simp: fires_on_some_day_def)
  show ?thesis
    using assms(1-4) d k by (rule next_slot_exists [where zones = zones])
qed

subsection \<open>The slot shows the rule\<close>

text \<open>The wall time the rule asks for on a day.\<close>

definition rule_wall :: "schedule_rule \<Rightarrow> wall_time \<Rightarrow> nat \<Rightarrow> wall_time" where
  "rule_wall rule start k =
     (add_days start (int k))\<lparr>wall_hour := rule_hour rule, wall_minute := rule_minute rule\<rparr>"

lemma daily_slot_wall:
  "daily_slot zone rule start after k =
     (if day_qualifies rule (add_days start (int k)) \<and>
         after < zoned_wall_time_to_instant zone (rule_wall rule start k)
      then Some (zoned_wall_time_to_instant zone (rule_wall rule start k)) else None)"
  by (simp add: daily_slot_def rule_wall_def Let_def)

lemma rule_wall_canonical:
  assumes "modern l" "0 \<le> rule_hour rule" "rule_hour rule \<le> 23" "0 \<le> rule_minute rule" "rule_minute rule \<le> 59"
  shows "wall_of_utc (wall_as_utc (rule_wall rule (wall_of_utc l) k)) = rule_wall rule (wall_of_utc l) k"
proof -
  have "wall_as_utc (rule_wall rule (wall_of_utc l) k) =
      (utc_day_number l + int k) * ms_per_day + rule_hour rule * ms_per_hour + rule_minute rule * ms_per_minute"
    using day_instant [OF assms(1), of "int k"] by (simp add: wall_as_utc_def rule_wall_def)
  then have "wall_of_utc (wall_as_utc (rule_wall rule (wall_of_utc l) k)) =
      \<lparr>wall_year = utc_year ((utc_day_number l + int k) * ms_per_day),
       wall_month = utc_month ((utc_day_number l + int k) * ms_per_day) + 1,
       wall_day = utc_date ((utc_day_number l + int k) * ms_per_day), wall_hour = rule_hour rule,
       wall_minute = rule_minute rule\<rparr>"
    by (simp only: wall_of_time_of_day [OF assms(2-5)])
  also have "\<dots> = rule_wall rule (wall_of_utc l) k"
    unfolding rule_wall_def add_days_of_utc [OF assms(1)] by (simp add: wall_of_utc_def)
  finally show ?thesis .
qed

lemma slot_shows_wall:
  assumes "regular_zone since zone" "since \<le> after" "after < zoned_wall_time_to_instant zone w"
    and "wall_of_utc (wall_as_utc w) = w"
    and "s \<in> set (zone_candidates zone w)" "wall_time_at zone s = w"
  shows "wall_time_at zone (zoned_wall_time_to_instant zone w) = w" "zoned_wall_time_to_instant zone w \<le> s"
proof -
  let ?t = "zoned_wall_time_to_instant zone w"
  have e: "wall_as_utc (wall_time_at zone s) = wall_as_utc w" using assms(6) by simp
  show "?t \<le> s" by (rule zoned_earliest(1) [OF e assms(5)])
  have "since \<le> ?t" using assms(2,3) by simp
  then have m: "modern (?t + zone ?t)" by (rule regular_modern [OF assms(1)])
  have "floor_minute (?t + zone ?t) = wall_as_utc w"
    using zoned_earliest(2) [OF e assms(5)] wall_as_utc_of_utc [OF m] by (simp add: wall_time_at_utc)
  then have "wall_time_at zone ?t = wall_of_utc (wall_as_utc w)"
    by (metis wall_of_utc_floor wall_time_at_utc)
  then show "wall_time_at zone ?t = w" using assms(4) by simp
qed

end
