(* ===== verification/Automation.thy ===== *)
theory Automation
  imports Automation_Guards Agent_Catalog Schedule
begin

section \<open>The automation aggregate\<close>

text \<open>
  \<^verbatim>\<open>apps/api/src/automations/domain/automation.entity.ts\<close> with \<^verbatim>\<open>automation.types.ts\<close>, \<open>nextFireOf\<close> of
  \<^verbatim>\<open>trigger-config.policy.ts\<close> and the place rules of \<^verbatim>\<open>packages/shared/src/automations/catalog.ts\<close>: a saved prompt,
  where it runs and what triggers it. An id (\<open>randomUUID\<close>), the clock and what \<open>Intl\<close> knows of
  zones are arguments. A field of a partial edit is \<open>None\<close> when it is not in the edit; a field that
  may also be null is an option of an option. \<open>update_automation\<close> is what the handler
  (\<^verbatim>\<open>update-automation.command-handler.ts\<close>) does with the aggregate it loaded.
\<close>

subsection \<open>Places\<close>

datatype automation_place = PlaceHost | PlaceClaudeCloud | PlaceCursor

datatype host_use = HostRuns | HostStarts

fun place_name :: "automation_place \<Rightarrow> string" where
  "place_name PlaceHost = ''host''"
| "place_name PlaceClaudeCloud = ''claude-cloud''"
| "place_name PlaceCursor = ''cursor''"

fun place_rule :: "automation_place \<Rightarrow> host_use option \<times> string option" where
  "place_rule PlaceHost = (Some HostRuns, None)"
| "place_rule PlaceClaudeCloud = (Some HostStarts, Some ''claude-code'')"
| "place_rule PlaceCursor = (None, Some ''cursor'')"

definition vendor_places :: "automation_place list" where
  "vendor_places = filter (\<lambda>p. fst (place_rule p) = None) [PlaceHost, PlaceClaudeCloud, PlaceCursor]"

definition present :: "string option \<Rightarrow> bool" where
  "present s = (s \<noteq> None \<and> s \<noteq> Some [])"

definition automation_place_fits :: "automation_place \<Rightarrow> string \<Rightarrow> string option \<Rightarrow> bool" where
  "automation_place_fits place agent host =
     (let (use, own) = place_rule place in
      if present host \<noteq> (use \<noteq> None) then False
      else (case own of
              Some a \<Rightarrow> agent = a
            | None \<Rightarrow> agent \<notin> place_name ` set vendor_places))"

definition host_held_by :: "automation_place \<Rightarrow> string option \<Rightarrow> string option" where
  "host_held_by place host = (if fst (place_rule place) = Some HostRuns then host else None)"

subsection \<open>Revisions, targets and triggers\<close>

datatype automation_permission = RunAuto | RunFull

record automation_repository =
  repository_installation :: string
  repository_github_id :: string
  repository_full_name :: string

record revision_common =
  revision_id :: string
  revision_number :: nat
  revision_prompt :: string
  revision_created_by :: "string option"
  revision_created_at :: date

record session_revision = revision_common +
  revision_place :: automation_place
  revision_host :: "string option"
  revision_agent :: string
  revision_model :: "string option"
  revision_permission :: automation_permission
  revision_effort :: "string option"
  revision_repositories :: "automation_repository list"

datatype automation_target =
    SessionTarget string session_revision
  | BotTarget string "string list option" revision_common

datatype trigger_source =
    ScheduleTrigger schedule_rule "date option"
  | GithubTrigger string "string list" "string option"
  | GmailTrigger string string "string option"

record automation_trigger =
  trigger_id :: string
  trigger_position :: nat
  trigger_source :: trigger_source

datatype automation_change = ChangeCreated | ChangeEdited | ChangePaused | ChangeResumed | ChangeDeleted

record automation =
  automation_id :: string
  automation_organization :: string
  automation_target :: automation_target
  automation_owner :: string
  automation_name :: string
  automation_triggers :: "automation_trigger list"
  automation_paused_at :: "date option"
  automation_paused_reason :: "paused_reason option"
  automation_deleted_at :: "date option"
  automation_overlap :: "overlap_policy option"
  automation_max_runs_per_hour :: "int option"
  automation_version :: nat
  automation_revised :: bool
  automation_unsaved :: "automation_change list"
  automation_updated_at :: date

record revision_input =
  input_place :: automation_place
  input_host :: "string option"
  input_agent :: string
  input_model :: "string option"
  input_permission :: automation_permission
  input_effort :: "string option"
  input_prompt :: string
  input_repositories :: "automation_repository list"
  input_created_by :: "string option"

record create_automation =
  create_automation_organization :: string
  create_automation_project :: string
  create_automation_owner :: string
  create_automation_name :: string
  create_automation_revision :: revision_input
  create_automation_triggers :: "automation_trigger list"
  create_automation_active :: bool
  create_automation_overlap :: "overlap_policy option"
  create_automation_max_runs :: "int option"

record create_routine =
  create_routine_organization :: string
  create_routine_owner :: string
  create_routine_bot :: string
  create_routine_name :: string
  create_routine_prompt :: string
  create_routine_triggers :: "automation_trigger list"
  create_routine_active :: bool
  create_routine_scopes :: "string list option"

record automation_changes =
  changed_name :: "string option"
  changed_triggers :: "automation_trigger list option"
  changed_overlap :: "overlap_policy option option"
  changed_max_runs :: "int option option"

record revision_changes =
  next_place :: "automation_place option"
  next_host :: "string option option"
  next_agent :: "string option"
  next_model :: "string option option"
  next_permission :: "automation_permission option"
  next_effort :: "string option option"
  next_prompt :: "string option"
  next_repositories :: "automation_repository list option"

record session_changes =
  changed_project :: "string option"
  changed_revision :: "revision_changes option"

record routine_changes =
  changed_prompt :: "string option"
  changed_scopes :: "string list option option"

subsection \<open>Validity\<close>

fun revision_common_of :: "automation_target \<Rightarrow> revision_common" where
  "revision_common_of (SessionTarget p r) = revision_common.truncate r"
| "revision_common_of (BotTarget b s r) = r"

definition is_paused :: "automation \<Rightarrow> bool" where "is_paused a = (automation_paused_at a \<noteq> None)"
definition is_deleted :: "automation \<Rightarrow> bool" where "is_deleted a = (automation_deleted_at a \<noteq> None)"

text \<open>The triggers' part: mail starts no session, and an event is listened to only where it works.\<close>

fun trigger_problem :: "string list \<Rightarrow> automation_trigger list \<Rightarrow> domain_error option" where
  "trigger_problem repos [] = None"
| "trigger_problem repos (t # ts) =
     (case trigger_source t of
        GmailTrigger e c f \<Rightarrow> Some (ArgumentInvalid ''Mail starts a bot routine, not a session automation'')
      | ScheduleTrigger r n \<Rightarrow> trigger_problem repos ts
      | GithubTrigger e ids f \<Rightarrow>
          (if \<not> set ids \<subseteq> set repos
           then Some (ArgumentInvalid ''A trigger listens on a repository the automation does not work in'')
           else trigger_problem repos ts))"

definition target_problem :: "automation_target \<Rightarrow> automation_trigger list \<Rightarrow> domain_error option" where
  "target_problem target triggers =
     (case target of
        BotTarget bot_id scopes r \<Rightarrow> check_all [(bot_id = [], ArgumentNotProvided ''A routine belongs to a bot'')]
      | SessionTarget project r \<Rightarrow>
          (case check_all
             [(project = [], ArgumentNotProvided ''A session automation belongs to a project''),
              (\<not> automation_place_fits (revision_place r) (revision_agent r) (revision_host r),
               ArgumentInvalid (''An automation in '' @ place_name (revision_place r) @ '' cannot run '' @
                 revision_agent r @ '' '' @
                 (if present (revision_host r) then ''on a host'' else ''with no host''))),
              (revision_repositories r = [],
               ArgumentInvalid ''An automation works in at least one repository'')] of
             Some e \<Rightarrow> Some e
           | None \<Rightarrow> trigger_problem (map repository_github_id (revision_repositories r)) triggers))"

definition automation_problem :: "automation \<Rightarrow> domain_error option" where
  "automation_problem a =
     (case check_all
        [(automation_organization a = [], ArgumentNotProvided ''An automation belongs to a workspace''),
         (\<not> nonblank (automation_name a), ArgumentNotProvided ''An automation needs a name''),
         (\<not> nonblank (revision_prompt (revision_common_of (automation_target a))),
          ArgumentNotProvided ''An automation needs instructions''),
         (\<not> is_deleted a \<and> automation_triggers a = [],
          ArgumentInvalid ''Any trigger starts a run, and there is none'')] of
        Some e \<Rightarrow> Some e
      | None \<Rightarrow> target_problem (automation_target a) (automation_triggers a))"

subsection \<open>Operations\<close>

text \<open>\<open>nextFireOf\<close>, and \<open>schedule\<close>: every schedule's next slot, none while paused or deleted.\<close>

definition next_fire_of :: "(string \<Rightarrow> zone) \<Rightarrow> trigger_source \<Rightarrow> date \<Rightarrow> date option" where
  "next_fire_of zones t after =
     (case t of ScheduleTrigger r n \<Rightarrow> next_schedule_occurrence zones r after | _ \<Rightarrow> None)"

definition schedule_trigger :: "(string \<Rightarrow> zone) \<Rightarrow> bool \<Rightarrow> date \<Rightarrow> automation_trigger \<Rightarrow> automation_trigger" where
  "schedule_trigger zones firing now t =
     (case trigger_source t of
        ScheduleTrigger r n \<Rightarrow>
          t\<lparr>trigger_source := ScheduleTrigger r
              (if firing then next_fire_of zones (ScheduleTrigger r n) now else None)\<rparr>
      | _ \<Rightarrow> t)"

definition schedule_automation :: "(string \<Rightarrow> zone) \<Rightarrow> date \<Rightarrow> automation \<Rightarrow> automation" where
  "schedule_automation zones now a =
     a\<lparr>automation_triggers :=
         map (schedule_trigger zones (\<not> is_paused a \<and> \<not> is_deleted a) now) (automation_triggers a)\<rparr>"

definition add_change :: "automation_change \<Rightarrow> automation \<Rightarrow> automation" where
  "add_change c a =
     (if c \<in> set (automation_unsaved a) then a else a\<lparr>automation_unsaved := automation_unsaved a @ [c]\<rparr>)"

definition touch :: "date \<Rightarrow> automation \<Rightarrow> domain_error + automation" where
  "touch now a = (let t = a\<lparr>automation_updated_at := now\<rparr> in validated (automation_problem t) t)"

definition assert_live :: "automation \<Rightarrow> (domain_error + automation) \<Rightarrow> domain_error + automation" where
  "assert_live a k =
     (if is_deleted a then Inl (ArgumentInvalid ''A deleted automation cannot change'') else k)"

fun effort_name :: "session_effort \<Rightarrow> string" where
  "effort_name EffortNone = ''none''"
| "effort_name EffortMinimal = ''minimal''"
| "effort_name EffortLow = ''low''"
| "effort_name EffortMedium = ''medium''"
| "effort_name EffortHigh = ''high''"
| "effort_name EffortXHigh = ''xhigh''"
| "effort_name EffortMax = ''max''"
| "effort_name EffortUltra = ''ultra''"

definition judged_effort :: "string \<Rightarrow> string option \<Rightarrow> string option \<Rightarrow> string option" where
  "judged_effort agent model effort = map_option effort_name (effort_level_for (Some agent) model effort)"

definition new_automation ::
  "(string \<Rightarrow> zone) \<Rightarrow> string \<Rightarrow> string \<Rightarrow> automation_target \<Rightarrow> string \<Rightarrow> string \<Rightarrow> automation_trigger list \<Rightarrow>
     bool \<Rightarrow> overlap_policy option \<Rightarrow> int option \<Rightarrow> date \<Rightarrow> domain_error + automation" where
  "new_automation zones uuid organization target owner name triggers active overlap max_runs now =
     (let a = schedule_automation zones now
            \<lparr>automation_id = uuid, automation_organization = organization, automation_target = target,
             automation_owner = owner, automation_name = js_trim name, automation_triggers = triggers,
             automation_paused_at = (if active then None else Some now),
             automation_paused_reason = (if active then None else Some PausedByUser),
             automation_deleted_at = None, automation_overlap = overlap,
             automation_max_runs_per_hour = max_runs, automation_version = 1,
             automation_revised = True, automation_unsaved = [], automation_updated_at = now\<rparr>
      in validated (automation_problem a) (add_change ChangeCreated a))"

definition create_new_automation ::
  "(string \<Rightarrow> zone) \<Rightarrow> string \<Rightarrow> string \<Rightarrow> create_automation \<Rightarrow> date \<Rightarrow> domain_error + automation" where
  "create_new_automation zones uuid revision_uuid p now =
     (let i = create_automation_revision p in
      new_automation zones uuid (create_automation_organization p)
        (SessionTarget (create_automation_project p)
          \<lparr>revision_id = revision_uuid, revision_number = 1, revision_prompt = input_prompt i,
           revision_created_by = input_created_by i, revision_created_at = now,
           revision_place = input_place i, revision_host = input_host i,
           revision_agent = input_agent i, revision_model = input_model i,
           revision_permission = input_permission i,
           revision_effort = judged_effort (input_agent i) (input_model i) (input_effort i),
           revision_repositories = input_repositories i\<rparr>)
        (create_automation_owner p) (create_automation_name p) (create_automation_triggers p)
        (create_automation_active p) (create_automation_overlap p) (create_automation_max_runs p) now)"

definition create_new_routine ::
  "(string \<Rightarrow> zone) \<Rightarrow> string \<Rightarrow> string \<Rightarrow> create_routine \<Rightarrow> date \<Rightarrow> domain_error + automation" where
  "create_new_routine zones uuid revision_uuid p now =
     new_automation zones uuid (create_routine_organization p)
       (BotTarget (create_routine_bot p) (create_routine_scopes p)
         \<lparr>revision_id = revision_uuid, revision_number = 1, revision_prompt = create_routine_prompt p,
          revision_created_by = Some (create_routine_owner p), revision_created_at = now\<rparr>)
       (create_routine_owner p) (create_routine_name p) (create_routine_triggers p)
       (create_routine_active p) None None now"

definition change_automation ::
  "(string \<Rightarrow> zone) \<Rightarrow> automation_changes \<Rightarrow> date \<Rightarrow> automation \<Rightarrow> domain_error + automation" where
  "change_automation zones c now a =
     assert_live a
       (let renamed = (case changed_name c of None \<Rightarrow> False | Some n \<Rightarrow> js_trim n \<noteq> automation_name a);
            b = a\<lparr>automation_name := (case changed_name c of None \<Rightarrow> automation_name a | Some n \<Rightarrow> js_trim n),
                  automation_overlap := setting (changed_overlap c) (automation_overlap a),
                  automation_max_runs_per_hour :=
                    setting (changed_max_runs c) (automation_max_runs_per_hour a)\<rparr>;
            d = (case changed_triggers c of
                   None \<Rightarrow> b
                 | Some ts \<Rightarrow> schedule_automation zones now (b\<lparr>automation_triggers := ts\<rparr>));
            e = (if renamed \<or> changed_triggers c \<noteq> None then add_change ChangeEdited d else d)
        in touch now e)"

definition repository_keys :: "automation_repository list \<Rightarrow> string" where
  "repository_keys rs =
     (case map (\<lambda>r. repository_installation r @ '':'' @ repository_github_id r) rs of
        [] \<Rightarrow> [] | k # ks \<Rightarrow> k @ concat (map (\<lambda>x. '','' @ x) ks))"

definition session_revision_differs :: "session_revision \<Rightarrow> revision_changes \<Rightarrow> bool" where
  "session_revision_differs r c =
     (next_place c \<notin> {None, Some (revision_place r)} \<or> next_host c \<notin> {None, Some (revision_host r)} \<or>
      next_agent c \<notin> {None, Some (revision_agent r)} \<or> next_model c \<notin> {None, Some (revision_model r)} \<or>
      next_permission c \<notin> {None, Some (revision_permission r)} \<or>
      next_effort c \<notin> {None, Some (revision_effort r)} \<or>
      next_prompt c \<notin> {None, Some (revision_prompt r)} \<or>
      (case next_repositories c of None \<Rightarrow> False
       | Some rs \<Rightarrow> repository_keys rs \<noteq> repository_keys (revision_repositories r)))"

definition next_session_revision ::
  "session_revision \<Rightarrow> revision_changes \<Rightarrow> string \<Rightarrow> string \<Rightarrow> date \<Rightarrow> session_revision" where
  "next_session_revision r c uuid by_user now =
     (let agent = setting (next_agent c) (revision_agent r);
          model = setting (next_model c) (revision_model r) in
      r\<lparr>revision_place := setting (next_place c) (revision_place r),
        revision_host := setting (next_host c) (revision_host r),
        revision_agent := agent, revision_model := model,
        revision_permission := setting (next_permission c) (revision_permission r),
        revision_effort := judged_effort agent model (setting (next_effort c) (revision_effort r)),
        revision_prompt := setting (next_prompt c) (revision_prompt r),
        revision_repositories := setting (next_repositories c) (revision_repositories r),
        revision_id := uuid, revision_number := revision_number r + 1,
        revision_created_by := Some by_user, revision_created_at := now\<rparr>)"

definition revise_session ::
  "session_changes \<Rightarrow> string \<Rightarrow> string \<Rightarrow> date \<Rightarrow> automation \<Rightarrow> domain_error + automation" where
  "revise_session c uuid by_user now a =
     assert_live a
       (case automation_target a of
          BotTarget b s r \<Rightarrow> Inl (ArgumentInvalid ''The automation is a routine, not a session's'')
        | SessionTarget project r \<Rightarrow>
            (let differs = (case changed_revision c of None \<Rightarrow> False | Some n \<Rightarrow> session_revision_differs r n);
                 r' = (case changed_revision c of
                         Some n \<Rightarrow> if differs then next_session_revision r n uuid by_user now else r
                       | None \<Rightarrow> r)
             in touch now (a\<lparr>automation_revised := automation_revised a \<or> differs,
                  automation_target := SessionTarget (setting (changed_project c) project) r'\<rparr>)))"

definition revise_routine ::
  "routine_changes \<Rightarrow> string \<Rightarrow> string \<Rightarrow> date \<Rightarrow> automation \<Rightarrow> domain_error + automation" where
  "revise_routine c uuid by_user now a =
     assert_live a
       (case automation_target a of
          SessionTarget p r \<Rightarrow> Inl (ArgumentInvalid ''The automation is a session's, not a routine'')
        | BotTarget bot_id scopes r \<Rightarrow>
            (let differs = (changed_prompt c \<notin> {None, Some (revision_prompt r)});
                 r' = (if differs
                       then \<lparr>revision_id = uuid, revision_number = revision_number r + 1,
                             revision_prompt = setting (changed_prompt c) (revision_prompt r),
                             revision_created_by = Some by_user, revision_created_at = now\<rparr>
                       else r);
                 b = a\<lparr>automation_revised := automation_revised a \<or> differs\<rparr>;
                 d = (if differs then add_change ChangeEdited b else b)
             in touch now (d\<lparr>automation_target := BotTarget bot_id (setting (changed_scopes c) scopes) r'\<rparr>)))"

definition pause_automation ::
  "(string \<Rightarrow> zone) \<Rightarrow> paused_reason \<Rightarrow> date \<Rightarrow> automation \<Rightarrow> domain_error + automation" where
  "pause_automation zones reason now a =
     assert_live a
       (if is_paused a \<and> automation_paused_reason a = Some reason then Inr a
        else touch now (add_change ChangePaused (schedule_automation zones now
               (a\<lparr>automation_paused_at := or_else (automation_paused_at a) (Some now),
                  automation_paused_reason := Some reason\<rparr>))))"

definition resume_automation :: "(string \<Rightarrow> zone) \<Rightarrow> date \<Rightarrow> automation \<Rightarrow> domain_error + automation" where
  "resume_automation zones now a =
     assert_live a
       (if \<not> is_paused a then Inr a
        else touch now (add_change ChangeResumed (schedule_automation zones now
               (a\<lparr>automation_paused_at := None, automation_paused_reason := None\<rparr>))))"

definition delete_automation :: "(string \<Rightarrow> zone) \<Rightarrow> date \<Rightarrow> automation \<Rightarrow> domain_error + automation" where
  "delete_automation zones now a =
     (if is_deleted a then Inr a
      else touch now (add_change ChangeDeleted (schedule_automation zones now
             (a\<lparr>automation_deleted_at := Some now\<rparr>))))"

definition saved_automation :: "automation \<Rightarrow> automation" where
  "saved_automation a = a\<lparr>automation_unsaved := []\<rparr>"

text \<open>\<open>nextRunAt\<close>: the earliest slot of any schedule.\<close>

fun trigger_next_fire :: "trigger_source \<Rightarrow> date option" where
  "trigger_next_fire (ScheduleTrigger r n) = n"
| "trigger_next_fire _ = None"

definition next_run_at :: "automation \<Rightarrow> date option" where
  "next_run_at a =
     foldl (\<lambda>earliest t.
         case trigger_next_fire (trigger_source t) of
           None \<Rightarrow> earliest
         | Some n \<Rightarrow> (case earliest of None \<Rightarrow> Some n | Some m \<Rightarrow> if n < m then Some n else earliest))
       None (automation_triggers a)"

text \<open>A save from the editor: what every automation has, then the session's own part.\<close>

definition update_automation ::
  "(string \<Rightarrow> zone) \<Rightarrow> automation_changes \<Rightarrow> session_changes \<Rightarrow> string \<Rightarrow> string \<Rightarrow> date \<Rightarrow> automation \<Rightarrow>
     domain_error + automation" where
  "update_automation zones c s uuid by_user now a =
     (case change_automation zones c now a of
        Inl e \<Rightarrow> Inl e
      | Inr b \<Rightarrow> revise_session s uuid by_user now b)"

end
