(* ===== verification/Automation_Facts.thy ===== *)
theory Automation_Facts
  imports Automation
begin

section \<open>What the automation aggregate keeps\<close>

text \<open>
  The lemmas about \<open>Automation\<close>: the invariant every operation keeps, that nothing paused or deleted
  has a slot and everything else only future ones, and when a save makes the next revision.
\<close>

subsection \<open>Slots\<close>

definition trigger_slots :: "automation_trigger list \<Rightarrow> date set" where
  "trigger_slots ts = {n. \<exists>t \<in> set ts. trigger_next_fire (trigger_source t) = Some n}"

lemma trigger_slots_Nil [simp]: "trigger_slots [] = {}"
  by (simp add: trigger_slots_def)

lemma schedule_trigger_slot:
  "trigger_next_fire (trigger_source (schedule_trigger zones firing now t)) = Some n \<Longrightarrow> firing \<and> now < n"
  by (auto simp: schedule_trigger_def next_fire_of_def dest: next_after split: trigger_source.splits if_splits)

lemma schedule_automation_slots:
  "trigger_slots (automation_triggers (schedule_automation zones now a)) \<subseteq>
     (if is_paused a \<or> is_deleted a then {} else {n. now < n})"
  by (auto simp: trigger_slots_def schedule_automation_def dest: schedule_trigger_slot)

lemma fold_earliest:
  "foldl (\<lambda>earliest t.
       case trigger_next_fire (trigger_source t) of
         None \<Rightarrow> earliest
       | Some n \<Rightarrow> (case earliest of None \<Rightarrow> Some n | Some m \<Rightarrow> if n < m then Some n else earliest)) e ts = None
   \<longleftrightarrow> e = None \<and> trigger_slots ts = {}"
proof (induction ts arbitrary: e)
  case (Cons t ts)
  then show ?case
    by (auto simp: trigger_slots_def split: option.splits if_splits)
qed simp

lemma next_run_at_None: "next_run_at a = None \<longleftrightarrow> trigger_slots (automation_triggers a) = {}"
  unfolding next_run_at_def fold_earliest by simp

lemma fold_earliest_least:
  "foldl (\<lambda>earliest t.
       case trigger_next_fire (trigger_source t) of
         None \<Rightarrow> earliest
       | Some n \<Rightarrow> (case earliest of None \<Rightarrow> Some n | Some m \<Rightarrow> if n < m then Some n else earliest)) e ts = Some k
   \<Longrightarrow> (e = Some k \<or> k \<in> trigger_slots ts) \<and> (\<forall>m. e = Some m \<longrightarrow> k \<le> m) \<and> (\<forall>n \<in> trigger_slots ts. k \<le> n)"
proof (induction ts arbitrary: e)
  case (Cons t ts)
  have slots: "trigger_slots (t # ts) =
      (case trigger_next_fire (trigger_source t) of None \<Rightarrow> {} | Some n \<Rightarrow> {n}) \<union> trigger_slots ts"
    by (auto simp: trigger_slots_def split: option.splits)
  show ?case
  proof (cases "trigger_next_fire (trigger_source t)")
    case None
    with Cons.prems have "foldl (\<lambda>earliest t.
       case trigger_next_fire (trigger_source t) of
         None \<Rightarrow> earliest
       | Some n \<Rightarrow> (case earliest of None \<Rightarrow> Some n | Some m \<Rightarrow> if n < m then Some n else earliest)) e ts = Some k"
      by simp
    from Cons.IH [OF this] show ?thesis unfolding slots None by auto
  next
    case (Some n)
    define e' where "e' = (case e of None \<Rightarrow> Some n | Some m \<Rightarrow> if n < m then Some n else e)"
    from Cons.prems Some have "foldl (\<lambda>earliest t.
       case trigger_next_fire (trigger_source t) of
         None \<Rightarrow> earliest
       | Some n \<Rightarrow> (case earliest of None \<Rightarrow> Some n | Some m \<Rightarrow> if n < m then Some n else earliest)) e' ts = Some k"
      by (simp add: e'_def)
    from Cons.IH [OF this] show ?thesis
      unfolding slots Some by (auto simp: e'_def split: option.splits if_splits)
  qed
qed simp

subsection \<open>The invariant\<close>

definition automation_inv :: "automation \<Rightarrow> bool" where
  "automation_inv a \<longleftrightarrow>
     automation_problem a = None \<and>
     (automation_paused_at a = None \<longleftrightarrow> automation_paused_reason a = None) \<and>
     (is_paused a \<or> is_deleted a \<longrightarrow> trigger_slots (automation_triggers a) = {}) \<and>
     distinct (automation_unsaved a)"

lemma add_change_sel [simp]:
  "automation_target (add_change c a) = automation_target a"
  "automation_triggers (add_change c a) = automation_triggers a"
  "automation_paused_at (add_change c a) = automation_paused_at a"
  "automation_paused_reason (add_change c a) = automation_paused_reason a"
  "automation_deleted_at (add_change c a) = automation_deleted_at a"
  "automation_name (add_change c a) = automation_name a"
  "automation_organization (add_change c a) = automation_organization a"
  "is_paused (add_change c a) = is_paused a" "is_deleted (add_change c a) = is_deleted a"
  by (simp_all add: add_change_def is_paused_def is_deleted_def)

lemma automation_problem_add_change [simp]: "automation_problem (add_change c a) = automation_problem a"
  by (simp only: automation_problem_def add_change_sel)

lemma add_change_distinct: "distinct (automation_unsaved a) \<Longrightarrow> distinct (automation_unsaved (add_change c a))"
  by (simp add: add_change_def)

lemma schedule_automation_sel [simp]:
  "automation_target (schedule_automation zones now a) = automation_target a"
  "automation_paused_at (schedule_automation zones now a) = automation_paused_at a"
  "automation_paused_reason (schedule_automation zones now a) = automation_paused_reason a"
  "automation_deleted_at (schedule_automation zones now a) = automation_deleted_at a"
  "automation_name (schedule_automation zones now a) = automation_name a"
  "automation_organization (schedule_automation zones now a) = automation_organization a"
  "automation_unsaved (schedule_automation zones now a) = automation_unsaved a"
  "is_paused (schedule_automation zones now a) = is_paused a"
  "is_deleted (schedule_automation zones now a) = is_deleted a"
  by (simp_all add: schedule_automation_def is_paused_def is_deleted_def)

text \<open>What is left to show of an operation that ends in \<open>touch\<close>.\<close>

definition columns_hold :: "automation \<Rightarrow> bool" where
  "columns_hold a \<longleftrightarrow>
     (automation_paused_at a = None \<longleftrightarrow> automation_paused_reason a = None) \<and>
     (is_paused a \<or> is_deleted a \<longrightarrow> trigger_slots (automation_triggers a) = {}) \<and>
     distinct (automation_unsaved a)"

lemma touch_inv: "touch now a = Inr b \<Longrightarrow> columns_hold a \<Longrightarrow> automation_inv b"
  by (auto simp: touch_def Let_def automation_inv_def columns_hold_def is_paused_def is_deleted_def)

lemma columns_hold_scheduled:
  assumes "automation_paused_at a = None \<longleftrightarrow> automation_paused_reason a = None" "distinct (automation_unsaved a)"
  shows "columns_hold (schedule_automation zones now a)"
  using assms schedule_automation_slots [of zones now a] by (auto simp: columns_hold_def)

lemma columns_hold_change: "columns_hold a \<Longrightarrow> columns_hold (add_change c a)"
  by (simp add: columns_hold_def add_change_distinct)

lemma automation_inv_columns: "automation_inv a \<Longrightarrow> columns_hold a"
  by (simp add: automation_inv_def columns_hold_def)

lemma new_automation_inv:
  assumes "new_automation zones uuid organization target owner name triggers active overlap max_runs now = Inr a"
  shows "automation_inv a"
proof -
  define b0 where "b0 = \<lparr>automation_id = uuid, automation_organization = organization, automation_target = target,
      automation_owner = owner, automation_name = js_trim name, automation_triggers = triggers,
      automation_paused_at = (if active then None else Some now),
      automation_paused_reason = (if active then None else Some PausedByUser),
      automation_deleted_at = None, automation_overlap = overlap,
      automation_max_runs_per_hour = max_runs, automation_version = 1,
      automation_revised = True, automation_unsaved = [], automation_updated_at = now\<rparr>"
  define b where "b = schedule_automation zones now b0"
  have b: "automation_problem b = None" "a = add_change ChangeCreated b"
    using assms unfolding new_automation_def Let_def b_def b0_def by (simp_all del: of_nat_1)
  have "columns_hold b" unfolding b_def by (rule columns_hold_scheduled) (simp_all add: b0_def)
  from columns_hold_change [OF this, of ChangeCreated] b show ?thesis
    by (simp add: automation_inv_def columns_hold_def)
qed

lemma change_automation_inv:
  assumes "automation_inv a" "change_automation zones c now a = Inr b"
  shows "automation_inv b"
proof -
  define b0 where "b0 = a\<lparr>automation_name := (case changed_name c of None \<Rightarrow> automation_name a | Some n \<Rightarrow> js_trim n),
      automation_overlap := setting (changed_overlap c) (automation_overlap a),
      automation_max_runs_per_hour := setting (changed_max_runs c) (automation_max_runs_per_hour a)\<rparr>"
  define d where "d = (case changed_triggers c of None \<Rightarrow> b0
      | Some ts \<Rightarrow> schedule_automation zones now (b0\<lparr>automation_triggers := ts\<rparr>))"
  have b0: "columns_hold b0"
    using automation_inv_columns [OF assms(1)] by (auto simp: b0_def columns_hold_def is_paused_def is_deleted_def)
  then have "columns_hold d"
  proof (cases "changed_triggers c")
    case (Some ts)
    have "columns_hold (schedule_automation zones now (b0\<lparr>automation_triggers := ts\<rparr>))"
      by (rule columns_hold_scheduled) (use b0 in \<open>simp_all add: columns_hold_def\<close>)
    then show ?thesis by (simp add: d_def Some)
  qed (simp add: d_def)
  moreover have "touch now (if (case changed_name c of None \<Rightarrow> False | Some n \<Rightarrow> js_trim n \<noteq> automation_name a) \<or>
      changed_triggers c \<noteq> None then add_change ChangeEdited d else d) = Inr b"
  proof -
    have "\<not> is_deleted a" using assms(2) by (auto simp: change_automation_def assert_live_def split: if_splits)
    then show ?thesis
      using assms(2) unfolding change_automation_def assert_live_def Let_def b0_def d_def by (simp only: if_False)
  qed
  ultimately show ?thesis
    by (elim touch_inv) (simp add: columns_hold_change)
qed

lemma revise_session_inv:
  assumes "automation_inv a" "revise_session c uuid by_user now a = Inr b"
  shows "automation_inv b"
proof -
  obtain x where "touch now (a\<lparr>automation_revised := fst x, automation_target := snd x\<rparr>) = Inr b"
    using assms(2) by (auto simp: revise_session_def assert_live_def Let_def intro: that [of "(_, _)", simplified]
        split: if_splits automation_target.splits)
  then show ?thesis
    by (rule touch_inv)
      (use automation_inv_columns [OF assms(1)] in \<open>auto simp: columns_hold_def is_paused_def is_deleted_def\<close>)
qed

lemma revise_routine_inv:
  assumes "automation_inv a" "revise_routine c uuid by_user now a = Inr b"
  shows "automation_inv b"
proof -
  have h: "columns_hold (a\<lparr>automation_revised := r\<rparr>)" for r
    using automation_inv_columns [OF assms(1)] by (auto simp: columns_hold_def is_paused_def is_deleted_def)
  have g: "columns_hold d \<Longrightarrow> columns_hold (d\<lparr>automation_target := t\<rparr>)" for d t
    by (auto simp: columns_hold_def is_paused_def is_deleted_def)
  obtain d t where "touch now (d\<lparr>automation_target := t\<rparr>) = Inr b" "columns_hold d"
    using assms(2) h columns_hold_change [OF h]
    by (auto simp: revise_routine_def assert_live_def Let_def split: if_splits automation_target.splits)
  then show ?thesis using touch_inv g by blast
qed

lemma pause_automation_inv:
  assumes "automation_inv a" "pause_automation zones reason now a = Inr b"
  shows "automation_inv b"
proof (cases "is_paused a \<and> automation_paused_reason a = Some reason")
  case True
  with assms show ?thesis by (simp add: pause_automation_def assert_live_def split: if_splits)
next
  case False
  let ?p = "a\<lparr>automation_paused_at := or_else (automation_paused_at a) (Some now), automation_paused_reason := Some reason\<rparr>"
  have "columns_hold (schedule_automation zones now ?p)"
    by (rule columns_hold_scheduled) (use assms(1) in \<open>simp_all add: automation_inv_def\<close>)
  moreover have "touch now (add_change ChangePaused (schedule_automation zones now ?p)) = Inr b"
    using assms(2) False unfolding pause_automation_def assert_live_def by (simp split: if_splits)
  ultimately show ?thesis by (elim touch_inv) (rule columns_hold_change)
qed

lemma resume_automation_inv:
  assumes "automation_inv a" "resume_automation zones now a = Inr b"
  shows "automation_inv b"
proof (cases "is_paused a")
  case False
  with assms show ?thesis by (simp add: resume_automation_def assert_live_def split: if_splits)
next
  case True
  let ?p = "a\<lparr>automation_paused_at := None, automation_paused_reason := None\<rparr>"
  have "columns_hold (schedule_automation zones now ?p)"
    by (rule columns_hold_scheduled) (use assms(1) in \<open>simp_all add: automation_inv_def\<close>)
  moreover have "touch now (add_change ChangeResumed (schedule_automation zones now ?p)) = Inr b"
    using assms(2) True unfolding resume_automation_def assert_live_def by (simp split: if_splits)
  ultimately show ?thesis by (elim touch_inv) (rule columns_hold_change)
qed

lemma delete_automation_inv:
  assumes "automation_inv a" "delete_automation zones now a = Inr b"
  shows "automation_inv b"
proof (cases "is_deleted a")
  case True
  with assms show ?thesis by (simp add: delete_automation_def)
next
  case False
  let ?p = "a\<lparr>automation_deleted_at := Some now\<rparr>"
  have "columns_hold (schedule_automation zones now ?p)"
    by (rule columns_hold_scheduled) (use assms(1) in \<open>simp_all add: automation_inv_def\<close>)
  moreover have "touch now (add_change ChangeDeleted (schedule_automation zones now ?p)) = Inr b"
    using assms(2) False unfolding delete_automation_def by simp
  ultimately show ?thesis by (elim touch_inv) (rule columns_hold_change)
qed

lemma automation_problem_saved: "automation_problem (saved_automation a) = automation_problem a"
  by (simp add: automation_problem_def saved_automation_def is_deleted_def)

lemma saved_automation_inv: "automation_inv a \<Longrightarrow> automation_inv (saved_automation a)"
  using automation_problem_saved [of a]
  by (simp add: automation_inv_def is_paused_def is_deleted_def) (simp add: saved_automation_def)

text \<open>Rescheduling breaks no rule, so a valid automation can always be paused, resumed and deleted.\<close>

lemma trigger_problem_schedule:
  "trigger_problem repos (map (schedule_trigger zones firing now) ts) = trigger_problem repos ts"
  by (induction ts) (auto simp: schedule_trigger_def split: trigger_source.splits)

lemma automation_problem_schedule [simp]:
  "automation_problem (schedule_automation zones now a) = automation_problem a"
  unfolding automation_problem_def schedule_automation_sel
  by (cases "automation_target a")
    (simp_all add: target_problem_def schedule_automation_def trigger_problem_schedule)

lemma automation_problem_frame [simp]:
  "automation_problem (a\<lparr>automation_updated_at := t\<rparr>) = automation_problem a"
  "automation_problem (a\<lparr>automation_paused_at := p, automation_paused_reason := r\<rparr>) = automation_problem a"
  by (simp_all add: automation_problem_def is_deleted_def)

lemma pause_automation_total:
  "automation_problem a = None \<Longrightarrow> \<not> is_deleted a \<Longrightarrow> \<exists>b. pause_automation zones reason now a = Inr b"
  by (simp add: pause_automation_def assert_live_def touch_def Let_def validated_def)

lemma resume_automation_total:
  "automation_problem a = None \<Longrightarrow> \<not> is_deleted a \<Longrightarrow> \<exists>b. resume_automation zones now a = Inr b"
  by (simp add: resume_automation_def assert_live_def touch_def Let_def validated_def)

subsection \<open>The operations as steps\<close>

inductive automation_step :: "automation \<Rightarrow> automation \<Rightarrow> bool" where
  step_change: "change_automation zones c now a = Inr b \<Longrightarrow> automation_step a b"
| step_revise_session: "revise_session s uuid by_user now a = Inr b \<Longrightarrow> automation_step a b"
| step_revise_routine: "revise_routine r uuid by_user now a = Inr b \<Longrightarrow> automation_step a b"
| step_pause: "pause_automation zones reason now a = Inr b \<Longrightarrow> automation_step a b"
| step_resume: "resume_automation zones now a = Inr b \<Longrightarrow> automation_step a b"
| step_delete: "delete_automation zones now a = Inr b \<Longrightarrow> automation_step a b"
| step_saved: "automation_step a (saved_automation a)"

inductive automation_reachable :: "automation \<Rightarrow> bool" where
  created: "create_new_automation zones uuid rid p now = Inr a \<Longrightarrow> automation_reachable a"
| created_routine: "create_new_routine zones uuid rid p now = Inr a \<Longrightarrow> automation_reachable a"
| stepped: "automation_reachable a \<Longrightarrow> automation_step a b \<Longrightarrow> automation_reachable b"

inductive_cases automation_stepE: "automation_step a b"

lemma automation_step_inv: "automation_step a b \<Longrightarrow> automation_inv a \<Longrightarrow> automation_inv b"
proof (erule automation_stepE)
  assume a: "automation_inv a"
  show "change_automation zones c now a = Inr b \<Longrightarrow> automation_inv b" for zones c now
    by (rule change_automation_inv [OF a])
  show "revise_session s uuid by_user now a = Inr b \<Longrightarrow> automation_inv b" for s uuid by_user now
    by (rule revise_session_inv [OF a])
  show "revise_routine r uuid by_user now a = Inr b \<Longrightarrow> automation_inv b" for r uuid by_user now
    by (rule revise_routine_inv [OF a])
  show "pause_automation zones reason now a = Inr b \<Longrightarrow> automation_inv b" for zones reason now
    by (rule pause_automation_inv [OF a])
  show "resume_automation zones now a = Inr b \<Longrightarrow> automation_inv b" for zones now
    by (rule resume_automation_inv [OF a])
  show "delete_automation zones now a = Inr b \<Longrightarrow> automation_inv b" for zones now
    by (rule delete_automation_inv [OF a])
  show "b = saved_automation a \<Longrightarrow> automation_inv b"
    using saved_automation_inv [OF a] by simp
qed

lemma automation_reachable_inv: "automation_reachable a \<Longrightarrow> automation_inv a"
proof (induction rule: automation_reachable.induct)
  case (created zones uuid rid p now a)
  then show ?case unfolding create_new_automation_def Let_def by (rule new_automation_inv)
next
  case (created_routine zones uuid rid p now a)
  then show ?case unfolding create_new_routine_def by (rule new_automation_inv)
next
  case (stepped a b)
  show ?case by (rule automation_step_inv [OF stepped.hyps(2) stepped.IH])
qed

text \<open>A deleted automation is only ever saved again.\<close>

lemma deleted_step: "automation_step a b \<Longrightarrow> is_deleted a \<Longrightarrow> b = a \<or> b = saved_automation a"
  by (erule automation_stepE)
    (simp_all add: change_automation_def revise_session_def revise_routine_def pause_automation_def
      resume_automation_def delete_automation_def assert_live_def)

subsection \<open>The next revision\<close>

lemma judged_effort_offered:
  assumes "judged_effort agent model effort = Some l" "coding_agent_of agent = Some d"
  shows "\<exists>e level. effort_for d model = Some e \<and> level \<in> set (effort_levels e) \<and> l = effort_name level"
  using assms effort_level_for_offered [of agent model effort] by (auto simp: judged_effort_def) blast

end
