(* ===== verification/Automation_Properties.thy ===== *)
theory Automation_Properties
  imports Automation_Facts Schedule Automation_Guards
begin

section \<open>Concrete schedules and automations\<close>

text \<open>The inputs the witnesses evaluate: a schedule, an automation as it is created, and one paused.\<close>

definition utc_zones :: "string \<Rightarrow> zone" where
  "utc_zones name = (\<lambda>t. 0)"

definition daily_rule :: schedule_rule where
  "daily_rule = \<lparr>rule_frequency = Daily, rule_hour = 9, rule_minute = 30, rule_days = None,
     rule_day_of_month = None, rule_date = None, rule_timezone = ''UTC''\<rparr>"

lemma utc_regular: "regular_zone 0 (utc_zones name)"
  by (simp add: regular_zone_def utc_zones_def ms_defs)

lemma daily_rule_fires: "\<exists>t. next_schedule_occurrence utc_zones daily_rule (2 * ms_per_day) = Some t"
  by (rule next_exists [OF utc_regular]) (simp_all add: daily_rule_def fires_on_some_day_def)

definition a_repository :: "string \<Rightarrow> automation_repository" where
  "a_repository i = \<lparr>repository_installation = ''1'', repository_github_id = i, repository_full_name = ''acme/'' @ i\<rparr>"

definition listens_on :: "string \<Rightarrow> automation_trigger" where
  "listens_on i = \<lparr>trigger_id = ''t'', trigger_position = 0, trigger_source = GithubTrigger ''issues.opened'' [i] None\<rparr>"

definition an_automation_request :: create_automation where
  "an_automation_request =
     \<lparr>create_automation_organization = ''org'', create_automation_project = ''project'',
      create_automation_owner = ''person'', create_automation_name = ''Triage'',
      create_automation_revision =
        \<lparr>input_place = PlaceHost, input_host = Some ''host'', input_agent = ''claude-code'', input_model = None,
         input_permission = RunAuto, input_effort = None, input_prompt = ''Triage the issue'',
         input_repositories = [a_repository ''7''], input_created_by = Some ''person''\<rparr>,
      create_automation_triggers = [listens_on ''7''], create_automation_active = True,
      create_automation_overlap = None, create_automation_max_runs = None\<rparr>"

definition an_automation :: automation where
  "an_automation = (case create_new_automation utc_zones ''a'' ''r1'' an_automation_request 5 of Inr a \<Rightarrow> a)"


lemma an_automation_row: "an_automation = \<lparr>automation_id = ''a'', automation_organization = ''org'',
  automation_target = SessionTarget ''project''
    \<lparr>revision_id = ''r1'', revision_number = 1, revision_prompt = ''Triage the issue'',
     revision_created_by = Some ''person'', revision_created_at = 5, revision_place = PlaceHost,
     revision_host = Some ''host'', revision_agent = ''claude-code'', revision_model = None,
     revision_permission = RunAuto, revision_effort = None, revision_repositories = [a_repository ''7'']\<rparr>,
  automation_owner = ''person'', automation_name = ''Triage'', automation_triggers = [listens_on ''7''],
  automation_paused_at = None, automation_paused_reason = None, automation_deleted_at = None,
  automation_overlap = None, automation_max_runs_per_hour = None, automation_version = 1,
  automation_revised = True, automation_unsaved = [ChangeCreated], automation_updated_at = 5\<rparr>"
  by code_simp

lemma an_automation_created: "create_new_automation utc_zones ''a'' ''r1'' an_automation_request 5 = Inr an_automation"
  unfolding an_automation_row by code_simp

lemma an_automation_reachable: "automation_reachable an_automation"
  by (rule automation_reachable.created [OF an_automation_created])

definition daily_trigger :: automation_trigger where
  "daily_trigger = \<lparr>trigger_id = ''n'', trigger_position = 0, trigger_source = ScheduleTrigger daily_rule None\<rparr>"

definition a_paused_automation :: automation where
  "a_paused_automation = an_automation\<lparr>automation_triggers := [daily_trigger], automation_paused_at := Some 6,
     automation_paused_reason := Some PausedByUser\<rparr>"

lemmas automation_eval =
  automation_problem_def target_problem_def automation_place_fits_def nonblank_iff js_space_def
  vendor_places_def present_def listens_on_def a_repository_def is_deleted_def is_paused_def
  revision_common.defs daily_trigger_def

lemma a_paused_automation_valid:
  "automation_problem a_paused_automation = None" "\<not> is_deleted a_paused_automation" "is_paused a_paused_automation"
  unfolding a_paused_automation_def an_automation_row by (simp_all add: automation_eval)

section \<open>The properties of schedule rules\<close>

text \<open>
  When a rule next fires: strictly later, on the first day it may, at the wall time it names
  whenever that exists, and always some time while it has a day to fire on.
\<close>

text \<open>C29: a slot is strictly later than the instant it was asked after, whatever the rule and the zone, so a
  schedule never fires twice for one slot; and of a rule by the day it is the first that is: every
  earlier day is not the rule's, or its slot is not later.\<close>

theorem the_next_slot_is_the_first_later_one:
  assumes "next_schedule_occurrence zones rule after = Some t"
  defines "zone \<equiv> zones (rule_timezone rule)"
  shows "after < t \<and>
    (rule_frequency rule \<notin> {Once, Hourly} \<longrightarrow>
      (\<exists>k < 63. day_qualifies rule (add_days (wall_time_at zone after) (int k)) \<and>
        t = zoned_wall_time_to_instant zone (rule_wall rule (wall_time_at zone after) k) \<and>
        (\<forall>j < k. day_qualifies rule (add_days (wall_time_at zone after) (int j)) \<longrightarrow>
          zoned_wall_time_to_instant zone (rule_wall rule (wall_time_at zone after) j) \<le> after)))"
proof (intro conjI impI)
  show "after < t" by (rule next_after [OF assms(1)])
  assume "rule_frequency rule \<notin> {Once, Hourly}"
  from next_first_day [OF this assms(1)] obtain k where k: "k < 63"
    "daily_slot zone rule (wall_time_at zone after) after k = Some t"
    "\<forall>j < k. daily_slot zone rule (wall_time_at zone after) after j = None"
    unfolding zone_def by blast
  from k(2) have t: "day_qualifies rule (add_days (wall_time_at zone after) (int k))"
    "t = zoned_wall_time_to_instant zone (rule_wall rule (wall_time_at zone after) k)"
    by (simp_all add: daily_slot_wall split: if_splits)
  have "zoned_wall_time_to_instant zone (rule_wall rule (wall_time_at zone after) j) \<le> after"
    if "j < k" "day_qualifies rule (add_days (wall_time_at zone after) (int j))" for j
    using k(3) that unfolding daily_slot_wall by (metis not_less option.distinct(1))
  with k(1) t show "\<exists>k < 63. day_qualifies rule (add_days (wall_time_at zone after) (int k)) \<and>
        t = zoned_wall_time_to_instant zone (rule_wall rule (wall_time_at zone after) k) \<and>
        (\<forall>j < k. day_qualifies rule (add_days (wall_time_at zone after) (int j)) \<longrightarrow>
          zoned_wall_time_to_instant zone (rule_wall rule (wall_time_at zone after) j) \<le> after)"
    by blast
qed

theorem the_next_slot_is_the_first_later_one_witness:
  "\<exists>t. next_schedule_occurrence utc_zones daily_rule (2 * ms_per_day) = Some t \<and> 2 * ms_per_day < t"
proof -
  obtain t where t: "next_schedule_occurrence utc_zones daily_rule (2 * ms_per_day) = Some t"
    using daily_rule_fires by blast
  from the_next_slot_is_the_first_later_one [OF t] t show ?thesis by blast
qed

text \<open>a slot of a rule by the day is at the rule's hour and minute on one of its days, by the clock of
  its zone, whenever that zone shows that time on that day at all: a change of the zone's offset,
  as at the start and the end of summer time, moves the instant and not the time of day.\<close>

theorem a_slot_shows_the_rules_time:
  assumes "regular_zone since (zones (rule_timezone rule))" "since \<le> after"
    and "0 \<le> rule_hour rule" "rule_hour rule \<le> 23" "0 \<le> rule_minute rule" "rule_minute rule \<le> 59"
    and "rule_frequency rule \<notin> {Once, Hourly}"
    and "next_schedule_occurrence zones rule after = Some t"
  shows "\<exists>k < 63. let zone = zones (rule_timezone rule); w = rule_wall rule (wall_time_at zone after) k in
    day_qualifies rule (add_days (wall_time_at zone after) (int k)) \<and>
    ((\<exists>s \<in> set (zone_candidates zone w). wall_time_at zone s = w) \<longrightarrow> wall_time_at zone t = w)"
proof -
  let ?zone = "zones (rule_timezone rule)"
  let ?w = "rule_wall rule (wall_time_at ?zone after)"
  obtain k where k: "k < 63" "daily_slot ?zone rule (wall_time_at ?zone after) after k = Some t"
    using next_first_day [OF assms(7,8)] by blast
  then have q: "day_qualifies rule (add_days (wall_time_at ?zone after) (int k))"
    and t: "t = zoned_wall_time_to_instant ?zone (?w k)" "after < zoned_wall_time_to_instant ?zone (?w k)"
    by (simp_all add: daily_slot_wall split: if_splits)
  have "wall_of_utc (wall_as_utc (?w k)) = ?w k"
    unfolding wall_time_at_utc by (rule rule_wall_canonical [OF regular_modern [OF assms(1,2)] assms(3-6)])
  then have "wall_time_at ?zone t = ?w k"
    if "s \<in> set (zone_candidates ?zone (?w k))" "wall_time_at ?zone s = ?w k" for s
    unfolding t(1) using slot_shows_wall(1) [OF assms(1,2) t(2) _ that] by simp
  with k(1) q show ?thesis unfolding Let_def by blast
qed

theorem a_slot_shows_the_rules_time_witness:
  "\<exists>t. next_schedule_occurrence utc_zones daily_rule (2 * ms_per_day) = Some t \<and>
     (\<exists>k < 63. day_qualifies daily_rule (add_days (wall_time_at (utc_zones ''UTC'') (2 * ms_per_day)) (int k)))"
proof -
  obtain t where t: "next_schedule_occurrence utc_zones daily_rule (2 * ms_per_day) = Some t"
    using daily_rule_fires by blast
  have "\<exists>k < 63. let zone = utc_zones ''UTC''; w = rule_wall daily_rule (wall_time_at zone (2 * ms_per_day)) k in
    day_qualifies daily_rule (add_days (wall_time_at zone (2 * ms_per_day)) (int k)) \<and>
    ((\<exists>s \<in> set (zone_candidates zone w). wall_time_at zone s = w) \<longrightarrow> wall_time_at zone t = w)"
    using a_slot_shows_the_rules_time [of 0 utc_zones daily_rule "2 * ms_per_day" t] t
    by (simp add: utc_regular) (simp add: daily_rule_def ms_defs)
  with t show ?thesis unfolding Let_def by blast
qed

text \<open>C28: a schedule never dies on its own. Take a zone that from some instant of 1970 or later on has
  offsets of whole minutes within fifteen hours, and ask at least two days after that instant. A rule
  whose hour and minute are not negative and that has a day to fire on, each day, each weekday, a day
  of the week, or a day of the month up to the 28th, or that fires every hour, then has a next slot:
  the 63 days and the 49 hours the search looks ahead are enough.\<close>

theorem a_rule_that_can_fire_has_a_next_slot:
  assumes "regular_zone since (zones (rule_timezone rule))" "since + 2 * ms_per_day \<le> after"
    and "0 \<le> rule_hour rule" "0 \<le> rule_minute rule" "fires_on_some_day rule"
  shows "\<exists>t. next_schedule_occurrence zones rule after = Some t"
  using assms by (rule next_exists [where zones = zones])

theorem a_rule_that_can_fire_has_a_next_slot_witness:
  "\<exists>t. next_schedule_occurrence utc_zones
      (daily_rule\<lparr>rule_frequency := Monthly, rule_day_of_month := Some 28\<rparr>) (2 * ms_per_day) = Some t"
  by (rule a_rule_that_can_fire_has_a_next_slot [OF utc_regular])
    (simp_all add: daily_rule_def fires_on_some_day_def)

section \<open>The properties of automations and their runs\<close>

text \<open>
  What the automation aggregate keeps, when a run is launched, and that a run is settled once and
  in the end.
\<close>

subsection \<open>The aggregate\<close>

lemma automation_steps_reachable: "automation_step\<^sup>*\<^sup>* a b \<Longrightarrow> automation_reachable a \<Longrightarrow> automation_reachable b"
  by (induction rule: rtranclp_induct) (auto intro: automation_reachable.stepped)

text \<open>C5: every automation that its operations can reach is valid, is paused for a reason exactly when it is
  paused, and owes no run while it is paused or deleted.\<close>

theorem every_reachable_automation_is_valid:
  assumes "automation_reachable a"
  shows "automation_problem a = None \<and>
    (automation_paused_at a = None \<longleftrightarrow> automation_paused_reason a = None) \<and>
    (is_paused a \<or> is_deleted a \<longrightarrow> next_run_at a = None)"
  using automation_reachable_inv [OF assms] by (simp add: automation_inv_def next_run_at_None)

theorem every_reachable_automation_is_valid_witness:
  "automation_problem an_automation = None"
  using every_reachable_automation_is_valid [OF an_automation_reachable] by blast

lemma resumed_triggers:
  assumes "is_paused a" "resume_automation zones now a = Inr b"
  shows "automation_triggers b = automation_triggers (schedule_automation zones now
    (a\<lparr>automation_paused_at := None, automation_paused_reason := None\<rparr>))"
  using assms by (auto simp: resume_automation_def assert_live_def touch_def Let_def split: if_splits)

text \<open>resuming an automation never makes up for what it missed: each of its slots, and with them its next
  run, is strictly after the moment it was resumed.\<close>

theorem a_resumed_automation_owes_nothing_of_its_pause:
  assumes "is_paused a" "resume_automation zones now a = Inr b" "next_run_at b = Some n"
  shows "now < n \<and> n \<in> trigger_slots (automation_triggers b) \<and>
    (\<forall>m \<in> trigger_slots (automation_triggers b). n \<le> m)"
proof -
  let ?p = "a\<lparr>automation_paused_at := None, automation_paused_reason := None\<rparr>"
  have "trigger_slots (automation_triggers b) \<subseteq> {n. now < n}"
    unfolding resumed_triggers [OF assms(1,2)]
    using schedule_automation_slots [of zones now ?p] by (auto split: if_splits)
  with fold_earliest_least [of None "automation_triggers b" n] assms(3) show ?thesis
    by (auto simp: next_run_at_def)
qed

theorem a_resumed_automation_owes_nothing_of_its_pause_witness:
  "\<exists>b n. resume_automation utc_zones (2 * ms_per_day) a_paused_automation = Inr b \<and> next_run_at b = Some n \<and>
     2 * ms_per_day < n"
proof -
  obtain b where b: "resume_automation utc_zones (2 * ms_per_day) a_paused_automation = Inr b"
    using resume_automation_total [OF a_paused_automation_valid(1,2)] by blast
  obtain t where "next_schedule_occurrence utc_zones daily_rule (2 * ms_per_day) = Some t"
    using daily_rule_fires by blast
  then have n: "next_run_at b = Some t"
    using resumed_triggers [OF a_paused_automation_valid(3) b] a_paused_automation_valid(2)
    by (simp add: next_run_at_def schedule_automation_def is_paused_def is_deleted_def)
      (simp add: a_paused_automation_def daily_trigger_def schedule_trigger_def next_fire_of_def)
  from a_resumed_automation_owes_nothing_of_its_pause [OF a_paused_automation_valid(3) b n] b n
  show ?thesis by blast
qed

text \<open>deleting is final. Whatever is done to a deleted automation, it is the same but for the changes it
  still had to announce.\<close>

theorem a_deleted_automation_never_changes:
  assumes "automation_step\<^sup>*\<^sup>* a b" "is_deleted a"
  shows "b = a \<or> b = saved_automation a"
  using assms
proof (induction rule: rtranclp_induct)
  case (step b c)
  have s: "saved_automation (saved_automation a) = saved_automation a" by (simp add: saved_automation_def)
  have "is_deleted b" using step.IH step.prems by (auto simp: is_deleted_def saved_automation_def)
  from deleted_step [OF step.hyps(2) this] step.IH step.prems s show ?case by auto
qed simp

theorem a_deleted_automation_never_changes_witness:
  "\<exists>a b. is_deleted a \<and> automation_step\<^sup>*\<^sup>* a b \<and> (b = a \<or> b = saved_automation a)"
proof (intro exI conjI)
  let ?a = "an_automation\<lparr>automation_deleted_at := Some 9\<rparr>"
  show d: "is_deleted ?a" by (simp add: is_deleted_def)
  show s: "automation_step\<^sup>*\<^sup>* ?a (saved_automation ?a)"
    by (rule r_into_rtranclp) (rule automation_step.step_saved)
  show "saved_automation ?a = ?a \<or> saved_automation ?a = saved_automation ?a"
    by (rule a_deleted_automation_never_changes [OF s d])
qed

lemma touch_row:
  "touch now a = Inr b \<Longrightarrow> b = a\<lparr>automation_updated_at := now\<rparr> \<and> automation_problem b = None"
  by (auto simp: touch_def Let_def)

lemma changed_row:
  assumes "change_automation zones c now a = Inr b" "changed_triggers c = Some triggers"
  shows "automation_problem b = None \<and> automation_target b = automation_target a \<and>
    (\<exists>firing. automation_triggers b = map (schedule_trigger zones firing now) triggers)"
proof -
  have live: "\<not> is_deleted a" using assms(1) by (auto simp: change_automation_def assert_live_def)
  define d where "d = a\<lparr>automation_name := (case changed_name c of None \<Rightarrow> automation_name a | Some n \<Rightarrow> js_trim n),
      automation_overlap := setting (changed_overlap c) (automation_overlap a),
      automation_max_runs_per_hour := setting (changed_max_runs c) (automation_max_runs_per_hour a)\<rparr>"
  have "touch now (add_change ChangeEdited (schedule_automation zones now (d\<lparr>automation_triggers := triggers\<rparr>))) = Inr b"
    using assms(1) live unfolding change_automation_def assert_live_def Let_def assms(2) d_def by simp
  moreover have "automation_target d = automation_target a" by (simp add: d_def)
  ultimately show ?thesis using touch_row by (fastforce simp: schedule_automation_def)
qed

lemma unlistened_problem:
  "t \<in> set ts \<Longrightarrow> trigger_source t = GithubTrigger event ids filters \<Longrightarrow> \<not> set ids \<subseteq> set repos \<Longrightarrow>
     trigger_problem repos ts \<noteq> None"
  by (induction ts) (auto split: trigger_source.splits)

text \<open>a save that puts another repository into an automation and, with it, a trigger that listens there is
  refused, whatever the repositories of the next revision: the triggers are checked against the
  revision before the save.\<close>

theorem a_save_checks_triggers_against_the_old_repositories:
  assumes "automation_target a = SessionTarget project r" "changed_triggers c = Some triggers"
    and "t \<in> set triggers" "trigger_source t = GithubTrigger event ids filters"
    and "\<not> set ids \<subseteq> set (map repository_github_id (revision_repositories r))"
  shows "\<exists>e. update_automation zones c s uuid by_user now a = Inl e"
proof (cases "change_automation zones c now a")
  case (Inr b)
  from changed_row [OF Inr assms(2)] obtain firing where b: "automation_problem b = None"
    "automation_target b = automation_target a"
    "automation_triggers b = map (schedule_trigger zones firing now) triggers"
    by blast
  have "trigger_problem (map repository_github_id (revision_repositories r)) triggers \<noteq> None"
    by (rule unlistened_problem [OF assms(3-5)])
  with b assms(1) have False
    by (auto simp: automation_problem_def target_problem_def trigger_problem_schedule split: option.splits)
  then show ?thesis ..
qed (simp add: update_automation_def)

definition an_automation_revision :: session_revision where
  "an_automation_revision = (case automation_target an_automation of SessionTarget p r \<Rightarrow> r)"

lemma an_automation_target: "automation_target an_automation = SessionTarget ''project'' an_automation_revision"
  by (simp add: an_automation_revision_def an_automation_row)

lemma an_automation_repositories [simp]: "revision_repositories an_automation_revision = [a_repository ''7'']"
  by (simp add: an_automation_revision_def an_automation_row)

definition also_on_9 :: automation_changes where
  "also_on_9 = \<lparr>changed_name = None, changed_triggers = Some [listens_on ''7'', listens_on ''9''],
     changed_overlap = None, changed_max_runs = None\<rparr>"

definition works_in_9 :: session_changes where
  "works_in_9 = \<lparr>changed_project = None, changed_revision = Some
     \<lparr>next_place = None, next_host = None, next_agent = None, next_model = None, next_permission = None,
      next_effort = None, next_prompt = None, next_repositories = Some [a_repository ''7'', a_repository ''9'']\<rparr>\<rparr>"

theorem a_save_checks_triggers_against_the_old_repositories_witness:
  "(\<exists>e. update_automation utc_zones also_on_9 works_in_9 ''r2'' ''person'' 9 an_automation = Inl e) \<and>
   \<not> isl (case revise_session works_in_9 ''r2'' ''person'' 9 an_automation of
      Inl e \<Rightarrow> Inl e | Inr b \<Rightarrow> change_automation utc_zones also_on_9 9 b)"
proof
  show "\<exists>e. update_automation utc_zones also_on_9 works_in_9 ''r2'' ''person'' 9 an_automation = Inl e"
    by (rule a_save_checks_triggers_against_the_old_repositories 
        [OF an_automation_target, where t = "listens_on ''9''" and ids = "[''9'']"
          and triggers = "[listens_on ''7'', listens_on ''9'']"])
      (simp_all add: also_on_9_def listens_on_def a_repository_def)
  show "\<not> isl (case revise_session works_in_9 ''r2'' ''person'' 9 an_automation of
      Inl e \<Rightarrow> Inl e | Inr b \<Rightarrow> change_automation utc_zones also_on_9 9 b)"
    unfolding an_automation_row by code_simp
qed

section \<open>The properties of runs and their dispatch\<close>

text \<open>A run is settled once, with columns that say how; when one is launched; and that none waits forever.\<close>

definition a_new_run :: new_run where
  "a_new_run = \<lparr>run_organization = ''org'', run_automation = ''a'', run_revision = ''r1'', run_trigger = None,
     run_cause = CauseManual, run_cause_key = ''manual:1'',
     run_cause_summary = \<lparr>cause_label = ''Run now'', cause_text = [], cause_ref = None, cause_actor = None,
       cause_url = None, cause_event_type = ''manual''\<rparr>,
     run_inbound_event = None, run_scheduled_for = None, run_requested_by = Some ''person''\<rparr>"

definition a_run :: automation_run where
  "a_run = (case fire_run ''run'' a_new_run 10 of Inr r \<Rightarrow> r)"

lemma a_run_fired: "fire_run ''run'' a_new_run 10 = Inr a_run"
  by (simp add: a_run_def a_new_run_def fire_run_def pending_run_def run_problem_def Let_def validated_def
      new_run.defs)

lemma a_run_row [simp]: "run_outcome a_run = RunPending" "run_created_at a_run = 10"
  by (simp_all add: a_run_def a_new_run_def fire_run_def pending_run_def run_problem_def Let_def validated_def
      run_changed_def new_run.defs)

lemma a_run_reachable: "run_reachable a_run"
  by (rule run_reachable.run_fired [OF a_run_fired])

lemma run_steps_reachable: "run_step\<^sup>*\<^sup>* r r' \<Longrightarrow> run_reachable r \<Longrightarrow> run_reachable r'"
  by (induction rule: rtranclp_induct) (auto intro: run_reachable.run_stepped)

text \<open>a run is settled at most once, and its columns say how. Of every run that its operations reach, the
  skip reason, the time of dispatch and the session or turn it became are there exactly when its
  outcome is that one; and once it is settled nothing after it changes but that it was announced.\<close>

theorem a_settled_run_never_changes:
  assumes "run_reachable r" "run_step\<^sup>*\<^sup>* r r'" "run_outcome r \<noteq> RunPending"
  shows "run_inv r' \<and> (r' = r \<or> r' = run_publish r)"
proof
  show "run_inv r'" by (rule run_reachable_inv [OF run_steps_reachable [OF assms(2,1)]])
  show "r' = r \<or> r' = run_publish r"
    using assms(2)
  proof (induction rule: rtranclp_induct)
    case (step s t)
    have "run_outcome s \<noteq> RunPending" using step.IH assms(3) by (auto simp: run_publish_def)
    from settled_run_step [OF step.hyps(2) this] step.IH show ?case by (auto simp: run_publish_def)
  qed simp
qed

theorem a_settled_run_never_changes_witness:
  "\<exists>r r'. run_outcome r = RunExpired \<and> run_step r r' \<and> (r' = r \<or> r' = run_publish r)"
proof -
  obtain r where r: "expire_run 20 a_run = Inr r" "run_outcome r = RunExpired"
    by (simp add: expire_run_def assert_pending_def run_changed_def)
  have "run_reachable r" by (rule run_reachable.run_stepped [OF a_run_reachable run_step.run_expire [OF r(1)]])
  moreover have "run_step r (run_publish r)" by (rule run_step.run_publishing)
  ultimately have "run_publish r = r \<or> run_publish r = run_publish r"
    using a_settled_run_never_changes [of r "run_publish r"] r(2) by (simp add: r_into_rtranclp [of run_step])
  with r(2) \<open>run_step r (run_publish r)\<close> show ?thesis by blast
qed

text \<open>a pending run is launched on a host exactly when nothing stands against it: its automation is
  neither deleted nor, but for a run by hand, paused; it is not stale; its owner may still see it
  and its event is still there; no other run of the automation is live; the host has room and,
  where it said, disk; and the slot was claimed.\<close>

theorem a_run_is_launched_iff_nothing_stands_against_it:
  "dispatch_decide deleted paused r limits owner_in_scope event_found now
     (session_target_decide limits now other_live live_on_host free_disk claimed (DecideLaunch l)) = DecideLaunch l'
   \<longleftrightarrow> l' = l \<and> \<not> deleted \<and> (\<not> paused \<or> run_cause r = CauseManual) \<and>
     now - run_created_at r \<le> stale_ttl_seconds limits * 1000 \<and> owner_in_scope \<and>
     (run_cause r = CauseEvent \<longrightarrow> event_found) \<and> other_live = 0 \<and>
     live_on_host < live_runs_per_host limits \<and>
     (\<forall>free. free_disk = Some free \<longrightarrow> disk_floor_bytes limits \<le> free) \<and> claimed"
  by (auto simp: dispatch_decide_def session_target_decide_def guard_defs split: option.splits)

theorem a_run_is_launched_iff_nothing_stands_against_it_witness:
  "dispatch_decide False False a_run (limit_defaults default_platform_limits) True False 20
     (session_target_decide (limit_defaults default_platform_limits) 20 0 1 None True (DecideLaunch ''spec'')) =
   DecideLaunch ''spec''"
  unfolding a_run_is_launched_iff_nothing_stands_against_it
  by (simp add: default_platform_limits_def a_run_def a_new_run_def fire_run_def pending_run_def run_problem_def
      Let_def validated_def run_changed_def new_run.defs)

text \<open>no run waits forever. Whatever else is true of it, a pending run past its time to live is settled by
  the next look at it, as expired, or as skipped when its automation is deleted or paused; the
  write does not fail.\<close>

theorem a_stale_run_is_settled:
  assumes "run_outcome r = RunPending" "stale_ttl_seconds limits * 1000 < now - run_created_at r"
  shows "\<exists>r'. settle_run (dispatch_decide deleted paused r limits owner event now target) launched rid now r =
      Inr (r', None) \<and> run_outcome r' \<in> {RunExpired, RunSkipped}"
proof -
  define d where "d = dispatch_decide deleted paused r limits owner event now target"
  have "d \<in> {DecideSkip SkipDeleted None, DecideSkip SkipPaused None, DecideExpire}"
    unfolding d_def by (rule stale_run_decided [OF assms(2)])
  then show ?thesis
    unfolding d_def [symmetric] using assms(1) by (auto simp: settle_run_def run_op_defs)
qed

theorem a_stale_run_is_settled_witness:
  "\<exists>r'. settle_run (dispatch_decide False False a_run (limit_defaults default_platform_limits) True True 9000000
       (DecideLaunch ''spec'')) (Inl None) ''r1'' 9000000 a_run = Inr (r', None) \<and>
     run_outcome r' \<in> {RunExpired, RunSkipped}"
  by (rule a_stale_run_is_settled) (simp_all add: default_platform_limits_def)

text \<open>no setting passes the platform's ceiling. Whatever a workspace and an automation saved, each capped
  limit is at most its ceiling and, where the setting is positive, at most the setting.\<close>

theorem limits_stay_under_their_ceilings:
  "let l = resolve_automation_limits p w a; c = limit_ceilings p in
     max_runs_per_automation_hour l \<le> max_runs_per_automation_hour c \<and>
     max_runs_per_workspace_hour l \<le> max_runs_per_workspace_hour c \<and>
     live_runs_per_host l \<le> live_runs_per_host c \<and> stale_ttl_seconds l \<le> stale_ttl_seconds c \<and>
     max_run_seconds l \<le> max_run_seconds c \<and>
     (\<forall>n. override_runs_per_hour a = Some n \<and> 0 < n \<longrightarrow> max_runs_per_automation_hour l \<le> n)"
  unfolding resolve_automation_limits_def Let_def
  by (simp only: capped_limits.simps automation_limits.simps tightest_le)
    (auto intro: tightest_le_candidate simp del: tightest.simps)

theorem limits_stay_under_their_ceilings_witness:
  "max_runs_per_automation_hour (resolve_automation_limits default_platform_limits
     \<lparr>workspace_runs_per_automation_hour = Some 90, workspace_runs_per_workspace_hour = None,
      workspace_live_runs_per_host = None, workspace_overlap = None, workspace_stale_ttl_seconds = None,
      workspace_missed_grace_seconds = None, workspace_max_run_seconds = None,
      workspace_unattended_reports = None, workspace_unattended_away_seconds = None\<rparr>
     \<lparr>override_runs_per_hour = Some 5, override_overlap = None\<rparr>) \<le> 5"
  using limits_stay_under_their_ceilings [of default_platform_limits
     "\<lparr>workspace_runs_per_automation_hour = Some 90, workspace_runs_per_workspace_hour = None,
      workspace_live_runs_per_host = None, workspace_overlap = None, workspace_stale_ttl_seconds = None,
      workspace_missed_grace_seconds = None, workspace_max_run_seconds = None,
      workspace_unattended_reports = None, workspace_unattended_away_seconds = None\<rparr>"
     "\<lparr>override_runs_per_hour = Some 5, override_overlap = None\<rparr>"]
  unfolding Let_def by simp

end
