(* ===== verification/Access_Scope.thy ===== *)
theory Access_Scope
  imports Domain_Base
begin

section \<open>Resources, access scopes and the rows a query reaches\<close>

text \<open>
  \<^verbatim>\<open>packages/backend/authz\<close>: what a resource declares (\<^verbatim>\<open>registry/resource-definition.ts\<close>,
  \<^verbatim>\<open>registry/resource-registry.ts\<close>), what a caller may reach (\<^verbatim>\<open>scope/access-scope.ts\<close>), and the
  conditions \<^verbatim>\<open>scope/apply-access-scope.ts\<close> adds to a query. The query builder is the database
  library's: a query is here the list of the conditions added to it, all of which a selected row
  meets, and a row maps its columns to their values, \<open>None\<close> for \<open>NULL\<close>.
\<close>

subsection \<open>Resource declarations\<close>

datatype scope_dimension = Dim_Organization | Dim_Team | Dim_Own | Dim_Grant

record resource_keys =
  key_organization :: "string option"
  key_team :: "string option"
  key_owner :: "string option"
  key_id :: "string option"

record resource_definition =
  resource_subject :: string
  resource_actions :: "string list"
  resource_keys_of :: resource_keys
  resource_scopes :: "scope_dimension list"

definition is_person_owned :: "resource_keys \<Rightarrow> bool" where
  "is_person_owned keys = (\<not> truthy (key_organization keys))"

fun required_key :: "resource_keys \<Rightarrow> scope_dimension \<Rightarrow> string option" where
  "required_key keys Dim_Organization = key_organization keys"
| "required_key keys Dim_Team = key_team keys"
| "required_key keys Dim_Own = key_owner keys"
| "required_key keys Dim_Grant = key_id keys"

datatype resource_error = Empty_subject | No_actions | Missing_key scope_dimension | Action_twice string

definition define_resource :: "resource_definition \<Rightarrow> resource_error + resource_definition" where
  "define_resource definition0 =
     (let keys = resource_keys_of definition0;
          keys = keys\<lparr>key_id := (case key_id keys of None \<Rightarrow> Some ''id'' | k \<Rightarrow> k)\<rparr>;
          names = resource_actions definition0
      in if \<not> nonblank (resource_subject definition0) then Inl Empty_subject
         else if names = [] then Inl No_actions
         else (case find (\<lambda>d. \<not> truthy (required_key keys d)) (resource_scopes definition0) of
                 Some d \<Rightarrow> Inl (Missing_key d)
               | None \<Rightarrow>
                   (case find (\<lambda>i. names ! i \<in> set (take i names)) [0..<length names] of
                      Some i \<Rightarrow> Inl (Action_twice (names ! i))
                    | None \<Rightarrow> Inr (definition0\<lparr>resource_keys_of := keys\<rparr>))))"

text \<open>A subject is registered once; \<open>existing !== definition\<close> compares identity, here the declaration.\<close>

type_synonym resource_registry = "string \<rightharpoonup> resource_definition"

definition register_resource :: "resource_definition \<Rightarrow> resource_registry \<Rightarrow> resource_registry option" where
  "register_resource r registry =
     (case registry (resource_subject r) of
        Some existing \<Rightarrow> if existing \<noteq> r then None else Some (registry(resource_subject r \<mapsto> r))
      | None \<Rightarrow> Some (registry(resource_subject r \<mapsto> r)))"

primrec register_all :: "resource_definition list \<Rightarrow> resource_registry \<Rightarrow> resource_registry option" where
  "register_all [] registry = Some registry"
| "register_all (r # rs) registry =
     (case register_resource r registry of None \<Rightarrow> None | Some registry' \<Rightarrow> register_all rs registry')"

definition registry_sound :: "resource_registry \<Rightarrow> bool" where
  "registry_sound registry \<longleftrightarrow> (\<forall>subject r. registry subject = Some r \<longrightarrow> resource_subject r = subject)"

lemma register_resource_adds: "register_resource r g = Some g' \<Longrightarrow> g' = g(resource_subject r \<mapsto> r)"
  unfolding register_resource_def by (cases "g (resource_subject r)") (simp_all split: if_split_asm)

lemma register_resource_sound:
  assumes "register_resource r g = Some g'" "registry_sound g"
  shows "registry_sound g'"
  using assms(2) unfolding register_resource_adds [OF assms(1)] registry_sound_def by simp

lemma register_all_sound: "register_all rs g = Some g' \<Longrightarrow> registry_sound g \<Longrightarrow> registry_sound g'"
proof (induction rs arbitrary: g)
  case (Cons r rs)
  then obtain h where h: "register_resource r g = Some h" "register_all rs h = Some g'"
    by (simp split: option.splits)
  from Cons.IH [OF h(2) register_resource_sound [OF h(1) Cons.prems(2)]] show ?case .
qed simp

text \<open>What a declaration that was accepted promises of its columns.\<close>

definition resource_ok :: "resource_definition \<Rightarrow> bool" where
  "resource_ok r \<longleftrightarrow> nonblank (resource_subject r) \<and> resource_actions r \<noteq> [] \<and> distinct (resource_actions r) \<and>
     (\<forall>d \<in> set (resource_scopes r). truthy (required_key (resource_keys_of r) d))"

lemma distinct_no_repeat:
  assumes "find (\<lambda>i. xs ! i \<in> set (take i xs)) [0..<length xs] = None"
  shows "distinct xs"
proof -
  have n: "xs ! i \<notin> set (take i xs)" if "i < length xs" for i
    using assms that by (simp add: find_None_iff)
  have "xs ! j \<noteq> xs ! i" if "j < i" "i < length xs" for i j
  proof -
    have "take i xs ! j \<in> set (take i xs)" using that by (intro nth_mem) simp
    with n [OF that(2)] that show ?thesis by auto
  qed
  then show ?thesis by (metis distinct_conv_nth nat_neq_iff)
qed

lemma define_resource_ok:
  assumes "define_resource d = Inr r"
  shows "resource_ok r"
proof -
  let ?keys = "(resource_keys_of d)\<lparr>key_id := (case key_id (resource_keys_of d) of None \<Rightarrow> Some ''id'' | k \<Rightarrow> k)\<rparr>"
  have s: "nonblank (resource_subject d)" "resource_actions d \<noteq> []"
    and f: "find (\<lambda>d. \<not> truthy (required_key ?keys d)) (resource_scopes d) = None"
    and n: "find (\<lambda>i. resource_actions d ! i \<in> set (take i (resource_actions d))) [0..<length (resource_actions d)] = None"
    and r: "r = d\<lparr>resource_keys_of := ?keys\<rparr>"
    using assms by (simp_all add: define_resource_def Let_def split: if_splits option.splits)
  from f have "\<forall>x \<in> set (resource_scopes d). truthy (required_key ?keys x)" by (simp add: find_None_iff)
  with s distinct_no_repeat [OF n] show ?thesis by (simp add: resource_ok_def r)
qed

subsection \<open>Access scopes\<close>

datatype grant_reach = All_rows | Rows "string list"

record access_scope =
  scope_user :: string
  scope_organization :: "string option"
  scope_teams :: "string list"
  scope_grants :: "string \<rightharpoonup> grant_reach"
  scope_bypass :: bool

definition empty_scope :: "string \<Rightarrow> string option \<Rightarrow> access_scope" where
  "empty_scope user organization =
     \<lparr>scope_user = user, scope_organization = organization, scope_teams = [], scope_grants = Map.empty,
      scope_bypass = False\<rparr>"

subsection \<open>The conditions of a query\<close>

type_synonym row = "string \<rightharpoonup> string"

datatype sql_condition =
    Never
  | Column_is string string
  | Column_in string "string list"

text \<open>A conjunct of the query is a disjunction of conditions.\<close>

type_synonym query = "sql_condition list list"

fun sql_holds :: "row \<Rightarrow> sql_condition \<Rightarrow> bool" where
  "sql_holds row Never = False"
| "sql_holds row (Column_is c v) = (row c = Some v)"
| "sql_holds row (Column_in c vs) = (\<exists>v \<in> set vs. row c = Some v)"

definition selects :: "query \<Rightarrow> row \<Rightarrow> bool" where
  "selects q row = list_all (list_ex (sql_holds row)) q"

definition and_where :: "query \<Rightarrow> sql_condition list \<Rightarrow> query" where
  "and_where q cs = q @ [cs]"

lemma selects_Nil [simp]: "selects [] row"
  by (simp add: selects_def)

lemma selects_and_where [simp]: "selects (and_where q cs) row \<longleftrightarrow> selects q row \<and> list_ex (sql_holds row) cs"
  by (simp add: selects_def and_where_def)

definition narrowing_clauses :: "resource_definition \<Rightarrow> access_scope \<Rightarrow> sql_condition list" where
  "narrowing_clauses resource scope =
     (let keys = resource_keys_of resource; scopes = set (resource_scopes resource) in
      (if Dim_Team \<in> scopes \<and> truthy (key_team keys) \<and> scope_teams scope \<noteq> []
       then [Column_in (the (key_team keys)) (scope_teams scope)] else []) @
      (if Dim_Own \<in> scopes \<and> truthy (key_owner keys)
       then [Column_is (the (key_owner keys)) (scope_user scope)] else []) @
      (if Dim_Grant \<in> scopes \<and> truthy (key_id keys)
       then (case scope_grants scope (resource_subject resource) of
               Some (Rows ids) \<Rightarrow> if ids \<noteq> [] then [Column_in (the (key_id keys)) ids] else []
             | _ \<Rightarrow> [])
       else []))"

definition narrow_query :: "resource_definition \<Rightarrow> access_scope \<Rightarrow> query \<Rightarrow> query" where
  "narrow_query resource scope qb =
     (let scopes = set (resource_scopes resource);
          person_owned = is_person_owned (resource_keys_of resource);
          clauses = narrowing_clauses resource scope
      in if scope_bypass scope \<and> \<not> person_owned then qb
         else if \<not> person_owned \<and> Dim_Grant \<in> scopes \<and>
                 scope_grants scope (resource_subject resource) = Some All_rows then qb
         else if Dim_Team \<notin> scopes \<and> Dim_Own \<notin> scopes \<and> Dim_Grant \<notin> scopes then qb
         else if clauses = [] then and_where qb [Never]
         else and_where qb clauses)"

definition apply_access_scope :: "query \<Rightarrow> resource_definition \<Rightarrow> access_scope \<Rightarrow> query" where
  "apply_access_scope qb resource scope =
     (let keys = resource_keys_of resource in
      if Dim_Organization \<in> set (resource_scopes resource) \<and> truthy (key_organization keys) then
        (if \<not> truthy (scope_organization scope) then (if scope_bypass scope then qb else and_where qb [Never])
         else narrow_query resource scope
                (and_where qb [Column_is (the (key_organization keys)) (the (scope_organization scope))]))
      else narrow_query resource scope qb)"

text \<open>\<open>scopedQuery\<close>: the caller's rows of a table, or a throw when no scope was passed.\<close>

definition scoped_query :: "resource_definition \<Rightarrow> access_scope option \<Rightarrow> query option" where
  "scoped_query resource scope = map_option (apply_access_scope [] resource) scope"

subsection \<open>What a caller reaches, said once\<close>

definition in_tenant :: "resource_definition \<Rightarrow> access_scope \<Rightarrow> row \<Rightarrow> bool" where
  "in_tenant resource scope row \<longleftrightarrow>
     row (the (key_organization (resource_keys_of resource))) = scope_organization scope"

definition tenant_scoped :: "resource_definition \<Rightarrow> bool" where
  "tenant_scoped resource =
     (Dim_Organization \<in> set (resource_scopes resource) \<and> truthy (key_organization (resource_keys_of resource)))"

text \<open>The rows of the slice: the caller's team's, the caller's own, the ones granted by id.\<close>

definition in_slice :: "resource_definition \<Rightarrow> access_scope \<Rightarrow> row \<Rightarrow> bool" where
  "in_slice resource scope row \<longleftrightarrow>
     (let keys = resource_keys_of resource; scopes = set (resource_scopes resource) in
      (Dim_Team \<in> scopes \<and> truthy (key_team keys) \<and>
         (\<exists>t \<in> set (scope_teams scope). row (the (key_team keys)) = Some t)) \<or>
      (Dim_Own \<in> scopes \<and> truthy (key_owner keys) \<and> row (the (key_owner keys)) = Some (scope_user scope)) \<or>
      (Dim_Grant \<in> scopes \<and> truthy (key_id keys) \<and>
         (\<exists>ids id. scope_grants scope (resource_subject resource) = Some (Rows ids) \<and> id \<in> set ids \<and>
            row (the (key_id keys)) = Some id)))"

definition whole_slice :: "resource_definition \<Rightarrow> access_scope \<Rightarrow> bool" where
  "whole_slice resource scope \<longleftrightarrow>
     (\<not> is_person_owned (resource_keys_of resource) \<and>
        (scope_bypass scope \<or>
         Dim_Grant \<in> set (resource_scopes resource) \<and> scope_grants scope (resource_subject resource) = Some All_rows)) \<or>
     set (resource_scopes resource) \<subseteq> {Dim_Organization}"

definition reaches :: "resource_definition \<Rightarrow> access_scope \<Rightarrow> row \<Rightarrow> bool" where
  "reaches resource scope row \<longleftrightarrow>
     (if tenant_scoped resource then
        (if truthy (scope_organization scope)
         then in_tenant resource scope row \<and> (whole_slice resource scope \<or> in_slice resource scope row)
         else scope_bypass scope)
      else whole_slice resource scope \<or> in_slice resource scope row)"

lemma narrowing_clauses_slice:
  "list_ex (sql_holds row) (narrowing_clauses resource scope) \<longleftrightarrow> in_slice resource scope row"
  by (auto simp: narrowing_clauses_def in_slice_def Let_def split: option.split grant_reach.split)

lemma only_organization:
  "(d1 \<notin> S \<and> d2 \<notin> S \<and> d3 \<notin> S) \<longleftrightarrow> S \<subseteq> {Dim_Organization}"
  if "d1 = Dim_Team" "d2 = Dim_Own" "d3 = Dim_Grant"
  using that by (auto) (metis scope_dimension.exhaust)

lemma narrow_query_selects:
  "selects (narrow_query resource scope qb) row \<longleftrightarrow>
   selects qb row \<and> (whole_slice resource scope \<or> in_slice resource scope row)"
  using narrowing_clauses_slice [of row resource scope]
  by (auto simp: narrow_query_def whole_slice_def Let_def only_organization [OF refl refl refl, symmetric])

lemma apply_access_scope_selects:
  "selects (apply_access_scope qb resource scope) row \<longleftrightarrow> selects qb row \<and> reaches resource scope row"
  by (auto simp: apply_access_scope_def reaches_def tenant_scoped_def in_tenant_def narrow_query_selects Let_def
      truthy_Some)

end
