(* ===== verification/Access_Grant.thy ===== *)
theory Access_Grant
  imports Access_Scope
begin

section \<open>Access grants: who passes on what\<close>

text \<open>
  \<^verbatim>\<open>packages/backend/authz/src/grants/can-grant-scope.ts\<close> and \<^verbatim>\<open>apps/api/src/authz\<close>: the grant entity, the table its
  repository keeps, the scope resolved from the table (\<^verbatim>\<open>application/scope.resolver.ts\<close>) and the two commands
  that change it. Teams, roles and memberships belong to other modules: they are the fields of a
  directory, read at each step.
\<close>

subsection \<open>The grant\<close>

datatype principal_type = Principal_user | Principal_team | Principal_role

record access_grant =
  grant_id :: string
  grant_organization :: string
  grant_principal_type :: principal_type
  grant_principal_id :: string
  grant_resource_type :: string
  grant_resource_id :: "string option"
  grant_granted_by :: string
  grant_expires_at :: "date option"

definition is_blanket :: "access_grant \<Rightarrow> bool" where
  "is_blanket g = (grant_resource_id g = None)"

definition access_grant_problem :: "access_grant \<Rightarrow> domain_error option" where
  "access_grant_problem g = check_all
     [(\<not> nonblank (grant_organization g), ArgumentNotProvided ''An access grant must belong to an organization''),
      (\<not> nonblank (grant_principal_id g), ArgumentNotProvided ''An access grant must name a principal''),
      (\<not> nonblank (grant_resource_type g), ArgumentNotProvided ''An access grant must name a resource type'')]"

definition issue_access_grant :: "access_grant \<Rightarrow> domain_error + access_grant" where
  "issue_access_grant g = validated (access_grant_problem g) g"

definition can_grant_scope ::
  "access_scope \<Rightarrow> string \<Rightarrow> string \<Rightarrow> string option \<Rightarrow> resource_definition option \<Rightarrow> bool" where
  "can_grant_scope actor organization resource_type resource_id resource =
     (let person_owned = (case resource of None \<Rightarrow> True | Some r \<Rightarrow> is_person_owned (resource_keys_of r)) in
      if scope_bypass actor \<and> \<not> person_owned then True
      else if \<not> truthy (scope_organization actor) then False
      else if Some organization \<noteq> scope_organization actor then False
      else
        (let held = scope_grants actor resource_type in
         case resource_id of
           None \<Rightarrow> \<not> person_owned \<and> held = Some All_rows
         | Some i \<Rightarrow>
             (case held of
                Some All_rows \<Rightarrow> \<not> person_owned
              | Some (Rows ids) \<Rightarrow> i \<in> set ids
              | None \<Rightarrow> False)))"

subsection \<open>The directory and the scope of a caller\<close>

record directory =
  dir_registry :: resource_registry
  dir_teams :: "string \<Rightarrow> string \<Rightarrow> string list"
  dir_roles :: "string \<Rightarrow> string \<Rightarrow> string list"
  dir_is_member :: "string \<Rightarrow> string \<Rightarrow> bool"
  dir_is_team :: "string \<Rightarrow> string \<Rightarrow> bool"
  dir_is_role :: "string option \<Rightarrow> string \<Rightarrow> bool"

definition find_active_for_principals ::
  "date \<Rightarrow> access_grant list \<Rightarrow> string \<Rightarrow> (principal_type \<times> string) list \<Rightarrow> access_grant list" where
  "find_active_for_principals now table organization principals =
     filter (\<lambda>g. grant_organization g = organization \<and>
               (case grant_expires_at g of None \<Rightarrow> True | Some e \<Rightarrow> now < e) \<and>
               (grant_principal_type g, grant_principal_id g) \<in> set principals) table"

definition fold_grant ::
  "resource_registry \<Rightarrow> (string \<rightharpoonup> grant_reach) \<Rightarrow> access_grant \<Rightarrow> (string \<rightharpoonup> grant_reach)" where
  "fold_grant registry grants g =
     (let t = grant_resource_type g in
      case grant_resource_id g of
        None \<Rightarrow>
          (if (case registry t of Some r \<Rightarrow> is_person_owned (resource_keys_of r) | None \<Rightarrow> False) then grants
           else grants(t \<mapsto> All_rows))
      | Some i \<Rightarrow>
          (case grants t of
             Some All_rows \<Rightarrow> grants
           | Some (Rows ids) \<Rightarrow> grants(t \<mapsto> Rows (ids @ [i]))
           | None \<Rightarrow> grants(t \<mapsto> Rows [i])))"

definition grants_for :: "resource_registry \<Rightarrow> access_grant list \<Rightarrow> string \<rightharpoonup> grant_reach" where
  "grants_for registry rows = foldl (fold_grant registry) Map.empty rows"

definition principals_of :: "directory \<Rightarrow> string \<Rightarrow> string \<Rightarrow> (principal_type \<times> string) list" where
  "principals_of dir user organization =
     (Principal_user, user) # map (Pair Principal_team) (dir_teams dir user organization) @
     map (Pair Principal_role) (dir_roles dir user organization)"

definition resolve_scope ::
  "directory \<Rightarrow> date \<Rightarrow> access_grant list \<Rightarrow> string \<Rightarrow> string option \<Rightarrow> bool \<Rightarrow> bool \<Rightarrow> access_scope" where
  "resolve_scope dir now table user organization platform_admin full_access =
     (let bypass = (platform_admin \<or> full_access) in
      if \<not> truthy organization then (empty_scope user None)\<lparr>scope_bypass := bypass\<rparr>
      else
        (let org = the organization in
         \<lparr>scope_user = user, scope_organization = Some org, scope_teams = dir_teams dir user org,
          scope_grants = grants_for (dir_registry dir)
            (find_active_for_principals now table org (principals_of dir user org)),
          scope_bypass = bypass\<rparr>))"

subsection \<open>The commands\<close>

datatype grant_error =
    No_active_organization
  | Grant_not_found
  | Not_grantable
  | Principal_outside_organization
  | Grant_invalid domain_error

record create_grant =
  cg_principal_type :: principal_type
  cg_principal_id :: string
  cg_resource_type :: string
  cg_resource_id :: "string option"
  cg_expires_at :: "date option"

fun belongs :: "directory \<Rightarrow> string \<Rightarrow> principal_type \<Rightarrow> string \<Rightarrow> bool" where
  "belongs dir organization Principal_user i = dir_is_member dir organization i"
| "belongs dir organization Principal_team i = dir_is_team dir organization i"
| "belongs dir organization Principal_role i = (dir_is_role dir (Some organization) i \<or> dir_is_role dir None i)"

definition create_access_grant ::
  "directory \<Rightarrow> access_grant list \<Rightarrow> access_scope \<Rightarrow> string \<Rightarrow> create_grant \<Rightarrow> grant_error + access_grant list" where
  "create_access_grant dir table scope new_id command =
     (if \<not> truthy (scope_organization scope) then Inl No_active_organization
      else
        (let org = the (scope_organization scope);
             resource = dir_registry dir (cg_resource_type command) in
         if \<not> can_grant_scope scope org (cg_resource_type command) (cg_resource_id command) resource
         then Inl Not_grantable
         else if \<not> belongs dir org (cg_principal_type command) (cg_principal_id command)
         then Inl Principal_outside_organization
         else (case issue_access_grant
                 \<lparr>grant_id = new_id, grant_organization = org, grant_principal_type = cg_principal_type command,
                  grant_principal_id = cg_principal_id command, grant_resource_type = cg_resource_type command,
                  grant_resource_id = cg_resource_id command, grant_granted_by = scope_user scope,
                  grant_expires_at = cg_expires_at command\<rparr> of
                 Inl e \<Rightarrow> Inl (Grant_invalid e)
               | Inr g \<Rightarrow> Inr (table @ [g]))))"

definition revoke_access_grant ::
  "access_grant list \<Rightarrow> access_scope \<Rightarrow> string \<Rightarrow> grant_error + access_grant list" where
  "revoke_access_grant table scope the_id =
     (if \<not> truthy (scope_organization scope) then Inl No_active_organization
      else
        (let org = the (scope_organization scope) in
         if \<not> list_ex (\<lambda>g. grant_id g = the_id \<and> grant_organization g = org) table then Inl Grant_not_found
         else Inr (filter (\<lambda>g. \<not> (grant_id g = the_id \<and> grant_organization g = org)) table)))"

subsection \<open>The table over time\<close>

text \<open>
  A step is one command by any caller, in the scope resolved for it at that moment. Teams, roles and
  members may be others at each step; the registry is fixed at boot. The empty table is the
  migration's.
\<close>

inductive grant_table :: "resource_registry \<Rightarrow> access_grant list \<Rightarrow> bool" for registry where
  fresh: "grant_table registry []"
| created: "grant_table registry table \<Longrightarrow> dir_registry dir = registry \<Longrightarrow>
    create_access_grant dir table (resolve_scope dir now table user organization admin full) new_id command = Inr table' \<Longrightarrow>
    grant_table registry table'"
| revoked: "grant_table registry table \<Longrightarrow>
    revoke_access_grant table (resolve_scope dir now table user organization admin full) the_id = Inr table' \<Longrightarrow>
    grant_table registry table'"

inductive_cases create_grant_tableE: "grant_table registry table"

subsection \<open>What the fold keeps\<close>

lemma grants_for_Nil [simp]: "grants_for registry [] = Map.empty"
  by (simp add: grants_for_def)

lemma grants_for_snoc: "grants_for registry (rows @ [g]) = fold_grant registry (grants_for registry rows) g"
  by (simp add: grants_for_def)

definition blanket_counts :: "resource_registry \<Rightarrow> string \<Rightarrow> bool" where
  "blanket_counts registry t =
     (case registry t of Some r \<Rightarrow> \<not> is_person_owned (resource_keys_of r) | None \<Rightarrow> True)"

text \<open>The fold said without its map: every row, or exactly the ids some grant names.\<close>

definition granted_ids :: "string \<Rightarrow> access_grant list \<Rightarrow> string list" where
  "granted_ids t rows =
     map (\<lambda>g. the (grant_resource_id g)) (filter (\<lambda>g. grant_resource_type g = t \<and> \<not> is_blanket g) rows)"

definition has_blanket :: "resource_registry \<Rightarrow> string \<Rightarrow> access_grant list \<Rightarrow> bool" where
  "has_blanket registry t rows =
     (blanket_counts registry t \<and> list_ex (\<lambda>g. grant_resource_type g = t \<and> is_blanket g) rows)"

lemma grants_for_eq:
  "grants_for registry rows t =
     (if has_blanket registry t rows then Some All_rows
      else if granted_ids t rows = [] then None else Some (Rows (granted_ids t rows)))"
proof (induction rows rule: rev_induct)
  case (snoc g rows)
  note IH = snoc.IH
  show ?case
  proof (cases "grant_resource_type g = t")
    case False
    then show ?thesis using IH
      by (auto simp: grants_for_snoc fold_grant_def Let_def has_blanket_def granted_ids_def
          split: option.split grant_reach.split)
  next
    case True
    show ?thesis
    proof (cases "grant_resource_id g")
      case None
      then show ?thesis using IH True
        by (auto simp: grants_for_snoc fold_grant_def Let_def has_blanket_def granted_ids_def is_blanket_def
            blanket_counts_def split: option.split)
    next
      case (Some i)
      then show ?thesis using IH True
        by (auto simp: grants_for_snoc fold_grant_def Let_def has_blanket_def granted_ids_def is_blanket_def)
    qed
  qed
qed (simp add: has_blanket_def granted_ids_def)

subsection \<open>What one more grant opens\<close>

definition opens :: "resource_definition \<Rightarrow> access_grant \<Rightarrow> row \<Rightarrow> bool" where
  "opens r g row \<longleftrightarrow>
     grant_resource_type g = resource_subject r \<and> Dim_Grant \<in> set (resource_scopes r) \<and>
     (case grant_resource_id g of
        None \<Rightarrow> \<not> is_person_owned (resource_keys_of r)
      | Some i \<Rightarrow> truthy (key_id (resource_keys_of r)) \<and> row (the (key_id (resource_keys_of r))) = Some i)"

lemma fold_grant_other:
  "grant_resource_type g \<noteq> t \<Longrightarrow> fold_grant registry grants g t = grants t"
  by (auto simp: fold_grant_def Let_def split: option.split grant_reach.split)

lemma slice_opened:
  assumes reg: "registry (resource_subject r) = Some r"
    and after: "whole_slice r (v\<lparr>scope_grants := fold_grant registry (scope_grants v) g\<rparr>) \<or>
      in_slice r (v\<lparr>scope_grants := fold_grant registry (scope_grants v) g\<rparr>) row"
    and before: "\<not> whole_slice r v" "\<not> in_slice r v row"
  shows "opens r g row"
proof -
  let ?t = "resource_subject r"
  let ?v = "v\<lparr>scope_grants := fold_grant registry (scope_grants v) g\<rparr>"
  have t: "grant_resource_type g = ?t"
  proof (rule ccontr)
    assume "grant_resource_type g \<noteq> ?t"
    then have "whole_slice r ?v = whole_slice r v" "in_slice r ?v row = in_slice r v row"
      by (simp_all add: whole_slice_def in_slice_def fold_grant_other)
    with after before show False by simp
  qed
  have d: "Dim_Grant \<in> set (resource_scopes r)"
    using after before by (auto simp: whole_slice_def in_slice_def Let_def)
  show ?thesis
  proof (cases "grant_resource_id g")
    case None
    have "\<not> is_person_owned (resource_keys_of r)"
    proof
      assume po: "is_person_owned (resource_keys_of r)"
      then have "fold_grant registry (scope_grants v) g = scope_grants v"
        using None reg t by (simp add: fold_grant_def)
      with after before show False by simp
    qed
    with None t d show ?thesis by (simp add: opens_def)
  next
    case (Some i)
    have "\<not> whole_slice r ?v"
      using before(1) Some t
      by (auto simp: whole_slice_def fold_grant_def Let_def split: option.splits grant_reach.splits)
    with after have s: "in_slice r ?v row" by simp
    have "truthy (key_id (resource_keys_of r)) \<and> row (the (key_id (resource_keys_of r))) = Some i"
      using s before(2) Some t
      by (auto simp: in_slice_def fold_grant_def Let_def split: option.splits grant_reach.splits)
    with Some t d show ?thesis by (simp add: opens_def)
  qed
qed

lemma reaches_opened:
  assumes reg: "registry (resource_subject r) = Some r"
    and after: "reaches r (v\<lparr>scope_grants := fold_grant registry (scope_grants v) g\<rparr>) row"
    and before: "\<not> reaches r v row" and org: "truthy (scope_organization v)"
  shows "opens r g row \<and> (tenant_scoped r \<longrightarrow> in_tenant r v row)"
proof -
  let ?v = "v\<lparr>scope_grants := fold_grant registry (scope_grants v) g\<rparr>"
  have o: "scope_organization ?v = scope_organization v" "in_tenant r ?v row = in_tenant r v row"
    by (simp_all add: in_tenant_def)
  have tenant: "tenant_scoped r \<longrightarrow> in_tenant r v row"
    using after org o by (auto simp: reaches_def)
  have "whole_slice r ?v \<or> in_slice r ?v row" using after org o by (auto simp: reaches_def split: if_splits)
  moreover have "\<not> whole_slice r v" "\<not> in_slice r v row"
    using before tenant org by (auto simp: reaches_def split: if_splits)
  ultimately show ?thesis 
    using slice_opened [where registry = registry and v = v and g = g, OF reg] tenant by blast
qed

lemma can_grant_opens:
  assumes can: "can_grant_scope author org (grant_resource_type g) (grant_resource_id g) (Some r)"
    and opens: "opens r g row" and org: "scope_organization author = Some org"
    and tenant: "tenant_scoped r \<longrightarrow> in_tenant r author row"
  shows "reaches r author row"
proof -
  have t: "grant_resource_type g = resource_subject r" and d: "Dim_Grant \<in> set (resource_scopes r)"
    using opens by (simp_all add: opens_def)
  have tr: "truthy (scope_organization author) \<or> (scope_bypass author \<and> \<not> is_person_owned (resource_keys_of r))"
    using can by (auto simp: can_grant_scope_def Let_def split: if_splits)
  have "whole_slice r author \<or> in_slice r author row"
  proof (cases "grant_resource_id g")
    case None
    then show ?thesis using can t d
      by (auto simp: can_grant_scope_def whole_slice_def Let_def split: if_splits)
  next
    case (Some i)
    then show ?thesis using can t d opens
      by (auto simp: can_grant_scope_def whole_slice_def in_slice_def opens_def Let_def
          split: if_splits option.splits grant_reach.splits)
  qed
  then show ?thesis using tenant tr by (auto simp: reaches_def)
qed

lemma create_access_grantD:
  assumes "create_access_grant dir table author new_id command = Inr table'"
  obtains org g where "scope_organization author = Some org" "org \<noteq> []" "table' = table @ [g]"
    "grant_organization g = org" "grant_resource_type g = cg_resource_type command"
    "grant_resource_id g = cg_resource_id command"
    "can_grant_scope author org (grant_resource_type g) (grant_resource_id g) (dir_registry dir (grant_resource_type g))"
    "belongs dir org (grant_principal_type g) (grant_principal_id g)"
    "access_grant_problem g = None" "grant_id g = new_id" "grant_expires_at g = cg_expires_at command"
proof -
  let ?g = "\<lparr>grant_id = new_id, grant_organization = the (scope_organization author),
     grant_principal_type = cg_principal_type command,
     grant_principal_id = cg_principal_id command, grant_resource_type = cg_resource_type command,
     grant_resource_id = cg_resource_id command, grant_granted_by = scope_user author,
     grant_expires_at = cg_expires_at command\<rparr>"
  have "truthy (scope_organization author)" "table' = table @ [?g]" "access_grant_problem ?g = None"
    "can_grant_scope author (the (scope_organization author)) (cg_resource_type command) (cg_resource_id command)
      (dir_registry dir (cg_resource_type command))"
    "belongs dir (the (scope_organization author)) (cg_principal_type command) (cg_principal_id command)"
    using assms by (auto simp: create_access_grant_def issue_access_grant_def Let_def
        split: if_splits sum.splits)
  then show ?thesis using that [of "the (scope_organization author)" ?g] by (auto simp: truthy_Some)
qed

text \<open>One more row of the table, seen from any caller.\<close>

lemma resolve_scope_snoc:
  "resolve_scope dir now (table @ [g]) viewer org admin full = resolve_scope dir now table viewer org admin full \<or>
   (org = Some (grant_organization g) \<and> grant_organization g \<noteq> [] \<and>
    resolve_scope dir now (table @ [g]) viewer org admin full =
      (let v = resolve_scope dir now table viewer org admin full in
       v\<lparr>scope_grants := fold_grant (dir_registry dir) (scope_grants v) g\<rparr>))"
  by (cases org) (simp_all add: resolve_scope_def find_active_for_principals_def grants_for_snoc Let_def truthy_def)

lemma resolve_scope_organization:
  "truthy org \<Longrightarrow> scope_organization (resolve_scope dir now table viewer org admin full) = org"
  by (auto simp: resolve_scope_def Let_def truthy_Some)

theorem grant_within_author:
  assumes create: "create_access_grant dir table author new_id command = Inr table'"
    and reg: "dir_registry dir (resource_subject r) = Some r"
    and after: "reaches r (resolve_scope dir now table' viewer org admin full) row"
    and before: "\<not> reaches r (resolve_scope dir now table viewer org admin full) row"
  shows "reaches r author row"
proof -
  let ?v = "resolve_scope dir now table viewer org admin full"
  from create obtain o' g where a: "scope_organization author = Some o'" and t': "table' = table @ [g]"
    and go: "grant_organization g = o'"
    and can: "can_grant_scope author o' (grant_resource_type g) (grant_resource_id g) (dir_registry dir (grant_resource_type g))"
    by (rule create_access_grantD)
  have "resolve_scope dir now table' viewer org admin full \<noteq> ?v" using after before by auto
  with resolve_scope_snoc [of dir now table g viewer org admin full] t'
  have org: "org = Some o'" "o' \<noteq> []"
    and v': "resolve_scope dir now table' viewer org admin full =
      ?v\<lparr>scope_grants := fold_grant (dir_registry dir) (scope_grants ?v) g\<rparr>"
    using go by (auto simp: Let_def)
  have so: "scope_organization ?v = Some o'" using org by (simp add: resolve_scope_organization truthy_def)
  then have tr: "truthy (scope_organization ?v)" using org by (simp add: truthy_def)
  have "opens r g row \<and> (tenant_scoped r \<longrightarrow> in_tenant r ?v row)"
    by (rule reaches_opened [where registry = "dir_registry dir", OF reg after [unfolded v'] before tr])
  then have op: "opens r g row" and ten: "tenant_scoped r \<longrightarrow> in_tenant r author row"
    using so a by (simp_all add: in_tenant_def)
  have "dir_registry dir (grant_resource_type g) = Some r" using op reg by (simp add: opens_def)
  with can have "can_grant_scope author o' (grant_resource_type g) (grant_resource_id g) (Some r)" by simp
  from can_grant_opens [OF this op a ten] show ?thesis .
qed

subsection \<open>Nobody's own rows are ever granted\<close>

definition grantable_type :: "resource_registry \<Rightarrow> string \<Rightarrow> bool" where
  "grantable_type registry t =
     (case registry t of None \<Rightarrow> False | Some r \<Rightarrow> \<not> is_person_owned (resource_keys_of r))"

lemma held_rows_in_table:
  assumes "scope_grants (resolve_scope dir now table user org admin full) t = Some (Rows ids)"
  shows "\<exists>g \<in> set table. grant_resource_type g = t"
proof -
  have tr: "truthy org" using assms by (auto simp: resolve_scope_def empty_scope_def Let_def split: if_splits)
  let ?rows = "find_active_for_principals now table (the org) (principals_of dir user (the org))"
  have "grants_for (dir_registry dir) ?rows t = Some (Rows ids)"
    using assms tr by (simp add: resolve_scope_def Let_def)
  then have "granted_ids t ?rows \<noteq> []" by (simp add: grants_for_eq split: if_splits)
  then show ?thesis by (auto simp: granted_ids_def find_active_for_principals_def filter_empty_conv)
qed

lemma grant_table_grantable: "grant_table registry table \<Longrightarrow> \<forall>g \<in> set table. grantable_type registry (grant_resource_type g)"
proof (induction rule: grant_table.induct)
  case (created table dir now user organization admin full new_id command table')
  from created(3) obtain o' g where t': "table' = table @ [g]"
    and can: "can_grant_scope (resolve_scope dir now table user organization admin full) o' (grant_resource_type g)
       (grant_resource_id g) (dir_registry dir (grant_resource_type g))"
    by (rule create_access_grantD)
  have "grantable_type registry (grant_resource_type g)"
  proof (rule ccontr)
    assume n: "\<not> grantable_type registry (grant_resource_type g)"
    then have po: "(case dir_registry dir (grant_resource_type g) of None \<Rightarrow> True
        | Some r \<Rightarrow> is_person_owned (resource_keys_of r))"
      using created(2) by (simp add: grantable_type_def split: option.splits)
    have "\<exists>ids. scope_grants (resolve_scope dir now table user organization admin full) (grant_resource_type g) = Some (Rows ids)"
      using can po by (auto simp: can_grant_scope_def Let_def split: if_splits option.splits grant_reach.splits)
    with held_rows_in_table created.IH n show False by metis
  qed
  with created.IH t' show ?case by simp
next
  case (revoked table dir now user organization admin full the_id table')
  then show ?case by (auto simp: revoke_access_grant_def Let_def split: if_splits)
qed simp

end
