(* ===== verification/Resource_Catalog.thy ===== *)
theory Resource_Catalog
  imports Access_Grant
begin

section \<open>The resources of the application\<close>

text \<open>
  The declarations of the feature modules (\<^verbatim>\<open>apps/api/src/*/*.resource.ts\<close>), each the argument of its
  \<open>defineResource\<close>, and the registry they build at boot. Labels, groups and the other texts the
  role builder shows are left out.
\<close>

definition api_token_resource :: resource_definition where
  "api_token_resource = \<lparr>resource_subject = ''ApiToken'', resource_actions = [''read'', ''create'', ''delete''],
     resource_keys_of = \<lparr>key_organization = None, key_team = None, key_owner = Some ''userId'', key_id = None\<rparr>,
     resource_scopes = [Dim_Own]\<rparr>"

definition automation_resource :: resource_definition where
  "automation_resource = \<lparr>resource_subject = ''Automation'', resource_actions = [''read'', ''create'', ''update'', ''delete''],
     resource_keys_of = \<lparr>key_organization = Some ''organizationId'', key_team = None, key_owner = None, key_id = Some ''id''\<rparr>,
     resource_scopes = [Dim_Organization]\<rparr>"

definition bot_resource :: resource_definition where
  "bot_resource = \<lparr>resource_subject = ''Bot'', resource_actions = [''read'', ''create'', ''update'', ''delete''],
     resource_keys_of = \<lparr>key_organization = Some ''organizationId'', key_team = None, key_owner = None, key_id = Some ''id''\<rparr>,
     resource_scopes = [Dim_Organization]\<rparr>"

definition calendar_resource :: resource_definition where
  "calendar_resource = \<lparr>resource_subject = ''Calendar'', resource_actions = [''read'', ''create'', ''update'', ''delete''],
     resource_keys_of = \<lparr>key_organization = Some ''organizationId'', key_team = None, key_owner = None, key_id = Some ''id''\<rparr>,
     resource_scopes = [Dim_Organization]\<rparr>"

definition cloud_agent_resource :: resource_definition where
  "cloud_agent_resource = \<lparr>resource_subject = ''CloudAgent'', resource_actions = [''read'', ''create'', ''update'', ''delete''],
     resource_keys_of = \<lparr>key_organization = Some ''organizationId'', key_team = None, key_owner = None, key_id = Some ''id''\<rparr>,
     resource_scopes = [Dim_Organization]\<rparr>"

definition feature_flag_resource :: resource_definition where
  "feature_flag_resource = \<lparr>resource_subject = ''FeatureFlag'', resource_actions = [''read'', ''update''],
     resource_keys_of = \<lparr>key_organization = None, key_team = None, key_owner = None, key_id = None\<rparr>,
     resource_scopes = []\<rparr>"

definition installation_resource :: resource_definition where
  "installation_resource = \<lparr>resource_subject = ''Installation'', resource_actions = [''read'', ''create'', ''delete''],
     resource_keys_of = \<lparr>key_organization = Some ''organizationId'', key_team = None, key_owner = None, key_id = Some ''id''\<rparr>,
     resource_scopes = [Dim_Organization]\<rparr>"

definition host_resource :: resource_definition where
  "host_resource = \<lparr>resource_subject = ''Host'', resource_actions = [''read'', ''create'', ''update'', ''delete''],
     resource_keys_of = \<lparr>key_organization = None, key_team = None, key_owner = Some ''ownerUserId'', key_id = Some ''id''\<rparr>,
     resource_scopes = [Dim_Own, Dim_Grant]\<rparr>"

definition mail_resource :: resource_definition where
  "mail_resource = \<lparr>resource_subject = ''Mail'', resource_actions = [''read'', ''create'', ''update'', ''delete''],
     resource_keys_of = \<lparr>key_organization = Some ''organizationId'', key_team = None, key_owner = None, key_id = Some ''id''\<rparr>,
     resource_scopes = [Dim_Organization]\<rparr>"

definition organization_resource :: resource_definition where
  "organization_resource = \<lparr>resource_subject = ''Organization'', resource_actions = [''read'', ''create'', ''update'', ''delete''],
     resource_keys_of = \<lparr>key_organization = None, key_team = None, key_owner = None, key_id = None\<rparr>,
     resource_scopes = []\<rparr>"

definition member_resource :: resource_definition where
  "member_resource = \<lparr>resource_subject = ''Member'', resource_actions = [''read'', ''create'', ''update'', ''delete'', ''manage''],
     resource_keys_of = \<lparr>key_organization = None, key_team = None, key_owner = None, key_id = None\<rparr>,
     resource_scopes = []\<rparr>"

definition invitation_resource :: resource_definition where
  "invitation_resource = \<lparr>resource_subject = ''Invitation'', resource_actions = [''read'', ''create'', ''delete''],
     resource_keys_of = \<lparr>key_organization = None, key_team = None, key_owner = None, key_id = None\<rparr>,
     resource_scopes = []\<rparr>"

definition workspace_resource :: resource_definition where
  "workspace_resource = \<lparr>resource_subject = ''Workspace'', resource_actions = [''read'', ''create'', ''update'', ''delete'', ''manage''],
     resource_keys_of = \<lparr>key_organization = Some ''organizationId'', key_team = None, key_owner = None, key_id = None\<rparr>,
     resource_scopes = []\<rparr>"

definition project_resource :: resource_definition where
  "project_resource = \<lparr>resource_subject = ''Project'', resource_actions = [''read'', ''create'', ''update''],
     resource_keys_of = \<lparr>key_organization = Some ''organizationId'', key_team = None, key_owner = None, key_id = Some ''id''\<rparr>,
     resource_scopes = [Dim_Organization]\<rparr>"

definition pull_request_resource :: resource_definition where
  "pull_request_resource = \<lparr>resource_subject = ''PullRequest'', resource_actions = [''read'', ''update''],
     resource_keys_of = \<lparr>key_organization = Some ''organizationId'', key_team = None, key_owner = None, key_id = Some ''id''\<rparr>,
     resource_scopes = [Dim_Organization]\<rparr>"

definition role_resource :: resource_definition where
  "role_resource = \<lparr>resource_subject = ''Role'', resource_actions = [''read'', ''create'', ''update'', ''delete''],
     resource_keys_of = \<lparr>key_organization = None, key_team = None, key_owner = None, key_id = None\<rparr>,
     resource_scopes = []\<rparr>"

definition session_resource :: resource_definition where
  "session_resource = \<lparr>resource_subject = ''Session'', resource_actions = [''read'', ''create'', ''update'', ''delete''],
     resource_keys_of = \<lparr>key_organization = Some ''organizationId'', key_team = None, key_owner = None, key_id = Some ''id''\<rparr>,
     resource_scopes = [Dim_Organization]\<rparr>"

definition task_resource :: resource_definition where
  "task_resource = \<lparr>resource_subject = ''Task'', resource_actions = [''read'', ''create'', ''update'', ''delete''],
     resource_keys_of = \<lparr>key_organization = Some ''organizationId'', key_team = None, key_owner = None, key_id = Some ''id''\<rparr>,
     resource_scopes = [Dim_Organization]\<rparr>"

definition user_resource :: resource_definition where
  "user_resource = \<lparr>resource_subject = ''User'', resource_actions = [''read'', ''create'', ''update'', ''delete'', ''manage''],
     resource_keys_of = \<lparr>key_organization = None, key_team = None, key_owner = None, key_id = None\<rparr>,
     resource_scopes = []\<rparr>"

definition whatsapp_resource :: resource_definition where
  "whatsapp_resource = \<lparr>resource_subject = ''Whatsapp'', resource_actions = [''read'', ''create'', ''update'', ''delete''],
     resource_keys_of = \<lparr>key_organization = Some ''organizationId'', key_team = None, key_owner = None, key_id = Some ''id''\<rparr>,
     resource_scopes = [Dim_Organization]\<rparr>"

definition declared_resources :: "resource_definition list" where
  "declared_resources = [api_token_resource, automation_resource, bot_resource, calendar_resource,
     cloud_agent_resource, feature_flag_resource, installation_resource, host_resource,
     mail_resource, organization_resource, member_resource, invitation_resource,
     workspace_resource, project_resource, pull_request_resource, role_resource,
     session_resource, task_resource, user_resource, whatsapp_resource]"

fun define_all :: "resource_definition list \<Rightarrow> resource_error + resource_definition list" where
  "define_all [] = Inr []"
| "define_all (d # ds) =
     (case define_resource d of Inl e \<Rightarrow> Inl e
      | Inr r \<Rightarrow> (case define_all ds of Inl e \<Rightarrow> Inl e | Inr rs \<Rightarrow> Inr (r # rs)))"

definition app_resources :: "resource_definition list" where
  "app_resources = (case define_all declared_resources of Inr rs \<Rightarrow> rs | Inl e \<Rightarrow> [])"

definition app_registry :: resource_registry where
  "app_registry = (case register_all app_resources Map.empty of Some g \<Rightarrow> g | None \<Rightarrow> Map.empty)"

lemmas resource_decls = api_token_resource_def automation_resource_def bot_resource_def calendar_resource_def cloud_agent_resource_def feature_flag_resource_def installation_resource_def host_resource_def mail_resource_def organization_resource_def member_resource_def invitation_resource_def workspace_resource_def project_resource_def pull_request_resource_def role_resource_def session_resource_def task_resource_def user_resource_def whatsapp_resource_def

lemma define_all_ok: "define_all ds = Inr rs \<Longrightarrow> length rs = length ds \<and> list_all resource_ok rs"
  by (induction ds arbitrary: rs) (auto split: sum.splits dest: define_resource_ok)

lemma define_all_member: "define_all ds = Inr rs \<Longrightarrow> d \<in> set ds \<Longrightarrow> define_resource d = Inr r \<Longrightarrow> r \<in> set rs"
  by (induction ds arbitrary: rs) (auto split: sum.splits)

lemma declared_define: "\<exists>rs. define_all declared_resources = Inr rs"
  by (simp add: declared_resources_def resource_decls define_resource_def nonblank_iff js_space_def truthy_def)

lemma app_resources_defined: "define_all declared_resources = Inr app_resources"
  using declared_define by (auto simp: app_resources_def)

text \<open>Defining a resource keeps its subject, its dimensions and its tenant.\<close>

definition boundary :: "resource_definition \<Rightarrow> string \<times> scope_dimension list \<times> string option" where
  "boundary r = (resource_subject r, resource_scopes r, key_organization (resource_keys_of r))"

lemma define_resource_boundary: "define_resource d = Inr r \<Longrightarrow> boundary r = boundary d"
  by (auto simp: define_resource_def boundary_def Let_def split: if_splits option.splits)

lemma define_all_boundary: "define_all ds = Inr rs \<Longrightarrow> map boundary rs = map boundary ds"
  by (induction ds arbitrary: rs) (auto split: sum.splits dest: define_resource_boundary)

lemma app_boundaries: "map boundary app_resources = map boundary declared_resources"
  by (rule define_all_boundary [OF app_resources_defined])

lemma register_all_distinct:
  "distinct (map resource_subject rs) \<Longrightarrow> \<forall>r \<in> set rs. g (resource_subject r) = None \<Longrightarrow>
   \<exists>g'. register_all rs g = Some g' \<and> (\<forall>r \<in> set rs. g' (resource_subject r) = Some r) \<and>
     (\<forall>t. t \<notin> resource_subject ` set rs \<longrightarrow> g' t = g t)"
proof (induction rs arbitrary: g)
  case (Cons r rs)
  let ?g = "g(resource_subject r \<mapsto> r)"
  have r: "register_resource r g = Some ?g" using Cons.prems(2) by (simp add: register_resource_def)
  have "\<forall>q \<in> set rs. resource_subject q \<noteq> resource_subject r" using Cons.prems(1) by (auto simp: image_iff)
  then have "\<forall>q \<in> set rs. ?g (resource_subject q) = None" using Cons.prems(2) by simp
  moreover have "distinct (map resource_subject rs)" using Cons.prems(1) by simp
  ultimately obtain g' where g': "register_all rs ?g = Some g'"
    "\<forall>q \<in> set rs. g' (resource_subject q) = Some q" "\<forall>t. t \<notin> resource_subject ` set rs \<longrightarrow> g' t = ?g t"
    using Cons.IH [of ?g] by blast
  have m: "resource_subject r \<notin> resource_subject ` set rs" using Cons.prems(1) by simp
  then have "g' (resource_subject r) = Some r" using g'(3) by simp
  moreover have "g' t = g t" if "t \<notin> resource_subject ` set (r # rs)" for t using g'(3) that by simp
  ultimately show ?case using r g'(1,2) by (intro exI [of _ g']) simp
qed simp

lemma app_subjects_distinct: "distinct (map resource_subject app_resources)"
proof -
  have "map resource_subject app_resources = map fst (map boundary app_resources)" by (simp add: boundary_def)
  also have "\<dots> = map resource_subject declared_resources" unfolding app_boundaries by (simp add: boundary_def)
  also have "distinct \<dots>" by (simp add: declared_resources_def resource_decls)
  finally show ?thesis .
qed

lemma app_registry_facts:
  "register_all app_resources Map.empty = Some app_registry"
  "r \<in> set app_resources \<Longrightarrow> app_registry (resource_subject r) = Some r"
  "registry_sound app_registry"
proof -
  obtain g where g: "register_all app_resources Map.empty = Some g"
    "\<forall>r \<in> set app_resources. g (resource_subject r) = Some r"
    using register_all_distinct [OF app_subjects_distinct, of Map.empty] by auto
  then have e: "app_registry = g" by (simp add: app_registry_def)
  show "register_all app_resources Map.empty = Some app_registry" using g(1) e by simp
  show "r \<in> set app_resources \<Longrightarrow> app_registry (resource_subject r) = Some r" using g(2) e by simp
  show "registry_sound app_registry"
    unfolding e by (rule register_all_sound [OF g(1)]) (simp add: registry_sound_def)
qed

lemma app_resources_all:
  assumes "list_all (\<lambda>d. P (boundary d)) declared_resources" "r \<in> set app_resources"
  shows "P (boundary r)"
proof -
  have "boundary r \<in> set (map boundary app_resources)" using assms(2) by simp
  then obtain d where "d \<in> set declared_resources" "boundary d = boundary r" unfolding app_boundaries by auto
  with assms(1) show ?thesis by (metis list_all_iff)
qed

lemma granted_resources_are_personal:
  assumes "r \<in> set app_resources" "Dim_Grant \<in> set (resource_scopes r)"
  shows "is_person_owned (resource_keys_of r)"
proof -
  let ?P = "\<lambda>(s :: string, ds, k). Dim_Grant \<in> set ds \<longrightarrow> \<not> truthy k"
  have "list_all (\<lambda>d. ?P (boundary d)) declared_resources"
    by (simp add: declared_resources_def resource_decls boundary_def truthy_def)
  from app_resources_all [OF this assms(1)] assms(2) show ?thesis by (simp add: boundary_def is_person_owned_def)
qed

lemma reaches_same_grants:
  assumes "\<And>t. t = resource_subject r \<Longrightarrow> Dim_Grant \<in> set (resource_scopes r) \<Longrightarrow> scope_grants v t = scope_grants w t"
    and "scope_user v = scope_user w" "scope_organization v = scope_organization w" "scope_teams v = scope_teams w"
    "scope_bypass v = scope_bypass w"
  shows "reaches r v row = reaches r w row"
proof -
  have "whole_slice r v = whole_slice r w" using assms by (auto simp: whole_slice_def)
  moreover have "in_slice r v row = in_slice r w row"
    using assms by (cases "Dim_Grant \<in> set (resource_scopes r)") (simp_all add: in_slice_def)
  ultimately show ?thesis using assms(3,5) by (simp add: reaches_def in_tenant_def)
qed

lemma grants_open_nothing:
  assumes "grant_table app_registry table" "dir_registry dir = app_registry" "r \<in> set app_resources"
  shows "reaches r (resolve_scope dir now table user org admin full) row =
    reaches r (resolve_scope dir now [] user org admin full) row"
proof (rule reaches_same_grants)
  fix t assume t: "t = resource_subject r" and d: "Dim_Grant \<in> set (resource_scopes r)"
  have po: "is_person_owned (resource_keys_of r)" by (rule granted_resources_are_personal [OF assms(3) d])
  have "app_registry t = Some r" using app_registry_facts(2) [OF assms(3)] t by simp
  then have none: "\<not> grantable_type app_registry t" using po by (simp add: grantable_type_def)
  have "g \<notin> set table" if "grant_resource_type g = t" for g
    using grant_table_grantable [OF assms(1)] none that by auto
  then have "granted_ids t (find_active_for_principals now table o' ps) = []"
    "has_blanket app_registry t (find_active_for_principals now table o' ps) = False" for o' ps
    by (auto simp: granted_ids_def has_blanket_def find_active_for_principals_def list_ex_iff filter_empty_conv)
  then have "grants_for app_registry (find_active_for_principals now table o' ps) t = None" for o' ps
    by (simp add: grants_for_eq)
  then show "scope_grants (resolve_scope dir now table user org admin full) t =
      scope_grants (resolve_scope dir now [] user org admin full) t"
    by (simp add: resolve_scope_def assms(2) Let_def empty_scope_def find_active_for_principals_def)
qed (simp_all add: resolve_scope_def Let_def)

end
