(* ===== verification/Access_Properties.thy ===== *)
theory Access_Properties
  imports Resource_Catalog
begin

section \<open>Properties of access scopes and grants\<close>

text \<open>A resource that can be granted, a row of it, and a workspace where one row is passed on.\<close>

definition doc_resource :: resource_definition where
  "doc_resource = \<lparr>resource_subject = ''Doc'', resource_actions = [''read''],
     resource_keys_of = \<lparr>key_organization = Some ''organizationId'', key_team = None, key_owner = None, key_id = Some ''id''\<rparr>,
     resource_scopes = [Dim_Organization, Dim_Grant]\<rparr>"

definition doc_row :: row where
  "doc_row = [''organizationId'' \<mapsto> ''acme'', ''id'' \<mapsto> ''d1'']"

definition doc_directory :: directory where
  "doc_directory = \<lparr>dir_registry = [''Doc'' \<mapsto> doc_resource], dir_teams = \<lambda>u o'. [], dir_roles = \<lambda>u o'. [],
     dir_is_member = \<lambda>o' u. u \<in> {''ada'', ''bob''}, dir_is_team = \<lambda>o' i. False, dir_is_role = \<lambda>o' i. False\<rparr>"

definition doc_command :: create_grant where
  "doc_command = \<lparr>cg_principal_type = Principal_user, cg_principal_id = ''bob'', cg_resource_type = ''Doc'',
     cg_resource_id = Some ''d1'', cg_expires_at = None\<rparr>"

definition doc_grant :: access_grant where
  "doc_grant = \<lparr>grant_id = ''g1'', grant_organization = ''acme'', grant_principal_type = Principal_user,
     grant_principal_id = ''bob'', grant_resource_type = ''Doc'', grant_resource_id = Some ''d1'',
     grant_granted_by = ''ada'', grant_expires_at = None\<rparr>"

definition ada_scope :: access_scope where
  "ada_scope = resolve_scope doc_directory 0 [] ''ada'' (Some ''acme'') True False"

lemmas doc_defs = doc_resource_def doc_row_def doc_directory_def doc_command_def doc_grant_def ada_scope_def

lemma doc_created: "create_access_grant doc_directory [] ada_scope ''g1'' doc_command = Inr [doc_grant]"
  by (simp add: create_access_grant_def doc_defs resolve_scope_def can_grant_scope_def is_person_owned_def
      truthy_def issue_access_grant_def access_grant_problem_def nonblank_iff js_space_def validated_def Let_def)

text \<open>A query over a resource that belongs to organizations selects only rows of the organization the
  caller acts in, whatever the caller's grants, teams or platform rights are; without one it selects
  nothing, the platform tier apart.
\<close>

theorem a_query_stays_in_its_tenant:
  assumes "tenant_scoped resource" and "selects (apply_access_scope qb resource scope) row"
  shows "if truthy (scope_organization scope)
         then row (the (key_organization (resource_keys_of resource))) = scope_organization scope
         else scope_bypass scope"
  using assms by (simp add: apply_access_scope_selects reaches_def in_tenant_def split: if_splits)

lemma a_query_stays_in_its_tenant_witness:
  "tenant_scoped doc_resource \<and> selects (apply_access_scope [] doc_resource ada_scope) doc_row \<and>
   doc_row ''organizationId'' = Some ''acme''"
proof -
  have t: "tenant_scoped doc_resource" by (simp add: tenant_scoped_def doc_defs truthy_def)
  have s: "selects (apply_access_scope [] doc_resource ada_scope) doc_row"
    by (simp add: apply_access_scope_selects reaches_def t in_tenant_def whole_slice_def)
      (simp add: doc_defs resolve_scope_def truthy_def is_person_owned_def Let_def)
  from a_query_stays_in_its_tenant [OF t s] have "doc_row ''organizationId'' = Some ''acme''"
    by (simp add: doc_defs)
  with t s show ?thesis by simp
qed

text \<open>C34: The conditions added to a query, whichever branch built them, select exactly the rows the scope
  reaches: in the tenant, and in the whole slice or in the caller's team's, own or granted rows. A
  scope that yields no clause reaches nothing, never everything.
\<close>

theorem a_query_selects_exactly_the_reach:
  "selects (apply_access_scope qb resource scope) row \<longleftrightarrow> selects qb row \<and> reaches resource scope row"
  by (rule apply_access_scope_selects)

text \<open>C30: No escalation: when a grant makes a row visible to anyone who did not see it, the author of the
  grant already saw that row.
\<close>

theorem a_grant_opens_only_what_its_author_reaches:
  assumes "create_access_grant dir table author new_id command = Inr table'"
    and "dir_registry dir (resource_subject r) = Some r"
    and "selects (apply_access_scope [] r (resolve_scope dir now table' viewer org admin full)) row"
    and "\<not> selects (apply_access_scope [] r (resolve_scope dir now table viewer org admin full)) row"
  shows "selects (apply_access_scope [] r author) row"
  using assms(3,4) grant_within_author [OF assms(1,2), of now viewer org admin full row]
  by (simp add: apply_access_scope_selects)

lemma a_grant_opens_only_what_its_author_reaches_witness:
  "selects (apply_access_scope [] doc_resource ada_scope) doc_row"
proof (rule a_grant_opens_only_what_its_author_reaches [OF doc_created])
  show "dir_registry doc_directory (resource_subject doc_resource) = Some doc_resource"
    by (simp add: doc_directory_def) (simp add: doc_resource_def)
  have t: "tenant_scoped doc_resource" by (simp add: tenant_scoped_def doc_defs truthy_def)
  show "selects (apply_access_scope [] doc_resource
      (resolve_scope doc_directory 0 [doc_grant] ''bob'' (Some ''acme'') False False)) doc_row"
    by (simp add: apply_access_scope_selects reaches_def t in_tenant_def in_slice_def)
      (simp add: doc_defs resolve_scope_def truthy_def find_active_for_principals_def principals_of_def
        grants_for_def fold_grant_def Let_def)
  show "\<not> selects (apply_access_scope [] doc_resource
      (resolve_scope doc_directory 0 [] ''bob'' (Some ''acme'') False False)) doc_row"
    by (simp add: apply_access_scope_selects reaches_def t in_tenant_def in_slice_def whole_slice_def)
      (simp add: doc_defs resolve_scope_def truthy_def find_active_for_principals_def Let_def)
qed

text \<open>However many grants and revocations there were, by whomever, and whatever teams and roles were
  in between, no grant names a resource that belongs to persons or that no module declared. Since only
  a holder of such a grant may pass one on, the first is never made: nobody's own rows are shared by
  this command, a host's with a teammate included.
\<close>

theorem no_grant_over_a_persons_rows_exists:
  assumes "grant_table registry table" and "g \<in> set table"
  shows "grantable_type registry (grant_resource_type g)"
  using grant_table_grantable [OF assms(1)] assms(2) by simp

lemma no_grant_over_a_persons_rows_exists_witness:
  "grantable_type [''Doc'' \<mapsto> doc_resource] (grant_resource_type doc_grant)"
proof (rule no_grant_over_a_persons_rows_exists)
  have "create_access_grant doc_directory [] (resolve_scope doc_directory 0 [] ''ada'' (Some ''acme'') True False)
      ''g1'' doc_command = Inr [doc_grant]"
    using doc_created by (simp add: ada_scope_def)
  then show "grant_table [''Doc'' \<mapsto> doc_resource] [doc_grant]"
    by (intro created [OF fresh]) (auto simp: doc_directory_def)
qed simp

text \<open>With the resources the application declares, a grant opens no row to anyone: every caller
  reaches, through a scoped query, what the caller would reach with no grant in the table.
\<close>

theorem the_applications_grants_open_nothing:
  assumes "grant_table app_registry table" and "dir_registry dir = app_registry"
    and "r \<in> set app_resources"
  shows "selects (apply_access_scope qb r (resolve_scope dir now table user org admin full)) row =
     selects (apply_access_scope qb r (resolve_scope dir now [] user org admin full)) row"
  using grants_open_nothing [OF assms] by (simp add: apply_access_scope_selects)

definition app_directory :: directory where
  "app_directory = doc_directory\<lparr>dir_registry := app_registry\<rparr>"

definition project_command :: create_grant where
  "project_command = doc_command\<lparr>cg_resource_type := ''Project''\<rparr>"

definition project_grant :: access_grant where
  "project_grant = doc_grant\<lparr>grant_resource_type := ''Project''\<rparr>"

lemma project_in_app: "project_resource \<in> set app_resources"
proof (rule define_all_member [OF app_resources_defined])
  show "project_resource \<in> set declared_resources" by (simp add: declared_resources_def)
  show "define_resource project_resource = Inr project_resource"
    by (simp add: define_resource_def project_resource_def nonblank_iff js_space_def truthy_def)
qed

lemma project_created:
  "create_access_grant app_directory [] (resolve_scope app_directory 0 [] ''ada'' (Some ''acme'') True False)
     ''g1'' project_command = Inr [project_grant]"
proof -
  have "app_registry ''Project'' = Some project_resource"
    using app_registry_facts(2) [OF project_in_app] by (simp add: project_resource_def)
  then show ?thesis
    by (simp add: create_access_grant_def project_command_def project_grant_def app_directory_def doc_defs
      resolve_scope_def can_grant_scope_def is_person_owned_def project_resource_def
      truthy_def issue_access_grant_def access_grant_problem_def nonblank_iff js_space_def validated_def Let_def)
qed

lemma the_applications_grants_open_nothing_witness:
  "selects (apply_access_scope [] project_resource
      (resolve_scope app_directory 0 [project_grant] ''bob'' (Some ''acme'') False False)) doc_row =
   selects (apply_access_scope [] project_resource
      (resolve_scope app_directory 0 [] ''bob'' (Some ''acme'') False False)) doc_row"
proof (rule the_applications_grants_open_nothing)
  show "grant_table app_registry [project_grant]"
    using project_created by (intro created [OF fresh]) (auto simp: app_directory_def)
  show "dir_registry app_directory = app_registry" by (simp add: app_directory_def)
qed (rule project_in_app)

text \<open>Every resource a module declares passes the checks made at boot, each dimension it is scoped by
  has its column, and the registry then holds exactly that declaration under each subject.
\<close>

theorem every_declared_resource_registers:
  "define_all declared_resources = Inr app_resources \<and>
   register_all app_resources Map.empty = Some app_registry \<and>
   list_all (\<lambda>r. resource_ok r \<and> app_registry (resource_subject r) = Some r) app_resources"
  using app_resources_defined app_registry_facts define_all_ok by (simp add: list_all_iff)

end
