(* ===== verification/Js_Strings.thy ===== *)
theory Js_Strings
  imports Js_Prelude
begin

section \<open>String operations of the language\<close>

text \<open>
  \<open>split\<close>, hexadecimal and decimal digits, and \<open>Number(string)\<close>, as the sources use them. A number
  is read exactly: the rounding of a literal with more digits than a double holds is not modelled.
\<close>

lemma js_trim_id: "\<forall>c \<in> set s. \<not> js_space c \<Longrightarrow> js_trim s = s"
proof -
  have *: "dropWhile js_space s = s" if "\<forall>c \<in> set s. \<not> js_space c" for s
    using that by (cases s) auto
  assume "\<forall>c \<in> set s. \<not> js_space c"
  then show ?thesis by (simp add: js_trim_def *)
qed

subsection \<open>\<open>split\<close>\<close>

text \<open>\<open>s.split(c)\<close> on one character.\<close>

fun split_on :: "char \<Rightarrow> string \<Rightarrow> string list" where
  "split_on c [] = [[]]"
| "split_on c (x # xs) =
     (if x = c then [] # split_on c xs
      else (case split_on c xs of [] \<Rightarrow> [[x]] | w # ws \<Rightarrow> (x # w) # ws))"

lemma split_on_not_Nil [simp]: "split_on c s \<noteq> []"
  by (induction s) (auto split: list.split)

lemma split_on_single: "c \<notin> set s \<Longrightarrow> split_on c s = [s]"
  by (induction s) auto

lemma split_on_append: "c \<notin> set s \<Longrightarrow> split_on c (s @ c # t) = s # split_on c t"
  by (induction s) auto

lemma split_on_parts: "w \<in> set (split_on c s) \<Longrightarrow> set w \<subseteq> set s - {c}"
proof (induction s arbitrary: w)
  case (Cons x xs)
  then show ?case by (fastforce split: if_splits list.splits)
qed simp

lemma split_on_cover: "c \<in> set s \<Longrightarrow> c = d \<or> (\<exists>w \<in> set (split_on d s). c \<in> set w)"
proof (induction s)
  case (Cons x xs)
  then show ?case by (cases "split_on d xs") auto
qed simp

lemma those_map_Some_all: "those_map f xs = Some ys \<Longrightarrow> x \<in> set xs \<Longrightarrow> f x \<noteq> None"
  by (induction xs arbitrary: ys) (auto split: option.splits)

lemma length_split_on: "length (split_on c s) = Suc (count_list s c)"
proof (induction s)
  case (Cons x xs)
  then show ?case by (cases "split_on c xs") (auto split: if_splits)
qed simp

text \<open>\<open>s.split(p)\<close> on a word that is not empty: leftmost matches that do not overlap.\<close>

fun split_str_acc :: "string \<Rightarrow> nat \<Rightarrow> string \<Rightarrow> string \<Rightarrow> string list" where
  "split_str_acc p skip acc [] = [rev acc]"
| "split_str_acc p (Suc skip) acc (x # xs) = split_str_acc p skip acc xs"
| "split_str_acc p 0 acc (x # xs) =
     (if take (length p) (x # xs) = p then rev acc # split_str_acc p (length p - 1) [] xs
      else split_str_acc p 0 (x # acc) xs)"

definition split_str :: "string \<Rightarrow> string \<Rightarrow> string list" where
  "split_str p s = split_str_acc p 0 [] s"

lemma split_str_acc_skip:
  assumes "c \<notin> set h"
  shows "split_str_acc [c, c] 0 acc (h @ rest) = split_str_acc [c, c] 0 (rev h @ acc) rest"
  using assms by (induction h arbitrary: acc) auto

lemma split_str_acc_lone:
  assumes "x \<noteq> c"
  shows "split_str_acc [c, c] 0 acc (c # x # rest) = split_str_acc [c, c] 0 (c # acc) (x # rest)"
  using assms by simp

text \<open>\<open>words.join(separator)\<close>\<close>

fun js_join :: "string \<Rightarrow> string list \<Rightarrow> string" where
  "js_join sep [] = []"
| "js_join sep [w] = w"
| "js_join sep (w # ws) = w @ sep @ js_join sep ws"

subsection \<open>Digits\<close>

definition digit_value :: "char \<Rightarrow> nat" where
  "digit_value c =
     (let n = of_char c :: nat in
      if is_digit c then n - 48 else if is_lower c then n - 87 else if is_upper c then n - 55 else 99)"

definition is_hex_digit :: "char \<Rightarrow> bool" where
  "is_hex_digit c = (is_digit c \<or> char_between (CHR ''a'') (CHR ''f'') c \<or> char_between (CHR ''A'') (CHR ''F'') c)"

definition parse_digits :: "nat \<Rightarrow> string \<Rightarrow> nat" where
  "parse_digits base s = foldl (\<lambda>v c. base * v + digit_value c) 0 s"

definition hex_char :: "nat \<Rightarrow> char" where
  "hex_char n = ''0123456789abcdef'' ! n"

text \<open>\<open>n.toString(16)\<close>\<close>

fun to_hex :: "nat \<Rightarrow> string" where
  "to_hex n = (if n < 16 then [hex_char n] else to_hex (n div 16) @ [hex_char (n mod 16)])"

declare to_hex.simps [simp del]

lemma hex_char_digit:
  assumes "n < 16"
  shows "digit_value (hex_char n) = n" "is_hex_digit (hex_char n)" "hex_char n \<noteq> CHR '':''" "hex_char n \<noteq> CHR ''.''"
proof -
  have "list_all (\<lambda>n. digit_value (hex_char n) = n \<and> is_hex_digit (hex_char n) \<and> hex_char n \<noteq> CHR '':'' \<and>
      hex_char n \<noteq> CHR ''.'') [0..<16]"
    by code_simp
  then show "digit_value (hex_char n) = n" "is_hex_digit (hex_char n)" "hex_char n \<noteq> CHR '':''" "hex_char n \<noteq> CHR ''.''"
    using assms by (simp_all add: list_all_iff del: upt_rec_numeral)
qed

lemma parse_digits_snoc: "parse_digits b (s @ [c]) = b * parse_digits b s + digit_value c"
  by (simp add: parse_digits_def)

lemma to_hex_props:
  "parse_digits 16 (to_hex n) = n \<and> list_all is_hex_digit (to_hex n) \<and> to_hex n \<noteq> [] \<and>
   CHR '':'' \<notin> set (to_hex n) \<and> CHR ''.'' \<notin> set (to_hex n)"
proof (induction n rule: to_hex.induct)
  case (1 n)
  show ?case
  proof (cases "n < 16")
    case True
    then show ?thesis using hex_char_digit [OF True] by (simp add: to_hex.simps [of n] parse_digits_def)
  next
    case False
    have "n mod 16 < 16" by simp
    note d = hex_char_digit [OF this]
    have "to_hex n = to_hex (n div 16) @ [hex_char (n mod 16)]" using False by (simp add: to_hex.simps [of n])
    with 1 [OF False] d show ?thesis by (simp add: parse_digits_snoc)
  qed
qed

lemma length_to_hex: "n < 16 ^ Suc k \<Longrightarrow> length (to_hex n) \<le> Suc k"
proof (induction k arbitrary: n)
  case 0
  then show ?case by (simp add: to_hex.simps [of n])
next
  case (Suc k)
  show ?case
  proof (cases "n < 16")
    case False
    have "n div 16 < 16 ^ Suc k" using Suc.prems by (simp add: div_less_iff_less_mult)
    from Suc.IH [OF this] False show ?thesis by (simp add: to_hex.simps [of n])
  qed (simp add: to_hex.simps [of n])
qed

subsection \<open>\<open>Number(string)\<close>\<close>

definition scaled :: "rat \<Rightarrow> int \<Rightarrow> rat" where
  "scaled q e = (if 0 \<le> e then q * 10 ^ nat e else q / 10 ^ nat (- e))"

text \<open>An unsigned decimal literal: digits, a point, digits, and an exponent.\<close>

definition decimal_literal :: "string \<Rightarrow> rat option" where
  "decimal_literal s =
     (let mantissa = takeWhile (\<lambda>c. c \<noteq> CHR ''e'' \<and> c \<noteq> CHR ''E'') s;
          rest = dropWhile (\<lambda>c. c \<noteq> CHR ''e'' \<and> c \<noteq> CHR ''E'') s;
          whole = takeWhile is_digit mantissa; point = dropWhile is_digit mantissa;
          fraction = tl point;
          exponent = (case rest of [] \<Rightarrow> Some 0
            | e # ds \<Rightarrow>
                (let (negative, ds) = (case ds of CHR ''-'' # r \<Rightarrow> (True, r) | CHR ''+'' # r \<Rightarrow> (False, r)
                                       | _ \<Rightarrow> (False, ds))
                 in if ds \<noteq> [] \<and> list_all is_digit ds
                    then Some (if negative then - int (parse_digits 10 ds) else int (parse_digits 10 ds))
                    else None))
      in if (point = [] \<or> hd point = CHR ''.'') \<and> list_all is_digit fraction \<and> (whole \<noteq> [] \<or> fraction \<noteq> [])
         then map_option (\<lambda>e. scaled (of_nat (parse_digits 10 (whole @ fraction))) (e - int (length fraction))) exponent
         else None)"

definition js_to_number :: "string \<Rightarrow> js_number" where
  "js_to_number text =
     (let s = js_trim text in
      if s = [] then Finite 0
      else if take 2 s \<in> {''0x'', ''0X''} then
        (if 2 < length s \<and> list_all is_hex_digit (drop 2 s) then Finite (of_nat (parse_digits 16 (drop 2 s)))
         else NotANumber)
      else if take 2 s \<in> {''0o'', ''0O''} then
        (if 2 < length s \<and> list_all (\<lambda>c. is_digit c \<and> digit_value c < 8) (drop 2 s)
         then Finite (of_nat (parse_digits 8 (drop 2 s))) else NotANumber)
      else if take 2 s \<in> {''0b'', ''0B''} then
        (if 2 < length s \<and> list_all (\<lambda>c. is_digit c \<and> digit_value c < 2) (drop 2 s)
         then Finite (of_nat (parse_digits 2 (drop 2 s))) else NotANumber)
      else
        (let (negative, u) = (case s of CHR ''-'' # r \<Rightarrow> (True, r) | CHR ''+'' # r \<Rightarrow> (False, r) | _ \<Rightarrow> (False, s))
         in if u = ''Infinity'' then (if negative then NegInf else PosInf)
            else (case decimal_literal u of
                    None \<Rightarrow> NotANumber
                  | Some q \<Rightarrow> Finite (if negative then - q else q))))"

lemma digit_value_digit: "is_digit c \<Longrightarrow> digit_value c < 10"
  by (auto simp: digit_value_def is_digit_def char_between_def Let_def)

lemma parse_digits_bound: "list_all (\<lambda>c. digit_value c < b) s \<Longrightarrow> parse_digits b s < b ^ length s"
proof (induction s rule: rev_induct)
  case (snoc c s)
  then have "parse_digits b s < b ^ length s" "digit_value c < b" by simp_all
  then have "b * parse_digits b s + digit_value c < b * parse_digits b s + b" by simp
  also have "\<dots> = b * Suc (parse_digits b s)" by simp
  also have "\<dots> \<le> b * b ^ length s" using \<open>parse_digits b s < b ^ length s\<close> by (intro mult_le_mono2) simp
  finally show ?case by (simp add: parse_digits_snoc)
qed (simp add: parse_digits_def)

end
