(* ===== verification/Scopes.thy ===== *)
theory Scopes
  imports Js_Strings "HOL-Library.List_Lexorder" "HOL-Library.Char_ord" "HOL-Library.Multiset"
begin

section \<open>Permission scopes of credentials\<close>

text \<open>
  \<^verbatim>\<open>packages/shared/src/scopes\<close>: the catalog of permission groups, what a granted set implies, how untrusted
  input is read, and what a person may grant. An action and a subject are words; the ability that
  answers for them is the permission library's and is an argument.
\<close>

subsection \<open>The catalog\<close>

type_synonym scope = string

record scope_level =
  level_scope :: scope
  level_policies :: "(string \<times> string) list"

record permission_group =
  group_resource :: string
  group_read :: scope_level
  group_write :: scope_level

definition make_group ::
  "string \<Rightarrow> scope \<times> (string \<times> string) list \<Rightarrow> scope \<times> (string \<times> string) list \<Rightarrow> permission_group" where
  "make_group resource read_level write_level =
     \<lparr>group_resource = resource,
      group_read = \<lparr>level_scope = fst read_level, level_policies = snd read_level\<rparr>,
      group_write = \<lparr>level_scope = fst write_level, level_policies = snd write_level\<rparr>\<rparr>"

definition permission_groups :: "permission_group list" where
  "permission_groups = [
     make_group ''profile''
       (''profile:read'', [])
       (''profile:write'', []),
     make_group ''users''
       (''users:read'', [(''read'', ''User'')])
       (''users:write'', [(''create'', ''User''), (''update'', ''User''), (''delete'', ''User'')]),
     make_group ''admin''
       (''admin:read'', [(''manage'', ''User'')])
       (''admin:write'', [(''manage'', ''User'')]),
     make_group ''roles''
       (''roles:read'', [(''read'', ''Role'')])
       (''roles:write'', [(''create'', ''Role''), (''update'', ''Role''), (''delete'', ''Role'')]),
     make_group ''organizations''
       (''organizations:read'', [(''read'', ''Organization'')])
       (''organizations:write'', [(''create'', ''Organization''), (''update'', ''Organization''), (''delete'', ''Organization'')]),
     make_group ''members''
       (''members:read'', [(''read'', ''Member'')])
       (''members:write'', [(''create'', ''Member''), (''update'', ''Member''), (''delete'', ''Member'')]),
     make_group ''invitations''
       (''invitations:read'', [(''read'', ''Invitation'')])
       (''invitations:write'', [(''create'', ''Invitation''), (''update'', ''Invitation'')]),
     make_group ''workspaces''
       (''workspaces:read'', [(''read'', ''Workspace'')])
       (''workspaces:write'', [(''create'', ''Workspace''), (''update'', ''Workspace''), (''delete'', ''Workspace'')]),
     make_group ''tokens''
       (''tokens:read'', [(''read'', ''ApiToken'')])
       (''tokens:write'', [(''create'', ''ApiToken''), (''delete'', ''ApiToken'')]),
     make_group ''hosts''
       (''hosts:read'', [(''read'', ''Host'')])
       (''hosts:write'', [(''create'', ''Host''), (''update'', ''Host''), (''delete'', ''Host'')]),
     make_group ''projects''
       (''projects:read'', [(''read'', ''Project'')])
       (''projects:write'', [(''create'', ''Project''), (''update'', ''Project''), (''delete'', ''Project'')]),
     make_group ''sessions''
       (''sessions:read'', [(''read'', ''Session'')])
       (''sessions:write'', [(''create'', ''Session''), (''update'', ''Session''), (''delete'', ''Session'')]),
     make_group ''automations''
       (''automations:read'', [(''read'', ''Automation'')])
       (''automations:write'', [(''create'', ''Automation''), (''update'', ''Automation''), (''delete'', ''Automation'')]),
     make_group ''bots''
       (''bots:read'', [(''read'', ''Bot'')])
       (''bots:write'', [(''create'', ''Bot''), (''update'', ''Bot''), (''delete'', ''Bot'')]),
     make_group ''tasks''
       (''tasks:read'', [(''read'', ''Task'')])
       (''tasks:write'', [(''create'', ''Task''), (''update'', ''Task''), (''delete'', ''Task'')]),
     make_group ''calendar''
       (''calendar:read'', [(''read'', ''Calendar'')])
       (''calendar:write'', [(''create'', ''Calendar''), (''update'', ''Calendar''), (''delete'', ''Calendar'')]),
     make_group ''mail''
       (''mail:read'', [(''read'', ''Mail'')])
       (''mail:write'', [(''create'', ''Mail''), (''update'', ''Mail''), (''delete'', ''Mail'')]),
     make_group ''whatsapp''
       (''whatsapp:read'', [(''read'', ''Whatsapp'')])
       (''whatsapp:write'', [(''create'', ''Whatsapp''), (''update'', ''Whatsapp''), (''delete'', ''Whatsapp'')]),
     make_group ''cloud-agents''
       (''cloud-agents:read'', [(''read'', ''CloudAgent'')])
       (''cloud-agents:write'', [(''create'', ''CloudAgent''), (''update'', ''CloudAgent''), (''delete'', ''CloudAgent'')]),
     make_group ''pulls''
       (''pulls:read'', [(''read'', ''PullRequest'')])
       (''pulls:write'', [(''update'', ''PullRequest'')]),
     make_group ''repositories''
       (''repositories:read'', [(''read'', ''Installation'')])
       (''repositories:write'', [(''create'', ''Installation''), (''delete'', ''Installation'')]),
     make_group ''flags''
       (''flags:read'', [(''read'', ''FeatureFlag'')])
       (''flags:write'', [(''update'', ''FeatureFlag'')]),
     make_group ''inbox''
       (''inbox:read'', [])
       (''inbox:write'', [])]"

definition group_levels :: "permission_group \<Rightarrow> scope_level list" where
  "group_levels g = [group_read g, group_write g]"

definition all_scopes :: "scope list" where
  "all_scopes = concat (map (\<lambda>g. map level_scope (group_levels g)) permission_groups)"

definition default_oauth_scopes :: "scope list" where
  "default_oauth_scopes = [''profile:read'']"

subsection \<open>What a granted set implies\<close>

definition is_scope :: "string \<Rightarrow> bool" where
  "is_scope s = (s \<in> set all_scopes)"

definition parse_scope :: "scope \<Rightarrow> string \<times> string option" where
  "parse_scope s = (case split_on (CHR '':'') s of r # a # _ \<Rightarrow> (r, Some a) | r # [] \<Rightarrow> (r, None) | [] \<Rightarrow> ([], None))"

definition expand_scopes :: "scope list \<Rightarrow> scope set" where
  "expand_scopes scopes =
     set (concat (map (\<lambda>s. s # (case parse_scope s of
       (resource, access) \<Rightarrow> if access = Some ''write'' then [resource @ '':read''] else [])) scopes))"

definition missing_scopes :: "scope list \<Rightarrow> scope list \<Rightarrow> scope list" where
  "missing_scopes granted required = (let expanded = expand_scopes granted in filter (\<lambda>s. s \<notin> expanded) required)"

subsection \<open>Reading scopes\<close>

definition scope_index :: "scope \<Rightarrow> nat" where
  "scope_index s = (case find (\<lambda>i. all_scopes ! i = s) [0..<length all_scopes] of Some i \<Rightarrow> i | None \<Rightarrow> 0)"

definition sort_scopes :: "scope list \<Rightarrow> scope list" where
  "sort_scopes scopes = sort_key scope_index scopes"

definition scope_candidate :: "json \<Rightarrow> string" where
  "scope_candidate v = (case v of JString s \<Rightarrow> js_trim s | _ \<Rightarrow> [])"

fun normalize_loop :: "json list \<Rightarrow> string list \<Rightarrow> scope list \<Rightarrow> string list \<Rightarrow> scope list \<times> string list" where
  "normalize_loop [] seen scopes unknown = (scopes, unknown)"
| "normalize_loop (v # vs) seen scopes unknown =
     (let candidate = scope_candidate v in
      if candidate = [] \<or> candidate \<in> set seen then normalize_loop vs seen scopes unknown
      else if is_scope candidate then normalize_loop vs (candidate # seen) (scopes @ [candidate]) unknown
      else normalize_loop vs (candidate # seen) scopes (unknown @ [candidate]))"

definition normalize_scopes :: "json list \<Rightarrow> scope list \<times> string list" where
  "normalize_scopes input =
     (case normalize_loop input [] [] [] of (scopes, unknown) \<Rightarrow> (sort_scopes scopes, unknown))"

text \<open>\<open>split(/[\s,]+/)\<close>: a run of separators splits once.\<close>

definition scope_separator :: "char \<Rightarrow> bool" where
  "scope_separator c = (js_space c \<or> c = CHR '','')"

function split_runs :: "(char \<Rightarrow> bool) \<Rightarrow> string \<Rightarrow> string list" where
  "split_runs sep s =
     (case dropWhile (\<lambda>c. \<not> sep c) s of
        [] \<Rightarrow> [s]
      | _ # rest \<Rightarrow> takeWhile (\<lambda>c. \<not> sep c) s # split_runs sep (dropWhile sep rest))"
  by pat_completeness auto
termination
proof (relation "measure (\<lambda>(sep, s). length s)")
  fix sep s x and rest :: string
  assume "dropWhile (\<lambda>c. \<not> sep c) s = x # rest"
  then have "Suc (length rest) \<le> length s" by (metis length_Cons length_dropWhile_le)
  moreover have "length (dropWhile sep rest) \<le> length rest" by (rule length_dropWhile_le)
  ultimately show "((sep, dropWhile sep rest), sep, s) \<in> measure (\<lambda>(sep, s). length s)" by simp
qed simp

declare split_runs.simps [simp del]

definition parse_scope_string :: "string option \<Rightarrow> scope list \<times> string list" where
  "parse_scope_string text =
     normalize_scopes (map JString (split_runs scope_separator (case text of None \<Rightarrow> [] | Some s \<Rightarrow> s)))"

subsection \<open>What a person may grant\<close>

definition level_allowed :: "(string \<Rightarrow> string \<Rightarrow> bool) \<Rightarrow> scope_level \<Rightarrow> bool" where
  "level_allowed can level =
     (level_policies level = [] \<or> list_ex (\<lambda>(action, subject). can action subject) (level_policies level))"

definition grantable_scopes :: "(string \<Rightarrow> string \<Rightarrow> bool) \<Rightarrow> scope list" where
  "grantable_scopes can =
     concat (map (\<lambda>g. map level_scope (filter (level_allowed can) (group_levels g))) permission_groups)"

definition ungrantable_scopes :: "(string \<Rightarrow> string \<Rightarrow> bool) \<Rightarrow> scope list \<Rightarrow> scope list" where
  "ungrantable_scopes can requested = (let grantable = grantable_scopes can in filter (\<lambda>s. s \<notin> set grantable) requested)"

subsection \<open>Organizations\<close>

definition is_organization_allowed :: "string list option \<Rightarrow> string option \<Rightarrow> bool" where
  "is_organization_allowed allowed organization =
     (case allowed of
        None \<Rightarrow> True
      | Some ids \<Rightarrow> \<not> truthy organization \<or> the organization \<in> set ids)"

definition to_resource_scope :: "string list option \<Rightarrow> string list option" where
  "to_resource_scope ids =
     (case ids of None \<Rightarrow> None | Some [] \<Rightarrow> None | Some xs \<Rightarrow> Some (sort (remdups xs)))"

subsection \<open>Facts of the catalog\<close>

lemma all_scopes_distinct: "distinct all_scopes"
  by code_simp

lemma all_scopes_words: "s \<in> set all_scopes \<Longrightarrow> s \<noteq> [] \<and> (\<forall>c \<in> set s. \<not> scope_separator c)"
proof -
  have "list_all (\<lambda>s. s \<noteq> [] \<and> list_all (\<lambda>c. \<not> scope_separator c) s) all_scopes" by code_simp
  then show "s \<in> set all_scopes \<Longrightarrow> ?thesis" by (simp add: list_all_iff)
qed

lemma group_scope_names:
  assumes "g \<in> set permission_groups"
  shows "level_scope (group_read g) = group_resource g @ '':read''"
    "parse_scope (level_scope (group_write g)) = (group_resource g, Some ''write'')"
    "parse_scope (level_scope (group_read g)) = (group_resource g, Some ''read'')"
proof -
  have "list_all (\<lambda>g. level_scope (group_read g) = group_resource g @ '':read'' \<and>
      parse_scope (level_scope (group_read g)) = (group_resource g, Some ''read'') \<and>
      parse_scope (level_scope (group_write g)) = (group_resource g, Some ''write'')) permission_groups"
    by code_simp
  with assms show "level_scope (group_read g) = group_resource g @ '':read''"
    "parse_scope (level_scope (group_write g)) = (group_resource g, Some ''write'')"
    "parse_scope (level_scope (group_read g)) = (group_resource g, Some ''read'')"
    unfolding list_all_iff by blast+
qed

lemma all_scopes_cases:
  assumes "s \<in> set all_scopes"
  obtains g where "g \<in> set permission_groups" "s = level_scope (group_read g) \<or> s = level_scope (group_write g)"
  using assms by (auto simp: all_scopes_def group_levels_def)

lemma expand_scopes_iff:
  "s \<in> expand_scopes granted \<longleftrightarrow>
   s \<in> set granted \<or> (\<exists>w \<in> set granted. snd (parse_scope w) = Some ''write'' \<and> s = fst (parse_scope w) @ '':read'')"
  by (induction granted) (auto simp: expand_scopes_def split_beta split: if_splits)

lemma missing_scopes_Nil: "missing_scopes granted required = [] \<longleftrightarrow> set required \<subseteq> expand_scopes granted"
  by (auto simp: missing_scopes_def Let_def filter_empty_conv)

subsection \<open>Catalog order\<close>

lemma scope_index_nth: "i < length all_scopes \<Longrightarrow> scope_index (all_scopes ! i) = i"
proof -
  assume i: "i < length all_scopes"
  have "find (\<lambda>j. all_scopes ! j = all_scopes ! i) [0..<length all_scopes] = Some i"
    unfolding find_Some_iff using i nth_eq_iff_index_eq [OF all_scopes_distinct]
    by (intro exI [of _ i]) simp
  then show ?thesis by (simp add: scope_index_def)
qed

lemma scope_index_all: "map scope_index all_scopes = [0..<length all_scopes]"
  by (rule nth_equalityI) (simp_all add: scope_index_nth)

lemma scope_index_inj: "inj_on scope_index (set all_scopes)"
  by (metis distinct_map distinct_upt scope_index_all)

lemma sort_scopes_filter:
  assumes "distinct ss" "set ss \<subseteq> set all_scopes"
  shows "sort_scopes ss = filter (\<lambda>s. s \<in> set ss) all_scopes"
  unfolding sort_scopes_def
proof (rule sort_key_inj_key_eq)
  show "mset ss = mset (filter (\<lambda>s. s \<in> set ss) all_scopes)"
    using assms all_scopes_distinct
    by (intro set_eq_iff_mset_eq_distinct [THEN iffD1]) auto
  show "inj_on scope_index (set ss)" by (rule inj_on_subset [OF scope_index_inj assms(2)])
  have "sorted (map scope_index all_scopes)" by (simp add: scope_index_all)
  then show "sorted (map scope_index (filter (\<lambda>s. s \<in> set ss) all_scopes))"
    by (simp add: sorted_map) (rule sorted_wrt_filter)
qed

text \<open>Reading a list of values: the scopes are those of the catalog that some value names.\<close>

lemma normalize_loop_facts:
  assumes "set seen = set scopes \<union> set unknown" "distinct scopes" "set scopes \<subseteq> set all_scopes"
    "set unknown \<inter> set all_scopes = {}" "[] \<notin> set unknown"
    and "normalize_loop vs seen scopes unknown = (scopes', unknown')"
  shows "distinct scopes' \<and> set scopes' = set scopes \<union> (set all_scopes \<inter> scope_candidate ` set vs) \<and>
    set unknown' = set unknown \<union> (scope_candidate ` set vs - set all_scopes - {[]})"
  using assms
proof (induction vs seen scopes unknown rule: normalize_loop.induct)
  case (2 v vs seen scopes unknown)
  let ?c = "scope_candidate v"
  have ne: "[] \<notin> set all_scopes" using all_scopes_words by blast
  consider "?c = [] \<or> ?c \<in> set seen" | "?c \<noteq> [] \<and> ?c \<notin> set seen \<and> is_scope ?c"
    | "?c \<noteq> [] \<and> ?c \<notin> set seen \<and> \<not> is_scope ?c" by blast
  then show ?case
  proof cases
    case 1
    then have "normalize_loop vs seen scopes unknown = (scopes', unknown')" using "2.prems"(6) by (auto simp: Let_def)
    note IH = "2.IH"(1) [OF refl 1 "2.prems"(1-5) this]
    from 1 have "?c = [] \<or> ?c \<in> set scopes \<or> ?c \<in> set unknown" using "2.prems"(1) by auto
    with IH ne "2.prems"(3-5) show ?thesis by auto
  next
    case 2
    then have n: "?c \<noteq> []" "?c \<notin> set seen" "is_scope ?c" by simp_all
    then have "normalize_loop vs (?c # seen) (scopes @ [?c]) unknown = (scopes', unknown')"
      using "2.prems"(6) by (simp add: Let_def)
    with n show ?thesis
      using "2.IH"(2) [OF refl _ n(3)] "2.prems"(1-5) by (auto simp: is_scope_def)
  next
    case 3
    then have n: "?c \<noteq> []" "?c \<notin> set seen" "\<not> is_scope ?c" by simp_all
    then have "normalize_loop vs (?c # seen) scopes (unknown @ [?c]) = (scopes', unknown')"
      using "2.prems"(6) by (simp add: Let_def)
    with n show ?thesis
      using "2.IH"(3) [OF refl _ n(3)] "2.prems"(1-5) by (auto simp: is_scope_def)
  qed
qed simp

lemma normalize_scopes_eq:
  "fst (normalize_scopes input) = filter (\<lambda>s. s \<in> scope_candidate ` set input) all_scopes"
  "set (snd (normalize_scopes input)) = scope_candidate ` set input - set all_scopes - {[]}"
proof -
  obtain scopes unknown where l: "normalize_loop input [] [] [] = (scopes, unknown)" by fastforce
  note f = normalize_loop_facts [OF _ _ _ _ _ l, simplified]
  show "set (snd (normalize_scopes input)) = scope_candidate ` set input - set all_scopes - {[]}"
    using f by (simp add: normalize_scopes_def l)
  have "fst (normalize_scopes input) = sort_scopes scopes" by (simp add: normalize_scopes_def l)
  also have "\<dots> = filter (\<lambda>s. s \<in> set scopes) all_scopes" using f by (intro sort_scopes_filter) auto
  also have "\<dots> = filter (\<lambda>s. s \<in> scope_candidate ` set input) all_scopes"
    using f by (intro filter_cong) auto
  finally show "fst (normalize_scopes input) = filter (\<lambda>s. s \<in> scope_candidate ` set input) all_scopes" .
qed

subsection \<open>Printing and reading back\<close>

lemma split_runs_word: "\<forall>c \<in> set w. \<not> sep c \<Longrightarrow> split_runs sep w = [w]"
  by (subst split_runs.simps) (simp add: dropWhile_eq_Nil_conv [THEN iffD2])

lemma split_runs_append:
  assumes "\<forall>c \<in> set w. \<not> sep c" "seps \<noteq> []" "\<forall>c \<in> set seps. sep c" "rest = [] \<or> \<not> sep (hd rest)"
  shows "split_runs sep (w @ seps @ rest) = w # split_runs sep rest"
proof -
  obtain x xs where s: "seps = x # xs" using assms(2) by (cases seps) auto
  have "dropWhile (\<lambda>c. \<not> sep c) (w @ seps @ rest) = x # xs @ rest"
    using assms s by (subst dropWhile_append2) auto
  moreover have "takeWhile (\<lambda>c. \<not> sep c) (w @ seps @ rest) = w"
    using assms s by (subst takeWhile_append2) auto
  moreover have "dropWhile sep (xs @ rest) = rest"
    using assms s by (subst dropWhile_append2) (auto, cases rest, auto)
  ultimately show ?thesis by (subst split_runs.simps) simp
qed

lemma split_runs_join:
  assumes "seps \<noteq> []" "\<forall>c \<in> set seps. sep c"
  shows "ws \<noteq> [] \<Longrightarrow> \<forall>w \<in> set ws. w \<noteq> [] \<and> (\<forall>c \<in> set w. \<not> sep c) \<Longrightarrow> split_runs sep (js_join seps ws) = ws"
proof (induction ws)
  case (Cons w ws)
  show ?case
  proof (cases ws)
    case Nil
    then show ?thesis using Cons.prems by (simp add: split_runs_word)
  next
    case (Cons w' ws')
    have "w' \<noteq> []" "\<not> sep (hd w')" using Cons Cons.prems(2) by auto
    then have "js_join seps ws = [] \<or> \<not> sep (hd (js_join seps ws))" using Cons by (cases ws') auto
    with Cons.prems(2) assms
    have "split_runs sep (w @ seps @ js_join seps ws) = w # split_runs sep (js_join seps ws)"
      by (intro split_runs_append) auto
    then show ?thesis using Cons Cons.IH Cons.prems(2) by simp
  qed
qed simp

lemma split_runs_empty: "split_runs sep [] = [[]]"
  by (simp add: split_runs.simps)

theorem parse_scope_string_join:
  assumes "set scopes \<subseteq> set all_scopes" "seps \<noteq> []" "\<forall>c \<in> set seps. scope_separator c"
  shows "parse_scope_string (Some (js_join seps scopes)) = (filter (\<lambda>s. s \<in> set scopes) all_scopes, [])"
proof -
  have trim: "scope_candidate (JString s) = s" if "s \<in> set scopes" for s
    using assms(1) that all_scopes_words by (auto simp: scope_candidate_def scope_separator_def intro!: js_trim_id)
  have parts: "scope_candidate ` JString ` set (split_runs scope_separator (js_join seps scopes)) - {[]} = set scopes"
  proof (cases "scopes = []")
    case True
    then show ?thesis by (simp add: split_runs_empty scope_candidate_def js_trim_def)
  next
    case False
    have "split_runs scope_separator (js_join seps scopes) = scopes"
      using assms all_scopes_words by (intro split_runs_join False) auto
    moreover have "[] \<notin> set scopes" using assms(1) all_scopes_words by blast
    ultimately show ?thesis using trim by (force simp: image_image)
  qed
  let ?r = "parse_scope_string (Some (js_join seps scopes))"
  have ne: "[] \<notin> set all_scopes" using all_scopes_words by blast
  have "set (snd ?r) = {}" using parts assms(1)
    by (auto simp: parse_scope_string_def normalize_scopes_eq)
  moreover have "fst ?r = filter (\<lambda>s. s \<in> set scopes) all_scopes"
    unfolding parse_scope_string_def normalize_scopes_eq using parts ne by (intro filter_cong refl) auto
  ultimately show ?thesis by (metis prod.collapse set_empty)
qed

end
