(* ===== verification/Ip_Allowlist.thy ===== *)
theory Ip_Allowlist
  imports Js_Strings Domain_Base
begin

unbundle bit_operations_syntax

section \<open>The IP allowlist of an API token\<close>

text \<open>
  \<^verbatim>\<open>apps/api/src/api-tokens/domain/ip-allowlist.policy.ts\<close>: addresses and CIDR blocks, parsed to bytes and compared
  under a mask. A byte is a \<open>nat\<close> below 256. The lemmas show that a rule takes an address exactly
  when the first bits of the two agree, and that an IPv4 client is the same client in its IPv6
  clothes.
\<close>

subsection \<open>Parsing addresses\<close>

definition octet_of :: "string \<Rightarrow> nat option" where
  "octet_of part =
     (if part \<noteq> [] \<and> length part \<le> 3 \<and> list_all is_digit part \<and> parse_digits 10 part \<le> 255
      then Some (parse_digits 10 part) else None)"

definition parse_ipv4 :: "string \<Rightarrow> nat list option" where
  "parse_ipv4 address =
     (let parts = split_on (CHR ''.'') address in
      if length parts \<noteq> 4 then None else those_map octet_of parts)"

definition group_of :: "string \<Rightarrow> nat option" where
  "group_of g =
     (if g \<noteq> [] \<and> length g \<le> 4 \<and> list_all is_hex_digit g then Some (parse_digits 16 g) else None)"

definition to_groups :: "string \<Rightarrow> nat list option" where
  "to_groups v = (if v = [] then Some [] else those_map group_of (split_on (CHR '':'') v))"

text \<open>The groups of an address with no dot in it.\<close>

definition parse_hextets :: "string \<Rightarrow> nat list option" where
  "parse_hextets address =
     (let halves = split_str ''::'' address in
      if 2 < length halves then None
      else (case (to_groups (halves ! 0), if length halves = 2 then to_groups (halves ! 1) else Some []) of
              (Some head, Some tail) \<Rightarrow>
                (let missing = 8 - int (length head) - int (length tail) in
                 if (if length halves = 2 then missing < 0 else missing \<noteq> 0) then None
                 else Some (concat (map (\<lambda>g. [g div 256 mod 256, g mod 256])
                        (head @ replicate (if length halves = 2 then nat missing else 0) 0 @ tail))))
            | _ \<Rightarrow> None))"

definition ipv4_start :: "string \<Rightarrow> nat" where
  "ipv4_start address = nat (last_index_of (CHR '':'') address + 1)"

lemma parse_ipv4_dots: "parse_ipv4 s = Some os \<Longrightarrow> count_list s (CHR ''.'') = 3"
  by (auto simp: parse_ipv4_def Let_def length_split_on split: if_splits)

lemma to_hex_no_dot: "count_list (to_hex n) (CHR ''.'') = 0"
  using to_hex_props [of n] by (simp add: count_list_0_iff)

function parse_ipv6 :: "string \<Rightarrow> nat list option" where
  "parse_ipv6 address =
     (if CHR ''.'' \<in> set address
      then (case parse_ipv4 (drop (ipv4_start address) address) of
              None \<Rightarrow> None
            | Some t \<Rightarrow>
                parse_ipv6 (take (ipv4_start address) address @ to_hex (t ! 0 * 256 + t ! 1) @ '':'' @
                  to_hex (t ! 2 * 256 + t ! 3)))
      else parse_hextets address)"
  by pat_completeness auto
termination
proof (relation "measure (\<lambda>s. count_list s (CHR ''.''))")
  fix address t
  assume "parse_ipv4 (drop (ipv4_start address) address) = Some t"
  then have "count_list (drop (ipv4_start address) address) (CHR ''.'') = 3" by (rule parse_ipv4_dots)
  moreover have "count_list address (CHR ''.'') =
      count_list (take (ipv4_start address) address) (CHR ''.'') + count_list (drop (ipv4_start address) address) (CHR ''.'')"
    by (metis append_take_drop_id count_list_append)
  ultimately show "(take (ipv4_start address) address @ to_hex (t ! 0 * 256 + t ! 1) @ '':'' @
      to_hex (t ! 2 * 256 + t ! 3), address) \<in> measure (\<lambda>s. count_list s (CHR ''.''))"
    by (simp add: to_hex_no_dot)
qed simp

declare parse_ipv6.simps [simp del]

text \<open>\<^verbatim>\<open>/^::ffff:(.+)$/i\<close>, whose dot is anything but the end of a line.\<close>

definition mapped_ipv4 :: "string \<Rightarrow> nat list option" where
  "mapped_ipv4 address =
     (if js_lower (take 7 address) = ''::ffff:'' \<and> drop 7 address \<noteq> [] \<and>
         set (drop 7 address) \<inter> {CHR 0x0A, CHR 0x0D} = {}
      then parse_ipv4 (drop 7 address) else None)"

definition mapped_ipv6 :: "nat list \<Rightarrow> nat list" where
  "mapped_ipv6 ipv4 = replicate 10 0 @ [255, 255] @ ipv4"

definition to_bytes :: "string \<Rightarrow> nat list option" where
  "to_bytes address =
     (let trimmed = js_trim address in
      if trimmed = [] then None
      else (case mapped_ipv4 trimmed of
              Some b \<Rightarrow> Some b
            | None \<Rightarrow> if CHR '':'' \<in> set trimmed then parse_ipv6 trimmed else parse_ipv4 trimmed))"

subsection \<open>Rules\<close>

text \<open>The two arms of \<open>parseRule\<close> after the prefix was read: the bytes and the bits asked for of them.\<close>

definition rule_network :: "string \<Rightarrow> int option \<Rightarrow> (nat list \<times> int option) option" where
  "rule_network network bits =
     (case mapped_ipv4 (js_trim network) of
        Some ipv4 \<Rightarrow>
          (case bits of
             None \<Rightarrow> Some (ipv4, None)
           | Some b \<Rightarrow> if 96 \<le> b then Some (ipv4, Some (b - 96)) else Some (mapped_ipv6 ipv4, Some b))
      | None \<Rightarrow> map_option (\<lambda>bytes. (bytes, bits)) (to_bytes network))"

definition parse_rule :: "string \<Rightarrow> (nat list \<times> nat) option" where
  "parse_rule entry =
     (let segments = split_on (CHR ''/'') (js_trim entry) in
      if 2 < length segments then None
      else
        (let network = segments ! 0;
             requested = (if length segments = 2 then Some (js_to_number (segments ! 1)) else None)
         in case requested of
              Some n \<Rightarrow>
                (case int_of_number n of
                   None \<Rightarrow> None
                 | Some b \<Rightarrow>
                     (case rule_network network (Some b) of
                        None \<Rightarrow> None
                      | Some (bytes, bits) \<Rightarrow>
                          (let w = (case bits of None \<Rightarrow> int (length bytes) * 8 | Some x \<Rightarrow> x) in
                           if w < 0 \<or> int (length bytes) * 8 < w then None else Some (bytes, nat w))))
            | None \<Rightarrow>
                map_option (\<lambda>(bytes, bits). (bytes, length bytes * 8)) (rule_network network None)))"

definition bytes_match :: "nat list \<Rightarrow> nat \<Rightarrow> nat list \<Rightarrow> bool" where
  "bytes_match rule bits address =
     (let whole = bits div 8; remainder = bits mod 8 in
      (\<forall>i \<in> set [0..<whole]. rule ! i = address ! i) \<and>
      (remainder = 0 \<or>
       (let mask = push_bit (8 - remainder) 255 in
        (rule ! whole) AND mask = (address ! whole) AND mask)))"

definition matches_ip_rule :: "string \<Rightarrow> string \<Rightarrow> bool" where
  "matches_ip_rule entry address =
     (case (parse_rule entry, to_bytes address) of
        (Some (rule, bits), Some a) \<Rightarrow>
          (let a = (if length rule = 16 \<and> length a = 4 then mapped_ipv6 a else a) in
           length rule = length a \<and> bytes_match rule bits a)
      | _ \<Rightarrow> False)"

definition is_ip_allowed :: "string list option \<Rightarrow> string option \<Rightarrow> bool" where
  "is_ip_allowed allowlist address =
     (case allowlist of
        None \<Rightarrow> True
      | Some [] \<Rightarrow> True
      | Some entries \<Rightarrow>
          (case address of
             None \<Rightarrow> False
           | Some a \<Rightarrow> a \<noteq> [] \<and> list_ex (\<lambda>e. matches_ip_rule e a) entries))"

subsection \<open>The first bits\<close>

text \<open>Bit \<open>i\<close> of a list of bytes, counted from the first bit of the first byte.\<close>

definition address_bit :: "nat list \<Rightarrow> nat \<Rightarrow> bool" where
  "address_bit bytes i = bit (bytes ! (i div 8)) (7 - i mod 8)"

lemma mask_8: "(255 :: nat) = mask 8"
  by (simp add: mask_eq_exp_minus_1)

lemma and_mask_eq_iff:
  fixes x y :: nat
  assumes "x < 256" "y < 256" "k \<le> 8"
  shows "x AND push_bit k 255 = y AND push_bit k 255 \<longleftrightarrow> (\<forall>n < 8 - k. bit x (7 - n) = bit y (7 - n))"
proof -
  have m: "bit (push_bit k (255 :: nat)) n \<longleftrightarrow> k \<le> n \<and> n < k + 8" for n
    by (auto simp only: mask_8 bit_push_bit_iff bit_mask_iff possible_bit_nat)
  have hi: "\<not> bit z n" if "z < 256" "8 \<le> n" for z n :: nat
  proof -
    have "z < 2 ^ n" using that power_increasing [of 8 n "2 :: nat"] by simp
    then show ?thesis by (simp add: bit_iff_odd)
  qed
  have "x AND push_bit k 255 = y AND push_bit k 255 \<longleftrightarrow> (\<forall>n. k \<le> n \<and> n < 8 \<longrightarrow> bit x n = bit y n)"
    using hi [OF assms(1)] hi [OF assms(2)]
    by (auto simp: bit_eq_iff bit_and_iff m) (meson not_le less_le_trans trans_less_add1)+
  also have "\<dots> \<longleftrightarrow> (\<forall>n < 8 - k. bit x (7 - n) = bit y (7 - n))"
  proof (rule iffI; rule allI; rule impI)
    fix n assume a: "\<forall>n. k \<le> n \<and> n < 8 \<longrightarrow> bit x n = bit y n" and n: "n < 8 - k"
    then have "k \<le> 7 - n \<and> 7 - n < 8" using assms(3) by arith
    with a show "bit x (7 - n) = bit y (7 - n)" by blast
  next
    fix n assume a: "\<forall>n < 8 - k. bit x (7 - n) = bit y (7 - n)" and n: "k \<le> n \<and> n < 8"
    then have "7 - n < 8 - k" "7 - (7 - n) = n" by arith+
    with a show "bit x n = bit y n" by metis
  qed
  finally show ?thesis .
qed

lemma byte_eq_iff:
  fixes x y :: nat
  assumes "x < 256" "y < 256"
  shows "x = y \<longleftrightarrow> (\<forall>n < 8. bit x (7 - n) = bit y (7 - n))"
proof -
  have "z AND 255 = z" if "z < 256" for z :: nat
    unfolding mask_8 using that by (simp add: take_bit_eq_mask [symmetric] take_bit_nat_eq_self)
  with and_mask_eq_iff [OF assms, of 0] assms show ?thesis by simp
qed

lemma bytes_match_bits:
  assumes "length rule = length address" "bits \<le> 8 * length rule"
    and "\<forall>b \<in> set rule. b < 256" "\<forall>b \<in> set address. b < 256"
  shows "bytes_match rule bits address \<longleftrightarrow> (\<forall>i < bits. address_bit rule i = address_bit address i)"
proof -
  define w r where "w = bits div 8" and "r = bits mod 8"
  have bits: "bits = 8 * w + r" "r < 8" by (simp_all add: w_def r_def)
  have byte: "rule ! i < 256" "address ! i < 256" if "i < length rule" for i
    using assms that by simp_all
  have whole: "(\<forall>i < 8 * w. address_bit rule i = address_bit address i) \<longleftrightarrow> (\<forall>i < w. rule ! i = address ! i)"
  proof (rule iffI; rule allI; rule impI)
    fix i assume a: "\<forall>i < 8 * w. address_bit rule i = address_bit address i" and i: "i < w"
    have "bit (rule ! i) (7 - n) = bit (address ! i) (7 - n)" if "n < 8" for n
      using a [rule_format, of "8 * i + n"] that i by (simp add: address_bit_def)
    moreover have "i < length rule" using i bits assms(2) by simp
    ultimately show "rule ! i = address ! i" using byte_eq_iff byte by blast
  next
    fix i assume "\<forall>i < w. rule ! i = address ! i" "i < 8 * w"
    then show "address_bit rule i = address_bit address i"
      by (simp add: address_bit_def less_mult_imp_div_less mult.commute)
  qed
  have rest: "(\<forall>n < r. address_bit rule (8 * w + n) = address_bit address (8 * w + n)) \<longleftrightarrow>
      (r = 0 \<or> (rule ! w) AND push_bit (8 - r) 255 = (address ! w) AND push_bit (8 - r) 255)"
  proof (cases "r = 0")
    case False
    then have "w < length rule" using bits assms(2) by simp
    from and_mask_eq_iff [OF byte [OF this], of "8 - r"] False bits(2) show ?thesis
      by (simp add: address_bit_def)
  qed simp
  have "(\<forall>i < bits. address_bit rule i = address_bit address i) \<longleftrightarrow>
      (\<forall>i < 8 * w. address_bit rule i = address_bit address i) \<and>
      (\<forall>n < r. address_bit rule (8 * w + n) = address_bit address (8 * w + n))"
  proof (rule iffI, fastforce simp: bits(1), rule allI, rule impI)
    fix i assume a: "(\<forall>i < 8 * w. address_bit rule i = address_bit address i) \<and>
      (\<forall>n < r. address_bit rule (8 * w + n) = address_bit address (8 * w + n))" and i: "i < bits"
    show "address_bit rule i = address_bit address i"
    proof (cases "i < 8 * w")
      case False
      then have "i = 8 * w + (i - 8 * w)" "i - 8 * w < r" using i bits(1) by arith+
      with a show ?thesis by metis
    qed (use a in blast)
  qed
  with whole rest show ?thesis
    by (simp add: bytes_match_def Let_def w_def [symmetric] r_def [symmetric] Ball_def)
qed

subsection \<open>What the parsers return\<close>

definition is_address :: "nat list \<Rightarrow> bool" where
  "is_address bytes = ((length bytes = 4 \<or> length bytes = 16) \<and> list_all (\<lambda>b. b < 256) bytes)"

lemma parse_ipv4_parts: "parse_ipv4 s = Some os \<Longrightarrow> those_map octet_of (split_on (CHR ''.'') s) = Some os"
  by (simp add: parse_ipv4_def Let_def split: if_splits)

lemma parse_ipv4_bytes:
  assumes "parse_ipv4 s = Some os"
  shows "length os = 4 \<and> list_all (\<lambda>b. b < 256) os"
proof -
  note p = parse_ipv4_parts [OF assms]
  have "b < 256" if "b \<in> set os" for b
    using those_map_Some_set [OF p that] by (auto simp: octet_of_def split: if_splits)
  moreover have "length os = 4"
    using assms those_map_Some_length [OF p] by (simp add: parse_ipv4_def Let_def split: if_splits)
  ultimately show ?thesis by (simp add: list_all_iff)
qed

lemma parse_ipv4_digits:
  assumes "parse_ipv4 s = Some os" "c \<in> set s"
  shows "is_digit c \<or> c = CHR ''.''"
proof -
  have part: "list_all is_digit w" if "w \<in> set (split_on (CHR ''.'') s)" for w
    using those_map_Some_all [OF parse_ipv4_parts [OF assms(1)] that] by (simp add: octet_of_def split: if_splits)
  from split_on_cover [OF assms(2), of "CHR ''.''"] part show ?thesis by (auto simp: list_all_iff)
qed

lemma group_bytes: "length (concat (map (\<lambda>g. [g div 256 mod 256, g mod 256]) gs)) = 2 * length gs"
  "list_all (\<lambda>b. b < 256) (concat (map (\<lambda>g. [g div 256 mod 256, g mod 256 :: nat]) gs))"
  by (induction gs) simp_all

lemma parse_hextets_bytes:
  assumes "parse_hextets s = Some os"
  shows "length os = 16 \<and> list_all (\<lambda>b. b < 256) os"
proof -
  obtain gs where "os = concat (map (\<lambda>g. [g div 256 mod 256, g mod 256]) gs)" "length gs = 8"
    using assms by (auto simp: parse_hextets_def Let_def simp del: map_append concat_append
      split: if_splits option.splits)
  with group_bytes [of gs] show ?thesis by simp
qed

lemma parse_ipv6_bytes: "parse_ipv6 s = Some os \<Longrightarrow> length os = 16 \<and> list_all (\<lambda>b. b < 256) os"
proof (induction s rule: parse_ipv6.induct)
  case (1 address)
  show ?case
  proof (cases "CHR ''.'' \<in> set address")
    case True
    with "1.prems" obtain t where t: "parse_ipv4 (drop (ipv4_start address) address) = Some t"
      by (simp add: parse_ipv6.simps [of address] split: option.splits)
    from "1.IH" [OF True t] "1.prems" True t show ?thesis by (simp add: parse_ipv6.simps [of address])
  next
    case False
    with "1.prems" show ?thesis by (simp add: parse_ipv6.simps [of address] parse_hextets_bytes)
  qed
qed

lemma mapped_ipv6_address: "is_address b \<Longrightarrow> length b = 4 \<Longrightarrow> is_address (mapped_ipv6 b)"
  by (simp add: is_address_def mapped_ipv6_def list_all_iff)

lemma mapped_ipv4_address: "mapped_ipv4 s = Some b \<Longrightarrow> is_address b \<and> length b = 4"
  by (simp add: mapped_ipv4_def is_address_def parse_ipv4_bytes split: if_splits)

lemma to_bytes_address: "to_bytes s = Some b \<Longrightarrow> is_address b"
  by (auto simp: to_bytes_def Let_def is_address_def parse_ipv4_bytes parse_ipv6_bytes
      split: if_splits option.splits dest!: mapped_ipv4_address)

lemma rule_network_address: "rule_network n bits = Some (b, w) \<Longrightarrow> is_address b"
  by (auto simp: rule_network_def split: option.splits if_splits
      dest: mapped_ipv4_address to_bytes_address mapped_ipv6_address)

lemma parse_rule_wf: "parse_rule e = Some (rule, bits) \<Longrightarrow> is_address rule \<and> bits \<le> 8 * length rule"
  by (auto simp: parse_rule_def Let_def split: if_splits option.splits dest: rule_network_address)

subsection \<open>An IPv4 client in its IPv6 clothes\<close>

lemma digit_not_space: "is_digit c \<Longrightarrow> \<not> js_space c"
  by (auto simp: is_digit_def char_between_def js_space_def)

lemma parse_ipv4_chars:
  assumes "parse_ipv4 a = Some v"
  shows "CHR '':'' \<notin> set a" "CHR ''.'' \<in> set a" "a \<noteq> []" "\<forall>c \<in> set a. \<not> js_space c"
proof -
  note d = parse_ipv4_digits [OF assms]
  show colon: "CHR '':'' \<notin> set a" using d [of "CHR '':''"] by (auto simp: is_digit_def char_between_def)
  have n: "count_list a (CHR ''.'') = 3" by (rule parse_ipv4_dots [OF assms])
  then have "count_list a (CHR ''.'') \<noteq> 0" by simp
  then show "CHR ''.'' \<in> set a" by (simp only: count_list_0_iff not_not)
  then show "a \<noteq> []" by auto
  show "\<forall>c \<in> set a. \<not> js_space c"
    using d digit_not_space by (auto simp: js_space_def)
qed

lemma group_of_to_hex:
  assumes "n < 65536"
  shows "group_of (to_hex n) = Some n"
proof -
  have "length (to_hex n) \<le> Suc 3" using assms by (intro length_to_hex) simp
  with to_hex_props [of n] show ?thesis by (simp add: group_of_def)
qed

lemma split_str_acc_colon:
  assumes "h \<noteq> []" "c \<notin> set h"
  shows "split_str_acc [c, c] 0 acc (c # h @ rest) = split_str_acc [c, c] 0 (rev h @ c # acc) rest"
proof -
  obtain x xs where x: "h = x # xs" "x \<noteq> c" using assms by (cases h) auto
  then have "split_str_acc [c, c] 0 acc (c # h @ rest) = split_str_acc [c, c] 0 (c # acc) (h @ rest)"
    by (simp only: append_Cons split_str_acc_lone [OF x(2)])
  also have "\<dots> = split_str_acc [c, c] 0 (rev h @ c # acc) rest"
    by (rule split_str_acc_skip [OF assms(2)])
  finally show ?thesis .
qed

lemma split_str_hextets:
  assumes "CHR '':'' \<notin> set g" "CHR '':'' \<notin> set h" "g \<noteq> []" "h \<noteq> []"
  shows "split_str ''::'' (''::ffff:'' @ g @ '':'' @ h) = [[], ''ffff:'' @ g @ '':'' @ h]"
proof -
  have "split_str_acc ''::'' 0 [] (''ffff'' @ '':'' @ g @ '':'' @ h) =
      split_str_acc ''::'' 0 (rev ''ffff'') ('':'' @ g @ '':'' @ h)"
    using split_str_acc_skip [of "CHR '':''" "''ffff''" "[]" "'':'' @ g @ '':'' @ h"] by simp
  also have "\<dots> = split_str_acc ''::'' 0 (rev g @ CHR '':'' # rev ''ffff'') ('':'' @ h)"
    using split_str_acc_colon [OF assms(3,1), of "rev ''ffff''" "'':'' @ h"] by simp
  also have "\<dots> = split_str_acc ''::'' 0 (rev h @ CHR '':'' # rev g @ CHR '':'' # rev ''ffff'') []"
    using split_str_acc_colon [OF assms(4,2), of "rev g @ CHR '':'' # rev ''ffff''" "[]"] by simp
  also have "\<dots> = [''ffff:'' @ g @ '':'' @ h]" by simp
  finally show ?thesis by (simp add: split_str_def)
qed

lemma parse_hextets_mapped:
  assumes "m < 65536" "n < 65536"
  shows "parse_hextets (''::ffff:'' @ to_hex m @ '':'' @ to_hex n) =
     Some (replicate 10 0 @ [255, 255] @ [m div 256, m mod 256, n div 256, n mod 256])"
proof -
  have h: "CHR '':'' \<notin> set (to_hex k)" "to_hex k \<noteq> []" for k using to_hex_props [of k] by simp_all
  have f: "group_of ''ffff'' = Some 65535"
    by (simp add: group_of_def is_hex_digit_def is_digit_def is_lower_def char_between_def parse_digits_def
        digit_value_def)
  have "split_on (CHR '':'') (''ffff'' @ CHR '':'' # to_hex m @ CHR '':'' # to_hex n) = [''ffff'', to_hex m, to_hex n]"
    by (subst split_on_append, simp, subst split_on_append, rule h(1), subst split_on_single, rule h(1), rule refl)
  then have "to_groups (''ffff:'' @ to_hex m @ '':'' @ to_hex n) = Some [65535, m, n]"
    by (simp add: to_groups_def f group_of_to_hex assms)
  moreover have "to_groups [] = Some []" by (simp add: to_groups_def)
  ultimately have "parse_hextets (''::ffff:'' @ to_hex m @ '':'' @ to_hex n) =
      Some (concat (map (\<lambda>g. [g div 256 mod 256, g mod 256]) (replicate 5 0 @ [65535, m, n])))"
    unfolding parse_hextets_def split_str_hextets [OF h(1) h(1) h(2) h(2)] by simp
  moreover have "m div 256 < 256" "n div 256 < 256" using assms by simp_all
  moreover have "replicate 5 (0 :: nat) = [0, 0, 0, 0, 0]" "replicate 10 (0 :: nat) = [0, 0, 0, 0, 0, 0, 0, 0, 0, 0]"
    by code_simp+
  ultimately show ?thesis by simp
qed

lemma length_4_iff: "length v = 4 \<longleftrightarrow> (\<exists>p q r t. v = [p, q, r, t])"
  by (auto simp: length_Suc_conv eval_nat_numeral)

lemma parse_ipv6_mapped:
  assumes "parse_ipv4 a = Some v"
  shows "parse_ipv6 (''::ffff:'' @ a) = Some (mapped_ipv6 v)"
proof -
  note c = parse_ipv4_chars [OF assms]
  obtain p q r t where v: "v = [p, q, r, t]"
    using parse_ipv4_bytes [OF assms] by (auto simp: length_4_iff)
  then have b: "p < 256" "q < 256" "r < 256" "t < 256" using parse_ipv4_bytes [OF assms] by simp_all
  have "last_index_of (CHR '':'') (''::ffff:'' @ a) = 6"
    using last_index_of_split [OF c(1), of "''::ffff''"] by simp
  then have s: "ipv4_start (''::ffff:'' @ a) = 7" by (simp add: ipv4_start_def)
  have "CHR ''.'' \<notin> set (to_hex k)" for k using to_hex_props by blast
  then have nd: "CHR ''.'' \<notin> set (''::ffff:'' @ to_hex (p * 256 + q) @ '':'' @ to_hex (r * 256 + t))"
    by simp
  have "parse_ipv6 (''::ffff:'' @ a) = parse_ipv6 (''::ffff:'' @ to_hex (p * 256 + q) @ '':'' @ to_hex (r * 256 + t))"
    using c(2) s assms v by (subst parse_ipv6.simps) simp
  also have "\<dots> = parse_hextets (''::ffff:'' @ to_hex (p * 256 + q) @ '':'' @ to_hex (r * 256 + t))"
    using nd by (subst parse_ipv6.simps) (simp only: if_False)
  also have "\<dots> = Some (mapped_ipv6 v)"
    using b by (subst parse_hextets_mapped) (simp_all add: mapped_ipv6_def v)
  finally show ?thesis .
qed

lemma js_lower_plain:
  assumes "parse_ipv4 a = Some v"
  shows "js_lower (take k a) = take k a"
  unfolding js_lower_def
proof (rule map_idI)
  fix c assume "c \<in> set (take k a)"
  then have "c \<in> set a" by (rule in_set_takeD)
  then have "is_digit c \<or> c = CHR ''.''" by (rule parse_ipv4_digits [OF assms])
  then show "lower_char c = c"
    by (auto simp: lower_char_def is_digit_def is_upper_def char_between_def)
qed

lemma mapped_ipv4_plain:
  assumes "parse_ipv4 a = Some v"
  shows "mapped_ipv4 a = None"
proof -
  have "take 7 a \<noteq> ''::ffff:''"
  proof
    assume "take 7 a = ''::ffff:''"
    then have "CHR '':'' \<in> set (take 7 a)" by simp
    with parse_ipv4_chars(1) [OF assms] show False by (meson in_set_takeD)
  qed
  then show ?thesis by (simp add: mapped_ipv4_def js_lower_plain [OF assms])
qed

lemma to_bytes_plain:
  assumes "parse_ipv4 a = Some v"
  shows "to_bytes a = Some v"
  using parse_ipv4_chars [OF assms] assms
  by (simp add: to_bytes_def js_trim_id mapped_ipv4_plain [OF assms])

lemma to_bytes_mapped:
  assumes "parse_ipv4 a = Some v"
  shows "to_bytes (''::ffff:'' @ a) = Some v"
proof -
  note c = parse_ipv4_chars [OF assms]
  have "js_trim (''::ffff:'' @ a) = ''::ffff:'' @ a"
    using c(4) by (intro js_trim_id) (auto simp: js_space_def)
  moreover have "set a \<inter> {CHR 0x0A, CHR 0x0D} = {}" using c(4) by (auto simp: js_space_def)
  then have "mapped_ipv4 (''::ffff:'' @ a) = Some v"
    using c(3) assms by (simp add: mapped_ipv4_def js_lower_def lower_char_def is_upper_def char_between_def Let_def)
  ultimately show ?thesis by (simp add: to_bytes_def)
qed

end
