(* ===== verification/Api_Token.thy ===== *)
theory Api_Token
  imports Scopes Ip_Allowlist
begin

section \<open>API tokens\<close>

text \<open>
  \<^verbatim>\<open>apps/api/src/api-tokens\<close>: the secret factory, the aggregate, the rows its repository keeps, the resolver
  of a presented secret and the two commands; and the guards of \<^verbatim>\<open>apps/api/src/auth/guards\<close> that decide
  what a resolved credential may reach. The digest, the random bytes, the owner lookup, the person's
  ability and the organization of a request are arguments.
\<close>

subsection \<open>The secret\<close>

definition api_token_prefix :: string where
  "api_token_prefix = ''oppenheimer_pat''"

record token_secret =
  secret_text :: string
  secret_prefix :: string
  secret_hash :: string

definition generate_api_token_secret :: "(string \<Rightarrow> string) \<Rightarrow> string \<Rightarrow> token_secret" where
  "generate_api_token_secret sha256 random =
     (let secret = api_token_prefix @ ''_'' @ random in
      \<lparr>secret_text = secret, secret_prefix = api_token_prefix @ ''_'' @ take 6 random, secret_hash = sha256 secret\<rparr>)"

definition is_api_token_secret :: "string \<Rightarrow> bool" where
  "is_api_token_secret v = (take (length (api_token_prefix @ ''_'')) v = api_token_prefix @ ''_'')"

subsection \<open>The aggregate\<close>

record api_token =
  token_id :: string
  token_user_id :: string
  token_name :: string
  token_prefix :: string
  token_hash :: string
  token_scopes :: "scope list"
  token_organization_ids :: "string list option"
  token_ip_allowlist :: "string list option"
  token_expires_at :: "date option"
  token_last_used_at :: "date option"
  token_revoked_at :: "date option"

definition last_used_granularity_ms :: int where
  "last_used_granularity_ms = 60000"

definition is_last_use_stale :: "date option \<Rightarrow> date \<Rightarrow> bool" where
  "is_last_use_stale used now =
     (case used of None \<Rightarrow> True | Some t \<Rightarrow> last_used_granularity_ms \<le> now - t)"

definition milliseconds_per_day :: int where
  "milliseconds_per_day = 86400000"

definition max_expiry_days :: int where
  "max_expiry_days = 3650"

record issue_token =
  it_user_id :: string
  it_name :: string
  it_scopes :: "scope list"
  it_organization_ids :: "string list option"
  it_ip_allowlist :: "string list option"
  it_expires_in_days :: "js_number option"

definition expiry_problem :: "js_number option \<Rightarrow> domain_error option" where
  "expiry_problem days =
     (case days of
        None \<Rightarrow> None
      | Some n \<Rightarrow>
          (case int_of_number n of
             None \<Rightarrow> Some (ArgumentOutOfRange ''expiresInDays must be a positive whole number'')
           | Some d \<Rightarrow>
               if d < 1 then Some (ArgumentOutOfRange ''expiresInDays must be a positive whole number'')
               else if max_expiry_days < d then Some (ArgumentOutOfRange ''expiresInDays must not exceed 3650'')
               else None))"

definition expiry_of :: "js_number option \<Rightarrow> date \<Rightarrow> date option" where
  "expiry_of days now =
     (case days of None \<Rightarrow> None
      | Some n \<Rightarrow> map_option (\<lambda>d. now + d * milliseconds_per_day) (int_of_number n))"

definition api_token_problem :: "api_token \<Rightarrow> domain_error option" where
  "api_token_problem t = check_all
     [(token_user_id t = [], ArgumentNotProvided ''An API token must belong to a user''),
      (token_name t = [], ArgumentNotProvided ''An API token must have a name''),
      (token_scopes t = [], ArgumentNotProvided ''An API token must grant at least one scope'')]"

definition issue_api_token ::
  "(string \<Rightarrow> string) \<Rightarrow> string \<Rightarrow> string \<Rightarrow> date \<Rightarrow> issue_token \<Rightarrow> domain_error + api_token \<times> string" where
  "issue_api_token sha256 random new_id now p =
     (let s = generate_api_token_secret sha256 random in
      case expiry_problem (it_expires_in_days p) of
        Some e \<Rightarrow> Inl e
      | None \<Rightarrow>
          (let t = \<lparr>token_id = new_id, token_user_id = it_user_id p, token_name = js_trim (it_name p),
                  token_prefix = secret_prefix s, token_hash = secret_hash s,
                  token_scopes = sort_scopes (it_scopes p),
                  token_organization_ids = to_resource_scope (it_organization_ids p),
                  token_ip_allowlist = (case it_ip_allowlist p of Some (e # es) \<Rightarrow> Some (e # es) | _ \<Rightarrow> None),
                  token_expires_at = expiry_of (it_expires_in_days p) now,
                  token_last_used_at = None, token_revoked_at = None\<rparr>
           in validated (api_token_problem t) (t, secret_text s)))"

definition is_revoked :: "api_token \<Rightarrow> bool" where
  "is_revoked t = (token_revoked_at t \<noteq> None)"

definition is_expired :: "api_token \<Rightarrow> date \<Rightarrow> bool" where
  "is_expired t now = (case token_expires_at t of None \<Rightarrow> False | Some e \<Rightarrow> e \<le> now)"

datatype token_rejection = Rejected_revoked | Rejected_expired | Rejected_ip

definition rejection_reason :: "api_token \<Rightarrow> date \<Rightarrow> string option \<Rightarrow> token_rejection option" where
  "rejection_reason t now ip =
     (if is_revoked t then Some Rejected_revoked
      else if is_expired t now then Some Rejected_expired
      else if \<not> is_ip_allowed (token_ip_allowlist t) ip then Some Rejected_ip
      else None)"

text \<open>\<open>revoke\<close>, with whether \<open>ApiTokenRevokedDomainEvent\<close> was raised.\<close>

definition revoke_token :: "date \<Rightarrow> api_token \<Rightarrow> api_token \<times> bool" where
  "revoke_token now t = (if is_revoked t then (t, False) else (t\<lparr>token_revoked_at := Some now\<rparr>, True))"

subsection \<open>The rows\<close>

definition usable :: "string \<Rightarrow> date \<Rightarrow> api_token \<Rightarrow> bool" where
  "usable user now t =
     (token_user_id t = user \<and> token_revoked_at t = None \<and>
      (case token_expires_at t of None \<Rightarrow> True | Some e \<Rightarrow> now < e))"

definition find_one_by_hash :: "api_token list \<Rightarrow> string \<Rightarrow> api_token option" where
  "find_one_by_hash table h = find (\<lambda>t. token_hash t = h) table"

definition find_one_by_id :: "api_token list \<Rightarrow> string \<Rightarrow> api_token option" where
  "find_one_by_id table i = find (\<lambda>t. token_id t = i) table"

definition save_token :: "api_token \<Rightarrow> api_token list \<Rightarrow> api_token list" where
  "save_token t table = map (\<lambda>u. if token_id u = token_id t then t else u) table"

definition insert_within_limit :: "api_token list \<Rightarrow> api_token \<Rightarrow> nat \<Rightarrow> date \<Rightarrow> api_token list option" where
  "insert_within_limit table t limit now =
     (if limit \<le> length (filter (usable (token_user_id t) now) table) then None else Some (table @ [t]))"

definition touch_last_used_at :: "api_token list \<Rightarrow> string \<Rightarrow> date \<Rightarrow> api_token list" where
  "touch_last_used_at table i now =
     map (\<lambda>t. if token_id t = i \<and>
              (case token_last_used_at t of None \<Rightarrow> True | Some l \<Rightarrow> l \<le> now - last_used_granularity_ms)
            then t\<lparr>token_last_used_at := Some now\<rparr> else t) table"

subsection \<open>Resolving a presented secret\<close>

datatype credential_error = Invalid_credential | Ip_not_allowed

record scope_context =
  ctx_credential_id :: string
  ctx_user_id :: string
  ctx_scopes :: "scope list"
  ctx_organization_ids :: "string list option"
  ctx_expires_at :: "date option"
  ctx_prefix :: string

definition source_address :: "string option \<Rightarrow> string option \<Rightarrow> string option" where
  "source_address ip remote = (case ip of Some a \<Rightarrow> Some a | None \<Rightarrow> remote)"

text \<open>\<open>resolve\<close> returns the table with it: the stamp is written before the owner is asked for.\<close>

definition resolve_api_token ::
  "(string \<Rightarrow> string) \<Rightarrow> (string \<Rightarrow> bool) \<Rightarrow> api_token list \<Rightarrow> string \<Rightarrow> date \<Rightarrow> string option \<Rightarrow>
   api_token list \<times> (credential_error + scope_context)" where
  "resolve_api_token sha256 active_owner table secret now ip =
     (case find_one_by_hash table (sha256 secret) of
        None \<Rightarrow> (table, Inl Invalid_credential)
      | Some t \<Rightarrow>
          (case rejection_reason t now ip of
             Some Rejected_ip \<Rightarrow> (table, Inl Ip_not_allowed)
           | Some _ \<Rightarrow> (table, Inl Invalid_credential)
           | None \<Rightarrow>
               (if is_last_use_stale (token_last_used_at t) now then touch_last_used_at table (token_id t) now else table,
                if active_owner (token_user_id t)
                then Inr \<lparr>ctx_credential_id = token_id t, ctx_user_id = token_user_id t, ctx_scopes = token_scopes t,
                          ctx_organization_ids = token_organization_ids t, ctx_expires_at = token_expires_at t,
                          ctx_prefix = token_prefix t\<rparr>
                else Inl Invalid_credential)))"

subsection \<open>The commands\<close>

datatype token_error =
    Scopes_exceed_granter "scope list"
  | Not_a_member
  | Limit_reached
  | Token_not_found
  | Token_invalid domain_error

definition max_active_tokens_per_user :: nat where
  "max_active_tokens_per_user = 50"

definition create_api_token ::
  "(string \<Rightarrow> string) \<Rightarrow> (string \<Rightarrow> string \<Rightarrow> bool) \<Rightarrow> string list \<Rightarrow> api_token list \<Rightarrow> string \<Rightarrow> string \<Rightarrow> date \<Rightarrow>
   issue_token \<Rightarrow> token_error + api_token list \<times> string" where
  "create_api_token sha256 can member_of table random new_id now p =
     (let exceeded = ungrantable_scopes can (it_scopes p) in
      if exceeded \<noteq> [] then Inl (Scopes_exceed_granter exceeded)
      else if list_ex (\<lambda>i. i \<notin> set member_of) (case it_organization_ids p of None \<Rightarrow> [] | Some ids \<Rightarrow> ids)
      then Inl Not_a_member
      else (case issue_api_token sha256 random new_id now p of
              Inl e \<Rightarrow> Inl (Token_invalid e)
            | Inr (t, secret) \<Rightarrow>
                (case insert_within_limit table t max_active_tokens_per_user now of
                   None \<Rightarrow> Inl Limit_reached
                 | Some table' \<Rightarrow> Inr (table', secret))))"

definition revoke_api_token ::
  "api_token list \<Rightarrow> string \<Rightarrow> string \<Rightarrow> date \<Rightarrow> token_error + api_token list" where
  "revoke_api_token table the_id user now =
     (case find_one_by_id table the_id of
        None \<Rightarrow> Inl Token_not_found
      | Some t \<Rightarrow>
          if token_user_id t \<noteq> user then Inl Token_not_found
          else Inr (save_token (fst (revoke_token now t)) table))"

subsection \<open>The guards\<close>

datatype guard_error =
    Endpoint_not_token_accessible
  | Insufficient_scope "scope list"
  | Organization_out_of_scope
  | Route_has_no_policy
  | Unauthenticated
  | Forbidden

definition assert_scopes :: "scope list option \<Rightarrow> scope_context \<Rightarrow> guard_error option" where
  "assert_scopes required context0 =
     (case required of
        None \<Rightarrow> Some Endpoint_not_token_accessible
      | Some [] \<Rightarrow> Some Endpoint_not_token_accessible
      | Some rs \<Rightarrow>
          (let missing = missing_scopes (ctx_scopes context0) rs in
           if missing \<noteq> [] then Some (Insufficient_scope missing) else None))"

definition assert_organization :: "string option \<Rightarrow> scope_context \<Rightarrow> guard_error option" where
  "assert_organization organization context0 =
     (if ctx_organization_ids context0 = None then None
      else if \<not> is_organization_allowed (ctx_organization_ids context0) organization
      then Some Organization_out_of_scope else None)"

text \<open>The scopes guard of a request that arrived over HTTP: \<open>None\<close> lets it through.\<close>

definition scopes_guard ::
  "scope_context option \<Rightarrow> bool \<Rightarrow> scope list option \<Rightarrow> string option \<Rightarrow> guard_error option" where
  "scopes_guard context0 allow_any_scope required organization =
     (case context0 of
        None \<Rightarrow> None
      | Some c \<Rightarrow>
          (case (if allow_any_scope then None else assert_scopes required c) of
             Some e \<Rightarrow> Some e
           | None \<Rightarrow> assert_organization organization c))"

definition policies_guard ::
  "(string \<times> string) list option \<Rightarrow> string option \<Rightarrow> bool \<Rightarrow> (string \<Rightarrow> string \<Rightarrow> bool) \<Rightarrow> guard_error option" where
  "policies_guard rules exemption has_user can =
     (if rules = None \<or> rules = Some [] then (if truthy exemption then None else Some Route_has_no_policy)
      else if \<not> has_user then Some Unauthenticated
      else if \<not> list_all (\<lambda>(action, subject). can action subject) (the rules) then Some Forbidden
      else None)"

subsection \<open>The table over time\<close>

text \<open>
  A state is the time and the rows. A step mints, revokes or uses a token, or lets time pass; who asks,
  with which ability and memberships, is any. A row's id is fresh, as its primary key asks.
\<close>

inductive token_step :: "date \<times> api_token list \<Rightarrow> date \<times> api_token list \<Rightarrow> bool" where
  minted: "create_api_token sha256 can member_of table random new_id now p = Inr (table', secret) \<Longrightarrow>
    new_id \<notin> token_id ` set table \<Longrightarrow> token_step (now, table) (now, table')"
| revoked: "revoke_api_token table the_id user now = Inr table' \<Longrightarrow> token_step (now, table) (now, table')"
| presented: "resolve_api_token sha256 active_owner table secret now ip = (table', answer) \<Longrightarrow>
    token_step (now, table) (now, table')"
| passed: "now \<le> now' \<Longrightarrow> token_step (now, table) (now', table)"

inductive_cases token_stepE: "token_step (now, table) s"

definition active_count :: "string \<Rightarrow> date \<Rightarrow> api_token list \<Rightarrow> nat" where
  "active_count user now table = length (filter (usable user now) table)"

definition within_limit :: "date \<times> api_token list \<Rightarrow> bool" where
  "within_limit s = (\<forall>user. active_count user (fst s) (snd s) \<le> max_active_tokens_per_user)"

lemma active_count_map:
  assumes "\<And>t. usable user now' (f t) \<Longrightarrow> usable user now t"
  shows "active_count user now' (map f table) \<le> active_count user now table"
  using assms by (induction table) (auto simp: active_count_def)

lemma usable_save: "usable user now (if token_id u = token_id t then t else u) \<Longrightarrow> token_revoked_at t \<noteq> None \<Longrightarrow> usable user now u"
  by (simp add: usable_def split: if_splits)

lemma usable_later: "now \<le> now' \<Longrightarrow> usable user now' t \<Longrightarrow> usable user now t"
  by (auto simp: usable_def split: option.splits)

lemma create_api_tokenD:
  assumes "create_api_token sha256 can member_of table random new_id now p = Inr (table', secret)"
  obtains t where "issue_api_token sha256 random new_id now p = Inr (t, secret)" "table' = table @ [t]"
    "ungrantable_scopes can (it_scopes p) = []"
    "active_count (token_user_id t) now table < max_active_tokens_per_user"
  using assms
  by (auto simp: create_api_token_def insert_within_limit_def active_count_def Let_def
      split: if_splits sum.splits option.splits)

lemma issue_api_tokenD:
  assumes "issue_api_token sha256 random new_id now p = Inr (t, secret)"
  shows "token_id t = new_id" "token_user_id t = it_user_id p" "token_scopes t = sort_scopes (it_scopes p)"
    "token_organization_ids t = to_resource_scope (it_organization_ids p)"
    "token_expires_at t = expiry_of (it_expires_in_days p) now" "token_revoked_at t = None"
    "token_hash t = sha256 secret" "api_token_problem t = None"
    "expiry_problem (it_expires_in_days p) = None" "is_api_token_secret secret"
    "token_ip_allowlist t = (case it_ip_allowlist p of Some (e # es) \<Rightarrow> Some (e # es) | _ \<Rightarrow> None)"
proof -
  have x: "expiry_problem (it_expires_in_days p) = None"
    using assms by (cases "expiry_problem (it_expires_in_days p)") (simp_all add: issue_api_token_def Let_def)
  note u = assms [unfolded issue_api_token_def Let_def x option.case validated_Inr prod.inject]
  from u have tok: "api_token_problem t = None" and t: "t = \<lparr>token_id = new_id, token_user_id = it_user_id p,
      token_name = js_trim (it_name p), token_prefix = secret_prefix (generate_api_token_secret sha256 random),
      token_hash = secret_hash (generate_api_token_secret sha256 random), token_scopes = sort_scopes (it_scopes p),
      token_organization_ids = to_resource_scope (it_organization_ids p),
      token_ip_allowlist = (case it_ip_allowlist p of Some (e # es) \<Rightarrow> Some (e # es) | _ \<Rightarrow> None),
      token_expires_at = expiry_of (it_expires_in_days p) now, token_last_used_at = None, token_revoked_at = None\<rparr>"
    and s: "secret = secret_text (generate_api_token_secret sha256 random)"
    by (simp_all only:)
  show "token_id t = new_id" "token_user_id t = it_user_id p" "token_scopes t = sort_scopes (it_scopes p)"
    "token_organization_ids t = to_resource_scope (it_organization_ids p)"
    "token_expires_at t = expiry_of (it_expires_in_days p) now" "token_revoked_at t = None"
    "token_hash t = sha256 secret"
    "token_ip_allowlist t = (case it_ip_allowlist p of Some (e # es) \<Rightarrow> Some (e # es) | _ \<Rightarrow> None)"
    by (simp_all add: t s generate_api_token_secret_def Let_def)
  show "api_token_problem t = None" by (rule tok)
  show "expiry_problem (it_expires_in_days p) = None" by (rule x)
  show "is_api_token_secret secret"
    by (simp add: s generate_api_token_secret_def is_api_token_secret_def Let_def)
qed

lemma resolve_table:
  "fst (resolve_api_token sha256 owner table secret now ip) = table \<or>
   (\<exists>i. fst (resolve_api_token sha256 owner table secret now ip) = touch_last_used_at table i now)"
  by (auto simp: resolve_api_token_def Let_def split: option.splits token_rejection.splits)

lemma touch_count: "active_count user now (touch_last_used_at table i now') \<le> active_count user now table"
  unfolding touch_last_used_at_def by (rule active_count_map) (simp add: usable_def split: if_splits)

lemma revoke_table:
  assumes "revoke_api_token table the_id user now = Inr table'"
  obtains t where "find_one_by_id table the_id = Some t" "token_user_id t = user"
    "table' = save_token (fst (revoke_token now t)) table"
  using assms by (auto simp: revoke_api_token_def split: option.splits if_splits)

lemma revoke_token_facts:
  "token_revoked_at (fst (revoke_token now t)) = (case token_revoked_at t of None \<Rightarrow> Some now | Some r \<Rightarrow> Some r)"
  "token_id (fst (revoke_token now t)) = token_id t" "token_hash (fst (revoke_token now t)) = token_hash t"
  "token_user_id (fst (revoke_token now t)) = token_user_id t"
  by (auto simp: revoke_token_def is_revoked_def)

lemma within_limit_less:
  assumes "\<And>u. active_count u now' table' \<le> active_count u now table" "within_limit (now, table)"
  shows "within_limit (now', table')"
  unfolding within_limit_def fst_conv snd_conv
proof
  fix u
  have "active_count u now table \<le> max_active_tokens_per_user" using assms(2) by (simp add: within_limit_def)
  with assms(1) [of u] show "active_count u now' table' \<le> max_active_tokens_per_user" by (rule le_trans)
qed

lemma token_step_limit: "token_step s s' \<Longrightarrow> within_limit s \<Longrightarrow> within_limit s'"
proof (induction rule: token_step.induct)
  case (minted sha256 can member_of table random new_id now p table' secret)
  from minted(1) obtain t where t: "table' = table @ [t]"
    "active_count (token_user_id t) now table < max_active_tokens_per_user"
    by (rule create_api_tokenD)
  have "active_count user now table' \<le> max_active_tokens_per_user" for user
    using t minted(3) by (auto simp: within_limit_def active_count_def usable_def)
  then show ?case by (simp add: within_limit_def)
next
  case (revoked table the_id user now table')
  from revoked(1) obtain t where t: "table' = save_token (fst (revoke_token now t)) table"
    by (rule revoke_table)
  have "token_revoked_at (fst (revoke_token now t)) \<noteq> None"
    by (simp add: revoke_token_facts split: option.split)
  then have "active_count u now table' \<le> active_count u now table" for u
    unfolding t save_token_def by (intro active_count_map) (rule usable_save)
  from within_limit_less [OF this revoked(2)] show ?case .
next
  case (presented sha256 active_owner table secret now ip table' answer)
  have "table' = table \<or> (\<exists>i. table' = touch_last_used_at table i now)"
    using resolve_table [of sha256 active_owner table secret now ip] presented(1) by simp
  then have "active_count u now table' \<le> active_count u now table" for u using touch_count by auto
  from within_limit_less [OF this presented(2)] show ?case .
next
  case (passed now now' table)
  have "active_count u now' (map (\<lambda>t. t) table) \<le> active_count u now table" for u
    by (rule active_count_map) (rule usable_later [OF passed(1)])
  then have "active_count u now' table \<le> active_count u now table" for u by simp
  from within_limit_less [OF this passed(2)] show ?case .
qed

subsection \<open>Revocation lasts\<close>

lemma find_map: "\<forall>x \<in> set xs. P (f x) = P x \<Longrightarrow> find P (map f xs) = map_option f (find P xs)"
  by (induction xs) auto

lemma find_some_append: "find P xs = Some x \<Longrightarrow> find P (xs @ ys) = Some x"
  by (induction xs) auto

definition ids_distinct :: "api_token list \<Rightarrow> bool" where
  "ids_distinct table = distinct (map token_id table)"

text \<open>A row keeps its id and digest, and once revoked keeps its time.\<close>

definition keeps_revocation :: "api_token \<Rightarrow> api_token \<Rightarrow> bool" where
  "keeps_revocation t u \<longleftrightarrow> token_id u = token_id t \<and> token_hash u = token_hash t \<and>
     (token_revoked_at t \<noteq> None \<longrightarrow> token_revoked_at u = token_revoked_at t)"

lemma keeps_revocation_map:
  assumes "\<forall>t \<in> set table. keeps_revocation t (f t)" "find_one_by_hash table h = Some t" "token_revoked_at t = Some r"
  shows "\<exists>u. find_one_by_hash (map f table) h = Some u \<and> token_revoked_at u = Some r"
proof -
  have "find_one_by_hash (map f table) h = map_option f (find_one_by_hash table h)"
    unfolding find_one_by_hash_def using assms(1) by (intro find_map) (simp add: keeps_revocation_def)
  moreover have "t \<in> set table" using assms(2) by (auto simp: find_one_by_hash_def find_Some_iff)
  then have "token_revoked_at (f t) = Some r" using assms(1,3) by (auto simp: keeps_revocation_def)
  ultimately show ?thesis using assms(2) by simp
qed

lemma save_keeps:
  assumes "ids_distinct table" "find_one_by_id table i = Some t"
  shows "\<forall>u \<in> set table. keeps_revocation u (if token_id u = token_id (fst (revoke_token now t)) then fst (revoke_token now t) else u)"
proof
  fix u assume u: "u \<in> set table"
  have t: "t \<in> set table" using assms(2) by (auto simp: find_one_by_id_def find_Some_iff)
  show "keeps_revocation u (if token_id u = token_id (fst (revoke_token now t)) then fst (revoke_token now t) else u)"
  proof (cases "token_id u = token_id t")
    case True
    then have "u = t" using assms(1) u t by (auto simp: ids_distinct_def distinct_map dest: inj_onD)
    then show ?thesis by (auto simp: keeps_revocation_def revoke_token_facts)
  qed (simp add: keeps_revocation_def revoke_token_facts)
qed

lemma touch_keeps: "\<forall>t \<in> set table. keeps_revocation t (if token_id t = i \<and>
    (case token_last_used_at t of None \<Rightarrow> True | Some l \<Rightarrow> l \<le> now - last_used_granularity_ms)
    then t\<lparr>token_last_used_at := Some now\<rparr> else t)"
  by (simp add: keeps_revocation_def)

lemma ids_distinct_map: "\<forall>t \<in> set table. keeps_revocation t (f t) \<Longrightarrow> ids_distinct table \<Longrightarrow> ids_distinct (map f table)"
proof -
  assume k: "\<forall>t \<in> set table. keeps_revocation t (f t)" and d: "ids_distinct table"
  have "map token_id (map f table) = map token_id table" using k by (simp add: keeps_revocation_def)
  with d show ?thesis by (simp only: ids_distinct_def)
qed

definition revoked_row :: "string \<Rightarrow> date \<Rightarrow> api_token list \<Rightarrow> bool" where
  "revoked_row h r table \<longleftrightarrow> ids_distinct table \<and>
     (\<exists>t. find_one_by_hash table h = Some t \<and> token_revoked_at t = Some r)"

lemma revoked_row_map: "\<forall>t \<in> set table. keeps_revocation t (f t) \<Longrightarrow> revoked_row h r table \<Longrightarrow> revoked_row h r (map f table)"
  using keeps_revocation_map ids_distinct_map by (metis revoked_row_def)

lemma token_step_revoked: "token_step s s' \<Longrightarrow> revoked_row h r (snd s) \<Longrightarrow> revoked_row h r (snd s')"
proof (induction rule: token_step.induct)
  case (minted sha256 can member_of table random new_id now p table' secret)
  from minted(1) obtain t where t: "issue_api_token sha256 random new_id now p = Inr (t, secret)" "table' = table @ [t]"
    by (rule create_api_tokenD)
  then have "ids_distinct table'"
    using minted(2,3) issue_api_tokenD(1) [OF t(1)] by (simp add: revoked_row_def ids_distinct_def)
  moreover have "find_one_by_hash table' h = Some u" if "find_one_by_hash table h = Some u" for u
    using that t(2) by (simp add: find_one_by_hash_def find_some_append)
  ultimately show ?case using minted(3) by (auto simp: revoked_row_def)
next
  case (revoked table the_id user now table')
  from revoked(1) obtain t where t: "find_one_by_id table the_id = Some t"
    "table' = save_token (fst (revoke_token now t)) table"
    by (rule revoke_table)
  have "ids_distinct table" using revoked(2) by (simp add: revoked_row_def)
  from revoked_row_map [OF save_keeps [OF this t(1)]] revoked(2) show ?case by (simp add: t(2) save_token_def)
next
  case (presented sha256 active_owner table secret now ip table' answer)
  have "table' = table \<or> (\<exists>i. table' = touch_last_used_at table i now)"
    using resolve_table [of sha256 active_owner table secret now ip] presented(1) by simp
  then show ?case
  proof
    assume "\<exists>i. table' = touch_last_used_at table i now"
    then obtain i where "table' = touch_last_used_at table i now" ..
    with revoked_row_map [OF touch_keeps] presented(2) show ?case by (simp add: touch_last_used_at_def)
  qed (use presented(2) in simp)
qed simp

lemma token_steps_revoked: "token_step\<^sup>*\<^sup>* s s' \<Longrightarrow> revoked_row h r (snd s) \<Longrightarrow> revoked_row h r (snd s')"
  by (induction rule: rtranclp_induct) (auto intro: token_step_revoked)

lemma token_steps_limit: "token_step\<^sup>*\<^sup>* s s' \<Longrightarrow> within_limit s \<Longrightarrow> within_limit s'"
  by (induction rule: rtranclp_induct) (auto intro: token_step_limit)

subsection \<open>What a minted token is good for\<close>

text \<open>The reach of a person: the levels the person's ability satisfies, and the reading a write implies.\<close>

definition within_reach :: "(string \<Rightarrow> string \<Rightarrow> bool) \<Rightarrow> scope \<Rightarrow> bool" where
  "within_reach can s =
     list_ex (\<lambda>g. level_allowed can (group_write g) \<and> s \<in> {level_scope (group_write g), level_scope (group_read g)} \<or>
        level_allowed can (group_read g) \<and> s = level_scope (group_read g)) permission_groups"

lemma grantable_scopesD:
  assumes "s \<in> set (grantable_scopes can)"
  obtains g where "g \<in> set permission_groups"
    "level_allowed can (group_read g) \<and> s = level_scope (group_read g) \<or>
     level_allowed can (group_write g) \<and> s = level_scope (group_write g)"
  using assms by (auto simp: grantable_scopes_def group_levels_def split: if_splits)

lemma expand_within_reach:
  assumes "set ss \<subseteq> set (grantable_scopes can)" "s \<in> expand_scopes ss"
  shows "within_reach can s"
proof -
  consider "s \<in> set ss"
    | w where "w \<in> set ss" "snd (parse_scope w) = Some ''write''" "s = fst (parse_scope w) @ '':read''"
    using assms(2) by (auto simp: expand_scopes_iff)
  then show ?thesis
  proof cases
    case 1
    then have "s \<in> set (grantable_scopes can)" using assms(1) by blast
    then show ?thesis by (rule grantable_scopesD) (auto simp: within_reach_def list_ex_iff)
  next
    case 2
    then have "w \<in> set (grantable_scopes can)" using assms(1) by blast
    then obtain g where g: "g \<in> set permission_groups"
      "level_allowed can (group_read g) \<and> w = level_scope (group_read g) \<or>
       level_allowed can (group_write g) \<and> w = level_scope (group_write g)"
      by (rule grantable_scopesD)
    note n = group_scope_names [OF g(1)]
    have "level_allowed can (group_write g)" "s = level_scope (group_read g)"
      using g(2) n 2(2,3) by auto
    with g(1) show ?thesis by (auto simp: within_reach_def list_ex_iff)
  qed
qed

end
