(* ===== verification/Token_Properties.thy ===== *)
theory Token_Properties
  imports Api_Token
begin

section \<open>Properties of API tokens and their guards\<close>

text \<open>One person who may do anything to sessions, and the token that person mints.\<close>

definition session_person :: "string \<Rightarrow> string \<Rightarrow> bool" where
  "session_person action subject = (subject = ''Session'')"

definition mint_command :: issue_token where
  "mint_command = \<lparr>it_user_id = ''u1'', it_name = '' ci '', it_scopes = [''sessions:write''],
     it_organization_ids = None, it_ip_allowlist = Some [''10.0.0.0/8''], it_expires_in_days = Some (Finite 30)\<rparr>"

definition minted_token :: api_token where
  "minted_token = \<lparr>token_id = ''t1'', token_user_id = ''u1'', token_name = ''ci'',
     token_prefix = ''oppenheimer_pat_abcdef'', token_hash = ''oppenheimer_pat_abcdefgh'',
     token_scopes = [''sessions:write''], token_organization_ids = None,
     token_ip_allowlist = Some [''10.0.0.0/8''], token_expires_at = Some 2592000000,
     token_last_used_at = None, token_revoked_at = None\<rparr>"

lemma mint_issued:
  "issue_api_token (\<lambda>s. s) ''abcdefgh'' ''t1'' 0 mint_command = Inr (minted_token, ''oppenheimer_pat_abcdefgh'')"
  by (simp add: issue_api_token_def mint_command_def minted_token_def generate_api_token_secret_def
      api_token_prefix_def expiry_problem_def expiry_of_def int_of_number_def max_expiry_days_def
      milliseconds_per_day_def validated_def api_token_problem_def js_trim_def js_space_def sort_scopes_def
      to_resource_scope_def Let_def)

lemma session_person_grants: "ungrantable_scopes session_person [''sessions:write''] = []"
  by code_simp

lemma mint_created:
  "create_api_token (\<lambda>s. s) session_person [] [] ''abcdefgh'' ''t1'' 0 mint_command =
     Inr ([minted_token], ''oppenheimer_pat_abcdefgh'')"
proof -
  have "it_scopes mint_command = [''sessions:write'']" "it_organization_ids mint_command = None"
    by (simp_all add: mint_command_def)
  then show ?thesis
    by (simp add: create_api_token_def mint_issued session_person_grants insert_within_limit_def
        max_active_tokens_per_user_def)
qed

text \<open>C31: A token never carries more than its minter: a request a minted token is let through with by the
  scopes guard asks only for scopes of a level the minter's own ability satisfied at the mint, or for
  the reading that such a level of writing implies.
\<close>

theorem a_token_reaches_no_more_than_its_minter:
  assumes "create_api_token sha256 can member_of table random new_id now p = Inr (table', secret)"
    and "ctx_scopes c = token_scopes (last table')"
    and "scopes_guard (Some c) False (Some required) organization = None"
    and "s \<in> set required"
  shows "within_reach can s"
proof -
  from assms(1) obtain t where t: "issue_api_token sha256 random new_id now p = Inr (t, secret)"
    "table' = table @ [t]" "ungrantable_scopes can (it_scopes p) = []"
    by (rule create_api_tokenD)
  have "assert_scopes (Some required) c = None" using assms(3) by (simp add: scopes_guard_def split: option.splits)
  then have "missing_scopes (ctx_scopes c) required = []"
    by (cases required) (simp_all add: assert_scopes_def Let_def split: if_splits)
  then have "s \<in> expand_scopes (token_scopes t)"
    using assms(2,4) t(2) by (auto simp: missing_scopes_Nil)
  moreover have "set (token_scopes t) \<subseteq> set (grantable_scopes can)"
    using t(3) issue_api_tokenD(3) [OF t(1)]
    by (auto simp: sort_scopes_def ungrantable_scopes_def Let_def filter_empty_conv)
  ultimately show ?thesis by (rule expand_within_reach [rotated])
qed

definition minted_context :: scope_context where
  "minted_context = \<lparr>ctx_credential_id = ''t1'', ctx_user_id = ''u1'', ctx_scopes = [''sessions:write''],
     ctx_organization_ids = None, ctx_expires_at = Some 2592000000, ctx_prefix = ''oppenheimer_pat_abcdef''\<rparr>"

lemma a_token_reaches_no_more_than_its_minter_witness:
  "within_reach session_person ''sessions:read''"
proof (rule a_token_reaches_no_more_than_its_minter [OF mint_created])
  show "ctx_scopes minted_context = token_scopes (last [minted_token])"
    by (simp add: minted_context_def minted_token_def)
  show "scopes_guard (Some minted_context) False (Some [''sessions:read'']) None = None" by code_simp
qed simp

text \<open>Whatever was minted, revoked and used, in whatever order and by whomever, no person ever holds
  more than fifty tokens that still authenticate.
\<close>

theorem a_person_holds_at_most_fifty_live_tokens:
  assumes "token_step\<^sup>*\<^sup>* (start, []) (now, table)"
  shows "length (filter (usable user now) table) \<le> 50"
proof -
  have "within_limit (start, [])" by (simp add: within_limit_def active_count_def)
  from token_steps_limit [OF assms this] show ?thesis
    by (simp add: within_limit_def active_count_def max_active_tokens_per_user_def)
qed

lemma a_person_holds_at_most_fifty_live_tokens_witness:
  "length (filter (usable ''u1'' 0) [minted_token]) \<le> 50"
  by (rule a_person_holds_at_most_fifty_live_tokens [of 0])
    (rule r_into_rtranclp, rule minted [OF mint_created], simp)

lemma int_of_number_Some: "int_of_number n = Some d \<Longrightarrow> n = Finite (of_int d)"
  by (cases n) (auto simp: int_of_number_def split: if_split_asm)

lemma expiry_problem_None:
  assumes "expiry_problem (Some n) = None"
  obtains d where "int_of_number n = Some d" "1 \<le> d" "d \<le> 3650"
  using assms by (cases "int_of_number n") (simp_all add: expiry_problem_def max_expiry_days_def not_less split: if_split_asm)

text \<open>A token that was issued for a number of days is taken exactly while fewer than that many days
  have passed, from an address of its list; and the number is a whole one from 1 to 3650.
\<close>

theorem a_token_lives_for_the_days_it_was_issued_for:
  assumes "issue_api_token sha256 random new_id now p = Inr (t, secret)"
    and "it_expires_in_days p = Some n"
  shows "\<exists>d. n = Finite (of_int d) \<and> 1 \<le> d \<and> d \<le> 3650 \<and>
    (rejection_reason t later ip = None \<longleftrightarrow>
       later < now + d * 86400000 \<and> is_ip_allowed (it_ip_allowlist p) ip)"
proof -
  note f = issue_api_tokenD [OF assms(1)]
  obtain d where d: "int_of_number n = Some d" "1 \<le> d" "d \<le> 3650"
    using f(9) unfolding assms(2) by (rule expiry_problem_None)
  have n: "n = Finite (of_int d)" by (rule int_of_number_Some [OF d(1)])
  have "token_expires_at t = Some (now + d * 86400000)"
    using f(5) assms(2) d(1) by (simp add: expiry_of_def milliseconds_per_day_def)
  moreover have "is_ip_allowed (token_ip_allowlist t) ip = is_ip_allowed (it_ip_allowlist p) ip"
    using f(11) by (simp add: is_ip_allowed_def split: option.split list.split)
  ultimately have "rejection_reason t later ip = None \<longleftrightarrow>
      later < now + d * 86400000 \<and> is_ip_allowed (it_ip_allowlist p) ip"
    using f(6) by (simp add: rejection_reason_def is_revoked_def is_expired_def not_le)
  with n d(2,3) show ?thesis by (intro exI [of _ d] conjI)
qed

lemma a_token_lives_for_the_days_it_was_issued_for_witness:
  "\<exists>d. Finite 30 = Finite (of_int d) \<and> 1 \<le> d \<and> d \<le> 3650 \<and>
    (rejection_reason minted_token 5 None = None \<longleftrightarrow> 5 < 0 + d * 86400000 \<and> is_ip_allowed (it_ip_allowlist mint_command) None)"
  by (rule a_token_lives_for_the_days_it_was_issued_for [OF mint_issued]) (simp add: mint_command_def)

text \<open>C32: Once a token was revoked, its secret is refused for ever: no later command or use of any token
  brings it back, and the time of the revocation stays the first one.
\<close>

theorem a_revoked_token_never_comes_back:
  assumes "distinct (map token_id table)"
    and "find_one_by_hash table (sha256 secret) = Some t" and "token_revoked_at t = Some r"
    and "token_step\<^sup>*\<^sup>* (now, table) (now', table')"
  shows "snd (resolve_api_token sha256 active_owner table' secret later ip) = Inl Invalid_credential \<and>
    (\<exists>u. find_one_by_hash table' (sha256 secret) = Some u \<and> token_revoked_at u = Some r)"
proof -
  have "revoked_row (sha256 secret) r (snd (now, table))" using assms(1-3) by (simp add: revoked_row_def ids_distinct_def)
  from token_steps_revoked [OF assms(4) this] obtain u where
    "find_one_by_hash table' (sha256 secret) = Some u" "token_revoked_at u = Some r"
    by (auto simp: revoked_row_def)
  then show ?thesis by (simp add: resolve_api_token_def rejection_reason_def is_revoked_def)
qed

definition revoked_token :: api_token where
  "revoked_token = minted_token\<lparr>token_revoked_at := Some 7\<rparr>"

lemma a_revoked_token_never_comes_back_witness:
  "snd (resolve_api_token (\<lambda>s. s) (\<lambda>u. True) [revoked_token] ''oppenheimer_pat_abcdefgh'' 9 None) = Inl Invalid_credential \<and>
   (\<exists>u. find_one_by_hash [revoked_token] ''oppenheimer_pat_abcdefgh'' = Some u \<and> token_revoked_at u = Some 7)"
proof (rule a_revoked_token_never_comes_back)
  show "distinct (map token_id [revoked_token])" by simp
  show "find_one_by_hash [revoked_token] ''oppenheimer_pat_abcdefgh'' = Some revoked_token"
    by (simp add: find_one_by_hash_def revoked_token_def minted_token_def)
  show "token_revoked_at revoked_token = Some 7" by (simp add: revoked_token_def)
  have "revoke_api_token [revoked_token] ''t1'' ''u1'' 8 = Inr [revoked_token]"
    by (simp add: revoke_api_token_def find_one_by_id_def save_token_def revoke_token_def is_revoked_def
        revoked_token_def minted_token_def)
  then show "token_step\<^sup>*\<^sup>* (8, [revoked_token]) (8, [revoked_token])"
    by (intro r_into_rtranclp revoked)
qed

text \<open>What a presented secret is answered: the token's context exactly when a live token has its
  digest, the address is on the token's list and its owner may act; that the address is the reason
  only when the token is live; and one and the same refusal for a secret nobody has, a revoked token,
  an expired one and an owner who may not act.
\<close>

theorem a_secret_resolves_iff_its_token_is_live:
  "case snd (resolve_api_token sha256 active_owner table secret now ip) of
     Inr c \<Rightarrow> (\<exists>t. find_one_by_hash table (sha256 secret) = Some t \<and> \<not> is_revoked t \<and> \<not> is_expired t now \<and>
                is_ip_allowed (token_ip_allowlist t) ip \<and> active_owner (token_user_id t) \<and>
                ctx_user_id c = token_user_id t \<and> ctx_scopes c = token_scopes t \<and>
                ctx_organization_ids c = token_organization_ids t)
   | Inl Ip_not_allowed \<Rightarrow> (\<exists>t. find_one_by_hash table (sha256 secret) = Some t \<and> \<not> is_revoked t \<and>
                \<not> is_expired t now \<and> \<not> is_ip_allowed (token_ip_allowlist t) ip)
   | Inl Invalid_credential \<Rightarrow> (\<forall>t. find_one_by_hash table (sha256 secret) \<noteq> Some t \<or> is_revoked t \<or> is_expired t now \<or>
                (is_ip_allowed (token_ip_allowlist t) ip \<and> \<not> active_owner (token_user_id t)))"
  by (auto simp: resolve_api_token_def rejection_reason_def split: option.splits)

lemma a_secret_resolves_iff_its_token_is_live_witness:
  "\<exists>t. find_one_by_hash [minted_token\<lparr>token_ip_allowlist := None\<rparr>] ''oppenheimer_pat_abcdefgh'' = Some t \<and>
     \<not> is_revoked t \<and> \<not> is_expired t 5 \<and> is_ip_allowed (token_ip_allowlist t) None"
proof -
  let ?c = "\<lparr>ctx_credential_id = ''t1'', ctx_user_id = ''u1'', ctx_scopes = [''sessions:write''],
     ctx_organization_ids = None, ctx_expires_at = Some 2592000000, ctx_prefix = ''oppenheimer_pat_abcdef''\<rparr>"
  have "snd (resolve_api_token (\<lambda>s. s) (\<lambda>u. True) [minted_token\<lparr>token_ip_allowlist := None\<rparr>]
      ''oppenheimer_pat_abcdefgh'' 5 None) = Inr ?c"
    by (simp add: resolve_api_token_def find_one_by_hash_def minted_token_def rejection_reason_def is_revoked_def
        is_expired_def is_ip_allowed_def)
  with a_secret_resolves_iff_its_token_is_live [where ?sha256.0 = "\<lambda>s. s" and active_owner = "\<lambda>u. True" and
      table = "[minted_token\<lparr>token_ip_allowlist := None\<rparr>]" and secret = "''oppenheimer_pat_abcdefgh''" and
      now = 5 and ip = None]
  show ?thesis by auto
qed

text \<open>C39: Printing scopes and reading them back loses nothing: any list of catalog scopes, joined by any
  run of blanks and commas, is read as those scopes, each once and in catalog order, and no word of it
  is unknown.
\<close>

theorem scopes_are_read_back_as_they_were_printed:
  assumes "set scopes \<subseteq> set all_scopes" and "separator \<noteq> []" and "list_all scope_separator separator"
  shows "parse_scope_string (Some (js_join separator scopes)) = (filter (\<lambda>s. s \<in> set scopes) all_scopes, [])"
  using assms by (intro parse_scope_string_join) (simp_all add: list_all_iff)

lemma scopes_are_read_back_as_they_were_printed_witness:
  "parse_scope_string (Some (js_join '', '' [''users:read'', ''profile:read''])) =
     (filter (\<lambda>s. s \<in> set [''users:read'', ''profile:read'']) all_scopes, [])"
proof (rule scopes_are_read_back_as_they_were_printed)
  show "set [''users:read'', ''profile:read''] \<subseteq> set all_scopes" by code_simp
  show "list_all scope_separator '', ''" by code_simp
qed simp

text \<open>A rule of the address list takes an address exactly when both are read, the address widened to
  its mapped form where the rule is of sixteen bytes is as long as the rule, and the first bits of the
  two, as many as the rule's prefix says, are the same: the bytes and the mask are an exact test of
  the prefix.
\<close>

theorem a_rule_takes_exactly_its_block:
  "matches_ip_rule entry address \<longleftrightarrow>
     (\<exists>rule bits a. parse_rule entry = Some (rule, bits) \<and> to_bytes address = Some a \<and>
        (let b = (if length rule = 16 \<and> length a = 4 then mapped_ipv6 a else a) in
         length b = length rule \<and> (\<forall>i < bits. address_bit rule i = address_bit b i)))"
proof -
  have m: "length (mapped_ipv6 a) = 16" "list_all (\<lambda>b. b < 256) (mapped_ipv6 a)"
    if "length a = 4" "list_all (\<lambda>b. b < 256) a" for a
    using that mapped_ipv6_address [of a] by (simp_all add: is_address_def) (simp add: mapped_ipv6_def)
  have "bytes_match rule bits b \<longleftrightarrow> (\<forall>i < bits. address_bit rule i = address_bit b i)"
    if "parse_rule entry = Some (rule, bits)" "is_address b" "length rule = length b" for rule bits b
    using parse_rule_wf [OF that(1)] that(2,3) by (intro bytes_match_bits) (auto simp: is_address_def list_all_iff)
  then show ?thesis
    by (auto simp: matches_ip_rule_def Let_def is_address_def m split: option.splits
        dest!: to_bytes_address)
qed

lemma a_rule_takes_exactly_its_block_witness:
  "matches_ip_rule ''10.0.0.0/8'' ''10.1.2.3''"
proof -
  have "parse_ipv4 ''10.0.0.0'' = Some [10, 0, 0, 0]" "parse_ipv4 ''10.1.2.3'' = Some [10, 1, 2, 3]"
    by (simp_all add: parse_ipv4_def octet_of_def is_digit_def char_between_def parse_digits_def digit_value_def)
  note p = this to_bytes_plain [OF this(1)] to_bytes_plain [OF this(2)] mapped_ipv4_plain [OF this(1)]
  have n: "int_of_number (js_to_number ''8'') = Some 8"
    by (simp add: js_to_number_def js_trim_def js_space_def decimal_literal_def is_digit_def char_between_def
        parse_digits_def digit_value_def scaled_def int_of_number_def)
  have t: "js_trim ''10.0.0.0/8'' = ''10.0.0.0/8''" "js_trim ''10.0.0.0'' = ''10.0.0.0''"
    by (simp_all add: js_trim_def js_space_def)
  have "parse_rule ''10.0.0.0/8'' = Some ([10, 0, 0, 0], 8)"
    by (simp add: parse_rule_def t rule_network_def p n)
  moreover have "address_bit [10, 0, 0, 0] i = address_bit [10, 1, 2, 3] i" if "i < 8" for i
    using that by (simp add: address_bit_def)
  ultimately show ?thesis
    by (intro a_rule_takes_exactly_its_block [THEN iffD2] exI [of _ "[10, 0, 0, 0]"] exI [of _ "8"] exI [of _ "[10, 1, 2, 3]"])
      (simp add: p)
qed

text \<open>A client is the same client in IPv6 clothes: for an IPv4 address, its mapped form is read as the
  same four bytes, so every rule answers for both alike; and the general parser, which rewrites the
  tail to hexadecimal words and reads them, agrees on the sixteen.
\<close>

theorem an_ipv4_client_is_the_same_in_ipv6:
  assumes "parse_ipv4 a = Some v"
  shows "to_bytes (''::ffff:'' @ a) = Some v \<and> to_bytes a = Some v \<and>
    parse_ipv6 (''::ffff:'' @ a) = Some (mapped_ipv6 v) \<and>
    matches_ip_rule entry (''::ffff:'' @ a) = matches_ip_rule entry a"
proof -
  have "to_bytes (''::ffff:'' @ a) = Some v" by (rule to_bytes_mapped [OF assms])
  moreover have "to_bytes a = Some v" by (rule to_bytes_plain [OF assms])
  moreover have "parse_ipv6 (''::ffff:'' @ a) = Some (mapped_ipv6 v)" by (rule parse_ipv6_mapped [OF assms])
  ultimately show ?thesis by (simp only: matches_ip_rule_def simp_thms)
qed

lemma an_ipv4_client_is_the_same_in_ipv6_witness:
  "matches_ip_rule ''203.0.113.0/24'' (''::ffff:'' @ ''203.0.113.7'') = matches_ip_rule ''203.0.113.0/24'' ''203.0.113.7''"
proof -
  have "parse_ipv4 ''203.0.113.7'' = Some [203, 0, 113, 7]"
    by (simp add: parse_ipv4_def octet_of_def is_digit_def char_between_def parse_digits_def digit_value_def)
  from an_ipv4_client_is_the_same_in_ipv6 [OF this] show ?thesis by blast
qed

text \<open>A rule with a slash and no prefix is not refused as malformed: the prefix is read as nought, and
  the rule takes every IPv4 address.
\<close>

theorem a_rule_with_an_empty_prefix_takes_everyone:
  assumes "parse_ipv4 network = Some v" and "parse_ipv4 a = Some w"
  shows "matches_ip_rule (network @ ''/'') a"
proof -
  note c = parse_ipv4_chars [OF assms(1)]
  have sl: "CHR ''/'' \<notin> set network"
    using parse_ipv4_digits [OF assms(1), of "CHR ''/''"] by (auto simp: is_digit_def char_between_def)
  have trim: "js_trim (network @ ''/'') = network @ ''/''"
    using c(4) by (intro js_trim_id) (auto simp: js_space_def)
  have "split_on (CHR ''/'') (network @ CHR ''/'' # []) = network # split_on (CHR ''/'') []"
    by (rule split_on_append [OF sl])
  then have parts: "split_on (CHR ''/'') (network @ ''/'') = [network, []]" by simp
  have zero: "int_of_number (js_to_number []) = Some 0"
    by (simp add: js_to_number_def js_trim_def int_of_number_def)
  have "mapped_ipv4 network = None" by (rule mapped_ipv4_plain [OF assms(1)])
  then have "rule_network network (Some 0) = Some (v, Some 0)"
    using to_bytes_plain [OF assms(1)] js_trim_id [OF c(4)] by (simp add: rule_network_def)
  then have "parse_rule (network @ ''/'') = Some (v, 0)"
    using parse_ipv4_bytes [OF assms(1)] by (simp add: parse_rule_def trim parts zero)
  then show ?thesis
    using parse_ipv4_bytes [OF assms(1)] parse_ipv4_bytes [OF assms(2)] to_bytes_plain [OF assms(2)]
    by (simp add: matches_ip_rule_def bytes_match_def)
qed

lemma a_rule_with_an_empty_prefix_takes_everyone_witness:
  "matches_ip_rule (''10.0.0.0'' @ ''/'') ''8.8.8.8''"
  by (rule a_rule_with_an_empty_prefix_takes_everyone)
    (simp_all add: parse_ipv4_def octet_of_def is_digit_def char_between_def parse_digits_def digit_value_def)

end
