(* ===== verification/Flag_Evaluation.thy ===== *)
theory Flag_Evaluation
  imports Js_Strings Domain_Base "HOL-Library.Word"
begin

unbundle bit_operations_syntax

section \<open>Feature flags\<close>

text \<open>
  \<^verbatim>\<open>packages/shared/src/feature-flags/evaluate.ts\<close>, with the types of \<^verbatim>\<open>types.ts\<close>, the value check of
  \<^verbatim>\<open>catalog.ts\<close> and the split check of \<^verbatim>\<open>schema.ts\<close>: definition, configuration and context to a value. The
  hash works on \<open>32 word\<close>, where \<open>Math.imul\<close>, \<open>>>>\<close> and \<open>| 0\<close> are the word's own operations. A
  weight is an exact rational: the rounding of a product to a double is not modelled, which a weight in
  steps of a hundredth does not show.
\<close>

subsection \<open>The hash\<close>

text \<open>A character is below 256 here, so it encodes to one byte or two.\<close>

definition utf8_char :: "char \<Rightarrow> nat list" where
  "utf8_char c =
     (let code = of_char c :: nat in
      if code < 0x80 then [code]
      else [0xc0 OR drop_bit 6 code, 0x80 OR (code AND 0x3f)])"

definition utf8 :: "string \<Rightarrow> nat list" where
  "utf8 s = concat (map utf8_char s)"

definition byte_word :: "nat list \<Rightarrow> nat \<Rightarrow> 32 word" where
  "byte_word bytes i = word_of_nat (bytes ! i)"

definition murmur_k :: "32 word \<Rightarrow> 32 word" where
  "murmur_k k0 =
     (let k = k0 * 0xcc9e2d51; k = push_bit 15 k OR drop_bit 17 k in k * 0x1b873593)"

definition murmur_round :: "32 word \<Rightarrow> 32 word \<Rightarrow> 32 word" where
  "murmur_round h k =
     (let h = h XOR murmur_k k; h = push_bit 13 h OR drop_bit 19 h in h * 5 + 0xe6546b64)"

definition murmur_block :: "nat list \<Rightarrow> nat \<Rightarrow> 32 word" where
  "murmur_block bytes i =
     byte_word bytes i OR push_bit 8 (byte_word bytes (i + 1)) OR
     push_bit 16 (byte_word bytes (i + 2)) OR push_bit 24 (byte_word bytes (i + 3))"

text \<open>The loop over the whole blocks: \<open>i\<close> steps by four until it reaches \<open>blocks\<close>.\<close>

function murmur_loop :: "nat list \<Rightarrow> nat \<Rightarrow> nat \<Rightarrow> 32 word \<Rightarrow> 32 word" where
  "murmur_loop bytes blocks i h =
     (if i < blocks then murmur_loop bytes blocks (i + 4) (murmur_round h (murmur_block bytes i)) else h)"
  by pat_completeness auto
termination by (relation "measure (\<lambda>(bytes, blocks, i, h). blocks - i)") auto

declare murmur_loop.simps [simp del]

definition murmur_tail :: "nat list \<Rightarrow> nat \<Rightarrow> nat \<Rightarrow> 32 word \<Rightarrow> 32 word" where
  "murmur_tail bytes blocks tail h =
     (if tail = 0 then h
      else
        (let k = (if tail = 3 then push_bit 16 (byte_word bytes (blocks + 2)) else 0);
             k = (if 2 \<le> tail then k XOR push_bit 8 (byte_word bytes (blocks + 1)) else k);
             k = k XOR byte_word bytes blocks
         in h XOR murmur_k k))"

definition murmur_final :: "nat \<Rightarrow> 32 word \<Rightarrow> 32 word" where
  "murmur_final length0 h =
     (let h = h XOR word_of_nat length0; h = h XOR drop_bit 16 h; h = h * 0x85ebca6b;
          h = h XOR drop_bit 13 h; h = h * 0xc2b2ae35
      in h XOR drop_bit 16 h)"

definition murmur3 :: "string \<Rightarrow> 32 word \<Rightarrow> 32 word" where
  "murmur3 input seed =
     (let bytes = utf8 input; n = length bytes; blocks = n - n mod 4 in
      murmur_final n (murmur_tail bytes blocks (n mod 4) (murmur_loop bytes blocks 0 seed)))"

definition flag_buckets :: nat where
  "flag_buckets = 10000"

definition flag_bucket :: "string \<Rightarrow> string \<Rightarrow> string \<Rightarrow> nat" where
  "flag_bucket key salt unit =
     unat (murmur3 (key @ ''.'' @ salt @ ''.'' @ unit) 0) mod flag_buckets"

subsection \<open>Versions\<close>

definition parse_version_part :: "string \<Rightarrow> nat option" where
  "parse_version_part part = (if part \<noteq> [] \<and> list_all is_digit part then Some (parse_digits 10 part) else None)"

definition parse_version :: "string \<Rightarrow> nat list option" where
  "parse_version version =
     (let trimmed = js_trim version;
          bare = (if take 1 trimmed = ''v'' then drop 1 trimmed else trimmed);
          core = takeWhile (\<lambda>c. c \<noteq> CHR ''-'' \<and> c \<noteq> CHR ''+'') bare;
          parts = split_on (CHR ''.'') core
      in if 3 < length parts then None
         else map_option (\<lambda>numbers. numbers @ replicate (3 - length numbers) 0) (those_map parse_version_part parts))"

fun compare_parts :: "nat list \<Rightarrow> nat list \<Rightarrow> int" where
  "compare_parts (l # ls) (r # rs) = (if l \<noteq> r then sgn (int l - int r) else compare_parts ls rs)"
| "compare_parts _ _ = 0"

definition compare_semver :: "string \<Rightarrow> string \<Rightarrow> int option" where
  "compare_semver a b =
     (case (parse_version a, parse_version b) of
        (Some l, Some r) \<Rightarrow> Some (compare_parts l r)
      | _ \<Rightarrow> None)"

subsection \<open>Definitions, targeting and context\<close>

datatype flag_value = Flag_bool bool | Flag_variant string

datatype flag_bucket_unit = By_organization | By_user

datatype flag_type = Boolean_flag bool | Variant_flag "string list" string

record flag_definition =
  flag_type_of :: flag_type
  flag_bucket_by :: "flag_bucket_unit option"

definition default_value :: "flag_definition \<Rightarrow> flag_value" where
  "default_value d = (case flag_type_of d of Boolean_flag b \<Rightarrow> Flag_bool b | Variant_flag vs v \<Rightarrow> Flag_variant v)"

definition is_valid_flag_value :: "flag_definition \<Rightarrow> flag_value \<Rightarrow> bool" where
  "is_valid_flag_value d v =
     (case flag_type_of d of
        Boolean_flag _ \<Rightarrow> (case v of Flag_bool _ \<Rightarrow> True | Flag_variant _ \<Rightarrow> False)
      | Variant_flag vs _ \<Rightarrow> (case v of Flag_bool _ \<Rightarrow> False | Flag_variant s \<Rightarrow> s \<in> set vs))"

datatype flag_attribute =
    Attr_user_id | Attr_organization_id | Attr_email | Attr_platform_role | Attr_platform | Attr_app_version
  | Attr_segment

datatype flag_operator = Op_in | Op_not_in | Op_ends_with | Op_semver_gte | Op_semver_lt

record flag_condition =
  condition_attribute :: flag_attribute
  condition_operator :: flag_operator
  condition_values :: "string list"

record flag_arm =
  arm_value :: flag_value
  arm_weight :: rat

datatype flag_serve = Serve_value flag_value | Serve_split "flag_arm list"

record flag_rule =
  rule_id :: string
  rule_conditions :: "flag_condition list"
  rule_serve :: flag_serve

record flag_config =
  config_enabled :: bool
  config_rules :: "flag_rule list"
  config_fallthrough :: flag_serve
  config_salt :: string

record flag_context =
  context_user_id :: "string option"
  context_organization_id :: "string option"
  context_email :: "string option"
  context_platform_role :: "string option"
  context_platform :: "string option"
  context_app_version :: "string option"

type_synonym flag_segments = "string \<rightharpoonup> flag_condition list"

datatype flag_reason =
  Reason_default | Reason_disabled | Reason_targeting_match | Reason_split | Reason_fallthrough | Reason_error

record flag_evaluation =
  evaluation_value :: flag_value
  evaluation_reason :: flag_reason
  evaluation_rule :: "string option"

subsection \<open>Conditions\<close>

fun attribute_value :: "flag_context \<Rightarrow> flag_attribute \<Rightarrow> string option" where
  "attribute_value c Attr_user_id = context_user_id c"
| "attribute_value c Attr_organization_id = context_organization_id c"
| "attribute_value c Attr_email = context_email c"
| "attribute_value c Attr_platform_role = context_platform_role c"
| "attribute_value c Attr_platform = context_platform c"
| "attribute_value c Attr_app_version = context_app_version c"
| "attribute_value c Attr_segment = None"

definition attribute_of :: "flag_context \<Rightarrow> flag_attribute \<Rightarrow> string option" where
  "attribute_of context0 attribute =
     (case attribute_value context0 attribute of
        None \<Rightarrow> None
      | Some [] \<Rightarrow> None
      | Some v \<Rightarrow> Some (if attribute = Attr_email then js_lower v else v))"

definition ends_with :: "string \<Rightarrow> string \<Rightarrow> bool" where
  "ends_with s suffix = (length suffix \<le> length s \<and> drop (length s - length suffix) s = suffix)"

text \<open>A condition on an attribute of the caller.\<close>

definition matches_attribute :: "flag_condition \<Rightarrow> flag_context \<Rightarrow> bool" where
  "matches_attribute condition context0 =
     (let actual = attribute_of context0 (condition_attribute condition);
          values = (if condition_attribute condition = Attr_email then map js_lower (condition_values condition)
                    else condition_values condition)
      in case condition_operator condition of
           Op_in \<Rightarrow> (case actual of None \<Rightarrow> False | Some a \<Rightarrow> a \<in> set values)
         | Op_not_in \<Rightarrow> (case actual of None \<Rightarrow> True | Some a \<Rightarrow> a \<notin> set values)
         | Op_ends_with \<Rightarrow> (case actual of None \<Rightarrow> False | Some a \<Rightarrow> list_ex (ends_with a) values)
         | op \<Rightarrow>
             (case (actual, values) of
                (Some a, target # _) \<Rightarrow>
                  (case compare_semver a target of
                     None \<Rightarrow> False
                   | Some order \<Rightarrow> if op = Op_semver_gte then 0 \<le> order else order < 0)
              | _ \<Rightarrow> False))"

text \<open>\<open>matchesCondition\<close>; \<open>depth\<close> is 1 where a segment may be named and 0 inside one.\<close>

fun matches_condition :: "nat \<Rightarrow> flag_condition \<Rightarrow> flag_context \<Rightarrow> flag_segments \<Rightarrow> bool" where
  "matches_condition depth condition context0 segments =
     (if condition_attribute condition = Attr_segment then
        (case depth of
           0 \<Rightarrow> False
         | Suc d \<Rightarrow>
             (let in_any = list_ex (\<lambda>key. case segments key of None \<Rightarrow> False
                    | Some inner \<Rightarrow> list_all (\<lambda>c. matches_condition d c context0 segments) inner)
                    (condition_values condition)
              in if condition_operator condition = Op_in then in_any
                 else if condition_operator condition = Op_not_in then \<not> in_any
                 else False))
      else matches_attribute condition context0)"

declare matches_condition.simps [simp del]

subsection \<open>Splits\<close>

definition arm_width :: "rat \<Rightarrow> int" where
  "arm_width weight = \<lfloor>weight * (of_nat flag_buckets / 100) + 1 / 2\<rfloor>"

fun pick_arm_from :: "int \<Rightarrow> flag_arm list \<Rightarrow> nat \<Rightarrow> flag_value option" where
  "pick_arm_from edge [] bucket = None"
| "pick_arm_from edge (arm # arms) bucket =
     (let edge = edge + arm_width (arm_weight arm) in
      if int bucket < edge then Some (arm_value arm) else pick_arm_from edge arms bucket)"

definition pick_arm :: "flag_arm list \<Rightarrow> nat \<Rightarrow> flag_value option" where
  "pick_arm split bucket = pick_arm_from 0 split bucket"

definition bucket_unit_of :: "flag_definition \<Rightarrow> flag_context \<Rightarrow> string option" where
  "bucket_unit_of d context0 =
     (let unit = (if flag_bucket_by d = Some By_user then context_user_id context0
                  else (case context_organization_id context0 of Some i \<Rightarrow> Some i | None \<Rightarrow> context_user_id context0))
      in if truthy unit then unit else None)"

text \<open>What the write schema takes for a split: weights in hundredths of a per cent that fill the buckets.\<close>

definition split_accepted :: "flag_arm list \<Rightarrow> bool" where
  "split_accepted split =
     (1 \<le> length split \<and> length split \<le> 10 \<and>
      list_all (\<lambda>arm. 0 \<le> arm_weight arm \<and> arm_weight arm \<le> 100 \<and>
        \<bar>of_int (arm_width (arm_weight arm)) - arm_weight arm * (of_nat flag_buckets / 100)\<bar> < 1 / 1000000) split \<and>
      foldl (\<lambda>s arm. s + arm_width (arm_weight arm)) 0 split = int flag_buckets)"

subsection \<open>Evaluation\<close>

definition off_value_of :: "flag_definition \<Rightarrow> flag_value" where
  "off_value_of d = (case flag_type_of d of Boolean_flag _ \<Rightarrow> Flag_bool False | Variant_flag _ _ \<Rightarrow> default_value d)"

definition fallback :: "flag_definition \<Rightarrow> flag_reason \<Rightarrow> string option \<Rightarrow> flag_evaluation" where
  "fallback d reason rule =
     \<lparr>evaluation_value = default_value d, evaluation_reason = reason,
      evaluation_rule = (if truthy rule then rule else None)\<rparr>"

definition checked :: "flag_definition \<Rightarrow> flag_value \<Rightarrow> flag_reason \<Rightarrow> string option \<Rightarrow> flag_evaluation" where
  "checked d v reason rule =
     (if \<not> is_valid_flag_value d v then fallback d Reason_error rule
      else \<lparr>evaluation_value = v, evaluation_reason = reason, evaluation_rule = (if truthy rule then rule else None)\<rparr>)"

definition serve ::
  "string \<Rightarrow> flag_definition \<Rightarrow> string \<Rightarrow> flag_context \<Rightarrow> flag_serve \<Rightarrow> flag_reason \<Rightarrow> string option \<Rightarrow> flag_evaluation" where
  "serve key d salt context0 target matched rule =
     (case target of
        Serve_split split \<Rightarrow>
          (case bucket_unit_of d context0 of
             None \<Rightarrow> fallback d Reason_default rule
           | Some unit \<Rightarrow>
               (case pick_arm split (flag_bucket key salt unit) of
                  None \<Rightarrow> fallback d Reason_error rule
                | Some v \<Rightarrow> checked d v Reason_split rule))
      | Serve_value v \<Rightarrow> checked d v matched rule)"

definition rule_matches :: "flag_context \<Rightarrow> flag_segments \<Rightarrow> flag_rule \<Rightarrow> bool" where
  "rule_matches context0 segments rule =
     list_all (\<lambda>c. matches_condition 1 c context0 segments) (rule_conditions rule)"

definition evaluate_flag ::
  "string \<Rightarrow> flag_definition \<Rightarrow> flag_config option \<Rightarrow> flag_context \<Rightarrow> flag_segments \<Rightarrow> flag_evaluation" where
  "evaluate_flag key d config context0 segments =
     (case config of
        None \<Rightarrow> fallback d Reason_default None
      | Some cfg \<Rightarrow>
          if \<not> config_enabled cfg
          then \<lparr>evaluation_value = off_value_of d, evaluation_reason = Reason_disabled, evaluation_rule = None\<rparr>
          else (case find (rule_matches context0 segments) (config_rules cfg) of
                  Some rule \<Rightarrow>
                    serve key d (config_salt cfg) context0 (rule_serve rule) Reason_targeting_match (Some (rule_id rule))
                | None \<Rightarrow> serve key d (config_salt cfg) context0 (config_fallthrough cfg) Reason_fallthrough None))"

subsection \<open>The hash against its reference\<close>

text \<open>First, the loop over an index and the masks of the length are a walk down the list of bytes, four at a time.\<close>

definition word_le :: "nat \<Rightarrow> nat \<Rightarrow> nat \<Rightarrow> nat \<Rightarrow> 32 word" where
  "word_le a b c d =
     word_of_nat a OR push_bit 8 (word_of_nat b) OR push_bit 16 (word_of_nat c) OR push_bit 24 (word_of_nat d)"

fun murmur_list :: "nat list \<Rightarrow> 32 word \<Rightarrow> 32 word" where
  "murmur_list (a # b # c # d # rest) h = murmur_list rest (murmur_round h (word_le a b c d))"
| "murmur_list [a, b, c] h =
     h XOR murmur_k (push_bit 16 (word_of_nat c) XOR push_bit 8 (word_of_nat b) XOR word_of_nat a)"
| "murmur_list [a, b] h = h XOR murmur_k (push_bit 8 (word_of_nat b) XOR word_of_nat a)"
| "murmur_list [a] h = h XOR murmur_k (word_of_nat a)"
| "murmur_list [] h = h"

lemma murmur_list_drop:
  assumes "i + 4 \<le> length bytes"
  shows "murmur_list (drop i bytes) h = murmur_list (drop (i + 4) bytes) (murmur_round h (murmur_block bytes i))"
proof -
  have "drop i bytes = bytes ! i # bytes ! (i + 1) # bytes ! (i + 2) # bytes ! (i + 3) # drop (i + 4) bytes"
    using assms by (simp add: Cons_nth_drop_Suc [symmetric] eval_nat_numeral)
  then show ?thesis by (simp add: murmur_block_def word_le_def byte_word_def)
qed

lemma murmur_loop_list:
  assumes "blocks \<le> length bytes" "i \<le> blocks" "4 dvd blocks - i"
  shows "murmur_list (drop i bytes) h = murmur_list (drop blocks bytes) (murmur_loop bytes blocks i h)"
  using assms
proof (induction bytes blocks i h rule: murmur_loop.induct)
  case (1 bytes blocks i h)
  show ?case
  proof (cases "i < blocks")
    case True
    then have "i + 4 \<le> blocks" using 1(4) by presburger
    moreover have "4 dvd blocks - (i + 4)" using 1(4) by (metis diff_diff_add dvd_diff_nat dvd_refl)
    ultimately show ?thesis
      using 1(1) [OF True 1(2)] murmur_list_drop [of i bytes h] 1(2) True
      by (simp add: murmur_loop.simps [of bytes blocks i h])
  next
    case False
    then have "i = blocks" using 1(3) by simp
    then show ?thesis by (simp add: murmur_loop.simps)
  qed
qed

lemma drop_tail_cases:
  assumes "n = length bytes" "b = n - n mod 4"
  shows "drop b bytes = map (\<lambda>j. bytes ! (b + j)) [0..<n mod 4]"
  using assms by (intro nth_equalityI) simp_all

lemma murmur_tail_list:
  assumes "n = length bytes" "b = n - n mod 4"
  shows "murmur_tail bytes b (n mod 4) h = murmur_list (drop b bytes) h"
proof -
  have "n mod 4 = 0 \<or> n mod 4 = 1 \<or> n mod 4 = 2 \<or> n mod 4 = 3" by arith
  moreover have "[0..<0] = ([] :: nat list)" "[0..<1] = [0 :: nat]" "[0..<2] = [0, 1 :: nat]" "[0..<3] = [0, 1, 2 :: nat]"
    by code_simp+
  ultimately show ?thesis
    unfolding drop_tail_cases [OF assms]
    by (elim disjE) (simp_all only: murmur_tail_def byte_word_def list.map Let_def murmur_list.simps, simp_all add: xor.assoc)
qed

lemma murmur3_list: "murmur3 input seed = murmur_final (length (utf8 input)) (murmur_list (utf8 input) seed)"
proof -
  let ?b = "utf8 input" and ?n = "length (utf8 input)"
  have "murmur_list (drop 0 ?b) seed = murmur_list (drop (?n - ?n mod 4) ?b) (murmur_loop ?b (?n - ?n mod 4) 0 seed)"
    by (rule murmur_loop_list) (simp_all add: minus_mod_eq_mult_div)
  then show ?thesis
    by (simp add: murmur3_def murmur_tail_list [OF refl refl] Let_def)
qed

subsection \<open>The published hash\<close>

text \<open>
  MurmurHash3 x86 32 as it is published, on natural numbers and with none of the code's words, shifts or
  helpers: products and rotations modulo \<open>2 ^ 32\<close>, four bytes read as one little-endian number, the one to
  three bytes that are left scrambled into the hash, the length, and the avalanche.
\<close>

definition rotated_left :: "nat \<Rightarrow> nat \<Rightarrow> nat" where
  "rotated_left r x = (x * 2 ^ r) mod 2 ^ 32 + x div 2 ^ (32 - r)"

definition times32 :: "nat \<Rightarrow> nat \<Rightarrow> nat" where
  "times32 a b = (a * b) mod 2 ^ 32"

definition reference_scramble :: "nat \<Rightarrow> nat" where
  "reference_scramble k = times32 (rotated_left 15 (times32 k 0xcc9e2d51)) 0x1b873593"

definition reference_mix :: "nat \<Rightarrow> nat \<Rightarrow> nat" where
  "reference_mix h k = (rotated_left 13 (h XOR reference_scramble k) * 5 + 0xe6546b64) mod 2 ^ 32"

definition reference_avalanche :: "nat \<Rightarrow> nat" where
  "reference_avalanche h =
     (let a = times32 (h XOR h div 2 ^ 16) 0x85ebca6b;
          b = times32 (a XOR a div 2 ^ 13) 0xc2b2ae35
      in b XOR b div 2 ^ 16)"

definition little_endian :: "nat list \<Rightarrow> nat" where
  "little_endian bytes = foldr (\<lambda>b v. b + 256 * v) bytes 0"

fun reference_body :: "nat list \<Rightarrow> nat \<Rightarrow> nat" where
  "reference_body (a # b # c # d # rest) h = reference_body rest (reference_mix h (little_endian [a, b, c, d]))"
| "reference_body rest h = h XOR reference_scramble (little_endian rest)"

definition murmur3_x86_32 :: "nat list \<Rightarrow> nat \<Rightarrow> nat" where
  "murmur3_x86_32 bytes seed = reference_avalanche (reference_body bytes seed XOR length bytes mod 2 ^ 32)"

definition reference_utf8 :: "string \<Rightarrow> nat list" where
  "reference_utf8 s =
     concat (map (\<lambda>n :: nat. if n < 128 then [n] else [192 + n div 64, 128 + n mod 64]) (map of_char s))"

text \<open>Values the hash is published with: of no byte, of \<open>test\<close> and of \<open>Hello, world!\<close>, under several seeds.\<close>

lemma published_values:
  "murmur3_x86_32 [] 0 = 0" "murmur3_x86_32 [] 1 = 0x514e28b7" "murmur3_x86_32 [] 0xffffffff = 0x81f16f39"
  "murmur3_x86_32 [116, 101, 115, 116] 0 = 0xba6bd213"
  "murmur3_x86_32 [116, 101, 115, 116] 0x9747b28c = 0x704b81dc"
  "murmur3_x86_32 [72, 101, 108, 108, 111, 44, 32, 119, 111, 114, 108, 100, 33] 0x9747b28c = 0x24884cba"
  by (simp_all add: murmur3_x86_32_def reference_avalanche_def reference_mix_def reference_scramble_def
      times32_def rotated_left_def little_endian_def Let_def)

lemma nat_join:
  fixes a b :: nat
  assumes "a < 2 ^ r"
  shows "a OR push_bit r b = a + 2 ^ r * b" "a XOR push_bit r b = a + 2 ^ r * b"
proof -
  have none: "a AND push_bit r b = 0"
  proof (rule bit_eqI)
    fix n
    have "take_bit r a = a" using assms by (rule take_bit_nat_eq_self)
    then have "bit a n \<Longrightarrow> n < r" by (metis bit_take_bit_iff)
    then show "bit (a AND push_bit r b) n \<longleftrightarrow> bit 0 n" by (auto simp: bit_simps)
  qed
  show "a OR push_bit r b = a + 2 ^ r * b" "a XOR push_bit r b = a + 2 ^ r * b"
    using disjunctive_add_eq_or [OF none] disjunctive_add_eq_xor [OF none]
    by (simp_all add: push_bit_eq_mult mult.commute)
qed

lemma unat_rotated:
  fixes w :: "32 word"
  assumes "0 < r" "r < 32"
  shows "unat (push_bit r w OR drop_bit (32 - r) w) = rotated_left r (unat w)"
proof -
  have w: "unat w < 2 ^ 32" using unsigned_less [of w] by simp
  have "unat (push_bit r w OR drop_bit (32 - r) w) = take_bit 32 (push_bit r (unat w)) OR drop_bit (32 - r) (unat w)"
    using w by (simp add: unsigned_or_eq unsigned_push_bit_eq unsigned_drop_bit_eq take_bit_nat_eq_self)
  also have "take_bit 32 (push_bit r (unat w)) = push_bit r (take_bit (32 - r) (unat w))"
    using assms by (simp add: take_bit_push_bit)
  also have "push_bit r (take_bit (32 - r) (unat w)) OR drop_bit (32 - r) (unat w) =
      drop_bit (32 - r) (unat w) + 2 ^ r * take_bit (32 - r) (unat w)"
  proof (subst or.commute, rule nat_join)
    have "unat w < 2 ^ r * 2 ^ (32 - r)" using w assms by (simp flip: power_add)
    then show "drop_bit (32 - r) (unat w) < 2 ^ r" by (simp add: drop_bit_eq_div less_mult_imp_div_less)
  qed
  also have "2 ^ r * take_bit (32 - r) (unat w) = (unat w * 2 ^ r) mod 2 ^ 32"
  proof -
    have "(2::nat) ^ 32 = 2 ^ (32 - r) * 2 ^ r" using assms by (simp flip: power_add)
    then show ?thesis by (simp only: take_bit_eq_mod mult_mod_right mult.commute [of _ "2 ^ r"])
  qed
  finally show ?thesis by (simp add: rotated_left_def drop_bit_eq_div)
qed

lemma unat_times32: "unat (a * b :: 32 word) = times32 (unat a) (unat b)"
  by (simp add: times32_def unat_word_ariths)

lemma scramble_reference: "unat (murmur_k k) = reference_scramble (unat k)"
  using unat_rotated [of 15 "k * 0xcc9e2d51"]
  by (simp add: murmur_k_def reference_scramble_def Let_def unat_times32)

lemma last_reference: "unat (h XOR murmur_k k) = unat h XOR reference_scramble (unat k)"
  by (simp add: unsigned_xor_eq scramble_reference)

lemma mix_reference: "unat (murmur_round h k) = reference_mix (unat h) (unat k)"
  using unat_rotated [of 13 "h XOR murmur_k k"]
  by (simp add: murmur_round_def reference_mix_def Let_def unat_word_ariths unsigned_xor_eq scramble_reference mod_simps)

lemma avalanche_reference: "unat (murmur_final n h) = reference_avalanche (unat h XOR n mod 2 ^ 32)"
  by (simp add: murmur_final_def reference_avalanche_def Let_def unat_times32 unsigned_xor_eq unsigned_drop_bit_eq
      drop_bit_eq_div unat_of_nat unat_div)

lemma little_endian_word:
  assumes "a < 256"
  shows "b < 256 \<Longrightarrow> c < 256 \<Longrightarrow> d < 256 \<Longrightarrow> unat (word_le a b c d) = little_endian [a, b, c, d]"
    "b < 256 \<Longrightarrow> c < 256 \<Longrightarrow>
       unat (push_bit 16 (word_of_nat c) XOR push_bit 8 (word_of_nat b) XOR word_of_nat a :: 32 word) = little_endian [a, b, c]"
    "b < 256 \<Longrightarrow> unat (push_bit 8 (word_of_nat b) XOR word_of_nat a :: 32 word) = little_endian [a, b]"
    "unat (word_of_nat a :: 32 word) = little_endian [a]"
proof -
  have four: "word_le a b c d = word_of_nat (a OR push_bit 8 (b OR push_bit 8 (c OR push_bit 8 d)))"
    by (simp add: word_le_def of_nat_or_eq of_nat_push_bit push_bit_or)
  have three: "push_bit 16 (word_of_nat c) XOR push_bit 8 (word_of_nat b) XOR word_of_nat a =
      (word_of_nat (a XOR push_bit 8 (b XOR push_bit 8 c)) :: 32 word)"
    by (simp add: of_nat_xor_eq of_nat_push_bit push_bit_xor ac_simps)
  have two: "push_bit 8 (word_of_nat b) XOR word_of_nat a = (word_of_nat (a XOR push_bit 8 b) :: 32 word)"
    by (simp add: of_nat_xor_eq of_nat_push_bit xor.commute)
  have join: "x OR push_bit 8 y = x + 256 * y" "x XOR push_bit 8 y = x + 256 * y" if "x < 256" for x y :: nat
    using nat_join [of x 8 y] that by simp_all
  have small: "unat (word_of_nat n :: 32 word) = n" if "n < 4294967296" for n
    using that by (simp add: unat_of_nat)
  show "unat (word_le a b c d) = little_endian [a, b, c, d]" if "b < 256" "c < 256" "d < 256"
    using assms that small [of "a + 256 * (b + 256 * (c + 256 * d))"] by (simp only: four join) (simp add: little_endian_def)
  show "unat (push_bit 16 (word_of_nat c) XOR push_bit 8 (word_of_nat b) XOR word_of_nat a :: 32 word) = little_endian [a, b, c]"
    if "b < 256" "c < 256"
    using assms that small [of "a + 256 * (b + 256 * c)"] by (simp only: three join) (simp add: little_endian_def)
  show "unat (push_bit 8 (word_of_nat b) XOR word_of_nat a :: 32 word) = little_endian [a, b]" if "b < 256"
    using assms that small [of "a + 256 * b"] by (simp only: two join) (simp add: little_endian_def)
  show "unat (word_of_nat a :: 32 word) = little_endian [a]"
    using assms by (simp add: little_endian_def unat_of_nat)
qed

lemma body_reference:
  "list_all (\<lambda>b. b < 256) bytes \<Longrightarrow> unat (murmur_list bytes h) = reference_body bytes (unat h)"
proof (induction bytes h rule: murmur_list.induct)
  case (5 h)
  show ?case by (simp add: little_endian_def reference_scramble_def times32_def rotated_left_def)
qed (simp_all only: murmur_list.simps reference_body.simps list.pred_inject simp_thms little_endian_word mix_reference
  last_reference)

lemma utf8_reference: "utf8 s = reference_utf8 s" "list_all (\<lambda>b. b < 256) (utf8 s)"
proof -
  have one: "utf8_char c = (if n < 128 then [n] else [192 + n div 64, 128 + n mod 64])" if "n = of_char c" "n < 256" for c and n :: nat
  proof -
    have "n div 64 < 4" using that(2) by simp
    then have "n div 64 OR push_bit 6 3 = n div 64 + 192" "n mod 64 OR push_bit 6 2 = n mod 64 + 128"
      using nat_join [of "n div 64" 6 3] nat_join [of "n mod 64" 6 2] by simp_all
    moreover have "n AND 63 = n mod 64" 
      using take_bit_eq_mask [of 6 n] by (simp add: take_bit_eq_mod mask_eq_exp_minus_1)
    ultimately show ?thesis using that(1)
      by (simp add: utf8_char_def Let_def drop_bit_eq_div or.commute)
  qed
  show "utf8 s = reference_utf8 s"
    unfolding utf8_def reference_utf8_def map_map comp_def
    by (rule arg_cong [where f = concat], rule map_cong [OF refl], rule one [OF refl nat_of_char_less_256])
  show "list_all (\<lambda>b. b < 256) (utf8 s)"
    unfolding utf8_def list_all_iff
  proof
    fix b assume "b \<in> set (concat (map utf8_char s))"
    then obtain c where c: "b \<in> set (utf8_char c)" by auto
    have "of_char c div 64 < (4 :: nat)" using nat_of_char_less_256 [of c] by linarith
    then show "b < 256" using c one [OF refl nat_of_char_less_256, of c] by (auto split: if_splits)
  qed
qed

lemma murmur3_reference: "unat (murmur3 input seed) = murmur3_x86_32 (reference_utf8 input) (unat seed)"
  by (simp add: murmur3_list murmur3_x86_32_def avalanche_reference body_reference utf8_reference(2))
    (simp add: utf8_reference(1))

lemma flag_bucket_bound: "flag_bucket key salt unit < 10000"
  by (simp add: flag_bucket_def flag_buckets_def)

subsection \<open>Versions are ordered\<close>

lemma parse_version_length: "parse_version v = Some ns \<Longrightarrow> length ns = 3"
  by (auto simp: parse_version_def Let_def split: if_splits dest: those_map_Some_length)

lemma compare_parts_order:
  "length ls = length rs \<Longrightarrow> compare_parts ls rs = (if ls < rs then - 1 else if ls = rs then 0 else 1)"
  by (induction ls rs rule: compare_parts.induct) (auto simp: sgn_if)

subsection \<open>A split covers the buckets\<close>

definition total_width :: "flag_arm list \<Rightarrow> int" where
  "total_width arms = sum_list (map (\<lambda>arm. arm_width (arm_weight arm)) arms)"

lemma total_width_simps [simp]:
  "total_width [] = 0" "total_width (a # as) = arm_width (arm_weight a) + total_width as"
  by (simp_all add: total_width_def)

lemma foldl_width: "foldl (\<lambda>s arm. s + arm_width (arm_weight arm)) e arms = e + total_width arms"
  by (induction arms arbitrary: e) simp_all

lemma arm_width_mono: "w \<le> w' \<Longrightarrow> arm_width w \<le> arm_width w'"
  unfolding arm_width_def by (intro floor_mono) (simp add: mult_right_mono)

lemma arm_width_nonneg: "0 \<le> w \<Longrightarrow> 0 \<le> arm_width w"
  using arm_width_mono [of 0 w] by (simp add: arm_width_def)

lemma pick_arm_from_cover:
  assumes "e \<le> int b" "int b < e + total_width arms"
  shows "\<exists>i < length arms. pick_arm_from e arms b = Some (arm_value (arms ! i)) \<and>
    e + total_width (take i arms) \<le> int b \<and> int b < e + total_width (take (Suc i) arms)"
  using assms
proof (induction arms arbitrary: e)
  case (Cons a arms)
  let ?e = "e + arm_width (arm_weight a)"
  show ?case
  proof (cases "int b < ?e")
    case True
    then show ?thesis using Cons.prems(1) by (intro exI [of _ 0]) simp
  next
    case False
    have "int b < ?e + total_width arms" using Cons.prems(2) by simp
    from Cons.IH [OF _ this] False obtain i where "i < length arms"
      "pick_arm_from ?e arms b = Some (arm_value (arms ! i))"
      "?e + total_width (take i arms) \<le> int b" "int b < ?e + total_width (take (Suc i) arms)" by auto
    with False show ?thesis by (intro exI [of _ "Suc i"]) (simp add: Let_def)
  qed
qed simp

lemma pick_arm_from_value: "pick_arm_from e arms b = Some v \<Longrightarrow> v \<in> arm_value ` set arms"
  by (induction arms arbitrary: e) (auto simp: Let_def split: if_splits)

lemma pick_arm_grows:
  assumes "pick_arm (\<lparr>arm_value = v, arm_weight = w\<rparr> # rest) b = Some v" "v \<notin> arm_value ` set rest" "w \<le> w'"
  shows "pick_arm (\<lparr>arm_value = v, arm_weight = w'\<rparr> # rest') b = Some v"
proof -
  have "int b < arm_width w"
    using assms(1,2) pick_arm_from_value by (fastforce simp: pick_arm_def Let_def split: if_splits)
  with arm_width_mono [OF assms(3)] show ?thesis by (simp add: pick_arm_def)
qed

subsection \<open>What is served\<close>

lemma checked_valid: "is_valid_flag_value d (default_value d) \<Longrightarrow> is_valid_flag_value d (evaluation_value (checked d v r i))"
  by (simp add: checked_def fallback_def)

lemma serve_valid:
  "is_valid_flag_value d (default_value d) \<Longrightarrow>
   is_valid_flag_value d (evaluation_value (serve key d salt context0 target matched rule))"
  by (auto simp: serve_def checked_valid fallback_def split: flag_serve.split option.split)

lemma off_value_valid: "is_valid_flag_value d (default_value d) \<Longrightarrow> is_valid_flag_value d (off_value_of d)"
  by (auto simp: off_value_of_def is_valid_flag_value_def default_value_def split: flag_type.splits)

end
