(* ===== verification/Flag_Properties.thy ===== *)
theory Flag_Properties
  imports Flag_Evaluation
begin

section \<open>Properties of the flag evaluator\<close>

text \<open>C33: Whatever the targeting says, a malformed one included, the value served is one the flag declares:
  a boolean for a boolean flag, one of the variants for the other kind.
\<close>

theorem a_flag_serves_only_its_own_values:
  assumes "is_valid_flag_value d (default_value d)"
  shows "is_valid_flag_value d (evaluation_value (evaluate_flag key d config context0 segments))"
proof (cases config)
  case None
  then show ?thesis using assms by (simp add: evaluate_flag_def fallback_def)
next
  case (Some cfg)
  then show ?thesis using assms
    by (simp add: evaluate_flag_def off_value_valid serve_valid split: option.split)
qed

definition color_flag :: flag_definition where
  "color_flag = \<lparr>flag_type_of = Variant_flag [''grey'', ''blue''] ''grey'', flag_bucket_by = None\<rparr>"

lemma a_flag_serves_only_its_own_values_witness:
  "is_valid_flag_value color_flag (evaluation_value (evaluate_flag ''color'' color_flag
     (Some \<lparr>config_enabled = True, config_rules = [], config_fallthrough = Serve_value (Flag_variant ''red''),
            config_salt = ''s''\<rparr>)
     \<lparr>context_user_id = None, context_organization_id = None, context_email = None, context_platform_role = None,
      context_platform = None, context_app_version = None\<rparr> Map.empty))"
  by (rule a_flag_serves_only_its_own_values)
    (simp add: color_flag_def is_valid_flag_value_def default_value_def)

text \<open>C35: A rollout only grows. Take the split everyone falls through to, and let the value of its first
  arm be no other arm's. When that arm is given no less weight, the other arms become whatever they
  may, and the rules, the salt and the rest of the configuration stay, then every caller whom a split
  served that value is served it still, with the same reason and by the same rule.
\<close>

theorem a_growing_rollout_takes_nothing_away:
  assumes "evaluate_flag key d (Some (cfg\<lparr>config_fallthrough := Serve_split (\<lparr>arm_value = v, arm_weight = w\<rparr> # rest)\<rparr>))
      context0 segments = e"
    and "evaluation_value e = v" and "evaluation_reason e = Reason_split"
    and "v \<notin> arm_value ` set rest" and "w \<le> w'"
  shows "evaluate_flag key d (Some (cfg\<lparr>config_fallthrough := Serve_split (\<lparr>arm_value = v, arm_weight = w'\<rparr> # rest')\<rparr>))
      context0 segments = e"
proof (cases "config_enabled cfg \<and> find (rule_matches context0 segments) (config_rules cfg) = None")
  case False
  then show ?thesis using assms(1) by (auto simp: evaluate_flag_def split: option.split)
next
  case True
  let ?s = "\<lambda>w rest. serve key d (config_salt cfg) context0 (Serve_split (\<lparr>arm_value = v, arm_weight = w\<rparr> # rest)) Reason_fallthrough None"
  have e: "?s w rest = e" using assms(1) True by (simp add: evaluate_flag_def)
  obtain unit where u: "bucket_unit_of d context0 = Some unit"
    using e assms(3) by (auto simp: serve_def fallback_def split: option.splits)
  let ?b = "flag_bucket key (config_salt cfg) unit"
  obtain x where x: "pick_arm (\<lparr>arm_value = v, arm_weight = w\<rparr> # rest) ?b = Some x"
    using e assms(3) u by (auto simp: serve_def fallback_def split: option.splits)
  then have c: "checked d x Reason_split None = e" using e u by (simp add: serve_def)
  then have "x = v" using assms(2,3) by (auto simp: checked_def fallback_def split: if_splits)
  then have "pick_arm (\<lparr>arm_value = v, arm_weight = w'\<rparr> # rest') ?b = Some v"
    using pick_arm_grows x assms(4,5) by blast
  then have "?s w' rest' = e" using c u \<open>x = v\<close> by (simp add: serve_def)
  then show ?thesis using True by (simp add: evaluate_flag_def)
qed

definition new_flag :: flag_definition where
  "new_flag = \<lparr>flag_type_of = Boolean_flag True, flag_bucket_by = Some By_user\<rparr>"

definition first_person :: flag_context where
  "first_person = \<lparr>context_user_id = Some ''u1'', context_organization_id = None, context_email = None,
     context_platform_role = None, context_platform = None, context_app_version = None\<rparr>"

definition new_config :: flag_config where
  "new_config = \<lparr>config_enabled = True, config_rules = [], config_fallthrough = Serve_value (Flag_bool False),
     config_salt = ''s''\<rparr>"

lemma first_bucket: "flag_bucket ''new'' ''s'' ''u1'' = 110"
proof -
  have "murmur3 ''new.s.u1'' 0 = 1784040110" by code_simp
  then show ?thesis by (simp add: flag_bucket_def flag_buckets_def)
qed

lemma first_arm: "\<lfloor>2001 / 2 :: rat\<rfloor> = 1000"
  by (rule floor_unique) simp_all

lemma a_growing_rollout_takes_nothing_away_witness:
  "evaluate_flag ''new'' new_flag (Some (new_config\<lparr>config_fallthrough :=
       Serve_split [\<lparr>arm_value = Flag_bool True, arm_weight = 25\<rparr>, \<lparr>arm_value = Flag_bool False, arm_weight = 75\<rparr>]\<rparr>))
     first_person Map.empty =
   \<lparr>evaluation_value = Flag_bool True, evaluation_reason = Reason_split, evaluation_rule = None\<rparr>"
proof (rule a_growing_rollout_takes_nothing_away)
  show "evaluate_flag ''new'' new_flag (Some (new_config\<lparr>config_fallthrough :=
       Serve_split [\<lparr>arm_value = Flag_bool True, arm_weight = 10\<rparr>, \<lparr>arm_value = Flag_bool False, arm_weight = 90\<rparr>]\<rparr>))
     first_person Map.empty =
   \<lparr>evaluation_value = Flag_bool True, evaluation_reason = Reason_split, evaluation_rule = None\<rparr>"
    by (simp add: evaluate_flag_def new_config_def serve_def bucket_unit_of_def new_flag_def first_person_def truthy_def
        first_bucket pick_arm_def arm_width_def flag_buckets_def first_arm checked_def is_valid_flag_value_def)
qed simp_all

text \<open>A split the write schema takes leaves no bucket out and no bucket twice: every bucket lies in
  exactly the run of one arm, as long as that arm's weight in hundredths of a per cent, and that arm is
  picked. The caller's bucket is one of the ten thousand.
\<close>

theorem a_split_covers_every_bucket:
  assumes "split_accepted split" and "bucket < flag_buckets"
  shows "\<exists>i < length split. pick_arm split bucket = Some (arm_value (split ! i)) \<and>
    total_width (take i split) \<le> int bucket \<and>
    int bucket < total_width (take i split) + arm_width (arm_weight (split ! i)) \<and>
    flag_bucket key salt unit < flag_buckets"
proof -
  have "int bucket < 0 + total_width split"
    using assms by (simp add: split_accepted_def foldl_width)
  from pick_arm_from_cover [OF _ this] obtain i where i: "i < length split"
    "pick_arm_from 0 split bucket = Some (arm_value (split ! i))"
    "total_width (take i split) \<le> int bucket" "int bucket < total_width (take (Suc i) split)" by auto
  have "total_width (take (Suc i) split) = total_width (take i split) + arm_width (arm_weight (split ! i))"
    using i(1) by (simp add: take_Suc_conv_app_nth total_width_def)
  with i flag_bucket_bound [of key salt unit] show ?thesis
    by (intro exI [of _ i]) (simp add: pick_arm_def flag_buckets_def)
qed

lemma a_split_covers_every_bucket_witness:
  "\<exists>i < length [\<lparr>arm_value = Flag_bool True, arm_weight = 10\<rparr>, \<lparr>arm_value = Flag_bool False, arm_weight = 90\<rparr>].
     pick_arm [\<lparr>arm_value = Flag_bool True, arm_weight = 10\<rparr>, \<lparr>arm_value = Flag_bool False, arm_weight = 90\<rparr>] 1000 =
       Some (arm_value ([\<lparr>arm_value = Flag_bool True, arm_weight = 10\<rparr>, \<lparr>arm_value = Flag_bool False, arm_weight = 90\<rparr>] ! i))"
proof -
  let ?s = "[\<lparr>arm_value = Flag_bool True, arm_weight = 10\<rparr>, \<lparr>arm_value = Flag_bool False, arm_weight = 90\<rparr>]"
  have "\<lfloor>2001 / 2 :: rat\<rfloor> = 1000" "\<lfloor>18001 / 2 :: rat\<rfloor> = 9000" by (rule floor_unique; simp)+
  then have s: "split_accepted ?s" by (simp add: split_accepted_def arm_width_def flag_buckets_def)
  have b: "1000 < flag_buckets" by (simp add: flag_buckets_def)
  from a_split_covers_every_bucket [OF s b] show ?thesis by blast
qed

text \<open>C40: The hash is MurmurHash3 x86 32 as it is published: on the bytes of the text in UTF-8 and for every
  seed, the code's words, shifts and masks compute the number that the algorithm on natural numbers
  modulo 2^32 gives, with its own constants, rotations, tail, length and avalanche. The characters of a
  text are those below 256, of one byte or two.
\<close>

theorem the_hash_is_murmur3:
  "unat (murmur3 input seed) = murmur3_x86_32 (reference_utf8 input) (unat seed)"
  by (rule murmur3_reference)

text \<open>Versions compare as their three numbers do in lexical order, missing ones nought: the comparison
  answers exactly when both are versions, with the sign of that order, so it is a total order on them.
\<close>

theorem versions_compare_in_lexical_order:
  "compare_semver a b =
     (case (parse_version a, parse_version b) of
        (Some l, Some r) \<Rightarrow> Some (if l < r then - 1 else if l = r then 0 else 1)
      | _ \<Rightarrow> None)"
proof -
  have "compare_parts l r = (if l < r then - 1 else if l = r then 0 else 1)"
    if "parse_version a = Some l" "parse_version b = Some r" for l r
    using parse_version_length [OF that(1)] parse_version_length [OF that(2)] by (simp only: compare_parts_order)
  then show ?thesis by (simp add: compare_semver_def split: option.split)
qed

end
