(* ===== verification/Bot_Turn.thy ===== *)
theory Bot_Turn
  imports Domain_Base Agent_Catalog Scopes
begin

section \<open>A bot's turns\<close>

text \<open>
  \<^verbatim>\<open>apps/api/src/bots-chat/domain/bot-turn.entity.ts\<close>, \<^verbatim>\<open>bot-chain.policy.ts\<close> and \<^verbatim>\<open>bot-steer.policy.ts\<close>:
  one message to a bot and what became of it, how far bots may go in asking each other because of
  one message, and which waiting message a running turn takes. The id and the clock are arguments;
  a throw is \<open>Inl\<close>.

  A turn as the table holds it is a \<open>bot_turn\<close>. The entity in a process's memory extends it with the
  status it was loaded in, which its next write is conditioned on, and with the limit it ended on.
\<close>

subsection \<open>Vocabulary\<close>

datatype bot_turn_status = Bot_queued | Bot_running | Bot_completed | Bot_cancelled | Bot_failed

datatype bot_turn_lane = Lane_owner | Lane_bots | Lane_background

datatype bot_turn_origin =
    Bot_message | Bot_approval | Bot_question | Bot_routine | Bot_subscription | Bot_goal | Bot_loop

datatype bot_turn_failure =
    Fail_rate_limit | Fail_usage_limit | Fail_credential | Fail_refused | Fail_unavailable
  | Fail_time_limit | Fail_interrupted | Fail_other

definition bot_turn_failure_retries :: "bot_turn_failure \<Rightarrow> bool" where
  "bot_turn_failure_retries f =
     (case f of
        Fail_rate_limit \<Rightarrow> True
      | Fail_usage_limit \<Rightarrow> False
      | Fail_credential \<Rightarrow> False
      | Fail_refused \<Rightarrow> False
      | Fail_unavailable \<Rightarrow> True
      | Fail_time_limit \<Rightarrow> False
      | Fail_interrupted \<Rightarrow> True
      | Fail_other \<Rightarrow> True)"

datatype bot_provider = Provider_anthropic | Provider_glm | Provider_openai | Provider_chatgpt | Provider_xai

definition ended_turn_statuses :: "bot_turn_status list" where
  "ended_turn_statuses = [Bot_completed, Bot_cancelled, Bot_failed]"

record bot_rate_limit =
  limit_system :: string
  limit_reset :: date

record bot_turn_context =
  context_tokens :: int
  context_window :: "int option"

record bot_plan_window =
  window_used :: js_number
  window_resets :: "date option"

record bot_plan_limits =
  limits_five_hour :: "bot_plan_window option"
  limits_seven_day :: "bot_plan_window option"

text \<open>
  A failure's words. The ellipsis that marks a cut is outside the characters of the model, so it is
  a flag beside the text that was kept.
\<close>

record bot_turn_error =
  error_text :: string
  error_cut :: bool

definition bot_turn_error_max :: nat where
  "bot_turn_error_max = 1000"

definition fit_error :: "string \<Rightarrow> bot_turn_error" where
  "fit_error e =
     (if length e \<le> bot_turn_error_max then \<lparr>error_text = e, error_cut = False\<rparr>
      else \<lparr>error_text = take (bot_turn_error_max - 1) e, error_cut = True\<rparr>)"

definition error_length :: "bot_turn_error \<Rightarrow> nat" where
  "error_length e = length (error_text e) + (if error_cut e then 1 else 0)"

subsection \<open>The turn\<close>

record bot_turn =
  bt_id :: string
  bt_organization :: string
  bt_bot :: string
  bt_requester :: "string option"
  bt_status :: bot_turn_status
  bt_origin :: bot_turn_origin
  bt_source_key :: "string option"
  bt_provider :: bot_provider
  bt_model :: string
  bt_effort :: "session_effort option"
  bt_time_zone :: "string option"
  bt_scopes :: "scope list option"
  bt_lane :: bot_turn_lane
  bt_chain :: "string option"
  bt_depth :: int
  bt_asked_by_bot :: "string option"
  bt_asked_by_turn :: "string option"
  bt_reply_requested :: bool
  bt_answers :: "string option"
  bt_steer :: bool
  bt_error :: "bot_turn_error option"
  bt_failure :: "bot_turn_failure option"
  bt_input_tokens :: int
  bt_output_tokens :: int
  bt_cache_read_tokens :: int
  bt_cache_write_tokens :: int
  bt_context :: "bot_turn_context option"
  bt_plan_limits :: "bot_plan_limits option"
  bt_cancel_requested :: "date option"
  bt_started :: "date option"
  bt_ended_at :: "date option"
  bt_created :: date

record bot_turn_entity = bot_turn +
  bt_loaded :: bot_turn_status
  bt_limited :: "bot_rate_limit option"

definition bot_turn_of :: "bot_turn \<Rightarrow> bot_turn_entity" where
  "bot_turn_of r = bot_turn.extend r \<lparr>bt_loaded = bt_status r, bt_limited = None\<rparr>"

definition turn_has_ended :: "'a bot_turn_scheme \<Rightarrow> bool" where
  "turn_has_ended t = (bt_status t \<in> set ended_turn_statuses)"

definition chain_root :: "'a bot_turn_scheme \<Rightarrow> string" where
  "chain_root t = (case bt_chain t of Some c \<Rightarrow> c | None \<Rightarrow> bt_id t)"

definition bot_turn_problem :: "'a bot_turn_scheme \<Rightarrow> domain_error option" where
  "bot_turn_problem t = check_all
     [(bt_organization t = [] \<or> bt_bot t = [], ArgumentNotProvided ''A turn belongs to a bot''),
      (bt_model t = [], ArgumentNotProvided ''A turn runs on a model''),
      (bt_depth t < 0, ArgumentInvalid ''A chain depth is a whole number from 0''),
      (bt_lane t = Lane_bots \<and> bt_chain t = None,
       ArgumentInvalid ''A turn a bot queued belongs to its chain''),
      (bt_steer t \<and> (bt_lane t \<noteq> Lane_owner \<or> bt_origin t \<noteq> Bot_message),
       ArgumentInvalid ''Only a message of yours steers''),
      (truthy (bt_answers t) \<and> bt_reply_requested t,
       ArgumentInvalid ''An answer asks for no answer'')]"

text \<open>
  What \<open>queue\<close> is called with. A property the caller may leave out is an option, \<open>None\<close> when it is
  left out or \<open>null\<close>.
\<close>

record queue_props =
  qp_organization :: string
  qp_bot :: string
  qp_requester :: string
  qp_provider :: bot_provider
  qp_model :: string
  qp_effort :: "session_effort option"
  qp_time_zone :: "string option"
  qp_scopes :: "scope list option"
  qp_origin :: "bot_turn_origin option"
  qp_source_key :: "string option"
  qp_lane :: "bot_turn_lane option"
  qp_chain :: "string option"
  qp_depth :: "int option"
  qp_asked_by_bot :: "string option"
  qp_asked_by_turn :: "string option"
  qp_reply_requested :: "bool option"
  qp_answers :: "string option"
  qp_steer :: "bool option"

definition or_default :: "'a option \<Rightarrow> 'a \<Rightarrow> 'a" where
  "or_default a d = (case a of None \<Rightarrow> d | Some x \<Rightarrow> x)"

lemma or_default_simps [simp]: "or_default None d = d" "or_default (Some x) d = x"
  by (simp_all add: or_default_def)

definition queue_turn :: "string \<Rightarrow> date \<Rightarrow> queue_props \<Rightarrow> domain_error + bot_turn_entity" where
  "queue_turn uuid now p =
     (let t = \<lparr>bt_id = uuid, bt_organization = qp_organization p, bt_bot = qp_bot p,
               bt_requester = Some (qp_requester p), bt_status = Bot_queued,
               bt_origin = or_default (qp_origin p) Bot_message, bt_source_key = qp_source_key p,
               bt_provider = qp_provider p, bt_model = qp_model p, bt_effort = qp_effort p,
               bt_time_zone = qp_time_zone p, bt_scopes = qp_scopes p,
               bt_lane = or_default (qp_lane p) Lane_owner, bt_chain = qp_chain p,
               bt_depth = or_default (qp_depth p) 0, bt_asked_by_bot = qp_asked_by_bot p,
               bt_asked_by_turn = qp_asked_by_turn p,
               bt_reply_requested = or_default (qp_reply_requested p) False,
               bt_answers = qp_answers p, bt_steer = or_default (qp_steer p) False,
               bt_error = None, bt_failure = None, bt_input_tokens = 0, bt_output_tokens = 0,
               bt_cache_read_tokens = 0, bt_cache_write_tokens = 0, bt_context = None,
               bt_plan_limits = None, bt_cancel_requested = None, bt_started = None,
               bt_ended_at = None, bt_created = now, bt_loaded = Bot_queued, bt_limited = None\<rparr>
      in validated (bot_turn_problem t) t)"

text \<open>The engine a turn is queued on: the receiving bot's own.\<close>

record bot_engine_pick =
  pick_bot :: string
  pick_provider :: bot_provider
  pick_model :: string
  pick_effort :: "session_effort option"

definition require_requester :: "'a bot_turn_scheme \<Rightarrow> domain_error + string" where
  "require_requester t =
     (case bt_requester t of
        Some u \<Rightarrow> (if u = [] then Inl (ArgumentInvalid ''The turn's sender no longer has an account'') else Inr u)
      | None \<Rightarrow> Inl (ArgumentInvalid ''The turn's sender no longer has an account''))"

definition queue_from_bot ::
  "string \<Rightarrow> date \<Rightarrow> 'a bot_turn_scheme \<Rightarrow> bot_engine_pick \<Rightarrow> bool \<Rightarrow> domain_error + bot_turn_entity" where
  "queue_from_bot uuid now asker pick reply =
     (case require_requester asker of
        Inl e \<Rightarrow> Inl e
      | Inr requester \<Rightarrow> queue_turn uuid now
          \<lparr>qp_organization = bt_organization asker, qp_bot = pick_bot pick, qp_requester = requester,
           qp_provider = pick_provider pick, qp_model = pick_model pick, qp_effort = pick_effort pick,
           qp_time_zone = bt_time_zone asker, qp_scopes = bt_scopes asker, qp_origin = None,
           qp_source_key = None, qp_lane = Some Lane_bots, qp_chain = Some (chain_root asker),
           qp_depth = Some (bt_depth asker + 1), qp_asked_by_bot = Some (bt_bot asker),
           qp_asked_by_turn = Some (bt_id asker), qp_reply_requested = Some reply,
           qp_answers = None, qp_steer = None\<rparr>)"

definition queue_answer ::
  "string \<Rightarrow> date \<Rightarrow> 'a bot_turn_scheme \<Rightarrow> bot_engine_pick \<Rightarrow> domain_error + bot_turn_entity" where
  "queue_answer uuid now answered pick =
     (if \<not> bt_reply_requested answered \<or> \<not> turn_has_ended answered
      then Inl (ArgumentInvalid ''Only an ended ask is answered'')
      else case require_requester answered of
        Inl e \<Rightarrow> Inl e
      | Inr requester \<Rightarrow> queue_turn uuid now
          \<lparr>qp_organization = bt_organization answered, qp_bot = pick_bot pick, qp_requester = requester,
           qp_provider = pick_provider pick, qp_model = pick_model pick, qp_effort = pick_effort pick,
           qp_time_zone = bt_time_zone answered, qp_scopes = bt_scopes answered, qp_origin = None,
           qp_source_key = None, qp_lane = Some Lane_bots, qp_chain = Some (chain_root answered),
           qp_depth = Some (max 0 (bt_depth answered - 1)), qp_asked_by_bot = Some (bt_bot answered),
           qp_asked_by_turn = Some (bt_id answered), qp_reply_requested = None,
           qp_answers = Some (bt_id answered), qp_steer = None\<rparr>)"

definition bot_status_word :: "bot_turn_status \<Rightarrow> string" where
  "bot_status_word s =
     (case s of Bot_queued \<Rightarrow> ''queued'' | Bot_running \<Rightarrow> ''running'' | Bot_completed \<Rightarrow> ''completed''
      | Bot_cancelled \<Rightarrow> ''cancelled'' | Bot_failed \<Rightarrow> ''failed'')"

definition start_bot_turn :: "date \<Rightarrow> bot_turn_entity \<Rightarrow> domain_error + bot_turn_entity" where
  "start_bot_turn now t =
     (if bt_status t \<noteq> Bot_queued
      then Inl (ArgumentInvalid (''A '' @ bot_status_word (bt_status t) @ '' turn cannot start''))
      else Inr (t\<lparr>bt_status := Bot_running, bt_started := Some now\<rparr>))"

datatype bot_turn_end = End_completed | End_cancelled | End_failed

fun status_of_end :: "bot_turn_end \<Rightarrow> bot_turn_status" where
  "status_of_end End_completed = Bot_completed"
| "status_of_end End_cancelled = Bot_cancelled"
| "status_of_end End_failed = Bot_failed"

record bot_turn_outcome =
  out_error :: "string option"
  out_failure :: "bot_turn_failure option"
  out_input_tokens :: "int option"
  out_output_tokens :: "int option"
  out_cache_read_tokens :: "int option"
  out_cache_write_tokens :: "int option"
  out_context :: "bot_turn_context option"
  out_plan_limits :: "bot_plan_limits option"
  out_limited :: "bot_rate_limit option"

definition no_outcome :: bot_turn_outcome where
  "no_outcome =
     \<lparr>out_error = None, out_failure = None, out_input_tokens = None, out_output_tokens = None,
      out_cache_read_tokens = None, out_cache_write_tokens = None, out_context = None,
      out_plan_limits = None, out_limited = None\<rparr>"

definition end_bot_turn ::
  "bot_turn_end \<Rightarrow> date \<Rightarrow> bot_turn_outcome \<Rightarrow> bot_turn_entity \<Rightarrow> domain_error + bot_turn_entity" where
  "end_bot_turn s now o' t =
     (if turn_has_ended t
      then Inl (ArgumentInvalid (''The turn already '' @ bot_status_word (bt_status t)))
      else Inr (t
        \<lparr>bt_limited := out_limited o',
         bt_status := status_of_end s,
         bt_ended_at := Some now,
         bt_error := (if s = End_failed then Some (fit_error (or_default (out_error o') ''The turn failed'')) else None),
         bt_failure := (if s = End_failed then Some (or_default (out_failure o') Fail_other) else None),
         bt_input_tokens := or_default (out_input_tokens o') (bt_input_tokens t),
         bt_output_tokens := or_default (out_output_tokens o') (bt_output_tokens t),
         bt_cache_read_tokens := or_default (out_cache_read_tokens o') (bt_cache_read_tokens t),
         bt_cache_write_tokens := or_default (out_cache_write_tokens o') (bt_cache_write_tokens t),
         bt_context := or_else (out_context o') (bt_context t),
         bt_plan_limits := or_else (out_plan_limits o') (bt_plan_limits t)\<rparr>))"

definition abandon_bot_turn :: "date \<Rightarrow> bot_turn_entity \<Rightarrow> domain_error + bot_turn_entity" where
  "abandon_bot_turn now t =
     end_bot_turn End_failed now
       (no_outcome\<lparr>out_error := Some ''The turn was interrupted. Send the message again.'',
                   out_failure := Some Fail_interrupted\<rparr>) t"

definition mark_turn_persisted :: "bot_turn_entity \<Rightarrow> bot_turn_entity" where
  "mark_turn_persisted t = t\<lparr>bt_loaded := bt_status t\<rparr>"

subsection \<open>How far a chain of bots may go\<close>

record chain_limits =
  chain_max_depth :: int
  chain_turn_budget :: int

definition bot_chain_limits :: chain_limits where
  "bot_chain_limits = \<lparr>chain_max_depth = 3, chain_turn_budget = 10\<rparr>"

record bot_chain_state =
  chain_bots :: "string list"
  chain_asks :: int

datatype bot_chain_verdict = Chain_allowed | Chain_refused string

definition check_bot_chain ::
  "chain_limits \<Rightarrow> 'a bot_turn_scheme \<Rightarrow> string \<Rightarrow> bot_chain_state \<Rightarrow> bot_chain_verdict" where
  "check_bot_chain limits asker target state =
     (if target = bt_bot asker
      then Chain_refused ''You cannot message yourself. Do the work in this turn instead.''
      else if bt_depth asker + 1 > chain_max_depth limits
      then Chain_refused (''This request has already passed through '' @ string_of_int (bt_depth asker + 1) @
             '' bots, the most one request of the person may reach ('' @
             string_of_int (chain_max_depth limits) @
             '' bots deep). Do what you can yourself and tell the person what is left.'')
      else if chain_asks state \<ge> chain_turn_budget limits
      then Chain_refused (''Bots have already sent each other '' @ string_of_int (chain_asks state) @
             '' messages because of this request, the most one request of the person may cause ('' @
             string_of_int (chain_turn_budget limits) @
             ''). Finish with what you have and tell the person what is left.'')
      else if target \<in> set (chain_bots state)
      then Chain_refused (''That bot is already working on this request further up the chain, so '' @
             ''messaging it would go round in a circle. Answer with what you have; if you were asked, '' @
             ''your answer goes back on its own.'')
      else Chain_allowed)"

lemma check_bot_chain_allowed:
  "check_bot_chain l a target st = Chain_allowed \<longleftrightarrow>
     target \<noteq> bt_bot a \<and> bt_depth a + 1 \<le> chain_max_depth l \<and> chain_asks st < chain_turn_budget l \<and>
     target \<notin> set (chain_bots st)"
  by (auto simp: check_bot_chain_def)

subsection \<open>Which waiting message a running turn takes\<close>

definition same_scopes :: "scope list option \<Rightarrow> scope list option \<Rightarrow> bool" where
  "same_scopes a b =
     (case (a, b) of
        (Some xs, Some ys) \<Rightarrow>
          length (remdups xs) = length (remdups ys) \<and> list_all (\<lambda>s. s \<in> set ys) xs
      | (None, None) \<Rightarrow> True
      | _ \<Rightarrow> False)"

definition takes_steer :: "'a bot_turn_scheme \<Rightarrow> 'b bot_turn_scheme \<Rightarrow> bool" where
  "takes_steer running waiting =
     (bt_status running = Bot_running \<and>
      bt_lane running = Lane_owner \<and>
      bt_status waiting = Bot_queued \<and>
      bt_steer waiting \<and>
      bt_id waiting \<noteq> bt_id running \<and>
      bt_organization waiting = bt_organization running \<and>
      bt_bot waiting = bt_bot running \<and>
      bt_requester running \<noteq> None \<and>
      bt_requester waiting = bt_requester running \<and>
      same_scopes (bt_scopes running) (bt_scopes waiting))"

lemma same_scopes_iff: "same_scopes a b \<longleftrightarrow> map_option set a = map_option set b"
proof (cases a; cases b)
  fix xs ys assume a: "a = Some xs" and b: "b = Some ys"
  have "length (remdups xs) = length (remdups ys) \<and> set xs \<subseteq> set ys \<longleftrightarrow> set xs = set ys"
    using card_subset_eq [of "set ys" "set xs"] by (auto simp: length_remdups_card_conv)
  then show ?thesis using a b by (auto simp: same_scopes_def list_all_iff)
qed (simp_all add: same_scopes_def)

subsection \<open>What the operations leave as it was\<close>

text \<open>
  The columns of a turn that say where it stands: which bot it is of, because of what it exists and
  what it may reach. No operation changes them after the turn was queued.
\<close>

definition turn_identity ::
  "'a bot_turn_scheme \<Rightarrow>
    (string \<times> string \<times> string) \<times> (bot_turn_lane \<times> string option \<times> int) \<times>
    (string option \<times> scope list option) \<times> bool \<times> bool \<times> bot_turn_origin" where
  "turn_identity t =
     ((bt_id t, bt_organization t, bt_bot t), (bt_lane t, bt_chain t, bt_depth t),
      (bt_source_key t, bt_scopes t), bt_reply_requested t, bt_steer t, bt_origin t)"

lemma turn_identity_eq:
  assumes "turn_identity t = turn_identity u"
  shows "bt_id t = bt_id u" "bt_organization t = bt_organization u" "bt_bot t = bt_bot u"
    "bt_lane t = bt_lane u" "bt_chain t = bt_chain u" "bt_depth t = bt_depth u"
    "bt_source_key t = bt_source_key u" "bt_scopes t = bt_scopes u"
    "bt_reply_requested t = bt_reply_requested u" "bt_steer t = bt_steer u" "bt_origin t = bt_origin u"
    "chain_root t = chain_root u"
  using assms by (auto simp: turn_identity_def chain_root_def split: option.splits)

lemma turn_has_ended_iff: "turn_has_ended t \<longleftrightarrow> bt_status t \<noteq> Bot_queued \<and> bt_status t \<noteq> Bot_running"
  by (cases "bt_status t") (simp_all add: turn_has_ended_def ended_turn_statuses_def)

lemma fit_error_length: "error_length (fit_error e) \<le> bot_turn_error_max"
  by (simp add: fit_error_def error_length_def bot_turn_error_max_def)

lemma queue_turn_Inr:
  assumes "queue_turn uuid now p = Inr t"
  shows "bt_id t = uuid" "bt_organization t = qp_organization p" "bt_bot t = qp_bot p"
    "bt_status t = Bot_queued" "bt_loaded t = Bot_queued"
    "bt_lane t = or_default (qp_lane p) Lane_owner" "bt_chain t = qp_chain p"
    "bt_depth t = or_default (qp_depth p) 0" "bt_answers t = qp_answers p"
    "bt_scopes t = qp_scopes p" "bt_source_key t = qp_source_key p" "bt_requester t = Some (qp_requester p)"
    "bt_origin t = or_default (qp_origin p) Bot_message" "bt_steer t = or_default (qp_steer p) False"
    "bt_time_zone t = qp_time_zone p" "bt_asked_by_bot t = qp_asked_by_bot p"
    "bt_reply_requested t = or_default (qp_reply_requested p) False"
    "bot_turn_problem t = None" "bt_ended_at t = None" "bt_error t = None" "bt_failure t = None"
  using assms by (auto simp: queue_turn_def Let_def validated_def split: option.splits)

lemma require_requester_Inr: "require_requester t = Inr u \<longleftrightarrow> bt_requester t = Some u \<and> u \<noteq> []"
  by (auto simp: require_requester_def split: option.splits)

lemma queue_from_bot_Inr:
  assumes "queue_from_bot uuid now a pick reply = Inr t"
  shows "bt_id t = uuid" "bt_organization t = bt_organization a" "bt_bot t = pick_bot pick"
    "bt_status t = Bot_queued" "bt_lane t = Lane_bots" "bt_chain t = Some (chain_root a)"
    "bt_depth t = bt_depth a + 1" "bt_answers t = None" "bt_scopes t = bt_scopes a"
    "bt_requester t = bt_requester a" "bt_source_key t = None" "bt_loaded t = Bot_queued" "\<not> bt_steer t"
proof -
  obtain u p where u: "require_requester a = Inr u" and t: "queue_turn uuid now p = Inr t"
    and p: "p = \<lparr>qp_organization = bt_organization a, qp_bot = pick_bot pick, qp_requester = u,
           qp_provider = pick_provider pick, qp_model = pick_model pick, qp_effort = pick_effort pick,
           qp_time_zone = bt_time_zone a, qp_scopes = bt_scopes a, qp_origin = None,
           qp_source_key = None, qp_lane = Some Lane_bots, qp_chain = Some (chain_root a),
           qp_depth = Some (bt_depth a + 1), qp_asked_by_bot = Some (bt_bot a),
           qp_asked_by_turn = Some (bt_id a), qp_reply_requested = Some reply,
           qp_answers = None, qp_steer = None\<rparr>"
    using assms by (auto simp: queue_from_bot_def split: sum.splits)
  note facts = queue_turn_Inr [OF t]
  show "bt_id t = uuid" "bt_organization t = bt_organization a" "bt_bot t = pick_bot pick"
    "bt_status t = Bot_queued" "bt_lane t = Lane_bots" "bt_chain t = Some (chain_root a)"
    "bt_depth t = bt_depth a + 1" "bt_answers t = None" "bt_scopes t = bt_scopes a"
    "bt_requester t = bt_requester a" "bt_source_key t = None" "bt_loaded t = Bot_queued" "\<not> bt_steer t"
    using u by (simp_all add: facts p require_requester_Inr)
qed

lemma queue_answer_Inr:
  assumes "queue_answer uuid now a pick = Inr t"
  shows "bt_id t = uuid" "bt_organization t = bt_organization a" "bt_bot t = pick_bot pick"
    "bt_status t = Bot_queued" "bt_lane t = Lane_bots" "bt_chain t = Some (chain_root a)"
    "bt_depth t = max 0 (bt_depth a - 1)" "bt_answers t = Some (bt_id a)" "bt_scopes t = bt_scopes a"
    "bt_requester t = bt_requester a" "bt_source_key t = None" "bt_loaded t = Bot_queued" "\<not> bt_steer t"
    "turn_has_ended a" "bt_reply_requested a"
proof -
  obtain u p where u: "require_requester a = Inr u" and t: "queue_turn uuid now p = Inr t"
    and e: "turn_has_ended a" "bt_reply_requested a"
    and p: "p = \<lparr>qp_organization = bt_organization a, qp_bot = pick_bot pick, qp_requester = u,
           qp_provider = pick_provider pick, qp_model = pick_model pick, qp_effort = pick_effort pick,
           qp_time_zone = bt_time_zone a, qp_scopes = bt_scopes a, qp_origin = None,
           qp_source_key = None, qp_lane = Some Lane_bots, qp_chain = Some (chain_root a),
           qp_depth = Some (max 0 (bt_depth a - 1)), qp_asked_by_bot = Some (bt_bot a),
           qp_asked_by_turn = Some (bt_id a), qp_reply_requested = None,
           qp_answers = Some (bt_id a), qp_steer = None\<rparr>"
    using assms by (auto simp: queue_answer_def split: sum.splits if_splits)
  note facts = queue_turn_Inr [OF t]
  show "bt_id t = uuid" "bt_organization t = bt_organization a" "bt_bot t = pick_bot pick"
    "bt_status t = Bot_queued" "bt_lane t = Lane_bots" "bt_chain t = Some (chain_root a)"
    "bt_depth t = max 0 (bt_depth a - 1)" "bt_answers t = Some (bt_id a)" "bt_scopes t = bt_scopes a"
    "bt_requester t = bt_requester a" "bt_source_key t = None" "bt_loaded t = Bot_queued" "\<not> bt_steer t"
    "turn_has_ended a" "bt_reply_requested a"
    using u e by (simp_all add: facts p require_requester_Inr)
qed

lemma start_bot_turn_Inr:
  assumes "start_bot_turn now t = Inr t'"
  shows "bt_status t = Bot_queued" "t' = t\<lparr>bt_status := Bot_running, bt_started := Some now\<rparr>"
  using assms by (simp_all add: start_bot_turn_def split: if_splits)

lemma end_bot_turn_Inr:
  assumes "end_bot_turn s now oc t = Inr t'"
  shows "\<not> turn_has_ended t" "bt_status t' = status_of_end s" "turn_has_ended t'"
    "turn_identity t' = turn_identity t" "bt_loaded t' = bt_loaded t" "bt_ended_at t' = Some now"
    "bt_limited t' = out_limited oc" "bt_requester t' = bt_requester t"
  using assms by (cases s; simp add: end_bot_turn_def turn_has_ended_iff turn_identity_def split: if_splits; auto)+

end
