(* ===== verification/Bot_Commands.thy ===== *)
theory Bot_Commands
  imports Domain_Base Scopes
begin

section \<open>The commands a person types to a bot\<close>

text \<open>
  \<^verbatim>\<open>packages/shared/src/schemas/bot-skill.schema.ts\<close> and
  \<^verbatim>\<open>apps/api/src/bots-chat/domain/bot-built-in.policy.ts\<close>: how a message that starts with a slash is read, what
  the built-in commands ask for, and which of them the console runs itself. A regular expression is
  written as the run of characters its greedy match takes; in each of them the character after a run
  is not one the run could give back, so no shorter match exists.
\<close>

subsection \<open>A slash command\<close>

record bot_slash_command =
  slash_name :: string
  slash_args :: string

definition slash_name_char :: "char \<Rightarrow> bool" where
  "slash_name_char c = (is_lower c \<or> is_digit c \<or> c = CHR ''-'')"

definition bot_skill_name_max :: nat where
  "bot_skill_name_max = 32"

text \<open>A skill's name, then the end or blanks and whatever follows them.\<close>

definition slash_word :: "string \<Rightarrow> (string \<times> string) option" where
  "slash_word s =
     (let name = takeWhile slash_name_char s; rest = dropWhile slash_name_char s in
      if name \<noteq> [] \<and> hd name \<noteq> CHR ''-'' \<and> length name \<le> bot_skill_name_max \<and> (rest = [] \<or> js_space (hd rest))
      then Some (name, js_trim rest) else None)"

definition parse_bot_slash_command :: "string \<Rightarrow> bot_slash_command option" where
  "parse_bot_slash_command message =
     (case js_trim message of
        CHR ''/'' # s \<Rightarrow>
          (case slash_word s of
             None \<Rightarrow> None
           | Some (name, args) \<Rightarrow>
               if name = ''skill'' then
                 (case slash_word args of
                    None \<Rightarrow> None
                  | Some (inner, inner_args) \<Rightarrow> Some \<lparr>slash_name = inner, slash_args = inner_args\<rparr>)
               else Some \<lparr>slash_name = name, slash_args = args\<rparr>)
      | _ \<Rightarrow> None)"

text \<open>A skill's name as it is typed: every run of anything else a hyphen.\<close>

fun hyphenated :: "bool \<Rightarrow> string \<Rightarrow> string" where
  "hyphenated in_run [] = []"
| "hyphenated in_run (c # s) =
     (if is_lower c \<or> is_digit c then c # hyphenated False s
      else if in_run then hyphenated True s else CHR ''-'' # hyphenated True s)"

definition bot_skill_name_draft :: "string \<Rightarrow> string" where
  "bot_skill_name_draft typed =
     take bot_skill_name_max (dropWhile (\<lambda>c. c = CHR ''-'') (hyphenated False (js_lower typed)))"

definition bot_skill_name_of :: "string \<Rightarrow> string" where
  "bot_skill_name_of typed = rev (dropWhile (\<lambda>c. c = CHR ''-'') (rev (bot_skill_name_draft typed)))"

definition bot_skill_reserved_names :: "string list" where
  "bot_skill_reserved_names = [''skill'', ''goal'', ''usage'', ''loop'', ''schedule'']"

definition skill_name_ok :: "string \<Rightarrow> bool" where
  "skill_name_ok typed =
     (let name = js_trim typed in
      1 \<le> length name \<and> length name \<le> bot_skill_name_max \<and> slash_word name = Some (name, []) \<and>
      name \<notin> set bot_skill_reserved_names)"

subsection \<open>The built-in commands\<close>

definition bot_goal_clear_words :: "string list" where
  "bot_goal_clear_words = [''clear'', ''stop'', ''off'', ''reset'', ''none'', ''cancel'']"

datatype bot_goal_command = Goal_show | Goal_clear | Goal_set string

definition bot_goal_command_of :: "bot_slash_command option \<Rightarrow> bot_goal_command option" where
  "bot_goal_command_of command =
     (case command of
        None \<Rightarrow> None
      | Some c \<Rightarrow>
          if slash_name c \<noteq> ''goal'' then None
          else (let args = js_trim (slash_args c) in
                if args = [] then Some Goal_show
                else if js_lower args \<in> set bot_goal_clear_words then Some Goal_clear
                else Some (Goal_set args)))"

definition bot_loop_prompt_max :: nat where
  "bot_loop_prompt_max = 2000"

definition bot_loop_interval_min_minutes :: int where
  "bot_loop_interval_min_minutes = 1"

definition bot_loop_interval_max_minutes :: int where
  "bot_loop_interval_max_minutes = 1440"

definition bot_loop_self_paced_max_minutes :: int where
  "bot_loop_self_paced_max_minutes = 60"

definition bot_loop_lifetime_ms :: int where
  "bot_loop_lifetime_ms = 3 * 24 * 60 * 60 * 1000"

definition bot_loop_check_in_prompt :: string where
  "bot_loop_check_in_prompt =
     ''Check in: read your instructions, your open sessions and anything you were asked to watch, and '' @
     ''report only what changed since your last run.''"

datatype bot_loop_command = Loop_clear | Loop_set "int option" string | Loop_invalid

definition interval_units :: "string list" where
  "interval_units =
     [''s'', ''sec'', ''secs'', ''second'', ''seconds'', ''m'', ''min'', ''mins'', ''minute'', ''minutes'',
      ''h'', ''hr'', ''hrs'', ''hour'', ''hours'', ''d'', ''day'', ''days'']"

text \<open>A number of units as whole minutes, a part minute rounded up.\<close>

definition minutes_of :: "nat \<Rightarrow> char \<Rightarrow> int" where
  "minutes_of n unit =
     (if unit = CHR ''s'' then (int n + 59) div 60
      else if unit = CHR ''h'' then int n * 60
      else if unit = CHR ''d'' then int n * 1440
      else int n)"

definition bot_loop_interval_of :: "string \<Rightarrow> int option" where
  "bot_loop_interval_of text =
     (let s = js_trim text;
          ds = takeWhile is_digit s;
          unit = js_lower (dropWhile js_space (dropWhile is_digit s))
      in if 1 \<le> length ds \<and> length ds \<le> 6 \<and> unit \<in> set interval_units
         then Some (minutes_of (parse_digits 10 ds) (hd unit)) else None)"

text \<open>\<open>every 5 minutes\<close> at the end: blanks, the word, blanks, digits and letters up to the end.\<close>

definition every_at :: "string \<Rightarrow> string option" where
  "every_at s =
     (let r = dropWhile js_space s;
          after = drop 5 r;
          interval = dropWhile js_space after;
          ds = takeWhile is_digit interval;
          unit = dropWhile js_space (dropWhile is_digit interval)
      in if s \<noteq> [] \<and> js_space (hd s) \<and> js_lower (take 5 r) = ''every'' \<and> after \<noteq> [] \<and> js_space (hd after) \<and>
            1 \<le> length ds \<and> length ds \<le> 6 \<and> unit \<noteq> [] \<and> list_all (\<lambda>c. is_lower c \<or> is_upper c) unit
         then Some interval else None)"

fun trailing_every :: "string \<Rightarrow> string \<Rightarrow> (string \<times> string) option" where
  "trailing_every before [] = None"
| "trailing_every before (c # s) =
     (case every_at (c # s) of
        Some interval \<Rightarrow> Some (rev before, interval)
      | None \<Rightarrow> trailing_every (c # before) s)"

definition bot_loop_interval_and_prompt :: "string \<Rightarrow> int option \<times> string" where
  "bot_loop_interval_and_prompt args =
     (let words = split_runs js_space args in
      case bot_loop_interval_of (hd words) of
        Some interval \<Rightarrow> (Some interval, js_join '' '' (tl words))
      | None \<Rightarrow>
          (case trailing_every [] args of
             Some (before, words) \<Rightarrow>
               (case bot_loop_interval_of words of
                  Some interval \<Rightarrow> (Some interval, js_trim before)
                | None \<Rightarrow> (None, args))
           | None \<Rightarrow> (None, args)))"

definition bot_loop_command_of :: "bot_slash_command option \<Rightarrow> bot_loop_command option" where
  "bot_loop_command_of command =
     (case command of
        None \<Rightarrow> None
      | Some c \<Rightarrow>
          if slash_name c \<noteq> ''loop'' then None
          else (let args = js_trim (slash_args c) in
                if js_lower args \<in> set bot_goal_clear_words then Some Loop_clear
                else (case bot_loop_interval_and_prompt args of
                        (interval, args) \<Rightarrow>
                          if interval \<noteq> None \<and>
                             (the interval < bot_loop_interval_min_minutes \<or>
                              the interval > bot_loop_interval_max_minutes)
                          then Some Loop_invalid
                          else Some (Loop_set interval
                                 (let prompt = js_trim args in
                                  if prompt = [] then bot_loop_check_in_prompt else prompt)))))"

datatype bot_schedule_command = Schedule_open | Schedule_set string

definition bot_schedule_command_of :: "bot_slash_command option \<Rightarrow> bot_schedule_command option" where
  "bot_schedule_command_of command =
     (case command of
        None \<Rightarrow> None
      | Some c \<Rightarrow>
          if slash_name c \<noteq> ''schedule'' then None
          else (let request = js_trim (slash_args c) in
                Some (if request = [] then Schedule_open else Schedule_set request)))"

definition is_bot_console_command :: "bot_slash_command option \<Rightarrow> bool" where
  "is_bot_console_command command =
     (if map_option slash_name command = Some ''usage'' then True
      else if bot_schedule_command_of command = Some Schedule_open then True
      else if bot_loop_command_of command = Some Loop_clear then True
      else (case bot_goal_command_of command of
              None \<Rightarrow> False
            | Some (Goal_set _) \<Rightarrow> False
            | Some _ \<Rightarrow> True))"

definition console_routes :: "string \<rightharpoonup> string" where
  "console_routes = map_of
     [(''goal'', ''GET /bots/:id/goal to read the goal, DELETE /bots/:id/goal to stop it''),
      (''usage'', ''GET /bots/:id/usage''),
      (''loop'', ''GET /bots/:id/loop to read the loop, DELETE /bots/:id/loop to stop it''),
      (''schedule'', ''GET /bots/:id/routines to read the routines /schedule saves'')]"

definition refuse_console_command :: "string \<Rightarrow> domain_error option" where
  "refuse_console_command content =
     (case parse_bot_slash_command content of
        None \<Rightarrow> None
      | Some c \<Rightarrow>
          if \<not> is_bot_console_command (Some c) then None
          else Some (ArgumentInvalid (''/'' @ slash_name c @ '' is run by the console, not sent to the bot: use '' @
                 (case console_routes (slash_name c) of Some r \<Rightarrow> r | None \<Rightarrow> ''undefined''))))"

text \<open>Whether a message sent while the bot works may steer: words alone, and no command.\<close>

definition may_steer :: "bool \<Rightarrow> string \<Rightarrow> nat \<Rightarrow> bool" where
  "may_steer asked content images =
     (asked \<and> images = 0 \<and> parse_bot_slash_command content = None)"

subsection \<open>What is read\<close>

lemma slash_word_name:
  assumes "slash_word s = Some (name, args)"
  shows "name \<noteq> []" "length name \<le> bot_skill_name_max" "list_all slash_name_char name"
    "hd name \<noteq> CHR ''-''"
  using assms by (auto simp: slash_word_def Let_def list_all_iff dest: set_takeWhileD split: if_splits)

lemma bot_loop_command_interval:
  assumes "bot_loop_command_of c = Some (Loop_set (Some n) prompt)"
  shows "bot_loop_interval_min_minutes \<le> n \<and> n \<le> bot_loop_interval_max_minutes"
  using assms by (auto simp: bot_loop_command_of_def Let_def split: option.splits prod.splits if_splits)

lemma bot_loop_command_prompt:
  assumes "bot_loop_command_of c = Some (Loop_set n prompt)"
  shows "prompt \<noteq> []"
  using assms by (auto simp: bot_loop_command_of_def bot_loop_check_in_prompt_def Let_def split: option.splits prod.splits if_splits)

subsection \<open>Trimmed words\<close>

definition right_trim :: "string \<Rightarrow> string" where
  "right_trim s = rev (dropWhile js_space (rev s))"

lemma js_trim_right: "js_trim s = right_trim (dropWhile js_space s)"
  by (simp add: js_trim_def right_trim_def)

lemma right_trim_append: "right_trim (a @ b) = (if right_trim b = [] then right_trim a else a @ right_trim b)"
proof (cases "\<forall>x \<in> set b. js_space x")
  case True
  then have "dropWhile js_space (rev b) = []" by (simp add: dropWhile_eq_Nil_conv)
  moreover have "dropWhile js_space (rev b @ rev a) = dropWhile js_space (rev a)"
    using True by (intro dropWhile_append2) simp
  ultimately show ?thesis by (simp add: right_trim_def)
next
  case False
  then obtain x where x: "x \<in> set (rev b)" "\<not> js_space x" by auto
  then have "dropWhile js_space (rev b) \<noteq> []" unfolding dropWhile_eq_Nil_conv by blast
  then show ?thesis using dropWhile_append1 [of x "rev b" js_space "rev a"] x
    by (auto simp: right_trim_def)
qed

lemma right_trim_Nil: "right_trim [] = []"
  by (simp add: right_trim_def)

lemma right_trim_solid: "\<forall>x \<in> set s. \<not> js_space x \<Longrightarrow> right_trim s = s"
  by (cases "rev s") (auto simp: right_trim_def)

lemma js_trim_right_trim: "js_trim (right_trim s) = js_trim s"
proof -
  define a t where "a = takeWhile js_space s" and "t = dropWhile js_space s"
  have s: "s = a @ t" by (simp add: a_def t_def)
  have a: "\<forall>x \<in> set a. js_space x" by (auto simp: a_def dest: set_takeWhileD)
  have skip: "dropWhile js_space (a @ u) = dropWhile js_space u" for u
    using a by (intro dropWhile_append2) simp
  have twice: "right_trim (right_trim t) = right_trim t" by (simp add: right_trim_def)
  show ?thesis
  proof (cases "right_trim t = []")
    case True
    then have "right_trim s = right_trim a" using right_trim_append [of a t] s by simp
    moreover have "right_trim a = []" using a by (simp add: right_trim_def dropWhile_eq_Nil_conv)
    ultimately show ?thesis using True by (simp add: js_trim_right t_def [symmetric] right_trim_Nil)
  next
    case False
    then have "right_trim s = a @ right_trim t" using right_trim_append [of a t] s by simp
    moreover have "dropWhile js_space (right_trim t) = right_trim t"
    proof -
      obtain y ys where t': "t = y # ys" "\<not> js_space y"
      proof (cases t)
        case Nil then show ?thesis using False by (simp add: right_trim_Nil)
      next
        case (Cons y ys)
        then have "\<not> js_space y" using hd_dropWhile [of js_space s] by (simp add: t_def)
        then show ?thesis using that Cons by blast
      qed
      have "right_trim t = y # right_trim ys \<or> right_trim t = [y]"
        using right_trim_append [of "[y]" ys] t' right_trim_solid [of "[y]"] by auto
      then show ?thesis using t'(2) by auto
    qed
    ultimately show ?thesis using skip [of "right_trim t"] twice by (simp add: js_trim_right t_def [symmetric])
  qed
qed

lemma trimmed_word:
  assumes "w \<noteq> []" "\<forall>x \<in> set w. \<not> js_space x"
  obtains rest where "js_trim (w @ CHR '' '' # args) = w @ rest" "rest = [] \<or> js_space (hd rest)" "js_trim rest = js_trim args"
proof -
  have blank: "js_space (CHR '' '')" by (simp add: js_space_def)
  let ?rest = "right_trim (CHR '' '' # args)"
  have "dropWhile js_space (w @ CHR '' '' # args) = w @ CHR '' '' # args" using assms by (cases w) auto
  then have "js_trim (w @ CHR '' '' # args) = w @ ?rest"
    using right_trim_append [of w "CHR '' '' # args"] right_trim_solid [OF assms(2)] by (simp add: js_trim_right)
  moreover have "?rest = [] \<or> js_space (hd ?rest)"
    using right_trim_append [of "[CHR '' '']" args] blank by (auto simp: right_trim_def)
  moreover have "js_trim ?rest = js_trim args"
    using js_trim_right_trim [of "CHR '' '' # args"] blank by (simp add: js_trim_def)
  ultimately show thesis using that by blast
qed

lemma slash_name_char_solid: "slash_name_char c \<Longrightarrow> \<not> js_space c"
  by (auto simp: slash_name_char_def is_lower_def is_digit_def js_space_def char_between_def)

end
