(* ===== verification/Bot_Goal.thy ===== *)
theory Bot_Goal
  imports Bot_Turn Bot_Commands
begin

section \<open>A bot's goal and its loop\<close>

text \<open>
  What keeps a bot going without a message: \<^verbatim>\<open>bot-goal.entity.ts\<close>, \<^verbatim>\<open>bot-goal.policy.ts\<close>,
  \<^verbatim>\<open>bot-loop.entity.ts\<close>, \<^verbatim>\<open>bot-loop.policy.ts\<close>, \<^verbatim>\<open>bot-loop-message.factory.ts\<close> and the parts of
  \<^verbatim>\<open>bot-rate-limit.policy.ts\<close> and \<^verbatim>\<open>bot-message.entity.ts\<close> (under \<^verbatim>\<open>apps/api/src/bots-chat/domain\<close>)
  they use. An entity extends the row with what it was loaded with, which a conditional write is
  checked against. Of a message's event only that it has one is kept, and of its images their ids.
\<close>

subsection \<open>Limits\<close>

definition held_by :: "bot_rate_limit option \<Rightarrow> date \<Rightarrow> bot_rate_limit option" where
  "held_by limit now =
     (case limit of None \<Rightarrow> None | Some l \<Rightarrow> if limit_reset l > now then Some l else None)"

definition later_limit :: "bot_rate_limit option \<Rightarrow> bot_rate_limit \<Rightarrow> bot_rate_limit" where
  "later_limit held limit =
     (case held of Some h \<Rightarrow> if limit_reset h \<ge> limit_reset limit then h else limit | None \<Rightarrow> limit)"

subsection \<open>Messages\<close>

datatype bot_message_role = Role_user | Role_assistant | Role_activity | Role_event

record bot_message =
  bm_id :: string
  bm_organization :: string
  bm_bot :: string
  bm_turn :: "string option"
  bm_role :: bot_message_role
  bm_content :: string
  bm_position :: int
  bm_has_event :: bool
  bm_attachments :: "string list"
  bm_created :: date

definition bot_message_images_max :: nat where
  "bot_message_images_max = 4"

definition bot_message_problem :: "bot_message \<Rightarrow> domain_error option" where
  "bot_message_problem m = check_all
     [(bm_organization m = [] \<or> bm_bot m = [], ArgumentNotProvided ''A message belongs to a bot''),
      (\<not> truthy (bm_turn m) \<and> bm_role m \<noteq> Role_event,
       ArgumentNotProvided ''Only an event stands outside a turn''),
      ((bm_role m = Role_event) \<noteq> bm_has_event m,
       ArgumentInvalid ''An event says what happened, and only an event does''),
      (bm_attachments m \<noteq> [] \<and> bm_role m \<noteq> Role_user \<and> bm_role m \<noteq> Role_assistant,
       ArgumentInvalid ''Only a message of yours or the bot's carries images''),
      (length (bm_attachments m) > bot_message_images_max,
       ArgumentInvalid ''A message carries at most BOT_MESSAGE_IMAGES_MAX images''),
      (bm_role m \<noteq> Role_activity \<and> bm_content m = [] \<and> bm_attachments m = [],
       ArgumentInvalid ''A message says something'')]"

definition create_bot_message :: "bot_message \<Rightarrow> domain_error + bot_message" where
  "create_bot_message m = validated (bot_message_problem m) m"

text \<open>An event's message: \<open>Some\<close> turn it opens, or outside any turn.\<close>

definition event_message ::
  "string \<Rightarrow> date \<Rightarrow> string \<Rightarrow> string \<Rightarrow> string option \<Rightarrow> string \<Rightarrow> domain_error + bot_message" where
  "event_message uuid now org bid turn content =
     create_bot_message \<lparr>bm_id = uuid, bm_organization = org, bm_bot = bid, bm_turn = turn,
       bm_role = Role_event, bm_content = content, bm_position = 0, bm_has_event = True,
       bm_attachments = [], bm_created = now\<rparr>"

subsection \<open>The goal\<close>

definition goal_key_word :: string where
  "goal_key_word = ''goal:''"

definition goal_key_prefix :: "string \<Rightarrow> string" where
  "goal_key_prefix goal_id = goal_key_word @ goal_id @ '':''"

definition goal_source_key :: "string \<Rightarrow> int \<Rightarrow> string" where
  "goal_source_key goal_id step = goal_key_prefix goal_id @ string_of_int step"

text \<open>\<open>sourceKey?.startsWith(prefix)\<close>\<close>

definition starts_with :: "string option \<Rightarrow> string \<Rightarrow> bool" where
  "starts_with key prefix = (case key of None \<Rightarrow> False | Some k \<Rightarrow> take (length prefix) k = prefix)"

record bot_goal =
  bg_id :: string
  bg_organization :: string
  bg_bot :: string
  bg_origin_turn :: string
  bg_objective :: string
  bg_limit :: int
  bg_continuations :: int
  bg_scopes :: "scope list option"
  bg_time_zone :: "string option"
  bg_waiting :: "bot_rate_limit option"

record bot_goal_entity = bot_goal +
  bg_loaded :: int

definition bot_goal_objective_max :: nat where
  "bot_goal_objective_max = 2000"

definition bot_goal_continuations_max :: int where
  "bot_goal_continuations_max = 20"

definition bot_goal_continuations_person :: int where
  "bot_goal_continuations_person = bot_goal_continuations_max"

definition bot_goal_problem :: "'a bot_goal_scheme \<Rightarrow> domain_error option" where
  "bot_goal_problem g = check_all
     [(bg_organization g = [] \<or> bg_bot g = [] \<or> bg_origin_turn g = [],
       ArgumentNotProvided ''A goal belongs to a bot and the turn that set it''),
      (bg_objective g = [] \<or> length (bg_objective g) > bot_goal_objective_max,
       ArgumentInvalid ''A goal says what it is in 1 to 2000 characters''),
      (bg_limit g < 1 \<or> bg_limit g > bot_goal_continuations_max,
       ArgumentInvalid ''A goal queues 1 to 20 continuations''),
      (bg_continuations g < 0, ArgumentInvalid ''A goal counts its continuations from 0'')]"

text \<open>Stored scopes are read back through the catalog.\<close>

definition scopes_of :: "scope list option \<Rightarrow> scope list option" where
  "scopes_of stored = map_option (filter (\<lambda>s. s \<in> set all_scopes)) stored"

definition bot_goal_of :: "bot_goal \<Rightarrow> bot_goal_entity" where
  "bot_goal_of r =
     bot_goal.extend (r\<lparr>bg_scopes := scopes_of (bg_scopes r),
         bg_waiting := (case bg_waiting r of Some l \<Rightarrow> if limit_system l = [] then None else Some l | None \<Rightarrow> None)\<rparr>)
       \<lparr>bg_loaded = bg_continuations r\<rparr>"

definition set_bot_goal ::
  "string \<Rightarrow> string \<Rightarrow> string \<Rightarrow> string \<Rightarrow> string \<Rightarrow> int \<Rightarrow> scope list option \<Rightarrow> string option \<Rightarrow>
     domain_error + bot_goal_entity" where
  "set_bot_goal uuid org bid origin objective limit scopes zone =
     (let g = \<lparr>bg_id = uuid, bg_organization = org, bg_bot = bid, bg_origin_turn = origin,
               bg_objective = js_trim objective, bg_limit = limit, bg_continuations = 0,
               bg_scopes = scopes, bg_time_zone = zone, bg_waiting = None, bg_loaded = 0\<rparr>
      in validated (bot_goal_problem g) g)"

definition goal_exhausted :: "'a bot_goal_scheme \<Rightarrow> bool" where
  "goal_exhausted g = (bg_continuations g \<ge> bg_limit g)"

definition is_goal_turn :: "'a bot_goal_scheme \<Rightarrow> 'b bot_turn_scheme \<Rightarrow> bool" where
  "is_goal_turn g t = (bt_id t = bg_origin_turn g \<or> starts_with (bt_source_key t) (goal_key_prefix (bg_id g)))"

definition hold_goal :: "bot_rate_limit \<Rightarrow> 'a bot_goal_scheme \<Rightarrow> 'a bot_goal_scheme" where
  "hold_goal l g = g\<lparr>bg_waiting := Some \<lparr>limit_system = take 64 (limit_system l), limit_reset = limit_reset l\<rparr>\<rparr>"

definition advance_goal :: "bot_goal_entity \<Rightarrow> domain_error + bot_goal_entity" where
  "advance_goal g =
     (if goal_exhausted g
      then Inl (ArgumentInvalid ''A goal past its limit queues no more continuations'')
      else Inr (g\<lparr>bg_continuations := bg_continuations g + 1, bg_waiting := None\<rparr>))"

definition goal_from_message ::
  "string \<Rightarrow> string \<Rightarrow> 'a bot_turn_scheme \<Rightarrow> (domain_error + bot_goal_entity) option" where
  "goal_from_message uuid content turn =
     (case bot_goal_command_of (parse_bot_slash_command content) of
        Some (Goal_set condition) \<Rightarrow>
          Some (set_bot_goal uuid (bt_organization turn) (bt_bot turn) (bt_id turn) condition
                  bot_goal_continuations_person (bt_scopes turn) (bt_time_zone turn))
      | _ \<Rightarrow> None)"

datatype goal_ending = Goal_met | Goal_impossible | Goal_cleared | Goal_exhausted | Goal_stopped

datatype goal_decision = Decide_review | Decide_skip | Decide_end goal_ending "string option"

definition timed_out :: "'a bot_turn_scheme \<Rightarrow> bool" where
  "timed_out t = (bt_status t = Bot_failed \<and> bt_failure t = Some Fail_time_limit)"

definition goal_decide :: "'a bot_goal_scheme \<Rightarrow> 'b bot_turn_scheme \<Rightarrow> goal_decision" where
  "goal_decide g ended =
     (if \<not> is_goal_turn g ended then Decide_skip
      else if timed_out ended then Decide_review
      else if bt_status ended = Bot_failed \<or> bt_status ended = Bot_cancelled
      then Decide_end Goal_stopped (Some (bot_status_word (bt_status ended)))
      else if bt_status ended \<noteq> Bot_completed then Decide_skip
      else Decide_review)"

datatype goal_verdict_kind = Verdict_met | Verdict_not_met | Verdict_impossible

record bot_goal_verdict =
  verdict_kind :: goal_verdict_kind
  verdict_reason :: "string option"

datatype 'p goal_result = Goal_continue 'p "string option" | Goal_end goal_ending "string option"

definition goal_outcome :: "'a bot_goal_scheme \<Rightarrow> bot_goal_verdict option \<Rightarrow> 'p option \<Rightarrow> 'p goal_result" where
  "goal_outcome g verdict props =
     (if map_option verdict_kind verdict = Some Verdict_met
      then Goal_end Goal_met (verdict_reason (the verdict))
      else if map_option verdict_kind verdict = Some Verdict_impossible
      then Goal_end Goal_impossible (verdict_reason (the verdict))
      else (let reason = Option.bind verdict verdict_reason in
            if goal_exhausted g then Goal_end Goal_exhausted reason
            else (case props of
                    None \<Rightarrow> Goal_end Goal_stopped (Some ''access_lost'')
                  | Some p \<Rightarrow> Goal_continue p reason)))"

definition goal_continuation_text :: "'a bot_goal_scheme \<Rightarrow> int \<Rightarrow> string option \<Rightarrow> bool \<Rightarrow> string" where
  "goal_continuation_text g step reason last_timed_out =
     js_join [CHR 0x0A] (filter (\<lambda>l. l \<noteq> [])
       [''Continue toward your goal (continuation '' @ string_of_int step @ '' of '' @ string_of_int (bg_limit g) @
          ''): '' @ bg_objective g,
        if last_timed_out
        then ''Your last turn was stopped at the 4-minute limit for one turn; what it did is kept. '' @
             ''Take a smaller step this turn and report before the limit.'' else [],
        if truthy reason then ''A reviewer read your last turn and says it is not met yet: '' @ the reason
        else ''Nobody wrote to you: this turn exists to make progress on the goal.'',
        ''Read what your last turns did, take the next step, run the check the goal names, and say what it showed.'',
        ''When the goal is met, or it cannot be met without the person, call end_goal and say why. '' @
        ''Do not stretch the work to fill the continuations left.''])"

text \<open>What a continuation and a loop's run are queued as: the bot's owner, on its own engine.\<close>

definition owner_props ::
  "string \<Rightarrow> string \<Rightarrow> bot_engine_pick \<Rightarrow> string option \<Rightarrow> scope list option \<Rightarrow>
    bot_turn_origin \<Rightarrow> string \<Rightarrow> queue_props" where
  "owner_props org owner pick zone scopes origin key =
     \<lparr>qp_organization = org, qp_bot = pick_bot pick, qp_requester = owner,
      qp_provider = pick_provider pick, qp_model = pick_model pick, qp_effort = pick_effort pick,
      qp_time_zone = zone, qp_scopes = scopes, qp_origin = Some origin, qp_source_key = Some key,
      qp_lane = Some Lane_background, qp_chain = None, qp_depth = None, qp_asked_by_bot = None,
      qp_asked_by_turn = None, qp_reply_requested = None, qp_answers = None, qp_steer = None\<rparr>"

definition goal_continuation_turn ::
  "string \<Rightarrow> string \<Rightarrow> date \<Rightarrow> string \<Rightarrow> bot_engine_pick \<Rightarrow> 'a bot_goal_scheme \<Rightarrow> int \<Rightarrow> string option \<Rightarrow> bool \<Rightarrow>
     domain_error + bot_turn_entity \<times> bot_message" where
  "goal_continuation_turn turn_id message_id now owner pick g step reason last_timed_out =
     (case queue_turn turn_id now
             (owner_props (bg_organization g) owner pick (bg_time_zone g) (bg_scopes g) Bot_goal
                (goal_source_key (bg_id g) step)) of
        Inl e \<Rightarrow> Inl e
      | Inr t \<Rightarrow>
          (case event_message message_id now (bg_organization g) (pick_bot pick) (Some turn_id)
                  (goal_continuation_text g step reason last_timed_out) of
             Inl e \<Rightarrow> Inl e
           | Inr m \<Rightarrow> Inr (t, m)))"

fun goal_end_words :: "goal_ending \<Rightarrow> string" where
  "goal_end_words Goal_met = ''A reviewer found your goal met''"
| "goal_end_words Goal_impossible = ''A reviewer found your goal cannot be met without the person''"
| "goal_end_words Goal_cleared = ''The person stopped your goal''"
| "goal_end_words Goal_exhausted = ''Your goal used all its continuations and stopped''"
| "goal_end_words Goal_stopped = ''Your goal stopped because a turn of it failed or was stopped''"

definition goal_end_line ::
  "string \<Rightarrow> date \<Rightarrow> 'a bot_goal_scheme \<Rightarrow> goal_ending \<Rightarrow> string option \<Rightarrow> domain_error + bot_message" where
  "goal_end_line uuid now g ending reason =
     event_message uuid now (bg_organization g) (bg_bot g) None
       (js_join [CHR 0x0A] (filter (\<lambda>l. l \<noteq> [])
         [goal_end_words ending @ '' ('' @ string_of_int (bg_continuations g) @ '' of '' @
            string_of_int (bg_limit g) @ '' continuations): '' @ bg_objective g,
          if ending = Goal_stopped \<or> \<not> truthy reason then [] else ''Reason: '' @ the reason]))"

subsection \<open>The loop\<close>

definition loop_key_word :: string where
  "loop_key_word = ''loop:''"

definition loop_key_prefix :: "string \<Rightarrow> string" where
  "loop_key_prefix loop_id = loop_key_word @ loop_id @ '':''"

definition loop_source_key :: "string \<Rightarrow> int \<Rightarrow> string" where
  "loop_source_key loop_id run = loop_key_prefix loop_id @ string_of_int run"

record bot_loop =
  bl_id :: string
  bl_organization :: string
  bl_bot :: string
  bl_origin_turn :: string
  bl_prompt :: string
  bl_interval :: "int option"
  bl_runs :: int
  bl_next :: "date option"
  bl_expires :: date
  bl_scopes :: "scope list option"
  bl_time_zone :: "string option"
  bl_created :: date

record bot_loop_entity = bot_loop +
  bl_loaded_runs :: int
  bl_loaded_next :: "date option"

definition bot_loop_problem :: "'a bot_loop_scheme \<Rightarrow> domain_error option" where
  "bot_loop_problem l = check_all
     [(bl_organization l = [] \<or> bl_bot l = [] \<or> bl_origin_turn l = [],
       ArgumentNotProvided ''A loop belongs to a bot and the turn that set it''),
      (bl_prompt l = [] \<or> length (bl_prompt l) > bot_loop_prompt_max,
       ArgumentInvalid ''A loop's prompt is 1 to 2000 characters''),
      (bl_interval l \<noteq> None \<and>
       (the (bl_interval l) < bot_loop_interval_min_minutes \<or> the (bl_interval l) > bot_loop_interval_max_minutes),
       ArgumentInvalid ''A loop runs every 1 to 1440 minutes''),
      (bl_runs l < 0, ArgumentInvalid ''A loop counts its runs from 0'')]"

definition bot_loop_of :: "bot_loop \<Rightarrow> bot_loop_entity" where
  "bot_loop_of r =
     bot_loop.extend (r\<lparr>bl_scopes := scopes_of (bl_scopes r)\<rparr>)
       \<lparr>bl_loaded_runs = bl_runs r, bl_loaded_next = bl_next r\<rparr>"

definition set_bot_loop ::
  "string \<Rightarrow> string \<Rightarrow> string \<Rightarrow> string \<Rightarrow> string \<Rightarrow> int option \<Rightarrow> scope list option \<Rightarrow> string option \<Rightarrow> date \<Rightarrow>
     domain_error + bot_loop_entity" where
  "set_bot_loop uuid org bid origin prompt interval scopes zone now =
     (let next = (case interval of None \<Rightarrow> None | Some m \<Rightarrow> Some (now + m * 60000));
          l = \<lparr>bl_id = uuid, bl_organization = org, bl_bot = bid, bl_origin_turn = origin,
               bl_prompt = js_trim prompt, bl_interval = interval, bl_runs = 0, bl_next = next,
               bl_expires = now + bot_loop_lifetime_ms, bl_scopes = scopes, bl_time_zone = zone,
               bl_created = now, bl_loaded_runs = 0, bl_loaded_next = next\<rparr>
      in validated (bot_loop_problem l) l)"

definition self_paced :: "'a bot_loop_scheme \<Rightarrow> bool" where
  "self_paced l = (bl_interval l = None)"

definition loop_expired :: "'a bot_loop_scheme \<Rightarrow> date \<Rightarrow> bool" where
  "loop_expired l now = (now \<ge> bl_expires l)"

definition loop_ran :: "date option \<Rightarrow> bot_loop_entity \<Rightarrow> bot_loop_entity" where
  "loop_ran next l = l\<lparr>bl_runs := bl_runs l + 1, bl_next := next\<rparr>"

definition loop_move_next :: "date \<Rightarrow> bot_loop_entity \<Rightarrow> bot_loop_entity" where
  "loop_move_next next l = l\<lparr>bl_next := Some next\<rparr>"

definition loop_from_message ::
  "string \<Rightarrow> string \<Rightarrow> 'a bot_turn_scheme \<Rightarrow> date \<Rightarrow> (domain_error + bot_loop_entity) option" where
  "loop_from_message uuid content turn now =
     (case bot_loop_command_of (parse_bot_slash_command content) of
        None \<Rightarrow> None
      | Some Loop_clear \<Rightarrow> None
      | Some Loop_invalid \<Rightarrow> Some (Inl (ArgumentInvalid ''A loop runs every 1 minute to 1 day''))
      | Some (Loop_set interval prompt) \<Rightarrow>
          Some (set_bot_loop uuid (bt_organization turn) (bt_bot turn) (bt_id turn) prompt interval
                  (bt_scopes turn) (bt_time_zone turn) now))"

definition is_loop_turn :: "'a bot_loop_scheme \<Rightarrow> 'b bot_turn_scheme \<Rightarrow> bool" where
  "is_loop_turn l t = (bt_id t = bl_origin_turn l \<or> starts_with (bt_source_key t) (loop_key_prefix (bl_id l)))"

definition loop_run_of :: "'a bot_loop_scheme \<Rightarrow> 'b bot_turn_scheme \<Rightarrow> int option" where
  "loop_run_of l t =
     (if bt_id t = bl_origin_turn l then Some 0
      else if \<not> starts_with (bt_source_key t) (loop_key_prefix (bl_id l)) then None
      else int_of_number (js_to_number (drop (length (loop_key_prefix (bl_id l))) (the (bt_source_key t)))))"

definition may_act_on_loop :: "'a bot_loop_scheme \<Rightarrow> 'b bot_turn_scheme \<Rightarrow> bool" where
  "may_act_on_loop l t =
     (if is_loop_turn l t then True
      else if starts_with (bt_source_key t) loop_key_word then False
      else bt_created t \<ge> bl_created l)"

datatype loop_run_decision = Loop_stale | Loop_expire | Loop_run

definition loop_run_decide :: "'a bot_loop_scheme \<Rightarrow> int \<Rightarrow> date \<Rightarrow> date \<Rightarrow> loop_run_decision" where
  "loop_run_decide l run due now =
     (if run \<noteq> bl_runs l + 1 then Loop_stale
      else if bl_next l \<noteq> Some due then Loop_stale
      else if loop_expired l now then Loop_expire else Loop_run)"

definition next_run_after :: "'a bot_loop_scheme \<Rightarrow> date \<Rightarrow> date option" where
  "next_run_after l now =
     (case bl_interval l of
        None \<Rightarrow> None
      | Some m \<Rightarrow>
          (let step = m * 60000;
               from_at = or_default (bl_next l) now;
               slots = max 1 ((now - from_at) div step + 1)
           in Some (min (from_at + slots * step) (bl_expires l))))"

definition loop_busy_retry_ms :: int where
  "loop_busy_retry_ms = 60000"

definition next_run_when_busy :: "'a bot_loop_scheme \<Rightarrow> date \<Rightarrow> date" where
  "next_run_when_busy l now =
     (case next_run_after l now of Some at' \<Rightarrow> at' | None \<Rightarrow> min (now + loop_busy_retry_ms) (bl_expires l))"

text \<open>The minutes the bot asked for are rounded by \<open>Math.round\<close>, half up.\<close>

definition self_paced_run_at :: "'a bot_loop_scheme \<Rightarrow> rat \<Rightarrow> date \<Rightarrow> date" where
  "self_paced_run_at l minutes now =
     min (now + min (max 1 \<lfloor>minutes + 1 / 2\<rfloor>) bot_loop_self_paced_max_minutes * 60000) (bl_expires l)"

datatype loop_ending = Loop_cleared | Loop_expired | Loop_stopped | Loop_ended

datatype loop_end_decision = Loop_end loop_ending "string option" | Loop_retry | Loop_keep

definition passing_failure :: "bot_turn_failure option \<Rightarrow> bool" where
  "passing_failure f =
     (case f of None \<Rightarrow> False | Some x \<Rightarrow> x = Fail_time_limit \<or> bot_turn_failure_retries x)"

definition loop_run_end :: "'a bot_loop_scheme \<Rightarrow> 'b bot_turn_scheme \<Rightarrow> loop_end_decision" where
  "loop_run_end l ended =
     (if loop_run_of l ended \<noteq> Some (bl_runs l) then Loop_keep
      else if bt_status ended = Bot_cancelled then Loop_end Loop_stopped (Some ''cancelled'')
      else (let failed = (bt_status ended = Bot_failed) in
            if failed \<and> \<not> passing_failure (bt_failure ended) then Loop_end Loop_stopped (Some ''failed'')
            else if \<not> self_paced l \<or> bl_next l \<noteq> None then Loop_keep
            else if failed then Loop_retry else Loop_end Loop_ended None))"

definition every_unit :: "int \<Rightarrow> string \<Rightarrow> string" where
  "every_unit n unit =
     (if n = 1 then ''every '' @ unit else ''every '' @ string_of_int n @ '' '' @ unit @ ''s'')"

definition cadence_of :: "int option \<Rightarrow> string" where
  "cadence_of interval =
     (case interval of
        None \<Rightarrow> ''when you choose''
      | Some m \<Rightarrow>
          if m mod 1440 = 0 then every_unit (m div 1440) ''day''
          else if m mod 60 = 0 then every_unit (m div 60) ''hour''
          else every_unit m ''minute'')"

definition loop_rules :: "bool \<Rightarrow> string list" where
  "loop_rules paced =
     [''Do it now and report briefly what you found; if nothing changed since your last run, say so in a line.''] @
     (if paced
      then [''Before you finish, call schedule_loop with when to run next, 1 to 60 minutes from now: sooner '' @
            ''while things are changing, later when they are quiet. If you do not, the loop ends.''] else []) @
     [''When the loop has served its purpose (what it watches finished, or it cannot go on without the '' @
      ''person), call end_loop and say why.'']"

definition loop_run_text :: "'a bot_loop_scheme \<Rightarrow> int \<Rightarrow> string" where
  "loop_run_text l shown =
     js_join [CHR 0x0A]
       ([''Run '' @ string_of_int shown @ '' of your loop, which the person set with /loop to run '' @
           cadence_of (bl_interval l) @ '': '' @ bl_prompt l,
         ''Nobody wrote to you: this turn exists for the loop. Read what your last runs found, so you report what is new.''] @
        loop_rules (self_paced l))"

definition loop_run_turn ::
  "string \<Rightarrow> string \<Rightarrow> date \<Rightarrow> string \<Rightarrow> bot_engine_pick \<Rightarrow> 'a bot_loop_scheme \<Rightarrow> int \<Rightarrow>
     domain_error + bot_turn_entity \<times> bot_message" where
  "loop_run_turn turn_id message_id now owner pick l run =
     (case queue_turn turn_id now
             (owner_props (bl_organization l) owner pick (bl_time_zone l) (bl_scopes l) Bot_loop
                (loop_source_key (bl_id l) run)) of
        Inl e \<Rightarrow> Inl e
      | Inr t \<Rightarrow>
          (case event_message message_id now (bl_organization l) (pick_bot pick) (Some turn_id)
                  (loop_run_text l (run + 1)) of
             Inl e \<Rightarrow> Inl e
           | Inr m \<Rightarrow> Inr (t, m)))"

fun loop_end_words :: "loop_ending \<Rightarrow> string" where
  "loop_end_words Loop_cleared = ''The person stopped your loop''"
| "loop_end_words Loop_expired = ''Your loop ran for 3 days and expired''"
| "loop_end_words Loop_stopped = ''Your loop stopped because a run of it failed or was stopped''"
| "loop_end_words Loop_ended = ''Your loop ended: its last run did not call schedule_loop''"

definition loop_end_line :: "string \<Rightarrow> date \<Rightarrow> 'a bot_loop_scheme \<Rightarrow> loop_ending \<Rightarrow> domain_error + bot_message" where
  "loop_end_line uuid now l ending =
     event_message uuid now (bl_organization l) (bl_bot l) None
       (loop_end_words ending @ '' (after '' @ string_of_int (bl_runs l + 1) @ '' runs): '' @ bl_prompt l)"

end
