(* ===== verification/Bot_Queue.thy ===== *)
theory Bot_Queue
  imports Bot_Goal
begin

section \<open>The queue of each bot's turns, in the database\<close>

text \<open>
  \<^verbatim>\<open>apps/api/src/bots-chat/database/bot-turn.repository.ts\<close> and what it uses of
  \<^verbatim>\<open>bot-goal.repository.ts\<close>, \<^verbatim>\<open>bot-loop.repository.ts\<close>, \<^verbatim>\<open>bot-attachment.repository.ts\<close> and
  \<^verbatim>\<open>bot-message.repository.ts\<close>: every transaction that queues, claims, ends, moves or deletes a turn, as
  a function on the tables. A table is the list of its rows. A statement that breaks a constraint of
  the table (\<^verbatim>\<open>bot-turn.orm-entity.ts\<close> and the migrations that add its keys) is \<open>Inl\<close>, and the
  transaction then writes nothing. A job a transaction stages on the outbox is added to the list of
  jobs in the same step. The clock is an argument, one reading per transaction.
\<close>

subsection \<open>The tables\<close>

record bot_row =
  br_organization :: string
  br_id :: string
  br_last_message_at :: "date option"
  br_last_preview :: "string option"

record bot_attachment_row =
  ba_id :: string
  ba_organization :: string
  ba_bot :: string
  ba_message :: "string option"
  ba_uploader :: "string option"
  ba_created :: date

datatype bot_job =
    Run_bot_turn string
  | Deliver_bot_answer string
  | Finish_bot_loop_run string
  | Continue_bot_goal string "date option"
  | Run_bot_loop string int date

record bot_store =
  st_bots :: "bot_row list"
  st_turns :: "bot_turn list"
  st_messages :: "bot_message list"
  st_attachments :: "bot_attachment_row list"
  st_goals :: "bot_goal list"
  st_loops :: "bot_loop list"
  st_jobs :: "bot_job list"

datatype db_error = Unique_violation string | Foreign_key_violation string

definition stage_job :: "bot_job \<Rightarrow> bot_store \<Rightarrow> bot_store" where
  "stage_job j s = s\<lparr>st_jobs := st_jobs s @ [j]\<rparr>"

definition is_active :: "'a bot_turn_scheme \<Rightarrow> bool" where
  "is_active t = (bt_status t = Bot_queued \<or> bt_status t = Bot_running)"

definition of_bot :: "string \<Rightarrow> string \<Rightarrow> 'a bot_turn_scheme \<Rightarrow> bool" where
  "of_bot org bid t = (bt_organization t = org \<and> bt_bot t = bid)"

definition active_turns :: "string \<Rightarrow> string \<Rightarrow> bot_store \<Rightarrow> bot_turn list" where
  "active_turns org bid s = filter (\<lambda>t. of_bot org bid t \<and> is_active t) (st_turns s)"

definition lock_bot :: "string \<Rightarrow> string \<Rightarrow> bot_store \<Rightarrow> bool" where
  "lock_bot org bid s = list_ex (\<lambda>b. br_organization b = org \<and> br_id b = bid) (st_bots s)"

definition find_turn :: "string \<Rightarrow> bot_store \<Rightarrow> bot_turn option" where
  "find_turn tid s = find (\<lambda>t. bt_id t = tid) (st_turns s)"

subsection \<open>Writing a turn and its message\<close>

definition turn_referenced :: "string \<Rightarrow> string option \<Rightarrow> bot_store \<Rightarrow> bool" where
  "turn_referenced org ref s =
     (case ref of None \<Rightarrow> True | Some r \<Rightarrow> list_ex (\<lambda>t. bt_organization t = org \<and> bt_id t = r) (st_turns s))"

definition insert_turn :: "date \<Rightarrow> 'a bot_turn_scheme \<Rightarrow> bot_store \<Rightarrow> db_error + bot_store" where
  "insert_turn now t s =
     (if list_ex (\<lambda>r. bt_id r = bt_id t) (st_turns s) then Inl (Unique_violation ''PK_bot_turn'')
      else if bt_status t = Bot_running \<and> list_ex (\<lambda>r. bt_bot r = bt_bot t \<and> bt_status r = Bot_running) (st_turns s)
      then Inl (Unique_violation ''UQ_bot_turn_running'')
      else if bt_source_key t \<noteq> None \<and>
              list_ex (\<lambda>r. bt_bot r = bt_bot t \<and> bt_source_key r = bt_source_key t) (st_turns s)
      then Inl (Unique_violation ''UQ_bot_turn_source'')
      else if bt_answers t \<noteq> None \<and>
              list_ex (\<lambda>r. bt_organization r = bt_organization t \<and> bt_answers r = bt_answers t) (st_turns s)
      then Inl (Unique_violation ''UQ_bot_turn_answers'')
      else if \<not> lock_bot (bt_organization t) (bt_bot t) s then Inl (Foreign_key_violation ''FK_bot_turn_bot'')
      else if bt_asked_by_bot t \<noteq> None \<and> \<not> lock_bot (bt_organization t) (the (bt_asked_by_bot t)) s
      then Inl (Foreign_key_violation ''FK_bot_turn_asked_by_bot'')
      else if \<not> turn_referenced (bt_organization t) (bt_asked_by_turn t) s
      then Inl (Foreign_key_violation ''FK_bot_turn_asked_by_turn'')
      else if \<not> turn_referenced (bt_organization t) (bt_answers t) s
      then Inl (Foreign_key_violation ''FK_bot_turn_answers_turn'')
      else Inr (s\<lparr>st_turns := st_turns s @ [bot_turn.truncate t\<lparr>bt_created := now\<rparr>]\<rparr>))"

definition preview_max :: nat where
  "preview_max = 200"

text \<open>\<open>content.replace(/\s+/g, ' ').trim()\<close>\<close>

fun one_space :: "bool \<Rightarrow> string \<Rightarrow> string" where
  "one_space in_run [] = []"
| "one_space in_run (c # s) =
     (if js_space c then (if in_run then one_space True s else CHR '' '' # one_space True s)
      else c # one_space False s)"

definition insert_message :: "date \<Rightarrow> bot_message \<Rightarrow> bot_store \<Rightarrow> bot_store" where
  "insert_message now m s =
     (let s = s\<lparr>st_messages := st_messages s @ [m\<lparr>bm_created := now\<rparr>]\<rparr> in
      if bm_role m = Role_activity \<or> bm_role m = Role_event then s
      else if bm_role m = Role_assistant \<and> bm_content m = [] then s
      else s\<lparr>st_bots := map (\<lambda>b. if br_organization b = bm_organization m \<and> br_id b = bm_bot m
               then b\<lparr>br_last_message_at := Some now,
                      br_last_preview := Some (take preview_max (js_trim (one_space False (bm_content m))))\<rparr>
               else b) (st_bots s)\<rparr>)"

definition attachment_send_window_ms :: int where
  "attachment_send_window_ms = 23 * 60 * 60 * 1000"

text \<open>The images of a message, claimed for it: whether every one was.\<close>

definition claim_attachments :: "bot_message \<Rightarrow> string \<Rightarrow> date \<Rightarrow> bot_store \<Rightarrow> bool \<times> bot_store" where
  "claim_attachments m sender sent_at s =
     (let claimed = (\<lambda>a. ba_id a \<in> set (bm_attachments m) \<and> ba_organization a = bm_organization m \<and>
                         ba_bot a = bm_bot m \<and> ba_message a = None \<and>
                         ba_created a > sent_at - attachment_send_window_ms \<and> ba_uploader a = Some sender)
      in if bm_attachments m = [] then (True, s)
         else (length (filter claimed (st_attachments s)) = length (bm_attachments m),
               s\<lparr>st_attachments := map (\<lambda>a. if claimed a then a\<lparr>ba_message := Some (bm_id m)\<rparr> else a) (st_attachments s)\<rparr>))"

definition claim_attachments_to ::
  "'a bot_turn_scheme \<Rightarrow> bot_message \<Rightarrow> date \<Rightarrow> bot_store \<Rightarrow> bool \<times> bot_store" where
  "claim_attachments_to t m now s =
     (if bm_attachments m = [] then (True, s)
      else (case bt_requester t of
              None \<Rightarrow> (False, s)
            | Some u \<Rightarrow> if u = [] then (False, s) else claim_attachments m u now s))"

subsection \<open>Queueing\<close>

datatype enqueue_outcome =
    Enq_staged | Enq_waiting | Enq_missing | Enq_attachments_taken | Enq_existing string | Enq_busy
  | Enq_lost | Enq_duplicate | Enq_chain_gone | Enq_refused string

definition enqueue_locked ::
  "date \<Rightarrow> 'a bot_turn_scheme \<Rightarrow> bot_message \<Rightarrow> bot_store \<Rightarrow> db_error + enqueue_outcome \<times> bot_store" where
  "enqueue_locked now t m s =
     (let active = length (active_turns (bt_organization t) (bt_bot t) s) in
      case insert_turn now t s of
        Inl e \<Rightarrow> Inl e
      | Inr s1 \<Rightarrow>
          (let s2 = insert_message now m s1 in
           if active > 0 then Inr (Enq_waiting, s2)
           else Inr (Enq_staged, stage_job (Run_bot_turn (bt_id t)) s2)))"

definition enqueue_within ::
  "date \<Rightarrow> 'a bot_turn_scheme \<Rightarrow> bot_message \<Rightarrow> bot_store \<Rightarrow> db_error + enqueue_outcome \<times> bot_store" where
  "enqueue_within now t m s =
     (if \<not> lock_bot (bt_organization t) (bt_bot t) s then Inr (Enq_missing, s)
      else enqueue_locked now t m s)"

definition stage_loop_run :: "'a bot_loop_scheme \<Rightarrow> bot_store \<Rightarrow> bot_store" where
  "stage_loop_run l s =
     (case bl_next l of None \<Rightarrow> s | Some due \<Rightarrow> stage_job (Run_bot_loop (bl_id l) (bl_runs l + 1) due) s)"

definition find_goal :: "string \<Rightarrow> string \<Rightarrow> bot_store \<Rightarrow> bot_goal option" where
  "find_goal org bid s = find (\<lambda>g. bg_organization g = org \<and> bg_bot g = bid) (st_goals s)"

definition find_loop :: "string \<Rightarrow> string \<Rightarrow> bot_store \<Rightarrow> bot_loop option" where
  "find_loop org bid s = find (\<lambda>l. bl_organization l = org \<and> bl_bot l = bid) (st_loops s)"

definition set_goal_within :: "'a bot_goal_scheme \<Rightarrow> bot_store \<Rightarrow> bot_goal option \<times> bot_store" where
  "set_goal_within g s =
     (let previous = find_goal (bg_organization g) (bg_bot g) s;
          kept = (case previous of None \<Rightarrow> st_goals s
                  | Some p \<Rightarrow> filter (\<lambda>r. bg_id r \<noteq> bg_id p) (st_goals s))
      in (previous, s\<lparr>st_goals := kept @ [bot_goal.truncate g]\<rparr>))"

definition set_loop_within :: "'a bot_loop_scheme \<Rightarrow> bot_store \<Rightarrow> bot_loop option \<times> bot_store" where
  "set_loop_within l s =
     (let previous = find_loop (bl_organization l) (bl_bot l) s;
          kept = (case previous of None \<Rightarrow> st_loops s
                  | Some p \<Rightarrow> filter (\<lambda>r. bl_id r \<noteq> bl_id p) (st_loops s))
      in (previous, stage_loop_run l (s\<lparr>st_loops := kept @ [bot_loop.truncate l]\<rparr>)))"

text \<open>What a sent message sets with its turn.\<close>

datatype bot_setting = Sets_nothing | Sets_goal bot_goal_entity | Sets_loop bot_loop_entity

datatype bot_replaced = Replaced_nothing | Replaced_goal bot_goal | Replaced_loop bot_loop

definition settle :: "bot_setting \<Rightarrow> bot_store \<Rightarrow> bot_replaced \<times> bot_store" where
  "settle setting s =
     (case setting of
        Sets_nothing \<Rightarrow> (Replaced_nothing, s)
      | Sets_goal g \<Rightarrow>
          (case set_goal_within g s of
             (None, s') \<Rightarrow> (Replaced_nothing, s') | (Some p, s') \<Rightarrow> (Replaced_goal p, s'))
      | Sets_loop l \<Rightarrow>
          (case set_loop_within l s of
             (None, s') \<Rightarrow> (Replaced_nothing, s') | (Some p, s') \<Rightarrow> (Replaced_loop p, s')))"

definition enqueue_setting ::
  "date \<Rightarrow> 'a bot_turn_scheme \<Rightarrow> bot_message \<Rightarrow> bot_setting \<Rightarrow> bot_store \<Rightarrow>
     db_error + enqueue_outcome \<times> bot_replaced \<times> bot_store" where
  "enqueue_setting now t m setting s =
     (case enqueue_within now t m s of
        Inl e \<Rightarrow> Inl e
      | Inr (outcome, s1) \<Rightarrow>
          if outcome = Enq_missing then Inr (outcome, Replaced_nothing, s1)
          else (case claim_attachments_to t m now s1 of
                  (False, _) \<Rightarrow> Inr (Enq_attachments_taken, Replaced_nothing, s)
                | (True, s2) \<Rightarrow> (case settle setting s2 of (replaced, s3) \<Rightarrow> Inr (outcome, replaced, s3))))"

definition enqueue_once ::
  "date \<Rightarrow> 'a bot_turn_scheme \<Rightarrow> bot_message \<Rightarrow> string option \<Rightarrow> bot_store \<Rightarrow>
     db_error + enqueue_outcome \<times> bot_store" where
  "enqueue_once now t m busy_prefix s =
     (if \<not> lock_bot (bt_organization t) (bt_bot t) s then Inr (Enq_missing, s)
      else case find (\<lambda>r. bt_bot r = bt_bot t \<and> bt_source_key r = bt_source_key t) (st_turns s) of
        Some r \<Rightarrow> Inr (Enq_existing (bt_id r), s)
      | None \<Rightarrow>
          (case busy_prefix of
             Some p \<Rightarrow>
               if list_ex (\<lambda>r. starts_with (bt_source_key r) p) (active_turns (bt_organization t) (bt_bot t) s)
               then Inr (Enq_busy, s) else enqueue_locked now t m s
           | None \<Rightarrow> enqueue_locked now t m s))"

text \<open>The goal's count, conditional on the count it was loaded at; whether the write won.\<close>

definition claim_continuation :: "bot_goal_entity \<Rightarrow> bot_store \<Rightarrow> bool \<times> bot_store" where
  "claim_continuation g s =
     (let hit = (\<lambda>r. bg_id r = bg_id g \<and> bg_continuations r = bg_loaded g) in
      (length (filter hit (st_goals s)) = 1,
       s\<lparr>st_goals := map (\<lambda>r. if hit r
            then r\<lparr>bg_continuations := bg_continuations g, bg_waiting := bg_waiting g\<rparr> else r) (st_goals s)\<rparr>))"

definition enqueue_continuation ::
  "date \<Rightarrow> 'a bot_turn_scheme \<Rightarrow> bot_message \<Rightarrow> bot_goal_entity \<Rightarrow> bot_store \<Rightarrow>
     db_error + enqueue_outcome \<times> bot_store" where
  "enqueue_continuation now t m g s =
     (if \<not> lock_bot (bt_organization t) (bt_bot t) s then Inr (Enq_missing, s)
      else case find (\<lambda>r. bt_bot r = bt_bot t \<and> bt_source_key r = bt_source_key t) (st_turns s) of
        Some r \<Rightarrow> Inr (Enq_existing (bt_id r), s)
      | None \<Rightarrow>
          (case claim_continuation g s of
             (False, s1) \<Rightarrow> Inr (Enq_lost, s1)
           | (True, s1) \<Rightarrow> enqueue_locked now t m s1))"

definition claim_loop :: "bot_loop_entity \<Rightarrow> bot_store \<Rightarrow> bool \<times> bot_store" where
  "claim_loop l s =
     (let hit = (\<lambda>r. bl_id r = bl_id l \<and> bl_runs r = bl_loaded_runs l \<and> bl_next r = bl_loaded_next l) in
      (length (filter hit (st_loops s)) = 1,
       s\<lparr>st_loops := map (\<lambda>r. if hit r then r\<lparr>bl_runs := bl_runs l, bl_next := bl_next l\<rparr> else r) (st_loops s)\<rparr>))"

definition enqueue_loop_run ::
  "date \<Rightarrow> 'a bot_turn_scheme \<Rightarrow> bot_message \<Rightarrow> bot_loop_entity \<Rightarrow> date option \<Rightarrow> date \<Rightarrow> bot_store \<Rightarrow>
     db_error + enqueue_outcome \<times> bot_store" where
  "enqueue_loop_run now t m l next when_busy s =
     (if \<not> lock_bot (bt_organization t) (bt_bot t) s then Inr (Enq_missing, s)
      else if list_ex (\<lambda>r. starts_with (bt_source_key r) (loop_key_prefix (bl_id l)) \<or> bt_id r = bl_origin_turn l)
                (active_turns (bt_organization t) (bt_bot t) s)
      then (let l' = loop_move_next when_busy l in
            case claim_loop l' s of
              (False, s1) \<Rightarrow> Inr (Enq_lost, s1)
            | (True, s1) \<Rightarrow> Inr (Enq_busy, stage_loop_run l' s1))
      else (let l' = loop_ran next l in
            case claim_loop l' s of
              (False, s1) \<Rightarrow> Inr (Enq_lost, s1)
            | (True, s1) \<Rightarrow> enqueue_locked now t m (stage_loop_run l' s1)))"

text \<open>What a chain holds: the bots of its turns, the first one's included, and the asks so far.\<close>

definition is_ask :: "string \<Rightarrow> string \<Rightarrow> 'a bot_turn_scheme \<Rightarrow> bool" where
  "is_ask org chain t =
     (bt_organization t = org \<and> bt_chain t = Some chain \<and> bt_lane t = Lane_bots \<and> bt_answers t = None)"

definition chain_state_within :: "string \<Rightarrow> string \<Rightarrow> bot_store \<Rightarrow> bot_chain_state" where
  "chain_state_within org chain s =
     \<lparr>chain_bots = remdups (map bt_bot (filter (\<lambda>t. bt_organization t = org \<and>
                      (bt_id t = chain \<or> bt_chain t = Some chain)) (st_turns s))),
      chain_asks = int (length (filter (is_ask org chain) (st_turns s)))\<rparr>"

definition enqueue_from_bot ::
  "date \<Rightarrow> 'a bot_turn_scheme \<Rightarrow> bot_message \<Rightarrow> (bot_chain_state \<Rightarrow> bot_chain_verdict) \<Rightarrow> bot_store \<Rightarrow>
     db_error + enqueue_outcome \<times> bot_store" where
  "enqueue_from_bot now t m decide s =
     (let chain = the (bt_chain t) in
      if \<not> list_ex (\<lambda>r. bt_organization r = bt_organization t \<and> bt_id r = chain) (st_turns s)
      then Inr (Enq_chain_gone, s)
      else case decide (chain_state_within (bt_organization t) chain s) of
        Chain_refused refusal \<Rightarrow> Inr (Enq_refused refusal, s)
      | Chain_allowed \<Rightarrow> enqueue_within now t m s)"

definition enqueue_answer ::
  "date \<Rightarrow> 'a bot_turn_scheme \<Rightarrow> bot_message \<Rightarrow> bot_store \<Rightarrow> db_error + enqueue_outcome \<times> bot_store" where
  "enqueue_answer now t m s =
     (case enqueue_within now t m s of
        Inl e \<Rightarrow> if e = Unique_violation ''UQ_bot_turn_answers'' then Inr (Enq_duplicate, s) else Inl e
      | Inr r \<Rightarrow> Inr r)"

subsection \<open>Claiming and ending\<close>

datatype claim_outcome = Claim_claimed | Claim_busy | Claim_lost

definition claim_turn :: "bot_turn_entity \<Rightarrow> bot_store \<Rightarrow> claim_outcome \<times> bot_turn_entity \<times> bot_store" where
  "claim_turn t s =
     (let hit = (\<lambda>r. bt_id r = bt_id t \<and> bt_status r = bt_loaded t);
          hits = filter hit (st_turns s) in
      if length hits \<noteq> 1 then (Claim_lost, t, s)
      else if list_ex (\<lambda>r. bt_bot r = bt_bot (hd hits) \<and> bt_status r = Bot_running \<and> bt_id r \<noteq> bt_id t) (st_turns s)
      then (Claim_busy, t, s)
      else (Claim_claimed, mark_turn_persisted t,
            s\<lparr>st_turns := map (\<lambda>r. if hit r then r\<lparr>bt_status := bt_status t, bt_started := bt_started t\<rparr> else r)
                 (st_turns s)\<rparr>))"

fun lane_order :: "bot_turn_lane \<Rightarrow> nat" where
  "lane_order Lane_owner = 0"
| "lane_order Lane_bots = 1"
| "lane_order Lane_background = 2"

definition turn_before :: "bot_turn \<Rightarrow> bot_turn \<Rightarrow> bool" where
  "turn_before a b =
     (if lane_order (bt_lane a) \<noteq> lane_order (bt_lane b) then lane_order (bt_lane a) < lane_order (bt_lane b)
      else if bt_created a \<noteq> bt_created b then bt_created a < bt_created b
      else bt_id a < bt_id b)"

fun first_turn :: "bot_turn list \<Rightarrow> bot_turn option" where
  "first_turn [] = None"
| "first_turn (t # ts) =
     (case first_turn ts of None \<Rightarrow> Some t | Some u \<Rightarrow> if turn_before u t then Some u else Some t)"

definition next_turn :: "string \<Rightarrow> string \<Rightarrow> bot_store \<Rightarrow> bot_turn option" where
  "next_turn org bid s =
     (if list_ex (\<lambda>r. of_bot org bid r \<and> bt_status r = Bot_running) (st_turns s) then None
      else first_turn (filter (\<lambda>t. of_bot org bid t \<and> bt_status t = Bot_queued) (st_turns s)))"

definition stage_next :: "'a bot_turn_scheme \<Rightarrow> bot_store \<Rightarrow> bot_store" where
  "stage_next t s =
     (case next_turn (bt_organization t) (bt_bot t) s of
        None \<Rightarrow> s
      | Some n \<Rightarrow> stage_job (Run_bot_turn (bt_id n)) s)"

definition owes_loop :: "'a bot_turn_scheme \<Rightarrow> bot_store \<Rightarrow> bool" where
  "owes_loop t s =
     (starts_with (bt_source_key t) loop_key_word \<or>
      list_ex (\<lambda>l. bl_organization l = bt_organization t \<and> bl_origin_turn l = bt_id t) (st_loops s))"

definition owes_goal :: "'a bot_turn_scheme \<Rightarrow> bot_store \<Rightarrow> bool" where
  "owes_goal t s =
     (starts_with (bt_source_key t) goal_key_word \<or>
      list_ex (\<lambda>g. bg_organization g = bt_organization t \<and> bg_origin_turn g = bt_id t) (st_goals s))"

definition hold_goal_within :: "'a bot_turn_scheme \<Rightarrow> bot_rate_limit \<Rightarrow> bot_store \<Rightarrow> bot_store" where
  "hold_goal_within t limit s =
     (case find_goal (bt_organization t) (bt_bot t) s of
        None \<Rightarrow> s
      | Some g \<Rightarrow>
          if \<not> is_goal_turn g t then s
          else s\<lparr>st_goals := map (\<lambda>r. if bg_id r = bg_id g
                   then r\<lparr>bg_waiting := bg_waiting (hold_goal limit g)\<rparr> else r) (st_goals s)\<rparr>)"

definition stage_goal_decision :: "date \<Rightarrow> bot_turn_entity \<Rightarrow> bot_store \<Rightarrow> bot_store" where
  "stage_goal_decision now t s =
     (if \<not> owes_goal t s then s
      else (case held_by (bt_limited t) now of
              None \<Rightarrow> stage_job (Continue_bot_goal (bt_id t) None) s
            | Some l \<Rightarrow> stage_job (Continue_bot_goal (bt_id t) (Some (limit_reset l))) (hold_goal_within t l s)))"

text \<open>The columns an end writes.\<close>

definition ended_columns :: "'a bot_turn_scheme \<Rightarrow> bot_turn \<Rightarrow> bot_turn" where
  "ended_columns t r =
     r\<lparr>bt_status := bt_status t, bt_error := bt_error t, bt_failure := bt_failure t,
       bt_input_tokens := bt_input_tokens t, bt_output_tokens := bt_output_tokens t,
       bt_cache_read_tokens := bt_cache_read_tokens t, bt_cache_write_tokens := bt_cache_write_tokens t,
       bt_context := bt_context t, bt_plan_limits := bt_plan_limits t, bt_ended_at := bt_ended_at t\<rparr>"

definition finish_turn :: "date \<Rightarrow> bot_turn_entity \<Rightarrow> bot_store \<Rightarrow> bool \<times> bot_store" where
  "finish_turn now t s =
     (let hit = (\<lambda>r. bt_id r = bt_id t \<and> bt_status r = bt_loaded t) in
      if length (filter hit (st_turns s)) \<noteq> 1 then (False, s)
      else (let s1 = s\<lparr>st_turns := map (\<lambda>r. if hit r then ended_columns t r else r) (st_turns s)\<rparr>;
                s2 = stage_next t s1;
                s3 = (if bt_reply_requested t \<and> bt_asked_by_turn t \<noteq> None
                      then stage_job (Deliver_bot_answer (bt_id t)) s2 else s2);
                s4 = (if owes_loop t s3 then stage_job (Finish_bot_loop_run (bt_id t)) s3 else s3)
            in (True, stage_goal_decision now t s4)))"

definition request_cancel :: "'a bot_turn_scheme \<Rightarrow> date \<Rightarrow> bot_store \<Rightarrow> bool \<times> bot_store" where
  "request_cancel t now s =
     (let hit = (\<lambda>r. bt_id r = bt_id t \<and> bt_status r = Bot_running) in
      (length (filter hit (st_turns s)) = 1,
       s\<lparr>st_turns := map (\<lambda>r. if hit r then r\<lparr>bt_cancel_requested := Some now\<rparr> else r) (st_turns s)\<rparr>))"

subsection \<open>Deleting\<close>

text \<open>
  Deleting rows, and what the keys onto them do: the messages of a deleted turn and the goal and loop
  it set go with it, the turns that refer to it and the images of a deleted message lose the
  reference. An event outside any turn has no key to anything.
\<close>

definition unset_ref :: "(string \<times> string) list \<Rightarrow> string \<Rightarrow> string option \<Rightarrow> string option" where
  "unset_ref gone org ref = (case ref of None \<Rightarrow> None | Some r \<Rightarrow> if (org, r) \<in> set gone then None else Some r)"

definition delete_messages :: "(bot_message \<Rightarrow> bool) \<Rightarrow> bot_store \<Rightarrow> bot_store" where
  "delete_messages P s =
     (let gone = map bm_id (filter P (st_messages s)) in
      s\<lparr>st_messages := filter (\<lambda>m. \<not> P m) (st_messages s),
        st_attachments := map (\<lambda>a. if ba_message a \<in> Some ` set gone then a\<lparr>ba_message := None\<rparr> else a) (st_attachments s)\<rparr>)"

definition delete_turns :: "(bot_turn \<Rightarrow> bool) \<Rightarrow> bot_store \<Rightarrow> bot_store" where
  "delete_turns P s =
     (let gone = map (\<lambda>t. (bt_organization t, bt_id t)) (filter P (st_turns s));
          s1 = delete_messages (\<lambda>m. unset_ref gone (bm_organization m) (bm_turn m) \<noteq> bm_turn m) s
      in s1\<lparr>st_turns := map (\<lambda>t. t\<lparr>bt_asked_by_turn := unset_ref gone (bt_organization t) (bt_asked_by_turn t),
                                   bt_answers := unset_ref gone (bt_organization t) (bt_answers t)\<rparr>)
              (filter (\<lambda>t. \<not> P t) (st_turns s)),
            st_goals := filter (\<lambda>g. (bg_organization g, bg_origin_turn g) \<notin> set gone) (st_goals s),
            st_loops := filter (\<lambda>l. (bl_organization l, bl_origin_turn l) \<notin> set gone) (st_loops s)\<rparr>)"

definition delete_bot :: "string \<Rightarrow> string \<Rightarrow> bot_store \<Rightarrow> bot_store" where
  "delete_bot org bid s =
     (let s1 = delete_turns (of_bot org bid) s in
      s1\<lparr>st_bots := filter (\<lambda>b. \<not> (br_organization b = org \<and> br_id b = bid)) (st_bots s1),
         st_turns := map (\<lambda>t. if bt_organization t = org \<and> bt_asked_by_bot t = Some bid
                              then t\<lparr>bt_asked_by_bot := None\<rparr> else t) (st_turns s1),
         st_goals := filter (\<lambda>g. \<not> (bg_organization g = org \<and> bg_bot g = bid)) (st_goals s1),
         st_loops := filter (\<lambda>l. \<not> (bl_organization l = org \<and> bl_bot l = bid)) (st_loops s1)\<rparr>)"

definition delete_account :: "string \<Rightarrow> bot_store \<Rightarrow> bot_store" where
  "delete_account user s =
     s\<lparr>st_turns := map (\<lambda>t. if bt_requester t = Some user then t\<lparr>bt_requester := None\<rparr> else t) (st_turns s),
       st_attachments := map (\<lambda>a. if ba_uploader a = Some user then a\<lparr>ba_uploader := None\<rparr> else a) (st_attachments s)\<rparr>"

datatype clear_outcome = Clear_cleared | Clear_busy | Clear_missing

definition clear_conversation :: "string \<Rightarrow> string \<Rightarrow> bot_store \<Rightarrow> clear_outcome \<times> bot_store" where
  "clear_conversation org bid s =
     (if \<not> lock_bot org bid s then (Clear_missing, s)
      else if length (active_turns org bid s) > 0 then (Clear_busy, s)
      else (Clear_cleared,
            (let s1 = delete_messages (\<lambda>m. bm_organization m = org \<and> bm_bot m = bid) s in
             delete_turns (of_bot org bid)
              (s1\<lparr>st_bots := map (\<lambda>b. if br_organization b = org \<and> br_id b = bid
                   then b\<lparr>br_last_message_at := None, br_last_preview := None\<rparr> else b) (st_bots s1)\<rparr>))))"

text \<open>
  One steer's message moved into the running turn, and its queued turn deleted. A message cannot be
  moved to a turn that is gone.
\<close>

definition steer_message :: "string \<Rightarrow> string \<Rightarrow> bot_store \<Rightarrow> bot_message \<Rightarrow> bool" where
  "steer_message org steer s m =
     (bm_organization m = org \<and> bm_turn m = Some steer \<and> bm_role m = Role_user \<and> bm_attachments m = [] \<and>
      list_ex (\<lambda>t. bt_organization t = org \<and> bt_id t = steer \<and> bt_status t = Bot_queued) (st_turns s))"

definition last_position :: "string \<Rightarrow> string \<Rightarrow> bot_store \<Rightarrow> int" where
  "last_position org turn s =
     foldr max (map bm_position (filter (\<lambda>m. bm_organization m = org \<and> bm_turn m = Some turn) (st_messages s))) 0"

definition move_steer ::
  "date \<Rightarrow> 'a bot_turn_scheme \<Rightarrow> 'b bot_turn_scheme \<Rightarrow> bot_store \<Rightarrow> db_error + bot_message option \<times> bot_store" where
  "move_steer now running steer s =
     (let org = bt_organization running;
          moved = filter (steer_message org (bt_id steer) s) (st_messages s);
          s1 = s\<lparr>st_messages := map (\<lambda>m. if steer_message org (bt_id steer) s m
                  then m\<lparr>bm_turn := Some (bt_id running), bm_created := now,
                         bm_position := last_position org (bt_id running) s + 1\<rparr> else m) (st_messages s)\<rparr>
      in case moved of
           [] \<Rightarrow> Inr (None, s)
         | m # _ \<Rightarrow>
             if \<not> turn_referenced org (Some (bt_id running)) s then Inl (Foreign_key_violation ''FK_bot_message_turn'')
             else Inr (Some m, delete_turns (\<lambda>t. bt_organization t = org \<and> bt_id t = bt_id steer) s1))"

definition older_turn :: "bot_turn \<Rightarrow> bot_turn \<Rightarrow> bool" where
  "older_turn a b = (bt_created a < bt_created b \<or> bt_created a = bt_created b \<and> bt_id a \<le> bt_id b)"

fun insert_by_age :: "bot_turn \<Rightarrow> bot_turn list \<Rightarrow> bot_turn list" where
  "insert_by_age t [] = [t]"
| "insert_by_age t (u # us) = (if older_turn t u then t # u # us else u # insert_by_age t us)"

definition by_age :: "bot_turn list \<Rightarrow> bot_turn list" where
  "by_age ts = foldr insert_by_age ts []"

fun move_steers ::
  "date \<Rightarrow> 'a bot_turn_scheme \<Rightarrow> bot_turn list \<Rightarrow> bot_store \<Rightarrow> db_error + bot_message list \<times> bot_store" where
  "move_steers now running [] s = Inr ([], s)"
| "move_steers now running (t # ts) s =
     (case move_steer now running t s of
        Inl e \<Rightarrow> Inl e
      | Inr (moved, s1) \<Rightarrow>
          (case move_steers now running ts s1 of
             Inl e \<Rightarrow> Inl e
           | Inr (rest, s2) \<Rightarrow> Inr ((case moved of None \<Rightarrow> [] | Some m \<Rightarrow> [m]) @ rest, s2)))"

definition take_steers ::
  "date \<Rightarrow> 'a bot_turn_scheme \<Rightarrow> bot_store \<Rightarrow> db_error + bot_message list \<times> bot_store" where
  "take_steers now running s =
     (if \<not> lock_bot (bt_organization running) (bt_bot running) s then Inr ([], s)
      else move_steers now running
             (filter (takes_steer running)
               (by_age (filter (\<lambda>t. of_bot (bt_organization running) (bt_bot running) t \<and>
                           bt_status t = Bot_queued \<and> bt_steer t) (st_turns s)))) s)"

subsection \<open>A goal's and a loop's own writes\<close>

definition end_goal :: "date \<Rightarrow> 'a bot_goal_scheme \<Rightarrow> bot_message option \<Rightarrow> bot_store \<Rightarrow> bool \<times> bot_store" where
  "end_goal now g line s =
     (let hit = (\<lambda>r. bg_id r = bg_id g \<and> bg_organization r = bg_organization g) in
      if length (filter hit (st_goals s)) \<noteq> 1 then (False, s)
      else (let s1 = s\<lparr>st_goals := filter (\<lambda>r. \<not> hit r) (st_goals s)\<rparr> in
            (True, (case line of None \<Rightarrow> s1 | Some m \<Rightarrow> insert_message now m s1))))"

definition end_loop :: "date \<Rightarrow> bot_loop_entity \<Rightarrow> bot_message option \<Rightarrow> bool \<Rightarrow> bot_store \<Rightarrow> bool \<times> bot_store" where
  "end_loop now l line if_unchanged s =
     (let hit = (\<lambda>r. bl_id r = bl_id l \<and> bl_organization r = bl_organization l \<and>
                     (if_unchanged \<longrightarrow> bl_runs r = bl_loaded_runs l \<and> bl_next r = bl_loaded_next l)) in
      if length (filter hit (st_loops s)) \<noteq> 1 then (False, s)
      else (let s1 = s\<lparr>st_loops := filter (\<lambda>r. \<not> hit r) (st_loops s)\<rparr> in
            (True, (case line of None \<Rightarrow> s1 | Some m \<Rightarrow> insert_message now m s1))))"

definition schedule_loop :: "bot_loop_entity \<Rightarrow> date \<Rightarrow> bot_store \<Rightarrow> bool \<times> bot_store" where
  "schedule_loop l due s =
     (let hit = (\<lambda>r. bl_id r = bl_id l \<and> bl_runs r = bl_loaded_runs l) in
      if length (filter hit (st_loops s)) \<noteq> 1 then (False, s)
      else (True, stage_loop_run (loop_move_next due l)
                    (s\<lparr>st_loops := map (\<lambda>r. if hit r then r\<lparr>bl_next := Some due\<rparr> else r) (st_loops s)\<rparr>)))"

definition queued_by_source_prefix :: "string \<Rightarrow> string \<Rightarrow> string \<Rightarrow> bot_store \<Rightarrow> bot_turn_entity list" where
  "queued_by_source_prefix org bid prefix s =
     map bot_turn_of (filter (\<lambda>t. of_bot org bid t \<and> bt_status t = Bot_queued \<and> starts_with (bt_source_key t) prefix)
       (st_turns s))"

end
