(* ===== verification/Bot_System.thy ===== *)
theory Bot_System
  imports Bot_Queue
begin

section \<open>What moves the bots' turns\<close>

text \<open>
  The command handlers under \<^verbatim>\<open>apps/api/src/bots-chat/commands\<close> over the tables of Bot_Queue, and the
  system they make together: the tables, the workers in the middle of a job, and the entities other
  processes hold in memory. A step is one transaction, so any interleaving of the processes is a
  list of actions. An entity is loaded in one step and written in a later one; what happened to its
  row in between is what the conditional writes are for.

  The checks a handler makes before anything of a bot is touched (the bot is the caller's, the
  provider has a key, the message holds no credential) only refuse, and are not repeated here.
\<close>

datatype bot_error = Domain domain_error | Database db_error

definition lift_db :: "db_error + 'a \<Rightarrow> bot_error + 'a" where
  "lift_db r = (case r of Inl e \<Rightarrow> Inl (Database e) | Inr x \<Rightarrow> Inr x)"

subsection \<open>The handlers that queue\<close>

record send_args =
  sa_organization :: string
  sa_bot :: string
  sa_user :: string
  sa_provider :: bot_provider
  sa_model :: string
  sa_effort :: "session_effort option"
  sa_content :: string
  sa_attachments :: "string list"
  sa_time_zone :: "string option"
  sa_scopes :: "scope list option"
  sa_steer :: bool

definition send_props :: "send_args \<Rightarrow> queue_props" where
  "send_props a =
     \<lparr>qp_organization = sa_organization a, qp_bot = sa_bot a, qp_requester = sa_user a,
      qp_provider = sa_provider a, qp_model = sa_model a, qp_effort = sa_effort a,
      qp_time_zone = sa_time_zone a, qp_scopes = sa_scopes a, qp_origin = None, qp_source_key = None,
      qp_lane = None, qp_chain = None, qp_depth = None, qp_asked_by_bot = None, qp_asked_by_turn = None,
      qp_reply_requested = None, qp_answers = None,
      qp_steer = Some (may_steer (sa_steer a) (sa_content a) (length (sa_attachments a)))\<rparr>"

definition message_setting ::
  "string \<Rightarrow> string \<Rightarrow> 'a bot_turn_scheme \<Rightarrow> date \<Rightarrow> domain_error + bot_setting" where
  "message_setting sid content t now =
     (case goal_from_message sid content t of
        Some (Inl e) \<Rightarrow> Inl e
      | Some (Inr g) \<Rightarrow> Inr (Sets_goal g)
      | None \<Rightarrow>
          (case loop_from_message sid content t now of
             Some (Inl e) \<Rightarrow> Inl e
           | Some (Inr l) \<Rightarrow> Inr (Sets_loop l)
           | None \<Rightarrow> Inr Sets_nothing))"

definition send_bot_message ::
  "string \<Rightarrow> string \<Rightarrow> string \<Rightarrow> date \<Rightarrow> send_args \<Rightarrow> bot_store \<Rightarrow>
     bot_error + enqueue_outcome \<times> bot_replaced \<times> bot_store" where
  "send_bot_message tid mid sid now a s =
     (case refuse_console_command (sa_content a) of
        Some e \<Rightarrow> Inl (Domain e)
      | None \<Rightarrow>
          (case queue_turn tid now (send_props a) of
             Inl e \<Rightarrow> Inl (Domain e)
           | Inr t \<Rightarrow>
               (case create_bot_message
                       \<lparr>bm_id = mid, bm_organization = sa_organization a, bm_bot = sa_bot a, bm_turn = Some tid,
                        bm_role = Role_user, bm_content = sa_content a, bm_position = 0,
                        bm_has_event = False, bm_attachments = sa_attachments a, bm_created = now\<rparr> of
                  Inl e \<Rightarrow> Inl (Domain e)
                | Inr m \<Rightarrow>
                    (case message_setting sid (sa_content a) t now of
                       Inl e \<Rightarrow> Inl (Domain e)
                     | Inr setting \<Rightarrow> lift_db (enqueue_setting now t m setting s)))))"

text \<open>
  A turn opened by an event: a routine's run and a wake (\<open>Some\<close> source key, queued once), and the turn
  a decided approval or an answered card of questions goes on in.
\<close>

definition opened_turn ::
  "string \<Rightarrow> string \<Rightarrow> date \<Rightarrow> queue_props \<Rightarrow> string \<Rightarrow> domain_error + bot_turn_entity \<times> bot_message" where
  "opened_turn tid mid now p content =
     (case queue_turn tid now p of
        Inl e \<Rightarrow> Inl e
      | Inr t \<Rightarrow>
          (case event_message mid now (qp_organization p) (qp_bot p) (Some tid) content of
             Inl e \<Rightarrow> Inl e
           | Inr m \<Rightarrow> Inr (t, m)))"

definition routine_prefix :: "string \<Rightarrow> string" where
  "routine_prefix automation_id = ''automation-run:'' @ automation_id @ '':''"

definition routine_source_key :: "string \<Rightarrow> string \<Rightarrow> string" where
  "routine_source_key automation_id run_id = routine_prefix automation_id @ run_id"

datatype wake_cause =
    Wake_state nat string
  | Wake_stalled nat
  | Wake_notice string
  | Wake_match string nat
  | Wake_pull_request string

definition wake_source_key :: "string \<Rightarrow> wake_cause \<Rightarrow> string" where
  "wake_source_key subscription cause =
     ''subscription:'' @ subscription @
     (case cause of
        Wake_state sq state \<Rightarrow> '':'' @ digits_of sq @ '':'' @ state
      | Wake_stalled sq \<Rightarrow> '':'' @ digits_of sq @ '':stalled''
      | Wake_notice nid \<Rightarrow> '':notice:'' @ nid
      | Wake_match watch n \<Rightarrow> '':match:'' @ watch @ '':'' @ digits_of n
      | Wake_pull_request event \<Rightarrow> '':github:'' @ event)"

datatype bot_opening =
    Opens_routine string string bool
  | Opens_wake string wake_cause
  | Opens_approval
  | Opens_question

text \<open>What each of them queues its turn with, and the prefix that makes it busy.\<close>

definition opening_props ::
  "bot_opening \<Rightarrow> string \<Rightarrow> string \<Rightarrow> bot_engine_pick \<Rightarrow> string option \<Rightarrow> scope list option \<Rightarrow> queue_props" where
  "opening_props opening org user pick zone scopes =
     (let p = owner_props org user pick zone scopes Bot_routine [] in
      case opening of
        Opens_routine automation run _ \<Rightarrow> p\<lparr>qp_source_key := Some (routine_source_key automation run)\<rparr>
      | Opens_wake subscription cause \<Rightarrow>
          p\<lparr>qp_origin := Some Bot_subscription, qp_source_key := Some (wake_source_key subscription cause)\<rparr>
      | Opens_approval \<Rightarrow> p\<lparr>qp_origin := Some Bot_approval, qp_source_key := None, qp_lane := None\<rparr>
      | Opens_question \<Rightarrow> p\<lparr>qp_origin := Some Bot_question, qp_source_key := None, qp_lane := None\<rparr>)"

definition opening_prefix :: "bot_opening \<Rightarrow> string option" where
  "opening_prefix opening =
     (case opening of Opens_routine automation _ True \<Rightarrow> Some (routine_prefix automation) | _ \<Rightarrow> None)"

definition queue_opening ::
  "string \<Rightarrow> string \<Rightarrow> date \<Rightarrow> bot_opening \<Rightarrow> queue_props \<Rightarrow> string \<Rightarrow> bot_store \<Rightarrow>
     bot_error + enqueue_outcome \<times> bot_store" where
  "queue_opening tid mid now opening p content s =
     (case opened_turn tid mid now p content of
        Inl e \<Rightarrow> Inl (Domain e)
      | Inr (t, m) \<Rightarrow>
          lift_db (if qp_source_key p \<noteq> None then enqueue_once now t m (opening_prefix opening) s
                   else enqueue_within now t m s))"

text \<open>A line outside any turn.\<close>

definition write_line :: "string \<Rightarrow> date \<Rightarrow> string \<Rightarrow> string \<Rightarrow> string \<Rightarrow> bot_store \<Rightarrow> bot_error + bot_store" where
  "write_line mid now org bid content s =
     (case event_message mid now org bid None content of
        Inl e \<Rightarrow> Inl (Domain e)
      | Inr m \<Rightarrow> Inr (insert_message now m s))"

definition not_running_refusal :: string where
  "not_running_refusal = ''This turn is no longer running, so it can send nothing.''"

definition send_bot_peer_message ::
  "string \<Rightarrow> string \<Rightarrow> date \<Rightarrow> bot_turn_entity \<Rightarrow> bot_engine_pick \<Rightarrow> bool \<Rightarrow> string \<Rightarrow> bot_store \<Rightarrow>
     bot_error + enqueue_outcome \<times> bot_store" where
  "send_bot_peer_message tid mid now asking pick expects_reply content s =
     (if bt_status asking \<noteq> Bot_running then Inr (Enq_refused not_running_refusal, s)
      else if \<not> truthy (bt_requester asking)
      then Inr (Enq_refused ''The person this request came from no longer has an account.'', s)
      else case queue_from_bot tid now asking pick expects_reply of
        Inl e \<Rightarrow> Inl (Domain e)
      | Inr t \<Rightarrow>
          (case event_message mid now (bt_organization asking) (pick_bot pick) (Some tid) content of
             Inl e \<Rightarrow> Inl (Domain e)
           | Inr m \<Rightarrow> lift_db (enqueue_from_bot now t m (check_bot_chain bot_chain_limits asking (pick_bot pick)) s)))"

definition deliver_bot_answer ::
  "string \<Rightarrow> string \<Rightarrow> date \<Rightarrow> bot_turn_entity \<Rightarrow> bot_engine_pick \<Rightarrow> string \<Rightarrow> bot_store \<Rightarrow>
     bot_error + bot_store" where
  "deliver_bot_answer tid mid now answered pick content s =
     (if \<not> bt_reply_requested answered \<or> \<not> turn_has_ended answered \<or> \<not> truthy (bt_asked_by_bot answered) \<or>
         \<not> truthy (bt_asked_by_turn answered) then Inr s
      else if \<not> truthy (bt_requester answered) then Inr s
      else if \<not> lock_bot (bt_organization answered) (the (bt_asked_by_bot answered)) s \<or>
              \<not> lock_bot (bt_organization answered) (bt_bot answered) s then Inr s
      else (let asker = pick\<lparr>pick_bot := the (bt_asked_by_bot answered)\<rparr> in
            case queue_answer tid now answered asker of
              Inl e \<Rightarrow> Inl (Domain e)
            | Inr t \<Rightarrow>
                (case event_message mid now (bt_organization answered) (pick_bot asker) (Some tid) content of
                   Inl e \<Rightarrow> Inl (Domain e)
                 | Inr m \<Rightarrow> (case lift_db (enqueue_answer now t m s) of Inl e \<Rightarrow> Inl e | Inr (_, s') \<Rightarrow> Inr s'))))"

text \<open>
  A goal's turn ended and the reviewer answered: the decision is taken again on the goal as it was
  loaded, and the goal goes on only while it is still there at that count. \<open>Inr (Some line)\<close> is the
  line it ended with.
\<close>

definition continue_bot_goal ::
  "string \<Rightarrow> string \<Rightarrow> date \<Rightarrow> (string \<times> bot_engine_pick) option \<Rightarrow> bot_goal_verdict option \<Rightarrow>
     bot_turn_entity \<Rightarrow> bot_goal_entity \<Rightarrow> bot_store \<Rightarrow> bot_error + bot_store" where
  "continue_bot_goal tid mid now owner verdict ended g s =
     (let finish = (\<lambda>ending reason.
            case goal_end_line mid now g ending reason of
              Inl e \<Rightarrow> Inl (Domain e)
            | Inr line \<Rightarrow> Inr (snd (end_goal now g (Some line) s)))
      in if bt_ended_at ended = None then Inr s
         else case goal_decide g ended of
           Decide_skip \<Rightarrow> Inr s
         | Decide_end ending reason \<Rightarrow> finish ending reason
         | Decide_review \<Rightarrow>
             if \<not> list_ex (\<lambda>r. bg_id r = bg_id g \<and> bg_continuations r = bg_continuations g)
                   (case find_goal (bg_organization g) (bg_bot g) s of None \<Rightarrow> [] | Some r \<Rightarrow> [r])
             then Inr s
             else (case goal_outcome g verdict owner of
               Goal_end ending reason \<Rightarrow> finish ending reason
             | Goal_continue (owner_id, pick) reason \<Rightarrow>
                 (case advance_goal g of
                    Inl e \<Rightarrow> Inl (Domain e)
                  | Inr g' \<Rightarrow>
                      (case goal_continuation_turn tid mid now owner_id (pick\<lparr>pick_bot := bg_bot g\<rparr>) g'
                              (bg_continuations g') reason (timed_out ended) of
                         Inl e \<Rightarrow> Inl (Domain e)
                       | Inr (t, m) \<Rightarrow>
                           (case lift_db (enqueue_continuation now t m g' s) of
                              Inl e \<Rightarrow> Inl e | Inr (_, s') \<Rightarrow> Inr s')))))"

text \<open>A loop's run came due.\<close>

definition run_bot_loop ::
  "string \<Rightarrow> string \<Rightarrow> date \<Rightarrow> (string \<times> bot_engine_pick) option \<Rightarrow> int \<Rightarrow> date \<Rightarrow>
     bot_loop_entity \<Rightarrow> bot_store \<Rightarrow> bot_error + bot_store" where
  "run_bot_loop tid mid now owner run due l s =
     (let finish = (\<lambda>ending.
            case loop_end_line mid now l ending of
              Inl e \<Rightarrow> Inl (Domain e)
            | Inr line \<Rightarrow> Inr (snd (end_loop now l (Some line) False s)))
      in case loop_run_decide l run due now of
           Loop_stale \<Rightarrow> Inr s
         | Loop_expire \<Rightarrow> finish Loop_expired
         | Loop_run \<Rightarrow>
             (case owner of
                None \<Rightarrow> finish Loop_stopped
              | Some (owner_id, pick) \<Rightarrow>
                  (case loop_run_turn tid mid now owner_id (pick\<lparr>pick_bot := bl_bot l\<rparr>) l run of
                     Inl e \<Rightarrow> Inl (Domain e)
                   | Inr (t, m) \<Rightarrow>
                       (case lift_db (enqueue_loop_run now t m l (next_run_after l now) (next_run_when_busy l now) s) of
                          Inl e \<Rightarrow> Inl e | Inr (_, s') \<Rightarrow> Inr s'))))"

definition finish_bot_loop_run ::
  "string \<Rightarrow> date \<Rightarrow> bot_turn_entity \<Rightarrow> bot_loop_entity \<Rightarrow> bot_store \<Rightarrow> bot_error + bot_store" where
  "finish_bot_loop_run mid now ended l s =
     (if bt_ended_at ended = None then Inr s
      else case loop_run_end l ended of
        Loop_end ending reason \<Rightarrow>
          (case loop_end_line mid now l ending of
             Inl e \<Rightarrow> Inl (Domain e)
           | Inr line \<Rightarrow> Inr (snd (end_loop now l (Some line) True s)))
      | Loop_retry \<Rightarrow> Inr (snd (schedule_loop l (self_paced_run_at l 1 now) s))
      | Loop_keep \<Rightarrow> Inr s)"

subsection \<open>The system\<close>

text \<open>
  A worker takes a job that runs a turn, loads the turn, and either fails the one a dead worker left
  running, or claims it and runs it. A worker that dies leaves its job to be delivered again; it may
  be alive after all, so what it held stays among the entities in memory.
\<close>

datatype worker_phase = Loaded bot_turn_entity | Working bot_turn_entity

record bot_system =
  sys_store :: bot_store
  sys_workers :: "(string \<times> worker_phase) list"
  sys_hands :: "bot_turn_entity list"
  sys_goals :: "bot_goal_entity list"
  sys_loops :: "bot_loop_entity list"
  sys_used :: "string list"

datatype bot_action =
    Act_create_bot string string
  | Act_send string string string date send_args
  | Act_open string string date bot_opening string bot_engine_pick "string option" "scope list option" string
  | Act_line string date string string string
  | Act_load string
  | Act_load_goal string string
  | Act_load_loop string string
  | Act_peer nat string string date bot_engine_pick bool string
  | Act_answer nat string string date bot_engine_pick string
  | Act_continue nat nat string string date "(string \<times> bot_engine_pick) option" "bot_goal_verdict option"
  | Act_run_loop nat string string date "(string \<times> bot_engine_pick) option" int date
  | Act_finish_loop nat nat string date
  | Act_end_goal nat date
  | Act_end_loop nat date bool
  | Act_schedule_loop nat date
  | Act_take nat
  | Act_claim nat date
  | Act_end nat bot_turn_end date bot_turn_outcome
  | Act_steer nat date
  | Act_die nat
  | Act_finish nat bot_turn_end date bot_turn_outcome
  | Act_late_steer nat date
  | Act_cancel nat date
  | Act_clear string string
  | Act_delete_bot string string
  | Act_delete_account string

definition remove_at :: "nat \<Rightarrow> 'a list \<Rightarrow> 'a list" where
  "remove_at i xs = take i xs @ drop (Suc i) xs"

text \<open>A fresh uuid: the random ones never repeat.\<close>

definition fresh :: "string list \<Rightarrow> bot_system \<Rightarrow> bool" where
  "fresh uuids S = (distinct uuids \<and> list_all (\<lambda>u. u \<notin> set (sys_used S)) uuids)"

definition with_store :: "bot_system \<Rightarrow> string list \<Rightarrow> bot_error + bot_store \<Rightarrow> bot_system" where
  "with_store S uuids r =
     (case r of
        Inl _ \<Rightarrow> S
      | Inr s \<Rightarrow> S\<lparr>sys_store := s, sys_used := uuids @ sys_used S\<rparr>)"

definition store_of_enqueue :: "bot_error + enqueue_outcome \<times> bot_store \<Rightarrow> bot_error + bot_store" where
  "store_of_enqueue r = (case r of Inl e \<Rightarrow> Inl e | Inr (_, s) \<Rightarrow> Inr s)"

definition store_of_steers :: "db_error + bot_message list \<times> bot_store \<Rightarrow> bot_error + bot_store" where
  "store_of_steers r = (case r of Inl e \<Rightarrow> Inl (Database e) | Inr (_, s) \<Rightarrow> Inr s)"

text \<open>\<open>RunBotTurnCommandHandler.claim\<close> on the turn a worker loaded.\<close>

definition worker_claims :: "nat \<Rightarrow> date \<Rightarrow> string \<Rightarrow> bot_turn_entity \<Rightarrow> bot_system \<Rightarrow> bot_system" where
  "worker_claims k now tid e S =
     (let done = S\<lparr>sys_workers := remove_at k (sys_workers S)\<rparr> in
      if bt_status e = Bot_running
      then (case abandon_bot_turn now e of
              Inl _ \<Rightarrow> done
            | Inr e' \<Rightarrow> done\<lparr>sys_store := snd (finish_turn now e' (sys_store S))\<rparr>)
      else if bt_status e \<noteq> Bot_queued then done
      else (case start_bot_turn now e of
              Inl _ \<Rightarrow> done
            | Inr e' \<Rightarrow>
                (case claim_turn e' (sys_store S) of
                   (Claim_claimed, e'', s) \<Rightarrow>
                     S\<lparr>sys_store := s, sys_workers := (sys_workers S)[k := (tid, Working e'')]\<rparr>
                 | (_, _, _) \<Rightarrow> done)))"

definition bot_apply :: "bot_action \<Rightarrow> bot_system \<Rightarrow> bot_system" where
  "bot_apply a S =
     (let s = sys_store S in
      case a of
        Act_create_bot org bid \<Rightarrow>
          if \<not> fresh [bid] S then S
          else with_store S [bid] (Inr (s\<lparr>st_bots := st_bots s @
                 [\<lparr>br_organization = org, br_id = bid, br_last_message_at = None, br_last_preview = None\<rparr>]\<rparr>))
      | Act_send tid mid sid now args \<Rightarrow>
          if \<not> fresh [tid, mid, sid] S then S
          else with_store S [tid, mid, sid]
                 (case send_bot_message tid mid sid now args s of Inl e \<Rightarrow> Inl e | Inr (_, _, s') \<Rightarrow> Inr s')
      | Act_open tid mid now opening user pick zone scopes content \<Rightarrow>
          if \<not> fresh [tid, mid] S then S
          else (case find (\<lambda>b. br_id b = pick_bot pick) (st_bots s) of
                  None \<Rightarrow> S
                | Some b \<Rightarrow> with_store S [tid, mid] (store_of_enqueue
                    (queue_opening tid mid now opening
                       (opening_props opening (br_organization b) user pick zone scopes) content s)))
      | Act_line mid now org bid content \<Rightarrow>
          if fresh [mid] S then with_store S [mid] (write_line mid now org bid content s) else S
      | Act_load tid \<Rightarrow>
          (case find_turn tid s of None \<Rightarrow> S | Some r \<Rightarrow> S\<lparr>sys_hands := sys_hands S @ [bot_turn_of r]\<rparr>)
      | Act_load_goal org bid \<Rightarrow>
          (case find_goal org bid s of None \<Rightarrow> S | Some r \<Rightarrow> S\<lparr>sys_goals := sys_goals S @ [bot_goal_of r]\<rparr>)
      | Act_load_loop org bid \<Rightarrow>
          (case find_loop org bid s of None \<Rightarrow> S | Some r \<Rightarrow> S\<lparr>sys_loops := sys_loops S @ [bot_loop_of r]\<rparr>)
      | Act_peer i tid mid now pick reply content \<Rightarrow>
          if i < length (sys_hands S) \<and> fresh [tid, mid] S
          then with_store S [tid, mid] (store_of_enqueue
                 (send_bot_peer_message tid mid now (sys_hands S ! i) pick reply content s)) else S
      | Act_answer i tid mid now pick content \<Rightarrow>
          if i < length (sys_hands S) \<and> fresh [tid, mid] S
          then with_store S [tid, mid] (deliver_bot_answer tid mid now (sys_hands S ! i) pick content s) else S
      | Act_continue i j tid mid now owner verdict \<Rightarrow>
          if i < length (sys_hands S) \<and> j < length (sys_goals S) \<and> fresh [tid, mid] S
          then with_store S [tid, mid]
                 (continue_bot_goal tid mid now owner verdict (sys_hands S ! i) (sys_goals S ! j) s) else S
      | Act_run_loop j tid mid now owner run due \<Rightarrow>
          if j < length (sys_loops S) \<and> fresh [tid, mid] S
          then with_store S [tid, mid] (run_bot_loop tid mid now owner run due (sys_loops S ! j) s) else S
      | Act_finish_loop i j mid now \<Rightarrow>
          if i < length (sys_hands S) \<and> j < length (sys_loops S) \<and> fresh [mid] S
          then with_store S [mid] (finish_bot_loop_run mid now (sys_hands S ! i) (sys_loops S ! j) s) else S
      | Act_end_goal j now \<Rightarrow>
          if j < length (sys_goals S) then with_store S [] (Inr (snd (end_goal now (sys_goals S ! j) None s))) else S
      | Act_end_loop j now unchanged \<Rightarrow>
          if j < length (sys_loops S)
          then with_store S [] (Inr (snd (end_loop now (sys_loops S ! j) None unchanged s))) else S
      | Act_schedule_loop j due \<Rightarrow>
          if j < length (sys_loops S) then with_store S [] (Inr (snd (schedule_loop (sys_loops S ! j) due s))) else S
      | Act_take k \<Rightarrow>
          if k < length (st_jobs s)
          then (case st_jobs s ! k of
                  Run_bot_turn tid \<Rightarrow>
                    (let S' = S\<lparr>sys_store := s\<lparr>st_jobs := remove_at k (st_jobs s)\<rparr>\<rparr> in
                     case find_turn tid s of
                       None \<Rightarrow> S'
                     | Some r \<Rightarrow> S'\<lparr>sys_workers := sys_workers S @ [(tid, Loaded (bot_turn_of r))]\<rparr>)
                | _ \<Rightarrow> S) else S
      | Act_claim k now \<Rightarrow>
          if k < length (sys_workers S)
          then (case sys_workers S ! k of (tid, Loaded e) \<Rightarrow> worker_claims k now tid e S | _ \<Rightarrow> S) else S
      | Act_end k ending now outcome \<Rightarrow>
          if k < length (sys_workers S)
          then (case sys_workers S ! k of
                  (tid, Working e) \<Rightarrow>
                    (case end_bot_turn ending now outcome e of
                       Inl _ \<Rightarrow> S
                     | Inr e' \<Rightarrow> S\<lparr>sys_store := snd (finish_turn now e' s),
                                  sys_workers := remove_at k (sys_workers S)\<rparr>)
                | _ \<Rightarrow> S) else S
      | Act_steer k now \<Rightarrow>
          if k < length (sys_workers S)
          then (case sys_workers S ! k of
                  (tid, Working e) \<Rightarrow> with_store S [] (store_of_steers (take_steers now e s)) | _ \<Rightarrow> S) else S
      | Act_die k \<Rightarrow>
          if k < length (sys_workers S)
          then (case sys_workers S ! k of
                  (tid, phase) \<Rightarrow>
                    S\<lparr>sys_store := stage_job (Run_bot_turn tid) s,
                      sys_workers := remove_at k (sys_workers S),
                      sys_hands := sys_hands S @ [case phase of Loaded e \<Rightarrow> e | Working e \<Rightarrow> e]\<rparr>) else S
      | Act_finish i ending now outcome \<Rightarrow>
          if i < length (sys_hands S)
          then (case end_bot_turn ending now outcome (sys_hands S ! i) of
                  Inl _ \<Rightarrow> S
                | Inr e' \<Rightarrow> with_store S [] (Inr (snd (finish_turn now e' s)))) else S
      | Act_late_steer i now \<Rightarrow>
          if i < length (sys_hands S)
          then with_store S [] (store_of_steers (take_steers now (sys_hands S ! i) s)) else S
      | Act_cancel i now \<Rightarrow>
          if i < length (sys_hands S)
          then with_store S [] (Inr (snd (request_cancel (sys_hands S ! i) now s))) else S
      | Act_clear org bid \<Rightarrow> with_store S [] (Inr (snd (clear_conversation org bid s)))
      | Act_delete_bot org bid \<Rightarrow> with_store S [] (Inr (delete_bot org bid s))
      | Act_delete_account user \<Rightarrow> with_store S [] (Inr (delete_account user s)))"

definition bot_run :: "bot_action list \<Rightarrow> bot_system \<Rightarrow> bot_system" where
  "bot_run as S = fold bot_apply as S"

definition empty_store :: bot_store where
  "empty_store =
     \<lparr>st_bots = [], st_turns = [], st_messages = [], st_attachments = [], st_goals = [], st_loops = [], st_jobs = []\<rparr>"

definition empty_system :: bot_system where
  "empty_system =
     \<lparr>sys_store = empty_store, sys_workers = [], sys_hands = [], sys_goals = [], sys_loops = [], sys_used = []\<rparr>"

end
