(* ===== verification/Bot_Table.thy ===== *)
theory Bot_Table
  imports Bot_Queue
begin

section \<open>What holds of the table of turns\<close>

text \<open>
  The invariant of \<^verbatim>\<open>bot_turn\<close> and the two shapes a transaction gives the table: a row more, or
  rows gone and columns of the others rewritten (\<open>reshaped\<close>). Each shape keeps the invariant, so a
  transaction is shown to have one of them and the rest follows.
\<close>

subsection \<open>The invariant\<close>

definition keyed_turns :: "string set \<Rightarrow> (string \<times> string) set \<Rightarrow> bot_turn list \<Rightarrow> bool" where
  "keyed_turns used bots ts \<longleftrightarrow>
     distinct (map bt_id ts) \<and>
     (\<forall>t \<in> set ts. bt_id t \<in> used \<and> chain_root t \<in> used \<and> (bt_organization t, bt_bot t) \<in> bots)"

definition one_running :: "bot_turn list \<Rightarrow> bool" where
  "one_running ts \<longleftrightarrow>
     (\<forall>t \<in> set ts. \<forall>u \<in> set ts. bt_status t = Bot_running \<and> bt_status u = Bot_running \<and> bt_bot t = bt_bot u \<longrightarrow>
        bt_id t = bt_id u)"

definition unique_turns :: "bot_turn list \<Rightarrow> bool" where
  "unique_turns ts \<longleftrightarrow>
     (\<forall>t \<in> set ts. \<forall>u \<in> set ts.
        (bt_organization t = bt_organization u \<and> bt_answers t \<noteq> None \<and> bt_answers t = bt_answers u \<longrightarrow>
           bt_id t = bt_id u) \<and>
        (bt_bot t = bt_bot u \<and> bt_source_key t \<noteq> None \<and> bt_source_key t = bt_source_key u \<longrightarrow>
           bt_id t = bt_id u))"

text \<open>An ask is a bot's, in a chain, and answers nothing; an answer is a bot's, in the chain of the ask it answers.\<close>

definition chained_turns :: "bot_turn list \<Rightarrow> bool" where
  "chained_turns ts \<longleftrightarrow>
     (\<forall>t \<in> set ts.
        (bt_reply_requested t \<longrightarrow> bt_lane t = Lane_bots \<and> bt_answers t = None \<and> bt_chain t \<noteq> None) \<and>
        (\<forall>q. bt_answers t = Some q \<longrightarrow>
           bt_lane t = Lane_bots \<and>
           (\<exists>r \<in> set ts. bt_id r = q \<and> bt_organization r = bt_organization t \<and> bt_reply_requested r \<and>
                          bt_chain r = bt_chain t)))"

definition bounded_chains :: "bot_turn list \<Rightarrow> bool" where
  "bounded_chains ts \<longleftrightarrow>
     (\<forall>t \<in> set ts. 0 \<le> bt_depth t \<and> bt_depth t \<le> chain_max_depth bot_chain_limits) \<and>
     (\<forall>org chain. int (length (filter (is_ask org chain) ts)) \<le> chain_turn_budget bot_chain_limits)"

definition one_reach :: "bot_turn list \<Rightarrow> bool" where
  "one_reach ts \<longleftrightarrow>
     (\<forall>t \<in> set ts. \<forall>r \<in> set ts. bt_chain t = Some (bt_id r) \<longrightarrow> bt_scopes t = bt_scopes r)"

definition goal_step_key :: "string option \<Rightarrow> bool" where
  "goal_step_key key \<longleftrightarrow>
     starts_with key goal_key_word \<longrightarrow>
     (\<exists>gid n. key = Some (goal_source_key gid n) \<and> 1 \<le> n \<and> n \<le> bot_goal_continuations_max)"

definition goal_keys :: "bot_turn list \<Rightarrow> bool" where
  "goal_keys ts \<longleftrightarrow> (\<forall>t \<in> set ts. goal_step_key (bt_source_key t))"

definition turns_inv :: "string set \<Rightarrow> (string \<times> string) set \<Rightarrow> bot_turn list \<Rightarrow> bool" where
  "turns_inv used bots ts \<longleftrightarrow>
     keyed_turns used bots ts \<and> one_running ts \<and> unique_turns ts \<and> chained_turns ts \<and>
     bounded_chains ts \<and> one_reach ts \<and> goal_keys ts"

lemmas turns_inv_defs =
  turns_inv_def keyed_turns_def one_running_def unique_turns_def chained_turns_def one_reach_def goal_keys_def

lemma same_row:
  assumes "distinct (map bt_id ts)" "t \<in> set ts" "u \<in> set ts" "bt_id t = bt_id u"
  shows "t = u"
  using assms by (auto simp: distinct_map dest: inj_onD)

subsection \<open>Rows gone and columns rewritten\<close>

text \<open>What an ended turn came to: nothing writes these columns again.\<close>

definition turn_result ::
  "'a bot_turn_scheme \<Rightarrow>
     (bot_turn_status \<times> date option \<times> date option \<times> date option) \<times> bot_turn_error option \<times>
     bot_turn_failure option \<times> (int \<times> int \<times> int \<times> int) \<times> bot_turn_context option \<times> bot_plan_limits option" where
  "turn_result t =
     ((bt_status t, bt_started t, bt_ended_at t, bt_cancel_requested t), bt_error t, bt_failure t,
      (bt_input_tokens t, bt_output_tokens t, bt_cache_read_tokens t, bt_cache_write_tokens t),
      bt_context t, bt_plan_limits t)"

text \<open>
  Who a turn is stays, and what an ended one came to; an answer loses the turn it answers exactly
  when that turn is gone.
\<close>

definition kept_turns :: "bot_turn list \<Rightarrow> bot_turn list \<Rightarrow> bool" where
  "kept_turns ts ts' \<longleftrightarrow>
     (\<exists>Q g. ts' = map g (filter Q ts) \<and>
        (\<forall>t \<in> set ts. Q t \<longrightarrow>
           turn_identity (g t) = turn_identity t \<and>
           (turn_has_ended t \<longrightarrow> turn_result (g t) = turn_result t) \<and>
           bt_answers (g t) =
             (case bt_answers t of None \<Rightarrow> None
              | Some q \<Rightarrow> if \<exists>r \<in> set ts. \<not> Q r \<and> bt_id r = q \<and> bt_organization r = bt_organization t
                          then None else Some q)))"

text \<open>\<open>reshaped\<close>: and nothing starts to run.\<close>

definition reshaped :: "bot_turn list \<Rightarrow> bot_turn list \<Rightarrow> bool" where
  "reshaped ts ts' \<longleftrightarrow>
     kept_turns ts ts' \<and>
     (\<forall>t' \<in> set ts'. bt_status t' = Bot_running \<longrightarrow>
        (\<exists>t \<in> set ts. turn_identity t' = turn_identity t \<and> bt_status t = Bot_running))"

lemma kept_map:
  assumes "\<And>t. t \<in> set ts \<Longrightarrow> turn_identity (g t) = turn_identity t"
    and "\<And>t. t \<in> set ts \<Longrightarrow> bt_answers (g t) = bt_answers t"
    and "\<And>t. t \<in> set ts \<Longrightarrow> turn_has_ended t \<Longrightarrow> turn_result (g t) = turn_result t"
  shows "kept_turns ts (map g ts)"
  unfolding kept_turns_def
proof (rule exI [of _ "\<lambda>_. True"], rule exI [of _ g], intro conjI ballI impI)
  fix t assume t: "t \<in> set ts"
  show "turn_identity (g t) = turn_identity t" using t by (rule assms(1))
  show "turn_result (g t) = turn_result t" if "turn_has_ended t" using t that by (rule assms(3))
  show "bt_answers (g t) = (case bt_answers t of None \<Rightarrow> None
      | Some q \<Rightarrow> if \<exists>r\<in>set ts. \<not> True \<and> bt_id r = q \<and> bt_organization r = bt_organization t then None else Some q)"
    using assms(2) [OF t] by (simp split: option.split)
qed simp

lemma kept_member:
  assumes "kept_turns ts ts'" "t' \<in> set ts'"
  obtains t where "t \<in> set ts" "turn_identity t' = turn_identity t"
    "bt_answers t' = bt_answers t \<or> bt_answers t' = None"
    "turn_has_ended t \<longrightarrow> turn_result t' = turn_result t"
proof -
  from assms obtain Q g t where "t \<in> set ts" "Q t" "t' = g t" and
    "turn_identity (g t) = turn_identity t" "turn_has_ended t \<longrightarrow> turn_result (g t) = turn_result t"
    "bt_answers (g t) = (case bt_answers t of None \<Rightarrow> None
              | Some q \<Rightarrow> if \<exists>r \<in> set ts. \<not> Q r \<and> bt_id r = q \<and> bt_organization r = bt_organization t
                          then None else Some q)"
    unfolding kept_turns_def by auto
  then show thesis using that [of t] by (auto split: option.splits if_splits)
qed

lemma reshaped_kept: "reshaped ts ts' \<Longrightarrow> kept_turns ts ts'"
  by (simp add: reshaped_def)

lemma reshaped_map:
  assumes "kept_turns ts (map g ts)"
    and "\<And>t. t \<in> set ts \<Longrightarrow> bt_status (g t) = Bot_running \<Longrightarrow> bt_status t = Bot_running"
    and "\<And>t. t \<in> set ts \<Longrightarrow> turn_identity (g t) = turn_identity t"
  shows "reshaped ts (map g ts)"
  using assms by (fastforce simp: reshaped_def)

lemma reshaped_refl: "reshaped ts ts"
  using reshaped_map [of ts id] kept_map [of ts id] by simp

lemma kept_keyed:
  assumes "kept_turns ts ts'" "keyed_turns used bots ts"
  shows "keyed_turns used bots ts'"
proof -
  from assms(1) obtain Q g where ts': "ts' = map g (filter Q ts)" and
    g: "\<And>t. t \<in> set ts \<Longrightarrow> Q t \<Longrightarrow> turn_identity (g t) = turn_identity t"
    unfolding kept_turns_def by blast
  have "map bt_id ts' = map bt_id (filter Q ts)"
    using g by (auto simp: ts' dest: turn_identity_eq(1))
  then have "distinct (map bt_id ts')"
    using assms(2) by (simp add: keyed_turns_def distinct_map_filter)
  moreover have "bt_id t' \<in> used \<and> chain_root t' \<in> used \<and> (bt_organization t', bt_bot t') \<in> bots"
    if t': "t' \<in> set ts'" for t'
  proof -
    obtain t where "t \<in> set ts" "turn_identity t' = turn_identity t"
      using kept_member [OF assms(1) t'] by metis
    then show ?thesis using assms(2) turn_identity_eq [of t' t] by (auto simp: keyed_turns_def)
  qed
  ultimately show ?thesis by (simp add: keyed_turns_def)
qed

lemma reshaped_running:
  assumes "reshaped ts ts'" "one_running ts"
  shows "one_running ts'"
  unfolding one_running_def
proof (intro ballI impI)
  fix t' u' assume t': "t' \<in> set ts'" and u': "u' \<in> set ts'"
    and run: "bt_status t' = Bot_running \<and> bt_status u' = Bot_running \<and> bt_bot t' = bt_bot u'"
  obtain t where t: "t \<in> set ts" "turn_identity t' = turn_identity t" "bt_status t = Bot_running"
    using assms(1) t' run unfolding reshaped_def by blast
  obtain u where u: "u \<in> set ts" "turn_identity u' = turn_identity u" "bt_status u = Bot_running"
    using assms(1) u' run unfolding reshaped_def by blast
  show "bt_id t' = bt_id u'"
    using assms(2) t u run turn_identity_eq [OF t(2)] turn_identity_eq [OF u(2)] by (metis one_running_def)
qed

lemma kept_unique:
  assumes "kept_turns ts ts'" "unique_turns ts"
  shows "unique_turns ts'"
  unfolding unique_turns_def
proof (intro ballI)
  fix t' u' assume t': "t' \<in> set ts'" and u': "u' \<in> set ts'"
  obtain t where t: "t \<in> set ts" "turn_identity t' = turn_identity t" "bt_answers t' = bt_answers t \<or> bt_answers t' = None"
    using kept_member [OF assms(1) t'] by metis
  obtain u where u: "u \<in> set ts" "turn_identity u' = turn_identity u" "bt_answers u' = bt_answers u \<or> bt_answers u' = None"
    using kept_member [OF assms(1) u'] by metis
  note t_eq = turn_identity_eq [OF t(2)] and u_eq = turn_identity_eq [OF u(2)]
  have rows: "(bt_organization t = bt_organization u \<and> bt_answers t \<noteq> None \<and> bt_answers t = bt_answers u \<longrightarrow>
           bt_id t = bt_id u) \<and>
        (bt_bot t = bt_bot u \<and> bt_source_key t \<noteq> None \<and> bt_source_key t = bt_source_key u \<longrightarrow>
           bt_id t = bt_id u)"
    using assms(2) t(1) u(1) unfolding unique_turns_def by blast
  show "(bt_organization t' = bt_organization u' \<and> bt_answers t' \<noteq> None \<and> bt_answers t' = bt_answers u' \<longrightarrow>
           bt_id t' = bt_id u') \<and>
        (bt_bot t' = bt_bot u' \<and> bt_source_key t' \<noteq> None \<and> bt_source_key t' = bt_source_key u' \<longrightarrow>
           bt_id t' = bt_id u')"
  proof
    show "bt_organization t' = bt_organization u' \<and> bt_answers t' \<noteq> None \<and> bt_answers t' = bt_answers u' \<longrightarrow>
           bt_id t' = bt_id u'"
      using rows t(3) u(3) t_eq(1,2) u_eq(1,2) by metis
    show "bt_bot t' = bt_bot u' \<and> bt_source_key t' \<noteq> None \<and> bt_source_key t' = bt_source_key u' \<longrightarrow>
           bt_id t' = bt_id u'"
      using rows t_eq(1,3,7) u_eq(1,3,7) by metis
  qed
qed

lemma kept_chained:
  assumes "kept_turns ts ts'" "chained_turns ts"
  shows "chained_turns ts'"
proof -
  from assms(1) obtain Q g where ts': "ts' = map g (filter Q ts)" and
    g: "\<And>t. t \<in> set ts \<Longrightarrow> Q t \<Longrightarrow> turn_identity (g t) = turn_identity t" and
    a: "\<And>t. t \<in> set ts \<Longrightarrow> Q t \<Longrightarrow> bt_answers (g t) =
             (case bt_answers t of None \<Rightarrow> None
              | Some q \<Rightarrow> if \<exists>r \<in> set ts. \<not> Q r \<and> bt_id r = q \<and> bt_organization r = bt_organization t
                          then None else Some q)"
    unfolding kept_turns_def by blast
  show ?thesis
    unfolding chained_turns_def ts'
  proof (intro ballI)
    fix t' assume "t' \<in> set (map g (filter Q ts))"
    then obtain t where t: "t \<in> set ts" "Q t" "t' = g t" by auto
    note eq = turn_identity_eq [OF g [OF t(1,2)]]
    have chained: "(bt_reply_requested t \<longrightarrow> bt_lane t = Lane_bots \<and> bt_answers t = None \<and> bt_chain t \<noteq> None)"
      "\<And>q. bt_answers t = Some q \<Longrightarrow> bt_lane t = Lane_bots \<and>
           (\<exists>r \<in> set ts. bt_id r = q \<and> bt_organization r = bt_organization t \<and> bt_reply_requested r \<and> bt_chain r = bt_chain t)"
      using assms(2) t(1) by (auto simp: chained_turns_def)
    show "(bt_reply_requested t' \<longrightarrow> bt_lane t' = Lane_bots \<and> bt_answers t' = None \<and> bt_chain t' \<noteq> None) \<and>
        (\<forall>q. bt_answers t' = Some q \<longrightarrow> bt_lane t' = Lane_bots \<and>
           (\<exists>r \<in> set (map g (filter Q ts)). bt_id r = q \<and> bt_organization r = bt_organization t' \<and>
              bt_reply_requested r \<and> bt_chain r = bt_chain t'))"
    proof (intro conjI allI impI)
      assume "bt_reply_requested t'"
      then have "bt_reply_requested t" using eq t(3) by simp
      then show "bt_lane t' = Lane_bots" "bt_answers t' = None" "bt_chain t' \<noteq> None"
        using chained(1) a [OF t(1,2)] eq t(3) by simp_all
    next
      fix q assume "bt_answers t' = Some q"
      then have q: "bt_answers t = Some q" and kept: "\<And>r. r \<in> set ts \<Longrightarrow> bt_id r = q \<Longrightarrow> bt_organization r = bt_organization t \<Longrightarrow> Q r"
        using a [OF t(1,2)] t(3) by (auto split: option.splits if_splits)
      show "bt_lane t' = Lane_bots" using chained(2) [OF q] eq t(3) by simp
      obtain r where r: "r \<in> set ts" "bt_id r = q" "bt_organization r = bt_organization t" "bt_reply_requested r" "bt_chain r = bt_chain t"
        using chained(2) [OF q] by blast
      then have "Q r" using kept by blast
      note r_eq = turn_identity_eq [OF g [OF r(1) this]]
      show "\<exists>r \<in> set (map g (filter Q ts)). bt_id r = q \<and> bt_organization r = bt_organization t' \<and>
              bt_reply_requested r \<and> bt_chain r = bt_chain t'"
        using r r_eq eq t(3) \<open>Q r\<close> by (intro bexI [of _ "g r"]) auto
    qed
  qed
qed

lemma filter_length_card:
  assumes "distinct (map bt_id ts)"
  shows "length (filter P ts) = card {t \<in> set ts. P t}"
proof -
  have "distinct (filter P ts)" using assms by (simp add: distinct_map)
  then have "length (filter P ts) = card (set (filter P ts))" by (rule distinct_card [symmetric])
  also have "set (filter P ts) = {t \<in> set ts. P t}" by auto
  finally show ?thesis .
qed

text \<open>
  Deleting a turn turns the answers to it into what counts as asks, but the turn they answered
  counted as one and is gone: no chain's count grows.
\<close>

lemma kept_asks:
  assumes "kept_turns ts ts'" "distinct (map bt_id ts)" "chained_turns ts" "unique_turns ts"
  shows "length (filter (is_ask org chain) ts') \<le> length (filter (is_ask org chain) ts)"
proof -
  from assms(1) obtain Q g where ts': "ts' = map g (filter Q ts)" and
    g: "\<And>t. t \<in> set ts \<Longrightarrow> Q t \<Longrightarrow> turn_identity (g t) = turn_identity t" and
    a: "\<And>t. t \<in> set ts \<Longrightarrow> Q t \<Longrightarrow> bt_answers (g t) =
             (case bt_answers t of None \<Rightarrow> None
              | Some q \<Rightarrow> if \<exists>r \<in> set ts. \<not> Q r \<and> bt_id r = q \<and> bt_organization r = bt_organization t
                          then None else Some q)"
    unfolding kept_turns_def by blast
  define A where "A = {t \<in> set ts. Q t \<and> is_ask org chain (g t)}"
  define B where "B = {t \<in> set ts. is_ask org chain t}"
  define asked where "asked t = (if bt_answers t = None then t
      else (SOME r. r \<in> set ts \<and> \<not> Q r \<and> bt_id r = the (bt_answers t) \<and> bt_organization r = bt_organization t))" for t
  have gone: "asked t \<in> set ts \<and> \<not> Q (asked t) \<and> bt_id (asked t) = the (bt_answers t) \<and> bt_organization (asked t) = bt_organization t"
    if "t \<in> A" "bt_answers t \<noteq> None" for t
  proof -
    from that have "bt_answers (g t) = None" by (simp add: A_def is_ask_def)
    then have "\<exists>r. r \<in> set ts \<and> \<not> Q r \<and> bt_id r = the (bt_answers t) \<and> bt_organization r = bt_organization t"
      using that a [of t] by (auto simp: A_def split: if_splits)
    note ex = someI_ex [OF this]
    have eq: "asked t = (SOME r. r \<in> set ts \<and> \<not> Q r \<and> bt_id r = the (bt_answers t) \<and> bt_organization r = bt_organization t)"
      using that(2) by (simp only: asked_def if_False)
    show ?thesis unfolding eq by (rule ex)
  qed
  have in_B: "asked t \<in> B" if t: "t \<in> A" for t
  proof (cases "bt_answers t")
    case None
    then show ?thesis using t turn_identity_eq [OF g, of t] by (simp add: asked_def A_def B_def is_ask_def)
  next
    case (Some q)
    obtain r where r: "r \<in> set ts" "bt_id r = q" "bt_organization r = bt_organization t" "bt_reply_requested r" "bt_chain r = bt_chain t"
      using assms(3) t Some by (auto simp: chained_turns_def A_def)
    have "r = asked t" using same_row [OF assms(2), of r "asked t"] r gone [OF t] Some by simp
    moreover have "bt_lane r = Lane_bots" "bt_answers r = None"
      using assms(3) r by (auto simp: chained_turns_def)
    moreover have "bt_organization t = org" "bt_chain t = Some chain"
      using t turn_identity_eq [OF g, of t] by (simp_all add: A_def is_ask_def)
    ultimately show ?thesis using r by (simp add: B_def is_ask_def)
  qed
  have "inj_on asked A"
  proof (rule inj_onI)
    fix t u assume t: "t \<in> A" and u: "u \<in> A" and eq: "asked t = asked u"
    consider "bt_answers t = None" "bt_answers u = None" | "bt_answers t = None" "bt_answers u \<noteq> None"
      | "bt_answers t \<noteq> None" "bt_answers u = None" | "bt_answers t \<noteq> None" "bt_answers u \<noteq> None" by blast
    then show "t = u"
    proof cases
      case 1 then show ?thesis using eq by (simp add: asked_def)
    next
      case 2 then have "asked u = t" using eq by (simp add: asked_def)
      then show ?thesis using gone [OF u 2(2)] t by (simp add: A_def)
    next
      case 3 then have "asked t = u" using eq by (simp add: asked_def)
      then show ?thesis using gone [OF t 3(1)] u by (simp add: A_def)
    next
      case 4
      then have "bt_answers t = bt_answers u" "bt_organization t = bt_organization u"
        using gone [OF t] gone [OF u] eq by auto
      then have "bt_id t = bt_id u" using assms(4) t u 4 by (auto simp: unique_turns_def A_def)
      then show ?thesis using same_row [OF assms(2)] t u by (simp add: A_def)
    qed
  qed
  moreover have "asked ` A \<subseteq> B" using in_B by blast
  moreover have "finite B" by (simp add: B_def)
  ultimately have "card A \<le> card B" by (rule card_inj_on_le)
  moreover have "length (filter (is_ask org chain) ts') = card A"
    using filter_length_card [OF assms(2), of "\<lambda>t. Q t \<and> is_ask org chain (g t)"]
    by (simp add: ts' A_def filter_map comp_def conj_commute)
  moreover have "length (filter (is_ask org chain) ts) = card B"
    using filter_length_card [OF assms(2)] by (simp add: B_def)
  ultimately show ?thesis by simp
qed

lemma kept_bounded:
  assumes "kept_turns ts ts'" "distinct (map bt_id ts)" "chained_turns ts" "unique_turns ts" "bounded_chains ts"
  shows "bounded_chains ts'"
  unfolding bounded_chains_def
proof (intro conjI ballI allI)
  fix org chain
  have "int (length (filter (is_ask org chain) ts')) \<le> int (length (filter (is_ask org chain) ts))"
    using kept_asks [OF assms(1-4)] by simp
  then show "int (length (filter (is_ask org chain) ts')) \<le> chain_turn_budget bot_chain_limits"
    using assms(5) unfolding bounded_chains_def by (meson order_trans)
next
  fix t' assume t': "t' \<in> set ts'"
  obtain t where "t \<in> set ts" "turn_identity t' = turn_identity t"
    using kept_member [OF assms(1) t'] by metis
  then show "0 \<le> bt_depth t'" "bt_depth t' \<le> chain_max_depth bot_chain_limits"
    using assms(5) turn_identity_eq(6) [of t' t] by (auto simp: bounded_chains_def)
qed

lemma kept_reach:
  assumes "kept_turns ts ts'" "one_reach ts"
  shows "one_reach ts'"
  unfolding one_reach_def
proof (intro ballI impI)
  fix t' r' assume t': "t' \<in> set ts'" and r': "r' \<in> set ts'" and chain: "bt_chain t' = Some (bt_id r')"
  obtain t where t: "t \<in> set ts" "turn_identity t' = turn_identity t"
    using kept_member [OF assms(1) t'] by metis
  obtain r where r: "r \<in> set ts" "turn_identity r' = turn_identity r"
    using kept_member [OF assms(1) r'] by metis
  show "bt_scopes t' = bt_scopes r'"
    using assms(2) t(1) r(1) chain turn_identity_eq [OF t(2)] turn_identity_eq [OF r(2)] by (simp add: one_reach_def)
qed

lemma kept_goal_keys:
  assumes "kept_turns ts ts'" "goal_keys ts"
  shows "goal_keys ts'"
  unfolding goal_keys_def
proof
  fix t' assume t': "t' \<in> set ts'"
  obtain t where t: "t \<in> set ts" "turn_identity t' = turn_identity t"
    using kept_member [OF assms(1) t'] by metis
  show "goal_step_key (bt_source_key t')"
    using assms(2) t(1) turn_identity_eq(7) [OF t(2)] by (simp add: goal_keys_def)
qed

lemma kept_inv:
  assumes "kept_turns ts ts'" "turns_inv used bots ts" "one_running ts'"
  shows "turns_inv used bots ts'"
proof -
  have inv: "keyed_turns used bots ts" "unique_turns ts" "chained_turns ts" "bounded_chains ts"
    "one_reach ts" "goal_keys ts"
    using assms(2) by (simp_all add: turns_inv_def)
  then have "distinct (map bt_id ts)" by (simp add: keyed_turns_def)
  with inv assms(3) show ?thesis
    unfolding turns_inv_def
    using kept_keyed [OF assms(1)] kept_unique [OF assms(1)] kept_chained [OF assms(1)]
      kept_bounded [OF assms(1)] kept_reach [OF assms(1)] kept_goal_keys [OF assms(1)] by blast
qed

lemma reshaped_inv:
  assumes "reshaped ts ts'" "turns_inv used bots ts"
  shows "turns_inv used bots ts'"
proof -
  have "one_running ts" using assms(2) by (simp add: turns_inv_def)
  then show ?thesis by (rule kept_inv [OF reshaped_kept [OF assms(1)] assms(2) reshaped_running [OF assms(1)]])
qed

subsection \<open>A row more\<close>

text \<open>
  What a row queued with the next id satisfies, given the table: its key and the turn it answers are
  new, the turn it answers is there, and an ask fits the chain's depth and budget.
\<close>

definition row_fits :: "bot_turn list \<Rightarrow> bot_turn \<Rightarrow> bool" where
  "row_fits ts t \<longleftrightarrow>
     bt_status t = Bot_queued \<and>
     0 \<le> bt_depth t \<and> bt_depth t \<le> chain_max_depth bot_chain_limits \<and>
     goal_step_key (bt_source_key t) \<and>
     (bt_source_key t \<noteq> None \<longrightarrow> (\<forall>r \<in> set ts. \<not> (bt_bot r = bt_bot t \<and> bt_source_key r = bt_source_key t))) \<and>
     (bt_answers t \<noteq> None \<longrightarrow> (\<forall>r \<in> set ts. \<not> (bt_organization r = bt_organization t \<and> bt_answers r = bt_answers t))) \<and>
     (bt_reply_requested t \<longrightarrow> bt_lane t = Lane_bots \<and> bt_answers t = None \<and> bt_chain t \<noteq> None) \<and>
     (\<forall>q. bt_answers t = Some q \<longrightarrow> bt_lane t = Lane_bots \<and>
        (\<exists>r \<in> set ts. bt_id r = q \<and> bt_organization r = bt_organization t \<and> bt_reply_requested r \<and> bt_chain r = bt_chain t)) \<and>
     (\<forall>chain. is_ask (bt_organization t) chain t \<longrightarrow>
        int (length (filter (is_ask (bt_organization t) chain) ts)) < chain_turn_budget bot_chain_limits) \<and>
     (\<forall>r \<in> set ts. bt_chain t = Some (bt_id r) \<longrightarrow> bt_scopes t = bt_scopes r)"

lemma append_keyed:
  assumes "keyed_turns used bots ts" "bt_id t \<notin> used" "\<forall>c. bt_chain t = Some c \<longrightarrow> c \<in> used"
    "(bt_organization t, bt_bot t) \<in> bots"
  shows "keyed_turns (insert (bt_id t) used) bots (ts @ [t])"
proof -
  have root: "chain_root t \<in> insert (bt_id t) used"
    using assms(3) by (simp add: chain_root_def split: option.split)
  show ?thesis
    unfolding keyed_turns_def
  proof (intro conjI ballI)
    show "distinct (map bt_id (ts @ [t]))"
      using assms(1,2) by (auto simp: keyed_turns_def)
    fix x assume "x \<in> set (ts @ [t])"
    then consider "x \<in> set ts" | "x = t" by auto
    then show "bt_id x \<in> insert (bt_id t) used" "chain_root x \<in> insert (bt_id t) used" "(bt_organization x, bt_bot x) \<in> bots"
      using assms(1,4) root by (cases; simp add: keyed_turns_def)+
  qed
qed

lemma append_unique:
  assumes "unique_turns ts" "row_fits ts t"
  shows "unique_turns (ts @ [t])"
proof -
  have keys: "bt_source_key t \<noteq> None \<Longrightarrow> r \<in> set ts \<Longrightarrow> \<not> (bt_bot r = bt_bot t \<and> bt_source_key r = bt_source_key t)"
    and answers: "bt_answers t \<noteq> None \<Longrightarrow> r \<in> set ts \<Longrightarrow> \<not> (bt_organization r = bt_organization t \<and> bt_answers r = bt_answers t)" for r
    using assms(2) unfolding row_fits_def by blast+
  show ?thesis
    unfolding unique_turns_def
  proof (intro ballI)
    fix x y assume "x \<in> set (ts @ [t])" "y \<in> set (ts @ [t])"
    then consider "x \<in> set ts" "y \<in> set ts" | "x = t" "y \<in> set ts" | "x \<in> set ts" "y = t" | "x = t" "y = t"
      by auto
    then show "(bt_organization x = bt_organization y \<and> bt_answers x \<noteq> None \<and> bt_answers x = bt_answers y \<longrightarrow> bt_id x = bt_id y) \<and>
        (bt_bot x = bt_bot y \<and> bt_source_key x \<noteq> None \<and> bt_source_key x = bt_source_key y \<longrightarrow> bt_id x = bt_id y)"
    proof cases
      case 1 then show ?thesis using assms(1) unfolding unique_turns_def by blast
    next
      case 2 then show ?thesis using keys [of y] answers [of y] by metis
    next
      case 3 then show ?thesis using keys [of x] answers [of x] by metis
    next
      case 4 then show ?thesis by simp
    qed
  qed
qed

lemma append_chained:
  assumes "chained_turns ts" "row_fits ts t"
  shows "chained_turns (ts @ [t])"
  unfolding chained_turns_def
proof
  fix x assume "x \<in> set (ts @ [t])"
  then consider "x \<in> set ts" | "x = t" by auto
  then have "(bt_reply_requested x \<longrightarrow> bt_lane x = Lane_bots \<and> bt_answers x = None \<and> bt_chain x \<noteq> None) \<and>
        (\<forall>q. bt_answers x = Some q \<longrightarrow> bt_lane x = Lane_bots \<and>
           (\<exists>r \<in> set ts. bt_id r = q \<and> bt_organization r = bt_organization x \<and> bt_reply_requested r \<and> bt_chain r = bt_chain x))"
  proof cases
    case 1 then show ?thesis using assms(1) unfolding chained_turns_def by blast
  next
    case 2 show ?thesis using assms(2) unfolding row_fits_def 2 by blast
  qed
  then show "(bt_reply_requested x \<longrightarrow> bt_lane x = Lane_bots \<and> bt_answers x = None \<and> bt_chain x \<noteq> None) \<and>
        (\<forall>q. bt_answers x = Some q \<longrightarrow> bt_lane x = Lane_bots \<and>
           (\<exists>r \<in> set (ts @ [t]). bt_id r = q \<and> bt_organization r = bt_organization x \<and> bt_reply_requested r \<and>
              bt_chain r = bt_chain x))"
    unfolding set_append by blast
qed

lemma append_bounded:
  assumes "bounded_chains ts" "row_fits ts t"
  shows "bounded_chains (ts @ [t])"
  unfolding bounded_chains_def
proof (intro conjI ballI allI)
  fix org c
  show "int (length (filter (is_ask org c) (ts @ [t]))) \<le> chain_turn_budget bot_chain_limits"
  proof (cases "is_ask org c t")
    case True
    then have "org = bt_organization t" by (simp add: is_ask_def)
    then have "int (length (filter (is_ask org c) ts)) < chain_turn_budget bot_chain_limits"
      using True assms(2) unfolding row_fits_def by blast
    then show ?thesis using True by simp
  next
    case False
    then show ?thesis using assms(1) by (simp add: bounded_chains_def)
  qed
next
  fix x assume "x \<in> set (ts @ [t])"
  then consider "x \<in> set ts" | "x = t" by auto
  then show "0 \<le> bt_depth x" "bt_depth x \<le> chain_max_depth bot_chain_limits"
    using assms by (cases; simp add: bounded_chains_def row_fits_def)+
qed

lemma append_reach:
  assumes "one_reach ts" "row_fits ts t" "keyed_turns used bots ts" "bt_id t \<notin> used"
    "\<forall>c. bt_chain t = Some c \<longrightarrow> c \<in> used"
  shows "one_reach (ts @ [t])"
  unfolding one_reach_def
proof (intro ballI impI)
  fix x r assume x: "x \<in> set (ts @ [t])" and r: "r \<in> set (ts @ [t])" and c: "bt_chain x = Some (bt_id r)"
  have "bt_id r \<in> used"
  proof (cases "x = t")
    case True then show ?thesis using assms(5) c by simp
  next
    case False
    then have "chain_root x \<in> used" using x assms(3) by (auto simp: keyed_turns_def)
    then show ?thesis using c by (simp add: chain_root_def)
  qed
  then have r': "r \<in> set ts" using r assms(4) by auto
  show "bt_scopes x = bt_scopes r"
  proof (cases "x = t")
    case True then show ?thesis using assms(2) r' c unfolding row_fits_def by blast
  next
    case False
    then have "x \<in> set ts" using x by auto
    then show ?thesis using assms(1) r' c unfolding one_reach_def by blast
  qed
qed

lemma appended_inv:
  assumes inv: "turns_inv used bots ts" and fits: "row_fits ts t"
    and fresh: "bt_id t \<notin> used" and chain: "\<forall>c. bt_chain t = Some c \<longrightarrow> c \<in> used"
    and place: "(bt_organization t, bt_bot t) \<in> bots"
  shows "turns_inv (insert (bt_id t) used) bots (ts @ [t])"
proof -
  have keyed: "keyed_turns used bots ts" and inv': "one_running ts" "unique_turns ts" "chained_turns ts" "bounded_chains ts"
    "one_reach ts" "goal_keys ts"
    using inv by (simp_all add: turns_inv_def)
  have queued: "bt_status t = Bot_queued" "goal_step_key (bt_source_key t)"
    using fits by (simp_all add: row_fits_def)
  have "one_running (ts @ [t])"
    unfolding one_running_def
  proof (intro ballI impI)
    fix x y assume xy: "x \<in> set (ts @ [t])" "y \<in> set (ts @ [t])"
      and run: "bt_status x = Bot_running \<and> bt_status y = Bot_running \<and> bt_bot x = bt_bot y"
    then have "x \<noteq> t" "y \<noteq> t" using queued(1) by auto
    then have "x \<in> set ts" "y \<in> set ts" using xy by auto
    then show "bt_id x = bt_id y" using inv'(1) run unfolding one_running_def by blast
  qed
  moreover have "goal_keys (ts @ [t])"
    using inv'(6) queued by (simp add: goal_keys_def)
  ultimately show ?thesis
    unfolding turns_inv_def
    using append_keyed [OF keyed fresh chain place] append_unique [OF inv'(2) fits] append_chained [OF inv'(3) fits]
      append_bounded [OF inv'(4) fits] append_reach [OF inv'(5) fits keyed fresh chain] by blast
qed

lemma turns_inv_mono:
  assumes "turns_inv used bots ts" "used \<subseteq> used'" "bots \<subseteq> bots'"
  shows "turns_inv used' bots' ts"
proof -
  have "keyed_turns used' bots' ts"
    unfolding keyed_turns_def
  proof (intro conjI ballI)
    have keyed: "keyed_turns used bots ts" using assms(1) by (simp add: turns_inv_def)
    then show "distinct (map bt_id ts)" by (simp add: keyed_turns_def)
    fix t assume "t \<in> set ts"
    then have "bt_id t \<in> used" "chain_root t \<in> used" "(bt_organization t, bt_bot t) \<in> bots"
      using keyed by (simp_all add: keyed_turns_def)
    then show "bt_id t \<in> used'" "chain_root t \<in> used'" "(bt_organization t, bt_bot t) \<in> bots'"
      by (auto intro: subsetD [OF assms(2)] subsetD [OF assms(3)])
  qed
  then show ?thesis using assms(1) by (simp add: turns_inv_def)
qed

end
