(* ===== verification/Bot_Queue_Facts.thy ===== *)
theory Bot_Queue_Facts
  imports Bot_Table
begin

section \<open>What each transaction does to the queue\<close>

text \<open>
  The part of a store a bot's queue is made of: the turns, which bots there are, and the turns a job
  is owed for. A transaction leaves it (\<open>same_queue\<close>), adds a row to it (\<open>queued_into\<close>), or
  reshapes the table.
\<close>

definition bot_keys :: "bot_store \<Rightarrow> (string \<times> string) set" where
  "bot_keys s = set (map (\<lambda>b. (br_organization b, br_id b)) (st_bots s))"

definition run_jobs :: "bot_store \<Rightarrow> string set" where
  "run_jobs s = {q. Run_bot_turn q \<in> set (st_jobs s)}"

definition same_queue :: "bot_store \<Rightarrow> bot_store \<Rightarrow> bool" where
  "same_queue s s' \<longleftrightarrow>
     st_turns s' = st_turns s \<and> map br_id (st_bots s') = map br_id (st_bots s) \<and> bot_keys s' = bot_keys s \<and>
     run_jobs s' = run_jobs s"

definition queued_row :: "date \<Rightarrow> 'a bot_turn_scheme \<Rightarrow> bot_turn" where
  "queued_row now t = bot_turn.truncate t\<lparr>bt_created := now\<rparr>"

definition insertable :: "'a bot_turn_scheme \<Rightarrow> bot_store \<Rightarrow> bool" where
  "insertable t s \<longleftrightarrow>
     (bt_source_key t \<noteq> None \<longrightarrow>
        (\<forall>r \<in> set (st_turns s). \<not> (bt_bot r = bt_bot t \<and> bt_source_key r = bt_source_key t))) \<and>
     (bt_answers t \<noteq> None \<longrightarrow>
        (\<forall>r \<in> set (st_turns s). \<not> (bt_organization r = bt_organization t \<and> bt_answers r = bt_answers t))) \<and>
     (bt_organization t, bt_bot t) \<in> bot_keys s \<and>
     (\<forall>q. bt_answers t = Some q \<longrightarrow> (\<exists>r \<in> set (st_turns s). bt_id r = q \<and> bt_organization r = bt_organization t))"

definition queued_into :: "date \<Rightarrow> 'a bot_turn_scheme \<Rightarrow> bot_store \<Rightarrow> bot_store \<Rightarrow> bool" where
  "queued_into now t s s' \<longleftrightarrow>
     insertable t s \<and>
     st_turns s' = st_turns s @ [queued_row now t] \<and>
     map br_id (st_bots s') = map br_id (st_bots s) \<and> bot_keys s' = bot_keys s \<and>
     run_jobs s' = (if active_turns (bt_organization t) (bt_bot t) s = [] then insert (bt_id t) (run_jobs s)
                    else run_jobs s)"

lemma same_queue_refl [simp]: "same_queue s s"
  by (simp add: same_queue_def)

lemma same_queue_trans: "same_queue s s1 \<Longrightarrow> same_queue s1 s2 \<Longrightarrow> same_queue s s2"
  by (simp add: same_queue_def)

lemma queued_row_sel [simp]:
  "bt_id (queued_row now t) = bt_id t" "bt_organization (queued_row now t) = bt_organization t"
  "bt_bot (queued_row now t) = bt_bot t" "bt_status (queued_row now t) = bt_status t"
  "bt_lane (queued_row now t) = bt_lane t" "bt_chain (queued_row now t) = bt_chain t"
  "bt_depth (queued_row now t) = bt_depth t" "bt_answers (queued_row now t) = bt_answers t"
  "bt_scopes (queued_row now t) = bt_scopes t" "bt_source_key (queued_row now t) = bt_source_key t"
  "bt_reply_requested (queued_row now t) = bt_reply_requested t" "bt_steer (queued_row now t) = bt_steer t"
  "bt_requester (queued_row now t) = bt_requester t" "bt_created (queued_row now t) = now"
  by (simp_all add: queued_row_def bot_turn.defs)

lemma active_same_queue: "st_turns s' = st_turns s \<Longrightarrow> active_turns org bid s' = active_turns org bid s"
  by (simp add: active_turns_def)

lemma insertable_same_queue: "same_queue s s' \<Longrightarrow> insertable t s' = insertable t s"
  by (simp add: insertable_def same_queue_def)

lemma same_then_queued:
  assumes "same_queue s s1" "queued_into now t s1 s'"
  shows "queued_into now t s s'"
proof -
  have "insertable t s1 = insertable t s" by (rule insertable_same_queue [OF assms(1)])
  moreover have "active_turns (bt_organization t) (bt_bot t) s1 = active_turns (bt_organization t) (bt_bot t) s"
    using assms(1) by (intro active_same_queue) (simp add: same_queue_def)
  moreover have "st_turns s1 = st_turns s" "map br_id (st_bots s1) = map br_id (st_bots s)" "bot_keys s1 = bot_keys s"
    "run_jobs s1 = run_jobs s"
    using assms(1) by (simp_all add: same_queue_def)
  ultimately show ?thesis using assms(2) unfolding queued_into_def by simp
qed

lemma queued_then_same:
  assumes "queued_into now t s s1" "same_queue s1 s'"
  shows "queued_into now t s s'"
  using assms by (simp add: queued_into_def same_queue_def)

lemma lock_bot_keys: "lock_bot org bid s \<longleftrightarrow> (org, bid) \<in> bot_keys s"
  by (auto simp: lock_bot_def bot_keys_def list_ex_iff)

subsection \<open>The steps of a transaction that leave the queue\<close>

lemma stage_job_queue:
  "st_turns (stage_job j s) = st_turns s" "st_bots (stage_job j s) = st_bots s" "st_goals (stage_job j s) = st_goals s"
  "run_jobs (stage_job j s) = (case j of Run_bot_turn q \<Rightarrow> insert q (run_jobs s) | _ \<Rightarrow> run_jobs s)"
  by (auto simp: stage_job_def run_jobs_def split: bot_job.splits)

lemma same_queue_stage: "(\<forall>q. j \<noteq> Run_bot_turn q) \<Longrightarrow> same_queue s (stage_job j s)"
  by (cases j) (auto simp: same_queue_def stage_job_queue bot_keys_def)

lemma insert_message_queue: "same_queue s (insert_message now m s)" "st_goals (insert_message now m s) = st_goals s"
proof -
  let ?s = "insert_message now m s"
  have "map (\<lambda>b. (br_organization b, br_id b)) (st_bots ?s) = map (\<lambda>b. (br_organization b, br_id b)) (st_bots s)"
    by (simp add: insert_message_def Let_def)
  moreover have "map br_id (st_bots ?s) = map br_id (st_bots s)" "st_turns ?s = st_turns s" "st_jobs ?s = st_jobs s"
    by (simp_all add: insert_message_def Let_def)
  ultimately show "same_queue s ?s"
    unfolding same_queue_def bot_keys_def run_jobs_def by simp
  show "st_goals ?s = st_goals s" by (simp add: insert_message_def Let_def)
qed

lemma claim_attachments_queue:
  assumes "claim_attachments_to t m now s = (b, s')"
  shows "same_queue s s'" "st_goals s' = st_goals s"
  using assms
  by (auto simp: claim_attachments_to_def claim_attachments_def Let_def same_queue_def bot_keys_def run_jobs_def
      split: if_splits option.splits)

lemma stage_loop_run_queue: "same_queue s (stage_loop_run l s)" "st_goals (stage_loop_run l s) = st_goals s"
  by (auto simp: stage_loop_run_def stage_job_queue split: option.split intro!: same_queue_stage)

lemma settle_queue:
  assumes "settle setting s = (r, s')"
  shows "same_queue s s'"
proof -
  have loops: "same_queue s (stage_loop_run l (s\<lparr>st_loops := ls\<rparr>))" for l :: bot_loop_entity and ls
    by (rule same_queue_trans [OF _ stage_loop_run_queue(1)]) (simp add: same_queue_def bot_keys_def run_jobs_def)
  show ?thesis
  proof (cases setting)
    case Sets_nothing then show ?thesis using assms by (simp add: settle_def)
  next
    case (Sets_goal g)
    then show ?thesis using assms
      by (auto simp: settle_def set_goal_within_def Let_def same_queue_def bot_keys_def run_jobs_def split: option.splits)
  next
    case (Sets_loop l)
    then show ?thesis using assms
      by (auto simp: settle_def set_loop_within_def Let_def intro: loops split: option.splits)
  qed
qed

lemma claim_continuation_queue: "claim_continuation g s = (b, s') \<Longrightarrow> same_queue s s'"
  by (auto simp: claim_continuation_def Let_def same_queue_def bot_keys_def run_jobs_def)

lemma claim_loop_queue: "claim_loop l s = (b, s') \<Longrightarrow> same_queue s s' \<and> st_goals s' = st_goals s"
  by (auto simp: claim_loop_def Let_def same_queue_def bot_keys_def run_jobs_def)

lemma hold_goal_queue: "same_queue s (hold_goal_within t l s)"
  by (auto simp: hold_goal_within_def same_queue_def bot_keys_def run_jobs_def split: option.split)

lemma stage_goal_decision_queue: "same_queue s (stage_goal_decision now t s)"
proof -
  have "same_queue s (stage_job (Continue_bot_goal q r) (hold_goal_within t l s))"
    "same_queue s (stage_job (Continue_bot_goal q r) s)" for q r l
    by (rule same_queue_trans [OF hold_goal_queue same_queue_stage], simp) (rule same_queue_stage, simp)
  then show ?thesis by (simp add: stage_goal_decision_def split: option.split)
qed

lemma end_goal_queue: "end_goal now g line s = (b, s') \<Longrightarrow> same_queue s s'"
proof -
  have gone: "same_queue s (s\<lparr>st_goals := gs\<rparr>)" for gs by (simp add: same_queue_def bot_keys_def run_jobs_def)
  show "end_goal now g line s = (b, s') \<Longrightarrow> same_queue s s'"
    by (auto simp: end_goal_def Let_def gone split: if_splits option.splits
        intro!: same_queue_trans [OF gone insert_message_queue(1)])
qed

lemma end_loop_queue: "end_loop now l line u s = (b, s') \<Longrightarrow> same_queue s s' \<and> st_goals s' = st_goals s"
proof -
  have gone: "same_queue s (s\<lparr>st_loops := ls\<rparr>)" for ls by (simp add: same_queue_def bot_keys_def run_jobs_def)
  show "end_loop now l line u s = (b, s') \<Longrightarrow> same_queue s s' \<and> st_goals s' = st_goals s"
    by (auto simp: end_loop_def Let_def gone insert_message_queue(2) split: if_splits option.splits
        intro!: same_queue_trans [OF gone insert_message_queue(1)])
qed

lemma schedule_loop_queue: "schedule_loop l due s = (b, s') \<Longrightarrow> same_queue s s' \<and> st_goals s' = st_goals s"
proof -
  have gone: "same_queue s (s\<lparr>st_loops := ls\<rparr>)" for ls by (simp add: same_queue_def bot_keys_def run_jobs_def)
  show "schedule_loop l due s = (b, s') \<Longrightarrow> same_queue s s' \<and> st_goals s' = st_goals s"
    by (auto simp: schedule_loop_def Let_def gone stage_loop_run_queue(2) split: if_splits
        intro!: same_queue_trans [OF gone stage_loop_run_queue(1)])
qed

subsection \<open>Queueing\<close>

lemma insert_turn_Inr:
  assumes "insert_turn now t s = Inr s'"
  shows "insertable t s" "s' = s\<lparr>st_turns := st_turns s @ [queued_row now t]\<rparr>" "bt_id t \<notin> bt_id ` set (st_turns s)"
  using assms
  by (auto simp: insert_turn_def insertable_def turn_referenced_def list_ex_iff lock_bot_keys queued_row_def
      split: if_splits option.splits)

lemma enqueue_locked_Inr:
  assumes "enqueue_locked now t m s = Inr (oc, s')"
  shows "queued_into now t s s'" "st_goals s' = st_goals s" "bt_id t \<notin> bt_id ` set (st_turns s)"
proof -
  obtain s1 where s1: "insert_turn now t s = Inr s1"
    and s': "s' = (if active_turns (bt_organization t) (bt_bot t) s \<noteq> [] then insert_message now m s1
                   else stage_job (Run_bot_turn (bt_id t)) (insert_message now m s1))"
    using assms by (auto simp: enqueue_locked_def Let_def split: sum.splits if_splits)
  note row = insert_turn_Inr [OF s1]
  have "run_jobs s1 = run_jobs s" "bot_keys s1 = bot_keys s" by (simp_all add: row(2) run_jobs_def bot_keys_def)
  then have "run_jobs (insert_message now m s1) = run_jobs s" "bot_keys (insert_message now m s1) = bot_keys s"
    "st_turns (insert_message now m s1) = st_turns s @ [queued_row now t]"
    "map br_id (st_bots (insert_message now m s1)) = map br_id (st_bots s)"
    using insert_message_queue(1) [of s1 now m] by (simp_all add: same_queue_def row(2))
  moreover have "bot_keys (stage_job (Run_bot_turn (bt_id t)) x) = bot_keys x" for x
    by (simp add: bot_keys_def stage_job_queue)
  ultimately show "queued_into now t s s'"
    using row(1) by (simp add: queued_into_def s' stage_job_queue)
  show "st_goals s' = st_goals s" by (simp add: s' stage_job_queue insert_message_queue(2) row(2))
  show "bt_id t \<notin> bt_id ` set (st_turns s)" by (rule row(3))
qed

definition enqueues :: "date \<Rightarrow> 'a bot_turn_scheme \<Rightarrow> bot_store \<Rightarrow> bot_store \<Rightarrow> bool" where
  "enqueues now t s s' \<longleftrightarrow> same_queue s s' \<or> queued_into now t s s'"

lemma enqueue_within_Inr:
  assumes "enqueue_within now t m s = Inr (oc, s')"
  shows "enqueues now t s s'" "st_goals s' = st_goals s" "oc = Enq_missing \<longrightarrow> s' = s"
proof -
  have "enqueue_locked now t m s \<noteq> Inr (Enq_missing, x)" for x
    by (auto simp: enqueue_locked_def Let_def split: sum.splits if_splits)
  then show "enqueues now t s s'" "st_goals s' = st_goals s" "oc = Enq_missing \<longrightarrow> s' = s"
    using assms enqueue_locked_Inr [of now t m s oc s']
    by (auto simp: enqueue_within_def enqueues_def split: if_splits)
qed

lemma enqueue_setting_Inr:
  assumes "enqueue_setting now t m setting s = Inr (oc, replaced, s')"
  shows "enqueues now t s s'"
proof -
  obtain oc1 s1 where s1: "enqueue_within now t m s = Inr (oc1, s1)"
    using assms by (auto simp: enqueue_setting_def split: sum.splits)
  note within = enqueue_within_Inr [OF s1]
  show ?thesis
  proof (cases "oc1 = Enq_missing")
    case True
    then show ?thesis using assms s1 within by (auto simp: enqueue_setting_def)
  next
    case False
    obtain b s2 where s2: "claim_attachments_to t m now s1 = (b, s2)" by force
    obtain r3 s3 where s3: "settle setting s2 = (r3, s3)" by force
    have "s' = (if b then s3 else s)"
      using assms s1 False s2 s3 by (cases b) (auto simp: enqueue_setting_def)
    moreover have "enqueues now t s s3"
    proof -
      have rest: "same_queue s1 s3"
        using claim_attachments_queue(1) [OF s2] settle_queue [OF s3] by (rule same_queue_trans)
      show ?thesis using within(1) unfolding enqueues_def
        by (auto intro: same_queue_trans [OF _ rest] queued_then_same [OF _ rest])
    qed
    ultimately show ?thesis by (simp add: enqueues_def)
  qed
qed

lemma enqueue_once_Inr:
  assumes "enqueue_once now t m prefix s = Inr (oc, s')"
  shows "enqueues now t s s'" "st_goals s' = st_goals s"
  using assms enqueue_locked_Inr [of now t m s oc s']
  by (auto simp: enqueue_once_def enqueues_def split: if_splits option.splits)

lemma enqueue_continuation_Inr:
  assumes "enqueue_continuation now t m g s = Inr (oc, s')"
  shows "enqueues now t s s'" "st_goals s' = st_goals s \<or> st_goals s' = st_goals (snd (claim_continuation g s))"
proof -
  obtain b s1 where s1: "claim_continuation g s = (b, s1)" by force
  note same = claim_continuation_queue [OF s1]
  have "s' = s \<or> s' = s1 \<or> enqueue_locked now t m s1 = Inr (oc, s')"
    using assms s1 by (auto simp: enqueue_continuation_def split: if_splits option.splits bool.splits)
  then show "enqueues now t s s'" "st_goals s' = st_goals s \<or> st_goals s' = st_goals (snd (claim_continuation g s))"
    using same enqueue_locked_Inr [of now t m s1 oc s'] same_then_queued [OF same, of now t s'] s1
    by (auto simp: enqueues_def)
qed

lemma enqueue_loop_run_Inr:
  assumes "enqueue_loop_run now t m l next busy s = Inr (oc, s')"
  shows "enqueues now t s s'" "st_goals s' = st_goals s"
proof -
  obtain b1 s1 where s1: "claim_loop (loop_move_next busy l) s = (b1, s1)" by force
  obtain b2 s2 where s2: "claim_loop (loop_ran next l) s = (b2, s2)" by force
  have same: "same_queue s s1" "same_queue s s2" "st_goals s1 = st_goals s" "st_goals s2 = st_goals s"
    using claim_loop_queue [OF s1] claim_loop_queue [OF s2] by auto
  have staged: "same_queue s (stage_loop_run x s1)" "same_queue s (stage_loop_run x s2)" for x :: bot_loop_entity
    using same same_queue_trans stage_loop_run_queue(1) by blast+
  have "s' = s \<or> s' = s1 \<or> s' = stage_loop_run (loop_move_next busy l) s1 \<or> s' = s2 \<or>
      enqueue_locked now t m (stage_loop_run (loop_ran next l) s2) = Inr (oc, s')"
    using assms s1 s2 by (auto simp: enqueue_loop_run_def Let_def split: if_splits bool.splits)
  then show "enqueues now t s s'" "st_goals s' = st_goals s"
    using same staged enqueue_locked_Inr [of now t m "stage_loop_run (loop_ran next l) s2" oc s']
      same_then_queued [OF staged(2), of now t "loop_ran next l" s']
    by (auto simp: enqueues_def stage_loop_run_queue(2))
qed

lemma enqueue_from_bot_Inr:
  assumes "enqueue_from_bot now t m decide s = Inr (oc, s')"
  shows "same_queue s s' \<or> queued_into now t s s' \<and>
      decide (chain_state_within (bt_organization t) (the (bt_chain t)) s) = Chain_allowed \<and>
      (\<exists>r \<in> set (st_turns s). bt_organization r = bt_organization t \<and> bt_id r = the (bt_chain t))"
    "st_goals s' = st_goals s"
  using assms enqueue_within_Inr [of now t m s oc s']
  by (auto simp: enqueue_from_bot_def enqueues_def Let_def list_ex_iff split: if_splits bot_chain_verdict.splits)

lemma enqueue_answer_Inr:
  assumes "enqueue_answer now t m s = Inr (oc, s')"
  shows "enqueues now t s s'" "st_goals s' = st_goals s"
  using assms enqueue_within_Inr [of now t m s oc s']
  by (auto simp: enqueue_answer_def enqueues_def split: sum.splits if_splits)

end
