(* ===== verification/Bot_Queue_Moves.thy ===== *)
theory Bot_Queue_Moves
  imports Bot_Queue_Facts
begin

section \<open>What the other transactions do to the queue\<close>

text \<open>
  Claiming, ending, cancelling, steering and deleting: each reshapes the table of turns, leaves the
  goals' counts as they are, and (a claim and a take of the job apart) leaves every bot that has a
  queued turn with one that runs or is due to.
\<close>

subsection \<open>Rows of the goals\<close>

definition goal_fits :: "'a bot_goal_scheme \<Rightarrow> bool" where
  "goal_fits g \<longleftrightarrow> 0 \<le> bg_continuations g \<and> bg_limit g \<le> bot_goal_continuations_max"

definition goals_fit :: "bot_store \<Rightarrow> bool" where
  "goals_fit s \<longleftrightarrow> (\<forall>g \<in> set (st_goals s). goal_fits g)"

lemma goals_fit_same: "st_goals s' = st_goals s \<Longrightarrow> goals_fit s' = goals_fit s"
  by (simp add: goals_fit_def)

lemma goals_fit_subset: "set (st_goals s') \<subseteq> set (st_goals s) \<Longrightarrow> goals_fit s \<Longrightarrow> goals_fit s'"
  by (auto simp: goals_fit_def)

lemma hold_goal_fits: "goals_fit s \<Longrightarrow> goals_fit (hold_goal_within t l s)"
  by (auto simp: hold_goal_within_def goals_fit_def goal_fits_def split: option.split)

lemma stage_goal_decision_fits: "goals_fit s \<Longrightarrow> goals_fit (stage_goal_decision now t s)"
proof -
  assume fit: "goals_fit s"
  have "goals_fit (stage_job j x) = goals_fit x" for j x
    by (rule goals_fit_same) (rule stage_job_queue(3))
  then show ?thesis
    using fit by (simp add: stage_goal_decision_def hold_goal_fits split: option.split)
qed

lemma set_goal_fits: "set_goal_within g s = (r, s') \<Longrightarrow> goals_fit s \<Longrightarrow> goal_fits g \<Longrightarrow> goals_fit s'"
  by (auto simp: set_goal_within_def Let_def goals_fit_def goal_fits_def bot_goal.truncate_def split: option.splits)

lemma claim_continuation_fits:
  assumes "claim_continuation g s = (b, s')" "goals_fit s" "0 \<le> bg_continuations g"
  shows "goals_fit s'"
  using assms by (auto simp: claim_continuation_def Let_def goals_fit_def goal_fits_def)

subsection \<open>Whether a bot's queue moves\<close>

definition served :: "string set \<Rightarrow> bot_turn list \<Rightarrow> string \<Rightarrow> string \<Rightarrow> bool" where
  "served due ts org bid \<longleftrightarrow>
     (\<exists>t \<in> set ts. of_bot org bid t \<and>
        (bt_status t = Bot_running \<or> bt_status t = Bot_queued \<and> bt_id t \<in> due))"

definition none_stuck :: "string set \<Rightarrow> bot_turn list \<Rightarrow> bool" where
  "none_stuck due ts \<longleftrightarrow>
     (\<forall>t \<in> set ts. bt_status t = Bot_queued \<longrightarrow> served due ts (bt_organization t) (bt_bot t))"

definition runs_held :: "string set \<Rightarrow> bot_turn list \<Rightarrow> bool" where
  "runs_held held ts \<longleftrightarrow> (\<forall>t \<in> set ts. bt_status t = Bot_running \<longrightarrow> bt_id t \<in> held)"

lemma served_mono: "served due ts org bid \<Longrightarrow> due \<subseteq> due' \<Longrightarrow> served due' ts org bid"
  unfolding served_def by blast

lemma none_stuck_mono: "none_stuck due ts \<Longrightarrow> due \<subseteq> due' \<Longrightarrow> none_stuck due' ts"
  unfolding none_stuck_def using served_mono by blast

lemma runs_held_mono: "runs_held held ts \<Longrightarrow> held \<subseteq> held' \<Longrightarrow> runs_held held' ts"
  unfolding runs_held_def by blast

text \<open>
  A table whose queued turns were there before, where each bot has a running turn, kept its active
  turns, or has no queued turn left.
\<close>

lemma none_stuck_sub:
  assumes "none_stuck due ts"
    and was: "\<And>t'. t' \<in> set ts' \<Longrightarrow> bt_status t' = Bot_queued \<Longrightarrow>
        \<exists>t \<in> set ts. bt_status t = Bot_queued \<and> bt_organization t = bt_organization t' \<and> bt_bot t = bt_bot t'"
    and kept: "\<And>t'. t' \<in> set ts' \<Longrightarrow> bt_status t' = Bot_queued \<Longrightarrow>
        served due ts' (bt_organization t') (bt_bot t') \<or>
        (\<forall>t \<in> set ts. of_bot (bt_organization t') (bt_bot t') t \<and> is_active t \<longrightarrow>
           (\<exists>u \<in> set ts'. turn_identity u = turn_identity t \<and> bt_status u = bt_status t))"
  shows "none_stuck due ts'"
  unfolding none_stuck_def
proof (intro ballI impI)
  fix t' assume t': "t' \<in> set ts'" "bt_status t' = Bot_queued"
  obtain t where t: "t \<in> set ts" "bt_status t = Bot_queued" "bt_organization t = bt_organization t'" "bt_bot t = bt_bot t'"
    using was [OF t'] by blast
  have "served due ts (bt_organization t) (bt_bot t)"
    using assms(1) t(1,2) unfolding none_stuck_def by blast
  then have "served due ts (bt_organization t') (bt_bot t')" by (simp only: t(3,4))
  then obtain r where r: "r \<in> set ts" "of_bot (bt_organization t') (bt_bot t') r"
    and st: "bt_status r = Bot_running \<or> bt_status r = Bot_queued \<and> bt_id r \<in> due"
    unfolding served_def by blast
  show "served due ts' (bt_organization t') (bt_bot t')"
  proof (rule disjE [OF kept [OF t']])
    assume "\<forall>t \<in> set ts. of_bot (bt_organization t') (bt_bot t') t \<and> is_active t \<longrightarrow>
           (\<exists>u \<in> set ts'. turn_identity u = turn_identity t \<and> bt_status u = bt_status t)"
    then obtain u where u: "u \<in> set ts'" "turn_identity u = turn_identity r" "bt_status u = bt_status r"
      using r st unfolding is_active_def by blast
    note eq = turn_identity_eq [OF u(2)]
    have "of_bot (bt_organization t') (bt_bot t') u" using r(2) by (simp add: of_bot_def eq)
    moreover have "bt_status u = Bot_running \<or> bt_status u = Bot_queued \<and> bt_id u \<in> due"
      using st by (simp only: u(3) eq(1))
    ultimately show ?thesis using u(1) unfolding served_def by blast
  qed
qed

lemma queued_into_none_stuck:
  assumes "queued_into now t s s'" "none_stuck (run_jobs s \<union> due) (st_turns s)"
  shows "none_stuck (run_jobs s' \<union> due) (st_turns s')"
proof -
  have ts: "st_turns s' = st_turns s @ [queued_row now t]"
    and jobs: "run_jobs s' = (if active_turns (bt_organization t) (bt_bot t) s = []
        then insert (bt_id t) (run_jobs s) else run_jobs s)"
    using assms(1) unfolding queued_into_def by blast+
  have old: "served (run_jobs s' \<union> due) (st_turns s') org bid" if "served (run_jobs s \<union> due) (st_turns s) org bid" for org bid
  proof -
    have "run_jobs s \<subseteq> run_jobs s'" unfolding jobs by auto
    then show ?thesis using that unfolding served_def ts by auto
  qed
  show ?thesis
    unfolding none_stuck_def
  proof (intro ballI impI)
    fix u assume u: "u \<in> set (st_turns s')" "bt_status u = Bot_queued"
    show "served (run_jobs s' \<union> due) (st_turns s') (bt_organization u) (bt_bot u)"
    proof (cases "u \<in> set (st_turns s)")
      case True then show ?thesis using assms(2) u(2) old unfolding none_stuck_def by blast
    next
      case False
      then have new: "u = queued_row now t" using u(1) ts by simp
      show ?thesis
      proof (cases "active_turns (bt_organization t) (bt_bot t) s = []")
        case True
        then have "bt_id u \<in> run_jobs s'" using new jobs by simp
        then show ?thesis using u unfolding served_def of_bot_def by blast
      next
        case False
        then obtain r where r: "r \<in> set (st_turns s)" "of_bot (bt_organization t) (bt_bot t) r" "is_active r"
          unfolding active_turns_def filter_empty_conv by blast
        have "served (run_jobs s \<union> due) (st_turns s) (bt_organization t) (bt_bot t)"
        proof (cases "bt_status r = Bot_running")
          case True then show ?thesis using r unfolding served_def by blast
        next
          case False
          then have "bt_status r = Bot_queued" using r(3) by (simp add: is_active_def)
          then have "served (run_jobs s \<union> due) (st_turns s) (bt_organization r) (bt_bot r)"
            using assms(2) r(1) unfolding none_stuck_def by blast
          then show ?thesis using r(2) by (simp add: of_bot_def)
        qed
        then show ?thesis using old new by simp
      qed
    qed
  qed
qed

lemma enqueues_moves:
  assumes "enqueues now t s s'"
  shows "none_stuck (run_jobs s \<union> due) (st_turns s) \<Longrightarrow> none_stuck (run_jobs s' \<union> due) (st_turns s')"
    and "bt_status t = Bot_queued \<Longrightarrow> runs_held (run_jobs s \<union> held) (st_turns s) \<Longrightarrow> runs_held (run_jobs s' \<union> held) (st_turns s')"
    and "map br_id (st_bots s') = map br_id (st_bots s) \<and> bot_keys s' = bot_keys s"
proof -
  consider "same_queue s s'" | "queued_into now t s s'" using assms unfolding enqueues_def by blast
  note cases = this
  show "none_stuck (run_jobs s \<union> due) (st_turns s) \<Longrightarrow> none_stuck (run_jobs s' \<union> due) (st_turns s')"
    using cases queued_into_none_stuck by cases (simp_all add: same_queue_def)
  show "map br_id (st_bots s') = map br_id (st_bots s) \<and> bot_keys s' = bot_keys s"
    using cases by cases (simp_all add: same_queue_def queued_into_def)
  assume q: "bt_status t = Bot_queued" and h: "runs_held (run_jobs s \<union> held) (st_turns s)"
  from cases show "runs_held (run_jobs s' \<union> held) (st_turns s')"
  proof cases
    case 1 then show ?thesis using h by (simp add: same_queue_def)
  next
    case 2 then show ?thesis using h q by (auto simp: queued_into_def runs_held_def)
  qed
qed

subsection \<open>Ending a turn\<close>

lemma first_turn_mem: "first_turn ts = Some t \<Longrightarrow> t \<in> set ts"
  by (induction ts arbitrary: t) (auto split: option.splits if_splits)

lemma first_turn_None: "first_turn ts = None \<longleftrightarrow> ts = []"
  by (cases ts) (auto split: option.splits)

lemma stage_next_queue:
  "st_turns (stage_next t s) = st_turns s" "st_bots (stage_next t s) = st_bots s" "st_goals (stage_next t s) = st_goals s"
  "run_jobs s \<subseteq> run_jobs (stage_next t s)"
  by (auto simp: stage_next_def stage_job_queue split: option.split)

lemma stage_next_serves:
  assumes "t \<in> set (st_turns s)" "of_bot org bid t" "bt_status t = Bot_queued"
    and "bt_organization e = org" "bt_bot e = bid"
  shows "served (run_jobs (stage_next e s)) (st_turns s) org bid"
proof (cases "\<exists>r \<in> set (st_turns s). of_bot org bid r \<and> bt_status r = Bot_running")
  case True then show ?thesis unfolding served_def by blast
next
  case False
  let ?q = "filter (\<lambda>t. of_bot org bid t \<and> bt_status t = Bot_queued) (st_turns s)"
  have "?q \<noteq> []" using assms(1-3) by (auto simp: filter_empty_conv)
  then obtain n where n: "first_turn ?q = Some n" using first_turn_None by blast
  have "next_turn (bt_organization e) (bt_bot e) s = Some n"
    using False n by (auto simp: next_turn_def list_ex_iff assms(4,5))
  then have "bt_id n \<in> run_jobs (stage_next e s)"
    by (simp add: stage_next_def stage_job_queue)
  moreover have "n \<in> set (st_turns s)" "of_bot org bid n" "bt_status n = Bot_queued"
    using first_turn_mem [OF n] by simp_all
  ultimately show ?thesis unfolding served_def by blast
qed

definition ended_rows :: "bot_turn_entity \<Rightarrow> bot_turn list \<Rightarrow> bot_turn list" where
  "ended_rows t ts = map (\<lambda>r. if bt_id r = bt_id t \<and> bt_status r = bt_loaded t then ended_columns t r else r) ts"

lemma finish_turn_steps:
  assumes "finish_turn now t s = (b, s')"
  obtains "\<not> b" "s' = s" "length (filter (\<lambda>r. bt_id r = bt_id t \<and> bt_status r = bt_loaded t) (st_turns s)) \<noteq> 1"
  | s1 where "b" "s1 = s\<lparr>st_turns := ended_rows t (st_turns s)\<rparr>"
      "same_queue (stage_next t s1) s'" "goals_fit s \<longrightarrow> goals_fit s'"
proof (cases b)
  case False
  then show thesis using assms that(1) by (auto simp: finish_turn_def Let_def split: if_splits)
next
  case True
  let ?s1 = "s\<lparr>st_turns := ended_rows t (st_turns s)\<rparr>"
  let ?s2 = "stage_next t ?s1"
  let ?s3 = "if bt_reply_requested t \<and> bt_asked_by_turn t \<noteq> None then stage_job (Deliver_bot_answer (bt_id t)) ?s2 else ?s2"
  let ?s4 = "if owes_loop t ?s3 then stage_job (Finish_bot_loop_run (bt_id t)) ?s3 else ?s3"
  have s': "s' = stage_goal_decision now t ?s4"
    using assms True by (auto simp: finish_turn_def Let_def ended_rows_def split: if_splits)
  have s3: "same_queue ?s2 ?s3" by (simp add: same_queue_stage)
  have "same_queue ?s3 ?s4" by (simp add: same_queue_stage)
  then have "same_queue ?s2 ?s4" by (rule same_queue_trans [OF s3])
  then have same: "same_queue ?s2 s'" unfolding s' by (rule same_queue_trans [OF _ stage_goal_decision_queue])
  have "goals_fit ?s4 = goals_fit s" by (rule goals_fit_same) (simp add: stage_job_queue stage_next_queue)
  then have "goals_fit s \<longrightarrow> goals_fit s'" unfolding s' using stage_goal_decision_fits by blast
  then show thesis by (rule that(2) [OF True refl same])
qed

text \<open>The entity that ends a turn: who it is agrees with the row, and it was loaded before the end.\<close>

definition ends_row :: "bot_turn_entity \<Rightarrow> bot_turn list \<Rightarrow> bool" where
  "ends_row t ts \<longleftrightarrow>
     turn_has_ended t \<and> (bt_loaded t = Bot_queued \<or> bt_loaded t = Bot_running) \<and>
     (\<forall>r \<in> set ts. bt_id r = bt_id t \<longrightarrow> turn_identity r = turn_identity t)"

lemma ended_columns_sel [simp]:
  "turn_identity (ended_columns t r) = turn_identity r" "bt_answers (ended_columns t r) = bt_answers r"
  "bt_status (ended_columns t r) = bt_status t" "bt_id (ended_columns t r) = bt_id r"
  "bt_organization (ended_columns t r) = bt_organization r" "bt_bot (ended_columns t r) = bt_bot r"
  by (simp_all add: ended_columns_def turn_identity_def)

lemma ended_rows_reshaped:
  assumes "ends_row t ts"
  shows "reshaped ts (ended_rows t ts)"
  unfolding ended_rows_def
  using assms by (intro reshaped_map kept_map) (auto simp: ends_row_def turn_has_ended_iff split: if_splits)

lemma finish_turn_table:
  assumes "finish_turn now t s = (b, s')" "ends_row t (st_turns s)"
  shows "reshaped (st_turns s) (st_turns s')" "map br_id (st_bots s') = map br_id (st_bots s)" "bot_keys s' = bot_keys s"
    "run_jobs s \<subseteq> run_jobs s'" "goals_fit s \<Longrightarrow> goals_fit s'"
proof -
  have "reshaped (st_turns s) (st_turns s') \<and> map br_id (st_bots s') = map br_id (st_bots s) \<and> bot_keys s' = bot_keys s \<and>
    run_jobs s \<subseteq> run_jobs s' \<and> (goals_fit s \<longrightarrow> goals_fit s')"
    using assms(1)
  proof (cases rule: finish_turn_steps)
    case 1 then show ?thesis by (simp add: reshaped_refl)
  next
    case (2 s1)
    have "run_jobs s1 = run_jobs s" "bot_keys s1 = bot_keys s" "st_bots s1 = st_bots s"
      by (simp_all add: 2(2) run_jobs_def bot_keys_def)
    moreover have "bot_keys (stage_next t s1) = bot_keys s1" by (simp add: bot_keys_def stage_next_queue)
    ultimately show ?thesis
      using 2(3,4) ended_rows_reshaped [OF assms(2)] stage_next_queue(4) [of s1 t]
      by (simp add: same_queue_def stage_next_queue(1,2) 2(2))
  qed
  then show "reshaped (st_turns s) (st_turns s')" "map br_id (st_bots s') = map br_id (st_bots s)" "bot_keys s' = bot_keys s"
    "run_jobs s \<subseteq> run_jobs s'" "goals_fit s \<Longrightarrow> goals_fit s'" by blast+
qed

lemma finish_turn_moves:
  assumes fin: "finish_turn now t s = (b, s')" and ends: "ends_row t (st_turns s)"
    and stuck: "none_stuck (run_jobs s \<union> due) (st_turns s)"
  shows "none_stuck (run_jobs s' \<union> due) (st_turns s')"
  using fin
proof (cases rule: finish_turn_steps)
  case 1 then show ?thesis using stuck by simp
next
  case (2 s1)
  have ts1: "st_turns s1 = ended_rows t (st_turns s)" by (simp add: 2(2))
  have ts: "st_turns s' = st_turns s1" and jobs: "run_jobs s' = run_jobs (stage_next t s1)"
    using 2(3) by (simp_all add: same_queue_def stage_next_queue)
  have more: "run_jobs s \<subseteq> run_jobs s'" using finish_turn_table(4) [OF fin ends] .
  have stuck': "none_stuck (run_jobs s' \<union> due) (st_turns s)"
    using none_stuck_mono [OF stuck, of "run_jobs s' \<union> due"] more by blast
  show ?thesis unfolding ts
  proof (rule none_stuck_sub [OF stuck'])
    fix u assume u: "u \<in> set (st_turns s1)" "bt_status u = Bot_queued"
    then have old: "u \<in> set (st_turns s)"
      using ends unfolding ts1 ended_rows_def ends_row_def turn_has_ended_iff by (auto split: if_splits)
    then show "\<exists>t\<in>set (st_turns s). bt_status t = Bot_queued \<and> bt_organization t = bt_organization u \<and> bt_bot t = bt_bot u"
      using u(2) by blast
    show "served (run_jobs s' \<union> due) (st_turns s1) (bt_organization u) (bt_bot u) \<or>
        (\<forall>t\<in>set (st_turns s). of_bot (bt_organization u) (bt_bot u) t \<and> is_active t \<longrightarrow>
            (\<exists>ua\<in>set (st_turns s1). turn_identity ua = turn_identity t \<and> bt_status ua = bt_status t))"
    proof (cases "of_bot (bt_organization t) (bt_bot t) u")
      case True
      then have "served (run_jobs (stage_next t s1)) (st_turns s1) (bt_organization t) (bt_bot t)"
        by (intro stage_next_serves [OF u(1) _ u(2)]) simp_all
      then show ?thesis using True served_mono unfolding jobs of_bot_def by (metis sup_ge1)
    next
      case False
      have "r \<in> set (st_turns s1)" if r: "r \<in> set (st_turns s)" "of_bot (bt_organization u) (bt_bot u) r" for r
      proof -
        have "bt_id r \<noteq> bt_id t"
        proof
          assume "bt_id r = bt_id t"
          then have "turn_identity r = turn_identity t" using ends r(1) unfolding ends_row_def by blast
          from turn_identity_eq(2,3) [OF this] show False using False r(2) by (simp add: of_bot_def)
        qed
        then show ?thesis using r(1) by (force simp: ts1 ended_rows_def)
      qed
      then show ?thesis by blast
    qed
  qed
qed

lemma reshaped_held:
  assumes "reshaped ts ts'" "runs_held held ts"
  shows "runs_held held ts'"
  unfolding runs_held_def
proof (intro ballI impI)
  fix t' assume "t' \<in> set ts'" "bt_status t' = Bot_running"
  then obtain t where "t \<in> set ts" "turn_identity t' = turn_identity t" "bt_status t = Bot_running"
    using assms(1) unfolding reshaped_def by blast
  then show "bt_id t' \<in> held" using assms(2) turn_identity_eq(1) unfolding runs_held_def by metis
qed

lemma finish_turn_held:
  assumes fin: "finish_turn now t s = (b, s')" and ends: "ends_row t (st_turns s)"
    and rows: "distinct (map bt_id (st_turns s))" and held: "runs_held held (st_turns s)" and run: "bt_loaded t = Bot_running"
  shows "runs_held (held - {bt_id t}) (st_turns s')"
proof -
  have "runs_held held (st_turns s')" using reshaped_held [OF finish_turn_table(1) [OF fin ends] held] .
  moreover have "bt_id r \<noteq> bt_id t" if r: "r \<in> set (st_turns s')" "bt_status r = Bot_running" for r
    using fin
  proof (cases rule: finish_turn_steps)
    case 1
    show ?thesis
    proof
      assume "bt_id r = bt_id t"
      then have "filter (\<lambda>r. bt_id r = bt_id t \<and> bt_status r = bt_loaded t) (st_turns s) \<noteq> []"
        using r run 1(2) by (auto simp: filter_empty_conv)
      moreover have "length (filter (\<lambda>r. bt_id r = bt_id t \<and> bt_status r = bt_loaded t) (st_turns s)) \<le> 1"
      proof -
        have "card {x \<in> set (st_turns s). bt_id x = bt_id t \<and> bt_status x = bt_loaded t} \<le> card {r}"
          using same_row [OF rows] r 1(2) \<open>bt_id r = bt_id t\<close> by (intro card_mono) auto
        then show ?thesis by (simp add: filter_length_card [OF rows])
      qed
      ultimately show False using 1(3) unfolding length_0_conv [symmetric] by linarith
    qed
  next
    case (2 s1)
    have "st_turns s' = ended_rows t (st_turns s)"
      using 2(3) by (simp add: same_queue_def stage_next_queue 2(2))
    then show ?thesis
      using r run ends by (auto simp: ended_rows_def ends_row_def turn_has_ended_iff split: if_splits)
  qed
  ultimately show ?thesis unfolding runs_held_def by blast
qed

subsection \<open>Claiming a turn\<close>

definition claimed_rows :: "bot_turn_entity \<Rightarrow> bot_turn list \<Rightarrow> bot_turn list" where
  "claimed_rows t ts =
     map (\<lambda>r. if bt_id r = bt_id t \<and> bt_status r = bt_loaded t
              then r\<lparr>bt_status := bt_status t, bt_started := bt_started t\<rparr> else r) ts"

lemma claim_turn_steps:
  assumes "claim_turn t s = (oc, t', s')"
  obtains (lost) "oc = Claim_lost" "s' = s" "t' = t"
      "length (filter (\<lambda>r. bt_id r = bt_id t \<and> bt_status r = bt_loaded t) (st_turns s)) \<noteq> 1"
  | (busy) r u where "oc = Claim_busy" "s' = s" "t' = t" "r \<in> set (st_turns s)" "bt_id r = bt_id t"
      "u \<in> set (st_turns s)" "bt_bot u = bt_bot r" "bt_status u = Bot_running"
  | (claimed) r where "oc = Claim_claimed" "s' = s\<lparr>st_turns := claimed_rows t (st_turns s)\<rparr>" "t' = mark_turn_persisted t"
      "filter (\<lambda>r. bt_id r = bt_id t \<and> bt_status r = bt_loaded t) (st_turns s) = [r]"
      "\<forall>u \<in> set (st_turns s). bt_bot u = bt_bot r \<and> bt_status u = Bot_running \<longrightarrow> bt_id u = bt_id t"
proof -
  let ?hits = "filter (\<lambda>r. bt_id r = bt_id t \<and> bt_status r = bt_loaded t) (st_turns s)"
  show thesis
  proof (cases "length ?hits \<noteq> 1")
    case True then show thesis using assms lost by (auto simp: claim_turn_def Let_def)
  next
    case False
    then obtain r where r: "?hits = [r]" by (auto simp: length_Suc_conv)
    then have "r \<in> set ?hits" by simp
    then have row: "r \<in> set (st_turns s)" "bt_id r = bt_id t" by simp_all
    show thesis
    proof (cases "\<exists>u \<in> set (st_turns s). bt_bot u = bt_bot r \<and> bt_status u = Bot_running \<and> bt_id u \<noteq> bt_id t")
      case True
      then obtain u where u: "u \<in> set (st_turns s)" "bt_bot u = bt_bot r" "bt_status u = Bot_running" by blast
      have "oc = Claim_busy" "s' = s" "t' = t"
        using assms r True by (auto simp: claim_turn_def Let_def list_ex_iff)
      then show thesis using busy row u by blast
    next
      case no_other: False
      then have "\<not> list_ex (\<lambda>u. bt_bot u = bt_bot (hd ?hits) \<and> bt_status u = Bot_running \<and> bt_id u \<noteq> bt_id t) (st_turns s)"
        by (simp add: r list_ex_iff)
      then have "oc = Claim_claimed" "s' = s\<lparr>st_turns := claimed_rows t (st_turns s)\<rparr>" "t' = mark_turn_persisted t"
        using assms r by (simp_all add: claim_turn_def Let_def claimed_rows_def)
      then show thesis using claimed r no_other by blast
    qed
  qed
qed

text \<open>The entity a worker claims with: loaded queued, started.\<close>

definition starts_row :: "bot_turn_entity \<Rightarrow> bot_turn list \<Rightarrow> bool" where
  "starts_row t ts \<longleftrightarrow>
     bt_status t = Bot_running \<and> bt_loaded t = Bot_queued \<and>
     (\<forall>r \<in> set ts. bt_id r = bt_id t \<longrightarrow> turn_identity r = turn_identity t)"

lemma claimed_rows_kept:
  assumes "starts_row t ts"
  shows "kept_turns ts (claimed_rows t ts)"
  unfolding claimed_rows_def
  using assms by (intro kept_map) (auto simp: starts_row_def turn_has_ended_iff turn_identity_def)

lemma claimed_rows_running:
  assumes "starts_row t ts" "one_running ts" "distinct (map bt_id ts)" "r \<in> set ts" "bt_id r = bt_id t"
    and alone: "\<forall>u \<in> set ts. bt_bot u = bt_bot r \<and> bt_status u = Bot_running \<longrightarrow> bt_id u = bt_id t"
  shows "one_running (claimed_rows t ts)"
  unfolding one_running_def
proof (intro ballI impI)
  have row: "\<exists>y \<in> set ts. bt_id x = bt_id y \<and> bt_bot x = bt_bot y \<and> (bt_status y = Bot_running \<or> y = r)"
    if x_in: "x \<in> set (claimed_rows t ts)" and x_run: "bt_status x = Bot_running" for x
  proof -
    obtain y where y: "y \<in> set ts" and x: "x = (if bt_id y = bt_id t \<and> bt_status y = bt_loaded t
        then y\<lparr>bt_status := bt_status t, bt_started := bt_started t\<rparr> else y)"
      using x_in unfolding claimed_rows_def set_map by blast
    have "bt_status y = Bot_running \<or> y = r"
      using x_run x same_row [OF assms(3) y assms(4)] assms(5) by (auto split: if_splits)
    then show ?thesis using y by (intro bexI [of _ y]) (simp_all add: x)
  qed
  fix x y assume xy: "x \<in> set (claimed_rows t ts)" "y \<in> set (claimed_rows t ts)"
    and run: "bt_status x = Bot_running \<and> bt_status y = Bot_running \<and> bt_bot x = bt_bot y"
  obtain x' where x': "x' \<in> set ts" "bt_id x = bt_id x'" "bt_bot x = bt_bot x'" "bt_status x' = Bot_running \<or> x' = r"
    using row xy(1) run by blast
  obtain y' where y': "y' \<in> set ts" "bt_id y = bt_id y'" "bt_bot y = bt_bot y'" "bt_status y' = Bot_running \<or> y' = r"
    using row xy(2) run by blast
  have same: "bt_bot x' = bt_bot y'" using run x'(3) y'(3) by simp
  consider "x' = r" "y' = r" | "x' = r" "bt_status y' = Bot_running" | "bt_status x' = Bot_running" "y' = r"
    | "bt_status x' = Bot_running" "bt_status y' = Bot_running" using x'(4) y'(4) by blast
  then have "bt_id x' = bt_id y'"
  proof cases
    case 1 then show ?thesis by simp
  next
    case 2
    then have "bt_id y' = bt_id t" using alone y'(1) same by simp
    then show ?thesis using 2(1) assms(5) by simp
  next
    case 3
    then have "bt_id x' = bt_id t" using alone x'(1) same by simp
    then show ?thesis using 3(2) assms(5) by simp
  next
    case 4 then show ?thesis using assms(2) x'(1) y'(1) same unfolding one_running_def by blast
  qed
  then show "bt_id x = bt_id y" using x'(2) y'(2) by simp
qed

lemma claim_turn_inv:
  assumes claim: "claim_turn t s = (oc, t', s')" and starts: "starts_row t (st_turns s)"
    and inv: "turns_inv used bots (st_turns s)"
  shows "turns_inv used bots (st_turns s')"
  using claim
proof (cases rule: claim_turn_steps)
  case lost then show ?thesis using inv by simp
next
  case (busy r u) then show ?thesis using inv by simp
next
  case (claimed r)
  have "r \<in> set (filter (\<lambda>r. bt_id r = bt_id t \<and> bt_status r = bt_loaded t) (st_turns s))" using claimed(4) by simp
  then have r: "r \<in> set (st_turns s)" "bt_id r = bt_id t" by simp_all
  have "one_running (st_turns s)" "distinct (map bt_id (st_turns s))"
    using inv by (simp_all add: turns_inv_def keyed_turns_def)
  then have "one_running (claimed_rows t (st_turns s))"
    by (rule claimed_rows_running [OF starts _ _ r claimed(5)])
  then show ?thesis using kept_inv [OF claimed_rows_kept [OF starts] inv] claimed(2) by simp
qed

lemma claimed_none_stuck:
  assumes "none_stuck due ts" "starts_row t ts" "filter (\<lambda>r. bt_id r = bt_id t \<and> bt_status r = bt_loaded t) ts = [r]"
  shows "none_stuck (due - {bt_id t}) (claimed_rows t ts)"
  unfolding none_stuck_def
proof (intro ballI impI)
  have "r \<in> set (filter (\<lambda>r. bt_id r = bt_id t \<and> bt_status r = bt_loaded t) ts)" using assms(3) by simp
  then have r: "r \<in> set ts" "bt_id r = bt_id t" "bt_status r = bt_loaded t" by simp_all
  let ?r = "r\<lparr>bt_status := bt_status t, bt_started := bt_started t\<rparr>"
  have new: "?r \<in> set (claimed_rows t ts)" using r by (auto simp: claimed_rows_def)
  have run: "bt_status ?r = Bot_running" using assms(2) by (simp add: starts_row_def)
  fix u assume u: "u \<in> set (claimed_rows t ts)" "bt_status u = Bot_queued"
  then have old: "u \<in> set ts"
    using assms(2) by (auto simp: claimed_rows_def starts_row_def split: if_splits)
  then obtain w where w: "w \<in> set ts" "of_bot (bt_organization u) (bt_bot u) w"
    "bt_status w = Bot_running \<or> bt_status w = Bot_queued \<and> bt_id w \<in> due"
    using assms(1) u(2) unfolding none_stuck_def served_def by blast
  show "served (due - {bt_id t}) (claimed_rows t ts) (bt_organization u) (bt_bot u)"
  proof (cases "bt_id w = bt_id t \<and> bt_status w = bt_loaded t")
    case True
    then have "w \<in> set (filter (\<lambda>r. bt_id r = bt_id t \<and> bt_status r = bt_loaded t) ts)" using w(1) by simp
    then have "w = r" using assms(3) by simp
    then have "of_bot (bt_organization u) (bt_bot u) ?r" using w(2) by (simp add: of_bot_def)
    then show ?thesis using new run unfolding served_def by blast
  next
    case False
    then have keep: "w \<in> set (claimed_rows t ts)" using w(1) by (force simp: claimed_rows_def)
    have "bt_loaded t = Bot_queued" using assms(2) by (simp add: starts_row_def)
    then have "bt_status w = Bot_running \<or> bt_status w = Bot_queued \<and> bt_id w \<in> due - {bt_id t}"
      using w(3) False by auto
    then show ?thesis using keep w(2) unfolding served_def by blast
  qed
qed

lemma claimed_held:
  assumes "runs_held held ts" "starts_row t ts"
  shows "runs_held (insert (bt_id t) held) (claimed_rows t ts)"
  using assms by (auto simp: runs_held_def claimed_rows_def split: if_splits)

end
