(* ===== verification/Bot_Queue_Deletes.thy ===== *)
theory Bot_Queue_Deletes
  imports Bot_Queue_Moves
begin

section \<open>Deleting turns, and moving steers into the running one\<close>

text \<open>
  A transaction that deletes turns: the rows of \<open>P\<close> are gone, and every other one stands where it
  stood, its references to them gone.
\<close>

definition cleared :: "(bot_turn \<Rightarrow> bool) \<Rightarrow> bot_store \<Rightarrow> bot_store \<Rightarrow> bool" where
  "cleared P s s' \<longleftrightarrow>
     reshaped (st_turns s) (st_turns s') \<and>
     (\<forall>t' \<in> set (st_turns s'). \<exists>t \<in> set (st_turns s). \<not> P t \<and> turn_identity t' = turn_identity t \<and> bt_status t' = bt_status t) \<and>
     (\<forall>t \<in> set (st_turns s). \<not> P t \<longrightarrow>
        (\<exists>t' \<in> set (st_turns s'). turn_identity t' = turn_identity t \<and> bt_status t' = bt_status t)) \<and>
     run_jobs s' = run_jobs s \<and> set (st_goals s') \<subseteq> set (st_goals s)"

lemma cleared_map:
  assumes ts: "st_turns s' = map g (filter (\<lambda>t. \<not> P t) (st_turns s))"
    and who: "\<And>t. t \<in> set (st_turns s) \<Longrightarrow> turn_identity (g t) = turn_identity t \<and> turn_result (g t) = turn_result t"
    and ref: "\<And>t. t \<in> set (st_turns s) \<Longrightarrow> bt_answers (g t) =
        unset_ref (map (\<lambda>t. (bt_organization t, bt_id t)) (filter P (st_turns s))) (bt_organization t) (bt_answers t)"
    and rest: "run_jobs s' = run_jobs s" "set (st_goals s') \<subseteq> set (st_goals s)"
  shows "cleared P s s'"
proof -
  have status: "bt_status (g t) = bt_status t" if "t \<in> set (st_turns s)" for t
    using who [OF that] by (simp add: turn_result_def)
  have gone: "(\<exists>r \<in> set (st_turns s). \<not> \<not> P r \<and> bt_id r = q \<and> bt_organization r = org) \<longleftrightarrow>
      (org, q) \<in> set (map (\<lambda>t. (bt_organization t, bt_id t)) (filter P (st_turns s)))" for org q
    by auto
  have "kept_turns (st_turns s) (st_turns s')"
    unfolding kept_turns_def
  proof (rule exI [of _ "\<lambda>t. \<not> P t"], rule exI [of _ g], intro conjI ballI impI)
    show "st_turns s' = map g (filter (\<lambda>t. \<not> P t) (st_turns s))" by (rule ts)
    fix t assume t: "t \<in> set (st_turns s)"
    show "turn_identity (g t) = turn_identity t" "turn_result (g t) = turn_result t" using who [OF t] by blast+
    show "bt_answers (g t) = (case bt_answers t of None \<Rightarrow> None
        | Some q \<Rightarrow> if \<exists>r\<in>set (st_turns s). \<not> \<not> P r \<and> bt_id r = q \<and> bt_organization r = bt_organization t
                    then None else Some q)"
      unfolding gone ref [OF t] unset_ref_def by (simp only:)
  qed
  moreover have from_old: "\<exists>t \<in> set (st_turns s). \<not> P t \<and> turn_identity t' = turn_identity t \<and> bt_status t' = bt_status t"
    if "t' \<in> set (st_turns s')" for t'
    using that who status unfolding ts by auto
  moreover have "\<exists>t' \<in> set (st_turns s'). turn_identity t' = turn_identity t \<and> bt_status t' = bt_status t"
    if "t \<in> set (st_turns s)" "\<not> P t" for t
    using that who status unfolding ts by (intro bexI [of _ "g t"]) auto
  ultimately show ?thesis
    using rest unfolding cleared_def reshaped_def by metis
qed

lemma cleared_inv: "cleared P s s' \<Longrightarrow> turns_inv used bots (st_turns s) \<Longrightarrow> turns_inv used bots (st_turns s')"
  unfolding cleared_def using reshaped_inv by blast

lemma cleared_fits: "cleared P s s' \<Longrightarrow> goals_fit s \<Longrightarrow> goals_fit s'"
  unfolding cleared_def using goals_fit_subset by blast

lemma cleared_held: "cleared P s s' \<Longrightarrow> runs_held held (st_turns s) \<Longrightarrow> runs_held held (st_turns s')"
  unfolding cleared_def using reshaped_held by blast

lemma cleared_none_stuck:
  assumes "cleared P s s'" "none_stuck due (st_turns s)"
    and whole: "\<And>t u. t \<in> set (st_turns s) \<Longrightarrow> P t \<Longrightarrow> u \<in> set (st_turns s) \<Longrightarrow> \<not> P u \<Longrightarrow>
      of_bot (bt_organization u) (bt_bot u) t \<Longrightarrow>
      \<exists>r \<in> set (st_turns s). \<not> P r \<and> of_bot (bt_organization u) (bt_bot u) r \<and> bt_status r = Bot_running"
  shows "none_stuck due (st_turns s')"
proof (rule none_stuck_sub [OF assms(2)])
  have old: "\<And>t'. t' \<in> set (st_turns s') \<Longrightarrow>
      \<exists>t \<in> set (st_turns s). \<not> P t \<and> turn_identity t' = turn_identity t \<and> bt_status t' = bt_status t"
    and new: "\<And>t. t \<in> set (st_turns s) \<Longrightarrow> \<not> P t \<Longrightarrow>
        \<exists>t' \<in> set (st_turns s'). turn_identity t' = turn_identity t \<and> bt_status t' = bt_status t"
    using assms(1) unfolding cleared_def by blast+
  fix u' assume u': "u' \<in> set (st_turns s')" "bt_status u' = Bot_queued"
  obtain u where u: "u \<in> set (st_turns s)" "\<not> P u" "turn_identity u' = turn_identity u" "bt_status u' = bt_status u"
    using old [OF u'(1)] by blast
  note eq = turn_identity_eq(2,3) [OF u(3)]
  show "\<exists>t\<in>set (st_turns s). bt_status t = Bot_queued \<and> bt_organization t = bt_organization u' \<and> bt_bot t = bt_bot u'"
    using u u'(2) eq by (intro bexI [of _ u]) simp_all
  show "served due (st_turns s') (bt_organization u') (bt_bot u') \<or>
      (\<forall>t\<in>set (st_turns s). of_bot (bt_organization u') (bt_bot u') t \<and> is_active t \<longrightarrow>
        (\<exists>v\<in>set (st_turns s'). turn_identity v = turn_identity t \<and> bt_status v = bt_status t))"
  proof (cases "\<exists>t \<in> set (st_turns s). P t \<and> of_bot (bt_organization u) (bt_bot u) t")
    case True
    then obtain r where r: "r \<in> set (st_turns s)" "\<not> P r" "of_bot (bt_organization u) (bt_bot u) r" "bt_status r = Bot_running"
      using whole u(1,2) by blast
    obtain r' where r': "r' \<in> set (st_turns s')" "turn_identity r' = turn_identity r" "bt_status r' = bt_status r"
      using new [OF r(1,2)] by blast
    have "of_bot (bt_organization u') (bt_bot u') r'"
      using r(3) turn_identity_eq(2,3) [OF r'(2)] by (simp add: of_bot_def eq)
    then show ?thesis using r'(1,3) r(4) unfolding served_def by auto
  next
    case False
    then show ?thesis using new unfolding eq by blast
  qed
qed

subsection \<open>The deletes\<close>

lemma delete_messages_queue:
  "st_turns (delete_messages P s) = st_turns s" "st_bots (delete_messages P s) = st_bots s"
  "st_goals (delete_messages P s) = st_goals s" "run_jobs (delete_messages P s) = run_jobs s"
  by (simp_all add: delete_messages_def Let_def run_jobs_def)

lemma delete_turns_sel:
  "st_turns (delete_turns P s) =
     map (\<lambda>t. t\<lparr>bt_asked_by_turn := unset_ref (map (\<lambda>t. (bt_organization t, bt_id t)) (filter P (st_turns s)))
                  (bt_organization t) (bt_asked_by_turn t),
                bt_answers := unset_ref (map (\<lambda>t. (bt_organization t, bt_id t)) (filter P (st_turns s)))
                  (bt_organization t) (bt_answers t)\<rparr>) (filter (\<lambda>t. \<not> P t) (st_turns s))"
  "st_bots (delete_turns P s) = st_bots s" "run_jobs (delete_turns P s) = run_jobs s"
  "set (st_goals (delete_turns P s)) \<subseteq> set (st_goals s)"
proof -
  show "run_jobs (delete_turns P s) = run_jobs s"
    using delete_messages_queue(4) by (simp add: delete_turns_def Let_def run_jobs_def)
qed (auto simp: delete_turns_def Let_def delete_messages_queue)

lemma delete_turns_cleared: "cleared P s (delete_turns P s)"
  by (rule cleared_map [OF delete_turns_sel(1)])
    (simp_all add: delete_turns_sel turn_identity_def turn_result_def)

lemma delete_bot_cleared: "cleared (of_bot org bid) s (delete_bot org bid s)"
proof -
  let ?gone = "map (\<lambda>t. (bt_organization t, bt_id t)) (filter (of_bot org bid) (st_turns s))"
  let ?f = "\<lambda>t. t\<lparr>bt_asked_by_turn := unset_ref ?gone (bt_organization t) (bt_asked_by_turn t),
                bt_answers := unset_ref ?gone (bt_organization t) (bt_answers t)\<rparr>"
  let ?h = "\<lambda>t. if bt_organization t = org \<and> bt_asked_by_bot t = Some bid then t\<lparr>bt_asked_by_bot := None\<rparr> else t"
  show ?thesis
  proof (rule cleared_map [where g = "\<lambda>t. ?h (?f t)"])
    show "st_turns (delete_bot org bid s) = map (\<lambda>t. ?h (?f t)) (filter (\<lambda>t. \<not> of_bot org bid t) (st_turns s))"
      by (simp add: delete_bot_def Let_def delete_turns_sel)
    show "run_jobs (delete_bot org bid s) = run_jobs s"
      using delete_turns_sel(3) by (simp add: delete_bot_def Let_def run_jobs_def)
    show "set (st_goals (delete_bot org bid s)) \<subseteq> set (st_goals s)"
      using delete_turns_sel(4) [of "of_bot org bid" s] by (auto simp: delete_bot_def Let_def)
  qed (simp_all add: turn_identity_def turn_result_def)
qed

lemma delete_bot_bots:
  "map br_id (st_bots (delete_bot org bid s)) = map br_id (filter (\<lambda>b. \<not> (br_organization b = org \<and> br_id b = bid)) (st_bots s))"
  "bot_keys (delete_bot org bid s) = bot_keys s - {(org, bid)}"
  by (auto simp: delete_bot_def Let_def delete_turns_sel bot_keys_def)

lemma delete_account_cleared: "cleared (\<lambda>_. False) s (delete_account user s)"
proof (rule cleared_map)
  show "st_turns (delete_account user s) =
      map (\<lambda>t. if bt_requester t = Some user then t\<lparr>bt_requester := None\<rparr> else t) (filter (\<lambda>t. \<not> False) (st_turns s))"
    by (simp add: delete_account_def)
qed (auto simp: delete_account_def turn_identity_def turn_result_def run_jobs_def unset_ref_def split: option.split)

lemma clear_conversation_cleared:
  assumes "clear_conversation org bid s = (oc, s')"
  shows "s' = s \<or> cleared (of_bot org bid) s s'" "map br_id (st_bots s') = map br_id (st_bots s)" "bot_keys s' = bot_keys s"
proof -
  let ?s1 = "delete_messages (\<lambda>m. bm_organization m = org \<and> bm_bot m = bid) s"
  let ?s2 = "?s1\<lparr>st_bots := map (\<lambda>b. if br_organization b = org \<and> br_id b = bid
                   then b\<lparr>br_last_message_at := None, br_last_preview := None\<rparr> else b) (st_bots ?s1)\<rparr>"
  have "s' = s \<or> s' = delete_turns (of_bot org bid) ?s2"
    using assms by (auto simp: clear_conversation_def Let_def split: if_splits)
  moreover have "cleared (of_bot org bid) s (delete_turns (of_bot org bid) ?s2)"
  proof -
    have same: "st_turns ?s2 = st_turns s" "st_goals ?s2 = st_goals s" "run_jobs ?s2 = run_jobs s"
      using delete_messages_queue(4) by (simp_all add: delete_messages_queue run_jobs_def)
    show ?thesis using delete_turns_cleared [of "of_bot org bid" ?s2] unfolding cleared_def same .
  qed
  moreover have "map br_id (st_bots ?s2) = map br_id (st_bots s)"
    "map (\<lambda>b. (br_organization b, br_id b)) (st_bots ?s2) = map (\<lambda>b. (br_organization b, br_id b)) (st_bots s)"
    by (simp_all add: delete_messages_queue)
  ultimately show "s' = s \<or> cleared (of_bot org bid) s s'" "map br_id (st_bots s') = map br_id (st_bots s)" "bot_keys s' = bot_keys s"
    unfolding bot_keys_def by (auto simp only: delete_turns_sel(2))
qed

lemma request_cancel_cleared:
  assumes "request_cancel t now s = (b, s')"
  shows "cleared (\<lambda>_. False) s s'" "st_bots s' = st_bots s"
proof -
  let ?hit = "\<lambda>r. bt_id r = bt_id t \<and> bt_status r = Bot_running"
  let ?g = "\<lambda>r. if ?hit r then r\<lparr>bt_cancel_requested := Some now\<rparr> else r"
  have s': "s' = s\<lparr>st_turns := map ?g (st_turns s)\<rparr>"
    using assms by (auto simp: request_cancel_def Let_def)
  have kept: "kept_turns (st_turns s) (map ?g (st_turns s))"
    by (rule kept_map) (auto simp: turn_identity_def turn_has_ended_iff)
  have "reshaped (st_turns s) (map ?g (st_turns s))"
    by (rule reshaped_map [OF kept]) (auto simp: turn_identity_def split: if_splits)
  moreover have same: "turn_identity (?g r) = turn_identity r \<and> bt_status (?g r) = bt_status r" for r :: bot_turn
    by (simp add: turn_identity_def)
  ultimately show "cleared (\<lambda>_. False) s s'"
    unfolding cleared_def
  proof (intro conjI ballI impI)
    fix r' assume "r' \<in> set (st_turns s')"
    then obtain r where "r \<in> set (st_turns s)" "r' = ?g r" unfolding s' by auto
    then show "\<exists>r \<in> set (st_turns s). \<not> False \<and> turn_identity r' = turn_identity r \<and> bt_status r' = bt_status r"
      using same by blast
  next
    fix r assume "r \<in> set (st_turns s)"
    then have "?g r \<in> set (st_turns s')" unfolding s' by simp
    then show "\<exists>r' \<in> set (st_turns s'). turn_identity r' = turn_identity r \<and> bt_status r' = bt_status r"
      using same by blast
  qed (simp_all add: s' run_jobs_def)
  show "st_bots s' = st_bots s" by (simp add: s')
qed

subsection \<open>Steers\<close>

lemma move_steers_induct:
  assumes "move_steers now e ts s = Inr (ms, s')" "R s"
    and "\<And>u x x' m. u \<in> set ts \<Longrightarrow> R x \<Longrightarrow> move_steer now e u x = Inr (m, x') \<Longrightarrow> R x'"
  shows "R s'"
  using assms
proof (induction ts arbitrary: s ms s')
  case Nil then show ?case by simp
next
  case (Cons u ts)
  obtain m s1 rest s2 where s1: "move_steer now e u s = Inr (m, s1)"
    and s2: "move_steers now e ts s1 = Inr (rest, s2)" and s': "s' = s2"
    using Cons.prems(1) by (auto split: sum.splits prod.splits)
  have "R s1" using Cons.prems(3) [OF _ Cons.prems(2) s1] by simp
  then have "R s2" by (rule Cons.IH [OF s2]) (use Cons.prems(3) in auto)
  then show ?case by (simp add: s')
qed

lemma move_steer_cleared:
  assumes "move_steer now e u s = Inr (m, s')"
  shows "s' = s \<or> cleared (\<lambda>t. bt_organization t = bt_organization e \<and> bt_id t = bt_id u) s s'" "st_bots s' = st_bots s"
proof -
  let ?P = "\<lambda>t :: bot_turn. bt_organization t = bt_organization e \<and> bt_id t = bt_id u"
  have "s' = s \<or> (\<exists>ms. s' = delete_turns ?P (s\<lparr>st_messages := ms\<rparr>))"
    using assms by (auto simp: move_steer_def Let_def split: list.splits if_splits)
  moreover have "cleared ?P s (delete_turns ?P (s\<lparr>st_messages := ms\<rparr>))" for ms
    using delete_turns_cleared [of ?P "s\<lparr>st_messages := ms\<rparr>"] by (simp add: cleared_def run_jobs_def)
  ultimately show "s' = s \<or> cleared ?P s s'" "st_bots s' = st_bots s"
    by (auto simp: delete_turns_sel)
qed

lemma by_age_set: "set (by_age ts) = set ts"
proof -
  have "set (insert_by_age t us) = insert t (set us)" for t us by (induction us) auto
  then show ?thesis unfolding by_age_def by (induction ts) simp_all
qed

lemma take_steers_induct:
  assumes "take_steers now e s = Inr (ms, s')" "R s"
    and "\<And>u x x' m. u \<in> set (st_turns s) \<Longrightarrow> of_bot (bt_organization e) (bt_bot e) u \<Longrightarrow> bt_status u = Bot_queued \<Longrightarrow>
      takes_steer e u \<Longrightarrow> R x \<Longrightarrow> move_steer now e u x = Inr (m, x') \<Longrightarrow> R x'"
  shows "R s'"
proof (cases "lock_bot (bt_organization e) (bt_bot e) s")
  case False then show ?thesis using assms(1,2) by (simp add: take_steers_def)
next
  case True
  then have "move_steers now e (filter (takes_steer e)
      (by_age (filter (\<lambda>t. of_bot (bt_organization e) (bt_bot e) t \<and> bt_status t = Bot_queued \<and> bt_steer t) (st_turns s)))) s = Inr (ms, s')"
    using assms(1) by (simp add: take_steers_def)
  then show ?thesis
    by (rule move_steers_induct [where R = R, OF _ assms(2)]) (use assms(3) in \<open>auto simp: by_age_set\<close>)
qed

lemma take_steers_table:
  assumes "take_steers now e s = Inr (ms, s')"
  shows "turns_inv used bots (st_turns s) \<Longrightarrow> turns_inv used bots (st_turns s')"
    and "goals_fit s \<Longrightarrow> goals_fit s'" and "st_bots s' = st_bots s" and "run_jobs s' = run_jobs s"
    and "runs_held held (st_turns s) \<Longrightarrow> runs_held held (st_turns s')"
    and "\<And>t'. t' \<in> set (st_turns s') \<Longrightarrow> \<exists>t \<in> set (st_turns s). turn_identity t' = turn_identity t"
proof -
  have jobs: "cleared P x x' \<Longrightarrow> run_jobs x' = run_jobs x" for P x x' by (simp add: cleared_def)
  have old: "cleared P x x' \<Longrightarrow> t' \<in> set (st_turns x') \<Longrightarrow> \<exists>t \<in> set (st_turns x). turn_identity t' = turn_identity t" for P x x' t'
    unfolding cleared_def by blast
  note one = move_steer_cleared
  show "turns_inv used bots (st_turns s')" if "turns_inv used bots (st_turns s)"
    using assms that by (rule take_steers_induct) (use one(1) cleared_inv in blast)
  show "goals_fit s'" if "goals_fit s"
    using assms that by (rule take_steers_induct) (use one(1) cleared_fits in blast)
  show "st_bots s' = st_bots s"
    using assms by (rule take_steers_induct [where R = "\<lambda>x. st_bots x = st_bots s"]) (auto dest: one(2))
  show "run_jobs s' = run_jobs s"
    using assms by (rule take_steers_induct [where R = "\<lambda>x. run_jobs x = run_jobs s"]) (use one(1) jobs in fastforce)+
  show "runs_held held (st_turns s')" if "runs_held held (st_turns s)"
    using assms that by (rule take_steers_induct) (use one(1) cleared_held in blast)
  have "\<forall>t' \<in> set (st_turns s'). \<exists>t \<in> set (st_turns s). turn_identity t' = turn_identity t"
    using assms
  proof (rule take_steers_induct)
    show "\<forall>t' \<in> set (st_turns s). \<exists>t \<in> set (st_turns s). turn_identity t' = turn_identity t" by blast
    fix u x x' m assume x: "\<forall>t' \<in> set (st_turns x). \<exists>t \<in> set (st_turns s). turn_identity t' = turn_identity t"
      and "move_steer now e u x = Inr (m, x')"
    then show "\<forall>t' \<in> set (st_turns x'). \<exists>t \<in> set (st_turns s). turn_identity t' = turn_identity t"
      using one(1) [of now e u x m x'] old by metis
  qed
  then show "\<And>t'. t' \<in> set (st_turns s') \<Longrightarrow> \<exists>t \<in> set (st_turns s). turn_identity t' = turn_identity t" by blast
qed

text \<open>While the turn that takes them runs in the table, no bot is left with a queue that does not move.\<close>

lemma take_steers_moves:
  assumes take: "take_steers now e s = Inr (ms, s')" and rows: "distinct (map bt_id (st_turns s))"
    and stuck: "none_stuck due (st_turns s)"
    and run: "r \<in> set (st_turns s)" "of_bot (bt_organization e) (bt_bot e) r" "bt_status r = Bot_running"
  shows "none_stuck due (st_turns s')"
proof -
  let ?b = "of_bot (bt_organization e) (bt_bot e)"
  define R where "R x \<longleftrightarrow>
      none_stuck due (st_turns x) \<and>
      (\<exists>r \<in> set (st_turns x). ?b r \<and> bt_status r = Bot_running) \<and>
      (\<forall>t \<in> set (st_turns x). \<exists>z \<in> set (st_turns s). turn_identity t = turn_identity z \<and> bt_status t = bt_status z)" for x :: bot_store
  have "R s'" using take
  proof (rule take_steers_induct)
    show "R s" using stuck run unfolding R_def by blast
    fix u x x' m assume u: "u \<in> set (st_turns s)" "?b u" "bt_status u = Bot_queued"
      and x: "R x" and step: "move_steer now e u x = Inr (m, x')"
    let ?P = "\<lambda>t. bt_organization t = bt_organization e \<and> bt_id t = bt_id u"
    have queued: "?b t \<and> bt_status t = Bot_queued" if "t \<in> set (st_turns x)" "?P t" for t
    proof -
      obtain o' where o': "o' \<in> set (st_turns s)" "turn_identity t = turn_identity o'" "bt_status t = bt_status o'"
        using x \<open>t \<in> set (st_turns x)\<close> unfolding R_def by blast
      have "o' = u" using same_row [OF rows o'(1) u(1)] turn_identity_eq(1) [OF o'(2)] \<open>?P t\<close> by simp
      then show ?thesis using u o' turn_identity_eq(2,3) [OF o'(2)] by (simp add: of_bot_def)
    qed
    show "R x'"
    proof (cases "x' = x")
      case True then show ?thesis using x by simp
    next
      case False
      then have clr: "cleared ?P x x'" using move_steer_cleared(1) [OF step] by blast
      obtain w where w: "w \<in> set (st_turns x)" "?b w" "bt_status w = Bot_running" using x unfolding R_def by blast
      then have stays: "\<not> ?P w" using queued [OF w(1)] by auto
      have "none_stuck due (st_turns x')"
      proof (rule cleared_none_stuck [OF clr])
        show "none_stuck due (st_turns x)" using x unfolding R_def by blast
        fix t v assume t: "t \<in> set (st_turns x)" "?P t" and v: "of_bot (bt_organization v) (bt_bot v) t"
        have "bt_organization v = bt_organization e" "bt_bot v = bt_bot e"
          using queued [OF t] v by (auto simp: of_bot_def)
        then show "\<exists>r\<in>set (st_turns x). \<not> ?P r \<and> of_bot (bt_organization v) (bt_bot v) r \<and> bt_status r = Bot_running"
          using w stays by auto
      qed
      moreover have "\<exists>r \<in> set (st_turns x'). ?b r \<and> bt_status r = Bot_running"
      proof -
        obtain w' where w': "w' \<in> set (st_turns x')" "turn_identity w' = turn_identity w" "bt_status w' = bt_status w"
          using clr w(1) stays unfolding cleared_def by blast
        have "?b w'" using w(2) turn_identity_eq(2,3) [OF w'(2)] by (simp add: of_bot_def)
        then show ?thesis using w' w(3) by auto
      qed
      moreover have "\<forall>t \<in> set (st_turns x'). \<exists>z \<in> set (st_turns s). turn_identity t = turn_identity z \<and> bt_status t = bt_status z"
      proof
        fix t' assume "t' \<in> set (st_turns x')"
        then obtain t where "t \<in> set (st_turns x)" "turn_identity t' = turn_identity t" "bt_status t' = bt_status t"
          using clr unfolding cleared_def by blast
        then show "\<exists>z \<in> set (st_turns s). turn_identity t' = turn_identity z \<and> bt_status t' = bt_status z"
          using x unfolding R_def by metis
      qed
      ultimately show ?thesis unfolding R_def by blast
    qed
  qed
  then show ?thesis unfolding R_def by blast
qed

end
