(* ===== verification/System_Interfaces.thy ===== *)
theory System_Interfaces
  imports "HOL-Library.Multiset" Main
begin

section \<open>Keys between keys\<close>

text \<open>
  A list kept in order by keys of its elements, where moving an element writes its own key and no
  other: what a source of keys has to promise for that, and what it then gives. The ranks of the board
  interpret it.
\<close>

locale dense_keys =
  fixes valid :: "'k::linorder \<Rightarrow> bool"
    and least :: 'k
    and between :: "'k \<Rightarrow> 'k option \<Rightarrow> 'k"
  assumes least_less: "valid k \<Longrightarrow> least < k"
    and between_valid: "l = least \<or> valid l \<Longrightarrow> \<forall>u \<in> set_option upper. valid u \<and> l < u \<Longrightarrow> valid (between l upper)"
    and between_less: "l = least \<or> valid l \<Longrightarrow> \<forall>u \<in> set_option upper. valid u \<and> l < u \<Longrightarrow>
      l < between l upper \<and> (\<forall>u \<in> set_option upper. between l upper < u)"
begin

definition lower_of :: "'k list \<Rightarrow> 'k" where
  "lower_of pre = (if pre = [] then least else last pre)"

definition upper_of :: "'k list \<Rightarrow> 'k option" where
  "upper_of post = (case post of [] \<Rightarrow> None | k # _ \<Rightarrow> Some k)"

lemma bounds_fit:
  assumes "sorted_wrt (<) (pre @ post)" "list_all valid (pre @ post)"
  shows "lower_of pre = least \<or> valid (lower_of pre)" "\<forall>u \<in> set_option (upper_of post). valid u \<and> lower_of pre < u"
  using assms least_less
  by (auto simp: lower_of_def upper_of_def sorted_wrt_append list_all_iff split: list.splits)

lemma placed_valid:
  assumes "sorted_wrt (<) (pre @ post)" "list_all valid (pre @ post)"
  shows "valid (between (lower_of pre) (upper_of post))"
  by (rule between_valid [OF bounds_fit [OF assms]])

lemma placed_sorted:
  assumes "sorted_wrt (<) (pre @ post)" "list_all valid (pre @ post)"
  shows "sorted_wrt (<) (pre @ between (lower_of pre) (upper_of post) # post)"
proof -
  let ?k = "between (lower_of pre) (upper_of post)"
  have k: "lower_of pre < ?k" "\<forall>u \<in> set_option (upper_of post). ?k < u"
    using between_less [OF bounds_fit [OF assms]] by simp_all
  have "x < ?k" if "x \<in> set pre" for x
  proof -
    have "x \<le> last pre" using assms(1) that by (cases pre rule: rev_cases) (auto simp: sorted_wrt_append)
    then show ?thesis using k(1) that by (auto simp: lower_of_def split: if_splits)
  qed
  moreover have "?k < x" if "x \<in> set post" for x
    using k(2) assms(1) that by (auto simp: upper_of_def sorted_wrt_append split: list.splits)
  ultimately show ?thesis using assms(1) by (auto simp: sorted_wrt_append)
qed

end

text \<open>A list is sorted by keys in one way when no two are equal.\<close>

lemma sort_key_unique:
  assumes "mset xs = mset ys" "sorted_wrt (<) (map f ys)"
  shows "sort_key f xs = ys"
proof (rule sort_key_inj_key_eq [OF assms(1)])
  have "distinct (map f ys)" using assms(2) by (simp add: strict_sorted_iff)
  then show "inj_on f (set xs)" using assms(1) by (metis distinct_map mset_eq_setD)
  show "sorted (map f ys)" using assms(2) by (simp add: strict_sorted_iff)
qed

lemma sort_key_strict:
  assumes "distinct (map f xs)"
  shows "sorted_wrt (<) (map f (sort_key f xs))"
proof -
  have "distinct (map f (sort_key f xs))" using assms by (simp add: distinct_map)
  then show ?thesis by (simp add: strict_sorted_iff)
qed

section \<open>What a system of concurrent steps promises\<close>

text \<open>
  Several processes over one database are a list of steps, each a transaction. The contracts such a
  system can keep are stated here once, as locales, and the system of the bots interprets them.

  \<^item> \<open>kept_system\<close>: every step keeps an invariant.
  \<^item> \<open>followed_system\<close>: what is after a step follows from what was before it.
  \<^item> \<open>guarded_system\<close>: a second condition that only the steps of a guard keep.
  \<^item> \<open>draining_system\<close>: while there is load, a few working steps lower it.
\<close>

locale kept_system =
  fixes step :: "'a \<Rightarrow> 's \<Rightarrow> 's"
    and inv :: "'s \<Rightarrow> bool"
  assumes step_inv: "inv S \<Longrightarrow> inv (step a S)"
begin

lemma run_inv: "inv S \<Longrightarrow> inv (fold step as S)"
  by (induction as arbitrary: S) (simp_all add: step_inv)

end

locale followed_system = kept_system +
  fixes goes :: "'s \<Rightarrow> 's \<Rightarrow> bool"
  assumes goes_refl: "inv S \<Longrightarrow> goes S S"
    and goes_trans: "goes S S1 \<Longrightarrow> goes S1 S2 \<Longrightarrow> goes S S2"
    and goes_step: "inv S \<Longrightarrow> goes S (step a S)"
begin

lemma run_goes: "inv S \<Longrightarrow> goes S (fold step as S)"
proof (induction as arbitrary: S)
  case Nil then show ?case by (simp add: goes_refl)
next
  case (Cons a as)
  have "goes (step a S) (fold step as (step a S))" by (rule Cons.IH [OF step_inv [OF Cons.prems]])
  then show ?case using goes_trans [OF goes_step [OF Cons.prems]] by simp
qed

end

locale guarded_system = kept_system +
  fixes guard :: "'a \<Rightarrow> 's \<Rightarrow> bool"
    and guards :: "'a list \<Rightarrow> 's \<Rightarrow> bool"
    and good :: "'s \<Rightarrow> bool"
  assumes guards_Cons: "guards (a # as) S \<Longrightarrow> guard a S \<and> guards as (step a S)"
    and step_good: "inv S \<Longrightarrow> good S \<Longrightarrow> guard a S \<Longrightarrow> good (step a S)"
begin

lemma run_good: "inv S \<Longrightarrow> good S \<Longrightarrow> guards as S \<Longrightarrow> good (fold step as S)"
proof (induction as arbitrary: S)
  case Nil then show ?case by simp
next
  case (Cons a as)
  have "guard a S" "guards as (step a S)" using guards_Cons [OF Cons.prems(3)] by simp_all
  then have "good (fold step as (step a S))"
    using Cons.IH [OF step_inv [OF Cons.prems(1)]] step_good [OF Cons.prems(1,2)] by blast
  then show ?case by simp
qed

end

locale draining_system = guarded_system +
  fixes works :: "'a \<Rightarrow> bool"
    and load :: "'s \<Rightarrow> nat"
    and cost :: nat
  assumes works_guarded: "list_all works as \<Longrightarrow> guards as S"
    and lowers: "inv S \<Longrightarrow> good S \<Longrightarrow> load S \<noteq> 0 \<Longrightarrow>
      \<exists>as. length as \<le> cost \<and> list_all works as \<and> load (fold step as S) < load S"
begin

lemma drains:
  assumes "inv S" "good S"
  shows "\<exists>as. length as \<le> cost * load S \<and> list_all works as \<and> load (fold step as S) = 0"
  using assms
proof (induction "load S" arbitrary: S rule: less_induct)
  case less
  show ?case
  proof (cases "load S = 0")
    case True
    then show ?thesis by (intro exI [of _ "[]"]) simp
  next
    case False
    obtain as where as: "length as \<le> cost" "list_all works as" "load (fold step as S) < load S"
      using lowers [OF less.prems False] by blast
    have "inv (fold step as S)" "good (fold step as S)"
      using run_inv [OF less.prems(1)] run_good [OF less.prems works_guarded [OF as(2)]] by blast+
    then obtain bs where bs: "length bs \<le> cost * load (fold step as S)" "list_all works bs"
      "load (fold step bs (fold step as S)) = 0"
      using less.hyps [OF as(3)] by blast
    have "cost * Suc (load (fold step as S)) \<le> cost * load S" using as(3) by (intro mult_le_mono2) simp
    then have "length (as @ bs) \<le> cost * load S" using as(1) bs(1) by simp
    then show ?thesis using as(2) bs(2,3) by (intro exI [of _ "as @ bs"]) simp
  qed
qed

end

end
