(* ===== verification/Bot_System_Facts.thy ===== *)
theory Bot_System_Facts
  imports Bot_System Bot_Queue_Deletes System_Interfaces
begin

section \<open>What holds of every system of bots\<close>

text \<open>
  The invariant of the tables together with the entities in memory, and its preservation by each
  handler. An entity in memory may be out of date, but never about who the turn is.
\<close>

definition entity_fits :: "string set \<Rightarrow> bot_turn list \<Rightarrow> bot_turn_entity \<Rightarrow> bool" where
  "entity_fits used ts e \<longleftrightarrow>
     bt_id e \<in> used \<and> chain_root e \<in> used \<and> 0 \<le> bt_depth e \<and> bt_depth e \<le> chain_max_depth bot_chain_limits \<and>
     bt_loaded e = bt_status e \<and> (bt_reply_requested e \<longrightarrow> bt_chain e \<noteq> None) \<and>
     (\<forall>r \<in> set ts. bt_id r = bt_id e \<longrightarrow> turn_identity r = turn_identity e) \<and>
     (\<forall>r \<in> set ts. bt_id r = chain_root e \<longrightarrow> bt_scopes r = bt_scopes e)"

text \<open>
  The rows of a later table: who they are was known, and what they came to if they had ended, or
  they are new.
\<close>

definition rows_follow :: "string set \<Rightarrow> bot_turn list \<Rightarrow> bot_turn list \<Rightarrow> bool" where
  "rows_follow used ts ts' \<longleftrightarrow>
     (\<forall>t' \<in> set ts'.
        (\<exists>t \<in> set ts. turn_identity t' = turn_identity t \<and> (turn_has_ended t \<longrightarrow> turn_result t' = turn_result t)) \<or>
        bt_id t' \<notin> used)"

lemma kept_follow:
  assumes "kept_turns ts ts'"
  shows "rows_follow used ts ts'"
  unfolding rows_follow_def
proof
  fix t' assume "t' \<in> set ts'"
  from kept_member [OF assms this] show "(\<exists>t \<in> set ts. turn_identity t' = turn_identity t \<and>
      (turn_has_ended t \<longrightarrow> turn_result t' = turn_result t)) \<or> bt_id t' \<notin> used" by blast
qed

lemma rows_follow_refl: "rows_follow used ts ts"
  unfolding rows_follow_def by blast

lemma reshaped_follow: "reshaped ts ts' \<Longrightarrow> rows_follow used ts ts'"
  by (rule kept_follow [OF reshaped_kept])

lemma rows_follow_trans:
  assumes "rows_follow used ts ts1" "rows_follow used1 ts1 ts2" "used \<subseteq> used1"
  shows "rows_follow used ts ts2"
  unfolding rows_follow_def
proof
  fix t2 assume "t2 \<in> set ts2"
  then consider "bt_id t2 \<notin> used1" | t1 where "t1 \<in> set ts1" "turn_identity t2 = turn_identity t1"
    "turn_has_ended t1 \<longrightarrow> turn_result t2 = turn_result t1"
    using assms(2) unfolding rows_follow_def by blast
  then show "(\<exists>t \<in> set ts. turn_identity t2 = turn_identity t \<and> (turn_has_ended t \<longrightarrow> turn_result t2 = turn_result t)) \<or>
      bt_id t2 \<notin> used"
  proof cases
    case 1 then show ?thesis using assms(3) by blast
  next
    case (2 t1)
    have id: "bt_id t2 = bt_id t1" using turn_identity_eq(1) [OF 2(2)] .
    consider "bt_id t1 \<notin> used" | t where "t \<in> set ts" "turn_identity t1 = turn_identity t"
      "turn_has_ended t \<longrightarrow> turn_result t1 = turn_result t"
      using assms(1) 2(1) unfolding rows_follow_def by blast
    then show ?thesis
    proof cases
      case 1 then show ?thesis by (simp add: id)
    next
      case (2 t)
      have "turn_result t2 = turn_result t" if "turn_has_ended t"
      proof -
        have same: "turn_result t1 = turn_result t" using 2(3) that by blast
        then have "turn_has_ended t1" using that by (simp add: turn_result_def turn_has_ended_iff)
        then show ?thesis using \<open>turn_has_ended t1 \<longrightarrow> turn_result t2 = turn_result t1\<close> same by simp
      qed
      moreover have "turn_identity t2 = turn_identity t" using \<open>turn_identity t2 = turn_identity t1\<close> 2(2) by simp
      ultimately show ?thesis using 2(1) by blast
    qed
  qed
qed

lemma entity_fits_follow:
  assumes "entity_fits used ts e" "rows_follow used ts ts'" "used \<subseteq> used'"
  shows "entity_fits used' ts' e"
proof -
  have ids: "bt_id e \<in> used" "chain_root e \<in> used" using assms(1) by (simp_all add: entity_fits_def)
  have old: "\<exists>t \<in> set ts. turn_identity r = turn_identity t" if "r \<in> set ts'" "bt_id r \<in> used" for r :: bot_turn
    using assms(2) that unfolding rows_follow_def by blast
  have "turn_identity r = turn_identity e" if r: "r \<in> set ts'" "bt_id r = bt_id e" for r
  proof -
    obtain t where t: "t \<in> set ts" "turn_identity r = turn_identity t" using old [OF r(1)] r(2) ids(1) by metis
    then have "bt_id t = bt_id e" using turn_identity_eq(1) [OF t(2)] r(2) by simp
    then have "turn_identity t = turn_identity e" using assms(1) t(1) unfolding entity_fits_def by blast
    then show ?thesis by (simp only: t(2))
  qed
  moreover have "bt_scopes r = bt_scopes e" if r: "r \<in> set ts'" "bt_id r = chain_root e" for r
  proof -
    obtain t where t: "t \<in> set ts" "turn_identity r = turn_identity t" using old [OF r(1)] r(2) ids(2) by metis
    then have "bt_id t = chain_root e" using turn_identity_eq(1) [OF t(2)] r(2) by simp
    then have "bt_scopes t = bt_scopes e" using assms(1) t(1) unfolding entity_fits_def by blast
    then show ?thesis using turn_identity_eq(8) [OF t(2)] by simp
  qed
  moreover have "bt_id e \<in> used'" "chain_root e \<in> used'" using ids by (auto intro: subsetD [OF assms(3)])
  ultimately show ?thesis using assms(1) unfolding entity_fits_def by blast
qed

lemma bot_turn_of_sel [simp]:
  "bt_id (bot_turn_of r) = bt_id r" "bt_organization (bot_turn_of r) = bt_organization r"
  "bt_bot (bot_turn_of r) = bt_bot r" "bt_status (bot_turn_of r) = bt_status r" "bt_loaded (bot_turn_of r) = bt_status r"
  "bt_depth (bot_turn_of r) = bt_depth r" "bt_chain (bot_turn_of r) = bt_chain r" "bt_scopes (bot_turn_of r) = bt_scopes r"
  "bt_reply_requested (bot_turn_of r) = bt_reply_requested r" "chain_root (bot_turn_of r) = chain_root r"
  "turn_identity (bot_turn_of r) = turn_identity r"
  by (simp_all add: bot_turn_of_def bot_turn.extend_def chain_root_def turn_identity_def split: option.split)

lemma loaded_fits:
  assumes "turns_inv used bots ts" "t \<in> set ts"
  shows "entity_fits used ts (bot_turn_of t)"
proof -
  have keyed: "distinct (map bt_id ts)" "bt_id t \<in> used" "chain_root t \<in> used"
    using assms by (auto simp: turns_inv_def keyed_turns_def)
  have depth: "0 \<le> bt_depth t" "bt_depth t \<le> chain_max_depth bot_chain_limits"
    using assms by (auto simp: turns_inv_def bounded_chains_def)
  have "chained_turns ts" using assms(1) by (simp add: turns_inv_def)
  then have reply: "bt_reply_requested t \<longrightarrow> bt_chain t \<noteq> None"
    using assms(2) unfolding chained_turns_def by blast
  have reach: "one_reach ts" using assms(1) by (simp add: turns_inv_def)
  have "bt_scopes r = bt_scopes t" if r: "r \<in> set ts" "bt_id r = chain_root t" for r
  proof (cases "bt_chain t")
    case None
    then have "r = t" using same_row [OF keyed(1) r(1) assms(2)] r(2) by (simp add: chain_root_def)
    then show ?thesis by simp
  next
    case (Some c)
    then have "bt_chain t = Some (bt_id r)" using r(2) by (simp add: chain_root_def)
    then show ?thesis using reach assms(2) r(1) unfolding one_reach_def by metis
  qed
  moreover have "turn_identity r = turn_identity t" if "r \<in> set ts" "bt_id r = bt_id t" for r
    using same_row [OF keyed(1) that(1) assms(2) that(2)] by simp
  ultimately show ?thesis
    unfolding entity_fits_def bot_turn_of_sel using keyed depth reply by blast
qed

subsection \<open>What a transaction of a handler leaves\<close>

definition bots_keyed :: "string set \<Rightarrow> bot_store \<Rightarrow> bool" where
  "bots_keyed used s \<longleftrightarrow> distinct (map br_id (st_bots s)) \<and> br_id ` set (st_bots s) \<subseteq> used"

definition store_inv :: "string set \<Rightarrow> bot_store \<Rightarrow> bool" where
  "store_inv used s \<longleftrightarrow> turns_inv used (bot_keys s) (st_turns s) \<and> bots_keyed used s \<and> goals_fit s"

definition store_step :: "string set \<Rightarrow> string list \<Rightarrow> bot_store \<Rightarrow> bot_store \<Rightarrow> bool" where
  "store_step used uuids s s' \<longleftrightarrow>
     store_inv (set uuids \<union> used) s' \<and> rows_follow used (st_turns s) (st_turns s')"

lemma bots_keyed_same: "map br_id (st_bots s') = map br_id (st_bots s) \<Longrightarrow> bots_keyed used s' = bots_keyed used s"
  unfolding bots_keyed_def by (metis list.set_map)

lemma bots_keyed_mono: "bots_keyed used s \<Longrightarrow> used \<subseteq> used' \<Longrightarrow> bots_keyed used' s"
  unfolding bots_keyed_def by blast

lemma store_inv_mono: "store_inv used s \<Longrightarrow> used \<subseteq> used' \<Longrightarrow> store_inv used' s"
  unfolding store_inv_def using turns_inv_mono [of used _ _ used'] bots_keyed_mono by blast

lemma store_step_refl: "store_inv used s \<Longrightarrow> store_step used uuids s s"
  unfolding store_step_def using store_inv_mono rows_follow_refl by blast

lemma store_step_same:
  assumes "store_inv used s" "same_queue s s'" "goals_fit s'"
  shows "store_step used uuids s s'"
proof -
  have eq: "st_turns s' = st_turns s" "bot_keys s' = bot_keys s" "map br_id (st_bots s') = map br_id (st_bots s)"
    using assms(2) by (simp_all add: same_queue_def)
  have "store_inv used s'"
    using assms(1,3) bots_keyed_same [OF eq(3)] unfolding store_inv_def by (simp add: eq(1,2))
  then show ?thesis
    unfolding store_step_def using store_inv_mono rows_follow_refl by (metis eq(1) sup_ge2)
qed

lemma store_step_enqueues:
  assumes inv: "store_inv used s" and enq: "enqueues now t s s'" and fit: "goals_fit s'"
    and new: "bt_id t \<in> set uuids" "bt_id t \<notin> used"
    and chain: "\<forall>c. bt_chain t = Some c \<longrightarrow> c \<in> used"
    and row: "queued_into now t s s' \<Longrightarrow> insertable t s \<Longrightarrow> row_fits (st_turns s) (queued_row now t)"
  shows "store_step used uuids s s'"
  using enq unfolding enqueues_def
proof
  assume "same_queue s s'" then show ?thesis using store_step_same inv fit by blast
next
  assume q: "queued_into now t s s'"
  then have ins: "insertable t s" and ts: "st_turns s' = st_turns s @ [queued_row now t]"
    and bots: "map br_id (st_bots s') = map br_id (st_bots s)" "bot_keys s' = bot_keys s"
    unfolding queued_into_def by blast+
  have turns: "turns_inv used (bot_keys s) (st_turns s)" using inv by (simp add: store_inv_def)
  have "turns_inv (insert (bt_id t) used) (bot_keys s) (st_turns s @ [queued_row now t])"
    using appended_inv [OF turns row [OF q ins]] new(2) chain ins by (simp add: insertable_def)
  then have "turns_inv (set uuids \<union> used) (bot_keys s') (st_turns s')"
    unfolding ts bots by (rule turns_inv_mono) (use new(1) in auto)
  moreover have "bots_keyed (set uuids \<union> used) s'"
    using inv bots_keyed_same [OF bots(1)] bots_keyed_mono unfolding store_inv_def by (metis sup_ge2)
  moreover have "rows_follow used (st_turns s) (st_turns s')"
    unfolding rows_follow_def ts using new(2) by auto
  ultimately show ?thesis using fit unfolding store_step_def store_inv_def by blast
qed

lemma store_step_cleared:
  assumes inv: "store_inv used s" and clr: "cleared P s s'" and bots: "map br_id (st_bots s') = map br_id (st_bots s)" "bot_keys s' = bot_keys s"
  shows "store_step used uuids s s'"
proof -
  have "turns_inv used (bot_keys s') (st_turns s')"
    using cleared_inv [OF clr] inv unfolding store_inv_def bots by blast
  moreover have "goals_fit s'" using cleared_fits [OF clr] inv unfolding store_inv_def by blast
  ultimately have "store_inv used s'"
    using inv bots_keyed_same [OF bots(1)] unfolding store_inv_def by blast
  moreover have "rows_follow used (st_turns s) (st_turns s')"
    using clr reshaped_follow unfolding cleared_def by blast
  ultimately show ?thesis unfolding store_step_def using store_inv_mono by blast
qed

lemma store_step_finish:
  assumes inv: "store_inv used s" and fin: "finish_turn now t s = (b, s')" and ends: "ends_row t (st_turns s)"
  shows "store_step used uuids s s'"
proof -
  note table = finish_turn_table [OF fin ends]
  have "store_inv used s'"
    using inv reshaped_inv [OF table(1)] table(5) bots_keyed_same [OF table(2)]
    unfolding store_inv_def by (simp add: table(3))
  then show ?thesis
    unfolding store_step_def using store_inv_mono reshaped_follow [OF table(1)] by blast
qed

lemma take_steers_follow:
  assumes "take_steers now e s = Inr (ms, s')"
  shows "rows_follow used (st_turns s) (st_turns s')"
  using assms
proof (rule take_steers_induct)
  show "rows_follow used (st_turns s) (st_turns s)" by (rule rows_follow_refl)
  fix u x x' m assume x: "rows_follow used (st_turns s) (st_turns x)" and step: "move_steer now e u x = Inr (m, x')"
  have "rows_follow used (st_turns x) (st_turns x')"
    using move_steer_cleared(1) [OF step] rows_follow_refl reshaped_follow unfolding cleared_def by auto
  then show "rows_follow used (st_turns s) (st_turns x')" using rows_follow_trans [OF x] by blast
qed

lemma store_step_steers:
  assumes inv: "store_inv used s" and take: "take_steers now e s = Inr (ms, s')"
  shows "store_step used uuids s s'"
proof -
  note table = take_steers_table [OF take]
  have "bot_keys s' = bot_keys s" by (simp add: bot_keys_def table(3))
  then have "store_inv used s'"
    using inv table(1,2) bots_keyed_same [of s' s] unfolding store_inv_def by (simp add: table(3))
  moreover have "rows_follow used (st_turns s) (st_turns s')"
    by (rule take_steers_follow [OF take])
  ultimately show ?thesis unfolding store_step_def using store_inv_mono by blast
qed

text \<open>The entity that ends a turn ends the row it was loaded from.\<close>

lemma ends_row_of:
  assumes "entity_fits used ts e" "end_bot_turn ending now oc e = Inr e'"
  shows "ends_row e' ts" "bt_id e' = bt_id e" "bt_loaded e' = bt_status e"
proof -
  note e' = end_bot_turn_Inr [OF assms(2)]
  have id: "bt_id e' = bt_id e" using turn_identity_eq(1) [OF e'(4)] .
  have "bt_loaded e' = bt_status e" using assms(1) e'(5) by (simp add: entity_fits_def)
  moreover have "bt_status e = Bot_queued \<or> bt_status e = Bot_running" using e'(1) by (auto simp: turn_has_ended_iff)
  ultimately show "ends_row e' ts"
    using assms(1) e'(3,4) id unfolding ends_row_def entity_fits_def by simp
  show "bt_id e' = bt_id e" by (rule id)
  show "bt_loaded e' = bt_status e" by fact
qed

text \<open>Whoever else is due or held, no queue stops.\<close>

definition keeps_going :: "bot_store \<Rightarrow> bot_store \<Rightarrow> bool" where
  "keeps_going s s' \<longleftrightarrow>
     (\<forall>due. none_stuck (run_jobs s \<union> due) (st_turns s) \<longrightarrow> none_stuck (run_jobs s' \<union> due) (st_turns s')) \<and>
     (\<forall>held. runs_held (run_jobs s \<union> held) (st_turns s) \<longrightarrow> runs_held (run_jobs s' \<union> held) (st_turns s'))"

text \<open>No turn a bot queued steers, and while that is so every ask stays in the table.\<close>

definition no_ask_steers :: "bot_turn list \<Rightarrow> bool" where
  "no_ask_steers ts \<longleftrightarrow> (\<forall>t \<in> set ts. bt_lane t = Lane_bots \<longrightarrow> \<not> bt_steer t)"

definition asks_stay :: "bot_turn list \<Rightarrow> bot_turn list \<Rightarrow> bool" where
  "asks_stay ts ts' \<longleftrightarrow>
     (no_ask_steers ts \<longrightarrow>
        no_ask_steers ts' \<and>
        (\<forall>org chain. \<forall>t \<in> set ts. is_ask org chain t \<longrightarrow> (\<exists>t' \<in> set ts'. is_ask org chain t' \<and> bt_id t' = bt_id t)))"

definition keeps_moving :: "bot_store \<Rightarrow> bot_store \<Rightarrow> bool" where
  "keeps_moving s s' \<longleftrightarrow> keeps_going s s' \<and> asks_stay (st_turns s) (st_turns s')"

lemma asks_stay_refl [simp]: "asks_stay ts ts"
  unfolding asks_stay_def by blast

lemma asks_stay_map:
  assumes "\<And>t. t \<in> set ts \<Longrightarrow> turn_identity (g t) = turn_identity t \<and> bt_answers (g t) = bt_answers t"
  shows "asks_stay ts (map g ts)"
proof -
  have who: "bt_lane (g t) = bt_lane t" "bt_steer (g t) = bt_steer t" "bt_id (g t) = bt_id t"
    "is_ask org chain (g t) = is_ask org chain t" if "t \<in> set ts" for t org chain
    using assms [OF that] turn_identity_eq [of "g t" t] by (simp_all add: is_ask_def)
  then show ?thesis by (auto simp: asks_stay_def no_ask_steers_def)
qed

lemma asks_stay_enqueues:
  assumes "enqueues now t s s'" "bt_lane t = Lane_bots \<longrightarrow> \<not> bt_steer t"
  shows "asks_stay (st_turns s) (st_turns s')"
proof -
  have "st_turns s' = st_turns s \<or> st_turns s' = st_turns s @ [queued_row now t]"
    using assms(1) by (auto simp: enqueues_def same_queue_def queued_into_def)
  then show ?thesis using assms(2) by (auto simp: asks_stay_def no_ask_steers_def)
qed

lemma enqueues_keep_moving:
  "enqueues now t s s' \<Longrightarrow> bt_status t = Bot_queued \<and> (bt_lane t = Lane_bots \<longrightarrow> \<not> bt_steer t) \<Longrightarrow> keeps_moving s s'"
  unfolding keeps_moving_def keeps_going_def using enqueues_moves(1,2) asks_stay_enqueues by blast

lemma queue_turn_plain:
  "queue_turn uuid now p = Inr t \<Longrightarrow> bt_status t = Bot_queued \<and> (bt_lane t = Lane_bots \<longrightarrow> \<not> bt_steer t)"
  using queue_turn_Inr(4,18) [of uuid now p t] by (auto simp: bot_turn_problem_def split: if_splits)

lemma same_keeps_moving: "same_queue s s' \<Longrightarrow> keeps_moving s s'"
  by (simp add: keeps_moving_def keeps_going_def same_queue_def)

lemma keeps_moving_refl: "keeps_moving s s"
  by (simp add: keeps_moving_def keeps_going_def)

lemma finish_keeps_moving:
  assumes "finish_turn now t s = (b, s')" "ends_row t (st_turns s)"
  shows "keeps_moving s s'"
proof -
  note table = finish_turn_table [OF assms]
  have "runs_held (run_jobs s' \<union> held) (st_turns s')" if "runs_held (run_jobs s \<union> held) (st_turns s)" for held
    by (rule runs_held_mono [OF reshaped_held [OF table(1) that]]) (use table(4) in auto)
  moreover have "asks_stay (st_turns s) (st_turns s')"
    using assms(1)
  proof (cases rule: finish_turn_steps)
    case 1 then show ?thesis by simp
  next
    case (2 s1)
    have "st_turns s' = ended_rows t (st_turns s)" using 2(2,3) by (simp add: same_queue_def stage_next_queue)
    then show ?thesis by (simp add: ended_rows_def asks_stay_map)
  qed
  ultimately show ?thesis
    unfolding keeps_moving_def keeps_going_def using finish_turn_moves [OF assms] by blast
qed

lemma cleared_keeps_going:
  assumes "cleared P s s'"
    and "\<And>t u. P t \<Longrightarrow> \<not> P u \<Longrightarrow> \<not> of_bot (bt_organization u) (bt_bot u) t"
  shows "keeps_going s s'"
proof -
  have "run_jobs s' = run_jobs s" using assms(1) by (simp add: cleared_def)
  moreover have "none_stuck due (st_turns s')" if "none_stuck due (st_turns s)" for due
    using cleared_none_stuck [OF assms(1) that] assms(2) by blast
  ultimately show ?thesis
    unfolding keeps_going_def using cleared_held [OF assms(1)] by simp
qed

subsection \<open>The rows the handlers queue\<close>

text \<open>A turn outside every chain.\<close>

lemma plain_row_fits:
  assumes t: "queue_turn tid now0 p = Inr t" and ins: "insertable t s"
    and p: "qp_chain p = None" "or_default (qp_depth p) 0 = 0" "qp_answers p = None"
      "or_default (qp_reply_requested p) False = False" "goal_step_key (qp_source_key p)"
  shows "row_fits (st_turns s) (queued_row now t)"
proof -
  note facts = queue_turn_Inr [OF t]
  have chain: "bt_chain t = None" "bt_depth t = 0" "bt_answers t = None" "\<not> bt_reply_requested t"
    "goal_step_key (bt_source_key t)" "bt_status t = Bot_queued"
    using p by (simp_all add: facts)
  moreover have "bt_source_key t \<noteq> None \<longrightarrow>
        (\<forall>r \<in> set (st_turns s). \<not> (bt_bot r = bt_bot t \<and> bt_source_key r = bt_source_key t))"
    using ins unfolding insertable_def by blast
  ultimately show ?thesis
    unfolding row_fits_def queued_row_sel
    by (simp add: is_ask_def bot_chain_limits_def)
qed

lemma goal_step_key_other:
  assumes "take 5 k \<noteq> ''goal:''"
  shows "goal_step_key (Some k)"
proof -
  have five: "length ''goal:'' = 5" by simp
  show ?thesis using assms unfolding goal_step_key_def starts_with_def goal_key_word_def five by simp
qed

lemma goal_step_key_None: "goal_step_key None"
  by (simp add: goal_step_key_def starts_with_def)

lemma opening_props_plain:
  "qp_chain (opening_props op org user pick zone scopes) = None"
  "or_default (qp_depth (opening_props op org user pick zone scopes)) 0 = 0"
  "qp_answers (opening_props op org user pick zone scopes) = None"
  "or_default (qp_reply_requested (opening_props op org user pick zone scopes)) False = False"
  "goal_step_key (qp_source_key (opening_props op org user pick zone scopes))"
  by (cases op; simp add: opening_props_def Let_def owner_props_def routine_source_key_def routine_prefix_def
      wake_source_key_def goal_step_key_None goal_step_key_other)+

lemma send_props_plain:
  "qp_chain (send_props a) = None" "or_default (qp_depth (send_props a)) 0 = 0" "qp_answers (send_props a) = None"
  "or_default (qp_reply_requested (send_props a)) False = False" "goal_step_key (qp_source_key (send_props a))"
  by (simp_all add: send_props_def goal_step_key_None)

lemma owner_props_plain:
  "qp_chain (owner_props org owner pick zone scopes origin key) = None"
  "or_default (qp_depth (owner_props org owner pick zone scopes origin key)) 0 = 0"
  "qp_answers (owner_props org owner pick zone scopes origin key) = None"
  "or_default (qp_reply_requested (owner_props org owner pick zone scopes origin key)) False = False"
  "qp_source_key (owner_props org owner pick zone scopes origin key) = Some key"
  by (simp_all add: owner_props_def)

lemma plain_step:
  assumes inv: "store_inv used s" and enq: "enqueues now t s s'" and fit: "goals_fit s'"
    and t: "queue_turn tid now0 p = Inr t" and new: "tid \<in> set uuids" "tid \<notin> used"
    and p: "qp_chain p = None" "or_default (qp_depth p) 0 = 0" "qp_answers p = None"
      "or_default (qp_reply_requested p) False = False" "goal_step_key (qp_source_key p)"
  shows "store_step used uuids s s'"
proof (rule store_step_enqueues [OF inv enq fit])
  note facts = queue_turn_Inr [OF t]
  show "bt_id t \<in> set uuids" "bt_id t \<notin> used" using new by (simp_all add: facts)
  show "\<forall>c. bt_chain t = Some c \<longrightarrow> c \<in> used" using p(1) by (simp add: facts)
  show "row_fits (st_turns s) (queued_row now t)" if "insertable t s"
    by (rule plain_row_fits [OF t that p])
qed

subsection \<open>Sending and opening\<close>

lemma goal_from_message_fits:
  assumes "goal_from_message sid content t = Some (Inr g)"
  shows "goal_fits g"
  using assms
  by (auto simp: goal_from_message_def set_bot_goal_def Let_def validated_def goal_fits_def
      bot_goal_continuations_person_def split: option.splits bot_goal_command.splits)

lemma message_setting_fits:
  assumes "message_setting sid content t now = Inr (Sets_goal g)"
  shows "goal_fits g"
  using assms goal_from_message_fits
  by (auto simp: message_setting_def split: option.splits sum.splits)

lemma enqueue_setting_fits:
  assumes enq: "enqueue_setting now t m setting s = Inr (oc, rep, s')" and fit: "goals_fit s"
    and goal: "\<And>g. setting = Sets_goal g \<Longrightarrow> goal_fits g"
  shows "goals_fit s'"
proof -
  obtain oc1 s1 where s1: "enqueue_within now t m s = Inr (oc1, s1)"
    using enq by (auto simp: enqueue_setting_def split: sum.splits)
  have fit1: "goals_fit s1" using fit goals_fit_same [OF enqueue_within_Inr(2) [OF s1]] by simp
  obtain b s2 where s2: "claim_attachments_to t m now s1 = (b, s2)" by force
  have fit2: "goals_fit s2" using fit1 goals_fit_same [OF claim_attachments_queue(2) [OF s2]] by simp
  obtain r3 s3 where s3: "settle setting s2 = (r3, s3)" by force
  have fit3: "goals_fit s3"
  proof (cases setting)
    case Sets_nothing then show ?thesis using s3 fit2 by (simp add: settle_def)
  next
    case (Sets_goal g)
    obtain r4 s4 where "set_goal_within g s2 = (r4, s4)" by force
    moreover have "s3 = s4" using calculation s3 Sets_goal by (auto simp: settle_def split: option.splits)
    ultimately show ?thesis using set_goal_fits fit2 goal [OF Sets_goal] by blast
  next
    case (Sets_loop l)
    obtain r4 s4 where s4: "set_loop_within l s2 = (r4, s4)" by force
    have "st_goals s4 = st_goals s2"
      using s4 by (auto simp: set_loop_within_def Let_def stage_loop_run_queue(2))
    moreover have "s3 = s4" using s4 s3 Sets_loop by (auto simp: settle_def split: option.splits)
    ultimately show ?thesis using goals_fit_same fit2 by blast
  qed
  have "s' = s1 \<or> s' = s \<or> s' = s3"
    using enq s1 s2 s3 by (auto simp: enqueue_setting_def split: if_splits bool.splits)
  then show ?thesis using fit fit1 fit3 by blast
qed

lemma lift_db_Inr [simp]: "lift_db r = Inr x \<longleftrightarrow> r = Inr x"
  by (cases r) (simp_all add: lift_db_def)

lemma send_step:
  assumes inv: "store_inv used s" and new: "tid \<in> set uuids" "tid \<notin> used"
    and send: "send_bot_message tid mid sid now a s = Inr (oc, rep, s')"
  shows "store_step used uuids s s'" "keeps_moving s s'"
proof -
  obtain t m setting where t: "queue_turn tid now (send_props a) = Inr t"
    and setting: "message_setting sid (sa_content a) t now = Inr setting"
    and enq: "enqueue_setting now t m setting s = Inr (oc, rep, s')"
    using send by (auto simp: send_bot_message_def split: option.splits sum.splits)
  have "goals_fit s" using inv by (simp add: store_inv_def)
  then have fit: "goals_fit s'"
    by (rule enqueue_setting_fits [OF enq]) (use setting message_setting_fits in blast)
  note into = enqueue_setting_Inr [OF enq]
  show "store_step used uuids s s'" by (rule plain_step [OF inv into fit t new send_props_plain])
  show "keeps_moving s s'"
    using enqueues_keep_moving [OF into queue_turn_plain [OF t]] .
qed

lemma opening_step:
  assumes inv: "store_inv used s" and new: "tid \<in> set uuids" "tid \<notin> used"
    and opened: "queue_opening tid mid now op (opening_props op org user pick zone scopes) content s = Inr (oc, s')"
  shows "store_step used uuids s s'" "keeps_moving s s'"
proof -
  let ?p = "opening_props op org user pick zone scopes"
  obtain t m where tm: "opened_turn tid mid now ?p content = Inr (t, m)"
    and enq: "enqueue_once now t m (opening_prefix op) s = Inr (oc, s') \<or> enqueue_within now t m s = Inr (oc, s')"
    using opened by (auto simp: queue_opening_def split: sum.splits if_splits)
  have t: "queue_turn tid now ?p = Inr t" using tm by (auto simp: opened_turn_def split: sum.splits)
  have into: "enqueues now t s s'" "st_goals s' = st_goals s"
    using enq enqueue_once_Inr [of now t m "opening_prefix op" s oc s'] enqueue_within_Inr [of now t m s oc s'] by blast+
  have fit: "goals_fit s'" using inv goals_fit_same [OF into(2)] by (simp add: store_inv_def)
  show "store_step used uuids s s'" by (rule plain_step [OF inv into(1) fit t new opening_props_plain])
  show "keeps_moving s s'"
    using enqueues_keep_moving [OF into(1) queue_turn_plain [OF t]] .
qed

subsection \<open>Asking and answering\<close>

lemma peer_step:
  assumes inv: "store_inv used s" and new: "tid \<in> set uuids" "tid \<notin> used" and e: "entity_fits used (st_turns s) e"
    and ask: "send_bot_peer_message tid mid now e pick reply content s = Inr (oc, s')"
  shows "store_step used uuids s s'" "keeps_moving s s'"
proof -
  have "s' = s \<or> (\<exists>t m. queue_from_bot tid now e pick reply = Inr t \<and>
      enqueue_from_bot now t m (check_bot_chain bot_chain_limits e (pick_bot pick)) s = Inr (oc, s'))"
    using ask by (auto simp: send_bot_peer_message_def split: if_splits sum.splits)
  then have "s' = s \<or> (\<exists>t. queue_from_bot tid now e pick reply = Inr t \<and> st_goals s' = st_goals s \<and>
      (same_queue s s' \<or> queued_into now t s s' \<and>
       check_bot_chain bot_chain_limits e (pick_bot pick)
         (chain_state_within (bt_organization t) (the (bt_chain t)) s) = Chain_allowed))"
    using enqueue_from_bot_Inr by blast
  then consider "same_queue s s'" "st_goals s' = st_goals s"
    | t where "queue_from_bot tid now e pick reply = Inr t" "st_goals s' = st_goals s" "queued_into now t s s'"
      "check_bot_chain bot_chain_limits e (pick_bot pick) (chain_state_within (bt_organization t) (the (bt_chain t)) s) = Chain_allowed"
    using same_queue_refl by blast
  note cases = this
  have fit: "goals_fit s" using inv by (simp add: store_inv_def)
  show "store_step used uuids s s'"
    using cases
  proof cases
    case 1 then show ?thesis using store_step_same [OF inv] fit goals_fit_same by blast
  next
    case (2 t)
    note t = queue_from_bot_Inr [OF 2(1)]
    have root: "chain_root e \<in> used" "0 \<le> bt_depth e"
      "\<And>r. r \<in> set (st_turns s) \<Longrightarrow> bt_id r = chain_root e \<Longrightarrow> bt_scopes r = bt_scopes e"
      using e unfolding entity_fits_def by blast+
    have allowed: "bt_depth e + 1 \<le> chain_max_depth bot_chain_limits"
      "int (length (filter (is_ask (bt_organization t) (chain_root e)) (st_turns s))) < chain_turn_budget bot_chain_limits"
      using 2(4) by (simp_all add: check_bot_chain_allowed chain_state_within_def t)
    show ?thesis
    proof (rule store_step_enqueues [OF inv])
      show "enqueues now t s s'" using 2(3) by (simp add: enqueues_def)
      show "goals_fit s'" using fit goals_fit_same [OF 2(2)] by simp
      show "bt_id t \<in> set uuids" "bt_id t \<notin> used" using new by (simp_all add: t)
      show "\<forall>c. bt_chain t = Some c \<longrightarrow> c \<in> used" using root(1) by (simp add: t)
      show "row_fits (st_turns s) (queued_row now t)"
        unfolding row_fits_def queued_row_sel
      proof (intro conjI allI impI ballI)
        fix c assume "is_ask (bt_organization t) c (queued_row now t)"
        then have "c = chain_root e" by (simp add: is_ask_def t)
        then show "int (length (filter (is_ask (bt_organization t) c) (st_turns s))) < chain_turn_budget bot_chain_limits"
          using allowed(2) by simp
      next
        fix r assume "r \<in> set (st_turns s)" "bt_chain t = Some (bt_id r)"
        then show "bt_scopes t = bt_scopes r" using root(3) by (simp add: t)
      qed (use allowed(1) root(2) in \<open>simp_all add: t goal_step_key_None\<close>)
    qed
  qed
  show "keeps_moving s s'"
    using cases
  proof cases
    case 1 then show ?thesis by (intro same_keeps_moving)
  next
    case (2 t)
    have "enqueues now t s s'" using 2(3) by (simp add: enqueues_def)
    then show ?thesis using queue_from_bot_Inr(4,13) [OF 2(1)] enqueues_keep_moving by blast
  qed
qed

lemma answer_asks_nothing: "queue_answer tid now e pick = Inr t \<Longrightarrow> \<not> bt_reply_requested t"
  by (auto simp: queue_answer_def dest!: queue_turn_Inr(17) split: sum.splits if_splits)

lemma answer_step:
  assumes inv: "store_inv used s" and new: "tid \<in> set uuids" "tid \<notin> used" and e: "entity_fits used (st_turns s) e"
    and answer: "deliver_bot_answer tid mid now e pick content s = Inr s'"
  shows "store_step used uuids s s'" "keeps_moving s s'"
proof -
  have "s' = s \<or> (\<exists>t m oc p. queue_answer tid now e p = Inr t \<and> enqueue_answer now t m s = Inr (oc, s'))"
    using answer by (auto simp: deliver_bot_answer_def Let_def split: if_splits sum.splits prod.splits)
  then consider "s' = s" | t p where "queue_answer tid now e p = Inr t" "enqueues now t s s'" "st_goals s' = st_goals s"
    using enqueue_answer_Inr by blast
  note cases = this
  have fit: "goals_fit s" using inv by (simp add: store_inv_def)
  show "store_step used uuids s s'"
    using cases
  proof cases
    case 1 then show ?thesis using store_step_refl [OF inv] by simp
  next
    case (2 t p)
    note t = queue_answer_Inr [OF 2(1)]
    have e': "chain_root e \<in> used" "0 \<le> bt_depth e" "bt_depth e \<le> chain_max_depth bot_chain_limits"
      "\<And>r. r \<in> set (st_turns s) \<Longrightarrow> bt_id r = chain_root e \<Longrightarrow> bt_scopes r = bt_scopes e"
      "\<And>r. r \<in> set (st_turns s) \<Longrightarrow> bt_id r = bt_id e \<Longrightarrow> turn_identity r = turn_identity e"
      "bt_chain e \<noteq> None"
      using e t(15) unfolding entity_fits_def by blast+
    have root: "bt_chain e = Some (chain_root e)" using e'(6) by (auto simp: chain_root_def)
    show ?thesis
    proof (rule store_step_enqueues [OF inv 2(2)])
      show "goals_fit s'" using fit goals_fit_same [OF 2(3)] by simp
      show "bt_id t \<in> set uuids" "bt_id t \<notin> used" using new by (simp_all add: t)
      show "\<forall>c. bt_chain t = Some c \<longrightarrow> c \<in> used" using e'(1) by (simp add: t)
      assume ins: "insertable t s"
      show "row_fits (st_turns s) (queued_row now t)"
        unfolding row_fits_def queued_row_sel
      proof (intro conjI allI impI)
        show "\<forall>r \<in> set (st_turns s). \<not> (bt_bot r = bt_bot t \<and> bt_source_key r = bt_source_key t)" if "bt_source_key t \<noteq> None"
          using ins that unfolding insertable_def by blast
        show "\<forall>r \<in> set (st_turns s). \<not> (bt_organization r = bt_organization t \<and> bt_answers r = bt_answers t)" if "bt_answers t \<noteq> None"
          using ins that unfolding insertable_def by blast
        show "\<forall>r \<in> set (st_turns s). bt_chain t = Some (bt_id r) \<longrightarrow> bt_scopes t = bt_scopes r"
          using e'(4) by (simp add: t)
        fix q assume q: "bt_answers t = Some q"
        then obtain r where r: "r \<in> set (st_turns s)" "bt_id r = q" "bt_organization r = bt_organization t"
          using ins unfolding insertable_def by blast
        then have "turn_identity r = turn_identity e" using e'(5) q by (simp add: t)
        from turn_identity_eq(5,9) [OF this]
        show "\<exists>r \<in> set (st_turns s). bt_id r = q \<and> bt_organization r = bt_organization t \<and>
            bt_reply_requested r \<and> bt_chain r = bt_chain t"
          using r t(15) root by (intro bexI [of _ r]) (simp_all add: t)
      qed (use e'(2,3) t answer_asks_nothing [OF 2(1)] in \<open>auto simp: goal_step_key_None is_ask_def\<close>)
    qed
  qed
  show "keeps_moving s s'"
    using cases
  proof cases
    case 1 then show ?thesis by (simp add: keeps_moving_refl)
  next
    case (2 t p) then show ?thesis using queue_answer_Inr(4,13) enqueues_keep_moving by blast
  qed
qed

subsection \<open>Going on by itself\<close>

lemma end_goal_fits: "end_goal now g line s = (b, s') \<Longrightarrow> goals_fit s \<Longrightarrow> goals_fit s'"
  by (auto simp: end_goal_def Let_def goals_fit_def insert_message_queue(2) split: if_splits option.splits)

lemma continue_step:
  assumes inv: "store_inv used s" and new: "tid \<in> set uuids" "tid \<notin> used" and g: "goal_fits g"
    and go: "continue_bot_goal tid mid now owner verdict e g s = Inr s'"
  shows "store_step used uuids s s'" "keeps_moving s s'"
proof -
  have "s' = s \<or> (\<exists>line. s' = snd (end_goal now g line s)) \<or>
      (\<exists>g' oid pick reason t m oc. advance_goal g = Inr g' \<and>
         goal_continuation_turn tid mid now oid pick g' (bg_continuations g') reason (timed_out e) = Inr (t, m) \<and>
         enqueue_continuation now t m g' s = Inr (oc, s'))"
    using go unfolding continue_bot_goal_def Let_def
    by (auto split: if_splits sum.splits prod.splits goal_decision.splits goal_result.splits)
  then consider "s' = s" | line where "s' = snd (end_goal now g line s)"
    | g' oid pick reason t m oc where "advance_goal g = Inr g'"
      "goal_continuation_turn tid mid now oid pick g' (bg_continuations g') reason (timed_out e) = Inr (t, m)"
      "enqueue_continuation now t m g' s = Inr (oc, s')" by blast
  note cases = this
  have fit: "goals_fit s" using inv by (simp add: store_inv_def)
  have end_fact: "same_queue s (snd (end_goal now g line s))" "goals_fit (snd (end_goal now g line s))" for line
    using end_goal_queue [of now g line s] end_goal_fits [of now g line s] fit by (metis prod.collapse)+
  have next_fact: "queue_turn tid now (owner_props (bg_organization g') oid pick (bg_time_zone g') (bg_scopes g') Bot_goal
        (goal_source_key (bg_id g') (bg_continuations g'))) = Inr t"
    if "goal_continuation_turn tid mid now oid pick g' (bg_continuations g') reason (timed_out e) = Inr (t, m)" for g' :: bot_goal_entity and oid pick reason t m
    using that by (auto simp: goal_continuation_turn_def split: sum.splits)
  show "store_step used uuids s s'"
    using cases
  proof cases
    case 1 then show ?thesis using store_step_refl [OF inv] by simp
  next
    case 2 then show ?thesis using store_step_same [OF inv] end_fact by simp
  next
    case (3 g' oid pick reason t m oc)
    have count: "bg_continuations g' = bg_continuations g + 1" "bg_continuations g < bg_limit g" "bg_limit g' = bg_limit g"
      using 3(1) by (auto simp: advance_goal_def goal_exhausted_def split: if_splits)
    then have step: "1 \<le> bg_continuations g'" "bg_continuations g' \<le> bot_goal_continuations_max"
      using g by (simp_all add: goal_fits_def)
    have fit': "goals_fit s'"
    proof -
      obtain b s1 where s1: "claim_continuation g' s = (b, s1)" by force
      have "goals_fit s1" by (rule claim_continuation_fits [OF s1 fit]) (use step in simp)
      then show ?thesis
        using enqueue_continuation_Inr(2) [OF 3(3)] goals_fit_same [of s' s] goals_fit_same [of s' s1] fit s1 by auto
    qed
    show ?thesis
    proof (rule plain_step [OF inv enqueue_continuation_Inr(1) [OF 3(3)] fit' next_fact [OF 3(2)] new owner_props_plain(1-4)])
      show "goal_step_key (qp_source_key (owner_props (bg_organization g') oid pick (bg_time_zone g') (bg_scopes g') Bot_goal
            (goal_source_key (bg_id g') (bg_continuations g'))))"
        unfolding owner_props_plain(5) goal_step_key_def using step by blast
    qed
  qed
  show "keeps_moving s s'"
    using cases
  proof cases
    case 1 then show ?thesis by (simp add: keeps_moving_refl)
  next
    case 2 then show ?thesis using same_keeps_moving end_fact by simp
  next
    case (3 g' oid pick reason t m oc)
    show ?thesis
      by (rule enqueues_keep_moving [OF enqueue_continuation_Inr(1) [OF 3(3)] queue_turn_plain [OF next_fact [OF 3(2)]]])
  qed
qed

lemma end_loop_same: "same_queue s (snd (end_loop now l line u s))" "st_goals (snd (end_loop now l line u s)) = st_goals s"
  using end_loop_queue [of now l line u s] by (metis prod.collapse)+

lemma schedule_loop_same: "same_queue s (snd (schedule_loop l due s))" "st_goals (snd (schedule_loop l due s)) = st_goals s"
  using schedule_loop_queue [of l due s] by (metis prod.collapse)+

lemma same_step:
  assumes "store_inv used s" "same_queue s s'" "st_goals s' = st_goals s"
  shows "store_step used uuids s s'" "keeps_moving s s'"
  using store_step_same [OF assms(1,2)] goals_fit_same [OF assms(3)] assms(1) same_keeps_moving [OF assms(2)]
  by (simp_all add: store_inv_def)

lemma loop_run_step:
  assumes inv: "store_inv used s" and new: "tid \<in> set uuids" "tid \<notin> used"
    and run: "run_bot_loop tid mid now owner n due l s = Inr s'"
  shows "store_step used uuids s s'" "keeps_moving s s'"
proof -
  have "s' = s \<or> (\<exists>line. s' = snd (end_loop now l line False s)) \<or>
      (\<exists>oid pick t m next busy oc. loop_run_turn tid mid now oid pick l n = Inr (t, m) \<and>
         enqueue_loop_run now t m l next busy s = Inr (oc, s'))"
    using run unfolding run_bot_loop_def Let_def
    by (auto split: if_splits sum.splits prod.splits option.splits loop_run_decision.splits)
  then consider "s' = s" | line where "s' = snd (end_loop now l line False s)"
    | oid pick t m nxt busy oc where "loop_run_turn tid mid now oid pick l n = Inr (t, m)"
      "enqueue_loop_run now t m l nxt busy s = Inr (oc, s')" by blast
  then have "store_step used uuids s s' \<and> keeps_moving s s'"
  proof cases
    case 1 then show ?thesis using store_step_refl [OF inv] keeps_moving_refl by simp
  next
    case 2 then show ?thesis using same_step [OF inv end_loop_same] by simp
  next
    case (3 oid pick t m nxt busy oc)
    have t: "queue_turn tid now (owner_props (bl_organization l) oid pick (bl_time_zone l) (bl_scopes l) Bot_loop
        (loop_source_key (bl_id l) n)) = Inr t"
      using 3(1) by (auto simp: loop_run_turn_def split: sum.splits)
    note into = enqueue_loop_run_Inr [OF 3(2)]
    have "goals_fit s'" using inv goals_fit_same [OF into(2)] by (simp add: store_inv_def)
    moreover have "goal_step_key (Some (loop_source_key (bl_id l) n))"
      by (rule goal_step_key_other) (simp add: loop_source_key_def loop_key_prefix_def loop_key_word_def)
    ultimately show ?thesis
      using plain_step [OF inv into(1) _ t new owner_props_plain(1-4)] enqueues_keep_moving [OF into(1) queue_turn_plain [OF t]]
      unfolding owner_props_plain(5) by blast
  qed
  then show "store_step used uuids s s'" "keeps_moving s s'" by blast+
qed

lemma loop_finish_step:
  assumes inv: "store_inv used s" and run: "finish_bot_loop_run mid now e l s = Inr s'"
  shows "store_step used uuids s s'" "keeps_moving s s'"
proof -
  have "s' = s \<or> (\<exists>line u. s' = snd (end_loop now l line u s)) \<or> (\<exists>due. s' = snd (schedule_loop l due s))"
    using run unfolding finish_bot_loop_run_def by (auto split: if_splits sum.splits loop_end_decision.splits)
  then show "store_step used uuids s s'" "keeps_moving s s'"
    using same_step [OF inv end_loop_same] same_step [OF inv schedule_loop_same] store_step_refl [OF inv] keeps_moving_refl
    by blast+
qed

subsection \<open>The invariant\<close>

fun phase_entity :: "worker_phase \<Rightarrow> bot_turn_entity" where
  "phase_entity (Loaded e) = e"
| "phase_entity (Working e) = e"

definition worker_fits :: "string set \<Rightarrow> bot_turn list \<Rightarrow> string \<times> worker_phase \<Rightarrow> bool" where
  "worker_fits used ts w \<longleftrightarrow>
     entity_fits used ts (phase_entity (snd w)) \<and> bt_id (phase_entity (snd w)) = fst w \<and>
     (\<forall>e. snd w = Working e \<longrightarrow> bt_status e = Bot_running)"

definition memory_fits :: "string set \<Rightarrow> bot_turn list \<Rightarrow> bot_system \<Rightarrow> bool" where
  "memory_fits used ts S \<longleftrightarrow>
     (\<forall>e \<in> set (sys_hands S). entity_fits used ts e) \<and>
     (\<forall>w \<in> set (sys_workers S). worker_fits used ts w) \<and>
     (\<forall>g \<in> set (sys_goals S). goal_fits g)"

definition system_inv :: "bot_system \<Rightarrow> bool" where
  "system_inv S \<longleftrightarrow>
     store_inv (set (sys_used S)) (sys_store S) \<and>
     memory_fits (set (sys_used S)) (st_turns (sys_store S)) S"

lemma memory_fits_follow:
  assumes "memory_fits used ts S" "rows_follow used ts ts'" "used \<subseteq> used'"
    and "sys_hands S' = sys_hands S" "sys_goals S' = sys_goals S" "set (sys_workers S') \<subseteq> set (sys_workers S)"
  shows "memory_fits used' ts' S'"
  unfolding memory_fits_def
proof (intro conjI ballI)
  fix e assume "e \<in> set (sys_hands S')"
  then show "entity_fits used' ts' e"
    using assms(1,4) entity_fits_follow [OF _ assms(2,3)] unfolding memory_fits_def by metis
next
  fix w assume "w \<in> set (sys_workers S')"
  then have "worker_fits used ts w" using assms(1,6) unfolding memory_fits_def by blast
  then show "worker_fits used' ts' w" unfolding worker_fits_def using entity_fits_follow [OF _ assms(2,3)] by blast
next
  fix g assume "g \<in> set (sys_goals S')"
  then show "goal_fits g" using assms(1,5) unfolding memory_fits_def by metis
qed

text \<open>A step of the system: the invariant holds after it, and the rows follow from those before.\<close>

definition goes_to :: "bot_system \<Rightarrow> bot_system \<Rightarrow> bool" where
  "goes_to S S' \<longleftrightarrow>
     system_inv S' \<and> rows_follow (set (sys_used S)) (st_turns (sys_store S)) (st_turns (sys_store S')) \<and>
     set (sys_used S) \<subseteq> set (sys_used S')"

lemma goes_to_inv: "goes_to S S' \<Longrightarrow> system_inv S'"
  by (simp add: goes_to_def)

lemma goes_to_memory:
  assumes "system_inv S'" "st_turns (sys_store S') = st_turns (sys_store S)" "sys_used S' = sys_used S"
  shows "goes_to S S'"
  using assms rows_follow_refl by (simp add: goes_to_def)

lemma goes_to_refl: "system_inv S \<Longrightarrow> goes_to S S"
  by (rule goes_to_memory) simp_all

lemma goes_to_trans: "goes_to S S1 \<Longrightarrow> goes_to S1 S2 \<Longrightarrow> goes_to S S2"
  unfolding goes_to_def using rows_follow_trans by blast

text \<open>A transaction, and workers that may have left.\<close>

lemma system_inv_step:
  assumes inv: "system_inv S" and step: "store_step (set (sys_used S)) uuids (sys_store S) (sys_store S')"
    and same: "sys_hands S' = sys_hands S" "sys_goals S' = sys_goals S" "set (sys_workers S') \<subseteq> set (sys_workers S)"
      "sys_used S' = uuids @ sys_used S"
  shows "goes_to S S'"
proof -
  have "memory_fits (set (sys_used S)) (st_turns (sys_store S)) S" using inv by (simp add: system_inv_def)
  then have "memory_fits (set (sys_used S')) (st_turns (sys_store S')) S'"
    by (rule memory_fits_follow [OF _ _ _ same(1-3)]) (use step same(4) in \<open>auto simp: store_step_def\<close>)
  then show ?thesis using step unfolding goes_to_def system_inv_def store_step_def same(4) by simp
qed

lemma with_store_inv:
  assumes "system_inv S" "\<And>s'. r = Inr s' \<Longrightarrow> store_step (set (sys_used S)) uuids (sys_store S) s'"
  shows "goes_to S (with_store S uuids r)"
proof (cases r)
  case (Inl e) then show ?thesis using goes_to_refl [OF assms(1)] by (simp add: with_store_def)
next
  case (Inr s')
  show ?thesis
    by (rule system_inv_step [OF assms(1), of uuids]) (use assms(2) Inr in \<open>simp_all add: with_store_def\<close>)
qed

lemma remove_at_subset: "set (remove_at i xs) \<subseteq> set xs"
  unfolding remove_at_def using set_take_subset set_drop_subset by fastforce

lemma fresh_uuids:
  assumes "fresh uuids S" "u \<in> set uuids"
  shows "u \<notin> set (sys_used S)"
  using assms by (simp add: fresh_def list_all_iff)

lemma hand_fits: "system_inv S \<Longrightarrow> i < length (sys_hands S) \<Longrightarrow>
    entity_fits (set (sys_used S)) (st_turns (sys_store S)) (sys_hands S ! i)"
  by (simp add: system_inv_def memory_fits_def)

lemma worker_nth_fits: "system_inv S \<Longrightarrow> k < length (sys_workers S) \<Longrightarrow> sys_workers S ! k = (tid, phase) \<Longrightarrow>
    worker_fits (set (sys_used S)) (st_turns (sys_store S)) (tid, phase)"
  unfolding system_inv_def memory_fits_def by (metis nth_mem)

lemma goal_nth_fits: "system_inv S \<Longrightarrow> j < length (sys_goals S) \<Longrightarrow> goal_fits (sys_goals S ! j)"
  by (simp add: system_inv_def memory_fits_def)

lemma system_store: "system_inv S \<Longrightarrow> store_inv (set (sys_used S)) (sys_store S)"
  by (simp add: system_inv_def)

lemma store_rows: "store_inv used s \<Longrightarrow> distinct (map bt_id (st_turns s))"
  by (simp add: store_inv_def turns_inv_def keyed_turns_def)

lemma find_turn_mem: "find_turn tid s = Some r \<Longrightarrow> r \<in> set (st_turns s) \<and> bt_id r = tid"
  unfolding find_turn_def by (auto simp: find_Some_iff)

text \<open>The entity a worker claims with.\<close>

lemma started_row:
  assumes "entity_fits used ts e" "start_bot_turn now e = Inr e'"
  shows "starts_row e' ts" "bt_id e' = bt_id e" "entity_fits used ts (mark_turn_persisted e')"
    "bt_status (mark_turn_persisted e') = Bot_running" "bt_id (mark_turn_persisted e') = bt_id e"
proof -
  note e' = start_bot_turn_Inr [OF assms(2)]
  have who: "turn_identity e' = turn_identity e" and st: "bt_loaded e' = Bot_queued" "bt_status e' = Bot_running"
    using assms(1) e' by (simp_all add: entity_fits_def turn_identity_def)
  show id: "bt_id e' = bt_id e" using turn_identity_eq(1) [OF who] .
  show "starts_row e' ts"
    using assms(1) st unfolding starts_row_def entity_fits_def id who by simp
  show "entity_fits used ts (mark_turn_persisted e')" "bt_status (mark_turn_persisted e') = Bot_running"
    "bt_id (mark_turn_persisted e') = bt_id e"
    using assms(1) e'
    by (simp_all add: entity_fits_def mark_turn_persisted_def chain_root_def turn_identity_def split: option.splits)
qed

lemma claim_step:
  assumes inv: "store_inv used s" and starts: "starts_row t (st_turns s)" and claim: "claim_turn t s = (oc, t', s')"
  shows "store_step used uuids s s'"
  using claim
proof (cases rule: claim_turn_steps)
  case lost then show ?thesis using store_step_refl [OF inv] by simp
next
  case (busy r u) then show ?thesis using store_step_refl [OF inv] by simp
next
  case (claimed r)
  have "turns_inv used (bot_keys s) (st_turns s')"
    using inv by (intro claim_turn_inv [OF claim starts]) (simp add: store_inv_def)
  moreover have "bot_keys s' = bot_keys s" "goals_fit s' = goals_fit s" "bots_keyed used s' = bots_keyed used s"
    using claimed(2) by (simp_all add: bot_keys_def goals_fit_def bots_keyed_def)
  moreover have "rows_follow used (st_turns s) (st_turns s')"
    using claimed(2) kept_follow [OF claimed_rows_kept [OF starts]] by simp
  ultimately show ?thesis using inv store_inv_mono [of used s' "set uuids \<union> used"]
    unfolding store_step_def by (simp add: store_inv_def)
qed

lemma worker_claims_inv:
  assumes inv: "system_inv S" and k: "k < length (sys_workers S)" "sys_workers S ! k = (tid, Loaded e)"
  shows "goes_to S (worker_claims k now tid e S)"
proof -
  let ?done = "S\<lparr>sys_workers := remove_at k (sys_workers S)\<rparr>"
  have fits: "entity_fits (set (sys_used S)) (st_turns (sys_store S)) e" "bt_id e = tid"
    using worker_nth_fits [OF inv k] by (simp_all add: worker_fits_def)
  have left: "goes_to S (?done\<lparr>sys_store := s'\<rparr>)" if "store_step (set (sys_used S)) [] (sys_store S) s'" for s'
    by (rule system_inv_step [OF inv, of "[]"]) (simp_all add: that remove_at_subset)
  then have same: "goes_to S ?done"
    using left [OF store_step_refl [OF system_store [OF inv]]] by simp
  show ?thesis
  proof (cases "bt_status e = Bot_running")
    case True
    show ?thesis
    proof (cases "abandon_bot_turn now e")
      case (Inl x) then show ?thesis using True same by (simp add: worker_claims_def Let_def)
    next
      case (Inr e')
      obtain b s' where fin: "finish_turn now e' (sys_store S) = (b, s')" by force
      have "store_step (set (sys_used S)) [] (sys_store S) s'"
        using Inr by (intro store_step_finish [OF system_store [OF inv] fin] ends_row_of(1) [OF fits(1)]) (simp add: abandon_bot_turn_def)
      then show ?thesis using True Inr fin left by (simp add: worker_claims_def Let_def)
    qed
  next
    case not_running: False
    show ?thesis
    proof (cases "bt_status e = Bot_queued")
      case False then show ?thesis using not_running same by (simp add: worker_claims_def Let_def)
    next
      case True
      show ?thesis
      proof (cases "start_bot_turn now e")
        case (Inl x) then show ?thesis using True same by (simp add: worker_claims_def Let_def)
      next
        case (Inr e')
        note start = started_row [OF fits(1) Inr]
        obtain oc e'' s' where claim: "claim_turn e' (sys_store S) = (oc, e'', s')" using prod_cases3 by blast
        note step = claim_step [OF system_store [OF inv] start(1) claim, of "[]"]
        show ?thesis
        proof (cases "oc = Claim_claimed")
          case False
          then show ?thesis using True Inr claim same by (cases oc) (simp_all add: worker_claims_def Let_def)
        next
          case claimed: True
          have e'': "e'' = mark_turn_persisted e'"
            using claim claimed by (cases rule: claim_turn_steps) simp_all
          let ?S = "S\<lparr>sys_store := s', sys_workers := (sys_workers S)[k := (tid, Working e'')]\<rparr>"
          have mem: "memory_fits (set (sys_used S)) (st_turns s') (S\<lparr>sys_store := s'\<rparr>)"
            by (rule memory_fits_follow [of "set (sys_used S)" "st_turns (sys_store S)" S])
              (use inv step in \<open>auto simp: system_inv_def store_step_def\<close>)
          have "entity_fits (set (sys_used S)) (st_turns s') e''"
            unfolding e'' by (rule entity_fits_follow [OF start(3)]) (use step in \<open>auto simp: store_step_def\<close>)
          then have "worker_fits (set (sys_used S)) (st_turns s') (tid, Working e'')"
            using start(4,5) fits(2) by (simp add: worker_fits_def e'')
          then have "memory_fits (set (sys_used S)) (st_turns s') ?S"
            using mem subsetD [OF set_update_subset_insert [of "sys_workers S" k "(tid, Working e'')"]]
            unfolding memory_fits_def by fastforce
          then have "goes_to S ?S" using step by (simp add: goes_to_def system_inv_def store_step_def)
          then show ?thesis using True Inr claim claimed by (simp add: worker_claims_def Let_def)
        qed
      qed
    qed
  qed
qed

lemma empty_system_inv: "system_inv empty_system"
  by (simp add: system_inv_def empty_system_def empty_store_def store_inv_def turns_inv_defs bounded_chains_def
      bots_keyed_def goals_fit_def memory_fits_def bot_chain_limits_def)

lemma create_bot_step:
  assumes inv: "store_inv used s" and new: "bid \<notin> used"
  shows "store_step used [bid] s (s\<lparr>st_bots := st_bots s @
    [\<lparr>br_organization = org, br_id = bid, br_last_message_at = None, br_last_preview = None\<rparr>]\<rparr>)"
proof -
  let ?s = "s\<lparr>st_bots := st_bots s @ [\<lparr>br_organization = org, br_id = bid, br_last_message_at = None, br_last_preview = None\<rparr>]\<rparr>"
  have "bot_keys s \<subseteq> bot_keys ?s" by (auto simp: bot_keys_def)
  then have "turns_inv (insert bid used) (bot_keys ?s) (st_turns s)"
    using inv unfolding store_inv_def by (blast intro: turns_inv_mono)
  moreover have "bots_keyed (insert bid used) ?s"
    using inv new by (auto simp: store_inv_def bots_keyed_def)
  ultimately show ?thesis
    using inv rows_follow_refl by (simp add: store_step_def store_inv_def goals_fit_def)
qed

lemma delete_bot_step:
  assumes inv: "store_inv used s"
  shows "store_step used [] s (delete_bot org bid s)"
proof -
  note clr = delete_bot_cleared [of org bid s]
  have "turns_inv used (bot_keys s) (st_turns (delete_bot org bid s))"
    using cleared_inv [OF clr] inv unfolding store_inv_def by blast
  moreover have "(bt_organization t, bt_bot t) \<noteq> (org, bid)" if t: "t \<in> set (st_turns (delete_bot org bid s))" for t
  proof -
    obtain u :: bot_turn where "\<not> of_bot org bid u" "turn_identity t = turn_identity u"
      using clr t unfolding cleared_def by blast
    then show ?thesis using turn_identity_eq(2,3) by (metis of_bot_def prod.inject)
  qed
  ultimately have "turns_inv used (bot_keys (delete_bot org bid s)) (st_turns (delete_bot org bid s))"
    unfolding turns_inv_def keyed_turns_def delete_bot_bots(2) by blast
  moreover have "bots_keyed used (delete_bot org bid s)"
  proof -
    have "distinct (map br_id (st_bots (delete_bot org bid s)))"
      unfolding delete_bot_bots(1) using inv by (simp add: store_inv_def bots_keyed_def distinct_map_filter)
    moreover have "br_id ` set (st_bots (delete_bot org bid s)) \<subseteq> br_id ` set (st_bots s)"
      by (auto simp: delete_bot_def Let_def delete_turns_sel)
    ultimately show ?thesis using inv unfolding store_inv_def bots_keyed_def by blast
  qed
  moreover have "goals_fit (delete_bot org bid s)" using cleared_fits [OF clr] inv unfolding store_inv_def by blast
  moreover have "rows_follow used (st_turns s) (st_turns (delete_bot org bid s))"
    using clr reshaped_follow unfolding cleared_def by blast
  ultimately show ?thesis by (simp add: store_step_def store_inv_def)
qed

lemma bot_of_keys_same: "st_bots s' = st_bots s \<Longrightarrow> bot_keys s' = bot_keys s"
  by (simp add: bot_keys_def)

lemma account_step: "store_inv used s \<Longrightarrow> store_step used uuids s (delete_account user s)"
  by (rule store_step_cleared [OF _ delete_account_cleared]) (simp_all add: delete_account_def bot_keys_def)

lemma cancel_step: "store_inv used s \<Longrightarrow> store_step used uuids s (snd (request_cancel t now s))"
  using store_step_cleared [OF _ request_cancel_cleared(1)] request_cancel_cleared(2) bot_of_keys_same
  by (metis prod.collapse)

lemma clear_step:
  assumes "store_inv used s"
  shows "store_step used uuids s (snd (clear_conversation org bid s))"
proof -
  obtain oc s' where c: "clear_conversation org bid s = (oc, s')" by force
  note clr = clear_conversation_cleared [OF c]
  show ?thesis using clr(1) store_step_refl [OF assms] store_step_cleared [OF assms _ clr(2,3)] c by auto
qed

lemma taken_job_step:
  assumes "store_inv used s"
  shows "store_step used uuids s (s\<lparr>st_jobs := js\<rparr>)"
proof -
  have "store_inv used (s\<lparr>st_jobs := js\<rparr>)"
    using assms by (simp add: store_inv_def bot_keys_def bots_keyed_def goals_fit_def)
  then show ?thesis using store_inv_mono rows_follow_refl unfolding store_step_def by simp
qed

lemma stage_job_step: "store_inv used s \<Longrightarrow> store_step used uuids s (stage_job j s)"
  unfolding stage_job_def by (rule taken_job_step)

lemma write_line_same:
  "write_line mid now org bid content s = Inr s' \<Longrightarrow> same_queue s s' \<and> st_goals s' = st_goals s"
  by (auto simp: write_line_def insert_message_queue split: sum.splits)

lemma bot_apply_goes:
  assumes inv: "system_inv S"
  shows "goes_to S (bot_apply a S)"
proof -
  let ?s = "sys_store S" and ?used = "set (sys_used S)"
  note store = system_store [OF inv] and stay = goes_to_refl [OF inv]
  have none: "goes_to S (with_store S [] (Inr s'))" if "store_step ?used [] ?s s'" for s'
    by (rule with_store_inv [OF inv]) (use that in simp)
  have same: "store_step ?used [] ?s s'" if "same_queue ?s s'" "st_goals s' = st_goals ?s" for s'
    using same_step(1) [OF store that] .
  have ended: "store_step ?used [] ?s (snd (finish_turn now e' ?s))"
    if "entity_fits ?used (st_turns ?s) e" "end_bot_turn ending now outcome e = Inr e'" for now e e' ending outcome
    by (rule store_step_finish [OF store prod.collapse [symmetric] ends_row_of(1) [OF that]])
  show ?thesis
  proof (cases a)
    case (Act_create_bot org bid)
    have "goes_to S (with_store S [bid] (Inr (?s\<lparr>st_bots := st_bots ?s @
        [\<lparr>br_organization = org, br_id = bid, br_last_message_at = None, br_last_preview = None\<rparr>]\<rparr>)))" if "fresh [bid] S"
      using fresh_uuids [OF that] by (intro with_store_inv [OF inv]) (auto intro: create_bot_step [OF store])
    then show ?thesis using stay by (simp add: Act_create_bot bot_apply_def Let_def)
  next
    case (Act_send tid mid sid now args)
    have "goes_to S (with_store S [tid, mid, sid]
        (case send_bot_message tid mid sid now args ?s of Inl e \<Rightarrow> Inl e | Inr (_, _, s') \<Rightarrow> Inr s'))" if "fresh [tid, mid, sid] S"
      using fresh_uuids [OF that]
      by (intro with_store_inv [OF inv]) (auto intro!: send_step(1) [OF store] split: sum.splits prod.splits)
    then show ?thesis using stay by (simp add: Act_send bot_apply_def Let_def)
  next
    case (Act_open tid mid now opn user pick zone scopes content)
    have "goes_to S (with_store S [tid, mid] (store_of_enqueue
        (queue_opening tid mid now opn (opening_props opn (br_organization b) user pick zone scopes) content ?s)))"
      if "fresh [tid, mid] S" for b :: bot_row
    proof (rule with_store_inv [OF inv])
      fix s' assume "store_of_enqueue
        (queue_opening tid mid now opn (opening_props opn (br_organization b) user pick zone scopes) content ?s) = Inr s'"
      then obtain oc where "queue_opening tid mid now opn
          (opening_props opn (br_organization b) user pick zone scopes) content ?s = Inr (oc, s')"
        by (auto simp: store_of_enqueue_def split: sum.splits prod.splits)
      then show "store_step ?used [tid, mid] ?s s'"
        by (rule opening_step(1) [OF store, rotated 2]) (use fresh_uuids [OF that] in auto)
    qed
    then show ?thesis using stay by (simp add: Act_open bot_apply_def Let_def split: option.split)
  next
    case (Act_line mid now org bid content)
    have "goes_to S (with_store S [mid] (write_line mid now org bid content ?s))"
      by (rule with_store_inv [OF inv]) (use write_line_same same_step(1) [OF store] in blast)
    then show ?thesis using stay by (simp add: Act_line bot_apply_def Let_def)
  next
    case (Act_load tid)
    have "system_inv (S\<lparr>sys_hands := sys_hands S @ [bot_turn_of r]\<rparr>)" if "find_turn tid ?s = Some r" for r
      using inv loaded_fits [of ?used "bot_keys ?s" "st_turns ?s" r] find_turn_mem [OF that] store
      by (simp add: system_inv_def memory_fits_def store_inv_def)
    then show ?thesis using stay by (simp add: Act_load bot_apply_def Let_def goes_to_memory split: option.split)
  next
    case (Act_load_goal org bid)
    have "system_inv (S\<lparr>sys_goals := sys_goals S @ [bot_goal_of r]\<rparr>)" if "find_goal org bid ?s = Some r" for r
    proof -
      have "r \<in> set (st_goals ?s)" using that unfolding find_goal_def by (auto simp: find_Some_iff)
      then have "goal_fits r" using store by (simp add: store_inv_def goals_fit_def)
      then have "goal_fits (bot_goal_of r)" by (simp add: goal_fits_def bot_goal_of_def bot_goal.extend_def)
      then show ?thesis using inv by (simp add: system_inv_def memory_fits_def)
    qed
    then show ?thesis using stay by (simp add: Act_load_goal bot_apply_def Let_def goes_to_memory split: option.split)
  next
    case (Act_load_loop org bid)
    have "system_inv (S\<lparr>sys_loops := ls\<rparr>)" for ls using inv by (simp add: system_inv_def memory_fits_def)
    then show ?thesis using stay by (simp add: Act_load_loop bot_apply_def Let_def goes_to_memory split: option.split)
  next
    case (Act_peer i tid mid now pick reply content)
    have "goes_to S (with_store S [tid, mid] (store_of_enqueue
        (send_bot_peer_message tid mid now (sys_hands S ! i) pick reply content ?s)))"
      if "i < length (sys_hands S)" "fresh [tid, mid] S"
    proof (rule with_store_inv [OF inv])
      fix s' assume "store_of_enqueue (send_bot_peer_message tid mid now (sys_hands S ! i) pick reply content ?s) = Inr s'"
      then obtain oc where asked: "send_bot_peer_message tid mid now (sys_hands S ! i) pick reply content ?s = Inr (oc, s')"
        by (auto simp: store_of_enqueue_def split: sum.splits prod.splits)
      show "store_step ?used [tid, mid] ?s s'"
        by (rule peer_step(1) [OF store _ _ hand_fits [OF inv that(1)] asked]) (use fresh_uuids [OF that(2)] in auto)
    qed
    then show ?thesis using stay by (simp add: Act_peer bot_apply_def Let_def)
  next
    case (Act_answer i tid mid now pick content)
    have "goes_to S (with_store S [tid, mid] (deliver_bot_answer tid mid now (sys_hands S ! i) pick content ?s))"
      if "i < length (sys_hands S)" "fresh [tid, mid] S"
    proof (rule with_store_inv [OF inv])
      fix s' assume answered: "deliver_bot_answer tid mid now (sys_hands S ! i) pick content ?s = Inr s'"
      show "store_step ?used [tid, mid] ?s s'"
        by (rule answer_step(1) [OF store _ _ hand_fits [OF inv that(1)] answered]) (use fresh_uuids [OF that(2)] in auto)
    qed
    then show ?thesis using stay by (simp add: Act_answer bot_apply_def Let_def)
  next
    case (Act_continue i j tid mid now owner verdict)
    have "goes_to S (with_store S [tid, mid]
        (continue_bot_goal tid mid now owner verdict (sys_hands S ! i) (sys_goals S ! j) ?s))"
      if "j < length (sys_goals S)" "fresh [tid, mid] S"
    proof (rule with_store_inv [OF inv])
      fix s' assume gone_on: "continue_bot_goal tid mid now owner verdict (sys_hands S ! i) (sys_goals S ! j) ?s = Inr s'"
      show "store_step ?used [tid, mid] ?s s'"
        by (rule continue_step(1) [OF store _ _ goal_nth_fits [OF inv that(1)] gone_on]) (use fresh_uuids [OF that(2)] in auto)
    qed
    then show ?thesis using stay by (simp add: Act_continue bot_apply_def Let_def)
  next
    case (Act_run_loop j tid mid now owner n due)
    have "goes_to S (with_store S [tid, mid] (run_bot_loop tid mid now owner n due (sys_loops S ! j) ?s))"
      if "fresh [tid, mid] S"
    proof (rule with_store_inv [OF inv])
      fix s' assume ran: "run_bot_loop tid mid now owner n due (sys_loops S ! j) ?s = Inr s'"
      show "store_step ?used [tid, mid] ?s s'"
        by (rule loop_run_step(1) [OF store _ _ ran]) (use fresh_uuids [OF that] in auto)
    qed
    then show ?thesis using stay by (simp add: Act_run_loop bot_apply_def Let_def)
  next
    case (Act_finish_loop i j mid now)
    have "goes_to S (with_store S [mid] (finish_bot_loop_run mid now (sys_hands S ! i) (sys_loops S ! j) ?s))"
      by (intro with_store_inv [OF inv]) (auto intro!: loop_finish_step(1) [OF store])
    then show ?thesis using stay by (simp add: Act_finish_loop bot_apply_def Let_def)
  next
    case (Act_end_goal j now)
    have fit: "goals_fit ?s" using store by (simp add: store_inv_def)
    have "goals_fit (snd (end_goal now (sys_goals S ! j) None ?s))"
      by (rule end_goal_fits [OF prod.collapse [symmetric] fit])
    then have "store_step ?used [] ?s (snd (end_goal now (sys_goals S ! j) None ?s))"
      by (rule store_step_same [OF store end_goal_queue [OF prod.collapse [symmetric]]])
    then show ?thesis using stay none by (simp add: Act_end_goal bot_apply_def Let_def)
  next
    case (Act_end_loop j now unchanged)
    show ?thesis using stay none [OF same [OF end_loop_same]] by (simp add: Act_end_loop bot_apply_def Let_def)
  next
    case (Act_schedule_loop j due)
    show ?thesis using stay none [OF same [OF schedule_loop_same]] by (simp add: Act_schedule_loop bot_apply_def Let_def)
  next
    case (Act_take k)
    let ?s' = "?s\<lparr>st_jobs := remove_at k (st_jobs ?s)\<rparr>"
    have left: "goes_to S (S\<lparr>sys_store := ?s'\<rparr>)"
      by (rule system_inv_step [OF inv, of "[]"]) (simp_all add: taken_job_step [OF store])
    have more: "system_inv (S\<lparr>sys_store := ?s', sys_workers := sys_workers S @ [(tid, Loaded (bot_turn_of r))]\<rparr>)"
      if "find_turn tid ?s = Some r" for tid r
      using goes_to_inv [OF left] loaded_fits [of ?used "bot_keys ?s" "st_turns ?s" r] find_turn_mem [OF that] store
      by (simp add: system_inv_def memory_fits_def store_inv_def worker_fits_def)
    then show ?thesis using stay left by (simp add: Act_take bot_apply_def Let_def goes_to_memory more split: option.split bot_job.split)
  next
    case (Act_claim k now)
    then show ?thesis using stay worker_claims_inv [OF inv]
      by (auto simp: bot_apply_def Let_def split: prod.split worker_phase.split)
  next
    case (Act_end k ending now outcome)
    have "goes_to S (S\<lparr>sys_store := snd (finish_turn now e' ?s), sys_workers := remove_at k (sys_workers S)\<rparr>)"
      if k: "k < length (sys_workers S)" "sys_workers S ! k = (tid, Working e)" and e': "end_bot_turn ending now outcome e = Inr e'" for tid e e'
    proof (rule system_inv_step [OF inv, of "[]"])
      have "entity_fits ?used (st_turns ?s) e" using worker_nth_fits [OF inv k] by (simp add: worker_fits_def)
      then show "store_step ?used [] ?s (sys_store (S\<lparr>sys_store := snd (finish_turn now e' ?s), sys_workers := remove_at k (sys_workers S)\<rparr>))"
        using ended e' by simp
    qed (simp_all add: remove_at_subset)
    then show ?thesis using stay
      by (auto simp: Act_end bot_apply_def Let_def split: prod.split worker_phase.split sum.split)
  next
    case (Act_steer k now)
    have "goes_to S (with_store S [] (store_of_steers (take_steers now e ?s)))" for e :: bot_turn_entity
      by (rule with_store_inv [OF inv]) (auto simp: store_of_steers_def intro: store_step_steers [OF store] split: sum.splits prod.splits)
    then show ?thesis using stay by (auto simp: Act_steer bot_apply_def Let_def split: prod.split worker_phase.split)
  next
    case (Act_die k)
    have "goes_to S (S\<lparr>sys_store := stage_job (Run_bot_turn tid) ?s, sys_workers := remove_at k (sys_workers S),
        sys_hands := sys_hands S @ [case phase of Loaded e \<Rightarrow> e | Working e \<Rightarrow> e]\<rparr>)"
      if k: "k < length (sys_workers S)" "sys_workers S ! k = (tid, phase)" for tid phase
    proof -
      have "goes_to S (S\<lparr>sys_store := stage_job (Run_bot_turn tid) ?s, sys_workers := remove_at k (sys_workers S)\<rparr>)"
        by (rule system_inv_step [OF inv, of "[]"]) (simp_all add: stage_job_step [OF store] remove_at_subset)
      moreover have "entity_fits ?used (st_turns ?s) (case phase of Loaded e \<Rightarrow> e | Working e \<Rightarrow> e)"
        using worker_nth_fits [OF inv k] by (cases phase) (simp_all add: worker_fits_def)
      ultimately show ?thesis by (simp add: goes_to_def system_inv_def memory_fits_def stage_job_queue)
    qed
    then show ?thesis using stay by (simp add: Act_die bot_apply_def Let_def split: prod.split)
  next
    case (Act_finish i ending now outcome)
    have "goes_to S (with_store S [] (Inr (snd (finish_turn now e' ?s))))"
      if "i < length (sys_hands S)" "end_bot_turn ending now outcome (sys_hands S ! i) = Inr e'" for e'
      by (rule none [OF ended [OF hand_fits [OF inv that(1)] that(2)]])
    then show ?thesis using stay by (simp add: Act_finish bot_apply_def Let_def split: sum.split)
  next
    case (Act_late_steer i now)
    have "goes_to S (with_store S [] (store_of_steers (take_steers now e ?s)))" for e :: bot_turn_entity
      by (rule with_store_inv [OF inv]) (auto simp: store_of_steers_def intro: store_step_steers [OF store] split: sum.splits prod.splits)
    then show ?thesis using stay by (simp add: Act_late_steer bot_apply_def Let_def)
  next
    case (Act_cancel i now)
    show ?thesis using stay by (simp add: Act_cancel bot_apply_def Let_def none cancel_step [OF store])
  next
    case (Act_clear org bid)
    show ?thesis using none [OF clear_step [OF store]] by (simp add: Act_clear bot_apply_def Let_def)
  next
    case (Act_delete_bot org bid)
    show ?thesis using none [OF delete_bot_step [OF store]] by (simp add: Act_delete_bot bot_apply_def Let_def)
  next
    case (Act_delete_account user)
    show ?thesis using none [OF account_step [OF store]] by (simp add: Act_delete_account bot_apply_def Let_def)
  qed
qed

lemma bot_apply_inv: "system_inv S \<Longrightarrow> system_inv (bot_apply a S)"
  by (rule goes_to_inv [OF bot_apply_goes])

interpretation bots: followed_system bot_apply system_inv goes_to
proof unfold_locales
  show "system_inv S \<Longrightarrow> system_inv (bot_apply a S)" for a S by (rule bot_apply_inv)
  show "system_inv S \<Longrightarrow> goes_to S S" for S by (rule goes_to_refl)
  show "goes_to S S1 \<Longrightarrow> goes_to S1 S2 \<Longrightarrow> goes_to S S2" for S S1 S2 by (rule goes_to_trans)
  show "system_inv S \<Longrightarrow> goes_to S (bot_apply a S)" for a S by (rule bot_apply_goes)
qed

lemma reachable_inv: "system_inv (bot_run as empty_system)"
  unfolding bot_run_def by (rule bots.run_inv [OF empty_system_inv])

lemma bot_run_append: "bot_run (as @ bs) S = bot_run bs (bot_run as S)"
  by (simp add: bot_run_def)

end
