(* ===== verification/Bot_Liveness.thy ===== *)
theory Bot_Liveness
  imports Bot_System_Facts
begin

section \<open>Why no queue of a bot's turns stops\<close>

text \<open>
  A bot with a queued turn always has one that runs, or one that is due: its job waits on the queue,
  or a worker that loaded it queued is about to claim it. A turn that runs has a worker, or a job
  whose delivery fails it. Both survive every step but a steer taken by a turn that no longer runs.
\<close>

definition worker_due :: "string \<times> worker_phase \<Rightarrow> string set" where
  "worker_due w =
     (case w of (tid, Loaded e) \<Rightarrow> if bt_status e = Bot_queued then {tid} else {} | (tid, Working e) \<Rightarrow> {})"

definition worker_holds :: "string \<times> worker_phase \<Rightarrow> string set" where
  "worker_holds w =
     (case w of (tid, Loaded e) \<Rightarrow> if bt_status e = Bot_running then {tid} else {} | (tid, Working e) \<Rightarrow> {tid})"

definition due_turns :: "bot_store \<Rightarrow> (string \<times> worker_phase) list \<Rightarrow> string set" where
  "due_turns s ws = run_jobs s \<union> \<Union> (worker_due ` set ws)"

definition held_turns :: "bot_store \<Rightarrow> (string \<times> worker_phase) list \<Rightarrow> string set" where
  "held_turns s ws = run_jobs s \<union> \<Union> (worker_holds ` set ws)"

definition moving :: "bot_system \<Rightarrow> bool" where
  "moving S \<longleftrightarrow>
     none_stuck (due_turns (sys_store S) (sys_workers S)) (st_turns (sys_store S)) \<and>
     runs_held (held_turns (sys_store S) (sys_workers S)) (st_turns (sys_store S))"

text \<open>A steer is live when the turn that takes it still runs in the table.\<close>

definition runs_in :: "string \<Rightarrow> bot_store \<Rightarrow> bool" where
  "runs_in tid s = list_ex (\<lambda>r. bt_id r = tid \<and> bt_status r = Bot_running) (st_turns s)"

definition live_action :: "bot_action \<Rightarrow> bot_system \<Rightarrow> bool" where
  "live_action a S =
     (case a of
        Act_steer k now \<Rightarrow> k < length (sys_workers S) \<longrightarrow> runs_in (fst (sys_workers S ! k)) (sys_store S)
      | Act_late_steer i now \<Rightarrow> i < length (sys_hands S) \<longrightarrow> runs_in (bt_id (sys_hands S ! i)) (sys_store S)
      | _ \<Rightarrow> True)"

fun steers_live :: "bot_action list \<Rightarrow> bot_system \<Rightarrow> bool" where
  "steers_live [] S = True"
| "steers_live (a # as) S = (live_action a S \<and> steers_live as (bot_apply a S))"

subsection \<open>A job or a worker less\<close>

lemma none_stuck_drop:
  assumes stuck: "none_stuck due ts" and less: "due \<subseteq> insert x due'"
    and instead: "\<And>r. r \<in> set ts \<Longrightarrow> bt_id r = x \<Longrightarrow> bt_status r = Bot_queued \<Longrightarrow>
      \<exists>u \<in> set ts. of_bot (bt_organization r) (bt_bot r) u \<and> bt_status u = Bot_running"
  shows "none_stuck due' ts"
  unfolding none_stuck_def
proof (intro ballI impI)
  fix t assume t: "t \<in> set ts" "bt_status t = Bot_queued"
  then obtain r where r: "r \<in> set ts" "of_bot (bt_organization t) (bt_bot t) r"
    "bt_status r = Bot_running \<or> bt_status r = Bot_queued \<and> bt_id r \<in> due"
    using stuck unfolding none_stuck_def served_def by blast
  show "served due' ts (bt_organization t) (bt_bot t)"
  proof (cases "bt_status r = Bot_queued \<and> bt_id r = x")
    case True
    then obtain u where "u \<in> set ts" "of_bot (bt_organization r) (bt_bot r) u" "bt_status u = Bot_running"
      using instead r(1) by blast
    then show ?thesis using r(2) unfolding served_def of_bot_def by auto
  next
    case False
    then show ?thesis using r less unfolding served_def by blast
  qed
qed

lemma runs_held_drop:
  assumes "runs_held held ts" "held \<subseteq> insert x held'"
    and "\<And>r. r \<in> set ts \<Longrightarrow> bt_id r = x \<Longrightarrow> bt_status r \<noteq> Bot_running"
  shows "runs_held held' ts"
  using assms unfolding runs_held_def by blast

lemma set_remove_at: "k < length xs \<Longrightarrow> set xs = insert (xs ! k) (set (remove_at k xs))"
  by (subst id_take_nth_drop [of k xs]) (auto simp: remove_at_def)

lemma workers_left:
  assumes "k < length ws"
  shows "\<Union> (f ` set ws) = f (ws ! k) \<union> \<Union> (f ` set (remove_at k ws))"
  by (simp add: set_remove_at [OF assms])

lemma run_jobs_left:
  assumes "k < length (st_jobs s)"
  shows "run_jobs s = {q. st_jobs s ! k = Run_bot_turn q} \<union> run_jobs (s\<lparr>st_jobs := remove_at k (st_jobs s)\<rparr>)"
  unfolding run_jobs_def by (auto simp: set_remove_at [OF assms])

lemma keeps_going_with:
  assumes "moving S" "\<And>s'. r = Inr s' \<Longrightarrow> keeps_going (sys_store S) s'"
  shows "moving (with_store S uuids r)"
proof (cases r)
  case (Inl e) then show ?thesis using assms(1) by (simp add: with_store_def)
next
  case (Inr s')
  then have "keeps_going (sys_store S) s'" by (rule assms(2))
  then show ?thesis
    using assms(1) Inr by (simp add: with_store_def moving_def keeps_going_def due_turns_def held_turns_def)
qed

lemma keeps_moving_with:
  assumes "moving S" "\<And>s'. r = Inr s' \<Longrightarrow> keeps_moving (sys_store S) s'"
  shows "moving (with_store S uuids r)"
  using assms by (intro keeps_going_with) (simp_all add: keeps_moving_def)

subsection \<open>Taking a job, claiming, ending, dying\<close>

lemma take_moving:
  assumes inv: "system_inv S" and moving: "moving S"
  shows "moving (bot_apply (Act_take k) S)"
proof (cases "k < length (st_jobs (sys_store S))")
  case False then show ?thesis using moving by (simp add: bot_apply_def Let_def)
next
  case k: True
  let ?s = "sys_store S"
  show ?thesis
  proof (cases "st_jobs ?s ! k")
    case (Run_bot_turn tid)
    let ?s' = "?s\<lparr>st_jobs := remove_at k (st_jobs ?s)\<rparr>"
    have jobs: "run_jobs ?s \<subseteq> insert tid (run_jobs ?s')" using run_jobs_left [OF k] Run_bot_turn by auto
    have rows: "distinct (map bt_id (st_turns ?s))" using store_rows [OF system_store [OF inv]] .
    have both: "none_stuck (due_turns ?s (sys_workers S)) (st_turns ?s)" "runs_held (held_turns ?s (sys_workers S)) (st_turns ?s)"
      using moving by (simp_all add: moving_def)
    show ?thesis
    proof (cases "find_turn tid ?s")
      case None
      then have gone: "bt_id r \<noteq> tid" if "r \<in> set (st_turns ?s)" for r
        using that by (auto simp: find_turn_def find_None_iff)
      have "none_stuck (due_turns ?s' (sys_workers S)) (st_turns ?s)"
        by (rule none_stuck_drop [OF both(1), of tid]) (use jobs gone in \<open>auto simp: due_turns_def\<close>)
      moreover have "runs_held (held_turns ?s' (sys_workers S)) (st_turns ?s)"
        by (rule runs_held_drop [OF both(2), of tid]) (use jobs gone in \<open>auto simp: held_turns_def\<close>)
      ultimately show ?thesis using k Run_bot_turn None by (simp add: bot_apply_def Let_def moving_def)
    next
      case (Some r)
      note r = find_turn_mem [OF Some]
      have only: "u = r" if "u \<in> set (st_turns ?s)" "bt_id u = tid" for u
        using same_row [OF rows that(1)] r that(2) by simp
      let ?ws = "sys_workers S @ [(tid, Loaded (bot_turn_of r))]"
      have "none_stuck (due_turns ?s' ?ws) (st_turns ?s)"
      proof (cases "bt_status r = Bot_queued")
        case True
        then show ?thesis
          by (intro none_stuck_mono [OF both(1)]) (use jobs in \<open>auto simp: due_turns_def worker_due_def\<close>)
      next
        case False
        then show ?thesis
          by (intro none_stuck_drop [OF both(1), of tid]) (use jobs only in \<open>auto simp: due_turns_def\<close>)
      qed
      moreover have "runs_held (held_turns ?s' ?ws) (st_turns ?s)"
      proof (cases "bt_status r = Bot_running")
        case True
        then show ?thesis
          by (intro runs_held_mono [OF both(2)]) (use jobs in \<open>auto simp: held_turns_def worker_holds_def\<close>)
      next
        case False
        then show ?thesis
          by (intro runs_held_drop [OF both(2), of tid]) (use jobs only in \<open>auto simp: held_turns_def\<close>)
      qed
      ultimately show ?thesis using k Run_bot_turn Some by (simp add: bot_apply_def Let_def moving_def)
    qed
  qed (use k moving in \<open>simp_all add: bot_apply_def Let_def\<close>)
qed

text \<open>A worker that ends the running turn it holds.\<close>

lemma finish_moving:
  assumes inv: "system_inv S" and moving: "moving S"
    and k: "k < length (sys_workers S)" "sys_workers S ! k = (tid, phase)"
    and e: "phase_entity phase = e" "bt_status e = Bot_running"
    and e': "end_bot_turn ending now outcome e = Inr e'" and fin: "finish_turn now e' (sys_store S) = (b, s')"
  shows "moving (S\<lparr>sys_store := s', sys_workers := remove_at k (sys_workers S)\<rparr>)"
proof -
  let ?s = "sys_store S" and ?ws = "remove_at k (sys_workers S)"
  have fits: "entity_fits (set (sys_used S)) (st_turns ?s) e" "bt_id e = tid"
    using worker_nth_fits [OF inv k] e(1) by (simp_all add: worker_fits_def)
  note ends = ends_row_of [OF fits(1) e']
  have both: "none_stuck (due_turns ?s (sys_workers S)) (st_turns ?s)" "runs_held (held_turns ?s (sys_workers S)) (st_turns ?s)"
    using moving by (simp_all add: moving_def)
  have more: "run_jobs ?s \<subseteq> run_jobs s'" using finish_turn_table(4) [OF fin ends(1)] .
  have "worker_due (tid, phase) = {}" using e by (cases phase) (simp_all add: worker_due_def)
  then have due: "due_turns ?s (sys_workers S) = run_jobs ?s \<union> \<Union> (worker_due ` set ?ws)"
    using workers_left [OF k(1), of worker_due] k(2) by (simp add: due_turns_def)
  have "none_stuck (due_turns s' ?ws) (st_turns s')"
    using finish_turn_moves [OF fin ends(1)] both(1) unfolding due unfolding due_turns_def by blast
  moreover have "runs_held (held_turns s' ?ws) (st_turns s')"
  proof (rule runs_held_mono)
    show "runs_held (held_turns ?s (sys_workers S) - {bt_id e'}) (st_turns s')"
      by (rule finish_turn_held [OF fin ends(1) store_rows [OF system_store [OF inv]] both(2)]) (simp add: ends(3) e(2))
    have "worker_holds (tid, phase) \<subseteq> {tid}" by (cases phase) (simp_all add: worker_holds_def)
    moreover have "bt_id e' = tid" using ends(2) fits(2) by simp
    ultimately show "held_turns ?s (sys_workers S) - {bt_id e'} \<subseteq> held_turns s' ?ws"
      using more workers_left [OF k(1), of worker_holds] k(2) by (auto simp: held_turns_def)
  qed
  ultimately show ?thesis by (simp add: moving_def)
qed

text \<open>A worker that leaves with nothing due or held by it alone.\<close>

lemma leave_moving:
  assumes moving: "moving S" and k: "k < length (sys_workers S)" "sys_workers S ! k = (tid, phase)"
    and due: "\<And>r. r \<in> set (st_turns (sys_store S)) \<Longrightarrow> bt_id r = tid \<Longrightarrow> bt_status r = Bot_queued \<Longrightarrow>
        worker_due (tid, phase) \<noteq> {} \<Longrightarrow>
        \<exists>u \<in> set (st_turns (sys_store S)). of_bot (bt_organization r) (bt_bot r) u \<and> bt_status u = Bot_running"
    and held: "worker_holds (tid, phase) = {}"
  shows "moving (S\<lparr>sys_workers := remove_at k (sys_workers S)\<rparr>)"
proof -
  let ?s = "sys_store S" and ?ws = "remove_at k (sys_workers S)"
  have both: "none_stuck (due_turns ?s (sys_workers S)) (st_turns ?s)" "runs_held (held_turns ?s (sys_workers S)) (st_turns ?s)"
    using moving by (simp_all add: moving_def)
  have "none_stuck (due_turns ?s ?ws) (st_turns ?s)"
  proof (cases "worker_due (tid, phase) = {}")
    case True
    then show ?thesis using both(1) workers_left [OF k(1), of worker_due] k(2) by (simp add: due_turns_def)
  next
    case False
    have "worker_due (tid, phase) \<subseteq> {tid}" by (cases phase) (simp_all add: worker_due_def)
    then show ?thesis
      by (intro none_stuck_drop [OF both(1), of tid])
        (use due [OF _ _ _ False] workers_left [OF k(1), of worker_due] k(2) in \<open>auto simp: due_turns_def\<close>)
  qed
  moreover have "runs_held (held_turns ?s ?ws) (st_turns ?s)"
    using both(2) held workers_left [OF k(1), of worker_holds] k(2) by (simp add: held_turns_def)
  ultimately show ?thesis by (simp add: moving_def)
qed

lemma same_bot_organization:
  assumes "store_inv used s" "r \<in> set (st_turns s)" "u \<in> set (st_turns s)" "bt_bot u = bt_bot r"
  shows "bt_organization u = bt_organization r"
proof -
  have "(bt_organization r, bt_bot r) \<in> bot_keys s" "(bt_organization u, bt_bot u) \<in> bot_keys s"
    using assms(1-3) by (auto simp: store_inv_def turns_inv_def keyed_turns_def)
  then obtain b c where b: "b \<in> set (st_bots s)" "br_organization b = bt_organization r" "br_id b = bt_bot r"
    and c: "c \<in> set (st_bots s)" "br_organization c = bt_organization u" "br_id c = bt_bot u"
    by (auto simp: bot_keys_def)
  have "inj_on br_id (set (st_bots s))" using assms(1) by (simp add: store_inv_def bots_keyed_def distinct_map)
  then have "b = c" by (rule inj_onD [OF _ _ b(1) c(1)]) (simp add: b(3) c(3) assms(4))
  then show ?thesis using b c by simp
qed

lemma only_hit:
  assumes "distinct (map bt_id ts)" "length (filter (\<lambda>r. bt_id r = tid \<and> bt_status r = st) ts) \<noteq> 1" "r \<in> set ts" "bt_id r = tid"
  shows "bt_status r \<noteq> st"
proof
  assume st: "bt_status r = st"
  have "{x \<in> set ts. bt_id x = tid \<and> bt_status x = st} = {r}"
    using assms(3,4) st same_row [OF assms(1)] by auto
  then show False using assms(2) filter_length_card [OF assms(1), of "\<lambda>r. bt_id r = tid \<and> bt_status r = st"] by simp
qed

lemma worker_claims_moving:
  assumes inv: "system_inv S" and moving: "moving S"
    and k: "k < length (sys_workers S)" "sys_workers S ! k = (tid, Loaded e)"
  shows "moving (worker_claims k now tid e S)"
proof -
  let ?s = "sys_store S"
  have fits: "entity_fits (set (sys_used S)) (st_turns ?s) e" "bt_id e = tid"
    using worker_nth_fits [OF inv k] by (simp_all add: worker_fits_def)
  note store = system_store [OF inv]
  have both: "none_stuck (due_turns ?s (sys_workers S)) (st_turns ?s)" "runs_held (held_turns ?s (sys_workers S)) (st_turns ?s)"
    using moving by (simp_all add: moving_def)
  consider "bt_status e = Bot_running" | "bt_status e = Bot_queued" | "turn_has_ended e"
    by (auto simp: turn_has_ended_iff)
  then show ?thesis
  proof cases
    case 1
    then obtain e' where e': "abandon_bot_turn now e = Inr e'"
      by (cases "abandon_bot_turn now e") (simp_all add: abandon_bot_turn_def end_bot_turn_def turn_has_ended_iff)
    obtain b s' where fin: "finish_turn now e' ?s = (b, s')" by force
    show ?thesis
      using finish_moving [OF inv moving k _ 1 e' [unfolded abandon_bot_turn_def] fin] 1 e' fin
      by (simp add: worker_claims_def Let_def moving_def)
  next
    case 3
    then have idle: "bt_status e \<noteq> Bot_queued" "bt_status e \<noteq> Bot_running" by (simp_all add: turn_has_ended_iff)
    have "moving (S\<lparr>sys_workers := remove_at k (sys_workers S)\<rparr>)"
      by (rule leave_moving [OF moving k]) (use idle in \<open>simp_all add: worker_due_def worker_holds_def\<close>)
    then show ?thesis using idle by (simp add: worker_claims_def Let_def)
  next
    case 2
    then obtain e' where e': "start_bot_turn now e = Inr e'" by (auto simp: start_bot_turn_def)
    note start = started_row [OF fits(1) e']
    have e'_id: "bt_id e' = tid" using start(2) fits(2) by simp
    have loaded: "bt_loaded e' = Bot_queued" "bt_status e' = Bot_running" using start(1) by (simp_all add: starts_row_def)
    have leave: "moving (S\<lparr>sys_workers := remove_at k (sys_workers S)\<rparr>)"
      if "\<And>r. r \<in> set (st_turns ?s) \<Longrightarrow> bt_id r = tid \<Longrightarrow> bt_status r = Bot_queued \<Longrightarrow>
        \<exists>u \<in> set (st_turns ?s). of_bot (bt_organization r) (bt_bot r) u \<and> bt_status u = Bot_running"
      by (rule leave_moving [OF moving k]) (use that 2 in \<open>simp_all add: worker_holds_def\<close>)
    obtain oc e'' s' where claim: "claim_turn e' ?s = (oc, e'', s')" using prod_cases3 by blast
    show ?thesis
      using claim
    proof (cases rule: claim_turn_steps)
      case lost
      have "moving (S\<lparr>sys_workers := remove_at k (sys_workers S)\<rparr>)"
        by (rule leave) (use only_hit [OF store_rows [OF store] lost(4)] e'_id loaded(1) in auto)
      then show ?thesis using 2 e' claim lost(1) by (simp add: worker_claims_def Let_def)
    next
      case (busy r u)
      have "moving (S\<lparr>sys_workers := remove_at k (sys_workers S)\<rparr>)"
      proof (rule leave)
        fix x assume "x \<in> set (st_turns ?s)" "bt_id x = tid"
        then have "x = r" using same_row [OF store_rows [OF store]] busy(4,5) e'_id by simp
        moreover have "bt_organization u = bt_organization r"
          by (rule same_bot_organization [OF store busy(4,6,7)])
        ultimately show "\<exists>u \<in> set (st_turns ?s). of_bot (bt_organization x) (bt_bot x) u \<and> bt_status u = Bot_running"
          using busy(6-8) by (auto simp: of_bot_def)
      qed
      then show ?thesis using 2 e' claim busy(1) by (simp add: worker_claims_def Let_def)
    next
      case (claimed r)
      let ?ws = "(sys_workers S)[k := (tid, Working e'')]"
      have others: "\<Union> (f ` set (sys_workers S)) \<subseteq> f (tid, Loaded e) \<union> \<Union> (f ` set ?ws)" for f :: "string \<times> worker_phase \<Rightarrow> string set"
      proof -
        have "set (sys_workers S) \<subseteq> insert (tid, Loaded e) (set ?ws)"
        proof
          fix w assume "w \<in> set (sys_workers S)"
          then obtain i where i: "i < length (sys_workers S)" "w = sys_workers S ! i" by (auto simp: in_set_conv_nth)
          show "w \<in> insert (tid, Loaded e) (set ?ws)"
          proof (cases "i = k")
            case True then show ?thesis using i(2) k(2) by simp
          next
            case False
            then have "?ws ! i = w" using i by simp
            then show ?thesis using i(1) nth_mem [of i ?ws] by simp
          qed
        qed
        then show ?thesis by blast
      qed
      have jobs: "run_jobs s' = run_jobs ?s" using claimed(2) by (simp add: run_jobs_def)
      have new: "(tid, Working e'') \<in> set ?ws" using set_update_memI [OF k(1)] .
      have "none_stuck (due_turns ?s (sys_workers S) - {tid}) (st_turns s')"
        using claimed_none_stuck [OF both(1) start(1) claimed(4)] claimed(2) e'_id by simp
      then have "none_stuck (due_turns s' ?ws) (st_turns s')"
        by (rule none_stuck_mono) (use others [of worker_due] 2 in \<open>auto simp: due_turns_def jobs worker_due_def [of "(tid, Loaded e)"]\<close>)
      moreover have "runs_held (insert tid (held_turns ?s (sys_workers S))) (st_turns s')"
        using claimed_held [OF both(2) start(1)] claimed(2) e'_id by simp
      then have "runs_held (held_turns s' ?ws) (st_turns s')"
      proof (rule runs_held_mono)
        have "tid \<in> \<Union> (worker_holds ` set ?ws)" using new by (force simp: worker_holds_def)
        then show "insert tid (held_turns ?s (sys_workers S)) \<subseteq> held_turns s' ?ws"
          using others [of worker_holds] 2 by (auto simp: held_turns_def jobs worker_holds_def [of "(tid, Loaded e)"])
      qed
      ultimately show ?thesis
        using 2 e' claim claimed(1) by (simp add: worker_claims_def Let_def moving_def)
    qed
  qed
qed

lemma die_moving:
  assumes moving: "moving S" and k: "k < length (sys_workers S)" "sys_workers S ! k = (tid, phase)"
  shows "moving (S\<lparr>sys_store := stage_job (Run_bot_turn tid) (sys_store S), sys_workers := remove_at k (sys_workers S),
    sys_hands := hs\<rparr>)"
proof -
  let ?s = "sys_store S" and ?ws = "remove_at k (sys_workers S)"
  let ?s' = "stage_job (Run_bot_turn tid) ?s"
  have both: "none_stuck (due_turns ?s (sys_workers S)) (st_turns ?s)" "runs_held (held_turns ?s (sys_workers S)) (st_turns ?s)"
    using moving by (simp_all add: moving_def)
  have "worker_due (tid, phase) \<subseteq> {tid}" "worker_holds (tid, phase) \<subseteq> {tid}"
    by (cases phase; simp add: worker_due_def worker_holds_def)+
  then have "due_turns ?s (sys_workers S) \<subseteq> due_turns ?s' ?ws" "held_turns ?s (sys_workers S) \<subseteq> held_turns ?s' ?ws"
    using workers_left [OF k(1), of worker_due] workers_left [OF k(1), of worker_holds] k(2)
    by (auto simp: due_turns_def held_turns_def stage_job_queue)
  then show ?thesis
    using none_stuck_mono [OF both(1)] runs_held_mono [OF both(2)] by (simp add: moving_def stage_job_queue)
qed

text \<open>A steer of a turn that runs in the table.\<close>

lemma steers_moving:
  assumes inv: "system_inv S" and moving: "moving S"
    and fits: "entity_fits (set (sys_used S)) (st_turns (sys_store S)) e" and live: "runs_in (bt_id e) (sys_store S)"
  shows "moving (with_store S [] (store_of_steers (take_steers now e (sys_store S))))"
proof (rule keeps_going_with [OF moving])
  fix s' assume "store_of_steers (take_steers now e (sys_store S)) = Inr s'"
  then obtain ms where take: "take_steers now e (sys_store S) = Inr (ms, s')"
    by (auto simp: store_of_steers_def split: sum.splits prod.splits)
  obtain r where r: "r \<in> set (st_turns (sys_store S))" "bt_id r = bt_id e" "bt_status r = Bot_running"
    using live by (auto simp: runs_in_def list_ex_iff)
  have "turn_identity r = turn_identity e" using fits r unfolding entity_fits_def by blast
  then have bot_r: "of_bot (bt_organization e) (bt_bot e) r"
    using turn_identity_eq(2,3) by (auto simp: of_bot_def)
  note table = take_steers_table [OF take]
  show "keeps_going (sys_store S) s'"
    unfolding keeps_going_def table(4)
    using take_steers_moves [OF take store_rows [OF system_store [OF inv]] _ r(1) bot_r r(3)] table(5) by blast
qed

subsection \<open>Every step\<close>

lemma cleared_of_bot_going: "cleared (of_bot org bid) s s' \<Longrightarrow> keeps_going s s'"
  by (erule cleared_keeps_going) (auto simp: of_bot_def)

lemma cancel_moving: "keeps_moving s (snd (request_cancel t now s))"
proof -
  have "keeps_going s (snd (request_cancel t now s))"
    by (rule cleared_keeps_going [OF request_cancel_cleared(1) [OF prod.collapse [symmetric]]]) simp
  moreover have "asks_stay (st_turns s) (st_turns (snd (request_cancel t now s)))"
    unfolding request_cancel_def Let_def by (auto simp: turn_identity_def intro!: asks_stay_map)
  ultimately show ?thesis by (simp add: keeps_moving_def)
qed

lemma delete_account_moving: "keeps_moving s (delete_account user s)"
proof -
  have "keeps_going s (delete_account user s)" by (rule cleared_keeps_going [OF delete_account_cleared]) simp
  moreover have "asks_stay (st_turns s) (st_turns (delete_account user s))"
    unfolding delete_account_def by (auto simp: turn_identity_def intro!: asks_stay_map)
  ultimately show ?thesis by (simp add: keeps_moving_def)
qed

lemma create_bot_moving: "keeps_moving s (s\<lparr>st_bots := bs\<rparr>)"
  by (simp add: keeps_moving_def keeps_going_def run_jobs_def)

lemma moving_memory:
  "moving (S\<lparr>sys_hands := hs\<rparr>) = moving S" "moving (S\<lparr>sys_goals := gs\<rparr>) = moving S" "moving (S\<lparr>sys_loops := ls\<rparr>) = moving S"
  by (simp_all add: moving_def)

text \<open>An action that is one transaction, and leaves what the processes hold as it is.\<close>

definition plain_step :: "bot_system \<Rightarrow> bot_system \<Rightarrow> bool" where
  "plain_step S S' \<longleftrightarrow> (\<exists>uuids r. S' = with_store S uuids r \<and> (\<forall>s'. r = Inr s' \<longrightarrow> keeps_moving (sys_store S) s'))"

lemma plain_step_with: "(\<And>s'. r = Inr s' \<Longrightarrow> keeps_moving (sys_store S) s') \<Longrightarrow> plain_step S (with_store S uuids r)"
  unfolding plain_step_def by blast

lemma plain_step_refl: "plain_step S S"
proof -
  have "S = with_store S [] (Inl undefined)" by (simp add: with_store_def)
  then show ?thesis unfolding plain_step_def by blast
qed

lemma plain_step_moving: "plain_step S S' \<Longrightarrow> moving S \<Longrightarrow> moving S'"
  unfolding plain_step_def using keeps_moving_with by blast

lemma plain_step_asks:
  assumes "plain_step S S'"
  shows "asks_stay (st_turns (sys_store S)) (st_turns (sys_store S'))"
proof -
  obtain uuids r where r: "S' = with_store S uuids r" "\<And>s'. r = Inr s' \<Longrightarrow> keeps_moving (sys_store S) s'"
    using assms unfolding plain_step_def by blast
  show ?thesis
  proof (cases r)
    case (Inl e) then show ?thesis by (simp add: r(1) with_store_def)
  next
    case (Inr s') then show ?thesis using r(2) [OF Inr] by (simp add: r(1) with_store_def keeps_moving_def)
  qed
qed

definition transacts :: "bot_action \<Rightarrow> bool" where
  "transacts a =
     (case a of
        Act_load tid \<Rightarrow> False | Act_load_goal org bid \<Rightarrow> False | Act_load_loop org bid \<Rightarrow> False
      | Act_take k \<Rightarrow> False | Act_claim k now \<Rightarrow> False | Act_end k ending now outcome \<Rightarrow> False
      | Act_steer k now \<Rightarrow> False | Act_die k \<Rightarrow> False | Act_late_steer i now \<Rightarrow> False
      | Act_clear org bid \<Rightarrow> False | Act_delete_bot org bid \<Rightarrow> False
      | _ \<Rightarrow> True)"

lemma bot_apply_transacts:
  assumes inv: "system_inv S" and a: "transacts a"
  shows "plain_step S (bot_apply a S)"
proof -
  let ?s = "sys_store S" and ?used = "set (sys_used S)"
  note store = system_store [OF inv]
  note with_store = plain_step_with [of _ S] and stays = plain_step_refl [of S]
  have none: "plain_step S (with_store S [] (Inr s'))" if "keeps_moving ?s s'" for s'
    by (rule with_store) (use that in simp)
  show ?thesis
  proof (cases a)
    case (Act_create_bot org bid)
    show ?thesis using stays
      by (auto simp: Act_create_bot bot_apply_def Let_def intro!: with_store create_bot_moving)
  next
    case (Act_send tid mid sid now args)
    have "plain_step S (with_store S [tid, mid, sid]
        (case send_bot_message tid mid sid now args ?s of Inl e \<Rightarrow> Inl e | Inr (_, _, s') \<Rightarrow> Inr s'))" if "fresh [tid, mid, sid] S"
    proof (rule with_store)
      fix s' assume "(case send_bot_message tid mid sid now args ?s of Inl e \<Rightarrow> Inl e | Inr (_, _, s') \<Rightarrow> Inr s') = Inr s'"
      then obtain oc rep where sent: "send_bot_message tid mid sid now args ?s = Inr (oc, rep, s')"
        by (auto split: sum.splits prod.splits)
      show "keeps_moving ?s s'"
        by (rule send_step(2) [OF store _ _ sent, of "[tid]"]) (use fresh_uuids [OF that] in auto)
    qed
    then show ?thesis using stays by (simp add: Act_send bot_apply_def Let_def)
  next
    case (Act_open tid mid now opn user pick zone scopes content)
    have "plain_step S (with_store S [tid, mid] (store_of_enqueue
        (queue_opening tid mid now opn (opening_props opn (br_organization b) user pick zone scopes) content ?s)))"
      if "fresh [tid, mid] S" for b :: bot_row
    proof (rule with_store)
      fix s' assume "store_of_enqueue
        (queue_opening tid mid now opn (opening_props opn (br_organization b) user pick zone scopes) content ?s) = Inr s'"
      then obtain oc where opened: "queue_opening tid mid now opn
          (opening_props opn (br_organization b) user pick zone scopes) content ?s = Inr (oc, s')"
        by (auto simp: store_of_enqueue_def split: sum.splits prod.splits)
      show "keeps_moving ?s s'"
        by (rule opening_step(2) [OF store _ _ opened, of "[tid]"]) (use fresh_uuids [OF that] in auto)
    qed
    then show ?thesis using stays by (simp add: Act_open bot_apply_def Let_def split: option.split)
  next
    case (Act_line mid now org bid content)
    have "plain_step S (with_store S [mid] (write_line mid now org bid content ?s))"
      by (rule with_store) (use write_line_same same_keeps_moving in blast)
    then show ?thesis using stays by (simp add: Act_line bot_apply_def Let_def)
  next
    case (Act_peer i tid mid now pick reply content)
    have "plain_step S (with_store S [tid, mid] (store_of_enqueue
        (send_bot_peer_message tid mid now (sys_hands S ! i) pick reply content ?s)))"
      if "i < length (sys_hands S)" "fresh [tid, mid] S"
    proof (rule with_store)
      fix s' assume "store_of_enqueue (send_bot_peer_message tid mid now (sys_hands S ! i) pick reply content ?s) = Inr s'"
      then obtain oc where asked: "send_bot_peer_message tid mid now (sys_hands S ! i) pick reply content ?s = Inr (oc, s')"
        by (auto simp: store_of_enqueue_def split: sum.splits prod.splits)
      show "keeps_moving ?s s'"
        by (rule peer_step(2) [OF store _ _ hand_fits [OF inv that(1)] asked, of "[tid]"]) (use fresh_uuids [OF that(2)] in auto)
    qed
    then show ?thesis using stays by (simp add: Act_peer bot_apply_def Let_def)
  next
    case (Act_answer i tid mid now pick content)
    have "plain_step S (with_store S [tid, mid] (deliver_bot_answer tid mid now (sys_hands S ! i) pick content ?s))"
      if "i < length (sys_hands S)" "fresh [tid, mid] S"
    proof (rule with_store)
      fix s' assume answered: "deliver_bot_answer tid mid now (sys_hands S ! i) pick content ?s = Inr s'"
      show "keeps_moving ?s s'"
        by (rule answer_step(2) [OF store _ _ hand_fits [OF inv that(1)] answered, of "[tid]"]) (use fresh_uuids [OF that(2)] in auto)
    qed
    then show ?thesis using stays by (simp add: Act_answer bot_apply_def Let_def)
  next
    case (Act_continue i j tid mid now owner verdict)
    have "plain_step S (with_store S [tid, mid]
        (continue_bot_goal tid mid now owner verdict (sys_hands S ! i) (sys_goals S ! j) ?s))"
      if "j < length (sys_goals S)" "fresh [tid, mid] S"
    proof (rule with_store)
      fix s' assume gone_on: "continue_bot_goal tid mid now owner verdict (sys_hands S ! i) (sys_goals S ! j) ?s = Inr s'"
      show "keeps_moving ?s s'"
        by (rule continue_step(2) [OF store _ _ goal_nth_fits [OF inv that(1)] gone_on, of "[tid]"]) (use fresh_uuids [OF that(2)] in auto)
    qed
    then show ?thesis using stays by (simp add: Act_continue bot_apply_def Let_def)
  next
    case (Act_run_loop j tid mid now owner n due)
    have "plain_step S (with_store S [tid, mid] (run_bot_loop tid mid now owner n due (sys_loops S ! j) ?s))"
      if "fresh [tid, mid] S"
    proof (rule with_store)
      fix s' assume ran: "run_bot_loop tid mid now owner n due (sys_loops S ! j) ?s = Inr s'"
      show "keeps_moving ?s s'"
        by (rule loop_run_step(2) [OF store _ _ ran, of "[tid]"]) (use fresh_uuids [OF that] in auto)
    qed
    then show ?thesis using stays by (simp add: Act_run_loop bot_apply_def Let_def)
  next
    case (Act_finish_loop i j mid now)
    have "plain_step S (with_store S [mid] (finish_bot_loop_run mid now (sys_hands S ! i) (sys_loops S ! j) ?s))"
      by (intro with_store) (auto intro!: loop_finish_step(2) [OF store])
    then show ?thesis using stays by (simp add: Act_finish_loop bot_apply_def Let_def)
  next
    case (Act_end_goal j now)
    have "keeps_moving ?s (snd (end_goal now (sys_goals S ! j) None ?s))"
      by (rule same_keeps_moving [OF end_goal_queue [OF prod.collapse [symmetric]]])
    then show ?thesis using stays none by (simp add: Act_end_goal bot_apply_def Let_def)
  next
    case (Act_end_loop j now unchanged)
    show ?thesis using stays none [OF same_keeps_moving [OF end_loop_same(1)]] by (simp add: Act_end_loop bot_apply_def Let_def)
  next
    case (Act_schedule_loop j due)
    show ?thesis using stays none [OF same_keeps_moving [OF schedule_loop_same(1)]] by (simp add: Act_schedule_loop bot_apply_def Let_def)
  next
    case (Act_finish i ending now outcome)
    have "keeps_moving ?s (snd (finish_turn now e' ?s))"
      if "i < length (sys_hands S)" "end_bot_turn ending now outcome (sys_hands S ! i) = Inr e'" for e'
      by (rule finish_keeps_moving [OF prod.collapse [symmetric] ends_row_of(1) [OF hand_fits [OF inv that(1)] that(2)]])
    then show ?thesis using stays none by (simp add: Act_finish bot_apply_def Let_def split: sum.split)
  next
    case (Act_cancel i now)
    have "plain_step S (with_store S [] (Inr (snd (request_cancel (sys_hands S ! i) now ?s))))"
      by (rule none [OF cancel_moving])
    then show ?thesis using stays by (simp add: Act_cancel bot_apply_def Let_def)
  next
    case (Act_delete_account user)
    show ?thesis using none [OF delete_account_moving] by (simp add: Act_delete_account bot_apply_def Let_def)
  qed (use a in \<open>simp_all add: transacts_def\<close>)
qed

lemma bot_apply_moving:
  assumes inv: "system_inv S" and moving: "moving S" and live: "live_action a S"
  shows "moving (bot_apply a S)"
proof -
  let ?s = "sys_store S" and ?used = "set (sys_used S)"
  note store = system_store [OF inv]
  have gone: "moving (with_store S [] (Inr s'))" if "keeps_going ?s s'" for s'
    by (rule keeps_going_with [OF moving]) (use that in simp)
  show ?thesis
  proof (cases a)
    case (Act_load tid)
    then show ?thesis using moving by (simp add: bot_apply_def Let_def moving_memory split: option.split)
  next
    case (Act_load_goal org bid)
    then show ?thesis using moving by (simp add: bot_apply_def Let_def moving_memory split: option.split)
  next
    case (Act_load_loop org bid)
    then show ?thesis using moving by (simp add: bot_apply_def Let_def moving_memory split: option.split)
  next
    case (Act_take k) then show ?thesis using take_moving [OF inv moving] by simp
  next
    case (Act_claim k now)
    then show ?thesis using moving worker_claims_moving [OF inv moving]
      by (auto simp: bot_apply_def Let_def split: prod.split worker_phase.split)
  next
    case (Act_end k ending now outcome)
    have "moving (S\<lparr>sys_store := snd (finish_turn now e' ?s), sys_workers := remove_at k (sys_workers S)\<rparr>)"
      if k: "k < length (sys_workers S)" "sys_workers S ! k = (tid, Working e)" and e': "end_bot_turn ending now outcome e = Inr e'" for tid e e'
    proof (rule finish_moving [OF inv moving k _ _ e' prod.collapse [symmetric]])
      show "bt_status e = Bot_running" using worker_nth_fits [OF inv k] by (simp add: worker_fits_def)
    qed simp
    then show ?thesis using moving
      by (auto simp: Act_end bot_apply_def Let_def split: prod.split worker_phase.split sum.split)
  next
    case (Act_steer k now)
    have "moving (with_store S [] (store_of_steers (take_steers now e ?s)))"
      if k: "k < length (sys_workers S)" "sys_workers S ! k = (tid, Working e)" for tid e
    proof (rule steers_moving [OF inv moving])
      show "entity_fits ?used (st_turns ?s) e" using worker_nth_fits [OF inv k] by (simp add: worker_fits_def)
      have "bt_id e = tid" using worker_nth_fits [OF inv k] by (simp add: worker_fits_def)
      then show "runs_in (bt_id e) ?s" using live k by (simp add: Act_steer live_action_def)
    qed
    then show ?thesis using moving by (auto simp: Act_steer bot_apply_def Let_def split: prod.split worker_phase.split)
  next
    case (Act_die k)
    have "moving (S\<lparr>sys_store := stage_job (Run_bot_turn tid) ?s, sys_workers := remove_at k (sys_workers S),
        sys_hands := sys_hands S @ [case phase of Loaded e \<Rightarrow> e | Working e \<Rightarrow> e]\<rparr>)"
      if k: "k < length (sys_workers S)" "sys_workers S ! k = (tid, phase)" for tid phase
      by (rule die_moving [OF moving k])
    then show ?thesis using moving by (simp add: Act_die bot_apply_def Let_def split: prod.split)
  next
    case (Act_late_steer i now)
    have "moving (with_store S [] (store_of_steers (take_steers now (sys_hands S ! i) ?s)))" if "i < length (sys_hands S)"
      by (rule steers_moving [OF inv moving hand_fits [OF inv that]]) (use live that in \<open>simp add: Act_late_steer live_action_def\<close>)
    then show ?thesis using moving by (simp add: Act_late_steer bot_apply_def Let_def)
  next
    case (Act_clear org bid)
    have "keeps_going ?s (snd (clear_conversation org bid ?s))"
      using clear_conversation_cleared(1) [OF prod.collapse [symmetric], of org bid ?s] keeps_moving_refl cleared_of_bot_going
      unfolding keeps_moving_def by metis
    then show ?thesis using gone by (simp add: Act_clear bot_apply_def Let_def)
  next
    case (Act_delete_bot org bid)
    show ?thesis using gone [OF cleared_of_bot_going [OF delete_bot_cleared]] by (simp add: Act_delete_bot bot_apply_def Let_def)
  qed (simp_all add: transacts_def plain_step_moving [OF bot_apply_transacts [OF inv] moving])
qed

interpretation live_bots: guarded_system bot_apply system_inv live_action steers_live moving
proof unfold_locales
  show "steers_live (a # as) S \<Longrightarrow> live_action a S \<and> steers_live as (bot_apply a S)" for a as S by simp
  show "system_inv S \<Longrightarrow> moving S \<Longrightarrow> live_action a S \<Longrightarrow> moving (bot_apply a S)" for a S
    by (rule bot_apply_moving)
qed

lemma reachable_moving: "steers_live as empty_system \<Longrightarrow> moving (bot_run as empty_system)"
  unfolding bot_run_def
proof (rule live_bots.run_good [OF empty_system_inv])
  show "moving empty_system" by (simp add: moving_def none_stuck_def runs_held_def empty_system_def empty_store_def)
qed

subsection \<open>Asks stay until they are deleted\<close>

text \<open>Only clearing a conversation and deleting a bot take a bot's ask out of the table.\<close>

definition deletes_turns :: "bot_action \<Rightarrow> bool" where
  "deletes_turns a = (case a of Act_clear org bid \<Rightarrow> True | Act_delete_bot org bid \<Rightarrow> True | _ \<Rightarrow> False)"

lemma steers_asks_stay:
  assumes take: "take_steers now e s = Inr (ms, s')" and rows: "distinct (map bt_id (st_turns s))"
  shows "asks_stay (st_turns s) (st_turns s')"
proof (cases "no_ask_steers (st_turns s)")
  case False then show ?thesis by (simp add: asks_stay_def)
next
  case plain: True
  define R where "R x \<longleftrightarrow>
      (\<forall>t \<in> set (st_turns x). \<exists>z \<in> set (st_turns s). turn_identity t = turn_identity z) \<and>
      (\<forall>org chain. \<forall>t \<in> set (st_turns s). is_ask org chain t \<longrightarrow>
         (\<exists>t' \<in> set (st_turns x). is_ask org chain t' \<and> bt_id t' = bt_id t))" for x :: bot_store
  have "R s'" using take
  proof (rule take_steers_induct)
    show "R s" unfolding R_def by blast
    fix u x x' m assume u: "u \<in> set (st_turns s)" "takes_steer e u"
      and x: "R x" and step: "move_steer now e u x = Inr (m, x')"
    let ?P = "\<lambda>t :: bot_turn. bt_organization t = bt_organization e \<and> bt_id t = bt_id u"
    have lane: "bt_lane u \<noteq> Lane_bots" using plain u by (auto simp: no_ask_steers_def takes_steer_def)
    consider "x' = x" | ms where "x' = delete_turns ?P (x\<lparr>st_messages := ms\<rparr>)"
      using step by (auto simp: move_steer_def Let_def split: list.splits if_splits)
    then show "R x'"
    proof cases
      case 1 then show ?thesis using x by simp
    next
      case (2 ms)
      have stays: "\<not> ?P t" if t: "t \<in> set (st_turns x)" "is_ask org chain t" for t org chain
      proof
        assume P: "?P t"
        obtain z where z: "z \<in> set (st_turns s)" "turn_identity t = turn_identity z" using x t(1) unfolding R_def by blast
        have "z = u" using same_row [OF rows z(1) u(1)] turn_identity_eq(1) [OF z(2)] P by simp
        then have "bt_lane t = bt_lane u" using turn_identity_eq(4) [OF z(2)] by simp
        then show False using lane t(2) by (simp add: is_ask_def)
      qed
      let ?g = "\<lambda>t :: bot_turn. t\<lparr>bt_asked_by_turn := unset_ref (map (\<lambda>t. (bt_organization t, bt_id t)) (filter ?P (st_turns x)))
                  (bt_organization t) (bt_asked_by_turn t),
                bt_answers := unset_ref (map (\<lambda>t. (bt_organization t, bt_id t)) (filter ?P (st_turns x)))
                  (bt_organization t) (bt_answers t)\<rparr>"
      have rows': "st_turns x' = map ?g (filter (\<lambda>t. \<not> ?P t) (st_turns x))" using 2 by (simp add: delete_turns_sel)
      have same: "turn_identity (?g t) = turn_identity t" "is_ask org chain t \<Longrightarrow> is_ask org chain (?g t)" "bt_id (?g t) = bt_id t"
        for t org chain by (simp_all add: turn_identity_def is_ask_def unset_ref_def)
      have "\<exists>z \<in> set (st_turns s). turn_identity t = turn_identity z" if t: "t \<in> set (st_turns x')" for t
      proof -
        obtain w where w: "w \<in> set (st_turns x)" "t = ?g w" using t unfolding rows' by auto
        then obtain z where "z \<in> set (st_turns s)" "turn_identity w = turn_identity z" using x unfolding R_def by blast
        then show ?thesis using same(1) [of w] unfolding w(2) by metis
      qed
      moreover have "\<exists>t' \<in> set (st_turns x'). is_ask org chain t' \<and> bt_id t' = bt_id t"
        if t: "t \<in> set (st_turns s)" "is_ask org chain t" for t org chain
      proof -
        obtain w where w: "w \<in> set (st_turns x)" "is_ask org chain w" "bt_id w = bt_id t" using x t unfolding R_def by blast
        have "w \<in> set (filter (\<lambda>t. \<not> ?P t) (st_turns x))" using w(1) stays [OF w(1,2)] by simp
        then have "?g w \<in> set (st_turns x')" unfolding rows' set_map by (rule imageI)
        moreover have "bt_id (?g w) = bt_id t" using same(3) [of w] w(3) by (rule trans)
        ultimately show ?thesis using same(2) [OF w(2)] by blast
      qed
      ultimately show ?thesis unfolding R_def by blast
    qed
  qed
  moreover have "no_ask_steers (st_turns s')"
    unfolding no_ask_steers_def
  proof (intro ballI impI)
    fix t assume t: "t \<in> set (st_turns s')" "bt_lane t = Lane_bots"
    obtain z where z: "z \<in> set (st_turns s)" "turn_identity t = turn_identity z" using \<open>R s'\<close> t(1) unfolding R_def by blast
    show "\<not> bt_steer t" using plain z(1) t(2) turn_identity_eq(4,10) [OF z(2)] by (simp add: no_ask_steers_def)
  qed
  ultimately show ?thesis unfolding R_def asks_stay_def by blast
qed

definition turns_of :: "bot_system \<Rightarrow> bot_turn list" where
  "turns_of S = st_turns (sys_store S)"

lemma bot_apply_asks_stay:
  assumes inv: "system_inv S" and a: "\<not> deletes_turns a"
  shows "asks_stay (turns_of S) (turns_of (bot_apply a S))"
proof (cases "transacts a")
  case True
  then show ?thesis unfolding turns_of_def by (rule plain_step_asks [OF bot_apply_transacts [OF inv]])
next
  case other: False
  let ?s = "sys_store S" and ?used = "set (sys_used S)"
  have rows: "distinct (map bt_id (st_turns ?s))" using store_rows [OF system_store [OF inv]] .
  have finishes: "asks_stay (st_turns ?s) (st_turns (snd (finish_turn now e' ?s)))"
    if "entity_fits ?used (st_turns ?s) e" "end_bot_turn ending now outcome e = Inr e'" for now e e' ending outcome
    using finish_keeps_moving [OF prod.collapse [symmetric] ends_row_of(1) [OF that]] by (simp add: keeps_moving_def)
  have steers: "asks_stay (turns_of S) (turns_of (with_store S [] (store_of_steers (take_steers now e ?s))))" for now and e :: bot_turn_entity
  proof (cases "take_steers now e ?s")
    case (Inl x) then show ?thesis by (simp add: turns_of_def store_of_steers_def with_store_def)
  next
    case (Inr y)
    then show ?thesis using steers_asks_stay [of now e ?s "fst y" "snd y"] rows
      by (cases y) (simp add: turns_of_def store_of_steers_def with_store_def)
  qed
  show ?thesis
  proof (cases a)
    case (Act_take k)
    then show ?thesis by (simp add: turns_of_def bot_apply_def Let_def split: option.split bot_job.split)
  next
    case (Act_claim k now)
    have "asks_stay (turns_of S) (turns_of (worker_claims k now tid e S))"
      if k: "k < length (sys_workers S)" "sys_workers S ! k = (tid, Loaded e)" for tid e
    proof -
      have fits: "entity_fits ?used (st_turns ?s) e" using worker_nth_fits [OF inv k] by (simp add: worker_fits_def)
      have claims: "asks_stay (st_turns ?s) (st_turns s')" if "claim_turn e' ?s = (oc, e'', s')" for e' oc e'' s'
        using that by (cases rule: claim_turn_steps) (simp_all add: claimed_rows_def asks_stay_map turn_identity_def)
      show ?thesis
        using finishes [OF fits] claims unfolding abandon_bot_turn_def worker_claims_def
        by (simp add: turns_of_def Let_def abandon_bot_turn_def split: sum.split prod.split claim_outcome.split)
    qed
    then show ?thesis by (auto simp: Act_claim bot_apply_def Let_def split: prod.split worker_phase.split)
  next
    case (Act_end k ending now outcome)
    have "asks_stay (st_turns ?s) (st_turns (snd (finish_turn now e' ?s)))"
      if k: "k < length (sys_workers S)" "sys_workers S ! k = (tid, Working e)" and e': "end_bot_turn ending now outcome e = Inr e'" for tid e e'
      by (rule finishes [OF _ e']) (use worker_nth_fits [OF inv k] in \<open>simp add: worker_fits_def\<close>)
    then show ?thesis by (auto simp: Act_end turns_of_def bot_apply_def Let_def split: prod.split worker_phase.split sum.split)
  next
    case (Act_steer k now)
    then show ?thesis using steers by (auto simp: bot_apply_def Let_def split: prod.split worker_phase.split)
  next
    case (Act_late_steer i now)
    then show ?thesis using steers by (simp add: bot_apply_def Let_def)
  next
    case (Act_die k)
    then show ?thesis by (simp add: turns_of_def bot_apply_def Let_def stage_job_queue split: prod.split)
  qed (use a other in \<open>simp_all add: deletes_turns_def transacts_def turns_of_def bot_apply_def Let_def split: option.split\<close>)
qed

text \<open>A delete takes rows out: what it leaves of the asks are asks still.\<close>

definition asks_left :: "bot_turn list \<Rightarrow> bot_turn list \<Rightarrow> bool" where
  "asks_left ts ts' \<longleftrightarrow>
     (no_ask_steers ts \<longrightarrow>
        no_ask_steers ts' \<and>
        (\<forall>org chain. \<forall>t \<in> set ts. is_ask org chain t \<and> bt_id t \<in> bt_id ` set ts' \<longrightarrow>
           (\<exists>t' \<in> set ts'. is_ask org chain t' \<and> bt_id t' = bt_id t)))"

lemma asks_stay_left: "asks_stay ts ts' \<Longrightarrow> asks_left ts ts'"
  unfolding asks_stay_def asks_left_def by blast

lemma kept_asks_left:
  assumes kept: "kept_turns ts ts'" and rows: "distinct (map bt_id ts)"
  shows "asks_left ts ts'"
proof -
  have "is_ask org chain t'"
    if t: "t \<in> set ts" "is_ask org chain t" "t' \<in> set ts'" "bt_id t' = bt_id t" for org chain t t'
  proof -
    obtain z where z: "z \<in> set ts" "turn_identity t' = turn_identity z" "bt_answers t' = bt_answers z \<or> bt_answers t' = None"
      using kept_member [OF kept t(3)] by metis
    have "z = t" using same_row [OF rows z(1) t(1)] turn_identity_eq(1) [OF z(2)] t(4) by simp
    then show ?thesis using t(2) z(3) turn_identity_eq(2,4,5) [OF z(2)] by (auto simp: is_ask_def)
  qed
  moreover have "no_ask_steers ts'" if plain: "no_ask_steers ts"
    unfolding no_ask_steers_def
  proof (intro ballI impI)
    fix t' assume t': "t' \<in> set ts'" "bt_lane t' = Lane_bots"
    obtain z where z: "z \<in> set ts" "turn_identity t' = turn_identity z" using kept_member [OF kept t'(1)] by metis
    show "\<not> bt_steer t'" using plain z(1) t'(2) turn_identity_eq(4,10) [OF z(2)] by (simp add: no_ask_steers_def)
  qed
  ultimately show ?thesis unfolding asks_left_def by (metis imageE)
qed

lemma bot_apply_asks_left:
  assumes inv: "system_inv S"
  shows "asks_left (turns_of S) (turns_of (bot_apply a S))"
proof (cases "deletes_turns a")
  case False then show ?thesis by (rule asks_stay_left [OF bot_apply_asks_stay [OF inv]])
next
  case True
  let ?s = "sys_store S"
  have rows: "distinct (map bt_id (st_turns ?s))" using store_rows [OF system_store [OF inv]] .
  have cleared: "asks_left (st_turns ?s) (st_turns s')" if "cleared P ?s s'" for P s'
    using that kept_asks_left [OF reshaped_kept rows] unfolding cleared_def by blast
  show ?thesis
  proof (cases a)
    case (Act_clear org bid)
    have "asks_left (st_turns ?s) (st_turns (snd (clear_conversation org bid ?s)))"
      using clear_conversation_cleared(1) [OF prod.collapse [symmetric], of org bid ?s] cleared
        asks_stay_left [OF asks_stay_refl] by metis
    then show ?thesis by (simp add: Act_clear turns_of_def bot_apply_def Let_def with_store_def)
  next
    case (Act_delete_bot org bid)
    show ?thesis using cleared [OF delete_bot_cleared] by (simp add: Act_delete_bot turns_of_def bot_apply_def Let_def with_store_def)
  qed (use True in \<open>simp_all add: deletes_turns_def\<close>)
qed

subsection \<open>The asks a chain ever sends\<close>

text \<open>
  The asks of the chain in the second table whose row is not in the first: the ones a step queued,
  and, the tables the other way round, the ones it took out.
\<close>

definition new_asks :: "string \<Rightarrow> string \<Rightarrow> bot_turn list \<Rightarrow> bot_turn list \<Rightarrow> nat" where
  "new_asks org chain ts ts' =
     length (filter (\<lambda>t. is_ask org chain t \<and> \<not> list_ex (\<lambda>r. bt_id r = bt_id t) ts) ts')"

fun asks_sent :: "string \<Rightarrow> string \<Rightarrow> bot_action list \<Rightarrow> bot_system \<Rightarrow> nat" where
  "asks_sent org chain [] S = 0"
| "asks_sent org chain (a # as) S =
     new_asks org chain (turns_of S) (turns_of (bot_apply a S)) + asks_sent org chain as (bot_apply a S)"

fun asks_deleted :: "string \<Rightarrow> string \<Rightarrow> bot_action list \<Rightarrow> bot_system \<Rightarrow> nat" where
  "asks_deleted org chain [] S = 0"
| "asks_deleted org chain (a # as) S =
     (if deletes_turns a then new_asks org chain (turns_of (bot_apply a S)) (turns_of S) else 0) +
     asks_deleted org chain as (bot_apply a S)"

lemma ask_ids:
  assumes "distinct (map bt_id ts)"
  shows "length (filter P ts) = card (bt_id ` {t \<in> set ts. P t})"
proof -
  have "inj_on bt_id {t \<in> set ts. P t}" using assms by (auto simp: distinct_map inj_on_def)
  then show ?thesis using filter_length_card [OF assms] by (simp add: card_image)
qed

lemma ids_outside:
  "f ` {t \<in> X. P t \<and> \<not> (\<exists>r \<in> Y. f r = f t)} = f ` {t \<in> X. P t} - f ` Y"
proof (intro equalityI subsetI)
  fix x assume "x \<in> f ` {t \<in> X. P t} - f ` Y"
  then obtain t where t: "t \<in> X" "P t" "x = f t" "f t \<notin> f ` Y" by blast
  then have "\<not> (\<exists>r \<in> Y. f r = f t)" by (metis imageI)
  then show "x \<in> f ` {t \<in> X. P t \<and> \<not> (\<exists>r \<in> Y. f r = f t)}" using t by blast
qed (auto simp: image_iff)

lemma asks_balance:
  assumes rows: "distinct (map bt_id ts)" "distinct (map bt_id ts')"
    and left: "asks_left ts ts'" "no_ask_steers ts"
  shows "length (filter (is_ask org chain) ts) + new_asks org chain ts ts' \<le>
    length (filter (is_ask org chain) ts') + new_asks org chain ts' ts"
proof -
  define A where "A = bt_id ` {t \<in> set ts. is_ask org chain t}"
  define B where "B = bt_id ` {t \<in> set ts'. is_ask org chain t}"
  define I I' where "I = bt_id ` set ts" and "I' = bt_id ` set ts'"
  have fin: "finite A" "finite B" by (simp_all add: A_def B_def)
  have "bt_id ` {t \<in> set ts'. is_ask org chain t \<and> \<not> list_ex (\<lambda>r. bt_id r = bt_id t) ts} = B - I"
    unfolding B_def I_def list_ex_iff by (rule ids_outside)
  then have sent: "new_asks org chain ts ts' = card (B - I)" unfolding new_asks_def ask_ids [OF rows(2)] by simp
  have "bt_id ` {t \<in> set ts. is_ask org chain t \<and> \<not> list_ex (\<lambda>r. bt_id r = bt_id t) ts'} = A - I'"
    unfolding A_def I'_def list_ex_iff by (rule ids_outside)
  then have gone: "new_asks org chain ts' ts = card (A - I')" unfolding new_asks_def ask_ids [OF rows(1)] by simp
  have "A \<inter> I' \<subseteq> B"
  proof
    fix x assume "x \<in> A \<inter> I'"
    then obtain t where t: "t \<in> set ts" "is_ask org chain t" "x = bt_id t" "bt_id t \<in> bt_id ` set ts'"
      by (auto simp: A_def I'_def)
    then obtain t' where "t' \<in> set ts'" "is_ask org chain t'" "bt_id t' = bt_id t"
      using left unfolding asks_left_def by blast
    then show "x \<in> B" unfolding B_def t(3) by (intro image_eqI [of _ _ t']) simp_all
  qed
  then have kept: "A \<inter> I' \<subseteq> B \<inter> I" unfolding A_def I_def by blast
  have "card A = card (A \<inter> I') + card (A - I')" by (rule card_Int_Diff [OF fin(1)])
  also have "\<dots> \<le> card (B \<inter> I) + card (A - I')" using kept fin(2) by (simp add: card_mono)
  finally have "card A + card (B - I) \<le> card B + card (A - I')" using card_Int_Diff [OF fin(2), of I] by simp
  then show ?thesis using sent gone ask_ids [OF rows(1)] ask_ids [OF rows(2)] by (simp add: A_def B_def)
qed

lemma asks_stay_none_gone: "asks_stay ts ts' \<Longrightarrow> no_ask_steers ts \<Longrightarrow> new_asks org chain ts' ts = 0"
  by (fastforce simp: asks_stay_def new_asks_def filter_empty_conv list_ex_iff)

lemma asks_run:
  assumes "system_inv S" "no_ask_steers (turns_of S)"
  shows "length (filter (is_ask org chain) (turns_of S)) + asks_sent org chain as S \<le>
    length (filter (is_ask org chain) (turns_of (bot_run as S))) + asks_deleted org chain as S"
  using assms
proof (induction as arbitrary: S)
  case Nil then show ?case by (simp add: bot_run_def)
next
  case (Cons a as)
  let ?S = "bot_apply a S"
  have inv: "system_inv ?S" by (rule bot_apply_inv [OF Cons.prems(1)])
  note left = bot_apply_asks_left [OF Cons.prems(1), of a]
  have rows: "distinct (map bt_id (turns_of T))" if "system_inv T" for T
    unfolding turns_of_def by (rule store_rows [OF system_store [OF that]])
  have plain: "no_ask_steers (turns_of ?S)" using left Cons.prems(2) by (simp add: asks_left_def)
  have "new_asks org chain (turns_of ?S) (turns_of S) = 0" if "\<not> deletes_turns a"
    by (rule asks_stay_none_gone [OF bot_apply_asks_stay [OF Cons.prems(1) that] Cons.prems(2)])
  then have "new_asks org chain (turns_of ?S) (turns_of S) \<le> (if deletes_turns a then new_asks org chain (turns_of ?S) (turns_of S) else 0)"
    by simp
  then show ?case
    using asks_balance [OF rows [OF Cons.prems(1)] rows [OF inv] left Cons.prems(2), of org chain] Cons.IH [OF inv plain]
    unfolding asks_sent.simps asks_deleted.simps bot_run_def fold_simps by linarith
qed

end
