(* ===== verification/Bot_Drain.thy ===== *)
theory Bot_Drain
  imports Bot_Liveness
begin

section \<open>The workers bring every queue to its end\<close>

text \<open>
  From a system whose queues move, the workers' own steps end every turn: each active turn costs at
  most three of them, taking its job, claiming it and ending it.
\<close>

fun worker_step :: "bot_action \<Rightarrow> bool" where
  "worker_step (Act_take k) = True"
| "worker_step (Act_claim k now) = True"
| "worker_step (Act_end k ending now outcome) = True"
| "worker_step _ = False"

definition active_count :: "bot_system \<Rightarrow> nat" where
  "active_count S = length (filter is_active (st_turns (sys_store S)))"

lemma no_more_after_map:
  assumes "\<And>x. x \<in> set xs \<Longrightarrow> P (g x) \<Longrightarrow> P x"
  shows "length (filter P (map g xs)) \<le> length (filter P xs)"
  using assms
proof (induction xs)
  case Nil then show ?case by simp
next
  case (Cons x xs)
  then have "length (filter P (map g xs)) \<le> length (filter P xs)" by simp
  then show ?case using Cons.prems [of x] by (cases "P (g x)") auto
qed

lemma fewer_after_map:
  assumes "\<And>x. x \<in> set xs \<Longrightarrow> P (g x) \<Longrightarrow> P x" "y \<in> set xs" "P y" "\<not> P (g y)"
  shows "length (filter P (map g xs)) < length (filter P xs)"
  using assms
proof (induction xs)
  case Nil then show ?case by simp
next
  case (Cons x xs)
  have le: "length (filter P (map g xs)) \<le> length (filter P xs)"
    by (rule no_more_after_map) (use Cons.prems(1) in auto)
  show ?case
  proof (cases "y \<in> set xs")
    case True
    then have "length (filter P (map g xs)) < length (filter P xs)" using Cons by simp
    then show ?thesis using Cons.prems(1) [of x] by auto
  next
    case False
    then have "y = x" using Cons.prems(2) by simp
    then show ?thesis using Cons.prems(3,4) le by simp
  qed
qed

lemma finish_fewer:
  assumes ends: "ends_row t (st_turns s)" and rows: "distinct (map bt_id (st_turns s))"
    and r: "r \<in> set (st_turns s)" "bt_id r = bt_id t" "bt_status r = bt_loaded t"
  shows "length (filter is_active (st_turns (snd (finish_turn now t s)))) < length (filter is_active (st_turns s))"
proof -
  obtain b s' where fin: "finish_turn now t s = (b, s')" by force
  have "st_turns s' = ended_rows t (st_turns s)"
    using fin
  proof (cases rule: finish_turn_steps)
    case 1 then show ?thesis using only_hit [OF rows 1(3) r(1,2)] r(3) by simp
  next
    case (2 s1) then show ?thesis by (simp add: same_queue_def stage_next_queue)
  qed
  moreover have "length (filter is_active (ended_rows t (st_turns s))) < length (filter is_active (st_turns s))"
    unfolding ended_rows_def
  proof (rule fewer_after_map [OF _ r(1)])
    show "is_active r" using ends r(3) by (auto simp: ends_row_def is_active_def)
    show "\<not> is_active (if bt_id r = bt_id t \<and> bt_status r = bt_loaded t then ended_columns t r else r)"
      using ends r by (simp add: ends_row_def is_active_def turn_has_ended_iff)
    show "is_active x" if "is_active (if bt_id x = bt_id t \<and> bt_status x = bt_loaded t then ended_columns t x else x)" for x
      using that ends by (auto simp: ends_row_def is_active_def turn_has_ended_iff split: if_splits)
  qed
  ultimately show ?thesis using fin by simp
qed

definition one_fewer :: "bot_system \<Rightarrow> nat \<Rightarrow> bool" where
  "one_fewer S n \<longleftrightarrow>
     (\<exists>as. length as \<le> n \<and> list_all worker_step as \<and> active_count (bot_run as S) < active_count S)"

lemma one_fewer_now: "worker_step a \<Longrightarrow> active_count (bot_apply a S) < active_count S \<Longrightarrow> one_fewer S 1"
  unfolding one_fewer_def by (rule exI [of _ "[a]"]) (simp add: bot_run_def)

lemma one_fewer_then:
  assumes "worker_step a" "one_fewer (bot_apply a S) n" "active_count (bot_apply a S) = active_count S"
  shows "one_fewer S (Suc n)"
proof -
  obtain as where "length as \<le> n" "list_all worker_step as" "active_count (bot_run as (bot_apply a S)) < active_count S"
    using assms(2,3) unfolding one_fewer_def by auto
  then show ?thesis
    unfolding one_fewer_def using assms(1) by (intro exI [of _ "a # as"]) (simp add: bot_run_def)
qed

lemma one_fewer_mono: "one_fewer S n \<Longrightarrow> n \<le> m \<Longrightarrow> one_fewer S m"
  unfolding one_fewer_def using le_trans by blast

lemma working_ends:
  assumes inv: "system_inv S" and k: "k < length (sys_workers S)" "sys_workers S ! k = (tid, Working e)"
    and r: "r \<in> set (st_turns (sys_store S))" "bt_id r = tid" "bt_status r = Bot_running"
  shows "one_fewer S 1"
proof (rule one_fewer_now [of "Act_end k End_completed 0 no_outcome"])
  have e: "entity_fits (set (sys_used S)) (st_turns (sys_store S)) e" "bt_id e = tid" "bt_status e = Bot_running"
    using worker_nth_fits [OF inv k] by (simp_all add: worker_fits_def)
  obtain e' where e': "end_bot_turn End_completed 0 no_outcome e = Inr e'"
    using e(3) by (simp add: end_bot_turn_def turn_has_ended_iff)
  note ends = ends_row_of [OF e(1) e']
  have "length (filter is_active (st_turns (snd (finish_turn 0 e' (sys_store S))))) < active_count S"
    unfolding active_count_def
    by (rule finish_fewer [OF ends(1) store_rows [OF system_store [OF inv]] r(1)]) (simp_all add: ends(2,3) e r)
  then show "active_count (bot_apply (Act_end k End_completed 0 no_outcome) S) < active_count S"
    using k e' by (simp add: bot_apply_def Let_def active_count_def)
qed simp

lemma loaded_running_ends:
  assumes inv: "system_inv S" and k: "k < length (sys_workers S)" "sys_workers S ! k = (tid, Loaded e)"
    and run: "bt_status e = Bot_running"
    and r: "r \<in> set (st_turns (sys_store S))" "bt_id r = tid" "bt_status r = Bot_running"
  shows "one_fewer S 1"
proof (rule one_fewer_now [of "Act_claim k 0"])
  have e: "entity_fits (set (sys_used S)) (st_turns (sys_store S)) e" "bt_id e = tid"
    using worker_nth_fits [OF inv k] by (simp_all add: worker_fits_def)
  obtain e' where e': "abandon_bot_turn 0 e = Inr e'"
    using run by (simp add: abandon_bot_turn_def end_bot_turn_def turn_has_ended_iff)
  note ends = ends_row_of [OF e(1) e' [unfolded abandon_bot_turn_def]]
  have "length (filter is_active (st_turns (snd (finish_turn 0 e' (sys_store S))))) < active_count S"
    unfolding active_count_def
    by (rule finish_fewer [OF ends(1) store_rows [OF system_store [OF inv]] r(1)]) (simp_all add: ends(2,3) e r run)
  then show "active_count (bot_apply (Act_claim k 0) S) < active_count S"
    using k e' run by (simp add: bot_apply_def Let_def worker_claims_def active_count_def)
qed simp

lemma loaded_queued_ends:
  assumes inv: "system_inv S" and k: "k < length (sys_workers S)" "sys_workers S ! k = (tid, Loaded e)"
    and queued: "bt_status e = Bot_queued"
    and r: "r \<in> set (st_turns (sys_store S))" "bt_id r = tid" "bt_status r = Bot_queued"
    and idle: "\<And>u. u \<in> set (st_turns (sys_store S)) \<Longrightarrow> of_bot (bt_organization r) (bt_bot r) u \<Longrightarrow> bt_status u \<noteq> Bot_running"
  shows "one_fewer S 2"
proof -
  let ?s = "sys_store S" and ?a = "Act_claim k 0"
  note store = system_store [OF inv]
  have e: "entity_fits (set (sys_used S)) (st_turns ?s) e" "bt_id e = tid"
    using worker_nth_fits [OF inv k] by (simp_all add: worker_fits_def)
  obtain e' where e': "start_bot_turn 0 e = Inr e'" using queued by (auto simp: start_bot_turn_def)
  note start = started_row [OF e(1) e']
  have e'_id: "bt_id e' = tid" using start(2) e(2) by simp
  have e'_st: "bt_status e' = Bot_running" "bt_loaded e' = Bot_queued" using start(1) by (simp_all add: starts_row_def)
  obtain oc e'' s' where claim: "claim_turn e' ?s = (oc, e'', s')" using prod_cases3 by blast
  have claimed: "oc = Claim_claimed \<and> s' = ?s\<lparr>st_turns := claimed_rows e' (st_turns ?s)\<rparr>"
    using claim
  proof (cases rule: claim_turn_steps)
    case lost
    then show ?thesis using only_hit [OF store_rows [OF store] lost(4) r(1)] r e'_id e'_st by simp
  next
    case (busy x u)
    have x: "x = r" using same_row [OF store_rows [OF store] busy(4) r(1)] busy(5) r(2) e'_id by simp
    have "bt_organization u = bt_organization r" using same_bot_organization [OF store r(1) busy(6)] busy(7) x by simp
    then show ?thesis using idle [OF busy(6)] busy(7,8) x by (simp add: of_bot_def)
  next
    case (claimed x) then show ?thesis by simp
  qed
  have step: "bot_apply ?a S = S\<lparr>sys_store := s', sys_workers := (sys_workers S)[k := (tid, Working e'')]\<rparr>"
    using k queued e' claim claimed by (simp add: bot_apply_def Let_def worker_claims_def)
  have "one_fewer (bot_apply ?a S) 1"
  proof (rule working_ends [OF bot_apply_inv [OF inv], of k])
    show "k < length (sys_workers (bot_apply ?a S))" "sys_workers (bot_apply ?a S) ! k = (tid, Working e'')"
      using k(1) by (simp_all add: step)
    let ?r = "r\<lparr>bt_status := bt_status e', bt_started := bt_started e'\<rparr>"
    show "?r \<in> set (st_turns (sys_store (bot_apply ?a S)))"
      using claimed r e'_id e'_st by (auto simp: step claimed_rows_def)
    show "bt_id ?r = tid" "bt_status ?r = Bot_running" using r e'_st by simp_all
  qed
  moreover have "active_count (bot_apply ?a S) = active_count S"
  proof -
    have "map is_active (claimed_rows e' (st_turns ?s)) = map is_active (st_turns ?s)"
      using e'_st by (auto simp: claimed_rows_def is_active_def)
    then have "length (filter is_active (claimed_rows e' (st_turns ?s))) = length (filter is_active (st_turns ?s))"
      by (metis (no_types, lifting) filter_map length_map id_comp)
    then show ?thesis using claimed by (simp add: active_count_def step)
  qed
  ultimately show ?thesis using one_fewer_then [of ?a S 1] by (simp add: numeral_2_eq_2)
qed

text \<open>The row a job is for, taken.\<close>

lemma take_step:
  assumes inv: "system_inv S" and job: "tid \<in> run_jobs (sys_store S)" and r: "r \<in> set (st_turns (sys_store S))" "bt_id r = tid"
  obtains k where "sys_workers (bot_apply (Act_take k) S) = sys_workers S @ [(tid, Loaded (bot_turn_of r))]"
    "st_turns (sys_store (bot_apply (Act_take k) S)) = st_turns (sys_store S)"
proof -
  obtain k where k: "k < length (st_jobs (sys_store S))" "st_jobs (sys_store S) ! k = Run_bot_turn tid"
    using job by (auto simp: run_jobs_def in_set_conv_nth)
  have "find_turn tid (sys_store S) \<noteq> None"
    using r by (auto simp: find_turn_def find_None_iff)
  then obtain x where x: "find_turn tid (sys_store S) = Some x" by blast
  have "x = r" using find_turn_mem [OF x] same_row [OF store_rows [OF system_store [OF inv]] _ r(1)] r(2) by simp
  then show thesis using that [of k] k x by (simp add: bot_apply_def Let_def)
qed

lemma running_ends:
  assumes inv: "system_inv S" and moving: "moving S"
    and r: "r \<in> set (st_turns (sys_store S))" "bt_status r = Bot_running"
  shows "one_fewer S 3"
proof -
  have "bt_id r \<in> held_turns (sys_store S) (sys_workers S)"
    using moving r unfolding moving_def runs_held_def by blast
  then consider "bt_id r \<in> run_jobs (sys_store S)" | w where "w \<in> set (sys_workers S)" "bt_id r \<in> worker_holds w"
    unfolding held_turns_def by blast
  then show ?thesis
  proof cases
    case 1
    obtain k where taken: "sys_workers (bot_apply (Act_take k) S) = sys_workers S @ [(bt_id r, Loaded (bot_turn_of r))]"
      "st_turns (sys_store (bot_apply (Act_take k) S)) = st_turns (sys_store S)"
      using take_step [OF inv 1 r(1) refl] by blast
    have "one_fewer (bot_apply (Act_take k) S) 1"
      by (rule loaded_running_ends [OF bot_apply_inv [OF inv], of "length (sys_workers S)" _ "bt_id r" "bot_turn_of r" r])
        (use r in \<open>simp_all add: taken\<close>)
    then have "one_fewer S (Suc 1)"
      by (rule one_fewer_then [rotated]) (simp_all add: active_count_def taken)
    then show ?thesis by (rule one_fewer_mono) simp
  next
    case (2 w)
    obtain k where k: "k < length (sys_workers S)" "sys_workers S ! k = w" using 2(1) by (auto simp: in_set_conv_nth)
    obtain tid phase where w: "w = (tid, phase)" by force
    have tid: "bt_id r = tid" using 2(2) w by (cases phase) (auto simp: worker_holds_def split: if_splits)
    have "one_fewer S 1"
    proof (cases phase)
      case (Loaded e)
      then have "bt_status e = Bot_running" using 2(2) w by (auto simp: worker_holds_def split: if_splits)
      then show ?thesis using loaded_running_ends [OF inv k(1) _ _ r(1) tid r(2)] k(2) w Loaded by simp
    next
      case (Working e)
      then show ?thesis using working_ends [OF inv k(1) _ r(1) tid r(2)] k(2) w by simp
    qed
    then show ?thesis by (rule one_fewer_mono) simp
  qed
qed

lemma due_ends:
  assumes inv: "system_inv S"
    and r: "r \<in> set (st_turns (sys_store S))" "bt_status r = Bot_queued" "bt_id r \<in> due_turns (sys_store S) (sys_workers S)"
    and idle: "\<And>u. u \<in> set (st_turns (sys_store S)) \<Longrightarrow> of_bot (bt_organization r) (bt_bot r) u \<Longrightarrow> bt_status u \<noteq> Bot_running"
  shows "one_fewer S 3"
proof -
  consider "bt_id r \<in> run_jobs (sys_store S)" | w where "w \<in> set (sys_workers S)" "bt_id r \<in> worker_due w"
    using r(3) unfolding due_turns_def by blast
  then show ?thesis
  proof cases
    case 1
    obtain k where taken: "sys_workers (bot_apply (Act_take k) S) = sys_workers S @ [(bt_id r, Loaded (bot_turn_of r))]"
      "st_turns (sys_store (bot_apply (Act_take k) S)) = st_turns (sys_store S)"
      using take_step [OF inv 1 r(1) refl] by blast
    have "one_fewer (bot_apply (Act_take k) S) 2"
      by (rule loaded_queued_ends [OF bot_apply_inv [OF inv], of "length (sys_workers S)" _ "bt_id r" "bot_turn_of r" r])
        (use r idle in \<open>simp_all add: taken\<close>)
    then have "one_fewer S (Suc 2)"
      by (rule one_fewer_then [rotated]) (simp_all add: active_count_def taken)
    then show ?thesis by (rule one_fewer_mono) simp
  next
    case (2 w)
    obtain k where k: "k < length (sys_workers S)" "sys_workers S ! k = w" using 2(1) by (auto simp: in_set_conv_nth)
    obtain tid e where w: "w = (tid, Loaded e)" "bt_status e = Bot_queued" "bt_id r = tid"
      using 2(2) by (cases w; cases "snd w") (auto simp: worker_due_def split: if_splits)
    have "one_fewer S 2"
      using loaded_queued_ends [OF inv k(1) _ w(2) r(1) w(3) r(2) idle] k(2) w(1) by simp
    then show ?thesis by (rule one_fewer_mono) simp
  qed
qed

lemma active_one_fewer:
  assumes inv: "system_inv S" and moving: "moving S" and some: "active_count S \<noteq> 0"
  shows "one_fewer S 3"
proof -
  obtain t where t: "t \<in> set (st_turns (sys_store S))" "bt_status t = Bot_queued \<or> bt_status t = Bot_running"
    using some unfolding active_count_def is_active_def by (auto simp: filter_empty_conv)
  show ?thesis
  proof (cases "\<exists>r \<in> set (st_turns (sys_store S)). bt_status r = Bot_running")
    case True then show ?thesis using running_ends [OF inv moving] by blast
  next
    case False
    then have "bt_status t = Bot_queued" using t by blast
    then obtain r where "r \<in> set (st_turns (sys_store S))" "bt_status r = Bot_queued"
      "bt_id r \<in> due_turns (sys_store S) (sys_workers S)"
      using moving t(1) False unfolding moving_def none_stuck_def served_def by blast
    then show ?thesis using due_ends [OF inv] False by blast
  qed
qed

lemma worker_step_live: "worker_step a \<Longrightarrow> live_action a S"
  by (cases a) (simp_all add: live_action_def)

lemma worker_steps_live: "list_all worker_step as \<Longrightarrow> steers_live as S"
  by (induction as arbitrary: S) (simp_all add: worker_step_live)

interpretation draining_bots: draining_system bot_apply system_inv live_action steers_live moving worker_step active_count 3
proof unfold_locales
  show "list_all worker_step as \<Longrightarrow> steers_live as S" for as S by (rule worker_steps_live)
  show "\<exists>as. length as \<le> 3 \<and> list_all worker_step as \<and> active_count (fold bot_apply as S) < active_count S"
    if "system_inv S" "moving S" "active_count S \<noteq> 0" for S
    using active_one_fewer [OF that] unfolding one_fewer_def bot_run_def .
qed

end
