(* ===== verification/Bot_Examples.thy ===== *)
theory Bot_Examples
  imports Bot_Drain
begin

section \<open>Runs of the system of bots\<close>

text \<open>Concrete runs the properties are instantiated at.\<close>

definition demo_pick :: "string \<Rightarrow> bot_engine_pick" where
  "demo_pick bid = \<lparr>pick_bot = bid, pick_provider = Provider_anthropic, pick_model = ''m'', pick_effort = None\<rparr>"

definition demo_message :: "string \<Rightarrow> string \<Rightarrow> bool \<Rightarrow> send_args" where
  "demo_message bid content steer =
     \<lparr>sa_organization = ''org'', sa_bot = bid, sa_user = ''ana'', sa_provider = Provider_anthropic,
      sa_model = ''m'', sa_effort = None, sa_content = content, sa_attachments = [], sa_time_zone = None,
      sa_scopes = Some [], sa_steer = steer\<rparr>"

text \<open>Bot \<open>b1\<close> is sent a message, runs it and asks bot \<open>b2\<close>, whose turn waits.\<close>

definition asking_run :: "bot_action list" where
  "asking_run =
     [Act_create_bot ''org'' ''b1'', Act_create_bot ''org'' ''b2'',
      Act_send ''t1'' ''m1'' ''s1'' 0 (demo_message ''b1'' ''hi'' False),
      Act_take 0, Act_claim 0 1, Act_load ''t1'',
      Act_peer 0 ''t2'' ''m2'' 2 (demo_pick ''b2'') True ''help'']"

text \<open>A goal is set by a message, and its first continuation is queued.\<close>

definition goal_run :: "bot_action list" where
  "goal_run =
     [Act_create_bot ''org'' ''b1'',
      Act_send ''t1'' ''m1'' ''g1'' 0 (demo_message ''b1'' ''/goal ship it'' False),
      Act_take 0, Act_claim 0 1, Act_end 0 End_completed 2 no_outcome, Act_load ''t1'', Act_load_goal ''org'' ''b1'',
      Act_continue 0 0 ''t2'' ''m2'' 3 (Some (''ana'', demo_pick ''b1'')) None]"

text \<open>
  A bot with two messages waiting: the second is stopped before the worker has taken the first's
  job. Two workers then hold jobs of the first.
\<close>

definition stopping_run :: "bot_action list" where
  "stopping_run =
     [Act_create_bot ''org'' ''b1'',
      Act_send ''t1'' ''m1'' ''s1'' 0 (demo_message ''b1'' ''hi'' False),
      Act_send ''t2'' ''m2'' ''s2'' 1 (demo_message ''b1'' ''and this'' False),
      Act_load ''t2'', Act_finish 0 End_cancelled 2 no_outcome,
      Act_take 0, Act_claim 0 3,
      Act_take 0, Act_claim 1 4]"

text \<open>
  As above, with two more messages sent while the first runs, the earlier a steer. Its second worker
  fails the turn, so the steer is due; the first worker, still at it, takes the steer.
\<close>

definition stranding_run :: "bot_action list" where
  "stranding_run =
     [Act_create_bot ''org'' ''b1'',
      Act_send ''t1'' ''m1'' ''s1'' 0 (demo_message ''b1'' ''hi'' False),
      Act_send ''t2'' ''m2'' ''s2'' 1 (demo_message ''b1'' ''and this'' False),
      Act_load ''t2'', Act_finish 0 End_cancelled 2 no_outcome,
      Act_take 0, Act_claim 0 3,
      Act_send ''t3'' ''m3'' ''s3'' 4 (demo_message ''b1'' ''also this'' True),
      Act_send ''t4'' ''m4'' ''s4'' 5 (demo_message ''b1'' ''then that'' False),
      Act_take 0, Act_claim 1 6,
      Act_steer 0 7, Act_take 0, Act_end 0 End_completed 8 no_outcome]"

end
