(* ===== verification/Bot_Properties.thy ===== *)
theory Bot_Properties
  imports Bot_Examples
begin

section \<open>What the bots promise\<close>

text \<open>
  The properties of the bots' turns, over every list of actions of the system: sends, wakes, asks,
  answers, goals, loops, workers that take, claim, steer, end and die, stops, and deletes.
\<close>

abbreviation turns_after :: "bot_action list \<Rightarrow> bot_turn list" where
  "turns_after as \<equiv> st_turns (sys_store (bot_run as empty_system))"

lemma reachable_turns:
  obtains used bots where "turns_inv used bots (turns_after as)"
  using system_store [OF reachable_inv [of as]] unfolding store_inv_def by blast

lemma distinct_map_filter_iff:
  assumes "distinct (map bt_id ts)"
    and "\<And>t u. t \<in> set ts \<Longrightarrow> u \<in> set ts \<Longrightarrow> P t \<Longrightarrow> P u \<Longrightarrow> f t = f u \<Longrightarrow> bt_id t = bt_id u"
  shows "distinct (map f (filter P ts))"
proof -
  have "distinct (filter P ts)" using assms(1) by (simp add: distinct_map)
  moreover have "inj_on f (set (filter P ts))"
    by (rule inj_onI) (use assms(2) same_row [OF assms(1)] in auto)
  ultimately show ?thesis by (simp add: distinct_map)
qed

text \<open>C8: However messages, asks, answers, steers, deletes and dying workers interleave, no turn in the
  table is ever more than three bots away from the person, and at every moment the table holds at
  most ten of the messages bots sent each other because of one message of a person. The messages ever
  sent in such a chain are at most ten more than those that clearing a conversation or deleting a bot
  took out of the table: nothing else makes room for another, so without a delete they are ten at
  most.
\<close>

theorem chains_stay_bounded:
  "list_all (\<lambda>t. 0 \<le> bt_depth t \<and> bt_depth t \<le> 3) (turns_after as) \<and>
   length (filter (is_ask org chain) (turns_after as)) \<le> 10 \<and>
   asks_sent org chain as empty_system \<le> 10 + asks_deleted org chain as empty_system"
proof -
  obtain used bots where "turns_inv used bots (turns_after as)" by (rule reachable_turns)
  then have bounded: "bounded_chains (turns_after as)" by (simp add: turns_inv_def)
  then have ten: "length (filter (is_ask org chain) (turns_after as)) \<le> 10"
    unfolding bounded_chains_def by (simp add: bot_chain_limits_def)
  have "asks_sent org chain as empty_system \<le>
      length (filter (is_ask org chain) (turns_after as)) + asks_deleted org chain as empty_system"
    using asks_run [OF empty_system_inv, of org chain as] by (simp add: no_ask_steers_def turns_of_def empty_system_def empty_store_def)
  then have "asks_sent org chain as empty_system \<le> 10 + asks_deleted org chain as empty_system" using ten by linarith
  then show ?thesis using bounded ten by (simp add: bounded_chains_def bot_chain_limits_def list_all_iff)
qed

text \<open>C6: At every moment a bot runs at most one turn, one source key queued at most one turn of a bot,
  and an ask has at most one answer.
\<close>

theorem a_bot_runs_one_turn_at_a_time:
  "distinct (map bt_bot (filter (\<lambda>t. bt_status t = Bot_running) (turns_after as))) \<and>
   distinct (map (\<lambda>t. (bt_bot t, bt_source_key t)) (filter (\<lambda>t. bt_source_key t \<noteq> None) (turns_after as))) \<and>
   distinct (map (\<lambda>t. (bt_organization t, bt_answers t)) (filter (\<lambda>t. bt_answers t \<noteq> None) (turns_after as)))"
proof -
  obtain used bots where inv: "turns_inv used bots (turns_after as)" by (rule reachable_turns)
  then have rows: "distinct (map bt_id (turns_after as))"
    and one: "one_running (turns_after as)" and unique: "unique_turns (turns_after as)"
    by (simp_all add: turns_inv_def keyed_turns_def)
  show ?thesis
  proof (intro conjI)
    show "distinct (map bt_bot (filter (\<lambda>t. bt_status t = Bot_running) (turns_after as)))"
      by (rule distinct_map_filter_iff [OF rows]) (use one in \<open>unfold one_running_def, blast\<close>)
    show "distinct (map (\<lambda>t. (bt_bot t, bt_source_key t)) (filter (\<lambda>t. bt_source_key t \<noteq> None) (turns_after as)))"
      by (rule distinct_map_filter_iff [OF rows]) (use unique in \<open>unfold unique_turns_def, blast\<close>)
    show "distinct (map (\<lambda>t. (bt_organization t, bt_answers t)) (filter (\<lambda>t. bt_answers t \<noteq> None) (turns_after as)))"
      by (rule distinct_map_filter_iff [OF rows]) (use unique in \<open>unfold unique_turns_def, blast\<close>)
  qed
qed

text \<open>C9: A turn another bot's turn caused, through however many asks and answers, reaches exactly what
  the message of the person it all came from may reach: its credential scopes are the first turn's.
\<close>

theorem a_chain_keeps_its_reach:
  assumes "find_turn tid (sys_store (bot_run as empty_system)) = Some t" "bt_chain t = Some c"
    "find_turn c (sys_store (bot_run as empty_system)) = Some r"
  shows "bt_scopes t = bt_scopes r"
proof -
  obtain used bots where "turns_inv used bots (turns_after as)" by (rule reachable_turns)
  then have "one_reach (turns_after as)" by (simp add: turns_inv_def)
  then show ?thesis
    using find_turn_mem [OF assms(1)] find_turn_mem [OF assms(3)] assms(2) unfolding one_reach_def by blast
qed

lemma asking_run_rows:
  "map_option (\<lambda>t. (bt_chain t, bt_scopes t)) (find_turn ''t2'' (sys_store (bot_run asking_run empty_system))) =
     Some (Some ''t1'', Some [])"
  "map_option bt_scopes (find_turn ''t1'' (sys_store (bot_run asking_run empty_system))) = Some (Some [])"
  by code_simp+

theorem a_chain_keeps_its_reach_witness:
  "\<exists>t r. find_turn ''t2'' (sys_store (bot_run asking_run empty_system)) = Some t \<and> bt_chain t = Some ''t1'' \<and>
     find_turn ''t1'' (sys_store (bot_run asking_run empty_system)) = Some r \<and> bt_scopes t = bt_scopes r"
proof -
  obtain t r where t: "find_turn ''t2'' (sys_store (bot_run asking_run empty_system)) = Some t" "bt_chain t = Some ''t1''"
    and r: "find_turn ''t1'' (sys_store (bot_run asking_run empty_system)) = Some r"
    using asking_run_rows by auto
  then show ?thesis using a_chain_keeps_its_reach [OF t r] by blast
qed

text \<open>C7: No bot's queue stops. While every steer is taken by a turn that still runs in the table, a bot
  with a queued turn has a turn that runs and that a worker or a job answers for, or a queued turn
  that is due: its job waits, or a worker is about to claim it.
\<close>

theorem no_queue_stops:
  assumes "steers_live as empty_system" "S = bot_run as empty_system"
    and "t \<in> set (st_turns (sys_store S))" "bt_status t = Bot_queued"
  shows "\<exists>u \<in> set (st_turns (sys_store S)). of_bot (bt_organization t) (bt_bot t) u \<and>
    (bt_status u = Bot_running \<and> bt_id u \<in> held_turns (sys_store S) (sys_workers S) \<or>
     bt_status u = Bot_queued \<and> bt_id u \<in> due_turns (sys_store S) (sys_workers S))"
proof -
  have "moving S" unfolding assms(2) by (rule reachable_moving [OF assms(1)])
  then show ?thesis
    using assms(3,4) unfolding moving_def none_stuck_def served_def runs_held_def by meson
qed

lemma asking_run_live: "steers_live asking_run empty_system"
  by code_simp

theorem no_queue_stops_witness:
  "\<exists>t \<in> set (turns_after asking_run). bt_status t = Bot_queued \<and>
     (\<exists>u \<in> set (turns_after asking_run). of_bot (bt_organization t) (bt_bot t) u)"
proof -
  have "list_ex (\<lambda>t. bt_status t = Bot_queued) (turns_after asking_run)" by code_simp
  then obtain t where t: "t \<in> set (turns_after asking_run)" "bt_status t = Bot_queued" by (auto simp: list_ex_iff)
  then show ?thesis using no_queue_stops [OF asking_run_live refl t] by blast
qed

text \<open>C11: The workers come to an end. From every state such a run reaches, steps of workers alone (taking
  a job, claiming its turn, ending it) leave no turn queued or running, at most three of them for
  each turn there was.
\<close>

theorem workers_finish_every_turn:
  assumes "steers_live as empty_system"
  shows "\<exists>ws. length ws \<le> 3 * length (filter is_active (turns_after as)) \<and> list_all worker_step ws \<and>
    \<not> list_ex is_active (turns_after (as @ ws))"
proof -
  obtain ws where "length ws \<le> 3 * active_count (bot_run as empty_system)" "list_all worker_step ws"
    "active_count (fold bot_apply ws (bot_run as empty_system)) = 0"
    using draining_bots.drains [OF reachable_inv reachable_moving [OF assms]] by blast
  then show ?thesis
    by (intro exI [of _ ws]) (auto simp: active_count_def bot_run_append bot_run_def filter_empty_conv list_ex_iff)
qed

theorem workers_finish_every_turn_witness:
  "\<exists>ws. length ws \<le> 6 \<and> list_all worker_step ws \<and> \<not> list_ex is_active (turns_after (asking_run @ ws))"
proof -
  have "3 * length (filter is_active (turns_after asking_run)) = 6" by code_simp
  then show ?thesis using workers_finish_every_turn [OF asking_run_live] by simp
qed

text \<open>C10: An ended turn is final: whatever happens later, while its row exists it keeps its status, its
  times, its error, its tokens and its context, and says the same of who it is and what caused it.
\<close>

theorem an_ended_turn_is_final:
  assumes "find_turn tid (sys_store (bot_run as empty_system)) = Some t" "turn_has_ended t"
    and "find_turn tid (sys_store (bot_run (as @ later) empty_system)) = Some t'"
  shows "turn_result t' = turn_result t \<and> turn_identity t' = turn_identity t"
proof -
  let ?S = "bot_run as empty_system"
  have inv: "system_inv ?S" by (rule reachable_inv)
  then have "goes_to ?S (bot_run later ?S)" unfolding bot_run_def by (rule bots.run_goes)
  then have follow: "rows_follow (set (sys_used ?S)) (turns_after as) (turns_after (as @ later))"
    by (simp add: goes_to_def bot_run_append)
  have t: "t \<in> set (turns_after as)" "bt_id t = tid" and t': "t' \<in> set (turns_after (as @ later))" "bt_id t' = tid"
    using find_turn_mem [OF assms(1)] find_turn_mem [OF assms(3)] by simp_all
  have "bt_id t \<in> set (sys_used ?S)"
    using system_store [OF inv] t(1) by (simp add: store_inv_def turns_inv_def keyed_turns_def)
  then obtain u where u: "u \<in> set (turns_after as)" "turn_identity t' = turn_identity u"
    "turn_has_ended u \<longrightarrow> turn_result t' = turn_result u"
    using follow t' t(2) unfolding rows_follow_def by metis
  have "u = t"
    using same_row [OF store_rows [OF system_store [OF inv]] u(1) t(1)] turn_identity_eq(1) [OF u(2)] t(2) t'(2) by simp
  then show ?thesis using u assms(2) by simp
qed

lemma goal_run_rows:
  "map_option turn_has_ended (find_turn ''t1'' (sys_store (bot_run goal_run empty_system))) = Some True"
  "map_option bt_status (find_turn ''t1'' (sys_store (bot_run (goal_run @ [Act_delete_account ''ana'']) empty_system))) =
     Some Bot_completed"
  by code_simp+

theorem an_ended_turn_is_final_witness:
  "\<exists>t t'. find_turn ''t1'' (sys_store (bot_run goal_run empty_system)) = Some t \<and> turn_has_ended t \<and>
     find_turn ''t1'' (sys_store (bot_run (goal_run @ [Act_delete_account ''ana'']) empty_system)) = Some t' \<and>
     turn_result t' = turn_result t"
proof -
  obtain t t' where t: "find_turn ''t1'' (sys_store (bot_run goal_run empty_system)) = Some t" "turn_has_ended t"
    and t': "find_turn ''t1'' (sys_store (bot_run (goal_run @ [Act_delete_account ''ana'']) empty_system)) = Some t'"
    using goal_run_rows by auto
  then show ?thesis using an_ended_turn_is_final [OF t t'] by blast
qed

subsection \<open>Going on by itself\<close>

lemma digits_of_no_colon: "CHR '':'' \<notin> set (digits_of n)"
proof (induction n rule: digits_of.induct)
  case (1 n)
  have digit: "char_of (48 + d) \<noteq> CHR '':''" if "d < 10" for d :: nat
  proof
    assume "char_of (48 + d) = CHR '':''"
    then have "of_char (char_of (48 + d) :: char) = (of_char (CHR '':'') :: nat)" by simp
    then show False using that by simp
  qed
  show ?case using 1 digit [of n] digit [of "n mod 10"] by (subst digits_of.simps) auto
qed

lemma string_of_int_no_colon: "CHR '':'' \<notin> set (string_of_int i)"
  using digits_of_no_colon by (simp add: string_of_int_def)

text \<open>What follows the last colon.\<close>

lemma key_step:
  "takeWhile (\<lambda>c. c \<noteq> CHR '':'') (rev (goal_source_key gid n)) = rev (string_of_int n)"
proof -
  have "rev (goal_source_key gid n) = rev (string_of_int n) @ CHR '':'' # rev (goal_key_word @ gid)"
    by (simp add: goal_source_key_def goal_key_prefix_def)
  moreover have "takeWhile (\<lambda>c. c \<noteq> CHR '':'') (rev (string_of_int n) @ CHR '':'' # xs) = rev (string_of_int n)" for xs
    using string_of_int_no_colon [of n] by (subst takeWhile_append2) auto
  ultimately show ?thesis by simp
qed

lemma goal_key_steps:
  assumes "goal_step_key (Some (goal_source_key gid n))"
  shows "goal_source_key gid n \<in> goal_source_key gid ` {1..20}"
proof -
  have "starts_with (Some (goal_source_key gid n)) goal_key_word"
    by (simp add: starts_with_def goal_source_key_def goal_key_prefix_def)
  then obtain h m where m: "goal_source_key gid n = goal_source_key h m" "1 \<le> m" "m \<le> 20"
    using assms by (auto simp: goal_step_key_def bot_goal_continuations_max_def)
  have "string_of_int n = string_of_int m"
    using key_step [of gid n] key_step [of h m] m(1) by simp
  then have "goal_source_key gid n = goal_source_key gid m" by (simp add: goal_source_key_def)
  then show ?thesis using m(2,3) by simp
qed

text \<open>A goal queues at most twenty continuations, however its decisions, their retries and the
  deletes of its turns interleave: of any bot, never more turns than that stand under one goal's keys.
\<close>

theorem a_goal_queues_at_most_twenty:
  "length (filter (\<lambda>t. bt_bot t = bid \<and> (\<exists>n. bt_source_key t = Some (goal_source_key gid n))) (turns_after as)) \<le> 20"
proof -
  let ?P = "\<lambda>t. bt_bot t = bid \<and> (\<exists>n. bt_source_key t = Some (goal_source_key gid n))"
  let ?own = "filter ?P (turns_after as)"
  obtain used bots where inv: "turns_inv used bots (turns_after as)" by (rule reachable_turns)
  then have rows: "distinct (map bt_id (turns_after as))" and unique: "unique_turns (turns_after as)"
    and keys: "goal_keys (turns_after as)"
    by (simp_all add: turns_inv_def keyed_turns_def)
  have "distinct (map bt_source_key ?own)"
  proof (rule distinct_map_filter_iff [OF rows])
    fix t u assume t: "t \<in> set (turns_after as)" "?P t" and u: "u \<in> set (turns_after as)" "?P u"
      and same: "bt_source_key t = bt_source_key u"
    have "bt_bot t = bt_bot u" "bt_source_key t \<noteq> None" using t(2) u(2) by auto
    then show "bt_id t = bt_id u" using unique t(1) u(1) same unfolding unique_turns_def by blast
  qed
  then have "length ?own = card (bt_source_key ` set ?own)"
    using distinct_card [of "map bt_source_key ?own"] by simp
  also have "\<dots> \<le> card ((\<lambda>n. Some (goal_source_key gid n)) ` {1..20})"
  proof (intro card_mono)
    show "bt_source_key ` set ?own \<subseteq> (\<lambda>n. Some (goal_source_key gid n)) ` {1..20}"
    proof
      fix key assume "key \<in> bt_source_key ` set ?own"
      then obtain t n where t: "t \<in> set (turns_after as)" "key = bt_source_key t" "bt_source_key t = Some (goal_source_key gid n)"
        by auto
      have "goal_step_key (bt_source_key t)" using keys t(1) unfolding goal_keys_def by blast
      then have "goal_source_key gid n \<in> goal_source_key gid ` {1..20}"
        using goal_key_steps [of gid n] t(3) by simp
      then show "key \<in> (\<lambda>n. Some (goal_source_key gid n)) ` {1..20}" using t(2,3) by auto
    qed
  qed simp
  also have "\<dots> \<le> card {1..20 :: int}" by (rule card_image_le) simp
  finally show ?thesis by simp
qed

text \<open>A loop on an interval keeps to its grid: its next run is the first slot later than now, counted
  in whole intervals from the run that was due, at least one interval after it, and never past the
  loop's end.
\<close>

theorem a_loop_keeps_to_its_grid:
  assumes "bl_interval l = Some m" "1 \<le> m" "bl_next l = Some due"
  shows "\<exists>k \<ge> 1. next_run_after l now = Some (min (due + k * (m * 60000)) (bl_expires l)) \<and>
    now < due + k * (m * 60000) \<and> (k = 1 \<or> due + (k - 1) * (m * 60000) \<le> now)"
proof -
  define period where "period = m * 60000"
  have pos: "0 < period" using assms(2) by (simp add: period_def)
  define k where "k = max 1 ((now - due) div period + 1)"
  have next_run: "next_run_after l now = Some (min (due + k * period) (bl_expires l))"
    using assms(1,3) by (simp add: next_run_after_def Let_def k_def period_def)
  have parts: "(now - due) div period * period + (now - due) mod period = now - due"
    "0 \<le> (now - due) mod period" "(now - due) mod period < period"
    using pos by simp_all
  have "now < due + ((now - due) div period + 1) * period"
    using parts unfolding distrib_right by linarith
  also have "\<dots> \<le> due + k * period" using pos by (simp add: k_def)
  finally have later: "now < due + k * period" .
  have first: "k = 1 \<or> due + (k - 1) * period \<le> now"
  proof (cases "k = 1")
    case False
    then have "(k - 1) * period = (now - due) div period * period" by (simp add: k_def)
    then show ?thesis using parts(1,2) by linarith
  qed simp
  show ?thesis
    using next_run later first unfolding period_def by (intro exI [of _ k]) (simp add: k_def)
qed

definition demo_loop :: bot_loop where
  "demo_loop =
     \<lparr>bl_id = ''l'', bl_organization = ''org'', bl_bot = ''b1'', bl_origin_turn = ''t1'', bl_prompt = ''check'',
      bl_interval = Some 5, bl_runs = 0, bl_next = Some 300000, bl_expires = 259200000, bl_scopes = None,
      bl_time_zone = None, bl_created = 0\<rparr>"

theorem a_loop_keeps_to_its_grid_witness:
  "\<exists>k \<ge> 1. next_run_after demo_loop 1000000 = Some (min (300000 + k * (5 * 60000)) 259200000) \<and>
    1000000 < 300000 + k * (5 * 60000)"
  using a_loop_keeps_to_its_grid [of demo_loop 5 300000 1000000] by (auto simp: demo_loop_def)

subsection \<open>What a person types\<close>

text \<open>Typing a skill's name runs that skill: a slash, any name a skill may be saved under, and any
  words, with whatever blanks, are read as a command of that name with those words, and no such
  message is a command the console keeps for itself.
\<close>

theorem typing_a_skill_runs_it:
  assumes "skill_name_ok typed"
  shows "parse_bot_slash_command (''/'' @ js_trim typed @ '' '' @ args) =
      Some \<lparr>slash_name = js_trim typed, slash_args = js_trim args\<rparr> \<and>
    refuse_console_command (''/'' @ js_trim typed @ '' '' @ args) = None"
proof -
  let ?n = "js_trim typed"
  have n: "slash_word ?n = Some (?n, [])" "?n \<notin> set bot_skill_reserved_names" "?n \<noteq> []"
    using assms by (auto simp: skill_name_ok_def Let_def)
  have chars: "\<forall>c \<in> set ?n. slash_name_char c" using slash_word_name(3) [OF n(1)] by (simp add: list_all_iff)
  have first: "hd ?n \<noteq> CHR ''-''" "length ?n \<le> bot_skill_name_max" using slash_word_name(2,4) [OF n(1)] by simp_all
  have solid: "\<forall>x \<in> set (CHR ''/'' # ?n). \<not> js_space x"
    using chars slash_name_char_solid by (auto simp: js_space_def)
  obtain rest where rest: "js_trim ((CHR ''/'' # ?n) @ CHR '' '' # args) = (CHR ''/'' # ?n) @ rest"
    "rest = [] \<or> js_space (hd rest)" "js_trim rest = js_trim args"
    using trimmed_word [OF _ solid, of args] by blast
  have stop: "rest = [] \<or> \<not> slash_name_char (hd rest)" using rest(2) slash_name_char_solid by blast
  have "takeWhile slash_name_char (?n @ rest) = ?n \<and> dropWhile slash_name_char (?n @ rest) = rest"
    using chars stop by (cases rest) (simp_all add: takeWhile_append2 dropWhile_append2)
  then have "slash_word (?n @ rest) = Some (?n, js_trim args)"
    using n(3) first rest(2,3) by (simp add: slash_word_def Let_def)
  moreover have "?n \<noteq> ''skill''" "?n \<noteq> ''goal''" "?n \<noteq> ''usage''" "?n \<noteq> ''loop''" "?n \<noteq> ''schedule''"
    using n(2) by (auto simp: bot_skill_reserved_names_def)
  moreover have "''/'' @ ?n @ '' '' @ args = (CHR ''/'' # ?n) @ CHR '' '' # args" by simp
  ultimately have parsed: "parse_bot_slash_command (''/'' @ ?n @ '' '' @ args) =
      Some \<lparr>slash_name = ?n, slash_args = js_trim args\<rparr>"
    using rest(1) by (simp add: parse_bot_slash_command_def)
  have "\<not> is_bot_console_command (Some \<lparr>slash_name = ?n, slash_args = js_trim args\<rparr>)"
    using \<open>?n \<noteq> ''goal''\<close> \<open>?n \<noteq> ''usage''\<close> \<open>?n \<noteq> ''loop''\<close> \<open>?n \<noteq> ''schedule''\<close>
    by (simp add: is_bot_console_command_def bot_schedule_command_of_def bot_loop_command_of_def bot_goal_command_of_def)
  then show ?thesis using parsed unfolding refuse_console_command_def parsed by simp
qed

theorem typing_a_skill_runs_it_witness:
  "parse_bot_slash_command ''/pr-review  this one '' = Some \<lparr>slash_name = ''pr-review'', slash_args = ''this one''\<rparr>"
proof -
  have ok: "skill_name_ok '' pr-review''" by code_simp
  have "js_trim '' pr-review'' = ''pr-review''" "js_trim '' this one '' = ''this one''" by code_simp+
  then show ?thesis using typing_a_skill_runs_it [OF ok, of "'' this one ''"] by simp
qed

subsection \<open>Two jobs for one turn\<close>

text \<open>Stopping a message that waits can fail another. With two messages queued, stopping the second
  stages the first again although its job still waits; the first worker takes it and runs it, and the
  second, finding it running, fails it as interrupted while its worker is at work. What that worker
  then ends with is lost.
\<close>

lemma stopping_a_waiting_message_fails_another:
  "map (\<lambda>t. (bt_id t, bt_status t, bt_failure t)) (turns_after stopping_run) =
     [(''t1'', Bot_failed, Some Fail_interrupted), (''t2'', Bot_cancelled, None)] \<and>
   map fst (sys_workers (bot_run stopping_run empty_system)) = [''t1''] \<and>
   turns_after (stopping_run @ [Act_end 0 End_completed 5 no_outcome]) = turns_after stopping_run"
  by code_simp

text \<open>
  That every steer is live has to be asked where no queue is said to stop: a worker whose turn was
  failed under it still takes steers, the one that was due included, and the message behind it stays
  queued with no job, no worker and no turn running, though each process did only what the code has
  it do.
\<close>

lemma a_late_steer_strands_a_message:
  "map (\<lambda>t. (bt_id t, bt_status t)) (turns_after stranding_run) =
     [(''t1'', Bot_failed), (''t2'', Bot_cancelled), (''t4'', Bot_queued)] \<and>
   st_jobs (sys_store (bot_run stranding_run empty_system)) = [] \<and>
   sys_workers (bot_run stranding_run empty_system) = [] \<and>
   \<not> steers_live stranding_run empty_system"
  by code_simp

end
