(* ===== verification/Bot_Permission.thy ===== *)
theory Bot_Permission
  imports Bot_Queue
begin

section \<open>What a bot's owner allows its tools\<close>

text \<open>
  \<^verbatim>\<open>bot-tool-permission.entity.ts\<close>, \<^verbatim>\<open>bot-tool-permission.policy.ts\<close>, \<^verbatim>\<open>bot-permission-rule.entity.ts\<close> and
  \<^verbatim>\<open>bot-rule-review.policy.ts\<close> (under \<^verbatim>\<open>apps/api/src/bots-chat/domain\<close>): the owner's decision for each
  tool, the standing grants on single things, the rules in plain words, and the verdict of the
  reviewer that reads a call against them.

  Three characters of these texts lie past 255, the ellipsis and the curly quotes. They stand at 133,
  147 and 148, where Windows-1252 has them; no text of the program holds those control characters.
\<close>

definition ellipsis :: char where
  "ellipsis = CHR 0x85"

definition curly_quoted :: "string \<Rightarrow> string" where
  "curly_quoted s = CHR 0x93 # s @ [CHR 0x94]"

subsection \<open>Vocabulary\<close>

datatype bot_preset = Preset_auto | Preset_full

datatype tool_choice = Choice_allow | Choice_ask | Choice_off

datatype rule_effect = Rule_allow | Rule_ask

datatype approval_reach = Reach_once | Reach_tool | Reach_subject

datatype card_decision =
    Card_approve | Card_approve_for_subject | Card_approve_always | Card_deny | Card_stop

record tool_subject =
  subject_kind :: string
  subject_key :: string
  subject_label :: string

definition subject_kind_max :: nat where
  "subject_kind_max = 32"

definition subject_text_max :: nat where
  "subject_text_max = 200"

definition fit_subject :: "tool_subject \<Rightarrow> tool_subject" where
  "fit_subject s =
     \<lparr>subject_kind = take subject_kind_max (subject_kind s), subject_key = take subject_text_max (subject_key s),
      subject_label = take subject_text_max (subject_label s)\<rparr>"

subsection \<open>The owner's settings\<close>

record tool_permission =
  tp_id :: string
  tp_organization :: string
  tp_bot :: string
  tp_tool :: string
  tp_decision :: tool_choice
  tp_subject :: "tool_subject option"
  tp_by :: "string option"
  tp_created :: date

definition tool_permission_problem :: "tool_permission \<Rightarrow> domain_error option" where
  "tool_permission_problem p =
     (let missing = (tp_organization p = [] \<or> tp_bot p = [] \<or> tp_tool p = [],
                     ArgumentNotProvided ''A tool permission names its bot and its tool'') in
      case tp_subject p of
        None \<Rightarrow> check_all [missing]
      | Some s \<Rightarrow> check_all
          [missing,
           (tp_decision p \<noteq> Choice_allow, ArgumentInvalid ''A grant for one thing only ever allows''),
           (subject_kind s = [] \<or> subject_key s = [] \<or> subject_label s = [] \<or>
              length (subject_kind s) > subject_kind_max \<or> length (subject_key s) > subject_text_max \<or>
              length (subject_label s) > subject_text_max,
            ArgumentInvalid ''A grant names what it covers, briefly'')])"

definition decide_tool ::
  "string \<Rightarrow> date \<Rightarrow> string \<Rightarrow> string \<Rightarrow> string \<Rightarrow> tool_choice \<Rightarrow> string option \<Rightarrow> domain_error + tool_permission" where
  "decide_tool uuid now org bid tool choice user =
     (let p = \<lparr>tp_id = uuid, tp_organization = org, tp_bot = bid, tp_tool = tool, tp_decision = choice,
               tp_subject = None, tp_by = user, tp_created = now\<rparr>
      in validated (tool_permission_problem p) p)"

definition grant_tool ::
  "string \<Rightarrow> date \<Rightarrow> string \<Rightarrow> string \<Rightarrow> string \<Rightarrow> tool_subject \<Rightarrow> string option \<Rightarrow> domain_error + tool_permission" where
  "grant_tool uuid now org bid tool subject user =
     (let p = \<lparr>tp_id = uuid, tp_organization = org, tp_bot = bid, tp_tool = tool, tp_decision = Choice_allow,
               tp_subject = Some subject, tp_by = user, tp_created = now\<rparr>
      in validated (tool_permission_problem p) p)"

subsection \<open>The rules in plain words\<close>

record permission_rule =
  pr_id :: string
  pr_organization :: string
  pr_bot :: string
  pr_effect :: rule_effect
  pr_text :: string
  pr_by :: "string option"
  pr_created :: date

definition bot_permission_rule_max :: nat where
  "bot_permission_rule_max = 280"

definition permission_rule_problem :: "permission_rule \<Rightarrow> domain_error option" where
  "permission_rule_problem r = check_all
     [(pr_organization r = [] \<or> pr_bot r = [], ArgumentNotProvided ''A rule names its bot''),
      (pr_text r = [] \<or> length (pr_text r) > bot_permission_rule_max,
       ArgumentInvalid (''A rule is a sentence of 1 to '' @ digits_of bot_permission_rule_max @ '' characters''))]"

definition write_rule ::
  "string \<Rightarrow> date \<Rightarrow> string \<Rightarrow> string \<Rightarrow> rule_effect \<Rightarrow> string \<Rightarrow> string option \<Rightarrow> domain_error + permission_rule" where
  "write_rule uuid now org bid effect text user =
     (let r = \<lparr>pr_id = uuid, pr_organization = org, pr_bot = bid, pr_effect = effect,
               pr_text = one_space False (js_trim text), pr_by = user, pr_created = now\<rparr>
      in validated (permission_rule_problem r) r)"

subsection \<open>Where a tool stands\<close>

record rule_words =
  ru_id :: string
  ru_effect :: rule_effect
  ru_text :: string

record bot_permissions =
  perm_decisions :: "string \<rightharpoonup> tool_choice"
  perm_grants :: "(string \<times> tool_subject) list"
  perm_rules :: "rule_words list"

definition no_permissions :: bot_permissions where
  "no_permissions = \<lparr>perm_decisions = Map.empty, perm_grants = [], perm_rules = []\<rparr>"

definition permissions_of :: "tool_permission list \<Rightarrow> permission_rule list \<Rightarrow> bot_permissions" where
  "permissions_of settings rules =
     \<lparr>perm_decisions =
        fold (\<lambda>p m. if tp_subject p = None then m(tp_tool p \<mapsto> tp_decision p) else m) settings Map.empty,
      perm_grants = map_filter_list (\<lambda>p. map_option (Pair (tp_tool p)) (tp_subject p)) settings,
      perm_rules = map (\<lambda>r. \<lparr>ru_id = pr_id r, ru_effect = pr_effect r, ru_text = pr_text r\<rparr>) rules\<rparr>"

record tool_traits =
  trait_name :: string
  trait_asks :: bool
  trait_per_call :: bool
  trait_always :: bool

definition default_decision :: "tool_traits \<Rightarrow> bot_preset \<Rightarrow> tool_choice" where
  "default_decision tool preset =
     (if trait_asks tool \<and> (trait_always tool \<or> preset \<noteq> Preset_full) then Choice_ask else Choice_allow)"

definition tool_decision :: "bot_permissions \<Rightarrow> tool_traits \<Rightarrow> bot_preset \<Rightarrow> tool_choice" where
  "tool_decision perms tool preset =
     (case perm_decisions perms (trait_name tool) of
        Some Choice_off \<Rightarrow> Choice_off
      | Some Choice_ask \<Rightarrow> Choice_ask
      | Some Choice_allow \<Rightarrow> if trait_per_call tool then default_decision tool preset else Choice_allow
      | None \<Rightarrow> default_decision tool preset)"

definition grant_for :: "bot_permissions \<Rightarrow> tool_traits \<Rightarrow> tool_subject option \<Rightarrow> tool_subject option" where
  "grant_for perms tool subject =
     (case subject of
        None \<Rightarrow> None
      | Some s \<Rightarrow>
          if trait_per_call tool then None
          else map_option snd
            (find (\<lambda>(name, g). name = trait_name tool \<and> subject_kind g = subject_kind s \<and> subject_key g = subject_key s)
               (perm_grants perms)))"

definition reaches_for :: "tool_traits \<Rightarrow> tool_subject option \<Rightarrow> approval_reach list" where
  "reaches_for tool subject =
     (if trait_per_call tool then [Reach_once]
      else case subject of None \<Rightarrow> [Reach_once, Reach_tool] | Some _ \<Rightarrow> [Reach_once, Reach_subject, Reach_tool])"

definition decisions_for :: "approval_reach list \<Rightarrow> card_decision list" where
  "decisions_for reaches =
     [Card_approve] @ (if Reach_subject \<in> set reaches then [Card_approve_for_subject] else []) @
     (if Reach_tool \<in> set reaches then [Card_approve_always] else []) @ [Card_deny, Card_stop]"

subsection \<open>The reviewer of the rules\<close>

datatype review_verdict = Verdict_by rule_effect rule_words | Verdict_none

definition rules_to_review :: "bot_permissions \<Rightarrow> tool_choice \<Rightarrow> rule_words list" where
  "rules_to_review perms decision =
     (let changes = (if decision = Choice_ask then Rule_allow else Rule_ask) in
      if list_ex (\<lambda>r. ru_effect r = changes) (perm_rules perms) then perm_rules perms else [])"

text \<open>\<open>/\{[\s\S]*\}/\<close>: from the first opening brace to the last closing one.\<close>

definition between_braces :: "string \<Rightarrow> string option" where
  "between_braces s =
     (let found = rev (dropWhile (\<lambda>c. c \<noteq> CHR ''}'') (rev (dropWhile (\<lambda>c. c \<noteq> CHR ''{'') s))) in
      if found = [] then None else Some found)"

text \<open>
  The rule an entry of the answer names, numbered from 1; \<open>None\<close> where the code throws, here and in
  \<open>rule_verdict\<close>. \<open>JSON.parse\<close> is \<open>parse\<close>, which answers \<open>None\<close> for what is not JSON.
\<close>

definition matched_rule :: "rule_words list \<Rightarrow> json \<Rightarrow> rule_words option" where
  "matched_rule rules v =
     (case v of
        JNumber n \<Rightarrow>
          (case int_of_number n of
             Some i \<Rightarrow> if 1 \<le> i \<and> i \<le> int (length rules) then Some (rules ! nat (i - 1)) else None
           | None \<Rightarrow> None)
      | _ \<Rightarrow> None)"

definition rule_verdict :: "(string \<Rightarrow> json option) \<Rightarrow> string \<Rightarrow> rule_words list \<Rightarrow> review_verdict option" where
  "rule_verdict parse answer rules =
     (case Option.bind (between_braces answer) parse of
        None \<Rightarrow> None
      | Some v \<Rightarrow>
          (case property v ''matches'' of
             JArray vs \<Rightarrow>
               (case those_map (matched_rule rules) vs of
                  None \<Rightarrow> None
                | Some matched \<Rightarrow>
                    (case or_else (find (\<lambda>r. ru_effect r = Rule_ask) matched)
                                  (find (\<lambda>r. ru_effect r = Rule_allow) matched) of
                       Some w \<Rightarrow> Some (Verdict_by (ru_effect w) w)
                     | None \<Rightarrow> Some Verdict_none))
           | _ \<Rightarrow> None))"

definition granted_line :: "string \<Rightarrow> string" where
  "granted_line label = ''Always allowed for '' @ label"

definition rule_allowed_line :: "string \<Rightarrow> string" where
  "rule_allowed_line text = ''Auto-approved by your rule '' @ curly_quoted text"

definition rule_paused_note :: "string \<Rightarrow> string" where
  "rule_paused_note text = ''Paused by your rule '' @ curly_quoted text"

definition rules_unchecked_note :: string where
  "rules_unchecked_note = ''Your rules could not be checked just now, so this asks.''"

subsection \<open>Facts\<close>

lemma decide_tool_Inr:
  "decide_tool uuid now org bid tool choice user = Inr p \<longleftrightarrow>
     org \<noteq> [] \<and> bid \<noteq> [] \<and> tool \<noteq> [] \<and>
     p = \<lparr>tp_id = uuid, tp_organization = org, tp_bot = bid, tp_tool = tool, tp_decision = choice,
          tp_subject = None, tp_by = user, tp_created = now\<rparr>"
  by (auto simp: decide_tool_def tool_permission_problem_def Let_def check_all_None)

lemma grant_tool_Inr:
  "grant_tool uuid now org bid tool subject user = Inr p \<Longrightarrow>
     p = \<lparr>tp_id = uuid, tp_organization = org, tp_bot = bid, tp_tool = tool, tp_decision = Choice_allow,
          tp_subject = Some subject, tp_by = user, tp_created = now\<rparr>"
  by (auto simp: grant_tool_def Let_def)

lemma grants_of_settings:
  "(tool, g) \<in> set (perm_grants (permissions_of settings rules)) \<longleftrightarrow>
     (\<exists>p \<in> set settings. tp_tool p = tool \<and> tp_subject p = Some g)"
  by (induction settings) (auto simp: permissions_of_def map_filter_list_def split: option.splits)

lemma decisions_fold:
  "fold (\<lambda>p m. if tp_subject p = None then m(tp_tool p \<mapsto> tp_decision p) else m) settings m0 tool = Some c \<Longrightarrow>
     m0 tool = Some c \<or> (\<exists>p \<in> set settings. tp_tool p = tool \<and> tp_subject p = None \<and> tp_decision p = c)"
proof (induction settings arbitrary: m0)
  case (Cons p settings)
  from Cons.IH [OF Cons.prems [simplified]] show ?case by (auto split: if_splits)
qed simp

lemma decisions_of_settings:
  "perm_decisions (permissions_of settings rules) tool = Some c \<Longrightarrow>
     \<exists>p \<in> set settings. tp_tool p = tool \<and> tp_subject p = None \<and> tp_decision p = c"
  using decisions_fold [of settings Map.empty tool c] by (auto simp: permissions_of_def)

lemma rules_of_settings:
  "r \<in> set (perm_rules (permissions_of settings rules)) \<longleftrightarrow>
     (\<exists>p \<in> set rules. r = \<lparr>ru_id = pr_id p, ru_effect = pr_effect p, ru_text = pr_text p\<rparr>)"
  by (auto simp: permissions_of_def)

lemma rules_to_review_subset: "set (rules_to_review perms d) \<subseteq> set (perm_rules perms)"
  by (auto simp: rules_to_review_def Let_def)

lemma matched_rule_mem: "matched_rule rules v = Some r \<Longrightarrow> r \<in> set rules"
  by (auto simp: matched_rule_def nat_less_iff split: json.splits option.splits if_splits)

lemma find_Some_mem: "find P xs = Some x \<Longrightarrow> x \<in> set xs \<and> P x"
  by (auto simp: find_Some_iff)

text \<open>An ask rule wins; an allow rule decides only when no ask rule matched.\<close>

lemma rule_verdict_Some:
  assumes "rule_verdict parse answer rules = Some v"
  obtains matched where "set matched \<subseteq> set rules"
    "\<And>e w. v = Verdict_by e w \<Longrightarrow> w \<in> set matched \<and> ru_effect w = e"
    "\<And>w. v = Verdict_by Rule_allow w \<Longrightarrow> \<forall>r \<in> set matched. ru_effect r = Rule_allow"
    "v = Verdict_none \<Longrightarrow> matched = []"
proof -
  obtain vs matched where matched: "those_map (matched_rule rules) vs = Some matched"
    and v: "(case or_else (find (\<lambda>r. ru_effect r = Rule_ask) matched) (find (\<lambda>r. ru_effect r = Rule_allow) matched) of
               Some w \<Rightarrow> Some (Verdict_by (ru_effect w) w) | None \<Rightarrow> Some Verdict_none) = Some v"
    using assms by (auto simp: rule_verdict_def split: option.splits json.splits)
  have other: "ru_effect r \<noteq> Rule_ask \<longleftrightarrow> ru_effect r = Rule_allow" for r :: rule_words
    by (cases "ru_effect r") auto
  show ?thesis
  proof (rule that [of matched])
    show "set matched \<subseteq> set rules" using those_map_Some_set [OF matched] matched_rule_mem by fast
  next
    show "w \<in> set matched \<and> ru_effect w = e" if "v = Verdict_by e w" for e w
      using v that by (auto simp: or_else_def dest!: find_Some_mem split: option.splits)
  next
    show "\<forall>r \<in> set matched. ru_effect r = Rule_allow" if "v = Verdict_by Rule_allow w" for w
      using v that other by (auto simp: or_else_def find_None_iff dest!: find_Some_mem split: option.splits)
  next
    show "matched = []" if "v = Verdict_none"
      using v that other by (cases matched) (auto simp: or_else_def split: option.splits if_splits)
  qed
qed

end
