(* ===== verification/Bot_Tools.thy ===== *)
theory Bot_Tools
  imports Bot_Permission
begin

section \<open>A bot's tools, and what stands between a call and its run\<close>

text \<open>
  \<^verbatim>\<open>defineBotTool\<close>, \<^verbatim>\<open>askingFirst\<close>, \<^verbatim>\<open>reviewedFirst\<close> and \<^verbatim>\<open>askOwner\<close> of
  \<^verbatim>\<open>apps/api/src/bots-chat/application/bot-tool.factory.ts\<close>, and \<^verbatim>\<open>BotToolboxFactory\<close>. What a tool
  itself does is its spec, an argument: the schema of its input, the call as it would be stored, the
  thing it acts on, its words. What becomes of a call is a value: it runs, it asks, or it fails with
  the words the model reads.
\<close>

subsection \<open>What a tool declares\<close>

text \<open>What \<open>summarize\<close> does: it says the words, it refuses the call, or it throws something else.\<close>

datatype tool_summary = Says string | Refuses string | Throws

text \<open>
  An input is a \<open>json\<close> value. The schema answers \<open>Inl\<close> of its issues; \<open>normalize\<close>, where the tool
  has one, \<open>Inl\<close> of the failure in words; \<open>subject\<close> is \<open>None\<close> also where it throws.
\<close>

record tool_spec =
  spec_traits :: tool_traits
  spec_scope :: scope
  spec_read_only :: bool
  spec_shares_outside :: bool
  spec_not_on :: "bot_turn_origin list"
  spec_attended_only :: bool
  spec_parse :: "json \<Rightarrow> string + json"
  spec_normalize :: "(json \<Rightarrow> string + json) option"
  spec_subject :: "json \<Rightarrow> tool_subject option"
  spec_summarize :: "(json \<Rightarrow> tool_summary) option"

definition spec_name :: "tool_spec \<Rightarrow> string" where
  "spec_name spec = trait_name (spec_traits spec)"

text \<open>What \<open>defineBotTool\<close> throws for.\<close>

definition define_bot_tool :: "tool_spec \<Rightarrow> string + tool_spec" where
  "define_bot_tool spec =
     (if trait_asks (spec_traits spec) \<and> spec_read_only spec
      then Inl (spec_name spec @ '' cannot both ask first and be read-only.'')
      else if trait_per_call (spec_traits spec) \<and> \<not> trait_asks (spec_traits spec)
      then Inl (spec_name spec @ '' is per call only, so it must ask first.'')
      else Inr spec)"

text \<open>\<open>JSON.parse(JSON.stringify(input))\<close>\<close>

fun plain_json :: "json \<Rightarrow> json" where
  "plain_json (JNumber n) = (case n of Finite q \<Rightarrow> JNumber n | _ \<Rightarrow> JNull)"
| "plain_json (JArray vs) = JArray (map (\<lambda>v. if v = JUndefined then JNull else plain_json v) vs)"
| "plain_json (JObject kvs) =
     JObject (map (\<lambda>(k, v). (k, plain_json v)) (filter (\<lambda>(k, v). v \<noteq> JUndefined) kvs))"
| "plain_json v = v"

definition as_stored_input :: "json \<Rightarrow> json" where
  "as_stored_input input =
     (let v = plain_json (if input = JNull \<or> input = JUndefined then JObject [] else input) in
      case v of JObject _ \<Rightarrow> v | _ \<Rightarrow> JObject [(''value'', v)])"

subsection \<open>A call of a turn\<close>

text \<open>
  What a turn's call acts with. The owner's settings are read when the turn starts; the reviewer is
  there when a rule may be read, and answers \<open>None\<close> where it throws or runs out of time.
\<close>

record call_context =
  cx_organization :: string
  cx_bot :: string
  cx_turn :: string
  cx_preset :: bot_preset
  cx_origin :: "bot_turn_origin option"
  cx_permissions :: bot_permissions

type_synonym rule_reviewer = "string \<Rightarrow> string \<Rightarrow> json \<Rightarrow> rule_words list \<Rightarrow> review_verdict option"

text \<open>
  The reviewer of \<^verbatim>\<open>bot-rule-reviewer.factory.ts\<close>: the model's answer, \<open>None\<close> for a failed
  completion, read by \<open>rule_verdict\<close>.
\<close>

definition reviewer_of ::
  "(string \<Rightarrow> json option) \<Rightarrow> (string \<Rightarrow> string \<Rightarrow> json \<Rightarrow> rule_words list \<Rightarrow> string option) \<Rightarrow> rule_reviewer" where
  "reviewer_of parse answers tool summary input rules =
     (case answers tool summary input rules of None \<Rightarrow> None | Some answer \<Rightarrow> rule_verdict parse answer rules)"

text \<open>One call as the owner will be asked about it.\<close>

record approval_call =
  ac_organization :: string
  ac_bot :: string
  ac_turn :: string
  ac_tool :: string
  ac_input :: json
  ac_summary :: string
  ac_subject :: "tool_subject option"
  ac_shares_outside :: bool
  ac_per_call :: bool
  ac_review_note :: "string option"

text \<open>A call that runs does so on the input as the schema read it, with why it ran without a card.\<close>

datatype allowed_by = By_grant tool_subject | By_rule rule_words

datatype call_outcome = Call_runs json "allowed_by option" | Call_asks approval_call | Call_fails string

definition plain_call :: "tool_spec \<Rightarrow> json \<Rightarrow> call_outcome" where
  "plain_call spec input =
     (case spec_parse spec input of
        Inl issues \<Rightarrow> Call_fails (''Invalid input: '' @ issues)
      | Inr parsed \<Rightarrow> Call_runs parsed None)"

datatype rule_review = Review_allows rule_words | Review_asks string | Review_none

definition review_of :: "rule_reviewer \<Rightarrow> tool_spec \<Rightarrow> json \<Rightarrow> rule_words list \<Rightarrow> rule_review" where
  "review_of review spec call rules =
     (case (case spec_summarize spec of None \<Rightarrow> Says (spec_name spec) | Some f \<Rightarrow> f call) of
        Says summary \<Rightarrow>
          (case review (spec_name spec) summary call rules of
             Some (Verdict_by Rule_allow w) \<Rightarrow> Review_allows w
           | Some (Verdict_by Rule_ask w) \<Rightarrow> Review_asks (rule_paused_note (ru_text w))
           | Some Verdict_none \<Rightarrow> Review_none
           | None \<Rightarrow> Review_asks rules_unchecked_note)
      | _ \<Rightarrow> Review_asks rules_unchecked_note)"

text \<open>
  The card's line, or \<open>Inl\<close> of the refusal. \<open>in_its_terms\<close> is the tool and \<open>JSON.stringify\<close> of its
  input, for a tool that cannot say.
\<close>

definition summary_of :: "(string \<Rightarrow> json \<Rightarrow> string) \<Rightarrow> tool_spec \<Rightarrow> json \<Rightarrow> json \<Rightarrow> string + string" where
  "summary_of in_its_terms spec call stored =
     (case spec_summarize spec of
        None \<Rightarrow> Inr (in_its_terms (spec_name spec) stored)
      | Some f \<Rightarrow>
          (case f call of
             Refuses words \<Rightarrow> Inl words
           | Throws \<Rightarrow> Inr (in_its_terms (spec_name spec) stored)
           | Says words \<Rightarrow>
               Inr (if js_trim words = [] then in_its_terms (spec_name spec) stored else js_trim words)))"

definition ask_owner ::
  "(string \<Rightarrow> json \<Rightarrow> string) \<Rightarrow> tool_spec \<Rightarrow> call_context \<Rightarrow> json \<Rightarrow> tool_subject option \<Rightarrow> string option \<Rightarrow>
     call_outcome" where
  "ask_owner in_its_terms spec ctx call subject note =
     (let stored = as_stored_input call in
      case summary_of in_its_terms spec call stored of
        Inl words \<Rightarrow> Call_fails words
      | Inr summary \<Rightarrow> Call_asks
          \<lparr>ac_organization = cx_organization ctx, ac_bot = cx_bot ctx, ac_turn = cx_turn ctx,
           ac_tool = spec_name spec, ac_input = stored, ac_summary = summary, ac_subject = subject,
           ac_shares_outside = spec_shares_outside spec, ac_per_call = trait_per_call (spec_traits spec),
           ac_review_note = note\<rparr>)"

definition normalized :: "tool_spec \<Rightarrow> json \<Rightarrow> string + json" where
  "normalized spec parsed = (case spec_normalize spec of None \<Rightarrow> Inr parsed | Some f \<Rightarrow> f parsed)"

definition subject_of :: "tool_spec \<Rightarrow> json \<Rightarrow> tool_subject option" where
  "subject_of spec call = map_option fit_subject (spec_subject spec call)"

definition asking_first ::
  "(string \<Rightarrow> json \<Rightarrow> string) \<Rightarrow> rule_reviewer option \<Rightarrow> tool_spec \<Rightarrow> call_context \<Rightarrow> json \<Rightarrow> call_outcome" where
  "asking_first in_its_terms reviewer spec ctx input =
     (case spec_parse spec input of
        Inl _ \<Rightarrow> plain_call spec input
      | Inr parsed \<Rightarrow>
          (case normalized spec parsed of
             Inl words \<Rightarrow> Call_fails words
           | Inr call \<Rightarrow>
               (let subject = subject_of spec call in
                case grant_for (cx_permissions ctx) (spec_traits spec) subject of
                  Some g \<Rightarrow> Call_runs parsed (Some (By_grant g))
                | None \<Rightarrow>
                    (let rules = rules_to_review (cx_permissions ctx) Choice_ask in
                     case (if rules = [] then None else reviewer) of
                       None \<Rightarrow> ask_owner in_its_terms spec ctx call subject None
                     | Some review \<Rightarrow>
                         (case review_of review spec call rules of
                            Review_allows w \<Rightarrow> Call_runs parsed (Some (By_rule w))
                          | Review_asks note \<Rightarrow> ask_owner in_its_terms spec ctx call subject (Some note)
                          | Review_none \<Rightarrow> ask_owner in_its_terms spec ctx call subject None)))))"

definition reviewed_first ::
  "(string \<Rightarrow> json \<Rightarrow> string) \<Rightarrow> rule_reviewer \<Rightarrow> tool_spec \<Rightarrow> call_context \<Rightarrow> json \<Rightarrow> call_outcome" where
  "reviewed_first in_its_terms review spec ctx input =
     (case spec_parse spec input of
        Inl _ \<Rightarrow> plain_call spec input
      | Inr parsed \<Rightarrow>
          (case normalized spec parsed of
             Inl words \<Rightarrow> Call_fails words
           | Inr call \<Rightarrow>
               (case review_of review spec call (rules_to_review (cx_permissions ctx) Choice_allow) of
                  Review_asks note \<Rightarrow> ask_owner in_its_terms spec ctx call (subject_of spec call) (Some note)
                | _ \<Rightarrow> plain_call spec input)))"

text \<open>\<open>bind\<close>: which of the three a turn gets.\<close>

definition bind_tool ::
  "(string \<Rightarrow> json \<Rightarrow> string) \<Rightarrow> rule_reviewer option \<Rightarrow> tool_spec \<Rightarrow> call_context \<Rightarrow> json \<Rightarrow> call_outcome" where
  "bind_tool in_its_terms reviewer spec ctx input =
     (if tool_decision (cx_permissions ctx) (spec_traits spec) (cx_preset ctx) = Choice_ask
      then asking_first in_its_terms reviewer spec ctx input
      else (let stops = (if trait_asks (spec_traits spec) then rules_to_review (cx_permissions ctx) Choice_allow else [])
            in case (if stops = [] then None else reviewer) of
                 None \<Rightarrow> plain_call spec input
               | Some review \<Rightarrow> reviewed_first in_its_terms review spec ctx input))"

subsection \<open>The toolbox\<close>

definition bot_attended_origins :: "bot_turn_origin list" where
  "bot_attended_origins = [Bot_message, Bot_approval, Bot_question]"

definition definitions_for :: "tool_spec list \<Rightarrow> scope list option \<Rightarrow> tool_spec list" where
  "definitions_for specs granted =
     (case granted of None \<Rightarrow> specs | Some g \<Rightarrow> filter (\<lambda>d. spec_scope d \<in> expand_scopes g) specs)"

definition offered_tools :: "tool_spec list \<Rightarrow> scope list option \<Rightarrow> call_context \<Rightarrow> tool_spec list" where
  "offered_tools specs granted ctx =
     filter (\<lambda>d. tool_decision (cx_permissions ctx) (spec_traits d) (cx_preset ctx) \<noteq> Choice_off \<and>
                 \<not> (\<exists>origin \<in> set_option (cx_origin ctx). origin \<in> set (spec_not_on d)) \<and>
                 \<not> (\<exists>origin \<in> set_option (cx_origin ctx).
                       spec_attended_only d \<and> origin \<notin> set bot_attended_origins))
       (definitions_for specs granted)"

text \<open>
  What the owner's roles let them do now, read at every call: the scopes they could grant a token,
  by the ability of their roles.
\<close>

definition held_scopes :: "(string \<Rightarrow> string \<Rightarrow> bool) \<Rightarrow> scope set" where
  "held_scopes can = expand_scopes (grantable_scopes can)"

definition owner_lacks_permission :: "(scope \<Rightarrow> string) \<Rightarrow> string \<Rightarrow> scope \<Rightarrow> string" where
  "owner_lacks_permission label tool sc =
     ''Not run: '' @ tool @ '' needs the \"'' @ label sc @ ''\" permission ('' @ sc @
     ''), and the person you act for does not have it in this workspace. Nothing was done. Tell them they need that '' @
     ''permission granted to them by whoever manages roles in the workspace, and that you can do it once it is. '' @
     ''Do not try to do it another way, and do not call '' @ tool @ '' again in this turn.''"

definition refusal_for :: "(scope \<Rightarrow> string) \<Rightarrow> tool_spec \<Rightarrow> scope set \<Rightarrow> string option" where
  "refusal_for label spec held =
     (if spec_scope spec \<in> held then None else Some (owner_lacks_permission label (spec_name spec) (spec_scope spec)))"

text \<open>
  The tools of the API, with the words they need: a tool and its input in its own terms, and a scope
  as the permission picker names it.
\<close>

record toolbox =
  tb_specs :: "tool_spec list"
  tb_terms :: "string \<Rightarrow> json \<Rightarrow> string"
  tb_label :: "scope \<Rightarrow> string"

text \<open>
  A call by its name in a turn whose credential grants \<open>granted\<close>; \<open>None\<close> for a tool the turn is not
  offered, which the engine does not know.
\<close>

definition call_tool ::
  "toolbox \<Rightarrow> rule_reviewer option \<Rightarrow> scope list option \<Rightarrow> (string \<Rightarrow> string \<Rightarrow> bool) \<Rightarrow> call_context \<Rightarrow>
     string \<Rightarrow> json \<Rightarrow> call_outcome option" where
  "call_tool tb reviewer granted can ctx name input =
     map_option (\<lambda>spec.
         case refusal_for (tb_label tb) spec (held_scopes can) of
           Some words \<Rightarrow> Call_fails words
         | None \<Rightarrow> bind_tool (tb_terms tb) reviewer spec ctx input)
       (find (\<lambda>d. spec_name d = name) (offered_tools (tb_specs tb) granted ctx))"

text \<open>What a child of the turn is offered.\<close>

definition read_only_tools :: "toolbox \<Rightarrow> scope list option \<Rightarrow> call_context \<Rightarrow> tool_spec list" where
  "read_only_tools tb granted ctx =
     filter (\<lambda>d. spec_read_only d \<and>
                 tool_decision (cx_permissions ctx) (spec_traits d) (cx_preset ctx) = Choice_allow)
       (offered_tools (tb_specs tb) granted ctx)"

text \<open>What the owner approved, carried out: \<open>Inl\<close> the words of a refusal, or the input the tool runs on.\<close>

definition run_approved ::
  "toolbox \<Rightarrow> scope list option \<Rightarrow> (string \<Rightarrow> string \<Rightarrow> bool) \<Rightarrow> bot_permissions \<Rightarrow> bot_preset \<Rightarrow>
     string \<Rightarrow> json \<Rightarrow> string + json" where
  "run_approved tb granted can perms preset tool input =
     (case find (\<lambda>d. spec_name d = tool) (definitions_for (tb_specs tb) None) of
        None \<Rightarrow> Inl (''Not run: '' @ tool @ '' is no longer a tool.'')
      | Some d \<Rightarrow>
          if tool_decision perms (spec_traits d) preset = Choice_off
          then Inl (''Not run: '' @ tool @ '' is turned off for this bot.'')
          else if \<exists>g \<in> set_option granted. spec_scope d \<notin> expand_scopes g
          then Inl (''Not run: your credential does not cover '' @ spec_scope d @ ''.'')
          else (case refusal_for (tb_label tb) d (held_scopes can) of
                  Some words \<Rightarrow> Inl words
                | None \<Rightarrow> Inr input))"

subsection \<open>Facts\<close>

definition well_defined :: "toolbox \<Rightarrow> bool" where
  "well_defined tb \<longleftrightarrow>
     distinct (map spec_name (tb_specs tb)) \<and> list_all (\<lambda>d. define_bot_tool d = Inr d) (tb_specs tb)"

lemma well_defined_spec:
  "well_defined tb \<Longrightarrow> d \<in> set (tb_specs tb) \<Longrightarrow>
     (trait_asks (spec_traits d) \<longrightarrow> \<not> spec_read_only d) \<and> (trait_per_call (spec_traits d) \<longrightarrow> trait_asks (spec_traits d))"
  by (auto simp: well_defined_def list_all_iff define_bot_tool_def split: if_splits)

lemma offered_mem:
  "d \<in> set (offered_tools specs granted ctx) \<Longrightarrow>
     d \<in> set specs \<and> tool_decision (cx_permissions ctx) (spec_traits d) (cx_preset ctx) \<noteq> Choice_off \<and>
     (\<forall>g. granted = Some g \<longrightarrow> spec_scope d \<in> expand_scopes g)"
  by (auto simp: offered_tools_def definitions_for_def split: option.splits)

lemma ask_owner_outcome:
  "ask_owner terms spec ctx call subject note \<noteq> Call_runs input by"
  by (auto simp: ask_owner_def Let_def split: sum.splits)

lemma ask_owner_card:
  "ask_owner terms spec ctx call subject note = Call_asks c \<Longrightarrow>
     ac_organization c = cx_organization ctx \<and> ac_bot c = cx_bot ctx \<and> ac_turn c = cx_turn ctx \<and>
     ac_tool c = spec_name spec \<and> ac_input c = as_stored_input call \<and> ac_subject c = subject \<and>
     ac_per_call c = trait_per_call (spec_traits spec)"
  by (auto simp: ask_owner_def Let_def split: sum.splits)

lemma plain_call_runs:
  "plain_call spec input = Call_runs parsed by \<longleftrightarrow> spec_parse spec input = Inr parsed \<and> by = None"
  by (auto simp: plain_call_def split: sum.splits)

text \<open>Every way a call runs.\<close>

lemma asking_first_runs:
  assumes "asking_first terms reviewer spec ctx input = Call_runs parsed by"
  obtains call where "spec_parse spec input = Inr parsed" "normalized spec parsed = Inr call"
    "(\<exists>g. by = Some (By_grant g) \<and> grant_for (cx_permissions ctx) (spec_traits spec) (subject_of spec call) = Some g) \<or>
     (\<exists>w review. by = Some (By_rule w) \<and> reviewer = Some review \<and> rules_to_review (cx_permissions ctx) Choice_ask \<noteq> [] \<and>
        review_of review spec call (rules_to_review (cx_permissions ctx) Choice_ask) = Review_allows w)"
proof (cases "spec_parse spec input")
  case (Inl issues)
  then show ?thesis using assms by (simp add: asking_first_def plain_call_def)
next
  case parsed: (Inr p)
  obtain call where call: "normalized spec p = Inr call"
    using assms parsed by (cases "normalized spec p") (simp_all add: asking_first_def)
  show ?thesis
    by (rule that [of call])
       (use assms parsed call in \<open>auto simp: asking_first_def Let_def ask_owner_outcome
          split: option.splits if_splits rule_review.splits\<close>)
qed

lemma reviewed_first_runs:
  assumes "reviewed_first terms review spec ctx input = Call_runs parsed by"
  obtains call where "spec_parse spec input = Inr parsed" "normalized spec parsed = Inr call" "by = None"
    "\<forall>note. review_of review spec call (rules_to_review (cx_permissions ctx) Choice_allow) \<noteq> Review_asks note"
proof (cases "spec_parse spec input")
  case (Inl issues)
  then show ?thesis using assms by (simp add: reviewed_first_def plain_call_def)
next
  case parsed: (Inr p)
  obtain call where call: "normalized spec p = Inr call"
    using assms parsed by (cases "normalized spec p") (simp_all add: reviewed_first_def)
  show ?thesis
    by (rule that [of call])
       (use assms parsed call in \<open>auto simp: reviewed_first_def ask_owner_outcome plain_call_runs
          split: rule_review.splits\<close>)
qed

end
