(* ===== verification/Bot_Approval.thy ===== *)
theory Bot_Approval
  imports Bot_Tools Bot_System
begin

section \<open>The card of a call that asks\<close>

text \<open>
  \<^verbatim>\<open>bot-approval.entity.ts\<close>, \<^verbatim>\<open>bot-approval.policy.ts\<close> and \<^verbatim>\<open>bot-approval-decision.policy.ts\<close>: one call of
  an asking tool waiting for the bot's owner, decided once, and what a decision owes. The id and the
  clock are arguments and a throw is \<open>Inl\<close>. The entity extends the row with the status it was loaded
  in and with the events it announces; of an event the status is kept.
\<close>

datatype approval_status = Ap_pending | Ap_approved | Ap_denied | Ap_expired | Ap_failed

record bot_approval =
  ap_id :: string
  ap_organization :: string
  ap_bot :: string
  ap_turn :: string
  ap_tool :: string
  ap_input :: json
  ap_summary :: string
  ap_subject :: "tool_subject option"
  ap_shares_outside :: bool
  ap_per_call :: bool
  ap_review_note :: "string option"
  ap_reach :: "approval_reach option"
  ap_status :: approval_status
  ap_result :: "string option"
  ap_session :: "string option"
  ap_note :: "string option"
  ap_by :: "string option"
  ap_scopes :: "scope list option"
  ap_decided :: "date option"

record bot_approval_entity = bot_approval +
  ap_loaded :: approval_status
  ap_events :: "approval_status list"

definition bot_approval_of :: "bot_approval \<Rightarrow> bot_approval_entity" where
  "bot_approval_of r = bot_approval.extend r \<lparr>ap_loaded = ap_status r, ap_events = []\<rparr>"

definition bot_approval_summary_max :: nat where
  "bot_approval_summary_max = 500"

definition bot_approval_result_max :: nat where
  "bot_approval_result_max = 2000"

definition bot_approval_review_note_max :: nat where
  "bot_approval_review_note_max = 400"

definition bot_approval_note_max :: nat where
  "bot_approval_note_max = 1000"

definition cut_text :: "string \<Rightarrow> nat \<Rightarrow> string" where
  "cut_text text most = (if length text \<le> most then text else take (most - 1) text @ [ellipsis])"

definition approval_status_word :: "approval_status \<Rightarrow> string" where
  "approval_status_word s =
     (case s of Ap_pending \<Rightarrow> ''pending'' | Ap_approved \<Rightarrow> ''approved'' | Ap_denied \<Rightarrow> ''denied''
      | Ap_expired \<Rightarrow> ''expired'' | Ap_failed \<Rightarrow> ''failed'')"

definition approval_reach_word :: "approval_reach \<Rightarrow> string" where
  "approval_reach_word r =
     (case r of Reach_once \<Rightarrow> ''once'' | Reach_tool \<Rightarrow> ''tool'' | Reach_subject \<Rightarrow> ''subject'')"

definition bot_approval_problem :: "'a bot_approval_scheme \<Rightarrow> domain_error option" where
  "bot_approval_problem a = check_all
     [(ap_organization a = [] \<or> ap_bot a = [] \<or> ap_turn a = [],
       ArgumentNotProvided ''An approval belongs to a turn of a bot''),
      (ap_tool a = [], ArgumentNotProvided ''An approval is for a tool''),
      (ap_summary a = [], ArgumentNotProvided ''An approval says what will happen'')]"

definition announce_approval :: "bot_approval_entity \<Rightarrow> bot_approval_entity" where
  "announce_approval a = a\<lparr>ap_events := ap_events a @ [ap_status a]\<rparr>"

definition request_approval :: "string \<Rightarrow> approval_call \<Rightarrow> domain_error + bot_approval_entity" where
  "request_approval uuid c =
     (let a = \<lparr>ap_id = uuid, ap_organization = ac_organization c, ap_bot = ac_bot c, ap_turn = ac_turn c,
               ap_tool = ac_tool c, ap_input = ac_input c,
               ap_summary = cut_text (js_trim (ac_summary c)) bot_approval_summary_max,
               ap_subject = ac_subject c, ap_shares_outside = ac_shares_outside c,
               ap_per_call = ac_per_call c,
               ap_review_note =
                 (if truthy (ac_review_note c)
                  then Some (cut_text (js_trim (the (ac_review_note c))) bot_approval_review_note_max) else None),
               ap_reach = None, ap_status = Ap_pending, ap_result = None, ap_session = None, ap_note = None,
               ap_by = None, ap_scopes = None, ap_decided = None, ap_loaded = Ap_pending, ap_events = []\<rparr>
      in validated (bot_approval_problem a) (announce_approval a))"

text \<open>How far a yes may reach: this call, its subject, the tool.\<close>

definition approval_reaches :: "'a bot_approval_scheme \<Rightarrow> approval_reach list" where
  "approval_reaches a =
     reaches_for \<lparr>trait_name = ap_tool a, trait_asks = True, trait_per_call = ap_per_call a, trait_always = False\<rparr>
       (ap_subject a)"

definition available_decisions :: "'a bot_approval_scheme \<Rightarrow> card_decision list" where
  "available_decisions a = decisions_for (approval_reaches a)"

definition approval_running :: "'a bot_approval_scheme \<Rightarrow> bool" where
  "approval_running a = (ap_status a = Ap_approved \<and> ap_result a = None)"

definition decide_card ::
  "approval_status \<Rightarrow> string \<Rightarrow> date \<Rightarrow> scope list option \<Rightarrow> bot_approval_entity \<Rightarrow> domain_error + bot_approval_entity" where
  "decide_card status user now scopes a =
     (if ap_status a \<noteq> Ap_pending
      then Inl (ArgumentInvalid (''The approval is already '' @ approval_status_word (ap_status a)))
      else if user = [] then Inl (ArgumentNotProvided ''Somebody decides an approval'')
      else Inr (announce_approval
             (a\<lparr>ap_status := status, ap_by := Some user, ap_scopes := scopes, ap_decided := Some now\<rparr>)))"

definition approve_card ::
  "string \<Rightarrow> date \<Rightarrow> scope list option \<Rightarrow> approval_reach \<Rightarrow> bot_approval_entity \<Rightarrow> domain_error + bot_approval_entity" where
  "approve_card user now scopes reach a =
     (if reach \<notin> set (approval_reaches a)
      then Inl (ArgumentInvalid (''This approval cannot reach \"'' @ approval_reach_word reach @ ''\"''))
      else (case decide_card Ap_approved user now scopes a of
              Inl e \<Rightarrow> Inl e
            | Inr a' \<Rightarrow> Inr (a'\<lparr>ap_reach := Some reach\<rparr>)))"

text \<open>What a yes past this call leaves standing.\<close>

definition standing_of ::
  "string \<Rightarrow> date \<Rightarrow> 'a bot_approval_scheme \<Rightarrow> (domain_error + tool_permission) option" where
  "standing_of uuid now a =
     (if ap_status a \<noteq> Ap_approved then None
      else if ap_reach a = Some Reach_tool
      then Some (decide_tool uuid now (ap_organization a) (ap_bot a) (ap_tool a) Choice_allow (ap_by a))
      else case ap_subject a of
        Some s \<Rightarrow>
          if ap_reach a = Some Reach_subject
          then Some (grant_tool uuid now (ap_organization a) (ap_bot a) (ap_tool a) s (ap_by a)) else None
      | None \<Rightarrow> None)"

definition deny_card ::
  "string \<Rightarrow> date \<Rightarrow> string option \<Rightarrow> scope list option \<Rightarrow> bot_approval_entity \<Rightarrow> domain_error + bot_approval_entity" where
  "deny_card user now note scopes a =
     (case decide_card Ap_denied user now scopes a of
        Inl e \<Rightarrow> Inl e
      | Inr a' \<Rightarrow> Inr (a'\<lparr>ap_note :=
          (case note of
             None \<Rightarrow> None
           | Some n \<Rightarrow> if js_trim n = [] then None else Some (cut_text (js_trim n) bot_approval_note_max))\<rparr>))"

definition expire_card :: "date \<Rightarrow> bot_approval_entity \<Rightarrow> domain_error + bot_approval_entity" where
  "expire_card now a =
     (if ap_status a \<noteq> Ap_pending
      then Inl (ArgumentInvalid (''The approval is already '' @ approval_status_word (ap_status a)))
      else Inr (announce_approval (a\<lparr>ap_status := Ap_expired, ap_decided := Some now\<rparr>)))"

definition record_result ::
  "string \<Rightarrow> bool \<Rightarrow> string option \<Rightarrow> bot_approval_entity \<Rightarrow> domain_error + bot_approval_entity" where
  "record_result answer failed session a =
     (if \<not> approval_running a
      then Inl (ArgumentInvalid (''A '' @ approval_status_word (ap_status a) @ '' approval has nothing running''))
      else Inr (announce_approval
             (a\<lparr>ap_result := Some (cut_text answer bot_approval_result_max),
                ap_session := (if failed then None else session),
                ap_status := (if failed then Ap_failed else ap_status a)\<rparr>)))"

definition mark_approval_persisted :: "bot_approval_entity \<Rightarrow> bot_approval_entity" where
  "mark_approval_persisted a = a\<lparr>ap_loaded := ap_status a, ap_events := []\<rparr>"

subsection \<open>What a decision says\<close>

definition who_decided :: "string \<Rightarrow> string" where
  "who_decided by' = (if js_trim by' = [] then ''The person'' else js_trim by')"

definition approval_started_words :: "'a bot_approval_scheme \<Rightarrow> string \<Rightarrow> string" where
  "approval_started_words a by' =
     who_decided by' @ '' approved: '' @ ap_summary a @ [CHR 0x0A] @ ''It is running now.''"

definition approval_finished_words :: "'a bot_approval_scheme \<Rightarrow> string \<Rightarrow> string" where
  "approval_finished_words a by' =
     who_decided by' @ '' approved a call, and it finished: '' @ ap_summary a @ [CHR 0x0A] @
     (if ap_status a = Ap_failed then ''It ran and failed'' else ''It ran'') @ '': '' @
     (case ap_result a of None \<Rightarrow> [] | Some r \<Rightarrow> r)"

definition denial_words :: "'a bot_approval_scheme \<Rightarrow> string \<Rightarrow> string" where
  "denial_words a lead =
     js_join [CHR 0x0A] (filter (\<lambda>l. l \<noteq> [])
       [lead @ '': '' @ ap_summary a,
        if truthy (ap_note a) then ''Their note: '' @ the (ap_note a) else []])"

definition denied_words :: "'a bot_approval_scheme \<Rightarrow> string \<Rightarrow> string" where
  "denied_words a by' = denial_words a (who_decided by' @ '' denied'')"

definition reach_of :: "card_decision \<Rightarrow> approval_reach option" where
  "reach_of d =
     (case d of Card_approve \<Rightarrow> Some Reach_once | Card_approve_for_subject \<Rightarrow> Some Reach_subject
      | Card_approve_always \<Rightarrow> Some Reach_tool | _ \<Rightarrow> None)"

definition stopped_line ::
  "string \<Rightarrow> date \<Rightarrow> 'a bot_approval_scheme \<Rightarrow> string \<Rightarrow> domain_error + bot_message" where
  "stopped_line uuid now a by' =
     event_message uuid now (ap_organization a) (ap_bot a) None
       (denial_words a (who_decided by' @ '' denied and stopped your turn''))"

text \<open>What two credentials may both do; \<open>None\<close> is a browser session, which is not restricted.\<close>

definition intersect_scopes :: "scope list option \<Rightarrow> scope list option \<Rightarrow> scope list option" where
  "intersect_scopes a b =
     (case (a, b) of
        (None, None) \<Rightarrow> None
      | (None, Some b') \<Rightarrow> Some b'
      | (Some a', None) \<Rightarrow> Some a'
      | (Some a', Some b') \<Rightarrow>
          Some (sorted_list_of_set (expand_scopes a' \<inter> expand_scopes b')))"

subsection \<open>Deciding a card\<close>

text \<open>What is written with a decision, and whether the asking turn is stopped.\<close>

record approval_effects =
  ef_standing :: "tool_permission option"
  ef_continuation :: "(bot_turn_entity \<times> bot_message) option"
  ef_line :: "bot_message option"
  ef_run_call :: "string option"

definition no_effects :: approval_effects where
  "no_effects = \<lparr>ef_standing = None, ef_continuation = None, ef_line = None, ef_run_call = None\<rparr>"

record card_decider =
  dc_user :: string
  dc_name :: string
  dc_scopes :: "scope list option"
  dc_note :: "string option"

text \<open>
  The turns of a decision run under what the asking turn's and the decider's credentials both cover;
  no asking turn left is no scope at all. \<open>pick\<close> is the bot with its engine as they are now.
\<close>

definition decision_scopes :: "'t bot_turn_scheme option \<Rightarrow> scope list option \<Rightarrow> scope list option" where
  "decision_scopes asked scopes =
     intersect_scopes (case asked of None \<Rightarrow> Some [] | Some t \<Rightarrow> bt_scopes t) scopes"

definition approval_turn_props ::
  "string \<Rightarrow> bot_engine_pick \<Rightarrow> 't bot_turn_scheme option \<Rightarrow> string \<Rightarrow> scope list option \<Rightarrow> queue_props" where
  "approval_turn_props org pick asked user scopes =
     opening_props Opens_approval org user pick (Option.bind asked bt_time_zone) scopes"

definition decide_approval ::
  "string \<Rightarrow> string \<Rightarrow> string \<Rightarrow> date \<Rightarrow> card_decision \<Rightarrow> card_decider \<Rightarrow> string \<Rightarrow> bot_engine_pick \<Rightarrow>
     't bot_turn_scheme option \<Rightarrow> bot_approval_entity \<Rightarrow>
     domain_error + bot_approval_entity \<times> approval_effects \<times> bool" where
  "decide_approval tid mid pid now decision decider org pick asked a =
     (let props = approval_turn_props org pick asked (dc_user decider) (decision_scopes asked (dc_scopes decider)) in
      case reach_of decision of
        Some reach \<Rightarrow>
          (case approve_card (dc_user decider) now (dc_scopes decider) reach a of
             Inl e \<Rightarrow> Inl e
           | Inr a' \<Rightarrow>
               (case standing_of pid now a' of
                  Some (Inl e) \<Rightarrow> Inl e
                | standing \<Rightarrow>
                    (case opened_turn tid mid now props (approval_started_words a' (dc_name decider)) of
                       Inl e \<Rightarrow> Inl e
                     | Inr turn \<Rightarrow>
                         Inr (a', no_effects\<lparr>ef_run_call := Some (dc_name decider), ef_continuation := Some turn,
                                ef_standing := (case standing of Some (Inr p) \<Rightarrow> Some p | _ \<Rightarrow> None)\<rparr>, False))))
      | None \<Rightarrow>
          (case deny_card (dc_user decider) now (dc_note decider) (dc_scopes decider) a of
             Inl e \<Rightarrow> Inl e
           | Inr a' \<Rightarrow>
               if decision = Card_stop
               then (case stopped_line mid now a' (dc_name decider) of
                       Inl e \<Rightarrow> Inl e
                     | Inr line \<Rightarrow> Inr (a', no_effects\<lparr>ef_line := Some line\<rparr>,
                         (case asked of None \<Rightarrow> False | Some t \<Rightarrow> bt_status t = Bot_running)))
               else (case opened_turn tid mid now props (denied_words a' (dc_name decider)) of
                       Inl e \<Rightarrow> Inl e
                     | Inr turn \<Rightarrow> Inr (a', no_effects\<lparr>ef_continuation := Some turn\<rparr>, False))))"

end
