(* ===== verification/Bot_Text.thy ===== *)
theory Bot_Text
  imports Bot_Permission
begin

section \<open>The text of a bot's tools\<close>

text \<open>
  \<^verbatim>\<open>apps/api/src/bots-chat/domain/bot-tool-text.policy.ts\<close>: how long an answer may be, lists, and the
  fence around text from outside (a page, a pull request, a session's output, the answers to a card),
  which the prompt says is data. Strings hold no surrogate halves here, so \<open>keepWholePairs\<close> keeps
  every slice whole.
\<close>

subsection \<open>Length\<close>

definition bot_tool_output_max :: nat where
  "bot_tool_output_max = 12000"

definition cut_line_max :: nat where
  "cut_line_max = 160"

definition bot_tool_output_head :: nat where
  "bot_tool_output_head = ((bot_tool_output_max - cut_line_max) * 2) div 3"

definition bot_tool_output_tail :: nat where
  "bot_tool_output_tail = bot_tool_output_max - cut_line_max - bot_tool_output_head"

definition fit_tool_output :: "string \<Rightarrow> string" where
  "fit_tool_output text =
     (if length text \<le> bot_tool_output_max then text
      else (let start = take bot_tool_output_head text;
                finish = drop (length text - bot_tool_output_tail) text;
                elided = length text - length start - length finish
            in start @ [CHR 0x0A, ellipsis, CHR 0x20] @ digits_of elided @
               '' characters cut from the middle. Ask for less (a filter, a smaller limit) to see them.'' @
               [CHR 0x0A] @ finish))"

definition start_of :: "string \<Rightarrow> nat \<Rightarrow> string" where
  "start_of text most = take most text"

definition cut_said :: "string \<Rightarrow> nat \<Rightarrow> string" where
  "cut_said text most = (if length text > most then start_of text most @ [ellipsis] @ '' (cut)'' else text)"

definition format_tool_list ::
  "string \<Rightarrow> string list \<Rightarrow> string \<Rightarrow> (nat \<times> nat \<times> string) option \<Rightarrow> string" where
  "format_tool_list heading lines none extra =
     (if lines = [] then none
      else heading @ '' ('' @ digits_of (length lines) @ ''):'' @ [CHR 0x0A] @
           js_join [CHR 0x0A] (map (\<lambda>l. ''- '' @ l) lines) @
           (case extra of
              None \<Rightarrow> []
            | Some (some_n, all_n, hint) \<Rightarrow>
                if all_n > some_n
                then [CHR 0x0A] @ ''('' @ digits_of some_n @ '' of '' @ digits_of all_n @ '' shown. '' @ hint @ '')''
                else []))"

subsection \<open>The fence\<close>

text \<open>
  Whether a string goes on as \<open>\s*/?\s*tag\<close>, in any case. A tag is a word, so the expression has one
  way to match; \<open>replace\<close> finds it after every \<open><\<close>, as no part of the match is one.
\<close>

definition tag_follows :: "string \<Rightarrow> string \<Rightarrow> bool" where
  "tag_follows tag s =
     (let r = dropWhile js_space s;
          r' = (if r \<noteq> [] \<and> hd r = CHR ''/'' then dropWhile js_space (tl r) else r)
      in js_lower (take (length tag) r') = js_lower tag)"

fun without_tag :: "string \<Rightarrow> string \<Rightarrow> string" where
  "without_tag tag [] = []"
| "without_tag tag (c # s) =
     (if c = CHR ''<'' \<and> tag_follows tag s then ''&lt;'' @ without_tag tag s else c # without_tag tag s)"

definition closing_tag :: "string \<Rightarrow> string" where
  "closing_tag tag = ''</'' @ tag @ ''>''"

definition fence_untrusted :: "string \<Rightarrow> string \<Rightarrow> string" where
  "fence_untrusted tag text =
     ''<'' @ tag @ ''>'' @ [CHR 0x0A] @ without_tag tag text @ [CHR 0x0A] @ closing_tag tag"

text \<open>Where a string spells the tag, opening or closing.\<close>

definition spellings :: "string \<Rightarrow> string \<Rightarrow> nat list" where
  "spellings tag s =
     filter (\<lambda>i. s ! i = CHR ''<'' \<and> tag_follows tag (drop (Suc i) s)) [0..<length s]"

definition tag_word :: "string \<Rightarrow> bool" where
  "tag_word tag \<longleftrightarrow> tag \<noteq> [] \<and> list_all (\<lambda>c. is_lower c \<or> c = CHR ''_'') tag"

subsection \<open>Facts\<close>

lemma digits_of_length: "n < 10 ^ Suc k \<Longrightarrow> length (digits_of n) \<le> Suc k"
proof (induction k arbitrary: n)
  case 0 then show ?case by (subst digits_of.simps) simp
next
  case (Suc k)
  have "length (digits_of (n div 10)) \<le> Suc k"
    by (rule Suc.IH) (use Suc.prems in \<open>simp add: less_mult_imp_div_less\<close>)
  then show ?case by (subst digits_of.simps) simp
qed

lemma tag_word_char: "tag_word tag \<Longrightarrow> c \<in> set tag \<Longrightarrow> is_lower c \<or> c = CHR ''_''"
  by (simp add: tag_word_def list_all_iff)

lemma lower_tag: "tag_word tag \<Longrightarrow> js_lower tag = tag"
proof -
  assume tag: "tag_word tag"
  have "lower_char c = c" if "is_lower c \<or> c = CHR ''_''" for c
    using that by (auto simp: lower_char_def is_lower_def is_upper_def char_between_def)
  then show ?thesis using tag_word_char [OF tag] by (auto simp: js_lower_def intro: map_idI)
qed

lemma tag_cut:
  assumes "tag_word tag" "lower_char c \<notin> set tag" "js_lower (take (length tag) (p @ c # q)) = js_lower tag"
  shows "js_lower (take (length tag) p) = js_lower tag"
proof (cases "length tag \<le> length p")
  case True then show ?thesis using assms(3) by simp
next
  case False
  then have "lower_char c \<in> set (js_lower (take (length tag) (p @ c # q)))"
    by (auto simp: js_lower_def take_Cons' image_iff)
  then show ?thesis using assms lower_tag by metis
qed

lemma lower_not_tag: "tag_word tag \<Longrightarrow> lower_char c = c \<Longrightarrow> \<not> is_lower c \<Longrightarrow> c \<noteq> CHR ''_'' \<Longrightarrow> lower_char c \<notin> set tag"
  using tag_word_char by fastforce

lemma stop_chars:
  assumes "tag_word tag"
  shows "lower_char (CHR ''<'') \<notin> set tag" "lower_char (CHR ''&'') \<notin> set tag" "lower_char (CHR 0x0A) \<notin> set tag"
    "lower_char (CHR ''/'') \<notin> set tag"
  by (rule lower_not_tag [OF assms]; simp add: lower_char_def is_upper_def is_lower_def char_between_def)+

lemma drop_space: "\<not> js_space c \<Longrightarrow> dropWhile js_space (p @ c # q) = dropWhile js_space p @ c # q"
  by (induction p) auto

lemma tag_follows_stop:
  assumes "tag_word tag" "lower_char c \<notin> set tag" "\<not> js_space c" "c \<noteq> CHR ''/''" "tag_follows tag (p @ c # q)"
  shows "tag_follows tag p"
proof (cases "dropWhile js_space p")
  case Nil
  then show ?thesis
    using assms(3-5) tag_cut [OF assms(1,2), of "[]" q]
    by (simp add: tag_follows_def drop_space Let_def Nil del: dropWhile_eq_Nil_conv)
next
  case (Cons d ds)
  have ds: "dropWhile js_space (ds @ c # q) = dropWhile js_space ds @ c # q" by (rule drop_space [OF assms(3)])
  show ?thesis
  proof (cases "d = CHR ''/''")
    case True
    then show ?thesis
      using assms(5) Cons tag_cut [OF assms(1,2), of "dropWhile js_space ds" q]
      by (simp add: tag_follows_def drop_space [OF assms(3)] Let_def ds)
  next
    case False
    then show ?thesis
      using assms(5) Cons tag_cut [OF assms(1,2), of "d # ds" q]
      by (simp add: tag_follows_def drop_space [OF assms(3)] Let_def)
  qed
qed

lemma drop_last_space:
  "js_space c \<Longrightarrow> dropWhile js_space (p @ [c]) = (if dropWhile js_space p = [] then [] else dropWhile js_space p @ [c])"
  by (induction p) auto

lemma tag_follows_newline:
  assumes "tag_word tag" "tag_follows tag (p @ [CHR 0x0A])"
  shows "tag_follows tag p"
proof -
  have sp: "js_space (CHR 0x0A)" by (simp add: js_space_def)
  have none: "js_lower [] \<noteq> js_lower tag" using assms(1) by (auto simp: tag_word_def js_lower_def)
  note cut = tag_cut [OF assms(1) stop_chars(3) [OF assms(1)], where q = "[]"]
  show ?thesis
  proof (cases "dropWhile js_space p")
    case Nil
    then show ?thesis using assms(2) by (simp add: tag_follows_def drop_last_space [OF sp] del: dropWhile_eq_Nil_conv)
  next
    case (Cons d ds)
    show ?thesis
    proof (cases "d = CHR ''/''")
      case True
      then show ?thesis
        using assms(2) Cons cut [of "dropWhile js_space ds"] none
        by (auto simp: tag_follows_def drop_last_space [OF sp] Let_def split: if_splits)
    next
      case False
      then show ?thesis
        using assms(2) Cons cut [of "d # ds"]
        by (simp add: tag_follows_def drop_last_space [OF sp] Let_def)
    qed
  qed
qed

lemma tag_follows_more:
  assumes "tag_word tag" "tag_follows tag p"
  shows "tag_follows tag (p @ q)"
proof -
  have len: "length tag \<le> length r \<and> r \<noteq> []" if "js_lower (take (length tag) r) = js_lower tag" for r
  proof -
    have "length (js_lower (take (length tag) r)) = length (js_lower tag)" using that by simp
    then show ?thesis using assms(1) by (auto simp: js_lower_def tag_word_def)
  qed
  have drop: "dropWhile js_space (xs @ ys) = dropWhile js_space xs @ ys" if "dropWhile js_space xs \<noteq> []" for xs ys
    using that by (induction xs) auto
  have within: "take (length tag) (r @ q) = take (length tag) r" if "length tag \<le> length r" for r
    using that by simp
  show ?thesis
  proof (cases "dropWhile js_space p")
    case Nil
    then show ?thesis
      using assms(2) len [of "[]"] by (simp add: tag_follows_def Nil del: dropWhile_eq_Nil_conv)
  next
    case (Cons d ds)
    then show ?thesis
      using assms(2) drop [of p q] drop [of ds q] len [of "dropWhile js_space ds"] len [of "d # ds"]
        within [of "d # ds"]
      by (auto simp: tag_follows_def Let_def split: if_splits)
  qed
qed

text \<open>Taking the spellings out of a text makes no new one, whatever the fence closes it with.\<close>

lemma no_new_spelling:
  assumes tag: "tag_word tag"
    and "tag_follows tag (without_tag tag s @ CHR 0x0A # CHR ''<'' # q)"
  shows "tag_follows tag s"
proof (cases "CHR ''<'' \<in> set s")
  case False
  then have "without_tag tag s = s" by (induction s) auto
  then have "tag_follows tag ((s @ [CHR 0x0A]) @ CHR ''<'' # q)" using assms(2) by simp
  then have "tag_follows tag (s @ [CHR 0x0A])"
    by (rule tag_follows_stop [OF tag stop_chars(1) [OF tag], rotated -1]) (simp_all add: js_space_def)
  then show ?thesis by (rule tag_follows_newline [OF tag])
next
  case True
  then obtain p r where s: "s = p @ CHR ''<'' # r" "CHR ''<'' \<notin> set p" by (metis split_list_first)
  have "without_tag tag (p @ x) = p @ without_tag tag x" if "CHR ''<'' \<notin> set p" for p x
    using that by (induction p) auto
  then obtain c q' where "without_tag tag s @ CHR 0x0A # CHR ''<'' # q = p @ c # q'" "c = CHR ''<'' \<or> c = CHR ''&''"
    using s by (cases "tag_follows tag r") auto
  moreover have "lower_char c \<notin> set tag" "\<not> js_space c" "c \<noteq> CHR ''/''"
    using calculation(2) stop_chars [OF tag] by (auto simp: js_space_def)
  ultimately have "tag_follows tag p" using assms(2) tag_follows_stop [OF tag] by metis
  then show ?thesis unfolding s(1) by (rule tag_follows_more [OF tag])
qed

subsection \<open>Where the tag is spelled\<close>

lemma spellings_Cons:
  "spellings tag (c # s) = (if c = CHR ''<'' \<and> tag_follows tag s then [0] else []) @ map Suc (spellings tag s)"
proof -
  have "[0..<length (c # s)] = 0 # map Suc [0..<length s]" by (simp add: map_Suc_upt upt_conv_Cons del: upt_Suc)
  then show ?thesis by (simp add: spellings_def filter_map comp_def)
qed

lemma spellings_append:
  "CHR ''<'' \<notin> set p \<Longrightarrow> spellings tag (p @ s) = map (\<lambda>i. i + length p) (spellings tag s)"
  by (induction p) (auto simp: spellings_Cons comp_def)

lemma spellings_Nil [simp]: "spellings tag [] = []"
  by (simp add: spellings_def)

lemma spellings_without:
  assumes "tag_word tag"
  shows "spellings tag (without_tag tag s @ CHR 0x0A # CHR ''<'' # q) =
    map (\<lambda>i. i + length (without_tag tag s)) (spellings tag (CHR 0x0A # CHR ''<'' # q))"
proof (induction s)
  case (Cons c s)
  show ?case
  proof (cases "c = CHR ''<'' \<and> tag_follows tag s")
    case True
    then show ?thesis using Cons.IH by (simp add: spellings_Cons comp_def)
  next
    case False
    then have "\<not> (c = CHR ''<'' \<and> tag_follows tag (without_tag tag s @ CHR 0x0A # CHR ''<'' # q))"
      using no_new_spelling [OF assms] by blast
    then show ?thesis
      using False Cons.IH by (auto simp: spellings_Cons comp_def)
  qed
qed simp

end
