(* ===== verification/Bot_Cards.thy ===== *)
theory Bot_Cards
  imports Bot_Question
begin

section \<open>The cards in the database, and what moves them\<close>

text \<open>
  \<^verbatim>\<open>bot-approval.repository.ts\<close>, \<^verbatim>\<open>bot-question.repository.ts\<close>, \<^verbatim>\<open>bot-tool-permission.repository.ts\<close> and
  \<^verbatim>\<open>bot-permission-rule.repository.ts\<close> (under \<^verbatim>\<open>apps/api/src/bots-chat/database\<close>), as functions on the
  tables of cards beside the tables of turns. As there, a statement that breaks a key is \<open>Inl\<close> and
  its transaction writes nothing.
\<close>

subsection \<open>The tables\<close>

datatype card_job = Run_approved_call string string | Approval_changed string approval_status

record bot_card_store =
  cs_approvals :: "bot_approval list"
  cs_questions :: "question_card list"
  cs_settings :: "tool_permission list"
  cs_rules :: "permission_rule list"
  cs_jobs :: "card_job list"

datatype card_error = Card_domain domain_error | Card_database db_error | Card_refused string

definition stage_card_jobs :: "card_job list \<Rightarrow> bot_card_store \<Rightarrow> bot_card_store" where
  "stage_card_jobs js cs = cs\<lparr>cs_jobs := cs_jobs cs @ js\<rparr>"

definition find_approval :: "string \<Rightarrow> bot_card_store \<Rightarrow> bot_approval option" where
  "find_approval aid cs = find (\<lambda>a. ap_id a = aid) (cs_approvals cs)"

definition find_questions :: "string \<Rightarrow> bot_card_store \<Rightarrow> question_card option" where
  "find_questions qid cs = find (\<lambda>q. qc_id q = qid) (cs_questions cs)"

text \<open>The card a bot has waiting, of either kind.\<close>

definition waiting_card :: "string \<Rightarrow> string \<Rightarrow> bot_card_store \<Rightarrow> string option" where
  "waiting_card org bid cs =
     or_else
       (map_option ap_summary
          (find (\<lambda>a. ap_organization a = org \<and> ap_bot a = bid \<and> ap_status a = Ap_pending) (cs_approvals cs)))
       (map_option qc_summary
          (find (\<lambda>q. qc_organization q = org \<and> qc_bot q = bid \<and> qc_status q = Qu_pending) (cs_questions cs)))"

subsection \<open>Raising a card\<close>

text \<open>\<open>Inr None\<close> when it is in; \<open>Inr (Some line)\<close> of the card that waits.\<close>

definition insert_pending ::
  "bot_approval_entity \<Rightarrow> bot_store \<Rightarrow> bot_card_store \<Rightarrow> db_error + string option \<times> bot_card_store" where
  "insert_pending a s cs =
     (case waiting_card (ap_organization a) (ap_bot a) cs of
        Some line \<Rightarrow> Inr (Some line, cs)
      | None \<Rightarrow>
          if list_ex (\<lambda>r. ap_id r = ap_id a) (cs_approvals cs) then Inl (Unique_violation ''PK_bot_approval'')
          else if list_ex (\<lambda>r. ap_bot r = ap_bot a \<and> ap_status r = Ap_pending) (cs_approvals cs)
          then Inr (Some (ap_summary a), cs)
          else if \<not> lock_bot (ap_organization a) (ap_bot a) s
          then Inl (Foreign_key_violation ''FK_bot_approval_bot'')
          else if \<not> turn_referenced (ap_organization a) (Some (ap_turn a)) s
          then Inl (Foreign_key_violation ''FK_bot_approval_turn'')
          else Inr (None, stage_card_jobs (map (Approval_changed (ap_id a)) (ap_events a))
                 (cs\<lparr>cs_approvals := cs_approvals cs @ [bot_approval.truncate a]\<rparr>)))"

definition insert_pending_questions ::
  "question_card_entity \<Rightarrow> bot_store \<Rightarrow> bot_card_store \<Rightarrow> db_error + string option \<times> bot_card_store" where
  "insert_pending_questions q s cs =
     (case waiting_card (qc_organization q) (qc_bot q) cs of
        Some line \<Rightarrow> Inr (Some line, cs)
      | None \<Rightarrow>
          if list_ex (\<lambda>r. qc_id r = qc_id q) (cs_questions cs) then Inl (Unique_violation ''PK_bot_question'')
          else if list_ex (\<lambda>r. qc_bot r = qc_bot q \<and> qc_status r = Qu_pending) (cs_questions cs)
          then Inr (Some (qc_summary q), cs)
          else if \<not> lock_bot (qc_organization q) (qc_bot q) s
          then Inl (Foreign_key_violation ''FK_bot_question_bot'')
          else if \<not> turn_referenced (qc_organization q) (Some (qc_turn q)) s
          then Inl (Foreign_key_violation ''FK_bot_question_turn'')
          else Inr (None, cs\<lparr>cs_questions := cs_questions cs @ [question_card.truncate q]\<rparr>))"

subsection \<open>The owner's settings\<close>

definition bot_tool_grants_max :: nat where
  "bot_tool_grants_max = 100"

definition bot_permission_rules_max :: nat where
  "bot_permission_rules_max = 20"

text \<open>The columns of \<open>UQ_bot_tool_permission\<close>, where nulls are not distinct.\<close>

definition setting_key :: "tool_permission \<Rightarrow> string \<times> string \<times> (string \<times> string) option" where
  "setting_key p = (tp_bot p, tp_tool p, map_option (\<lambda>s. (subject_kind s, subject_key s)) (tp_subject p))"

definition upsert_decision :: "tool_permission \<Rightarrow> bot_store \<Rightarrow> bot_card_store \<Rightarrow> bool \<times> bot_card_store" where
  "upsert_decision p s cs =
     (if \<not> lock_bot (tp_organization p) (tp_bot p) s then (False, cs)
      else if list_ex (\<lambda>r. setting_key r = setting_key p) (cs_settings cs)
      then (True, cs\<lparr>cs_settings := map (\<lambda>r. if setting_key r = setting_key p
              then r\<lparr>tp_decision := tp_decision p, tp_by := tp_by p\<rparr> else r) (cs_settings cs)\<rparr>)
      else (True, cs\<lparr>cs_settings := cs_settings cs @ [p]\<rparr>))"

datatype grant_outcome = Grant_inserted | Grant_exists | Grant_full | Grant_missing

definition grants_of :: "string \<Rightarrow> string \<Rightarrow> bot_card_store \<Rightarrow> tool_permission list" where
  "grants_of org bid cs =
     filter (\<lambda>p. tp_organization p = org \<and> tp_bot p = bid \<and> tp_subject p \<noteq> None) (cs_settings cs)"

definition insert_grant :: "tool_permission \<Rightarrow> nat \<Rightarrow> bot_store \<Rightarrow> bot_card_store \<Rightarrow> grant_outcome \<times> bot_card_store" where
  "insert_grant p most s cs =
     (if \<not> lock_bot (tp_organization p) (tp_bot p) s then (Grant_missing, cs)
      else if length (grants_of (tp_organization p) (tp_bot p) cs) \<ge> most then (Grant_full, cs)
      else if list_ex (\<lambda>r. setting_key r = setting_key p) (cs_settings cs) then (Grant_exists, cs)
      else (Grant_inserted, cs\<lparr>cs_settings := cs_settings cs @ [p]\<rparr>))"

definition clear_decision :: "string \<Rightarrow> string \<Rightarrow> string \<Rightarrow> bot_card_store \<Rightarrow> bot_card_store" where
  "clear_decision org bid tool cs =
     cs\<lparr>cs_settings := filter (\<lambda>p. \<not> (tp_organization p = org \<and> tp_bot p = bid \<and> tp_tool p = tool \<and>
                                     tp_subject p = None)) (cs_settings cs)\<rparr>"

definition delete_grant :: "string \<Rightarrow> string \<Rightarrow> string \<Rightarrow> bot_card_store \<Rightarrow> bool \<times> bot_card_store" where
  "delete_grant org bid gid cs =
     (let hit = (\<lambda>p. tp_organization p = org \<and> tp_bot p = bid \<and> tp_id p = gid \<and> tp_subject p \<noteq> None) in
      (list_ex hit (cs_settings cs), cs\<lparr>cs_settings := filter (\<lambda>p. \<not> hit p) (cs_settings cs)\<rparr>))"

datatype rule_outcome = Rule_inserted | Rule_full | Rule_missing

definition insert_rule :: "permission_rule \<Rightarrow> nat \<Rightarrow> bot_store \<Rightarrow> bot_card_store \<Rightarrow> rule_outcome \<times> bot_card_store" where
  "insert_rule r most s cs =
     (if \<not> lock_bot (pr_organization r) (pr_bot r) s then (Rule_missing, cs)
      else if length (filter (\<lambda>x. pr_organization x = pr_organization r \<and> pr_bot x = pr_bot r) (cs_rules cs)) \<ge> most
      then (Rule_full, cs)
      else (Rule_inserted, cs\<lparr>cs_rules := cs_rules cs @ [r]\<rparr>))"

definition delete_rule :: "string \<Rightarrow> string \<Rightarrow> string \<Rightarrow> bot_card_store \<Rightarrow> bool \<times> bot_card_store" where
  "delete_rule org bid rid cs =
     (let hit = (\<lambda>r. pr_organization r = org \<and> pr_bot r = bid \<and> pr_id r = rid) in
      (list_ex hit (cs_rules cs), cs\<lparr>cs_rules := filter (\<lambda>r. \<not> hit r) (cs_rules cs)\<rparr>))"

text \<open>What a turn or an approved call reads: the settings newest first, the rules oldest first.\<close>

definition permissions_for :: "string \<Rightarrow> string \<Rightarrow> bot_card_store \<Rightarrow> bot_permissions" where
  "permissions_for org bid cs =
     permissions_of
       (rev (sort_key tp_created (sort_key tp_id
          (filter (\<lambda>p. tp_organization p = org \<and> tp_bot p = bid) (cs_settings cs)))))
       (sort_key pr_created (sort_key pr_id
          (filter (\<lambda>r. pr_organization r = org \<and> pr_bot r = bid) (cs_rules cs))))"

subsection \<open>Writing a decision\<close>

definition write_standing :: "tool_permission option \<Rightarrow> bot_store \<Rightarrow> bot_card_store \<Rightarrow> card_error + bot_card_store" where
  "write_standing standing s cs =
     (case standing of
        None \<Rightarrow> Inr cs
      | Some p \<Rightarrow>
          if tp_subject p = None then Inr (snd (upsert_decision p s cs))
          else (case insert_grant p bot_tool_grants_max s cs of
                  (Grant_full, _) \<Rightarrow> Inl (Card_refused ''TOOL_GRANTS_FULL'')
                | (_, cs') \<Rightarrow> Inr cs'))"

definition write_turn ::
  "date \<Rightarrow> (bot_turn_entity \<times> bot_message) option \<Rightarrow> bot_store \<Rightarrow> card_error + bot_store" where
  "write_turn now continuation s =
     (case continuation of
        None \<Rightarrow> Inr s
      | Some (t, m) \<Rightarrow>
          (case enqueue_within now t m s of
             Inl e \<Rightarrow> Inl (Card_database e)
           | Inr (_, s') \<Rightarrow> Inr s'))"

definition approval_columns :: "bot_approval_entity \<Rightarrow> bot_approval \<Rightarrow> bot_approval" where
  "approval_columns a r =
     r\<lparr>ap_status := ap_status a, ap_result := ap_result a, ap_session := ap_session a, ap_note := ap_note a,
       ap_by := ap_by a, ap_scopes := ap_scopes a, ap_decided := ap_decided a, ap_reach := ap_reach a\<rparr>"

definition approval_hit :: "bot_approval_entity \<Rightarrow> bot_approval \<Rightarrow> bool" where
  "approval_hit a r =
     (ap_id r = ap_id a \<and> ap_organization r = ap_organization a \<and> ap_status r = ap_loaded a \<and>
      (ap_loaded a = Ap_approved \<longrightarrow> ap_result r = None))"

definition save_transition ::
  "date \<Rightarrow> bot_approval_entity \<Rightarrow> approval_effects \<Rightarrow> bot_store \<Rightarrow> bot_card_store \<Rightarrow>
     card_error + bool \<times> bot_store \<times> bot_card_store" where
  "save_transition now a effects s cs =
     (if length (filter (approval_hit a) (cs_approvals cs)) \<noteq> 1 then Inr (False, s, cs)
      else (let cs1 = stage_card_jobs (map (Approval_changed (ap_id a)) (ap_events a))
                 (cs\<lparr>cs_approvals :=
                    map (\<lambda>r. if approval_hit a r then approval_columns a r else r) (cs_approvals cs)\<rparr>)
            in case write_standing (ef_standing effects) s cs1 of
                 Inl e \<Rightarrow> Inl e
               | Inr cs2 \<Rightarrow>
                   (case write_turn now (ef_continuation effects) s of
                      Inl e \<Rightarrow> Inl e
                    | Inr s1 \<Rightarrow>
                        Inr (True,
                             (case ef_line effects of None \<Rightarrow> s1 | Some m \<Rightarrow> insert_message now m s1),
                             (case ef_run_call effects of
                                None \<Rightarrow> cs2
                              | Some by' \<Rightarrow> stage_card_jobs [Run_approved_call (ap_id a) by'] cs2)))))"

definition question_columns :: "question_card_entity \<Rightarrow> question_card \<Rightarrow> question_card" where
  "question_columns q r =
     r\<lparr>qc_status := qc_status q, qc_answers := qc_answers q, qc_note := qc_note q, qc_by := qc_by q,
       qc_scopes := qc_scopes q, qc_decided := qc_decided q\<rparr>"

definition question_hit :: "question_card_entity \<Rightarrow> question_card \<Rightarrow> bool" where
  "question_hit q r =
     (qc_id r = qc_id q \<and> qc_organization r = qc_organization q \<and> qc_status r = qc_loaded q)"

definition save_questions ::
  "date \<Rightarrow> question_card_entity \<Rightarrow> (bot_turn_entity \<times> bot_message) option \<Rightarrow> bot_store \<Rightarrow> bot_card_store \<Rightarrow>
     card_error + bool \<times> bot_store \<times> bot_card_store" where
  "save_questions now q continuation s cs =
     (if length (filter (question_hit q) (cs_questions cs)) \<noteq> 1 then Inr (False, s, cs)
      else (case write_turn now continuation s of
              Inl e \<Rightarrow> Inl e
            | Inr s1 \<Rightarrow>
                Inr (True, s1,
                     cs\<lparr>cs_questions :=
                       map (\<lambda>r. if question_hit q r then question_columns q r else r) (cs_questions cs)\<rparr>)))"

subsection \<open>What goes with a turn, a bot or an account\<close>

text \<open>
  The cards of a turn that is gone go with it, and everything of a bot that is gone. Who decided a
  card or set a permission is unset with their account.
\<close>

definition cascade_cards :: "bot_store \<Rightarrow> bot_card_store \<Rightarrow> bot_card_store" where
  "cascade_cards s cs =
     cs\<lparr>cs_approvals := filter (\<lambda>a. lock_bot (ap_organization a) (ap_bot a) s \<and>
                                  turn_referenced (ap_organization a) (Some (ap_turn a)) s) (cs_approvals cs),
        cs_questions := filter (\<lambda>q. lock_bot (qc_organization q) (qc_bot q) s \<and>
                                  turn_referenced (qc_organization q) (Some (qc_turn q)) s) (cs_questions cs),
        cs_settings := filter (\<lambda>p. lock_bot (tp_organization p) (tp_bot p) s) (cs_settings cs),
        cs_rules := filter (\<lambda>r. lock_bot (pr_organization r) (pr_bot r) s) (cs_rules cs)\<rparr>"

definition forget_account :: "string \<Rightarrow> bot_card_store \<Rightarrow> bot_card_store" where
  "forget_account user cs =
     (let unset = (\<lambda>who. if who = Some user then None else who) in
      cs\<lparr>cs_approvals := map (\<lambda>a. a\<lparr>ap_by := unset (ap_by a)\<rparr>) (cs_approvals cs),
         cs_questions := map (\<lambda>q. q\<lparr>qc_by := unset (qc_by q)\<rparr>) (cs_questions cs),
         cs_settings := map (\<lambda>p. p\<lparr>tp_by := unset (tp_by p)\<rparr>) (cs_settings cs),
         cs_rules := map (\<lambda>r. r\<lparr>pr_by := unset (pr_by r)\<rparr>) (cs_rules cs)\<rparr>)"

end
