(* ===== verification/Bot_Card_System.thy ===== *)
theory Bot_Card_System
  imports Bot_Cards
begin

section \<open>What moves the cards\<close>

text \<open>
  The handlers over the cards (\<^verbatim>\<open>decide-bot-approval\<close>, \<^verbatim>\<open>run-approved-call\<close>, \<^verbatim>\<open>answer-bot-question\<close>,
  \<^verbatim>\<open>dismiss-bot-question\<close>, \<^verbatim>\<open>set-bot-tool-decision\<close>, \<^verbatim>\<open>delete-bot-tool-grant\<close> and the two of the rules, under
  \<^verbatim>\<open>apps/api/src/bots-chat/commands\<close>), \<^verbatim>\<open>BotWaitingCardResolver\<close>, \<^verbatim>\<open>BotQuestionDecisionResolver\<close> and the calls
  of a turn, over the tables of turns and of cards together. A step is one transaction, or one call of
  a tool. An action carries what comes from outside: ids, the clock, what the owner's roles allow, the
  reviewer of the rules, and what a tool answered.

  The trace keeps what happened, newest first: what ran, what was asked, who said what.
\<close>

subsection \<open>The state\<close>

datatype card_event =
    Ev_ran string string string json "allowed_by option"
  | Ev_asked string approval_call "scope list option"
  | Ev_approved string string "scope list option" approval_reach
  | Ev_denied string string
  | Ev_expired string
  | Ev_called string string json "scope list option"
  | Ev_reported string bool

text \<open>
  A job in the hands of a worker: taken, or run, with what it ran under, the time zone of the asking
  turn and the words of the refusal when nothing ran.
\<close>

datatype card_worker =
    Call_taken bot_approval_entity string
  | Call_ran bot_approval_entity string "scope list option" "string option" "string option"

record card_system =
  cy_bots :: bot_system
  cy_cards :: bot_card_store
  cy_approvals :: "bot_approval_entity list"
  cy_questions :: "question_card_entity list"
  cy_turns :: "(call_context \<times> scope list option) list"
  cy_workers :: "card_worker list"
  cy_used :: "string list"
  cy_trace :: "card_event list"

abbreviation cy_store :: "card_system \<Rightarrow> bot_store" where
  "cy_store S \<equiv> sys_store (cy_bots S)"

subsection \<open>The actions\<close>

datatype card_action =
    Cd_bots bot_action
  | Cd_start string bot_preset
  | Cd_call nat "rule_reviewer option" "string \<Rightarrow> string \<Rightarrow> bool" string json string
  | Cd_ask nat string "bot_question list"
  | Cd_load_approval string
  | Cd_load_questions string
  | Cd_decide nat card_decision card_decider string string string date bot_engine_pick
  | Cd_expire nat date
  | Cd_answer nat "question_answer list" card_decider string string date bot_engine_pick
  | Cd_dismiss nat card_decider string string date bot_engine_pick
  | Cd_expire_questions nat date
  | Cd_take nat
  | Cd_run nat bool "string \<Rightarrow> string \<Rightarrow> bool" bot_preset
  | Cd_report nat string bool "string option" string string date bot_engine_pick
  | Cd_drop nat
  | Cd_set_decision string string string string "tool_choice option" string date
  | Cd_delete_grant string string string
  | Cd_add_rule string string string rule_effect string string date
  | Cd_delete_rule string string string

subsection \<open>A turn's calls\<close>

text \<open>A turn starts: who it acts for, its credential's scopes, and the settings of the bot as they are.\<close>

definition context_of :: "bot_turn \<Rightarrow> bot_preset \<Rightarrow> bot_card_store \<Rightarrow> call_context \<times> scope list option" where
  "context_of t preset cs =
     (\<lparr>cx_organization = bt_organization t, cx_bot = bt_bot t, cx_turn = bt_id t, cx_preset = preset,
       cx_origin = Some (bt_origin t), cx_permissions = permissions_for (bt_organization t) (bt_bot t) cs\<rparr>,
      bt_scopes t)"

text \<open>
  \<open>BotApprovalRequestFactory.request\<close>: the card of a call, or nothing when one waits. What the asking
  turn's credential grants is for the trace.
\<close>

definition raise_card :: "string \<Rightarrow> approval_call \<Rightarrow> scope list option \<Rightarrow> card_system \<Rightarrow> card_system" where
  "raise_card aid c granted S =
     (if aid \<in> set (cy_used S) then S
      else case request_approval aid c of
        Inl _ \<Rightarrow> S
      | Inr a \<Rightarrow>
          (case insert_pending a (cy_store S) (cy_cards S) of
             Inr (None, cs) \<Rightarrow>
               S\<lparr>cy_cards := cs, cy_used := aid # cy_used S,
                 cy_trace := Ev_asked aid c granted # cy_trace S\<rparr>
           | _ \<Rightarrow> S))"

definition make_call ::
  "toolbox \<Rightarrow> rule_reviewer option \<Rightarrow> (string \<Rightarrow> string \<Rightarrow> bool) \<Rightarrow> string \<Rightarrow> json \<Rightarrow> string \<Rightarrow>
     call_context \<times> scope list option \<Rightarrow> card_system \<Rightarrow> card_system" where
  "make_call tb reviewer can name input aid turn S =
     (case call_tool tb reviewer (snd turn) can (fst turn) name input of
        Some (Call_runs parsed why) \<Rightarrow>
          S\<lparr>cy_trace := Ev_ran (cx_bot (fst turn)) (cx_turn (fst turn)) name parsed why # cy_trace S\<rparr>
      | Some (Call_asks c) \<Rightarrow> raise_card aid c (snd turn) S
      | _ \<Rightarrow> S)"

definition raise_questions :: "string \<Rightarrow> bot_question list \<Rightarrow> call_context \<Rightarrow> card_system \<Rightarrow> card_system" where
  "raise_questions qid qs ctx S =
     (if qid \<in> set (cy_used S) then S
      else case ask_questions qid (cx_organization ctx) (cx_bot ctx) (cx_turn ctx) qs (questions_summary qs) of
        Inl _ \<Rightarrow> S
      | Inr q \<Rightarrow>
          (case insert_pending_questions q (cy_store S) (cy_cards S) of
             Inr (None, cs) \<Rightarrow> S\<lparr>cy_cards := cs, cy_used := qid # cy_used S\<rparr>
           | _ \<Rightarrow> S))"

subsection \<open>Deciding\<close>

text \<open>A write that landed: both sets of tables, the ids it used, and what happened.\<close>

definition landed ::
  "card_system \<Rightarrow> string list \<Rightarrow> card_event list \<Rightarrow> card_error + bool \<times> bot_store \<times> bot_card_store \<Rightarrow>
     card_system option" where
  "landed S uuids evs r =
     (case r of
        Inr (True, s, cs) \<Rightarrow>
          Some (S\<lparr>cy_bots := with_store (cy_bots S) uuids (Inr s), cy_cards := cs, cy_trace := evs @ cy_trace S\<rparr>)
      | _ \<Rightarrow> None)"

definition decision_event :: "bot_approval_entity \<Rightarrow> card_event" where
  "decision_event a =
     (if ap_status a = Ap_approved
      then Ev_approved (ap_id a) (the (ap_by a)) (ap_scopes a) (the (ap_reach a))
      else if ap_status a = Ap_denied then Ev_denied (ap_id a) (the (ap_by a)) else Ev_expired (ap_id a))"

definition turn_uuids :: "approval_effects \<Rightarrow> string \<Rightarrow> string \<Rightarrow> string list" where
  "turn_uuids effects tid mid =
     (if ef_continuation effects \<noteq> None then [tid, mid] else if ef_line effects \<noteq> None then [mid] else [])"

text \<open>\<open>DecideBotApprovalCommandHandler\<close>; a stop then cancels the asking turn.\<close>

definition cancel_asking :: "string \<Rightarrow> date \<Rightarrow> bool \<Rightarrow> card_system \<Rightarrow> card_system" where
  "cancel_asking turn now stops S =
     (if \<not> stops then S
      else S\<lparr>cy_bots := bot_apply (Act_cancel (length (sys_hands (cy_bots S))) now)
                          (bot_apply (Act_load turn) (cy_bots S))\<rparr>)"

definition decide_bot_approval ::
  "string \<Rightarrow> string \<Rightarrow> string \<Rightarrow> date \<Rightarrow> card_decision \<Rightarrow> card_decider \<Rightarrow> bot_engine_pick \<Rightarrow>
     bot_approval_entity \<Rightarrow> card_system \<Rightarrow> card_system" where
  "decide_bot_approval tid mid pid now decision decider pick a S =
     (if ap_status a \<noteq> Ap_pending \<or> decision \<notin> set (available_decisions a) then S
      else case decide_approval tid mid pid now decision decider (ap_organization a) (pick\<lparr>pick_bot := ap_bot a\<rparr>)
                  (find_turn (ap_turn a) (cy_store S)) a of
        Inl _ \<Rightarrow> S
      | Inr (a', effects, stops) \<Rightarrow>
          (case landed S (turn_uuids effects tid mid) [decision_event a']
                  (save_transition now a' effects (cy_store S) (cy_cards S)) of
             None \<Rightarrow> S
           | Some S' \<Rightarrow> cancel_asking (ap_turn a) now stops S'))"

definition expire_approval :: "date \<Rightarrow> bot_approval_entity \<Rightarrow> card_system \<Rightarrow> card_system" where
  "expire_approval now a S =
     (case expire_card now a of
        Inl _ \<Rightarrow> S
      | Inr a' \<Rightarrow>
          (case landed S [] [decision_event a'] (save_transition now a' no_effects (cy_store S) (cy_cards S)) of
             None \<Rightarrow> S | Some S' \<Rightarrow> S'))"

text \<open>\<open>BotQuestionDecisionResolver.decide\<close>, on the card as it was decided.\<close>

definition decide_question ::
  "string \<Rightarrow> string \<Rightarrow> date \<Rightarrow> card_decider \<Rightarrow> bot_engine_pick \<Rightarrow>
     domain_error + question_card_entity \<Rightarrow> card_system \<Rightarrow> card_system" where
  "decide_question tid mid now decider pick decided S =
     (case decided of
        Inl _ \<Rightarrow> S
      | Inr q \<Rightarrow>
          (case question_turn tid mid now (qc_organization q) (pick\<lparr>pick_bot := qc_bot q\<rparr>)
                  (find_turn (qc_turn q) (cy_store S)) decider q of
             Inl _ \<Rightarrow> S
           | Inr turn \<Rightarrow>
               (case landed S [tid, mid] [] (save_questions now q (Some turn) (cy_store S) (cy_cards S)) of
                  None \<Rightarrow> S | Some S' \<Rightarrow> S')))"

definition expire_question :: "date \<Rightarrow> question_card_entity \<Rightarrow> card_system \<Rightarrow> card_system" where
  "expire_question now q S =
     (case expire_questions now q of
        Inl _ \<Rightarrow> S
      | Inr q' \<Rightarrow>
          (case landed S [] [] (save_questions now q' None (cy_store S) (cy_cards S)) of
             None \<Rightarrow> S | Some S' \<Rightarrow> S'))"

subsection \<open>Carrying out an approved call\<close>

text \<open>A worker takes the job: nothing to do unless the approval is approved with no result.\<close>

definition take_card_job :: "nat \<Rightarrow> card_system \<Rightarrow> card_system" where
  "take_card_job k S =
     (let cs = cy_cards S in
      if k \<ge> length (cs_jobs cs) then S
      else case cs_jobs cs ! k of
        Approval_changed _ _ \<Rightarrow> S
      | Run_approved_call aid by' \<Rightarrow>
          (let S' = S\<lparr>cy_cards := cs\<lparr>cs_jobs := remove_at k (cs_jobs cs)\<rparr>\<rparr> in
           case find_approval aid cs of
             None \<Rightarrow> S'
           | Some r \<Rightarrow>
               if approval_running r
               then S'\<lparr>cy_workers := cy_workers S @ [Call_taken (bot_approval_of r) by']\<rparr> else S'))"

definition owner_gone :: string where
  "owner_gone = ''Not run: the bot's owner can no longer act in this workspace.''"

text \<open>\<open>BotApprovedCallResolver.resolve\<close>: as the owner, whose scope and settings are read now.\<close>

definition resolve_call ::
  "toolbox \<Rightarrow> bool \<Rightarrow> (string \<Rightarrow> string \<Rightarrow> bool) \<Rightarrow> bot_preset \<Rightarrow> scope list option \<Rightarrow> bot_approval_entity \<Rightarrow>
     bot_card_store \<Rightarrow> string + json" where
  "resolve_call tb member can preset granted a cs =
     (if \<not> member then Inl owner_gone
      else run_approved tb granted can (permissions_for (ap_organization a) (ap_bot a) cs) preset
             (ap_tool a) (ap_input a))"

definition run_card_job ::
  "toolbox \<Rightarrow> nat \<Rightarrow> bool \<Rightarrow> (string \<Rightarrow> string \<Rightarrow> bool) \<Rightarrow> bot_preset \<Rightarrow> card_system \<Rightarrow> card_system" where
  "run_card_job tb k member can preset S =
     (if k \<ge> length (cy_workers S) then S
      else case cy_workers S ! k of
        Call_ran _ _ _ _ _ \<Rightarrow> S
      | Call_taken a by' \<Rightarrow>
          (let asked = find_turn (ap_turn a) (cy_store S);
               granted = decision_scopes asked (ap_scopes a);
               zone = Option.bind asked bt_time_zone
           in case resolve_call tb member can preset granted a (cy_cards S) of
                Inl words \<Rightarrow> S\<lparr>cy_workers := (cy_workers S)[k := Call_ran a by' granted zone (Some words)]\<rparr>
              | Inr input \<Rightarrow>
                  S\<lparr>cy_workers := (cy_workers S)[k := Call_ran a by' granted zone None],
                    cy_trace := Ev_called (ap_id a) (ap_tool a) input granted # cy_trace S\<rparr>))"

text \<open>Its answer, and the turn that reports it, unless the account that approved it is gone.\<close>

definition report_card_job ::
  "nat \<Rightarrow> string \<Rightarrow> bool \<Rightarrow> string option \<Rightarrow> string \<Rightarrow> string \<Rightarrow> date \<Rightarrow> bot_engine_pick \<Rightarrow>
     card_system \<Rightarrow> card_system" where
  "report_card_job k answer bad session tid mid now pick S =
     (if k \<ge> length (cy_workers S) then S
      else case cy_workers S ! k of
        Call_taken _ _ \<Rightarrow> S
      | Call_ran a by' granted zone refused \<Rightarrow>
          (case (case refused of
                   None \<Rightarrow> record_result answer bad session a
                 | Some words \<Rightarrow> record_result words True None a) of
             Inl _ \<Rightarrow> S
           | Inr a' \<Rightarrow>
               (case (if truthy (ap_by a')
                      then map_sum id Some (opened_turn tid mid now
                             (opening_props Opens_approval (ap_organization a') (the (ap_by a'))
                                (pick\<lparr>pick_bot := ap_bot a'\<rparr>) zone granted)
                             (approval_finished_words a' by'))
                      else Inr None) of
                  Inl _ \<Rightarrow> S
                | Inr continuation \<Rightarrow>
                    (let effects = no_effects\<lparr>ef_continuation := continuation\<rparr>;
                         S' = S\<lparr>cy_workers := remove_at k (cy_workers S)\<rparr>
                     in case save_transition now a' effects (cy_store S) (cy_cards S) of
                          Inl _ \<Rightarrow> S
                        | r \<Rightarrow>
                            (case landed S' (turn_uuids effects tid mid) [Ev_reported (ap_id a') (ap_status a' = Ap_failed)] r of
                               None \<Rightarrow> S' | Some S'' \<Rightarrow> S'')))))"

text \<open>A worker dies, and its job is delivered again.\<close>

definition drop_card_job :: "nat \<Rightarrow> card_system \<Rightarrow> card_system" where
  "drop_card_job k S =
     (if k \<ge> length (cy_workers S) then S
      else (let (a, by') = (case cy_workers S ! k of Call_taken a b \<Rightarrow> (a, b) | Call_ran a b _ _ _ \<Rightarrow> (a, b)) in
            S\<lparr>cy_cards := stage_card_jobs [Run_approved_call (ap_id a) by'] (cy_cards S),
              cy_workers := remove_at k (cy_workers S)\<rparr>))"

subsection \<open>The owner's settings\<close>

definition set_bot_tool_decision ::
  "toolbox \<Rightarrow> string \<Rightarrow> string \<Rightarrow> string \<Rightarrow> string \<Rightarrow> tool_choice option \<Rightarrow> string \<Rightarrow> date \<Rightarrow>
     card_system \<Rightarrow> card_system" where
  "set_bot_tool_decision tb pid org bid tool choice user now S =
     (case find (\<lambda>d. spec_name d = tool) (tb_specs tb) of
        None \<Rightarrow> S
      | Some d \<Rightarrow>
          (case choice of
             None \<Rightarrow> S\<lparr>cy_cards := clear_decision org bid tool (cy_cards S)\<rparr>
           | Some c \<Rightarrow>
               if c = Choice_allow \<and> trait_per_call (spec_traits d) then S
               else (case decide_tool pid now org bid tool c (Some user) of
                       Inl _ \<Rightarrow> S
                     | Inr p \<Rightarrow> S\<lparr>cy_cards := snd (upsert_decision p (cy_store S) (cy_cards S))\<rparr>)))"

definition create_bot_permission_rule ::
  "string \<Rightarrow> string \<Rightarrow> string \<Rightarrow> rule_effect \<Rightarrow> string \<Rightarrow> string \<Rightarrow> date \<Rightarrow> card_system \<Rightarrow> card_system" where
  "create_bot_permission_rule rid org bid effect text user now S =
     (case write_rule rid now org bid effect text (Some user) of
        Inl _ \<Rightarrow> S
      | Inr r \<Rightarrow> S\<lparr>cy_cards := snd (insert_rule r bot_permission_rules_max (cy_store S) (cy_cards S))\<rparr>)"

subsection \<open>The system\<close>

text \<open>
  What the bots' own system does, and what it takes with it of the cards.
\<close>

definition bots_move :: "bot_action \<Rightarrow> card_system \<Rightarrow> card_system" where
  "bots_move b S =
     (let bots = bot_apply b (cy_bots S);
          cs = cascade_cards (sys_store bots) (cy_cards S)
      in S\<lparr>cy_bots := bots,
           cy_cards := (case b of Act_delete_account user \<Rightarrow> forget_account user cs | _ \<Rightarrow> cs)\<rparr>)"

definition card_apply :: "toolbox \<Rightarrow> card_action \<Rightarrow> card_system \<Rightarrow> card_system" where
  "card_apply tb action S =
     (case action of
        Cd_bots b \<Rightarrow> bots_move b S
      | Cd_start tid preset \<Rightarrow>
          (case find_turn tid (cy_store S) of
             None \<Rightarrow> S | Some t \<Rightarrow> S\<lparr>cy_turns := cy_turns S @ [context_of t preset (cy_cards S)]\<rparr>)
      | Cd_call i reviewer can name input aid \<Rightarrow>
          if i < length (cy_turns S) then make_call tb reviewer can name input aid (cy_turns S ! i) S else S
      | Cd_ask i qid qs \<Rightarrow>
          if i < length (cy_turns S) then raise_questions qid qs (fst (cy_turns S ! i)) S else S
      | Cd_load_approval aid \<Rightarrow>
          (case find_approval aid (cy_cards S) of
             None \<Rightarrow> S | Some r \<Rightarrow> S\<lparr>cy_approvals := cy_approvals S @ [bot_approval_of r]\<rparr>)
      | Cd_load_questions qid \<Rightarrow>
          (case find_questions qid (cy_cards S) of
             None \<Rightarrow> S | Some r \<Rightarrow> S\<lparr>cy_questions := cy_questions S @ [question_card_of r]\<rparr>)
      | Cd_decide j decision decider tid mid pid now pick \<Rightarrow>
          if j < length (cy_approvals S) \<and> fresh [tid, mid] (cy_bots S) \<and> pid \<notin> set (cy_used S)
          then decide_bot_approval tid mid pid now decision decider pick (cy_approvals S ! j)
                 (S\<lparr>cy_used := pid # cy_used S\<rparr>) else S
      | Cd_expire j now \<Rightarrow>
          if j < length (cy_approvals S) then expire_approval now (cy_approvals S ! j) S else S
      | Cd_answer j answers decider tid mid now pick \<Rightarrow>
          if j < length (cy_questions S) \<and> fresh [tid, mid] (cy_bots S)
          then decide_question tid mid now decider pick
                 (answer_questions (dc_user decider) now answers (dc_scopes decider) (cy_questions S ! j)) S else S
      | Cd_dismiss j decider tid mid now pick \<Rightarrow>
          if j < length (cy_questions S) \<and> fresh [tid, mid] (cy_bots S)
          then decide_question tid mid now decider pick
                 (dismiss_questions (dc_user decider) now (dc_note decider) (dc_scopes decider) (cy_questions S ! j)) S else S
      | Cd_expire_questions j now \<Rightarrow>
          if j < length (cy_questions S) then expire_question now (cy_questions S ! j) S else S
      | Cd_take k \<Rightarrow> take_card_job k S
      | Cd_run k member can preset \<Rightarrow> run_card_job tb k member can preset S
      | Cd_report k answer bad session tid mid now pick \<Rightarrow>
          if fresh [tid, mid] (cy_bots S) then report_card_job k answer bad session tid mid now pick S else S
      | Cd_drop k \<Rightarrow> drop_card_job k S
      | Cd_set_decision pid org bid tool choice user now \<Rightarrow>
          if pid \<in> set (cy_used S) then S
          else set_bot_tool_decision tb pid org bid tool choice user now (S\<lparr>cy_used := pid # cy_used S\<rparr>)
      | Cd_delete_grant org bid gid \<Rightarrow> S\<lparr>cy_cards := snd (delete_grant org bid gid (cy_cards S))\<rparr>
      | Cd_add_rule rid org bid effect text user now \<Rightarrow>
          if rid \<in> set (cy_used S) then S
          else create_bot_permission_rule rid org bid effect text user now (S\<lparr>cy_used := rid # cy_used S\<rparr>)
      | Cd_delete_rule org bid rid \<Rightarrow> S\<lparr>cy_cards := snd (delete_rule org bid rid (cy_cards S))\<rparr>)"

definition card_run :: "toolbox \<Rightarrow> card_action list \<Rightarrow> card_system \<Rightarrow> card_system" where
  "card_run tb as S = fold (card_apply tb) as S"

definition empty_cards :: bot_card_store where
  "empty_cards = \<lparr>cs_approvals = [], cs_questions = [], cs_settings = [], cs_rules = [], cs_jobs = []\<rparr>"

definition empty_card_system :: card_system where
  "empty_card_system =
     \<lparr>cy_bots = empty_system, cy_cards = empty_cards, cy_approvals = [], cy_questions = [], cy_turns = [],
      cy_workers = [], cy_used = [], cy_trace = []\<rparr>"

end
