(* ===== verification/Bot_Card_Moves.thy ===== *)
theory Bot_Card_Moves
  imports Bot_Card_System Bot_Liveness
begin

section \<open>What a step of the cards moves\<close>

text \<open>
  The steps of Bot_Card_System, one rule for each way a step leaves the state. A step is one of them
  (\<open>card_apply_moves\<close>), and what it does to the turns is a run of the bots' own system. Invariants
  are proved over the rules.
\<close>

subsection \<open>The parts a move is told by\<close>

definition fits_call :: "approval_call \<Rightarrow> 'a bot_approval_scheme \<Rightarrow> bool" where
  "fits_call c a \<longleftrightarrow>
     ap_organization a = ac_organization c \<and> ap_bot a = ac_bot c \<and> ap_turn a = ac_turn c \<and>
     ap_tool a = ac_tool c \<and> ap_input a = ac_input c \<and> ap_subject a = ac_subject c \<and>
     ap_per_call a = ac_per_call c"

definition same_card :: "'a bot_approval_scheme \<Rightarrow> 'b bot_approval_scheme \<Rightarrow> bool" where
  "same_card a b \<longleftrightarrow>
     ap_id a = ap_id b \<and> ap_organization a = ap_organization b \<and> ap_bot a = ap_bot b \<and> ap_turn a = ap_turn b \<and>
     ap_tool a = ap_tool b \<and> ap_input a = ap_input b \<and> ap_subject a = ap_subject b \<and> ap_per_call a = ap_per_call b"

text \<open>The bots' system went on, and no bot went.\<close>

definition bots_on :: "bot_system \<Rightarrow> bot_system \<Rightarrow> bool" where
  "bots_on B B' \<longleftrightarrow> (\<exists>bs. B' = bot_run bs B) \<and> bot_keys (sys_store B') = bot_keys (sys_store B)"

definition decided_card :: "bot_approval_entity \<Rightarrow> bot_approval_entity \<Rightarrow> bool" where
  "decided_card a a' \<longleftrightarrow>
     same_card a' a \<and> ap_loaded a' = ap_loaded a \<and> ap_status a = Ap_pending \<and> ap_result a' = ap_result a \<and>
     ap_status a' \<in> {Ap_approved, Ap_denied, Ap_expired}"

definition reported_card :: "bot_approval_entity \<Rightarrow> bot_approval_entity \<Rightarrow> bool" where
  "reported_card a a' \<longleftrightarrow>
     same_card a' a \<and> ap_loaded a' = ap_loaded a \<and> ap_scopes a' = ap_scopes a \<and> ap_status a = Ap_approved \<and>
     ap_result a = None \<and> ap_result a' \<noteq> None \<and> ap_status a' \<in> {Ap_approved, Ap_failed}"

definition is_grant :: "string \<Rightarrow> string \<Rightarrow> tool_permission \<Rightarrow> bool" where
  "is_grant org bid p = (tp_organization p = org \<and> tp_bot p = bid \<and> tp_subject p \<noteq> None)"

definition settings_with :: "tool_permission \<Rightarrow> tool_permission list \<Rightarrow> tool_permission list \<Rightarrow> bool" where
  "settings_with p ps ps' \<longleftrightarrow>
     ps' = ps \<or>
     tp_subject p = None \<and>
       ps' = map (\<lambda>r. if setting_key r = setting_key p then r\<lparr>tp_decision := tp_decision p, tp_by := tp_by p\<rparr> else r) ps \<or>
     ps' = ps @ [p] \<and>
       (tp_subject p \<noteq> None \<longrightarrow>
          length (filter (is_grant (tp_organization p) (tp_bot p)) ps) < bot_tool_grants_max)"

text \<open>What a decision leaves standing, if anything: a setting of the card's tool.\<close>

definition leaves_standing :: "'a bot_approval_scheme \<Rightarrow> tool_permission list \<Rightarrow> tool_permission list \<Rightarrow> bool" where
  "leaves_standing a ps ps' \<longleftrightarrow>
     ps' = ps \<or> (\<exists>p. \<not> ap_per_call a \<and> tp_tool p = ap_tool a \<and> settings_with p ps ps')"

definition saved :: "bot_approval_entity \<Rightarrow> tool_permission list \<Rightarrow> card_job list \<Rightarrow> bot_card_store \<Rightarrow> bot_card_store" where
  "saved a ps js cs =
     cs\<lparr>cs_approvals := map (\<lambda>r. if approval_hit a r then approval_columns a r else r) (cs_approvals cs),
        cs_settings := ps, cs_jobs := cs_jobs cs @ js\<rparr>"

definition run_jobs_of :: "bot_approval_entity \<Rightarrow> card_job list \<Rightarrow> bool" where
  "run_jobs_of a js \<longleftrightarrow> (ap_status a = Ap_approved \<longrightarrow> (\<exists>by'. Run_approved_call (ap_id a) by' \<in> set js))"

fun worker_card :: "card_worker \<Rightarrow> bot_approval_entity" where
  "worker_card (Call_taken a _) = a"
| "worker_card (Call_ran a _ _ _ _) = a"

subsection \<open>The moves\<close>

inductive card_move :: "toolbox \<Rightarrow> card_system \<Rightarrow> card_system \<Rightarrow> bool" for tb :: toolbox and S :: card_system where
  Move_stay: "card_move tb S (S\<lparr>cy_used := us @ cy_used S\<rparr>)"
| Move_bots: "card_move tb S (bots_move b S)"
| Move_turn: "t \<in> set (st_turns (cy_store S)) \<Longrightarrow>
    card_move tb S (S\<lparr>cy_turns := cy_turns S @ [context_of t preset (cy_cards S)]\<rparr>)"
| Move_ran: "card_move tb S (S\<lparr>cy_trace := Ev_ran bid tid tool parsed why # cy_trace S\<rparr>)"
| Move_asked: "\<lbrakk> (ctx, granted) \<in> set (cy_turns S); ac_turn c = cx_turn ctx; aid \<notin> set (cy_used S);
      request_approval aid c = Inr a; insert_pending a (cy_store S) (cy_cards S) = Inr (None, cs);
      d \<in> set (tb_specs tb); spec_name d = ac_tool c; ac_per_call c = trait_per_call (spec_traits d) \<rbrakk> \<Longrightarrow>
    card_move tb S (S\<lparr>cy_cards := cs, cy_used := aid # cy_used S, cy_trace := Ev_asked aid c granted # cy_trace S\<rparr>)"
| Move_questions: "\<lbrakk> qid \<notin> set (cy_used S); ask_questions qid org bid tid qs summary = Inr q;
      insert_pending_questions q (cy_store S) (cy_cards S) = Inr (None, cs) \<rbrakk> \<Longrightarrow>
    card_move tb S (S\<lparr>cy_cards := cs, cy_used := qid # cy_used S\<rparr>)"
| Move_load: "r \<in> set (cs_approvals (cy_cards S)) \<Longrightarrow>
    card_move tb S (S\<lparr>cy_approvals := cy_approvals S @ [bot_approval_of r]\<rparr>)"
| Move_load_questions: "r \<in> set (cs_questions (cy_cards S)) \<Longrightarrow>
    card_move tb S (S\<lparr>cy_questions := cy_questions S @ [question_card_of r]\<rparr>)"
| Move_decided: "\<lbrakk> a \<in> set (cy_approvals S); decided_card a a';
      length (filter (approval_hit a') (cs_approvals (cy_cards S))) = 1;
      leaves_standing a' (cs_settings (cy_cards S)) ps; run_jobs_of a' js; bots_on (cy_bots S) B \<rbrakk> \<Longrightarrow>
    card_move tb S (S\<lparr>cy_bots := B, cy_cards := saved a' ps js (cy_cards S), cy_used := us @ cy_used S,
      cy_trace := decision_event a' # cy_trace S\<rparr>)"
| Move_decided_questions: "\<lbrakk> q \<in> set (cy_questions S); qc_status q = Qu_pending; qc_status q' \<noteq> Qu_pending;
      qc_id q' = qc_id q; qc_organization q' = qc_organization q; qc_bot q' = qc_bot q; bots_on (cy_bots S) B \<rbrakk> \<Longrightarrow>
    card_move tb S (S\<lparr>cy_bots := B, cy_cards := (cy_cards S)\<lparr>cs_questions :=
      map (\<lambda>r. if question_hit q' r then question_columns q' r else r) (cs_questions (cy_cards S))\<rparr>\<rparr>)"
| Move_taken: "\<lbrakk> k < length (cs_jobs (cy_cards S)); cs_jobs (cy_cards S) ! k = Run_approved_call aid by';
      find_approval aid (cy_cards S) = Some r; approval_running r \<rbrakk> \<Longrightarrow>
    card_move tb S (S\<lparr>cy_cards := (cy_cards S)\<lparr>cs_jobs := remove_at k (cs_jobs (cy_cards S))\<rparr>,
      cy_workers := cy_workers S @ [Call_taken (bot_approval_of r) by']\<rparr>)"
| Move_taken_late: "\<lbrakk> k < length (cs_jobs (cy_cards S)); cs_jobs (cy_cards S) ! k = Run_approved_call aid by';
      \<forall>r. find_approval aid (cy_cards S) = Some r \<longrightarrow> \<not> approval_running r \<rbrakk> \<Longrightarrow>
    card_move tb S (S\<lparr>cy_cards := (cy_cards S)\<lparr>cs_jobs := remove_at k (cs_jobs (cy_cards S))\<rparr>\<rparr>)"
| Move_run: "\<lbrakk> k < length (cy_workers S); cy_workers S ! k = Call_taken a by';
      granted = decision_scopes (find_turn (ap_turn a) (cy_store S)) (ap_scopes a);
      evs = [] \<or> evs = [Ev_called (ap_id a) (ap_tool a) (ap_input a) granted] \<rbrakk> \<Longrightarrow>
    card_move tb S (S\<lparr>cy_workers := (cy_workers S)[k := Call_ran a by' granted zone refused],
      cy_trace := evs @ cy_trace S\<rparr>)"
| Move_reported: "\<lbrakk> k < length (cy_workers S); worker_card (cy_workers S ! k) = a; reported_card a a';
      length (filter (approval_hit a') (cs_approvals (cy_cards S))) = 1; bots_on (cy_bots S) B \<rbrakk> \<Longrightarrow>
    card_move tb S (S\<lparr>cy_bots := B, cy_cards := saved a' (cs_settings (cy_cards S)) js (cy_cards S),
      cy_workers := remove_at k (cy_workers S), cy_trace := Ev_reported (ap_id a') failed # cy_trace S\<rparr>)"
| Move_reported_late: "\<lbrakk> k < length (cy_workers S); worker_card (cy_workers S ! k) = a; reported_card a a';
      length (filter (approval_hit a') (cs_approvals (cy_cards S))) \<noteq> 1 \<rbrakk> \<Longrightarrow>
    card_move tb S (S\<lparr>cy_workers := remove_at k (cy_workers S)\<rparr>)"
| Move_dropped: "\<lbrakk> k < length (cy_workers S); worker_card (cy_workers S ! k) = a \<rbrakk> \<Longrightarrow>
    card_move tb S (S\<lparr>cy_cards := stage_card_jobs [Run_approved_call (ap_id a) by'] (cy_cards S),
      cy_workers := remove_at k (cy_workers S)\<rparr>)"
| Move_setting: "\<lbrakk> settings_with p (cs_settings (cy_cards S)) ps; tp_subject p = None;
      \<And>d. find (\<lambda>d. spec_name d = tp_tool p) (tb_specs tb) = Some d \<Longrightarrow> trait_per_call (spec_traits d) \<Longrightarrow>
        tp_decision p \<noteq> Choice_allow \<rbrakk> \<Longrightarrow>
    card_move tb S (S\<lparr>cy_cards := (cy_cards S)\<lparr>cs_settings := ps\<rparr>, cy_used := us @ cy_used S\<rparr>)"
| Move_unset: "card_move tb S (S\<lparr>cy_cards := (cy_cards S)\<lparr>cs_settings := filter keep (cs_settings (cy_cards S))\<rparr>,
      cy_used := us @ cy_used S\<rparr>)"
| Move_rule: "insert_rule r bot_permission_rules_max (cy_store S) (cy_cards S) = (Rule_inserted, cs) \<Longrightarrow>
    card_move tb S (S\<lparr>cy_cards := cs, cy_used := us @ cy_used S\<rparr>)"
| Move_unrule: "card_move tb S (S\<lparr>cy_cards := (cy_cards S)\<lparr>cs_rules := filter keep (cs_rules (cy_cards S))\<rparr>\<rparr>)"

end
