(* ===== verification/Bot_Card_Inv.thy ===== *)
theory Bot_Card_Inv
  imports Bot_Card_Moves
begin

section \<open>What the cards always satisfy\<close>

text \<open>
  The invariant of the cards: what the trace says of a card, how many wait, what the owner's settings
  may hold, and that a call that was approved is on its way. Each part is kept by every move.
\<close>

subsection \<open>What two credentials cover\<close>

definition covers :: "scope list option \<Rightarrow> scope \<Rightarrow> bool" where
  "covers granted s = (case granted of None \<Rightarrow> True | Some g \<Rightarrow> s \<in> expand_scopes g)"

lemma parse_scope_write:
  assumes "snd (parse_scope w) = Some ''write''"
  shows "parse_scope (fst (parse_scope w) @ '':read'') = (fst (parse_scope w), Some ''read'')"
proof -
  obtain r rest where split: "split_on (CHR '':'') w = r # rest" by (cases "split_on (CHR '':'') w") auto
  then have r: "CHR '':'' \<notin> set r" using split_on_parts [of r "CHR '':''" w] by auto
  have "fst (parse_scope w) = r" using split by (auto simp: parse_scope_def split: list.split)
  moreover have "split_on (CHR '':'') (r @ '':read'') = [r, ''read'']"
    using split_on_append [OF r, of "''read''"] by simp
  ultimately show ?thesis by (simp add: parse_scope_def)
qed

text \<open>What is implied implies nothing more, so an intersection of what two sets cover covers only itself.\<close>

lemma covers_intersect: "covers (intersect_scopes a b) s \<longleftrightarrow> covers a s \<and> covers b s"
proof -
  have implied: "fst (parse_scope w) @ '':read'' \<in> expand_scopes g"
    if w: "w \<in> expand_scopes g" "snd (parse_scope w) = Some ''write''" for w g
  proof (cases "w \<in> set g")
    case True
    then show ?thesis using w(2) by (auto simp: expand_scopes_iff)
  next
    case False
    then obtain v where "snd (parse_scope v) = Some ''write''" "w = fst (parse_scope v) @ '':read''"
      using w(1) by (auto simp: expand_scopes_iff)
    then show ?thesis using parse_scope_write [of v] w(2) by simp
  qed
  have closed: "s \<in> expand_scopes (sorted_list_of_set (expand_scopes g \<inter> expand_scopes h)) \<longleftrightarrow>
      s \<in> expand_scopes g \<and> s \<in> expand_scopes h" for g h
  proof -
    have fin: "finite (expand_scopes g \<inter> expand_scopes h)"
      by (intro finite_Int disjI1) (simp only: expand_scopes_def List.finite_set)
    show ?thesis
      unfolding expand_scopes_iff [of s "sorted_list_of_set _"] set_sorted_list_of_set [OF fin]
      using implied by blast
  qed
  show ?thesis by (cases a; cases b) (simp_all add: covers_def intersect_scopes_def closed)
qed

subsection \<open>What the trace says\<close>

fun decides :: "string \<Rightarrow> card_event \<Rightarrow> bool" where
  "decides i (Ev_approved j _ _ _) = (j = i)"
| "decides i (Ev_denied j _) = (j = i)"
| "decides i (Ev_expired j) = (j = i)"
| "decides i _ = False"

fun reports :: "string \<Rightarrow> card_event \<Rightarrow> bool" where
  "reports i (Ev_reported j _) = (j = i)"
| "reports i _ = False"

fun about :: "string \<Rightarrow> card_event \<Rightarrow> bool" where
  "about i (Ev_ran _ _ _ _ _) = False"
| "about i (Ev_asked j _ _) = (j = i)"
| "about i (Ev_called j _ _ _) = (j = i)"
| "about i e = (decides i e \<or> reports i e)"

text \<open>
  A trace where what happened to a card happened in order and once: it was asked for before anything
  else, decided at most once, run only on the call it was asked for, after a yes and under no scope
  the asking turn's or the decider's credential did not cover, and reported once.
\<close>

fun well_told :: "card_event list \<Rightarrow> bool" where
  "well_told [] = True"
| "well_told (e # tr) =
     (well_told tr \<and>
      (case e of
         Ev_ran _ _ _ _ _ \<Rightarrow> True
       | Ev_asked i c g \<Rightarrow> (\<forall>x \<in> set tr. \<not> about i x)
       | Ev_called i tool input granted \<Rightarrow>
           (\<exists>c g by' scopes reach. Ev_asked i c g \<in> set tr \<and> Ev_approved i by' scopes reach \<in> set tr \<and>
              tool = ac_tool c \<and> input = ac_input c \<and>
              (\<forall>s. covers granted s \<longrightarrow> covers g s \<and> covers scopes s))
       | Ev_reported i _ \<Rightarrow>
           (\<exists>by' scopes reach. Ev_approved i by' scopes reach \<in> set tr) \<and> (\<forall>x \<in> set tr. \<not> reports i x)
       | Ev_approved i _ _ _ \<Rightarrow> (\<exists>c g. Ev_asked i c g \<in> set tr) \<and> (\<forall>x \<in> set tr. \<not> decides i x)
       | Ev_denied i _ \<Rightarrow> (\<exists>c g. Ev_asked i c g \<in> set tr) \<and> (\<forall>x \<in> set tr. \<not> decides i x)
       | Ev_expired i \<Rightarrow> (\<exists>c g. Ev_asked i c g \<in> set tr) \<and> (\<forall>x \<in> set tr. \<not> decides i x)))"

definition known :: "card_event list \<Rightarrow> 'a bot_approval_scheme \<Rightarrow> bool" where
  "known tr a \<longleftrightarrow>
     (\<exists>c g. Ev_asked (ap_id a) c g \<in> set tr \<and> fits_call c a) \<and>
     (ap_status a \<in> {Ap_approved, Ap_failed} \<longrightarrow>
        (\<exists>by' reach. Ev_approved (ap_id a) by' (ap_scopes a) reach \<in> set tr))"

definition open_in :: "card_event list \<Rightarrow> 'a bot_approval_scheme \<Rightarrow> bool" where
  "open_in tr a \<longleftrightarrow>
     (ap_status a = Ap_pending \<longrightarrow> ap_result a = None \<and> (\<forall>x \<in> set tr. \<not> decides (ap_id a) x)) \<and>
     (ap_status a = Ap_pending \<or> approval_running a \<longrightarrow> (\<forall>x \<in> set tr. \<not> reports (ap_id a) x))"

subsection \<open>The parts of the invariant\<close>

definition granted_turn :: "bot_system \<Rightarrow> string \<Rightarrow> scope list option \<Rightarrow> bool" where
  "granted_turn B tid g \<longleftrightarrow>
     tid \<in> set (sys_used B) \<and> (\<forall>t \<in> set (st_turns (sys_store B)). bt_id t = tid \<longrightarrow> bt_scopes t = g)"

definition turns_fit :: "card_system \<Rightarrow> bool" where
  "turns_fit S \<longleftrightarrow>
     system_inv (cy_bots S) \<and>
     (\<forall>(ctx, g) \<in> set (cy_turns S). granted_turn (cy_bots S) (cx_turn ctx) g) \<and>
     (\<forall>i c g. Ev_asked i c g \<in> set (cy_trace S) \<longrightarrow> granted_turn (cy_bots S) (ac_turn c) g)"

definition row_fits :: "card_system \<Rightarrow> bot_approval \<Rightarrow> bool" where
  "row_fits S r \<longleftrightarrow>
     known (cy_trace S) r \<and> open_in (cy_trace S) r \<and> (ap_organization r, ap_bot r) \<in> bot_keys (cy_store S)"

definition card_worker_fits :: "card_event list \<Rightarrow> card_worker \<Rightarrow> bool" where
  "card_worker_fits tr w \<longleftrightarrow>
     known tr (worker_card w) \<and> approval_running (worker_card w) \<and> ap_loaded (worker_card w) = Ap_approved"

definition cards_fit :: "card_system \<Rightarrow> bool" where
  "cards_fit S \<longleftrightarrow>
     distinct (map ap_id (cs_approvals (cy_cards S))) \<and>
     (\<forall>r \<in> set (cs_approvals (cy_cards S)). row_fits S r) \<and>
     (\<forall>a \<in> set (cy_approvals S). known (cy_trace S) a \<and> ap_loaded a = ap_status a) \<and>
     (\<forall>w \<in> set (cy_workers S). card_worker_fits (cy_trace S) w)"

definition trace_fits :: "card_system \<Rightarrow> bool" where
  "trace_fits S \<longleftrightarrow>
     well_told (cy_trace S) \<and> (\<forall>e \<in> set (cy_trace S). \<forall>i. about i e \<longrightarrow> i \<in> set (cy_used S))"

definition questions_fit :: "card_system \<Rightarrow> bool" where
  "questions_fit S \<longleftrightarrow>
     distinct (map qc_id (cs_questions (cy_cards S))) \<and>
     (\<forall>r \<in> set (cs_questions (cy_cards S)).
        qc_id r \<in> set (cy_used S) \<and> (qc_organization r, qc_bot r) \<in> bot_keys (cy_store S)) \<and>
     (\<forall>q \<in> set (cy_questions S). qc_id q \<in> set (cy_used S) \<and>
        (\<forall>r \<in> set (cs_questions (cy_cards S)). qc_id r = qc_id q \<longrightarrow>
           qc_organization r = qc_organization q \<and> qc_bot r = qc_bot q))"

definition cards_waiting :: "string \<Rightarrow> string \<Rightarrow> bot_card_store \<Rightarrow> nat" where
  "cards_waiting org bid cs =
     length (filter (\<lambda>a. ap_organization a = org \<and> ap_bot a = bid \<and> ap_status a = Ap_pending) (cs_approvals cs)) +
     length (filter (\<lambda>q. qc_organization q = org \<and> qc_bot q = bid \<and> qc_status q = Qu_pending) (cs_questions cs))"

definition waiting_fits :: "card_system \<Rightarrow> bool" where
  "waiting_fits S \<longleftrightarrow> (\<forall>org bid. cards_waiting org bid (cy_cards S) \<le> 1)"

definition per_call_tool :: "toolbox \<Rightarrow> string \<Rightarrow> bool" where
  "per_call_tool tb tool = list_ex (\<lambda>d. spec_name d = tool \<and> trait_per_call (spec_traits d)) (tb_specs tb)"

definition stands_for_good :: "tool_permission \<Rightarrow> bool" where
  "stands_for_good p \<longleftrightarrow> tp_subject p \<noteq> None \<or> tp_decision p = Choice_allow"

definition settings_fit :: "card_system \<Rightarrow> bool" where
  "settings_fit S \<longleftrightarrow>
     (\<forall>org bid. length (filter (is_grant org bid) (cs_settings (cy_cards S))) \<le> bot_tool_grants_max) \<and>
     (\<forall>org bid. length (filter (\<lambda>r. pr_organization r = org \<and> pr_bot r = bid) (cs_rules (cy_cards S)))
                  \<le> bot_permission_rules_max)"

definition calls_fit :: "toolbox \<Rightarrow> card_system \<Rightarrow> bool" where
  "calls_fit tb S \<longleftrightarrow>
     (\<forall>i c g. Ev_asked i c g \<in> set (cy_trace S) \<longrightarrow> ac_per_call c = per_call_tool tb (ac_tool c)) \<and>
     (\<forall>p \<in> set (cs_settings (cy_cards S)). per_call_tool tb (tp_tool p) \<longrightarrow> \<not> stands_for_good p)"

definition running_fit :: "card_system \<Rightarrow> bool" where
  "running_fit S \<longleftrightarrow>
     (\<forall>r \<in> set (cs_approvals (cy_cards S)). approval_running r \<longrightarrow>
        (\<exists>by'. Run_approved_call (ap_id r) by' \<in> set (cs_jobs (cy_cards S))) \<or>
        (\<exists>w \<in> set (cy_workers S). ap_id (worker_card w) = ap_id r))"

definition card_inv :: "toolbox \<Rightarrow> card_system \<Rightarrow> bool" where
  "card_inv tb S \<longleftrightarrow>
     turns_fit S \<and> cards_fit S \<and> trace_fits S \<and> questions_fit S \<and> waiting_fits S \<and> settings_fit S \<and>
     (well_defined tb \<longrightarrow> calls_fit tb S) \<and> running_fit S"

subsection \<open>Lemmas on the parts\<close>

lemma known_more: "known tr a \<Longrightarrow> set tr \<subseteq> set tr' \<Longrightarrow> known tr' a"
  unfolding known_def by blast

lemma open_in_other: "open_in tr a \<Longrightarrow> \<not> decides (ap_id a) e \<Longrightarrow> \<not> reports (ap_id a) e \<Longrightarrow> open_in (e # tr) a"
  by (simp add: open_in_def)

lemma card_worker_fits_more: "card_worker_fits tr w \<Longrightarrow> set tr \<subseteq> set tr' \<Longrightarrow> card_worker_fits tr' w"
  unfolding card_worker_fits_def using known_more by blast

lemma granted_turn_goes:
  assumes "granted_turn B tid g" "goes_to B B'"
  shows "granted_turn B' tid g"
  unfolding granted_turn_def
proof (intro conjI ballI impI)
  show "tid \<in> set (sys_used B')" using assms unfolding granted_turn_def goes_to_def by blast
  fix t assume t: "t \<in> set (st_turns (sys_store B'))" "bt_id t = tid"
  then obtain u where u: "u \<in> set (st_turns (sys_store B))" "turn_identity t = turn_identity u"
    using assms unfolding granted_turn_def goes_to_def rows_follow_def by blast
  then show "bt_scopes t = g"
    using turn_identity_eq(1,8) [OF u(2)] t(2) assms(1) unfolding granted_turn_def by metis
qed

lemma bots_on_goes: "system_inv B \<Longrightarrow> bots_on B B' \<Longrightarrow> goes_to B B'"
  unfolding bots_on_def bot_run_def using bots.run_goes by blast

lemma decision_event_cases:
  assumes "ap_status a \<in> {Ap_approved, Ap_denied, Ap_expired}"
  obtains by' reach where "decision_event a = Ev_approved (ap_id a) by' (ap_scopes a) reach" "ap_status a = Ap_approved"
  | by' where "decision_event a = Ev_denied (ap_id a) by'" "ap_status a = Ap_denied"
  | "decision_event a = Ev_expired (ap_id a)" "ap_status a = Ap_expired"
  using assms by (auto simp: decision_event_def)

lemma length_filter_map_le: "(\<And>x. x \<in> set xs \<Longrightarrow> P (f x) \<Longrightarrow> P x) \<Longrightarrow> length (filter P (map f xs)) \<le> length (filter P xs)"
  by (induction xs) (auto simp: le_SucI)

lemma length_filter_filter_le: "length (filter P (filter Q xs)) \<le> length (filter P xs)"
  by (induction xs) auto

lemma saved_row:
  assumes "r \<in> set (cs_approvals (saved a ps js cs))"
  obtains (hit) r0 where "r0 \<in> set (cs_approvals cs)" "approval_hit a r0" "r = approval_columns a r0"
  | (other) "r \<in> set (cs_approvals cs)" "\<not> approval_hit a r"
  using assms by (auto simp: saved_def split: if_splits)

lemma approval_columns_sel [simp]:
  "ap_id (approval_columns a r) = ap_id r" "ap_organization (approval_columns a r) = ap_organization r"
  "ap_bot (approval_columns a r) = ap_bot r" "ap_turn (approval_columns a r) = ap_turn r"
  "ap_tool (approval_columns a r) = ap_tool r" "ap_input (approval_columns a r) = ap_input r"
  "ap_subject (approval_columns a r) = ap_subject r" "ap_per_call (approval_columns a r) = ap_per_call r"
  "ap_status (approval_columns a r) = ap_status a" "ap_result (approval_columns a r) = ap_result a"
  "ap_scopes (approval_columns a r) = ap_scopes a" "fits_call c (approval_columns a r) = fits_call c r"
  by (simp_all add: approval_columns_def fits_call_def)

lemma saved_ids [simp]: "map ap_id (cs_approvals (saved a ps js cs)) = map ap_id (cs_approvals cs)"
  by (simp add: saved_def)

lemma saved_sel [simp]:
  "cs_questions (saved a ps js cs) = cs_questions cs" "cs_settings (saved a ps js cs) = ps"
  "cs_rules (saved a ps js cs) = cs_rules cs" "cs_jobs (saved a ps js cs) = cs_jobs cs @ js"
  by (simp_all add: saved_def)

lemma bot_approval_of_sel [simp]:
  "ap_id (bot_approval_of r) = ap_id r" "ap_status (bot_approval_of r) = ap_status r"
  "ap_loaded (bot_approval_of r) = ap_status r" "approval_running (bot_approval_of r) = approval_running r"
  "known tr (bot_approval_of r) = known tr r" "ap_result (bot_approval_of r) = ap_result r"
  by (simp_all add: bot_approval_of_def bot_approval.extend_def approval_running_def known_def fits_call_def)

lemma truncate_sel [simp]:
  fixes a :: bot_approval_entity
  shows "ap_id (bot_approval.truncate a) = ap_id a" "ap_status (bot_approval.truncate a) = ap_status a"
    "ap_organization (bot_approval.truncate a) = ap_organization a" "ap_bot (bot_approval.truncate a) = ap_bot a"
    "ap_result (bot_approval.truncate a) = ap_result a" "approval_running (bot_approval.truncate a) = approval_running a"
    "fits_call c (bot_approval.truncate a) = fits_call c a"
    "known tr (bot_approval.truncate a) = known tr a" "open_in tr (bot_approval.truncate a) = open_in tr a"
  by (simp_all add: bot_approval.truncate_def approval_running_def known_def fits_call_def open_in_def)

lemma request_approval_card:
  assumes "request_approval aid c = Inr a"
  shows "ap_id a = aid" "fits_call c a" "ap_status a = Ap_pending" "ap_result a = None" "ap_loaded a = Ap_pending"
    "ap_organization a = ac_organization c" "ap_bot a = ac_bot c" "ap_events a = [Ap_pending]"
  using assms by (auto simp: request_approval_def Let_def announce_approval_def fits_call_def)

lemma insert_pending_row:
  assumes "insert_pending a s cs = Inr (None, cs')"
  shows "waiting_card (ap_organization a) (ap_bot a) cs = None" "lock_bot (ap_organization a) (ap_bot a) s"
    "\<forall>r \<in> set (cs_approvals cs). ap_id r \<noteq> ap_id a"
    "cs' = stage_card_jobs (map (Approval_changed (ap_id a)) (ap_events a))
       (cs\<lparr>cs_approvals := cs_approvals cs @ [bot_approval.truncate a]\<rparr>)"
  using assms by (auto simp: insert_pending_def list_ex_iff split: option.splits if_splits)

lemma insert_pending_questions_row:
  assumes "insert_pending_questions q s cs = Inr (None, cs')"
  shows "waiting_card (qc_organization q) (qc_bot q) cs = None" "lock_bot (qc_organization q) (qc_bot q) s"
    "cs' = cs\<lparr>cs_questions := cs_questions cs @ [question_card.truncate q]\<rparr>"
  using assms by (auto simp: insert_pending_questions_def split: option.splits if_splits)

lemma waiting_card_None:
  assumes "waiting_card org bid cs = None"
  shows "cards_waiting org bid cs = 0"
proof -
  have "or_else x y = None \<longleftrightarrow> x = None \<and> y = None" for x y :: "string option"
    by (cases x) (simp_all add: or_else_def)
  then show ?thesis using assms
    by (auto simp: waiting_card_def cards_waiting_def find_None_iff filter_empty_conv)
qed

end
