(* ===== verification/Bot_Card_Kept.thy ===== *)
theory Bot_Card_Kept
  imports Bot_Card_Inv
begin

section \<open>Every move keeps the invariant of the cards\<close>

text \<open>One lemma for each part of \<open>card_inv\<close>, by cases on the move.\<close>

lemma bots_goes_on: "system_inv B \<Longrightarrow> goes_to B (bot_run bs B)"
  unfolding bot_run_def by (rule bots.run_goes)

lemma move_bots:
  assumes "card_move tb S S'"
  shows "\<exists>bs. cy_bots S' = bot_run bs (cy_bots S)"
  using assms
proof cases
  case (Move_bots b)
  then show ?thesis by (intro exI [of _ "[b]"]) (simp add: bots_move_def Let_def bot_run_def)
next
  case Move_decided then show ?thesis by (simp add: bots_on_def)
next
  case Move_decided_questions then show ?thesis by (simp add: bots_on_def)
next
  case Move_reported then show ?thesis by (simp add: bots_on_def)
qed (auto intro!: exI [of _ "[]"] simp: bot_run_def)

lemma move_goes: "card_move tb S S' \<Longrightarrow> system_inv (cy_bots S) \<Longrightarrow> goes_to (cy_bots S) (cy_bots S')"
  using move_bots [of tb S S'] bots_goes_on by auto

text \<open>What a move adds to the trace, and whose scopes a call that asks has.\<close>

lemma move_asks:
  assumes "card_move tb S S'" "Ev_asked i c g \<in> set (cy_trace S')" "Ev_asked i c g \<notin> set (cy_trace S)"
  shows "\<exists>ctx. (ctx, g) \<in> set (cy_turns S) \<and> ac_turn c = cx_turn ctx \<and> i \<notin> set (cy_used S) \<and>
     (\<exists>d \<in> set (tb_specs tb). spec_name d = ac_tool c \<and> ac_per_call c = trait_per_call (spec_traits d))"
  using assms(1)
proof cases
  case Move_bots then show ?thesis using assms(2,3) by (simp add: bots_move_def Let_def)
next
  case Move_asked then show ?thesis using assms(2,3) by auto
next
  case Move_decided then show ?thesis using assms(2,3) by (auto simp: decision_event_def split: if_splits)
qed (use assms(2,3) in auto)

lemma turns_fit_move:
  assumes "card_move tb S S'" "turns_fit S"
  shows "turns_fit S'"
proof -
  have inv: "system_inv (cy_bots S)" using assms(2) by (simp add: turns_fit_def)
  note goes = move_goes [OF assms(1) inv]
  have turns: "granted_turn (cy_bots S') (cx_turn ctx) g" if "(ctx, g) \<in> set (cy_turns S)" for ctx g
    using assms(2) that granted_turn_goes [OF _ goes] by (auto simp: turns_fit_def)
  have "granted_turn (cy_bots S') (ac_turn c) g" if e: "Ev_asked i c g \<in> set (cy_trace S')" for i c g
  proof (cases "Ev_asked i c g \<in> set (cy_trace S)")
    case True
    then show ?thesis using assms(2) granted_turn_goes [OF _ goes] by (auto simp: turns_fit_def)
  next
    case False
    then show ?thesis using move_asks [OF assms(1) e] turns by auto
  qed
  moreover have "granted_turn (cy_bots S') (cx_turn ctx) g" if "(ctx, g) \<in> set (cy_turns S')" for ctx g
    using assms(1)
  proof cases
    case (Move_turn t preset)
    have "t \<in> set (st_turns (cy_store S)) \<Longrightarrow> granted_turn (cy_bots S) (bt_id t) (bt_scopes t)"
      using system_store [OF inv] store_rows [OF system_store [OF inv]]
      by (auto simp: granted_turn_def store_inv_def turns_inv_def keyed_turns_def dest: same_row)
    then show ?thesis using Move_turn that turns by (auto simp: context_of_def)
  next
    case Move_bots then show ?thesis using that turns by (simp add: bots_move_def Let_def)
  qed (use that turns in auto)
  ultimately show ?thesis using goes_to_inv [OF goes] by (auto simp: turns_fit_def)
qed

subsection \<open>The trace\<close>

lemma one_hit:
  assumes "length (filter P xs) = 1"
  obtains x where "x \<in> set xs" "P x"
proof -
  have "filter P xs \<noteq> []" using assms by auto
  then show thesis using that by (auto simp: filter_empty_conv)
qed

lemma trace_fits_move:
  assumes "card_move tb S S'" "cards_fit S" "trace_fits S" "turns_fit S"
  shows "trace_fits S'"
proof -
  have used: "i \<in> set (cy_used S)" if "e \<in> set (cy_trace S)" "about i e" for i e
    using assms(3) that by (simp add: trace_fits_def)
  have told: "well_told (cy_trace S)" using assms(3) by (simp add: trace_fits_def)
  have id_used: "ap_id a \<in> set (cy_used S)" if "known (cy_trace S) a" for a :: bot_approval_entity
    using that used unfolding known_def by fastforce
  show ?thesis using assms(1)
  proof cases
    case Move_bots then show ?thesis using assms(3) by (simp add: trace_fits_def bots_move_def Let_def)
  next
    case (Move_decided a a' ps js B us)
    have a: "known (cy_trace S) a" "ap_loaded a = ap_status a" using assms(2) Move_decided(2) by (auto simp: cards_fit_def)
    note d = Move_decided(3) [unfolded decided_card_def same_card_def]
    obtain r where r: "r \<in> set (cs_approvals (cy_cards S))" "approval_hit a' r"
      using one_hit [OF Move_decided(4)] .
    then have "ap_status r = Ap_pending" "ap_id r = ap_id a" using a d by (auto simp: approval_hit_def)
    then have "\<forall>x \<in> set (cy_trace S). \<not> decides (ap_id a) x"
      using assms(2) r(1) by (auto simp: cards_fit_def row_fits_def open_in_def)
    moreover have "\<exists>c g. Ev_asked (ap_id a) c g \<in> set (cy_trace S)" using a(1) by (auto simp: known_def)
    moreover have "ap_status a' \<in> {Ap_approved, Ap_denied, Ap_expired}" "ap_id a' = ap_id a" using d by auto
    ultimately show ?thesis using told used id_used [OF a(1)] unfolding Move_decided(1) trace_fits_def
      by (elim decision_event_cases) auto
  next
    case (Move_run k a by' granted evs zone refused)
    have a: "known (cy_trace S) a" "ap_status a = Ap_approved"
      using assms(2) Move_run(2,3) nth_mem [of k "cy_workers S"]
      by (auto simp: cards_fit_def card_worker_fits_def approval_running_def)
    obtain c g where asked: "Ev_asked (ap_id a) c g \<in> set (cy_trace S)" "fits_call c a" using a(1) by (auto simp: known_def)
    obtain by1 reach where approved: "Ev_approved (ap_id a) by1 (ap_scopes a) reach \<in> set (cy_trace S)"
      using a by (auto simp: known_def)
    have turn: "granted_turn (cy_bots S) (ac_turn c) g" using assms(4) asked(1) by (auto simp: turns_fit_def)
    have "covers g s" if "covers (case find_turn (ap_turn a) (cy_store S) of None \<Rightarrow> Some [] | Some t \<Rightarrow> bt_scopes t) s" for s
    proof (cases "find_turn (ap_turn a) (cy_store S)")
      case None then show ?thesis using that by (simp add: covers_def expand_scopes_def)
    next
      case (Some t)
      then have "bt_scopes t = g"
        using turn asked(2) find_turn_mem [OF Some] by (auto simp: granted_turn_def fits_call_def)
      then show ?thesis using that Some by simp
    qed
    then have "\<forall>s. covers granted s \<longrightarrow> covers g s \<and> covers (ap_scopes a) s"
      unfolding Move_run(4) decision_scopes_def covers_intersect by blast
    then have "well_told (Ev_called (ap_id a) (ap_tool a) (ap_input a) granted # cy_trace S)"
      unfolding well_told.simps card_event.case using told asked approved
      by (intro conjI exI [of _ c] exI [of _ g] exI [of _ by1] exI [of _ "ap_scopes a"] exI [of _ reach])
        (simp_all add: fits_call_def)
    then have well: "well_told (evs @ cy_trace S)" using Move_run(5) told by (elim disjE) (simp_all only: append.simps)
    have eqs: "cy_trace S' = evs @ cy_trace S" "cy_used S' = cy_used S" by (simp_all add: Move_run(1))
    show ?thesis unfolding trace_fits_def eqs
      by (rule conjI [OF well]) (use used id_used [OF a(1)] Move_run(5) in auto)
  next
    case (Move_reported k a a' B failed js)
    have a: "known (cy_trace S) a" "ap_status a = Ap_approved" "ap_loaded a = Ap_approved"
      using assms(2) Move_reported(2,3) nth_mem [of k "cy_workers S"]
      by (auto simp: cards_fit_def card_worker_fits_def approval_running_def)
    note d = Move_reported(4) [unfolded reported_card_def same_card_def]
    obtain r where r: "r \<in> set (cs_approvals (cy_cards S))" "approval_hit a' r"
      using one_hit [OF Move_reported(5)] .
    then have "approval_running r" "ap_id r = ap_id a" using a d by (auto simp: approval_hit_def approval_running_def)
    then have "\<forall>x \<in> set (cy_trace S). \<not> reports (ap_id a) x"
      using assms(2) r(1) by (auto simp: cards_fit_def row_fits_def open_in_def)
    moreover have "\<exists>by' scopes reach. Ev_approved (ap_id a) by' scopes reach \<in> set (cy_trace S)"
      using a by (auto simp: known_def)
    ultimately show ?thesis using told used id_used [OF a(1)] d unfolding Move_reported(1) trace_fits_def by auto
  qed (use told used in \<open>auto simp: trace_fits_def\<close>)
qed

subsection \<open>The cards\<close>

lemma row_fits_kept:
  assumes "row_fits S r" "set (cy_trace S) \<subseteq> set (cy_trace S')" "bot_keys (cy_store S') = bot_keys (cy_store S)"
    "\<And>x. x \<in> set (cy_trace S') \<Longrightarrow> x \<notin> set (cy_trace S) \<Longrightarrow> \<not> decides (ap_id r) x \<and> \<not> reports (ap_id r) x"
  shows "row_fits S' r"
  using assms known_more [of "cy_trace S" r "cy_trace S'"] unfolding row_fits_def open_in_def by metis

lemma trace_grows: "card_move tb S S' \<Longrightarrow> set (cy_trace S) \<subseteq> set (cy_trace S')"
  by (cases rule: card_move.cases) (auto simp: bots_move_def Let_def)

lemma cascade_rows: "r \<in> set (cs_approvals (cascade_cards s cs)) \<longleftrightarrow>
    r \<in> set (cs_approvals cs) \<and> lock_bot (ap_organization r) (ap_bot r) s \<and>
    turn_referenced (ap_organization r) (Some (ap_turn r)) s"
  by (simp add: cascade_cards_def)

lemma forget_row:
  assumes "r \<in> set (cs_approvals (forget_account user cs))"
  obtains r0 who where "r0 \<in> set (cs_approvals cs)" "r = r0\<lparr>ap_by := who\<rparr>"
  using assms by (auto simp: forget_account_def Let_def)

lemma bots_move_cards:
  "cy_cards (bots_move b S) =
     (let cs = cascade_cards (cy_store (bots_move b S)) (cy_cards S)
      in case b of Act_delete_account user \<Rightarrow> forget_account user cs | _ \<Rightarrow> cs)"
  unfolding bots_move_def Let_def by (cases b) simp_all

lemma bots_move_row:
  assumes "r \<in> set (cs_approvals (cy_cards (bots_move b S)))"
  obtains r0 who where "r0 \<in> set (cs_approvals (cy_cards S))" "r = r0 \<or> r = r0\<lparr>ap_by := who\<rparr>"
    "lock_bot (ap_organization r) (ap_bot r) (cy_store (bots_move b S))"
proof -
  let ?cs = "cascade_cards (cy_store (bots_move b S)) (cy_cards S)"
  have "r \<in> set (cs_approvals ?cs) \<or> (\<exists>r0 \<in> set (cs_approvals ?cs). \<exists>who. r = r0\<lparr>ap_by := who\<rparr>)"
    using assms unfolding bots_move_cards Let_def by (cases b) (auto elim: forget_row)
  then show ?thesis
  proof (elim disjE bexE exE)
    assume "r \<in> set (cs_approvals ?cs)"
    then show ?thesis by (intro that [of r]) (simp_all add: cascade_rows)
  next
    fix r0 who assume "r0 \<in> set (cs_approvals ?cs)" "r = r0\<lparr>ap_by := who\<rparr>"
    then show ?thesis by (intro that [of r0 who]) (simp_all add: cascade_rows del: bot_approval.update_convs)
  qed
qed

lemma forget_by_sel [simp]:
  fixes r :: bot_approval
  shows "known tr (r\<lparr>ap_by := who\<rparr>) = known tr r" "open_in tr (r\<lparr>ap_by := who\<rparr>) = open_in tr r"
    "approval_running (r\<lparr>ap_by := who\<rparr>) = approval_running r"
  by (simp_all add: known_def fits_call_def open_in_def approval_running_def)

lemma bots_move_ids:
  "distinct (map ap_id (cs_approvals cs)) \<Longrightarrow> distinct (map ap_id (cs_approvals (cascade_cards s cs)))"
  "map ap_id (cs_approvals (forget_account user cs)) = map ap_id (cs_approvals cs)"
  by (simp_all add: cascade_cards_def distinct_map_filter forget_account_def Let_def comp_def)

lemma bots_move_sel [simp]:
  "cy_approvals (bots_move b S) = cy_approvals S" "cy_workers (bots_move b S) = cy_workers S"
  "cy_trace (bots_move b S) = cy_trace S" "cy_used (bots_move b S) = cy_used S"
  "cy_questions (bots_move b S) = cy_questions S" "cs_jobs (cy_cards (bots_move b S)) = cs_jobs (cy_cards S)"
  by (simp_all add: bots_move_def Let_def cascade_cards_def forget_account_def split: bot_action.split)

lemma row_fits_bots_move:
  assumes "cards_fit S" "r \<in> set (cs_approvals (cy_cards (bots_move b S)))"
  shows "row_fits (bots_move b S) r"
proof -
  obtain r0 who where r: "r0 \<in> set (cs_approvals (cy_cards S))" "r = r0 \<or> r = r0\<lparr>ap_by := who\<rparr>"
    "lock_bot (ap_organization r) (ap_bot r) (cy_store (bots_move b S))"
    using bots_move_row [OF assms(2)] .
  have "row_fits S r0" using assms(1) r(1) by (simp add: cards_fit_def)
  then show ?thesis using r(2,3) by (auto simp: row_fits_def lock_bot_keys)
qed

lemma cards_distinct_bots_move:
  assumes "distinct (map ap_id (cs_approvals (cy_cards S)))"
  shows "distinct (map ap_id (cs_approvals (cy_cards (bots_move b S))))"
  unfolding bots_move_cards Let_def using bots_move_ids assms by (cases b) simp_all

lemma saved_distinct:
  assumes "distinct (map ap_id (cs_approvals cs))" "r0 \<in> set (cs_approvals cs)" "r \<in> set (cs_approvals cs)"
    "approval_hit a r0" "\<not> approval_hit a r"
  shows "ap_id r \<noteq> ap_id a"
proof
  assume "ap_id r = ap_id a"
  then have "ap_id r0 = ap_id r" using assms(4) by (simp add: approval_hit_def)
  then have "r0 = r" using assms(1-3) by (auto simp: distinct_map dest: inj_onD)
  then show False using assms(4,5) by simp
qed

text \<open>A row as a decision or a result leaves it, and the others.\<close>

lemma saved_rows_fit:
  assumes fit: "\<forall>r \<in> set (cs_approvals (cy_cards S)). row_fits S r"
    and dist: "distinct (map ap_id (cs_approvals (cy_cards S)))"
    and hit: "length (filter (approval_hit a') (cs_approvals (cy_cards S))) = 1"
    and cards: "cs_approvals (cy_cards S') = cs_approvals (saved a' ps js (cy_cards S))"
    and trace: "cy_trace S' = e # cy_trace S" and keys: "bot_keys (cy_store S') = bot_keys (cy_store S)"
    and about: "\<And>i. decides i e \<or> reports i e \<Longrightarrow> i = ap_id a'"
    and new: "\<And>r. r \<in> set (cs_approvals (cy_cards S)) \<Longrightarrow> approval_hit a' r \<Longrightarrow> row_fits S r \<Longrightarrow>
        known (e # cy_trace S) (approval_columns a' r) \<and> open_in (e # cy_trace S) (approval_columns a' r)"
  shows "\<forall>r \<in> set (cs_approvals (cy_cards S')). row_fits S' r"
proof
  fix r assume "r \<in> set (cs_approvals (cy_cards S'))"
  then have "r \<in> set (cs_approvals (saved a' ps js (cy_cards S)))" by (simp only: cards)
  then show "row_fits S' r"
  proof (cases rule: saved_row)
    case (hit r0)
    then have "row_fits S r0" using fit by blast
    then show ?thesis using hit new [OF hit(1,2)] by (simp add: row_fits_def trace keys)
  next
    case other
    obtain r0 where "r0 \<in> set (cs_approvals (cy_cards S))" "approval_hit a' r0" using one_hit [OF hit] .
    then have "ap_id r \<noteq> ap_id a'" using saved_distinct [OF dist _ other(1) _ other(2)] by blast
    then have "\<not> decides (ap_id r) e" "\<not> reports (ap_id r) e" using about by blast+
    then show ?thesis using fit other(1) known_more [of "cy_trace S" r "cy_trace S'"] open_in_other
      by (auto simp: row_fits_def trace keys)
  qed
qed

lemma cards_fit_move:
  assumes "card_move tb S S'" "cards_fit S" "trace_fits S"
  shows "cards_fit S'"
proof -
  have dist: "distinct (map ap_id (cs_approvals (cy_cards S)))"
    and rows: "\<forall>r \<in> set (cs_approvals (cy_cards S)). row_fits S r"
    and memory: "\<forall>a \<in> set (cy_approvals S). known (cy_trace S) a \<and> ap_loaded a = ap_status a"
    and workers: "\<forall>w \<in> set (cy_workers S). card_worker_fits (cy_trace S) w"
    using assms(2) by (simp_all add: cards_fit_def)
  note grows = trace_grows [OF assms(1)]
  have memory': "\<forall>a \<in> set (cy_approvals S). known (cy_trace S') a \<and> ap_loaded a = ap_status a"
    using memory known_more [OF _ grows] by blast
  have workers': "\<forall>w \<in> set (cy_workers S). card_worker_fits (cy_trace S') w"
    using workers card_worker_fits_more [OF _ grows] by blast
  have quiet: "row_fits S' r" if "row_fits S r" "cy_trace S' = evs @ cy_trace S" "cy_bots S' = cy_bots S"
    "\<forall>e \<in> set evs. \<forall>i. \<not> decides i e \<and> \<not> reports i e" for r evs
    by (rule row_fits_kept [OF that(1) grows]) (use that(2-4) in auto)
  show ?thesis using assms(1)
  proof cases
    case (Move_bots b)
    show ?thesis using row_fits_bots_move [OF assms(2)] cards_distinct_bots_move [OF dist] memory workers
      by (simp add: cards_fit_def Move_bots)
  next
    case (Move_ran bid tid tool parsed why)
    then show ?thesis using dist rows memory' workers' quiet [of _ "[Ev_ran bid tid tool parsed why]"]
      by (simp add: cards_fit_def)
  next
    case (Move_asked ctx granted c aid a cs d)
    note a = request_approval_card [OF Move_asked(5)] and cs = insert_pending_row [OF Move_asked(6)]
    have none: "\<not> decides aid x \<and> \<not> reports aid x" if "x \<in> set (cy_trace S)" for x
      using assms(3) that Move_asked(4) by (cases x) (auto simp: trace_fits_def)
    have "row_fits S' (bot_approval.truncate a)"
      using a cs(2) none by (auto simp: Move_asked(1) row_fits_def known_def open_in_def lock_bot_keys)
    moreover have "row_fits S' r" if "r \<in> set (cs_approvals (cy_cards S))" for r
      using quiet [of r "[Ev_asked aid c granted]"] rows that by (simp add: Move_asked(1))
    ultimately show ?thesis
      using dist cs(3) memory' workers' by (auto simp: cards_fit_def Move_asked(1) cs(4) stage_card_jobs_def a)
  next
    case (Move_questions qid org bid tid qs summary q cs)
    then show ?thesis using assms(2) insert_pending_questions_row(3) [OF Move_questions(4)]
      by (simp add: cards_fit_def row_fits_def)
  next
    case (Move_rule r cs us)
    then show ?thesis using assms(2) by (auto simp: cards_fit_def row_fits_def insert_rule_def split: if_splits)
  next
    case (Move_load r)
    then show ?thesis using dist rows memory' workers' quiet [of _ "[]"] by (auto simp: cards_fit_def row_fits_def)
  next
    case (Move_decided a a' ps js B us)
    have a: "known (cy_trace S) a" "ap_loaded a = ap_status a" using memory Move_decided(2) by auto
    note d = Move_decided(3) [unfolded decided_card_def same_card_def]
    have e: "decides i (decision_event a') \<or> reports i (decision_event a') \<Longrightarrow> i = ap_id a'" for i
      by (auto simp: decision_event_def split: if_splits)
    have "\<forall>r \<in> set (cs_approvals (cy_cards S')). row_fits S' r"
    proof (rule saved_rows_fit [OF rows dist Move_decided(4)])
      show "bot_keys (cy_store S') = bot_keys (cy_store S)" using Move_decided(1,7) by (simp add: bots_on_def)
      fix r assume r: "approval_hit a' r" "row_fits S r"
      then have "ap_status r = Ap_pending" "ap_id r = ap_id a'" using a d by (auto simp: approval_hit_def)
      then show "known (decision_event a' # cy_trace S) (approval_columns a' r) \<and>
          open_in (decision_event a' # cy_trace S) (approval_columns a' r)"
        using r(2) d by (auto simp: row_fits_def known_def fits_call_def open_in_def approval_running_def decision_event_def)
    qed (use e in \<open>simp_all add: Move_decided(1)\<close>)
    then show ?thesis using dist memory' workers' by (simp add: cards_fit_def Move_decided(1))
  next
    case Move_decided_questions
    then show ?thesis using dist rows memory' workers' by (auto simp: cards_fit_def row_fits_def bots_on_def)
  next
    case (Move_taken k aid by' r)
    have "r \<in> set (cs_approvals (cy_cards S))" using Move_taken(4) by (auto simp: find_approval_def dest: find_Some_mem)
    then have "card_worker_fits (cy_trace S) (Call_taken (bot_approval_of r) by')"
      using rows Move_taken(5) by (auto simp: card_worker_fits_def row_fits_def approval_running_def)
    then show ?thesis using dist rows memory workers by (auto simp: cards_fit_def Move_taken(1) row_fits_def)
  next
    case (Move_run k a by' granted evs zone refused)
    have w: "card_worker_fits (cy_trace S') (cy_workers S ! k)" using workers' Move_run(2) by simp
    then have w': "card_worker_fits (cy_trace S') (Call_ran a by' granted zone refused)"
      by (simp add: card_worker_fits_def Move_run(3))
    have "\<forall>w \<in> set (cy_workers S'). card_worker_fits (cy_trace S') w"
      using workers' w' set_update_subset_insert [of "cy_workers S" k "Call_ran a by' granted zone refused"]
      by (auto simp: Move_run(1))
    moreover have "\<forall>r \<in> set (cs_approvals (cy_cards S)). row_fits S' r"
      using rows quiet [of _ evs] Move_run(5) by (auto simp: Move_run(1))
    ultimately show ?thesis using dist memory' by (simp add: cards_fit_def Move_run(1))
  next
    case (Move_reported k a a' B failed js)
    have a: "known (cy_trace S) a" "ap_loaded a = Ap_approved" "ap_status a = Ap_approved"
      using workers Move_reported(2,3) nth_mem [of k "cy_workers S"]
      by (auto simp: card_worker_fits_def approval_running_def)
    note d = Move_reported(4) [unfolded reported_card_def same_card_def]
    have "\<forall>r \<in> set (cs_approvals (cy_cards S')). row_fits S' r"
    proof (rule saved_rows_fit [OF rows dist Move_reported(5)])
      show "bot_keys (cy_store S') = bot_keys (cy_store S)" using Move_reported(1,6) by (simp add: bots_on_def)
      fix r assume r: "approval_hit a' r" "row_fits S r"
      then have id: "ap_id r = ap_id a" using a d by (auto simp: approval_hit_def)
      have "\<exists>c g. Ev_asked (ap_id r) c g \<in> set (cy_trace S) \<and> fits_call c r" using r(2) by (simp add: row_fits_def known_def)
      moreover have "\<exists>by' reach. Ev_approved (ap_id r) by' (ap_scopes a') reach \<in> set (cy_trace S)"
        using a d id by (simp add: known_def)
      moreover have "ap_status a' \<noteq> Ap_pending" "ap_result a' \<noteq> None" using d by auto
      ultimately show "known (Ev_reported (ap_id a') failed # cy_trace S) (approval_columns a' r) \<and>
          open_in (Ev_reported (ap_id a') failed # cy_trace S) (approval_columns a' r)"
        by (auto simp: known_def open_in_def approval_running_def)
    qed (simp_all add: Move_reported(1))
    then show ?thesis using dist memory' workers' remove_at_subset [of k "cy_workers S"]
      by (auto simp: cards_fit_def Move_reported(1))
  qed (use dist rows memory' workers' subsetD [OF remove_at_subset [of _ "cy_workers S"]] in
      \<open>auto simp: cards_fit_def row_fits_def stage_card_jobs_def\<close>)
qed

subsection \<open>The questions\<close>

lemma bots_move_questions:
  assumes "q \<in> set (cs_questions (cy_cards (bots_move b S)))"
  obtains q0 who where "q0 \<in> set (cs_questions (cy_cards S))" "q = q0 \<or> q = q0\<lparr>qc_by := who\<rparr>"
    "lock_bot (qc_organization q) (qc_bot q) (cy_store (bots_move b S))"
proof -
  let ?cs = "cascade_cards (cy_store (bots_move b S)) (cy_cards S)"
  have "q \<in> set (cs_questions ?cs) \<or> (\<exists>q0 \<in> set (cs_questions ?cs). \<exists>who. q = q0\<lparr>qc_by := who\<rparr>)"
    using assms unfolding bots_move_cards Let_def by (cases b) (auto simp: forget_account_def Let_def)
  then show ?thesis
  proof (elim disjE bexE exE)
    assume "q \<in> set (cs_questions ?cs)"
    then show ?thesis by (intro that [of q]) (simp_all add: cascade_cards_def)
  next
    fix q0 who assume "q0 \<in> set (cs_questions ?cs)" "q = q0\<lparr>qc_by := who\<rparr>"
    then show ?thesis by (intro that [of q0 who]) (simp_all add: cascade_cards_def)
  qed
qed

lemma question_sel [simp]:
  fixes q :: question_card_entity
  shows "qc_id (question_card.truncate q) = qc_id q" "qc_organization (question_card.truncate q) = qc_organization q"
    "qc_bot (question_card.truncate q) = qc_bot q" "qc_status (question_card.truncate q) = qc_status q"
    "qc_id (question_card_of r) = qc_id r" "qc_organization (question_card_of r) = qc_organization r"
    "qc_bot (question_card_of r) = qc_bot r"
    "qc_id (question_columns q r) = qc_id r" "qc_organization (question_columns q r) = qc_organization r"
    "qc_bot (question_columns q r) = qc_bot r" "qc_status (question_columns q r) = qc_status q"
  by (simp_all add: question_card.truncate_def question_card_of_def question_card.extend_def question_columns_def)

lemma ask_questions_id: "ask_questions uuid org bid tid qs summary = Inr q \<Longrightarrow> qc_id q = uuid"
  by (auto simp: ask_questions_def Let_def)

lemma questions_distinct_bots_move:
  assumes "distinct (map qc_id (cs_questions (cy_cards S)))"
  shows "distinct (map qc_id (cs_questions (cy_cards (bots_move b S))))"
proof -
  have "map qc_id (cs_questions (forget_account user cs)) = map qc_id (cs_questions cs)" for user cs
    by (simp add: forget_account_def Let_def comp_def)
  moreover have "distinct (map qc_id (cs_questions (cascade_cards s (cy_cards S))))" for s
    using assms by (simp add: cascade_cards_def distinct_map_filter)
  ultimately show ?thesis unfolding bots_move_cards Let_def by (cases b) simp_all
qed

lemma questions_fit_move:
  assumes "card_move tb S S'" "questions_fit S"
  shows "questions_fit S'"
proof -
  have dist: "distinct (map qc_id (cs_questions (cy_cards S)))" using assms(2) by (simp add: questions_fit_def)
  have rows: "qc_id r \<in> set (cy_used S)" "(qc_organization r, qc_bot r) \<in> bot_keys (cy_store S)"
    if "r \<in> set (cs_questions (cy_cards S))" for r using assms(2) that by (simp_all add: questions_fit_def)
  have memory: "qc_id q \<in> set (cy_used S)" if "q \<in> set (cy_questions S)" for q
    using assms(2) that by (simp add: questions_fit_def)
  have same: "qc_organization r = qc_organization q \<and> qc_bot r = qc_bot q"
    if "q \<in> set (cy_questions S)" "r \<in> set (cs_questions (cy_cards S))" "qc_id r = qc_id q" for q r
    using assms(2) that by (simp add: questions_fit_def)
  show ?thesis using assms(1)
  proof cases
    case (Move_bots b)
    have "qc_id r \<in> set (cy_used S) \<and> (qc_organization r, qc_bot r) \<in> bot_keys (cy_store (bots_move b S)) \<and>
        (\<forall>q \<in> set (cy_questions S). qc_id r = qc_id q \<longrightarrow> qc_organization r = qc_organization q \<and> qc_bot r = qc_bot q)"
      if r: "r \<in> set (cs_questions (cy_cards (bots_move b S)))" for r
      by (rule bots_move_questions [OF r]) (use rows(1) same in \<open>auto simp: lock_bot_keys\<close>)
    then show ?thesis using memory questions_distinct_bots_move [OF dist] by (simp add: questions_fit_def Move_bots)
  next
    case (Move_asked ctx granted c aid a cs d)
    then show ?thesis using dist rows memory same insert_pending_row(4) [OF Move_asked(6)]
      by (auto simp: questions_fit_def stage_card_jobs_def)
  next
    case (Move_questions qid org bid tid qs summary q cs)
    note cs = insert_pending_questions_row [OF Move_questions(4)]
    have "qc_id q = qid" using ask_questions_id [OF Move_questions(3)] .
    then show ?thesis using dist rows memory same cs(2) Move_questions(2)
      by (auto simp: questions_fit_def Move_questions(1) cs(3) lock_bot_keys)
  next
    case (Move_load_questions r)
    have "r' = r" if "r' \<in> set (cs_questions (cy_cards S))" "qc_id r' = qc_id r" for r'
      using that Move_load_questions(2) dist by (auto simp: distinct_map dest: inj_onD)
    then have "\<forall>r' \<in> set (cs_questions (cy_cards S)). qc_id r' = qc_id r \<longrightarrow>
        qc_organization r' = qc_organization r \<and> qc_bot r' = qc_bot r" by blast
    then show ?thesis using assms(2) rows(1) [OF Move_load_questions(2)]
      by (simp add: questions_fit_def Move_load_questions(1))
  next
    case Move_decided
    then show ?thesis using dist rows memory same by (auto simp: questions_fit_def bots_on_def)
  next
    case (Move_decided_questions q q' B)
    let ?qs = "map (\<lambda>r. if question_hit q' r then question_columns q' r else r) (cs_questions (cy_cards S))"
    have "map qc_id ?qs = map qc_id (cs_questions (cy_cards S))" by simp
    then have dist': "distinct (map qc_id ?qs)" using dist by (simp only:)
    have kept: "\<exists>r0 \<in> set (cs_questions (cy_cards S)). qc_id r = qc_id r0 \<and> qc_organization r = qc_organization r0 \<and>
        qc_bot r = qc_bot r0" if "r \<in> set ?qs" for r
      using that by (auto split: if_splits)
    show ?thesis unfolding questions_fit_def
    proof (intro conjI ballI impI)
      show "distinct (map qc_id (cs_questions (cy_cards S')))" using dist' by (simp add: Move_decided_questions(1))
    next
      fix r assume "r \<in> set (cs_questions (cy_cards S'))"
      then have "r \<in> set ?qs" by (simp add: Move_decided_questions(1))
      then show "qc_id r \<in> set (cy_used S')" "(qc_organization r, qc_bot r) \<in> bot_keys (cy_store S')"
        using kept rows Move_decided_questions(8) by (auto simp: Move_decided_questions(1) bots_on_def)
    next
      fix p assume "p \<in> set (cy_questions S')"
      then have p: "p \<in> set (cy_questions S)" by (simp add: Move_decided_questions(1))
      then show "qc_id p \<in> set (cy_used S')" using memory by (simp add: Move_decided_questions(1))
      fix r assume r: "r \<in> set (cs_questions (cy_cards S'))" "qc_id r = qc_id p"
      then have "r \<in> set ?qs" by (simp add: Move_decided_questions(1))
      from kept [OF this] r(2) same [OF p]
      show "qc_organization r = qc_organization p" "qc_bot r = qc_bot p" by auto
    qed
  next
    case Move_reported
    then show ?thesis using dist rows memory same by (auto simp: questions_fit_def bots_on_def)
  qed (use dist rows memory same in
      \<open>auto simp: questions_fit_def stage_card_jobs_def insert_rule_def split: if_splits\<close>)
qed

end
