(* ===== verification/Bot_Card_Limits.thy ===== *)
theory Bot_Card_Limits
  imports Bot_Card_Kept
begin

section \<open>Limits of the cards\<close>

text \<open>The parts of the invariant that count: how many cards wait, how much stands, what is on its way.\<close>

subsection \<open>How many wait\<close>

lemma waiting_le:
  assumes "waiting_fits S"
    and "\<And>org bid. cards_waiting org bid (cy_cards S') \<le> cards_waiting org bid (cy_cards S)"
  shows "waiting_fits S'"
  using assms unfolding waiting_fits_def by (meson le_trans)

lemma cascade_sel:
  "cs_approvals (cascade_cards s cs) = filter (\<lambda>a. lock_bot (ap_organization a) (ap_bot a) s \<and>
     turn_referenced (ap_organization a) (Some (ap_turn a)) s) (cs_approvals cs)"
  "cs_questions (cascade_cards s cs) = filter (\<lambda>q. lock_bot (qc_organization q) (qc_bot q) s \<and>
     turn_referenced (qc_organization q) (Some (qc_turn q)) s) (cs_questions cs)"
  "cs_settings (cascade_cards s cs) = filter (\<lambda>p. lock_bot (tp_organization p) (tp_bot p) s) (cs_settings cs)"
  "cs_rules (cascade_cards s cs) = filter (\<lambda>r. lock_bot (pr_organization r) (pr_bot r) s) (cs_rules cs)"
  by (simp_all add: cascade_cards_def)

lemma forget_sel:
  "cs_approvals (forget_account user cs) = map (\<lambda>a. a\<lparr>ap_by := if ap_by a = Some user then None else ap_by a\<rparr>) (cs_approvals cs)"
  "cs_questions (forget_account user cs) = map (\<lambda>q. q\<lparr>qc_by := if qc_by q = Some user then None else qc_by q\<rparr>) (cs_questions cs)"
  "cs_settings (forget_account user cs) = map (\<lambda>p. p\<lparr>tp_by := if tp_by p = Some user then None else tp_by p\<rparr>) (cs_settings cs)"
  "cs_rules (forget_account user cs) = map (\<lambda>r. r\<lparr>pr_by := if pr_by r = Some user then None else pr_by r\<rparr>) (cs_rules cs)"
  by (simp_all add: forget_account_def Let_def)

lemma saved_approvals:
  "cs_approvals (saved a ps js cs) = map (\<lambda>r. if approval_hit a r then approval_columns a r else r) (cs_approvals cs)"
  by (simp add: saved_def)

lemma waiting_cascade: "cards_waiting org bid (cascade_cards s cs) \<le> cards_waiting org bid cs"
  unfolding cards_waiting_def cascade_sel by (intro add_mono length_filter_filter_le)

lemma waiting_forget: "cards_waiting org bid (forget_account user cs) \<le> cards_waiting org bid cs"
  unfolding cards_waiting_def forget_sel by (intro add_mono length_filter_map_le) simp_all

lemma waiting_same:
  "cs_approvals cs' = cs_approvals cs \<Longrightarrow> cs_questions cs' = cs_questions cs \<Longrightarrow>
     cards_waiting org bid cs' = cards_waiting org bid cs"
  by (simp add: cards_waiting_def)

lemma waiting_saved:
  assumes "ap_status a \<noteq> Ap_pending"
  shows "cards_waiting org bid (saved a ps js cs) \<le> cards_waiting org bid cs"
  unfolding cards_waiting_def saved_approvals saved_sel
  by (intro add_mono length_filter_map_le le_refl) (use assms in \<open>auto split: if_splits\<close>)

lemma waiting_one_more:
  assumes "cards_waiting (ap_organization a) (ap_bot a) cs = 0" "\<forall>org bid. cards_waiting org bid cs \<le> 1"
    "cs_approvals cs' = cs_approvals cs @ [a]" "cs_questions cs' = cs_questions cs"
  shows "cards_waiting org bid cs' \<le> 1"
proof (cases "org = ap_organization a \<and> bid = ap_bot a")
  case True
  then show ?thesis using assms(1) by (simp add: cards_waiting_def assms(3,4))
next
  case False
  then have "cards_waiting org bid cs' = cards_waiting org bid cs" by (auto simp: cards_waiting_def assms(3,4))
  then show ?thesis using assms(2) by simp
qed

lemma waiting_one_more_question:
  assumes "cards_waiting (qc_organization q) (qc_bot q) cs = 0" "\<forall>org bid. cards_waiting org bid cs \<le> 1"
    "cs_approvals cs' = cs_approvals cs" "cs_questions cs' = cs_questions cs @ [q]"
  shows "cards_waiting org bid cs' \<le> 1"
proof (cases "org = qc_organization q \<and> bid = qc_bot q")
  case True
  then show ?thesis using assms(1) by (simp add: cards_waiting_def assms(3,4))
next
  case False
  then have "cards_waiting org bid cs' = cards_waiting org bid cs" by (auto simp: cards_waiting_def assms(3,4))
  then show ?thesis using assms(2) by simp
qed

lemma waiting_fits_move:
  assumes "card_move tb S S'" "waiting_fits S" "cards_fit S"
  shows "waiting_fits S'"
proof -
  have same: "waiting_fits S'" if "cs_approvals (cy_cards S') = cs_approvals (cy_cards S)" "cs_questions (cy_cards S') = cs_questions (cy_cards S)"
    by (rule waiting_le [OF assms(2)]) (simp add: waiting_same [OF that])
  show ?thesis using assms(1)
  proof cases
    case (Move_bots b)
    have "cards_waiting org bid (cy_cards (bots_move b S)) \<le> cards_waiting org bid (cy_cards S)" for org bid
      unfolding bots_move_cards Let_def using waiting_cascade le_trans [OF waiting_forget waiting_cascade] by (cases b) simp_all
    then show ?thesis by (intro waiting_le [OF assms(2)]) (simp add: Move_bots)
  next
    case (Move_asked ctx granted c aid a cs d)
    note cs = insert_pending_row [OF Move_asked(6)]
    have "cards_waiting org bid cs \<le> 1" for org bid
      by (rule waiting_one_more [where a = "bot_approval.truncate a" and cs = "cy_cards S"])
        (use waiting_card_None [OF cs(1)] assms(2) in \<open>simp_all add: cs(4) stage_card_jobs_def waiting_fits_def\<close>)
    then show ?thesis by (simp add: waiting_fits_def Move_asked(1))
  next
    case (Move_questions qid org bid tid qs summary q cs)
    note cs = insert_pending_questions_row [OF Move_questions(4)]
    have "cards_waiting org bid cs \<le> 1" for org bid
      by (rule waiting_one_more_question [where q = "question_card.truncate q" and cs = "cy_cards S"])
        (use waiting_card_None [OF cs(1)] assms(2) in \<open>simp_all add: cs(3) waiting_fits_def\<close>)
    then show ?thesis by (simp add: waiting_fits_def Move_questions(1))
  next
    case (Move_decided a a' ps js B us)
    then have "ap_status a' \<noteq> Ap_pending" by (auto simp: decided_card_def)
    then show ?thesis using waiting_le [OF assms(2)] waiting_saved by (simp add: Move_decided(1))
  next
    case (Move_decided_questions q q' B)
    have "cards_waiting org bid (cy_cards S') \<le> cards_waiting org bid (cy_cards S)" for org bid
    proof -
      let ?qs = "map (\<lambda>r. if question_hit q' r then question_columns q' r else r) (cs_questions (cy_cards S))"
      have qs: "cs_questions (cy_cards S') = ?qs" "cs_approvals (cy_cards S') = cs_approvals (cy_cards S)"
        by (simp_all add: Move_decided_questions(1))
      show ?thesis unfolding cards_waiting_def qs
        by (intro add_mono le_refl length_filter_map_le) (use Move_decided_questions(4) in \<open>auto split: if_splits\<close>)
    qed
    then show ?thesis by (rule waiting_le [OF assms(2)])
  next
    case (Move_reported k a a' B failed js)
    then have "ap_status a' \<noteq> Ap_pending" by (auto simp: reported_card_def)
    then show ?thesis using waiting_le [OF assms(2)] waiting_saved by (simp add: Move_reported(1))
  next
    case (Move_rule r cs us)
    then show ?thesis by (intro same) (auto simp: insert_rule_def split: if_splits)
  qed (use same in \<open>simp_all add: stage_card_jobs_def\<close>)
qed

subsection \<open>The owner's settings\<close>

lemma settings_with_grants:
  assumes "settings_with p ps ps'" "length (filter (is_grant org bid) ps) \<le> bot_tool_grants_max"
  shows "length (filter (is_grant org bid) ps') \<le> bot_tool_grants_max"
  using assms(1) unfolding settings_with_def
proof (elim disjE conjE)
  assume "tp_subject p = None" and
    ps': "ps' = map (\<lambda>r. if setting_key r = setting_key p then r\<lparr>tp_decision := tp_decision p, tp_by := tp_by p\<rparr> else r) ps"
  have "length (filter (is_grant org bid) ps') \<le> length (filter (is_grant org bid) ps)"
    unfolding ps' by (rule length_filter_map_le) (auto simp: is_grant_def split: if_splits)
  then show ?thesis using assms(2) by simp
next
  assume "ps' = ps @ [p]" "tp_subject p \<noteq> None \<longrightarrow>
    length (filter (is_grant (tp_organization p) (tp_bot p)) ps) < bot_tool_grants_max"
  then show ?thesis using assms(2) by (auto simp: is_grant_def)
qed (use assms(2) in simp)

lemma settings_fit_move:
  assumes "card_move tb S S'" "settings_fit S"
  shows "settings_fit S'"
proof -
  note g = assms(2) [unfolded settings_fit_def]
  have same: "settings_fit S'" if "cs_settings (cy_cards S') = cs_settings (cy_cards S)" "cs_rules (cy_cards S') = cs_rules (cy_cards S)"
    using g by (simp add: settings_fit_def that)
  show ?thesis using assms(1)
  proof cases
    case (Move_bots b)
    have c: "length (filter (is_grant org bid) (cs_settings (cascade_cards s (cy_cards S)))) \<le> bot_tool_grants_max"
      "length (filter (\<lambda>r. pr_organization r = org \<and> pr_bot r = bid) (cs_rules (cascade_cards s (cy_cards S)))) \<le> bot_permission_rules_max"
      for s org bid
      unfolding cascade_sel using g by (auto intro: le_trans [OF length_filter_filter_le] simp del: filter_filter)
    have f: "length (filter (is_grant org bid) (cs_settings (forget_account user cs))) \<le> length (filter (is_grant org bid) (cs_settings cs))"
      "length (filter (\<lambda>r. pr_organization r = org \<and> pr_bot r = bid) (cs_rules (forget_account user cs))) \<le>
       length (filter (\<lambda>r. pr_organization r = org \<and> pr_bot r = bid) (cs_rules cs))" for user cs org bid
      unfolding forget_sel by (rule length_filter_map_le, simp add: is_grant_def)+
    show ?thesis unfolding Move_bots settings_fit_def bots_move_cards Let_def
      using c le_trans [OF f(1) c(1)] le_trans [OF f(2) c(2)] by (cases b) simp_all
  next
    case (Move_decided a a' ps js B us)
    then have "ps = cs_settings (cy_cards S) \<or> (\<exists>p. settings_with p (cs_settings (cy_cards S)) ps)"
      by (auto simp: leaves_standing_def)
    then show ?thesis using g settings_with_grants by (auto simp: settings_fit_def Move_decided(1))
  next
    case (Move_setting p ps us)
    then show ?thesis using g settings_with_grants [OF Move_setting(2)] by (auto simp: settings_fit_def)
  next
    case (Move_unset keep us)
    then show ?thesis using g by (auto simp: settings_fit_def intro: le_trans [OF length_filter_filter_le] simp del: filter_filter)
  next
    case (Move_rule r cs us)
    then show ?thesis using g by (auto simp: settings_fit_def insert_rule_def split: if_splits)
  next
    case (Move_unrule keep)
    then show ?thesis using g by (auto simp: settings_fit_def intro: le_trans [OF length_filter_filter_le] simp del: filter_filter)
  next
    case (Move_asked ctx granted c aid a cs d)
    then show ?thesis using insert_pending_row(4) [OF Move_asked(6)] by (intro same) (simp_all add: stage_card_jobs_def)
  next
    case (Move_questions qid org bid tid qs summary q cs)
    then show ?thesis using insert_pending_questions_row(3) [OF Move_questions(4)] by (intro same) simp_all
  qed (use same in \<open>simp_all add: stage_card_jobs_def\<close>)
qed

subsection \<open>Calls that ask every time\<close>

lemma per_call_tool_spec:
  assumes "well_defined tb" "d \<in> set (tb_specs tb)"
  shows "per_call_tool tb (spec_name d) = trait_per_call (spec_traits d)"
proof
  assume "per_call_tool tb (spec_name d)"
  then obtain e where "e \<in> set (tb_specs tb)" "spec_name e = spec_name d" "trait_per_call (spec_traits e)"
    by (auto simp: per_call_tool_def list_ex_iff)
  moreover have "inj_on spec_name (set (tb_specs tb))" using assms(1) by (simp add: well_defined_def distinct_map)
  ultimately show "trait_per_call (spec_traits d)" using assms(2) by (auto dest: inj_onD)
qed (use assms(2) in \<open>auto simp: per_call_tool_def list_ex_iff\<close>)

lemma settings_with_bad:
  assumes "settings_with p ps ps'" "\<forall>r \<in> set ps. per_call_tool tb (tp_tool r) \<longrightarrow> \<not> stands_for_good r"
    "per_call_tool tb (tp_tool p) \<longrightarrow> \<not> stands_for_good p" "r \<in> set ps'"
  shows "per_call_tool tb (tp_tool r) \<longrightarrow> \<not> stands_for_good r"
  using assms(1) unfolding settings_with_def
proof (elim disjE conjE)
  assume p: "tp_subject p = None" and
    ps': "ps' = map (\<lambda>r. if setting_key r = setting_key p then r\<lparr>tp_decision := tp_decision p, tp_by := tp_by p\<rparr> else r) ps"
  obtain q where q: "q \<in> set ps"
    "r = (if setting_key q = setting_key p then q\<lparr>tp_decision := tp_decision p, tp_by := tp_by p\<rparr> else q)"
    using assms(4) ps' by auto
  show ?thesis
  proof (cases "setting_key q = setting_key p")
    case True
    then have "tp_tool q = tp_tool p" "tp_subject q = None" using p by (auto simp: setting_key_def)
    then show ?thesis using assms(3) p q(2) True by (simp add: stands_for_good_def)
  next
    case False
    then show ?thesis using assms(2) q by simp
  qed
qed (use assms in auto)

lemma calls_fit_move:
  assumes "card_move tb S S'" "calls_fit tb S" "cards_fit S" "well_defined tb"
  shows "calls_fit tb S'"
proof -
  have asked: "ac_per_call c = per_call_tool tb (ac_tool c)" if "Ev_asked i c g \<in> set (cy_trace S)" for i c g
    using assms(2) that by (auto simp: calls_fit_def)
  have settings: "\<forall>p \<in> set (cs_settings (cy_cards S)). per_call_tool tb (tp_tool p) \<longrightarrow> \<not> stands_for_good p"
    using assms(2) by (simp add: calls_fit_def)
  have asked': "ac_per_call c = per_call_tool tb (ac_tool c)" if e: "Ev_asked i c g \<in> set (cy_trace S')" for i c g
  proof (cases "Ev_asked i c g \<in> set (cy_trace S)")
    case False
    then obtain d where "d \<in> set (tb_specs tb)" "spec_name d = ac_tool c" "ac_per_call c = trait_per_call (spec_traits d)"
      using move_asks [OF assms(1) e] by blast
    then show ?thesis using per_call_tool_spec [OF assms(4), of d] by simp
  qed (rule asked)
  have "\<forall>p \<in> set (cs_settings (cy_cards S')). per_call_tool tb (tp_tool p) \<longrightarrow> \<not> stands_for_good p"
    using assms(1)
  proof cases
    case (Move_bots b)
    have "per_call_tool tb (tp_tool p) \<longrightarrow> \<not> stands_for_good p"
      if "p \<in> set (cs_settings (cascade_cards s (cy_cards S)))" for p s using settings that by (simp add: cascade_sel)
    moreover have "per_call_tool tb (tp_tool p) \<longrightarrow> \<not> stands_for_good p"
      if "p \<in> set (cs_settings (forget_account user (cascade_cards s (cy_cards S))))" for p s user
      using settings that by (auto simp: cascade_sel forget_sel stands_for_good_def)
    ultimately show ?thesis unfolding Move_bots bots_move_cards Let_def by (cases b) simp_all
  next
    case (Move_decided a a' ps js B us)
    have known: "known (cy_trace S) a" using assms(3) Move_decided(2) by (auto simp: cards_fit_def)
    then have "ap_per_call a' = per_call_tool tb (ap_tool a')"
      using asked Move_decided(3) by (auto simp: known_def fits_call_def decided_card_def same_card_def)
    then have "ps = cs_settings (cy_cards S) \<or>
        (\<exists>p. \<not> per_call_tool tb (tp_tool p) \<and> settings_with p (cs_settings (cy_cards S)) ps)"
      using Move_decided(5) unfolding leaves_standing_def by metis
    then show ?thesis using settings settings_with_bad [of _ "cs_settings (cy_cards S)" ps tb]
      by (auto simp: Move_decided(1))
  next
    case (Move_setting p ps us)
    have "\<not> stands_for_good p" if pc: "per_call_tool tb (tp_tool p)"
    proof -
      obtain d where d: "find (\<lambda>d. spec_name d = tp_tool p) (tb_specs tb) = Some d"
        using pc by (cases "find (\<lambda>d. spec_name d = tp_tool p) (tb_specs tb)") (auto simp: find_None_iff per_call_tool_def list_ex_iff)
      then have "d \<in> set (tb_specs tb)" "spec_name d = tp_tool p" using find_Some_mem by fastforce+
      then have "trait_per_call (spec_traits d)" using per_call_tool_spec [OF assms(4), of d] pc by simp
      then show ?thesis using Move_setting(3,4) d by (simp add: stands_for_good_def)
    qed
    then show ?thesis using settings_with_bad [OF Move_setting(2) settings] by (simp add: Move_setting(1))
  next
    case (Move_asked ctx granted c aid a cs d)
    then show ?thesis using settings insert_pending_row(4) [OF Move_asked(6)] by (simp add: stage_card_jobs_def)
  next
    case (Move_questions qid org bid tid qs summary q cs)
    then show ?thesis using settings insert_pending_questions_row(3) [OF Move_questions(4)] by simp
  next
    case (Move_rule r cs us)
    then show ?thesis using settings by (auto simp: insert_rule_def split: if_splits)
  qed (use settings in \<open>simp_all add: stage_card_jobs_def\<close>)
  then show ?thesis using asked' by (auto simp: calls_fit_def)
qed

subsection \<open>Calls on their way\<close>

lemma asked_once:
  assumes "well_told tr" "Ev_asked i c g \<in> set tr" "Ev_asked i c' g' \<in> set tr"
  shows "c = c' \<and> g = g'"
  using assms
proof (induction tr)
  case (Cons e tr)
  then show ?case by (cases e) auto
qed simp

lemma remove_at_other: "x \<in> set xs \<Longrightarrow> k < length xs \<Longrightarrow> x \<noteq> xs ! k \<Longrightarrow> x \<in> set (remove_at k xs)"
  by (subst (asm) id_take_nth_drop [of k xs]) (auto simp: remove_at_def)

lemma known_same:
  assumes "well_told tr" "known tr a" "known tr b" "ap_id a = ap_id b"
  shows "ap_organization a = ap_organization b" "ap_bot a = ap_bot b"
  using assms asked_once [OF assms(1)] unfolding known_def fits_call_def by metis+

definition on_its_way :: "card_system \<Rightarrow> string \<Rightarrow> bool" where
  "on_its_way S i \<longleftrightarrow>
     (\<exists>by'. Run_approved_call i by' \<in> set (cs_jobs (cy_cards S))) \<or> (\<exists>w \<in> set (cy_workers S). ap_id (worker_card w) = i)"

lemma running_fit_way:
  "running_fit S \<longleftrightarrow> (\<forall>r \<in> set (cs_approvals (cy_cards S)). approval_running r \<longrightarrow> on_its_way S (ap_id r))"
  by (simp add: running_fit_def on_its_way_def)

lemma running_fit_move:
  assumes "card_move tb S S'" "running_fit S" "cards_fit S" "trace_fits S"
  shows "running_fit S'"
proof -
  have dist: "distinct (map ap_id (cs_approvals (cy_cards S)))"
    and known: "\<And>r. r \<in> set (cs_approvals (cy_cards S)) \<Longrightarrow> known (cy_trace S) r"
    and workers: "\<And>w. w \<in> set (cy_workers S) \<Longrightarrow> card_worker_fits (cy_trace S) w"
    using assms(3) by (simp_all add: cards_fit_def row_fits_def)
  have told: "well_told (cy_trace S)" using assms(4) by (simp add: trace_fits_def)
  have way: "on_its_way S (ap_id r)" if "r \<in> set (cs_approvals (cy_cards S))" "approval_running r" for r
    using assms(2) that by (simp add: running_fit_way)
  have same_row: "r = r'" if "r \<in> set (cs_approvals (cy_cards S))" "r' \<in> set (cs_approvals (cy_cards S))" "ap_id r = ap_id r'" for r r'
    using dist that by (auto simp: distinct_map dest: inj_onD)
  have more: "running_fit S'" if "cs_approvals (cy_cards S') = cs_approvals (cy_cards S)"
    "set (cs_jobs (cy_cards S)) \<subseteq> set (cs_jobs (cy_cards S'))" "cy_workers S' = cy_workers S"
    using way that by (force simp: running_fit_way on_its_way_def)
  show ?thesis using assms(1)
  proof cases
    case (Move_bots b)
    have "on_its_way (bots_move b S) (ap_id r)"
      if r: "r \<in> set (cs_approvals (cy_cards (bots_move b S)))" "approval_running r" for r
    proof -
      obtain r0 where "r0 \<in> set (cs_approvals (cy_cards S))" "ap_id r = ap_id r0" "approval_running r0"
        using bots_move_row [OF r(1)] r(2) by (metis forget_by_sel(3) bot_approval.select_convs(1) bot_approval.surjective bot_approval.update_convs(17))
      then show ?thesis using way by (simp add: on_its_way_def)
    qed
    then show ?thesis by (simp add: running_fit_way Move_bots)
  next
    case (Move_asked ctx granted c aid a cs d)
    note cs = insert_pending_row(4) [OF Move_asked(6)]
    have still: "on_its_way S' i" if "on_its_way S i" for i
      using that by (auto simp: on_its_way_def Move_asked(1) cs stage_card_jobs_def)
    have "\<not> approval_running a" using request_approval_card(3) [OF Move_asked(5)] by (simp add: approval_running_def)
    then show ?thesis using way still by (auto simp: running_fit_way Move_asked(1) cs stage_card_jobs_def)
  next
    case (Move_questions qid org bid tid qs summary q cs)
    then show ?thesis using insert_pending_questions_row(3) [OF Move_questions(4)] by (intro more) simp_all
  next
    case (Move_decided a a' ps js B us)
    have "on_its_way S' (ap_id r)" if r: "r \<in> set (cs_approvals (cy_cards S'))" "approval_running r" for r
    proof -
      have "r \<in> set (cs_approvals (saved a' ps js (cy_cards S)))" using r(1) by (simp add: Move_decided(1))
      then show ?thesis
      proof (cases rule: saved_row)
        case (hit r0)
        then have "ap_status a' = Ap_approved" "ap_id r = ap_id a'" using r(2) by (auto simp: approval_running_def approval_hit_def)
        then show ?thesis using Move_decided(6) by (auto simp: run_jobs_of_def on_its_way_def Move_decided(1))
      next
        case other
        then show ?thesis using way r(2) by (auto simp: on_its_way_def Move_decided(1))
      qed
    qed
    then show ?thesis by (simp add: running_fit_way)
  next
    case (Move_taken k aid by' r)
    have "ap_id r = aid" using Move_taken(4) by (auto simp: find_approval_def dest: find_Some_mem)
    then have "on_its_way S' i" if "on_its_way S i" for i
      using that remove_at_other [OF _ Move_taken(2)] Move_taken(3) by (fastforce simp: on_its_way_def Move_taken(1))
    then show ?thesis using way by (simp add: running_fit_way Move_taken(1))
  next
    case (Move_taken_late k aid by')
    have "on_its_way S' (ap_id r)" if r: "r \<in> set (cs_approvals (cy_cards S))" "approval_running r" for r
    proof -
      have "ap_id r \<noteq> aid"
      proof
        assume id: "ap_id r = aid"
        obtain r' where r': "find_approval aid (cy_cards S) = Some r'"
          using r(1) id by (cases "find_approval aid (cy_cards S)") (auto simp: find_approval_def find_None_iff)
        then have "r' \<in> set (cs_approvals (cy_cards S))" "ap_id r' = aid" by (auto simp: find_approval_def dest: find_Some_mem)
        then show False using same_row r(1) id r' r(2) Move_taken_late(4) by metis
      qed
      then show ?thesis using way [OF r] remove_at_other [OF _ Move_taken_late(2)] Move_taken_late(3)
        by (fastforce simp: on_its_way_def Move_taken_late(1))
    qed
    then show ?thesis by (simp add: running_fit_way Move_taken_late(1))
  next
    case (Move_run k a by' granted evs zone refused)
    have "on_its_way S' i" if "on_its_way S i" for i
    proof -
      have new: "Call_ran a by' granted zone refused \<in> set ((cy_workers S)[k := Call_ran a by' granted zone refused])"
        using Move_run(2) by (rule set_update_memI)
      have "\<exists>v \<in> set ((cy_workers S)[k := Call_ran a by' granted zone refused]). ap_id (worker_card v) = i"
        if w: "w \<in> set (cy_workers S)" "ap_id (worker_card w) = i" for w
      proof -
        obtain j where j: "j < length (cy_workers S)" "w = cy_workers S ! j" using w(1) by (auto simp: in_set_conv_nth)
        show ?thesis
        proof (cases "j = k")
          case True then show ?thesis using new w(2) j Move_run(3) by force
        next
          case False
          then have "w \<in> set ((cy_workers S)[k := Call_ran a by' granted zone refused])"
            using j by (metis length_list_update nth_list_update_neq nth_mem)
          then show ?thesis using w(2) by blast
        qed
      qed
      then show ?thesis using that by (auto simp: on_its_way_def Move_run(1))
    qed
    then show ?thesis using way by (simp add: running_fit_way Move_run(1))
  next
    case (Move_reported k a a' B failed js)
    have "on_its_way S' (ap_id r)" if r: "r \<in> set (cs_approvals (cy_cards S'))" "approval_running r" for r
    proof -
      have "r \<in> set (cs_approvals (saved a' (cs_settings (cy_cards S)) js (cy_cards S)))" using r(1) by (simp add: Move_reported(1))
      then show ?thesis
      proof (cases rule: saved_row)
        case (hit r0)
        then show ?thesis using r(2) Move_reported(4) by (auto simp: approval_running_def reported_card_def)
      next
        case other
        obtain r0 where r0: "r0 \<in> set (cs_approvals (cy_cards S))" "approval_hit a' r0" using one_hit [OF Move_reported(5)] .
        have "ap_id r \<noteq> ap_id a" using saved_distinct [OF dist r0(1) other(1) r0(2) other(2)] Move_reported(4)
          by (simp add: reported_card_def same_card_def)
        then show ?thesis using way [OF other(1) r(2)] remove_at_other [OF _ Move_reported(2)] Move_reported(3)
          by (fastforce simp: on_its_way_def Move_reported(1))
      qed
    qed
    then show ?thesis by (simp add: running_fit_way)
  next
    case (Move_reported_late k a a')
    have a: "card_worker_fits (cy_trace S) (cy_workers S ! k)" using workers Move_reported_late(2) by simp
    have "on_its_way S' (ap_id r)" if r: "r \<in> set (cs_approvals (cy_cards S))" "approval_running r" for r
    proof -
      have "ap_id r \<noteq> ap_id a"
      proof
        assume id: "ap_id r = ap_id a"
        have "ap_organization r = ap_organization a"
          using known_same(1) [OF told known [OF r(1)] _ id] a Move_reported_late(3) by (simp add: card_worker_fits_def)
        then have hit: "approval_hit a' r"
          using id r(2) a Move_reported_late(3,4)
          by (auto simp: approval_hit_def reported_card_def same_card_def card_worker_fits_def approval_running_def)
        have "r' = r" if "r' \<in> set (cs_approvals (cy_cards S))" "approval_hit a' r'" for r'
          using same_row [OF that(1) r(1)] that(2) hit by (simp add: approval_hit_def)
        then have "filter (approval_hit a') (cs_approvals (cy_cards S)) = filter (\<lambda>x. x = r) (cs_approvals (cy_cards S))"
          using hit by (intro filter_cong) auto
        moreover have "length (filter (\<lambda>x. x = r) (cs_approvals (cy_cards S))) = 1"
          using r(1) dist by (simp add: distinct_map distinct_length_filter Int_absorb1 Collect_conv_if)
        ultimately show False using Move_reported_late(5) by simp
      qed
      then show ?thesis using way [OF r] remove_at_other [OF _ Move_reported_late(2)] Move_reported_late(3)
        by (fastforce simp: on_its_way_def Move_reported_late(1))
    qed
    then show ?thesis by (simp add: running_fit_way Move_reported_late(1))
  next
    case (Move_dropped k a by')
    have "on_its_way S' i" if "on_its_way S i" for i
      using that remove_at_other [OF _ Move_dropped(2)] Move_dropped(3)
      by (fastforce simp: on_its_way_def Move_dropped(1) stage_card_jobs_def)
    then show ?thesis using way by (simp add: running_fit_way Move_dropped(1) stage_card_jobs_def)
  next
    case (Move_rule r cs us)
    then show ?thesis by (intro more) (auto simp: insert_rule_def split: if_splits)
  qed (use more in simp_all)
qed

lemma card_inv_move:
  assumes "card_move tb S S'" "card_inv tb S"
  shows "card_inv tb S'"
  using assms(2) turns_fit_move [OF assms(1)] cards_fit_move [OF assms(1)] trace_fits_move [OF assms(1)]
    questions_fit_move [OF assms(1)] waiting_fits_move [OF assms(1)] settings_fit_move [OF assms(1)]
    calls_fit_move [OF assms(1)] running_fit_move [OF assms(1)]
  unfolding card_inv_def by blast

end
