(* ===== verification/Bot_Card_Steps.thy ===== *)
theory Bot_Card_Steps
  imports Bot_Card_Limits
begin

section \<open>Every step of the cards is a move\<close>

text \<open>
  What the handlers of Bot_Card_System write, told as moves, and the contracts of System_Interfaces
  on them: the steps keep \<open>card_inv\<close>, and to the bots' own system they are a run of it.
\<close>

subsection \<open>What the bots' system sees of a decision\<close>

lemma bots_on_refl: "bots_on B B"
  unfolding bots_on_def by (intro conjI exI [of _ "[]"]) (simp_all add: bot_run_def)

lemma bots_on_trans:
  assumes "bots_on B B1" "bots_on B1 B2"
  shows "bots_on B B2"
proof -
  obtain bs cs where "B1 = bot_run bs B" "B2 = bot_run cs B1" using assms by (auto simp: bots_on_def)
  then have "B2 = bot_run (bs @ cs) B" by (simp add: bot_run_append)
  then show ?thesis using assms by (auto simp: bots_on_def)
qed

lemma find_bot:
  assumes "system_inv B" "lock_bot org bid (sys_store B)"
  obtains b where "find (\<lambda>b. br_id b = bid) (st_bots (sys_store B)) = Some b" "br_organization b = org"
proof -
  obtain b where b: "b \<in> set (st_bots (sys_store B))" "br_organization b = org" "br_id b = bid"
    using assms(2) by (auto simp: lock_bot_def list_ex_iff)
  then obtain c where c: "find (\<lambda>b. br_id b = bid) (st_bots (sys_store B)) = Some c"
    by (cases "find (\<lambda>b. br_id b = bid) (st_bots (sys_store B))") (auto simp: find_None_iff)
  have "distinct (map br_id (st_bots (sys_store B)))"
    using system_store [OF assms(1)] by (simp add: store_inv_def bots_keyed_def)
  then have "c = b" using find_Some_mem [OF c] b by (auto simp: distinct_map dest: inj_onD)
  then show thesis using that c b by simp
qed

lemma opening_on:
  assumes inv: "system_inv B" and lock: "lock_bot org (pick_bot pick) (sys_store B)" and "fresh [tid, mid] B"
    and opn: "opn = Opens_approval \<or> opn = Opens_question"
    and opened: "opened_turn tid mid now (opening_props opn org user pick zone scopes) words = Inr (t, m)"
    and enq: "enqueue_within now t m (sys_store B) = Inr (oc, s')"
  shows "bots_on B (with_store B [tid, mid] (Inr s'))"
proof -
  obtain b where b: "find (\<lambda>b. br_id b = pick_bot pick) (st_bots (sys_store B)) = Some b" "br_organization b = org"
    using find_bot [OF inv lock] .
  have key: "qp_source_key (opening_props opn org user pick zone scopes) = None"
    using opn by (auto simp: opening_props_def Let_def)
  have "bot_apply (Act_open tid mid now opn user pick zone scopes words) B = with_store B [tid, mid] (Inr s')"
    using assms(3) b key opened enq
    by (simp add: bot_apply_def Let_def queue_opening_def lift_db_def store_of_enqueue_def)
  moreover have "bot_keys s' = bot_keys (sys_store B)"
    using enqueue_within_Inr(1) [OF enq] by (auto simp: enqueues_def same_queue_def queued_into_def)
  ultimately show ?thesis unfolding bots_on_def
    by (intro conjI exI [of _ "[Act_open tid mid now opn user pick zone scopes words]"])
      (simp_all add: bot_run_def with_store_def)
qed

lemma line_on:
  assumes "fresh [mid] B" "event_message mid now org bid None content = Inr m"
  shows "bots_on B (with_store B [mid] (Inr (insert_message now m (sys_store B))))"
proof -
  have "bot_apply (Act_line mid now org bid content) B = with_store B [mid] (Inr (insert_message now m (sys_store B)))"
    using assms by (simp add: bot_apply_def Let_def write_line_def)
  moreover have "bot_keys (insert_message now m (sys_store B)) = bot_keys (sys_store B)"
    using insert_message_queue(1) [of "sys_store B" now m] by (simp add: same_queue_def)
  ultimately show ?thesis unfolding bots_on_def
    by (intro conjI exI [of _ "[Act_line mid now org bid content]"]) (simp_all add: bot_run_def with_store_def)
qed

lemma cancel_on: "bots_on B (bot_apply (Act_cancel i now) (bot_apply (Act_load tid) B))"
proof -
  have load: "sys_store (bot_apply (Act_load tid) B) = sys_store B"
    by (simp add: bot_apply_def Let_def split: option.split)
  have "bot_keys (sys_store (bot_apply (Act_cancel i now) C)) = bot_keys (sys_store C)" for C
    by (simp add: bot_apply_def Let_def with_store_def request_cancel_def bot_keys_def)
  then show ?thesis unfolding bots_on_def
    by (intro conjI exI [of _ "[Act_load tid, Act_cancel i now]"]) (simp_all add: bot_run_def load)
qed

lemma with_store_none [simp]: "with_store B [] (Inr (sys_store B)) = B"
  by (simp add: with_store_def)

subsection \<open>What a decision writes\<close>

lemma upsert_settings:
  assumes "tp_subject p = None"
  shows "\<exists>ps. snd (upsert_decision p s cs) = cs\<lparr>cs_settings := ps\<rparr> \<and> settings_with p (cs_settings cs) ps"
  using assms
  by (intro exI [of _ "cs_settings (snd (upsert_decision p s cs))"]) (auto simp: upsert_decision_def settings_with_def)

lemma grants_of_is: "grants_of org bid cs = filter (is_grant org bid) (cs_settings cs)"
  by (simp add: grants_of_def is_grant_def [abs_def])

lemma insert_grant_settings:
  "insert_grant p bot_tool_grants_max s cs = (oc, cs') \<Longrightarrow>
     \<exists>ps. cs' = cs\<lparr>cs_settings := ps\<rparr> \<and> settings_with p (cs_settings cs) ps"
  by (intro exI [of _ "cs_settings cs'"])
    (auto simp: insert_grant_def settings_with_def grants_of_is not_le split: if_splits)

lemma write_standing_settings:
  assumes "write_standing standing s cs = Inr cs'"
  shows "\<exists>ps. cs' = cs\<lparr>cs_settings := ps\<rparr> \<and>
    (ps = cs_settings cs \<or> (\<exists>p. standing = Some p \<and> settings_with p (cs_settings cs) ps))"
proof (cases standing)
  case None
  then show ?thesis using assms by (intro exI [of _ "cs_settings cs"]) (simp add: write_standing_def)
next
  case (Some p)
  show ?thesis
  proof (cases "tp_subject p = None")
    case True
    then show ?thesis using assms Some upsert_settings [OF True, of s cs] by (auto simp: write_standing_def)
  next
    case False
    then obtain oc where "insert_grant p bot_tool_grants_max s cs = (oc, cs')"
      using assms Some by (auto simp: write_standing_def split: prod.splits grant_outcome.splits)
    then show ?thesis using insert_grant_settings Some by blast
  qed
qed

lemma save_transition_Inr:
  assumes "save_transition now a ef s cs = Inr (True, s', cs')"
  obtains ps s1 where "length (filter (approval_hit a) (cs_approvals cs)) = 1"
    "cs' = saved a ps (map (Approval_changed (ap_id a)) (ap_events a) @
       (case ef_run_call ef of None \<Rightarrow> [] | Some by' \<Rightarrow> [Run_approved_call (ap_id a) by'])) cs"
    "ps = cs_settings cs \<or> (\<exists>p. ef_standing ef = Some p \<and> settings_with p (cs_settings cs) ps)"
    "write_turn now (ef_continuation ef) s = Inr s1"
    "s' = (case ef_line ef of None \<Rightarrow> s1 | Some m \<Rightarrow> insert_message now m s1)"
proof -
  let ?cs1 = "stage_card_jobs (map (Approval_changed (ap_id a)) (ap_events a))
    (cs\<lparr>cs_approvals := map (\<lambda>r. if approval_hit a r then approval_columns a r else r) (cs_approvals cs)\<rparr>)"
  have one: "length (filter (approval_hit a) (cs_approvals cs)) = 1"
    using assms by (auto simp: save_transition_def split: if_splits)
  obtain cs2 s1 where two: "write_standing (ef_standing ef) s ?cs1 = Inr cs2" "write_turn now (ef_continuation ef) s = Inr s1"
    "s' = (case ef_line ef of None \<Rightarrow> s1 | Some m \<Rightarrow> insert_message now m s1)"
    "cs' = (case ef_run_call ef of None \<Rightarrow> cs2 | Some by' \<Rightarrow> stage_card_jobs [Run_approved_call (ap_id a) by'] cs2)"
    using assms one by (auto simp: save_transition_def Let_def split: sum.splits)
  obtain ps where ps: "cs2 = ?cs1\<lparr>cs_settings := ps\<rparr>"
    "ps = cs_settings cs \<or> (\<exists>p. ef_standing ef = Some p \<and> settings_with p (cs_settings cs) ps)"
    using write_standing_settings [OF two(1)] by (auto simp: stage_card_jobs_def)
  show thesis
    by (rule that [OF one _ ps(2) two(2,3)])
      (simp add: two(4) ps(1) stage_card_jobs_def saved_def split: option.split)
qed

lemma save_transition_other:
  "save_transition now a ef s cs = Inr (False, s', cs') \<Longrightarrow>
     length (filter (approval_hit a) (cs_approvals cs)) \<noteq> 1"
  by (auto simp: save_transition_def Let_def split: if_splits sum.splits)

subsection \<open>What a decision is\<close>

lemma decide_card_decided:
  assumes "decide_card status user now scopes a = Inr a'" "status \<in> {Ap_approved, Ap_denied, Ap_expired}"
  shows "decided_card a a'" "ap_status a' = status"
  using assms by (auto simp: decide_card_def announce_approval_def decided_card_def same_card_def split: if_splits)

lemma standing_of_leaves:
  assumes "standing_of pid now a = Some (Inr p)" "ap_reach a = Some reach" "reach \<in> set (approval_reaches a)"
  shows "\<not> ap_per_call a" "tp_tool p = ap_tool a"
  using assms
  by (auto simp: standing_of_def approval_reaches_def reaches_for_def decide_tool_Inr
      dest!: grant_tool_Inr split: if_splits option.splits)

text \<open>Every decision the handler takes on a pending card.\<close>

lemma decide_approval_Inr:
  assumes "decide_approval tid mid pid now decision decider org pick asked a = Inr (a', ef, stops)"
  shows "decided_card a a'"
    "\<forall>p. ef_standing ef = Some p \<longrightarrow> \<not> ap_per_call a' \<and> tp_tool p = ap_tool a'"
    "ap_status a' = Ap_approved \<longrightarrow> ef_run_call ef \<noteq> None"
    "\<exists>words. (\<exists>tm. ef_continuation ef = Some tm \<and> ef_line ef = None \<and>
         opened_turn tid mid now (approval_turn_props org pick asked (dc_user decider)
           (decision_scopes asked (dc_scopes decider))) words = Inr tm) \<or>
       (\<exists>m. ef_continuation ef = None \<and> ef_line ef = Some m \<and>
         event_message mid now (ap_organization a') (ap_bot a') None words = Inr m)"
proof -
  let ?goal = "decided_card a a' \<and> (\<forall>p. ef_standing ef = Some p \<longrightarrow> \<not> ap_per_call a' \<and> tp_tool p = ap_tool a') \<and>
    (ap_status a' = Ap_approved \<longrightarrow> ef_run_call ef \<noteq> None) \<and>
    (\<exists>words. (\<exists>tm. ef_continuation ef = Some tm \<and> ef_line ef = None \<and>
         opened_turn tid mid now (approval_turn_props org pick asked (dc_user decider)
           (decision_scopes asked (dc_scopes decider))) words = Inr tm) \<or>
       (\<exists>m. ef_continuation ef = None \<and> ef_line ef = Some m \<and>
         event_message mid now (ap_organization a') (ap_bot a') None words = Inr m))"
  have ?goal
  proof (cases "reach_of decision")
    case (Some reach)
    obtain a1 where a1: "approve_card (dc_user decider) now (dc_scopes decider) reach a = Inr a1"
      using assms Some by (auto simp: decide_approval_def Let_def split: sum.splits)
    then obtain a0 where a0: "decide_card Ap_approved (dc_user decider) now (dc_scopes decider) a = Inr a0"
      "a1 = a0\<lparr>ap_reach := Some reach\<rparr>" "reach \<in> set (approval_reaches a)"
      by (auto simp: approve_card_def split: sum.splits if_splits)
    have d: "decided_card a a1" using decide_card_decided(1) [OF a0(1)] by (simp add: a0(2) decided_card_def same_card_def)
    have reaches: "approval_reaches a1 = approval_reaches a"
      using d by (simp add: decided_card_def same_card_def approval_reaches_def)
    obtain tm where out: "a' = a1" "opened_turn tid mid now (approval_turn_props org pick asked (dc_user decider)
        (decision_scopes asked (dc_scopes decider))) (approval_started_words a1 (dc_name decider)) = Inr tm"
      "ef = no_effects\<lparr>ef_run_call := Some (dc_name decider), ef_continuation := Some tm,
         ef_standing := (case standing_of pid now a1 of Some (Inr p) \<Rightarrow> Some p | _ \<Rightarrow> None)\<rparr>"
      using assms Some a1 by (auto simp: decide_approval_def Let_def split: sum.splits option.splits)
    have "\<not> ap_per_call a1 \<and> tp_tool p = ap_tool a1" if "ef_standing ef = Some p" for p
      using that standing_of_leaves [of pid now a1 p reach] a0(3) reaches
      by (auto simp: out(3) a0(2) split: option.splits sum.splits)
    then show ?thesis using d out by (auto simp: no_effects_def)
  next
    case None
    obtain a1 where a1: "deny_card (dc_user decider) now (dc_note decider) (dc_scopes decider) a = Inr a1"
      using assms None by (auto simp: decide_approval_def Let_def split: sum.splits)
    then obtain a0 reason where a0: "decide_card Ap_denied (dc_user decider) now (dc_scopes decider) a = Inr a0" "a1 = a0\<lparr>ap_note := reason\<rparr>"
      by (auto simp: deny_card_def split: sum.splits)
    have d: "decided_card a a1" "ap_status a1 = Ap_denied"
      using decide_card_decided [OF a0(1)] by (simp_all add: a0(2) decided_card_def same_card_def)
    show ?thesis
    proof (cases "decision = Card_stop")
      case True
      then show ?thesis using assms None a1 d
        by (auto simp: decide_approval_def Let_def no_effects_def stopped_line_def split: sum.splits)
    next
      case False
      then show ?thesis using assms None a1 d
        by (auto simp: decide_approval_def Let_def no_effects_def split: sum.splits)
    qed
  qed
  then show "decided_card a a'" "\<forall>p. ef_standing ef = Some p \<longrightarrow> \<not> ap_per_call a' \<and> tp_tool p = ap_tool a'"
    "ap_status a' = Ap_approved \<longrightarrow> ef_run_call ef \<noteq> None"
    "\<exists>words. (\<exists>tm. ef_continuation ef = Some tm \<and> ef_line ef = None \<and>
         opened_turn tid mid now (approval_turn_props org pick asked (dc_user decider)
           (decision_scopes asked (dc_scopes decider))) words = Inr tm) \<or>
       (\<exists>m. ef_continuation ef = None \<and> ef_line ef = Some m \<and>
         event_message mid now (ap_organization a') (ap_bot a') None words = Inr m)"
    by blast+
qed

subsection \<open>The handlers\<close>

text \<open>The turn or the line that is written with a card.\<close>

definition effects_for :: "string \<Rightarrow> string \<Rightarrow> date \<Rightarrow> string \<Rightarrow> string \<Rightarrow> approval_effects \<Rightarrow> bool" where
  "effects_for tid mid now org bid ef \<longleftrightarrow>
     (\<exists>user pick zone scopes words tm. ef_continuation ef = Some tm \<and> ef_line ef = None \<and> pick_bot pick = bid \<and>
        opened_turn tid mid now (opening_props Opens_approval org user pick zone scopes) words = Inr tm) \<or>
     (\<exists>words m. ef_continuation ef = None \<and> ef_line ef = Some m \<and> event_message mid now org bid None words = Inr m) \<or>
     ef_continuation ef = None \<and> ef_line ef = None"

lemma fresh_second: "fresh [tid, mid] B \<Longrightarrow> fresh [mid] B"
  by (simp add: fresh_def)

lemma write_turn_Inr:
  "write_turn now (Some (t, m)) s = Inr s1 \<Longrightarrow> \<exists>oc. enqueue_within now t m s = Inr (oc, s1)"
  by (auto simp: write_turn_def split: sum.splits)

lemma effects_on:
  assumes "system_inv B" "lock_bot org bid (sys_store B)" "fresh [tid, mid] B" "effects_for tid mid now org bid ef"
    and s1: "write_turn now (ef_continuation ef) (sys_store B) = Inr s1"
    and s': "s' = (case ef_line ef of None \<Rightarrow> s1 | Some m \<Rightarrow> insert_message now m s1)"
  shows "bots_on B (with_store B (turn_uuids ef tid mid) (Inr s'))"
  using assms(4) unfolding effects_for_def
proof (elim disjE exE conjE)
  fix user pick zone scopes words tm
  assume e: "ef_continuation ef = Some tm" "ef_line ef = None" "pick_bot pick = bid"
    and opened: "opened_turn tid mid now (opening_props Opens_approval org user pick zone scopes) words = Inr tm"
  obtain t m where tm: "tm = (t, m)" by force
  then obtain oc where "enqueue_within now t m (sys_store B) = Inr (oc, s1)" using write_turn_Inr [of now t m "sys_store B" s1] s1 e(1) by auto
  then show ?thesis
    using opening_on [OF assms(1) _ assms(3), of org pick Opens_approval now user zone scopes words t m oc s1] assms(2) e opened tm s'
    by (simp add: turn_uuids_def)
next
  fix words m
  assume e: "ef_continuation ef = None" "ef_line ef = Some m" and m: "event_message mid now org bid None words = Inr m"
  have "s1 = sys_store B" using s1 e(1) by (simp add: write_turn_def)
  then show ?thesis using line_on [OF fresh_second [OF assms(3)] m] e s' by (simp add: turn_uuids_def)
next
  assume e: "ef_continuation ef = None" "ef_line ef = None"
  have "s' = sys_store B" using s1 s' e by (simp add: write_turn_def)
  then show ?thesis using bots_on_refl e by (simp add: turn_uuids_def)
qed

lemma hit_locks:
  assumes "card_inv tb S" "known (cy_trace S) a" "same_card a' a"
    "length (filter (approval_hit a') (cs_approvals (cy_cards S))) = 1"
  shows "lock_bot (ap_organization a') (ap_bot a') (cy_store S)"
proof -
  obtain r where r: "r \<in> set (cs_approvals (cy_cards S))" "approval_hit a' r" using one_hit [OF assms(4)] .
  have "row_fits S r" using assms(1) r(1) by (simp add: card_inv_def cards_fit_def)
  moreover have "well_told (cy_trace S)" using assms(1) by (simp add: card_inv_def trace_fits_def)
  ultimately show ?thesis
    using known_same [of "cy_trace S" r a] assms(2,3) r(2)
    by (simp add: row_fits_def lock_bot_keys approval_hit_def same_card_def)
qed

lemma system_of: "card_inv tb S \<Longrightarrow> system_inv (cy_bots S)"
  by (simp add: card_inv_def turns_fit_def)

lemma memory_known: "card_inv tb S \<Longrightarrow> a \<in> set (cy_approvals S) \<Longrightarrow> known (cy_trace S) a"
  by (simp add: card_inv_def cards_fit_def)

lemma saved_on:
  assumes "card_inv tb S" "known (cy_trace S) a" "same_card a' a" "fresh [tid, mid] (cy_bots S)"
    "effects_for tid mid now (ap_organization a') (ap_bot a') ef"
    "save_transition now a' ef (cy_store S) (cy_cards S) = Inr (True, s', cs')"
  shows "bots_on (cy_bots S) (with_store (cy_bots S) (turn_uuids ef tid mid) (Inr s'))"
proof -
  obtain ps s1 where w: "length (filter (approval_hit a') (cs_approvals (cy_cards S))) = 1"
    "write_turn now (ef_continuation ef) (cy_store S) = Inr s1"
    "s' = (case ef_line ef of None \<Rightarrow> s1 | Some m \<Rightarrow> insert_message now m s1)"
    using save_transition_Inr [OF assms(6)] .
  show ?thesis
    by (rule effects_on [OF system_of [OF assms(1)] hit_locks [OF assms(1-3) w(1)] assms(4,5) w(2,3)])
qed

lemma landed_Some:
  "landed S uuids evs r = Some S' \<longleftrightarrow>
     (\<exists>s cs. r = Inr (True, s, cs) \<and>
        S' = S\<lparr>cy_bots := with_store (cy_bots S) uuids (Inr s), cy_cards := cs, cy_trace := evs @ cy_trace S\<rparr>)"
  by (auto simp: landed_def split: sum.splits bool.splits)

lemma stay: "card_move tb S S" "card_move tb S (S\<lparr>cy_used := u # cy_used S\<rparr>)"
  using Move_stay [of tb S "[]"] Move_stay [of tb S "[u]"] by simp_all

text \<open>A decision, whatever it is: the move it makes.\<close>

lemma decision_moves:
  assumes inv: "card_inv tb S" and a: "a \<in> set (cy_approvals S)" and d: "decided_card a a'"
    and "fresh [tid, mid] (cy_bots S)" "effects_for tid mid now (ap_organization a') (ap_bot a') ef"
    and standing: "\<forall>p. ef_standing ef = Some p \<longrightarrow> \<not> ap_per_call a' \<and> tp_tool p = ap_tool a'"
    and run: "ap_status a' = Ap_approved \<longrightarrow> ef_run_call ef \<noteq> None"
    and save: "save_transition now a' ef (cy_store S) (cy_cards S) = Inr (True, s', cs')"
    and on: "bots_on (with_store (cy_bots S) (turn_uuids ef tid mid) (Inr s')) B"
  shows "card_move tb S (S\<lparr>cy_bots := B, cy_cards := cs', cy_used := us @ cy_used S,
    cy_trace := decision_event a' # cy_trace S\<rparr>)"
proof -
  note known = memory_known [OF inv a]
  have same: "same_card a' a" using d by (simp add: decided_card_def)
  obtain ps s1 where w: "length (filter (approval_hit a') (cs_approvals (cy_cards S))) = 1"
    "cs' = saved a' ps (map (Approval_changed (ap_id a')) (ap_events a') @
       (case ef_run_call ef of None \<Rightarrow> [] | Some by' \<Rightarrow> [Run_approved_call (ap_id a') by'])) (cy_cards S)"
    "ps = cs_settings (cy_cards S) \<or> (\<exists>p. ef_standing ef = Some p \<and> settings_with p (cs_settings (cy_cards S)) ps)"
    using save_transition_Inr [OF save] .
  have "leaves_standing a' (cs_settings (cy_cards S)) ps" using w(3) standing by (auto simp: leaves_standing_def)
  moreover have "run_jobs_of a' (map (Approval_changed (ap_id a')) (ap_events a') @
       (case ef_run_call ef of None \<Rightarrow> [] | Some by' \<Rightarrow> [Run_approved_call (ap_id a') by']))"
    using run by (auto simp: run_jobs_of_def)
  moreover have "bots_on (cy_bots S) B"
    using bots_on_trans [OF saved_on [OF inv known same assms(4,5) save] on] .
  ultimately show ?thesis unfolding w(2) by (rule Move_decided [OF a d w(1)])
qed

lemma decide_bot_approval_moves:
  assumes inv: "card_inv tb S" and a: "a \<in> set (cy_approvals S)" and fresh: "fresh [tid, mid] (cy_bots S)"
  shows "card_move tb S (decide_bot_approval tid mid pid now decision decider pick a (S\<lparr>cy_used := pid # cy_used S\<rparr>))"
    (is "card_move tb S ?S'")
proof -
  let ?S1 = "S\<lparr>cy_used := pid # cy_used S\<rparr>" and ?asked = "find_turn (ap_turn a) (cy_store S)"
  consider "?S' = ?S1" | (landed) a' ef stops S2 where
    "decide_approval tid mid pid now decision decider (ap_organization a) (pick\<lparr>pick_bot := ap_bot a\<rparr>) ?asked a = Inr (a', ef, stops)"
    "landed ?S1 (turn_uuids ef tid mid) [decision_event a'] (save_transition now a' ef (cy_store S) (cy_cards S)) = Some S2"
    "?S' = cancel_asking (ap_turn a) now stops S2"
  proof -
    have "?S' = ?S1 \<or> (\<exists>a' ef stops S2.
      decide_approval tid mid pid now decision decider (ap_organization a) (pick\<lparr>pick_bot := ap_bot a\<rparr>) ?asked a = Inr (a', ef, stops) \<and>
      landed ?S1 (turn_uuids ef tid mid) [decision_event a'] (save_transition now a' ef (cy_store S) (cy_cards S)) = Some S2 \<and>
      ?S' = cancel_asking (ap_turn a) now stops S2)"
      by (simp add: decide_bot_approval_def split: sum.split prod.split option.split)
    then show thesis using that by blast
  qed
  then show ?thesis
  proof cases
    case 1
    then show ?thesis using stay by simp
  next
    case landed
    note d = decide_approval_Inr [OF landed(1)]
    obtain s' cs' where save: "save_transition now a' ef (cy_store S) (cy_cards S) = Inr (True, s', cs')"
      "S2 = ?S1\<lparr>cy_bots := with_store (cy_bots S) (turn_uuids ef tid mid) (Inr s'), cy_cards := cs',
         cy_trace := decision_event a' # cy_trace S\<rparr>"
      using landed(2) by (auto simp: landed_Some)
    have eff: "effects_for tid mid now (ap_organization a') (ap_bot a') ef"
      using d(1,4) unfolding effects_for_def approval_turn_props_def decided_card_def same_card_def by force
    have "bots_on (cy_bots S2) (cy_bots ?S')"
      unfolding landed(3) cancel_asking_def using cancel_on bots_on_refl by simp
    then have on: "bots_on (with_store (cy_bots S) (turn_uuids ef tid mid) (Inr s')) (cy_bots ?S')" by (simp add: save(2))
    have "?S' = S\<lparr>cy_bots := cy_bots ?S', cy_cards := cs', cy_used := [pid] @ cy_used S, cy_trace := decision_event a' # cy_trace S\<rparr>"
      unfolding landed(3) cancel_asking_def save(2) by simp
    then show ?thesis using decision_moves [OF inv a d(1) fresh eff d(2,3) save(1) on, of "[pid]"] by simp
  qed
qed

lemma no_effects_sel [simp]:
  "ef_standing no_effects = None" "ef_continuation no_effects = None" "ef_line no_effects = None" "ef_run_call no_effects = None"
  by (simp_all add: no_effects_def)

lemma expire_approval_moves:
  assumes inv: "card_inv tb S" and a: "a \<in> set (cy_approvals S)"
  shows "card_move tb S (expire_approval now a S)" (is "card_move tb S ?S'")
proof (cases "\<exists>a' S2. expire_card now a = Inr a' \<and>
    landed S [] [decision_event a'] (save_transition now a' no_effects (cy_store S) (cy_cards S)) = Some S2")
  case False
  then have "?S' = S" by (auto simp: expire_approval_def split: sum.split option.split)
  then show ?thesis using stay(1) by simp
next
  case True
  then obtain a' s' cs' where a': "expire_card now a = Inr a'"
    and save: "save_transition now a' no_effects (cy_store S) (cy_cards S) = Inr (True, s', cs')"
    by (auto simp: landed_Some)
  have d: "decided_card a a'" "ap_status a' = Ap_expired"
    using a' by (auto simp: expire_card_def announce_approval_def decided_card_def same_card_def split: if_splits)
  obtain tid mid where fresh: "fresh [tid, mid] (cy_bots S)"
  proof -
    obtain u where u: "u \<notin> set (sys_used (cy_bots S))" using ex_new_if_finite [OF infinite_UNIV_listI] by (metis List.finite_set)
    obtain v where v: "v \<notin> set (u # sys_used (cy_bots S))" using ex_new_if_finite [OF infinite_UNIV_listI] by (metis List.finite_set)
    show thesis by (rule that [of v u]) (use u v in \<open>simp add: fresh_def\<close>)
  qed
  have eff: "effects_for tid mid now (ap_organization a') (ap_bot a') no_effects" by (simp add: effects_for_def)
  have uuids: "turn_uuids no_effects tid mid = []" by (simp add: turn_uuids_def)
  have "?S' = S\<lparr>cy_bots := with_store (cy_bots S) [] (Inr s'), cy_cards := cs', cy_used := [] @ cy_used S,
      cy_trace := decision_event a' # cy_trace S\<rparr>"
    by (simp add: expire_approval_def a' save landed_def)
  then show ?thesis
    using decision_moves [OF inv a d(1) fresh eff _ _ save, of "with_store (cy_bots S) [] (Inr s')" "[]"] d(2) uuids bots_on_refl
    by simp
qed

subsection \<open>The questions\<close>

lemma save_questions_Inr:
  assumes "save_questions now q cont s cs = Inr (True, s', cs')"
  shows "length (filter (question_hit q) (cs_questions cs)) = 1" "write_turn now cont s = Inr s'"
    "cs' = cs\<lparr>cs_questions := map (\<lambda>r. if question_hit q r then question_columns q r else r) (cs_questions cs)\<rparr>"
  using assms by (auto simp: save_questions_def split: if_splits sum.splits)

definition decided_questions :: "question_card_entity \<Rightarrow> question_card_entity \<Rightarrow> bool" where
  "decided_questions q q' \<longleftrightarrow>
     qc_id q' = qc_id q \<and> qc_organization q' = qc_organization q \<and> qc_bot q' = qc_bot q \<and>
     qc_status q = Qu_pending \<and> qc_status q' \<noteq> Qu_pending"

lemma question_decisions:
  "answer_questions user now answers scopes q = Inr q' \<Longrightarrow> decided_questions q q'"
  "dismiss_questions user now words scopes q = Inr q' \<Longrightarrow> decided_questions q q'"
  "expire_questions now q = Inr q' \<Longrightarrow> decided_questions q q'"
  by (auto simp: answer_questions_def dismiss_questions_def expire_questions_def decide_questions_def decided_questions_def
      split: option.splits sum.splits if_splits)

lemma question_locks:
  assumes "card_inv tb S" "q \<in> set (cy_questions S)" "decided_questions q q'"
    "length (filter (question_hit q') (cs_questions (cy_cards S))) = 1"
  shows "lock_bot (qc_organization q') (qc_bot q') (cy_store S)"
proof -
  obtain r where r: "r \<in> set (cs_questions (cy_cards S))" "question_hit q' r" using one_hit [OF assms(4)] .
  have "qc_id r = qc_id q" using r(2) assms(3) by (simp add: question_hit_def decided_questions_def)
  then have "qc_organization r = qc_organization q \<and> qc_bot r = qc_bot q"
    using assms(1,2) r(1) by (simp add: card_inv_def questions_fit_def)
  moreover have "(qc_organization r, qc_bot r) \<in> bot_keys (cy_store S)"
    using assms(1) r(1) by (simp add: card_inv_def questions_fit_def)
  ultimately show ?thesis using assms(3) by (simp add: lock_bot_keys decided_questions_def)
qed

lemma question_moves:
  assumes "q \<in> set (cy_questions S)" "decided_questions q q'" "bots_on (cy_bots S) B"
  shows "card_move tb S (S\<lparr>cy_bots := B, cy_cards := (cy_cards S)\<lparr>cs_questions :=
      map (\<lambda>r. if question_hit q' r then question_columns q' r else r) (cs_questions (cy_cards S))\<rparr>\<rparr>)"
  using assms(2) unfolding decided_questions_def
  by (intro Move_decided_questions [OF assms(1) _ _ _ _ _ assms(3)]) simp_all

lemma decide_question_moves:
  assumes inv: "card_inv tb S" and q: "q \<in> set (cy_questions S)" and fresh: "fresh [tid, mid] (cy_bots S)"
    and decided: "\<And>q'. decided = Inr q' \<Longrightarrow> decided_questions q q'"
  shows "card_move tb S (decide_question tid mid now decider pick decided S)" (is "card_move tb S ?S'")
proof (cases "\<exists>q' turn S2. decided = Inr q' \<and>
    question_turn tid mid now (qc_organization q') (pick\<lparr>pick_bot := qc_bot q'\<rparr>) (find_turn (qc_turn q') (cy_store S)) decider q' = Inr turn \<and>
    landed S [tid, mid] [] (save_questions now q' (Some turn) (cy_store S) (cy_cards S)) = Some S2")
  case False
  then have "?S' = S" by (auto simp: decide_question_def split: sum.split option.split)
  then show ?thesis using stay(1) by simp
next
  case True
  then obtain q' turn s' cs' where q': "decided = Inr q'"
    and turn: "question_turn tid mid now (qc_organization q') (pick\<lparr>pick_bot := qc_bot q'\<rparr>) (find_turn (qc_turn q') (cy_store S)) decider q' = Inr turn"
    and save: "save_questions now q' (Some turn) (cy_store S) (cy_cards S) = Inr (True, s', cs')"
    by (auto simp: landed_Some)
  note d = decided [OF q'] and w = save_questions_Inr [OF save]
  obtain t m where tm: "turn = (t, m)" by force
  obtain oc where enq: "enqueue_within now t m (cy_store S) = Inr (oc, s')"
    using write_turn_Inr [of now t m "cy_store S" s'] w(2) tm by auto
  have on: "bots_on (cy_bots S) (with_store (cy_bots S) [tid, mid] (Inr s'))"
    by (rule opening_on [OF system_of [OF inv] _ fresh _ turn [unfolded question_turn_def tm] enq])
      (use question_locks [OF inv q d w(1)] in simp_all)
  have "?S' = S\<lparr>cy_bots := with_store (cy_bots S) [tid, mid] (Inr s'), cy_cards := cs'\<rparr>"
    by (simp add: decide_question_def q' turn save landed_def)
  then show ?thesis using question_moves [OF q d on] by (simp add: w(3))
qed

lemma expire_question_moves:
  assumes "card_inv tb S" and q: "q \<in> set (cy_questions S)"
  shows "card_move tb S (expire_question now q S)" (is "card_move tb S ?S'")
proof (cases "\<exists>q' S2. expire_questions now q = Inr q' \<and>
    landed S [] [] (save_questions now q' None (cy_store S) (cy_cards S)) = Some S2")
  case False
  then have "?S' = S" by (auto simp: expire_question_def split: sum.split option.split)
  then show ?thesis using stay(1) by simp
next
  case True
  then obtain q' s' cs' where q': "expire_questions now q = Inr q'"
    and save: "save_questions now q' None (cy_store S) (cy_cards S) = Inr (True, s', cs')"
    by (auto simp: landed_Some)
  note w = save_questions_Inr [OF save]
  have "s' = cy_store S" using w(2) by (simp add: write_turn_def)
  then have "?S' = S\<lparr>cy_bots := cy_bots S, cy_cards := cs'\<rparr>" by (simp add: expire_question_def q' save landed_def)
  then show ?thesis using question_moves [OF q question_decisions(3) [OF q'] bots_on_refl] by (simp add: w(3))
qed

subsection \<open>The workers\<close>

lemma take_moves: "card_move tb S (take_card_job k S)"
proof (cases "k < length (cs_jobs (cy_cards S)) \<and> (\<exists>aid by'. cs_jobs (cy_cards S) ! k = Run_approved_call aid by')")
  case False
  then have "take_card_job k S = S" by (auto simp: take_card_job_def Let_def split: card_job.split)
  then show ?thesis using stay(1) by simp
next
  case True
  then obtain aid by' where k: "k < length (cs_jobs (cy_cards S))" "cs_jobs (cy_cards S) ! k = Run_approved_call aid by'" by blast
  show ?thesis
  proof (cases "\<exists>r. find_approval aid (cy_cards S) = Some r \<and> approval_running r")
    case True
    then show ?thesis using Move_taken [OF k] k by (auto simp: take_card_job_def Let_def)
  next
    case False
    then show ?thesis using Move_taken_late [OF k] k by (auto simp: take_card_job_def Let_def split: option.split)
  qed
qed

lemma run_approved_input: "run_approved tb granted can perms preset tool input = Inr v \<Longrightarrow> v = input"
  by (auto simp: run_approved_def split: option.splits if_splits)

lemma run_moves: "card_move tb S (run_card_job tb k member can preset S)"
proof (cases "k < length (cy_workers S) \<and> (\<exists>a by'. cy_workers S ! k = Call_taken a by')")
  case False
  then have "run_card_job tb k member can preset S = S" by (auto simp: run_card_job_def split: card_worker.split)
  then show ?thesis using stay(1) by simp
next
  case True
  then obtain a by' where k: "k < length (cy_workers S)" "cy_workers S ! k = Call_taken a by'" by blast
  note move = Move_run [OF k refl]
  show ?thesis
  proof (cases "resolve_call tb member can preset (decision_scopes (find_turn (ap_turn a) (cy_store S)) (ap_scopes a)) a (cy_cards S)")
    case (Inl words)
    then show ?thesis
      using move [of "[]" tb "Option.bind (find_turn (ap_turn a) (cy_store S)) bt_time_zone" "Some words"] k
      by (simp add: run_card_job_def Let_def)
  next
    case (Inr input)
    then have "input = ap_input a" by (auto simp: resolve_call_def dest: run_approved_input split: if_splits)
    then show ?thesis
      using move [of "[Ev_called (ap_id a) (ap_tool a) (ap_input a) (decision_scopes (find_turn (ap_turn a) (cy_store S)) (ap_scopes a))]"
          tb "Option.bind (find_turn (ap_turn a) (cy_store S)) bt_time_zone" None] k Inr
      by (simp add: run_card_job_def Let_def)
  qed
qed

lemma record_result_reported:
  "record_result answer bad session a = Inr a' \<Longrightarrow> reported_card a a'"
  by (auto simp: record_result_def announce_approval_def reported_card_def same_card_def approval_running_def split: if_splits)

lemma report_moves:
  assumes inv: "card_inv tb S" and fresh: "fresh [tid, mid] (cy_bots S)"
  shows "card_move tb S (report_card_job k answer bad session tid mid now pick S)" (is "card_move tb S ?S'")
proof (cases "k < length (cy_workers S) \<and> (\<exists>a by' granted zone refused. cy_workers S ! k = Call_ran a by' granted zone refused)")
  case False
  then have "?S' = S" by (auto simp: report_card_job_def split: card_worker.split)
  then show ?thesis using stay(1) by simp
next
  case True
  then obtain a by' granted zone refused where k: "k < length (cy_workers S)" "cy_workers S ! k = Call_ran a by' granted zone refused"
    by blast
  let ?result = "case refused of None \<Rightarrow> record_result answer bad session a | Some words \<Rightarrow> record_result words True None a"
  let ?cont = "\<lambda>a'. if truthy (ap_by a') then map_sum id Some (opened_turn tid mid now
      (opening_props Opens_approval (ap_organization a') (the (ap_by a')) (pick\<lparr>pick_bot := ap_bot a'\<rparr>) zone granted)
      (approval_finished_words a' by')) else Inr None"
  let ?save = "\<lambda>a' cont. save_transition now a' (no_effects\<lparr>ef_continuation := cont\<rparr>) (cy_store S) (cy_cards S)"
  show ?thesis
  proof (cases "\<exists>a' cont r. ?result = Inr a' \<and> ?cont a' = Inr cont \<and> ?save a' cont = Inr r")
    case False
    then have "?S' = S" using k by (auto simp: report_card_job_def Let_def split: sum.split)
    then show ?thesis using stay(1) by simp
  next
    case True
    then obtain a' cont done' s' cs' where a': "?result = Inr a'" and cont: "?cont a' = Inr cont"
      and save: "?save a' cont = Inr (done', s', cs')" by auto
    have reported: "reported_card a a'" using a' record_result_reported by (auto split: option.splits)
    then have same: "same_card a' a" by (simp add: reported_card_def)
    have card: "worker_card (cy_workers S ! k) = a" by (simp add: k(2))
    show ?thesis
    proof (cases done')
      case False
      then have "?S' = S\<lparr>cy_workers := remove_at k (cy_workers S)\<rparr>"
        using k a' cont save by (simp add: report_card_job_def Let_def landed_def)
      then show ?thesis using Move_reported_late [OF k(1) card reported] save_transition_other save False by simp
    next
      case True
      let ?ef = "no_effects\<lparr>ef_continuation := cont\<rparr>"
      have known: "known (cy_trace S) a"
        using inv k(1) card by (auto simp: card_inv_def cards_fit_def card_worker_fits_def)
      have save': "save_transition now a' ?ef (cy_store S) (cy_cards S) = Inr (True, s', cs')" using save True by simp
      have eff: "effects_for tid mid now (ap_organization a') (ap_bot a') ?ef"
      proof (cases cont)
        case None then show ?thesis by (simp add: effects_for_def)
      next
        case (Some tm)
        then have "opened_turn tid mid now (opening_props Opens_approval (ap_organization a') (the (ap_by a'))
            (pick\<lparr>pick_bot := ap_bot a'\<rparr>) zone granted) (approval_finished_words a' by') = Inr tm"
          using cont by (auto split: if_splits simp: map_sum_def split: sum.splits)
        then show ?thesis unfolding effects_for_def using Some by (intro disjI1) force
      qed
      note on = saved_on [OF inv known same fresh eff save']
      obtain ps s1 where w: "length (filter (approval_hit a') (cs_approvals (cy_cards S))) = 1"
        "cs' = saved a' ps (map (Approval_changed (ap_id a')) (ap_events a') @
           (case ef_run_call ?ef of None \<Rightarrow> [] | Some by' \<Rightarrow> [Run_approved_call (ap_id a') by'])) (cy_cards S)"
        "ps = cs_settings (cy_cards S) \<or> (\<exists>p. ef_standing ?ef = Some p \<and> settings_with p (cs_settings (cy_cards S)) ps)"
        using save_transition_Inr [OF save'] .
      have "?S' = S\<lparr>cy_bots := with_store (cy_bots S) (turn_uuids ?ef tid mid) (Inr s'), cy_cards := cs',
          cy_workers := remove_at k (cy_workers S), cy_trace := Ev_reported (ap_id a') (ap_status a' = Ap_failed) # cy_trace S\<rparr>"
        using k a' cont save' by (simp add: report_card_job_def Let_def landed_def)
      then show ?thesis using Move_reported [OF k(1) card reported w(1) on] w(2,3) by simp
    qed
  qed
qed

lemma drop_moves: "card_move tb S (drop_card_job k S)"
proof (cases "k < length (cy_workers S)")
  case False
  then show ?thesis using stay(1) by (simp add: drop_card_job_def)
next
  case True
  then show ?thesis using Move_dropped [OF True refl] by (auto simp: drop_card_job_def split: card_worker.split)
qed

subsection \<open>A turn's calls and the owner's settings\<close>

lemma bind_tool_asks:
  assumes "bind_tool terms reviewer spec ctx input = Call_asks c"
  shows "ac_turn c = cx_turn ctx \<and> ac_tool c = spec_name spec \<and> ac_per_call c = trait_per_call (spec_traits spec)"
  using assms
  by (auto simp: bind_tool_def asking_first_def reviewed_first_def plain_call_def Let_def
      dest!: ask_owner_card split: if_splits option.splits sum.splits rule_review.splits)

lemma make_call_moves:
  assumes turn: "turn \<in> set (cy_turns S)"
  shows "card_move tb S (make_call tb reviewer can name input aid turn S)"
proof (cases "call_tool tb reviewer (snd turn) can (fst turn) name input")
  case None
  then show ?thesis using stay(1) by (simp add: make_call_def)
next
  case (Some outcome)
  show ?thesis
  proof (cases outcome)
    case (Call_runs parsed why)
    then show ?thesis using Some Move_ran by (simp add: make_call_def)
  next
    case (Call_fails words)
    then show ?thesis using Some stay(1) by (simp add: make_call_def)
  next
    case (Call_asks c)
    obtain d where d: "find (\<lambda>d. spec_name d = name) (offered_tools (tb_specs tb) (snd turn) (fst turn)) = Some d"
      "bind_tool (tb_terms tb) reviewer d (fst turn) input = Call_asks c"
      using Some Call_asks by (auto simp: call_tool_def split: option.splits)
    then have spec: "d \<in> set (tb_specs tb)" using find_Some_mem [OF d(1)] offered_mem by blast
    note c = bind_tool_asks [OF d(2)]
    show ?thesis
    proof (cases "\<exists>a cs. aid \<notin> set (cy_used S) \<and> request_approval aid c = Inr a \<and>
        insert_pending a (cy_store S) (cy_cards S) = Inr (None, cs)")
      case True
      then obtain a cs where "aid \<notin> set (cy_used S)" "request_approval aid c = Inr a"
        "insert_pending a (cy_store S) (cy_cards S) = Inr (None, cs)" by blast
      then show ?thesis using Move_asked [of "fst turn" "snd turn" S c aid a cs d tb] turn spec c Some Call_asks
        by (simp add: make_call_def raise_card_def)
    next
      case False
      then have "raise_card aid c (snd turn) S = S"
        by (auto simp: raise_card_def split: sum.split prod.split option.split)
      then show ?thesis using Some Call_asks stay(1) by (simp add: make_call_def)
    qed
  qed
qed

lemma raise_questions_moves: "card_move tb S (raise_questions qid qs ctx S)"
proof (cases "\<exists>q cs. qid \<notin> set (cy_used S) \<and>
    ask_questions qid (cx_organization ctx) (cx_bot ctx) (cx_turn ctx) qs (questions_summary qs) = Inr q \<and>
    insert_pending_questions q (cy_store S) (cy_cards S) = Inr (None, cs)")
  case True
  then show ?thesis using Move_questions by (auto simp: raise_questions_def)
next
  case False
  then have "raise_questions qid qs ctx S = S"
    by (auto simp: raise_questions_def split: sum.split prod.split option.split)
  then show ?thesis using stay(1) by simp
qed

lemma used_then_cards: "S\<lparr>cy_cards := cs, cy_used := us\<rparr> = S\<lparr>cy_used := us, cy_cards := cs\<rparr>"
  by simp

lemma setting_moves:
  "card_move tb S (set_bot_tool_decision tb pid org bid tool choice user now (S\<lparr>cy_used := pid # cy_used S\<rparr>))"
  (is "card_move tb S ?S'")
proof -
  let ?S1 = "S\<lparr>cy_used := pid # cy_used S\<rparr>"
  consider "?S' = ?S1" | "?S' = ?S1\<lparr>cy_cards := clear_decision org bid tool (cy_cards S)\<rparr>" |
    (set) d c p where "find (\<lambda>d. spec_name d = tool) (tb_specs tb) = Some d" "\<not> (c = Choice_allow \<and> trait_per_call (spec_traits d))"
      "decide_tool pid now org bid tool c (Some user) = Inr p"
      "?S' = ?S1\<lparr>cy_cards := snd (upsert_decision p (cy_store S) (cy_cards S))\<rparr>"
  proof -
    have "?S' = ?S1 \<or> ?S' = ?S1\<lparr>cy_cards := clear_decision org bid tool (cy_cards S)\<rparr> \<or>
      (\<exists>d c p. find (\<lambda>d. spec_name d = tool) (tb_specs tb) = Some d \<and> \<not> (c = Choice_allow \<and> trait_per_call (spec_traits d)) \<and>
        decide_tool pid now org bid tool c (Some user) = Inr p \<and>
        ?S' = ?S1\<lparr>cy_cards := snd (upsert_decision p (cy_store S) (cy_cards S))\<rparr>)"
      by (auto simp: set_bot_tool_decision_def split: option.split sum.split)
    then show thesis using that by blast
  qed
  then show ?thesis
  proof cases
    case 1
    then show ?thesis using stay(2) by simp
  next
    case 2
    then show ?thesis
      using Move_unset [of tb S "[pid]" "\<lambda>p. \<not> (tp_organization p = org \<and> tp_bot p = bid \<and> tp_tool p = tool \<and> tp_subject p = None)"]
      by (simp add: clear_decision_def used_then_cards)
  next
    case set
    then have p: "tp_subject p = None" "tp_tool p = tool" "tp_decision p = c" by (auto simp: decide_tool_Inr)
    obtain ps where ps: "snd (upsert_decision p (cy_store S) (cy_cards S)) = (cy_cards S)\<lparr>cs_settings := ps\<rparr>"
      "settings_with p (cs_settings (cy_cards S)) ps" using upsert_settings [OF p(1)] by blast
    show ?thesis using Move_setting [OF ps(2) p(1), of tb "[pid]"] set p by (auto simp: ps(1) used_then_cards)
  qed
qed

lemma rule_moves:
  "card_move tb S (create_bot_permission_rule rid org bid effect text user now (S\<lparr>cy_used := rid # cy_used S\<rparr>))"
proof (cases "\<exists>r cs. write_rule rid now org bid effect text (Some user) = Inr r \<and>
    insert_rule r bot_permission_rules_max (cy_store S) (cy_cards S) = (Rule_inserted, cs)")
  case True
  then obtain r cs where "write_rule rid now org bid effect text (Some user) = Inr r"
    "insert_rule r bot_permission_rules_max (cy_store S) (cy_cards S) = (Rule_inserted, cs)" by blast
  then show ?thesis using Move_rule [of r S cs tb "[rid]"]
    by (simp add: create_bot_permission_rule_def used_then_cards)
next
  case False
  have "snd (insert_rule r bot_permission_rules_max (cy_store S) (cy_cards S)) = cy_cards S"
    if "write_rule rid now org bid effect text (Some user) = Inr r" for r
  proof -
    obtain oc cs where o: "insert_rule r bot_permission_rules_max (cy_store S) (cy_cards S) = (oc, cs)" by force
    then have "oc \<noteq> Rule_inserted" using False that by auto
    then show ?thesis using o by (auto simp: insert_rule_def split: if_splits)
  qed
  then have "create_bot_permission_rule rid org bid effect text user now (S\<lparr>cy_used := rid # cy_used S\<rparr>) =
      S\<lparr>cy_used := rid # cy_used S\<rparr>"
    by (auto simp: create_bot_permission_rule_def split: sum.split)
  then show ?thesis using stay(2) by simp
qed

subsection \<open>The system\<close>

lemma card_apply_moves:
  assumes inv: "card_inv tb S"
  shows "card_move tb S (card_apply tb action S)"
proof (cases action)
  case (Cd_start tid preset)
  then show ?thesis using stay(1) Move_turn by (auto simp: card_apply_def dest: find_turn_mem split: option.split)
next
  case (Cd_load_approval aid)
  then show ?thesis using stay(1) Move_load
    by (auto simp: card_apply_def find_approval_def dest: find_Some_mem split: option.split)
next
  case (Cd_load_questions qid)
  then show ?thesis using stay(1) Move_load_questions
    by (auto simp: card_apply_def find_questions_def dest: find_Some_mem split: option.split)
next
  case (Cd_answer j answers decider tid mid now pick)
  have "card_move tb S (decide_question tid mid now decider pick
      (answer_questions (dc_user decider) now answers (dc_scopes decider) (cy_questions S ! j)) S)"
    if "j < length (cy_questions S)" "fresh [tid, mid] (cy_bots S)"
    by (rule decide_question_moves [OF inv nth_mem [OF that(1)] that(2)]) (rule question_decisions(1))
  then show ?thesis using stay(1) by (simp add: card_apply_def Cd_answer)
next
  case (Cd_dismiss j decider tid mid now pick)
  have "card_move tb S (decide_question tid mid now decider pick
      (dismiss_questions (dc_user decider) now (dc_note decider) (dc_scopes decider) (cy_questions S ! j)) S)"
    if "j < length (cy_questions S)" "fresh [tid, mid] (cy_bots S)"
    by (rule decide_question_moves [OF inv nth_mem [OF that(1)] that(2)]) (rule question_decisions(2))
  then show ?thesis using stay(1) by (simp add: card_apply_def Cd_dismiss)
next
  case (Cd_delete_grant org bid gid)
  then show ?thesis
    using Move_unset [of tb S "[]" "\<lambda>p. \<not> (tp_organization p = org \<and> tp_bot p = bid \<and> tp_id p = gid \<and> tp_subject p \<noteq> None)"]
    by (simp add: card_apply_def delete_grant_def Let_def)
next
  case (Cd_delete_rule org bid rid)
  then show ?thesis
    using Move_unrule [of tb S "\<lambda>r. \<not> (pr_organization r = org \<and> pr_bot r = bid \<and> pr_id r = rid)"]
    by (simp add: card_apply_def delete_rule_def Let_def)
qed (use stay(1) Move_bots make_call_moves raise_questions_moves decide_bot_approval_moves [OF inv] expire_approval_moves [OF inv]
     expire_question_moves [OF inv] take_moves run_moves report_moves [OF inv] drop_moves setting_moves rule_moves in
     \<open>simp_all add: card_apply_def\<close>)

lemma card_apply_inv: "card_inv tb S \<Longrightarrow> card_inv tb (card_apply tb action S)"
  by (rule card_inv_move [OF card_apply_moves])

lemma empty_card_inv: "card_inv tb empty_card_system"
  by (simp add: card_inv_def turns_fit_def cards_fit_def trace_fits_def questions_fit_def waiting_fits_def settings_fit_def
      calls_fit_def running_fit_def cards_waiting_def empty_card_system_def empty_cards_def empty_system_inv)

text \<open>To the bots' own system, what the cards did is a run of it.\<close>

definition runs_on :: "card_system \<Rightarrow> card_system \<Rightarrow> bool" where
  "runs_on S S' \<longleftrightarrow> (\<exists>bs. cy_bots S' = bot_run bs (cy_bots S))"

interpretation cards: followed_system "card_apply tb" "card_inv tb" runs_on for tb
proof unfold_locales
  show "card_inv tb S \<Longrightarrow> card_inv tb (card_apply tb a S)" for a S by (rule card_apply_inv)
  show "card_inv tb S \<Longrightarrow> runs_on S S" for S
    unfolding runs_on_def by (intro exI [of _ "[]"]) (simp add: bot_run_def)
  show "card_inv tb S \<Longrightarrow> runs_on S (card_apply tb a S)" for a S
    unfolding runs_on_def by (rule move_bots [OF card_apply_moves])
  show "runs_on S S1 \<Longrightarrow> runs_on S1 S2 \<Longrightarrow> runs_on S S2" for S S1 S2
    unfolding runs_on_def by (metis bot_run_append)
qed

lemma card_run_inv: "card_inv tb (card_run tb as empty_card_system)"
  unfolding card_run_def by (rule cards.run_inv [OF empty_card_inv])

lemma card_run_append: "card_run tb (as @ bs) S = card_run tb bs (card_run tb as S)"
  by (simp add: card_run_def)

end
