(* ===== verification/Bot_Card_Properties.thy ===== *)
theory Bot_Card_Properties
  imports Bot_Card_Steps Bot_Examples
begin

section \<open>Runs of the system of cards\<close>

text \<open>Concrete runs the properties are instantiated at, over a toolbox of three tools.\<close>

definition demo_tool :: "string \<Rightarrow> bool \<Rightarrow> bool \<Rightarrow> tool_spec" where
  "demo_tool name asks per_call =
     \<lparr>spec_traits = \<lparr>trait_name = name, trait_asks = asks, trait_per_call = per_call, trait_always = False\<rparr>,
      spec_scope = ''mail:write'', spec_read_only = False, spec_shares_outside = False, spec_not_on = [],
      spec_attended_only = False, spec_parse = Inr, spec_normalize = None,
      spec_subject = (\<lambda>_. Some \<lparr>subject_kind = ''person'', subject_key = ''bo'', subject_label = ''Bo''\<rparr>),
      spec_summarize = Some (\<lambda>_. Says ''Write to Bo'')\<rparr>"

definition demo_toolbox :: toolbox where
  "demo_toolbox =
     \<lparr>tb_specs = [demo_tool ''draft'' False False, demo_tool ''write'' True False, demo_tool ''pay'' True True],
      tb_terms = (\<lambda>name _. name), tb_label = id\<rparr>"

definition demo_decider :: card_decider where
  "demo_decider = \<lparr>dc_user = ''ana'', dc_name = ''Ana'', dc_scopes = None, dc_note = None\<rparr>"

definition may_all :: "string \<Rightarrow> string \<Rightarrow> bool" where
  "may_all action subject = True"

definition mail_message :: send_args where
  "mail_message = (demo_message ''b1'' ''hi'' False)\<lparr>sa_scopes := Some [''mail:write'', ''tasks:read'']\<rparr>"

text \<open>A turn calls a tool that asks; the owner says yes, and the call runs and is reported.\<close>

definition approved_run :: "card_action list" where
  "approved_run =
     [Cd_bots (Act_create_bot ''org'' ''b1''), Cd_bots (Act_send ''t1'' ''m1'' ''s1'' 0 mail_message),
      Cd_start ''t1'' Preset_auto, Cd_call 0 None may_all ''write'' (JObject []) ''a1'',
      Cd_load_approval ''a1'', Cd_decide 0 Card_approve demo_decider ''t2'' ''m2'' ''p1'' 1 (demo_pick ''b1''),
      Cd_take 2, Cd_run 0 True may_all Preset_auto, Cd_report 0 ''sent'' False None ''t3'' ''m3'' 2 (demo_pick ''b1'')]"

definition demo_call :: approval_call where
  "demo_call =
     \<lparr>ac_organization = ''org'', ac_bot = ''b1'', ac_turn = ''t1'', ac_tool = ''write'', ac_input = JObject [],
      ac_summary = ''Write to Bo'',
      ac_subject = Some \<lparr>subject_kind = ''person'', subject_key = ''bo'', subject_label = ''Bo''\<rparr>,
      ac_shares_outside = False, ac_per_call = False, ac_review_note = None\<rparr>"

lemma approved_trace:
  "cy_trace (card_run demo_toolbox approved_run empty_card_system) =
     [Ev_reported ''a1'' False, Ev_called ''a1'' ''write'' (JObject []) (Some [''mail:write'', ''tasks:read'']),
      Ev_approved ''a1'' ''ana'' None Reach_once, Ev_asked ''a1'' demo_call (Some [''mail:write'', ''tasks:read''])]"
  by code_simp

section \<open>Properties of the bots' tools and cards\<close>

text \<open>
  What a call of a tool may do without its owner, what a yes lets run, and what the cards, the
  settings and the fenced texts keep to.
\<close>

subsection \<open>Lemmas\<close>

lemma well_told_suffix: "well_told (later @ tr) \<Longrightarrow> well_told tr"
  by (induction later) auto

fun approves :: "string \<Rightarrow> card_event \<Rightarrow> bool" where
  "approves i (Ev_approved j _ _ _) = (j = i)"
| "approves i _ = False"

lemma filter_none: "\<forall>x \<in> set xs. \<not> P x \<Longrightarrow> filter P xs = []"
  by (induction xs) auto

lemma well_told_counts:
  "well_told tr \<Longrightarrow> length (filter (decides i) tr) \<le> 1 \<and>
     length (filter (reports i) tr) \<le> length (filter (approves i) tr) \<and>
     length (filter (approves i) tr) \<le> length (filter (decides i) tr)"
proof (induction tr)
  case (Cons e tr)
  have one: "filter (approves i) tr \<noteq> []" if "Ev_approved i by' scopes reach \<in> set tr" for by' scopes reach
    using that by (force simp: filter_empty_conv)
  show ?case
  proof (cases e)
    case (Ev_reported j failed)
    then show ?thesis using Cons one filter_none [of tr "reports i"]
      by (cases "filter (approves i) tr") (auto simp: Suc_le_eq)
  qed (use Cons filter_none [of tr "decides i"] in auto)
qed simp

lemma trace_told: "well_told (cy_trace (card_run tb as empty_card_system))"
  using card_run_inv [of tb as] by (simp add: card_inv_def trace_fits_def)

lemma reviewer_allows:
  assumes "review_of (reviewer_of parse answers) spec call rules = Review_allows w"
  shows "w \<in> set rules \<and> ru_effect w = Rule_allow"
proof -
  let ?says = "case spec_summarize spec of None \<Rightarrow> Says (spec_name spec) | Some f \<Rightarrow> f call"
  obtain summary where "?says = Says summary"
    using assms unfolding review_of_def by (cases ?says) simp_all
  then have "(case reviewer_of parse answers (spec_name spec) summary call rules of
      Some (Verdict_by Rule_allow w) \<Rightarrow> Review_allows w
    | Some (Verdict_by Rule_ask w) \<Rightarrow> Review_asks (rule_paused_note (ru_text w))
    | Some Verdict_none \<Rightarrow> Review_none | None \<Rightarrow> Review_asks rules_unchecked_note) = Review_allows w"
    using assms by (simp add: review_of_def)
  then have "reviewer_of parse answers (spec_name spec) summary call rules = Some (Verdict_by Rule_allow w)"
    by (cases "reviewer_of parse answers (spec_name spec) summary call rules")
      (simp_all split: review_verdict.splits rule_effect.splits)
  then obtain answer where "rule_verdict parse answer rules = Some (Verdict_by Rule_allow w)"
    by (auto simp: reviewer_of_def split: option.splits)
  then show ?thesis
  proof (rule rule_verdict_Some)
    fix matched
    assume "set matched \<subseteq> set rules"
      and "\<And>e r. Verdict_by Rule_allow w = Verdict_by e r \<Longrightarrow> r \<in> set matched \<and> ru_effect r = e"
    then show ?thesis by blast
  qed
qed

lemma grant_for_Some:
  "grant_for perms tool subject = Some g \<Longrightarrow>
     \<not> trait_per_call tool \<and> (trait_name tool, g) \<in> set (perm_grants perms) \<and>
     (\<exists>s. subject = Some s \<and> subject_kind g = subject_kind s \<and> subject_key g = subject_key s)"
  by (auto simp: grant_for_def split: option.splits if_splits dest!: find_Some_mem)

text \<open>The grant stands for the tool and for the kind and the key of the one thing the call acts on.\<close>

definition granted_subject :: "tool_spec \<Rightarrow> json \<Rightarrow> tool_subject \<Rightarrow> bool" where
  "granted_subject spec parsed g \<longleftrightarrow>
     (\<exists>call s. normalized spec parsed = Inr call \<and> subject_of spec call = Some s \<and>
        subject_kind g = subject_kind s \<and> subject_key g = subject_key s)"

lemma bind_tool_runs:
  assumes "bind_tool terms (map_option (reviewer_of parse) answers) spec ctx input = Call_runs parsed why"
  shows "spec_parse spec input = Inr parsed \<and>
    (case why of
       None \<Rightarrow> tool_decision (cx_permissions ctx) (spec_traits spec) (cx_preset ctx) \<noteq> Choice_ask
     | Some (By_grant g) \<Rightarrow> \<not> trait_per_call (spec_traits spec) \<and>
         (spec_name spec, g) \<in> set (perm_grants (cx_permissions ctx)) \<and> granted_subject spec parsed g
     | Some (By_rule w) \<Rightarrow> w \<in> set (perm_rules (cx_permissions ctx)) \<and> ru_effect w = Rule_allow)"
proof (cases "tool_decision (cx_permissions ctx) (spec_traits spec) (cx_preset ctx) = Choice_ask")
  case True
  then have "asking_first terms (map_option (reviewer_of parse) answers) spec ctx input = Call_runs parsed why"
    using assms by (simp add: bind_tool_def)
  then show ?thesis
    by (rule asking_first_runs)
      (auto simp: spec_name_def granted_subject_def dest!: grant_for_Some reviewer_allows
        intro: subsetD [OF rules_to_review_subset])
next
  case False
  then show ?thesis using assms
    by (auto simp: bind_tool_def Let_def plain_call_runs elim: reviewed_first_runs split: if_splits option.splits)
qed

lemma run_ran:
  assumes "k < length (cy_workers S)" "cy_workers S ! k = Call_taken a by'"
  shows "\<exists>granted zone refused. Call_ran a by' granted zone refused \<in> set (cy_workers (run_card_job tb k member can preset S))"
  using assms set_update_memI [OF assms(1)]
  by (auto simp: run_card_job_def Let_def split: sum.split)

text \<open>A call on its way is run by the workers in two steps.\<close>

lemma on_its_way_runs:
  assumes inv: "card_inv tb S" and r: "r \<in> set (cs_approvals (cy_cards S))" "approval_running r"
  shows "\<exists>j k. \<exists>bs \<in> {[], [Cd_run k member can preset], [Cd_take j, Cd_run k member can preset]}.
    \<exists>a by' granted zone refused. Call_ran a by' granted zone refused \<in> set (cy_workers (card_run tb bs S)) \<and> ap_id a = ap_id r"
proof -
  have "on_its_way S (ap_id r)" using inv r by (simp add: card_inv_def running_fit_way)
  then consider (job) by' where "Run_approved_call (ap_id r) by' \<in> set (cs_jobs (cy_cards S))"
    | (worker) w where "w \<in> set (cy_workers S)" "ap_id (worker_card w) = ap_id r"
    unfolding on_its_way_def by blast
  then show ?thesis
  proof cases
    case job
    then obtain j where j: "j < length (cs_jobs (cy_cards S))" "cs_jobs (cy_cards S) ! j = Run_approved_call (ap_id r) by'"
      by (auto simp: in_set_conv_nth)
    obtain r' where r': "find_approval (ap_id r) (cy_cards S) = Some r'"
      using r(1) by (cases "find_approval (ap_id r) (cy_cards S)") (auto simp: find_approval_def find_None_iff)
    then have "r' \<in> set (cs_approvals (cy_cards S))" "ap_id r' = ap_id r" by (auto simp: find_approval_def dest: find_Some_mem)
    moreover have "distinct (map ap_id (cs_approvals (cy_cards S)))" using inv by (simp add: card_inv_def cards_fit_def)
    ultimately have "r' = r" using r(1) by (auto simp: distinct_map dest: inj_onD)
    let ?S1 = "card_apply tb (Cd_take j) S" and ?k = "length (cy_workers S)"
    have "cy_workers ?S1 = cy_workers S @ [Call_taken (bot_approval_of r) by']"
      using j r' r(2) \<open>r' = r\<close> by (simp add: card_apply_def take_card_job_def Let_def)
    then obtain granted zone refused where "Call_ran (bot_approval_of r) by' granted zone refused \<in>
        set (cy_workers (run_card_job tb ?k member can preset ?S1))"
      using run_ran [of ?k ?S1 "bot_approval_of r" by' tb member can preset] by auto
    then have "Call_ran (bot_approval_of r) by' granted zone refused \<in>
        set (cy_workers (card_run tb [Cd_take j, Cd_run ?k member can preset] S))"
      by (simp add: card_run_def card_apply_def [of tb "Cd_run ?k member can preset"])
    then show ?thesis
      by (intro exI [of _ j] exI [of _ ?k] bexI [of _ "[Cd_take j, Cd_run ?k member can preset]"]
          exI [of _ "bot_approval_of r"] exI conjI) auto
  next
    case worker
    then obtain k where k: "k < length (cy_workers S)" "cy_workers S ! k = w" by (auto simp: in_set_conv_nth)
    show ?thesis
    proof (cases w)
      case (Call_taken a by')
      then obtain granted zone refused where "Call_ran a by' granted zone refused \<in>
          set (cy_workers (run_card_job tb k member can preset S))" using run_ran [OF k(1)] k(2) by metis
      then show ?thesis using worker(2) Call_taken
        by (intro exI [of _ 0] exI [of _ k] bexI [of _ "[Cd_run k member can preset]"] exI [of _ a] exI conjI)
          (auto simp: card_run_def card_apply_def)
    next
      case (Call_ran a by' granted zone refused)
      then show ?thesis using worker
        by (intro exI [of _ 0] bexI [of _ "[]"] exI [of _ a] exI conjI) (auto simp: card_run_def)
    qed
  qed
qed

lemma fence_spellings:
  assumes "tag_word tag"
  shows "spellings tag (fence_untrusted tag s) = [0, length (fence_untrusted tag s) - (length tag + 3)]"
proof -
  have word: "CHR ''<'' \<notin> set tag" "CHR ''/'' \<notin> set tag" using tag_word_char [OF assms, of "CHR ''<''"] tag_word_char [OF assms, of "CHR ''/''"]
    by (auto simp: is_lower_def char_between_def)
  obtain c tag' where tag: "tag = c # tag'" using assms by (cases tag) (auto simp: tag_word_def)
  have c: "\<not> js_space c" "c \<noteq> CHR ''/''"
    using tag_word_char [OF assms, of c] by (auto simp: tag js_space_def is_lower_def char_between_def)
  have first: "tag_follows tag (tag @ rest)" for rest
    using c by (simp add: tag_follows_def Let_def tag)
  have closing: "tag_follows tag (CHR ''/'' # tag @ rest)" for rest
    using c by (simp add: tag_follows_def Let_def tag js_space_def)
  let ?tail = "CHR 0x0A # CHR ''<'' # CHR ''/'' # tag @ ''>''"
  have none: "spellings tag (CHR ''/'' # tag @ ''>'') = []"
    using word spellings_append [of "CHR ''/'' # tag @ ''>''" tag "[]"] by simp
  have tail: "spellings tag ?tail = [1]" using closing none by (simp add: spellings_Cons)
  have body: "spellings tag (without_tag tag s @ ?tail) = [1 + length (without_tag tag s)]"
    using spellings_without [OF assms, of s "CHR ''/'' # tag @ ''>''"] tail by simp
  have head: "spellings tag ((tag @ [CHR ''>'', CHR 0x0A]) @ without_tag tag s @ ?tail) =
      [1 + length (without_tag tag s) + (length tag + 2)]"
    using spellings_append [of "tag @ [CHR ''>'', CHR 0x0A]" tag] word body by simp
  have "fence_untrusted tag s = CHR ''<'' # (tag @ [CHR ''>'', CHR 0x0A]) @ without_tag tag s @ ?tail"
    by (simp add: fence_untrusted_def closing_tag_def)
  then show ?thesis using head first by (simp add: spellings_Cons)
qed

lemma trim_trim: "js_trim (js_trim s) = js_trim s"
proof -
  have "js_trim (js_trim s) = js_trim (dropWhile js_space s)"
    unfolding js_trim_right [of s] by (rule js_trim_right_trim)
  then show ?thesis by (simp add: js_trim_right)
qed

lemma stored_answer_answers:
  assumes "answer_problem n q a = None"
  shows "answer_problem m q (stored_answer a) = None"
proof -
  have picks: "set (qa_picks (stored_answer a)) = set (qa_picks a)"
    "qa_picks (stored_answer a) = [] \<longleftrightarrow> qa_picks a = []"
    by (simp_all add: stored_answer_def) (metis set_empty set_remdups set_sort)
  have other: "js_trim (or_default (qa_other (stored_answer a)) []) = js_trim (or_default (qa_other a) [])"
    by (auto simp: stored_answer_def Let_def trim_trim js_trim_def [of "[]"])
  show ?thesis
    using assms by (auto simp: answer_problem_def picks other list_ex_iff split: if_splits)
qed

lemma stored_answers_answer:
  "first_answer_problem n qs as = None \<Longrightarrow> first_answer_problem m qs (map stored_answer as) = None"
proof (induction n qs as arbitrary: m rule: first_answer_problem.induct)
  case (1 n q qs a as)
  then show ?case by (auto simp: stored_answer_answers split: option.splits)
qed simp_all

lemma answers_read:
  assumes "answer_questions user now answers scopes q = Inr q'"
  shows "answers_problem answers q = None" "qc_status q = Qu_pending" "qc_status q' = Qu_answered"
    "qc_answers q' = Some (map stored_answer answers)"
  using assms by (auto simp: answer_questions_def decide_questions_def split: option.splits sum.splits if_splits)

lemma stored_picks:
  "sorted (qa_picks (stored_answer a))" "distinct (qa_picks (stored_answer a))"
  "set (qa_picks (stored_answer a)) = set (qa_picks a)"
  by (simp_all add: stored_answer_def)

subsection \<open>Calls\<close>

text \<open>C12: what runs on the strength of a yes is the very call its card was raised for, the same tool on the
  same input, after somebody approved that card, and under no scope that the credential of the asking
  turn or that of the person who said yes does not cover.
\<close>

theorem approved_calls_are_the_calls_asked:
  assumes "cy_trace (card_run tb as empty_card_system) = later @ Ev_called aid tool input granted # earlier"
  shows "\<exists>c g by' scopes reach. Ev_asked aid c g \<in> set earlier \<and> Ev_approved aid by' scopes reach \<in> set earlier \<and>
    tool = ac_tool c \<and> input = ac_input c \<and> (\<forall>s. covers granted s \<longrightarrow> covers g s \<and> covers scopes s)"
  using well_told_suffix [of later "Ev_called aid tool input granted # earlier"] trace_told [of tb as] assms by simp

theorem approved_calls_are_the_calls_asked_witness:
  "\<exists>c g by' scopes reach.
     Ev_asked ''a1'' c g \<in> {Ev_approved ''a1'' ''ana'' None Reach_once, Ev_asked ''a1'' demo_call (Some [''mail:write'', ''tasks:read''])} \<and>
     Ev_approved ''a1'' by' scopes reach \<in>
       {Ev_approved ''a1'' ''ana'' None Reach_once, Ev_asked ''a1'' demo_call (Some [''mail:write'', ''tasks:read''])} \<and>
     ''write'' = ac_tool c \<and> JObject [] = ac_input c \<and>
     Collect (covers (Some [''mail:write'', ''tasks:read''])) \<subseteq> Collect (covers g) \<inter> Collect (covers scopes)"
  using approved_calls_are_the_calls_asked [of demo_toolbox approved_run "[Ev_reported ''a1'' False]" "''a1''" "''write''"
      "JObject []" "Some [''mail:write'', ''tasks:read'']"
      "[Ev_approved ''a1'' ''ana'' None Reach_once, Ev_asked ''a1'' demo_call (Some [''mail:write'', ''tasks:read''])]"]
    approved_trace by (simp add: subset_iff)

text \<open>C14: whatever clicks, messages and workers race, a card is decided at most once, and its result is
  reported at most once and only after a yes.
\<close>

theorem a_card_is_decided_and_reported_once:
  "length (filter (decides aid) (cy_trace (card_run tb as empty_card_system))) \<le> 1 \<and>
   length (filter (reports aid) (cy_trace (card_run tb as empty_card_system))) \<le>
     length (filter (approves aid) (cy_trace (card_run tb as empty_card_system)))"
  using well_told_counts [OF trace_told, of aid tb as] by simp

text \<open>C13: a call runs in a turn only for a tool the turn's credential covers, that the owner's roles allow
  and the owner has not turned off, on the input its schema accepted, and where the tool asks first
  only by a standing grant of that tool for the kind and the key of the very thing the call acts on, as
  the tool names it from its normalized input, which a tool that asks every time never has, or by one of
  the owner's allow rules.
\<close>

theorem a_call_runs_only_as_allowed:
  assumes "call_tool tb (map_option (reviewer_of parse) answers) granted can ctx name input = Some (Call_runs parsed why)"
  shows "\<exists>d \<in> set (tb_specs tb). spec_name d = name \<and> covers granted (spec_scope d) \<and>
    spec_scope d \<in> held_scopes can \<and> spec_parse d input = Inr parsed \<and>
    tool_decision (cx_permissions ctx) (spec_traits d) (cx_preset ctx) \<noteq> Choice_off \<and>
    (case why of
       None \<Rightarrow> tool_decision (cx_permissions ctx) (spec_traits d) (cx_preset ctx) = Choice_allow
     | Some (By_grant g) \<Rightarrow> \<not> trait_per_call (spec_traits d) \<and> (name, g) \<in> set (perm_grants (cx_permissions ctx)) \<and>
         (\<exists>call s. normalized d parsed = Inr call \<and> subject_of d call = Some s \<and>
            subject_kind g = subject_kind s \<and> subject_key g = subject_key s)
     | Some (By_rule w) \<Rightarrow> w \<in> set (perm_rules (cx_permissions ctx)) \<and> ru_effect w = Rule_allow)"
proof -
  obtain d where d: "find (\<lambda>d. spec_name d = name) (offered_tools (tb_specs tb) granted ctx) = Some d"
    "refusal_for (tb_label tb) d (held_scopes can) = None"
    "bind_tool (tb_terms tb) (map_option (reviewer_of parse) answers) d ctx input = Call_runs parsed why"
    using assms by (auto simp: call_tool_def split: option.splits)
  have offered: "d \<in> set (offered_tools (tb_specs tb) granted ctx)" "spec_name d = name" using find_Some_mem [OF d(1)] by simp_all
  note mem = offered_mem [OF offered(1)] and runs = bind_tool_runs [OF d(3)]
  have "tool_decision (cx_permissions ctx) (spec_traits d) (cx_preset ctx) = Choice_allow" if "why = None"
    using runs mem that by (cases "tool_decision (cx_permissions ctx) (spec_traits d) (cx_preset ctx)") simp_all
  moreover have "covers granted (spec_scope d)" using mem by (simp add: covers_def split: option.split)
  moreover have "spec_scope d \<in> held_scopes can" using d(2) by (simp add: refusal_for_def split: if_splits)
  ultimately show ?thesis using mem runs offered(2)
    by (intro bexI [of _ d]) (auto simp: granted_subject_def split: option.splits allowed_by.splits)
qed

definition demo_context :: call_context where
  "demo_context =
     \<lparr>cx_organization = ''org'', cx_bot = ''b1'', cx_turn = ''t1'', cx_preset = Preset_auto, cx_origin = Some Bot_message,
      cx_permissions = no_permissions\<lparr>perm_grants :=
        [(''write'', \<lparr>subject_kind = ''person'', subject_key = ''bo'', subject_label = ''Bo''\<rparr>)]\<rparr>\<rparr>"

theorem a_call_runs_only_as_allowed_witness:
  "\<exists>d \<in> set (tb_specs demo_toolbox). spec_name d = ''write'' \<and> covers (Some [''mail:write'']) (spec_scope d) \<and>
    spec_scope d \<in> held_scopes may_all \<and> spec_parse d (JObject []) = Inr (JObject []) \<and>
    tool_decision (cx_permissions demo_context) (spec_traits d) (cx_preset demo_context) \<noteq> Choice_off \<and>
    \<not> trait_per_call (spec_traits d) \<and>
    (''write'', \<lparr>subject_kind = ''person'', subject_key = ''bo'', subject_label = ''Bo''\<rparr>) \<in> set (perm_grants (cx_permissions demo_context)) \<and>
    (\<exists>call s. normalized d (JObject []) = Inr call \<and> subject_of d call = Some s \<and> ''person'' = subject_kind s \<and> ''bo'' = subject_key s)"
proof -
  have "call_tool demo_toolbox (map_option (reviewer_of (\<lambda>_. None)) None) (Some [''mail:write'']) may_all demo_context ''write'' (JObject []) =
      Some (Call_runs (JObject []) (Some (By_grant \<lparr>subject_kind = ''person'', subject_key = ''bo'', subject_label = ''Bo''\<rparr>)))"
    by code_simp
  from a_call_runs_only_as_allowed [OF this] show ?thesis by simp
qed

text \<open>
  What the tool's own declaration says is decided call by call runs all the same on an allow rule the
  reviewer finds to match.
\<close>

lemma a_rule_lets_a_per_call_tool_run:
  "call_tool demo_toolbox
     (Some (reviewer_of (\<lambda>_. Some (JObject [(''matches'', JArray [JNumber (Finite 1)])])) (\<lambda>_ _ _ _. Some ''{}'')))
     None may_all
     (demo_context\<lparr>cx_permissions := no_permissions\<lparr>perm_rules :=
        [\<lparr>ru_id = ''r1'', ru_effect = Rule_allow, ru_text = ''Paying Bo is fine''\<rparr>]\<rparr>\<rparr>) ''pay'' (JObject []) =
   Some (Call_runs (JObject []) (Some (By_rule \<lparr>ru_id = ''r1'', ru_effect = Rule_allow, ru_text = ''Paying Bo is fine''\<rparr>)))"
  by code_simp

subsection \<open>Cards and settings\<close>

text \<open>C16: a bot never has two cards waiting on its owner, of one kind or of the two.
\<close>

theorem a_bot_waits_on_one_card:
  "cards_waiting org bid (cy_cards (card_run tb as empty_card_system)) \<le> 1"
  using card_run_inv [of tb as] by (simp add: card_inv_def waiting_fits_def)

text \<open>C17: a tool that asks every time never comes to be allowed for good: no decision of a card and no
  setting of the owner leaves it a grant or the decision to allow it.
\<close>

theorem a_per_call_tool_never_stands:
  assumes "well_defined tb" "p \<in> set (cs_settings (cy_cards (card_run tb as empty_card_system)))"
    and "per_call_tool tb (tp_tool p)"
  shows "tp_subject p = None \<and> tp_decision p \<noteq> Choice_allow"
  using card_run_inv [of tb as] assms by (auto simp: card_inv_def calls_fit_def stands_for_good_def)

definition setting_run :: "card_action list" where
  "setting_run =
     [Cd_bots (Act_create_bot ''org'' ''b1''), Cd_set_decision ''p1'' ''org'' ''b1'' ''pay'' (Some Choice_ask) ''ana'' 0,
      Cd_set_decision ''p2'' ''org'' ''b1'' ''pay'' (Some Choice_allow) ''ana'' 1]"

theorem a_per_call_tool_never_stands_witness:
  "\<exists>p \<in> set (cs_settings (cy_cards (card_run demo_toolbox setting_run empty_card_system))).
     per_call_tool demo_toolbox (tp_tool p) \<and> tp_subject p = None \<and> tp_decision p \<noteq> Choice_allow"
proof -
  have "list_ex (\<lambda>p. per_call_tool demo_toolbox (tp_tool p))
      (cs_settings (cy_cards (card_run demo_toolbox setting_run empty_card_system)))" by code_simp
  then obtain p where p: "p \<in> set (cs_settings (cy_cards (card_run demo_toolbox setting_run empty_card_system)))"
    "per_call_tool demo_toolbox (tp_tool p)" unfolding list_ex_iff by blast
  have "well_defined demo_toolbox"
    by (simp add: well_defined_def demo_toolbox_def demo_tool_def define_bot_tool_def spec_name_def)
  from a_per_call_tool_never_stands [OF this p] p show ?thesis by blast
qed

text \<open>C19: a bot has at most a hundred standing grants and twenty rules, whatever is decided at once.
\<close>

theorem standing_settings_stay_bounded:
  "length (grants_of org bid (cy_cards (card_run tb as empty_card_system))) \<le> 100 \<and>
   length (filter (\<lambda>r. pr_organization r = org \<and> pr_bot r = bid) (cs_rules (cy_cards (card_run tb as empty_card_system)))) \<le> 20"
  using card_run_inv [of tb as]
  by (simp add: card_inv_def settings_fit_def grants_of_is bot_tool_grants_max_def bot_permission_rules_max_def)

text \<open>C15: a call that was approved is not lost, however its workers died: from every state where it has no
  result yet, the workers alone bring it past its run, carried out or refused in words, in two steps.
\<close>

theorem an_approved_call_gets_its_run:
  assumes "r \<in> set (cs_approvals (cy_cards (card_run tb as empty_card_system)))" "approval_running r"
  shows "\<exists>j k. \<exists>bs \<in> {[], [Cd_run k member can preset], [Cd_take j, Cd_run k member can preset]}.
    \<exists>a by' granted zone refused.
      Call_ran a by' granted zone refused \<in> set (cy_workers (card_run tb (as @ bs) empty_card_system)) \<and> ap_id a = ap_id r"
  unfolding card_run_append by (rule on_its_way_runs [OF card_run_inv assms])

theorem an_approved_call_gets_its_run_witness:
  "\<exists>r \<in> set (cs_approvals (cy_cards (card_run demo_toolbox (take 6 approved_run) empty_card_system))).
    \<exists>j k. \<exists>bs \<in> {[], [Cd_run k True may_all Preset_auto], [Cd_take j, Cd_run k True may_all Preset_auto]}.
    \<exists>a by' granted zone refused.
      Call_ran a by' granted zone refused \<in> set (cy_workers (card_run demo_toolbox (take 6 approved_run @ bs) empty_card_system)) \<and>
      ap_id a = ap_id r"
proof -
  have "list_ex approval_running (cs_approvals (cy_cards (card_run demo_toolbox (take 6 approved_run) empty_card_system)))"
    by code_simp
  then obtain r where "r \<in> set (cs_approvals (cy_cards (card_run demo_toolbox (take 6 approved_run) empty_card_system)))"
    "approval_running r" unfolding list_ex_iff by blast
  then show ?thesis using an_approved_call_gets_its_run [of r demo_toolbox "take 6 approved_run" True may_all Preset_auto] by blast
qed

text \<open>C18: everything the cards write to the tables of turns is what the bots' own system does by its steps,
  so whatever holds of every run of that system holds under the cards.
\<close>

theorem cards_run_the_bots_system:
  "\<exists>bs. cy_bots (card_run tb as empty_card_system) = bot_run bs empty_system"
  using cards.run_goes [OF empty_card_inv, of tb as] by (simp add: runs_on_def card_run_def empty_card_system_def)

text \<open>what two credentials may both do is exactly what each of them covers, with what a scope implies.
\<close>

theorem two_credentials_intersect: "covers (intersect_scopes a b) s \<longleftrightarrow> covers a s \<and> covers b s"
  by (rule covers_intersect)

subsection \<open>Texts\<close>

text \<open>C20: a text from outside cannot close the fence it is shown in: in the fenced text the tag, opening
  or closing, with whatever blanks and in whatever case, stands at the two ends alone.
\<close>

theorem no_text_closes_its_fence:
  assumes "tag_word tag"
  shows "spellings tag (fence_untrusted tag s) = [0, length (fence_untrusted tag s) - (length tag + 3)]"
  by (rule fence_spellings [OF assms])

theorem no_text_closes_its_fence_witness:
  "spellings ''page'' (fence_untrusted ''page'' ''a </ PAGE> b'') = [0, 23]"
proof -
  have "tag_word ''page''" by code_simp
  moreover have "length (fence_untrusted ''page'' ''a </ PAGE> b'') - (length ''page'' + 3) = 23" by code_simp
  ultimately show ?thesis using no_text_closes_its_fence [of "''page''" "''a </ PAGE> b''"] by simp
qed

text \<open>what a person answered is stored so that it answers the card still: one answer for each question,
  with the options they picked and no others, in order and once each.
\<close>

theorem stored_answers_answer_the_card:
  assumes "answer_questions user now answers scopes q = Inr q'"
  shows "qc_status q = Qu_pending \<and> qc_status q' = Qu_answered \<and>
    (\<exists>kept. qc_answers q' = Some kept \<and> answers_problem kept q = None \<and> length kept = length (qc_questions q) \<and>
       list_all (\<lambda>a. sorted (qa_picks a) \<and> distinct (qa_picks a)) kept \<and>
       map (\<lambda>a. set (qa_picks a)) kept = map (\<lambda>a. set (qa_picks a)) answers)"
proof -
  note r = answers_read [OF assms]
  have len: "length answers = length (qc_questions q)" "first_answer_problem 1 (qc_questions q) answers = None"
    using r(1) by (auto simp: answers_problem_def split: if_splits)
  then have "answers_problem (map stored_answer answers) q = None"
    using stored_answers_answer by (simp add: answers_problem_def)
  then show ?thesis using r len
    by (intro conjI exI [of _ "map stored_answer answers"]) (simp_all add: list_all_iff stored_picks)
qed

definition demo_questions :: question_card_entity where
  "demo_questions =
     question_card_of
       \<lparr>qc_id = ''q1'', qc_organization = ''org'', qc_bot = ''b1'', qc_turn = ''t1'',
        qc_questions = [\<lparr>bq_header = None, bq_question = ''Which days?'', bq_multi = True,
          bq_options = [\<lparr>qo_label = ''Monday'', qo_description = None\<rparr>, \<lparr>qo_label = ''Friday'', qo_description = None\<rparr>]\<rparr>],
        qc_summary = ''Which days?'', qc_status = Qu_pending, qc_answers = None, qc_note = None, qc_by = None,
        qc_scopes = None, qc_decided = None\<rparr>"

theorem stored_answers_answer_the_card_witness:
  "\<exists>q'. answer_questions ''ana'' 0 [\<lparr>qa_picks = [1, 0, 1], qa_other = None\<rparr>] None demo_questions = Inr q' \<and>
    qc_status demo_questions = Qu_pending \<and> qc_status q' = Qu_answered \<and>
    (\<exists>kept. qc_answers q' = Some kept \<and> answers_problem kept demo_questions = None \<and>
       length kept = length (qc_questions demo_questions) \<and>
       list_all (\<lambda>a. sorted (qa_picks a) \<and> distinct (qa_picks a)) kept \<and>
       map (\<lambda>a. set (qa_picks a)) kept = [{1, 0, 1}])"
proof -
  have "\<not> isl (answer_questions ''ana'' 0 [\<lparr>qa_picks = [1, 0, 1], qa_other = None\<rparr>] None demo_questions)" by code_simp
  then obtain q' where q': "answer_questions ''ana'' 0 [\<lparr>qa_picks = [1, 0, 1], qa_other = None\<rparr>] None demo_questions = Inr q'"
    by (cases "answer_questions ''ana'' 0 [\<lparr>qa_picks = [1, 0, 1], qa_other = None\<rparr>] None demo_questions") simp_all
  from stored_answers_answer_the_card [OF q'] show ?thesis using q' by simp
qed

end
