(* ===== verification/Task_Rank.thy ===== *)
theory Task_Rank
  imports Domain_Base
begin

section \<open>The order of a column\<close>

text \<open>
  \<^verbatim>\<open>task-rank.policy.ts\<close> (under \<^verbatim>\<open>apps/api/src/tasks/domain\<close>): where a task sits in its column is a key, a
  string of base-62 digits that sorts between its neighbours'. Strings are compared character by
  character, as the code and the column's collation do.
\<close>

definition rank_digits :: string where
  "rank_digits = ''0123456789ABCDEFGHIJKLMNOPQRSTUVWXYZabcdefghijklmnopqrstuvwxyz''"

subsection \<open>Digits\<close>

text \<open>\<open>indexOf\<close>, which is \<open>-1\<close> for what is no digit, and an index that may be past the ends.\<close>

fun index_in :: "string \<Rightarrow> char \<Rightarrow> int" where
  "index_in [] c = - 1"
| "index_in (d # ds) c = (if d = c then 0 else let i = index_in ds c in if i < 0 then i else i + 1)"

definition rank_digit :: "char \<Rightarrow> int" where
  "rank_digit c = index_in rank_digits c"

definition digit_char :: "int \<Rightarrow> string" where
  "digit_char i =
     (if 0 \<le> i \<and> i < int (length rank_digits) then [rank_digits ! nat i] else ''undefined'')"

definition is_rank :: "string \<Rightarrow> bool" where
  "is_rank r \<longleftrightarrow> r \<noteq> [] \<and> last r \<noteq> CHR ''0'' \<and> list_all (\<lambda>c. c \<in> set rank_digits) r"

subsection \<open>Keys\<close>

text \<open>How far the two bounds agree, the lower one read as if zeros followed it.\<close>

fun shared_digits :: "string \<Rightarrow> string \<Rightarrow> nat" where
  "shared_digits l [] = 0"
| "shared_digits [] (c # u) = (if c = CHR ''0'' then Suc (shared_digits [] u) else 0)"
| "shared_digits (a # l) (c # u) = (if a = c then Suc (shared_digits l u) else 0)"

lemma shared_digits_le: "shared_digits l u \<le> length u"
  by (induction l u rule: shared_digits.induct) auto

lemma index_in_bounds: "- 1 \<le> index_in ds c \<and> index_in ds c < int (length ds)"
  by (induction ds) (auto simp: Let_def)

lemma rank_digit_bounds: "- 1 \<le> rank_digit c" "rank_digit c < 62"
  using index_in_bounds [of rank_digits c] by (simp_all add: rank_digit_def rank_digits_def)

text \<open>\<open>Math.round\<close> of a half rounds up.\<close>

function rank_midpoint :: "string \<Rightarrow> string option \<Rightarrow> string" where
  "rank_midpoint lower upper =
     (let shared = (case upper of None \<Rightarrow> 0 | Some u \<Rightarrow> shared_digits lower u) in
      if shared > 0
      then take shared (the upper) @ rank_midpoint (drop shared lower) (Some (drop shared (the upper)))
      else
        let low = (case lower of [] \<Rightarrow> 0 | c # _ \<Rightarrow> rank_digit c);
            high = (case upper of None \<Rightarrow> int (length rank_digits)
                    | Some u \<Rightarrow> (case u of [] \<Rightarrow> - 1 | c # _ \<Rightarrow> rank_digit c))
        in if high - low > 1 then digit_char ((low + high + 1) div 2)
           else if (case upper of None \<Rightarrow> False | Some u \<Rightarrow> length u > 1) then take 1 (the upper)
           else digit_char low @ rank_midpoint (drop 1 lower) None)"
  by pat_completeness auto

termination
proof (relation "measure (\<lambda>(l, u). length l + (case u of None \<Rightarrow> 0 | Some u \<Rightarrow> Suc (length u)))", goal_cases)
  case (2 lower upper shared)
  then obtain u where u: "upper = Some u" "0 < shared_digits lower u" by (cases upper) auto
  then show ?case using 2 shared_digits_le [of lower u] by simp
next
  case (3 lower upper shared low high)
  then show ?case
  proof (cases upper)
    case None
    then show ?thesis using 3 by (cases lower) (auto simp: rank_digits_def split: list.splits)
  next
    case (Some u)
    then show ?thesis by (cases lower) simp_all
  qed
qed simp

declare rank_midpoint.simps [simp del]

text \<open>What \<open>rankBetween\<close> throws is a \<open>RangeError\<close>.\<close>

definition ends_in_zero :: "string \<Rightarrow> bool" where
  "ends_in_zero r \<longleftrightarrow> r \<noteq> [] \<and> last r = CHR ''0''"

definition rank_between :: "string \<Rightarrow> string option \<Rightarrow> string + string" where
  "rank_between lower upper =
     (if \<exists>u \<in> set_option upper. \<not> lower < u
      then Inl (''No rank between '' @ lower @ '' and '' @ the upper @ '': they are out of order'')
      else if ends_in_zero lower \<or> (\<exists>u \<in> set_option upper. ends_in_zero u)
      then Inl ''A rank never ends in 0''
      else Inr (rank_midpoint lower upper))"

subsection \<open>Facts\<close>

lemma index_in_nth: "distinct ds \<Longrightarrow> i < length ds \<Longrightarrow> index_in ds (ds ! i) = int i"
  by (induction ds arbitrary: i) (auto simp: nth_Cons Let_def split: nat.splits)

lemma index_in_mem: "c \<in> set ds \<Longrightarrow> 0 \<le> index_in ds c \<and> index_in ds c < int (length ds) \<and> ds ! nat (index_in ds c) = c"
proof (induction ds)
  case (Cons d ds)
  show ?case
  proof (cases "d = c")
    case False
    then have "c \<in> set ds" using Cons.prems by simp
    then have i: "0 \<le> index_in ds c" "index_in ds c < int (length ds)" "ds ! nat (index_in ds c) = c" using Cons.IH by auto
    then show ?thesis using False by (simp add: Let_def nat_add_distrib nth_Cons split: nat.split) 
  qed simp
qed simp

lemma rank_digits_sorted: "sorted_wrt (<) rank_digits"
  by code_simp

lemma rank_digits_distinct: "distinct rank_digits"
  by code_simp

lemma rank_digit_char:
  assumes "0 \<le> i" "i < 62"
  obtains d where "digit_char i = [d]" "d \<in> set rank_digits" "rank_digit d = i"
proof -
  have n: "nat i < length rank_digits" using assms by (simp add: rank_digits_def)
  show thesis
  proof (rule that)
    show "digit_char i = [rank_digits ! nat i]" using assms by (simp add: digit_char_def rank_digits_def)
    show "rank_digits ! nat i \<in> set rank_digits" using n by simp
    show "rank_digit (rank_digits ! nat i) = i"
      using index_in_nth [OF rank_digits_distinct n] assms by (simp add: rank_digit_def)
  qed
qed

lemma rank_digit_less:
  assumes "c \<in> set rank_digits" "d \<in> set rank_digits"
  shows "rank_digit c < rank_digit d \<longleftrightarrow> c < d"
proof -
  have lt: "rank_digits ! i < rank_digits ! j" if "i < j" "j < length rank_digits" for i j
    using rank_digits_sorted that by (rule sorted_wrt_nth_less)
  note c = index_in_mem [OF assms(1)] and d = index_in_mem [OF assms(2)]
  show ?thesis unfolding rank_digit_def
  proof
    assume "index_in rank_digits c < index_in rank_digits d"
    then have "nat (index_in rank_digits c) < nat (index_in rank_digits d)" using c by linarith
    moreover have "nat (index_in rank_digits d) < length rank_digits" using d by linarith
    ultimately show "c < d" using lt [of "nat (index_in rank_digits c)" "nat (index_in rank_digits d)"] c d by simp
  next
    assume less: "c < d"
    show "index_in rank_digits c < index_in rank_digits d"
    proof (rule ccontr)
      assume "\<not> ?thesis"
      then consider "index_in rank_digits c = index_in rank_digits d" | "index_in rank_digits d < index_in rank_digits c" by linarith
      then show False
      proof cases
        case 1
        then have "c = d" using c d by metis
        then show False using less by simp
      next
        case 2
        then have "nat (index_in rank_digits d) < nat (index_in rank_digits c)" "nat (index_in rank_digits c) < length rank_digits"
          using c d by linarith+
        then show False using lt [of "nat (index_in rank_digits d)" "nat (index_in rank_digits c)"] c d less by simp
      qed
    qed
  qed
qed

lemma rank_digit_zero [simp]: "rank_digit CHR ''0'' = 0"
  by code_simp

lemma rank_digit_nonneg: "c \<in> set rank_digits \<Longrightarrow> 0 \<le> rank_digit c"
  using index_in_mem [of c rank_digits] by (simp add: rank_digit_def)

lemma midpoint_shared:
  "rank_midpoint [] (Some (CHR ''0'' # u)) = CHR ''0'' # rank_midpoint [] (Some u)"
  "rank_midpoint (c # l) (Some (c # u)) = c # rank_midpoint l (Some u)"
proof -
  have one: "rank_midpoint l (Some u) = take (shared_digits l u) u @ rank_midpoint (drop (shared_digits l u) l) (Some (drop (shared_digits l u) u))" for l u
    by (subst rank_midpoint.simps) (cases "shared_digits l u", simp_all add: rank_midpoint.simps [of l "Some u"])
  show "rank_midpoint [] (Some (CHR ''0'' # u)) = CHR ''0'' # rank_midpoint [] (Some u)"
    by (subst rank_midpoint.simps) (use one [of "[]" u] in simp)
  show "rank_midpoint (c # l) (Some (c # u)) = c # rank_midpoint l (Some u)"
    by (subst rank_midpoint.simps) (use one [of l u] in simp)
qed


lemma midpoint_none:
  "rank_midpoint l None =
     (let low = (case l of [] \<Rightarrow> 0 | c # _ \<Rightarrow> rank_digit c) in
      if low < 61 then digit_char ((low + 63) div 2) else digit_char low @ rank_midpoint (drop 1 l) None)"
  by (subst rank_midpoint.simps) (simp add: rank_digits_def algebra_simps Let_def)

lemma midpoint_some:
  assumes "shared_digits l (c # u) = 0"
  shows "rank_midpoint l (Some (c # u)) =
     (let low = (case l of [] \<Rightarrow> 0 | a # _ \<Rightarrow> rank_digit a) in
      if rank_digit c - low > 1 then digit_char ((low + rank_digit c + 1) div 2)
      else if u \<noteq> [] then [c] else digit_char low @ rank_midpoint (drop 1 l) None)"
  using assms by (subst rank_midpoint.simps) (simp add: Let_def)

lemma digit_char_of: "c \<in> set rank_digits \<Longrightarrow> digit_char (rank_digit c) = [c]"
  using index_in_mem [of c rank_digits] by (simp add: rank_digit_def digit_char_def)

lemma zeroth: "rank_digits ! 0 = CHR ''0''" "CHR ''0'' \<in> set rank_digits"
  by code_simp+

lemma is_rank_single: "is_rank [c] \<longleftrightarrow> c \<in> set rank_digits \<and> rank_digit c \<noteq> 0"
proof -
  have "c = CHR ''0''" if "c \<in> set rank_digits" "rank_digit c = 0"
    using index_in_mem [OF that(1)] that(2) zeroth by (simp add: rank_digit_def)
  then show ?thesis by (auto simp: is_rank_def)
qed

lemma is_rank_Cons: "is_rank r \<Longrightarrow> c \<in> set rank_digits \<Longrightarrow> is_rank (c # r)"
  by (simp add: is_rank_def)

lemma midpoint_last:
  "list_all (\<lambda>c. c \<in> set rank_digits) l \<Longrightarrow> is_rank (rank_midpoint l None) \<and> l < rank_midpoint l None"
proof (induction l)
  case Nil
  obtain d where "digit_char 31 = [d]" "d \<in> set rank_digits" "rank_digit d = 31" by (rule rank_digit_char [of 31]) auto
  then show ?case using midpoint_none [of "[]"] by (simp add: is_rank_single)
next
  case (Cons c l)
  then have c: "c \<in> set rank_digits" and IH: "is_rank (rank_midpoint l None)" "l < rank_midpoint l None" by auto
  show ?case
  proof (cases "rank_digit c < 61")
    case True
    obtain d where d: "digit_char ((rank_digit c + 63) div 2) = [d]" "d \<in> set rank_digits" "rank_digit d = (rank_digit c + 63) div 2"
      using True rank_digit_nonneg [OF c] by (rule_tac rank_digit_char [of "(rank_digit c + 63) div 2"]) auto
    have "rank_digit c < (rank_digit c + 63) div 2" using True by presburger
    then have "c < d" using rank_digit_less [OF c d(2)] d(3) by simp
    then show ?thesis using d True rank_digit_nonneg [OF c] midpoint_none [of "c # l"] by (simp add: is_rank_single)
  next
    case False
    then show ?thesis using IH c midpoint_none [of "c # l"] by (simp add: digit_char_of is_rank_Cons)
  qed
qed

lemma digit_between:
  assumes "0 \<le> low" "high - low > 1" "high < 62"
  obtains d where "digit_char ((low + high + 1) div 2) = [d]" "d \<in> set rank_digits" "low < rank_digit d" "rank_digit d < high"
  using assms by (rule_tac rank_digit_char [of "(low + high + 1) div 2"]) auto

lemma is_rank_tail: "is_rank (c # u) \<Longrightarrow> u \<noteq> [] \<Longrightarrow> is_rank u"
  by (simp add: is_rank_def)

lemma midpoint_between:
  "list_all (\<lambda>c. c \<in> set rank_digits) l \<Longrightarrow> is_rank u \<Longrightarrow> l < u \<Longrightarrow>
     is_rank (rank_midpoint l (Some u)) \<and> l < rank_midpoint l (Some u) \<and> rank_midpoint l (Some u) < u"
proof (induction l u rule: shared_digits.induct)
  case (2 c u)
  have c: "c \<in> set rank_digits" using 2 by (simp add: is_rank_def)
  show ?case
  proof (cases "c = CHR ''0''")
    case True
    then have "u \<noteq> []" using 2 by (auto simp: is_rank_def)
    then have "is_rank u" "[] < u" using is_rank_tail 2(3) by (auto simp: neq_Nil_conv)
    then show ?thesis using 2 c True midpoint_shared(1) [of u] by (auto simp: is_rank_Cons)
  next
    case False
    then have pos: "0 < rank_digit c" using c rank_digit_less [of "CHR ''0''" c] is_rank_single [of c] rank_digit_nonneg [OF c]
      by (auto simp: is_rank_def)
    note eq = midpoint_some [of "[]" c u]
    show ?thesis
    proof (cases "rank_digit c - 0 > 1")
      case True
      obtain d where d: "digit_char ((0 + rank_digit c + 1) div 2) = [d]" "d \<in> set rank_digits" "0 < rank_digit d" "rank_digit d < rank_digit c"
        using True rank_digit_bounds(2) [of c] by (rule_tac digit_between [of 0 "rank_digit c"]) auto
      then have "d < c" using rank_digit_less [OF d(2) c] by simp
      then show ?thesis using eq d True False by (simp add: is_rank_single)
    next
      case low: False
      show ?thesis
      proof (cases "u = []")
        case True
        have "CHR ''0'' < c" using rank_digit_less [of "CHR ''0''" c] c pos zeroth by simp
        moreover have "is_rank (rank_midpoint [] None)" using midpoint_last [of "[]"] by simp
        moreover have "digit_char 0 = ''0''" "CHR ''0'' \<in> set rank_digits" using digit_char_of [OF zeroth(2)] zeroth by simp_all
        ultimately show ?thesis using eq low True False pos by (simp add: is_rank_Cons)
      next
        case u: False
        then show ?thesis using eq low False pos c by (auto simp: is_rank_single neq_Nil_conv)
      qed
    qed
  qed
next
  case (3 a l c u)
  have a: "a \<in> set rank_digits" and l: "list_all (\<lambda>c. c \<in> set rank_digits) l" and c: "c \<in> set rank_digits"
    using 3 by (simp_all add: is_rank_def)
  show ?case
  proof (cases "a = c")
    case True
    then have "l < u" using 3 by simp
    moreover have "is_rank u" using \<open>l < u\<close> is_rank_tail [OF 3(3)] by (cases u) auto
    ultimately show ?thesis using 3 l a True midpoint_shared(2) [of c l u] by (simp add: is_rank_Cons)
  next
    case False
    then have "a < c" using 3 by simp
    then have less: "rank_digit a < rank_digit c" using rank_digit_less a c by simp
    note eq = midpoint_some [of "a # l" c u]
    show ?thesis
    proof (cases "rank_digit c - rank_digit a > 1")
      case True
      obtain d where d: "digit_char ((rank_digit a + rank_digit c + 1) div 2) = [d]" "d \<in> set rank_digits"
        "rank_digit a < rank_digit d" "rank_digit d < rank_digit c"
        using True rank_digit_bounds(2) [of c] rank_digit_nonneg [OF a]
        by (rule_tac digit_between [of "rank_digit a" "rank_digit c"]) auto
      then have "d < c" "a < d" using rank_digit_less [OF d(2) c] rank_digit_less [OF a d(2)] by simp_all
      then show ?thesis using eq d True False rank_digit_nonneg [OF a] by (simp add: is_rank_single)
    next
      case low: False
      show ?thesis
      proof (cases "u = []")
        case True
        then show ?thesis using eq low False a l midpoint_last [OF l] \<open>a < c\<close> by (simp add: is_rank_Cons digit_char_of)
      next
        case u: False
        then show ?thesis using eq low False a c less \<open>a < c\<close> rank_digit_nonneg [OF a] by (auto simp: is_rank_single neq_Nil_conv)
      qed
    qed
  qed
qed (simp add: is_rank_def)


lemma rank_between_ok:
  assumes "lower = [] \<or> is_rank lower" "\<forall>u \<in> set_option upper. is_rank u" "rank_between lower upper = Inr r"
  shows "is_rank r \<and> lower < r \<and> (\<forall>u \<in> set_option upper. r < u)"
proof -
  have lower: "list_all (\<lambda>c. c \<in> set rank_digits) lower" using assms(1) by (auto simp: is_rank_def)
  show ?thesis
  proof (cases upper)
    case None
    then show ?thesis using assms(3) midpoint_last [OF lower] by (auto simp: rank_between_def split: if_splits)
  next
    case (Some u)
    then show ?thesis using assms midpoint_between [OF lower, of u] by (auto simp: rank_between_def split: if_splits)
  qed
qed

lemma rank_between_Inr:
  assumes "lower = [] \<or> is_rank lower" "\<forall>u \<in> set_option upper. is_rank u \<and> lower < u"
  shows "rank_between lower upper = Inr (rank_midpoint lower upper)"
  using assms by (cases upper) (auto simp: rank_between_def ends_in_zero_def is_rank_def)

end
