(* ===== verification/Task.thy ===== *)
theory Task
  imports Task_Rank
begin

section \<open>Tasks\<close>

text \<open>
  \<^verbatim>\<open>task.entity.ts\<close> (under \<^verbatim>\<open>apps/api/src/tasks/domain\<close>): a task of Plan's board, what a person edits of it,
  where it sits, why it waits, the sessions at work on it, and the changes each write logs.
\<close>

subsection \<open>The data\<close>

datatype task_status = Task_todo | Task_doing | Task_review | Task_done

definition task_statuses_before_work :: "task_status list" where
  "task_statuses_before_work = [Task_todo]"

definition task_title_max :: int where
  "task_title_max = 500"

definition task_notes_max :: int where
  "task_notes_max = 10000"

definition task_blocked_reason_max :: int where
  "task_blocked_reason_max = 500"

record task =
  tk_id :: string
  tk_organization :: string
  tk_project :: string
  tk_milestone :: "string option"
  tk_status :: task_status
  tk_rank :: string
  tk_title :: string
  tk_notes :: string
  tk_due_date :: "string option"
  tk_due_time :: "string option"
  tk_completed :: "date option"
  tk_blocked_reason :: "string option"
  tk_blocked_at :: "date option"
  tk_version :: nat
  tk_idempotency :: "string option"
  tk_created_by :: "string option"

datatype link_origin = Link_started | Link_linked

record task_link =
  tl_session :: string
  tl_origin :: link_origin
  tl_by :: "string option"
  tl_at :: date

datatype plan_actor = Actor_user string | Actor_agent string string

text \<open>What is logged, with its payload.\<close>

datatype plan_event_kind =
    Plan_created
  | Plan_completed "task_status option"
  | Plan_reopened task_status
  | Plan_status_changed task_status task_status
  | Plan_rescheduled "string option \<times> string option" "string option \<times> string option"
  | Plan_reassigned "string \<times> string option" "string \<times> string option"
  | Plan_blocked string
  | Plan_unblocked
  | Plan_session_linked string link_origin
  | Plan_deleted
  | Plan_milestone_created
  | Plan_milestone_renamed string string
  | Plan_milestone_retargeted "string option" "string option"
  | Plan_milestone_moved string string
  | Plan_milestone_deleted

text \<open>\<open>pc_ref\<close> tells one change object from another.\<close>

record plan_change =
  pc_ref :: nat
  pc_kind :: plan_event_kind
  pc_project :: string
  pc_milestone :: "string option"
  pc_actor :: plan_actor
  pc_at :: date

datatype plan_write = Write_created | Write_updated | Write_deleted

datatype task_event = Task_changed plan_write | Task_session_linked string link_origin

text \<open>What an instance holds beside its row.\<close>

record task_entity = task +
  te_sessions :: "task_link list"
  te_actor :: "plan_actor option"
  te_expected :: "nat option"
  te_changes :: "plan_change list"
  te_first_status :: "task_status option"
  te_place_change :: "nat option"
  te_refs :: nat
  te_events :: "task_event list"

definition task_of :: "task_link list \<Rightarrow> task \<Rightarrow> task_entity" where
  "task_of links r =
     task.extend r \<lparr>te_sessions = links, te_actor = None, te_expected = None, te_changes = [],
       te_first_status = None, te_place_change = None, te_refs = 0, te_events = []\<rparr>"

definition task_problem :: "'t task_scheme \<Rightarrow> domain_error option" where
  "task_problem t = check_all
     [(tk_organization t = [], ArgumentNotProvided ''A task must belong to an organization''),
      (tk_project t = [], ArgumentNotProvided ''A task is always filed under a project''),
      (tk_title t = [] \<or> int (length (tk_title t)) > task_title_max,
       ArgumentInvalid ''A task's title is 1 to 500 characters''),
      (int (length (tk_notes t)) > task_notes_max, ArgumentInvalid ''A task's notes are at most 10000 characters''),
      (truthy (tk_due_time t) \<and> \<not> truthy (tk_due_date t), ArgumentInvalid ''A due time needs a due date''),
      (\<exists>reason \<in> set_option (tk_blocked_reason t). int (length reason) > task_blocked_reason_max,
       ArgumentInvalid ''A blocked reason is at most 500 characters''),
      (tk_rank t \<noteq> [] \<and> \<not> is_rank (tk_rank t), ArgumentInvalid ''A task rank is a fractional key'')]"

subsection \<open>Changes and events\<close>

definition acting_as :: "plan_actor \<Rightarrow> task_entity \<Rightarrow> task_entity" where
  "acting_as actor t = t\<lparr>te_actor := Some actor\<rparr>"

definition expect_version :: "nat option \<Rightarrow> task_entity \<Rightarrow> task_entity" where
  "expect_version v t = t\<lparr>te_expected := v\<rparr>"

definition record_change :: "date \<Rightarrow> plan_event_kind \<Rightarrow> task_entity \<Rightarrow> domain_error + task_entity" where
  "record_change now kind t =
     (case te_actor t of
        None \<Rightarrow> Inl (ArgumentNotProvided ''A change to a task names who made it'')
      | Some actor \<Rightarrow> Inr (t\<lparr>te_changes := te_changes t @
          [\<lparr>pc_ref = te_refs t, pc_kind = kind, pc_project = tk_project t, pc_milestone = tk_milestone t,
            pc_actor = actor, pc_at = now\<rparr>], te_refs := te_refs t + 1\<rparr>))"

fun changed_as :: "task_event \<Rightarrow> plan_write option" where
  "changed_as (Task_changed w) = Some w"
| "changed_as _ = None"

text \<open>One change event for a write.\<close>

definition touched :: "plan_write \<Rightarrow> task_entity \<Rightarrow> task_entity" where
  "touched w t =
     (case map_filter_list changed_as (te_events t) of
        pending # _ \<Rightarrow> if pending = Write_created \<or> pending = w then t else t\<lparr>te_events := te_events t @ [Task_changed w]\<rparr>
      | [] \<Rightarrow> t\<lparr>te_events := te_events t @ [Task_changed w]\<rparr>)"

definition is_new :: "task_entity \<Rightarrow> bool" where
  "is_new t \<longleftrightarrow> Task_changed Write_created \<in> set (te_events t)"

subsection \<open>Creating\<close>

record create_task =
  ct_organization :: string
  ct_project :: string
  ct_milestone :: "string option"
  ct_status :: task_status
  ct_title :: string
  ct_notes :: "string option"
  ct_due_date :: "string option"
  ct_due_time :: "string option"
  ct_created_by :: string
  ct_actor :: plan_actor
  ct_idempotency :: "string option"

definition create_new_task :: "string \<Rightarrow> date \<Rightarrow> create_task \<Rightarrow> domain_error + task_entity" where
  "create_new_task uuid now c =
     (let t = task_of []
            \<lparr>tk_id = uuid, tk_organization = ct_organization c, tk_project = ct_project c,
             tk_milestone = ct_milestone c, tk_status = ct_status c, tk_rank = [], tk_title = js_trim (ct_title c),
             tk_notes = (case ct_notes c of None \<Rightarrow> [] | Some n \<Rightarrow> n), tk_due_date = ct_due_date c,
             tk_due_time = (if truthy (ct_due_date c) then ct_due_time c else None),
             tk_completed = (if ct_status c = Task_done then Some now else None), tk_blocked_reason = None,
             tk_blocked_at = None, tk_version = 1, tk_idempotency = ct_idempotency c,
             tk_created_by = Some (ct_created_by c)\<rparr>
      in case task_problem t of
           Some e \<Rightarrow> Inl e
         | None \<Rightarrow>
             (case record_change now Plan_created (acting_as (ct_actor c) t) of
                Inl e \<Rightarrow> Inl e
              | Inr t1 \<Rightarrow>
                  (case (if ct_status c = Task_done then record_change now (Plan_completed None) t1 else Inr t1) of
                     Inl e \<Rightarrow> Inl e
                   | Inr t2 \<Rightarrow> Inr (touched Write_created t2))))"

subsection \<open>Editing\<close>

text \<open>Absent is \<open>None\<close>, and \<open>Some None\<close> clears.\<close>

record task_edit =
  ed_title :: "string option"
  ed_notes :: "string option"
  ed_due_date :: "string option option"
  ed_due_time :: "string option option"

definition edit_fields :: "task_edit \<Rightarrow> 't task_scheme \<Rightarrow> 't task_scheme" where
  "edit_fields ed t =
     (let t1 = (case ed_title ed of None \<Rightarrow> t | Some title \<Rightarrow> t\<lparr>tk_title := js_trim title\<rparr>);
          t2 = (case ed_notes ed of None \<Rightarrow> t1 | Some notes \<Rightarrow> t1\<lparr>tk_notes := notes\<rparr>);
          t3 = (case ed_due_date ed of
                  None \<Rightarrow> t2
                | Some d \<Rightarrow> if d = None then t2\<lparr>tk_due_date := None, tk_due_time := None\<rparr> else t2\<lparr>tk_due_date := d\<rparr>)
      in case ed_due_time ed of None \<Rightarrow> t3 | Some d \<Rightarrow> t3\<lparr>tk_due_time := d\<rparr>)"

definition edit_task :: "date \<Rightarrow> task_edit \<Rightarrow> task_entity \<Rightarrow> domain_error + task_entity" where
  "edit_task now ed t =
     (let t' = edit_fields ed t; due = (\<lambda>x. (tk_due_date x, tk_due_time x)) in
      case task_problem t' of
        Some e \<Rightarrow> Inl e
      | None \<Rightarrow> map_sum id (touched Write_updated)
          (if due t \<noteq> due t' then record_change now (Plan_rescheduled (due t) (due t')) t' else Inr t'))"

definition file_task :: "date \<Rightarrow> string \<Rightarrow> string option \<Rightarrow> task_entity \<Rightarrow> domain_error + task_entity" where
  "file_task now project milestone t =
     (let t' = t\<lparr>tk_project := project, tk_milestone := milestone\<rparr>; from = (tk_project t, tk_milestone t) in
      map_sum id (touched Write_updated)
        (if from \<noteq> (project, milestone) then record_change now (Plan_reassigned from (project, milestone)) t' else Inr t'))"

definition block_task :: "date \<Rightarrow> string option \<Rightarrow> task_entity \<Rightarrow> domain_error + task_entity" where
  "block_task now reason t =
     (let next = (if tk_status t = Task_done then None else map_option js_trim reason) in
      if next = tk_blocked_reason t then Inr t
      else (let t' = t\<lparr>tk_blocked_reason := next, tk_blocked_at := (if next = None then None else Some now)\<rparr> in
            case task_problem t' of
              Some e \<Rightarrow> Inl e
            | None \<Rightarrow> map_sum id (touched Write_updated)
                (record_change now (case next of None \<Rightarrow> Plan_unblocked | Some r \<Rightarrow> Plan_blocked r) t')))"

subsection \<open>Placing\<close>

definition sync_place :: "task_status \<Rightarrow> string \<Rightarrow> date \<Rightarrow> task_entity \<Rightarrow> domain_error + task_entity" where
  "sync_place status rank now t =
     (let t' = t\<lparr>tk_completed := (if status \<noteq> Task_done then None
                 else if tk_status t \<noteq> Task_done then Some now else tk_completed t),
                 tk_status := status, tk_rank := rank\<rparr>
      in validated (task_problem t') t')"

definition place_event :: "task_status \<Rightarrow> task_status \<Rightarrow> plan_event_kind" where
  "place_event from status =
     (if status = Task_done then Plan_completed (Some from)
      else if from = Task_done then Plan_reopened status else Plan_status_changed from status)"

definition place_task :: "task_status \<Rightarrow> string \<Rightarrow> date \<Rightarrow> task_entity \<Rightarrow> domain_error + task_entity" where
  "place_task status rank now t =
     (let from = (case te_first_status t of None \<Rightarrow> tk_status t | Some s \<Rightarrow> s) in
      case sync_place status rank now (t\<lparr>te_first_status := Some from\<rparr>) of
        Inl e \<Rightarrow> Inl e
      | Inr t1 \<Rightarrow>
          (let t2 = (if status = Task_done then t1\<lparr>tk_blocked_reason := None, tk_blocked_at := None\<rparr> else t1);
               t3 = t2\<lparr>te_changes := filter (\<lambda>c. te_place_change t2 \<noteq> Some (pc_ref c)) (te_changes t2),
                       te_place_change := None\<rparr>
           in case (if from = status then Inr t3
                    else map_sum id (\<lambda>t4. t4\<lparr>te_place_change := Some (te_refs t3)\<rparr>)
                           (record_change now (place_event from status) t3)) of
                Inl e \<Rightarrow> Inl e
              | Inr t5 \<Rightarrow> Inr (touched (if is_new t5 then Write_created else Write_updated) t5)))"

subsection \<open>Sessions, and the end\<close>

definition detach_task :: "task_entity \<Rightarrow> task_entity" where
  "detach_task t = touched Write_updated t"

definition remove_task :: "date \<Rightarrow> task_entity \<Rightarrow> domain_error + task_entity" where
  "remove_task now t = map_sum id (touched Write_deleted) (record_change now Plan_deleted t)"

definition starts_work_on_attach :: "task_status \<Rightarrow> 't task_scheme \<Rightarrow> bool" where
  "starts_work_on_attach seen t \<longleftrightarrow> seen \<in> set task_statuses_before_work \<and> tk_status t = seen"

definition attach_session :: "date \<Rightarrow> task_link \<Rightarrow> task_entity \<Rightarrow> domain_error + task_entity" where
  "attach_session now l t =
     (if list_ex (\<lambda>x. tl_session x = tl_session l) (te_sessions t) then Inr t
      else map_sum id
             (\<lambda>t'. let t'' = touched Write_updated t' in
                   t''\<lparr>te_events := te_events t'' @ [Task_session_linked (tl_session l) (tl_origin l)]\<rparr>)
             (record_change now (Plan_session_linked (tl_session l) (tl_origin l)) (t\<lparr>te_sessions := te_sessions t @ [l]\<rparr>)))"

section \<open>Milestones\<close>

text \<open>
  \<^verbatim>\<open>milestone.entity.ts\<close> (under \<^verbatim>\<open>apps/api/src/tasks/domain\<close>): what one project aims for, grouping some of
  its tasks.
\<close>

definition milestone_name_max :: int where
  "milestone_name_max = 200"

record milestone =
  ms_id :: string
  ms_organization :: string
  ms_project :: string
  ms_name :: string
  ms_target :: "string option"
  ms_created_by :: "string option"
  ms_version :: nat
  ms_idempotency :: "string option"

record milestone_entity = milestone +
  me_actor :: "plan_actor option"
  me_expected :: "nat option"
  me_changes :: "plan_change list"
  me_changed :: "plan_write option"

definition milestone_of :: "milestone \<Rightarrow> milestone_entity" where
  "milestone_of r = milestone.extend r \<lparr>me_actor = None, me_expected = None, me_changes = [], me_changed = None\<rparr>"

definition milestone_problem :: "'m milestone_scheme \<Rightarrow> domain_error option" where
  "milestone_problem m = check_all
     [(ms_organization m = [] \<or> ms_project m = [],
       ArgumentNotProvided ''A milestone belongs to a project of an organization''),
      (ms_name m = [] \<or> int (length (ms_name m)) > milestone_name_max,
       ArgumentInvalid ''A milestone's name is 1 to 200 characters'')]"

definition milestone_acting :: "plan_actor \<Rightarrow> nat option \<Rightarrow> milestone_entity \<Rightarrow> milestone_entity" where
  "milestone_acting actor v m = m\<lparr>me_actor := Some actor, me_expected := v\<rparr>"

definition record_milestone ::
  "date \<Rightarrow> plan_event_kind \<Rightarrow> milestone_entity \<Rightarrow> domain_error + milestone_entity" where
  "record_milestone now kind m =
     (case me_actor m of
        None \<Rightarrow> Inl (ArgumentNotProvided ''A change to a milestone names who made it'')
      | Some actor \<Rightarrow> Inr (m\<lparr>me_changes := me_changes m @
          [\<lparr>pc_ref = length (me_changes m), pc_kind = kind, pc_project = ms_project m,
            pc_milestone = Some (ms_id m), pc_actor = actor, pc_at = now\<rparr>]\<rparr>))"

definition milestone_touched :: "plan_write \<Rightarrow> milestone_entity \<Rightarrow> milestone_entity" where
  "milestone_touched w m = (if me_changed m \<noteq> None then m else m\<lparr>me_changed := Some w\<rparr>)"

record create_milestone =
  cm_organization :: string
  cm_project :: string
  cm_name :: string
  cm_target :: "string option"
  cm_created_by :: string
  cm_actor :: plan_actor
  cm_idempotency :: "string option"

definition create_new_milestone :: "string \<Rightarrow> date \<Rightarrow> create_milestone \<Rightarrow> domain_error + milestone_entity" where
  "create_new_milestone uuid now c =
     (let m = milestone_of
            \<lparr>ms_id = uuid, ms_organization = cm_organization c, ms_project = cm_project c, ms_name = js_trim (cm_name c),
             ms_target = cm_target c, ms_created_by = Some (cm_created_by c), ms_version = 1,
             ms_idempotency = cm_idempotency c\<rparr>
      in case milestone_problem m of
           Some e \<Rightarrow> Inl e
         | None \<Rightarrow> map_sum id (milestone_touched Write_created)
             (record_milestone now Plan_milestone_created (milestone_acting (cm_actor c) None m)))"

record milestone_edit =
  em_name :: "string option"
  em_project :: "string option"
  em_target :: "string option option"

text \<open>Each field that moved is logged, in this order.\<close>

definition milestone_moves :: "'m milestone_scheme \<Rightarrow> 'm milestone_scheme \<Rightarrow> plan_event_kind list" where
  "milestone_moves m m' =
     (if ms_name m = ms_name m' then [] else [Plan_milestone_renamed (ms_name m) (ms_name m')]) @
     (if ms_target m = ms_target m' then [] else [Plan_milestone_retargeted (ms_target m) (ms_target m')]) @
     (if ms_project m = ms_project m' then [] else [Plan_milestone_moved (ms_project m) (ms_project m')])"

fun record_each :: "date \<Rightarrow> plan_event_kind list \<Rightarrow> milestone_entity \<Rightarrow> domain_error + milestone_entity" where
  "record_each now [] m = Inr m"
| "record_each now (k # ks) m = (case record_milestone now k m of Inl e \<Rightarrow> Inl e | Inr m' \<Rightarrow> record_each now ks m')"

definition edit_milestone :: "date \<Rightarrow> milestone_edit \<Rightarrow> milestone_entity \<Rightarrow> domain_error + milestone_entity" where
  "edit_milestone now ed m =
     (let m1 = (case em_name ed of None \<Rightarrow> m | Some n \<Rightarrow> m\<lparr>ms_name := js_trim n\<rparr>);
          m2 = (case em_project ed of None \<Rightarrow> m1 | Some p \<Rightarrow> m1\<lparr>ms_project := p\<rparr>);
          m3 = (case em_target ed of None \<Rightarrow> m2 | Some d \<Rightarrow> m2\<lparr>ms_target := d\<rparr>)
      in case milestone_problem m3 of
           Some e \<Rightarrow> Inl e
         | None \<Rightarrow> map_sum id (milestone_touched Write_updated) (record_each now (milestone_moves m m3) m3))"

definition remove_milestone :: "date \<Rightarrow> milestone_entity \<Rightarrow> domain_error + milestone_entity" where
  "remove_milestone now m =
     map_sum id (milestone_touched Write_deleted) (record_milestone now Plan_milestone_deleted m)"

end
