(* ===== verification/Task_Board.thy ===== *)
theory Task_Board
  imports Task
begin

section \<open>The board in the database\<close>

text \<open>
  \<^verbatim>\<open>task.repository.ts\<close> and \<^verbatim>\<open>milestone.repository.ts\<close> (under \<^verbatim>\<open>apps/api/src/tasks/database\<close>), as functions on
  the tables, with the keys, checks and lengths of \<^verbatim>\<open>AddPlanTasks\<close> and the migrations after it. A statement
  the database refuses is \<open>Inl\<close>, and its transaction writes nothing.
\<close>

subsection \<open>The tables\<close>

text \<open>Projects and sessions are there with their workspace; a link is with its workspace and its task.\<close>

record plan_board =
  bd_tasks :: "task list"
  bd_links :: "(string \<times> string \<times> task_link) list"
  bd_milestones :: "milestone list"
  bd_projects :: "(string \<times> string) list"
  bd_sessions :: "(string \<times> string) list"
  bd_log :: "(string \<times> string \<times> plan_change) list"
  bd_events :: "(string \<times> task_event) list"
  bd_milestone_events :: "(string \<times> plan_write) list"

datatype board_error =
    Board_domain domain_error
  | Board_range string
  | Stale_position
  | Version_conflict
  | Unique_key string
  | Foreign_key string
  | Check_fails string
  | Too_long string

definition rank_column_max :: nat where
  "rank_column_max = 128"

definition digit_upto :: "char \<Rightarrow> char \<Rightarrow> bool" where
  "digit_upto c most \<longleftrightarrow> CHR ''0'' \<le> c \<and> c \<le> most"

definition time_of_day_ok :: "string \<Rightarrow> bool" where
  "time_of_day_ok s =
     (case s of
        [a, b, x, c, d] \<Rightarrow>
          (digit_upto a CHR ''1'' \<and> digit_upto b CHR ''9'' \<or> a = CHR ''2'' \<and> digit_upto b CHR ''3'') \<and>
          x = CHR '':'' \<and> digit_upto c CHR ''5'' \<and> digit_upto d CHR ''9''
      | _ \<Rightarrow> False)"

text \<open>What the database finds against a row of the table of tasks, beside the other rows.\<close>

definition task_refused :: "task \<Rightarrow> plan_board \<Rightarrow> board_error option" where
  "task_refused r b =
     (let others = filter (\<lambda>x. tk_id x \<noteq> tk_id r) (bd_tasks b) in
      if length (tk_rank r) > rank_column_max then Some (Too_long ''rank'')
      else if \<exists>k \<in> set_option (tk_idempotency r). length k > 128 then Some (Too_long ''idempotencyKey'')
      else if \<exists>d \<in> set_option (tk_due_time r). \<not> time_of_day_ok d then Some (Check_fails ''CHK_task_due_time'')
      else if tk_due_time r \<noteq> None \<and> tk_due_date r = None then Some (Check_fails ''CHK_task_due_time_has_date'')
      else if (tk_blocked_reason r = None) \<noteq> (tk_blocked_at r = None) then Some (Check_fails ''CHK_task_blocked'')
      else if list_ex (\<lambda>x. tk_organization x = tk_organization r \<and> tk_status x = tk_status r \<and>
                          tk_rank x = tk_rank r) others then Some (Unique_key ''UQ_task_rank'')
      else if tk_idempotency r \<noteq> None \<and> list_ex (\<lambda>x. tk_organization x = tk_organization r \<and>
                          tk_idempotency x = tk_idempotency r) others then Some (Unique_key ''UQ_task_idempotency_key'')
      else if (tk_organization r, tk_project r) \<notin> set (bd_projects b) then Some (Foreign_key ''FK_task_project'')
      else if \<exists>m \<in> set_option (tk_milestone r). \<not> list_ex (\<lambda>x. ms_organization x = tk_organization r \<and> ms_id x = m \<and>
                          ms_project x = tk_project r) (bd_milestones b) then Some (Foreign_key ''FK_task_milestone'')
      else None)"

definition find_task :: "string \<Rightarrow> string \<Rightarrow> plan_board \<Rightarrow> task option" where
  "find_task org tid b = find (\<lambda>r. tk_id r = tid \<and> tk_organization r = org) (bd_tasks b)"

definition links_of :: "string \<Rightarrow> string \<Rightarrow> plan_board \<Rightarrow> task_link list" where
  "links_of org tid b =
     sort_key tl_at (map (\<lambda>(_, _, l). l) (filter (\<lambda>(o1, t1, _). o1 = org \<and> t1 = tid) (bd_links b)))"

subsection \<open>A key for a place\<close>

datatype task_after = After_nothing | After_all | After_task string

record task_placement =
  pl_status :: task_status
  pl_after :: task_after

definition column_of :: "string \<Rightarrow> task_status \<Rightarrow> task list \<Rightarrow> task list" where
  "column_of org status rows =
     sort_key tk_rank (filter (\<lambda>r. tk_organization r = org \<and> tk_status r = status) rows)"

text \<open>\<open>neighbour\<close>: the first key of the column's other rows that \<open>cond\<close> takes, in either order.\<close>

definition other_rows :: "'t task_scheme \<Rightarrow> task_status \<Rightarrow> task list \<Rightarrow> task list" where
  "other_rows t status rows = filter (\<lambda>r. tk_id r \<noteq> tk_id t) (column_of (tk_organization t) status rows)"

definition first_rank :: "(task \<Rightarrow> bool) \<Rightarrow> task list \<Rightarrow> string option" where
  "first_rank cond rows = map_option tk_rank (find cond rows)"

definition rank_for :: "'t task_scheme \<Rightarrow> task_placement \<Rightarrow> task list \<Rightarrow> board_error + string" where
  "rank_for t p rows =
     (let column = other_rows t (pl_status p) rows in
      case pl_after p of
        After_nothing \<Rightarrow> map_sum Board_range id (rank_between [] (first_rank (\<lambda>_. True) column))
      | After_all \<Rightarrow>
          map_sum Board_range id
            (rank_between (case first_rank (\<lambda>_. True) (rev column) of None \<Rightarrow> [] | Some r \<Rightarrow> r) None)
      | After_task tid \<Rightarrow>
          (case first_rank (\<lambda>r. tk_id r = tid) column of
             None \<Rightarrow> Inl Stale_position
           | Some key \<Rightarrow>
               map_sum Board_range id (rank_between key (first_rank (\<lambda>r. key < tk_rank r) column))))"

subsection \<open>Writes\<close>

text \<open>An update of the task's row, with its version, only while it holds the one the writer named.\<close>

definition row_hit :: "task_entity \<Rightarrow> task \<Rightarrow> bool" where
  "row_hit t r \<longleftrightarrow> tk_id r = tk_id t \<and> tk_organization r = tk_organization t \<and>
     (\<forall>v \<in> set_option (te_expected t). tk_version r = v)"

definition write_row :: "(task \<Rightarrow> task) \<Rightarrow> task_entity \<Rightarrow> plan_board \<Rightarrow> board_error + plan_board" where
  "write_row f t b =
     (case filter (row_hit t) (bd_tasks b) of
        [r] \<Rightarrow>
          (let r' = (f r)\<lparr>tk_version := tk_version r + 1\<rparr> in
           case task_refused r' b of
             Some e \<Rightarrow> Inl e
           | None \<Rightarrow> Inr (b\<lparr>bd_tasks := map (\<lambda>x. if row_hit t x then r' else x) (bd_tasks b)\<rparr>))
      | _ \<Rightarrow> Inl Version_conflict)"

definition set_place :: "task_entity \<Rightarrow> task \<Rightarrow> task" where
  "set_place t r =
     r\<lparr>tk_status := tk_status t, tk_rank := tk_rank t, tk_completed := tk_completed t,
       tk_blocked_reason := tk_blocked_reason t, tk_blocked_at := tk_blocked_at t\<rparr>"

definition set_fields :: "task_entity \<Rightarrow> task \<Rightarrow> task" where
  "set_fields t r =
     r\<lparr>tk_title := tk_title t, tk_notes := tk_notes t, tk_due_date := tk_due_date t, tk_due_time := tk_due_time t,
       tk_project := tk_project t, tk_milestone := tk_milestone t, tk_blocked_reason := tk_blocked_reason t,
       tk_blocked_at := tk_blocked_at t\<rparr>"

definition log_and_stage :: "task_entity \<Rightarrow> plan_board \<Rightarrow> plan_board" where
  "log_and_stage t b =
     b\<lparr>bd_log := bd_log b @ map (\<lambda>c. (tk_organization t, tk_id t, c)) (te_changes t),
       bd_events := bd_events b @ map (Pair (tk_id t)) (te_events t)\<rparr>"

definition insert_row :: "task_entity \<Rightarrow> plan_board \<Rightarrow> board_error + plan_board" where
  "insert_row t b =
     (if list_ex (\<lambda>x. tk_id x = tk_id t) (bd_tasks b) then Inl (Unique_key ''PK_task'')
      else case task_refused (task.truncate t) b of
        Some e \<Rightarrow> Inl e
      | None \<Rightarrow> Inr (b\<lparr>bd_tasks := bd_tasks b @ [task.truncate t]\<rparr>))"

text \<open>
  One attempt at a placement. Its neighbours are read as \<open>rows\<close>, which others may have written since;
  the instance keeps what it went through, for the next attempt.
\<close>

definition place_attempt ::
  "(task_entity \<Rightarrow> plan_board \<Rightarrow> board_error + plan_board) \<Rightarrow> task_placement \<Rightarrow> task list \<Rightarrow> date \<Rightarrow>
     task_entity \<Rightarrow> plan_board \<Rightarrow> task_entity \<times> (board_error + plan_board)" where
  "place_attempt work p rows now t b =
     (case rank_for t p rows of
        Inl e \<Rightarrow> (t, Inl e)
      | Inr rank \<Rightarrow>
          (case place_task (pl_status p) rank now t of
             Inl e \<Rightarrow> (t, Inl (Board_domain e))
           | Inr t' \<Rightarrow> (t', map_sum id (log_and_stage t') (work t' b))))"

definition insert_task ::
  "task_placement \<Rightarrow> task list \<Rightarrow> date \<Rightarrow> task_entity \<Rightarrow> plan_board \<Rightarrow> task_entity \<times> (board_error + plan_board)" where
  "insert_task p rows now t b = place_attempt insert_row p rows now t b"

definition move_task ::
  "task_placement \<Rightarrow> task list \<Rightarrow> date \<Rightarrow> task_entity \<Rightarrow> plan_board \<Rightarrow> task_entity \<times> (board_error + plan_board)" where
  "move_task p rows now t b = place_attempt (\<lambda>t'. write_row (set_place t') t') p rows now t b"

text \<open>The create a retry repeats: the task the first one made.\<close>

definition existing_task :: "task_entity \<Rightarrow> plan_board \<Rightarrow> string option" where
  "existing_task t b =
     map_option tk_id (find (\<lambda>r. tk_organization r = tk_organization t \<and> tk_idempotency r = tk_idempotency t) (bd_tasks b))"

definition save_fields :: "task_entity \<Rightarrow> plan_board \<Rightarrow> board_error + plan_board" where
  "save_fields t b = map_sum id (log_and_stage t) (write_row (set_fields t) t b)"

definition delete_task :: "date \<Rightarrow> task_entity \<Rightarrow> plan_board \<Rightarrow> board_error + plan_board" where
  "delete_task now t b =
     (case remove_task now t of
        Inl e \<Rightarrow> Inl (Board_domain e)
      | Inr t' \<Rightarrow>
          (if length (filter (row_hit t') (bd_tasks b)) \<noteq> 1 then Inl Version_conflict
           else Inr (log_and_stage t'
             (b\<lparr>bd_tasks := filter (\<lambda>r. \<not> row_hit t' r) (bd_tasks b),
                bd_links := filter (\<lambda>(o1, t1, _). \<not> (o1 = tk_organization t \<and> t1 = tk_id t)) (bd_links b)\<rparr>))))"

text \<open>A link that is there stays as it is.\<close>

definition insert_link :: "date \<Rightarrow> task_entity \<Rightarrow> task_link \<Rightarrow> plan_board \<Rightarrow> board_error + plan_board" where
  "insert_link now t l b =
     (if list_ex (\<lambda>(o1, t1, x). o1 = tk_organization t \<and> t1 = tk_id t \<and> tl_session x = tl_session l) (bd_links b) then Inr b
      else if (tk_organization t, tl_session l) \<notin> set (bd_sessions b) then Inl (Foreign_key ''FK_task_session_session'')
      else Inr (b\<lparr>bd_links := bd_links b @ [(tk_organization t, tk_id t, l\<lparr>tl_at := now\<rparr>)]\<rparr>))"

definition first_in_doing :: task_placement where
  "first_in_doing = \<lparr>pl_status = Task_doing, pl_after = After_nothing\<rparr>"

text \<open>
  The row is read under a lock, so its place is the one it has; a task nobody has started moves to
  the top of the work in progress if it still is where the person saw it.
\<close>

definition attach_attempt ::
  "task_link \<Rightarrow> task_status \<Rightarrow> task list \<Rightarrow> date \<Rightarrow> task_entity \<Rightarrow> plan_board \<Rightarrow>
     task_entity \<times> (board_error + plan_board)" where
  "attach_attempt l seen rows now t b =
     (case find_task (tk_organization t) (tk_id t) b of
        None \<Rightarrow> (t, Inr b)
      | Some locked \<Rightarrow>
          (case sync_place (tk_status locked) (tk_rank locked) now t of
             Inl e \<Rightarrow> (t, Inl (Board_domain e))
           | Inr t1 \<Rightarrow>
               (case insert_link now t1 l b of
                  Inl e \<Rightarrow> (t1, Inl e)
                | Inr b1 \<Rightarrow>
                    (let (t2, r) =
                           (if starts_work_on_attach seen t1
                            then (case rank_for t1 first_in_doing rows of
                                    Inl e \<Rightarrow> (t1, Inl e)
                                  | Inr rank \<Rightarrow>
                                      (case place_task Task_doing rank now t1 of
                                         Inl e \<Rightarrow> (t1, Inl (Board_domain e))
                                       | Inr t2 \<Rightarrow> (t2, write_row (set_place t2) t2 b1)))
                            else (t1, write_row id t1 b1))
                     in case r of
                          Inl e \<Rightarrow> (t2, Inl e)
                        | Inr b2 \<Rightarrow>
                            (case attach_session now l t2 of
                               Inl e \<Rightarrow> (t2, Inl (Board_domain e))
                             | Inr t3 \<Rightarrow> (t3, Inr (log_and_stage t3 b2)))))))"

definition detach_session :: "string \<Rightarrow> task_entity \<Rightarrow> plan_board \<Rightarrow> board_error + plan_board" where
  "detach_session sid t b =
     (let t' = detach_task t in
      map_sum id (log_and_stage t')
        (write_row id t' (b\<lparr>bd_links := filter (\<lambda>(o1, t1, x).
           \<not> (o1 = tk_organization t \<and> t1 = tk_id t \<and> tl_session x = sid)) (bd_links b)\<rparr>)))"

subsection \<open>Milestones\<close>

definition milestone_hit :: "milestone_entity \<Rightarrow> milestone \<Rightarrow> bool" where
  "milestone_hit m r \<longleftrightarrow> ms_id r = ms_id m \<and> ms_organization r = ms_organization m \<and>
     (\<forall>v \<in> set_option (me_expected m). ms_version r = v)"

definition log_milestone :: "milestone_entity \<Rightarrow> plan_board \<Rightarrow> plan_board" where
  "log_milestone m b =
     b\<lparr>bd_log := bd_log b @ map (\<lambda>c. (ms_organization m, ms_id m, c)) (me_changes m),
       bd_milestone_events := bd_milestone_events b @ (case me_changed m of None \<Rightarrow> [] | Some w \<Rightarrow> [(ms_id m, w)])\<rparr>"

definition insert_milestone :: "milestone_entity \<Rightarrow> plan_board \<Rightarrow> board_error + plan_board" where
  "insert_milestone m b =
     (if list_ex (\<lambda>x. ms_id x = ms_id m) (bd_milestones b) then Inl (Unique_key ''PK_milestone'')
      else if ms_idempotency m \<noteq> None \<and> list_ex (\<lambda>x. ms_organization x = ms_organization m \<and>
                 ms_idempotency x = ms_idempotency m) (bd_milestones b) then Inl (Unique_key ''UQ_milestone_idempotency_key'')
      else if (ms_organization m, ms_project m) \<notin> set (bd_projects b) then Inl (Foreign_key ''FK_milestone_project'')
      else Inr (log_milestone m (b\<lparr>bd_milestones := bd_milestones b @ [milestone.truncate m]\<rparr>)))"

text \<open>A milestone that moves takes its tasks to its new project, by their key.\<close>

definition save_milestone :: "milestone_entity \<Rightarrow> plan_board \<Rightarrow> board_error + plan_board" where
  "save_milestone m b =
     (if length (filter (milestone_hit m) (bd_milestones b)) \<noteq> 1 then Inl Version_conflict
      else if (ms_organization m, ms_project m) \<notin> set (bd_projects b) then Inl (Foreign_key ''FK_milestone_project'')
      else Inr (log_milestone m
        (b\<lparr>bd_milestones := map (\<lambda>r. if milestone_hit m r
              then r\<lparr>ms_name := ms_name m, ms_target := ms_target m, ms_project := ms_project m, ms_version := ms_version r + 1\<rparr>
              else r) (bd_milestones b),
           bd_tasks := map (\<lambda>r. if tk_organization r = ms_organization m \<and> tk_milestone r = Some (ms_id m)
              then r\<lparr>tk_project := ms_project m\<rparr> else r) (bd_tasks b)\<rparr>)))"

definition delete_milestone :: "date \<Rightarrow> milestone_entity \<Rightarrow> plan_board \<Rightarrow> board_error + plan_board" where
  "delete_milestone now m b =
     (case remove_milestone now m of
        Inl e \<Rightarrow> Inl (Board_domain e)
      | Inr m' \<Rightarrow>
          (if length (filter (milestone_hit m') (bd_milestones b)) \<noteq> 1 then Inl Version_conflict
           else Inr (log_milestone m'
             (b\<lparr>bd_milestones := filter (\<lambda>r. \<not> milestone_hit m' r) (bd_milestones b),
                bd_tasks := map (\<lambda>r. if tk_organization r = ms_organization m \<and> tk_milestone r = Some (ms_id m)
                   then r\<lparr>tk_milestone := None\<rparr> else r) (bd_tasks b)\<rparr>))))"

end
