(* ===== verification/Task_System.thy ===== *)
theory Task_System
  imports Task_Board
begin

section \<open>What moves the board\<close>

text \<open>
  The command handlers of \<^verbatim>\<open>apps/api/src/tasks/commands\<close> and \<open>TaskFilingResolver\<close>, over the board and the
  instances that requests hold in memory. A step is one read or one transaction, so a run is any
  interleaving of requests. The neighbours of a place are read before it is written: \<open>ps_seen\<close> keeps
  what was there to be read, and a placement may use any of it. \<open>ps_used\<close> are the ids drawn so far: a fresh
  one is none of them.
\<close>

subsection \<open>Filing\<close>

datatype filing_refusal = Milestone_unknown | Milestone_project_mismatch | Project_unavailable

definition active_project :: "(string \<Rightarrow> bool) \<Rightarrow> string \<Rightarrow> filing_refusal + string" where
  "active_project active p = (if active p then Inr p else Inl Project_unavailable)"

text \<open>
  What a request asks for; an absent project or milestone is \<open>None\<close>, a cleared milestone \<open>Some None\<close>.
  Which projects are active, and the workspace's unassigned one, are what the projects module answers.
\<close>

definition resolve_filing ::
  "(string \<Rightarrow> bool) \<Rightarrow> string \<Rightarrow> (string \<Rightarrow> milestone option) \<Rightarrow> string option \<Rightarrow> string option option \<Rightarrow>
     (string \<times> string option) option \<Rightarrow> filing_refusal + string \<times> string option" where
  "resolve_filing active unassigned milestone project goal current =
     (case Option.bind goal (\<lambda>m. if truthy m then m else None) of
        Some mid \<Rightarrow>
          (case milestone mid of
             None \<Rightarrow> Inl Milestone_unknown
           | Some m \<Rightarrow>
               if truthy project \<and> project \<noteq> Some (ms_project m) then Inl Milestone_project_mismatch
               else map_sum id (\<lambda>p. (p, Some (ms_id m))) (active_project active (ms_project m)))
      | None \<Rightarrow>
          (case (case project of
                   Some p \<Rightarrow> active_project active p
                 | None \<Rightarrow> Inr (case current of None \<Rightarrow> unassigned | Some (p, _) \<Rightarrow> p)) of
             Inl e \<Rightarrow> Inl e
           | Inr p \<Rightarrow>
               Inr (p, if goal = None
                       then (case current of Some (p', m) \<Rightarrow> if truthy m \<and> p' = p then m else None | None \<Rightarrow> None)
                       else None)))"

definition find_milestone :: "string \<Rightarrow> plan_board \<Rightarrow> string \<Rightarrow> milestone option" where
  "find_milestone org b mid = find (\<lambda>m. ms_id m = mid \<and> ms_organization m = org) (bd_milestones b)"

subsection \<open>The system\<close>

text \<open>
  An instance in the hands of a request, with the row it was read from (none for a new task) and how
  often its placement lost to another. A request that edited its task saves it and does nothing else.
\<close>

record task_hand =
  hd_task :: task_entity
  hd_read :: "task option"
  hd_lost :: nat
  hd_edited :: bool

record plan_system =
  ps_board :: plan_board
  ps_hands :: "task_hand list"
  ps_milestones :: "milestone_entity list"
  ps_seen :: "task list list"
  ps_used :: "string list"

definition rank_attempts :: nat where
  "rank_attempts = 3"

record task_request =
  rq_edit :: task_edit
  rq_project :: "string option"
  rq_milestone :: "string option option"
  rq_blocked :: "string option option"

datatype plan_action =
    Pl_project string string
  | Pl_session string string
  | Pl_look
  | Pl_create string date create_task
  | Pl_load string string plan_actor "nat option"
  | Pl_update nat date "string \<Rightarrow> bool" string task_request
  | Pl_save nat
  | Pl_insert nat nat date
  | Pl_move nat task_placement nat date
  | Pl_attach nat task_link task_status nat date
  | Pl_detach nat string
  | Pl_delete nat date
  | Pl_milestone string date create_milestone
  | Pl_load_milestone string string plan_actor "nat option"
  | Pl_edit_milestone nat date milestone_edit
  | Pl_insert_milestone nat
  | Pl_save_milestone nat
  | Pl_delete_milestone nat date

definition drop_nth :: "nat \<Rightarrow> 'a list \<Rightarrow> 'a list" where
  "drop_nth i xs = take i xs @ drop (Suc i) xs"

text \<open>A request is over with its transaction, whether that lands or not.\<close>

definition settled_hand :: "nat \<Rightarrow> board_error + plan_board \<Rightarrow> plan_system \<Rightarrow> plan_system" where
  "settled_hand i r S =
     S\<lparr>ps_board := (case r of Inl _ \<Rightarrow> ps_board S | Inr b \<Rightarrow> b), ps_hands := drop_nth i (ps_hands S)\<rparr>"

text \<open>\<open>withRankRetry\<close>: an attempt that lost the key to another is made again, twice at most.\<close>

definition lost_key :: "board_error + 'b \<Rightarrow> bool" where
  "lost_key r = (case r of Inl (Unique_key k) \<Rightarrow> k = ''UQ_task_rank'' | _ \<Rightarrow> False)"

definition attempted :: "nat \<Rightarrow> task_hand \<Rightarrow> task_entity \<times> (board_error + plan_board) \<Rightarrow> plan_system \<Rightarrow> plan_system" where
  "attempted i h tr S =
     (if lost_key (snd tr) \<and> hd_lost h + 1 < rank_attempts
      then S\<lparr>ps_hands := (ps_hands S)[i := h\<lparr>hd_task := fst tr, hd_lost := hd_lost h + 1\<rparr>]\<rparr>
      else settled_hand i (snd tr) S)"

definition last_in :: "task_status \<Rightarrow> task_placement" where
  "last_in status = \<lparr>pl_status = status, pl_after = After_all\<rparr>"

text \<open>\<open>UpdateTaskCommandHandler\<close>, up to its write.\<close>

definition update_task ::
  "date \<Rightarrow> (string \<Rightarrow> bool) \<Rightarrow> string \<Rightarrow> task_request \<Rightarrow> plan_board \<Rightarrow> task_entity \<Rightarrow> task_entity option" where
  "update_task now active unassigned rq b t =
     (case edit_task now (rq_edit rq) t of
        Inl _ \<Rightarrow> None
      | Inr t1 \<Rightarrow>
          (case (if rq_project rq = None \<and> rq_milestone rq = None then Some t1
                 else (case resolve_filing active unassigned (find_milestone (tk_organization t1) b)
                              (rq_project rq) (rq_milestone rq) (Some (tk_project t1, tk_milestone t1)) of
                         Inl _ \<Rightarrow> None
                       | Inr (p, m) \<Rightarrow> (case file_task now p m t1 of Inl _ \<Rightarrow> None | Inr t2 \<Rightarrow> Some t2))) of
             None \<Rightarrow> None
           | Some t2 \<Rightarrow>
               (case rq_blocked rq of
                  None \<Rightarrow> Some t2
                | Some reason \<Rightarrow> (case block_task now reason t2 of Inl _ \<Rightarrow> None | Inr t3 \<Rightarrow> Some t3))))"

definition with_hand :: "nat \<Rightarrow> (task_hand \<Rightarrow> plan_system) \<Rightarrow> plan_system \<Rightarrow> plan_system" where
  "with_hand i f S = (if i < length (ps_hands S) then f (ps_hands S ! i) else S)"

definition with_milestone :: "nat \<Rightarrow> (milestone_entity \<Rightarrow> plan_system) \<Rightarrow> plan_system \<Rightarrow> plan_system" where
  "with_milestone i f S = (if i < length (ps_milestones S) then f (ps_milestones S ! i) else S)"

definition settled_milestone :: "nat \<Rightarrow> board_error + plan_board \<Rightarrow> plan_system \<Rightarrow> plan_system" where
  "settled_milestone i r S =
     S\<lparr>ps_board := (case r of Inl _ \<Rightarrow> ps_board S | Inr b \<Rightarrow> b), ps_milestones := drop_nth i (ps_milestones S)\<rparr>"

text \<open>The handlers: what each reads, and the transaction it makes.\<close>

definition load_task :: "string \<Rightarrow> string \<Rightarrow> plan_actor \<Rightarrow> nat option \<Rightarrow> plan_system \<Rightarrow> plan_system" where
  "load_task org tid actor v S =
     (case find_task org tid (ps_board S) of
        None \<Rightarrow> S
      | Some r \<Rightarrow> S\<lparr>ps_hands := ps_hands S @
          [\<lparr>hd_task = expect_version v (acting_as actor (task_of (links_of org tid (ps_board S)) r)), hd_read = Some r,
            hd_lost = 0, hd_edited = False\<rparr>]\<rparr>)"

definition create_step :: "string \<Rightarrow> date \<Rightarrow> create_task \<Rightarrow> plan_system \<Rightarrow> plan_system" where
  "create_step uuid now c S =
     (case (if uuid \<in> set (ps_used S) then Inl (Conflict ''uuid'') else create_new_task uuid now c) of
        Inl _ \<Rightarrow> S
      | Inr t \<Rightarrow> S\<lparr>ps_used := uuid # ps_used S,
          ps_hands := ps_hands S @ [\<lparr>hd_task = t, hd_read = None, hd_lost = 0, hd_edited = False\<rparr>]\<rparr>)"

definition insert_step :: "nat \<Rightarrow> nat \<Rightarrow> date \<Rightarrow> plan_system \<Rightarrow> plan_system" where
  "insert_step i j now S =
     with_hand i (\<lambda>h.
       if hd_read h \<noteq> None \<or> j \<ge> length (ps_seen S) then S
       else attempted i h (insert_task (last_in (tk_status (hd_task h))) (ps_seen S ! j) now (hd_task h) (ps_board S)) S) S"

definition update_step ::
  "nat \<Rightarrow> date \<Rightarrow> (string \<Rightarrow> bool) \<Rightarrow> string \<Rightarrow> task_request \<Rightarrow> plan_system \<Rightarrow> plan_system" where
  "update_step i now active unassigned rq S =
     with_hand i (\<lambda>h.
       if hd_read h = None \<or> hd_edited h then S
       else (case update_task now active unassigned rq (ps_board S) (hd_task h) of
          None \<Rightarrow> S\<lparr>ps_hands := drop_nth i (ps_hands S)\<rparr>
        | Some t \<Rightarrow> S\<lparr>ps_hands := (ps_hands S)[i := h\<lparr>hd_task := t, hd_edited := True\<rparr>]\<rparr>)) S"

definition save_step :: "nat \<Rightarrow> plan_system \<Rightarrow> plan_system" where
  "save_step i S =
     with_hand i (\<lambda>h. if \<not> hd_edited h then S else settled_hand i (save_fields (hd_task h) (ps_board S)) S) S"

definition move_step :: "nat \<Rightarrow> task_placement \<Rightarrow> nat \<Rightarrow> date \<Rightarrow> plan_system \<Rightarrow> plan_system" where
  "move_step i p j now S =
     with_hand i (\<lambda>h.
       if hd_read h = None \<or> hd_edited h \<or> j \<ge> length (ps_seen S) then S
       else attempted i h (move_task p (ps_seen S ! j) now (hd_task h) (ps_board S)) S) S"

definition attach_step :: "nat \<Rightarrow> task_link \<Rightarrow> task_status \<Rightarrow> nat \<Rightarrow> date \<Rightarrow> plan_system \<Rightarrow> plan_system" where
  "attach_step i l seen j now S =
     with_hand i (\<lambda>h.
       if hd_read h = None \<or> hd_edited h \<or> j \<ge> length (ps_seen S) then S
       else attempted i h (attach_attempt l seen (ps_seen S ! j) now (hd_task h) (ps_board S)) S) S"

definition detach_step :: "nat \<Rightarrow> string \<Rightarrow> plan_system \<Rightarrow> plan_system" where
  "detach_step i sid S =
     with_hand i (\<lambda>h.
       if hd_read h = None \<or> hd_edited h then S else settled_hand i (detach_session sid (hd_task h) (ps_board S)) S) S"

definition delete_step :: "nat \<Rightarrow> date \<Rightarrow> plan_system \<Rightarrow> plan_system" where
  "delete_step i now S =
     with_hand i (\<lambda>h.
       if hd_read h = None \<or> hd_edited h then S else settled_hand i (delete_task now (hd_task h) (ps_board S)) S) S"

definition create_milestone_step :: "string \<Rightarrow> date \<Rightarrow> create_milestone \<Rightarrow> plan_system \<Rightarrow> plan_system" where
  "create_milestone_step uuid now c S =
     (case (if uuid \<in> set (ps_used S) then Inl (Conflict ''uuid'') else create_new_milestone uuid now c) of
        Inl _ \<Rightarrow> S
      | Inr m \<Rightarrow> S\<lparr>ps_used := uuid # ps_used S, ps_milestones := ps_milestones S @ [m]\<rparr>)"

definition load_milestone :: "string \<Rightarrow> string \<Rightarrow> plan_actor \<Rightarrow> nat option \<Rightarrow> plan_system \<Rightarrow> plan_system" where
  "load_milestone org mid actor v S =
     (case find_milestone org (ps_board S) mid of
        None \<Rightarrow> S
      | Some r \<Rightarrow> S\<lparr>ps_milestones := ps_milestones S @ [milestone_acting actor v (milestone_of r)]\<rparr>)"

definition edit_milestone_step :: "nat \<Rightarrow> date \<Rightarrow> milestone_edit \<Rightarrow> plan_system \<Rightarrow> plan_system" where
  "edit_milestone_step i now ed S =
     with_milestone i (\<lambda>m.
       case edit_milestone now ed m of
         Inl _ \<Rightarrow> S\<lparr>ps_milestones := drop_nth i (ps_milestones S)\<rparr>
       | Inr m' \<Rightarrow> S\<lparr>ps_milestones := (ps_milestones S)[i := m']\<rparr>) S"

definition delete_milestone_step :: "nat \<Rightarrow> date \<Rightarrow> plan_system \<Rightarrow> plan_system" where
  "delete_milestone_step i now S = with_milestone i (\<lambda>m. settled_milestone i (delete_milestone now m (ps_board S)) S) S"

lemmas plan_steps =
  load_task_def create_step_def insert_step_def update_step_def save_step_def move_step_def attach_step_def
  detach_step_def delete_step_def create_milestone_step_def load_milestone_def edit_milestone_step_def
  delete_milestone_step_def

definition plan_apply :: "plan_action \<Rightarrow> plan_system \<Rightarrow> plan_system" where
  "plan_apply action S =
     (let b = ps_board S in
      case action of
        Pl_project org p \<Rightarrow> S\<lparr>ps_board := b\<lparr>bd_projects := (org, p) # bd_projects b\<rparr>\<rparr>
      | Pl_session org s \<Rightarrow> S\<lparr>ps_board := b\<lparr>bd_sessions := (org, s) # bd_sessions b\<rparr>\<rparr>
      | Pl_look \<Rightarrow> S\<lparr>ps_seen := ps_seen S @ [bd_tasks b]\<rparr>
      | Pl_create uuid now c \<Rightarrow> create_step uuid now c S
      | Pl_load org tid actor v \<Rightarrow> load_task org tid actor v S
      | Pl_update i now active unassigned rq \<Rightarrow> update_step i now active unassigned rq S
      | Pl_save i \<Rightarrow> save_step i S
      | Pl_insert i j now \<Rightarrow> insert_step i j now S
      | Pl_move i p j now \<Rightarrow> move_step i p j now S
      | Pl_attach i l seen j now \<Rightarrow> attach_step i l seen j now S
      | Pl_detach i sid \<Rightarrow> detach_step i sid S
      | Pl_delete i now \<Rightarrow> delete_step i now S
      | Pl_milestone uuid now c \<Rightarrow> create_milestone_step uuid now c S
      | Pl_load_milestone org mid actor v \<Rightarrow> load_milestone org mid actor v S
      | Pl_edit_milestone i now ed \<Rightarrow> edit_milestone_step i now ed S
      | Pl_insert_milestone i \<Rightarrow> with_milestone i (\<lambda>m. settled_milestone i (insert_milestone m b) S) S
      | Pl_save_milestone i \<Rightarrow> with_milestone i (\<lambda>m. settled_milestone i (save_milestone m b) S) S
      | Pl_delete_milestone i now \<Rightarrow> delete_milestone_step i now S)"

definition plan_run :: "plan_action list \<Rightarrow> plan_system \<Rightarrow> plan_system" where
  "plan_run as S = fold plan_apply as S"

definition empty_board :: plan_board where
  "empty_board = \<lparr>bd_tasks = [], bd_links = [], bd_milestones = [], bd_projects = [], bd_sessions = [],
     bd_log = [], bd_events = [], bd_milestone_events = []\<rparr>"

definition empty_plan :: plan_system where
  "empty_plan = \<lparr>ps_board = empty_board, ps_hands = [], ps_milestones = [], ps_seen = [], ps_used = []\<rparr>"

end
