(* ===== verification/Task_Facts.thy ===== *)
theory Task_Facts
  imports Task_System System_Interfaces
begin

section \<open>The invariant of the board\<close>

text \<open>
  What every transaction keeps of the rows, what the instances in memory keep to them, and the place a
  move gives a task in its column.
\<close>

interpretation ranks: dense_keys is_rank "[]" rank_midpoint
proof
  fix k :: string
  show "is_rank k \<Longrightarrow> [] < k" by (cases k) (auto simp: is_rank_def)
next
  fix l :: string and upper
  assume "l = [] \<or> is_rank l" "\<forall>u \<in> set_option upper. is_rank u \<and> l < u"
  then show "is_rank (rank_midpoint l upper)"
    "l < rank_midpoint l upper \<and> (\<forall>u \<in> set_option upper. rank_midpoint l upper < u)"
    using rank_between_ok [OF _ _ rank_between_Inr] by blast+
qed

subsection \<open>Rows\<close>

definition place_of :: "task \<Rightarrow> string \<times> task_status \<times> string" where
  "place_of r = (tk_organization r, tk_status r, tk_rank r)"

definition done_told :: "'t task_scheme \<Rightarrow> bool" where
  "done_told r \<longleftrightarrow> (tk_completed r \<noteq> None \<longleftrightarrow> tk_status r = Task_done)"

definition filed_in :: "plan_board \<Rightarrow> task \<Rightarrow> bool" where
  "filed_in b r \<longleftrightarrow> (tk_organization r, tk_project r) \<in> set (bd_projects b) \<and>
     (\<forall>m \<in> set_option (tk_milestone r). \<exists>x \<in> set (bd_milestones b).
        ms_organization x = tk_organization r \<and> ms_id x = m \<and> ms_project x = tk_project r)"

definition row_holds :: "task \<Rightarrow> bool" where
  "row_holds r \<longleftrightarrow> is_rank (tk_rank r) \<and> length (tk_rank r) \<le> rank_column_max \<and> done_told r"

definition apart :: "task \<Rightarrow> task \<Rightarrow> bool" where
  "apart r s \<longleftrightarrow> tk_id r \<noteq> tk_id s \<and> place_of r \<noteq> place_of s \<and>
     (tk_idempotency r = None \<or> (tk_organization r, tk_idempotency r) \<noteq> (tk_organization s, tk_idempotency s))"

definition board_inv :: "plan_board \<Rightarrow> bool" where
  "board_inv b \<longleftrightarrow> distinct (bd_tasks b) \<and> (\<forall>r \<in> set (bd_tasks b). row_holds r \<and> filed_in b r) \<and>
     (\<forall>r \<in> set (bd_tasks b). \<forall>s \<in> set (bd_tasks b). r \<noteq> s \<longrightarrow> apart r s) \<and>
     distinct (map ms_id (bd_milestones b))"

lemma board_ids: "board_inv b \<Longrightarrow> r \<in> set (bd_tasks b) \<Longrightarrow> s \<in> set (bd_tasks b) \<Longrightarrow> tk_id r = tk_id s \<Longrightarrow> r = s"
  by (auto simp: board_inv_def apart_def)

lemma task_refused_None:
  assumes "task_refused r b = None"
  shows "length (tk_rank r) \<le> rank_column_max" "filed_in b r"
    "x \<in> set (bd_tasks b) \<Longrightarrow> tk_id x \<noteq> tk_id r \<Longrightarrow> apart r x \<and> apart x r"
  using assms
  by (auto simp: task_refused_def Let_def filed_in_def apart_def place_of_def list_ex_iff split: if_splits)

text \<open>A row written over another of the same task.\<close>

lemma rewritten_inv:
  assumes inv: "board_inv b" and r: "r \<in> set (bd_tasks b)" and r': "task_refused r' b = None" "row_holds r'" "tk_id r' = tk_id r"
  shows "board_inv (b\<lparr>bd_tasks := map (\<lambda>x. if x = r then r' else x) (bd_tasks b)\<rparr>)"
proof -
  let ?f = "\<lambda>x. if x = r then r' else x"
  have other: "apart r' x \<and> apart x r'" if "x \<in> set (bd_tasks b)" "x \<noteq> r" for x
    using task_refused_None(3) [OF r'(1) that(1)] board_ids [OF inv that(1) r] that(2) r'(3) by auto
  then have new: "x \<noteq> r'" if "x \<in> set (bd_tasks b)" "x \<noteq> r" for x
    using that by (auto simp: apart_def)
  have "inj_on ?f (set (bd_tasks b))" using new by (auto simp: inj_on_def)
  moreover have "\<forall>x \<in> set (map ?f (bd_tasks b)). \<forall>y \<in> set (map ?f (bd_tasks b)). x \<noteq> y \<longrightarrow> apart x y"
    using other inv by (auto simp: board_inv_def)
  moreover have "filed_in (b\<lparr>bd_tasks := ts\<rparr>) x = filed_in b x" for ts x by (simp add: filed_in_def)
  ultimately show ?thesis
    using inv r' task_refused_None(2) [OF r'(1)] by (simp add: board_inv_def distinct_map) auto
qed

lemma added_inv:
  assumes inv: "board_inv b" and r: "task_refused r b = None" "row_holds r" "tk_id r \<notin> tk_id ` set (bd_tasks b)"
  shows "board_inv (b\<lparr>bd_tasks := bd_tasks b @ [r]\<rparr>)"
proof -
  have "apart r x \<and> apart x r" if "x \<in> set (bd_tasks b)" for x
    using task_refused_None(3) [OF r(1) that] r(3) that by (metis image_eqI)
  moreover have "filed_in (b\<lparr>bd_tasks := ts\<rparr>) x = filed_in b x" for ts x by (simp add: filed_in_def)
  ultimately show ?thesis using inv r task_refused_None(2) [OF r(1)] by (auto simp: board_inv_def)
qed

lemma filtered_inv:
  assumes "board_inv b"
  shows "board_inv (b\<lparr>bd_tasks := filter P (bd_tasks b)\<rparr>)"
proof -
  have "filed_in (b\<lparr>bd_tasks := ts\<rparr>) x = filed_in b x" for ts x by (simp add: filed_in_def)
  then show ?thesis using assms by (auto simp: board_inv_def)
qed

lemma board_inv_parts:
  assumes "bd_tasks b' = bd_tasks b" "bd_milestones b' = bd_milestones b" "set (bd_projects b) \<subseteq> set (bd_projects b')"
  shows "board_inv b \<Longrightarrow> board_inv b'"
  using assms by (auto simp: board_inv_def filed_in_def)

lemma logged_parts [simp]:
  "bd_tasks (log_and_stage t b) = bd_tasks b" "bd_milestones (log_and_stage t b) = bd_milestones b"
  "bd_projects (log_and_stage t b) = bd_projects b"
  "bd_tasks (log_milestone m b) = bd_tasks b" "bd_milestones (log_milestone m b) = bd_milestones b"
  "bd_projects (log_milestone m b) = bd_projects b"
  by (simp_all add: log_and_stage_def log_milestone_def)

lemma logged_inv [simp]: "board_inv (log_and_stage t b) = board_inv b" "board_inv (log_milestone m b) = board_inv b"
  by (simp_all add: board_inv_def filed_in_def)

subsection \<open>Transactions on a task\<close>

text \<open>What a write of a row does when it lands.\<close>

definition rewritten :: "(task \<Rightarrow> task) \<Rightarrow> task_entity \<Rightarrow> plan_board \<Rightarrow> plan_board \<Rightarrow> bool" where
  "rewritten f t b b' \<longleftrightarrow> (\<exists>r r'. r \<in> set (bd_tasks b) \<and> row_hit t r \<and> r' = (f r)\<lparr>tk_version := tk_version r + 1\<rparr> \<and>
     task_refused r' b = None \<and> bd_tasks b' = map (\<lambda>x. if x = r then r' else x) (bd_tasks b) \<and>
     bd_milestones b' = bd_milestones b \<and> bd_projects b' = bd_projects b)"

lemma write_row_rewritten:
  assumes "board_inv b" "write_row f t b = Inr b'"
  shows "rewritten f t b b'"
proof -
  obtain r where r: "filter (row_hit t) (bd_tasks b) = [r]" "task_refused ((f r)\<lparr>tk_version := tk_version r + 1\<rparr>) b = None"
    "b' = b\<lparr>bd_tasks := map (\<lambda>x. if row_hit t x then (f r)\<lparr>tk_version := tk_version r + 1\<rparr> else x) (bd_tasks b)\<rparr>"
    using assms(2) by (auto simp: write_row_def Let_def split: list.splits option.splits)
  have mem: "x \<in> set (bd_tasks b) \<Longrightarrow> row_hit t x \<longleftrightarrow> x = r" "r \<in> set (bd_tasks b)" "row_hit t r" for x
    using arg_cong [OF r(1), of set] by auto
  then have "bd_tasks b' = map (\<lambda>x. if x = r then (f r)\<lparr>tk_version := tk_version r + 1\<rparr> else x) (bd_tasks b)"
    using r(3) by simp
  then show ?thesis using mem r unfolding rewritten_def
    by (intro exI [of _ r] exI [of _ "(f r)\<lparr>tk_version := tk_version r + 1\<rparr>"]) simp
qed

lemma task_refused_cong:
  "bd_tasks b' = bd_tasks b \<Longrightarrow> bd_milestones b' = bd_milestones b \<Longrightarrow> bd_projects b' = bd_projects b \<Longrightarrow>
     task_refused r b' = task_refused r b"
  by (simp only: task_refused_def)

lemma rewritten_log [simp]: "rewritten f t b (log_and_stage t' b') = rewritten f t b b'"
  by (simp add: rewritten_def)

lemma rewritten_keeps:
  assumes inv: "board_inv b" and w: "rewritten f t b b'"
    and f: "\<And>r. row_holds r \<Longrightarrow> row_hit t r \<Longrightarrow> is_rank (tk_rank (f r)) \<and> done_told (f r) \<and> tk_id (f r) = tk_id r"
  shows "board_inv b'"
proof -
  obtain r r' where r: "r \<in> set (bd_tasks b)" "row_hit t r" "r' = (f r)\<lparr>tk_version := tk_version r + 1\<rparr>" "task_refused r' b = None"
    "bd_tasks b' = map (\<lambda>x. if x = r then r' else x) (bd_tasks b)" "bd_milestones b' = bd_milestones b" "bd_projects b' = bd_projects b"
    using w unfolding rewritten_def by blast
  have "row_holds r" using inv r(1) by (simp add: board_inv_def)
  then have "row_holds r'" "tk_id r' = tk_id r"
    using f [of r] r(2,3) task_refused_None(1) [OF r(4)] by (simp_all add: row_holds_def done_told_def)
  then have "board_inv (b\<lparr>bd_tasks := map (\<lambda>x. if x = r then r' else x) (bd_tasks b)\<rparr>)"
    by (rule rewritten_inv [OF inv r(1,4)])
  then show ?thesis by (rule board_inv_parts [rotated 3]) (simp_all add: r)
qed

subsection \<open>Instances\<close>

text \<open>What stays of an instance through its operations.\<close>

definition same_instance :: "task_entity \<Rightarrow> task_entity \<Rightarrow> bool" where
  "same_instance t t' \<longleftrightarrow> tk_id t' = tk_id t \<and> tk_organization t' = tk_organization t \<and> te_expected t' = te_expected t"

definition same_place :: "task_entity \<Rightarrow> task_entity \<Rightarrow> bool" where
  "same_place t t' \<longleftrightarrow> same_instance t t' \<and> tk_status t' = tk_status t \<and> tk_rank t' = tk_rank t \<and> tk_completed t' = tk_completed t"

lemma same_place_refl [simp]: "same_place t t"
  by (simp add: same_place_def same_instance_def)

lemma same_place_trans: "same_place t t1 \<Longrightarrow> same_place t1 t2 \<Longrightarrow> same_place t t2"
  by (simp add: same_place_def same_instance_def)

lemma touched_sel [simp]:
  "tk_id (touched w t) = tk_id t" "tk_organization (touched w t) = tk_organization t" "te_expected (touched w t) = te_expected t"
  "tk_status (touched w t) = tk_status t" "tk_rank (touched w t) = tk_rank t" "tk_completed (touched w t) = tk_completed t"
  "tk_blocked_reason (touched w t) = tk_blocked_reason t" "te_sessions (touched w t) = te_sessions t"
  by (simp_all add: touched_def split: list.split)

lemma record_change_sel:
  "record_change now k t = Inr t' \<Longrightarrow> same_place t t' \<and> tk_blocked_reason t' = tk_blocked_reason t \<and>
     te_sessions t' = te_sessions t"
  by (auto simp: record_change_def same_place_def same_instance_def split: option.splits)

lemma touched_place [simp]: "same_place t (touched w t') = same_place t t'"
  by (simp add: same_place_def same_instance_def)

lemma map_sum_Inr: "map_sum g f x = Inr y \<longleftrightarrow> (\<exists>z. x = Inr z \<and> y = f z)"
  by (cases x) auto

lemma edit_fields_place: "same_place t (edit_fields ed t)"
  by (simp add: edit_fields_def Let_def same_place_def same_instance_def split: option.split)

lemma edit_task_place: "edit_task now ed t = Inr t' \<Longrightarrow> same_place t t'"
  using edit_fields_place [of t ed]
  by (auto simp: edit_task_def Let_def map_sum_Inr dest!: record_change_sel intro: same_place_trans split: option.splits if_splits)

lemma file_task_place: "file_task now p m t = Inr t' \<Longrightarrow> same_place t t'"
  by (auto simp: file_task_def Let_def map_sum_Inr same_place_def same_instance_def dest!: record_change_sel split: if_splits)

lemma block_task_place: "block_task now r t = Inr t' \<Longrightarrow> same_place t t'"
  by (auto simp: block_task_def Let_def map_sum_Inr same_place_def same_instance_def dest!: record_change_sel
      split: if_splits option.splits)

lemma update_task_place:
  assumes "update_task now active u rq b t = Some t'"
  shows "same_place t t'"
proof -
  obtain t1 where t1: "edit_task now (rq_edit rq) t = Inr t1"
    using assms by (auto simp: update_task_def split: sum.splits)
  let ?filed = "if rq_project rq = None \<and> rq_milestone rq = None then Some t1
     else (case resolve_filing active u (find_milestone (tk_organization t1) b)
                  (rq_project rq) (rq_milestone rq) (Some (tk_project t1, tk_milestone t1)) of
             Inl _ \<Rightarrow> None
           | Inr (p, m) \<Rightarrow> (case file_task now p m t1 of Inl _ \<Rightarrow> None | Inr t2 \<Rightarrow> Some t2))"
  obtain t2 where f: "?filed = Some t2"
    using assms t1 unfolding update_task_def by (cases ?filed) simp_all
  have t2: "same_place t1 t2" using f by (auto dest: file_task_place split: if_splits sum.splits)
  have "rq_blocked rq = None \<and> t' = t2 \<or> (\<exists>r. rq_blocked rq = Some r \<and> block_task now r t2 = Inr t')"
    using assms t1 f by (auto simp: update_task_def split: option.splits sum.splits)
  then have "same_place t2 t'" by (auto dest: block_task_place)
  then show ?thesis using edit_task_place [OF t1] t2 same_place_trans by blast
qed

lemma sync_place_Inr:
  assumes "sync_place status rank now t = Inr t'"
  shows "same_instance t t'" "tk_status t' = status" "tk_rank t' = rank" "done_told t \<Longrightarrow> done_told t'"
    "te_sessions t' = te_sessions t" "tk_blocked_reason t' = tk_blocked_reason t" "tk_blocked_at t' = tk_blocked_at t"
  using assms by (auto simp: sync_place_def Let_def same_instance_def done_told_def)

lemma place_task_Inr:
  assumes "place_task status rank now t = Inr t'"
  shows "same_instance t t'" "tk_status t' = status" "tk_rank t' = rank" "done_told t \<Longrightarrow> done_told t'"
    "te_sessions t' = te_sessions t" "status = Task_done \<Longrightarrow> tk_blocked_reason t' = None"
proof -
  obtain t1 where t1: "sync_place status rank now (t\<lparr>te_first_status := Some (case te_first_status t of None \<Rightarrow> tk_status t | Some s \<Rightarrow> s)\<rparr>) = Inr t1"
    using assms by (auto simp: place_task_def Let_def split: sum.splits)
  note s = sync_place_Inr [OF t1]
  have "same_instance t1 t' \<and> tk_status t' = tk_status t1 \<and> tk_rank t' = tk_rank t1 \<and> tk_completed t' = tk_completed t1 \<and>
      te_sessions t' = te_sessions t1 \<and> (status = Task_done \<longrightarrow> tk_blocked_reason t' = None)"
    using assms t1
    by (auto simp: place_task_def Let_def map_sum_Inr same_instance_def same_place_def
        dest!: record_change_sel split: sum.splits if_splits)
  then show "same_instance t t'" "tk_status t' = status" "tk_rank t' = rank" "done_told t \<Longrightarrow> done_told t'"
    "te_sessions t' = te_sessions t" "status = Task_done \<Longrightarrow> tk_blocked_reason t' = None"
    using s by (auto simp: same_instance_def done_told_def)
qed

lemma sync_place_kept: "sync_place status rank now t = Inr t' \<Longrightarrow> done_told t \<Longrightarrow> same_instance t t' \<and> done_told t'"
  by (simp add: sync_place_Inr)

lemma place_task_kept: "place_task status rank now t = Inr t' \<Longrightarrow> done_told t \<Longrightarrow> same_instance t t' \<and> done_told t'"
  by (simp add: place_task_Inr)

lemma attach_session_place: "attach_session now l t = Inr t' \<Longrightarrow> same_place t t'"
  by (auto simp: attach_session_def Let_def map_sum_Inr same_place_def same_instance_def dest!: record_change_sel split: if_splits)

lemma remove_task_place: "remove_task now t = Inr t' \<Longrightarrow> same_place t t'"
  by (auto simp: remove_task_def map_sum_Inr dest!: record_change_sel)

lemma detach_task_place: "same_place t (detach_task t)"
  by (simp add: detach_task_def)

lemma create_new_task_Inr:
  assumes "create_new_task uuid now c = Inr t"
  shows "tk_id t = uuid" "done_told t"
  using assms
  by (auto simp: create_new_task_def Let_def task_of_def task.defs acting_as_def same_place_def same_instance_def
      done_told_def dest!: record_change_sel split: option.splits sum.splits if_splits)

end
