(* ===== verification/Task_Inv.thy ===== *)
theory Task_Inv
  imports Task_Facts
begin

section \<open>What every run of the board keeps\<close>

subsection \<open>Places\<close>

lemma column_set: "set (column_of org status rows) = {r \<in> set rows. tk_organization r = org \<and> tk_status r = status}"
  by (auto simp: column_of_def)

lemma first_rank_Some: "first_rank P rows = Some k \<Longrightarrow> \<exists>r \<in> set rows. P r \<and> tk_rank r = k"
  by (auto simp: first_rank_def dest: find_SomeD)

lemma rank_for_valid:
  assumes "\<forall>r \<in> set rows. is_rank (tk_rank r)" "rank_for t p rows = Inr k"
  shows "is_rank k"
proof -
  have valid: "is_rank key" if "first_rank P (other_rows t (pl_status p) rows) = Some key \<or>
      first_rank P (rev (other_rows t (pl_status p) rows)) = Some key" for P key
    using that assms(1) by (auto dest!: first_rank_Some simp: other_rows_def column_set)
  show ?thesis
  proof (cases "pl_after p")
    case After_nothing
    then show ?thesis using assms(2) valid by (auto simp: rank_for_def Let_def map_sum_Inr dest!: rank_between_ok [THEN conjunct1, rotated 2])
  next
    case After_all
    then show ?thesis using assms(2) valid
      by (auto simp: rank_for_def Let_def map_sum_Inr split: option.splits dest!: rank_between_ok [THEN conjunct1, rotated 2])
  next
    case (After_task tid)
    then show ?thesis using assms(2) valid
      by (auto simp: rank_for_def Let_def map_sum_Inr split: option.splits dest!: rank_between_ok [THEN conjunct1, rotated 2])
  qed
qed

subsection \<open>Rows over time\<close>

text \<open>A row without where it is filed, which a milestone may move under it.\<close>

definition unfiled :: "task \<Rightarrow> task" where
  "unfiled r = r\<lparr>tk_project := [], tk_milestone := None\<rparr>"

definition later_row :: "task \<Rightarrow> task \<Rightarrow> bool" where
  "later_row r r' \<longleftrightarrow> tk_id r' = tk_id r \<and> tk_organization r' = tk_organization r \<and> tk_version r \<le> tk_version r' \<and>
     (tk_version r = tk_version r' \<longrightarrow> unfiled r = unfiled r')"

lemma later_refl [simp]: "later_row r r"
  by (simp add: later_row_def)

lemma later_trans: "later_row r r1 \<Longrightarrow> later_row r1 r2 \<Longrightarrow> later_row r r2"
  by (simp add: later_row_def)

definition follows :: "plan_board \<Rightarrow> plan_board \<Rightarrow> string set \<Rightarrow> bool" where
  "follows b b' new \<longleftrightarrow> (\<forall>r' \<in> set (bd_tasks b'). (\<exists>r \<in> set (bd_tasks b). later_row r r') \<or> tk_id r' \<in> new)"

lemma follows_mem: "r' \<in> set (bd_tasks b) \<Longrightarrow> \<exists>r \<in> set (bd_tasks b). later_row r r'"
  by (blast intro: later_refl)

lemma follows_same: "bd_tasks b' = bd_tasks b \<Longrightarrow> follows b b' {}"
  by (simp add: follows_def) (blast intro: later_refl)

lemma follows_log [simp]: "follows b (log_and_stage t b') new = follows b b' new" "follows b (log_milestone m b') new = follows b b' new"
  by (simp_all add: follows_def)

lemma rewritten_follows:
  assumes "rewritten f t b b'" "\<And>r. row_hit t r \<Longrightarrow> tk_id (f r) = tk_id r \<and> tk_organization (f r) = tk_organization r"
  shows "follows b b' {}"
  using assms by (force simp: rewritten_def follows_def later_row_def)

subsection \<open>Transactions\<close>

lemma set_place_keeps:
  assumes "same_instance t t'" "is_rank (tk_rank t')" "done_told t'"
  shows "is_rank (tk_rank (set_place t' r)) \<and> done_told (set_place t' r) \<and> tk_id (set_place t' r) = tk_id r"
    "tk_id (set_place t' r) = tk_id r \<and> tk_organization (set_place t' r) = tk_organization r"
  using assms by (simp_all add: set_place_def done_told_def)

lemma set_fields_keeps:
  "row_holds r \<Longrightarrow> is_rank (tk_rank (set_fields t r)) \<and> done_told (set_fields t r) \<and> tk_id (set_fields t r) = tk_id r"
  "tk_id (set_fields t r) = tk_id r \<and> tk_organization (set_fields t r) = tk_organization r"
  by (simp_all add: set_fields_def done_told_def row_holds_def)

lemma row_id_keeps: "row_holds r \<Longrightarrow> is_rank (tk_rank (id r)) \<and> done_told (id r) \<and> tk_id (id r) = tk_id r"
  by (simp add: row_holds_def)

definition ranks_read :: "task list \<Rightarrow> bool" where
  "ranks_read rows \<longleftrightarrow> (\<forall>r \<in> set rows. is_rank (tk_rank r))"

lemma place_attempt_cases:
  assumes "place_attempt work p rows now t b = (t', r)" "done_told t" "ranks_read rows"
  shows "same_instance t t' \<and> done_told t' \<and>
    (\<forall>b'. r = Inr b' \<longrightarrow> (\<exists>k b1. rank_for t p rows = Inr k \<and> is_rank k \<and> place_task (pl_status p) k now t = Inr t' \<and>
       tk_rank t' = k \<and> tk_status t' = pl_status p \<and> work t' b = Inr b1 \<and> b' = log_and_stage t' b1))"
proof (cases "rank_for t p rows")
  case (Inl e)
  then show ?thesis using assms by (auto simp: place_attempt_def same_instance_def)
next
  case (Inr k)
  then have "is_rank k" using rank_for_valid assms(3) by (auto simp: ranks_read_def)
  show ?thesis
  proof (cases "place_task (pl_status p) k now t")
    case (Inl e)
    then show ?thesis using Inr assms by (auto simp: place_attempt_def same_instance_def)
  next
    case r: (Inr t1)
    then show ?thesis using Inr \<open>is_rank k\<close> assms place_task_Inr [OF r] by (auto simp: place_attempt_def map_sum_Inr)
  qed
qed

lemma move_task_keeps:
  assumes inv: "board_inv b" and t: "done_told t" "ranks_read rows" and move: "move_task p rows now t b = (t', Inr b')"
  shows "\<exists>b1. rewritten (set_place t') t' b b1 \<and> b' = log_and_stage t' b1 \<and> board_inv b' \<and> follows b b' {} \<and> same_instance t t'"
proof -
  from place_attempt_cases [OF move [unfolded move_task_def] t] obtain b1
    where p: "same_instance t t'" "done_told t'" "is_rank (tk_rank t')" "write_row (set_place t') t' b = Inr b1" "b' = log_and_stage t' b1"
    by blast
  note w = write_row_rewritten [OF inv p(4)]
  have "board_inv b1" by (rule rewritten_keeps [OF inv w]) (use set_place_keeps [OF p(1,3,2)] in blast)
  moreover have "follows b b1 {}" by (rule rewritten_follows [OF w]) (use set_place_keeps [OF p(1,3,2)] in blast)
  ultimately show ?thesis using w p by auto
qed

lemma insert_task_keeps:
  assumes inv: "board_inv b" and t: "done_told t" "ranks_read rows" and ins: "insert_task p rows now t b = (t', Inr b')"
  shows "board_inv b' \<and> follows b b' {tk_id t} \<and> same_instance t t' \<and> tk_id t \<notin> tk_id ` set (bd_tasks b)"
proof -
  from place_attempt_cases [OF ins [unfolded insert_task_def] t] obtain b1
    where p: "same_instance t t'" "done_told t'" "is_rank (tk_rank t')" "insert_row t' b = Inr b1" "b' = log_and_stage t' b1"
    by blast
  let ?r = "task.truncate t'"
  have r: "tk_id t' \<notin> tk_id ` set (bd_tasks b)" "task_refused ?r b = None" "b1 = b\<lparr>bd_tasks := bd_tasks b @ [?r]\<rparr>"
    using p(4) by (auto simp: insert_row_def list_ex_iff split: if_splits option.splits)
  have "row_holds ?r" using p task_refused_None(1) [OF r(2)] by (simp add: row_holds_def done_told_def task.truncate_def)
  moreover have "tk_id ?r = tk_id t'" by (simp add: task.truncate_def)
  ultimately have "board_inv b1" using added_inv [OF inv r(2)] r by simp
  moreover have "follows b b1 {tk_id t}" using r(3) p(1)
    by (auto simp: follows_def same_instance_def task.truncate_def intro: follows_mem)
  ultimately show ?thesis using p r by (auto simp: same_instance_def)
qed

lemma save_fields_keeps:
  assumes inv: "board_inv b" and save: "save_fields t b = Inr b'"
  shows "board_inv b' \<and> follows b b' {}"
proof -
  obtain b1 where b1: "write_row (set_fields t) t b = Inr b1" "b' = log_and_stage t b1" using save by (auto simp: save_fields_def map_sum_Inr)
  note w = write_row_rewritten [OF inv b1(1)]
  have "board_inv b1" by (rule rewritten_keeps [OF inv w]) (use set_fields_keeps in blast)
  moreover have "follows b b1 {}" by (rule rewritten_follows [OF w]) (use set_fields_keeps in blast)
  ultimately show ?thesis using b1 by simp
qed

lemma delete_task_keeps:
  assumes "board_inv b" "delete_task now t b = Inr b'"
  shows "board_inv b' \<and> follows b b' {}"
proof -
  obtain t' where b': "bd_tasks b' = filter (\<lambda>r. \<not> row_hit t' r) (bd_tasks b)" "bd_milestones b' = bd_milestones b"
    "bd_projects b' = bd_projects b"
    using assms(2) by (auto simp: delete_task_def split: sum.splits if_splits)
  then have "board_inv b'"
    by (intro board_inv_parts [OF _ _ _ filtered_inv [OF assms(1), of "\<lambda>r. \<not> row_hit t' r"]]) simp_all
  then show ?thesis using b' by (simp add: follows_def) (blast intro: later_refl)
qed

lemma links_inv [simp]: "board_inv (b\<lparr>bd_links := ls\<rparr>) = board_inv b"
  by (simp add: board_inv_def filed_in_def)

lemma follows_links: "bd_tasks b1 = bd_tasks b \<Longrightarrow> follows b1 b' new = follows b b' new"
  by (simp add: follows_def)

lemma detach_keeps:
  assumes inv: "board_inv b" and d: "detach_session sid t b = Inr b'"
  shows "board_inv b' \<and> follows b b' {}"
proof -
  define b0 where "b0 = b\<lparr>bd_links := filter (\<lambda>(o1, t1, x). \<not> (o1 = tk_organization t \<and> t1 = tk_id t \<and> tl_session x = sid)) (bd_links b)\<rparr>"
  obtain b1 where b1: "write_row id (detach_task t) b0 = Inr b1" "b' = log_and_stage (detach_task t) b1"
    using d by (auto simp: detach_session_def Let_def map_sum_Inr b0_def)
  have b0: "board_inv b0" "bd_tasks b0 = bd_tasks b" using inv by (simp_all add: b0_def)
  note w = write_row_rewritten [OF b0(1) b1(1)]
  have "board_inv b1" by (rule rewritten_keeps [OF b0(1) w]) (use row_id_keeps in blast)
  moreover have "follows b0 b1 {}" by (rule rewritten_follows [OF w]) simp
  ultimately show ?thesis using b1 follows_links [OF b0(2)] by simp
qed

lemma insert_link_sel:
  assumes "insert_link now t l b = Inr b1"
  shows "bd_tasks b1 = bd_tasks b" "bd_milestones b1 = bd_milestones b" "bd_projects b1 = bd_projects b"
  using assms by (auto simp: insert_link_def split: if_splits)

text \<open>What an attachment that lands has done to the row.\<close>

lemma attach_attempt_cases:
  assumes inv: "board_inv b" and t: "done_told t" "ranks_read rows"
    and a: "attach_attempt l seen rows now t b = (t', Inr b')" and locked: "find_task (tk_organization t) (tk_id t) b = Some r0"
  shows "\<exists>b0 b1 t2. bd_tasks b0 = bd_tasks b \<and> board_inv b0 \<and> same_instance t t2 \<and> same_instance t t' \<and> done_told t' \<and>
    bd_tasks b' = bd_tasks b1 \<and> board_inv b' = board_inv b1 \<and>
    (if seen \<in> set task_statuses_before_work \<and> tk_status r0 = seen
     then rewritten (set_place t2) t2 b0 b1 \<and> tk_status t2 = Task_doing \<and> is_rank (tk_rank t2) \<and> done_told t2 \<and>
       rank_for t first_in_doing rows = Inr (tk_rank t2)
     else rewritten id t2 b0 b1)"
proof -
  obtain t1 b0 where t1: "sync_place (tk_status r0) (tk_rank r0) now t = Inr t1" and b0: "insert_link now t1 l b = Inr b0"
    using a locked by (auto simp: attach_attempt_def split: sum.splits)
  note s1 = sync_place_Inr [OF t1]
  have inv0: "board_inv b0" by (rule board_inv_parts [OF _ _ _ inv]) (simp_all add: insert_link_sel [OF b0])
  have starts: "starts_work_on_attach seen t1 \<longleftrightarrow> seen \<in> set task_statuses_before_work \<and> tk_status r0 = seen"
    using s1 by (simp add: starts_work_on_attach_def)
  have same_column: "rank_for t1 first_in_doing rows = rank_for t first_in_doing rows"
    using s1(1) by (simp add: rank_for_def other_rows_def same_instance_def)
  have ends: "same_place t2 t'" "bd_tasks b' = bd_tasks b1" "board_inv b' = board_inv b1"
    if "attach_session now l t2 = Inr t'" "b' = log_and_stage t' b1" for t2 b1
    using that attach_session_place by auto
  show ?thesis
  proof (cases "starts_work_on_attach seen t1")
    case True
    then obtain k t2 b1 where k: "rank_for t1 first_in_doing rows = Inr k" "place_task Task_doing k now t1 = Inr t2"
      "write_row (set_place t2) t2 b0 = Inr b1" "attach_session now l t2 = Inr t'" "b' = log_and_stage t' b1"
      using a locked t1 b0 by (auto simp: attach_attempt_def split: sum.splits)
    note p = place_task_Inr [OF k(2)] and w = write_row_rewritten [OF inv0 k(3)]
    have "is_rank k" using rank_for_valid k(1) t(2) by (auto simp: ranks_read_def)
    then show ?thesis using True starts w p s1 t(1) k same_column ends [OF k(4,5)] insert_link_sel(1) [OF b0] inv0
      by (intro exI [of _ b0] exI [of _ b1] exI [of _ t2]) (auto simp: same_instance_def same_place_def done_told_def)
  next
    case False
    then obtain b1 where k: "write_row id t1 b0 = Inr b1" "attach_session now l t1 = Inr t'" "b' = log_and_stage t' b1"
      using a locked t1 b0 by (auto simp: attach_attempt_def split: sum.splits)
    note w = write_row_rewritten [OF inv0 k(1)]
    show ?thesis using False starts w s1 t(1) ends [OF k(2,3)] insert_link_sel(1) [OF b0] inv0
      by (intro exI [of _ b0] exI [of _ b1] exI [of _ t1]) (auto simp: same_instance_def same_place_def done_told_def)
  qed
qed

lemma attach_keeps:
  assumes inv: "board_inv b" and t: "done_told t" "ranks_read rows" and a: "attach_attempt l seen rows now t b = (t', Inr b')"
  shows "board_inv b' \<and> follows b b' {}"
proof (cases "find_task (tk_organization t) (tk_id t) b")
  case None
  then show ?thesis using a inv follows_same by (auto simp: attach_attempt_def)
next
  case (Some r0)
  from attach_attempt_cases [OF inv t a Some] obtain b0 b1 t2
    where c: "bd_tasks b0 = bd_tasks b" "board_inv b0" "same_instance t t2" "bd_tasks b' = bd_tasks b1" "board_inv b' = board_inv b1"
      "rewritten (set_place t2) t2 b0 b1 \<and> is_rank (tk_rank t2) \<and> done_told t2 \<or> rewritten id t2 b0 b1"
    by (metis (full_types))
  have "board_inv b1 \<and> follows b0 b1 {}" using c(6)
  proof
    assume w: "rewritten (set_place t2) t2 b0 b1 \<and> is_rank (tk_rank t2) \<and> done_told t2"
    show ?thesis
      by (intro conjI rewritten_keeps [OF c(2) conjunct1 [OF w]] rewritten_follows [OF conjunct1 [OF w]])
        (use set_place_keeps [of t2 t2] w in \<open>auto simp: same_instance_def\<close>)
  next
    assume w: "rewritten id t2 b0 b1"
    show ?thesis by (intro conjI rewritten_keeps [OF c(2) w] rewritten_follows [OF w]) (use row_id_keeps in auto)
  qed
  then show ?thesis using c by (simp add: follows_def)
qed

lemma attempt_instance:
  assumes "done_told t" "ranks_read rows" "attach_attempt l seen rows now t b = (t', Inl e)"
  shows "same_instance t t' \<and> done_told t'"
  using assms
  by (auto simp: attach_attempt_def starts_work_on_attach_def split: option.splits sum.splits if_splits
      dest!: sync_place_kept place_task_kept simp: same_instance_def)

subsection \<open>Milestones\<close>

lemma unfiled_same:
  assumes "unfiled r = unfiled r'"
  shows "tk_id r = tk_id r'" "place_of r = place_of r'" "tk_idempotency r = tk_idempotency r'"
    "tk_organization r = tk_organization r'" "row_holds r = row_holds r'" "tk_version r = tk_version r'"
  using arg_cong [OF assms, of tk_id] arg_cong [OF assms, of tk_organization] arg_cong [OF assms, of tk_status]
    arg_cong [OF assms, of tk_rank] arg_cong [OF assms, of tk_idempotency] arg_cong [OF assms, of tk_completed]
    arg_cong [OF assms, of tk_version]
  by (simp_all add: unfiled_def place_of_def row_holds_def done_told_def)

lemma refiled_keeps:
  assumes inv: "board_inv b" and f: "\<And>r. unfiled (f r) = unfiled r" "bd_tasks b' = map f (bd_tasks b)"
    and filed: "\<And>r. r \<in> set (bd_tasks b) \<Longrightarrow> filed_in b' (f r)" and ms: "distinct (map ms_id (bd_milestones b'))"
  shows "board_inv b' \<and> follows b b' {}"
proof
  note same = unfiled_same [OF f(1)]
  have "inj_on f (set (bd_tasks b))"
    using board_ids [OF inv] same(1) by (metis inj_onI)
  moreover have "apart (f r) (f s) \<longleftrightarrow> apart r s" for r s by (simp add: apart_def same)
  ultimately show "board_inv b'" using inv f(2) filed ms same(5) by (auto simp: board_inv_def distinct_map)
  have "later_row r (f r)" for r using f(1) [of r] by (simp add: later_row_def same)
  then show "follows b b' {}" using f(2) by (auto simp: follows_def)
qed

lemma one_milestone:
  assumes "board_inv b" "length (filter (milestone_hit m) (bd_milestones b)) = 1"
  obtains r where "r \<in> set (bd_milestones b)" "ms_id r = ms_id m" "ms_organization r = ms_organization m"
    "\<And>x. x \<in> set (bd_milestones b) \<Longrightarrow> milestone_hit m x \<longleftrightarrow> x = r"
    "\<And>x. x \<in> set (bd_milestones b) \<Longrightarrow> ms_id x = ms_id m \<longleftrightarrow> x = r"
proof -
  obtain r where r: "filter (milestone_hit m) (bd_milestones b) = [r]"
    using assms(2) by (auto simp: length_Suc_conv)
  have hit: "x \<in> set (bd_milestones b) \<Longrightarrow> milestone_hit m x \<longleftrightarrow> x = r" "r \<in> set (bd_milestones b)" "milestone_hit m r" for x
    using arg_cong [OF r, of set] by auto
  have "inj_on ms_id (set (bd_milestones b))" using assms(1) by (simp add: board_inv_def distinct_map)
  then have ids: "x \<in> set (bd_milestones b) \<Longrightarrow> ms_id x = ms_id m \<longleftrightarrow> x = r" for x
    using hit by (metis inj_onD milestone_hit_def)
  show thesis using that [of r] hit ids by (auto simp: milestone_hit_def)
qed

lemma save_milestone_keeps:
  assumes inv: "board_inv b" and save: "save_milestone m b = Inr b'"
  shows "board_inv b' \<and> follows b b' {}"
proof -
  let ?f = "\<lambda>r. if tk_organization r = ms_organization m \<and> tk_milestone r = Some (ms_id m) then r\<lparr>tk_project := ms_project m\<rparr> else r"
  let ?g = "\<lambda>r. if milestone_hit m r then r\<lparr>ms_name := ms_name m, ms_target := ms_target m, ms_project := ms_project m,
    ms_version := ms_version r + 1\<rparr> else r"
  have one: "length (filter (milestone_hit m) (bd_milestones b)) = 1"
    and p: "(ms_organization m, ms_project m) \<in> set (bd_projects b)"
    and b': "bd_tasks b' = map ?f (bd_tasks b)" "bd_milestones b' = map ?g (bd_milestones b)" "bd_projects b' = bd_projects b"
    using save by (auto simp: save_milestone_def split: if_splits)
  obtain m0 where m0: "m0 \<in> set (bd_milestones b)" "ms_id m0 = ms_id m" "ms_organization m0 = ms_organization m"
    "\<And>x. x \<in> set (bd_milestones b) \<Longrightarrow> milestone_hit m x \<longleftrightarrow> x = m0"
    "\<And>x. x \<in> set (bd_milestones b) \<Longrightarrow> ms_id x = ms_id m \<longleftrightarrow> x = m0" by (rule one_milestone [OF inv one]) blast
  show ?thesis
  proof (rule refiled_keeps [OF inv _ b'(1)])
    show "unfiled (?f r) = unfiled r" for r by (simp add: unfiled_def)
    have "map ms_id (map ?g (bd_milestones b)) = map ms_id (bd_milestones b)" by simp
    then show "distinct (map ms_id (bd_milestones b'))" using inv b'(2) by (simp only: board_inv_def)
    fix r assume r: "r \<in> set (bd_tasks b)"
    then have filed: "filed_in b r" using inv by (simp add: board_inv_def)
    show "filed_in b' (?f r)"
    proof (cases "tk_organization r = ms_organization m \<and> tk_milestone r = Some (ms_id m)")
      case True
      have hit: "milestone_hit m m0" using m0(4) [OF m0(1)] by simp
      have "?g m0 \<in> set (bd_milestones b')" unfolding b'(2) set_map by (rule imageI [OF m0(1)])
      moreover have "ms_project (?g m0) = ms_project m" "ms_id (?g m0) = ms_id m" "ms_organization (?g m0) = ms_organization m"
        using hit m0(2,3) by simp_all
      ultimately show ?thesis using True p b'(3) by (auto simp: filed_in_def)
    next
      case False
      have "\<exists>x \<in> set (bd_milestones b'). ms_organization x = tk_organization r \<and> ms_id x = i \<and> ms_project x = tk_project r"
        if i: "tk_milestone r = Some i" for i
      proof -
        obtain x where x: "x \<in> set (bd_milestones b)" "ms_organization x = tk_organization r" "ms_id x = i" "ms_project x = tk_project r"
          using filed i by (auto simp: filed_in_def)
        then have "x \<noteq> m0" using False i m0(2,3) by auto
        then have "?g x = x" using m0(4) [OF x(1)] by simp
        moreover have "?g x \<in> set (bd_milestones b')" unfolding b'(2) set_map by (rule imageI [OF x(1)])
        ultimately have "x \<in> set (bd_milestones b')" by (simp only:)
        then show ?thesis by (rule bexI [rotated]) (simp add: x)
      qed
      then show ?thesis using False filed b'(3) by (cases "tk_milestone r") (auto simp: filed_in_def)
    qed
  qed
qed

lemma delete_milestone_keeps:
  assumes inv: "board_inv b" and del: "delete_milestone now m b = Inr b'"
  shows "board_inv b' \<and> follows b b' {}"
proof -
  let ?f = "\<lambda>r. if tk_organization r = ms_organization m \<and> tk_milestone r = Some (ms_id m) then r\<lparr>tk_milestone := None\<rparr> else r"
  obtain m' where m': "remove_milestone now m = Inr m'" "length (filter (milestone_hit m') (bd_milestones b)) = 1"
    and b': "bd_tasks b' = map ?f (bd_tasks b)" "bd_milestones b' = filter (\<lambda>r. \<not> milestone_hit m' r) (bd_milestones b)"
      "bd_projects b' = bd_projects b"
    using del by (auto simp: delete_milestone_def split: sum.splits if_splits)
  have same: "ms_id m' = ms_id m" "ms_organization m' = ms_organization m"
    using m'(1) by (auto simp: remove_milestone_def record_milestone_def milestone_touched_def map_sum_Inr split: option.splits if_splits)
  obtain m0 where m0: "m0 \<in> set (bd_milestones b)" "ms_id m0 = ms_id m'" "ms_organization m0 = ms_organization m'"
    "\<And>x. x \<in> set (bd_milestones b) \<Longrightarrow> milestone_hit m' x \<longleftrightarrow> x = m0"
    "\<And>x. x \<in> set (bd_milestones b) \<Longrightarrow> ms_id x = ms_id m' \<longleftrightarrow> x = m0" by (rule one_milestone [OF inv m'(2)]) blast
  show ?thesis
  proof (rule refiled_keeps [OF inv _ b'(1)])
    show "unfiled (?f r) = unfiled r" for r by (simp add: unfiled_def)
    show "distinct (map ms_id (bd_milestones b'))" using inv b'(2) by (simp add: board_inv_def distinct_map_filter)
    fix r assume r: "r \<in> set (bd_tasks b)"
    then have filed: "filed_in b r" using inv by (simp add: board_inv_def)
    show "filed_in b' (?f r)"
    proof (cases "tk_organization r = ms_organization m \<and> tk_milestone r = Some (ms_id m)")
      case True
      then show ?thesis using filed b'(3) by (simp add: filed_in_def)
    next
      case False
      have "x \<in> set (bd_milestones b')" if "x \<in> set (bd_milestones b)" "ms_organization x = tk_organization r" "tk_milestone r = Some (ms_id x)" for x
        using that False m0 same b'(2) by auto
      then show ?thesis using False filed b'(3) by (cases "tk_milestone r") (auto simp: filed_in_def)
    qed
  qed
qed

lemma insert_milestone_keeps:
  assumes inv: "board_inv b" and ins: "insert_milestone m b = Inr b'"
  shows "board_inv b' \<and> follows b b' {}"
proof -
  have b': "bd_tasks b' = bd_tasks b" "bd_milestones b' = bd_milestones b @ [milestone.truncate m]" "bd_projects b' = bd_projects b"
    "ms_id m \<notin> ms_id ` set (bd_milestones b)"
    using ins by (auto simp: insert_milestone_def list_ex_iff split: if_splits)
  then show ?thesis using inv by (auto simp: board_inv_def filed_in_def milestone.truncate_def intro: follows_same)
qed

subsection \<open>The system\<close>

text \<open>
  What a hand keeps to the table: it was read from a row that has only moved on, under an id no new task
  has.
\<close>

definition hand_fits :: "plan_board \<Rightarrow> task_hand \<Rightarrow> bool" where
  "hand_fits b h \<longleftrightarrow> done_told (hd_task h) \<and>
     (\<forall>r0 \<in> set_option (hd_read h). tk_id (hd_task h) = tk_id r0 \<and> tk_organization (hd_task h) = tk_organization r0 \<and>
        (\<forall>r \<in> set (bd_tasks b). tk_id r = tk_id r0 \<longrightarrow> later_row r0 r))"

definition new_ids :: "task_hand list \<Rightarrow> string list" where
  "new_ids hs = map (\<lambda>h. tk_id (hd_task h)) (filter (\<lambda>h. hd_read h = None) hs)"

definition read_ids :: "task_hand list \<Rightarrow> string set" where
  "read_ids hs = {tk_id (hd_task h) |h. h \<in> set hs \<and> hd_read h \<noteq> None}"

definition plan_inv :: "plan_system \<Rightarrow> bool" where
  "plan_inv S \<longleftrightarrow> board_inv (ps_board S) \<and> list_all ranks_read (ps_seen S) \<and>
     list_all (hand_fits (ps_board S)) (ps_hands S) \<and> distinct (new_ids (ps_hands S)) \<and>
     set (new_ids (ps_hands S)) \<inter> (read_ids (ps_hands S) \<union> tk_id ` set (bd_tasks (ps_board S))) = {} \<and>
     set (new_ids (ps_hands S)) \<union> read_ids (ps_hands S) \<union> tk_id ` set (bd_tasks (ps_board S)) \<subseteq> set (ps_used S)"

lemma set_drop_nth: "set (drop_nth i xs) \<subseteq> set xs"
  by (auto simp: drop_nth_def dest: in_set_takeD in_set_dropD)

lemma drop_nth_split: "i < length xs \<Longrightarrow> \<exists>pre post. xs = pre @ xs ! i # post \<and> drop_nth i xs = pre @ post"
  by (intro exI [of _ "take i xs"] exI [of _ "drop (Suc i) xs"]) (simp add: drop_nth_def id_take_nth_drop [symmetric])

lemma new_ids_drop: "distinct (new_ids hs) \<Longrightarrow> distinct (new_ids (drop_nth i hs))"
proof (cases "i < length hs")
  case True
  assume "distinct (new_ids hs)"
  moreover obtain pre post where "hs = pre @ hs ! i # post" "drop_nth i hs = pre @ post" using drop_nth_split [OF True] by blast
  moreover have "distinct (new_ids (pre @ h # post)) \<Longrightarrow> distinct (new_ids (pre @ post))" for h
    by (auto simp: new_ids_def split: if_splits)
  ultimately show ?thesis by metis
qed (simp add: drop_nth_def)

lemma hand_follows:
  assumes "hand_fits b h" "follows b b' new" "tk_id (hd_task h) \<notin> new \<or> hd_read h = None"
  shows "hand_fits b' h"
  unfolding hand_fits_def
proof (intro conjI ballI impI)
  show "done_told (hd_task h)" using assms(1) by (simp add: hand_fits_def)
next
  fix r0 assume r0: "r0 \<in> set_option (hd_read h)"
  then have h: "tk_id (hd_task h) = tk_id r0" "tk_organization (hd_task h) = tk_organization r0"
    "\<And>r. r \<in> set (bd_tasks b) \<Longrightarrow> tk_id r = tk_id r0 \<Longrightarrow> later_row r0 r" using assms(1) by (auto simp: hand_fits_def)
  then show "tk_id (hd_task h) = tk_id r0" "tk_organization (hd_task h) = tk_organization r0" by simp_all
  fix r' assume r': "r' \<in> set (bd_tasks b')" "tk_id r' = tk_id r0"
  then have "tk_id r' \<notin> new" using assms(3) r0 h by auto
  then obtain r where "r \<in> set (bd_tasks b)" "later_row r r'" using assms(2) r'(1) by (auto simp: follows_def)
  then show "later_row r0 r'" using h(3) [of r] r'(2) later_trans by (auto simp: later_row_def)
qed

text \<open>A transaction of a hand that lands, or of none.\<close>

lemma landed_plan:
  assumes inv: "plan_inv S" and b': "board_inv b'" "follows (ps_board S) b' {}" and hs: "set hs \<subseteq> set (ps_hands S)"
    "distinct (new_ids hs)"
  shows "plan_inv (S\<lparr>ps_board := b', ps_hands := hs\<rparr>)"
proof -
  have ids: "tk_id ` set (bd_tasks b') \<subseteq> tk_id ` set (bd_tasks (ps_board S))"
    using b'(2) by (force simp: follows_def later_row_def)
  have new: "set (new_ids hs) \<subseteq> set (new_ids (ps_hands S))" "read_ids hs \<subseteq> read_ids (ps_hands S)"
    using hs(1) by (auto simp: new_ids_def read_ids_def)
  have fits: "list_all (hand_fits b') hs"
    using inv hs(1) b'(2) by (auto simp: plan_inv_def list_all_iff intro: hand_follows)
  have apart: "set (new_ids (ps_hands S)) \<inter> (read_ids (ps_hands S) \<union> tk_id ` set (bd_tasks (ps_board S))) = {}"
    using inv unfolding plan_inv_def by (elim conjE)
  have used: "set (new_ids (ps_hands S)) \<union> read_ids (ps_hands S) \<union> tk_id ` set (bd_tasks (ps_board S)) \<subseteq> set (ps_used S)"
    using inv unfolding plan_inv_def by (elim conjE)
  have "set (new_ids hs) \<inter> (read_ids hs \<union> tk_id ` set (bd_tasks b')) = {}"
    using Int_mono [OF new(1) Un_mono [OF new(2) ids]] unfolding apart by (rule subset_empty [THEN iffD1])
  moreover have "set (new_ids hs) \<union> read_ids hs \<union> tk_id ` set (bd_tasks b') \<subseteq> set (ps_used S)"
    using Un_mono [OF Un_mono [OF new] ids] used by (rule order_trans)
  ultimately show ?thesis using inv b'(1) hs(2) fits by (simp add: plan_inv_def)
qed

section \<open>Every step of the board keeps its invariant\<close>

text \<open>
  The steps of \<open>plan_apply\<close> one kind at a time: a request that ends, a new task that lands, an instance
  that goes on to its next attempt, and instances that come. The board is a \<open>kept_system\<close>.
\<close>

subsection \<open>Hands\<close>

lemma plan_invD:
  assumes "plan_inv S"
  shows "board_inv (ps_board S)" "list_all ranks_read (ps_seen S)" "list_all (hand_fits (ps_board S)) (ps_hands S)"
    "distinct (new_ids (ps_hands S))"
    "set (new_ids (ps_hands S)) \<inter> (read_ids (ps_hands S) \<union> tk_id ` set (bd_tasks (ps_board S))) = {}"
    "set (new_ids (ps_hands S)) \<union> read_ids (ps_hands S) \<union> tk_id ` set (bd_tasks (ps_board S)) \<subseteq> set (ps_used S)"
  using assms unfolding plan_inv_def by - (elim conjE, assumption)+

lemma hand_of: "plan_inv S \<Longrightarrow> i < length (ps_hands S) \<Longrightarrow> hand_fits (ps_board S) (ps_hands S ! i) \<and> done_told (hd_task (ps_hands S ! i))"
  using plan_invD(3) [of S] by (simp add: list_all_length hand_fits_def)

lemma settled_keeps:
  assumes "plan_inv S" "\<And>b'. r = Inr b' \<Longrightarrow> board_inv b' \<and> follows (ps_board S) b' {}"
  shows "plan_inv (settled_hand i r S)"
proof -
  have "board_inv b' \<and> follows (ps_board S) b' {}" if "b' = (case r of Inl _ \<Rightarrow> ps_board S | Inr b \<Rightarrow> b)" for b'
    using that assms(2) plan_invD(1) [OF assms(1)] follows_same by (cases r) auto
  then show ?thesis unfolding settled_hand_def
    by (intro landed_plan [OF assms(1) _ _ set_drop_nth new_ids_drop [OF plan_invD(4) [OF assms(1)]]]) simp_all
qed

lemma read_ids_Cons: "read_ids (h # hs) = (if hd_read h = None then {} else {tk_id (hd_task h)}) \<union> read_ids hs"
  by (auto simp: read_ids_def)

lemma read_ids_append: "read_ids (hs @ hs') = read_ids hs \<union> read_ids hs'"
  by (induction hs) (simp_all add: read_ids_Cons Un_assoc, simp add: read_ids_def)

lemma new_ids_update:
  assumes "i < length hs" "hd_read h = hd_read (hs ! i)" "tk_id (hd_task h) = tk_id (hd_task (hs ! i))"
  shows "new_ids (hs[i := h]) = new_ids hs" "read_ids (hs[i := h]) = read_ids hs"
proof -
  let ?f = "\<lambda>h. (hd_read h = None, tk_id (hd_task h))"
  have same: "map ?f (hs[i := h]) = map ?f hs" using assms by (simp add: map_update list_update_same_conv)
  have n: "new_ids xs = map snd (filter fst (map ?f xs))" for xs by (induction xs) (simp_all add: new_ids_def)
  have r: "read_ids xs = set (map snd (filter (\<lambda>p. \<not> fst p) (map ?f xs)))" for xs
    by (induction xs) (auto simp: read_ids_Cons, simp add: read_ids_def)
  show "new_ids (hs[i := h]) = new_ids hs" "read_ids (hs[i := h]) = read_ids hs" by (simp_all only: n r same)
qed

lemma held_keeps:
  assumes inv: "plan_inv S" and i: "i < length (ps_hands S)"
    and h: "hd_read h = hd_read (ps_hands S ! i)" "same_instance (hd_task (ps_hands S ! i)) (hd_task h)" "done_told (hd_task h)"
  shows "plan_inv (S\<lparr>ps_hands := (ps_hands S)[i := h]\<rparr>)"
proof -
  have id: "tk_id (hd_task h) = tk_id (hd_task (ps_hands S ! i))" using h(2) by (simp add: same_instance_def)
  have "hand_fits (ps_board S) h" using hand_of [OF inv i] h by (simp add: hand_fits_def same_instance_def)
  then have "list_all (hand_fits (ps_board S)) ((ps_hands S)[i := h])"
    using plan_invD(3) [OF inv] set_update_subset_insert [of "ps_hands S" i h] by (auto simp: list_all_iff)
  then show ?thesis using plan_invD [OF inv] by (simp add: plan_inv_def new_ids_update [OF i h(1) id])
qed

lemma attempted_keeps:
  assumes inv: "plan_inv S" and i: "i < length (ps_hands S)" and h: "h = ps_hands S ! i"
    and held: "\<And>e. snd tr = Inl e \<Longrightarrow> same_instance (hd_task h) (fst tr) \<and> done_told (fst tr)"
    and landed: "\<And>b'. snd tr = Inr b' \<Longrightarrow> board_inv b' \<and> follows (ps_board S) b' {}"
  shows "plan_inv (attempted i h tr S)"
proof (cases "lost_key (snd tr) \<and> hd_lost h + 1 < rank_attempts")
  case True
  then obtain e where "snd tr = Inl e" by (cases "snd tr") (auto simp: lost_key_def)
  then show ?thesis using held_keeps [OF inv i, of "h\<lparr>hd_task := fst tr, hd_lost := hd_lost h + 1\<rparr>"] held True h
    by (simp add: attempted_def)
next
  case False
  have "attempted i h tr S = settled_hand i (snd tr) S" using False unfolding attempted_def by (simp only: if_False)
  then show ?thesis using settled_keeps [OF inv, of "snd tr"] landed by simp
qed

subsection \<open>A new task\<close>

lemma new_hand_out:
  assumes "distinct (new_ids hs)" "i < length hs" "hd_read (hs ! i) = None"
  shows "tk_id (hd_task (hs ! i)) \<notin> set (new_ids (drop_nth i hs))" "tk_id (hd_task (hs ! i)) \<in> set (new_ids hs)"
    "set (new_ids (drop_nth i hs)) \<subseteq> set (new_ids hs)" "read_ids (drop_nth i hs) \<subseteq> read_ids hs"
proof -
  obtain pre post where p: "hs = pre @ hs ! i # post" "drop_nth i hs = pre @ post" using drop_nth_split [OF assms(2)] by blast
  have "distinct (new_ids (pre @ h # post)) \<Longrightarrow> hd_read h = None \<Longrightarrow> tk_id (hd_task h) \<notin> set (new_ids (pre @ post))" for h
    by (auto simp: new_ids_def)
  then show "tk_id (hd_task (hs ! i)) \<notin> set (new_ids (drop_nth i hs))" using assms p by metis
  show "tk_id (hd_task (hs ! i)) \<in> set (new_ids hs)" using assms(2,3) by (auto simp: new_ids_def)
  show "set (new_ids (drop_nth i hs)) \<subseteq> set (new_ids hs)" "read_ids (drop_nth i hs) \<subseteq> read_ids hs"
    using set_drop_nth [of i hs] by (auto simp: new_ids_def read_ids_def)
qed

lemma inserted_keeps:
  assumes inv: "plan_inv S" and i: "i < length (ps_hands S)" "hd_read (ps_hands S ! i) = None"
    and b': "board_inv b'" "follows (ps_board S) b' {tk_id (hd_task (ps_hands S ! i))}"
  shows "plan_inv (settled_hand i (Inr b') S)"
proof -
  let ?new = "tk_id (hd_task (ps_hands S ! i))" and ?hs = "drop_nth i (ps_hands S)"
  note D = plan_invD [OF inv] and out = new_hand_out [OF plan_invD(4) [OF inv] i]
  have ids: "tk_id ` set (bd_tasks b') \<subseteq> insert ?new (tk_id ` set (bd_tasks (ps_board S)))"
    using b'(2) by (force simp: follows_def later_row_def)
  have sel: "ps_board (settled_hand i (Inr b') S) = b'" "ps_hands (settled_hand i (Inr b') S) = ?hs"
    "ps_seen (settled_hand i (Inr b') S) = ps_seen S" "ps_used (settled_hand i (Inr b') S) = ps_used S"
    by (simp_all add: settled_hand_def)
  have "hand_fits b' h" if h: "h \<in> set ?hs" for h
  proof (rule hand_follows [OF _ b'(2)])
    have "h \<in> set (ps_hands S)" using h set_drop_nth by fast
    then show "hand_fits (ps_board S) h" using D(3) by (simp add: list_all_iff)
    have "tk_id (hd_task h) \<in> read_ids (ps_hands S)" if "hd_read h \<noteq> None"
      using that \<open>h \<in> set (ps_hands S)\<close> by (auto simp: read_ids_def)
    then show "tk_id (hd_task h) \<notin> {?new} \<or> hd_read h = None" using out(2) D(5) by auto
  qed
  then have "list_all (hand_fits b') ?hs" by (simp add: list_all_iff)
  moreover have "set (new_ids ?hs) \<inter> (read_ids ?hs \<union> tk_id ` set (bd_tasks b')) = {}"
  proof (rule Int_emptyI)
    fix x assume x: "x \<in> set (new_ids ?hs)" "x \<in> read_ids ?hs \<union> tk_id ` set (bd_tasks b')"
    then have "x \<noteq> ?new" using out(1) by metis
    then have "x \<in> read_ids (ps_hands S) \<union> tk_id ` set (bd_tasks (ps_board S))"
      using subsetD [OF Un_mono [OF out(4) ids] x(2)] by (simp only: Un_iff insert_iff simp_thms)
    then show False using D(5) subsetD [OF out(3) x(1)] by (simp only: disjoint_iff) 
  qed
  moreover have "set (new_ids ?hs) \<union> read_ids ?hs \<union> tk_id ` set (bd_tasks b') \<subseteq> set (ps_used S)"
  proof -
    have "insert ?new (tk_id ` set (bd_tasks (ps_board S))) \<subseteq> set (ps_used S)"
      using out(2) D(6) by (simp only: Un_subset_iff insert_subset simp_thms) (elim conjE, erule (1) subsetD [rotated])
    then show ?thesis using out(3,4) ids D(6) by (simp only: Un_subset_iff) (elim conjE, intro conjI; erule (1) order_trans)
  qed
  ultimately show ?thesis using D(2) b'(1) new_ids_drop [OF D(4)] unfolding plan_inv_def sel by (intro conjI)
qed

lemma insert_step_keeps:
  assumes inv: "plan_inv S" and i: "i < length (ps_hands S)" "hd_read (ps_hands S ! i) = None" and rows: "ranks_read rows"
  shows "plan_inv (attempted i (ps_hands S ! i) (insert_task p rows now (hd_task (ps_hands S ! i)) (ps_board S)) S)"
proof -
  obtain t' r where tr: "insert_task p rows now (hd_task (ps_hands S ! i)) (ps_board S) = (t', r)" by fastforce
  have t: "done_told (hd_task (ps_hands S ! i))" using hand_of [OF inv i(1)] by simp
  show ?thesis
  proof (cases r)
    case (Inl e)
    then show ?thesis using place_attempt_cases [OF tr [unfolded insert_task_def] t rows]
      by (intro attempted_keeps [OF inv i(1) refl]) (simp_all add: tr)
  next
    case (Inr b')
    then have "insert_task p rows now (hd_task (ps_hands S ! i)) (ps_board S) = (t', Inr b')" using tr by simp
    note k = insert_task_keeps [OF plan_invD(1) [OF inv] t rows this]
    then show ?thesis using inserted_keeps [OF inv i] tr Inr by (simp add: attempted_def lost_key_def)
  qed
qed

subsection \<open>Instances that come\<close>

lemma created_keeps:
  assumes inv: "plan_inv S" and t: "tk_id t \<notin> set (ps_used S)" "done_told t"
  shows "plan_inv (S\<lparr>ps_used := tk_id t # ps_used S,
    ps_hands := ps_hands S @ [\<lparr>hd_task = t, hd_read = None, hd_lost = 0, hd_edited = False\<rparr>]\<rparr>)"
proof -
  let ?h = "\<lparr>hd_task = t, hd_read = None, hd_lost = 0, hd_edited = False\<rparr>"
  note D = plan_invD [OF inv]
  have n: "new_ids (ps_hands S @ [?h]) = new_ids (ps_hands S) @ [tk_id t]" "read_ids (ps_hands S @ [?h]) = read_ids (ps_hands S)"
    by (auto simp: new_ids_def read_ids_def)
  have out: "tk_id t \<notin> set (new_ids (ps_hands S))" "tk_id t \<notin> read_ids (ps_hands S) \<union> tk_id ` set (bd_tasks (ps_board S))"
    using D(6) t(1) by blast+
  then have "set (new_ids (ps_hands S) @ [tk_id t]) \<inter> (read_ids (ps_hands S) \<union> tk_id ` set (bd_tasks (ps_board S))) = {}"
    using D(5) by (simp only: set_append Int_Un_distrib2) simp
  moreover have "set (new_ids (ps_hands S) @ [tk_id t]) \<union> read_ids (ps_hands S) \<union> tk_id ` set (bd_tasks (ps_board S))
      \<subseteq> set (tk_id t # ps_used S)"
    using D(6) by auto
  moreover have "hand_fits (ps_board S) ?h" using t by (simp add: hand_fits_def)
  ultimately show ?thesis using D(1-4) out(1) by (simp add: plan_inv_def n)
qed

lemma find_task_Some: "find_task org tid b = Some r \<Longrightarrow> r \<in> set (bd_tasks b) \<and> tk_id r = tid \<and> tk_organization r = org"
  by (auto simp: find_task_def dest: find_SomeD)

lemma loaded_sel:
  "tk_id (expect_version v (acting_as a (task_of ls r))) = tk_id r"
  "tk_organization (expect_version v (acting_as a (task_of ls r))) = tk_organization r"
  "tk_status (expect_version v (acting_as a (task_of ls r))) = tk_status r"
  "tk_completed (expect_version v (acting_as a (task_of ls r))) = tk_completed r"
  "te_expected (expect_version v (acting_as a (task_of ls r))) = v"
  by (simp_all add: expect_version_def acting_as_def task_of_def task.defs)

lemma loaded_keeps:
  assumes inv: "plan_inv S" and r: "r \<in> set (bd_tasks (ps_board S))" and t: "tk_id t = tk_id r" "tk_organization t = tk_organization r" "done_told t"
  shows "plan_inv (S\<lparr>ps_hands := ps_hands S @ [\<lparr>hd_task = t, hd_read = Some r, hd_lost = 0, hd_edited = False\<rparr>]\<rparr>)"
proof -
  let ?h = "\<lparr>hd_task = t, hd_read = Some r, hd_lost = 0, hd_edited = False\<rparr>"
  note D = plan_invD [OF inv]
  have n: "new_ids (ps_hands S @ [?h]) = new_ids (ps_hands S)" "read_ids (ps_hands S @ [?h]) = insert (tk_id r) (read_ids (ps_hands S))"
    using t(1) by (simp_all add: new_ids_def read_ids_append read_ids_Cons, simp add: read_ids_def)
  have id: "tk_id r \<in> tk_id ` set (bd_tasks (ps_board S))" using r by simp
  then have ids: "insert (tk_id r) (read_ids (ps_hands S)) \<union> tk_id ` set (bd_tasks (ps_board S)) =
      read_ids (ps_hands S) \<union> tk_id ` set (bd_tasks (ps_board S))" by blast
  have "later_row r x" if "x \<in> set (bd_tasks (ps_board S))" "tk_id x = tk_id r" for x
    using board_ids [OF D(1) that(1) r that(2)] by simp
  then have "hand_fits (ps_board S) ?h" using t by (auto simp: hand_fits_def)
  then show ?thesis using D(1-5) D(6) ids by (simp add: plan_inv_def n Un_assoc del: Un_insert_left Un_insert_right)
qed

subsection \<open>The step\<close>

lemma other_parts_keep:
  assumes "plan_inv S"
  shows "plan_inv (S\<lparr>ps_milestones := ms\<rparr>)" "plan_inv (S\<lparr>ps_used := u # ps_used S\<rparr>)"
    "plan_inv (S\<lparr>ps_seen := ps_seen S @ [bd_tasks (ps_board S)]\<rparr>)"
proof -
  note D = plan_invD [OF assms]
  show "plan_inv (S\<lparr>ps_milestones := ms\<rparr>)" using assms unfolding plan_inv_def by simp
  have "set (new_ids (ps_hands S)) \<union> read_ids (ps_hands S) \<union> tk_id ` set (bd_tasks (ps_board S)) \<subseteq> set (u # ps_used S)"
    using D(6) by auto
  then show "plan_inv (S\<lparr>ps_used := u # ps_used S\<rparr>)" using D(1-5) unfolding plan_inv_def by simp
  have "ranks_read (bd_tasks (ps_board S))" using D(1) by (simp add: ranks_read_def board_inv_def row_holds_def)
  then show "plan_inv (S\<lparr>ps_seen := ps_seen S @ [bd_tasks (ps_board S)]\<rparr>)" using D unfolding plan_inv_def by simp
qed

lemma board_step_keeps:
  assumes "plan_inv S" "board_inv b'" "follows (ps_board S) b' {}"
  shows "plan_inv (S\<lparr>ps_board := b'\<rparr>)"
  using landed_plan [OF assms subset_refl plan_invD(4) [OF assms(1)]] by simp

lemma milestone_step_keeps:
  assumes "plan_inv S" "\<And>b'. r = Inr b' \<Longrightarrow> board_inv b' \<and> follows (ps_board S) b' {}"
  shows "plan_inv (settled_milestone i r S)"
proof (cases r)
  case (Inl e)
  then show ?thesis using other_parts_keep(1) [OF assms(1)] by (simp add: settled_milestone_def)
next
  case (Inr b')
  then have "plan_inv (S\<lparr>ps_board := b'\<rparr>)" using assms board_step_keeps by blast
  then show ?thesis using other_parts_keep(1) [of "S\<lparr>ps_board := b'\<rparr>"] Inr by (simp add: settled_milestone_def)
qed

lemma dropped_keeps: "plan_inv S \<Longrightarrow> plan_inv (S\<lparr>ps_hands := drop_nth i (ps_hands S)\<rparr>)"
  using settled_keeps [of S "Inl Stale_position" i] by (simp add: settled_hand_def)

lemma with_hand_keeps: "plan_inv S \<Longrightarrow> (i < length (ps_hands S) \<Longrightarrow> plan_inv (f (ps_hands S ! i))) \<Longrightarrow> plan_inv (with_hand i f S)"
  by (simp add: with_hand_def)

lemma with_milestone_keeps: "plan_inv S \<Longrightarrow> (\<And>m. plan_inv (f m)) \<Longrightarrow> plan_inv (with_milestone i f S)"
  by (simp add: with_milestone_def)

lemma seen_ranks: "plan_inv S \<Longrightarrow> j < length (ps_seen S) \<Longrightarrow> ranks_read (ps_seen S ! j)"
  using plan_invD(2) [of S] by (simp add: list_all_length)

lemma placing_step_keeps:
  assumes inv: "plan_inv S" and i: "i < length (ps_hands S)" and h: "h = ps_hands S ! i"
    and held: "\<And>t' e. done_told (hd_task h) \<Longrightarrow> work (hd_task h) (ps_board S) = (t', Inl e) \<Longrightarrow> same_instance (hd_task h) t' \<and> done_told t'"
    and landed: "\<And>t' b'. done_told (hd_task h) \<Longrightarrow> work (hd_task h) (ps_board S) = (t', Inr b') \<Longrightarrow> board_inv b' \<and> follows (ps_board S) b' {}"
  shows "plan_inv (attempted i h (work (hd_task h) (ps_board S)) S)"
proof -
  have t: "done_told (hd_task h)" using hand_of [OF inv i] h by simp
  obtain t' r where w: "work (hd_task h) (ps_board S) = (t', r)" by fastforce
  show ?thesis
    by (rule attempted_keeps [OF inv i h]) (use held [OF t] landed [OF t] w in simp_all)
qed

lemma plan_step_keeps:
  assumes inv: "plan_inv S"
  shows "plan_inv (plan_apply a S)"
proof -
  note B = plan_invD(1) [OF inv]
  have more: "plan_inv (S\<lparr>ps_board := ps_board S\<lparr>bd_projects := p # bd_projects (ps_board S)\<rparr>\<rparr>)"
    "plan_inv (S\<lparr>ps_board := ps_board S\<lparr>bd_sessions := p # bd_sessions (ps_board S)\<rparr>\<rparr>)" for p
    by (rule board_step_keeps [OF inv board_inv_parts [OF _ _ _ B] follows_same]; auto)+
  show ?thesis
  proof (cases a)
    case (Pl_create uuid now c)
    then show ?thesis
      using inv created_keeps [OF inv] create_new_task_Inr [of uuid now c]
      by (auto simp: plan_apply_def plan_steps split: sum.split)
  next
    case (Pl_load org tid actor v)
    show ?thesis
    proof (cases "find_task org tid (ps_board S)")
      case None
      then show ?thesis using inv Pl_load by (simp add: plan_apply_def plan_steps Let_def)
    next
      case (Some r)
      let ?t = "expect_version v (acting_as actor (task_of (links_of org tid (ps_board S)) r))"
      have r: "r \<in> set (bd_tasks (ps_board S))" using find_task_Some [OF Some] by simp
      then have "done_told ?t" using B by (simp add: board_inv_def row_holds_def done_told_def loaded_sel)
      then show ?thesis using Pl_load Some loaded_keeps [OF inv r, of ?t] by (simp add: plan_apply_def plan_steps Let_def loaded_sel)
    qed
  next
    case (Pl_update i now active u rq)
    have "plan_inv (S\<lparr>ps_hands := (ps_hands S)[i := (ps_hands S ! i)\<lparr>hd_task := t, hd_edited := True\<rparr>]\<rparr>)"
      if "i < length (ps_hands S)" "update_task now active u rq (ps_board S) (hd_task (ps_hands S ! i)) = Some t" for t
      using update_task_place [OF that(2)] hand_of [OF inv that(1)]
      by (intro held_keeps [OF inv that(1)]) (simp_all add: same_place_def done_told_def)
    then show ?thesis using inv dropped_keeps [OF inv] unfolding Pl_update plan_apply_def plan_steps Let_def plan_action.case
      by (intro with_hand_keeps) (simp_all split: option.split)
  next
    case (Pl_save i)
    show ?thesis using inv unfolding Pl_save plan_apply_def plan_steps Let_def plan_action.case
      by (intro with_hand_keeps) (simp_all add: settled_keeps save_fields_keeps [OF B])
  next
    case (Pl_insert i j now)
    show ?thesis using inv unfolding Pl_insert plan_apply_def plan_steps Let_def plan_action.case
      by (intro with_hand_keeps) (simp_all add: insert_step_keeps seen_ranks)
  next
    case (Pl_move i p j now)
    have "plan_inv (attempted i h (move_task p (ps_seen S ! j) now (hd_task h) (ps_board S)) S)"
      if "i < length (ps_hands S)" "h = ps_hands S ! i" "j < length (ps_seen S)" for h
      using that seen_ranks [OF inv that(3)]
      by (intro placing_step_keeps [where work = "move_task p (ps_seen S ! j) now", OF inv])
        (auto dest: move_task_keeps [OF B] place_attempt_cases [OF _ _ seen_ranks [OF inv that(3)]] simp: move_task_def)
    then show ?thesis using inv unfolding Pl_move plan_apply_def plan_steps Let_def plan_action.case
      by (intro with_hand_keeps) simp_all
  next
    case (Pl_attach i l seen j now)
    have "plan_inv (attempted i h (attach_attempt l seen (ps_seen S ! j) now (hd_task h) (ps_board S)) S)"
      if "i < length (ps_hands S)" "h = ps_hands S ! i" "j < length (ps_seen S)" for h
      using that seen_ranks [OF inv that(3)]
      by (intro placing_step_keeps [where work = "attach_attempt l seen (ps_seen S ! j) now", OF inv])
        (auto dest: attach_keeps [OF B] attempt_instance)
    then show ?thesis using inv unfolding Pl_attach plan_apply_def plan_steps Let_def plan_action.case
      by (intro with_hand_keeps) simp_all
  next
    case (Pl_detach i sid)
    show ?thesis using inv unfolding Pl_detach plan_apply_def plan_steps Let_def plan_action.case
      by (intro with_hand_keeps) (simp_all add: settled_keeps detach_keeps [OF B])
  next
    case (Pl_delete i now)
    show ?thesis using inv unfolding Pl_delete plan_apply_def plan_steps Let_def plan_action.case
      by (intro with_hand_keeps) (simp_all add: settled_keeps delete_task_keeps [OF B])
  next
    case (Pl_milestone uuid now c)
    then show ?thesis using inv other_parts_keep [OF inv] other_parts_keep(1) [OF other_parts_keep(2) [OF inv]]
      by (auto simp: plan_apply_def plan_steps split: sum.split)
  next
    case (Pl_load_milestone org mid actor v)
    then show ?thesis using inv other_parts_keep(1) [OF inv] by (auto simp: plan_apply_def plan_steps split: option.split)
  next
    case (Pl_edit_milestone i now ed)
    then show ?thesis using inv other_parts_keep(1) [OF inv]
      by (auto simp: plan_apply_def plan_steps intro!: with_milestone_keeps split: sum.split)
  next
    case (Pl_insert_milestone i)
    then show ?thesis using inv insert_milestone_keeps [OF B]
      by (auto simp: plan_apply_def plan_steps intro!: with_milestone_keeps milestone_step_keeps)
  next
    case (Pl_save_milestone i)
    then show ?thesis using inv save_milestone_keeps [OF B]
      by (auto simp: plan_apply_def plan_steps intro!: with_milestone_keeps milestone_step_keeps)
  next
    case (Pl_delete_milestone i now)
    then show ?thesis using inv delete_milestone_keeps [OF B]
      by (auto simp: plan_apply_def plan_steps intro!: with_milestone_keeps milestone_step_keeps)
  qed (use more other_parts_keep [OF inv] in \<open>simp_all add: plan_apply_def plan_steps Let_def\<close>)
qed

interpretation plan: kept_system plan_apply plan_inv
  by unfold_locales (rule plan_step_keeps)

lemma empty_plan_inv: "plan_inv empty_plan"
  by (simp add: plan_inv_def empty_plan_def board_inv_def empty_board_def new_ids_def read_ids_def)

lemma plan_run_inv: "plan_inv (plan_run as empty_plan)"
  unfolding plan_run_def by (rule plan.run_inv [OF empty_plan_inv])

end
