(* ===== verification/Task_Order.thy ===== *)
theory Task_Order
  imports Task_Inv
begin

section \<open>The board as lists, and what a move is on them\<close>

text \<open>
  The abstract board is, for each workspace and column, the list of its tasks in order. A move takes a
  task out of its column and puts it where it was asked, and leaves every other task where it was: that
  one key written to one row does this is what \<open>dense_keys\<close> gives.
\<close>

subsection \<open>The specification\<close>

definition board_order :: "plan_board \<Rightarrow> string \<Rightarrow> task_status \<Rightarrow> string list" where
  "board_order b org status = map tk_id (column_of org status (bd_tasks b))"

fun put_after :: "string \<Rightarrow> string \<Rightarrow> string list \<Rightarrow> string list" where
  "put_after a t [] = []"
| "put_after a t (x # xs) = (if x = a then x # t # xs else x # put_after a t xs)"

fun put_at :: "task_after \<Rightarrow> string \<Rightarrow> string list \<Rightarrow> string list" where
  "put_at After_nothing t ids = t # ids"
| "put_at After_all t ids = ids @ [t]"
| "put_at (After_task a) t ids = put_after a t ids"

definition order_moved ::
  "string \<Rightarrow> string \<Rightarrow> task_placement \<Rightarrow> (string \<Rightarrow> task_status \<Rightarrow> string list) \<Rightarrow> string \<Rightarrow> task_status \<Rightarrow> string list" where
  "order_moved org tid p order o1 s1 =
     (let ids = filter (\<lambda>x. x \<noteq> tid) (order o1 s1) in
      if o1 = org \<and> s1 = pl_status p then put_at (pl_after p) tid ids else ids)"

subsection \<open>One row written\<close>

definition at_place :: "string \<Rightarrow> task_status \<Rightarrow> task \<Rightarrow> bool" where
  "at_place org status r \<longleftrightarrow> tk_organization r = org \<and> tk_status r = status"

lemma column_at: "column_of org status rows = sort_key tk_rank (filter (at_place org status) rows)"
  by (simp add: column_of_def at_place_def [abs_def])

lemma board_ranks: "board_inv b \<Longrightarrow> r \<in> set (bd_tasks b) \<Longrightarrow> s \<in> set (bd_tasks b) \<Longrightarrow> place_of r = place_of s \<Longrightarrow> r = s"
  by (auto simp: board_inv_def apart_def)

lemma filter_swapped: "filter Q rows = rest \<Longrightarrow> filter Q (filter P rows) = filter P rest"
  by (auto simp: conj_commute)

lemma column_strict:
  assumes "board_inv b"
  shows "sorted_wrt (<) (map tk_rank (column_of org status (bd_tasks b)))"
proof -
  have "inj_on tk_rank {r \<in> set (bd_tasks b). at_place org status r}"
    by (rule inj_onI, rule board_ranks [OF assms]) (auto simp: place_of_def at_place_def)
  then show ?thesis using assms unfolding column_at
    by (intro sort_key_strict) (simp add: distinct_map board_inv_def)
qed

lemma others_strict:
  assumes "board_inv b"
  shows "sorted_wrt (<) (map tk_rank (other_rows t status (bd_tasks b)))" "list_all is_rank (map tk_rank (other_rows t status (bd_tasks b)))"
proof -
  have "sorted_wrt (<) (map tk_rank (filter P xs))" if "sorted_wrt (<) (map tk_rank xs)" for P and xs :: "task list"
    using that by (induction xs) auto
  then show "sorted_wrt (<) (map tk_rank (other_rows t status (bd_tasks b)))"
    unfolding other_rows_def using column_strict [OF assms] by blast
  show "list_all is_rank (map tk_rank (other_rows t status (bd_tasks b)))"
    using assms by (auto simp: list_all_iff other_rows_def column_set board_inv_def row_holds_def)
qed

text \<open>The row in the table, and the others.\<close>

lemma row_split:
  assumes "board_inv b" "r \<in> set (bd_tasks b)"
  obtains xs ys where "bd_tasks b = xs @ r # ys" "filter (\<lambda>x. tk_id x \<noteq> tk_id r) (bd_tasks b) = xs @ ys"
    "\<And>r'. map (\<lambda>x. if x = r then r' else x) (bd_tasks b) = xs @ r' # ys"
proof -
  obtain xs ys where s: "bd_tasks b = xs @ r # ys" using assms(2) by (meson split_list)
  have apart: "x \<noteq> r \<and> tk_id x \<noteq> tk_id r" if "x \<in> set xs \<union> set ys" for x
    using assms(1) that s board_ids [OF assms(1), of x r] by (auto simp: board_inv_def)
  have "filter (\<lambda>x. tk_id x \<noteq> tk_id r) xs = xs" "filter (\<lambda>x. tk_id x \<noteq> tk_id r) ys = ys"
    "map (\<lambda>x. if x = r then r' else x) xs = xs" "map (\<lambda>x. if x = r then r' else x) ys = ys" for r'
    using apart by (auto simp: filter_id_conv map_idI)
  then show thesis using that s by simp
qed

lemma others_of:
  assumes "tk_id t = tk_id r" "tk_organization t = org" "filter (\<lambda>x. tk_id x \<noteq> tk_id r) rows = rest"
  shows "other_rows t status rows = sort_key tk_rank (filter (at_place org status) rest)"
proof -
  have "filter (\<lambda>x. tk_id x \<noteq> tk_id r) (filter P rows) = filter P rest" for P
    by (rule filter_swapped [OF assms(3)])
  then show ?thesis using assms(1,2) by (simp only: other_rows_def column_at filter_sort)
qed

lemma order_elsewhere:
  assumes "bd_tasks b = xs @ r # ys" "bd_tasks b' = xs @ r' # ys" "filter (\<lambda>x. tk_id x \<noteq> tk_id r) (bd_tasks b) = xs @ ys"
    and "\<not> at_place org status r'"
  shows "board_order b' org status = filter (\<lambda>x. x \<noteq> tk_id r) (board_order b org status)"
proof -
  have "filter (\<lambda>x. tk_id x \<noteq> tk_id r) (filter P (bd_tasks b)) = filter P (xs @ ys)" for P
    by (rule filter_swapped [OF assms(3)])
  then have "filter (\<lambda>x. tk_id x \<noteq> tk_id r) (column_of org status (bd_tasks b)) = sort_key tk_rank (filter (at_place org status) (xs @ ys))"
    by (simp only: column_at filter_sort)
  moreover have "column_of org status (bd_tasks b') = sort_key tk_rank (filter (at_place org status) (xs @ ys))"
    using assms(2,4) by (simp add: column_at)
  moreover have "filter (\<lambda>x. x \<noteq> tk_id r) (map tk_id zs) = map tk_id (filter (\<lambda>x. tk_id x \<noteq> tk_id r) zs)" for zs :: "task list"
    by (simp add: filter_map comp_def)
  ultimately show ?thesis by (simp only: board_order_def)
qed

lemma order_there:
  assumes "bd_tasks b' = xs @ r' # ys" "at_place org status r'"
    and others: "sort_key tk_rank (filter (at_place org status) (xs @ ys)) = pre @ post"
    and strict: "sorted_wrt (<) (map tk_rank (pre @ post))" "list_all is_rank (map tk_rank (pre @ post))"
    and k: "tk_rank r' = rank_midpoint (ranks.lower_of (map tk_rank pre)) (ranks.upper_of (map tk_rank post))"
  shows "column_of org status (bd_tasks b') = pre @ r' # post"
  unfolding column_at
proof (rule sort_key_unique)
  have "mset (filter (at_place org status) (xs @ ys)) = mset pre + mset post"
    using arg_cong [OF others, of mset] by simp
  then show "mset (filter (at_place org status) (bd_tasks b')) = mset (pre @ r' # post)"
    using assms(1,2) by simp
  show "sorted_wrt (<) (map tk_rank (pre @ r' # post))"
    using ranks.placed_sorted [of "map tk_rank pre" "map tk_rank post"] strict k by simp
qed

subsection \<open>The key, and its place\<close>

lemma find_first_above:
  assumes "sorted_wrt (<) (map tk_rank (pre @ a # post))"
  shows "first_rank (\<lambda>r. tk_rank a < tk_rank r) (pre @ a # post) = ranks.upper_of (map tk_rank post)"
proof -
  have "find (\<lambda>r. tk_rank a < tk_rank r) pre = None"
    using assms by (fastforce simp: find_None_iff sorted_wrt_append)
  then have "find (\<lambda>r. tk_rank a < tk_rank r) (pre @ a # post) = find (\<lambda>r. tk_rank a < tk_rank r) post"
    by (induction pre) (simp_all split: if_splits)
  moreover have "find (\<lambda>r. tk_rank a < tk_rank r) post = (case post of [] \<Rightarrow> None | r # _ \<Rightarrow> Some r)"
    using assms by (cases post) (auto simp: sorted_wrt_append)
  ultimately show ?thesis by (simp add: first_rank_def ranks.upper_of_def split: list.split)
qed

lemma find_split: "find P xs = Some a \<Longrightarrow> \<exists>pre post. xs = pre @ a # post \<and> P a \<and> (\<forall>x \<in> set pre. \<not> P x)"
proof (induction xs)
  case (Cons x xs)
  show ?case
  proof (cases "P x")
    case True
    then show ?thesis using Cons.prems by (intro exI [of _ "[]"] exI [of _ xs]) simp
  next
    case False
    then obtain pre post where "xs = pre @ a # post \<and> P a \<and> (\<forall>x \<in> set pre. \<not> P x)" using Cons by auto
    then show ?thesis using False by (intro exI [of _ "x # pre"] exI [of _ post]) simp
  qed
qed simp

lemma put_after_there: "a \<notin> set pre \<Longrightarrow> put_after a t (pre @ a # post) = pre @ a # t # post"
  by (induction pre) auto

lemma rank_for_split:
  assumes strict: "sorted_wrt (<) (map tk_rank (other_rows t (pl_status p) rows))" and k: "rank_for t p rows = Inr k"
  obtains pre post where "other_rows t (pl_status p) rows = pre @ post"
    "k = rank_midpoint (ranks.lower_of (map tk_rank pre)) (ranks.upper_of (map tk_rank post))"
    "\<And>x. put_at (pl_after p) x (map tk_id (other_rows t (pl_status p) rows)) = map tk_id pre @ x # map tk_id post"
proof -
  let ?o = "other_rows t (pl_status p) rows"
  have mid: "k' = rank_midpoint l u" if "rank_between l u = Inr k'" for l u k'
    using that by (auto simp: rank_between_def split: if_splits)
  show thesis
  proof (cases "pl_after p")
    case After_nothing
    moreover have "first_rank (\<lambda>_. True) ?o = ranks.upper_of (map tk_rank ?o)"
      by (cases ?o) (simp_all add: first_rank_def ranks.upper_of_def)
    ultimately show thesis using k by (intro that [of "[]" ?o]) (auto simp: rank_for_def Let_def map_sum_Inr ranks.lower_of_def dest: mid)
  next
    case After_all
    moreover have "(case first_rank (\<lambda>_. True) (rev ?o) of None \<Rightarrow> [] | Some r \<Rightarrow> r) = ranks.lower_of (map tk_rank ?o)"
      by (cases ?o rule: rev_cases) (simp_all add: first_rank_def ranks.lower_of_def)
    ultimately show thesis using k by (intro that [of ?o "[]"]) (auto simp: rank_for_def Let_def map_sum_Inr ranks.upper_of_def dest: mid)
  next
    case (After_task tid)
    then obtain a where a: "find (\<lambda>r. tk_id r = tid) ?o = Some a"
      "rank_between (tk_rank a) (first_rank (\<lambda>r. tk_rank a < tk_rank r) ?o) = Inr k"
      using k by (auto simp: rank_for_def Let_def map_sum_Inr first_rank_def split: option.splits)
    then obtain pre post where s: "?o = pre @ a # post" "tk_id a = tid" "\<forall>x \<in> set pre. tk_id x \<noteq> tid"
      using find_split [OF a(1)] by blast
    have out: "tid \<notin> set (map tk_id pre)" using s(3) by auto
    show thesis
    proof (rule that [of "pre @ [a]" post])
      show "k = rank_midpoint (ranks.lower_of (map tk_rank (pre @ [a]))) (ranks.upper_of (map tk_rank post))"
        using mid [OF a(2)] find_first_above [of pre a post] strict s(1) by (simp add: ranks.lower_of_def)
      show "put_at (pl_after p) x (map tk_id ?o) = map tk_id (pre @ [a]) @ x # map tk_id post" for x
        using put_after_there [OF out, of x "map tk_id post"] After_task s(1,2) by simp
    qed (simp add: s)
  qed
qed

subsection \<open>Moves\<close>

lemma written_order:
  assumes inv: "board_inv b" and w: "rewritten (set_place t') t' b b'" and k: "rank_for t p (bd_tasks b) = Inr (tk_rank t')"
    and t: "tk_id t' = tk_id t" "tk_organization t' = tk_organization t" "tk_status t' = pl_status p"
  shows "board_order b' org status = order_moved (tk_organization t) (tk_id t) p (board_order b) org status"
proof -
  obtain r r' where r: "r \<in> set (bd_tasks b)" "row_hit t' r" "r' = (set_place t' r)\<lparr>tk_version := tk_version r + 1\<rparr>"
    "bd_tasks b' = map (\<lambda>x. if x = r then r' else x) (bd_tasks b)" using w unfolding rewritten_def by blast
  obtain xs ys where s: "bd_tasks b = xs @ r # ys" "filter (\<lambda>x. tk_id x \<noteq> tk_id r) (bd_tasks b) = xs @ ys" "bd_tasks b' = xs @ r' # ys"
    using row_split [OF inv r(1)] r(4) by metis
  have ids: "tk_id t = tk_id r" "tk_organization t = tk_organization r" using r(2) t by (auto simp: row_hit_def)
  have r': "at_place org status r' \<longleftrightarrow> org = tk_organization t \<and> status = pl_status p" "tk_id r' = tk_id t" "tk_rank r' = tk_rank t'"
    using r(3) ids t by (auto simp: at_place_def set_place_def)
  show ?thesis
  proof (cases "at_place org status r'")
    case False
    then show ?thesis using order_elsewhere [OF s(1,3,2) False] r'(1) ids by (auto simp: order_moved_def Let_def)
  next
    case True
    then have here: "org = tk_organization t" "status = pl_status p" using r'(1) by simp_all
    obtain pre post where pp: "other_rows t (pl_status p) (bd_tasks b) = pre @ post"
      "tk_rank t' = rank_midpoint (ranks.lower_of (map tk_rank pre)) (ranks.upper_of (map tk_rank post))"
      "put_at (pl_after p) (tk_id t) (map tk_id (other_rows t (pl_status p) (bd_tasks b))) = map tk_id pre @ tk_id t # map tk_id post"
      by (rule rank_for_split [OF others_strict(1) [OF inv] k]) metis
    have o: "other_rows t (pl_status p) (bd_tasks b) = sort_key tk_rank (filter (at_place org status) (xs @ ys))"
      using others_of [OF ids(1) here(1) [symmetric] s(2)] here(2) by simp
    have "column_of org status (bd_tasks b') = pre @ r' # post"
      using others_strict [OF inv, of t "pl_status p"] pp(1,2) o r'(3) by (intro order_there [OF s(3) True]) simp_all
    moreover have "map tk_id (other_rows t (pl_status p) (bd_tasks b)) = filter (\<lambda>x. x \<noteq> tk_id t) (board_order b org status)"
      using here by (simp add: other_rows_def board_order_def filter_map comp_def)
    ultimately show ?thesis using pp(3) r'(2) here by (simp add: order_moved_def board_order_def)
  qed
qed

end
