(* ===== verification/Task_Examples.thy ===== *)
theory Task_Examples
  imports Task_Order
begin

section \<open>Runs of the board\<close>

text \<open>Concrete runs the properties are instantiated at.\<close>

definition ana :: plan_actor where
  "ana = Actor_user ''ana''"

definition demo_task :: "string \<Rightarrow> task_status \<Rightarrow> create_task" where
  "demo_task title status =
     \<lparr>ct_organization = ''o'', ct_project = ''p'', ct_milestone = None, ct_status = status, ct_title = title,
      ct_notes = None, ct_due_date = None, ct_due_time = None, ct_created_by = ''ana'', ct_actor = ana,
      ct_idempotency = None\<rparr>"

definition created :: "nat \<Rightarrow> string \<Rightarrow> task_status \<Rightarrow> plan_action list" where
  "created j tid status = [Pl_create tid 1 (demo_task tid status), Pl_look, Pl_insert 0 j 1]"

definition demo_board :: "plan_action list" where
  "demo_board =
     Pl_project ''o'' ''p'' # Pl_session ''o'' ''s'' # created 0 ''a'' Task_todo @ created 1 ''b'' Task_todo @
     created 2 ''c'' Task_todo @ created 3 ''d'' Task_doing"

text \<open>Ana has \<open>c\<close> open, as the second task of a board of four.\<close>

definition demo_open :: "plan_action list" where
  "demo_open = demo_board @ [Pl_load ''o'' ''c'' ana (Some 1)]"

definition demo_plan :: plan_system where
  "demo_plan = plan_run demo_open empty_plan"

definition after_task :: "task_status \<Rightarrow> string \<Rightarrow> task_placement" where
  "after_task status tid = \<lparr>pl_status = status, pl_after = After_task tid\<rparr>"

definition demo_link :: task_link where
  "demo_link = \<lparr>tl_session = ''s'', tl_origin = Link_started, tl_by = Some ''ana'', tl_at = 2\<rparr>"

text \<open>A task is read, moved to Done by another, and then blocked by who read it.\<close>

definition blocks :: "string \<Rightarrow> task_request" where
  "blocks reason =
     \<lparr>rq_edit = \<lparr>ed_title = None, ed_notes = None, ed_due_date = None, ed_due_time = None\<rparr>,
      rq_project = None, rq_milestone = None, rq_blocked = Some (Some reason)\<rparr>"

definition late_block :: "plan_action list" where
  "late_block =
     demo_board @ [Pl_load ''o'' ''a'' ana None, Pl_load ''o'' ''a'' ana None, Pl_look,
       Pl_move 0 (last_in Task_done) 4 5, Pl_update 0 6 (\<lambda>_. True) ''u'' (blocks ''waits on Bo''), Pl_save 0]"

lemma demo_columns:
  "board_order (ps_board demo_plan) ''o'' Task_todo = [''a'', ''b'', ''c'']"
  "board_order (ps_board demo_plan) ''o'' Task_doing = [''d'']"
  "map tk_rank (bd_tasks (ps_board demo_plan)) = [''V'', ''l'', ''t'', ''V'']"
  by code_simp+

section \<open>How many tasks a column takes\<close>

text \<open>
  A key grows by a digit every so often when tasks are only ever added below the last, and the database
  holds keys of 128 characters. The keys of a column filled this way, the rows that hold them, and the
  run that fills it.
\<close>

subsection \<open>The keys\<close>

definition appended_key :: "nat \<Rightarrow> string" where
  "appended_key i = replicate (i div 5) CHR ''z'' @ [''Vltxz'' ! (i mod 5)]"

lemma midpoint_after_z: "rank_midpoint (replicate n CHR ''z'' @ l) None = replicate n CHR ''z'' @ rank_midpoint l None"
proof (induction n)
  case (Suc n)
  have "rank_digit CHR ''z'' = 61" "digit_char 61 = ''z''" by code_simp+
  then show ?case using Suc midpoint_none [of "CHR ''z'' # replicate n CHR ''z'' @ l"] by simp
qed simp

lemma appended_next: "rank_midpoint (appended_key i) None = appended_key (Suc i)"
proof -
  have one: "rank_midpoint ''V'' None = ''l''" "rank_midpoint ''l'' None = ''t''" "rank_midpoint ''t'' None = ''x''"
    "rank_midpoint ''x'' None = ''z''" "rank_midpoint ''z'' None = ''zV''" by code_simp+
  have "i mod 5 < 5" by simp
  then consider "i mod 5 = 0" | "i mod 5 = 1" | "i mod 5 = 2" | "i mod 5 = 3" | "i mod 5 = 4" by linarith
  then show ?thesis
    by cases (simp_all only: appended_key_def midpoint_after_z one mod_Suc div_Suc, simp_all add: one flip: replicate_append_same)
qed

lemma appended_first: "rank_midpoint [] None = appended_key 0"
  by code_simp

lemma appended_rank: "is_rank (appended_key i)"
proof (cases i)
  case 0
  then show ?thesis using midpoint_last [of "[]"] appended_first by simp
next
  case (Suc j)
  have "list_all (\<lambda>c. c \<in> set rank_digits) (appended_key j)"
  proof -
    have "set ''Vltxz'' \<subseteq> set rank_digits" "CHR ''z'' \<in> set rank_digits" by code_simp+
    moreover have "''Vltxz'' ! (j mod 5) \<in> set ''Vltxz''" by (rule nth_mem) simp
    ultimately have "''Vltxz'' ! (j mod 5) \<in> set rank_digits" "CHR ''z'' \<in> set rank_digits"
      by blast+
    then show ?thesis by (auto simp: appended_key_def list_all_iff simp del: nth_Cons_numeral)
  qed
  then show ?thesis using midpoint_last [of "appended_key j"] appended_next [of j] Suc by simp
qed

lemma appended_less: "i < j \<Longrightarrow> appended_key i < appended_key j"
proof (rule lift_Suc_mono_less)
  show "appended_key n < appended_key (Suc n)" for n
    using midpoint_last [of "appended_key n"] appended_rank [of n] appended_next [of n] by (simp add: is_rank_def)
qed

lemma appended_length: "length (appended_key i) = Suc (i div 5)"
  by (simp add: appended_key_def)

subsection \<open>The rows\<close>

definition nth_id :: "nat \<Rightarrow> string" where
  "nth_id i = replicate i CHR ''x''"

definition nth_row :: "nat \<Rightarrow> task" where
  "nth_row i =
     \<lparr>tk_id = nth_id i, tk_organization = ''o'', tk_project = ''p'', tk_milestone = None, tk_status = Task_todo,
      tk_rank = appended_key i, tk_title = ''t'', tk_notes = [], tk_due_date = None, tk_due_time = None,
      tk_completed = None, tk_blocked_reason = None, tk_blocked_at = None, tk_version = 1, tk_idempotency = None,
      tk_created_by = Some ''ana''\<rparr>"

definition nth_task :: "nat \<Rightarrow> task_entity" where
  "nth_task i =
     touched Write_created ((task_of [] (nth_row i\<lparr>tk_rank := []\<rparr>))\<lparr>te_actor := Some ana,
       te_changes := [\<lparr>pc_ref = 0, pc_kind = Plan_created, pc_project = ''p'', pc_milestone = None, pc_actor = ana, pc_at = 1\<rparr>],
       te_refs := 1\<rparr>)"

lemma nth_id_eq [simp]: "nth_id i = nth_id j \<longleftrightarrow> i = j"
  by (simp add: nth_id_def)

lemma nth_created: "create_new_task (nth_id i) 1 (demo_task ''t'' Task_todo) = Inr (nth_task i)"
proof -
  have "js_trim ''t'' = ''t''" by code_simp
  then show ?thesis
    by (simp add: create_new_task_def demo_task_def task_of_def task.defs task_problem_def record_change_def
        acting_as_def nth_task_def nth_row_def task_title_max_def task_notes_max_def)
qed

lemma nth_placed:
  "\<exists>t'. place_task Task_todo (appended_key m) 1 (nth_task i) = Inr t' \<and> task.truncate t' = (nth_row i)\<lparr>tk_rank := appended_key m\<rparr>"
proof -
  have "js_trim ''t'' = ''t''" by code_simp
  then show ?thesis using appended_rank [of m]
    by (simp add: place_task_def sync_place_def nth_task_def nth_row_def touched_def task_of_def task.defs task_problem_def
        task_title_max_def task_notes_max_def is_new_def Let_def map_filter_list_def validated_def)
qed

lemma nth_column: "column_of ''o'' Task_todo (map nth_row [0..<m]) = map nth_row [0..<m]"
proof -
  have "sorted (map appended_key [0..<m])"
    by (simp add: sorted_iff_nth_mono_less appended_less less_imp_le)
  then have "sort_key tk_rank (map nth_row [0..<m]) = map nth_row [0..<m]"
    by (intro sort_key_id_if_sorted) (simp add: nth_row_def comp_def)
  moreover have "filter (\<lambda>r. tk_organization r = ''o'' \<and> tk_status r = Task_todo) (map nth_row [0..<m]) = map nth_row [0..<m]"
    by (simp add: nth_row_def)
  ultimately show ?thesis by (simp add: column_of_def)
qed

subsection \<open>The run\<close>

definition append_at :: "nat \<Rightarrow> plan_action list" where
  "append_at i = [Pl_create (nth_id i) 1 (demo_task ''t'' Task_todo), Pl_look, Pl_insert 0 i 1]"

definition filling :: "nat \<Rightarrow> plan_action list" where
  "filling n = Pl_project ''o'' ''p'' # concat (map append_at [0..<n])"

definition filled :: "nat \<Rightarrow> plan_system \<Rightarrow> bool" where
  "filled n S \<longleftrightarrow> ps_hands S = [] \<and> length (ps_seen S) = n \<and> set (ps_used S) = nth_id ` {..<n} \<and>
     bd_tasks (ps_board S) = map nth_row [0..<min n 640] \<and> bd_projects (ps_board S) = [(''o'', ''p'')] \<and>
     bd_milestones (ps_board S) = []"

text \<open>The key the next task gets, and what the table says to it.\<close>

lemma nth_rank_for:
  assumes "m \<le> n"
  shows "rank_for (nth_task n) (last_in Task_todo) (map nth_row [0..<m]) = Inr (appended_key m)"
proof -
  have t: "tk_id (nth_task n) = nth_id n" "tk_organization (nth_task n) = ''o''" by (simp_all add: nth_task_def nth_row_def task_of_def task.defs)
  have o: "other_rows (nth_task n) Task_todo (map nth_row [0..<m]) = map nth_row [0..<m]"
    using assms unfolding other_rows_def t nth_column by (simp add: filter_id_conv nth_row_def)
  show ?thesis
  proof (cases m)
    case 0
    then show ?thesis using o rank_between_Inr [of "[]" None] appended_first
      by (simp add: rank_for_def last_in_def first_rank_def)
  next
    case (Suc k)
    then have "rank_for (nth_task n) (last_in Task_todo) (map nth_row [0..<m]) = map_sum Board_range id (rank_between (appended_key k) None)"
      using o by (simp add: rank_for_def last_in_def first_rank_def nth_row_def)
    then show ?thesis using Suc rank_between_Inr [of "appended_key k" None] appended_rank [of k] appended_next [of k] by simp
  qed
qed

lemma nth_refused:
  assumes "m \<le> n" "bd_tasks b = map nth_row [0..<m]" "bd_projects b = [(''o'', ''p'')]" "n < 640 \<longrightarrow> m = n"
    "task.truncate t = (nth_row n)\<lparr>tk_rank := appended_key m\<rparr>" "n \<ge> 640 \<longrightarrow> m = 640"
  shows "insert_row t b = (if n < 640 then Inr (b\<lparr>bd_tasks := map nth_row [0..<Suc m]\<rparr>) else Inl (Too_long ''rank''))"
proof -
  have id: "tk_id t = nth_id n" using arg_cong [OF assms(5), of tk_id] by (simp add: task.truncate_def nth_row_def)
  have out: "\<not> list_ex (\<lambda>x. tk_id x = tk_id t) (bd_tasks b)" using assms(1,2) id by (auto simp: list_ex_iff nth_row_def)
  show ?thesis
  proof (cases "n < 640")
    case True
    then have m: "m = n" "length (appended_key m) \<le> rank_column_max"
      using assms(4) by (simp_all add: appended_length rank_column_max_def)
    have "appended_key i \<noteq> appended_key n" if "i < n" for i using appended_less [OF that] by simp
    then have "task_refused (nth_row n) b = None"
      using m assms(2,3) by (auto simp: task_refused_def Let_def nth_row_def list_ex_iff)
    then show ?thesis using out True assms(2,5) m by (simp add: insert_row_def nth_row_def)
  next
    case False
    then have "length (appended_key m) > rank_column_max" using assms(6) by (simp add: appended_length rank_column_max_def)
    then show ?thesis using out False assms(5) by (simp add: insert_row_def task_refused_def)
  qed
qed

lemma nth_inserted:
  assumes "m = min n 640" "bd_tasks b = map nth_row [0..<m]" "bd_projects b = [(''o'', ''p'')]"
  shows "\<exists>t' r. insert_task (last_in Task_todo) (map nth_row [0..<m]) 1 (nth_task n) b = (t', r) \<and>
    (if n < 640 then \<exists>b'. r = Inr b' \<and> bd_tasks b' = map nth_row [0..<Suc m] \<and> bd_projects b' = bd_projects b \<and> bd_milestones b' = bd_milestones b
     else r = Inl (Too_long ''rank''))"
proof -
  obtain t' where t': "place_task Task_todo (appended_key m) 1 (nth_task n) = Inr t'"
    "task.truncate t' = (nth_row n)\<lparr>tk_rank := appended_key m\<rparr>" using nth_placed by blast
  have "insert_task (last_in Task_todo) (map nth_row [0..<m]) 1 (nth_task n) b = (t', map_sum id (log_and_stage t') (insert_row t' b))"
    using nth_rank_for [of m n] assms(1) t'(1) by (simp add: insert_task_def place_attempt_def last_in_def)
  moreover have "insert_row t' b = (if n < 640 then Inr (b\<lparr>bd_tasks := map nth_row [0..<Suc m]\<rparr>) else Inl (Too_long ''rank''))"
    using assms t'(2) by (intro nth_refused) auto
  ultimately show ?thesis by simp
qed

lemma filled_step:
  assumes "filled n S"
  shows "filled (Suc n) (fold plan_apply (append_at n) S)"
proof -
  let ?h = "\<lparr>hd_task = nth_task n, hd_read = None, hd_lost = 0, hd_edited = False\<rparr>"
  let ?b = "ps_board S" and ?m = "min n 640"
  define S2 where "S2 = S\<lparr>ps_used := nth_id n # ps_used S, ps_hands := [?h], ps_seen := ps_seen S @ [bd_tasks ?b]\<rparr>"
  have f: "ps_hands S = []" "length (ps_seen S) = n" "set (ps_used S) = nth_id ` {..<n}" "bd_tasks ?b = map nth_row [0..<?m]"
    "bd_projects ?b = [(''o'', ''p'')]" "bd_milestones ?b = []" using assms by (simp_all add: filled_def)
  have "nth_id n \<notin> set (ps_used S)" using f(3) by auto
  then have "plan_apply Pl_look (plan_apply (Pl_create (nth_id n) 1 (demo_task ''t'' Task_todo)) S) = S2"
    by (simp add: plan_apply_def plan_steps nth_created S2_def f(1))
  then have step: "fold plan_apply (append_at n) S = plan_apply (Pl_insert 0 n 1) S2" by (simp add: append_at_def)
  have sel: "ps_board S2 = ?b" "ps_hands S2 = [?h]" "ps_seen S2 ! n = bd_tasks ?b" "n < length (ps_seen S2)"
    using f(2) by (simp_all add: S2_def nth_append)
  have status: "tk_status (nth_task n) = Task_todo" by (simp add: nth_task_def nth_row_def task_of_def task.defs)
  obtain t' r where r: "insert_task (last_in Task_todo) (map nth_row [0..<?m]) 1 (nth_task n) ?b = (t', r)"
    "if n < 640 then \<exists>b'. r = Inr b' \<and> bd_tasks b' = map nth_row [0..<Suc ?m] \<and> bd_projects b' = bd_projects ?b \<and> bd_milestones b' = bd_milestones ?b
     else r = Inl (Too_long ''rank'')"
    using nth_inserted [OF refl f(4,5)] by blast
  have "plan_apply (Pl_insert 0 n 1) S2 = attempted 0 ?h (t', r) S2"
    using sel f(4) r(1) status by (simp add: plan_apply_def plan_steps with_hand_def)
  also have "\<dots> = settled_hand 0 r S2" using r(2) by (auto simp: attempted_def lost_key_def split: if_splits)
  finally have run: "fold plan_apply (append_at n) S = settled_hand 0 r S2" using step by simp
  have rest: "ps_hands (settled_hand 0 r S2) = []" "length (ps_seen (settled_hand 0 r S2)) = Suc n"
    "set (ps_used (settled_hand 0 r S2)) = nth_id ` {..<Suc n}"
    using f(1-3) by (simp_all add: settled_hand_def S2_def drop_nth_def lessThan_Suc)
  show ?thesis
  proof (cases "n < 640")
    case True
    then have "min (Suc n) 640 = Suc ?m" by simp
    then show ?thesis using r(2) True rest f(5,6) unfolding filled_def run by (auto simp: settled_hand_def)
  next
    case False
    then have "min (Suc n) 640 = ?m" by simp
    then show ?thesis using r(2) False rest f(4-6) sel(1) unfolding filled_def run by (simp only: settled_hand_def) simp
  qed
qed

lemma filling_filled: "filled n (plan_run (filling n) empty_plan)"
proof (induction n)
  case 0
  show ?case by (simp add: filled_def filling_def plan_run_def plan_apply_def plan_steps empty_plan_def empty_board_def)
next
  case (Suc n)
  have "plan_run (filling (Suc n)) empty_plan = fold plan_apply (append_at n) (plan_run (filling n) empty_plan)"
    by (simp add: plan_run_def filling_def)
  then show ?case using filled_step [OF Suc] by simp
qed

end
