(* ===== verification/Task_Properties.thy ===== *)
theory Task_Properties
  imports Task_Examples
begin

section \<open>Properties of the board\<close>

text \<open>
  The keys of a column, what every reachable board keeps, what the moves and attachments do to the
  order of the columns, and what a writer that names the version it read can overwrite.
\<close>

subsection \<open>Keys\<close>

text \<open>C25: between any two keys in order, or past the first or the last, the policy finds a key: it
  refuses none of them, it is again a key of base-62 digits that does not end in \<open>0\<close>, and it sorts
  strictly between the two.\<close>

theorem a_key_fits_between_its_neighbours:
  assumes "lower = [] \<or> is_rank lower" "\<forall>u \<in> set_option upper. is_rank u \<and> lower < u"
  shows "\<exists>k. rank_between lower upper = Inr k \<and> is_rank k \<and> lower < k \<and> (\<forall>u \<in> set_option upper. k < u)"
proof -
  have "rank_between lower upper = Inr (rank_midpoint lower upper)" by (rule rank_between_Inr [OF assms])
  then show ?thesis using ranks.between_valid [OF assms] ranks.between_less [OF assms] by blast
qed

theorem a_key_fits_between_its_neighbours_witness:
  "rank_between ''V'' (Some ''V1'') = Inr ''V0V'' \<and>
     (\<exists>k. rank_between ''V'' (Some ''V1'') = Inr k \<and> is_rank k \<and> ''V'' < k \<and> k < ''V1'')"
proof -
  have "rank_between ''V'' (Some ''V1'') = Inr ''V0V''" by code_simp
  moreover have "is_rank ''V''" "is_rank ''V1''" "''V'' < ''V1''" by code_simp+
  ultimately show ?thesis using a_key_fits_between_its_neighbours [of "''V''" "Some ''V1''"] by simp
qed

subsection \<open>The board\<close>

lemma reached_inv: "board_inv (ps_board (plan_run as empty_plan))"
  using plan_run_inv plan_inv_def by blast

lemma board_keys:
  assumes "board_inv b" "r \<in> set (bd_tasks b)" "s \<in> set (bd_tasks b)" "tk_organization r = tk_organization s"
    "tk_idempotency r = tk_idempotency s" "tk_idempotency r \<noteq> None"
  shows "r = s"
proof (rule ccontr)
  assume "r \<noteq> s"
  then have "apart r s" using assms(1-3) by (simp add: board_inv_def)
  then show False using assms(4-6) by (simp add: apart_def)
qed

lemma filed_milestone:
  assumes "board_inv b" "filed_in b r" "tk_milestone r = Some mid"
  shows "map_option ms_project (find_milestone (tk_organization r) b mid) = Some (tk_project r)"
proof -
  obtain x where x: "x \<in> set (bd_milestones b)" "ms_organization x = tk_organization r" "ms_id x = mid" "ms_project x = tk_project r"
    using assms(2,3) by (auto simp: filed_in_def)
  show ?thesis
  proof (cases "find_milestone (tk_organization r) b mid")
    case None
    then show ?thesis using x by (auto simp: find_milestone_def find_None_iff)
  next
    case (Some m)
    then have "m \<in> set (bd_milestones b)" "ms_id m = ms_id x" using x(3) by (auto simp: find_milestone_def dest: find_SomeD)
    then have "m = x" using assms(1) x(1) by (auto simp: board_inv_def distinct_map dest: inj_onD)
    then show ?thesis using Some x(4) by simp
  qed
qed

text \<open>C22: on every reachable board, however its requests interleave, each column is strictly in order by
  keys that all are keys of the policy and fit the database's column; no two tasks of a workspace have
  one idempotency key; a task has a completion time exactly while it is in Done; and its project is one
  of its workspace, with its milestone, if it has one, a milestone of that project, also after the
  milestone moved to another project or was deleted under it.\<close>

theorem every_reachable_board_is_in_order:
  "let b = ps_board (plan_run as empty_plan); rows = bd_tasks b in
     sorted_wrt (<) (map tk_rank (column_of org status rows)) \<and>
     distinct (map (\<lambda>r. (tk_organization r, tk_idempotency r)) (filter (\<lambda>r. tk_idempotency r \<noteq> None) rows)) \<and>
     list_all (\<lambda>r. is_rank (tk_rank r) \<and> length (tk_rank r) \<le> rank_column_max \<and>
       (tk_completed r \<noteq> None \<longleftrightarrow> tk_status r = Task_done) \<and>
       (tk_organization r, tk_project r) \<in> set (bd_projects b) \<and>
       (case tk_milestone r of None \<Rightarrow> True
        | Some mid \<Rightarrow> map_option ms_project (find_milestone (tk_organization r) b mid) = Some (tk_project r))) rows"
proof -
  define b where "b = ps_board (plan_run as empty_plan)"
  have inv: "board_inv b" unfolding b_def by (rule reached_inv)
  have "inj_on (\<lambda>r. (tk_organization r, tk_idempotency r)) (set (filter (\<lambda>r. tk_idempotency r \<noteq> None) (bd_tasks b)))"
    by (rule inj_onI, rule board_keys [OF inv]) simp_all
  moreover have "distinct (bd_tasks b)" using inv by (simp add: board_inv_def)
  ultimately have keys: "distinct (map (\<lambda>r. (tk_organization r, tk_idempotency r)) (filter (\<lambda>r. tk_idempotency r \<noteq> None) (bd_tasks b)))"
    by (simp add: distinct_map)
  have "is_rank (tk_rank r) \<and> length (tk_rank r) \<le> rank_column_max \<and> (tk_completed r \<noteq> None \<longleftrightarrow> tk_status r = Task_done) \<and>
      (tk_organization r, tk_project r) \<in> set (bd_projects b) \<and>
      (case tk_milestone r of None \<Rightarrow> True
       | Some mid \<Rightarrow> map_option ms_project (find_milestone (tk_organization r) b mid) = Some (tk_project r))"
    if "r \<in> set (bd_tasks b)" for r
  proof -
    have r: "row_holds r" "filed_in b r" using inv that by (simp_all add: board_inv_def)
    then show ?thesis using filed_milestone [OF inv r(2)]
      by (simp add: row_holds_def done_told_def filed_in_def split: option.split)
  qed
  then show ?thesis using column_strict [OF inv, of org status] keys unfolding b_def [symmetric] Let_def list_all_iff by blast
qed

subsection \<open>Moves\<close>

text \<open>C21: a move is one in the lists. Whoever moves a task, when the neighbours it reads are those of
  the board it writes to and the write lands, then in every workspace and column the order of the
  board is the order it had, less the moved task, with the task put where it was asked for: first,
  last, or right after the task named. One row's key is all that was written.\<close>

theorem a_move_is_one_in_the_lists:
  assumes "b = ps_board (plan_run as empty_plan)" "h \<in> set (ps_hands (plan_run as empty_plan))"
    "move_task p (bd_tasks b) now (hd_task h) b = (t', Inr b')"
  shows "board_order b' = order_moved (tk_organization (hd_task h)) (tk_id (hd_task h)) p (board_order b)"
proof (intro ext)
  fix org status
  have inv: "board_inv b" using reached_inv assms(1) by simp
  have t: "done_told (hd_task h)" "ranks_read (bd_tasks b)"
    using plan_invD(3) [OF plan_run_inv] assms(2) inv
    by (auto simp: list_all_iff hand_fits_def ranks_read_def board_inv_def row_holds_def)
  from place_attempt_cases [OF assms(3) [unfolded move_task_def] t] obtain b1
    where p: "rank_for (hd_task h) p (bd_tasks b) = Inr (tk_rank t')" "same_instance (hd_task h) t'" "tk_status t' = pl_status p"
      "write_row (set_place t') t' b = Inr b1" "b' = log_and_stage t' b1" by blast
  note w = write_row_rewritten [OF inv p(4)]
  show "board_order b' org status = order_moved (tk_organization (hd_task h)) (tk_id (hd_task h)) p (board_order b) org status"
    using written_order [OF inv w p(1)] p(2,3,5) by (simp add: same_instance_def board_order_def)
qed

theorem a_move_is_one_in_the_lists_witness:
  "\<exists>t' b'. move_task (after_task Task_todo ''a'') (bd_tasks (ps_board demo_plan)) 5 (hd_task (hd (ps_hands demo_plan))) (ps_board demo_plan) =
     (t', Inr b') \<and> board_order b' ''o'' Task_todo = [''a'', ''c'', ''b'']"
proof -
  let ?m = "move_task (after_task Task_todo ''a'') (bd_tasks (ps_board demo_plan)) 5 (hd_task (hd (ps_hands demo_plan))) (ps_board demo_plan)"
  have "case ?m of (_, Inl _) \<Rightarrow> False | (_, Inr _) \<Rightarrow> True" by code_simp
  then obtain t' b' where m: "?m = (t', Inr b')" by (auto split: prod.splits sum.splits)
  have h: "ps_hands demo_plan \<noteq> []" "tk_organization (hd_task (hd (ps_hands demo_plan))) = ''o''" "tk_id (hd_task (hd (ps_hands demo_plan))) = ''c''"
    by code_simp+
  have "board_order b' = order_moved ''o'' ''c'' (after_task Task_todo ''a'') (board_order (ps_board demo_plan))"
    using a_move_is_one_in_the_lists [OF demo_plan_def [THEN arg_cong, of ps_board] _ m] h by (simp add: demo_plan_def)
  then have "board_order b' ''o'' Task_todo = [''a'', ''c'', ''b'']"
    by (simp add: order_moved_def demo_columns after_task_def)
  then show ?thesis using m by blast
qed

subsection \<open>Attaching a session\<close>

lemma sort_key_map:
  assumes "\<And>x. f (g x) = f x"
  shows "sort_key f (map g xs) = map g (sort_key f xs)"
proof -
  have "insort_key f (g x) (map g ys) = map g (insort_key f x ys)" for x ys by (induction ys) (simp_all add: assms)
  then show ?thesis by (induction xs) simp_all
qed

lemma same_order:
  assumes "rewritten id t b b'"
  shows "board_order b' = board_order b"
proof (intro ext)
  fix org status
  obtain r r' where r: "r' = r\<lparr>tk_version := tk_version r + 1\<rparr>" "bd_tasks b' = map (\<lambda>x. if x = r then r' else x) (bd_tasks b)"
    using assms by (auto simp: rewritten_def)
  have "filter (at_place org status) (bd_tasks b') = map (\<lambda>x. if x = r then r' else x) (filter (at_place org status) (bd_tasks b))"
    unfolding r(2) filter_map by (rule arg_cong [of _ _ "map _"], rule filter_cong) (auto simp: r(1) at_place_def)
  then show "board_order b' org status = board_order b org status"
    by (simp add: board_order_def column_at sort_key_map r(1))
qed

lemma order_cong: "bd_tasks b' = bd_tasks b \<Longrightarrow> board_order b' = board_order b"
  by (simp add: board_order_def fun_eq_iff)

text \<open>A write of one row leaves the order of the others, wherever it puts its own.\<close>

lemma rest_in_order:
  assumes "rewritten f t b b'" "\<And>r. tk_id (f r) = tk_id r"
  shows "filter (\<lambda>x. x \<noteq> tk_id t) (board_order b' org status) = filter (\<lambda>x. x \<noteq> tk_id t) (board_order b org status)"
proof -
  obtain r r' where r: "row_hit t r" "r' = (f r)\<lparr>tk_version := tk_version r + 1\<rparr>"
    "bd_tasks b' = map (\<lambda>x. if x = r then r' else x) (bd_tasks b)"
    using assms(1) by (auto simp: rewritten_def)
  have ids: "tk_id r = tk_id t" "tk_id r' = tk_id t" using r(1,2) assms(2) by (simp_all add: row_hit_def)
  have "filter (\<lambda>x. tk_id x \<noteq> tk_id t) (map (\<lambda>x. if x = r then r' else x) xs) = filter (\<lambda>x. tk_id x \<noteq> tk_id t) xs" for xs
    using ids by (induction xs) auto
  then have others: "filter (\<lambda>x. tk_id x \<noteq> tk_id t) (bd_tasks b') = filter (\<lambda>x. tk_id x \<noteq> tk_id t) (bd_tasks b)"
    unfolding r(3) by simp
  have rest: "filter (\<lambda>x. x \<noteq> tk_id t) (board_order c org status) =
      map tk_id (sort_key tk_rank (filter (at_place org status) (filter (\<lambda>x. tk_id x \<noteq> tk_id t) (bd_tasks c))))" for c
    by (simp add: board_order_def column_at filter_map comp_def filter_sort conj_commute)
  show ?thesis unfolding rest others ..
qed

lemma placed_there:
  assumes "rewritten (set_place t) t b b'"
  shows "tk_id t \<in> set (board_order b' (tk_organization t) (tk_status t))"
proof -
  obtain r r' where r: "r \<in> set (bd_tasks b)" "row_hit t r" "r' = (set_place t r)\<lparr>tk_version := tk_version r + 1\<rparr>"
    "bd_tasks b' = map (\<lambda>x. if x = r then r' else x) (bd_tasks b)"
    using assms by (auto simp: rewritten_def)
  have "r' \<in> set (bd_tasks b')" unfolding r(4) using r(1) by auto
  moreover have "tk_id r' = tk_id t" "at_place (tk_organization t) (tk_status t) r'"
    using r(2,3) by (simp_all add: row_hit_def set_place_def at_place_def)
  ultimately show ?thesis by (force simp: board_order_def column_at)
qed

text \<open>C24: attaching a session moves its task only when nobody had started it and it still is where the
  person saw it: then the task is in the work in progress, every other task is where it was, in its
  order, and when the neighbours read before the write are still those of the board the task is the
  first there; neighbours read earlier may leave it below a task that came since. In every other case,
  a drag made after the click among them, the order of the board is as it was.\<close>

theorem an_attachment_moves_only_a_task_nobody_moved:
  assumes "b = ps_board (plan_run as empty_plan)" "h \<in> set (ps_hands (plan_run as empty_plan))"
    "rows = bd_tasks b \<or> rows \<in> set (ps_seen (plan_run as empty_plan))"
    "find_task (tk_organization (hd_task h)) (tk_id (hd_task h)) b = Some locked"
    "attach_attempt l seen rows now (hd_task h) b = (t', Inr b')"
  shows "if seen = Task_todo \<and> tk_status locked = Task_todo
     then tk_id locked \<in> set (board_order b' (tk_organization locked) Task_doing) \<and>
       (\<forall>org status. filter (\<lambda>x. x \<noteq> tk_id locked) (board_order b' org status) =
          filter (\<lambda>x. x \<noteq> tk_id locked) (board_order b org status)) \<and>
       (rows = bd_tasks b \<longrightarrow> board_order b' =
          order_moved (tk_organization locked) (tk_id locked) \<lparr>pl_status = Task_doing, pl_after = After_nothing\<rparr> (board_order b))
     else board_order b' = board_order b"
proof -
  have inv: "board_inv b" using reached_inv assms(1) by simp
  have t: "done_told (hd_task h)" "ranks_read rows"
    using plan_invD(2,3) [OF plan_run_inv, of as] assms(2,3) inv
    by (auto simp: list_all_iff hand_fits_def ranks_read_def board_inv_def row_holds_def)
  have starts: "seen \<in> set task_statuses_before_work \<and> tk_status locked = seen \<longleftrightarrow> seen = Task_todo \<and> tk_status locked = Task_todo"
    by (auto simp: task_statuses_before_work_def)
  have locked: "tk_id locked = tk_id (hd_task h)" "tk_organization locked = tk_organization (hd_task h)"
    using find_task_Some [OF assms(4)] by simp_all
  from attach_attempt_cases [OF inv t assms(5,4)] obtain b0 b1 t2
    where c: "bd_tasks b0 = bd_tasks b" "board_inv b0" "same_instance (hd_task h) t2" "bd_tasks b' = bd_tasks b1"
      "if seen = Task_todo \<and> tk_status locked = Task_todo
       then rewritten (set_place t2) t2 b0 b1 \<and> tk_status t2 = Task_doing \<and> rank_for (hd_task h) first_in_doing rows = Inr (tk_rank t2)
       else rewritten id t2 b0 b1"
    unfolding starts by (metis (full_types))
  note same = order_cong [OF c(1)] order_cong [OF c(4)]
  show ?thesis
  proof (cases "seen = Task_todo \<and> tk_status locked = Task_todo")
    case True
    then have w: "rewritten (set_place t2) t2 b0 b1" "tk_status t2 = Task_doing"
      "rank_for (hd_task h) first_in_doing rows = Inr (tk_rank t2)" using c(5) by simp_all
    have t2: "tk_id t2 = tk_id locked" "tk_organization t2 = tk_organization locked"
      using c(3) locked by (simp_all add: same_instance_def)
    have "board_order b1 = order_moved (tk_organization (hd_task h)) (tk_id (hd_task h)) first_in_doing (board_order b0)"
      if "rows = bd_tasks b"
    proof (intro ext)
      fix org status
      have "rank_for (hd_task h) first_in_doing (bd_tasks b0) = Inr (tk_rank t2)" using w(3) that c(1) by simp
      then show "board_order b1 org status =
          order_moved (tk_organization (hd_task h)) (tk_id (hd_task h)) first_in_doing (board_order b0) org status"
        using w(2) c(3) by (intro written_order [OF c(2) w(1)]) (simp_all add: same_instance_def first_in_doing_def)
    qed
    moreover have "tk_id locked \<in> set (board_order b1 (tk_organization locked) Task_doing)"
      using placed_there [OF w(1)] w(2) t2 by simp
    moreover have "filter (\<lambda>x. x \<noteq> tk_id locked) (board_order b1 org status) = filter (\<lambda>x. x \<noteq> tk_id locked) (board_order b0 org status)" for org status
      using rest_in_order [OF w(1), of org status] t2(1) by (simp add: set_place_def)
    ultimately show ?thesis using True same locked by (simp add: first_in_doing_def)
  next
    case False
    then have "rewritten id t2 b0 b1" using c(5) by (simp only: if_False)
    then show ?thesis using False same same_order by (simp only: if_False)
  qed
qed

theorem an_attachment_moves_only_a_task_nobody_moved_witness:
  "\<exists>t' b'. attach_attempt demo_link Task_todo (bd_tasks (ps_board demo_plan)) 5 (hd_task (hd (ps_hands demo_plan))) (ps_board demo_plan) =
     (t', Inr b') \<and> board_order b' ''o'' Task_todo = [''a'', ''b''] \<and> board_order b' ''o'' Task_doing = [''c'', ''d'']"
proof -
  let ?m = "attach_attempt demo_link Task_todo (bd_tasks (ps_board demo_plan)) 5 (hd_task (hd (ps_hands demo_plan))) (ps_board demo_plan)"
  have "case ?m of (_, Inl _) \<Rightarrow> False | (_, Inr _) \<Rightarrow> True" by code_simp
  then obtain t' b' where m: "?m = (t', Inr b')" by (auto split: prod.splits sum.splits)
  have h: "ps_hands demo_plan \<noteq> []" "tk_organization (hd_task (hd (ps_hands demo_plan))) = ''o''" "tk_id (hd_task (hd (ps_hands demo_plan))) = ''c''"
    by code_simp+
  have "case find_task ''o'' ''c'' (ps_board demo_plan) of None \<Rightarrow> False
      | Some r \<Rightarrow> tk_status r = Task_todo \<and> tk_id r = ''c'' \<and> tk_organization r = ''o''" by code_simp
  then obtain r where r: "find_task ''o'' ''c'' (ps_board demo_plan) = Some r" "tk_status r = Task_todo" "tk_id r = ''c''" "tk_organization r = ''o''"
    by (auto split: option.splits)
  have "board_order b' = order_moved ''o'' ''c'' \<lparr>pl_status = Task_doing, pl_after = After_nothing\<rparr> (board_order (ps_board demo_plan))"
    using an_attachment_moves_only_a_task_nobody_moved [OF demo_plan_def [THEN arg_cong, of ps_board] _ _ _ m, of r] h r
    by (simp add: demo_plan_def)
  then show ?thesis using m by (simp add: order_moved_def demo_columns)
qed

subsection \<open>Writers that name a version\<close>

text \<open>What a write under a named version finds and leaves.\<close>

definition only_over :: "task \<Rightarrow> plan_board \<Rightarrow> plan_board \<Rightarrow> bool" where
  "only_over r0 b b' \<longleftrightarrow>
     (\<exists>r \<in> set (bd_tasks b). tk_id r = tk_id r0 \<and> unfiled r = unfiled r0) \<and>
     filter (\<lambda>x. tk_id x \<noteq> tk_id r0) (bd_tasks b') = filter (\<lambda>x. tk_id x \<noteq> tk_id r0) (bd_tasks b) \<and>
     (\<forall>r' \<in> set (bd_tasks b'). tk_id r' = tk_id r0 \<longrightarrow> tk_version r' = tk_version r0 + 1)"

lemma only_over_same: "bd_tasks b1 = bd_tasks b \<Longrightarrow> bd_tasks b1' = bd_tasks b' \<Longrightarrow> only_over r0 b1 b1' = only_over r0 b b'"
  by (simp add: only_over_def)

lemma read_row:
  assumes h: "hand_fits b h" "hd_read h = Some r0" and t: "same_instance (hd_task h) t" "te_expected t = Some (tk_version r0)"
    and r: "r \<in> set (bd_tasks b)" "row_hit t r"
  shows "tk_id r = tk_id r0" "unfiled r = unfiled r0" "tk_version r = tk_version r0"
proof -
  show "tk_id r = tk_id r0" "tk_version r = tk_version r0" using h t r(2) by (auto simp: row_hit_def hand_fits_def same_instance_def)
  moreover have "later_row r0 r" using h r(1) \<open>tk_id r = tk_id r0\<close> by (auto simp: hand_fits_def)
  ultimately show "unfiled r = unfiled r0" by (simp add: later_row_def)
qed

lemma rewritten_only:
  assumes inv: "board_inv b" and w: "rewritten f t b b'" and f: "\<And>r. row_hit t r \<Longrightarrow> tk_id (f r) = tk_id r"
    and h: "hand_fits b h" "hd_read h = Some r0" "same_instance (hd_task h) t" "te_expected t = Some (tk_version r0)"
  shows "only_over r0 b b'"
proof -
  obtain r r' where r: "r \<in> set (bd_tasks b)" "row_hit t r" "r' = (f r)\<lparr>tk_version := tk_version r + 1\<rparr>"
    "bd_tasks b' = map (\<lambda>x. if x = r then r' else x) (bd_tasks b)" using w unfolding rewritten_def by blast
  note rd = read_row [OF h r(1,2)]
  obtain xs ys where s: "bd_tasks b = xs @ r # ys" "filter (\<lambda>x. tk_id x \<noteq> tk_id r) (bd_tasks b) = xs @ ys" "bd_tasks b' = xs @ r' # ys"
    using row_split [OF inv r(1)] r(4) by metis
  have r': "tk_id r' = tk_id r0" "tk_version r' = tk_version r0 + 1" using r(3) f [OF r(2)] rd by simp_all
  have out: "x \<in> set (xs @ ys) \<Longrightarrow> tk_id x \<noteq> tk_id r0" for x using arg_cong [OF s(2), of set] rd(1) by auto
  have "filter (\<lambda>x. tk_id x \<noteq> tk_id r0) (bd_tasks b') = xs @ ys" using s(3) r' out by (simp add: filter_id_conv)
  then show ?thesis using s(2,3) r' rd r(1) out unfolding only_over_def by auto
qed

text \<open>C23: a writer that names the version it read overwrites nothing it has not seen. When an edit, a
  move, a detachment or a deletion lands under the version its request read, the row it replaces still
  is, in everything but where it is filed, the row that was read, every other task stays as it is, and
  the version goes up by one. (Where a task is filed may change under its version: a milestone that
  moves or is deleted refiles its tasks without counting their versions up.)\<close>

theorem a_named_version_is_never_overwritten:
  assumes "b = ps_board (plan_run as empty_plan)" "h \<in> set (ps_hands (plan_run as empty_plan))"
    "hd_read h = Some r0" "te_expected (hd_task h) = Some (tk_version r0)"
    "save_fields (hd_task h) b = Inr b' \<or> delete_task now (hd_task h) b = Inr b' \<or> detach_session sid (hd_task h) b = Inr b' \<or>
       rows \<in> set (ps_seen (plan_run as empty_plan)) \<and> snd (move_task p rows now (hd_task h) b) = Inr b'"
  shows "only_over r0 b b'"
  using assms(5)
proof (elim disjE conjE)
  have inv: "board_inv b" using reached_inv assms(1) by simp
  have fits: "hand_fits b h" using plan_invD(3) [OF plan_run_inv] assms(1,2) by (simp add: list_all_iff)
  note h = fits assms(3)
  {
    assume "save_fields (hd_task h) b = Inr b'"
    then obtain b1 where b1: "write_row (set_fields (hd_task h)) (hd_task h) b = Inr b1" "b' = log_and_stage (hd_task h) b1"
      by (auto simp: save_fields_def map_sum_Inr)
    have "only_over r0 b b1"
      by (rule rewritten_only [OF inv write_row_rewritten [OF inv b1(1)] _ h _ assms(4)]) (simp_all add: set_fields_def same_instance_def)
    then show ?thesis using b1(2) by (simp add: only_over_def)
  next
    assume "delete_task now (hd_task h) b = Inr b'"
    then obtain t' where t': "remove_task now (hd_task h) = Inr t'" "length (filter (row_hit t') (bd_tasks b)) = 1"
      "bd_tasks b' = filter (\<lambda>r. \<not> row_hit t' r) (bd_tasks b)"
      by (auto simp: delete_task_def split: sum.splits if_splits)
    then have i: "same_instance (hd_task h) t'" using remove_task_place by (auto simp: same_place_def)
    then have e: "te_expected t' = Some (tk_version r0)" using assms(4) by (simp add: same_instance_def)
    obtain r where r: "filter (row_hit t') (bd_tasks b) = [r]" using t'(2) by (auto simp: length_Suc_conv)
    have mem: "r \<in> set (bd_tasks b)" "row_hit t' r" using arg_cong [OF r, of set] by auto
    note rd = read_row [OF h i e mem]
    have "row_hit t' x \<longleftrightarrow> tk_id x = tk_id r0" if "x \<in> set (bd_tasks b)" for x
      using board_ids [OF inv that mem(1)] mem(2) rd(1) by (auto simp: row_hit_def)
    then have "bd_tasks b' = filter (\<lambda>x. tk_id x \<noteq> tk_id r0) (bd_tasks b)" using t'(3) by (simp cong: filter_cong)
    then show ?thesis using mem rd by (auto simp: only_over_def)
  next
    assume d: "detach_session sid (hd_task h) b = Inr b'"
    define b0 where "b0 = b\<lparr>bd_links := filter (\<lambda>(o1, t1, x). \<not> (o1 = tk_organization (hd_task h) \<and> t1 = tk_id (hd_task h) \<and> tl_session x = sid)) (bd_links b)\<rparr>"
    obtain b1 where b1: "write_row id (detach_task (hd_task h)) b0 = Inr b1" "b' = log_and_stage (detach_task (hd_task h)) b1"
      using d by (auto simp: detach_session_def Let_def map_sum_Inr b0_def)
    have b0: "board_inv b0" "bd_tasks b0 = bd_tasks b" using inv by (simp_all add: b0_def)
    have "only_over r0 b0 b1"
      by (rule rewritten_only [OF b0(1) write_row_rewritten [OF b0(1) b1(1)] _ _ assms(3)])
        (use fits b0(2) detach_task_place [of "hd_task h"] assms(4) in \<open>simp_all add: hand_fits_def same_place_def same_instance_def\<close>)
    then show ?thesis using b1(2) b0(2) by (simp add: only_over_def)
  next
    assume m: "rows \<in> set (ps_seen (plan_run as empty_plan))" "snd (move_task p rows now (hd_task h) b) = Inr b'"
    then obtain t' where t': "move_task p rows now (hd_task h) b = (t', Inr b')" by (cases "move_task p rows now (hd_task h) b") simp
    have "ranks_read rows" using plan_invD(2) [OF plan_run_inv] m(1) by (simp add: list_all_iff)
    from move_task_keeps [OF inv _ this t'] fits obtain b1
      where b1: "rewritten (set_place t') t' b b1" "b' = log_and_stage t' b1" "same_instance (hd_task h) t'" by (auto simp: hand_fits_def)
    have "only_over r0 b b1"
      by (rule rewritten_only [OF inv b1(1) _ h b1(3)]) (use b1(3) assms(4) in \<open>simp_all add: set_place_def same_instance_def row_hit_def\<close>)
    then show ?thesis using b1(2) by (simp add: only_over_def)
  }
qed

theorem a_named_version_is_never_overwritten_witness:
  "\<exists>b'. delete_task 7 (hd_task (hd (ps_hands demo_plan))) (ps_board demo_plan) = Inr b' \<and>
     filter (\<lambda>r. tk_id r \<noteq> ''c'') (bd_tasks b') = filter (\<lambda>r. tk_id r \<noteq> ''c'') (bd_tasks (ps_board demo_plan))"
proof -
  let ?h = "hd (ps_hands demo_plan)" and ?b = "ps_board demo_plan"
  have "case delete_task 7 (hd_task ?h) ?b of Inl _ \<Rightarrow> False | Inr _ \<Rightarrow> True" by code_simp
  then obtain b' where d: "delete_task 7 (hd_task ?h) ?b = Inr b'" by (auto split: sum.splits)
  have "case hd_read ?h of None \<Rightarrow> False | Some r \<Rightarrow> te_expected (hd_task ?h) = Some (tk_version r) \<and> tk_id r = ''c''" by code_simp
  then obtain r0 where r0: "hd_read ?h = Some r0" "te_expected (hd_task ?h) = Some (tk_version r0)" "tk_id r0 = ''c''"
    by (auto split: option.splits)
  have "ps_hands demo_plan \<noteq> []" by code_simp
  then have "only_over r0 ?b b'"
    using a_named_version_is_never_overwritten [OF demo_plan_def [THEN arg_cong, of ps_board] _ r0(1,2) disjI2 [OF disjI1 [OF d]]]
    by (simp add: demo_plan_def)
  then show ?thesis using d r0(3) by (simp add: only_over_def)
qed

subsection \<open>What a write logs\<close>

text \<open>What one placement makes of the changes to log and of what it remembers for the next.\<close>

lemma place_task_changes:
  assumes "place_task status rank now t = Inr t'"
  defines "from \<equiv> (case te_first_status t of None \<Rightarrow> tk_status t | Some s \<Rightarrow> s)"
    and "kept \<equiv> filter (\<lambda>c. te_place_change t \<noteq> Some (pc_ref c)) (te_changes t)"
  shows "te_first_status t' = Some from \<and> te_actor t' = te_actor t \<and>
    tk_id t' = tk_id t \<and> tk_organization t' = tk_organization t \<and>
    (if from = status then te_changes t' = kept \<and> te_place_change t' = None
     else te_place_change t' = Some (te_refs t) \<and> te_refs t' = te_refs t + 1 \<and>
       (\<exists>c. te_changes t' = kept @ [c] \<and> pc_ref c = te_refs t \<and> pc_kind c = place_event from status \<and>
         te_actor t = Some (pc_actor c)))"
proof -
  have touched: "te_first_status (touched w x) = te_first_status x" "te_actor (touched w x) = te_actor x"
    "te_changes (touched w x) = te_changes x" "te_place_change (touched w x) = te_place_change x" "te_refs (touched w x) = te_refs x"
    "tk_id (touched w x) = tk_id x" "tk_organization (touched w x) = tk_organization x" for w x
    by (simp_all add: touched_def split: list.split)
  show ?thesis
    using assms(1) unfolding from_def kept_def
    by (auto simp: place_task_def sync_place_def Let_def map_sum_Inr record_change_def touched
        split: sum.splits if_splits option.splits)
qed

text \<open>The instance after the attempts \<open>withRankRetry\<close> made with it, each on the board it found then.\<close>

fun move_tries :: "task_placement \<Rightarrow> (task list \<times> date \<times> plan_board) list \<Rightarrow> task_entity \<Rightarrow> task_entity" where
  "move_tries p [] t = t"
| "move_tries p ((rows, now, b) # tries) t = move_tries p tries (fst (move_task p rows now t b))"

text \<open>The task as a request read it, or with the one change its last placement logged.\<close>

definition place_logged :: "task_status \<Rightarrow> task_status \<Rightarrow> task_entity \<Rightarrow> bool" where
  "place_logged from status t \<longleftrightarrow> te_first_status t = Some from \<and>
     (if from = status then te_changes t = [] \<and> te_place_change t = None
      else \<exists>c. te_changes t = [c] \<and> te_place_change t = Some (pc_ref c) \<and> pc_kind c = place_event from status \<and>
        te_actor t = Some (pc_actor c))"

definition in_placing :: "task_status \<Rightarrow> task_status \<Rightarrow> task_entity \<Rightarrow> task_entity \<Rightarrow> bool" where
  "in_placing from status t0 t \<longleftrightarrow>
     te_actor t = te_actor t0 \<and> tk_id t = tk_id t0 \<and> tk_organization t = tk_organization t0 \<and>
     (te_first_status t = None \<and> te_changes t = [] \<and> te_place_change t = None \<and> tk_status t = from \<or>
      place_logged from status t)"

lemma placed_logged:
  assumes "in_placing from status t0 t" "place_task status key now t = Inr t'"
  shows "place_logged from status t' \<and> in_placing from status t0 t'"
  using place_task_changes [OF assms(2)] assms(1)
  by (auto simp: place_logged_def in_placing_def split: if_splits)

lemma move_task_placing:
  assumes "in_placing (tk_status r) (pl_status p) t0 t"
  shows "in_placing (tk_status r) (pl_status p) t0 (fst (move_task p rows now t b))"
  using assms placed_logged [OF assms]
  by (simp add: move_task_def place_attempt_def split: sum.split)

lemma move_tries_placing:
  "in_placing (tk_status r) (pl_status p) t0 t \<Longrightarrow> in_placing (tk_status r) (pl_status p) t0 (move_tries p tries t)"
  by (induction p tries t rule: move_tries.induct) (auto intro: move_task_placing)

text \<open>C27: A move is logged once and as what it was, however many attempts it took. Each attempt that lost
  its key to another is made again with the same instance, on whatever board it then finds; when one
  lands, the log gets one entry, by the person who moved the task: completed, reopened or moved, from
  the column the task was in when it was read. It gets none when the task stays in its column.\<close>

theorem a_retried_move_is_logged_once:
  assumes "move_task p rows now (move_tries p tries (expect_version v (acting_as actor (task_of links r)))) b = (t', Inr b')"
  shows "\<exists>cs. bd_log b' = bd_log b @ cs \<and>
    map (\<lambda>(org, tid, c). ((org, tid), pc_kind c, pc_actor c)) cs =
      (if tk_status r = pl_status p then []
       else [((tk_organization r, tk_id r), place_event (tk_status r) (pl_status p), actor)])"
proof -
  define t0 where "t0 = expect_version v (acting_as actor (task_of links r))"
  have t0: "in_placing (tk_status r) (pl_status p) t0 t0" "te_actor t0 = Some actor" "tk_id t0 = tk_id r"
    "tk_organization t0 = tk_organization r"
    by (simp_all add: t0_def in_placing_def expect_version_def acting_as_def task_of_def task.defs)
  obtain key b1 where k: "place_task (pl_status p) key now (move_tries p tries t0) = Inr t'"
    "write_row (set_place t') t' b = Inr b1" "b' = log_and_stage t' b1"
    using assms unfolding t0_def [symmetric] by (auto simp: move_task_def place_attempt_def map_sum_Inr split: sum.splits)
  have t': "place_logged (tk_status r) (pl_status p) t'" "te_actor t' = Some actor" "tk_id t' = tk_id r" "tk_organization t' = tk_organization r"
    using placed_logged [OF move_tries_placing [OF t0(1)] k(1)] t0(2-4) by (simp_all add: in_placing_def)
  have "bd_log b1 = bd_log b" using k(2) by (auto simp: write_row_def Let_def split: list.splits option.splits)
  then show ?thesis using t' k(3) by (auto simp: place_logged_def log_and_stage_def split: if_splits)
qed

text \<open>The first attempt read no task in the column and takes the key of the one that is there.\<close>

theorem a_retried_move_is_logged_once_witness:
  "\<exists>t' b' c. lost_key (snd (move_task first_in_doing [] 5
       (expect_version None (acting_as ana (task_of [] (hd (bd_tasks (ps_board demo_plan)))))) (ps_board demo_plan))) \<and>
     move_task first_in_doing (bd_tasks (ps_board demo_plan)) 6
       (move_tries first_in_doing [([], 5, ps_board demo_plan)]
          (expect_version None (acting_as ana (task_of [] (hd (bd_tasks (ps_board demo_plan)))))))
       (ps_board demo_plan) = (t', Inr b') \<and>
     bd_log b' = bd_log (ps_board demo_plan) @ [(''o'', ''a'', c)] \<and> pc_kind c = Plan_status_changed Task_todo Task_doing"
proof -
  let ?r = "hd (bd_tasks (ps_board demo_plan))" and ?b = "ps_board demo_plan"
  let ?m = "move_task first_in_doing (bd_tasks ?b) 6 (move_tries first_in_doing [([], 5, ?b)]
      (expect_version None (acting_as ana (task_of [] ?r)))) ?b"
  have "case ?m of (_, Inl _) \<Rightarrow> False | (_, Inr _) \<Rightarrow> True" by code_simp
  then obtain t' b' where m: "?m = (t', Inr b')" by (auto split: prod.splits sum.splits)
  have r: "tk_status ?r = Task_todo" "tk_id ?r = ''a''" "tk_organization ?r = ''o''" by code_simp+
  obtain cs where cs: "bd_log b' = bd_log ?b @ cs"
    "map (\<lambda>(org, tid, c). ((org, tid), pc_kind c, pc_actor c)) cs = [((''o'', ''a''), Plan_status_changed Task_todo Task_doing, ana)]"
    using a_retried_move_is_logged_once [OF m] by (auto simp: r first_in_doing_def place_event_def)
  from cs(2) obtain c where c: "cs = [(''o'', ''a'', c)]" "pc_kind c = Plan_status_changed Task_todo Task_doing" by auto
  have "lost_key (snd (move_task first_in_doing [] 5 (expect_version None (acting_as ana (task_of [] ?r))) ?b))" by code_simp
  then show ?thesis using m cs(1) c by blast
qed

subsection \<open>A block that comes late\<close>

text \<open>A task in Done can come to be blocked. The entity never blocks a Done task and a move to Done
  unblocks, but the fields an edit writes come from the instance its request read: an edit with no
  version named that blocks a task, read before the task went to Done, lands after it.\<close>

lemma a_late_block_lands_on_a_done_task:
  "list_ex (\<lambda>r. tk_status r = Task_done \<and> tk_completed r \<noteq> None \<and> tk_blocked_reason r = Some ''waits on Bo'')
     (bd_tasks (ps_board (plan_run late_block empty_plan)))"
  by code_simp

subsection \<open>A full column\<close>

text \<open>C26: a column holds no more than 640 tasks that were each added below the last, though the policy
  always finds a key: five tasks on, the key is a digit longer, and the database keeps keys of 128.
  However many more are created in the column the database refuses them, and the request fails.\<close>

theorem a_column_filled_from_below_takes_640_tasks:
  "length (bd_tasks (ps_board (plan_run (filling n) empty_plan))) = min n 640"
  using filling_filled [of n] by (simp add: filled_def)

end
