(* ===== verification/Spec2Isabelle.thy ===== *)
theory Spec2Isabelle
  imports
    Session_Properties
    Work_Session_Properties
    Session_Input_Properties
    Automation_Properties
    Access_Properties
    Token_Properties
    Flag_Properties
    Bot_Properties
    Bot_Card_Properties
    Task_Properties
begin

text \<open>
  A verification development of the Oppenheimer control plane: the API server of
  \<^verbatim>\<open>apps/api\<close> and the contracts it shares with its clients and its hosts
  (\<^verbatim>\<open>packages/shared\<close>). The code is TypeScript.

  \<^bold>\<open>What the program is.\<close> A person starts coding agents on hosts they paired, or at
  a cloud vendor. A session is one agent at work on checkouts of repositories; its host reports
  what happened as entries of an append-only log, and everything the server knows of the session
  is a fold of that log, stored in a row beside it and advanced one entry at a time. An automation
  is a saved prompt with triggers; a trigger that fires makes a run, and a dispatched run becomes
  a session or a turn of a bot. A bot answers in turns, one at a time: a message, a routine, a wake,
  another bot, a goal and a loop each queue one, and workers that may die run them. Plan is a board of
  tasks in four columns, ordered by fractional keys, grouped by milestones; sessions work on tasks.

  \<^bold>\<open>How the theories follow the code.\<close>

  \<^item> \<open>Js_Prelude\<close> and \<open>Js_Date\<close>: what the code uses of its language. A string is a list of
    characters, one per UTF-16 code unit below 256; a payload is a \<open>json\<close> value; a \<open>Date\<close> is its
    milliseconds as an integer, and calendar arithmetic is written out over days. Lookups of an
    absent key are \<open>JUndefined\<close>, numbers are rationals.
  \<^item> \<open>Fold_Interfaces\<close>: the contracts folds over a log share, as locales (an invariant every step
    keeps, a final state, a rank no step lowers, a counter of changes, a bounded window with one
    entry per key). \<open>Session_Invariant\<close> and \<open>Session_Turn\<close> interpret them on the folds of the
    code.
  \<^item> \<open>Agent_Catalog\<close>: the data of every agent and model, and the lookups over it
    (\<^verbatim>\<open>packages/shared/src/agents\<close>).
  \<^item> \<open>Session_Schemas\<close>: what each zod schema of a log payload accepts, as a parser from \<open>json\<close>.
  \<^item> \<open>Session_State\<close>, \<open>Session_Invariant\<close>, \<open>Session_Group\<close>: \<open>foldSessionEvent\<close> of
    \<^verbatim>\<open>session-state.policy.ts\<close>, a handler per kind of entry, and the group the row is listed in.
  \<^item> \<open>Session_Turn\<close>: \<open>foldTurnEvent\<close> of \<^verbatim>\<open>session-turn.policy.ts\<close>.
  \<^item> \<open>Domain_Base\<close>, \<open>Session_Checkout\<close>, \<open>Session_Plan\<close>: errors of entities, slugs, checkouts with their
    branches and directories, and the plan that attaches them.
  \<^item> \<open>Session_Decision\<close>, \<open>Session_Prompt\<close>, \<open>Session_Wake\<close>: what is typed into a session, and when.
    \<open>Session_Decision\<close> also says what the keys of an answer come to: \<open>picker\<close> is the menu at the other
    end as the comments of \<^verbatim>\<open>question-keys.ts\<close> and \<^verbatim>\<open>session-decision.policy.ts\<close> describe it, a reference of
    this development and no code of the repository.
  \<^item> \<open>Session_Cloud\<close>, \<open>Session_Share\<close>, \<open>Runner_Refusal\<close>: the cloud run of a session, the shares of its
    terminal, and whether a host takes a launch.
  \<^item> \<open>Work_Session\<close>, \<open>Work_Session_Facts\<close>, \<open>Work_Session_Steps\<close>: the aggregate
    (\<^verbatim>\<open>work-session.entity.ts\<close>), whose \<open>recordEvent\<close> composes the two folds, the checkouts and the
    events raised on the bus; its operations are the steps of \<open>session_op\<close>.
  \<^item> \<open>Schedule\<close>: \<open>nextScheduleOccurrence\<close> of \<^verbatim>\<open>schedule.ts\<close>.
  \<^item> \<open>Automation\<close>, \<open>Automation_Facts\<close>: the automation aggregate, its operations as the steps of
    \<open>automation_step\<close>.
  \<^item> \<open>Automation_Run\<close>, \<open>Automation_Guards\<close>: the run aggregate, the limits, the guards, and the
    decisions of the scheduler, the event trigger and the dispatcher.
  \<^item> \<open>Js_Strings\<close>: \<open>split\<close>, \<open>join\<close>, digits, and \<open>Number\<close> of a string.
  \<^item> \<open>Access_Scope\<close>, \<open>Access_Grant\<close>, \<open>Resource_Catalog\<close>: the resources modules declare, the conditions
    \<open>applyAccessScope\<close> adds to a query and the rows they select, the table of access grants with the
    commands that change it, and the registry of the application (\<^verbatim>\<open>packages/backend/authz\<close>,
    \<^verbatim>\<open>apps/api/src/authz\<close>). The grant table is the relation \<open>grant_table\<close>.
  \<^item> \<open>Scopes\<close>, \<open>Ip_Allowlist\<close>, \<open>Api_Token\<close>: the permission scopes of credentials, the address list, and
    API tokens with their rows, their commands, the resolver of a secret and the guards; the rows
    over time are \<open>token_step\<close>.
  \<^item> \<open>Flag_Evaluation\<close>: feature flags, with the hash on 32-bit words, and MurmurHash3 once more, written
    over natural numbers from its published description and tried on published values.
  \<^item> \<open>Bot_Turn\<close>, \<open>Bot_Commands\<close>, \<open>Bot_Goal\<close>: the turn, the chain of turns bots ask of each other, the
    commands typed in the box, goals, loops and their continuations
    (\<^verbatim>\<open>apps/api/src/bots-chat/domain\<close>, \<^verbatim>\<open>packages/shared/src/schemas/bot-skill.schema.ts\<close>).
  \<^item> \<open>Bot_Queue\<close>: the tables and each transaction on them, with the keys of the database
    (\<^verbatim>\<open>apps/api/src/bots-chat/database\<close>). \<open>Bot_System\<close>: the command handlers over the tables, and the
    system they make with the workers and the entities other processes hold in memory. A step is one
    transaction, so a run is any interleaving of the processes.
  \<^item> \<open>Bot_Table\<close>, \<open>Bot_Queue_Facts\<close>, \<open>Bot_Queue_Moves\<close>, \<open>Bot_Queue_Deletes\<close>: the invariant of the table of
    turns, and what each transaction keeps of it. \<open>System_Interfaces\<close>: the contracts of a concurrent
    system, as locales. \<open>Bot_System_Facts\<close>, \<open>Bot_Liveness\<close>, \<open>Bot_Drain\<close> interpret them on the bots.
  \<^item> \<open>Bot_Permission\<close>, \<open>Bot_Tools\<close>: what the owner of a bot set for its tools (decisions, standing grants,
    rules in plain words), and a call of a tool up to the point where it runs, asks or fails
    (\<^verbatim>\<open>bot-tool.factory.ts\<close>, \<^verbatim>\<open>bot-toolbox.factory.ts\<close>). \<open>Bot_Approval\<close>, \<open>Bot_Question\<close>, \<open>Bot_Text\<close>: the card
    of a call, the card of questions, and the texts the model reads of them.
  \<^item> \<open>Bot_Cards\<close>: the tables of cards, settings and rules with their keys, and each transaction on them.
    \<open>Bot_Card_System\<close>: the handlers that raise, decide and expire cards and the workers of approved
    calls, over these tables and those of the turns together; again a step is one transaction.
  \<^item> \<open>Bot_Card_Moves\<close>, \<open>Bot_Card_Inv\<close>, \<open>Bot_Card_Kept\<close>, \<open>Bot_Card_Limits\<close>, \<open>Bot_Card_Steps\<close>: the moves the steps are
    made of, as the relation \<open>card_move\<close>, the invariant of the cards and of the trace of what happened,
    what keeps each part of it, and the interpretation of \<open>followed_system\<close>.
  \<^item> \<open>Task_Rank\<close>, \<open>Task\<close>: the keys that order a column (\<^verbatim>\<open>task-rank.policy.ts\<close>), the task and
    the milestone with the changes they log (\<^verbatim>\<open>apps/api/src/tasks/domain\<close>). \<open>Task_Board\<close>: the tables with
    their keys and checks, and each transaction on them. \<open>Task_System\<close>: the handlers over the tables; a
    step is one read or one transaction, and a placement may have read its neighbours at any time before.
  \<^item> \<open>System_Interfaces\<close> also holds what a source of keys has to promise so that moving one element writes one key, as
    a locale; \<open>Task_Facts\<close> interprets it on the ranks. \<open>Task_Facts\<close>, \<open>Task_Inv\<close>: the invariant of the
    board and of the instances in memory, and the interpretation of \<open>kept_system\<close>. \<open>Task_Order\<close>: the board
    as lists of tasks, and moves on them.
  \<^item> The theories named \<open>_Properties\<close> state the properties; they, \<open>Session_Examples\<close>, \<open>Bot_Examples\<close> and
    \<open>Task_Examples\<close>, with the run that fills a column, hold the inputs the witnesses evaluate.

  \<^bold>\<open>How state and operations correspond.\<close> A class or a row is a record with the code's
  fields under a prefix, an enum is a datatype, an operation is a definition from the old record to
  the new one; a \<open>throw\<close> is \<open>Inl\<close> of an error, \<open>null\<close> is \<open>None\<close>, and a field of an edit that may be
  absent or null is an option of an option. The clock, a fresh id, random draws, what a port or a
  repository answers and what \<open>Intl\<close> knows of a zone are arguments.

  \<^bold>\<open>What the lemmas show.\<close> The row's and the turn's invariants hold after every log; the
  state follows a four-state machine and its number tells whether it moved; a closed session and
  a deleted automation never change; the aggregate is the replay of its log and never throws; a
  schedule's next slot is the first later one and exists; a run is settled once and in the end;
  whoever types into a shared session was named and has at most a day, and the keys of an answer
  choose what the answer says. A query never leaves its
  tenant and selects exactly what its scope reaches; a grant opens only what its author reaches, and
  with the application's resources none opens anything; a token never exceeds its minter, and once
  revoked stays so; a flag serves only its own values, a growing rollout takes nothing away, and the
  buckets are those of MurmurHash3.
  However the processes of the bots interleave, die and start again, a bot runs one turn at a time, an
  ended turn stays as it ended, chains keep their bounds and the reach of the person they began with,
  and a queue with work always has something that will run it, as long as no turn that has ended takes
  a steer (\<open>steers_live\<close>; without that the code strands a message). A chain's budget counts the rows in
  the table: \<open>asks_sent\<close> and \<open>asks_deleted\<close> count what was sent over a whole run and what deletes took
  out again. A tool that asks runs on the owner's yes, on a grant
  or on a rule and on nothing else; what runs on a yes is the call the card showed, under no more than
  both credentials cover, and it runs in the end; a card is decided once and reported once, a bot waits
  on one card, and no text from outside closes the fence it is shown in. The columns of the board stay
  strictly in order however its requests interleave; a move is one in the lists and writes one row, an
  attachment moves only a task that is still where it was seen, and a writer that names a version
  overwrites nothing it has not read; a column filled from below takes 640 tasks, and a move is
  logged once however often it is tried. Three lemmas run a fault on one input each:
  \<open>stopping_a_waiting_message_fails_another\<close>, \<open>a_late_steer_strands_a_message\<close> and
  \<open>a_late_block_lands_on_a_done_task\<close>.

  \<^bold>\<open>Bounds.\<close> The schedule looks 63 days or 49 hours ahead, as the code does, and
  \<open>next_exists\<close> shows that is enough: a weekday comes within 9 days and a day of the month up to the
  28th within 62. Its zones are offsets of whole minutes within fifteen hours, from an instant on.
  The table of tasks keeps keys of 128 characters, as the database does.
  No definition uses fuel: every loop is structural or has a measure. Draining the queues of the bots
  takes at most three worker steps for each turn that waits or runs.

  \<^bold>\<open>Not modelled.\<close> Database repositories, HTTP controllers and the wiring of the
  framework; the transport to hosts; calls to GitHub, the vendors and the models; the user
  interfaces; the programs in Go; of the bots, what the engine writes while a turn runs, what each tool
  does once it runs (a tool is its declaration: a schema, a subject and a summary given as functions),
  the messages on an open chat's stream, the session an approval may point to, their memory and
  prompts, and the outbox as anything but a list of jobs; of the tasks, lists and statistics, the end of
  a project or a session with what goes with it. A tool's input is read by the schema, and
  \<open>JSON.stringify\<close> of an input and the label of a scope are functions of the toolbox. \<open>PROJECT.json\<close> lists every part and why.
\<close>

end
